(* ===== verification/Prelude.thy ===== *)
theory Prelude
  imports Complex_Main "HOL-Library.Word"
begin

text \<open>
  The vocabulary every component theory of the development shares: the result type of fallible
  operations (\<open>ptl::Result\<close>), the ordered associative container the C++ iterates
  (\<open>std::map\<close>), the interface a keyed store promises its clients, the interface of a
  machine whose steps keep an invariant, and the collections of facts the component proofs
  simplify with.
\<close>

section \<open>Fact collections\<close>

named_theorems f64_sem \<open>binary64 operations read as real arithmetic followed by one rounding\<close>
named_theorems omap_simps \<open>lookups after updates of an ordered map\<close>
named_theorems frame \<open>fields an operation leaves alone\<close>

section \<open>Results\<close>

text \<open>
  \<open>ptl::Result<T>\<close> is \<open>std::expected<T, Error>\<close>: a value or an error. The left
  summand holds the error.
\<close>

type_synonym ('e, 'a) result = "'e + 'a"

abbreviation Err :: "'e \<Rightarrow> ('e, 'a) result" where
  "Err \<equiv> Inl"

abbreviation Ok :: "'a \<Rightarrow> ('e, 'a) result" where
  "Ok \<equiv> Inr"

definition is_ok :: "('e, 'a) result \<Rightarrow> bool" where
  "is_ok r = (case r of Inl _ \<Rightarrow> False | Inr _ \<Rightarrow> True)"

lemma is_ok_simps [simp]: "is_ok (Inr a)" "\<not> is_ok (Inl e)"
  by (simp_all add: is_ok_def)

lemma is_ok_iff: "is_ok r \<longleftrightarrow> (\<exists>a. r = Inr a)"
  by (cases r) auto

section \<open>Time-ordered logs\<close>

text \<open>A log that refuses an entry stamped before its last one stays sorted.\<close>

lemma sorted_map_snoc:
  "sorted (map g xs) \<Longrightarrow> xs = [] \<or> g (last xs) \<le> g x \<Longrightarrow> sorted (map g (xs @ [x]))"
proof (induction xs)
  case (Cons a xs)
  then have "g a \<le> g x"
    by (cases "xs = []") (auto intro: order_trans dest: last_in_set)
  with Cons show ?case by (auto split: if_splits)
qed simp

section \<open>Ordered maps\<close>

text \<open>
  \<open>std::map\<close> is a list of key/value pairs in strictly increasing key order. Iteration over
  it is iteration over the list, which matters wherever a loop over the map accumulates
  floating-point sums.
\<close>

type_synonym ('k, 'v) omap = "('k \<times> 'v) list"

definition om_inv :: "('k::linorder, 'v) omap \<Rightarrow> bool" where
  "om_inv m \<longleftrightarrow> sorted_wrt (<) (map fst m)"

definition om_find :: "('k, 'v) omap \<Rightarrow> 'k \<Rightarrow> 'v option" where
  "om_find m k = map_of m k"

definition om_contains :: "('k, 'v) omap \<Rightarrow> 'k \<Rightarrow> bool" where
  "om_contains m k \<longleftrightarrow> om_find m k \<noteq> None"

fun om_put :: "'k::linorder \<Rightarrow> 'v \<Rightarrow> ('k, 'v) omap \<Rightarrow> ('k, 'v) omap" where
  "om_put k v [] = [(k, v)]"
| "om_put k v ((j, w) # m) =
     (if j < k then (j, w) # om_put k v m
      else if j = k then (k, v) # m
      else (k, v) # (j, w) # m)"

definition om_erase :: "'k \<Rightarrow> ('k, 'v) omap \<Rightarrow> ('k, 'v) omap" where
  "om_erase k m = filter (\<lambda>p. fst p \<noteq> k) m"

definition om_values :: "('k, 'v) omap \<Rightarrow> 'v list" where
  "om_values m = map snd m"

lemma om_find_empty [simp]: "om_find [] k = None"
  by (simp add: om_find_def)

lemma om_find_Cons: "om_find ((j, w) # m) k = (if j = k then Some w else om_find m k)"
  by (simp add: om_find_def)

lemma om_inv_empty [simp]: "om_inv []"
  by (simp add: om_inv_def)

lemma om_inv_Cons [simp]: "om_inv ((k, v) # m) \<longleftrightarrow> (\<forall>j \<in> fst ` set m. k < j) \<and> om_inv m"
  by (auto simp: om_inv_def)

lemma om_find_put [omap_simps]: "om_find (om_put k v m) j = (if j = k then Some v else om_find m j)"
  by (induction m) (auto simp: om_find_Cons)

lemma om_keys_put: "fst ` set (om_put k v m) = insert k (fst ` set m)"
proof (induction m)
  case (Cons p m)
  then show ?case by (cases p) (simp add: insert_commute)
qed simp

lemma om_inv_put [intro]: "om_inv m \<Longrightarrow> om_inv (om_put k v m)"
proof (induction m)
  case (Cons p m)
  obtain j w where p: "p = (j, w)" by (cases p)
  from Cons have less: "\<forall>i \<in> fst ` set m. j < i" and inv: "om_inv m" "om_inv (om_put k v m)"
    by (auto simp: p)
  consider "j < k" | "j = k" | "k < j" by (rule linorder_cases)
  then show ?case
    by cases (use less inv in \<open>auto simp: p om_keys_put intro: order_less_trans\<close>)
qed simp

lemma om_find_erase [omap_simps]: "om_find (om_erase k m) j = (if j = k then None else om_find m j)"
  by (induction m) (auto simp: om_find_Cons om_erase_def)

lemma om_inv_erase [intro]: "om_inv m \<Longrightarrow> om_inv (om_erase k m)"
  by (induction m) (auto simp: om_erase_def)

lemma om_find_in: "om_find m k = Some v \<Longrightarrow> (k, v) \<in> set m"
  by (simp add: om_find_def map_of_SomeD)

lemma om_in_find: "om_inv m \<Longrightarrow> (k, v) \<in> set m \<Longrightarrow> om_find m k = Some v"
  by (induction m) (force simp: om_find_Cons)+

lemma om_in_put: "om_inv m \<Longrightarrow> (j, w) \<in> set (om_put k v m) \<longleftrightarrow>
    (if j = k then w = v else (j, w) \<in> set m)"
  using om_find_in om_in_find om_find_put om_inv_put
  by (metis (no_types, opaque_lifting) option.inject)

section \<open>Interfaces\<close>

text \<open>
  What the components rely on when they keep their records in a \<open>std::map\<close>: a lookup after
  an insertion, and the store's own invariant.
\<close>

locale keyed_store =
  fixes empty :: "'m"
    and find :: "'m \<Rightarrow> 'k \<Rightarrow> 'v option"
    and put :: "'k \<Rightarrow> 'v \<Rightarrow> 'm \<Rightarrow> 'm"
    and wf :: "'m \<Rightarrow> bool"
  assumes find_empty: "find empty k = None"
    and find_put: "find (put k v m) j = (if j = k then Some v else find m j)"
    and wf_empty: "wf empty"
    and wf_put: "wf m \<Longrightarrow> wf (put k v m)"
begin

definition all_records :: "('k \<Rightarrow> 'v \<Rightarrow> bool) \<Rightarrow> 'm \<Rightarrow> bool" where
  "all_records P m \<longleftrightarrow> (\<forall>k v. find m k = Some v \<longrightarrow> P k v)"

lemma all_records_empty: "all_records P empty"
  by (simp add: all_records_def find_empty)

lemma all_records_put: "all_records P m \<Longrightarrow> P k v \<Longrightarrow> all_records P (put k v m)"
  by (simp add: all_records_def find_put)

lemma all_recordsD: "all_records P m \<Longrightarrow> find m k = Some v \<Longrightarrow> P k v"
  by (simp add: all_records_def)

lemma find_put_same: "find (put k v m) k = Some v"
  by (simp add: find_put)

lemma find_put_other: "j \<noteq> k \<Longrightarrow> find (put k v m) j = find m j"
  by (simp add: find_put)

lemma put_keeps_known: "find m j \<noteq> None \<Longrightarrow> find (put k v m) j \<noteq> None"
  by (simp add: find_put)

end

interpretation om: keyed_store "[]" om_find om_put om_inv
  by unfold_locales (auto simp: omap_simps)

text \<open>
  A machine whose single step keeps an invariant keeps it along every run, and whatever one step
  only ever moves up a preorder stays above its start.
\<close>

locale stepped =
  fixes step :: "'i \<Rightarrow> 's \<Rightarrow> 's"
    and inv :: "'s \<Rightarrow> bool"
  assumes step_inv: "inv s \<Longrightarrow> inv (step i s)"
begin

definition run :: "'i list \<Rightarrow> 's \<Rightarrow> 's" where
  "run is s = fold step is s"

lemma run_Nil: "run [] s = s"
  by (simp add: run_def)

lemma run_Cons: "run (i # is) s = run is (step i s)"
  by (simp add: run_def)

lemma run_inv: "inv s \<Longrightarrow> inv (run is s)"
  by (induction "is" arbitrary: s) (auto simp: run_Nil run_Cons step_inv)

lemma run_ascends:
  assumes refl: "\<And>s. R s s" and trans: "\<And>a b c. R a b \<Longrightarrow> R b c \<Longrightarrow> R a c"
    and step: "\<And>i s. inv s \<Longrightarrow> R s (step i s)"
  shows "inv s \<Longrightarrow> R s (run is s)"
proof (induction "is" arbitrary: s)
  case (Cons i "is")
  then have "R s (step i s)" and "R (step i s) (run is (step i s))"
    by (simp_all add: step step_inv)
  then show ?case unfolding run_Cons by (rule trans)
qed (simp add: run_Nil refl)

end

end
