(* ===== verification/Float64.thy ===== *)
theory Float64
  imports Prelude "HOL-Library.Log_Nat"
begin

text \<open>
  The C++ type \<open>double\<close>: IEEE 754 binary64 with round-to-nearest, ties to even. Every price,
  quantity, notional and rate of the library is one (\<open>include/ptl/core/types.hpp\<close>, the
  \<open>NamedType\<close> wrappers add no arithmetic of their own), so the components are modelled over
  this type and not over the reals: rounding, overflow, infinities, NaN and the sign of zero all
  behave as in the program. The translation assumes what the build assumes: each C++ operator is one
  correctly rounded binary64 operation (no extended precision, no contraction into fused operations).

  Definitions compute, so closed instances evaluate by \<open>simp add: f64_eval\<close>. The lemmas read
  an operation on finite arguments as the real operation followed by one rounding, and state what
  survives rounding: monotonicity, signs, exactness on small integers, the half-ulp error bound.
\<close>

section \<open>Powers of two and the binary exponent\<close>

definition flog2 :: "real \<Rightarrow> int" where
  "flog2 x = (if 1 \<le> x then bitlen \<lfloor>x\<rfloor> - 1 else - bitlen (\<lceil>1 / x\<rceil> - 1))"

lemma powi2_pos [simp]: "0 < (2::real) powi e"
  by simp

lemma powi2_add: "(2::real) powi (a + b) = 2 powi a * 2 powi b"
  by (simp add: power_int_add)

lemma powi2_le_iff: "(2::real) powi a \<le> 2 powi b \<longleftrightarrow> a \<le> b"
  by (metis leD linorder_le_less_linear one_less_numeral_iff power_int_increasing
      power_int_strict_increasing semiring_norm(76) less_imp_le)

lemma powi2_less_iff: "(2::real) powi a < 2 powi b \<longleftrightarrow> a < b"
  using powi2_le_iff by (metis linorder_not_le)

lemma flog2_bounds:
  assumes "0 < x"
  shows "2 powi flog2 x \<le> x" and "x < 2 powi (flog2 x + 1)"
proof -
  have "2 powi flog2 x \<le> x \<and> x < 2 powi (flog2 x + 1)"
  proof (cases "1 \<le> x")
    case True
    define n where "n = \<lfloor>x\<rfloor>"
    from True have n: "1 \<le> n" by (simp add: n_def)
    then have b: "2 ^ nat (bitlen n - 1) \<le> n \<and> n < 2 ^ nat (bitlen n)"
      by (intro bitlen_bounds) simp
    have bl: "1 \<le> bitlen n"
    proof (rule ccontr)
      assume "\<not> 1 \<le> bitlen n"
      then have "nat (bitlen n) = 0" by simp
      with b n show False by simp
    qed
    have "2 powi (bitlen n - 1) = (2::real) ^ nat (bitlen n - 1)"
      using bl by (simp add: power_int_nonneg_exp)
    also have "\<dots> \<le> of_int n" using b
      by (metis of_int_le_iff of_int_numeral of_int_power)
    also have "\<dots> \<le> x" by (simp add: n_def)
    finally have lo: "2 powi (bitlen n - 1) \<le> x" .
    have "n + 1 \<le> 2 ^ nat (bitlen n)" using b by simp
    then have "of_int (n + 1) \<le> (2::real) ^ nat (bitlen n)"
      by (metis of_int_le_iff of_int_numeral of_int_power)
    moreover have "x < of_int (n + 1)" unfolding n_def by linarith
    ultimately have "x < 2 powi bitlen n"
      using bl by (simp add: power_int_nonneg_exp)
    with lo True show ?thesis by (simp add: flog2_def n_def)
  next
    case False
    define y where "y = 1 / x"
    define n where "n = \<lceil>y\<rceil> - 1"
    from False assms have y: "1 < y" by (simp add: y_def)
    then have n: "1 \<le> n" unfolding n_def by linarith
    then have b: "2 ^ nat (bitlen n - 1) \<le> n \<and> n < 2 ^ nat (bitlen n)"
      by (intro bitlen_bounds) simp
    have bl: "1 \<le> bitlen n"
    proof (rule ccontr)
      assume "\<not> 1 \<le> bitlen n"
      then have "nat (bitlen n) = 0" by simp
      with b n show False by simp
    qed
    have "n + 1 \<le> 2 ^ nat (bitlen n)" using b by simp
    then have "of_int (n + 1) \<le> (2::real) ^ nat (bitlen n)"
      by (metis of_int_le_iff of_int_numeral of_int_power)
    moreover have "y \<le> of_int (n + 1)" unfolding n_def by simp
    ultimately have up: "y \<le> 2 powi bitlen n"
      using bl by (simp add: power_int_nonneg_exp)
    have "(2::real) ^ nat (bitlen n - 1) \<le> of_int n" using b
      by (metis of_int_le_iff of_int_numeral of_int_power)
    moreover have "of_int n < y" unfolding n_def by linarith
    ultimately have "(2::real) ^ nat (bitlen n - 1) < y" by linarith
    then have lo: "2 powi (bitlen n - 1) < y"
      using bl by (simp add: power_int_nonneg_exp)
    have xy: "x = 1 / y" using assms by (simp add: y_def)
    have "2 powi (- bitlen n) \<le> x"
      using up y by (simp add: xy power_int_minus_divide frac_le)
    moreover have "x < 2 powi (- (bitlen n - 1))"
      using lo y unfolding xy power_int_minus_divide
      by (intro divide_strict_left_mono) (auto intro: mult_pos_pos)
    ultimately show ?thesis using False by (simp add: flog2_def n_def y_def)
  qed
  then show "2 powi flog2 x \<le> x" and "x < 2 powi (flog2 x + 1)" by auto
qed

lemma flog2_eqI:
  assumes "2 powi e \<le> x" and "x < 2 powi (e + 1)"
  shows "flog2 x = e"
proof -
  have "0 < x" using assms(1) powi2_pos by (rule order_less_le_trans [rotated])
  from flog2_bounds [OF this] assms have "(2::real) powi flog2 x < 2 powi (e + 1)"
    and "(2::real) powi e < 2 powi (flog2 x + 1)" by linarith+
  then show ?thesis by (simp add: powi2_less_iff)
qed

lemma flog2_mono: "0 < x \<Longrightarrow> x \<le> y \<Longrightarrow> flog2 x \<le> flog2 y"
proof -
  assume "0 < x" "x \<le> y"
  then have "(2::real) powi flog2 x < 2 powi (flog2 y + 1)"
    using flog2_bounds [of x] flog2_bounds [of y] by linarith
  then show ?thesis by (simp add: powi2_less_iff)
qed


section \<open>Rounding to nearest, ties to even\<close>

definition rne :: "real \<Rightarrow> int" where
  "rne x = (let f = \<lfloor>x\<rfloor>; d = x - of_int f in
     if d < 1 / 2 then f else if 1 / 2 < d then f + 1 else if even f then f else f + 1)"

lemma rne_of_int [simp]: "rne (of_int n) = n"
  by (simp add: rne_def)

lemma rne_between: "\<lfloor>x\<rfloor> \<le> rne x" "rne x \<le> \<lfloor>x\<rfloor> + 1"
  by (auto simp: rne_def Let_def)

lemma rne_error: "\<bar>of_int (rne x) - x\<bar> \<le> 1 / 2"
  unfolding rne_def Let_def by (auto split: if_splits)

lemma rne_mono:
  assumes "x \<le> y"
  shows "rne x \<le> rne y"
proof (cases "\<lfloor>x\<rfloor> = \<lfloor>y\<rfloor>")
  case True
  with assms show ?thesis by (auto simp: rne_def Let_def)
next
  case False
  with assms have "\<lfloor>x\<rfloor> + 1 \<le> \<lfloor>y\<rfloor>"
    using floor_mono [OF assms] by linarith
  then show ?thesis using rne_between [of x] rne_between [of y] by linarith
qed

lemma rne_minus: "rne (- x) = - rne x"
proof (cases "x = of_int \<lfloor>x\<rfloor>")
  case True
  then show ?thesis by (metis of_int_minus rne_of_int)
next
  case False
  then have "\<lfloor>- x\<rfloor> = - \<lfloor>x\<rfloor> - 1" by linarith
  then show ?thesis by (auto simp: rne_def Let_def)
qed

text \<open>
  \<open>uexp x\<close> is the exponent of the unit in the last place of the binary64 number nearest to
  \<open>x\<close>: 52 places below the leading bit, and never below the subnormal grid.
\<close>

definition uexp :: "real \<Rightarrow> int" where
  "uexp x = max (flog2 \<bar>x\<bar> - 52) (- 1074)"

definition rnd :: "real \<Rightarrow> real" where
  "rnd x = (if x = 0 then 0
            else of_int (rne (x / 2 powi uexp x)) * 2 powi uexp x)"

lemma rnd_0 [simp]: "rnd 0 = 0"
  by (simp add: rnd_def)

lemma uexp_minus [simp]: "uexp (- x) = uexp x"
  by (simp add: uexp_def)

lemma rnd_minus: "rnd (- x) = - rnd x"
  by (simp add: rnd_def rne_minus)

lemma uexp_ge: "- 1074 \<le> uexp x"
  by (simp add: uexp_def)

lemma uexp_mono: "0 < x \<Longrightarrow> x \<le> y \<Longrightarrow> uexp x \<le> uexp y"
  using flog2_mono [of x y] by (simp add: uexp_def)

lemma scaled_power_int: "(0::int) \<le> k \<Longrightarrow> (2::real) powi k = of_int (2 ^ nat k)"
  by (simp add: power_int_nonneg_exp)

text \<open>A power of two on or above the grid of \<open>x\<close> bounds \<open>rnd x\<close> the way it bounds \<open>x\<close>.\<close>

lemma rnd_le_power:
  assumes "0 < x" "x \<le> 2 powi k" "uexp x \<le> k"
  shows "rnd x \<le> 2 powi k"
proof -
  have "x / 2 powi uexp x \<le> 2 powi k / 2 powi uexp x"
    using assms(2) by (simp add: divide_right_mono)
  also have "\<dots> = of_int (2 ^ nat (k - uexp x))"
    using assms(3) by (simp add: power_int_nonneg_exp flip: power_int_diff)
  finally have "rne (x / 2 powi uexp x) \<le> 2 ^ nat (k - uexp x)"
    using rne_mono by (metis rne_of_int)
  then have "of_int (rne (x / 2 powi uexp x)) \<le> (2::real) powi (k - uexp x)"
    using assms(3) by (metis diff_ge_0_iff_ge of_int_le_iff scaled_power_int)
  then have "of_int (rne (x / 2 powi uexp x)) * 2 powi uexp x \<le> 2 powi (k - uexp x) * (2::real) powi uexp x"
    by (rule mult_right_mono) simp
  then show ?thesis using assms(1) by (simp add: rnd_def flip: powi2_add)
qed

lemma rnd_ge_power:
  assumes "2 powi k \<le> y" "uexp y \<le> k"
  shows "2 powi k \<le> rnd y"
proof -
  have y: "0 < y" using assms(1) powi2_pos [of k] by linarith
  have "of_int (2 ^ nat (k - uexp y)) = (2::real) powi k / 2 powi uexp y"
    using assms(2) by (simp add: power_int_nonneg_exp flip: power_int_diff)
  also have "\<dots> \<le> y / 2 powi uexp y" using assms(1) by (simp add: divide_right_mono)
  finally have "2 ^ nat (k - uexp y) \<le> rne (y / 2 powi uexp y)"
    using rne_mono by (metis rne_of_int)
  then have "(2::real) powi (k - uexp y) \<le> of_int (rne (y / 2 powi uexp y))"
    using assms(2) by (metis diff_ge_0_iff_ge of_int_le_iff scaled_power_int)
  then have "2 powi (k - uexp y) * (2::real) powi uexp y \<le> of_int (rne (y / 2 powi uexp y)) * 2 powi uexp y"
    by (rule mult_right_mono) simp
  then show ?thesis using y by (simp add: rnd_def flip: powi2_add)
qed

lemma rnd_mono_pos:
  assumes "0 < x" "x \<le> y"
  shows "rnd x \<le> rnd y"
proof (cases "uexp x = uexp y")
  case True
  have "x / 2 powi uexp y \<le> y / 2 powi uexp y"
    using assms by (simp add: divide_right_mono)
  then have "of_int (rne (x / 2 powi uexp y)) \<le> (of_int (rne (y / 2 powi uexp y)) :: real)"
    using rne_mono of_int_le_iff by blast
  with True assms show ?thesis by (simp add: rnd_def)
next
  case False
  with uexp_mono [OF assms] have lt: "uexp x < uexp y" by simp
  then have fy: "uexp y = flog2 y - 52" and "flog2 x - 52 < flog2 y - 52"
    using assms by (auto simp: uexp_def max_def split: if_splits)
  then have "(2::real) powi (flog2 x + 1) \<le> 2 powi flog2 y"
    by (simp add: powi2_le_iff)
  with flog2_bounds [OF assms(1)] have "x \<le> 2 powi flog2 y" by linarith
  then have "rnd x \<le> 2 powi flog2 y"
    using assms(1) lt fy by (intro rnd_le_power) simp_all
  also have "\<dots> \<le> rnd y"
    using assms fy by (intro rnd_ge_power) (auto intro: flog2_bounds)
  finally show ?thesis .
qed

lemma rnd_nonneg: "0 \<le> x \<Longrightarrow> 0 \<le> rnd x"
proof (cases "x = 0")
  case False
  assume "0 \<le> x"
  with False have "0 \<le> x / 2 powi uexp x" by simp
  then have "0 \<le> rne (x / 2 powi uexp x)" using rne_mono rne_of_int [of 0] by fastforce
  then show ?thesis by (simp add: rnd_def)
qed simp

lemma rnd_mono:
  assumes "x \<le> y"
  shows "rnd x \<le> rnd y"
proof -
  consider "0 < x" | "x \<le> 0" "0 \<le> y" | "y < 0" by linarith
  then show ?thesis
  proof cases
    case 1
    then show ?thesis using assms by (rule rnd_mono_pos)
  next
    case 2
    then show ?thesis using rnd_nonneg [of y] rnd_nonneg [of "- x"] by (simp add: rnd_minus)
  next
    case 3
    then have "rnd (- y) \<le> rnd (- x)" using assms by (intro rnd_mono_pos) simp_all
    then show ?thesis by (simp add: rnd_minus)
  qed
qed

section \<open>Representable numbers\<close>

lemma rnd_scaled_int_less:
  assumes "\<bar>m\<bar> < 2 ^ 53" "- 1074 \<le> e"
  shows "rnd (of_int m * 2 powi e) = of_int m * 2 powi e"
proof (cases "m = 0")
  case False
  define x :: real where "x = of_int m * 2 powi e"
  have ax: "\<bar>x\<bar> = of_int \<bar>m\<bar> * 2 powi e" by (simp add: x_def abs_mult)
  have "real_of_int \<bar>m\<bar> < 2 ^ 53"
    using assms(1) by (metis of_int_less_iff of_int_numeral of_int_power)
  then have "\<bar>x\<bar> < 2 ^ 53 * 2 powi e"
    unfolding ax by (rule mult_strict_right_mono) simp
  also have "2 ^ 53 * 2 powi e = (2::real) powi (53 + e)"
    by (simp add: powi2_add)
  finally have lt: "\<bar>x\<bar> < 2 powi (53 + e)" .
  have pos: "0 < \<bar>x\<bar>" using False by (simp add: x_def)
  have "flog2 \<bar>x\<bar> < 53 + e"
    using flog2_bounds(1) [OF pos] lt powi2_less_iff by (meson order_le_less_trans)
  then have ue: "uexp x \<le> e" using assms(2) by (simp add: uexp_def)
  have "x / 2 powi uexp x = of_int m * 2 powi (e - uexp x)"
    by (simp add: x_def power_int_diff)
  also have "\<dots> = of_int (m * 2 ^ nat (e - uexp x))"
    using ue by (simp add: power_int_nonneg_exp)
  finally have "rne (x / 2 powi uexp x) = m * 2 ^ nat (e - uexp x)"
    by (simp only: rne_of_int)
  then have "rnd x = of_int m * 2 powi (e - uexp x) * 2 powi uexp x"
    using pos ue by (simp add: rnd_def power_int_nonneg_exp)
  then show ?thesis by (simp add: x_def mult.assoc flip: powi2_add)
qed simp

lemma rnd_scaled_int:
  assumes "\<bar>m\<bar> \<le> 2 ^ 53" "- 1074 \<le> e"
  shows "rnd (of_int m * 2 powi e) = of_int m * 2 powi e"
proof (cases "\<bar>m\<bar> = 2 ^ 53")
  case True
  then obtain s :: int where s: "\<bar>s\<bar> = 1" "m = s * 2 ^ 52 * 2"
    by (cases "0 \<le> m") (force intro: that [of 1], force intro: that [of "-1"])
  then have "of_int m * 2 powi e = of_int (s * 2 ^ 52) * (2::real) powi (e + 1)"
    by (simp add: powi2_add)
  moreover have "rnd (of_int (s * 2 ^ 52) * (2::real) powi (e + 1)) = of_int (s * 2 ^ 52) * 2 powi (e + 1)"
    using s assms(2) by (intro rnd_scaled_int_less) (simp_all add: abs_mult)
  ultimately show ?thesis by simp
next
  case False
  with assms show ?thesis by (intro rnd_scaled_int_less) simp_all
qed

lemma rnd_form: "\<exists>m. rnd x = of_int m * 2 powi uexp x \<and> \<bar>m\<bar> \<le> 2 ^ 53"
proof (cases "x = 0")
  case False
  then have pos: "0 < \<bar>x\<bar>" by simp
  have "\<bar>x\<bar> < 2 powi (flog2 \<bar>x\<bar> + 1)" using flog2_bounds(2) [OF pos] .
  also have "\<dots> \<le> 2 powi (53 + uexp x)"
    unfolding powi2_le_iff by (simp add: uexp_def)
  also have "\<dots> = 2 ^ 53 * 2 powi uexp x" by (simp add: powi2_add)
  finally have "\<bar>x\<bar> / 2 powi uexp x < 2 ^ 53"
    by (simp add: divide_less_eq)
  then have "\<bar>x / 2 powi uexp x\<bar> < 2 ^ 53" by (simp only: abs_divide) simp
  then have "x / 2 powi uexp x < 2 ^ 53" "- (2 ^ 53) < x / 2 powi uexp x"
    by (simp_all only: abs_less_iff) linarith
  then have "x / 2 powi uexp x \<le> of_int (2 ^ 53)" "of_int (- (2 ^ 53)) \<le> x / 2 powi uexp x"
    by simp_all
  then have "rne (x / 2 powi uexp x) \<le> 2 ^ 53" "- (2 ^ 53) \<le> rne (x / 2 powi uexp x)"
    using rne_mono by (metis rne_of_int)+
  with False show ?thesis by (auto simp: rnd_def intro!: exI [of _ "rne (x / 2 powi uexp x)"])
qed (auto intro: exI [of _ 0])

lemma rnd_idem [simp]: "rnd (rnd x) = rnd x"
proof -
  obtain m where "rnd x = of_int m * 2 powi uexp x" "\<bar>m\<bar> \<le> 2 ^ 53"
    using rnd_form by blast
  then show ?thesis using rnd_scaled_int [OF _ uexp_ge] by metis
qed

lemma rnd_double:
  assumes "rnd x = x" shows "rnd (2 * x) = 2 * x"
proof -
  obtain m where m: "rnd x = of_int m * 2 powi uexp x" "\<bar>m\<bar> \<le> 2 ^ 53" using rnd_form by blast
  have "2 * x = of_int m * 2 powi (uexp x + 1)"
    using m(1) assms by (simp add: power_int_add)
  then show ?thesis using rnd_scaled_int [OF m(2), of "uexp x + 1"] uexp_ge [of x] by simp
qed

lemma rnd_of_int [simp]: "\<bar>n\<bar> \<le> 2 ^ 53 \<Longrightarrow> rnd (of_int n) = of_int n"
  using rnd_scaled_int [of n 0] by simp

lemma rnd_error: "\<bar>rnd x - x\<bar> \<le> 2 powi uexp x / 2"
proof (cases "x = 0")
  case False
  define u :: real where "u = 2 powi uexp x"
  have u: "0 < u" by (simp add: u_def)
  have "rnd x - x = (of_int (rne (x / u)) - x / u) * u"
    using False u by (simp add: rnd_def u_def field_simps)
  then have "\<bar>rnd x - x\<bar> = \<bar>of_int (rne (x / u)) - x / u\<bar> * u"
    using u by (simp add: abs_mult)
  also have "\<dots> \<le> 1 / 2 * u" using rne_error u by (intro mult_right_mono) auto
  finally show ?thesis by (simp add: u_def)
qed simp

lemma rnd_relative_error:
  assumes "2 powi (- 1022) \<le> \<bar>x\<bar>"
  shows "\<bar>rnd x - x\<bar> \<le> \<bar>x\<bar> * 2 powi (- 53)"
proof -
  have pos: "0 < \<bar>x\<bar>" using assms powi2_pos [of "- 1022"] by linarith
  have "(2::real) powi (- 1022) < 2 powi (flog2 \<bar>x\<bar> + 1)"
    using assms flog2_bounds(2) [OF pos] by linarith
  then have "- 1022 < flog2 \<bar>x\<bar> + 1" by (simp only: powi2_less_iff)
  then have "uexp x = flog2 \<bar>x\<bar> - 52" by (simp add: uexp_def)
  then have "2 powi uexp x / 2 = (2::real) powi flog2 \<bar>x\<bar> * 2 powi (- 53)"
    by (simp add: power_int_diff power_int_minus)
  also have "\<dots> \<le> \<bar>x\<bar> * 2 powi (- 53)"
    using flog2_bounds(1) [OF pos] by (intro mult_right_mono) auto
  finally show ?thesis using rnd_error [of x] by linarith
qed

section \<open>The values of type double\<close>

text \<open>
  The five kinds of binary64 value: not-a-number, the two infinities, negative zero, and the
  finite numbers (\<open>Fin 0\<close> is positive zero). NaN payloads are not distinguished.
\<close>

datatype f64 = NaN | PInf | NInf | NZero | Fin real

type_synonym Price = f64
type_synonym Qty = f64
type_synonym Volume = f64
type_synonym Notional = f64
type_synonym Bps = f64

fun val :: "f64 \<Rightarrow> real" where
  "val (Fin r) = r"
| "val _ = 0"

fun fin :: "f64 \<Rightarrow> bool" where
  "fin (Fin _) = True"
| "fin NZero = True"
| "fin _ = False"

fun is_nan :: "f64 \<Rightarrow> bool" where
  "is_nan NaN = True"
| "is_nan _ = False"

fun negative :: "f64 \<Rightarrow> bool" where
  "negative NInf = True"
| "negative NZero = True"
| "negative (Fin r) = (r < 0)"
| "negative _ = False"

definition fzero :: f64 where
  "fzero = Fin 0"

definition f64_lim :: real where
  "f64_lim = 2 ^ 1024"

lemma f64_lim_pos [simp]: "0 < f64_lim" "\<not> f64_lim \<le> 0"
  by (simp_all add: f64_lim_def)

text \<open>Round a real number into the format, overflowing to an infinity at \<open>2\<^sup>1\<^sup>0\<^sup>2\<^sup>4\<close>.\<close>

definition lit :: "real \<Rightarrow> f64" where
  "lit r = (let x = rnd r in
     if f64_lim \<le> x then PInf
     else if x \<le> - f64_lim then NInf
     else if x = 0 \<and> r < 0 then NZero
     else Fin x)"

text \<open>The values a double can actually hold: a finite one lies on the binary64 grid.\<close>

definition is_f64 :: "f64 \<Rightarrow> bool" where
  "is_f64 x \<longleftrightarrow> (case x of Fin r \<Rightarrow> rnd r = r \<and> \<bar>r\<bar> < f64_lim | _ \<Rightarrow> True)"

section \<open>Arithmetic\<close>

definition signed_zero :: "bool \<Rightarrow> f64" where
  "signed_zero s = (if s then NZero else Fin 0)"

definition signed_inf :: "bool \<Rightarrow> f64" where
  "signed_inf s = (if s then NInf else PInf)"

fun fneg :: "f64 \<Rightarrow> f64" where
  "fneg NaN = NaN"
| "fneg PInf = NInf"
| "fneg NInf = PInf"
| "fneg NZero = Fin 0"
| "fneg (Fin r) = (if r = 0 then NZero else Fin (- r))"

fun fabs :: "f64 \<Rightarrow> f64" where
  "fabs NaN = NaN"
| "fabs PInf = PInf"
| "fabs NInf = PInf"
| "fabs NZero = Fin 0"
| "fabs (Fin r) = Fin \<bar>r\<bar>"

definition fadd :: "f64 \<Rightarrow> f64 \<Rightarrow> f64" where
  "fadd a b =
     (if is_nan a \<or> is_nan b then NaN
      else if \<not> fin a then (if fin b \<or> a = b then a else NaN)
      else if \<not> fin b then b
      else if a = NZero \<and> b = NZero then NZero
      else lit (val a + val b))"

definition fsub :: "f64 \<Rightarrow> f64 \<Rightarrow> f64" where
  "fsub a b = fadd a (fneg b)"

definition fmul :: "f64 \<Rightarrow> f64 \<Rightarrow> f64" where
  "fmul a b =
     (let s = (negative a \<noteq> negative b) in
      if is_nan a \<or> is_nan b then NaN
      else if \<not> fin a \<or> \<not> fin b
        then (if (fin a \<and> val a = 0) \<or> (fin b \<and> val b = 0) then NaN else signed_inf s)
      else if val a * val b = 0 then signed_zero s
      else lit (val a * val b))"

definition fdiv :: "f64 \<Rightarrow> f64 \<Rightarrow> f64" where
  "fdiv a b =
     (let s = (negative a \<noteq> negative b) in
      if is_nan a \<or> is_nan b then NaN
      else if \<not> fin a then (if fin b then signed_inf s else NaN)
      else if \<not> fin b then signed_zero s
      else if val b = 0 then (if val a = 0 then NaN else signed_inf s)
      else if val a = 0 then signed_zero s
      else lit (val a / val b))"

section \<open>Comparison\<close>

text \<open>Comparisons with a NaN are false, and the two zeros are equal.\<close>

definition flt :: "f64 \<Rightarrow> f64 \<Rightarrow> bool" where
  "flt a b =
     (if is_nan a \<or> is_nan b then False
      else if a = PInf \<or> b = NInf then False
      else if a = NInf \<or> b = PInf then True
      else val a < val b)"

definition feq :: "f64 \<Rightarrow> f64 \<Rightarrow> bool" where
  "feq a b =
     (if is_nan a \<or> is_nan b then False
      else if fin a \<and> fin b then val a = val b
      else a = b)"

definition fle :: "f64 \<Rightarrow> f64 \<Rightarrow> bool" where
  "fle a b \<longleftrightarrow> flt a b \<or> feq a b"

text \<open>\<open>std::min\<close> and \<open>std::max\<close> return their first argument unless the comparison holds.\<close>

definition fmin :: "f64 \<Rightarrow> f64 \<Rightarrow> f64" where
  "fmin a b = (if flt b a then b else a)"

definition fmax :: "f64 \<Rightarrow> f64 \<Rightarrow> f64" where
  "fmax a b = (if flt a b then b else a)"

definition of_int64 :: "int \<Rightarrow> f64" where
  "of_int64 n = lit (of_int n)"

text \<open>The correctly rounded square root of IEEE 754.\<close>

definition fsqrt :: "f64 \<Rightarrow> f64" where
  "fsqrt a =
     (if is_nan a \<or> flt a fzero then NaN
      else if \<not> fin a then PInf
      else if val a = 0 then a
      else lit (sqrt (val a)))"

section \<open>Reading operations as real arithmetic\<close>

lemma fin_cases: "fin a \<longleftrightarrow> a \<noteq> NaN \<and> a \<noteq> PInf \<and> a \<noteq> NInf"
  by (cases a) auto

lemma fin_not_nan [simp]: "fin a \<Longrightarrow> \<not> is_nan a"
  by (cases a) auto

lemma is_nan_iff: "is_nan a \<longleftrightarrow> a = NaN"
  by (cases a) auto

lemma fzero_sem [simp]: "val fzero = 0" "fin fzero" "\<not> is_nan fzero" "\<not> negative fzero" "is_f64 fzero"
  by (simp_all add: fzero_def is_f64_def)

lemma lit_not_nan [simp]: "\<not> is_nan (lit r)"
  by (auto simp: lit_def Let_def)

lemma lit_val: "fin (lit r) \<Longrightarrow> val (lit r) = rnd r"
  by (auto simp: lit_def Let_def split: if_splits)

lemma lit_fin_iff: "fin (lit r) \<longleftrightarrow> \<bar>rnd r\<bar> < f64_lim"
  by (auto simp: lit_def Let_def split: if_splits)

lemma is_f64_lit [simp]: "is_f64 (lit r)"
  by (auto simp: lit_def Let_def is_f64_def)

lemma lit_0 [simp]: "lit 0 = Fin 0"
  by (simp add: lit_def)

lemma flt_fin [f64_sem]: "fin a \<Longrightarrow> fin b \<Longrightarrow> flt a b \<longleftrightarrow> val a < val b"
  by (cases a; cases b) (auto simp: flt_def)

lemma feq_fin [f64_sem]: "fin a \<Longrightarrow> fin b \<Longrightarrow> feq a b \<longleftrightarrow> val a = val b"
  by (simp add: feq_def)

lemma fle_fin [f64_sem]: "fin a \<Longrightarrow> fin b \<Longrightarrow> fle a b \<longleftrightarrow> val a \<le> val b"
  by (auto simp: fle_def f64_sem)

lemma fneg_sem [simp]: "fin (fneg a) \<longleftrightarrow> fin a" "val (fneg a) = - val a"
  "is_nan (fneg a) \<longleftrightarrow> is_nan a"
  by (cases a; simp)+

lemma fabs_sem [simp]: "fin (fabs a) \<longleftrightarrow> fin a" "val (fabs a) = \<bar>val a\<bar>"
  "is_nan (fabs a) \<longleftrightarrow> is_nan a" "\<not> negative (fabs a)"
  by (cases a; simp)+

lemma fadd_val: "fin a \<Longrightarrow> fin b \<Longrightarrow> fin (fadd a b) \<Longrightarrow> val (fadd a b) = rnd (val a + val b)"
  by (auto simp: fadd_def lit_val split: if_splits)

lemma fmul_val: "fin a \<Longrightarrow> fin b \<Longrightarrow> fin (fmul a b) \<Longrightarrow> val (fmul a b) = rnd (val a * val b)"
  by (auto simp: fmul_def Let_def lit_val signed_zero_def split: if_splits)

lemma fdiv_val: "fin a \<Longrightarrow> fin b \<Longrightarrow> fin (fdiv a b) \<Longrightarrow> val (fdiv a b) = rnd (val a / val b)"
  by (auto simp: fdiv_def Let_def lit_val signed_zero_def signed_inf_def split: if_splits)

lemma fsub_val: "fin a \<Longrightarrow> fin b \<Longrightarrow> fin (fsub a b) \<Longrightarrow> val (fsub a b) = rnd (val a - val b)"
  by (simp add: fsub_def fadd_val)

lemmas f64_val = fadd_val fsub_val fmul_val fdiv_val

lemma fadd_not_nan: "fin a \<Longrightarrow> fin b \<Longrightarrow> \<not> is_nan (fadd a b)"
  by (auto simp: fadd_def)

lemma fsub_not_nan: "fin a \<Longrightarrow> fin b \<Longrightarrow> \<not> is_nan (fsub a b)"
  by (simp add: fsub_def fadd_not_nan)

lemma fmul_not_nan: "fin a \<Longrightarrow> fin b \<Longrightarrow> \<not> is_nan (fmul a b)"
  by (auto simp: fmul_def Let_def signed_zero_def)

lemma fin_fadd_iff: "fin a \<Longrightarrow> fin b \<Longrightarrow> fin (fadd a b) \<longleftrightarrow> \<bar>rnd (val a + val b)\<bar> < f64_lim"
  by (auto simp: fadd_def lit_fin_iff)

lemma fin_fmul_iff: "fin a \<Longrightarrow> fin b \<Longrightarrow> fin (fmul a b) \<longleftrightarrow> \<bar>rnd (val a * val b)\<bar> < f64_lim"
  by (auto simp: fmul_def Let_def signed_zero_def lit_fin_iff)

lemma fin_fadd_args: "fin (fadd a b) \<Longrightarrow> fin a \<and> fin b"
  by (cases a; cases b) (auto simp: fadd_def)

lemma fin_fsub_args: "fin (fsub a b) \<Longrightarrow> fin a \<and> fin b"
  by (metis fin_fadd_args fneg_sem(1) fsub_def)

lemma fin_fmul_args: "fin (fmul a b) \<Longrightarrow> fin a \<and> fin b"
  by (cases a; cases b) (auto simp: fmul_def Let_def signed_inf_def split: if_splits)

lemma is_f64_ops [simp]: "is_f64 a \<Longrightarrow> is_f64 (fneg a)" "is_f64 a \<Longrightarrow> is_f64 (fabs a)"
  by (cases a; auto simp: is_f64_def rnd_minus abs_if)+

lemma is_f64_special [simp]: "is_f64 NaN" "is_f64 PInf" "is_f64 NInf" "is_f64 NZero"
  "is_f64 (signed_zero s)" "is_f64 (signed_inf s)"
  by (simp_all add: is_f64_def signed_zero_def signed_inf_def)

lemma is_f64_fadd [simp]: "is_f64 a \<Longrightarrow> is_f64 b \<Longrightarrow> is_f64 (fadd a b)"
  by (simp add: fadd_def)

lemma is_f64_arith [simp]: "is_f64 a \<Longrightarrow> is_f64 b \<Longrightarrow> is_f64 (fsub a b)"
  "is_f64 (fmul a b)" "is_f64 (fdiv a b)" "is_f64 (of_int64 n)"
  by (simp_all add: fsub_def fmul_def fdiv_def of_int64_def Let_def)

lemma is_f64_minmax [simp]: "is_f64 a \<Longrightarrow> is_f64 b \<Longrightarrow> is_f64 (fmin a b)"
  "is_f64 a \<Longrightarrow> is_f64 b \<Longrightarrow> is_f64 (fmax a b)"
  by (simp_all add: fmin_def fmax_def)

lemma is_f64_rnd: "is_f64 a \<Longrightarrow> rnd (val a) = val a"
  by (cases a) (auto simp: is_f64_def)

section \<open>The order of the format\<close>

text \<open>
  Away from NaN the comparisons are a total order (the two zeros being one), with the infinities
  at its ends, and rounding respects it.
\<close>

lemma flt_irrefl [simp]: "\<not> flt a a"
  by (cases a) (auto simp: flt_def)

lemma flt_not_nan: "flt a b \<Longrightarrow> \<not> is_nan a \<and> \<not> is_nan b"
  by (auto simp: flt_def)

lemma fle_not_nan: "fle a b \<Longrightarrow> \<not> is_nan a \<and> \<not> is_nan b"
  by (auto simp: fle_def flt_def feq_def)

lemma flt_asym: "flt a b \<Longrightarrow> \<not> flt b a"
  by (cases a; cases b) (auto simp: flt_def)

lemma flt_fle_trans: "flt a b \<Longrightarrow> fle b c \<Longrightarrow> flt a c"
  by (cases a; cases b; cases c) (auto simp: flt_def fle_def feq_def split: if_splits)

lemma fle_flt_trans: "fle a b \<Longrightarrow> flt b c \<Longrightarrow> flt a c"
  by (cases a; cases b; cases c) (auto simp: flt_def fle_def feq_def split: if_splits)

lemma fle_trans: "fle a b \<Longrightarrow> fle b c \<Longrightarrow> fle a c"
  by (cases a; cases b; cases c) (auto simp: flt_def fle_def feq_def split: if_splits)

lemma fle_refl [simp]: "fle a a \<longleftrightarrow> \<not> is_nan a"
  by (cases a) (auto simp: fle_def flt_def feq_def)

lemma feq_refl [simp]: "feq a a \<longleftrightarrow> \<not> is_nan a"
  by (cases a) (auto simp: feq_def)

lemma not_flt: "\<not> is_nan a \<Longrightarrow> \<not> is_nan b \<Longrightarrow> \<not> flt a b \<longleftrightarrow> fle b a"
  by (cases a; cases b) (auto simp: fle_def flt_def feq_def)

lemma not_fle: "\<not> is_nan a \<Longrightarrow> \<not> is_nan b \<Longrightarrow> \<not> fle a b \<longleftrightarrow> flt b a"
  using not_flt by blast

lemma flt_imp_fle: "flt a b \<Longrightarrow> fle a b"
  by (simp add: fle_def)

lemma fle_PInf: "fle a PInf \<longleftrightarrow> \<not> is_nan a"
  by (cases a) (auto simp: fle_def flt_def feq_def)

lemma fle_NInf: "fle NInf a \<longleftrightarrow> \<not> is_nan a"
  by (cases a) (auto simp: fle_def flt_def feq_def)

lemma lit_mono: "r \<le> s \<Longrightarrow> fle (lit r) (lit s)"
  using rnd_mono [of r s]
  by (auto simp: lit_def Let_def fle_def flt_def feq_def)

lemma lit_is_f64: "is_f64 a \<Longrightarrow> fin a \<Longrightarrow> feq (lit (val a)) a"
  by (cases a) (auto simp: is_f64_def lit_def Let_def feq_def)

lemma feq_fle: "feq a b \<Longrightarrow> fle a b \<and> fle b a"
  by (auto simp: fle_def feq_def split: if_splits)

lemma fin_between: "fle a b \<Longrightarrow> fle b c \<Longrightarrow> fin a \<Longrightarrow> fin c \<Longrightarrow> fin b"
  by (cases a; cases b; cases c) (auto simp: fle_def flt_def feq_def)

lemma fadd_feq_lit: "fin a \<Longrightarrow> fin b \<Longrightarrow> feq (fadd a b) (lit (val a + val b))"
  by (auto simp: fadd_def feq_def)

lemma fmul_feq_lit: "fin a \<Longrightarrow> fin b \<Longrightarrow> feq (fmul a b) (lit (val a * val b))"
  by (auto simp: fmul_def Let_def feq_def signed_zero_def)

lemma fadd_mono:
  assumes "fin a" "fin b" "fin c" "fin d" "val a \<le> val c" "val b \<le> val d"
  shows "fle (fadd a b) (fadd c d)"
proof -
  have "fle (lit (val a + val b)) (lit (val c + val d))" using assms by (intro lit_mono) simp
  then show ?thesis
    using fadd_feq_lit [of a b] fadd_feq_lit [of c d] assms feq_fle fle_trans by meson
qed

lemma fmul_mono:
  assumes "fin a" "fin b" "fin c" "fin d" "val a * val b \<le> val c * val d"
  shows "fle (fmul a b) (fmul c d)"
proof -
  have "fle (lit (val a * val b)) (lit (val c * val d))" using assms by (intro lit_mono) simp
  then show ?thesis
    using fmul_feq_lit [of a b] fmul_feq_lit [of c d] assms feq_fle fle_trans by meson
qed

lemma fin_max_min: "fin a \<Longrightarrow> fin b \<Longrightarrow> fin (fmax a b) \<and> fin (fmin a b)"
  "fin a \<Longrightarrow> fin b \<Longrightarrow> val (fmax a b) = max (val a) (val b)"
  "fin a \<Longrightarrow> fin b \<Longrightarrow> val (fmin a b) = min (val a) (val b)"
  by (auto simp: fmax_def fmin_def f64_sem)

text \<open>Sums and products of integers that stay below \<open>2\<^sup>5\<^sup>3\<close> are exact.\<close>

lemma rnd_int_exact: "x \<in> \<int> \<Longrightarrow> \<bar>x\<bar> \<le> 2 ^ 53 \<Longrightarrow> rnd x = x"
proof -
  assume "x \<in> \<int>" "\<bar>x\<bar> \<le> 2 ^ 53"
  then obtain n where n: "x = of_int n" by (auto elim: Ints_cases)
  with \<open>\<bar>x\<bar> \<le> 2 ^ 53\<close> have "of_int \<bar>n\<bar> \<le> (of_int (2 ^ 53) :: real)" by simp
  then have "\<bar>n\<bar> \<le> 2 ^ 53" by (simp only: of_int_le_iff)
  with n show ?thesis by simp
qed

lemma rnd_numeral_exact: "numeral k \<le> (2 ^ 53 :: int) \<Longrightarrow> rnd (numeral k) = numeral k"
  using rnd_of_int [of "numeral k"] by simp

lemma small_lt_overflow: "\<bar>x\<bar> \<le> 2 ^ 53 \<Longrightarrow> \<bar>x\<bar> < f64_lim"
proof -
  assume "\<bar>x\<bar> \<le> 2 ^ 53"
  also have "(2::real) ^ 53 < f64_lim" unfolding f64_lim_def by (rule power_strict_increasing) auto
  finally show ?thesis .
qed

lemma lit_int_exact: "x \<in> \<int> \<Longrightarrow> \<bar>x\<bar> \<le> 2 ^ 53 \<Longrightarrow> lit x = Fin x"
  using small_lt_overflow [of x] by (auto simp: lit_def Let_def rnd_int_exact abs_less_iff)

lemmas f64_eval = lit_def rnd_def uexp_def flog2_def rne_def f64_lim_def bitlen_def
  compute_floorlog fadd_def fmul_def fsub_def fdiv_def flt_def feq_def fle_def fmin_def fmax_def
  signed_zero_def signed_inf_def of_int64_def fzero_def Let_def

text \<open>
  Operations whose real result is a binary64 value are exact: the rounding changes nothing.
\<close>

definition representable :: "real \<Rightarrow> bool" where
  "representable x \<longleftrightarrow> rnd x = x \<and> \<bar>x\<bar> < f64_lim"

lemma representable_0 [simp]: "representable 0"
  by (simp add: representable_def f64_lim_def)

lemma representable_uminus [simp]: "representable (- x) = representable x"
  by (simp add: representable_def rnd_minus)

lemma representable_int: "x \<in> \<int> \<Longrightarrow> \<bar>x\<bar> \<le> 2 ^ 53 \<Longrightarrow> representable x"
  by (simp add: representable_def rnd_int_exact small_lt_overflow)

lemma representable_numeral: "(numeral k :: real) \<le> 2 ^ 53 \<Longrightarrow> representable (numeral k)"
  by (rule representable_int) simp_all

lemma lit_one [simp]: "lit 1 = Fin 1" "lit (- 1) = Fin (- 1)"
  by (simp_all add: lit_int_exact)

lemma lit_numeral: "(numeral k :: real) \<le> 2 ^ 53 \<Longrightarrow> lit (numeral k) = Fin (numeral k)"
  by (rule lit_int_exact) simp_all

lemma exact_add: "fin a \<Longrightarrow> fin b \<Longrightarrow> representable (val a + val b) \<Longrightarrow>
    fin (fadd a b) \<and> val (fadd a b) = val a + val b"
  by (auto simp: representable_def fadd_def lit_fin_iff lit_val)

lemma exact_sub: "fin a \<Longrightarrow> fin b \<Longrightarrow> representable (val a - val b) \<Longrightarrow>
    fin (fsub a b) \<and> val (fsub a b) = val a - val b"
  using exact_add [of a "fneg b"] by (simp add: fsub_def)

lemma exact_mul: "fin a \<Longrightarrow> fin b \<Longrightarrow> representable (val a * val b) \<Longrightarrow>
    fin (fmul a b) \<and> val (fmul a b) = val a * val b"
  by (auto simp: representable_def fmul_def Let_def lit_fin_iff lit_val signed_zero_def)

lemma exact_div: "fin a \<Longrightarrow> fin b \<Longrightarrow> val b \<noteq> 0 \<Longrightarrow> representable (val a / val b) \<Longrightarrow>
    fin (fdiv a b) \<and> val (fdiv a b) = val a / val b"
  by (auto simp: representable_def fdiv_def Let_def lit_fin_iff lit_val signed_zero_def)

lemmas exact_ops = exact_add exact_sub exact_mul exact_div

text \<open>
  Sums do not underflow: binary64 values are multiples of the least subnormal, so a sum that is not
  zero does not round to zero.
\<close>

lemma is_f64_grid:
  assumes "is_f64 a" shows "\<exists>k :: int. val a = of_int k * 2 powi (- 1074)"
proof -
  obtain m where m: "rnd (val a) = of_int m * 2 powi uexp (val a)" using rnd_form by blast
  define n where "n = nat (uexp (val a) + 1074)"
  have e: "uexp (val a) = int n + (- 1074)" using uexp_ge [of "val a"] by (simp add: n_def)
  have "(2 :: real) powi uexp (val a) = 2 powi int n * 2 powi (- 1074)"
    unfolding e by (rule power_int_add) simp
  then have "val a = of_int (m * 2 ^ n) * 2 powi (- 1074)"
    using m is_f64_rnd [OF assms] by (simp only: power_int_of_nat of_int_mult of_int_power
        of_int_numeral mult.assoc)
  then show ?thesis by blast
qed

lemma rnd_pos_grid: "0 < k \<Longrightarrow> 0 < rnd (of_int k * 2 powi (- 1074))"
proof -
  assume "0 < (k :: int)"
  then have "(1 :: real) * 2 powi (- 1074) \<le> of_int k * 2 powi (- 1074)"
    by (intro mult_right_mono) simp_all
  then have "rnd (of_int 1 * 2 powi (- 1074)) \<le> rnd (of_int k * 2 powi (- 1074))"
    by (intro rnd_mono) simp
  moreover have "rnd (of_int 1 * 2 powi (- 1074)) = of_int 1 * 2 powi (- 1074)"
    by (rule rnd_scaled_int) simp_all
  moreover have "(0 :: real) < 2 powi (- 1074)" by simp
  ultimately show ?thesis by linarith
qed

lemma rnd_grid_eq_0: "rnd (of_int k * 2 powi (- 1074)) = 0 \<longleftrightarrow> k = 0"
  using rnd_pos_grid [of k] rnd_pos_grid [of "- k"] rnd_minus [of "of_int (- k) * 2 powi (- 1074)"]
  by (cases k "0 :: int" rule: linorder_cases) auto

lemma fadd_eq_zero:
  assumes "is_f64 a" "is_f64 b" "fin a" "fin b"
  shows "feq (fadd a b) fzero \<longleftrightarrow> val a + val b = 0"
proof -
  obtain j k where "val a = of_int j * 2 powi (- 1074)" "val b = of_int k * 2 powi (- 1074)"
    using is_f64_grid assms by metis
  then have sum: "val a + val b = of_int (j + k) * 2 powi (- 1074)" by (simp add: distrib_right)
  have "feq (fadd a b) fzero \<longleftrightarrow> rnd (val a + val b) = 0"
  proof (cases "a = NZero \<and> b = NZero")
    case False
    then have "fadd a b = lit (val a + val b)" using assms by (auto simp: fadd_def)
    moreover have "feq (lit r) fzero \<longleftrightarrow> rnd r = 0" for r
      using f64_lim_pos by (auto simp: lit_def Let_def feq_def fzero_def)
    ultimately show ?thesis by simp
  qed (simp add: fadd_def feq_def fzero_def)
  also have "\<dots> \<longleftrightarrow> j + k = 0" unfolding sum by (rule rnd_grid_eq_0)
  also have "\<dots> \<longleftrightarrow> val a + val b = 0"
    unfolding sum by (simp del: of_int_add)
  finally show ?thesis .
qed

end
