(* ===== verification/Core.thy ===== *)
theory Core
  imports Float64
begin

text \<open>
  The foundation layer (\<open>include/ptl/core\<close>, \<open>src/core\<close>): error codes, the money and
  quantity conversions of \<open>types.hpp\<close>, identifiers, the timestamp chain of \<open>time.hpp\<close>,
  the simulated clock and the instrument table.

  A \<open>Timestamp\<close> is a count of nanoseconds since the epoch and a \<open>Duration\<close> a count of
  nanoseconds, both 64-bit in the code. They are integers here: signed overflow is undefined
  behaviour in C++, so a sum or difference stands for the value the code defines.
\<close>

unbundle bit_operations_syntax

section \<open>Errors\<close>

datatype ErrorCode = CodeOk | NotFound | ParseError | InvalidArgument | IoError
  | ValidationFailed | ConfigError | Unsupported

fun to_string_ErrorCode :: "ErrorCode \<Rightarrow> string" where
  "to_string_ErrorCode CodeOk = ''ok''"
| "to_string_ErrorCode NotFound = ''not_found''"
| "to_string_ErrorCode ParseError = ''parse_error''"
| "to_string_ErrorCode InvalidArgument = ''invalid_argument''"
| "to_string_ErrorCode IoError = ''io_error''"
| "to_string_ErrorCode ValidationFailed = ''validation_failed''"
| "to_string_ErrorCode ConfigError = ''config_error''"
| "to_string_ErrorCode Unsupported = ''unsupported''"

record Error =
  err_code :: ErrorCode
  err_message :: string
  err_context :: string

definition describe_Error :: "Error \<Rightarrow> string" where
  "describe_Error e =
     (let out = to_string_ErrorCode (err_code e) @ '': '' @ err_message e in
      if err_context e \<noteq> [] then out @ '' ['' @ err_context e @ '']'' else out)"

text \<open>The FNV-1a hash that names runs and cache keys.\<close>

definition fnv1a64 :: "string \<Rightarrow> 64 word" where
  "fnv1a64 s = fold (\<lambda>c h. (h XOR of_char c) * 0x100000001b3) s 0xcbf29ce484222325"

section \<open>Money, quantity and sides\<close>

datatype Side = Buy | Sell

fun sign_of :: "Side \<Rightarrow> int" where
  "sign_of Buy = 1"
| "sign_of Sell = -1"

fun opposite :: "Side \<Rightarrow> Side" where
  "opposite Buy = Sell"
| "opposite Sell = Buy"

fun to_string_Side :: "Side \<Rightarrow> string" where
  "to_string_Side Buy = ''BUY''"
| "to_string_Side Sell = ''SELL''"

definition participation :: "Qty \<Rightarrow> Volume \<Rightarrow> f64" where
  "participation q v = (if feq v fzero then fzero else fdiv q v)"

definition is_finite :: "f64 \<Rightarrow> bool" where
  "is_finite x \<longleftrightarrow> feq x x \<and> \<not> feq x PInf \<and> \<not> feq x NInf"

definition notional :: "Price \<Rightarrow> Qty \<Rightarrow> Notional" where
  "notional p q = fmul p q"

definition apply_bps :: "Price \<Rightarrow> Bps \<Rightarrow> int \<Rightarrow> Price" where
  "apply_bps p b direction =
     fmul p (fadd (lit 1) (fmul (fmul (of_int64 direction) b) (lit (1 / 10 ^ 4))))"

definition to_bps :: "Price \<Rightarrow> Price \<Rightarrow> Bps" where
  "to_bps p reference =
     (if feq reference fzero then fzero
      else fmul (fsub (fdiv p reference) (lit 1)) (lit (10 ^ 4)))"

text \<open>The signed quantity of an order or a fill: \<open>quantity * static_cast<double>(sign_of(side))\<close>.\<close>

definition signed_qty :: "Side \<Rightarrow> Qty \<Rightarrow> Qty" where
  "signed_qty s q = fmul q (of_int64 (sign_of s))"

lemma is_finite_iff [simp]: "is_finite x \<longleftrightarrow> fin x"
  by (cases x) (auto simp: is_finite_def feq_def)

lemma sign_of_abs [simp]: "\<bar>sign_of s\<bar> = 1" "\<bar>real_of_int (sign_of s)\<bar> = 1"
  by (cases s; simp)+

lemma sign_of_opposite: "sign_of (opposite s) = - sign_of s"
  by (cases s) auto

lemma of_int64_sign [simp]: "of_int64 (sign_of s) = Fin (of_int (sign_of s))"
  by (cases s) (simp_all add: of_int64_def lit_int_exact)

lemma signed_qty_sem:
  assumes "is_f64 q" "fin q"
  shows "fin (signed_qty s q)" "val (signed_qty s q) = of_int (sign_of s) * val q"
proof -
  have b: "\<bar>val q\<bar> < f64_lim" using assms by (cases q) (auto simp: is_f64_def)
  have r: "rnd (val q * of_int (sign_of s)) = of_int (sign_of s) * val q"
    using is_f64_rnd [OF assms(1)] by (cases s) (auto simp: rnd_minus)
  show f: "fin (signed_qty s q)"
    using assms(2) b r by (simp add: signed_qty_def fin_fmul_iff abs_mult)
  show "val (signed_qty s q) = of_int (sign_of s) * val q"
    using assms(2) f r fmul_val [of q "Fin (of_int (sign_of s))"] by (simp add: signed_qty_def)
qed

section \<open>Identifiers\<close>

type_synonym InstrumentId = "32 word"
type_synonym OrderId = "64 word"

definition kInvalidInstrument :: InstrumentId where
  "kInvalidInstrument = 0xFFFFFFFF"

definition kNoOrder :: OrderId where
  "kNoOrder = 0"

section \<open>Timestamps\<close>

type_synonym Timestamp = int
type_synonym Duration = int

definition kNoTimestamp :: Timestamp where
  "kNoTimestamp = - (2 ^ 63)"

definition kMaxTimestamp :: Timestamp where
  "kMaxTimestamp = 2 ^ 63 - 1"

definition is_set :: "Timestamp \<Rightarrow> bool" where
  "is_set ts \<longleftrightarrow> ts \<noteq> kNoTimestamp"

record EventTime =
  ev_exchange :: Timestamp
  ev_receive :: Timestamp

definition feed_latency :: "EventTime \<Rightarrow> Duration" where
  "feed_latency e = ev_receive e - ev_exchange e"

definition event_time_ok :: "EventTime \<Rightarrow> bool" where
  "event_time_ok e \<longleftrightarrow> is_set (ev_exchange e) \<and> is_set (ev_receive e) \<and> ev_exchange e \<le> ev_receive e"

section \<open>The timestamp chain\<close>

datatype Stage = ExchangeTime | ReceiveTime | FeatureEndTime | DecisionTime | SubmittedTime
  | ArrivalTime | FillTime | AckTime | StageCount

fun to_string_Stage :: "Stage \<Rightarrow> string" where
  "to_string_Stage ExchangeTime = ''exchange_time''"
| "to_string_Stage ReceiveTime = ''receive_time''"
| "to_string_Stage FeatureEndTime = ''feature_end_time''"
| "to_string_Stage DecisionTime = ''decision_time''"
| "to_string_Stage SubmittedTime = ''submitted_time''"
| "to_string_Stage ArrivalTime = ''arrival_time''"
| "to_string_Stage FillTime = ''fill_time''"
| "to_string_Stage AckTime = ''ack_time''"
| "to_string_Stage StageCount = ''unknown''"

record LifecycleTimes =
  exchange_time :: Timestamp
  receive_time :: Timestamp
  feature_end_time :: Timestamp
  decision_time :: Timestamp
  submitted_time :: Timestamp
  arrival_time :: Timestamp
  fill_time :: Timestamp
  ack_time :: Timestamp

definition no_times :: LifecycleTimes where
  "no_times = \<lparr>exchange_time = kNoTimestamp, receive_time = kNoTimestamp,
     feature_end_time = kNoTimestamp, decision_time = kNoTimestamp, submitted_time = kNoTimestamp,
     arrival_time = kNoTimestamp, fill_time = kNoTimestamp, ack_time = kNoTimestamp\<rparr>"

fun times_at :: "LifecycleTimes \<Rightarrow> Stage \<Rightarrow> Timestamp" where
  "times_at t ExchangeTime = exchange_time t"
| "times_at t ReceiveTime = receive_time t"
| "times_at t FeatureEndTime = feature_end_time t"
| "times_at t DecisionTime = decision_time t"
| "times_at t SubmittedTime = submitted_time t"
| "times_at t ArrivalTime = arrival_time t"
| "times_at t FillTime = fill_time t"
| "times_at t AckTime = ack_time t"
| "times_at t StageCount = kNoTimestamp"

fun times_set :: "LifecycleTimes \<Rightarrow> Stage \<Rightarrow> Timestamp \<Rightarrow> LifecycleTimes" where
  "times_set t ExchangeTime ts = t\<lparr>exchange_time := ts\<rparr>"
| "times_set t ReceiveTime ts = t\<lparr>receive_time := ts\<rparr>"
| "times_set t FeatureEndTime ts = t\<lparr>feature_end_time := ts\<rparr>"
| "times_set t DecisionTime ts = t\<lparr>decision_time := ts\<rparr>"
| "times_set t SubmittedTime ts = t\<lparr>submitted_time := ts\<rparr>"
| "times_set t ArrivalTime ts = t\<lparr>arrival_time := ts\<rparr>"
| "times_set t FillTime ts = t\<lparr>fill_time := ts\<rparr>"
| "times_set t AckTime ts = t\<lparr>ack_time := ts\<rparr>"
| "times_set t StageCount ts = t"

datatype ChainRule = Monotonic | StrictlyAfter

record ChainViolation =
  earlier :: Stage
  later :: Stage
  earlier_ts :: Timestamp
  later_ts :: Timestamp
  rule_broken :: ChainRule

definition kEdges :: "(Stage \<times> Stage \<times> ChainRule) list" where
  "kEdges = [(ExchangeTime, ReceiveTime, Monotonic), (ReceiveTime, FeatureEndTime, Monotonic),
     (FeatureEndTime, DecisionTime, Monotonic), (DecisionTime, SubmittedTime, Monotonic),
     (SubmittedTime, ArrivalTime, Monotonic), (ArrivalTime, FillTime, Monotonic),
     (FillTime, AckTime, Monotonic)]"

fun check_edges :: "LifecycleTimes \<Rightarrow> (Stage \<times> Stage \<times> ChainRule) list \<Rightarrow> ChainViolation option" where
  "check_edges t [] = None"
| "check_edges t ((from, to, rule) # es) =
     (let a = times_at t from; b = times_at t to in
      if \<not> is_set a \<or> \<not> is_set b then check_edges t es
      else if b < a then Some \<lparr>earlier = from, later = to, earlier_ts = a, later_ts = b,
                                rule_broken = rule\<rparr>
      else check_edges t es)"

definition validate_chain :: "LifecycleTimes \<Rightarrow> ChainViolation option" where
  "validate_chain t =
     (if is_set (decision_time t) \<and> is_set (arrival_time t) \<and> arrival_time t \<le> decision_time t
      then Some \<lparr>earlier = DecisionTime, later = ArrivalTime, earlier_ts = decision_time t,
                  later_ts = arrival_time t, rule_broken = StrictlyAfter\<rparr>
      else check_edges t kEdges)"

text \<open>
  \<open>detail::check_chain\<close> counts a violation in a process-wide counter and then returns false
  (release build, \<open>ndebug\<close>) or throws (debug build).
\<close>

datatype ChainException = LogicError ChainViolation

definition record_chain_violation :: "64 word \<Rightarrow> 64 word" where
  "record_chain_violation n = n + 1"

definition check_chain ::
    "bool \<Rightarrow> LifecycleTimes \<Rightarrow> 64 word \<Rightarrow> (ChainException, bool) result \<times> 64 word" where
  "check_chain ndebug t count =
     (case validate_chain t of
        None \<Rightarrow> (Ok True, count)
      | Some v \<Rightarrow>
          (let count' = record_chain_violation count in
           if ndebug then (Ok False, count') else (Err (LogicError v), count')))"

text \<open>The order a validated chain guarantees, stage by stage.\<close>

definition in_order :: "Timestamp \<Rightarrow> Timestamp \<Rightarrow> bool" where
  "in_order a b \<longleftrightarrow> is_set a \<and> is_set b \<longrightarrow> a \<le> b"

definition chain_ordered :: "LifecycleTimes \<Rightarrow> bool" where
  "chain_ordered t \<longleftrightarrow>
     in_order (exchange_time t) (receive_time t) \<and> in_order (receive_time t) (feature_end_time t) \<and>
     in_order (feature_end_time t) (decision_time t) \<and> in_order (decision_time t) (submitted_time t) \<and>
     in_order (submitted_time t) (arrival_time t) \<and> in_order (arrival_time t) (fill_time t) \<and>
     in_order (fill_time t) (ack_time t) \<and>
     (is_set (decision_time t) \<and> is_set (arrival_time t) \<longrightarrow> decision_time t < arrival_time t)"

lemma check_edges_None_iff:
  "check_edges t es = None \<longleftrightarrow>
     (\<forall>(from, to, rule) \<in> set es. in_order (times_at t from) (times_at t to))"
  by (induction t es rule: check_edges.induct) (auto simp: in_order_def Let_def)

lemma check_edges_Some:
  "check_edges t es = Some v \<Longrightarrow>
     (earlier v, later v, rule_broken v) \<in> set es \<and> earlier_ts v = times_at t (earlier v) \<and>
     later_ts v = times_at t (later v) \<and> later_ts v < earlier_ts v \<and>
     is_set (earlier_ts v) \<and> is_set (later_ts v)"
proof (induction es)
  case (Cons e es)
  then show ?case by (cases e) (auto simp: Let_def split: if_splits)
qed simp

declare check_edges.simps [simp del]

lemma validate_chain_None_iff: "validate_chain t = None \<longleftrightarrow> chain_ordered t"
  by (auto simp: validate_chain_def chain_ordered_def check_edges_None_iff kEdges_def not_le)

lemma arrival_after_decision:
  "validate_chain t = None \<Longrightarrow> is_set (decision_time t) \<Longrightarrow> is_set (arrival_time t) \<Longrightarrow>
     decision_time t < arrival_time t"
  by (simp add: validate_chain_None_iff chain_ordered_def)

lemma fill_after_decision:
  "validate_chain t = None \<Longrightarrow> is_set (decision_time t) \<Longrightarrow> is_set (arrival_time t) \<Longrightarrow>
     is_set (fill_time t) \<Longrightarrow> decision_time t < fill_time t"
  by (auto simp: validate_chain_None_iff chain_ordered_def in_order_def)

text \<open>
  \<open>validate_chain\<close> accepts exactly the chains whose adjacent populated stages are in order
  and whose arrival is strictly after the decision, and a reported violation carries the stamps of
  the two stages it names and shows them out of order.
\<close>

theorem validate_chain_spec:
  "case validate_chain t of
     None \<Rightarrow> chain_ordered t
   | Some v \<Rightarrow> \<not> chain_ordered t \<and> is_set (earlier_ts v) \<and> is_set (later_ts v) \<and>
       earlier_ts v = times_at t (earlier v) \<and> later_ts v = times_at t (later v) \<and>
       (case rule_broken v of StrictlyAfter \<Rightarrow> later_ts v \<le> earlier_ts v
        | Monotonic \<Rightarrow> later_ts v < earlier_ts v)"
proof (cases "validate_chain t")
  case None
  then have "chain_ordered t" using validate_chain_None_iff [of t] by simp
  with None show ?thesis by simp
next
  case (Some v)
  then have "\<not> chain_ordered t" using validate_chain_None_iff [of t] by simp
  moreover have "is_set (earlier_ts v) \<and> is_set (later_ts v) \<and>
      earlier_ts v = times_at t (earlier v) \<and> later_ts v = times_at t (later v) \<and>
      (case rule_broken v of StrictlyAfter \<Rightarrow> later_ts v \<le> earlier_ts v
       | Monotonic \<Rightarrow> later_ts v < earlier_ts v)"
    using Some by (auto simp: validate_chain_def split: if_splits ChainRule.splits
        dest!: check_edges_Some)
  ultimately show ?thesis unfolding Some option.case by blast
qed

text \<open>
  With every stage stamped, an accepted chain is the eight instants in order, so a fill is
  strictly later than the decision that produced it: no same-bar execution.
\<close>

theorem full_chain_is_sorted:
  assumes "validate_chain t = None" and "\<And>s. s \<noteq> StageCount \<Longrightarrow> is_set (times_at t s)"
  shows "sorted (map (times_at t) [ExchangeTime, ReceiveTime, FeatureEndTime, DecisionTime,
           SubmittedTime, ArrivalTime, FillTime, AckTime]) \<and> decision_time t < fill_time t"
proof -
  have "is_set (exchange_time t)" "is_set (receive_time t)" "is_set (feature_end_time t)"
    "is_set (decision_time t)" "is_set (submitted_time t)" "is_set (arrival_time t)"
    "is_set (fill_time t)" "is_set (ack_time t)"
    using assms(2) [of ExchangeTime] assms(2) [of ReceiveTime] assms(2) [of FeatureEndTime]
      assms(2) [of DecisionTime] assms(2) [of SubmittedTime] assms(2) [of ArrivalTime]
      assms(2) [of FillTime] assms(2) [of AckTime] by simp_all
  with assms(1) show ?thesis
    unfolding validate_chain_None_iff chain_ordered_def in_order_def by auto
qed

theorem full_chain_is_sorted_witness:
  "let t = \<lparr>exchange_time = 1, receive_time = 2, feature_end_time = 3, decision_time = 3,
       submitted_time = 3, arrival_time = 5, fill_time = 8, ack_time = 9\<rparr> in
   sorted (map (times_at t) [ExchangeTime, ReceiveTime, FeatureEndTime, DecisionTime,
     SubmittedTime, ArrivalTime, FillTime, AckTime]) \<and> decision_time t < fill_time t"
  unfolding Let_def
  by (rule full_chain_is_sorted)
    (simp add: validate_chain_None_iff chain_ordered_def in_order_def, rename_tac s, case_tac s,
      auto simp: is_set_def kNoTimestamp_def)

text \<open>
  Adjacency is by stage number, not among the stages that are populated: with the stage between
  them unset, a decision before the data was received passes.
\<close>

lemma gap_hides_disorder:
  "validate_chain (no_times\<lparr>receive_time := 100, decision_time := 50\<rparr>) = None"
  by (simp add: validate_chain_None_iff chain_ordered_def in_order_def no_times_def)
    (simp add: is_set_def)

section \<open>Label intervals\<close>

record ObservationInterval =
  sample_start :: Timestamp
  obs_feature_end :: Timestamp
  label_start :: Timestamp
  label_end :: Timestamp

definition interval_ok :: "ObservationInterval \<Rightarrow> bool" where
  "interval_ok o1 \<longleftrightarrow> sample_start o1 \<le> obs_feature_end o1 \<and> obs_feature_end o1 \<le> label_start o1 \<and>
     label_start o1 < label_end o1"

definition label_overlaps :: "ObservationInterval \<Rightarrow> Timestamp \<Rightarrow> Timestamp \<Rightarrow> bool" where
  "label_overlaps o1 begin end \<longleftrightarrow> label_start o1 < end \<and> begin < label_end o1"

text \<open>
  For a well-formed observation and a non-empty window, \<open>label_overlaps\<close> is overlap of the
  two half-open intervals: some instant lies in both.
\<close>

theorem label_overlaps_iff_shared_instant:
  assumes "interval_ok o1" and "b < e"
  shows "label_overlaps o1 b e \<longleftrightarrow> (\<exists>ts. label_start o1 \<le> ts \<and> ts < label_end o1 \<and> b \<le> ts \<and> ts < e)"
proof
  assume "label_overlaps o1 b e"
  with assms have "label_start o1 \<le> max (label_start o1) b \<and> max (label_start o1) b < label_end o1 \<and>
      b \<le> max (label_start o1) b \<and> max (label_start o1) b < e"
    by (auto simp: label_overlaps_def interval_ok_def)
  then show "\<exists>ts. label_start o1 \<le> ts \<and> ts < label_end o1 \<and> b \<le> ts \<and> ts < e" by blast
qed (auto simp: label_overlaps_def)

theorem label_overlaps_iff_shared_instant_witness:
  "let o1 = \<lparr>sample_start = 0, obs_feature_end = 1, label_start = 2, label_end = 6\<rparr> in
   label_overlaps o1 5 9 \<longleftrightarrow> (\<exists>ts. label_start o1 \<le> ts \<and> ts < label_end o1 \<and> 5 \<le> ts \<and> ts < 9)"
  unfolding Let_def by (rule label_overlaps_iff_shared_instant) (simp_all add: interval_ok_def)

section \<open>The simulated clock\<close>

datatype ClockException = MovedBackwards Timestamp Timestamp

record SimulatedClock =
  clock_now :: Timestamp

definition advance_to :: "Timestamp \<Rightarrow> SimulatedClock \<Rightarrow> (ClockException, SimulatedClock) result" where
  "advance_to ts c =
     (if ts < clock_now c then Err (MovedBackwards (clock_now c) ts)
      else Ok (c\<lparr>clock_now := ts\<rparr>))"

definition advance_by :: "Duration \<Rightarrow> SimulatedClock \<Rightarrow> SimulatedClock" where
  "advance_by d c = c\<lparr>clock_now := clock_now c + d\<rparr>"

definition clock_reset :: "Timestamp \<Rightarrow> SimulatedClock \<Rightarrow> SimulatedClock" where
  "clock_reset ts c = c\<lparr>clock_now := ts\<rparr>"

fun advance_all :: "Timestamp list \<Rightarrow> SimulatedClock \<Rightarrow> (ClockException, SimulatedClock) result" where
  "advance_all [] c = Ok c"
| "advance_all (t # ts) c =
     (case advance_to t c of Err e \<Rightarrow> Err e | Ok c' \<Rightarrow> advance_all ts c')"

text \<open>
  The simulated clock follows a feed of instants to the end exactly when the feed never goes
  backwards; otherwise it stops with the exception instead of clamping.
\<close>

theorem clock_accepts_exactly_chronological_feeds:
  "case advance_all ts c of
     Ok c' \<Rightarrow> sorted (clock_now c # ts) \<and> clock_now c' = last (clock_now c # ts)
   | Err (MovedBackwards now ts') \<Rightarrow> \<not> sorted (clock_now c # ts) \<and> ts' < now"
proof (induction ts arbitrary: c)
  case (Cons t ts)
  show ?case
  proof (cases "t < clock_now c")
    case False
    with Cons.IH [of "c\<lparr>clock_now := t\<rparr>"] show ?thesis
      by (auto simp: advance_to_def split: sum.splits ClockException.splits)
  qed (auto simp: advance_to_def)
qed simp

end
