(* ===== verification/CivilTime.thy ===== *)
theory CivilTime
  imports Core
begin

text \<open>
  Calendar dates and the text form of instants (\<open>src/core/types.cpp\<close>): the civil dates of
  \<open>std::chrono\<close> (\<open>year_month_day\<close> and \<open>sys_days\<close>), \<open>parse_timestamp\<close>,
  \<open>parse_date\<close>, \<open>parse_time_of_day\<close>, \<open>to_iso8601\<close>, \<open>to_date_string\<close> and
  \<open>utc_date_floor\<close>, with the round trips between text and instant.

  An instant is a count of nanoseconds in a signed 64-bit number. The midnight of a date outside
  1677-09-22 to 2262-04-11 does not fit one, and neither does the midnight of the day of
  \<open>kNoTimestamp\<close>: the product is signed overflow, undefined in the code, and the two's complement
  value here. The theorems name the instants for which every product and sum fits.
\<close>

section \<open>Signed numbers of a fixed width\<close>

definition wrap_signed :: "nat \<Rightarrow> int \<Rightarrow> int" where
  "wrap_signed w n = (n + 2 ^ (w - 1)) mod 2 ^ w - 2 ^ (w - 1)"

abbreviation wrap64 :: "int \<Rightarrow> int" where
  "wrap64 \<equiv> wrap_signed 64"

definition fits64 :: "int \<Rightarrow> bool" where
  "fits64 n \<longleftrightarrow> kNoTimestamp \<le> n \<and> n \<le> kMaxTimestamp"

lemma wrap64_fits [simp]: "fits64 n \<Longrightarrow> wrap64 n = n"
  by (simp add: fits64_def wrap_signed_def kNoTimestamp_def kMaxTimestamp_def)

lemma wrap64_range: "fits64 (wrap64 n)"
  using pos_mod_bound [of "2 ^ 64" "n + 2 ^ 63"] pos_mod_sign [of "2 ^ 64" "n + 2 ^ 63"]
  by (simp add: fits64_def wrap_signed_def kNoTimestamp_def kMaxTimestamp_def)

lemma wrap64_eq_iff: "wrap64 a = wrap64 b \<longleftrightarrow> (a - b) mod 2 ^ 64 = 0"
  by (simp add: wrap_signed_def mod_eq_dvd_iff dvd_eq_mod_eq_0)

section \<open>Division by a positive number\<close>

lemma div_bounds: "0 < k \<Longrightarrow> k * (x div k) \<le> x \<and> x < k * (x div k) + k" for k x :: int
  by (metis add_le_cancel_left add_strict_left_mono le_add_same_cancel1 mult_div_mod_eq pos_mod_bound pos_mod_sign)

lemma le_div_iff: "0 < k \<Longrightarrow> y \<le> x div k \<longleftrightarrow> k * y \<le> x" for k x y :: int
proof
  assume k: "0 < k" and "y \<le> x div k"
  then have "k * y \<le> k * (x div k)" by simp
  with div_bounds [OF k, of x] show "k * y \<le> x" by linarith
next
  assume k: "0 < k" and y: "k * y \<le> x"
  show "y \<le> x div k"
  proof (rule ccontr)
    assume "\<not> ?thesis"
    then have "k * (x div k + 1) \<le> k * y" using k by simp
    with div_bounds [OF k, of x] y show False by (simp add: distrib_left)
  qed
qed

lemma div_less_iff: "0 < k \<Longrightarrow> x div k < y \<longleftrightarrow> x < k * y" for k x y :: int
  using le_div_iff [of k y x] by linarith

lemma div_unique: "0 < k \<Longrightarrow> k * q \<le> x \<Longrightarrow> x < k * q + k \<Longrightarrow> x div k = q" for k x :: int
  by (rule int_div_pos_eq [of x k q "x - k * q"]) auto

lemmas num_div_iff = le_div_iff [OF zero_less_numeral] div_less_iff [OF zero_less_numeral]

lemma succ_div: "0 < k \<Longrightarrow> (n + 1) div k = n div k + (if (n + 1) mod k = 0 then 1 else 0)" for k n :: int
proof -
  assume k: "0 < k"
  have b: "k * (n div k) \<le> n" "n < k * (n div k) + k" using div_bounds [OF k, of n] by simp_all
  show ?thesis
  proof (cases "(n + 1) mod k = 0")
    case True
    then have e: "n + 1 = k * ((n + 1) div k)" by auto
    have "k * (n div k) < k * ((n + 1) div k)" "k * ((n + 1) div k) < k * (n div k + 2)"
      using b k unfolding e [symmetric] by (simp_all add: distrib_left)
    then have "n div k < (n + 1) div k" "(n + 1) div k < n div k + 2" using k by simp_all
    with True show ?thesis by simp
  next
    case False
    then have "n + 1 \<noteq> k * (n div k) + k" by (metis distrib_left mod_mult_self1_is_0 mult.right_neutral)
    with b have "(n + 1) div k = n div k" by (intro div_unique [OF k]) simp_all
    with False show ?thesis by simp
  qed
qed

section \<open>Civil dates\<close>

text \<open>
  The proleptic Gregorian calendar, with the year taken to start in March so that the leap day is
  its last: an era of 400 years has 146097 days, and day 0 is 1970-01-01.
\<close>

definition month_start :: "int \<Rightarrow> int" where
  "month_start mp = (153 * mp + 2) div 5"

definition days_from_civil :: "int \<Rightarrow> int \<Rightarrow> int \<Rightarrow> int" where
  "days_from_civil y m d =
     (let y1 = (if m \<le> 2 then y - 1 else y);
          yoe = y1 mod 400;
          mp = (if m > 2 then m - 3 else m + 9) in
      (y1 div 400) * 146097 + yoe * 365 + yoe div 4 - yoe div 100 + month_start mp + (d - 1) - 719468)"

definition civil_from_days :: "int \<Rightarrow> int \<times> int \<times> int" where
  "civil_from_days z =
     (let doe = (z + 719468) mod 146097;
          c = min 3 (doe div 36524); r1 = doe - 36524 * c;
          q = r1 div 1461; r2 = r1 mod 1461;
          a = min 3 (r2 div 365); doy = r2 - 365 * a;
          y1 = (z + 719468) div 146097 * 400 + 100 * c + 4 * q + a;
          mp = (5 * doy + 2) div 153;
          m = (if mp < 10 then mp + 3 else mp - 9) in
      (if m \<le> 2 then y1 + 1 else y1, m, doy - month_start mp + 1))"

definition is_leap :: "int \<Rightarrow> bool" where
  "is_leap y \<longleftrightarrow> y mod 4 = 0 \<and> (y mod 100 \<noteq> 0 \<or> y mod 400 = 0)"

definition last_day :: "int \<Rightarrow> int \<Rightarrow> int" where
  "last_day y m = (if m = 2 then (if is_leap y then 29 else 28)
     else if m = 4 \<or> m = 6 \<or> m = 9 \<or> m = 11 then 30 else 31)"

text \<open>\<open>year_month_day::ok\<close>; the year of \<open>std::chrono\<close> is a signed 16-bit number.\<close>

definition ymd_ok :: "int \<Rightarrow> int \<Rightarrow> int \<Rightarrow> bool" where
  "ymd_ok y m d \<longleftrightarrow> - 32767 \<le> y \<and> y \<le> 32767 \<and> 1 \<le> m \<and> m \<le> 12 \<and> 1 \<le> d \<and> d \<le> last_day y m"

lemma month_start_cases:
  "month_start mp < doy + 1 \<Longrightarrow> doy + 1 \<le> month_start (mp + 1) \<Longrightarrow> (5 * doy + 2) div 153 = mp"
  using le_div_iff [of 5 "doy + 1" "153 * (mp + 1) + 2"] div_less_iff [of 5 "153 * mp + 2" "doy + 1"]
  unfolding month_start_def by (intro div_unique) simp_all

lemma month_of_doy:
  assumes "0 \<le> doy" "doy \<le> 365"
  shows "0 \<le> (5 * doy + 2) div 153" "(5 * doy + 2) div 153 \<le> 11"
    "month_start ((5 * doy + 2) div 153) \<le> doy" "doy < month_start ((5 * doy + 2) div 153 + 1)"
proof -
  define mp where "mp = (5 * doy + 2) div 153"
  have b: "153 * mp \<le> 5 * doy + 2" "5 * doy + 2 < 153 * (mp + 1)"
    unfolding mp_def using num_div_iff [of "mp"] le_div_iff [of 153 mp "5 * doy + 2"]
     div_less_iff [of 153 "5 * doy + 2" "mp + 1"] by (simp_all add: mp_def)
  have "(153 * mp + 2) div 5 < doy + 1" "doy + 1 \<le> (153 * (mp + 1) + 2) div 5"
    using b by (simp_all add: num_div_iff)
  then show "month_start ((5 * doy + 2) div 153) \<le> doy" "doy < month_start ((5 * doy + 2) div 153 + 1)"
    unfolding month_start_def mp_def by simp_all
  show "0 \<le> (5 * doy + 2) div 153" "(5 * doy + 2) div 153 \<le> 11" using assms b by (auto simp: mp_def [symmetric])
qed

text \<open>The first day of year \<open>yoe\<close> of an era, by century, by group of four years, by year.\<close>

definition year_start :: "int \<Rightarrow> int" where
  "year_start yoe = yoe * 365 + yoe div 4 - yoe div 100"

text \<open>The year that starts in March is a leap year when the civil year that follows is one.\<close>

lemma year_start_parts:
  "0 \<le> q \<Longrightarrow> q \<le> 24 \<Longrightarrow> 0 \<le> a \<Longrightarrow> a \<le> 3 \<Longrightarrow>
     year_start (100 * c + 4 * q + a) = 36524 * c + 1461 * q + 365 * a"
  using div_unique [of 4 "25 * c + q" "100 * c + 4 * q + a"] div_unique [of 100 c "100 * c + 4 * q + a"]
  unfolding year_start_def by simp
lemma year_start_succ:
  "year_start (n + 1) = year_start n + 365 + (if (n + 1) mod 4 = 0 then 1 else 0)
     - (if (n + 1) mod 100 = 0 then 1 else 0)"
  by (simp add: year_start_def succ_div)

definition march_leap :: "int \<Rightarrow> bool" where
  "march_leap yoe \<longleftrightarrow> is_leap (yoe + 1)"

lemma march_leap_mod: "march_leap (y mod 400) \<longleftrightarrow> is_leap (y + 1)"
proof -
  have "(y mod 400 + 1) mod k = (y + 1) mod k" if "k dvd 400" for k
    using that by (metis mod_add_left_eq mod_mod_cancel)
  from this [of 4] this [of 100] this [of 400] show ?thesis by (simp add: march_leap_def is_leap_def)
qed

lemma march_leap_parts:
  assumes "0 \<le> c" "c \<le> 3" "0 \<le> q" "q \<le> 24"
  shows "march_leap (100 * c + 4 * q + 3) \<longleftrightarrow> q \<noteq> 24 \<or> c = 3"
proof -
  have 4: "(100 * c + 4 * q + 4) mod 4 = 0" by (simp add: mod_add_eq [symmetric])
  have 100: "(100 * c + 4 * q + 4) mod 100 = 0 \<longleftrightarrow> q = 24"
  proof -
    have "(100 * c + 4 * q + 4) mod 100 = (4 * q + 4) mod 100" by (metis add.assoc mod_mult_self4)
    with assms show ?thesis by (cases "q = 24") auto
  qed
  have 400: "(100 * c + 4 * q + 4) mod 400 = 0 \<longleftrightarrow> q = 24 \<and> c = 3"
  proof (cases "q = 24 \<and> c = 3")
    case False
    then have "100 * c + 4 * q + 4 < 400" using assms by auto
    with assms False show ?thesis by (simp add: mod_pos_pos_trivial)
  qed simp
  have e: "100 * c + 4 * q + 3 + 1 = 100 * c + 4 * q + 4" by simp
  show ?thesis unfolding march_leap_def is_leap_def e 4 100 400 by blast
qed

text \<open>A day of an era, written as a March-year and a day of it, and the uniqueness of that form.\<close>

definition era_day :: "int \<Rightarrow> int \<Rightarrow> int \<Rightarrow> bool" where
  "era_day doe yoe doy \<longleftrightarrow> 0 \<le> yoe \<and> yoe < 400 \<and> 0 \<le> doy \<and> (doy < 365 \<or> doy = 365 \<and> march_leap yoe) \<and>
     doe = year_start yoe + doy"

lemma era_day_exists:
  assumes "0 \<le> doe" "doe < 146097"
  defines "c \<equiv> min 3 (doe div 36524)"
  defines "r1 \<equiv> doe - 36524 * c"
  defines "q \<equiv> r1 div 1461" and "r2 \<equiv> r1 mod 1461"
  defines "a \<equiv> min 3 (r2 div 365)"
  shows "era_day doe (100 * c + 4 * q + a) (r2 - 365 * a)"
proof -
  have c: "0 \<le> c" "c \<le> 3" "36524 * c \<le> doe" "doe < 36524 * c + 36524 \<or> c = 3"
    using assms(1) div_bounds [of 36524 doe] by (auto simp: c_def min_def)
  then have r1: "0 \<le> r1" "r1 \<le> 36524" "r1 < 36524 \<or> c = 3"
    using assms(2) by (auto simp: r1_def)
  have q: "0 \<le> q" "q \<le> 24" using r1 div_less_iff [of 1461 r1 25] by (auto simp: q_def)
  have r2: "0 \<le> r2" "r2 \<le> 1460" "r1 = 1461 * q + r2" by (auto simp: r2_def q_def)
  have a: "0 \<le> a" "a \<le> 3" "365 * a \<le> r2" "r2 < 365 * a + 365 \<or> a = 3"
    using r2 div_bounds [of 365 r2] by (auto simp: a_def min_def)
  have sum: "doe = year_start (100 * c + 4 * q + a) + (r2 - 365 * a)"
    using year_start_parts [OF q a(1,2), of c] r2(3) by (simp add: r1_def)
  have leap: "r2 - 365 * a < 365 \<or> r2 - 365 * a = 365 \<and> march_leap (100 * c + 4 * q + a)"
  proof (cases "r2 - 365 * a < 365")
    case False
    with a r2 have e: "a = 3" "r2 = 1460" by auto
    with r1 r2 have "q \<noteq> 24 \<or> c = 3" by auto
    with e march_leap_parts [OF c(1,2) q] show ?thesis by simp
  qed simp
  show ?thesis unfolding era_day_def using c q a leap sum by auto
qed

lemma year_start_step:
  assumes "0 \<le> n" "n < 399"
  shows "year_start (n + 1) = year_start n + 365 + (if march_leap n then 1 else 0)"
proof -
  have "(n + 1) mod 400 \<noteq> 0" using assms by (simp add: mod_pos_pos_trivial)
  moreover have "(n + 1) mod 100 = 0 \<Longrightarrow> (n + 1) mod 4 = 0"
    using mod_mod_cancel [of 4 100 "n + 1"] by simp
  ultimately show ?thesis by (auto simp: year_start_succ march_leap_def is_leap_def)
qed

lemma year_start_mono:
  assumes "0 \<le> n" "n < n'" "n' < 400"
  shows "year_start n + 365 + (if march_leap n then 1 else 0) \<le> year_start n'"
  using assms(2,3)
proof (induction n' rule: int_gr_induct)
  case base
  then show ?case using year_start_step [of n] assms(1) by simp
next
  case (step i)
  then show ?case using year_start_step [of i] assms(1) by auto
qed

lemma era_day_unique:
  assumes "era_day doe yoe doy" "era_day doe yoe' doy'"
  shows "yoe = yoe' \<and> doy = doy'"
proof -
  have "\<not> n < n'" if "era_day doe n d" "era_day doe n' d'" for n n' d d'
    using that year_start_mono [of n n'] by (auto simp: era_day_def split: if_splits)
  with assms have "yoe = yoe'" by (meson linorder_neqE)
  with assms show ?thesis by (simp add: era_day_def)
qed

lemma year_start_bound: "0 \<le> yoe \<Longrightarrow> yoe < 400 \<Longrightarrow> 0 \<le> year_start yoe"
  using div_bounds [of 4 yoe] div_bounds [of 100 yoe] by (simp add: year_start_def)

lemma era_day_range:
  assumes "era_day doe yoe doy" shows "0 \<le> doe" "doe < 146097"
proof -
  have b: "0 \<le> yoe" "yoe < 400" "0 \<le> doy" "doe = year_start yoe + doy"
    and leap: "doy < 365 \<or> doy = 365 \<and> march_leap yoe" using assms by (auto simp: era_day_def)
  show "0 \<le> doe" using b year_start_bound by simp
  have "year_start 399 = 145731" by (simp add: year_start_def)
  with b leap show "doe < 146097"
    using year_start_mono [of yoe 399] by (cases "yoe = 399") (auto split: if_splits)
qed

text \<open>The month and day of the month within a March-year, with the lengths of the months.\<close>

definition month_of :: "int \<Rightarrow> int" where
  "month_of mp = (if mp < 10 then mp + 3 else mp - 9)"

lemma month_start_values:
  "month_start 0 = 0" "month_start 1 = 31" "month_start 2 = 61" "month_start 3 = 92"
  "month_start 4 = 122" "month_start 5 = 153" "month_start 6 = 184" "month_start 7 = 214"
  "month_start 8 = 245" "month_start 9 = 275" "month_start 10 = 306" "month_start 11 = 337"
  "month_start 12 = 367"
  by (simp_all add: month_start_def)

lemma twelve_cases:
  assumes "0 \<le> mp" "mp \<le> 11"
  obtains "mp = 0" | "mp = 1" | "mp = 2" | "mp = 3" | "mp = 4" | "mp = 5" | "mp = 6" | "mp = 7"
    | "mp = 8" | "mp = 9" | "mp = 10" | "mp = (11::int)"
proof -
  have "mp = 0 \<or> mp = 1 \<or> mp = 2 \<or> mp = 3 \<or> mp = 4 \<or> mp = 5 \<or> mp = 6 \<or> mp = 7 \<or> mp = 8 \<or> mp = 9
      \<or> mp = 10 \<or> mp = 11"
    using assms by presburger
  with that show thesis by blast
qed

lemma month_lengths:
  assumes "0 \<le> mp" "mp \<le> 11" "1 \<le> d"
  shows "d \<le> last_day y (month_of mp) \<longleftrightarrow>
     month_start mp + d - 1 < month_start (mp + 1) \<and>
     (month_start mp + d - 1 < 365 \<or> month_start mp + d - 1 = 365 \<and> is_leap y)"
  using assms(1,2)
  by (rule twelve_cases) (use assms(3) in \<open>auto simp: last_day_def month_of_def month_start_values\<close>)

lemma leap_day_month:
  assumes "0 \<le> mp" "mp \<le> 11" "month_start mp \<le> 365" "365 < month_start (mp + 1)"
  shows "mp = 11"
  using assms(1,2) by (rule twelve_cases) (use assms(3,4) in \<open>simp_all add: month_start_values\<close>)

text \<open>
  The two conversions are inverse: every day number is a valid date, and it is the day number of no
  other date.
\<close>

definition civil_valid :: "int \<Rightarrow> int \<Rightarrow> int \<Rightarrow> bool" where
  "civil_valid y m d \<longleftrightarrow> 1 \<le> m \<and> m \<le> 12 \<and> 1 \<le> d \<and> d \<le> last_day y m"

lemma days_from_march:
  assumes "0 \<le> mp" "mp \<le> 11"
  shows "days_from_civil (if month_of mp \<le> 2 then y1 + 1 else y1) (month_of mp) d =
     (y1 div 400) * 146097 + year_start (y1 mod 400) + month_start mp + (d - 1) - 719468"
  using assms by (auto simp: days_from_civil_def month_of_def year_start_def Let_def)

lemma civil_march:
  assumes "civil_valid y m d"
  obtains mp y1 where "0 \<le> mp" "mp \<le> 11" "m = month_of mp" "y = (if month_of mp \<le> 2 then y1 + 1 else y1)"
    "era_day (year_start (y1 mod 400) + (month_start mp + d - 1)) (y1 mod 400) (month_start mp + d - 1)"
    "month_start mp + d - 1 < month_start (mp + 1)" "1 \<le> d"
proof -
  define mp y1 where "mp = (if m > 2 then m - 3 else m + 9)" and "y1 = (if m \<le> 2 then y - 1 else y)"
  from assms have mp: "0 \<le> mp" "mp \<le> 11" "m = month_of mp"
    and y: "y = (if month_of mp \<le> 2 then y1 + 1 else y1)" and d: "1 \<le> d" "d \<le> last_day y (month_of mp)"
    by (auto simp: civil_valid_def mp_def y1_def month_of_def)
  note len = d(2) [unfolded month_lengths [OF mp(1,2) d(1), of y]]
  have feb: "mp = 11" if "month_start mp + d - 1 = 365"
    using leap_day_month [OF mp(1,2)] that len d(1) by simp
  have "month_start mp + d - 1 < 365 \<or> month_start mp + d - 1 = 365 \<and> march_leap (y1 mod 400)"
    using len feb y by (auto simp: march_leap_mod month_of_def)
  moreover have "0 \<le> month_start mp" using mp(1) by (simp add: month_start_def)
  ultimately show thesis
    using that [OF mp y] len d(1) by (simp add: era_day_def)
qed

lemma civil_from_march:
  assumes "0 \<le> mp" "mp \<le> 11" and era: "era_day doe (y1 mod 400) doy" and doy: "doy = month_start mp + d - 1"
    and z: "z = (y1 div 400) * 146097 + doe - 719468"
    and len: "doy < month_start (mp + 1)" "1 \<le> d"
  shows "civil_from_days z = (if month_of mp \<le> 2 then y1 + 1 else y1, month_of mp, d)"
proof -
  have r: "0 \<le> doe" "doe < 146097" using era by (rule era_day_range)+
  have zz: "(z + 719468) mod 146097 = doe" "(z + 719468) div 146097 = y1 div 400"
    using r by (simp_all add: z)
  define c r1 q r2 a where "c = min 3 (doe div 36524)" and "r1 = doe - 36524 * c"
    and "q = r1 div 1461" and "r2 = r1 mod 1461" and "a = min 3 (r2 div 365)"
  have "era_day doe (100 * c + 4 * q + a) (r2 - 365 * a)"
    using era_day_exists [OF r] by (simp only: c_def r1_def q_def r2_def a_def)
  from era_day_unique [OF this era]
  have u: "100 * c + 4 * q + a = y1 mod 400" "r2 - 365 * a = doy" by simp_all
  have mp: "(5 * doy + 2) div 153 = mp" by (rule month_start_cases) (use len doy in auto)
  have y: "y1 div 400 * 400 + 100 * c + 4 * q + a = y1"
    using arg_cong [OF u(1), of "\<lambda>x. y1 div 400 * 400 + x"] by (simp add: add.assoc)
  show ?thesis
    unfolding civil_from_days_def Let_def zz c_def [symmetric]
    unfolding r1_def [symmetric] q_def [symmetric] r2_def [symmetric] a_def [symmetric]
    unfolding u(2) mp y month_of_def [symmetric] by (simp add: doy)
qed

theorem civil_roundtrip:
  assumes "civil_valid y m d"
  shows "civil_from_days (days_from_civil y m d) = (y, m, d)"
proof -
  from civil_march [OF assms] obtain mp y1 where
    mp: "0 \<le> mp" "mp \<le> 11" and m: "m = month_of mp" and y: "y = (if month_of mp \<le> 2 then y1 + 1 else y1)"
    and era: "era_day (year_start (y1 mod 400) + (month_start mp + d - 1)) (y1 mod 400) (month_start mp + d - 1)"
    and len: "month_start mp + d - 1 < month_start (mp + 1)" "1 \<le> d" by metis
  show ?thesis unfolding m y by (rule civil_from_march [OF mp era refl _ len])
    (simp add: days_from_march [OF mp])
qed

theorem every_day_is_a_date:
  "case civil_from_days z of (y, m, d) \<Rightarrow> civil_valid y m d \<and> days_from_civil y m d = z"
proof -
  define doe where "doe = (z + 719468) mod 146097"
  have r: "0 \<le> doe" "doe < 146097" by (simp_all add: doe_def)
  from era_day_exists [OF this] obtain yoe doy where era: "era_day doe yoe doy" by blast
  define mp where "mp = (5 * doy + 2) div 153"
  have doy: "0 \<le> doy" "doy \<le> 365" using era by (auto simp: era_day_def)
  have mp: "0 \<le> mp" "mp \<le> 11" "month_start mp \<le> doy" "doy < month_start (mp + 1)"
    using month_of_doy [OF doy] by (simp_all add: mp_def)
  define y1 d where "y1 = (z + 719468) div 146097 * 400 + yoe" and "d = doy - month_start mp + 1"
  have y1: "y1 mod 400 = yoe" "y1 div 400 = (z + 719468) div 146097"
    using era by (simp_all add: y1_def era_day_def)
  have z: "z = (y1 div 400) * 146097 + doe - 719468" by (simp add: y1 doe_def)
  have d: "doy = month_start mp + d - 1" "1 \<le> d" using mp(3) by (simp_all add: d_def)
  have era1: "era_day doe (y1 mod 400) doy" using era by (simp add: y1(1))
  have civil: "civil_from_days z = (if month_of mp \<le> 2 then y1 + 1 else y1, month_of mp, d)"
    by (rule civil_from_march [OF mp(1,2) era1 d(1) z mp(4) d(2)])
  have "d \<le> last_day (if month_of mp \<le> 2 then y1 + 1 else y1) (month_of mp)"
    unfolding month_lengths [OF mp(1,2) d(2)] d(1) [symmetric]
    using mp doy era1 march_leap_mod [of y1] leap_day_month [OF mp(1,2)]
    by (auto simp: era_day_def month_of_def month_start_values)
  moreover have "1 \<le> month_of mp" "month_of mp \<le> 12" using mp by (simp_all add: month_of_def)
  moreover have "days_from_civil (if month_of mp \<le> 2 then y1 + 1 else y1) (month_of mp) d = z"
    using era1 z d(1) by (simp add: days_from_march [OF mp(1,2)] era_day_def)
  ultimately show ?thesis using d(2) by (simp add: civil civil_valid_def)
qed

section \<open>Fields of decimal digits\<close>

definition is_digit :: "char \<Rightarrow> bool" where
  "is_digit c \<longleftrightarrow> 48 \<le> (of_char c :: nat) \<and> (of_char c :: nat) \<le> 57"

definition digit_val :: "char \<Rightarrow> int" where
  "digit_val c = int (of_char c) - 48"

definition digit_char :: "nat \<Rightarrow> char" where
  "digit_char k = char_of (48 + k)"

fun parse_digits :: "int \<Rightarrow> string \<Rightarrow> int option" where
  "parse_digits acc [] = Some acc"
| "parse_digits acc (c # cs) = (if is_digit c then parse_digits (10 * acc + digit_val c) cs else None)"

text \<open>
  \<open>parse_uint\<close> is \<open>std::from_chars\<close> for \<open>int\<close>, required to use all of the field. Despite its name it
  takes the minus sign \<open>from_chars\<close> accepts. The fields have at most four characters, so no value
  is out of the range of \<open>int\<close>.
\<close>

definition parse_uint :: "string \<Rightarrow> nat \<Rightarrow> nat \<Rightarrow> int option" where
  "parse_uint s pos len =
     (if length s < pos + len then None
      else (case take len (drop pos s) of
              [] \<Rightarrow> None
            | c # cs \<Rightarrow>
                if c = CHR ''-'' then (if cs = [] then None else map_option uminus (parse_digits 0 cs))
                else parse_digits 0 (c # cs)))"

text \<open>\<open>printf\<close> of an integer with a zero-padded width: the sign counts towards the width.\<close>

fun dec_string :: "nat \<Rightarrow> string" where
  "dec_string n = (if n < 10 then [digit_char n] else dec_string (n div 10) @ [digit_char (n mod 10)])"

declare dec_string.simps [simp del]

definition zero_pad :: "nat \<Rightarrow> string \<Rightarrow> string" where
  "zero_pad w s = replicate (w - length s) (CHR ''0'') @ s"

definition fmt_int :: "nat \<Rightarrow> int \<Rightarrow> string" where
  "fmt_int w n = (if n < 0 then CHR ''-'' # zero_pad (w - 1) (dec_string (nat (- n)))
     else zero_pad w (dec_string (nat n)))"

lemma digit_char_digit [simp]: "k < 10 \<Longrightarrow> is_digit (digit_char k)"
  by (simp add: is_digit_def digit_char_def)

lemma digit_val_char [simp]: "k < 10 \<Longrightarrow> digit_val (digit_char k) = int k"
  by (simp add: digit_val_def digit_char_def)

lemma parse_digits_append:
  "parse_digits acc (xs @ ys) = (case parse_digits acc xs of None \<Rightarrow> None | Some v \<Rightarrow> parse_digits v ys)"
  by (induction xs arbitrary: acc) simp_all

lemma parse_digits_zeros: "parse_digits 0 (replicate k (CHR ''0'') @ s) = parse_digits 0 s"
  by (induction k) (simp_all add: is_digit_def digit_val_def)

lemma parse_dec_string: "parse_digits 0 (dec_string n) = Some (int n)"
proof (induction n rule: dec_string.induct)
  case (1 n)
  then show ?case
    by (subst dec_string.simps) (auto simp: parse_digits_append zdiv_int zmod_int)
qed

lemma dec_string_digits: "list_all is_digit (dec_string n) \<and> dec_string n \<noteq> []"
proof (induction n rule: dec_string.induct)
  case (1 n)
  then show ?case by (subst (1 2) dec_string.simps) auto
qed

lemma dec_string_length: "0 < w \<Longrightarrow> n < 10 ^ w \<Longrightarrow> length (dec_string n) \<le> w"
proof (induction n arbitrary: w rule: dec_string.induct)
  case (1 n)
  show ?case
  proof (cases "n < 10")
    case True
    with 1(2) show ?thesis by (subst dec_string.simps) simp
  next
    case False
    with 1(3) have w: "1 < w" by (cases "w = 1") (use 1(2) in auto)
    with 1(3) have "n div 10 < 10 ^ (w - 1)"
      by (cases w) (auto simp: less_mult_imp_div_less mult.commute)
    with 1(1) [OF False, of "w - 1"] w have "length (dec_string (n div 10)) \<le> w - 1" by simp
    with False w show ?thesis by (subst dec_string.simps) simp
  qed
qed

lemma fmt_int_field:
  assumes "0 < w" "0 \<le> n" "n < 10 ^ w"
  shows "length (fmt_int w n) = w" "list_all is_digit (fmt_int w n)" "parse_digits 0 (fmt_int w n) = Some n"
proof -
  have "nat n < nat (10 ^ w)" using assms(2,3) by simp
  then have "length (dec_string (nat n)) \<le> w" using dec_string_length [OF assms(1)] by (simp add: nat_power_eq)
  with assms show "length (fmt_int w n) = w" by (simp add: fmt_int_def zero_pad_def)
  show "list_all is_digit (fmt_int w n)" "parse_digits 0 (fmt_int w n) = Some n"
    using assms(2) dec_string_digits [of "nat n"]
    by (auto simp: fmt_int_def zero_pad_def parse_digits_zeros parse_dec_string is_digit_def list_all_iff)
qed

section \<open>Instants as text\<close>

definition second_ns :: Duration where "second_ns = 10 ^ 9"
definition hour_ns :: Duration where "hour_ns = 3600 * 10 ^ 9"
definition minute_ns :: Duration where "minute_ns = 60 * 10 ^ 9"
definition day_ns :: Duration where "day_ns = 86400 * 10 ^ 9"

definition hms :: "int \<Rightarrow> int \<Rightarrow> int \<Rightarrow> Duration option" where
  "hms hh mm ss = (if hh > 23 \<or> mm > 59 \<or> ss > 59 then None
     else Some (hh * hour_ns + mm * minute_ns + ss * second_ns))"

text \<open>The fraction after the point: at most nine digits count, the rest of the digits are skipped.\<close>

definition parse_fraction :: "string \<Rightarrow> Duration option" where
  "parse_fraction rest =
     (let ds = takeWhile is_digit (take 9 rest);
          tail = dropWhile is_digit (drop (length ds) rest) in
      if ds = [] then None
      else if tail \<noteq> [] \<and> hd tail \<noteq> CHR ''Z'' then None
      else map_option (\<lambda>frac. frac * 10 ^ (9 - length ds)) (parse_digits 0 ds))"

definition parse_time_part :: "string \<Rightarrow> Duration option" where
  "parse_time_part text =
     (if text ! 10 \<noteq> CHR ''T'' \<and> text ! 10 \<noteq> CHR '' '' then None
      else if length text < 19 then None
      else if text ! 13 \<noteq> CHR '':'' \<or> text ! 16 \<noteq> CHR '':'' then None
      else (case (parse_uint text 11 2, parse_uint text 14 2, parse_uint text 17 2) of
          (Some hh, Some mm, Some ss) \<Rightarrow>
            (case hms hh mm ss of
               None \<Rightarrow> None
             | Some ns \<Rightarrow>
                 if 19 < length text \<and> text ! 19 = CHR ''.''
                 then map_option ((+) ns) (parse_fraction (drop 20 text))
                 else if 19 < length text \<and> text ! 19 \<noteq> CHR ''Z'' then None
                 else Some ns)
        | _ \<Rightarrow> None))"

definition parse_timestamp :: "string \<Rightarrow> Timestamp option" where
  "parse_timestamp text =
     (if length text < 10 then None
      else if text ! 4 \<noteq> CHR ''-'' \<or> text ! 7 \<noteq> CHR ''-'' then None
      else (case (parse_uint text 0 4, parse_uint text 5 2, parse_uint text 8 2) of
          (Some y, Some m, Some d) \<Rightarrow>
            if \<not> ymd_ok y m d then None
            else map_option (\<lambda>ns. wrap64 (wrap64 (days_from_civil y m d * day_ns) + ns))
                   (if 10 < length text then parse_time_part text else Some 0)
        | _ \<Rightarrow> None))"

definition parse_date :: "string \<Rightarrow> Timestamp option" where
  "parse_date text = (if length text \<noteq> 10 then None else parse_timestamp text)"

definition parse_time_of_day :: "string \<Rightarrow> Duration option" where
  "parse_time_of_day text =
     (if length text \<noteq> 8 then None
      else if text ! 2 \<noteq> CHR '':'' \<or> text ! 5 \<noteq> CHR '':'' then None
      else (case (parse_uint text 0 2, parse_uint text 3 2, parse_uint text 6 2) of
          (Some hh, Some mm, Some ss) \<Rightarrow> hms hh mm ss
        | _ \<Rightarrow> None))"

definition to_date_string :: "Timestamp \<Rightarrow> string" where
  "to_date_string ts =
     (let (y, m, d) = civil_from_days (ts div day_ns) in
      fmt_int 4 y @ ''-'' @ fmt_int 2 m @ ''-'' @ fmt_int 2 d)"

definition to_iso8601 :: "Timestamp \<Rightarrow> string" where
  "to_iso8601 ts =
     (let (y, m, d) = civil_from_days (ts div day_ns); rest = wrap64 (ts - wrap64 (ts div day_ns * day_ns));
          h = rest div hour_ns; mi = (rest - h * hour_ns) div minute_ns;
          s = (rest - h * hour_ns - mi * minute_ns) div second_ns;
          ns = rest - h * hour_ns - mi * minute_ns - s * second_ns in
      fmt_int 4 y @ ''-'' @ fmt_int 2 m @ ''-'' @ fmt_int 2 d @ ''T'' @ fmt_int 2 h @ '':'' @
      fmt_int 2 mi @ '':'' @ fmt_int 2 s @ ''.'' @ fmt_int 9 ns @ ''Z'')"

definition utc_date_floor :: "Timestamp \<Rightarrow> Timestamp" where
  "utc_date_floor ts = wrap64 (ts div day_ns * day_ns)"

lemma fits64_clock: "0 \<le> n \<Longrightarrow> n < day_ns \<Longrightarrow> fits64 n"
  by (simp add: fits64_def kNoTimestamp_def kMaxTimestamp_def day_ns_def)

text \<open>The instants whose day starts in the 64 bits: from 1677-09-22 on.\<close>

definition day_fits :: "Timestamp \<Rightarrow> bool" where
  "day_fits ts \<longleftrightarrow> kNoTimestamp \<le> ts div day_ns * day_ns \<and> ts \<le> kMaxTimestamp"

lemma day_start_le: "ts div day_ns * day_ns \<le> ts" "ts - day_ns < ts div day_ns * day_ns"
  using div_bounds [of day_ns ts] by (simp_all add: day_ns_def)

lemma day_fits_midnight: "day_fits ts \<Longrightarrow> fits64 (ts div day_ns * day_ns)" "day_fits ts \<Longrightarrow> fits64 ts"
  using day_start_le [of ts] by (auto simp: day_fits_def fits64_def)

lemma day_fits_iff: "day_fits ts \<longleftrightarrow> - 106751 * day_ns \<le> ts \<and> ts \<le> kMaxTimestamp"
proof -
  have "kNoTimestamp \<le> k * day_ns \<longleftrightarrow> - 106751 \<le> k" for k
    unfolding kNoTimestamp_def day_ns_def by simp linarith
  moreover have "- 106751 \<le> ts div day_ns \<longleftrightarrow> - 106751 * day_ns \<le> ts"
    using le_div_iff [of day_ns "- 106751" ts] by (simp add: day_ns_def)
  ultimately show ?thesis by (simp add: day_fits_def)
qed

text \<open>The unset instant has no midnight: the start of its day is below the least count.\<close>

lemma the_unset_day_does_not_fit: "\<not> day_fits kNoTimestamp" "\<not> fits64 (kNoTimestamp div day_ns * day_ns)"
  by (simp_all add: day_fits_def fits64_def kNoTimestamp_def day_ns_def)

lemma parse_uint_field:
  assumes "0 < w" "0 \<le> n" "n < 10 ^ w"
  shows "parse_uint (pre @ fmt_int w n @ post) (length pre) w = Some n"
proof -
  note f = fmt_int_field [OF assms]
  from f(1) assms(1) obtain c cs where e: "fmt_int w n = c # cs" by (cases "fmt_int w n") auto
  with f(2) have "c \<noteq> CHR ''-''" by (auto simp: is_digit_def)
  moreover have "take w (drop (length pre) (pre @ fmt_int w n @ post)) = c # cs"
    using f(1) by (simp flip: e)
  ultimately show ?thesis using f(1,3) by (simp add: parse_uint_def e)
qed

text \<open>The civil year of every representable instant has four digits.\<close>

lemma year_range:
  assumes "fits64 ts"
  shows "case civil_from_days (ts div day_ns) of (y, m, d) \<Rightarrow> 0 \<le> y \<and> y < 10 ^ 4 \<and> ymd_ok y m d"
proof -
  define z where "z = ts div day_ns"
  have z: "- 106752 \<le> z" "z \<le> 106751"
    using assms [unfolded fits64_def] le_div_iff [of day_ns "- 106752" ts] div_less_iff [of day_ns ts 106752]
    by (simp_all add: z_def kNoTimestamp_def kMaxTimestamp_def day_ns_def)
  obtain y m d where civil: "civil_from_days z = (y, m, d)" by (cases "civil_from_days z")
  have ok: "civil_valid y m d" "days_from_civil y m d = z"
    using every_day_is_a_date [of z] by (simp_all add: civil)
  define y1 where "y1 = (if m \<le> 2 then y - 1 else y)"
  have yoe: "0 \<le> y1 mod 400" "y1 mod 400 < 400" by simp_all
  have dv: "0 \<le> y1 mod 400 div 4" "0 \<le> y1 mod 400 div 100" "y1 mod 400 div 4 < 100" "y1 mod 400 div 100 < 4"
    using yoe by (simp_all add: div_less_iff)
  define mp where "mp = (if m > 2 then m - 3 else m + 9)"
  have ms: "0 \<le> month_start mp" "month_start mp < 380"
    using ok(1) by (auto simp: mp_def civil_valid_def month_start_def div_less_iff)
  have d: "1 \<le> d" "d \<le> 31" using ok(1) by (auto simp: civil_valid_def last_day_def split: if_splits)
  have "z = (y1 div 400) * 146097 + y1 mod 400 * 365 + y1 mod 400 div 4 - y1 mod 400 div 100 +
      month_start mp + (d - 1) - 719468"
    using ok(2) by (simp add: days_from_civil_def Let_def y1_def mp_def)
  with z dv ms d yoe have "3 \<le> y1 div 400" "y1 div 400 \<le> 6" by linarith+
  then have "1200 \<le> y1" "y1 < 2800" by (simp_all add: le_div_iff)
  with ok(1) show ?thesis unfolding z_def [symmetric] civil by (auto simp: y1_def ymd_ok_def civil_valid_def split: if_splits)
qed

lemma date_fields:
  assumes "0 \<le> y" "y < 10 ^ 4" "ymd_ok y m d"
  defines "D \<equiv> fmt_int 4 y @ ''-'' @ fmt_int 2 m @ ''-'' @ fmt_int 2 d"
  shows "length D = 10" "(D @ post) ! 4 = CHR ''-''" "(D @ post) ! 7 = CHR ''-''"
    "parse_uint (D @ post) 0 4 = Some y" "parse_uint (D @ post) 5 2 = Some m"
    "parse_uint (D @ post) 8 2 = Some d"
proof -
  have m: "0 \<le> m" "m < 10 ^ 2" and d: "0 \<le> d" "d < 10 ^ 2"
    using assms(3) by (auto simp: ymd_ok_def last_day_def split: if_splits)
  have len: "length (fmt_int 4 y) = 4" "length (fmt_int 2 m) = 2" "length (fmt_int 2 d) = 2"
    using assms(1,2) m d by (simp_all add: fmt_int_field)
  then show "length D = 10" "(D @ post) ! 4 = CHR ''-''" "(D @ post) ! 7 = CHR ''-''"
    by (simp_all add: D_def nth_append)
  show "parse_uint (D @ post) 0 4 = Some y"
    using parse_uint_field [of 4 y "[]"] assms(1,2) by (simp add: D_def)
  show "parse_uint (D @ post) 5 2 = Some m"
    using parse_uint_field [of 2 m "fmt_int 4 y @ ''-''"] m len by (simp add: D_def)
  show "parse_uint (D @ post) 8 2 = Some d"
    using parse_uint_field [of 2 d "fmt_int 4 y @ ''-'' @ fmt_int 2 m @ ''-''"] d len by (simp add: D_def)
qed

lemma parse_fraction_field:
  assumes "0 \<le> n" "n < 10 ^ 9"
  shows "parse_fraction (fmt_int 9 n @ ''Z'') = Some n"
proof -
  note f = fmt_int_field [of 9, OF _ assms]
  have t: "takeWhile is_digit (take 9 (fmt_int 9 n @ ''Z'')) = fmt_int 9 n"
    using f(1,2) by (simp add: takeWhile_eq_all_conv list_all_iff)
  have z: "dropWhile is_digit (drop (length (fmt_int 9 n)) (fmt_int 9 n @ ''Z'')) = ''Z''"
    using f(1) by (simp add: is_digit_def)
  have "fmt_int 9 n \<noteq> []" using f(1) by auto
  with f(1,3) show ?thesis unfolding parse_fraction_def Let_def t z by simp
qed

lemma time_fields:
  assumes h: "0 \<le> h" "h < 24" and mi: "0 \<le> mi" "mi < 60" and s: "0 \<le> s" "s < 60"
    and ns: "0 \<le> ns" "ns < 10 ^ 9" and D: "length D = 10"
  shows "parse_time_part (D @ ''T'' @ fmt_int 2 h @ '':'' @ fmt_int 2 mi @ '':'' @ fmt_int 2 s @ ''.'' @
       fmt_int 9 ns @ ''Z'') = Some (h * hour_ns + mi * minute_ns + s * second_ns + ns)"
proof -
  define t where "t = D @ ''T'' @ fmt_int 2 h @ '':'' @ fmt_int 2 mi @ '':'' @ fmt_int 2 s @ ''.'' @
    fmt_int 9 ns @ ''Z''"
  have len: "length (fmt_int 2 h) = 2" "length (fmt_int 2 mi) = 2" "length (fmt_int 2 s) = 2"
      "length (fmt_int 9 ns) = 9"
    using h mi s ns by (simp_all add: fmt_int_field)
  have nth: "t ! 10 = CHR ''T''" "t ! 13 = CHR '':''" "t ! 16 = CHR '':''" "t ! 19 = CHR ''.''"
    "length t = 30" "drop 20 t = fmt_int 9 ns @ ''Z''"
    using len D by (simp_all add: t_def nth_append)
  have "parse_uint t 11 2 = Some h"
    using parse_uint_field [of 2 h "D @ ''T''"] h len D by (simp add: t_def)
  moreover have "parse_uint t 14 2 = Some mi"
    using parse_uint_field [of 2 mi "D @ ''T'' @ fmt_int 2 h @ '':''"] mi len D by (simp add: t_def)
  moreover have "parse_uint t 17 2 = Some s"
    using parse_uint_field [of 2 s "D @ ''T'' @ fmt_int 2 h @ '':'' @ fmt_int 2 mi @ '':''"] s len D
    by (simp add: t_def)
  ultimately have "parse_time_part t = Some (h * hour_ns + mi * minute_ns + s * second_ns + ns)"
    using h mi s ns by (simp add: parse_time_part_def nth hms_def parse_fraction_field)
  then show ?thesis by (simp only: t_def)
qed

lemma clock_split:
  fixes rest :: int
  assumes "0 \<le> rest" "rest < day_ns"
  defines "h \<equiv> rest div hour_ns"
  defines "mi \<equiv> (rest - h * hour_ns) div minute_ns"
  defines "s \<equiv> (rest - h * hour_ns - mi * minute_ns) div second_ns"
  defines "ns \<equiv> rest - h * hour_ns - mi * minute_ns - s * second_ns"
  shows "0 \<le> h" "h < 24" "0 \<le> mi" "mi < 60" "0 \<le> s" "s < 60" "0 \<le> ns" "ns < 10 ^ 9"
proof -
  have h: "rest - h * hour_ns = rest mod hour_ns" by (simp add: h_def minus_div_mult_eq_mod)
  have mi: "mi = rest mod hour_ns div minute_ns" by (simp only: mi_def h)
  have s: "s = rest mod hour_ns mod minute_ns div second_ns"
    by (simp only: s_def h) (simp only: mi minus_div_mult_eq_mod)
  have ns: "ns = rest mod hour_ns mod minute_ns mod second_ns"
    by (simp only: ns_def h) (simp only: s mi minus_div_mult_eq_mod)
  show "0 \<le> h" "h < 24" using assms(1,2) by (simp_all add: h_def hour_ns_def day_ns_def le_div_iff div_less_iff)
  show "0 \<le> mi" "mi < 60" unfolding mi by (simp_all add: hour_ns_def minute_ns_def le_div_iff div_less_iff)
  show "0 \<le> s" "s < 60" unfolding s by (simp_all add: minute_ns_def second_ns_def le_div_iff div_less_iff)
  show "0 \<le> ns" "ns < 10 ^ 9" unfolding ns by (simp_all add: second_ns_def)
qed

text \<open>
  C34: Printing an instant and parsing it back is the identity, to the nanosecond, on every instant whose midnight fits
  the 64 bits, from 1677-09-22 to the last one; printing its date and parsing that back gives the midnight of its day.
  The instants of the day \<open>kNoTimestamp\<close> lies in are left out: the code overflows on them.
\<close>

theorem timestamp_text_roundtrip:
  assumes "day_fits ts"
  shows "parse_timestamp (to_iso8601 ts) = Some ts \<and> parse_date (to_date_string ts) = Some (ts div day_ns * day_ns)
    \<and> utc_date_floor ts = ts div day_ns * day_ns"
proof -
  obtain y m d where civil: "civil_from_days (ts div day_ns) = (y, m, d)" by (cases "civil_from_days (ts div day_ns)")
  have fit: "fits64 (ts div day_ns * day_ns)" "fits64 ts" using day_fits_midnight [OF assms] by simp_all
  with year_range [OF fit(2)] civil have y: "0 \<le> y" "y < 10 ^ 4" "ymd_ok y m d" by simp_all
  have day: "days_from_civil y m d = ts div day_ns" using every_day_is_a_date [of "ts div day_ns"] civil by simp
  define rest where "rest = wrap64 (ts - wrap64 (ts div day_ns * day_ns))"
  have "fits64 (ts mod day_ns)" by (rule fits64_clock) (simp_all add: day_ns_def)
  then have mod: "rest = ts mod day_ns" using fit by (simp add: rest_def minus_div_mult_eq_mod)
  have rest: "0 \<le> rest" "rest < day_ns" by (simp_all add: mod day_ns_def)
  define h where "h = rest div hour_ns"
  define mi where "mi = (rest - h * hour_ns) div minute_ns"
  define s where "s = (rest - h * hour_ns - mi * minute_ns) div second_ns"
  define ns where "ns = rest - h * hour_ns - mi * minute_ns - s * second_ns"
  note c = clock_split [OF rest, folded h_def, folded mi_def, folded s_def, folded ns_def]
  define D where "D = fmt_int 4 y @ ''-'' @ fmt_int 2 m @ ''-'' @ fmt_int 2 d"
  define T where "T = ''T'' @ fmt_int 2 h @ '':'' @ fmt_int 2 mi @ '':'' @ fmt_int 2 s @ ''.'' @ fmt_int 9 ns @ ''Z''"
  note f = date_fields [OF y, folded D_def]
  have date: "to_date_string ts = D" by (simp add: to_date_string_def civil D_def)
  have iso: "to_iso8601 ts = D @ T"
    by (simp add: to_iso8601_def civil Let_def D_def T_def ns_def s_def mi_def h_def rest_def)
  have time: "parse_time_part (D @ T) = Some rest"
    using time_fields [OF c f(1)] by (simp add: T_def ns_def)
  have "10 < length (D @ T)" using f(1) by (simp add: T_def)
  moreover have "ts div day_ns * day_ns + rest = ts" by (simp add: mod)
  ultimately have "parse_timestamp (D @ T) = Some ts"
    using f y(3) fit by (simp add: parse_timestamp_def time day)
  moreover have "parse_date (to_date_string ts) = Some (ts div day_ns * day_ns)"
    using f(1) f(2-6) [of "[]"] y(3) fit
    by (simp add: parse_date_def date parse_timestamp_def day)
  ultimately show ?thesis using fit by (simp add: iso utc_date_floor_def)
qed

theorem timestamp_text_roundtrip_witness:
  "parse_timestamp (to_iso8601 1705329000123456789) = Some 1705329000123456789 \<and>
   parse_date (to_date_string 1705329000123456789) = Some (1705329000123456789 div day_ns * day_ns) \<and>
   utc_date_floor 1705329000123456789 = 1705329000123456789 div day_ns * day_ns"
  by (rule timestamp_text_roundtrip) (simp add: day_fits_iff kMaxTimestamp_def day_ns_def)

text \<open>
  A date the 64 bits do not hold parses all the same: the year passes every check, and what is stored is the
  overflow of its midnight, an instant five centuries earlier.
\<close>

lemma distant_date_accepted:
  "\<not> fits64 (days_from_civil 2300 1 1 * day_ns) \<and> parse_date ''2300-01-01'' = Some (- 8032952073709551616)"
  by code_simp

text \<open>
  A minus sign passes for a digit of the clock: an hour of \<open>-1\<close> is accepted, and names the last hour
  of the day before.
\<close>

lemma negative_hour_accepted:
  "parse_timestamp ''2024-01-01T-1:00:00Z'' = parse_timestamp ''2023-12-31T23:00:00Z'' \<and>
   parse_timestamp ''2024-01-01T-1:00:00Z'' \<noteq> None \<and> parse_time_of_day ''-1:00:00'' = Some (- hour_ns)"
  by code_simp

text \<open>What follows the \<open>Z\<close> is not read.\<close>

lemma trailing_text_accepted:
  "parse_timestamp ''2024-01-01T10:00:00Z+05:00'' = parse_timestamp ''2024-01-01T10:00:00Z''"
  by code_simp

section \<open>A violation in words\<close>

definition describe_violation :: "ChainViolation \<Rightarrow> string" where
  "describe_violation v =
     to_string_Stage (later v) @
     (if rule_broken v = StrictlyAfter then '' must be strictly after '' else '' must be at or after '') @
     to_string_Stage (earlier v) @ '': '' @ to_iso8601 (later_ts v) @ '' vs '' @ to_iso8601 (earlier_ts v) @
     (if rule_broken v = StrictlyAfter \<and> later_ts v = earlier_ts v
      then ''  [same-bar execution: a decision cannot fill at the price that produced it]'' else [])"

end
