(* ===== verification/WireText.thy ===== *)
theory WireText
  imports CivilTime
begin

text \<open>
  The text of numbers and strings on the wire (\<open>src/live/translator.cpp\<close>): \<open>wire_number\<close>, the seventeen
  significant digits an \<open>ostringstream\<close> of \<open>max_digits10\<close> prints for a double, \<open>json_escape\<close>, and
  \<open>std::to_string\<close> of an unsigned number, which is \<open>dec_string\<close>. The round trips show that the venue can
  read back exactly the number and the string that were meant.
\<close>

section \<open>Seventeen significant digits\<close>

text \<open>The decimal exponent of a positive number, and its significand rounded to seventeen digits.\<close>

definition dec_exp :: "real \<Rightarrow> int" where
  "dec_exp a = \<lfloor>log 10 a\<rfloor>"

definition dec_sig :: "real \<Rightarrow> int \<times> int" where
  "dec_sig a =
     (let X = dec_exp a; n = rne (a * 10 powi (16 - X)) in
      if n = 10 ^ 17 then (10 ^ 16, X + 1) else (n, X))"

definition strip_zeros :: "string \<Rightarrow> string" where
  "strip_zeros ds = rev (dropWhile (\<lambda>c. c = CHR ''0'') (rev ds))"

definition dotted :: "string \<Rightarrow> string" where
  "dotted ds = (if strip_zeros ds = [] then [] else CHR ''.'' # strip_zeros ds)"

text \<open>
  The general format of \<open>operator<<\<close>: fixed notation for exponents from -4 up to the precision, scientific
  notation with at least two exponent digits otherwise, without trailing zeros.
\<close>

definition decimal_text :: "int \<Rightarrow> int \<Rightarrow> string" where
  "decimal_text n X =
     (let ds = dec_string (nat n) in
      if X < - 4 \<or> 17 \<le> X then
        take 1 ds @ dotted (drop 1 ds) @ CHR ''e'' # (if X < 0 then CHR ''-'' else CHR ''+'')
          # zero_pad 2 (dec_string (nat \<bar>X\<bar>))
      else if 0 \<le> X then take (nat X + 1) ds @ dotted (drop (nat X + 1) ds)
      else ''0.'' @ replicate (nat (- X - 1)) (CHR ''0'') @ strip_zeros ds)"

definition positive_text :: "real \<Rightarrow> string" where
  "positive_text a = (case dec_sig a of (n, X) \<Rightarrow> decimal_text n X)"

text \<open>A NaN prints as \<open>nan\<close>; the sign bit some libraries print before it is not part of the model.\<close>

fun wire_number :: "f64 \<Rightarrow> string" where
  "wire_number NaN = ''nan''"
| "wire_number PInf = ''inf''"
| "wire_number NInf = ''-inf''"
| "wire_number NZero = ''-0''"
| "wire_number (Fin r) =
     (if r = 0 then ''0'' else if r < 0 then CHR ''-'' # positive_text (- r) else positive_text r)"

section \<open>Escaped strings\<close>

fun escape_char :: "char \<Rightarrow> string" where
  "escape_char c =
     (if c = CHR 0x22 then [CHR 0x5C, CHR 0x22]
      else if c = CHR 0x5C then [CHR 0x5C, CHR 0x5C]
      else if c = CHR 0x0A then [CHR 0x5C, CHR ''n'']
      else [c])"

definition json_escape :: "string \<Rightarrow> string" where
  "json_escape s = concat (map escape_char s)"

text \<open>
  An escaped string ends at its first unescaped quote, and what precedes it determines the string: the
  text after an opening quote can be cut in one way only.
\<close>

lemma json_escape_cut:
  "json_escape a @ CHR 0x22 # r = json_escape b @ CHR 0x22 # q \<Longrightarrow> a = b \<and> r = q"
proof (induction a arbitrary: b)
  case Nil
  then show ?case by (cases b) (auto simp: json_escape_def split: if_splits)
next
  case (Cons c a)
  then obtain d b' where b: "b = d # b'" by (cases b) (auto simp: json_escape_def split: if_splits)
  from Cons.prems have "c = d \<and> json_escape a @ CHR 0x22 # r = json_escape b' @ CHR 0x22 # q"
    by (auto simp: json_escape_def b split: if_splits)
  with Cons.IH [of b'] show ?case by (simp add: b)
qed

lemma json_escape_inj: "json_escape a = json_escape b \<Longrightarrow> a = b"
  using json_escape_cut [of a "[]" b "[]"] by simp

section \<open>Reading a decimal number\<close>

text \<open>The real number a decimal text denotes, as a reader of the wire would take it.\<close>

definition digits_value :: "string \<Rightarrow> int" where
  "digits_value s = foldl (\<lambda>acc c. 10 * acc + digit_val c) 0 s"

definition mantissa_value :: "string \<Rightarrow> real" where
  "mantissa_value m =
     (let ip = takeWhile (\<lambda>c. c \<noteq> CHR ''.'') m; fp = tl (dropWhile (\<lambda>c. c \<noteq> CHR ''.'') m) in
      of_int (digits_value (ip @ fp)) * 10 powi (- int (length fp)))"

fun exponent_value :: "string \<Rightarrow> int" where
  "exponent_value [] = 0"
| "exponent_value (c # cs) = (if c = CHR ''-'' then - digits_value cs else digits_value cs)"

definition read_positive :: "string \<Rightarrow> real" where
  "read_positive s = mantissa_value (takeWhile (\<lambda>c. c \<noteq> CHR ''e'') s)
     * 10 powi exponent_value (tl (dropWhile (\<lambda>c. c \<noteq> CHR ''e'') s))"

fun read_number :: "string \<Rightarrow> real" where
  "read_number [] = 0"
| "read_number (c # cs) = (if c = CHR ''-'' then - read_positive cs else read_positive (c # cs))"

lemma foldl_digits:
  "foldl (\<lambda>acc c. 10 * acc + digit_val c) a s = a * 10 ^ length s + digits_value s"
proof (induction s rule: rev_induct)
  case (snoc c s)
  then show ?case by (simp add: digits_value_def algebra_simps)
qed (simp add: digits_value_def)

lemma digits_value_append: "digits_value (a @ b) = digits_value a * 10 ^ length b + digits_value b"
  unfolding digits_value_def [of "a @ b"] foldl_append by (simp add: foldl_digits flip: digits_value_def)

lemma digits_value_simps [simp]: "digits_value [] = 0" "digits_value [c] = digit_val c"
  by (simp_all add: digits_value_def)

lemma digits_value_dec_string: "digits_value (dec_string n) = int n"
proof (induction n rule: dec_string.induct)
  case (1 n)
  then show ?case
    by (subst dec_string.simps) (auto simp: digits_value_append zdiv_int zmod_int)
qed

lemma digits_value_zeros: "digits_value (replicate k (CHR ''0'') @ s) = digits_value s"
proof (induction k)
  case (Suc k)
  have "digits_value (CHR ''0'' # t) = digits_value t" for t
    using digits_value_append [of "[CHR ''0'']" t] by (simp add: digit_val_def)
  with Suc show ?case by simp
qed simp

lemma strip_zeros_split: "\<exists>k. ds = strip_zeros ds @ replicate k (CHR ''0'')"
proof -
  let ?z = "\<lambda>c. c = CHR ''0''"
  have "rev ds = takeWhile ?z (rev ds) @ dropWhile ?z (rev ds)" by simp
  then have "ds = strip_zeros ds @ rev (takeWhile ?z (rev ds))"
    unfolding strip_zeros_def by (metis rev_append rev_rev_ident)
  moreover have "replicate (length (rev (takeWhile ?z (rev ds)))) (CHR ''0'') = rev (takeWhile ?z (rev ds))"
    by (rule replicate_length_same) (auto dest: set_takeWhileD)
  then have "rev (takeWhile ?z (rev ds)) = replicate (length (takeWhile ?z (rev ds))) (CHR ''0'')"
    by (simp only: length_rev)
  ultimately have "ds = strip_zeros ds @ replicate (length (takeWhile ?z (rev ds))) (CHR ''0'')"
    by (simp only:)
  then show ?thesis by (rule exI)
qed

text \<open>Stripping the zeros of a fraction leaves its value.\<close>

lemma strip_zeros_value:
  "of_int (digits_value (a @ strip_zeros ds)) * 10 powi (- int (length (strip_zeros ds)))
    = (of_int (digits_value (a @ ds)) * 10 powi (- int (length ds)) :: real)"
proof -
  obtain d k where d: "strip_zeros ds = d" "ds = d @ replicate k (CHR ''0'')" using strip_zeros_split by blast
  have "digits_value (a @ ds) = digits_value (a @ d) * 10 ^ k"
    using digits_value_append [of "a @ d" "replicate k (CHR ''0'')"] digits_value_zeros [of k "[]"]
    by (simp add: d(2))
  moreover have "length ds = length d + k" by (simp add: d(2))
  moreover have "(10::real) powi (- int n) = 1 / 10 ^ n" for n by (simp add: power_int_minus field_simps)
  ultimately show ?thesis
    by (simp only: d(1)) (simp add: power_add)
qed

lemma dec_string_long: "10 ^ w \<le> n \<Longrightarrow> w < length (dec_string n)"
proof (induction w arbitrary: n)
  case 0
  then show ?case using dec_string_digits [of n] by simp
next
  case (Suc w)
  then have "\<not> n < 10" "10 ^ w \<le> n div 10"
    using div_le_mono [of "10 ^ Suc w" n 10] by auto
  with Suc.IH [of "n div 10"] show ?case by (subst dec_string.simps) simp
qed

lemma dec_string_17:
  assumes "10 ^ 16 \<le> n" "n < 10 ^ 17"
  shows "length (dec_string (nat n)) = 17"
proof -
  have "nat (10 ^ 16) \<le> nat n" using assms(1) by (rule nat_mono)
  then have "16 < length (dec_string (nat n))" by (intro dec_string_long) simp
  moreover have "nat n < nat (10 ^ 17)" using assms by simp
  then have "length (dec_string (nat n)) \<le> 17" by (intro dec_string_length) simp_all
  ultimately show ?thesis by simp
qed

lemma digit_not:
  "is_digit c \<Longrightarrow> c \<noteq> CHR ''.'' \<and> c \<noteq> CHR ''e'' \<and> c \<noteq> CHR ''-'' \<and> c \<noteq> CHR ''+'' \<and> c \<noteq> CHR 0x22"
  by (auto simp: is_digit_def)

lemma digits_free:
  "list_all is_digit s \<Longrightarrow> CHR ''.'' \<notin> set s \<and> CHR ''e'' \<notin> set s \<and> CHR 0x22 \<notin> set s"
  by (auto simp: list_all_iff dest: digit_not)

lemma takeWhile_free [simp]:
  "x \<notin> set s \<Longrightarrow> takeWhile (\<lambda>c. c \<noteq> x) s = s" "x \<notin> set s \<Longrightarrow> dropWhile (\<lambda>c. c \<noteq> x) s = []"
  "x \<notin> set s \<Longrightarrow> takeWhile (\<lambda>c. c \<noteq> x) (s @ x # t) = s"
  "x \<notin> set s \<Longrightarrow> dropWhile (\<lambda>c. c \<noteq> x) (s @ x # t) = x # t"
  by (induction s) auto

lemma strip_zeros_set: "set (strip_zeros ds) \<subseteq> set ds"
  by (auto simp: strip_zeros_def dest: set_dropWhileD)

lemma mantissa_dotted:
  assumes "list_all is_digit (a @ b)"
  shows "mantissa_value (a @ dotted b) = of_int (digits_value (a @ b)) * 10 powi (- int (length b))"
proof -
  have f: "CHR ''.'' \<notin> set a" "CHR ''.'' \<notin> set (strip_zeros b)"
    using digits_free [OF assms] strip_zeros_set [of b] by auto
  show ?thesis
    using strip_zeros_value [of a b] f
    by (cases "strip_zeros b = []") (simp_all add: mantissa_value_def dotted_def Let_def)
qed

lemma dotted_free: "list_all is_digit b \<Longrightarrow> CHR ''e'' \<notin> set (dotted b) \<and> CHR 0x22 \<notin> set (dotted b)"
  using strip_zeros_set [of b] digits_free [of b] by (auto simp: dotted_def)

lemma powi10: "(10::real) powi (- int n) = 1 / 10 ^ n" "(10::real) powi int n = 10 ^ n"
  by (simp_all add: power_int_minus field_simps)

lemma zero_pad_value: "digits_value (zero_pad w s) = digits_value s"
  by (simp add: zero_pad_def digits_value_zeros)

lemma read_decimal_text:
  assumes "10 ^ 16 \<le> n" "n < 10 ^ 17"
  shows "read_positive (decimal_text n X) = of_int n * 10 powi (X - 16)"
proof -
  define ds where "ds = dec_string (nat n)"
  have n: "0 \<le> n" using assms by simp
  have ds: "list_all is_digit ds" "length ds = 17" "digits_value ds = n"
    using dec_string_digits dec_string_17 [OF assms] n by (simp_all add: ds_def digits_value_dec_string)
  have part: "list_all is_digit (take k ds) \<and> list_all is_digit (drop k ds)" for k
    using ds(1) by (metis append_take_drop_id list_all_append)
  have man: "mantissa_value (take k ds @ dotted (drop k ds)) = of_int n * 10 powi (- int (17 - k))" for k
    using mantissa_dotted [of "take k ds" "drop k ds"] ds by simp
  have noe: "CHR ''e'' \<notin> set (take k ds @ dotted (drop k ds))" for k
    using part [of k] digits_free dotted_free by auto
  consider (sci) "X < - 4 \<or> 17 \<le> X" | (big) "0 \<le> X" "X < 17" | (small) "X < 0" "- 4 \<le> X" by linarith
  then show ?thesis
  proof cases
    case sci
    define t where "t = (if X < 0 then CHR ''-'' else CHR ''+'') # zero_pad 2 (dec_string (nat \<bar>X\<bar>))"
    have e: "decimal_text n X = (take 1 ds @ dotted (drop 1 ds)) @ CHR ''e'' # t"
      using sci by (simp add: decimal_text_def Let_def ds_def t_def)
    have "exponent_value t = X" by (simp add: t_def zero_pad_value digits_value_dec_string)
    then have "read_positive (decimal_text n X) = of_int n * 10 powi (- int 16) * 10 powi X"
      unfolding e read_positive_def takeWhile_free(3) [OF noe] takeWhile_free(4) [OF noe] list.sel
      using man [of 1] by (simp only:) simp
    then show ?thesis by (simp add: power_int_diff powi10)
  next
    case big
    have e: "decimal_text n X = take (nat X + 1) ds @ dotted (drop (nat X + 1) ds)"
      using big by (simp add: decimal_text_def Let_def ds_def)
    have "read_positive (decimal_text n X) = of_int n * 10 powi (- int (17 - (nat X + 1)))"
      unfolding e using man [of "nat X + 1"] noe [of "nat X + 1"] by (simp only: read_positive_def takeWhile_free) simp
    moreover have "- int (17 - (nat X + 1)) = X - 16" using big by simp
    ultimately show ?thesis by (simp only:)
  next
    case small
    define a where "a = ''0'' @ replicate (nat (- X - 1)) (CHR ''0'')"
    have z: "digits_value (a @ s) = digits_value s" for s
      using digits_value_zeros [of "Suc (nat (- X - 1))" s] by (simp add: a_def)
    have e: "decimal_text n X = ''0'' @ CHR ''.'' # (replicate (nat (- X - 1)) (CHR ''0'') @ strip_zeros ds)"
      using small by (simp add: decimal_text_def Let_def ds_def)
    have f: "CHR ''e'' \<notin> set (strip_zeros ds)" "CHR ''.'' \<notin> set (strip_zeros ds)"
      using digits_free [OF ds(1)] strip_zeros_set [of ds] by auto
    have pw: "(10::real) powi (- int (i + j)) = 10 powi (- int j) * 10 powi (- int i)" for i j
      by (simp only: powi10 power_add) simp
    have "mantissa_value (decimal_text n X)
        = of_int (digits_value (a @ strip_zeros ds)) * 10 powi (- int (nat (- X - 1) + length (strip_zeros ds)))"
      unfolding e by (simp add: mantissa_value_def Let_def a_def)
    also have "\<dots> = of_int (digits_value (a @ ds)) * 10 powi (- int 17) * 10 powi (- int (nat (- X - 1)))"
      by (simp only: pw mult.assoc [symmetric] strip_zeros_value [of a ds] ds(2))
    also have "\<dots> = of_int n * (10 powi (- int 17) * 10 powi (X + 1))"
      using small by (simp only: z ds(3) mult.assoc) (simp add: add.commute)
    also have "(10::real) powi (- int 17) * 10 powi (X + 1) = 10 powi (X - 16)"
      using power_int_add [of "10::real" "- int 17" "X + 1"] by simp
    finally have "mantissa_value (decimal_text n X) = of_int n * 10 powi (X - 16)" .
    moreover have "CHR ''e'' \<notin> set (decimal_text n X)" unfolding e using f by auto
    ultimately show ?thesis by (simp add: read_positive_def)
  qed
qed

section \<open>The digits determine the number\<close>

text \<open>A number close enough to a binary64 value, on the grid of its own binade, rounds to it.\<close>

lemma rnd_near_grid:
  assumes "0 < v" "a = of_int M * 2 powi uexp v" "\<bar>v - a\<bar> < 2 powi uexp v / 2"
  shows "rnd v = a"
proof -
  let ?g = "(2::real) powi uexp v"
  have "\<bar>v / ?g - of_int M\<bar> < 1 / 2"
    using assms(2,3) by (simp add: field_simps abs_less_iff)
  then have "\<bar>of_int (rne (v / ?g)) - (of_int M :: real)\<bar> < 1" using rne_error [of "v / ?g"] by linarith
  then have "rne (v / ?g) = M" by linarith
  then show ?thesis using assms(1,2) by (simp add: rnd_def)
qed

lemma powi2_grid: "i \<le> j \<Longrightarrow> (2::real) powi j = of_int (2 ^ nat (j - i)) * 2 powi i"
  using scaled_power_int [of "j - i"] powi2_add [of "j - i" i] by simp

lemma uexp_scale: "0 < v \<Longrightarrow> v < 2 ^ 53 * 2 powi uexp v"
proof -
  assume v: "0 < v"
  have "v < 2 powi (flog2 v + 1)" using flog2_bounds(2) [OF v] .
  also have "\<dots> \<le> 2 powi (53 + uexp v)" using v by (simp add: powi2_le_iff uexp_def)
  finally show ?thesis by (simp add: powi2_add)
qed

lemma rnd_close:
  assumes a: "0 < a" "rnd a = a" and c: "\<bar>v - a\<bar> \<le> a / (2 * 10 ^ 16)"
  shows "rnd v = a"
proof -
  obtain M where M: "a = of_int M * 2 powi uexp a" using rnd_form [of a] a(2) by auto
  have "a - v \<le> a / (2 * 10 ^ 16)" using c by linarith
  then have v: "0 < v" "a \<le> v * (1 + 1 / 10 ^ 16)" using a(1) by simp_all
  have near: "\<bar>v - a\<bar> < 2 powi uexp v / 2"
  proof -
    have "\<bar>v - a\<bar> \<le> v * (1 + 1 / 10 ^ 16) / (2 * 10 ^ 16)" using c v(2) by simp
    also have "\<dots> < v / 2 ^ 54" using v(1) by simp
    also have "\<dots> < 2 powi uexp v / 2" using uexp_scale [OF v(1)] by simp
    finally show ?thesis .
  qed
  show ?thesis
  proof (cases "uexp v \<le> uexp a")
    case True
    then have "(2::real) powi uexp a = of_int (2 ^ nat (uexp a - uexp v)) * 2 powi uexp v"
      by (rule powi2_grid)
    with M have "a = of_int (M * 2 ^ nat (uexp a - uexp v)) * 2 powi uexp v" by simp
    then show ?thesis by (rule rnd_near_grid [OF v(1) _ near])
  next
    case False
    then have "a < v" using uexp_mono [of v a] v(1) by linarith
    have fv: "uexp v = flog2 v - 52" using False uexp_ge [of a] v(1) by (auto simp: uexp_def [of v] max_def split: if_splits)
    have "flog2 a < flog2 v" using False a(1) v(1) fv by (simp add: uexp_def [of a])
    then have "a < 2 powi flog2 v"
      using flog2_bounds(2) [OF a(1)] powi2_le_iff [of "flog2 a + 1" "flog2 v"] by simp
    have "(2::real) powi flog2 v = of_int (2 ^ nat (flog2 v - uexp a)) * 2 powi uexp a"
      using False fv by (intro powi2_grid) simp
    then have "of_int M * 2 powi uexp a < of_int (2 ^ nat (flog2 v - uexp a)) * (2 powi uexp a :: real)"
      using M \<open>a < 2 powi flog2 v\<close> by simp
    then have "M + 1 \<le> 2 ^ nat (flog2 v - uexp a)" by (simp add: mult_less_cancel_right)
    then have "of_int (M + 1) * 2 powi uexp a \<le> (of_int (2 ^ nat (flog2 v - uexp a)) * 2 powi uexp a :: real)"
      by (intro mult_right_mono) (simp_all only: of_int_le_iff powi2_pos less_imp_le)
    then have "a + 2 powi uexp a \<le> v"
      using M flog2_bounds(1) [OF v(1)] \<open>2 powi flog2 v = _\<close> by (simp add: algebra_simps)
    moreover have "a < 9007199254740992 * 2 powi uexp a" using uexp_scale [OF a(1)] by simp
    then have "a < 20000000000000000 * 2 powi uexp a" using powi2_pos [of "uexp a"] by linarith
    then have "a / (2 * 10 ^ 16) < 2 powi uexp a" by simp
    ultimately show ?thesis using c by linarith
  qed
qed

lemma powi10_pos [simp]: "0 < (10::real) powi e"
  by simp

lemma dec_exp_bounds:
  assumes "0 < a"
  shows "10 powi dec_exp a \<le> a" "a < 10 powi (dec_exp a + 1)"
proof -
  have "10 powr of_int (dec_exp a) \<le> a \<and> a < 10 powr (of_int (dec_exp a) + 1)"
    using floor_log_eq_powr_iff [of a 10 "dec_exp a"] assms by (simp add: dec_exp_def)
  then show "10 powi dec_exp a \<le> a" "a < 10 powi (dec_exp a + 1)"
    using powr_real_of_int' [of 10 "dec_exp a"] powr_real_of_int' [of 10 "dec_exp a + 1"] by simp_all
qed

lemma dec_sig_sound:
  assumes a: "0 < a" and s: "dec_sig a = (n, X)"
  shows "10 ^ 16 \<le> n" "n < 10 ^ 17" "\<bar>of_int n * 10 powi (X - 16) - a\<bar> \<le> a / (2 * 10 ^ 16)"
proof -
  define E where "E = dec_exp a"
  define y where "y = a * 10 powi (16 - E)"
  define m where "m = rne y"
  note b = dec_exp_bounds [OF a, folded E_def]
  have one: "(10::real) powi (16 - E) * 10 powi (E - 16) = 1" by (simp flip: power_int_add)
  then have ay: "a = y * 10 powi (E - 16)" by (simp add: y_def mult.assoc)
  have "10 powi E * 10 powi (16 - E) \<le> y" "y < 10 powi (E + 1) * 10 powi (16 - E)"
    unfolding y_def using b by (intro mult_right_mono mult_strict_right_mono; simp)+
  then have y: "10 ^ 16 \<le> y" "y < 10 ^ 17" by (simp_all flip: power_int_add)
  have m: "10 ^ 16 \<le> m" "m \<le> 10 ^ 17"
    using rne_mono [OF y(1)] rne_mono [OF less_imp_le [OF y(2)]] rne_of_int [of "10 ^ 16"] rne_of_int [of "10 ^ 17"]
    by (simp_all add: m_def)
  have "\<bar>of_int m * 10 powi (E - 16) - a\<bar> = \<bar>of_int m - y\<bar> * 10 powi (E - 16)"
    by (subst ay) (simp add: abs_mult flip: left_diff_distrib)
  also have "\<dots> \<le> 1 / 2 * 10 powi (E - 16)"
    using rne_error [of y] by (intro mult_right_mono) (simp_all add: m_def)
  also have "\<dots> \<le> a / (2 * 10 ^ 16)" using b(1) by (simp add: power_int_diff)
  finally have close: "\<bar>of_int m * 10 powi (E - 16) - a\<bar> \<le> a / (2 * 10 ^ 16)" .
  have nX: "(n, X) = (if m = 10 ^ 17 then (10 ^ 16, E + 1) else (m, E))"
    using s by (auto simp: dec_sig_def E_def y_def m_def Let_def)
  then show "10 ^ 16 \<le> n" "n < 10 ^ 17" using m by (auto split: if_splits)
  have "of_int n * (10::real) powi (X - 16) = of_int m * 10 powi (E - 16)"
    using nX by (auto simp: power_int_diff power_int_add split: if_splits)
  with close show "\<bar>of_int n * 10 powi (X - 16) - a\<bar> \<le> a / (2 * 10 ^ 16)" by simp
qed

lemma read_positive_text:
  assumes "0 < a" "rnd a = a"
  shows "rnd (read_positive (positive_text a)) = a"
proof -
  obtain n X where s: "dec_sig a = (n, X)" by fastforce
  note d = dec_sig_sound [OF assms(1) s]
  show ?thesis
    using rnd_close [OF assms d(3)] read_decimal_text [OF d(1,2)] by (simp add: positive_text_def s)
qed

lemma positive_text_head:
  assumes "0 < a"
  shows "\<exists>c cs. positive_text a = c # cs \<and> c \<noteq> CHR ''-''"
proof -
  obtain n X where s: "dec_sig a = (n, X)" by fastforce
  have "length (dec_string (nat n)) = 17" "list_all is_digit (dec_string (nat n))"
    using dec_string_17 dec_sig_sound [OF assms s] dec_string_digits by auto
  then obtain c cs where c: "dec_string (nat n) = c # cs" "is_digit c" by (cases "dec_string (nat n)") auto
  then show ?thesis using digit_not [of c] by (simp add: positive_text_def s decimal_text_def Let_def)
qed

text \<open>Reading a printed number back gives the number.\<close>

lemma read_wire_number:
  assumes "is_f64 x" "fin x"
  shows "rnd (read_number (wire_number x)) = val x"
proof (cases x)
  case (Fin r)
  have r: "rnd r = r" using is_f64_rnd [OF assms(1)] by (simp add: Fin)
  consider "r = 0" | "r < 0" | "0 < r" by linarith
  then show ?thesis
  proof cases
    case 1
    then show ?thesis by (simp add: Fin read_positive_def mantissa_value_def digit_val_def)
  next
    case 2
    then show ?thesis using read_positive_text [of "- r"] r by (simp add: Fin rnd_minus)
  next
    case 3
    then show ?thesis
      using read_positive_text [of r] positive_text_head [of r] r by (auto simp: Fin)
  qed
qed (use assms in \<open>auto simp: read_positive_def mantissa_value_def digit_val_def\<close>)

lemma wire_number_inj:
  assumes "is_f64 x" "fin x" "is_f64 y" "fin y" "wire_number x = wire_number y"
  shows "val x = val y"
  using read_wire_number assms by metis

end
