(* ===== verification/Rng.thy ===== *)
theory Rng
  imports Core
begin

text \<open>
  The deterministic generator (\<open>include/ptl/core/rng.hpp\<close>, \<open>src/core/rng.cpp\<close>):
  splitmix64 seeding, xoshiro256**, Lemire's bounded draw, Box-Muller normals and stream forking.
  The logarithm of \<open><cmath>\<close> is a parameter of the draws that use it.
\<close>

type_synonym u64 = "64 word"

text \<open>\<open>splitmix64\<close> advances its state and returns the mixed value with it.\<close>

definition splitmix64 :: "u64 \<Rightarrow> u64 \<times> u64" where
  "splitmix64 x =
     (let x' = x + 0x9E3779B97F4A7C15;
          z = (x' XOR drop_bit 30 x') * 0xBF58476D1CE4E5B9;
          z' = (z XOR drop_bit 27 z) * 0x94D049BB133111EB
      in (z' XOR drop_bit 31 z', x'))"

definition rotl :: "u64 \<Rightarrow> nat \<Rightarrow> u64" where
  "rotl x k = push_bit k x OR drop_bit (64 - k) x"

text \<open>The two branches of \<open>mul64x64_hi\<close>: the 128-bit product, and the portable four-way split.\<close>

definition mul64x64_hi :: "u64 \<Rightarrow> u64 \<Rightarrow> u64 \<times> u64" where
  "mul64x64_hi a b =
     (let prod = (ucast a :: 128 word) * ucast b in (ucast (drop_bit 64 prod), ucast prod))"

definition mul64x64_hi_portable :: "u64 \<Rightarrow> u64 \<Rightarrow> u64 \<times> u64" where
  "mul64x64_hi_portable a b =
     (let a_lo = a AND 0xFFFFFFFF; a_hi = drop_bit 32 a;
          b_lo = b AND 0xFFFFFFFF; b_hi = drop_bit 32 b;
          p0 = a_lo * b_lo; p1 = a_lo * b_hi; p2 = a_hi * b_lo; p3 = a_hi * b_hi;
          carry = drop_bit 32 (drop_bit 32 p0 + (p1 AND 0xFFFFFFFF) + (p2 AND 0xFFFFFFFF));
          low = p0 + push_bit 32 p1 + push_bit 32 p2
      in (p3 + drop_bit 32 p1 + drop_bit 32 p2 + carry, low))"

record DeterministicRng =
  s0 :: u64
  s1 :: u64
  s2 :: u64
  s3 :: u64
  rng_seed :: u64
  spare_normal :: f64
  has_spare :: bool

definition make_rng :: "u64 \<Rightarrow> DeterministicRng" where
  "make_rng seed =
     (let (w0, x0) = splitmix64 seed; (w1, x1) = splitmix64 x0;
          (w2, x2) = splitmix64 x1; (w3, _) = splitmix64 x2
      in \<lparr>s0 = w0, s1 = w1, s2 = w2, s3 = w3, rng_seed = seed, spare_normal = fzero,
          has_spare = False\<rparr>)"

definition next_u64 :: "DeterministicRng \<Rightarrow> u64 \<times> DeterministicRng" where
  "next_u64 r =
     (let result = rotl (s1 r * 5) 7 * 9; t = push_bit 17 (s1 r);
          a2 = s2 r XOR s0 r; a3 = s3 r XOR s1 r; a1 = s1 r XOR a2; a0 = s0 r XOR a3
      in (result, r\<lparr>s0 := a0, s1 := a1, s2 := a2 XOR t, s3 := rotl a3 45\<rparr>))"

definition uniform01 :: "DeterministicRng \<Rightarrow> f64 \<times> DeterministicRng" where
  "uniform01 r =
     (let (x, r') = next_u64 r
      in (fmul (of_int64 (uint (drop_bit 11 x))) (lit (1 / 2 ^ 53)), r'))"

definition uniform :: "f64 \<Rightarrow> f64 \<Rightarrow> DeterministicRng \<Rightarrow> f64 \<times> DeterministicRng" where
  "uniform lo hi r = (let (u, r') = uniform01 r in (fadd lo (fmul (fsub hi lo) u), r'))"

text \<open>
  The rejection loop of \<open>bounded\<close> draws until the low word clears the threshold: a partial
  function, with \<open>None\<close> for a run that never ends.
\<close>

partial_function (option) bounded_loop ::
    "u64 \<Rightarrow> u64 \<Rightarrow> u64 \<times> u64 \<Rightarrow> DeterministicRng \<Rightarrow> (u64 \<times> DeterministicRng) option" where
  "bounded_loop n threshold p r =
     (if snd p < threshold
      then (let d = next_u64 r in bounded_loop n threshold (mul64x64_hi (fst d) n) (snd d))
      else Some (fst p, r))"

definition bounded :: "u64 \<Rightarrow> DeterministicRng \<Rightarrow> (u64 \<times> DeterministicRng) option" where
  "bounded n r =
     (if n = 0 then Some (0, r)
      else (let d = next_u64 r; m = mul64x64_hi (fst d) n in
            if snd m < n then bounded_loop n ((NOT n + 1) mod n) m (snd d)
            else Some (fst m, snd d)))"

text \<open>One round of the polar rejection loop of \<open>normal\<close>, and the loop.\<close>

definition polar_draw :: "DeterministicRng \<Rightarrow> f64 \<times> f64 \<times> f64 \<times> DeterministicRng" where
  "polar_draw r =
     (let (a, r1) = uniform01 r; u = fsub (fmul (lit 2) a) (lit 1);
          (b, r2) = uniform01 r1; v = fsub (fmul (lit 2) b) (lit 1)
      in (u, v, fadd (fmul u u) (fmul v v), r2))"

partial_function (option) polar_loop ::
    "DeterministicRng \<Rightarrow> (f64 \<times> f64 \<times> f64 \<times> DeterministicRng) option" where
  "polar_loop r =
     (let d = polar_draw r in
      if fle (lit 1) (fst (snd (snd d))) \<or> feq (fst (snd (snd d))) fzero
      then polar_loop (snd (snd (snd d))) else Some d)"

definition normal ::
    "(f64 \<Rightarrow> f64) \<Rightarrow> f64 \<Rightarrow> f64 \<Rightarrow> DeterministicRng \<Rightarrow> (f64 \<times> DeterministicRng) option" where
  "normal log_fn mean stddev r =
     (if has_spare r
      then Some (fadd mean (fmul stddev (spare_normal r)), r\<lparr>has_spare := False\<rparr>)
      else (case polar_loop r of
              None \<Rightarrow> None
            | Some (u, v, sq, r') \<Rightarrow>
                (let f = fsqrt (fdiv (fmul (lit (-2)) (log_fn sq)) sq) in
                 Some (fadd mean (fmul stddev (fmul u f)),
                       r'\<lparr>spare_normal := fmul v f, has_spare := True\<rparr>))))"

definition exponential :: "(f64 \<Rightarrow> f64) \<Rightarrow> f64 \<Rightarrow> DeterministicRng \<Rightarrow> f64 \<times> DeterministicRng" where
  "exponential log_fn rate r =
     (let (u, r') = uniform01 r in (fdiv (fneg (log_fn (fsub (lit 1) u))) rate, r'))"

definition fork :: "u64 \<Rightarrow> DeterministicRng \<Rightarrow> DeterministicRng" where
  "fork stream_id r =
     (let x = rng_seed r XOR (stream_id * 0x9E3779B97F4A7C15) in make_rng (fst (splitmix64 x)))"

definition kStreamLatency :: u64 where "kStreamLatency = 1"
definition kStreamSlippage :: u64 where "kStreamSlippage = 2"
definition kStreamFillProb :: u64 where "kStreamFillProb = 3"
definition kStreamIntrabar :: u64 where "kStreamIntrabar = 4"
definition kStreamBootstrap :: u64 where "kStreamBootstrap = 5"

section \<open>The portable multiply\<close>

lemma split32_div:
  fixes p0 p1 p2 p3 :: nat
  shows "(p3 * 2 ^ 64 + (p1 + p2) * 2 ^ 32 + p0) div 2 ^ 64 =
    p3 + p1 div 2 ^ 32 + p2 div 2 ^ 32 +
      (p0 div 2 ^ 32 + p1 mod 2 ^ 32 + p2 mod 2 ^ 32) div 2 ^ 32"
proof -
  have regroup: "p3 * 2 ^ 64 + ((q1 * 2 ^ 32 + r1) + (q2 * 2 ^ 32 + r2)) * 2 ^ 32 + (q0 * 2 ^ 32 + r0) =
      (p3 + q1 + q2) * 2 ^ 64 + ((q0 + r1 + r2) * 2 ^ 32 + r0)" for q0 q1 q2 r0 r1 r2 :: nat
    by (simp add: algebra_simps)
  let ?A = "p3 + p1 div 2 ^ 32 + p2 div 2 ^ 32"
    and ?S = "p0 div 2 ^ 32 + p1 mod 2 ^ 32 + p2 mod 2 ^ 32"
  have "p3 * 2 ^ 64 + (p1 + p2) * 2 ^ 32 + p0 = ?A * 2 ^ 64 + (?S * 2 ^ 32 + p0 mod 2 ^ 32)"
    using regroup [of "p1 div 2 ^ 32" "p1 mod 2 ^ 32" "p2 div 2 ^ 32" "p2 mod 2 ^ 32"
      "p0 div 2 ^ 32" "p0 mod 2 ^ 32"] unfolding div_mult_mod_eq .
  then have "(p3 * 2 ^ 64 + (p1 + p2) * 2 ^ 32 + p0) div 2 ^ 64 =
      (?A * 2 ^ 64 + (?S * 2 ^ 32 + p0 mod 2 ^ 32)) div 2 ^ 64" by (rule arg_cong)
  also have "\<dots> = ?A + (?S * 2 ^ 32 + p0 mod 2 ^ 32) div 2 ^ 64"
    by (rule div_mult_self3) simp
  also have "(?S * 2 ^ 32 + p0 mod 2 ^ 32) div 2 ^ 64 = ?S div 2 ^ 32"
  proof -
    have "(?S * 2 ^ 32 + p0 mod 2 ^ 32) div (2 ^ 32 * 2 ^ 32) =
        (?S * 2 ^ 32 + p0 mod 2 ^ 32) div 2 ^ 32 div 2 ^ 32" by (rule div_mult2_eq)
    also have "(?S * 2 ^ 32 + p0 mod 2 ^ 32) div 2 ^ 32 = ?S + p0 mod 2 ^ 32 div 2 ^ 32"
      by (rule div_mult_self3) simp
    also have "p0 mod 2 ^ 32 div 2 ^ 32 = 0" by (rule mod_div_trivial)
    finally show ?thesis by (simp only: power_add [symmetric]) simp
  qed
  finally show ?thesis .
qed

lemma unat_lo32: "unat (x AND 0xFFFFFFFF :: u64) = unat x mod 2 ^ 32"
proof -
  have "unat (x AND 0xFFFFFFFF) = unat x AND unat (0xFFFFFFFF :: u64)" by (rule unsigned_and_eq)
  also have "unat (0xFFFFFFFF :: u64) = mask 32" by (simp add: mask_eq_exp_minus_1)
  also have "unat x AND mask 32 = take_bit 32 (unat x)" by (rule take_bit_eq_mask [symmetric])
  also have "\<dots> = unat x mod 2 ^ 32" by (rule take_bit_eq_mod)
  finally show ?thesis .
qed

lemma unat_hi32: "unat (drop_bit 32 x :: u64) = unat x div 2 ^ 32"
  by (simp only: unat_drop_bit_eq) (simp add: drop_bit_eq_div)

lemma unat_lt64: "unat (x :: u64) < 2 ^ 64"
  using unsigned_less [of x] by simp

lemma mul32_lt64: "a < 2 ^ 32 \<Longrightarrow> b < 2 ^ 32 \<Longrightarrow> a * b < (2::nat) ^ 64"
  using mult_strict_mono [of a "2 ^ 32" b "2 ^ 32"] by simp

lemma unat_mul64_hi: "unat (fst (mul64x64_hi a b)) = unat a * unat b div 2 ^ 64"
  and unat_mul64_lo: "unat (snd (mul64x64_hi a b)) = unat a * unat b mod 2 ^ 64"
proof -
  have "unat a * unat b < 2 ^ 64 * 2 ^ 64"
    using unat_lt64 [of a] unat_lt64 [of b] by (intro mult_strict_mono) auto
  then have lt: "unat a * unat b < 2 ^ 128" by simp
  have "unat (ucast x :: 128 word) = unat x" for x :: u64
    using unat_lt64 [of x] by (simp add: unsigned_ucast_eq take_bit_nat_eq_self)
  then have p: "unat ((ucast a :: 128 word) * ucast b) = unat a * unat b"
    using lt by (simp add: unat_word_ariths)
  have "unat a * unat b div 2 ^ 64 < 2 ^ 64"
    using lt by (simp add: less_mult_imp_div_less)
  then show "unat (fst (mul64x64_hi a b)) = unat a * unat b div 2 ^ 64"
    by (simp only: mul64x64_hi_def Let_def fst_conv unsigned_ucast_eq unat_drop_bit_eq p)
      (simp add: drop_bit_eq_div take_bit_nat_eq_self)
  show "unat (snd (mul64x64_hi a b)) = unat a * unat b mod 2 ^ 64"
    by (simp only: mul64x64_hi_def Let_def snd_conv unsigned_ucast_eq p) (simp add: take_bit_eq_mod)
qed

text \<open>
  The portable four-way multiply computes the same high and low words as the 128-bit product, so
  a build without \<open>__int128\<close> draws the same numbers.
\<close>

theorem portable_multiply_agrees:
  "mul64x64_hi_portable a b = mul64x64_hi a b"
proof -
  define al ah bl bh where "al = unat a mod 2 ^ 32" and "ah = unat a div 2 ^ 32"
    and "bl = unat b mod 2 ^ 32" and "bh = unat b div 2 ^ 32"
  have small: "al < 2 ^ 32" "bl < 2 ^ 32" "ah < 2 ^ 32" "bh < 2 ^ 32"
    using unat_lt64 [of a] unat_lt64 [of b]
    by (simp_all add: al_def bl_def ah_def bh_def less_mult_imp_div_less)
  define p0 p1 p2 p3 where "p0 = al * bl" and "p1 = al * bh" and "p2 = ah * bl" and "p3 = ah * bh"
  note ps = p0_def p1_def p2_def p3_def
  have lt: "p0 < 2 ^ 64" "p1 < 2 ^ 64" "p2 < 2 ^ 64" "p3 < 2 ^ 64"
    unfolding ps using small by (simp_all only: mul32_lt64)
  have ab: "unat a * unat b = p3 * 2 ^ 64 + (p1 + p2) * 2 ^ 32 + p0"
  proof -
    have "unat a = ah * 2 ^ 32 + al" "unat b = bh * 2 ^ 32 + bl"
      by (simp_all only: ah_def al_def bh_def bl_def div_mult_mod_eq)
    then show ?thesis by (simp only: ps) (simp add: algebra_simps)
  qed
  let ?w0 = "(a AND 0xFFFFFFFF) * (b AND 0xFFFFFFFF)" and ?w1 = "(a AND 0xFFFFFFFF) * drop_bit 32 b"
  let ?w2 = "drop_bit 32 a * (b AND 0xFFFFFFFF)" and ?w3 = "drop_bit 32 a * drop_bit 32 b"
  have w: "unat ?w0 = p0" "unat ?w1 = p1" "unat ?w2 = p2" "unat ?w3 = p3"
    using lt by (simp_all only: unat_word_ariths unat_lo32 unat_hi32 al_def ah_def bl_def bh_def ps)
      simp_all
  define c where "c = p0 div 2 ^ 32 + p1 mod 2 ^ 32 + p2 mod 2 ^ 32"
  have parts: "p0 div 2 ^ 32 < 2 ^ 32" "p1 mod 2 ^ 32 < 2 ^ 32" "p2 mod 2 ^ 32 < 2 ^ 32"
    using lt by (simp_all add: less_mult_imp_div_less)
  then have c: "c < 2 ^ 64" by (simp add: c_def)
  have hi: "unat a * unat b div 2 ^ 64 = p3 + p1 div 2 ^ 32 + p2 div 2 ^ 32 + c div 2 ^ 32"
    unfolding ab c_def by (rule split32_div)
  have "unat a * unat b div 2 ^ 64 < 2 ^ 64"
    using unat_lt64 [of a] unat_lt64 [of b]
    by (metis less_mult_imp_div_less mult_strict_mono' zero_le)
  then have "unat (fst (mul64x64_hi_portable a b)) = unat a * unat b div 2 ^ 64"
    using c unfolding hi
    by (simp only: mul64x64_hi_portable_def Let_def fst_conv unat_word_ariths(1) unat_hi32 unat_lo32 w)
      (simp add: mod_add_left_eq c_def)
  moreover have "unat (snd (mul64x64_hi_portable a b)) = unat a * unat b mod 2 ^ 64"
  proof -
    have gen: "((x + y mod m) mod m + z mod m) mod m = (x + y + z) mod m" for x y z m :: nat
      by (simp add: mod_simps)
    have shift: "unat (push_bit 32 x) = unat x * 2 ^ 32 mod 2 ^ 64" for x :: u64
      by (simp only: unsigned_push_bit_eq) (simp add: push_bit_eq_mult take_bit_eq_mod)
    have "unat (snd (mul64x64_hi_portable a b)) =
        ((p0 + p1 * 2 ^ 32 mod 2 ^ 64) mod 2 ^ LENGTH(64) + p2 * 2 ^ 32 mod 2 ^ 64) mod 2 ^ LENGTH(64)"
      by (simp only: mul64x64_hi_portable_def Let_def snd_conv unat_word_ariths(1) shift w)
    also have "\<dots> = (p0 + p1 * 2 ^ 32 + p2 * 2 ^ 32) mod 2 ^ 64"
      using gen [of p0 "p1 * 2 ^ 32" "2 ^ 64" "p2 * 2 ^ 32"] by simp
    also have "\<dots> = (p0 + p1 * 2 ^ 32 + p2 * 2 ^ 32 + p3 * 2 ^ 64) mod 2 ^ 64"
      by (rule mod_mult_self1 [symmetric])
    also have "p0 + p1 * 2 ^ 32 + p2 * 2 ^ 32 + p3 * 2 ^ 64 = unat a * unat b"
      unfolding ab by (simp only: algebra_simps)
    finally show ?thesis .
  qed
  ultimately show ?thesis
    by (intro prod_eqI) (simp_all add: word_unat_eq_iff unat_mul64_hi unat_mul64_lo)
qed

section \<open>Draws\<close>

lemma mul64_hi_less: "n \<noteq> 0 \<Longrightarrow> fst (mul64x64_hi x n) < n"
proof -
  assume "n \<noteq> 0"
  then have "0 < unat n" by (simp add: unat_gt_0)
  then have "unat x * unat n < 2 ^ 64 * unat n" using unat_lt64 [of x] by simp
  then have "unat x * unat n div 2 ^ 64 < unat n"
    by (simp add: less_mult_imp_div_less mult.commute)
  then show ?thesis by (simp add: word_less_nat_alt unat_mul64_hi)
qed

lemma bounded_loop_less:
  assumes "bounded_loop n th p r = Some (x, r')" and "fst p < n" and n: "n \<noteq> 0"
  shows "x < n"
proof -
  have "n = n \<longrightarrow> fst p < n \<longrightarrow> fst (x, r') < n"
  proof (rule bounded_loop.raw_induct
      [where P = "\<lambda>m th p r y. m = n \<longrightarrow> fst p < n \<longrightarrow> fst y < n", OF _ assms(1)])
    fix f m th p r y
    assume IH: "\<And>m th p r y. f m th p r = Some y \<Longrightarrow> m = n \<longrightarrow> fst p < n \<longrightarrow> fst y < n"
      and eq: "(if snd p < th
         then (let d = next_u64 r in f m th (mul64x64_hi (fst d) m) (snd d))
         else Some (fst p, r)) = Some y"
    then show "m = n \<longrightarrow> fst p < n \<longrightarrow> fst y < n"
      using mul64_hi_less [OF n] by (auto simp: Let_def split: if_splits)
  qed
  with assms(2) show ?thesis by simp
qed

text \<open>
  A bounded draw that returns is below its bound, on the accepted first draw and after any
  number of rejections.
\<close>

theorem bounded_below:
  assumes "bounded n r = Some (x, r')" and "n \<noteq> 0"
  shows "x < n"
proof -
  define d m where "d = next_u64 r" and "m = mul64x64_hi (fst d) n"
  have m: "fst m < n" using mul64_hi_less [OF assms(2)] by (simp add: m_def)
  from assms have "(if snd m < n then bounded_loop n ((NOT n + 1) mod n) m (snd d)
      else Some (fst m, snd d)) = Some (x, r')"
    by (auto simp: bounded_def d_def m_def Let_def split: if_splits)
  with m show ?thesis using bounded_loop_less [OF _ m assms(2)] by (auto split: if_splits)
qed

lemma two_m53: "(2::real) powi (- 53) = 1 / 2 ^ 53"
  by (simp only: power_int_minus_divide power_int_numeral)

lemma rnd_scaled_53: "\<bar>k\<bar> \<le> 2 ^ 53 \<Longrightarrow> rnd (of_int k / 2 ^ 53) = of_int k / 2 ^ 53"
  using rnd_scaled_int [of k "- 53"] unfolding two_m53 by simp

lemma lit_scaled_53:
  assumes "0 \<le> k" "k \<le> 2 ^ 53"
  shows "lit (of_int k / 2 ^ 53) = Fin (of_int k / 2 ^ 53)"
proof -
  have k: "real_of_int k \<le> 2 ^ 53" "0 \<le> real_of_int k"
    using assms by simp_all
  then have "\<bar>of_int k / 2 ^ 53 :: real\<bar> \<le> 2 ^ 53" by simp
  then have "\<bar>of_int k / 2 ^ 53 :: real\<bar> < f64_lim" by (rule small_lt_overflow)
  moreover have "rnd (of_int k / 2 ^ 53) = of_int k / 2 ^ 53"
    using assms by (intro rnd_scaled_53) simp
  ultimately show ?thesis using k(2) by (simp add: lit_def Let_def)
qed

lemma scale_2_53_exact:
  assumes "0 \<le> k" "k < 2 ^ 53"
  shows "fmul (of_int64 k) (lit (1 / 2 ^ 53)) = Fin (of_int k / 2 ^ 53)"
proof -
  have k: "real_of_int k \<le> 2 ^ 53" "0 \<le> real_of_int k"
    using assms by simp_all
  have one: "lit (1 / 2 ^ 53) = Fin (1 / 2 ^ 53)" using lit_scaled_53 [of 1] by simp
  have "lit (of_int k / 2 ^ 53) = Fin (of_int k / 2 ^ 53)" using assms by (intro lit_scaled_53) simp_all
  moreover have "of_int64 k = Fin (of_int k)"
    unfolding of_int64_def using k by (intro lit_int_exact) simp_all
  ultimately show ?thesis using k(2)
    unfolding one by (simp add: fmul_def Let_def signed_zero_def)
qed

lemma top53_less: "uint (drop_bit 11 (x :: u64)) < 2 ^ 53"
proof -
  have "unat x div 2 ^ 11 < 2 ^ 53" using unat_lt64 [of x] by (simp add: less_mult_imp_div_less)
  then have "drop_bit 11 (unat x) < 2 ^ 53" by (simp only: drop_bit_eq_div)
  then have "int (unat (drop_bit 11 x)) < int (2 ^ 53)"
    by (simp only: unat_drop_bit_eq of_nat_less_iff)
  then show ?thesis by (simp only: uint_nat of_nat_power of_nat_numeral)
qed

text \<open>
  \<open>uniform01\<close> is exact: the top 53 bits of the draw times \<open>2\<^sup>-\<^sup>5\<^sup>3\<close>, with no rounding, so it
  lies in \<open>[0, 1)\<close> and never returns 1.
\<close>

theorem uniform01_exact:
  "\<exists>k. 0 \<le> k \<and> k < 2 ^ 53 \<and> fst (uniform01 r) = Fin (of_int k / 2 ^ 53) \<and>
     val (fst (uniform01 r)) < 1"
proof -
  define k where "k = uint (drop_bit 11 (fst (next_u64 r)))"
  have k: "0 \<le> k" "k < 2 ^ 53" using top53_less [of "fst (next_u64 r)"] by (simp_all add: k_def)
  have v: "fst (uniform01 r) = Fin (of_int k / 2 ^ 53)"
    using scale_2_53_exact [OF k] by (simp add: uniform01_def k_def case_prod_beta)
  have "real_of_int k < 2 ^ 53" using k(2) by (metis of_int_less_iff of_int_numeral of_int_power)
  then have "val (Fin (of_int k / 2 ^ 53)) < 1" by simp
  with k v show ?thesis by metis
qed

text \<open>Everything a consumer may do with a generator, in any order and number.\<close>

inductive drawn :: "(f64 \<Rightarrow> f64) \<Rightarrow> DeterministicRng \<Rightarrow> DeterministicRng \<Rightarrow> bool"
  for log_fn :: "f64 \<Rightarrow> f64" where
  none: "drawn log_fn r r"
| word: "drawn log_fn r r' \<Longrightarrow> drawn log_fn r (snd (next_u64 r'))"
| unif: "drawn log_fn r r' \<Longrightarrow> drawn log_fn r (snd (uniform lo hi r'))"
| bound: "drawn log_fn r r' \<Longrightarrow> bounded n r' = Some (x, r'') \<Longrightarrow> drawn log_fn r r''"
| gauss: "drawn log_fn r r' \<Longrightarrow> normal log_fn mean sd r' = Some (y, r'') \<Longrightarrow> drawn log_fn r r''"
| expo: "drawn log_fn r r' \<Longrightarrow> drawn log_fn r (snd (exponential log_fn rate r'))"

lemma next_u64_seed [simp]: "rng_seed (snd (next_u64 r)) = rng_seed r"
  by (simp add: next_u64_def Let_def)

lemma uniform01_seed [simp]: "rng_seed (snd (uniform01 r)) = rng_seed r"
  by (simp add: uniform01_def case_prod_beta)

lemma bounded_loop_seed:
  assumes "bounded_loop n th p r = Some y"
  shows "rng_seed (snd y) = rng_seed r"
proof (rule bounded_loop.raw_induct
    [where P = "\<lambda>m th p r y. rng_seed (snd y) = rng_seed r", OF _ assms])
  fix f m th p r y
  assume IH: "\<And>m th p r y. f m th p r = Some y \<Longrightarrow> rng_seed (snd y) = rng_seed r"
    and eq: "(if snd p < th then (let d = next_u64 r in f m th (mul64x64_hi (fst d) m) (snd d))
       else Some (fst p, r)) = Some y"
  then show "rng_seed (snd y) = rng_seed r"
    by (auto simp: Let_def split: if_splits dest: IH)
qed

lemma polar_draw_seed [simp]: "rng_seed (snd (snd (snd (polar_draw r)))) = rng_seed r"
  by (simp add: polar_draw_def Let_def case_prod_beta)

lemma polar_loop_seed:
  assumes "polar_loop r = Some y"
  shows "rng_seed (snd (snd (snd y))) = rng_seed r"
proof (rule polar_loop.raw_induct
    [where P = "\<lambda>r y. rng_seed (snd (snd (snd y))) = rng_seed r", OF _ assms])
  fix f r y
  assume "\<And>r y. f r = Some y \<Longrightarrow> rng_seed (snd (snd (snd y))) = rng_seed r"
    and "(let d = polar_draw r in
      if fle (lit 1) (fst (snd (snd d))) \<or> feq (fst (snd (snd d))) fzero
      then f (snd (snd (snd d))) else Some d) = Some y"
  then show "rng_seed (snd (snd (snd y))) = rng_seed r"
    by (auto simp: Let_def split: if_splits)
qed

lemma drawn_seed: "drawn log_fn r r' \<Longrightarrow> rng_seed r' = rng_seed r"
proof (induction rule: drawn.induct)
  case (unif r r' lo hi)
  then show ?case by (simp add: uniform_def case_prod_beta)
next
  case (bound r r' n x r'')
  then show ?case
    by (auto simp: bounded_def Let_def case_prod_beta split: if_splits dest!: bounded_loop_seed)
next
  case (gauss r r' mean sd y r'')
  then show ?case
    by (auto simp: normal_def Let_def split: if_splits option.splits prod.splits dest!: polar_loop_seed)
next
  case (expo r r' rate)
  then show ?case by (simp add: exponential_def case_prod_beta)
qed simp_all

text \<open>
  A fork is a pure function of the root seed and the stream id: whatever was drawn from the
  parent before, the forked stream is the one forked from the fresh generator of that seed.
\<close>

theorem fork_independent_of_draws:
  assumes "drawn log_fn (make_rng seed) r"
  shows "fork stream_id r = fork stream_id (make_rng seed)"
  using drawn_seed [OF assms] by (simp add: fork_def)

theorem fork_independent_of_draws_witness:
  "fork kStreamSlippage (snd (next_u64 (make_rng 7))) = fork kStreamSlippage (make_rng 7)"
  by (rule fork_independent_of_draws [where log_fn = "\<lambda>x. x"]) (intro drawn.intros)

end
