(* ===== verification/MarketData.thy ===== *)
theory MarketData
  imports Core "HOL-Library.Multiset"
begin

text \<open>
  Market data (\<open>include/ptl/market\<close>, \<open>src/market/events.cpp\<close>, \<open>src/market/source.cpp\<close>):
  the validating factories of bars, quotes, trades and corporate actions, the event variant, the
  replay source that drives the simulated clock, and the k-way merge of event streams. Error messages
  are constructors of \<open>market_error\<close>, one per refusal of the source.
\<close>

datatype market_error =
    NoInstrument | TimestampUnset | CloseNotAfterOpen Timestamp Timestamp | NegativeLatency
  | BadPrice | BadVolume | LowExceedsHigh | OpenOutsideRange | CloseOutsideRange
  | NonPositiveTimeframe | CrossedQuote Timestamp | BadSize | BadTradeSize | BadRatio | BadDividend
  | NoClock | NotChronological nat Timestamp Timestamp | ReceiveBeforeExchange nat | MergeUnordered

definition sane_price :: "Price \<Rightarrow> bool" where
  "sane_price p \<longleftrightarrow> is_finite p \<and> flt fzero p"

section \<open>Bars\<close>

record Bar =
  bar_instrument :: InstrumentId
  bar_open_time :: Timestamp
  bar_close_time :: Timestamp
  bar_time :: EventTime
  bar_open :: Price
  bar_high :: Price
  bar_low :: Price
  bar_close :: Price
  bar_volume :: Volume

definition bar_make ::
    "InstrumentId \<Rightarrow> Timestamp \<Rightarrow> Timestamp \<Rightarrow> Price \<Rightarrow> Price \<Rightarrow> Price \<Rightarrow> Price \<Rightarrow> Volume \<Rightarrow> Duration
      \<Rightarrow> (market_error, Bar) result" where
  "bar_make instrument open_time close_time op high low cl volume latency =
     (if instrument = kInvalidInstrument then Err NoInstrument
      else if \<not> is_set open_time \<or> \<not> is_set close_time then Err TimestampUnset
      else if close_time \<le> open_time then Err (CloseNotAfterOpen open_time close_time)
      else if latency < 0 then Err NegativeLatency
      else if \<not> sane_price op \<or> \<not> sane_price high \<or> \<not> sane_price low \<or> \<not> sane_price cl
        then Err BadPrice
      else if \<not> is_finite volume \<or> flt volume fzero then Err BadVolume
      else if flt high low then Err LowExceedsHigh
      else if flt op low \<or> flt high op then Err OpenOutsideRange
      else if flt cl low \<or> flt high cl then Err CloseOutsideRange
      else Ok \<lparr>bar_instrument = instrument, bar_open_time = open_time, bar_close_time = close_time,
               bar_time = \<lparr>ev_exchange = close_time, ev_receive = close_time + latency\<rparr>,
               bar_open = op, bar_high = high, bar_low = low, bar_close = cl, bar_volume = volume\<rparr>)"

definition bar_from_left_edge ::
    "InstrumentId \<Rightarrow> Timestamp \<Rightarrow> Duration \<Rightarrow> Price \<Rightarrow> Price \<Rightarrow> Price \<Rightarrow> Price \<Rightarrow> Volume \<Rightarrow> Duration
      \<Rightarrow> (market_error, Bar) result" where
  "bar_from_left_edge instrument open_time timeframe op high low cl volume latency =
     (if timeframe \<le> 0 then Err NonPositiveTimeframe
      else bar_make instrument open_time (open_time + timeframe) op high low cl volume latency)"

definition bar_from_right_edge ::
    "InstrumentId \<Rightarrow> Timestamp \<Rightarrow> Duration \<Rightarrow> Price \<Rightarrow> Price \<Rightarrow> Price \<Rightarrow> Price \<Rightarrow> Volume \<Rightarrow> Duration
      \<Rightarrow> (market_error, Bar) result" where
  "bar_from_right_edge instrument close_time timeframe op high low cl volume latency =
     (if timeframe \<le> 0 then Err NonPositiveTimeframe
      else bar_make instrument (close_time - timeframe) close_time op high low cl volume latency)"

text \<open>What the private constructor and the factories guarantee of every bar in the system.\<close>

definition bar_valid :: "Bar \<Rightarrow> bool" where
  "bar_valid b \<longleftrightarrow>
     bar_instrument b \<noteq> kInvalidInstrument \<and> is_set (bar_open_time b) \<and> is_set (bar_close_time b) \<and>
     bar_open_time b < bar_close_time b \<and> ev_exchange (bar_time b) = bar_close_time b \<and>
     bar_close_time b \<le> ev_receive (bar_time b) \<and>
     sane_price (bar_open b) \<and> sane_price (bar_high b) \<and> sane_price (bar_low b) \<and>
     sane_price (bar_close b) \<and> fin (bar_volume b) \<and> fle fzero (bar_volume b) \<and>
     fle (bar_low b) (bar_open b) \<and> fle (bar_open b) (bar_high b) \<and>
     fle (bar_low b) (bar_close b) \<and> fle (bar_close b) (bar_high b)"

lemma sane_price_iff: "sane_price p \<longleftrightarrow> fin p \<and> 0 < val p"
  by (auto simp: sane_price_def f64_sem)

lemma bar_make_valid: "bar_make i ot ct op hi lo cl v lat = Ok b \<Longrightarrow> bar_valid b"
  by (auto simp: bar_make_def bar_valid_def sane_price_iff f64_sem split: if_splits)

section \<open>Quotes, trades, corporate actions\<close>

record Quote =
  q_instrument :: InstrumentId
  q_time :: EventTime
  q_bid :: Price
  q_ask :: Price
  q_bid_size :: Qty
  q_ask_size :: Qty

definition quote_create ::
    "InstrumentId \<Rightarrow> Timestamp \<Rightarrow> Price \<Rightarrow> Qty \<Rightarrow> Price \<Rightarrow> Qty \<Rightarrow> Duration \<Rightarrow> (market_error, Quote) result"
    where
  "quote_create instrument exchange_ts bid bid_size ask ask_size latency =
     (if instrument = kInvalidInstrument then Err NoInstrument
      else if \<not> is_set exchange_ts then Err TimestampUnset
      else if latency < 0 then Err NegativeLatency
      else if \<not> sane_price bid \<or> \<not> sane_price ask then Err BadPrice
      else if flt ask bid then Err (CrossedQuote exchange_ts)
      else if \<not> is_finite bid_size \<or> \<not> is_finite ask_size \<or> flt bid_size fzero \<or> flt ask_size fzero
        then Err BadSize
      else Ok \<lparr>q_instrument = instrument,
               q_time = \<lparr>ev_exchange = exchange_ts, ev_receive = exchange_ts + latency\<rparr>,
               q_bid = bid, q_ask = ask, q_bid_size = bid_size, q_ask_size = ask_size\<rparr>)"

definition quote_mid :: "Quote \<Rightarrow> Price" where
  "quote_mid q = fmul (fadd (q_bid q) (q_ask q)) (lit (1 / 2))"

definition quote_spread :: "Quote \<Rightarrow> Price" where
  "quote_spread q = fsub (q_ask q) (q_bid q)"

definition quote_spread_bps :: "Quote \<Rightarrow> Bps" where
  "quote_spread_bps q = fmul (to_bps (q_ask q) (quote_mid q)) (lit 2)"

definition staleness_at :: "Quote \<Rightarrow> Timestamp \<Rightarrow> Duration" where
  "staleness_at q ts = ts - ev_receive (q_time q)"

record TradePrint =
  tp_instrument :: InstrumentId
  tp_time :: EventTime
  tp_price :: Price
  tp_size :: Qty
  tp_aggressor :: "Side option"

definition trade_create ::
    "InstrumentId \<Rightarrow> Timestamp \<Rightarrow> Price \<Rightarrow> Qty \<Rightarrow> Side option \<Rightarrow> Duration
      \<Rightarrow> (market_error, TradePrint) result" where
  "trade_create instrument exchange_ts price sz aggressor latency =
     (if instrument = kInvalidInstrument then Err NoInstrument
      else if \<not> is_set exchange_ts then Err TimestampUnset
      else if latency < 0 then Err NegativeLatency
      else if \<not> sane_price price then Err BadPrice
      else if \<not> is_finite sz \<or> fle sz fzero then Err BadTradeSize
      else Ok \<lparr>tp_instrument = instrument,
               tp_time = \<lparr>ev_exchange = exchange_ts, ev_receive = exchange_ts + latency\<rparr>,
               tp_price = price, tp_size = sz, tp_aggressor = aggressor\<rparr>)"

datatype CorporateActionKind = Split | CashDividend

fun to_string_CorporateActionKind :: "CorporateActionKind \<Rightarrow> string" where
  "to_string_CorporateActionKind Split = ''split''"
| "to_string_CorporateActionKind CashDividend = ''cash_dividend''"

record CorporateAction =
  ca_instrument :: InstrumentId
  ca_time :: EventTime
  ca_kind :: CorporateActionKind
  ca_ratio :: f64
  ca_amount :: Notional

definition action_split ::
    "InstrumentId \<Rightarrow> Timestamp \<Rightarrow> f64 \<Rightarrow> (market_error, CorporateAction) result" where
  "action_split instrument effective ratio =
     (if instrument = kInvalidInstrument then Err NoInstrument
      else if \<not> is_set effective then Err TimestampUnset
      else if \<not> is_finite ratio \<or> fle ratio fzero then Err BadRatio
      else Ok \<lparr>ca_instrument = instrument,
               ca_time = \<lparr>ev_exchange = effective, ev_receive = effective\<rparr>,
               ca_kind = Split, ca_ratio = ratio, ca_amount = fzero\<rparr>)"

definition action_cash_dividend ::
    "InstrumentId \<Rightarrow> Timestamp \<Rightarrow> Notional \<Rightarrow> (market_error, CorporateAction) result" where
  "action_cash_dividend instrument ex_date amount =
     (if instrument = kInvalidInstrument then Err NoInstrument
      else if \<not> is_set ex_date then Err TimestampUnset
      else if \<not> is_finite amount \<or> fle amount fzero then Err BadDividend
      else Ok \<lparr>ca_instrument = instrument,
               ca_time = \<lparr>ev_exchange = ex_date, ev_receive = ex_date\<rparr>,
               ca_kind = CashDividend, ca_ratio = lit 1, ca_amount = amount\<rparr>)"

definition quote_valid :: "Quote \<Rightarrow> bool" where
  "quote_valid q \<longleftrightarrow>
     q_instrument q \<noteq> kInvalidInstrument \<and> is_set (ev_exchange (q_time q)) \<and>
     ev_exchange (q_time q) \<le> ev_receive (q_time q) \<and>
     sane_price (q_bid q) \<and> sane_price (q_ask q) \<and> fle (q_bid q) (q_ask q) \<and>
     fin (q_bid_size q) \<and> fin (q_ask_size q) \<and> fle fzero (q_bid_size q) \<and> fle fzero (q_ask_size q)"

lemma quote_create_valid: "quote_create i ts b bs a as lat = Ok q \<Longrightarrow> quote_valid q"
  by (auto simp: quote_create_def quote_valid_def sane_price_iff f64_sem split: if_splits)

section \<open>Events\<close>

datatype SessionEventKind = SessionOpen | SessionClose

record SessionEvent =
  se_time :: EventTime
  se_kind :: SessionEventKind

record TimerEvent =
  te_time :: EventTime
  te_id :: "64 word"

datatype MarketEvent = BarEv Bar | QuoteEv Quote | TradeEv TradePrint | ActionEv CorporateAction
  | SessionEv SessionEvent | TimerEv TimerEvent

fun exchange_time_of :: "MarketEvent \<Rightarrow> Timestamp" where
  "exchange_time_of (SessionEv x) = ev_exchange (se_time x)"
| "exchange_time_of (TimerEv x) = ev_exchange (te_time x)"
| "exchange_time_of (BarEv x) = ev_exchange (bar_time x)"
| "exchange_time_of (QuoteEv x) = ev_exchange (q_time x)"
| "exchange_time_of (TradeEv x) = ev_exchange (tp_time x)"
| "exchange_time_of (ActionEv x) = ev_exchange (ca_time x)"

fun receive_time_of :: "MarketEvent \<Rightarrow> Timestamp" where
  "receive_time_of (SessionEv x) = ev_receive (se_time x)"
| "receive_time_of (TimerEv x) = ev_receive (te_time x)"
| "receive_time_of (BarEv x) = ev_receive (bar_time x)"
| "receive_time_of (QuoteEv x) = ev_receive (q_time x)"
| "receive_time_of (TradeEv x) = ev_receive (tp_time x)"
| "receive_time_of (ActionEv x) = ev_receive (ca_time x)"

fun instrument_of :: "MarketEvent \<Rightarrow> InstrumentId" where
  "instrument_of (SessionEv x) = kInvalidInstrument"
| "instrument_of (TimerEv x) = kInvalidInstrument"
| "instrument_of (BarEv x) = bar_instrument x"
| "instrument_of (QuoteEv x) = q_instrument x"
| "instrument_of (TradeEv x) = tp_instrument x"
| "instrument_of (ActionEv x) = ca_instrument x"

fun kind_name :: "MarketEvent \<Rightarrow> string" where
  "kind_name (BarEv x) = ''bar''"
| "kind_name (QuoteEv x) = ''quote''"
| "kind_name (TradeEv x) = ''trade''"
| "kind_name (ActionEv x) = to_string_CorporateActionKind (ca_kind x)"
| "kind_name (SessionEv x) =
     (if se_kind x = SessionOpen then ''session_open'' else ''session_close'')"
| "kind_name (TimerEv x) = ''timer''"

text \<open>
  A bar that leaves a factory is well formed and comes into being at its close: both factories
  stamp the close as the exchange time, never the open, so a bar is not visible an interval early,
  the left-edge and right-edge factories agree on the same interval, and the open and close lie in
  the low-high range.
\<close>

theorem bars_exist_at_their_close:
  "case bar_from_left_edge i ot tf op hi lo cl v lat of
     Err _ \<Rightarrow> True
   | Ok b \<Rightarrow> bar_valid b \<and> ev_exchange (bar_time b) = ot + tf \<and>
       bar_from_right_edge i (ot + tf) tf op hi lo cl v lat = Ok b"
  by (auto simp: bar_from_left_edge_def bar_from_right_edge_def bar_make_valid split: sum.splits)
    (auto simp: bar_make_def split: if_splits)

section \<open>The replay source\<close>

record ReplaySource =
  rs_events :: "MarketEvent list"
  rs_next :: nat
  rs_first :: Timestamp

text \<open>\<open>check_order\<close> is the loop of \<open>create\<close> over adjacent pairs, \<open>check_receive\<close> the second loop.\<close>

fun check_order :: "nat \<Rightarrow> MarketEvent list \<Rightarrow> market_error option" where
  "check_order i (e # f # es) =
     (if exchange_time_of f < exchange_time_of e
      then Some (NotChronological i (exchange_time_of e) (exchange_time_of f))
      else check_order (Suc i) (f # es))"
| "check_order i _ = None"

fun check_receive :: "nat \<Rightarrow> MarketEvent list \<Rightarrow> market_error option" where
  "check_receive i [] = None"
| "check_receive i (e # es) =
     (if receive_time_of e < exchange_time_of e then Some (ReceiveBeforeExchange i)
      else check_receive (Suc i) es)"

definition replay_create ::
    "MarketEvent list \<Rightarrow> SimulatedClock option \<Rightarrow> (market_error, ReplaySource \<times> SimulatedClock) result"
    where
  "replay_create events clock =
     (case clock of None \<Rightarrow> Err NoClock
      | Some c \<Rightarrow>
        (case check_order 1 events of Some e \<Rightarrow> Err e
         | None \<Rightarrow>
           (case check_receive 0 events of Some e \<Rightarrow> Err e
            | None \<Rightarrow>
              (let first = (case events of [] \<Rightarrow> kNoTimestamp | e # _ \<Rightarrow> receive_time_of e) in
               Ok (\<lparr>rs_events = events, rs_next = 0, rs_first = first\<rparr>,
                   if is_set first then clock_reset first c else c)))))"

definition replay_exhausted :: "ReplaySource \<Rightarrow> bool" where
  "replay_exhausted s \<longleftrightarrow> length (rs_events s) \<le> rs_next s"

text \<open>\<open>next\<close> moves the cursor before it advances the clock, so the cursor has moved when it throws.\<close>

definition replay_next ::
    "ReplaySource \<times> SimulatedClock
      \<Rightarrow> (ClockException, MarketEvent option) result \<times> ReplaySource \<times> SimulatedClock" where
  "replay_next sc =
     (let s = fst sc; c = snd sc in
      if replay_exhausted s then (Ok None, s, c)
      else (let e = rs_events s ! rs_next s; s' = s\<lparr>rs_next := Suc (rs_next s)\<rparr> in
            case advance_to (receive_time_of e) c of
              Err ex \<Rightarrow> (Err ex, s', c)
            | Ok c' \<Rightarrow> (Ok (Some e), s', c')))"

definition replay_peek_time :: "ReplaySource \<Rightarrow> Timestamp" where
  "replay_peek_time s =
     (if replay_exhausted s then kMaxTimestamp else exchange_time_of (rs_events s ! rs_next s))"

definition replay_reset :: "ReplaySource \<times> SimulatedClock \<Rightarrow> ReplaySource \<times> SimulatedClock" where
  "replay_reset sc =
     (let s = fst sc; c = snd sc in
      (s\<lparr>rs_next := 0\<rparr>, if is_set (rs_first s) then clock_reset (rs_first s) c else c))"

text \<open>A consumer that pulls events until the source is exhausted or throws.\<close>

fun replay_drain :: "nat \<Rightarrow> ReplaySource \<times> SimulatedClock \<Rightarrow> (ClockException, MarketEvent list) result" where
  "replay_drain 0 sc = Ok []"
| "replay_drain (Suc n) sc =
     (case replay_next sc of
        (Err ex, _) \<Rightarrow> Err ex
      | (Ok None, _) \<Rightarrow> Ok []
      | (Ok (Some e), sc') \<Rightarrow>
          (case replay_drain n sc' of Err ex \<Rightarrow> Err ex | Ok es \<Rightarrow> Ok (e # es)))"

lemma check_order_None_iff: "check_order i es = None \<longleftrightarrow> sorted (map exchange_time_of es)"
  by (induction i es rule: check_order.induct) auto

lemma check_receive_None_iff:
  "check_receive i es = None \<longleftrightarrow> (\<forall>e \<in> set es. exchange_time_of e \<le> receive_time_of e)"
  by (induction es arbitrary: i) auto

lemma replay_next_drop:
  assumes "drop (rs_next s) (rs_events s) = e # es"
  shows "replay_next (s, c) =
    (case advance_to (receive_time_of e) c of
       Err ex \<Rightarrow> (Err ex, s\<lparr>rs_next := Suc (rs_next s)\<rparr>, c)
     | Ok c' \<Rightarrow> (Ok (Some e), s\<lparr>rs_next := Suc (rs_next s)\<rparr>, c'))"
proof -
  have "rs_next s < length (rs_events s)" using assms by (metis drop_all list.distinct(1) not_le)
  moreover have "rs_events s ! rs_next s = e" using assms by (metis calculation hd_drop_conv_nth list.sel(1))
  ultimately show ?thesis by (simp add: replay_next_def replay_exhausted_def Let_def)
qed

lemma replay_drain_drop:
  assumes "drop (rs_next s) (rs_events s) = es" "length es \<le> n"
  shows "case replay_drain n (s, c) of
      Ok out \<Rightarrow> out = es \<and> sorted (clock_now c # map receive_time_of es)
    | Err _ \<Rightarrow> \<not> sorted (clock_now c # map receive_time_of es)"
  using assms
proof (induction n arbitrary: s c es)
  case (Suc n)
  show ?case
  proof (cases es)
    case Nil
    with Suc.prems show ?thesis by (simp add: replay_next_def replay_exhausted_def)
  next
    case (Cons e es')
    let ?s = "s\<lparr>rs_next := Suc (rs_next s)\<rparr>" and ?c = "c\<lparr>clock_now := receive_time_of e\<rparr>"
    have d: "drop (rs_next ?s) (rs_events ?s) = es'"
      using Suc.prems(1) Cons by (simp add: drop_Suc drop_tl) 
    show ?thesis
    proof (cases "receive_time_of e < clock_now c")
      case True
      then show ?thesis using Suc.prems Cons
        by (simp add: replay_next_drop [of s e es'] advance_to_def)
    next
      case False
      have "case replay_drain n (?s, ?c) of
          Ok out \<Rightarrow> out = es' \<and> sorted (clock_now ?c # map receive_time_of es')
        | Err _ \<Rightarrow> \<not> sorted (clock_now ?c # map receive_time_of es')"
        using Suc.prems Cons d by (intro Suc.IH) simp_all
      with False Suc.prems Cons show ?thesis
        by (auto simp: replay_next_drop [of s e es'] advance_to_def split: sum.splits)
    qed
  qed
qed simp

text \<open>
  A replay delivers every event, in order, exactly when the receive times are chronological.
  \<open>create\<close> itself only checks exchange times, and a source it accepted whose receive times go
  backwards throws from \<open>next\<close> instead of finishing.
\<close>

theorem replay_delivers_iff_receive_sorted:
  assumes "replay_create events (Some c) = Ok sc"
    and "\<forall>e \<in> set events. is_set (receive_time_of e)"
  shows "case replay_drain (length events) sc of
      Ok out \<Rightarrow> out = events \<and> sorted (map receive_time_of events)
    | Err _ \<Rightarrow> \<not> sorted (map receive_time_of events)"
proof -
  obtain s c' where sc: "sc = (s, c')" by (cases sc)
  have s: "rs_events s = events" "rs_next s = 0"
    and c': "clock_now c' = (case events of [] \<Rightarrow> clock_now c | e # _ \<Rightarrow> receive_time_of e)"
    using assms by (auto simp: sc replay_create_def Let_def clock_reset_def is_set_def
        split: option.splits list.splits if_splits)
  have "sorted (clock_now c' # map receive_time_of events) = sorted (map receive_time_of events)"
    by (cases events) (auto simp: c')
  with replay_drain_drop [of s events "length events" c'] s show ?thesis
    by (auto simp: sc split: sum.splits)
qed

definition timer_at :: "Timestamp \<Rightarrow> Timestamp \<Rightarrow> MarketEvent" where
  "timer_at ex rc = TimerEv \<lparr>te_time = \<lparr>ev_exchange = ex, ev_receive = rc\<rparr>, te_id = 0\<rparr>"

theorem replay_delivers_iff_receive_sorted_witness:
  "\<exists>sc. replay_create [timer_at 0 10, timer_at 1 11] (Some \<lparr>clock_now = 0\<rparr>) = Ok sc \<and>
     replay_drain 2 sc = Ok [timer_at 0 10, timer_at 1 11]"
proof -
  let ?es = "[timer_at 0 10, timer_at 1 11]"
  obtain sc where sc: "replay_create ?es (Some \<lparr>clock_now = 0\<rparr>) = Ok sc"
    by (simp add: replay_create_def timer_at_def)
  have "\<forall>e \<in> set ?es. is_set (receive_time_of e)"
    by (simp add: timer_at_def is_set_def kNoTimestamp_def)
  from replay_delivers_iff_receive_sorted [OF sc this]
  have "replay_drain 2 sc = Ok ?es"
    by (simp add: timer_at_def numeral_2_eq_2 split: sum.splits)
  with sc show ?thesis by blast
qed

text \<open>
  \<open>create\<close> accepts a feed on which \<open>next\<close> throws: two events in exchange order whose feed
  latencies differ, so that the second was received first.
\<close>

theorem replay_create_accepts_throwing_feed:
  "\<exists>sc. replay_create [timer_at 0 10, timer_at 1 2] (Some \<lparr>clock_now = 0\<rparr>) = Ok sc \<and>
     replay_drain 2 sc = Err (MovedBackwards 10 2)"
  by (simp add: replay_create_def timer_at_def is_set_def kNoTimestamp_def clock_reset_def
      numeral_2_eq_2 replay_next_def replay_exhausted_def advance_to_def Let_def)

section \<open>Merging streams\<close>

text \<open>
  \<open>merge_sorted\<close> keeps a cursor into each stream; here each stream is what its cursor has left.
  \<open>pick\<close> is the inner loop: the earliest head, ties broken by instrument id, then by stream order.
\<close>

fun pick :: "nat \<Rightarrow> MarketEvent list list \<Rightarrow> (nat \<times> MarketEvent) option \<Rightarrow> (nat \<times> MarketEvent) option" where
  "pick i [] best = best"
| "pick i ([] # ss) best = pick (Suc i) ss best"
| "pick i ((e # es) # ss) None = pick (Suc i) ss (Some (i, e))"
| "pick i ((e # es) # ss) (Some (j, b)) =
     pick (Suc i) ss
       (if exchange_time_of e < exchange_time_of b then Some (i, e)
        else if exchange_time_of e = exchange_time_of b \<and> instrument_of e < instrument_of b
          then Some (i, e)
        else Some (j, b))"

fun merge_loop :: "nat \<Rightarrow> MarketEvent list list \<Rightarrow> MarketEvent list" where
  "merge_loop 0 streams = []"
| "merge_loop (Suc n) streams =
     (case pick 0 streams None of
        None \<Rightarrow> []
      | Some (i, e) \<Rightarrow> e # merge_loop n (streams[i := tl (streams ! i)]))"

definition merge_sorted :: "MarketEvent list list \<Rightarrow> (market_error, MarketEvent list) result" where
  "merge_sorted streams =
     (let out = merge_loop (sum_list (map length streams)) streams in
      case check_order 1 out of Some _ \<Rightarrow> Err MergeUnordered | None \<Rightarrow> Ok out)"

lemma index_shift:
  "\<exists>k < length ss. j = Suc i + k \<and> P (ss ! k) \<Longrightarrow> \<exists>k < length (s # ss). j = i + k \<and> P ((s # ss) ! k)"
  by (auto intro: exI [of _ "Suc _"])

lemma pick_spec:
  assumes "pick i ss best = Some (j, e)"
  shows "(best = Some (j, e) \<or> (\<exists>k < length ss. j = i + k \<and> ss ! k \<noteq> [] \<and> hd (ss ! k) = e)) \<and>
    (\<forall>s \<in> set ss. s \<noteq> [] \<longrightarrow> exchange_time_of e \<le> exchange_time_of (hd s)) \<and>
    (\<forall>k b. best = Some (k, b) \<longrightarrow> exchange_time_of e \<le> exchange_time_of b)"
  using assms
proof (induction i ss best rule: pick.induct)
  case (2 i ss best)
  then show ?case
    using index_shift [of ss j i "\<lambda>s. s \<noteq> [] \<and> hd s = e" "[]"] by auto
next
  case (3 i x xs ss)
  then show ?case
    using index_shift [of ss j i "\<lambda>s. s \<noteq> [] \<and> hd s = e" "x # xs"]
    by (auto intro: exI [of _ 0])
next
  case (4 i x xs ss k b)
  then show ?case
    using index_shift [of ss j i "\<lambda>s. s \<noteq> [] \<and> hd s = e" "x # xs"]
    by (fastforce intro: exI [of _ 0] split: if_splits)
qed auto

lemma pick_None: "pick i ss best = None \<longleftrightarrow> best = None \<and> (\<forall>s \<in> set ss. s = [])"
  by (induction i ss best rule: pick.induct) auto

lemma mset_concat_update:
  "i < length xss \<Longrightarrow> mset (concat (xss[i := ys])) + mset (xss ! i) = mset (concat xss) + mset ys"
  by (induction xss arbitrary: i) (auto simp: nth_Cons' less_Suc_eq_0_disj)

lemma mset_concat_tl:
  assumes "i < length xss" "xss ! i \<noteq> []"
  shows "mset (concat xss) = add_mset (hd (xss ! i)) (mset (concat (xss[i := tl (xss ! i)])))"
proof -
  have "mset (xss ! i) = add_mset (hd (xss ! i)) (mset (tl (xss ! i)))"
    using assms(2) by (cases "xss ! i") auto
  then show ?thesis using mset_concat_update [OF assms(1), of "tl (xss ! i)"] by simp
qed

lemma sorted_hd_le: "sorted (map f s) \<Longrightarrow> x \<in> set s \<Longrightarrow> f (hd s) \<le> f x"
  by (cases s) auto

lemma merge_loop_spec:
  assumes "n = length (concat streams)" "\<forall>s \<in> set streams. sorted (map exchange_time_of s)"
  shows "mset (merge_loop n streams) = mset (concat streams) \<and>
    sorted (map exchange_time_of (merge_loop n streams))"
  using assms
proof (induction n arbitrary: streams)
  case (Suc n)
  from Suc.prems(1) have "concat streams \<noteq> []" by (metis length_0_conv nat.distinct(1))
  then have "\<exists>s \<in> set streams. s \<noteq> []" by (simp add: concat_eq_Nil_conv) 
  then obtain i e where pk: "pick 0 streams None = Some (i, e)"
    using pick_None [of 0 streams None] by (cases "pick 0 streams None") auto
  from pick_spec [OF pk] have i: "i < length streams" "streams ! i \<noteq> []" "hd (streams ! i) = e"
    and least: "\<forall>s \<in> set streams. s \<noteq> [] \<longrightarrow> exchange_time_of e \<le> exchange_time_of (hd s)" by auto
  let ?rest = "streams[i := tl (streams ! i)]"
  have ms: "mset (concat streams) = add_mset e (mset (concat ?rest))"
    using mset_concat_tl [OF i(1,2)] i(3) by simp
  then have "size (mset (concat streams)) = Suc (size (mset (concat ?rest)))" by simp
  then have len: "n = length (concat ?rest)" using Suc.prems(1) by simp
  have "sorted (map exchange_time_of (tl (streams ! i)))"
    using Suc.prems(2) i(1) by (simp add: map_tl sorted_tl)
  then have srt: "\<forall>s \<in> set ?rest. sorted (map exchange_time_of s)"
    using Suc.prems(2) by (auto dest!: set_update_subset_insert [THEN subsetD])
  note IH = Suc.IH [OF len srt]
  have "exchange_time_of e \<le> exchange_time_of x" if "x \<in> set (merge_loop n ?rest)" for x
  proof -
    have "x \<in># mset (concat ?rest)" using that IH by (metis set_mset_mset)
    then have "x \<in># mset (concat streams)" using ms by simp
    then obtain s where "s \<in> set streams" "x \<in> set s" by auto
    then show ?thesis using least Suc.prems(2) sorted_hd_le [of exchange_time_of s x]
      by (metis empty_iff list.set(1) order_trans)
  qed
  then show ?case using IH ms by (simp add: pk)
qed simp

text \<open>
  C38: merging chronological streams loses and invents nothing and is chronological: the result is a
  permutation of all the events, sorted by exchange time.
\<close>

theorem merge_of_sorted_streams:
  assumes "\<forall>s \<in> set streams. sorted (map exchange_time_of s)"
  shows "\<exists>out. merge_sorted streams = Ok out \<and> mset out = mset (concat streams) \<and>
    sorted (map exchange_time_of out)"
proof -
  let ?out = "merge_loop (length (concat streams)) streams"
  have "mset ?out = mset (concat streams) \<and> sorted (map exchange_time_of ?out)"
    using merge_loop_spec [OF refl assms] .
  moreover have "check_order 1 ?out = None"
    using calculation by (simp only: check_order_None_iff)
  ultimately show ?thesis
    by (intro exI [of _ ?out]) (simp add: merge_sorted_def Let_def length_concat)
qed

theorem merge_of_sorted_streams_witness:
  "\<exists>out. merge_sorted [[timer_at 1 1, timer_at 5 5], [timer_at 2 2]] = Ok out \<and>
     mset out = mset [timer_at 1 1, timer_at 5 5, timer_at 2 2] \<and> sorted (map exchange_time_of out)"
  using merge_of_sorted_streams [of "[[timer_at 1 1, timer_at 5 5], [timer_at 2 2]]"]
  by (simp add: timer_at_def)

end
