(* ===== verification/ExecutionModels.thy ===== *)
theory ExecutionModels
  imports Rng MarketData
begin

text \<open>
  Cost, latency and fill assumptions (\<open>include/ptl/execution/models.hpp\<close>,
  \<open>src/execution/models.cpp\<close>). The two interfaces \<open>ICostModel\<close> and \<open>ILatencyModel\<close> are
  records of functions; a member function that draws random numbers takes the generator and returns
  it, and is partial because the normal draw is a rejection loop. \<open>std::pow\<close>, \<open>std::exp\<close> and
  \<open>std::log\<close> are parameters.
\<close>

section \<open>Market state\<close>

record MarketState =
  ms_bid :: Price
  ms_ask :: Price
  ms_bid_size :: Qty
  ms_ask_size :: Qty
  interval_volume :: Volume
  average_daily_volume :: Volume
  intraday_volatility :: f64
  has_quote :: bool
  volume_known :: bool

definition default_market_state :: MarketState where
  "default_market_state = \<lparr>ms_bid = fzero, ms_ask = fzero, ms_bid_size = fzero, ms_ask_size = fzero,
     interval_volume = fzero, average_daily_volume = fzero, intraday_volatility = fzero,
     has_quote = False, volume_known = True\<rparr>"

definition market_mid :: "MarketState \<Rightarrow> Price" where
  "market_mid s = fmul (fadd (ms_bid s) (ms_ask s)) (lit (1 / 2))"

definition touch :: "MarketState \<Rightarrow> Side \<Rightarrow> Price" where
  "touch s side = (if side = Buy then ms_ask s else ms_bid s)"

section \<open>Costs\<close>

record CostConfig =
  commission_per_share :: f64
  minimum_commission :: f64
  taker_fee_bps :: Bps
  maker_rebate_bps :: Bps
  stochastic_slippage_bps :: Bps
  impact_coefficient :: f64
  impact_exponent :: f64
  cost_multiplier :: f64
  fallback_half_spread_bps :: Bps

definition default_cost_config :: CostConfig where
  "default_cost_config = \<lparr>commission_per_share = lit (35 / 10 ^ 4), minimum_commission = lit (35 / 100),
     taker_fee_bps = fzero, maker_rebate_bps = fzero, stochastic_slippage_bps = lit (1 / 4),
     impact_coefficient = lit (1 / 10), impact_exponent = lit (1 / 2), cost_multiplier = lit 1,
     fallback_half_spread_bps = lit 1\<rparr>"

record CostModel =
  cm_commission :: "Qty \<Rightarrow> Price \<Rightarrow> Notional"
  cm_half_spread :: "MarketState \<Rightarrow> Bps"
  cm_market_impact :: "Qty \<Rightarrow> MarketState \<Rightarrow> Bps"
  cm_stochastic_slippage :: "DeterministicRng \<Rightarrow> (Bps \<times> DeterministicRng) option"

definition commission :: "CostConfig \<Rightarrow> Qty \<Rightarrow> Price \<Rightarrow> Notional" where
  "commission cfg filled price =
     (if fle filled fzero then fzero
      else (let per_share = fmul (commission_per_share cfg) filled;
                c = fmax per_share (minimum_commission cfg);
                fee = fmul (fmul (fmul (taker_fee_bps cfg) (lit (1 / 10 ^ 4))) price) filled in
            fmul (fadd c fee) (cost_multiplier cfg)))"

definition half_spread :: "CostConfig \<Rightarrow> MarketState \<Rightarrow> Bps" where
  "half_spread cfg s =
     (if \<not> has_quote s then fmul (fallback_half_spread_bps cfg) (cost_multiplier cfg)
      else (let mid = market_mid s in
            if \<not> is_finite mid \<or> fle mid fzero then fzero
            else (let half = fmul (fsub (ms_ask s) (ms_bid s)) (lit (1 / 2)) in
                  fmul (fmul (fdiv half mid) (lit (10 ^ 4))) (cost_multiplier cfg))))"

definition market_impact :: "(f64 \<Rightarrow> f64 \<Rightarrow> f64) \<Rightarrow> CostConfig \<Rightarrow> Qty \<Rightarrow> MarketState \<Rightarrow> Bps" where
  "market_impact pow_fn cfg quantity s =
     (let q = fabs quantity; v = interval_volume s in
      if fle q fzero \<or> fle v fzero then fzero
      else
        (let participation = fdiv q v;
             sigma = (if flt fzero (intraday_volatility s) then intraday_volatility s
                      else lit (1 / 100));
             impact = fmul (fmul (fmul (impact_coefficient cfg) sigma)
                        (pow_fn participation (impact_exponent cfg))) (lit (10 ^ 4)) in
         if \<not> is_finite impact then fzero else fmul impact (cost_multiplier cfg)))"

definition stochastic_slippage ::
    "(f64 \<Rightarrow> f64) \<Rightarrow> CostConfig \<Rightarrow> DeterministicRng \<Rightarrow> (Bps \<times> DeterministicRng) option" where
  "stochastic_slippage log_fn cfg r =
     (if fle (stochastic_slippage_bps cfg) fzero then Some (fzero, r)
      else (case normal log_fn fzero (stochastic_slippage_bps cfg) r of
              None \<Rightarrow> None
            | Some (n, r') \<Rightarrow> Some (fmul (fabs n) (cost_multiplier cfg), r')))"

definition standard_cost_model ::
    "(f64 \<Rightarrow> f64 \<Rightarrow> f64) \<Rightarrow> (f64 \<Rightarrow> f64) \<Rightarrow> CostConfig \<Rightarrow> CostModel" where
  "standard_cost_model pow_fn log_fn cfg =
     \<lparr>cm_commission = commission cfg, cm_half_spread = half_spread cfg,
      cm_market_impact = market_impact pow_fn cfg,
      cm_stochastic_slippage = stochastic_slippage log_fn cfg\<rparr>"

section \<open>Latency\<close>

record LatencyConfig =
  market_data :: Duration
  strategy_compute :: Duration
  order_transmission :: Duration
  exchange_processing :: Duration
  acknowledgement :: Duration
  jitter_sigma :: f64

definition default_latency_config :: LatencyConfig where
  "default_latency_config = \<lparr>market_data = 500000, strategy_compute = 250000,
     order_transmission = 900000, exchange_processing = 100000, acknowledgement = 700000,
     jitter_sigma = fzero\<rparr>"

record LatencyModel =
  lm_decision_to_arrival :: "DeterministicRng \<Rightarrow> (Duration \<times> DeterministicRng) option"
  lm_arrival_to_ack :: "DeterministicRng \<Rightarrow> (Duration \<times> DeterministicRng) option"
  lm_market_data_latency :: Duration

text \<open>
  \<open>static_cast<std::int64_t>\<close> of a double truncates towards zero; out of range (and for NaN) it is
  undefined behaviour, for which this definition stands with the untruncated value.
\<close>

definition trunc_int64 :: "f64 \<Rightarrow> int" where
  "trunc_int64 x = (if val x < 0 then \<lceil>val x\<rceil> else \<lfloor>val x\<rfloor>)"

definition jittered ::
    "(f64 \<Rightarrow> f64) \<Rightarrow> (f64 \<Rightarrow> f64) \<Rightarrow> Duration \<Rightarrow> f64 \<Rightarrow> DeterministicRng
      \<Rightarrow> (Duration \<times> DeterministicRng) option" where
  "jittered exp_fn log_fn base sigma r =
     (if fle sigma fzero then Some (base, r)
      else (case normal log_fn fzero sigma r of
              None \<Rightarrow> None
            | Some (n, r') \<Rightarrow>
                (let factor = exp_fn n; scaled = trunc_int64 (fmul (of_int64 base) factor) in
                 Some (max 0 scaled, r'))))"

definition decision_to_arrival ::
    "(f64 \<Rightarrow> f64) \<Rightarrow> (f64 \<Rightarrow> f64) \<Rightarrow> LatencyConfig \<Rightarrow> DeterministicRng
      \<Rightarrow> (Duration \<times> DeterministicRng) option" where
  "decision_to_arrival exp_fn log_fn cfg r =
     (case jittered exp_fn log_fn (strategy_compute cfg) (jitter_sigma cfg) r of
        None \<Rightarrow> None
      | Some (a, r1) \<Rightarrow>
          (case jittered exp_fn log_fn (order_transmission cfg) (jitter_sigma cfg) r1 of
             None \<Rightarrow> None
           | Some (b, r2) \<Rightarrow>
               (case jittered exp_fn log_fn (exchange_processing cfg) (jitter_sigma cfg) r2 of
                  None \<Rightarrow> None
                | Some (c, r3) \<Rightarrow> Some (a + b + c, r3))))"

definition arrival_to_ack ::
    "(f64 \<Rightarrow> f64) \<Rightarrow> (f64 \<Rightarrow> f64) \<Rightarrow> LatencyConfig \<Rightarrow> DeterministicRng
      \<Rightarrow> (Duration \<times> DeterministicRng) option" where
  "arrival_to_ack exp_fn log_fn cfg r =
     jittered exp_fn log_fn (acknowledgement cfg) (jitter_sigma cfg) r"

definition standard_latency_model ::
    "(f64 \<Rightarrow> f64) \<Rightarrow> (f64 \<Rightarrow> f64) \<Rightarrow> LatencyConfig \<Rightarrow> LatencyModel" where
  "standard_latency_model exp_fn log_fn cfg =
     \<lparr>lm_decision_to_arrival = decision_to_arrival exp_fn log_fn cfg,
      lm_arrival_to_ack = arrival_to_ack exp_fn log_fn cfg,
      lm_market_data_latency = market_data cfg\<rparr>"

text \<open>
  The order of evaluation of the three draws is unspecified in C++ (the operands of \<open>+\<close> are
  unsequenced); the model draws from left to right.
\<close>

section \<open>Fill assumptions\<close>

record FillConfig =
  max_participation_rate :: f64
  respect_displayed_size :: bool
  passive_fill_ratio :: f64
  require_trade_through :: bool

definition default_fill_config :: FillConfig where
  "default_fill_config = \<lparr>max_participation_rate = lit (5 / 100), respect_displayed_size = True,
     passive_fill_ratio = lit (1 / 2), require_trade_through = True\<rparr>"

section \<open>What the venue relies on\<close>

text \<open>Numbers that are not below zero; NaN is let through, and shows later as a price that is not finite.\<close>

fun not_neg :: "f64 \<Rightarrow> bool" where
  "not_neg NInf = False"
| "not_neg (Fin r) = (0 \<le> r)"
| "not_neg _ = True"

lemma not_neg_iff: "not_neg x \<longleftrightarrow> \<not> flt x fzero"
  by (cases x) (auto simp: flt_def fzero_def)

lemma not_neg_lit [simp]: "0 \<le> r \<Longrightarrow> not_neg (lit r)"
  using rnd_nonneg [of r] f64_lim_pos by (auto simp: lit_def Let_def)

lemma not_neg_simps [simp]: "not_neg fzero" "not_neg (signed_zero b)" "not_neg (fabs x)"
  by (cases x; simp add: fzero_def signed_zero_def)+

lemma not_neg_fadd [intro]: "not_neg a \<Longrightarrow> not_neg b \<Longrightarrow> not_neg (fadd a b)"
  by (cases a; cases b) (simp_all add: fadd_def)

lemma not_neg_fmul [intro]: "not_neg a \<Longrightarrow> not_neg b \<Longrightarrow> not_neg (fmul a b)"
  by (cases a; cases b) (auto simp: fmul_def Let_def signed_inf_def signed_zero_def)

lemma not_negative_fdiv: "\<not> negative a \<Longrightarrow> \<not> negative b \<Longrightarrow> \<not> negative (fdiv a b)"
proof -
  assume a: "\<not> negative a" "\<not> negative b"
  have "\<not> negative (lit r)" if "0 \<le> r" for r
    using that rnd_nonneg [of r] by (auto simp: lit_def Let_def)
  with a show ?thesis
    by (cases a; cases b) (auto simp: fdiv_def Let_def signed_inf_def signed_zero_def)
qed

lemma pos_not_negative: "flt fzero x \<Longrightarrow> \<not> negative x"
  by (cases x) (auto simp: flt_def fzero_def)

text \<open>
  Costs only ever move a price against the trader: no component a cost model reports is below zero.
\<close>

locale cost_model =
  fixes cm :: CostModel
  assumes half_spread_not_neg: "has_quote s \<or> not_neg (cm_half_spread cm s)"
    and impact_not_neg: "not_neg (cm_market_impact cm q s)"
    and slippage_not_neg: "cm_stochastic_slippage cm r = Some (b, r') \<Longrightarrow> not_neg b"
begin

definition total_bps :: "MarketState \<Rightarrow> Qty \<Rightarrow> Bps \<Rightarrow> Bps" where
  "total_bps s q slip =
     fadd (fadd (if has_quote s then fzero else cm_half_spread cm s) (cm_market_impact cm q s)) slip"

lemma total_not_neg:
  "cm_stochastic_slippage cm r = Some (slip, r') \<Longrightarrow> not_neg (total_bps s q slip)"
  using half_spread_not_neg impact_not_neg slippage_not_neg
  by (auto simp: total_bps_def intro!: not_neg_fadd)

end

text \<open>Direction +1 pays up and direction -1 receives less, whatever the rounding.\<close>

lemma apply_bps_direction:
  assumes p: "is_f64 p" "flt fzero p" and b: "not_neg b" and fin: "fin (apply_bps p b (sign_of s))"
  shows "case s of Buy \<Rightarrow> fle p (apply_bps p b (sign_of s)) | Sell \<Rightarrow> fle (apply_bps p b (sign_of s)) p"
proof -
  let ?x = "fmul (fmul (Fin (of_int (sign_of s))) b) (lit (1 / 10 ^ 4))"
  have ap: "apply_bps p b (sign_of s) = fmul p (fadd (lit 1) ?x)" by (simp add: apply_bps_def)
  have f: "fin p" "fin (fadd (lit 1) ?x)" "fin ?x" "fin (fmul (Fin (of_int (sign_of s))) b)" "fin b"
    using fin fin_fmul_args fin_fadd_args unfolding ap by blast+
  have pos: "0 < val p" using p f by (simp add: f64_sem)
  have b0: "0 \<le> val b" using b f by (simp add: not_neg_iff f64_sem)
  have unit: "fin (lit (1 / 10 ^ 4))" "0 \<le> val (lit (1 / 10 ^ 4))" by (simp_all add: f64_eval)
  have one: "fin (lit 1)" "val (lit 1) = 1" by (simp_all add: lit_int_exact)
  have x: "val ?x = rnd (rnd (of_int (sign_of s) * val b) * val (lit (1 / 10 ^ 4)))"
    using f unit by (simp add: fmul_val)
  have factor: "val (fadd (lit 1) ?x) = rnd (1 + val ?x)" using f one by (simp add: fadd_val)
  have price: "val (apply_bps p b (sign_of s)) = rnd (val p * val (fadd (lit 1) ?x))"
    using f fin unfolding ap by (simp add: fmul_val)
  have rp: "rnd (val p) = val p" by (rule is_f64_rnd [OF p(1)])
  have r1: "rnd 1 = 1" by (simp add: rnd_int_exact)
  show ?thesis
  proof (cases s)
    case Buy
    have "0 \<le> val ?x" unfolding x using b0 unit
      by (intro rnd_nonneg mult_nonneg_nonneg) (simp_all add: Buy)
    then have "1 \<le> val (fadd (lit 1) ?x)"
      unfolding factor using rnd_mono [of 1 "1 + val ?x"] r1 by simp
    then have "val p \<le> val p * val (fadd (lit 1) ?x)" using pos by simp
    then have "val p \<le> val (apply_bps p b (sign_of s))"
      unfolding price using rnd_mono [of "val p"] rp by metis
    with f fin show ?thesis by (simp add: Buy f64_sem)
  next
    case Sell
    have "0 \<le> rnd (rnd (val b) * val (lit (1 / 10 ^ 4)))"
      using b0 unit by (intro rnd_nonneg mult_nonneg_nonneg)
    then have "val ?x \<le> 0" unfolding x by (simp add: Sell rnd_minus)
    then have "val (fadd (lit 1) ?x) \<le> 1"
      unfolding factor using rnd_mono [of "1 + val ?x" 1] r1 by simp
    then have "val p * val (fadd (lit 1) ?x) \<le> val p" using pos by simp
    then have "val (apply_bps p b (sign_of s)) \<le> val p"
      unfolding price using rnd_mono [of _ "val p"] rp by metis
    with f fin show ?thesis by (simp add: Sell f64_sem)
  qed
qed

context cost_model
begin

lemma price_against_trader:
  assumes "is_f64 p" "flt fzero p" "cm_stochastic_slippage cm r = Some (slip, r')"
    and "fin (apply_bps p (total_bps s q slip) (sign_of side))"
  shows "case side of Buy \<Rightarrow> fle p (apply_bps p (total_bps s q slip) (sign_of side))
    | Sell \<Rightarrow> fle (apply_bps p (total_bps s q slip) (sign_of side)) p"
  by (rule apply_bps_direction [OF assms(1,2) total_not_neg [OF assms(3)] assms(4)])

end

text \<open>
  The standard model meets the contract when its coefficients are not negative and \<open>std::pow\<close> of a
  base without a minus sign is not below zero.
\<close>

definition cost_config_ok :: "CostConfig \<Rightarrow> bool" where
  "cost_config_ok cfg \<longleftrightarrow> not_neg (fallback_half_spread_bps cfg) \<and> not_neg (impact_coefficient cfg) \<and>
     not_neg (cost_multiplier cfg)"

definition pow_ok :: "(f64 \<Rightarrow> f64 \<Rightarrow> f64) \<Rightarrow> bool" where
  "pow_ok pow_fn \<longleftrightarrow> (\<forall>x e. \<not> negative x \<longrightarrow> not_neg (pow_fn x e))"

lemma market_impact_not_neg:
  assumes "cost_config_ok cfg" "pow_ok pow_fn" shows "not_neg (market_impact pow_fn cfg q s)"
proof (cases "fle (fabs q) fzero \<or> fle (interval_volume s) fzero")
  case True then show ?thesis by (auto simp: market_impact_def Let_def)
next
  case False
  let ?v = "interval_volume s"
  have nv: "\<not> negative ?v" if "\<not> is_nan ?v"
    using False that by (intro pos_not_negative) (simp add: not_fle)
  have "\<not> negative (fdiv (fabs q) ?v)"
  proof (cases "is_nan ?v")
    case True then show ?thesis by (simp add: fdiv_def Let_def)
  qed (intro not_negative_fdiv nv, simp_all)
  then have p: "not_neg (pow_fn (fdiv (fabs q) ?v) (impact_exponent cfg))"
    using assms(2) by (simp add: pow_ok_def)
  have sg: "not_neg (if flt fzero (intraday_volatility s) then intraday_volatility s else lit (1 / 100))"
    using flt_asym by (auto simp: not_neg_iff [of "intraday_volatility s"])
  show ?thesis
    using assms(1) p sg
    by (auto simp: market_impact_def Let_def cost_config_ok_def intro!: not_neg_fmul
        simp del: if_split)
qed

lemma standard_is_cost_model:
  assumes "cost_config_ok cfg" "pow_ok pow_fn"
  shows "cost_model (standard_cost_model pow_fn log_fn cfg)"
proof
  fix s q r b r'
  show "has_quote s \<or> not_neg (cm_half_spread (standard_cost_model pow_fn log_fn cfg) s)"
    using assms(1) by (auto simp: standard_cost_model_def half_spread_def cost_config_ok_def
        intro: not_neg_fmul)
  show "not_neg (cm_market_impact (standard_cost_model pow_fn log_fn cfg) q s)"
    using market_impact_not_neg [OF assms] by (simp add: standard_cost_model_def)
  show "not_neg b" if "cm_stochastic_slippage (standard_cost_model pow_fn log_fn cfg) r = Some (b, r')"
    using that assms(1)
    by (auto simp: standard_cost_model_def stochastic_slippage_def cost_config_ok_def
        split: if_splits option.splits intro: not_neg_fmul)
qed

text \<open>
  The default configuration raises to the power 1/2; \<open>std::pow\<close> there is the square root.
\<close>

definition pow_half :: "f64 \<Rightarrow> f64 \<Rightarrow> f64" where
  "pow_half x e = fsqrt x"

lemma pow_half_ok: "pow_ok pow_half"
proof -
  have "not_neg (fsqrt x)" if "\<not> negative x" for x
    using that by (cases x) (auto simp: fsqrt_def)
  then show ?thesis by (simp add: pow_ok_def pow_half_def)
qed

lemma default_config_ok: "cost_config_ok default_cost_config"
  by (simp add: cost_config_ok_def default_cost_config_def)

interpretation default_costs: cost_model "standard_cost_model pow_half log_fn default_cost_config"
  for log_fn by (rule standard_is_cost_model [OF default_config_ok pow_half_ok])

text \<open>A latency never lets an order arrive before it was sent.\<close>

lemma jittered_nonneg: "0 \<le> base \<Longrightarrow> jittered exp_fn log_fn base sigma r = Some (d, r') \<Longrightarrow> 0 \<le> d"
  by (auto simp: jittered_def Let_def split: if_splits option.splits)

lemma latency_nonneg:
  assumes "0 \<le> strategy_compute cfg" "0 \<le> order_transmission cfg" "0 \<le> exchange_processing cfg"
    and "decision_to_arrival exp_fn log_fn cfg r = Some (d, r')"
  shows "0 \<le> d"
proof -
  obtain a b c r1 r2 where "d = a + b + c"
    "jittered exp_fn log_fn (strategy_compute cfg) (jitter_sigma cfg) r = Some (a, r1)"
    "jittered exp_fn log_fn (order_transmission cfg) (jitter_sigma cfg) r1 = Some (b, r2)"
    "jittered exp_fn log_fn (exchange_processing cfg) (jitter_sigma cfg) r2 = Some (c, r')"
    using assms(4) by (auto simp: decision_to_arrival_def split: option.splits)
  then show ?thesis using assms(1-3) jittered_nonneg by (metis add_nonneg_nonneg)
qed

end
