(* ===== verification/LiveConnection.thy ===== *)
theory LiveConnection
  imports ExecutionModels
begin

text \<open>
  The live connection (\<open>src/live/connection.cpp\<close>, \<open>include/ptl/live/connection.hpp\<close>): the connection
  state machine, the heartbeat monitor, the reconnection policy and the filter that drops repeated
  messages. The network is the abstract class \<open>ILiveTransport\<close>: a record of its virtual functions over a
  state of the outside world, as in the code, and the clock is a reading of that world. Both are
  parameters of the operations. Text reports (\<open>describe\<close>) are not modelled.
\<close>

section \<open>States and messages\<close>

datatype ConnectionState = Disconnected | Connecting | Connected | Synchronizing | Ready | Degraded
  | Reconnecting | Failed

fun to_string_ConnectionState :: "ConnectionState \<Rightarrow> string" where
  "to_string_ConnectionState Disconnected = ''disconnected''"
| "to_string_ConnectionState Connecting = ''connecting''"
| "to_string_ConnectionState Connected = ''connected''"
| "to_string_ConnectionState Synchronizing = ''synchronizing''"
| "to_string_ConnectionState Ready = ''ready''"
| "to_string_ConnectionState Degraded = ''degraded''"
| "to_string_ConnectionState Reconnecting = ''reconnecting''"
| "to_string_ConnectionState Failed = ''failed''"

definition permits_trading :: "ConnectionState \<Rightarrow> bool" where
  "permits_trading s \<longleftrightarrow> s = Ready"

datatype MessageKind = MsgHeartbeat | MsgOrderAccepted | MsgOrderRejected | MsgOrderCancelled
  | MsgOrderReplaced | MsgPartialFill | MsgFill | MsgAccountUpdate | MsgQuote | MsgTrade | MsgUnknown

fun to_string_MessageKind :: "MessageKind \<Rightarrow> string" where
  "to_string_MessageKind MsgHeartbeat = ''heartbeat''"
| "to_string_MessageKind MsgOrderAccepted = ''order_accepted''"
| "to_string_MessageKind MsgOrderRejected = ''order_rejected''"
| "to_string_MessageKind MsgOrderCancelled = ''order_cancelled''"
| "to_string_MessageKind MsgOrderReplaced = ''order_replaced''"
| "to_string_MessageKind MsgPartialFill = ''partial_fill''"
| "to_string_MessageKind MsgFill = ''fill''"
| "to_string_MessageKind MsgAccountUpdate = ''account_update''"
| "to_string_MessageKind MsgQuote = ''quote''"
| "to_string_MessageKind MsgTrade = ''trade''"
| "to_string_MessageKind MsgUnknown = ''unknown''"

record BrokerMessage =
  bm_kind :: MessageKind
  bm_sequence :: "64 word"
  bm_venue_time :: Timestamp
  bm_received_time :: Timestamp
  bm_venue_order_id :: string
  bm_venue_fill_id :: string
  bm_client_order_id :: string
  bm_instrument :: InstrumentId
  bm_side :: Side
  bm_quantity :: Qty
  bm_price :: Price
  bm_commission :: Notional
  bm_exchange_fee :: Notional
  bm_bid :: Price
  bm_ask :: Price
  bm_bid_size :: Qty
  bm_ask_size :: Qty
  bm_text :: string

definition new_message :: "MessageKind \<Rightarrow> BrokerMessage" where
  "new_message k = \<lparr>bm_kind = k, bm_sequence = 0, bm_venue_time = kNoTimestamp,
     bm_received_time = kNoTimestamp, bm_venue_order_id = [], bm_venue_fill_id = [],
     bm_client_order_id = [], bm_instrument = kInvalidInstrument, bm_side = Buy, bm_quantity = fzero,
     bm_price = fzero, bm_commission = fzero, bm_exchange_fee = fzero, bm_bid = fzero, bm_ask = fzero,
     bm_bid_size = fzero, bm_ask_size = fzero, bm_text = []\<rparr>"

section \<open>The outside world\<close>

text \<open>
  \<open>IClock\<close> and \<open>ILiveTransport\<close> over one world \<open>'w\<close>: reading the clock may move it, since a wall clock
  reads later the second time.
\<close>

type_synonym 'w clock = "'w \<Rightarrow> Timestamp \<times> 'w"

record 'w LiveTransport =
  tr_open :: "'w \<Rightarrow> (Error, bool) result \<times> 'w"
  tr_close :: "'w \<Rightarrow> 'w"
  tr_is_open :: "'w \<Rightarrow> bool"
  tr_send :: "string \<Rightarrow> 'w \<Rightarrow> (Error, bool) result \<times> 'w"
  tr_poll :: "'w \<Rightarrow> BrokerMessage list \<times> 'w"

section \<open>The heartbeat monitor\<close>

record HeartbeatConfig =
  hb_interval :: Duration
  hb_degraded_after :: Duration
  hb_dead_after :: Duration

definition default_heartbeat :: HeartbeatConfig where
  "default_heartbeat = \<lparr>hb_interval = 10 * 10 ^ 9, hb_degraded_after = 20 * 10 ^ 9,
     hb_dead_after = 45 * 10 ^ 9\<rparr>"

record HeartbeatMonitor =
  hm_config :: HeartbeatConfig
  hm_last_heartbeat :: Timestamp
  hm_last_activity :: Timestamp
  hm_beats :: nat
  hm_misses :: nat

definition new_monitor :: "HeartbeatConfig \<Rightarrow> HeartbeatMonitor" where
  "new_monitor c = \<lparr>hm_config = c, hm_last_heartbeat = kNoTimestamp, hm_last_activity = kNoTimestamp,
     hm_beats = 0, hm_misses = 0\<rparr>"

definition record_heartbeat :: "Timestamp \<Rightarrow> HeartbeatMonitor \<Rightarrow> HeartbeatMonitor" where
  "record_heartbeat t h = h\<lparr>hm_last_heartbeat := t, hm_last_activity := t, hm_beats := hm_beats h + 1\<rparr>"

definition record_activity :: "Timestamp \<Rightarrow> HeartbeatMonitor \<Rightarrow> HeartbeatMonitor" where
  "record_activity t h =
     (let h1 = h\<lparr>hm_last_activity := t\<rparr> in
      if \<not> is_set (hm_last_heartbeat h1) then h1\<lparr>hm_last_heartbeat := t\<rparr> else h1)"

definition since_last :: "Timestamp \<Rightarrow> HeartbeatMonitor \<Rightarrow> Duration" where
  "since_last t h =
     (let reference = (if is_set (hm_last_activity h) then hm_last_activity h else hm_last_heartbeat h) in
      if \<not> is_set reference \<or> \<not> is_set t \<or> t < reference then 0 else t - reference)"

definition heard :: "HeartbeatMonitor \<Rightarrow> bool" where
  "heard h \<longleftrightarrow> is_set (hm_last_activity h) \<or> is_set (hm_last_heartbeat h)"

definition hb_healthy :: "Timestamp \<Rightarrow> HeartbeatMonitor \<Rightarrow> bool" where
  "hb_healthy t h =
     (if \<not> is_set (hm_last_activity h) \<and> \<not> is_set (hm_last_heartbeat h) then False
      else since_last t h \<le> hb_degraded_after (hm_config h))"

definition hb_degraded :: "Timestamp \<Rightarrow> HeartbeatMonitor \<Rightarrow> bool" where
  "hb_degraded t h =
     (let elapsed = since_last t h in
      hb_degraded_after (hm_config h) < elapsed \<and> elapsed \<le> hb_dead_after (hm_config h))"

definition hb_dead :: "Timestamp \<Rightarrow> HeartbeatMonitor \<Rightarrow> bool" where
  "hb_dead t h =
     (if \<not> is_set (hm_last_activity h) \<and> \<not> is_set (hm_last_heartbeat h) then False
      else hb_dead_after (hm_config h) < since_last t h)"

definition note_miss :: "HeartbeatMonitor \<Rightarrow> HeartbeatMonitor" where
  "note_miss h = h\<lparr>hm_misses := hm_misses h + 1\<rparr>"

definition hb_reset :: "Timestamp \<Rightarrow> HeartbeatMonitor \<Rightarrow> HeartbeatMonitor" where
  "hb_reset t h = h\<lparr>hm_last_heartbeat := t, hm_last_activity := t\<rparr>"

section \<open>The reconnection policy\<close>

record SupervisorConfig =
  sc_initial_backoff :: Duration
  sc_max_backoff :: Duration
  sc_multiplier :: f64
  sc_max_attempts :: nat

definition default_supervisor :: SupervisorConfig where
  "default_supervisor = \<lparr>sc_initial_backoff = 10 ^ 9, sc_max_backoff = 60 * 10 ^ 9,
     sc_multiplier = lit 2, sc_max_attempts = 10\<rparr>"

record Supervisor =
  su_config :: SupervisorConfig
  su_backoff :: Duration
  su_next_attempt :: Timestamp
  su_attempts :: nat
  su_successes :: nat

definition new_supervisor :: "SupervisorConfig \<Rightarrow> Supervisor" where
  "new_supervisor c = \<lparr>su_config = c, su_backoff = sc_initial_backoff c, su_next_attempt = kNoTimestamp,
     su_attempts = 0, su_successes = 0\<rparr>"

definition exhausted :: "Supervisor \<Rightarrow> bool" where
  "exhausted s \<longleftrightarrow> 0 < sc_max_attempts (su_config s) \<and> sc_max_attempts (su_config s) \<le> su_attempts s"

definition should_attempt :: "Timestamp \<Rightarrow> Supervisor \<Rightarrow> bool" where
  "should_attempt t s =
     (if exhausted s then False
      else if \<not> is_set (su_next_attempt s) then True
      else is_set t \<and> su_next_attempt s \<le> t)"

definition next_backoff :: "SupervisorConfig \<Rightarrow> Duration \<Rightarrow> Duration" where
  "next_backoff c b = min (trunc_int64 (fmul (of_int64 b) (sc_multiplier c))) (sc_max_backoff c)"

definition record_attempt :: "Timestamp \<Rightarrow> Supervisor \<Rightarrow> Supervisor" where
  "record_attempt t s =
     s\<lparr>su_attempts := su_attempts s + 1,
       su_next_attempt := (if is_set t then t + su_backoff s else su_next_attempt s),
       su_backoff := next_backoff (su_config s) (su_backoff s)\<rparr>"

definition record_success :: "Timestamp \<Rightarrow> Supervisor \<Rightarrow> Supervisor" where
  "record_success t s =
     s\<lparr>su_successes := su_successes s + 1, su_attempts := 0,
       su_backoff := sc_initial_backoff (su_config s), su_next_attempt := t\<rparr>"

definition record_failure :: "Timestamp \<Rightarrow> Supervisor \<Rightarrow> Supervisor" where
  "record_failure t s = (if is_set t then s\<lparr>su_next_attempt := t + su_backoff s\<rparr> else s)"

section \<open>The connection\<close>

record ConnectionStats =
  cs_connects :: nat
  cs_disconnects :: nat
  cs_reconnects :: nat
  cs_messages_received :: nat
  cs_duplicates_dropped :: nat
  cs_out_of_order_dropped :: nat
  cs_unknown_messages :: nat

definition no_connection_stats :: ConnectionStats where
  "no_connection_stats = \<lparr>cs_connects = 0, cs_disconnects = 0, cs_reconnects = 0,
     cs_messages_received = 0, cs_duplicates_dropped = 0, cs_out_of_order_dropped = 0,
     cs_unknown_messages = 0\<rparr>"

record LiveConnection =
  lc_heartbeat :: HeartbeatMonitor
  lc_supervisor :: Supervisor
  lc_state :: ConnectionState
  lc_stats :: ConnectionStats
  lc_last_sequence :: "64 word"
  lc_recent_ids :: "string list"

definition new_connection :: "HeartbeatConfig \<Rightarrow> SupervisorConfig \<Rightarrow> LiveConnection" where
  "new_connection h s = \<lparr>lc_heartbeat = new_monitor h, lc_supervisor = new_supervisor s,
     lc_state = Disconnected, lc_stats = no_connection_stats, lc_last_sequence = 0, lc_recent_ids = []\<rparr>"

datatype connection_error = CannotMarkSynchronized ConnectionState | RefusingToSend ConnectionState
  | TransportFailed Error | ReconnectExhausted

abbreviation with_supervisor :: "(Supervisor \<Rightarrow> Supervisor) \<Rightarrow> LiveConnection \<Rightarrow> LiveConnection" where
  "with_supervisor g c \<equiv> c\<lparr>lc_supervisor := g (lc_supervisor c)\<rparr>"

abbreviation with_conn_stats :: "(ConnectionStats \<Rightarrow> ConnectionStats) \<Rightarrow> LiveConnection \<Rightarrow> LiveConnection" where
  "with_conn_stats g c \<equiv> c\<lparr>lc_stats := g (lc_stats c)\<rparr>"

definition connect ::
    "'w clock \<Rightarrow> 'w LiveTransport \<Rightarrow> LiveConnection \<Rightarrow> 'w
      \<Rightarrow> (connection_error, bool) result \<times> LiveConnection \<times> 'w" where
  "connect clk tr c w =
     (if lc_state c = Ready \<or> lc_state c = Connected then (Ok True, c, w)
      else
        let c1 = c\<lparr>lc_state := Connecting\<rparr>;
            (t1, w1) = clk w;
            c2 = with_supervisor (record_attempt t1) c1;
            (opened, w2) = tr_open tr w1
        in (case opened of
              Inl e \<Rightarrow>
                let c3 = c2\<lparr>lc_state := Failed\<rparr>; (t2, w3) = clk w2 in
                (Err (TransportFailed e), with_supervisor (record_failure t2) c3, w3)
            | Inr _ \<Rightarrow>
                let c3 = with_conn_stats (\<lambda>s. s\<lparr>cs_connects := cs_connects s + 1\<rparr>) c2;
                    (t2, w3) = clk w2;
                    c4 = with_supervisor (record_success t2) c3;
                    (t3, w4) = clk w3;
                    c5 = c4\<lparr>lc_heartbeat := hb_reset t3 (lc_heartbeat c4)\<rparr>
                in (Ok True, c5\<lparr>lc_state := Synchronizing\<rparr>, w4)))"

definition disconnect :: "'w LiveTransport \<Rightarrow> LiveConnection \<Rightarrow> 'w \<Rightarrow> LiveConnection \<times> 'w" where
  "disconnect tr c w =
     (if lc_state c = Disconnected then (c, w)
      else (with_conn_stats (\<lambda>s. s\<lparr>cs_disconnects := cs_disconnects s + 1\<rparr>) c\<lparr>lc_state := Disconnected\<rparr>,
            tr_close tr w))"

definition maybe_reconnect ::
    "'w clock \<Rightarrow> 'w LiveTransport \<Rightarrow> LiveConnection \<Rightarrow> 'w
      \<Rightarrow> (connection_error, bool) result \<times> LiveConnection \<times> 'w" where
  "maybe_reconnect clk tr c w =
     (let (t, w1) = clk w in
      if \<not> should_attempt t (lc_supervisor c) then (Ok False, c, w1)
      else if exhausted (lc_supervisor c) then (Err ReconnectExhausted, c\<lparr>lc_state := Failed\<rparr>, w1)
      else
        let c1 = c\<lparr>lc_state := Reconnecting\<rparr>;
            w2 = tr_close tr w1;
            (r, c2, w3) = connect clk tr c1 w2
        in (case r of
              Inl e \<Rightarrow> (Err e, c2, w3)
            | Inr _ \<Rightarrow> (Ok True, with_conn_stats (\<lambda>s. s\<lparr>cs_reconnects := cs_reconnects s + 1\<rparr>) c2, w3)))"

definition mark_synchronized :: "LiveConnection \<Rightarrow> (connection_error, bool) result \<times> LiveConnection" where
  "mark_synchronized c =
     (if lc_state c \<noteq> Synchronizing \<and> lc_state c \<noteq> Degraded
      then (Err (CannotMarkSynchronized (lc_state c)), c)
      else (Ok True, c\<lparr>lc_state := Ready\<rparr>))"

definition conn_send ::
    "'w LiveTransport \<Rightarrow> string \<Rightarrow> LiveConnection \<Rightarrow> 'w \<Rightarrow> (connection_error, bool) result \<times> 'w" where
  "conn_send tr payload c w =
     (if \<not> permits_trading (lc_state c) then (Err (RefusingToSend (lc_state c)), w)
      else case tr_send tr payload w of
             (Inl e, w1) \<Rightarrow> (Err (TransportFailed e), w1)
           | (Inr b, w1) \<Rightarrow> (Ok b, w1))"

definition conn_tick :: "'w clock \<Rightarrow> LiveConnection \<Rightarrow> 'w \<Rightarrow> LiveConnection \<times> 'w" where
  "conn_tick clk c w =
     (let (t, w1) = clk w in
      (if lc_state c = Ready \<or> lc_state c = Degraded then
         if hb_dead t (lc_heartbeat c)
         then c\<lparr>lc_heartbeat := note_miss (lc_heartbeat c), lc_state := Reconnecting\<rparr>
         else if hb_degraded t (lc_heartbeat c) then c\<lparr>lc_state := Degraded\<rparr>
         else if lc_state c = Degraded then c\<lparr>lc_state := Ready\<rparr> else c
       else c, w1))"

definition restore_sequence :: "64 word \<Rightarrow> LiveConnection \<Rightarrow> LiveConnection" where
  "restore_sequence n c = c\<lparr>lc_last_sequence := n\<rparr>"

section \<open>The message filter\<close>

definition kRecentIdCapacity :: nat where
  "kRecentIdCapacity = 4096"

definition remember_id :: "string \<Rightarrow> string list \<Rightarrow> string list" where
  "remember_id i ids = (let out = ids @ [i] in if kRecentIdCapacity < length out then tl out else out)"

text \<open>
  One turn of the loop in \<open>poll\<close>: the message as delivered, or \<open>None\<close> where the loop continues.
\<close>

definition conn_receive ::
    "Timestamp \<Rightarrow> BrokerMessage \<Rightarrow> LiveConnection \<Rightarrow> BrokerMessage option \<times> LiveConnection" where
  "conn_receive t m0 c0 =
     (let m = m0\<lparr>bm_received_time := t\<rparr>;
          c = c0\<lparr>lc_heartbeat := record_activity t (lc_heartbeat c0)\<rparr>
      in
      if bm_kind m = MsgHeartbeat then (None, c\<lparr>lc_heartbeat := record_heartbeat t (lc_heartbeat c)\<rparr>)
      else if bm_kind m = MsgUnknown then
        (None, with_conn_stats (\<lambda>s. s\<lparr>cs_unknown_messages := cs_unknown_messages s + 1\<rparr>) c)
      else if bm_sequence m \<noteq> 0 \<and> bm_sequence m \<le> lc_last_sequence c
           \<or> bm_sequence m = 0 \<and> bm_venue_fill_id m \<noteq> [] \<and> bm_venue_fill_id m \<in> set (lc_recent_ids c) then
        (None, with_conn_stats (\<lambda>s. s\<lparr>cs_duplicates_dropped := cs_duplicates_dropped s + 1\<rparr>) c)
      else
        let c1 = (if bm_sequence m \<noteq> 0 then c\<lparr>lc_last_sequence := bm_sequence m\<rparr>
                  else if bm_venue_fill_id m \<noteq> []
                  then c\<lparr>lc_recent_ids := remember_id (bm_venue_fill_id m) (lc_recent_ids c)\<rparr>
                  else c)
        in
        if is_set (bm_venue_time m) \<and> is_set (bm_received_time m)
             \<and> bm_received_time m + 5 * 10 ^ 9 < bm_venue_time m
        then (None, with_conn_stats (\<lambda>s. s\<lparr>cs_out_of_order_dropped := cs_out_of_order_dropped s + 1\<rparr>) c1)
        else (Some m, c1))"

fun poll_loop ::
    "'w clock \<Rightarrow> BrokerMessage list \<Rightarrow> LiveConnection \<Rightarrow> 'w
      \<Rightarrow> BrokerMessage list \<times> LiveConnection \<times> 'w" where
  "poll_loop clk [] c w = ([], c, w)"
| "poll_loop clk (m # ms) c w =
     (let c0 = with_conn_stats (\<lambda>s. s\<lparr>cs_messages_received := cs_messages_received s + 1\<rparr>) c;
          (t, w1) = clk w;
          (got, c1) = conn_receive t m c0;
          (rest, c2, w2) = poll_loop clk ms c1 w1
      in ((case got of None \<Rightarrow> rest | Some a \<Rightarrow> a # rest), c2, w2))"

definition conn_poll ::
    "'w clock \<Rightarrow> 'w LiveTransport \<Rightarrow> LiveConnection \<Rightarrow> 'w
      \<Rightarrow> BrokerMessage list \<times> LiveConnection \<times> 'w" where
  "conn_poll clk tr c w =
     (if \<not> tr_is_open tr w then ([], c, w)
      else let (ms, w1) = tr_poll tr w in poll_loop clk ms c w1)"

section \<open>Runs of operations\<close>

text \<open>
  What a session may call, in any order, and what each call answers. \<open>restore_sequence\<close> is left out:
  a session calls it once, before it connects.
\<close>

datatype conn_op = OpConnect | OpDisconnect | OpReconnect | OpSynchronized | OpSend string | OpTick | OpPoll

datatype conn_answer = Answered "(connection_error, bool) result" | Delivered "BrokerMessage list" | Quiet

fun conn_step ::
    "'w clock \<Rightarrow> 'w LiveTransport \<Rightarrow> conn_op \<Rightarrow> LiveConnection \<Rightarrow> 'w \<Rightarrow> conn_answer \<times> LiveConnection \<times> 'w" where
  "conn_step clk tr OpConnect c w = (let (r, c1, w1) = connect clk tr c w in (Answered r, c1, w1))"
| "conn_step clk tr OpDisconnect c w = (let (c1, w1) = disconnect tr c w in (Quiet, c1, w1))"
| "conn_step clk tr OpReconnect c w = (let (r, c1, w1) = maybe_reconnect clk tr c w in (Answered r, c1, w1))"
| "conn_step clk tr OpSynchronized c w = (let (r, c1) = mark_synchronized c in (Answered r, c1, w))"
| "conn_step clk tr (OpSend p) c w = (let (r, w1) = conn_send tr p c w in (Answered r, c, w1))"
| "conn_step clk tr OpTick c w = (let (c1, w1) = conn_tick clk c w in (Quiet, c1, w1))"
| "conn_step clk tr OpPoll c w = (let (ms, c1, w1) = conn_poll clk tr c w in (Delivered ms, c1, w1))"

fun conn_run ::
    "'w clock \<Rightarrow> 'w LiveTransport \<Rightarrow> conn_op list \<Rightarrow> LiveConnection \<Rightarrow> 'w
      \<Rightarrow> conn_answer list \<times> LiveConnection \<times> 'w" where
  "conn_run clk tr [] c w = ([], c, w)"
| "conn_run clk tr (a # as) c w =
     (let (r, c1, w1) = conn_step clk tr a c w; (rs, c2, w2) = conn_run clk tr as c1 w1
      in (r # rs, c2, w2))"

fun answer_messages :: "conn_answer \<Rightarrow> BrokerMessage list" where
  "answer_messages (Delivered ms) = ms"
| "answer_messages _ = []"

definition all_delivered :: "conn_answer list \<Rightarrow> BrokerMessage list" where
  "all_delivered rs = concat (map answer_messages rs)"

section \<open>Liveness of the heartbeat\<close>

lemma not_is_set_kNoTimestamp [simp]: "\<not> is_set kNoTimestamp"
  by (simp add: is_set_def)

lemma hb_one_of_three:
  assumes "heard h" "hb_degraded_after (hm_config h) \<le> hb_dead_after (hm_config h)"
  shows "hb_dead t h \<longleftrightarrow> \<not> hb_healthy t h \<and> \<not> hb_degraded t h"
    and "hb_degraded t h \<longleftrightarrow> \<not> hb_healthy t h \<and> \<not> hb_dead t h"
  using assms by (auto simp: heard_def hb_healthy_def hb_degraded_def hb_dead_def Let_def)

lemma heard_after [simp]:
  "is_set t \<Longrightarrow> heard (record_heartbeat t h)" "is_set t \<Longrightarrow> heard (record_activity t h)"
  "is_set t \<Longrightarrow> heard (hb_reset t h)"
  by (auto simp: heard_def record_heartbeat_def record_activity_def hb_reset_def Let_def)

lemma since_last_nonneg: "0 \<le> since_last t h"
  by (simp add: since_last_def Let_def)

lemma since_activity: "is_set s \<Longrightarrow> is_set t \<Longrightarrow> since_last t (record_activity s h) = max 0 (t - s)"
  by (auto simp: since_last_def record_activity_def Let_def)

section \<open>Trust is lost with the connection\<close>

lemma connect_state:
  "lc_state (fst (snd (connect clk tr c w))) \<in>
     (if lc_state c = Ready \<or> lc_state c = Connected then {lc_state c} else {Failed, Synchronizing})"
  by (auto simp: connect_def Let_def split: prod.splits sum.splits)

lemma maybe_reconnect_state:
  "(case maybe_reconnect clk tr c w of (r, c1, w1) \<Rightarrow>
      if r = Ok False then c1 = c else lc_state c1 \<in> {Failed, Synchronizing})"
proof -
  obtain t w1 where t: "clk w = (t, w1)" by fastforce
  obtain r c2 w3 where k: "connect clk tr (c\<lparr>lc_state := Reconnecting\<rparr>) (tr_close tr w1) = (r, c2, w3)"
    by (cases "connect clk tr (c\<lparr>lc_state := Reconnecting\<rparr>) (tr_close tr w1)") auto
  have "lc_state c2 \<in> {Failed, Synchronizing}"
    using connect_state [of clk tr "c\<lparr>lc_state := Reconnecting\<rparr>" "tr_close tr w1"] by (simp add: k)
  then show ?thesis by (auto simp: maybe_reconnect_def t k split: sum.splits)
qed

lemma conn_receive_state [frame]: "lc_state (snd (conn_receive t m c)) = lc_state c"
  by (simp add: conn_receive_def Let_def)

lemma poll_loop_state [frame]: "lc_state (fst (snd (poll_loop clk ms c w))) = lc_state c"
proof (induction ms arbitrary: c w)
  case (Cons m ms)
  then show ?case
    using conn_receive_state by (auto simp: Let_def split: prod.split) (metis LiveConnection.select_convs(3)
      LiveConnection.surjective LiveConnection.update_convs(4) fst_conv snd_conv)+
qed simp

lemma conn_poll_state [frame]: "lc_state (fst (snd (conn_poll clk tr c w))) = lc_state c"
  by (auto simp: conn_poll_def poll_loop_state split: prod.split)

definition untrusted :: "LiveConnection \<Rightarrow> bool" where
  "untrusted c \<longleftrightarrow> lc_state c \<notin> {Ready, Degraded}"

lemma other_sender [simp]:
  "connect clk (tr\<lparr>tr_send := f\<rparr>) = connect clk tr"
  "disconnect (tr\<lparr>tr_send := f\<rparr>) = disconnect tr"
  "maybe_reconnect clk (tr\<lparr>tr_send := f\<rparr>) = maybe_reconnect clk tr"
  "conn_poll clk (tr\<lparr>tr_send := f\<rparr>) = conn_poll clk tr"
proof -
  show c: "connect clk (tr\<lparr>tr_send := f\<rparr>) = connect clk tr"
    by (intro ext) (simp add: connect_def)
  show "disconnect (tr\<lparr>tr_send := f\<rparr>) = disconnect tr"
    by (intro ext) (simp add: disconnect_def)
  show "maybe_reconnect clk (tr\<lparr>tr_send := f\<rparr>) = maybe_reconnect clk tr"
    by (intro ext) (simp add: maybe_reconnect_def c cong: if_cong)
  show "conn_poll clk (tr\<lparr>tr_send := f\<rparr>) = conn_poll clk tr"
    by (intro ext) (simp add: conn_poll_def)
qed

lemma untrusted_connect: "untrusted c \<Longrightarrow> untrusted (fst (snd (connect clk tr c w)))"
  using connect_state [of clk tr c w] by (auto simp: untrusted_def split: if_splits)

lemma untrusted_reconnect: "untrusted c \<Longrightarrow> untrusted (fst (snd (maybe_reconnect clk tr c w)))"
  using maybe_reconnect_state [where clk = clk and tr = tr and c = c and w = w]
  by (auto simp: untrusted_def split: prod.splits if_splits)

lemma untrusted_step:
  assumes "untrusted c" "a \<noteq> OpSynchronized"
  shows "untrusted (fst (snd (conn_step clk tr a c w)))"
    and "conn_step clk (tr\<lparr>tr_send := f\<rparr>) a c w = conn_step clk tr a c w"
proof -
  show "untrusted (fst (snd (conn_step clk tr a c w)))"
    using assms untrusted_connect [of c clk tr w] untrusted_reconnect [of c clk tr w]
      conn_poll_state [of clk tr c w]
    by (cases a) (auto simp: untrusted_def disconnect_def conn_tick_def split: prod.splits if_splits)
  show "conn_step clk (tr\<lparr>tr_send := f\<rparr>) a c w = conn_step clk tr a c w"
    using assms by (cases a) (auto simp: untrusted_def conn_send_def permits_trading_def)
qed

lemma untrusted_run:
  assumes "untrusted c" "OpSynchronized \<notin> set as"
  shows "untrusted (fst (snd (conn_run clk tr as c w)))"
    and "conn_run clk (tr\<lparr>tr_send := f\<rparr>) as c w = conn_run clk tr as c w"
proof -
  have "untrusted (fst (snd (conn_run clk tr as c w)))
      \<and> conn_run clk (tr\<lparr>tr_send := f\<rparr>) as c w = conn_run clk tr as c w"
    using assms
  proof (induction "as" arbitrary: c w)
    case (Cons a as')
    obtain r c1 w1 where st: "conn_step clk tr a c w = (r, c1, w1)"
      by (cases "conn_step clk tr a c w") auto
    have "a \<noteq> OpSynchronized" using Cons.prems by auto
    then have "conn_step clk (tr\<lparr>tr_send := f\<rparr>) a c w = (r, c1, w1)" "untrusted c1"
      using Cons.prems untrusted_step [where c = c and a = a and clk = clk and tr = tr and w = w] st by simp_all
    moreover have "OpSynchronized \<notin> set as'" using Cons.prems by simp
    ultimately show ?case
      using Cons.IH [where c = c1 and w = w1] by (auto simp: st split: prod.splits)
  qed simp
  then show "untrusted (fst (snd (conn_run clk tr as c w)))"
    and "conn_run clk (tr\<lparr>tr_send := f\<rparr>) as c w = conn_run clk tr as c w" by auto
qed

section \<open>What the filter lets through\<close>

definition sequences :: "BrokerMessage list \<Rightarrow> 64 word list" where
  "sequences ms = filter (\<lambda>n. n \<noteq> 0) (map bm_sequence ms)"

definition fill_ids :: "BrokerMessage list \<Rightarrow> string list" where
  "fill_ids ms = filter (\<lambda>i. i \<noteq> []) (map bm_venue_fill_id (filter (\<lambda>m. bm_sequence m = 0) ms))"

lemma sequences_append [simp]: "sequences (a @ b) = sequences a @ sequences b"
  and sequences_Nil [simp]: "sequences [] = []"
  and fill_ids_append [simp]: "fill_ids (a @ b) = fill_ids a @ fill_ids b"
  and fill_ids_Nil [simp]: "fill_ids [] = []"
  by (simp_all add: sequences_def fill_ids_def)

text \<open>From \<open>c\<close> to \<open>c'\<close> the connection delivered \<open>ms\<close>: what one step does, and what composes.\<close>

definition in_sequence :: "LiveConnection \<Rightarrow> BrokerMessage list \<Rightarrow> LiveConnection \<Rightarrow> bool" where
  "in_sequence c ms c' \<longleftrightarrow> sorted_wrt (<) (sequences ms) \<and> lc_last_sequence c \<le> lc_last_sequence c'
     \<and> (\<forall>n\<in>set (sequences ms). lc_last_sequence c < n \<and> n \<le> lc_last_sequence c')"

definition remembered :: "LiveConnection \<Rightarrow> BrokerMessage list \<Rightarrow> LiveConnection \<Rightarrow> bool" where
  "remembered c ms c' \<longleftrightarrow>
     cs_messages_received (lc_stats c) \<le> cs_messages_received (lc_stats c') \<and>
     (length (lc_recent_ids c) \<le> cs_messages_received (lc_stats c) \<longrightarrow>
      cs_messages_received (lc_stats c') \<le> kRecentIdCapacity \<longrightarrow>
        length (lc_recent_ids c') \<le> cs_messages_received (lc_stats c')
        \<and> set (lc_recent_ids c) \<union> set (fill_ids ms) \<subseteq> set (lc_recent_ids c')
        \<and> distinct (fill_ids ms) \<and> set (fill_ids ms) \<inter> set (lc_recent_ids c) = {})"

lemma in_sequence_append:
  assumes "in_sequence c a c1" "in_sequence c1 b c2"
  shows "in_sequence c (a @ b) c2"
  using assms unfolding in_sequence_def
  by (auto simp: sorted_wrt_append dest: order_le_less_trans intro: order_trans)

lemma remembered_append:
  assumes "remembered c a c1" "remembered c1 b c2"
  shows "remembered c (a @ b) c2"
proof -
  let ?n = "\<lambda>c. cs_messages_received (lc_stats c)"
  have le: "?n c \<le> ?n c1" "?n c1 \<le> ?n c2" using assms by (auto simp: remembered_def)
  show ?thesis
  proof (cases "length (lc_recent_ids c) \<le> ?n c \<and> ?n c2 \<le> kRecentIdCapacity")
    case True
    with le have "?n c1 \<le> kRecentIdCapacity" by linarith
    with True assms le show ?thesis unfolding remembered_def by (auto simp del: of_nat_le_iff)
  next
    case False
    with le show ?thesis unfolding remembered_def by linarith
  qed
qed

lemma in_sequence_same: "lc_last_sequence c' = lc_last_sequence c \<Longrightarrow> in_sequence c [] c'"
  by (simp add: in_sequence_def)

lemma remembered_same:
  "lc_recent_ids c' = lc_recent_ids c \<Longrightarrow> cs_messages_received (lc_stats c') = cs_messages_received (lc_stats c)
    \<Longrightarrow> remembered c [] c'"
  by (simp add: remembered_def)

lemma receive_in_sequence:
  "(case conn_receive t m c of (got, c') \<Rightarrow> in_sequence c (case got of None \<Rightarrow> [] | Some a \<Rightarrow> [a]) c')"
  by (auto simp: conn_receive_def Let_def in_sequence_def sequences_def)

lemma receive_remembered:
  "(case conn_receive t m (c\<lparr>lc_stats := (lc_stats c)\<lparr>cs_messages_received := cs_messages_received (lc_stats c) + 1\<rparr>\<rparr>) of
     (got, c') \<Rightarrow> remembered c (case got of None \<Rightarrow> [] | Some a \<Rightarrow> [a]) c')"
  by (auto simp: conn_receive_def Let_def remembered_def fill_ids_def remember_id_def)

lemma poll_loop_filters:
  "(case poll_loop clk ms c w of (got, c', w') \<Rightarrow> in_sequence c got c' \<and> remembered c got c')"
proof (induction ms arbitrary: c w)
  case Nil
  then show ?case by (simp add: in_sequence_same remembered_same)
next
  case (Cons m ms)
  let ?c0 = "c\<lparr>lc_stats := (lc_stats c)\<lparr>cs_messages_received := cs_messages_received (lc_stats c) + 1\<rparr>\<rparr>"
  obtain t w1 where t: "clk w = (t, w1)" by fastforce
  obtain g c1 where r: "conn_receive t m ?c0 = (g, c1)" by fastforce
  obtain rest c2 w2 where l: "poll_loop clk ms c1 w1 = (rest, c2, w2)" by (cases "poll_loop clk ms c1 w1") auto
  let ?g = "case g of None \<Rightarrow> [] | Some a \<Rightarrow> [a]"
  have "in_sequence ?c0 ?g c1"
    using receive_in_sequence [where t = t and m = m and c = ?c0] unfolding r by simp
  then have "in_sequence c ?g c1" by (simp add: in_sequence_def)
  moreover have "remembered c ?g c1"
    using receive_remembered [where t = t and m = m and c = c] unfolding r by simp
  moreover have "in_sequence c1 rest c2" "remembered c1 rest c2"
    using Cons.IH [where c = c1 and w = w1] by (simp_all add: l)
  ultimately have "in_sequence c (?g @ rest) c2 \<and> remembered c (?g @ rest) c2"
    using in_sequence_append remembered_append by blast
  then show ?case by (cases g) (simp_all only: poll_loop.simps Let_def t prod.case r l option.case append.simps)
qed

lemma step_filters:
  "(case conn_step clk tr a c w of (r, c', w') \<Rightarrow>
      in_sequence c (answer_messages r) c' \<and> remembered c (answer_messages r) c')"
proof -
  have cn: "lc_last_sequence c' = lc_last_sequence c0 \<and> lc_recent_ids c' = lc_recent_ids c0
      \<and> cs_messages_received (lc_stats c') = cs_messages_received (lc_stats c0)"
    if "connect clk tr c0 w0 = (r, c', w')" for c0 w0 r c' w'
    using that by (auto simp: connect_def Let_def split: if_splits prod.splits sum.splits)
  show ?thesis
  proof (cases a)
    case OpReconnect
    obtain t w1 where t: "clk w = (t, w1)" by fastforce
    obtain r c2 w3 where k: "connect clk tr (c\<lparr>lc_state := Reconnecting\<rparr>) (tr_close tr w1) = (r, c2, w3)"
      by (cases "connect clk tr (c\<lparr>lc_state := Reconnecting\<rparr>) (tr_close tr w1)") auto
    show ?thesis
      using cn [OF k]
      by (auto simp: OpReconnect maybe_reconnect_def t k intro!: in_sequence_same remembered_same split: sum.splits)
  next
    case OpPoll
    obtain ms w1 where p: "tr_poll tr w = (ms, w1)" by fastforce
    show ?thesis
      using poll_loop_filters [where clk = clk and ms = ms and c = c and w = w1]
      by (auto simp: OpPoll conn_poll_def p in_sequence_same remembered_same split: prod.splits)
  next
    case OpConnect
    show ?thesis
      using cn by (cases "connect clk tr c w") (auto simp: OpConnect intro!: in_sequence_same remembered_same)
  qed (auto simp: disconnect_def mark_synchronized_def conn_tick_def Let_def
         intro!: in_sequence_same remembered_same split: prod.splits if_splits)
qed

lemma run_filters:
  "(case conn_run clk tr ops c w of (rs, c', w') \<Rightarrow>
      in_sequence c (all_delivered rs) c' \<and> remembered c (all_delivered rs) c')"
proof (induction ops arbitrary: c w)
  case (Cons a ops)
  obtain r c1 w1 where st: "conn_step clk tr a c w = (r, c1, w1)"
    by (cases "conn_step clk tr a c w") auto
  obtain rs c2 w2 where rn: "conn_run clk tr ops c1 w1 = (rs, c2, w2)"
    by (cases "conn_run clk tr ops c1 w1") auto
  have "in_sequence c (answer_messages r @ all_delivered rs) c2
      \<and> remembered c (answer_messages r @ all_delivered rs) c2"
    using step_filters [where clk = clk and tr = tr and a = a and c = c and w = w]
      Cons.IH [where c = c1 and w = w1] in_sequence_append remembered_append by (simp add: st rn) blast
  then show ?case by (simp add: st rn all_delivered_def)
qed (simp add: all_delivered_def in_sequence_same remembered_same)

section \<open>The backoff\<close>

fun record_attempts :: "Timestamp list \<Rightarrow> Supervisor \<Rightarrow> Supervisor" where
  "record_attempts [] s = s"
| "record_attempts (t # ts) s = record_attempts ts (record_attempt t s)"

lemma trunc_int64_int: "trunc_int64 (Fin (of_int n)) = n"
  by (simp add: trunc_int64_def)

text \<open>
  With a multiplier of at least one the backoff never shrinks before a success, and stays between its
  first value and its ceiling.
\<close>

definition backoff_config_ok :: "SupervisorConfig \<Rightarrow> bool" where
  "backoff_config_ok c \<longleftrightarrow> 0 \<le> sc_initial_backoff c \<and> sc_initial_backoff c \<le> sc_max_backoff c
     \<and> sc_max_backoff c \<le> 2 ^ 49 \<and> is_f64 (sc_multiplier c) \<and> fin (sc_multiplier c)
     \<and> 1 \<le> val (sc_multiplier c) \<and> val (sc_multiplier c) \<le> 16"

definition backoff_ok :: "Supervisor \<Rightarrow> bool" where
  "backoff_ok s \<longleftrightarrow> backoff_config_ok (su_config s) \<and> sc_initial_backoff (su_config s) \<le> su_backoff s
     \<and> su_backoff s \<le> sc_max_backoff (su_config s)"

lemma next_backoff_grows:
  assumes c: "backoff_config_ok c" and b: "0 \<le> b" "b \<le> sc_max_backoff c"
  shows "b \<le> next_backoff c b" "next_backoff c b \<le> sc_max_backoff c"
proof -
  define m where "m = sc_multiplier c"
  have m: "fin m" "1 \<le> val m" "val m \<le> 16" using c by (auto simp: backoff_config_ok_def m_def)
  have b52: "b \<le> 2 ^ 49" using b c by (simp add: backoff_config_ok_def)
  then have rb: "real_of_int b \<le> 2 ^ 49"
    using of_int_le_iff [of b "2 ^ 49", where 'a = real] by simp
  have fb: "of_int64 b = Fin (of_int b)"
    using b rb by (simp add: of_int64_def lit_int_exact)
  have lo0: "of_int b \<le> of_int b * val m" using b m by (simp add: mult_le_cancel_left1)
  have "of_int b * val m \<le> 2 ^ 49 * 16" using b m rb by (intro mult_mono) simp_all
  then have hi0: "of_int b * val m \<le> 2 ^ 53" by simp
  have lo: "of_int b \<le> rnd (of_int b * val m)"
    using rnd_mono [OF lo0] rnd_int_exact [of "of_int b"] b rb by simp
  have "rnd (of_int b * val m) \<le> 2 ^ 53"
    using rnd_mono [OF hi0] rnd_int_exact [of "2 ^ 53"] by simp
  then have "\<bar>rnd (of_int b * val m)\<bar> < f64_lim"
    using lo b by (intro small_lt_overflow) simp
  then have "fin (fmul (of_int64 b) m)"
    using fb m by (simp add: fin_fmul_iff)
  then have "of_int b \<le> val (fmul (of_int64 b) m)"
    using fmul_val [of "of_int64 b" m] fb m lo by simp
  then have "b \<le> trunc_int64 (fmul (of_int64 b) m)"
    using b by (auto simp: trunc_int64_def le_floor_iff)
  then show "b \<le> next_backoff c b" "next_backoff c b \<le> sc_max_backoff c"
    using b by (simp_all add: next_backoff_def m_def)
qed

lemma backoff_ok_ops:
  assumes "backoff_ok s"
  shows "backoff_ok (record_attempt t s)" "backoff_ok (record_success t s)" "backoff_ok (record_failure t s)"
    and "su_backoff s \<le> su_backoff (record_attempt t s)"
proof -
  have c: "backoff_config_ok (su_config s)" and b: "0 \<le> su_backoff s" "su_backoff s \<le> sc_max_backoff (su_config s)"
    using assms by (auto simp: backoff_ok_def backoff_config_ok_def)
  note g = next_backoff_grows [OF c b]
  show "backoff_ok (record_attempt t s)" "su_backoff s \<le> su_backoff (record_attempt t s)"
    using g assms by (auto simp: backoff_ok_def record_attempt_def)
  show "backoff_ok (record_success t s)" "backoff_ok (record_failure t s)"
    using assms c by (auto simp: backoff_ok_def record_success_def record_failure_def backoff_config_ok_def)
qed

lemma backoff_ok_default: "backoff_ok (new_supervisor default_supervisor)"
proof -
  have "lit 2 = Fin 2" using lit_int_exact [of 2] by simp
  moreover have "is_f64 (lit 2)" by simp
  ultimately show ?thesis
    by (simp add: backoff_ok_def backoff_config_ok_def new_supervisor_def default_supervisor_def)
qed

lemma next_backoff_default:
  assumes "0 \<le> b" "b \<le> 60 * 10 ^ 9"
  shows "next_backoff default_supervisor b = min (2 * b) (60 * 10 ^ 9)"
proof -
  have two: "lit 2 = Fin 2" using lit_int_exact [of 2] by simp
  have rb: "real_of_int b \<le> 60 * 10 ^ 9"
    using of_int_le_iff [of b "60 * 10 ^ 9", where 'a = real] assms(2) by simp
  have "of_int64 b = Fin (of_int b)" using assms rb by (simp add: of_int64_def lit_int_exact)
  moreover have "rnd (of_int b * 2) = of_int b * 2" using assms rb by (intro rnd_int_exact) simp_all
  moreover have "\<bar>of_int b * 2\<bar> < f64_lim" using assms rb by (intro small_lt_overflow) simp
  ultimately have "fin (fmul (of_int64 b) (lit 2))" "val (fmul (of_int64 b) (lit 2)) = of_int (2 * b)"
    using fmul_val [of "of_int64 b" "lit 2"] by (simp_all add: two fin_fmul_iff)
  then have "trunc_int64 (fmul (of_int64 b) (lit 2)) = 2 * b"
    using assms by (simp only: trunc_int64_def floor_of_int) simp
  then show ?thesis by (simp add: next_backoff_def default_supervisor_def)
qed

lemma default_backoff_run:
  "su_config s = default_supervisor \<Longrightarrow> su_backoff s = min (2 ^ k * 10 ^ 9) (60 * 10 ^ 9) \<Longrightarrow>
   su_config (record_attempts ts s) = default_supervisor
   \<and> su_backoff (record_attempts ts s) = min (2 ^ (k + length ts) * 10 ^ 9) (60 * 10 ^ 9)
   \<and> su_attempts (record_attempts ts s) = su_attempts s + length ts"
proof (induction ts arbitrary: s k)
  case (Cons t ts)
  have "su_backoff (record_attempt t s) = min (2 ^ Suc k * 10 ^ 9) (60 * 10 ^ 9)"
    using Cons.prems next_backoff_default [of "su_backoff s"] by (simp add: record_attempt_def)
  moreover have "su_config (record_attempt t s) = default_supervisor"
    "su_attempts (record_attempt t s) = su_attempts s + 1"
    using Cons.prems by (simp_all add: record_attempt_def)
  ultimately show ?case using Cons.IH [of "record_attempt t s" "Suc k"] by simp
qed simp

section \<open>A venue that stays down\<close>

definition venue_down :: "'w LiveTransport \<Rightarrow> bool" where
  "venue_down tr \<longleftrightarrow> (\<forall>w. \<not> is_ok (fst (tr_open tr w)))"

definition backed_off :: "LiveConnection \<Rightarrow> bool" where
  "backed_off c \<longleftrightarrow> (let s = lc_supervisor c in
     su_config s = default_supervisor \<and> su_attempts s \<le> 10
     \<and> su_backoff s = min (2 ^ su_attempts s * 10 ^ 9) (60 * 10 ^ 9))"

lemma backed_off_new: "backed_off (new_connection h default_supervisor)"
  by (simp add: backed_off_def new_connection_def new_supervisor_def default_supervisor_def)

lemma default_max_attempts: "sc_max_attempts default_supervisor = 10"
  by (simp add: default_supervisor_def)

lemma failed_connect:
  assumes "venue_down tr" "lc_state c = Reconnecting" "connect clk tr c w = (r, c1, w1)"
  shows "\<exists>e t1 t2. r = Err (TransportFailed e) \<and> lc_state c1 = Failed
     \<and> lc_supervisor c1 = record_failure t2 (record_attempt t1 (lc_supervisor c))"
proof -
  obtain t1 wa where t1: "clk w = (t1, wa)" by fastforce
  obtain e wb where o: "tr_open tr wa = (Inl e, wb)"
  proof -
    have "\<not> is_ok (fst (tr_open tr wa))" using assms(1) by (simp add: venue_down_def)
    then show ?thesis using that
      by (cases "tr_open tr wa"; cases "fst (tr_open tr wa)") (auto simp: is_ok_def)
  qed
  obtain t2 wc where t2: "clk wb = (t2, wc)" by fastforce
  show ?thesis
    using assms(2,3) by (intro exI [of _ e] exI [of _ t1] exI [of _ t2]) (auto simp: connect_def t1 o t2)
qed

lemma backed_off_step:
  assumes d: "venue_down tr" and b: "backed_off c" and r: "maybe_reconnect clk tr c w = (r, c1, w1)"
  shows "backed_off c1
    \<and> (if su_attempts (lc_supervisor c) = 10 then r = Ok False \<and> c1 = c \<and> w1 = snd (clk w)
       else r = Ok False \<and> c1 = c \<or> lc_state c1 = Failed \<and> su_attempts (lc_supervisor c1) = su_attempts (lc_supervisor c) + 1)"
proof -
  obtain t wa where t: "clk w = (t, wa)" by fastforce
  have ex: "exhausted (lc_supervisor c) \<longleftrightarrow> su_attempts (lc_supervisor c) = 10"
    using b by (auto simp: exhausted_def backed_off_def Let_def default_max_attempts)
  show ?thesis
  proof (cases "should_attempt t (lc_supervisor c)")
    case False
    then show ?thesis using r b by (simp add: maybe_reconnect_def t)
  next
    case True
    then have ne: "\<not> exhausted (lc_supervisor c)" by (auto simp: should_attempt_def)
    obtain r2 c2 w2 where k: "connect clk tr (c\<lparr>lc_state := Reconnecting\<rparr>) (tr_close tr wa) = (r2, c2, w2)"
      by (cases "connect clk tr (c\<lparr>lc_state := Reconnecting\<rparr>) (tr_close tr wa)") auto
    obtain e t1 t2 where f: "r2 = Err (TransportFailed e)" "lc_state c2 = Failed"
      "lc_supervisor c2 = record_failure t2 (record_attempt t1 (lc_supervisor c))"
      using failed_connect [OF d _ k] by auto
    have c1: "c1 = c2" using r True ne by (simp add: maybe_reconnect_def t k f)
    have "su_config (record_attempts [t1] (lc_supervisor c)) = default_supervisor
        \<and> su_backoff (record_attempts [t1] (lc_supervisor c))
            = min (2 ^ (su_attempts (lc_supervisor c) + length [t1]) * 10 ^ 9) (60 * 10 ^ 9)
        \<and> su_attempts (record_attempts [t1] (lc_supervisor c)) = su_attempts (lc_supervisor c) + length [t1]"
      using b by (intro default_backoff_run) (simp_all add: backed_off_def Let_def)
    then show ?thesis
      using b ne ex f(2,3) by (auto simp: c1 backed_off_def Let_def record_failure_def)
  qed
qed

lemma backed_off_run:
  assumes "venue_down tr" "backed_off c"
  shows "backed_off (fst (snd (conn_run clk tr (replicate n OpReconnect) c w)))"
  using assms(2)
proof (induction n arbitrary: c w)
  case (Suc n)
  obtain r c1 w1 where m: "maybe_reconnect clk tr c w = (r, c1, w1)"
    by (cases "maybe_reconnect clk tr c w") auto
  have "backed_off c1" using backed_off_step [OF assms(1) Suc.prems m] by simp
  then show ?case using Suc.IH [of c1 w1]
    by (cases "conn_run clk tr (replicate n OpReconnect) c1 w1") (simp add: m)
qed simp

section \<open>What the connection promises\<close>

text \<open>
  C17: No payload reaches a venue whose book has not been synchronised. A connection in a state other than Ready and
  Degraded, taken through any sequence of connects, reconnects, ticks, polls and sends without a synchronisation,
  ends in the same state, the same world and the same answers whatever the transport's \<open>send\<close> would do, since
  it is never called; and it is still not permitted to trade. A reconnect that touched the transport leaves even a
  ready connection untrusted. A Degraded connection was synchronised before and is left out: a tick after the
  heartbeat has resumed makes it Ready again, and it then sends.
\<close>

theorem nothing_is_sent_before_synchronisation:
  assumes "lc_state c \<notin> {Ready, Degraded}" "OpSynchronized \<notin> set ops"
  shows "conn_run clk (tr\<lparr>tr_send := f\<rparr>) ops c w = conn_run clk tr ops c w
    \<and> \<not> permits_trading (lc_state (fst (snd (conn_run clk tr ops c w))))
    \<and> (case maybe_reconnect clk tr c2 w2 of (r, c3, w3) \<Rightarrow>
         if r = Ok False then c3 = c2 else \<not> permits_trading (lc_state c3))"
proof -
  have "untrusted c" using assms(1) by (simp add: untrusted_def)
  note u = untrusted_run [OF this assms(2), where clk = clk and tr = tr and w = w]
  show ?thesis
    using u maybe_reconnect_state [where clk = clk and tr = tr and c = c2 and w = w2]
    by (auto simp: permits_trading_def untrusted_def split: prod.splits)
qed

text \<open>
  C16: No sequence number is delivered twice. Take a new connection, with a sequence number restored from a saved session
  or none, through any calls, reconnects with redelivery included: the sequenced messages it hands over carry strictly
  increasing numbers, all above the restored one; and as long as no more than 4096 messages have come in, no fill id
  of an unsequenced message is handed over twice. The fill id of a sequenced message is not looked at.
\<close>

theorem no_update_is_delivered_twice:
  assumes "conn_run clk tr ops (restore_sequence n (new_connection h s)) w = (rs, c', w')"
  shows "sorted_wrt (<) (sequences (all_delivered rs)) \<and> list_all (\<lambda>m. n < m) (sequences (all_delivered rs))
    \<and> (if cs_messages_received (lc_stats c') \<le> 4096 then distinct (fill_ids (all_delivered rs)) else True)"
  using run_filters [where clk = clk and tr = tr and ops = ops and c = "restore_sequence n (new_connection h s)" and w = w]
  by (simp add: assms in_sequence_def remembered_def kRecentIdCapacity_def)
    (simp add: restore_sequence_def new_connection_def no_connection_stats_def list_all_iff)

text \<open>
  Reconnection against a venue that stays down. With the default policy, after any number of reconnect
  calls the connection has tried at most ten times, the wait has doubled with every try from one second up
  to a minute and no further, and once ten tries have failed the next call touches neither the transport
  nor the state.
\<close>

theorem reconnect_backs_off_and_gives_up:
  assumes "venue_down tr"
  shows "case conn_run clk tr (replicate n OpReconnect) (new_connection h default_supervisor) w of (rs, c, w1) \<Rightarrow>
     su_attempts (lc_supervisor c) \<le> 10
     \<and> su_backoff (lc_supervisor c) = min (2 ^ su_attempts (lc_supervisor c) * 10 ^ 9) (60 * 10 ^ 9)
     \<and> (if su_attempts (lc_supervisor c) = 10
        then maybe_reconnect clk tr c w1 = (Ok False, c, snd (clk w1)) else True)"
proof -
  obtain rs c w1 where run: "conn_run clk tr (replicate n OpReconnect) (new_connection h default_supervisor) w = (rs, c, w1)"
    by (cases "conn_run clk tr (replicate n OpReconnect) (new_connection h default_supervisor) w") auto
  have b: "backed_off c"
    using backed_off_run [OF assms backed_off_new, of clk n h w] by (simp add: run)
  obtain r c1 w2 where m: "maybe_reconnect clk tr c w1 = (r, c1, w2)"
    by (cases "maybe_reconnect clk tr c w1") auto
  show ?thesis
    using b backed_off_step [OF assms b m] by (simp add: run backed_off_def Let_def m split: if_splits)
qed

section \<open>A venue to try it on\<close>

text \<open>
  A world of four parts: the time, which advances by a second at every reading, whether the transport is
  open, what the venue will deliver, and what was sent.
\<close>

type_synonym sample_world = "Timestamp \<times> bool \<times> BrokerMessage list list \<times> string list"

fun sample_clock :: "sample_world clock" where
  "sample_clock (t, up, inbox, sent) = (t, (t + 10 ^ 9, up, inbox, sent))"

definition sample_transport :: "sample_world LiveTransport" where
  "sample_transport = \<lparr>tr_open = \<lambda>(t, up, i, s). (Ok True, (t, True, i, s)),
     tr_close = \<lambda>(t, up, i, s). (t, False, i, s),
     tr_is_open = \<lambda>(t, up, i, s). up,
     tr_send = \<lambda>p (t, up, i, s). (Ok True, (t, up, i, s @ [p])),
     tr_poll = \<lambda>(t, up, i, s). (case i of [] \<Rightarrow> ([], (t, up, i, s)) | m # ms \<Rightarrow> (m, (t, up, ms, s)))\<rparr>"

definition dead_transport :: "sample_world LiveTransport" where
  "dead_transport = sample_transport\<lparr>tr_open := \<lambda>w. (Err \<lparr>err_code = IoError, err_message = [], err_context = []\<rparr>, w)\<rparr>"

definition sequenced_fill :: "64 word \<Rightarrow> BrokerMessage" where
  "sequenced_fill n = (new_message MsgFill)\<lparr>bm_sequence := n\<rparr>"

definition unsequenced_fill :: "string \<Rightarrow> BrokerMessage" where
  "unsequenced_fill i = (new_message MsgFill)\<lparr>bm_venue_fill_id := i\<rparr>"

lemmas sample_venue = sample_transport_def sequenced_fill_def unsequenced_fill_def new_message_def
  new_connection_def new_monitor_def new_supervisor_def no_connection_stats_def connect_def disconnect_def
  conn_poll_def conn_receive_def conn_send_def mark_synchronized_def permits_trading_def conn_tick_def
  record_activity_def record_attempt_def record_success_def hb_reset_def remember_id_def
  kRecentIdCapacity_def is_set_def kNoTimestamp_def all_delivered_def sequences_def fill_ids_def

lemma synchronised_connection_sends:
  "conn_run sample_clock sample_transport [OpConnect, OpSend ''a'', OpSynchronized, OpSend ''b'']
     (new_connection h s) (0, False, [], []) =
   ([Answered (Ok True), Answered (Err (RefusingToSend Synchronizing)), Answered (Ok True), Answered (Ok True)],
    fst (snd (conn_run sample_clock sample_transport [OpConnect, OpSynchronized] (new_connection h s) (0, False, [], []))),
    (3 * 10 ^ 9, True, [], [''b'']))"
  by (simp add: sample_venue)

theorem nothing_is_sent_before_synchronisation_witness:
  "conn_run sample_clock (sample_transport\<lparr>tr_send := \<lambda>p w. (Ok True, w)\<rparr>) [OpConnect, OpSend ''a'', OpTick]
     (new_connection default_heartbeat default_supervisor) (0, False, [], []) =
   conn_run sample_clock sample_transport [OpConnect, OpSend ''a'', OpTick]
     (new_connection default_heartbeat default_supervisor) (0, False, [], [])"
  using nothing_is_sent_before_synchronisation [where c = "new_connection default_heartbeat default_supervisor"
      and ops = "[OpConnect, OpSend ''a'', OpTick]" and clk = sample_clock and tr = sample_transport
      and f = "\<lambda>p w. (Ok True, w)" and w = "(0, False, [], [])"]
  by (simp add: new_connection_def)

lemma redelivery_is_dropped:
  "case conn_run sample_clock sample_transport [OpConnect, OpPoll, OpReconnect, OpPoll]
       (new_connection default_heartbeat default_supervisor)
       (0, False, [[sequenced_fill 1, unsequenced_fill ''x''],
                   [sequenced_fill 1, sequenced_fill 3, unsequenced_fill ''x'']], []) of (rs, c, w) \<Rightarrow>
     sequences (all_delivered rs) = [1, 3] \<and> fill_ids (all_delivered rs) = [''x'']
     \<and> cs_duplicates_dropped (lc_stats c) = 2"
  by (simp add: sample_venue maybe_reconnect_def should_attempt_def exhausted_def default_supervisor_def Let_def
    word_le_nat_alt)

theorem no_update_is_delivered_twice_witness:
  "list_all (\<lambda>m. 1 < m) (sequences (all_delivered (fst (conn_run sample_clock sample_transport
     [OpConnect, OpPoll, OpReconnect, OpPoll] (restore_sequence 1 (new_connection default_heartbeat default_supervisor))
     (0, False, [[sequenced_fill 2], [sequenced_fill 2, sequenced_fill 3]], [])))))"
proof -
  let ?run = "conn_run sample_clock sample_transport [OpConnect, OpPoll, OpReconnect, OpPoll]
     (restore_sequence 1 (new_connection default_heartbeat default_supervisor))
     (0, False, [[sequenced_fill 2], [sequenced_fill 2, sequenced_fill 3]], [])"
  obtain rs c w where r: "?run = (rs, c, w)" by (cases ?run)
  show ?thesis using no_update_is_delivered_twice [OF r] by (simp only: r fst_conv)
qed

text \<open>
  One fill, two sequence numbers. A venue that redelivers a fill under a new number gets it through: the id is compared
  for unsequenced messages only, so both copies are handed to the session.
\<close>

lemma one_fill_under_two_numbers:
  "case conn_run sample_clock sample_transport [OpConnect, OpPoll]
       (new_connection default_heartbeat default_supervisor)
       (0, False, [[(sequenced_fill 1)\<lparr>bm_venue_fill_id := ''x''\<rparr>, (sequenced_fill 2)\<lparr>bm_venue_fill_id := ''x''\<rparr>]], []) of
     (rs, c, w) \<Rightarrow> map bm_venue_fill_id (all_delivered rs) = [''x'', ''x''] \<and> cs_duplicates_dropped (lc_stats c) = 0"
  by (simp add: sample_venue word_le_nat_alt)

theorem reconnect_backs_off_and_gives_up_witness:
  "case conn_run sample_clock dead_transport (replicate 40 OpReconnect)
       (new_connection default_heartbeat default_supervisor) (0, False, [], []) of (rs, c, w1) \<Rightarrow>
     su_attempts (lc_supervisor c) \<le> 10 \<and> su_backoff (lc_supervisor c) \<le> 60 * 10 ^ 9"
proof -
  have "venue_down dead_transport" by (simp add: venue_down_def dead_transport_def)
  from reconnect_backs_off_and_gives_up [OF this, of sample_clock 40 default_heartbeat "(0, False, [], [])"]
  show ?thesis by (auto split: prod.splits)
qed

end
