(* ===== verification/InstrumentTable.thy ===== *)
theory InstrumentTable
  imports Core
begin

text \<open>
  Ticker interning (\<open>include/ptl/core/instrument_table.hpp\<close>, \<open>src/core/instrument_table.cpp\<close>).
  \<open>by_id_\<close> lists the symbols in insertion order and \<open>index_\<close> maps a symbol to its id; the
  views of the C++ all point at equal strings owned by \<open>storage_\<close>, so a view is its string here.
  The hash map is only ever looked up, never iterated, so it is a partial function.
\<close>

record InstrumentTable =
  by_id :: "string list"
  index :: "string \<rightharpoonup> InstrumentId"

definition empty_table :: InstrumentTable where
  "empty_table = \<lparr>by_id = [], index = Map.empty\<rparr>"

definition intern :: "string \<Rightarrow> InstrumentTable \<Rightarrow> InstrumentId \<times> InstrumentTable" where
  "intern symbol t =
     (case index t symbol of
        Some iid \<Rightarrow> (iid, t)
      | None \<Rightarrow>
          (let iid = word_of_nat (length (by_id t)) in
           (iid, t\<lparr>by_id := by_id t @ [symbol], index := (index t)(symbol \<mapsto> iid)\<rparr>)))"

definition find_symbol :: "string \<Rightarrow> InstrumentTable \<Rightarrow> InstrumentId option" where
  "find_symbol symbol t = index t symbol"

definition symbol_of :: "InstrumentId \<Rightarrow> InstrumentTable \<Rightarrow> string" where
  "symbol_of iid t = (if length (by_id t) \<le> unat iid then [] else by_id t ! unat iid)"

definition table_contains :: "InstrumentId \<Rightarrow> InstrumentTable \<Rightarrow> bool" where
  "table_contains iid t \<longleftrightarrow> unat iid < length (by_id t)"

definition clear_table :: "InstrumentTable \<Rightarrow> InstrumentTable" where
  "clear_table t = t\<lparr>by_id := [], index := Map.empty\<rparr>"

text \<open>Every symbol is at its own index, once, and the ids are those indices.\<close>

definition table_inv :: "InstrumentTable \<Rightarrow> bool" where
  "table_inv t \<longleftrightarrow> distinct (by_id t) \<and> length (by_id t) \<le> 2 ^ 32 \<and> dom (index t) = set (by_id t) \<and>
     (\<forall>i < length (by_id t). index t (by_id t ! i) = Some (word_of_nat i))"

lemma table_inv_empty [simp]: "table_inv empty_table"
  by (simp add: table_inv_def empty_table_def)

lemma table_inv_clear [simp]: "table_inv (clear_table t)"
  by (simp add: table_inv_def clear_table_def)

lemma table_inv_intern:
  assumes "table_inv t" "length (by_id t) < 2 ^ 32"
  shows "table_inv (snd (intern s t))"
proof (cases "index t s")
  case None
  then have new: "s \<notin> set (by_id t)" using assms(1) by (auto simp: table_inv_def)
  then have "\<And>i. i < length (by_id t) \<Longrightarrow> by_id t ! i \<noteq> s" by (auto simp: in_set_conv_nth)
  with assms new None show ?thesis
    by (auto simp: table_inv_def intern_def Let_def nth_append less_Suc_eq)
qed (use assms in \<open>simp add: intern_def\<close>)

lemma unat_id: "i < 2 ^ 32 \<Longrightarrow> unat (word_of_nat i :: InstrumentId) = i"
  by (simp add: unat_of_nat)

text \<open>
  Interning is a lookup after an insertion: the id returned for a symbol reads back as that
  symbol, is found again, keeps every id handed out before it, and a second intern of the same symbol
  changes nothing.
\<close>

theorem intern_roundtrip:
  assumes "table_inv t" and "length (by_id t) < 2 ^ 32" and "intern s t = (iid, t')"
  shows "symbol_of iid t' = s \<and> find_symbol s t' = Some iid \<and> intern s t' = (iid, t') \<and>
    (\<forall>j. table_contains j t \<longrightarrow> symbol_of j t' = symbol_of j t) \<and>
    (\<forall>u k. find_symbol u t = Some k \<longrightarrow> find_symbol u t' = Some k) \<and> table_inv t'"
proof (cases "index t s")
  case None
  with assms show ?thesis using table_inv_intern [OF assms(1,2), of s]
    by (auto simp: intern_def Let_def symbol_of_def find_symbol_def table_contains_def nth_append unat_id)
next
  case (Some k)
  then have "s \<in> set (by_id t)" using assms(1) by (auto simp: table_inv_def)
  then obtain i where i: "i < length (by_id t)" "by_id t ! i = s" by (auto simp: in_set_conv_nth)
  with assms(1) Some have "k = word_of_nat i" by (force simp: table_inv_def)
  with i assms Some show ?thesis
    by (auto simp: intern_def symbol_of_def find_symbol_def unat_id)
qed

theorem intern_roundtrip_witness:
  "let t = snd (intern ''SPY'' empty_table); (iid, t') = intern ''XLE'' t in
   symbol_of iid t' = ''XLE'' \<and> find_symbol ''XLE'' t' = Some iid"
proof -
  define t where "t = snd (intern ''SPY'' empty_table)"
  have t: "table_inv t" "length (by_id t) < 2 ^ 32"
    unfolding t_def using table_inv_intern [OF table_inv_empty, of "''SPY''"]
    by (simp_all add: empty_table_def intern_def)
  obtain iid t' where r: "intern ''XLE'' t = (iid, t')" by (cases "intern ''XLE'' t")
  from intern_roundtrip [OF t r] show ?thesis by (simp add: r flip: t_def)
qed

text \<open>Interning keeps the table's invariant along any sequence of symbols that fits the id type.\<close>

definition intern_step :: "string \<Rightarrow> InstrumentTable \<Rightarrow> InstrumentTable" where
  "intern_step s t = (if length (by_id t) < 2 ^ 32 then snd (intern s t) else t)"

interpretation interning: stepped intern_step table_inv
  by unfold_locales (simp add: intern_step_def table_inv_intern)

end
