(* ===== verification/Oms.thy ===== *)
theory Oms
  imports Core
begin

text \<open>
  Orders, fills and the order manager (\<open>include/ptl/oms\<close>, \<open>src/oms\<close>). An order is an immutable
  value made by a validating factory; its lifecycle lives in the manager's record. The manager's
  operations take the book and return the result with the new book, so a refusal that has already
  written something shows in the returned book. Error messages are constructors.
\<close>

section \<open>Orders\<close>

datatype OrderType = Market | Limit | Stop | StopLimit
datatype TimeInForce = Day | ImmediateOrCancel | FillOrKill | GoodTillCancel

fun to_string_OrderType :: "OrderType \<Rightarrow> string" where
  "to_string_OrderType Market = ''market''"
| "to_string_OrderType Limit = ''limit''"
| "to_string_OrderType Stop = ''stop''"
| "to_string_OrderType StopLimit = ''stop_limit''"

fun to_string_TimeInForce :: "TimeInForce \<Rightarrow> string" where
  "to_string_TimeInForce Day = ''day''"
| "to_string_TimeInForce ImmediateOrCancel = ''ioc''"
| "to_string_TimeInForce FillOrKill = ''fok''"
| "to_string_TimeInForce GoodTillCancel = ''gtc''"

record Order =
  ord_id :: OrderId
  ord_parent :: OrderId
  ord_instrument :: InstrumentId
  ord_side :: Side
  ord_quantity :: Qty
  ord_type :: OrderType
  ord_tif :: TimeInForce
  ord_limit_price :: "Price option"
  ord_stop_price :: "Price option"
  ord_times :: LifecycleTimes
  ord_arrival_price :: Price

datatype order_error = OrderNoId | OrderNoInstrument | OrderBadQuantity | OrderNoDecision
  | OrderBadChain ChainViolation | NeedsLimit OrderType | ForbidsLimit OrderType
  | NeedsStop OrderType | ForbidsStop OrderType | ArrivalBadChain ChainViolation

definition usable_price :: "Price option \<Rightarrow> bool" where
  "usable_price po = (case po of None \<Rightarrow> False | Some p \<Rightarrow> is_finite p \<and> flt fzero p)"

definition order_make ::
    "OrderId \<Rightarrow> InstrumentId \<Rightarrow> Side \<Rightarrow> Qty \<Rightarrow> OrderType \<Rightarrow> Price option \<Rightarrow> Price option
      \<Rightarrow> LifecycleTimes \<Rightarrow> TimeInForce \<Rightarrow> OrderId \<Rightarrow> (order_error, Order) result" where
  "order_make oid instrument side quantity type limit stop tms tif parent =
     (if oid = kNoOrder then Err OrderNoId
      else if instrument = kInvalidInstrument then Err OrderNoInstrument
      else if \<not> is_finite quantity \<or> fle quantity fzero then Err OrderBadQuantity
      else if \<not> is_set (decision_time tms) then Err OrderNoDecision
      else (case validate_chain tms of
          Some v \<Rightarrow> Err (OrderBadChain v)
        | None \<Rightarrow>
          (let needs_limit = (type = Limit \<or> type = StopLimit);
               needs_stop = (type = Stop \<or> type = StopLimit) in
           if needs_limit \<and> \<not> usable_price limit then Err (NeedsLimit type)
           else if \<not> needs_limit \<and> limit \<noteq> None then Err (ForbidsLimit type)
           else if needs_stop \<and> \<not> usable_price stop then Err (NeedsStop type)
           else if \<not> needs_stop \<and> stop \<noteq> None then Err (ForbidsStop type)
           else Ok \<lparr>ord_id = oid, ord_parent = parent, ord_instrument = instrument, ord_side = side,
                    ord_quantity = quantity, ord_type = type, ord_tif = tif, ord_limit_price = limit,
                    ord_stop_price = stop, ord_times = tms, ord_arrival_price = fzero\<rparr>)))"

definition order_market ::
    "OrderId \<Rightarrow> InstrumentId \<Rightarrow> Side \<Rightarrow> Qty \<Rightarrow> LifecycleTimes \<Rightarrow> TimeInForce
      \<Rightarrow> OrderId \<Rightarrow> (order_error, Order) result" where
  "order_market oid instrument side quantity tms tif parent =
     order_make oid instrument side quantity Market None None tms tif parent"

definition order_limit ::
    "OrderId \<Rightarrow> InstrumentId \<Rightarrow> Side \<Rightarrow> Qty \<Rightarrow> Price \<Rightarrow> LifecycleTimes \<Rightarrow> TimeInForce
      \<Rightarrow> OrderId \<Rightarrow> (order_error, Order) result" where
  "order_limit oid instrument side quantity limit_price tms tif parent =
     order_make oid instrument side quantity Limit (Some limit_price) None tms tif parent"

definition order_stop ::
    "OrderId \<Rightarrow> InstrumentId \<Rightarrow> Side \<Rightarrow> Qty \<Rightarrow> Price \<Rightarrow> LifecycleTimes \<Rightarrow> TimeInForce
      \<Rightarrow> OrderId \<Rightarrow> (order_error, Order) result" where
  "order_stop oid instrument side quantity stop_price tms tif parent =
     order_make oid instrument side quantity Stop None (Some stop_price) tms tif parent"

definition order_stop_limit ::
    "OrderId \<Rightarrow> InstrumentId \<Rightarrow> Side \<Rightarrow> Qty \<Rightarrow> Price \<Rightarrow> Price \<Rightarrow> LifecycleTimes \<Rightarrow> TimeInForce
      \<Rightarrow> OrderId \<Rightarrow> (order_error, Order) result" where
  "order_stop_limit oid instrument side quantity stop_price limit_price tms tif parent =
     order_make oid instrument side quantity StopLimit (Some limit_price) (Some stop_price) tms tif
       parent"

definition with_arrival_price :: "Price \<Rightarrow> Order \<Rightarrow> Order" where
  "with_arrival_price p o1 = o1\<lparr>ord_arrival_price := p\<rparr>"

definition with_arrival :: "Timestamp \<Rightarrow> Order \<Rightarrow> (order_error, Order) result" where
  "with_arrival arrival o1 =
     (let copy = o1\<lparr>ord_times := (ord_times o1)\<lparr>arrival_time := arrival\<rparr>\<rparr> in
      case validate_chain (ord_times copy) of
        Some v \<Rightarrow> Err (ArrivalBadChain v)
      | None \<Rightarrow> Ok copy)"

definition order_is_child :: "Order \<Rightarrow> bool" where
  "order_is_child o1 \<longleftrightarrow> ord_parent o1 \<noteq> kNoOrder"

definition order_signed_quantity :: "Order \<Rightarrow> Qty" where
  "order_signed_quantity o1 = signed_qty (ord_side o1) (ord_quantity o1)"

definition is_marketable_against :: "Order \<Rightarrow> Price \<Rightarrow> bool" where
  "is_marketable_against o1 touch =
     (case ord_type o1 of
        Market \<Rightarrow> True
      | Stop \<Rightarrow> True
      | _ \<Rightarrow> (case ord_limit_price o1 of
                None \<Rightarrow> False
              | Some l \<Rightarrow> if ord_side o1 = Buy then fle touch l else fle l touch))"

text \<open>What the private constructor guarantees of every order.\<close>

definition order_valid :: "Order \<Rightarrow> bool" where
  "order_valid o1 \<longleftrightarrow>
     ord_id o1 \<noteq> kNoOrder \<and> ord_instrument o1 \<noteq> kInvalidInstrument \<and>
     fin (ord_quantity o1) \<and> 0 < val (ord_quantity o1) \<and>
     is_set (decision_time (ord_times o1)) \<and> validate_chain (ord_times o1) = None \<and>
     (if ord_type o1 \<in> {Limit, StopLimit} then usable_price (ord_limit_price o1)
      else ord_limit_price o1 = None) \<and>
     (if ord_type o1 \<in> {Stop, StopLimit} then usable_price (ord_stop_price o1)
      else ord_stop_price o1 = None)"

lemma order_make_valid:
  "order_make i ins s q ty l st tm tif p = Ok o1 \<Longrightarrow> order_valid o1"
  by (auto simp: order_make_def order_valid_def f64_sem Let_def split: if_splits option.splits)

lemma with_arrival_valid: "order_valid o1 \<Longrightarrow> with_arrival a o1 = Ok o2 \<Longrightarrow> order_valid o2"
  by (auto simp: with_arrival_def order_valid_def Let_def split: option.splits)

lemma with_arrival_price_valid [simp]: "order_valid (with_arrival_price p o1) = order_valid o1"
  by (simp add: with_arrival_price_def order_valid_def)

lemma with_arrival_frame [frame]:
  "with_arrival a o1 = Ok o2 \<Longrightarrow>
     ord_id o2 = ord_id o1 \<and> ord_parent o2 = ord_parent o1 \<and> ord_instrument o2 = ord_instrument o1 \<and>
     ord_side o2 = ord_side o1 \<and> ord_quantity o2 = ord_quantity o1 \<and> ord_type o2 = ord_type o1 \<and>
     ord_tif o2 = ord_tif o1 \<and> ord_limit_price o2 = ord_limit_price o1 \<and>
     ord_stop_price o2 = ord_stop_price o1 \<and> ord_arrival_price o2 = ord_arrival_price o1 \<and>
     ord_times o2 = (ord_times o1)\<lparr>arrival_time := a\<rparr>"
  by (auto simp: with_arrival_def Let_def split: option.splits)

text \<open>
  The factory accepts exactly the well-formed requests, and what it builds carries the
  request unchanged: the price engagement is a consequence of the order type, never independent of it.
\<close>

theorem order_make_iff:
  "is_ok (order_make oid ins side q ty lmt stp tm tif par) \<longleftrightarrow>
     order_valid \<lparr>ord_id = oid, ord_parent = par, ord_instrument = ins, ord_side = side,
       ord_quantity = q, ord_type = ty, ord_tif = tif, ord_limit_price = lmt, ord_stop_price = stp,
       ord_times = tm, ord_arrival_price = fzero\<rparr>"
  by (cases ty) (auto simp: order_make_def order_valid_def f64_sem Let_def not_le
      split: option.splits if_splits)

text \<open>
  Stamping an arrival enforces the no-same-bar rule on the order itself: it succeeds for a valid
  order only with an arrival strictly after the decision (or with the unset stamp), and changes
  nothing but the stamp.
\<close>

theorem with_arrival_no_same_bar:
  assumes "order_valid o1" and "with_arrival a o1 = Ok o2" and "is_set a"
  shows "decision_time (ord_times o2) < a \<and> arrival_time (ord_times o2) = a \<and> order_valid o2 \<and>
    o2 = o1\<lparr>ord_times := (ord_times o1)\<lparr>arrival_time := a\<rparr>\<rparr>"
proof -
  have o2: "o2 = o1\<lparr>ord_times := (ord_times o1)\<lparr>arrival_time := a\<rparr>\<rparr>"
    and ok: "validate_chain (ord_times o2) = None"
    using assms(2) by (auto simp: with_arrival_def Let_def split: option.splits)
  have "is_set (decision_time (ord_times o2))" using assms(1) by (simp add: o2 order_valid_def)
  then have "decision_time (ord_times o2) < a"
    using arrival_after_decision [OF ok] assms(3) by (simp add: o2)
  then show ?thesis using with_arrival_valid [OF assms(1,2)] o2 by simp
qed

definition sample_times :: "Timestamp \<Rightarrow> LifecycleTimes" where
  "sample_times d = no_times\<lparr>decision_time := d\<rparr>"

definition sample_order :: "OrderId \<Rightarrow> Side \<Rightarrow> Qty \<Rightarrow> Order" where
  "sample_order oid s q = \<lparr>ord_id = oid, ord_parent = kNoOrder, ord_instrument = 0, ord_side = s,
     ord_quantity = q, ord_type = Market, ord_tif = Day, ord_limit_price = None,
     ord_stop_price = None, ord_times = sample_times 100, ord_arrival_price = fzero\<rparr>"

lemma sample_times_chain: "is_set d \<Longrightarrow> validate_chain (sample_times d) = None"
  by (simp add: validate_chain_None_iff chain_ordered_def in_order_def sample_times_def no_times_def)
    (simp add: is_set_def)

lemma set_100 [simp]: "is_set 100"
  by (simp add: is_set_def kNoTimestamp_def)

lemma sample_order_valid:
  "oid \<noteq> 0 \<Longrightarrow> fin q \<Longrightarrow> 0 < val q \<Longrightarrow> order_valid (sample_order oid s q)"
  by (simp add: order_valid_def sample_order_def kNoOrder_def kInvalidInstrument_def
      sample_times_chain) (simp add: sample_times_def)

theorem with_arrival_no_same_bar_witness:
  "\<exists>o2. with_arrival 250 (sample_order 1 Buy (Fin 10)) = Ok o2 \<and> decision_time (ord_times o2) < 250"
proof -
  have v: "order_valid (sample_order 1 Buy (Fin 10))" by (rule sample_order_valid) simp_all
  have "validate_chain ((sample_times 100)\<lparr>arrival_time := 250\<rparr>) = None"
    by (simp add: validate_chain_None_iff chain_ordered_def in_order_def sample_times_def no_times_def)
      (simp add: is_set_def)
  then obtain o2 where o2: "with_arrival 250 (sample_order 1 Buy (Fin 10)) = Ok o2"
    by (simp add: with_arrival_def sample_order_def)
  have "is_set 250" by (simp add: is_set_def kNoTimestamp_def)
  from with_arrival_no_same_bar [OF v o2 this] o2 show ?thesis by blast
qed

section \<open>Fills\<close>

datatype Liquidity = Taker | Maker

fun to_string_Liquidity :: "Liquidity \<Rightarrow> string" where
  "to_string_Liquidity Maker = ''maker''"
| "to_string_Liquidity Taker = ''taker''"

record Fill =
  f_order_id :: OrderId
  f_parent_id :: OrderId
  f_instrument :: InstrumentId
  f_side :: Side
  f_price :: Price
  f_quantity :: Qty
  f_commission :: Notional
  f_exchange_fee :: Notional
  f_liquidity :: Liquidity
  f_times :: LifecycleTimes
  f_arrival_price :: Price

definition fill_total_cost :: "Fill \<Rightarrow> Notional" where
  "fill_total_cost f = fadd (f_commission f) (f_exchange_fee f)"

definition fill_slippage_bps :: "Fill \<Rightarrow> Bps" where
  "fill_slippage_bps f =
     (if \<not> is_finite (f_arrival_price f) \<or> fle (f_arrival_price f) fzero then fzero
      else (let raw = fmul (fsub (fdiv (f_price f) (f_arrival_price f)) (lit 1)) (lit (10 ^ 4)) in
            fmul raw (of_int64 (sign_of (f_side f)))))"

definition fill_cash_delta :: "Fill \<Rightarrow> Notional" where
  "fill_cash_delta f =
     (let gross = fmul (fmul (f_price f) (f_quantity f)) (of_int64 (sign_of (f_side f))) in
      fsub (fsub (fneg gross) (f_commission f)) (f_exchange_fee f))"

definition fill_signed_quantity :: "Fill \<Rightarrow> Qty" where
  "fill_signed_quantity f = signed_qty (f_side f) (f_quantity f)"

definition sample_fill :: "OrderId \<Rightarrow> Side \<Rightarrow> Price \<Rightarrow> Qty \<Rightarrow> Fill" where
  "sample_fill oid s p q = \<lparr>f_order_id = oid, f_parent_id = kNoOrder, f_instrument = 0, f_side = s,
     f_price = p, f_quantity = q, f_commission = Fin 1, f_exchange_fee = Fin 0, f_liquidity = Taker,
     f_times = (sample_times 100)\<lparr>fill_time := 300\<rparr>, f_arrival_price = fzero\<rparr>"

end
