(* ===== verification/LiveTranslator.thy ===== *)
theory LiveTranslator
  imports WireText LiveConnection InstrumentTable Oms "HOL-Library.Char_ord" "HOL-Library.List_Lexorder"
begin

text \<open>
  The broker boundary (\<open>src/live/translator.cpp\<close>, \<open>include/ptl/live/translator.hpp\<close>): the translator of
  orders into one venue's requests, an abstract class with one implementation, and the listener that
  attributes the venue's replies to orders. \<open>OrderUpdate::describe\<close> is not modelled.
\<close>

section \<open>Translating orders\<close>

record EncodedRequest =
  rq_payload :: string
  rq_client_order_id :: string
  rq_order_id :: OrderId

datatype translator_error = QuantityNotPositive | FractionalQuantity Qty | ImmediateMarketOrder
  | LimitPriceMissing | LimitPriceNotPositive | StopPriceMissing | StopPriceNotPositive
  | SymbolUnknown InstrumentId | CancelBeforeAssigned OrderId | ReplaceBeforeAssigned

record OrderTranslator =
  ot_encode_new :: "Order \<Rightarrow> (translator_error, EncodedRequest) result"
  ot_encode_cancel :: "OrderId \<Rightarrow> string \<Rightarrow> (translator_error, EncodedRequest) result"
  ot_encode_replace :: "Order \<Rightarrow> string \<Rightarrow> (translator_error, EncodedRequest) result"
  ot_supports :: "Order \<Rightarrow> (translator_error, bool) result"
  ot_client_order_id :: "OrderId \<Rightarrow> string"

record AlpacaConfig =
  al_client_id_prefix :: string
  al_allow_fractional :: bool
  al_extended_hours :: bool

definition default_alpaca :: AlpacaConfig where
  "default_alpaca = \<lparr>al_client_id_prefix = ''ptl-'', al_allow_fractional = False, al_extended_hours = False\<rparr>"

record AlpacaTranslator =
  al_config :: AlpacaConfig
  al_instruments :: "InstrumentTable option"

fun type_string :: "OrderType \<Rightarrow> string" where
  "type_string Market = ''market''"
| "type_string Limit = ''limit''"
| "type_string Stop = ''stop''"
| "type_string StopLimit = ''stop_limit''"

fun tif_string :: "TimeInForce \<Rightarrow> string" where
  "tif_string Day = ''day''"
| "tif_string GoodTillCancel = ''gtc''"
| "tif_string ImmediateOrCancel = ''ioc''"
| "tif_string FillOrKill = ''fok''"

definition client_order_id :: "AlpacaTranslator \<Rightarrow> OrderId \<Rightarrow> string" where
  "client_order_id a oid = al_client_id_prefix (al_config a) @ dec_string (unat oid)"

text \<open>\<open>std::round\<close>: to the nearest integer, halves away from zero.\<close>

fun fround :: "f64 \<Rightarrow> f64" where
  "fround (Fin r) =
     (if 0 \<le> r then Fin (of_int \<lfloor>r + 1 / 2\<rfloor>)
      else if \<lceil>r - 1 / 2\<rceil> = 0 then NZero else Fin (of_int \<lceil>r - 1 / 2\<rceil>))"
| "fround x = x"

definition alpaca_supports :: "AlpacaTranslator \<Rightarrow> Order \<Rightarrow> (translator_error, bool) result" where
  "alpaca_supports a o1 =
     (if fle (ord_quantity o1) fzero then Err QuantityNotPositive
      else if \<not> al_allow_fractional (al_config a)
           \<and> flt (lit (1 / 10 ^ 9)) (fabs (fsub (ord_quantity o1) (fround (ord_quantity o1))))
      then Err (FractionalQuantity (ord_quantity o1))
      else if (ord_tif o1 = ImmediateOrCancel \<or> ord_tif o1 = FillOrKill) \<and> ord_type o1 = Market
      then Err ImmediateMarketOrder
      else
        let limit_bad = (if ord_type o1 = Limit \<or> ord_type o1 = StopLimit then
               (case ord_limit_price o1 of None \<Rightarrow> Some LimitPriceMissing
                | Some p \<Rightarrow> if fle p fzero then Some LimitPriceNotPositive else None) else None);
            stop_bad = (if ord_type o1 = Stop \<or> ord_type o1 = StopLimit then
               (case ord_stop_price o1 of None \<Rightarrow> Some StopPriceMissing
                | Some p \<Rightarrow> if fle p fzero then Some StopPriceNotPositive else None) else None)
        in (case limit_bad of Some e \<Rightarrow> Err e | None \<Rightarrow>
            (case stop_bad of Some e \<Rightarrow> Err e | None \<Rightarrow> Ok True)))"

text \<open>A JSON string with its opening key, \<open>", \"key\": \"value\""\<close> after the first.\<close>

abbreviation quote :: string where
  "quote \<equiv> [CHR 0x22]"

definition json_field :: "string \<Rightarrow> string \<Rightarrow> string" where
  "json_field key v = quote @ key @ quote @ '': '' @ quote @ v @ quote"

fun price_field :: "string \<Rightarrow> Price option \<Rightarrow> string" where
  "price_field key None = []"
| "price_field key (Some p) = '', '' @ json_field key (wire_number p)"

definition price_fields :: "Order \<Rightarrow> string" where
  "price_fields o1 = price_field ''limit_price'' (ord_limit_price o1) @ price_field ''stop_price'' (ord_stop_price o1)"

definition new_order_payload :: "AlpacaTranslator \<Rightarrow> string \<Rightarrow> string \<Rightarrow> Order \<Rightarrow> string" where
  "new_order_payload a symbol client o1 =
     ''{'' @ json_field ''symbol'' (json_escape symbol) @
     '', '' @ json_field ''qty'' (wire_number (ord_quantity o1)) @
     '', '' @ json_field ''side'' (if ord_side o1 = Buy then ''buy'' else ''sell'') @
     '', '' @ json_field ''type'' (type_string (ord_type o1)) @
     '', '' @ json_field ''time_in_force'' (tif_string (ord_tif o1)) @
     '', '' @ json_field ''client_order_id'' (json_escape client) @
     price_fields o1 @
     (if al_extended_hours (al_config a) then '', '' @ quote @ ''extended_hours'' @ quote @ '': true'' else []) @
     ''}''"

definition encode_new :: "AlpacaTranslator \<Rightarrow> Order \<Rightarrow> (translator_error, EncodedRequest) result" where
  "encode_new a o1 =
     (case alpaca_supports a o1 of
        Inl e \<Rightarrow> Err e
      | Inr _ \<Rightarrow>
          let symbol = (case al_instruments a of None \<Rightarrow> [] | Some t \<Rightarrow> symbol_of (ord_instrument o1) t);
              client = client_order_id a (ord_id o1)
          in if symbol = [] then Err (SymbolUnknown (ord_instrument o1))
             else Ok \<lparr>rq_payload = new_order_payload a symbol client o1, rq_client_order_id = client,
                      rq_order_id = ord_id o1\<rparr>)"

definition encode_cancel :: "AlpacaTranslator \<Rightarrow> OrderId \<Rightarrow> string \<Rightarrow> (translator_error, EncodedRequest) result" where
  "encode_cancel a oid venue =
     (if venue = [] then Err (CancelBeforeAssigned oid)
      else Ok \<lparr>rq_payload = ''{'' @ json_field ''action'' ''cancel'' @ '', ''
                 @ json_field ''order_id'' (json_escape venue) @ ''}'',
               rq_client_order_id = client_order_id a oid, rq_order_id = oid\<rparr>)"

definition encode_replace :: "AlpacaTranslator \<Rightarrow> Order \<Rightarrow> string \<Rightarrow> (translator_error, EncodedRequest) result" where
  "encode_replace a o1 venue =
     (if venue = [] then Err ReplaceBeforeAssigned
      else (case alpaca_supports a o1 of
              Inl e \<Rightarrow> Err e
            | Inr _ \<Rightarrow>
                Ok \<lparr>rq_payload = ''{'' @ json_field ''action'' ''replace'' @ '', ''
                      @ json_field ''order_id'' (json_escape venue) @ '', ''
                      @ json_field ''qty'' (wire_number (ord_quantity o1)) @ price_fields o1 @ ''}'',
                    rq_client_order_id = client_order_id a (ord_id o1), rq_order_id = ord_id o1\<rparr>))"

definition alpaca :: "AlpacaTranslator \<Rightarrow> OrderTranslator" where
  "alpaca a = \<lparr>ot_encode_new = encode_new a, ot_encode_cancel = encode_cancel a,
     ot_encode_replace = encode_replace a, ot_supports = alpaca_supports a,
     ot_client_order_id = client_order_id a\<rparr>"

section \<open>What a payload says\<close>

definition plain :: "string \<Rightarrow> bool" where
  "plain s \<longleftrightarrow> CHR 0x22 \<notin> set s \<and> CHR 0x5C \<notin> set s \<and> CHR 0x0A \<notin> set s"

lemma plain_escape: "plain s \<Longrightarrow> json_escape s = s"
  by (induction s) (auto simp: plain_def json_escape_def)

lemma field_cut:
  "json_field k (json_escape v) @ r = json_field k (json_escape w) @ q \<Longrightarrow> v = w \<and> r = q"
  using json_escape_cut [of v r w q] by (simp add: json_field_def)

lemma field_cut_plain:
  "plain v \<Longrightarrow> plain w \<Longrightarrow> json_field k v @ r = json_field k w @ q \<Longrightarrow> v = w \<and> r = q"
  using field_cut [of k v r w q] by (simp add: plain_escape)

lemma plain_append [simp]: "plain (a @ b) \<longleftrightarrow> plain a \<and> plain b"
  and plain_Cons: "plain (c # s) \<longleftrightarrow> c \<noteq> CHR 0x22 \<and> c \<noteq> CHR 0x5C \<and> c \<noteq> CHR 0x0A \<and> plain s"
  and plain_Nil [simp]: "plain []"
  by (auto simp: plain_def)

lemma plain_digits: "list_all is_digit s \<Longrightarrow> plain s"
  by (induction s) (auto simp: plain_Cons is_digit_def)

lemma plain_subset: "set s \<subseteq> set t \<Longrightarrow> plain t \<Longrightarrow> plain s"
  by (auto simp: plain_def)

lemma plain_zeros: "plain (replicate k (CHR ''0''))"
  by (induction k) (simp_all add: plain_Cons)

lemma plain_dec_string: "plain (dec_string n)"
  using dec_string_digits plain_digits by blast

lemma plain_dotted: "plain s \<Longrightarrow> plain (dotted s)"
  using plain_subset [OF strip_zeros_set] by (auto simp: dotted_def plain_Cons)

lemma plain_decimal_text: "plain (decimal_text n X)"
proof -
  have t: "plain (take k (dec_string m))" "plain (drop k (dec_string m))" "plain (strip_zeros (dec_string m))" for k m
    using plain_subset [OF set_take_subset plain_dec_string] plain_subset [OF set_drop_subset plain_dec_string]
      plain_subset [OF strip_zeros_set plain_dec_string] by simp_all
  then show ?thesis
    by (auto simp: decimal_text_def Let_def zero_pad_def plain_Cons plain_dotted plain_zeros plain_dec_string)
qed

lemma plain_wire_number: "plain (wire_number x)"
  by (cases x) (auto simp: positive_text_def plain_decimal_text plain_Cons split: prod.split)

lemma plain_type_tif [simp]: "plain (type_string ty)" "plain (tif_string tif)"
  by (cases ty; simp add: plain_Cons) (cases tif; simp add: plain_Cons)

lemma type_string_inj [simp]: "type_string a = type_string b \<longleftrightarrow> a = b"
  by (cases a; cases b) simp_all

lemma tif_string_inj [simp]: "tif_string a = tif_string b \<longleftrightarrow> a = b"
  by (cases a; cases b) simp_all

lemma dec_string_inj: "dec_string m = dec_string n \<Longrightarrow> m = n"
  using digits_value_dec_string by (metis of_nat_eq_iff)

lemma client_order_id_inj [simp]: "client_order_id a i = client_order_id a j \<longleftrightarrow> i = j"
  using dec_string_inj [of "unat i" "unat j"] by (auto simp: client_order_id_def word_unat_eq_iff)

lemma symbol_of_inj:
  assumes "table_inv t" "symbol_of i t \<noteq> []" "symbol_of i t = symbol_of j t"
  shows "i = j"
  using assms by (auto simp: symbol_of_def table_inv_def nth_eq_iff_index_eq word_unat_eq_iff split: if_splits)

definition order_f64 :: "Order \<Rightarrow> bool" where
  "order_f64 o1 \<longleftrightarrow> is_f64 (ord_quantity o1) \<and> (\<forall>p\<in>set_option (ord_limit_price o1). is_f64 p)
     \<and> (\<forall>p\<in>set_option (ord_stop_price o1). is_f64 p)"

text \<open>What the venue is told of an order.\<close>

definition same_request :: "Order \<Rightarrow> Order \<Rightarrow> bool" where
  "same_request a b \<longleftrightarrow> ord_id a = ord_id b \<and> ord_instrument a = ord_instrument b \<and> ord_side a = ord_side b
     \<and> val (ord_quantity a) = val (ord_quantity b) \<and> ord_type a = ord_type b \<and> ord_tif a = ord_tif b
     \<and> map_option val (ord_limit_price a) = map_option val (ord_limit_price b)
     \<and> map_option val (ord_stop_price a) = map_option val (ord_stop_price b)"

lemma price_field_cut:
  assumes "price_field k x @ r = price_field k y @ q" "x = None \<longleftrightarrow> y = None"
    and "\<forall>p\<in>set_option x. is_f64 p \<and> fin p" "\<forall>p\<in>set_option y. is_f64 p \<and> fin p"
  shows "map_option val x = map_option val y \<and> r = q"
proof (cases x)
  case (Some p)
  then obtain p' where y: "y = Some p'" using assms(2) by blast
  have "json_field k (wire_number p) @ r = json_field k (wire_number p') @ q"
    using assms(1) by (simp only: Some y price_field.simps append_assoc same_append_eq)
  from field_cut_plain [OF plain_wire_number plain_wire_number this] show ?thesis
    using wire_number_inj [of p p'] assms(3,4) by (simp only: Some y option.map option.inject) simp
qed (use assms in auto)

lemma price_fields_cut:
  assumes "order_valid a" "order_valid b" "order_f64 a" "order_f64 b" "ord_type a = ord_type b"
    and e: "price_fields a @ r = price_fields b @ q"
  shows "map_option val (ord_limit_price a) = map_option val (ord_limit_price b)
    \<and> map_option val (ord_stop_price a) = map_option val (ord_stop_price b)"
proof -
  have lim: "ord_limit_price a = None \<longleftrightarrow> ord_limit_price b = None" "ord_stop_price a = None \<longleftrightarrow> ord_stop_price b = None"
    using assms(1,2,5) by (auto simp: order_valid_def usable_price_def split: if_splits option.splits)
  have ok: "\<forall>p\<in>set_option (ord_limit_price x). is_f64 p \<and> fin p" "\<forall>p\<in>set_option (ord_stop_price x). is_f64 p \<and> fin p"
    if "order_valid x" "order_f64 x" for x
    using that by (auto simp: order_valid_def order_f64_def usable_price_def split: if_splits)
  note e1 = price_field_cut [OF e [unfolded price_fields_def append_assoc] lim(1) ok(1) ok(1)]
  from e1 have "price_field ''stop_price'' (ord_stop_price a) @ r = price_field ''stop_price'' (ord_stop_price b) @ q"
    using assms(1-4) by blast
  from price_field_cut [OF this lim(2) ok(2) ok(2)] e1 show ?thesis using assms(1-4) by blast
qed

lemma encode_new_payload:
  assumes "encode_new a o1 = Ok r"
  shows "\<exists>t. al_instruments a = Some t \<and> symbol_of (ord_instrument o1) t \<noteq> [] \<and>
    rq_payload r = new_order_payload a (symbol_of (ord_instrument o1) t) (client_order_id a (ord_id o1)) o1
    \<and> rq_client_order_id r = client_order_id a (ord_id o1) \<and> rq_order_id r = ord_id o1 \<and> is_ok (alpaca_supports a o1)"
  using assms by (auto simp: encode_new_def Let_def split: sum.splits option.splits if_splits)

lemma payload_cut:
  assumes v: "order_valid o1" "order_valid o2" "order_f64 o1" "order_f64 o2"
    and e: "new_order_payload a u1 c1 o1 = new_order_payload a u2 c2 o2"
  shows "u1 = u2 \<and> c1 = c2 \<and> ord_side o1 = ord_side o2 \<and> val (ord_quantity o1) = val (ord_quantity o2)
    \<and> ord_type o1 = ord_type o2 \<and> ord_tif o1 = ord_tif o2
    \<and> map_option val (ord_limit_price o1) = map_option val (ord_limit_price o2)
    \<and> map_option val (ord_stop_price o1) = map_option val (ord_stop_price o2)"
proof -
  define side where "side o1 = (if ord_side o1 = Buy then ''buy'' else ''sell'')" for o1 :: Order
  define T where "T = (if al_extended_hours (al_config a)
    then '', '' @ quote @ ''extended_hours'' @ quote @ '': true'' else []) @ ''}''"
  define R5 where "R5 c o1 = json_field ''client_order_id'' (json_escape c) @ price_fields o1 @ T" for c o1
  define R4 where "R4 c o1 = json_field ''time_in_force'' (tif_string (ord_tif o1)) @ '', '' @ R5 c o1" for c o1
  define R3 where "R3 c o1 = json_field ''type'' (type_string (ord_type o1)) @ '', '' @ R4 c o1" for c o1
  define R2 where "R2 c o1 = json_field ''side'' (side o1) @ '', '' @ R3 c o1" for c o1
  define R1 where "R1 c o1 = json_field ''qty'' (wire_number (ord_quantity o1)) @ '', '' @ R2 c o1" for c o1
  have p: "new_order_payload a u c o1 = CHR ''{'' # json_field ''symbol'' (json_escape u) @ '', '' @ R1 c o1" for u c o1
    by (simp add: new_order_payload_def R1_def R2_def R3_def R4_def R5_def T_def side_def)
  have "json_field ''symbol'' (json_escape u1) @ ('', '' @ R1 c1 o1)
      = json_field ''symbol'' (json_escape u2) @ ('', '' @ R1 c2 o2)"
    using e by (simp add: p)
  from field_cut [OF this] have "u1 = u2" and r1: "R1 c1 o1 = R1 c2 o2" by simp_all
  have ps: "plain (side o1)" "plain (side o2)" by (simp_all add: side_def plain_Cons)
  have q: "wire_number (ord_quantity o1) = wire_number (ord_quantity o2)" and r2: "R2 c1 o1 = R2 c2 o2"
    using field_cut_plain [OF plain_wire_number plain_wire_number r1 [unfolded R1_def]] by simp_all
  have "side o1 = side o2" and r3: "R3 c1 o1 = R3 c2 o2"
    using field_cut_plain [OF ps r2 [unfolded R2_def]] by simp_all
  have ty: "ord_type o1 = ord_type o2" and r4: "R4 c1 o1 = R4 c2 o2"
    using field_cut_plain [OF plain_type_tif(1) plain_type_tif(1) r3 [unfolded R3_def]] by simp_all
  have "ord_tif o1 = ord_tif o2" and r5: "R5 c1 o1 = R5 c2 o2"
    using field_cut_plain [OF plain_type_tif(2) plain_type_tif(2) r4 [unfolded R4_def]] by simp_all
  have "c1 = c2" and "price_fields o1 @ T = price_fields o2 @ T"
    using field_cut [OF r5 [unfolded R5_def]] by simp_all
  moreover have "val (ord_quantity o1) = val (ord_quantity o2)"
    using v q by (intro wire_number_inj) (auto simp: order_valid_def order_f64_def)
  moreover have "ord_side o1 = ord_side o2"
    using \<open>side o1 = side o2\<close> by (cases "ord_side o1"; cases "ord_side o2") (simp_all add: side_def)
  ultimately show ?thesis
    using \<open>u1 = u2\<close> ty \<open>ord_tif o1 = ord_tif o2\<close> price_fields_cut [OF v ty] by blast
qed

section \<open>Listening to the venue\<close>

datatype UpdateKind = UpAccepted | UpRejected | UpCancelled | UpReplaced | UpPartiallyFilled | UpFilled
  | UpIgnored

record OrderUpdate =
  ou_kind :: UpdateKind
  ou_order_id :: OrderId
  ou_venue_order_id :: string
  ou_filled_quantity :: Qty
  ou_fill_price :: Price
  ou_commission :: Notional
  ou_exchange_fee :: Notional
  ou_venue_time :: Timestamp
  ou_venue_fill_id :: string
  ou_reason :: string

definition update_is_fill :: "OrderUpdate \<Rightarrow> bool" where
  "update_is_fill u \<longleftrightarrow> ou_kind u = UpPartiallyFilled \<or> ou_kind u = UpFilled"

type_synonym Listener = "(string, OrderId) omap"

datatype listener_error = EmptyClientId | TrackNoOrder | ClientIdTaken string | UntrackedOrder string
  | FillQuantityNotPositive | FillPriceNotPositive

definition track :: "string \<Rightarrow> OrderId \<Rightarrow> Listener \<Rightarrow> (listener_error, bool) result \<times> Listener" where
  "track client oid l =
     (if client = [] then (Err EmptyClientId, l)
      else if oid = kNoOrder then (Err TrackNoOrder, l)
      else (case om_find l client of
              Some existing \<Rightarrow> (if existing = oid then (Ok True, l) else (Err (ClientIdTaken client), l))
            | None \<Rightarrow> (Ok True, om_put client oid l)))"

definition forget :: "string \<Rightarrow> Listener \<Rightarrow> Listener" where
  "forget client l = om_erase client l"

definition resolve :: "string \<Rightarrow> Listener \<Rightarrow> OrderId option" where
  "resolve client l = om_find l client"

fun update_kind :: "MessageKind \<Rightarrow> UpdateKind" where
  "update_kind MsgOrderAccepted = UpAccepted"
| "update_kind MsgOrderRejected = UpRejected"
| "update_kind MsgOrderCancelled = UpCancelled"
| "update_kind MsgOrderReplaced = UpReplaced"
| "update_kind MsgPartialFill = UpPartiallyFilled"
| "update_kind MsgFill = UpFilled"
| "update_kind _ = UpIgnored"

definition update_of :: "BrokerMessage \<Rightarrow> OrderUpdate" where
  "update_of m = \<lparr>ou_kind = update_kind (bm_kind m), ou_order_id = kNoOrder,
     ou_venue_order_id = bm_venue_order_id m, ou_filled_quantity = fzero, ou_fill_price = fzero,
     ou_commission = fzero, ou_exchange_fee = fzero, ou_venue_time = bm_venue_time m,
     ou_venue_fill_id = bm_venue_fill_id m, ou_reason = bm_text m\<rparr>"

definition interpret_message :: "BrokerMessage \<Rightarrow> Listener \<Rightarrow> (listener_error, OrderUpdate) result" where
  "interpret_message m l =
     (let u = update_of m in
      if ou_kind u = UpIgnored then Ok u
      else (case resolve (bm_client_order_id m) l of
              None \<Rightarrow> Err (UntrackedOrder (if bm_client_order_id m = [] then bm_venue_order_id m
                                             else bm_client_order_id m))
            | Some oid \<Rightarrow>
                let u1 = u\<lparr>ou_order_id := oid\<rparr> in
                if update_is_fill u1 then
                  if \<not> flt fzero (bm_quantity m) then Err FillQuantityNotPositive
                  else if \<not> flt fzero (bm_price m) then Err FillPriceNotPositive
                  else Ok (u1\<lparr>ou_filled_quantity := bm_quantity m, ou_fill_price := bm_price m,
                             ou_commission := bm_commission m, ou_exchange_fee := bm_exchange_fee m\<rparr>)
                else Ok u1))"

definition listener_snapshot :: "Listener \<Rightarrow> (string \<times> OrderId) list" where
  "listener_snapshot l = map (\<lambda>(client, oid). (client, oid)) l"

fun restore_entries :: "(string \<times> OrderId) list \<Rightarrow> Listener \<Rightarrow> (listener_error, bool) result \<times> Listener" where
  "restore_entries [] l = (Ok True, l)"
| "restore_entries ((client, oid) # es) l =
     (case track client oid l of (Inl e, l1) \<Rightarrow> (Err e, l1) | (Inr _, l1) \<Rightarrow> restore_entries es l1)"

definition listener_restore ::
    "(string \<times> OrderId) list \<Rightarrow> Listener \<Rightarrow> (listener_error, bool) result \<times> Listener" where
  "listener_restore es l = restore_entries es []"

section \<open>The translator's contract\<close>

text \<open>
  What the broker relies on, for any venue: a request carries the order's own id and the client id the
  translator assigns, nothing unsupported is encoded, client ids are never empty and never shared, and
  two encodings with one payload are of one order.
\<close>

locale order_translator =
  fixes tx :: OrderTranslator
    and same :: "Order \<Rightarrow> Order \<Rightarrow> bool"
    and usable :: "Order \<Rightarrow> bool"
  assumes encode_identity: "ot_encode_new tx o1 = Ok r \<Longrightarrow>
      rq_order_id r = ord_id o1 \<and> rq_client_order_id r = ot_client_order_id tx (ord_id o1)"
    and encode_supported: "ot_encode_new tx o1 = Ok r \<Longrightarrow> is_ok (ot_supports tx o1)"
    and client_id_inj: "ot_client_order_id tx i = ot_client_order_id tx j \<Longrightarrow> i = j"
    and client_id_nonempty: "ot_client_order_id tx i \<noteq> []"
    and payload_inj: "usable o1 \<Longrightarrow> usable o2 \<Longrightarrow> ot_encode_new tx o1 = Ok r1 \<Longrightarrow> ot_encode_new tx o2 = Ok r2 \<Longrightarrow>
      rq_payload r1 = rq_payload r2 \<Longrightarrow> same o1 o2"
begin

text \<open>A reply quoting the client id of one order is never taken for another's.\<close>

lemma tracked_apart:
  assumes "track (ot_client_order_id tx i) i l = (Ok True, l1)" "track (ot_client_order_id tx j) j l1 = (Ok True, l2)"
  shows "resolve (ot_client_order_id tx i) l2 = Some i \<and> resolve (ot_client_order_id tx j) l2 = Some j"
proof -
  have put: "resolve (ot_client_order_id tx x) q = Some x"
    and keep: "resolve c p = Some y \<Longrightarrow> resolve c q = Some y"
    if "track (ot_client_order_id tx x) x p = (Ok True, q)" for x p q c y
    using that by (auto simp: track_def resolve_def omap_simps split: if_splits option.splits)
  show ?thesis using put [OF assms(1)] put [OF assms(2)] keep [OF assms(2)] by blast
qed

lemma track_own:
  "i \<noteq> kNoOrder \<Longrightarrow> resolve (ot_client_order_id tx i) l = None \<Longrightarrow>
   track (ot_client_order_id tx i) i l = (Ok True, om_put (ot_client_order_id tx i) i l)"
  using client_id_nonempty by (simp add: track_def resolve_def)

end

definition table_ok :: "AlpacaTranslator \<Rightarrow> bool" where
  "table_ok a \<longleftrightarrow> (case al_instruments a of None \<Rightarrow> True | Some t \<Rightarrow> table_inv t)"

lemma encode_new_inj:
  assumes "table_ok a" "order_valid o1" "order_valid o2" "order_f64 o1" "order_f64 o2"
    and e: "encode_new a o1 = Ok r1" "encode_new a o2 = Ok r2" "rq_payload r1 = rq_payload r2"
  shows "same_request o1 o2"
proof -
  obtain t where t: "al_instruments a = Some t" "symbol_of (ord_instrument o1) t \<noteq> []"
    and p: "new_order_payload a (symbol_of (ord_instrument o1) t) (client_order_id a (ord_id o1)) o1
      = new_order_payload a (symbol_of (ord_instrument o2) t) (client_order_id a (ord_id o2)) o2"
    using encode_new_payload [OF e(1)] encode_new_payload [OF e(2)] e(3) by auto
  note cut = payload_cut [OF assms(2-5) p]
  have "ord_instrument o1 = ord_instrument o2"
    using symbol_of_inj [of t "ord_instrument o1" "ord_instrument o2"] t cut assms(1) by (simp add: table_ok_def)
  with cut show ?thesis by (simp add: same_request_def)
qed

lemma dec_string_nonempty [simp]: "dec_string n \<noteq> []"
  using dec_string_digits by blast

lemma alpaca_is_translator:
  "table_ok a \<Longrightarrow> order_translator (alpaca a) same_request (\<lambda>o1. order_valid o1 \<and> order_f64 o1)"
proof (unfold_locales, goal_cases)
  case (1 o1 r)
  then show ?case using encode_new_payload [of a o1 r] by (auto simp: alpaca_def)
next
  case (2 o1 r)
  then show ?case using encode_new_payload [of a o1 r] by (auto simp: alpaca_def)
next
  case (5 o1 o2 r1 r2)
  then show ?case using encode_new_inj by (simp add: alpaca_def)
qed (auto simp: alpaca_def client_order_id_def word_unat_eq_iff dest: dec_string_inj)

definition sample_symbols :: InstrumentTable where
  "sample_symbols = snd (intern ''SPY'' empty_table)"

definition sample_alpaca :: AlpacaTranslator where
  "sample_alpaca = \<lparr>al_config = default_alpaca, al_instruments = Some sample_symbols\<rparr>"

lemma sample_alpaca_ok: "table_ok sample_alpaca"
  using table_inv_intern [OF table_inv_empty, of "''SPY''"]
  by (simp add: table_ok_def sample_alpaca_def sample_symbols_def) (simp add: empty_table_def)

interpretation venue: order_translator "alpaca sample_alpaca" same_request
  "\<lambda>o1. order_valid o1 \<and> order_f64 o1"
  by (rule alpaca_is_translator [OF sample_alpaca_ok])

section \<open>The listener's book\<close>

definition listener_ok :: "Listener \<Rightarrow> bool" where
  "listener_ok l \<longleftrightarrow> om_inv l \<and> (\<forall>(client, oid)\<in>set l. client \<noteq> [] \<and> oid \<noteq> kNoOrder)"

lemma listener_ok_empty [simp]: "listener_ok []"
  by (simp add: listener_ok_def)

lemma listener_ok_track: "listener_ok l \<Longrightarrow> listener_ok (snd (track client oid l))"
  by (auto simp: track_def listener_ok_def om_in_put split: option.splits if_splits)

lemma listener_ok_forget: "listener_ok l \<Longrightarrow> listener_ok (forget client l)"
  by (auto simp: forget_def listener_ok_def om_erase_def dest: om_inv_erase)

lemma om_put_end: "\<forall>j\<in>fst ` set m. j < k \<Longrightarrow> om_put k v m = m @ [(k, v)]"
  by (induction m) auto

lemma restore_entries_sorted:
  "om_inv (acc @ es) \<Longrightarrow> \<forall>(client, oid)\<in>set es. client \<noteq> [] \<and> oid \<noteq> kNoOrder \<Longrightarrow>
   restore_entries es acc = (Ok True, acc @ es)"
proof (induction es arbitrary: acc)
  case (Cons e es)
  obtain client oid where e: "e = (client, oid)" by fastforce
  have lt: "\<forall>j\<in>fst ` set acc. j < client"
    using Cons.prems(1) by (auto simp: om_inv_def sorted_wrt_append e)
  then have "om_find acc client = None"
    using om_find_in [of acc client] by (cases "om_find acc client") force+
  then have "track client oid acc = (Ok True, acc @ [(client, oid)])"
    using Cons.prems(2) lt by (simp add: track_def om_put_end e)
  then show ?case using Cons.IH [of "acc @ [(client, oid)]"] Cons.prems by (simp add: e)
qed simp

lemma listener_roundtrip:
  "listener_ok l \<Longrightarrow> listener_restore (listener_snapshot l) l0 = (Ok True, l)"
  using restore_entries_sorted [of "[]" l]
  by (simp add: listener_restore_def listener_snapshot_def listener_ok_def)

section \<open>What the translator promises\<close>

text \<open>
  C18: A request says exactly which order it is. Two orders encoded by one translator into the same text are
  the same to the venue: the same client id, instrument, side, type and time in force, and bit for bit the
  same quantity, limit and stop price. Nothing is rounded, and no field can be mistaken for another.
\<close>

theorem new_order_request_identifies_the_order:
  assumes "table_ok a" "order_valid o1" "order_valid o2" "order_f64 o1" "order_f64 o2"
    and "encode_new a o1 = Ok r1" "encode_new a o2 = Ok r2" "rq_payload r1 = rq_payload r2"
  shows "same_request o1 o2 \<and> rq_client_order_id r1 = rq_client_order_id r2
    \<and> rnd (read_number (wire_number (ord_quantity o1))) = val (ord_quantity o1)"
proof -
  have "same_request o1 o2" by (rule encode_new_inj [OF assms])
  moreover have "rq_client_order_id r1 = rq_client_order_id r2"
    using encode_new_payload [OF assms(6)] encode_new_payload [OF assms(7)] calculation
    by (auto simp: same_request_def)
  moreover have "rnd (read_number (wire_number (ord_quantity o1))) = val (ord_quantity o1)"
    using assms(2,4) by (intro read_wire_number) (auto simp: order_valid_def order_f64_def)
  ultimately show ?thesis by simp
qed

lemma sample_order_encodes:
  "encode_new sample_alpaca (sample_order 7 Buy (Fin 100)) = Ok \<lparr>
     rq_payload = new_order_payload sample_alpaca ''SPY'' ''ptl-7'' (sample_order 7 Buy (Fin 100)),
     rq_client_order_id = ''ptl-7'', rq_order_id = 7\<rparr>"
proof -
  have "dec_string 7 = ''7''" by (simp add: dec_string.simps digit_char_def char_of_def bit_iff_odd)
  moreover have "symbol_of 0 sample_symbols = ''SPY''"
    by (simp add: sample_symbols_def intern_def empty_table_def symbol_of_def Let_def)
  moreover have "\<not> flt (lit (1 / 10 ^ 9)) (fabs (fsub (Fin 100) (Fin 100)))" 
    by (simp add: f64_eval)
  ultimately show ?thesis
    by (simp add: encode_new_def alpaca_supports_def sample_order_def sample_alpaca_def default_alpaca_def
        client_order_id_def Let_def fle_def flt_def feq_def fzero_def)
qed

theorem new_order_request_identifies_the_order_witness:
  "same_request (sample_order 7 Buy (Fin 100)) (sample_order 7 Buy (Fin 100))"
proof -
  have "order_valid (sample_order 7 Buy (Fin 100))"
    by (rule sample_order_valid) simp_all
  moreover have "order_f64 (sample_order 7 Buy (Fin 100))"
    by (simp add: order_f64_def sample_order_def is_f64_def rnd_numeral_exact f64_lim_def)
  ultimately show ?thesis
    using new_order_request_identifies_the_order [OF sample_alpaca_ok _ _ _ _ sample_order_encodes sample_order_encodes]
    by blast
qed

end
