(* ===== verification/QuoteBook.thy ===== *)
theory QuoteBook
  imports ExecutionModels
begin

text \<open>
  The current top of book per instrument and the router that turns it into the market state the
  venue consumes (\<open>src/execution/quote_book.cpp\<close>, \<open>quote_models.hpp\<close>, \<open>quote_router.hpp\<close>).
  \<open>state_at\<close> is const in the code but counts its stale and halted reads in a mutable member, so
  reads return the book with its counters.
\<close>

datatype QuoteCondition = Normal | Locked | Crossed | Stale | Absent
datatype TradingState = Trading | Halted | Closed | Auction
datatype QuoteTier = OneMinute | OneSecond | Continuous

fun to_string_QuoteCondition :: "QuoteCondition \<Rightarrow> string" where
  "to_string_QuoteCondition Normal = ''normal''"
| "to_string_QuoteCondition Locked = ''locked''"
| "to_string_QuoteCondition Crossed = ''crossed''"
| "to_string_QuoteCondition Stale = ''stale''"
| "to_string_QuoteCondition Absent = ''absent''"

fun to_string_TradingState :: "TradingState \<Rightarrow> string" where
  "to_string_TradingState Trading = ''trading''"
| "to_string_TradingState Halted = ''halted''"
| "to_string_TradingState Closed = ''closed''"
| "to_string_TradingState Auction = ''auction''"

fun to_string_QuoteTier :: "QuoteTier \<Rightarrow> string" where
  "to_string_QuoteTier OneMinute = ''cbbo-1m''"
| "to_string_QuoteTier OneSecond = ''cbbo-1s''"
| "to_string_QuoteTier Continuous = ''continuous''"

fun default_staleness_budget :: "QuoteTier \<Rightarrow> Duration" where
  "default_staleness_budget OneMinute = 60 * 10 ^ 9"
| "default_staleness_budget OneSecond = 2 * 10 ^ 9"
| "default_staleness_budget Continuous = 5 * 10 ^ 9"

record QuoteState =
  qs_quote :: "Quote option"
  qs_condition :: QuoteCondition
  qs_trading_state :: TradingState
  qs_tier :: QuoteTier
  qs_age :: Duration
  qs_present :: bool

definition default_quote_state :: QuoteState where
  "default_quote_state = \<lparr>qs_quote = None, qs_condition = Absent, qs_trading_state = Closed,
     qs_tier = OneMinute, qs_age = 0, qs_present = False\<rparr>"

definition qs_executable :: "QuoteState \<Rightarrow> bool" where
  "qs_executable s \<longleftrightarrow> qs_present s \<and> qs_trading_state s = Trading \<and>
     (qs_condition s = Normal \<or> qs_condition s = Locked)"

definition refusal_reason :: "QuoteState \<Rightarrow> string" where
  "refusal_reason s =
     (if \<not> qs_present s then ''no quote available''
      else (case qs_trading_state s of
          Halted \<Rightarrow> ''instrument is halted''
        | Closed \<Rightarrow> ''market is closed''
        | Auction \<Rightarrow> ''auction period, not continuous trading''
        | Trading \<Rightarrow>
           (case qs_condition s of
              Crossed \<Rightarrow> ''consolidated quote is crossed, indicating a feed or parsing fault''
            | Stale \<Rightarrow> ''quote is older than the tier'' @ [CHR 0x27] @ ''s staleness budget''
            | Absent \<Rightarrow> ''no quote available''
            | Normal \<Rightarrow> ''executable''
            | Locked \<Rightarrow> ''executable'')))"

section \<open>The book\<close>

record QuoteBookConfig =
  qb_tier :: QuoteTier
  qb_staleness_budget :: Duration
  reject_crossed :: bool

record QuoteBookStats =
  updates_accepted :: nat
  updates_rejected_out_of_order :: nat
  updates_rejected_crossed :: nat
  locked_observed :: nat
  stale_reads :: nat
  halted_reads :: nat

definition no_book_stats :: QuoteBookStats where
  "no_book_stats = \<lparr>updates_accepted = 0, updates_rejected_out_of_order = 0,
     updates_rejected_crossed = 0, locked_observed = 0, stale_reads = 0, halted_reads = 0\<rparr>"

record QuoteEntry =
  en_quote :: "Quote option"
  en_received :: Timestamp
  en_trading_state :: TradingState
  en_present :: bool

definition default_quote_entry :: QuoteEntry where
  "default_quote_entry = \<lparr>en_quote = None, en_received = kNoTimestamp, en_trading_state = Trading,
     en_present = False\<rparr>"

record QuoteBook =
  qb_cfg :: QuoteBookConfig
  qb_budget :: Duration
  qb_entries :: "(InstrumentId, QuoteEntry) omap"
  qb_stats :: QuoteBookStats

definition make_quote_book :: "QuoteBookConfig \<Rightarrow> QuoteBook" where
  "make_quote_book cfg = \<lparr>qb_cfg = cfg,
     qb_budget = (if 0 < qb_staleness_budget cfg then qb_staleness_budget cfg
                  else default_staleness_budget (qb_tier cfg)),
     qb_entries = [], qb_stats = no_book_stats\<rparr>"

definition entry_of :: "QuoteBook \<Rightarrow> InstrumentId \<Rightarrow> QuoteEntry" where
  "entry_of b i = (case om_find (qb_entries b) i of None \<Rightarrow> default_quote_entry | Some e \<Rightarrow> e)"

datatype book_error = QuotePrecedesHeld Timestamp Timestamp | QuoteCrossed Timestamp

text \<open>\<open>entries_[i]\<close> inserts a default entry when there is none, before any check.\<close>

definition book_update :: "Quote \<Rightarrow> QuoteBook \<Rightarrow> (book_error, bool) result \<times> QuoteBook" where
  "book_update q b0 =
     (let i = q_instrument q; entry = entry_of b0 i;
          b = b0\<lparr>qb_entries := om_put i entry (qb_entries b0)\<rparr>;
          arriving = ev_exchange (q_time q); st = qb_stats b in
      if en_present entry \<and> arriving < en_received entry
      then (Err (QuotePrecedesHeld arriving (en_received entry)),
            b\<lparr>qb_stats := st\<lparr>updates_rejected_out_of_order := updates_rejected_out_of_order st + 1\<rparr>\<rparr>)
      else
        (let crossed = flt (q_ask q) (q_bid q);
             st1 = (if crossed
                    then st\<lparr>updates_rejected_crossed := updates_rejected_crossed st + 1\<rparr> else st) in
         if crossed \<and> reject_crossed (qb_cfg b)
         then (Err (QuoteCrossed arriving), b\<lparr>qb_stats := st1\<rparr>)
         else
           (let st2 = (if feq (q_ask q) (q_bid q) then st1\<lparr>locked_observed := locked_observed st1 + 1\<rparr>
                       else st1) in
            (Ok True, b\<lparr>qb_entries := om_put i (entry\<lparr>en_quote := Some q, en_received := arriving,
                                                   en_present := True\<rparr>) (qb_entries b),
                       qb_stats := st2\<lparr>updates_accepted := updates_accepted st2 + 1\<rparr>\<rparr>))))"

definition set_trading_state :: "InstrumentId \<Rightarrow> TradingState \<Rightarrow> QuoteBook \<Rightarrow> QuoteBook" where
  "set_trading_state i ts b =
     b\<lparr>qb_entries := om_put i ((entry_of b i)\<lparr>en_trading_state := ts\<rparr>) (qb_entries b)\<rparr>"

definition stale_read :: "QuoteBook \<Rightarrow> QuoteBook" where
  "stale_read b = b\<lparr>qb_stats := (qb_stats b)\<lparr>stale_reads := stale_reads (qb_stats b) + 1\<rparr>\<rparr>"

definition halted_read :: "QuoteBook \<Rightarrow> QuoteBook" where
  "halted_read b = b\<lparr>qb_stats := (qb_stats b)\<lparr>halted_reads := halted_reads (qb_stats b) + 1\<rparr>\<rparr>"

definition assess :: "Quote \<Rightarrow> QuoteCondition" where
  "assess q = (if flt (q_ask q) (q_bid q) then Crossed
     else if feq (q_ask q) (q_bid q) then Locked else Normal)"

text \<open>
  A present entry always holds a quote (\<open>update\<close> sets both); the branch without one is never
  taken.
\<close>

definition state_at :: "InstrumentId \<Rightarrow> Timestamp \<Rightarrow> QuoteBook \<Rightarrow> QuoteState \<times> QuoteBook" where
  "state_at i now b =
     (let out = default_quote_state\<lparr>qs_tier := qb_tier (qb_cfg b)\<rparr> in
      case om_find (qb_entries b) i of
        None \<Rightarrow> (out\<lparr>qs_condition := Absent, qs_trading_state := Closed\<rparr>, b)
      | Some e \<Rightarrow>
          if \<not> en_present e
          then (out\<lparr>qs_condition := Absent, qs_trading_state := en_trading_state e\<rparr>, b)
          else
            (let out1 = out\<lparr>qs_quote := en_quote e, qs_present := True,
                            qs_trading_state := en_trading_state e, qs_age := now - en_received e\<rparr>;
                 b1 = (if en_trading_state e = Halted then halted_read b else b) in
             if qs_age out1 < 0 then (out1\<lparr>qs_condition := Stale\<rparr>, stale_read b1)
             else if qb_budget b < qs_age out1 then (out1\<lparr>qs_condition := Stale\<rparr>, stale_read b1)
             else (out1\<lparr>qs_condition := (case en_quote e of None \<Rightarrow> Absent | Some q \<Rightarrow> assess q)\<rparr>, b1)))"

definition raw_quote :: "QuoteBook \<Rightarrow> InstrumentId \<Rightarrow> Quote option" where
  "raw_quote b i = (case om_find (qb_entries b) i of None \<Rightarrow> None
     | Some e \<Rightarrow> if en_present e then en_quote e else None)"

definition last_update :: "QuoteBook \<Rightarrow> InstrumentId \<Rightarrow> Timestamp" where
  "last_update b i = (case om_find (qb_entries b) i of None \<Rightarrow> kNoTimestamp
     | Some e \<Rightarrow> en_received e)"

definition reset_quote_book :: "QuoteBook \<Rightarrow> QuoteBook" where
  "reset_quote_book b = b\<lparr>qb_entries := [], qb_stats := no_book_stats\<rparr>"

section \<open>The router\<close>

datatype PriceSource = FromQuote | SyntheticFromBar | NoSource

fun to_string_PriceSource :: "PriceSource \<Rightarrow> string" where
  "to_string_PriceSource FromQuote = ''quote''"
| "to_string_PriceSource SyntheticFromBar = ''synthetic_from_bar''"
| "to_string_PriceSource NoSource = ''none''"

record RoutedMarket =
  rt_state :: MarketState
  rt_source :: PriceSource
  rt_quote_state :: QuoteState
  rt_executable :: bool

definition default_routed :: RoutedMarket where
  "default_routed = \<lparr>rt_state = default_market_state, rt_source = NoSource,
     rt_quote_state = default_quote_state, rt_executable = False\<rparr>"

definition state_of_quote :: "Quote \<Rightarrow> MarketState" where
  "state_of_quote q = default_market_state\<lparr>ms_bid := q_bid q, ms_ask := q_ask q,
     ms_bid_size := q_bid_size q, ms_ask_size := q_ask_size q, has_quote := True,
     volume_known := False\<rparr>"

definition route :: "InstrumentId \<Rightarrow> Timestamp \<Rightarrow> QuoteBook \<Rightarrow> RoutedMarket \<times> QuoteBook" where
  "route i now b0 =
     (let (qs, b) = state_at i now b0; out = default_routed\<lparr>rt_quote_state := qs\<rparr> in
      if \<not> qs_executable qs then (out\<lparr>rt_source := NoSource, rt_executable := False\<rparr>, b)
      else (case qs_quote qs of
              None \<Rightarrow> (out, b)
            | Some q \<Rightarrow> (out\<lparr>rt_state := state_of_quote q, rt_source := FromQuote,
                             rt_executable := True\<rparr>, b)))"

definition route_from_bar :: "Bar \<Rightarrow> f64 \<Rightarrow> RoutedMarket" where
  "route_from_bar bar vol =
     default_routed\<lparr>rt_state := default_market_state\<lparr>ms_bid := bar_close bar, ms_ask := bar_close bar,
         interval_volume := bar_volume bar, intraday_volatility := vol, has_quote := False\<rparr>,
       rt_source := SyntheticFromBar, rt_executable := True\<rparr>"

definition route_preferring_quote ::
    "Bar \<Rightarrow> f64 \<Rightarrow> Timestamp \<Rightarrow> QuoteBook \<Rightarrow> RoutedMarket \<times> QuoteBook" where
  "route_preferring_quote bar vol now b0 =
     (let (quoted, b) = route (bar_instrument bar) now b0 in
      if rt_executable quoted
      then (quoted\<lparr>rt_state := (rt_state quoted)\<lparr>interval_volume := bar_volume bar,
              intraday_volatility := vol, volume_known := True\<rparr>\<rparr>, b)
      else if qs_present (rt_quote_state quoted) \<and> qs_trading_state (rt_quote_state quoted) = Halted
      then (quoted, b)
      else (route_from_bar bar vol, b))"

section \<open>Properties\<close>

text \<open>
  The router offers a quoted market exactly when the instrument is trading and its quote is
  neither from the future, nor older than the budget, nor crossed; and the state it offers is that
  quote.
\<close>

theorem route_executable_iff:
  "let (r, b') = route i now b in
   (rt_executable r \<longleftrightarrow>
      (\<exists>e q. om_find (qb_entries b) i = Some e \<and> en_present e \<and> en_quote e = Some q \<and>
         en_trading_state e = Trading \<and> en_received e \<le> now \<and> now - en_received e \<le> qb_budget b \<and>
         \<not> flt (q_ask q) (q_bid q) \<and> rt_state r = state_of_quote q)) \<and>
   rt_source r = (if rt_executable r then FromQuote else NoSource) \<and>
   qb_entries b' = qb_entries b"
proof -
  have r0: "\<not> rt_executable default_routed" "rt_source default_routed = NoSource"
    by (simp_all add: default_routed_def)
  show ?thesis
  proof (cases "om_find (qb_entries b) i")
    case None
    then show ?thesis
      by (simp add: route_def state_at_def Let_def qs_executable_def default_quote_state_def)
  next
    case (Some e)
    then show ?thesis
      by (cases "en_quote e")
        (auto simp: route_def state_at_def Let_def qs_executable_def default_quote_state_def r0
          assess_def stale_read_def halted_read_def)
  qed
qed

datatype QbOp = QbUpdate Quote | QbState InstrumentId TradingState | QbRead InstrumentId Timestamp

fun qb_exec :: "QbOp \<Rightarrow> QuoteBook \<Rightarrow> QuoteBook" where
  "qb_exec (QbUpdate q) b = snd (book_update q b)"
| "qb_exec (QbState i ts) b = set_trading_state i ts b"
| "qb_exec (QbRead i now) b = snd (state_at i now b)"

text \<open>An entry that is present holds a quote of its own instrument, stamped as received.\<close>

definition entry_ok :: "InstrumentId \<Rightarrow> QuoteEntry \<Rightarrow> bool" where
  "entry_ok i e \<longleftrightarrow> (en_present e \<longrightarrow>
     (\<exists>q. en_quote e = Some q \<and> q_instrument q = i \<and> ev_exchange (q_time q) = en_received e)) \<and>
     (\<not> en_present e \<longrightarrow> en_quote e = None \<and> en_received e = kNoTimestamp)"

definition quote_book_ok :: "QuoteBook \<Rightarrow> bool" where
  "quote_book_ok b \<longleftrightarrow> om_inv (qb_entries b) \<and> om.all_records entry_ok (qb_entries b)"

lemma entry_of_ok: "quote_book_ok b \<Longrightarrow> entry_ok i (entry_of b i)"
  by (auto simp: quote_book_ok_def entry_of_def entry_ok_def default_quote_entry_def
      om.all_records_def split: option.splits)

lemma state_at_entries [frame]: "qb_entries (snd (state_at i now b)) = qb_entries b"
  by (auto simp: state_at_def Let_def stale_read_def halted_read_def split: option.splits)

lemma book_update_entries:
  "qb_entries (snd (book_update q b)) =
     (if is_ok (fst (book_update q b))
      then om_put (q_instrument q) ((entry_of b (q_instrument q))\<lparr>en_quote := Some q,
             en_received := ev_exchange (q_time q), en_present := True\<rparr>)
             (om_put (q_instrument q) (entry_of b (q_instrument q)) (qb_entries b))
      else om_put (q_instrument q) (entry_of b (q_instrument q)) (qb_entries b))"
  by (auto simp: book_update_def Let_def)

interpretation qb: stepped qb_exec quote_book_ok
proof
  fix b i assume ok: "quote_book_ok b"
  then have inv: "om_inv (qb_entries b)" and all: "om.all_records entry_ok (qb_entries b)"
    by (simp_all add: quote_book_ok_def)
  show "quote_book_ok (qb_exec i b)"
  proof (cases i)
    case (QbUpdate q)
    have "entry_ok (q_instrument q) ((entry_of b (q_instrument q))\<lparr>en_quote := Some q,
        en_received := ev_exchange (q_time q), en_present := True\<rparr>)"
      by (simp add: entry_ok_def)
    then show ?thesis
      using inv all entry_of_ok [OF ok]
      by (auto simp: QbUpdate quote_book_ok_def book_update_entries om.all_records_put)
  next
    case (QbState k ts)
    have "entry_ok k ((entry_of b k)\<lparr>en_trading_state := ts\<rparr>)"
      using entry_of_ok [OF ok, of k] by (simp add: entry_ok_def)
    then show ?thesis
      using inv all
      by (auto simp: QbState quote_book_ok_def set_trading_state_def om.all_records_put)
  qed (use inv all in \<open>simp add: quote_book_ok_def frame\<close>)
qed

definition present_at :: "QuoteBook \<Rightarrow> InstrumentId \<Rightarrow> QuoteEntry option" where
  "present_at b k = (case om_find (qb_entries b) k of None \<Rightarrow> None
     | Some e \<Rightarrow> if en_present e then Some e else None)"

definition advances :: "QuoteBook \<Rightarrow> QuoteBook \<Rightarrow> bool" where
  "advances b b' \<longleftrightarrow> (\<forall>k e. present_at b k = Some e \<longrightarrow>
     (\<exists>e'. present_at b' k = Some e' \<and> en_received e \<le> en_received e'))"

lemma advances_refl: "advances b b"
  by (auto simp: advances_def)

lemma advances_trans: "advances a b \<Longrightarrow> advances b c \<Longrightarrow> advances a c"
  unfolding advances_def by (meson order_trans)

lemma present_entry_of: "present_at b k = Some e \<Longrightarrow> entry_of b k = e \<and> en_present e"
  by (auto simp: present_at_def entry_of_def split: option.splits if_splits)

lemma present_book_update:
  "present_at (snd (book_update q b)) k =
     (if k = q_instrument q \<and> is_ok (fst (book_update q b))
      then Some ((entry_of b k)\<lparr>en_quote := Some q, en_received := ev_exchange (q_time q),
             en_present := True\<rparr>)
      else present_at b k)"
  by (auto simp: present_at_def book_update_entries omap_simps entry_of_def default_quote_entry_def
      split: option.splits)

lemma book_update_not_back:
  "is_ok (fst (book_update q b)) \<Longrightarrow> en_present (entry_of b (q_instrument q)) \<Longrightarrow>
     en_received (entry_of b (q_instrument q)) \<le> ev_exchange (q_time q)"
  by (auto simp: book_update_def Let_def split: if_splits)

lemma qb_exec_advances: "advances b (qb_exec i b)"
proof (cases i)
  case (QbUpdate q)
  have "\<exists>e'. present_at (snd (book_update q b)) k = Some e' \<and> en_received e \<le> en_received e'"
    if "present_at b k = Some e" for k e
    using that present_entry_of [OF that] book_update_not_back [of q b]
    by (auto simp: present_book_update)
  then show ?thesis by (simp add: advances_def QbUpdate)
next
  case (QbState j ts)
  then show ?thesis
    by (auto simp: advances_def present_at_def set_trading_state_def omap_simps entry_of_def
        split: option.splits if_splits)
next
  case (QbRead j now)
  then show ?thesis by (simp add: advances_def present_at_def frame)
qed

text \<open>
  The book never goes back in time. Whatever updates, halts and reads follow, an instrument
  that has a quote keeps having one, of the same instrument and stamped no earlier.
\<close>

theorem quotes_never_go_back:
  "let b = fold qb_exec ops (make_quote_book cfg); b' = fold qb_exec later_ops b in
   case raw_quote b k of None \<Rightarrow> True
   | Some q \<Rightarrow>
      (case raw_quote b' k of None \<Rightarrow> False
       | Some q' \<Rightarrow> q_instrument q' = k \<and> ev_exchange (q_time q) \<le> ev_exchange (q_time q'))"
proof -
  define b where "b = fold qb_exec ops (make_quote_book cfg)"
  define b' where "b' = fold qb_exec later_ops b"
  have "quote_book_ok (make_quote_book cfg)"
    by (simp add: quote_book_ok_def make_quote_book_def om.all_records_empty)
  then have ok: "quote_book_ok b" and ok': "quote_book_ok b'"
    using qb.run_inv unfolding b_def b'_def qb.run_def by blast+
  have adv: "advances b b'"
    using qb.run_ascends [where R = advances, OF advances_refl advances_trans qb_exec_advances ok]
    unfolding b'_def qb.run_def .
  show ?thesis
  proof (cases "present_at b k")
    case None
    then have "raw_quote b k = None"
      by (auto simp: raw_quote_def present_at_def split: option.splits if_splits)
    then show ?thesis by (simp add: Let_def b_def)
  next
    case (Some e)
    then obtain e' where e': "present_at b' k = Some e'" "en_received e \<le> en_received e'"
      using adv by (auto simp: advances_def)
    have E: "\<exists>q. raw_quote b k = Some q \<and> q_instrument q = k \<and> ev_exchange (q_time q) = en_received e"
      if "quote_book_ok b" "present_at b k = Some e" for b e
      using that om.all_recordsD [of entry_ok "qb_entries b" k e]
      by (auto simp: raw_quote_def present_at_def quote_book_ok_def entry_ok_def
          split: option.splits if_splits)
    from E [OF ok Some] E [OF ok' e'(1)] e'(2) show ?thesis
      by (auto simp: Let_def b_def [symmetric] b'_def [symmetric])
  qed
qed

text \<open>
  Only a halt with a quote present stops the fall-back to the bar: an auction does not, nor does a
  halt that was announced before the first quote.
\<close>

lemma auction_falls_through_to_bar:
  assumes "om_find (qb_entries b) (bar_instrument bar) = Some e" "en_trading_state e = Auction \<or>
    en_trading_state e = Halted \<and> \<not> en_present e"
  shows "rt_executable (fst (route_preferring_quote bar vol now b)) \<and>
    rt_source (fst (route_preferring_quote bar vol now b)) = SyntheticFromBar"
  using assms
  by (auto simp: route_preferring_quote_def route_def state_at_def Let_def qs_executable_def
      default_quote_state_def default_routed_def route_from_bar_def)

text \<open>Two quotes with one timestamp are both accepted: the order is not strict.\<close>

lemma equal_timestamps_accepted:
  assumes "en_present (entry_of b (q_instrument q))"
    and "en_received (entry_of b (q_instrument q)) = ev_exchange (q_time q)"
    and "\<not> flt (q_ask q) (q_bid q)"
  shows "is_ok (fst (book_update q b))"
  using assms by (simp add: book_update_def Let_def)

end
