(* ===== verification/Broker.thy ===== *)
theory Broker
  imports QuoteBook Oms
begin

text \<open>
  The simulated venue (\<open>src/execution/broker.cpp\<close>), the only component that creates a fill. The
  loop of \<open>on_market\<close> walks the pending orders once; each visit is \<open>visit_order\<close>, which says whether
  the order stays, what it draws, counts and fills. A random draw may diverge, so the functions that
  draw return an option; a refusal in the middle of the loop returns the error with the state it
  leaves. The clock is the instant passed to \<open>submit\<close>.
\<close>

section \<open>State\<close>

record PendingOrder =
  po_order :: Order
  po_arrival_time :: Timestamp
  po_filled :: Qty
  po_stop_triggered :: bool

record ExecutionStats =
  orders_accepted :: nat
  orders_rejected :: nat
  st_fills :: nat
  partial_fills :: nat
  participation_capped :: nat
  displayed_size_capped :: nat
  passive_no_fill :: nat
  stops_triggered :: nat
  fok_killed :: nat
  rejected_stale_quote :: nat
  rejected_halted :: nat
  rejected_crossed :: nat
  filled_from_quote :: nat
  filled_from_bar :: nat
  total_commission :: Notional
  total_impact_cost :: Notional

definition no_stats :: ExecutionStats where
  "no_stats = \<lparr>orders_accepted = 0, orders_rejected = 0, st_fills = 0, partial_fills = 0,
     participation_capped = 0, displayed_size_capped = 0, passive_no_fill = 0, stops_triggered = 0,
     fok_killed = 0, rejected_stale_quote = 0, rejected_halted = 0, rejected_crossed = 0,
     filled_from_quote = 0, filled_from_bar = 0, total_commission = fzero,
     total_impact_cost = fzero\<rparr>"

record ExternalFillReport =
  xr_order_id :: OrderId
  xr_quantity :: Qty
  xr_price :: Price
  xr_fill_time :: Timestamp
  xr_commission :: Notional
  xr_exchange_fee :: Notional
  xr_liquidity :: Liquidity
  xr_venue_fill_id :: string

record BrokerSimulator =
  br_costs :: CostModel
  br_latency :: LatencyModel
  br_latency_rng :: DeterministicRng
  br_slippage_rng :: DeterministicRng
  br_fill_cfg :: FillConfig
  br_pending :: "PendingOrder list"
  br_stats :: ExecutionStats

definition make_broker ::
    "CostModel \<Rightarrow> LatencyModel \<Rightarrow> DeterministicRng \<Rightarrow> FillConfig \<Rightarrow> BrokerSimulator" where
  "make_broker costs latency rng cfg = \<lparr>br_costs = costs, br_latency = latency,
     br_latency_rng = fork kStreamLatency rng, br_slippage_rng = fork kStreamSlippage rng,
     br_fill_cfg = cfg, br_pending = [], br_stats = no_stats\<rparr>"

datatype broker_error = ClockUnset | DecisionInFuture | ArrivalRefused order_error | CancelUnknown
  | BadFillPrice | BadFillQuantity | FillBadChain ChainViolation | ExternalUnknownOrder OrderId
  | ExternalBadQuantity | ExternalBadPrice | ExternalOverfill Qty Qty | ExternalBadChain ChainViolation

section \<open>Accepting and cancelling\<close>

definition count_rejected :: "BrokerSimulator \<Rightarrow> BrokerSimulator" where
  "count_rejected b = b\<lparr>br_stats := (br_stats b)\<lparr>orders_rejected := orders_rejected (br_stats b) + 1\<rparr>\<rparr>"

definition broker_submit ::
    "Timestamp \<Rightarrow> Order \<Rightarrow> BrokerSimulator \<Rightarrow> ((broker_error, Timestamp) result \<times> BrokerSimulator) option" where
  "broker_submit now o1 b =
     (if \<not> is_set now then Some (Err ClockUnset, b)
      else if now < decision_time (ord_times o1) then Some (Err DecisionInFuture, count_rejected b)
      else (case lm_decision_to_arrival (br_latency b) (br_latency_rng b) of
          None \<Rightarrow> None
        | Some (flight, rng) \<Rightarrow>
            (let b1 = b\<lparr>br_latency_rng := rng\<rparr>;
                 effective = (if 0 < flight then flight else 1);
                 arrival = now + effective in
             case with_arrival arrival o1 of
               Inl e \<Rightarrow> Some (Err (ArrivalRefused e), count_rejected b1)
             | Inr stamped \<Rightarrow>
                 Some (Ok arrival,
                   b1\<lparr>br_pending := br_pending b1 @ [\<lparr>po_order = stamped, po_arrival_time = arrival,
                        po_filled = fzero, po_stop_triggered = False\<rparr>],
                      br_stats := (br_stats b1)\<lparr>orders_accepted := orders_accepted (br_stats b1) + 1\<rparr>\<rparr>))))"

text \<open>Erase the first element a test accepts, as \<open>erase(find_if(...))\<close>.\<close>

fun erase_first :: "('a \<Rightarrow> bool) \<Rightarrow> 'a list \<Rightarrow> 'a list" where
  "erase_first P [] = []"
| "erase_first P (x # xs) = (if P x then xs else x # erase_first P xs)"

fun update_first :: "('a \<Rightarrow> bool) \<Rightarrow> ('a \<Rightarrow> 'a) \<Rightarrow> 'a list \<Rightarrow> 'a list" where
  "update_first P g [] = []"
| "update_first P g (x # xs) = (if P x then g x # xs else x # update_first P g xs)"

definition is_order :: "OrderId \<Rightarrow> PendingOrder \<Rightarrow> bool" where
  "is_order oid p \<longleftrightarrow> ord_id (po_order p) = oid"

definition broker_cancel :: "OrderId \<Rightarrow> BrokerSimulator \<Rightarrow> (broker_error, bool) result \<times> BrokerSimulator" where
  "broker_cancel oid b =
     (case List.find (is_order oid) (br_pending b) of
        None \<Rightarrow> (Err CancelUnknown, b)
      | Some p \<Rightarrow> (Ok True, b\<lparr>br_pending := erase_first (is_order oid) (br_pending b)\<rparr>))"

section \<open>Making fills\<close>

definition fill_of :: "Order \<Rightarrow> Price \<Rightarrow> Qty \<Rightarrow> Timestamp \<Rightarrow> Notional \<Rightarrow> Notional \<Rightarrow> Liquidity \<Rightarrow> Fill" where
  "fill_of o1 price qty ts comm fee liq =
     \<lparr>f_order_id = ord_id o1, f_parent_id = ord_parent o1, f_instrument = ord_instrument o1,
      f_side = ord_side o1, f_price = price, f_quantity = qty, f_commission = comm,
      f_exchange_fee = fee, f_liquidity = liq, f_times = (ord_times o1)\<lparr>fill_time := ts\<rparr>,
      f_arrival_price = (if flt fzero (ord_arrival_price o1) then ord_arrival_price o1 else price)\<rparr>"

definition make_fill ::
    "CostModel \<Rightarrow> Order \<Rightarrow> Price \<Rightarrow> Qty \<Rightarrow> Timestamp \<Rightarrow> Liquidity \<Rightarrow> ExecutionStats
      \<Rightarrow> (broker_error, Fill) result \<times> ExecutionStats" where
  "make_fill costs o1 price qty now liq st =
     (if \<not> is_finite price \<or> fle price fzero then (Err BadFillPrice, st)
      else if \<not> is_finite qty \<or> fle qty fzero then (Err BadFillQuantity, st)
      else
        (let f = fill_of o1 price qty now (cm_commission costs qty price) fzero liq in
         case validate_chain (f_times f) of
           Some v \<Rightarrow> (Err (FillBadChain v), st)
         | None \<Rightarrow> (Ok f, st\<lparr>total_commission := fadd (total_commission st) (f_commission f)\<rparr>)))"

definition ingest_external_fill ::
    "ExternalFillReport \<Rightarrow> BrokerSimulator \<Rightarrow> (broker_error, Fill) result \<times> BrokerSimulator" where
  "ingest_external_fill r b =
     (case List.find (is_order (xr_order_id r)) (br_pending b) of
        None \<Rightarrow> (Err (ExternalUnknownOrder (xr_order_id r)), b)
      | Some p \<Rightarrow>
          (let o1 = po_order p in
           if \<not> flt fzero (xr_quantity r) \<or> \<not> is_finite (xr_quantity r) then (Err ExternalBadQuantity, b)
           else if \<not> flt fzero (xr_price r) \<or> \<not> is_finite (xr_price r) then (Err ExternalBadPrice, b)
           else
             (let left = fsub (ord_quantity o1) (po_filled p) in
              if flt (fadd left (lit (1 / 10 ^ 9))) (xr_quantity r)
              then (Err (ExternalOverfill (xr_quantity r) left), b)
              else
                (let f = fill_of o1 (xr_price r) (xr_quantity r) (xr_fill_time r) (xr_commission r)
                       (xr_exchange_fee r) (xr_liquidity r) in
                 case validate_chain (f_times f) of
                   Some v \<Rightarrow> (Err (ExternalBadChain v), b)
                 | None \<Rightarrow>
                    (let filled = fadd (po_filled p) (xr_quantity r);
                         pending =
                           (if fle (fsub (ord_quantity o1) (lit (1 / 10 ^ 9))) filled
                            then erase_first (is_order (xr_order_id r)) (br_pending b)
                            else update_first (is_order (xr_order_id r))
                              (\<lambda>p. p\<lparr>po_filled := filled\<rparr>) (br_pending b));
                         st = br_stats b in
                     (Ok f, b\<lparr>br_pending := pending,
                        br_stats := st\<lparr>total_commission := fadd (total_commission st) (f_commission f),
                                       st_fills := st_fills st + 1\<rparr>\<rparr>))))))"

section \<open>One visit of the market loop\<close>

record Sweep =
  sw_budget :: f64
  sw_rng :: DeterministicRng
  sw_stats :: ExecutionStats
  sw_fills :: "Fill list"

definition is_stop :: "Order \<Rightarrow> bool" where
  "is_stop o1 \<longleftrightarrow> ord_type o1 = Stop \<or> ord_type o1 = StopLimit"

text \<open>A stop order always carries its stop price (\<open>order_valid\<close>); without one it stays dormant.\<close>

definition stop_hit :: "Order \<Rightarrow> Price \<Rightarrow> bool" where
  "stop_hit o1 touch_price =
     (case ord_stop_price o1 of None \<Rightarrow> False
      | Some stop \<Rightarrow> if ord_side o1 = Buy then fle stop touch_price else fle touch_price stop)"

text \<open>How much of \<open>want\<close> the displayed size allows: nothing when a quote shows no size.\<close>

definition displayed_allows ::
    "FillConfig \<Rightarrow> MarketState \<Rightarrow> Side \<Rightarrow> Qty \<Rightarrow> ExecutionStats \<Rightarrow> Qty option \<times> ExecutionStats" where
  "displayed_allows cfg s side want st =
     (if has_quote s then
        (let displayed = (if side = Buy then ms_ask_size s else ms_bid_size s) in
         if flt fzero displayed then
           (if respect_displayed_size cfg \<and> flt displayed want
            then (Some displayed, st\<lparr>displayed_size_capped := displayed_size_capped st + 1\<rparr>)
            else (Some want, st))
         else if respect_displayed_size cfg then (None, st)
         else (Some want, st))
      else (Some want, st))"

definition participation_allows ::
    "MarketState \<Rightarrow> f64 \<Rightarrow> Qty \<Rightarrow> ExecutionStats \<Rightarrow> Qty option \<times> ExecutionStats" where
  "participation_allows s budget allowed st =
     (if flt fzero budget \<and> flt budget allowed
      then (Some budget, st\<lparr>participation_capped := participation_capped st + 1\<rparr>)
      else if volume_known s \<and> fle (interval_volume s) fzero then (None, st)
      else (Some allowed, st))"

definition allowed_quantity ::
    "FillConfig \<Rightarrow> MarketState \<Rightarrow> Side \<Rightarrow> f64 \<Rightarrow> Qty \<Rightarrow> ExecutionStats \<Rightarrow> Qty option \<times> ExecutionStats" where
  "allowed_quantity cfg s side budget want st =
     (case displayed_allows cfg s side want st of
        (None, st1) \<Rightarrow> (None, st1)
      | (Some a, st1) \<Rightarrow>
          (case participation_allows s budget a st1 of
             (None, st2) \<Rightarrow> (None, st2)
           | (Some a2, st2) \<Rightarrow> if fle a2 fzero then (None, st2) else (Some a2, st2)))"

definition execution_price ::
    "CostModel \<Rightarrow> MarketState \<Rightarrow> Side \<Rightarrow> Price \<Rightarrow> Qty \<Rightarrow> Bps \<Rightarrow> Price" where
  "execution_price costs s side reference qty slip =
     (let half = (if has_quote s then fzero else cm_half_spread costs s);
          impact = cm_market_impact costs qty s;
          total = fadd (fadd half impact) slip in
      apply_bps reference total (sign_of side))"

text \<open>The result of a visit: an error that ends the sweep, the order if it stays, and the sweep.\<close>

type_synonym visit_result = "broker_error option \<times> PendingOrder option \<times> Sweep"

definition execute_order ::
    "CostModel \<Rightarrow> MarketState \<Rightarrow> Timestamp \<Rightarrow> Price \<Rightarrow> Qty \<Rightarrow> PendingOrder \<Rightarrow> Sweep \<Rightarrow> visit_result option" where
  "execute_order costs s now reference allowed p sw =
     (case cm_stochastic_slippage costs (sw_rng sw) of
        None \<Rightarrow> None
      | Some (slip, rng) \<Rightarrow>
          (let o1 = po_order p;
               sw1 = sw\<lparr>sw_rng := rng\<rparr>;
               price = execution_price costs s (ord_side o1) reference allowed slip in
           case make_fill costs o1 price allowed now Taker (sw_stats sw1) of
             (Inl e, st) \<Rightarrow> Some (Some e, Some p, sw1\<lparr>sw_stats := st\<rparr>)
           | (Inr f, st) \<Rightarrow>
              (let st1 = (if has_quote s then st\<lparr>filled_from_quote := filled_from_quote st + 1\<rparr>
                          else st\<lparr>filled_from_bar := filled_from_bar st + 1\<rparr>);
                   st2 = st1\<lparr>total_impact_cost := fadd (total_impact_cost st1)
                           (fmul (fmul (fmul (cm_market_impact costs allowed s) (lit (1 / 10 ^ 4)))
                             reference) allowed),
                         st_fills := st_fills st1 + 1\<rparr>;
                   p1 = p\<lparr>po_filled := fadd (po_filled p) allowed\<rparr>;
                   sw2 = sw1\<lparr>sw_stats := st2,
                             sw_budget := fmax fzero (fsub (sw_budget sw1) allowed),
                             sw_fills := sw_fills sw1 @ [f]\<rparr> in
               if fle (ord_quantity o1) (fadd (po_filled p1) (lit (1 / 10 ^ 9)))
               then Some (None, None, sw2)
               else
                 (let sw3 = sw2\<lparr>sw_stats := (sw_stats sw2)\<lparr>partial_fills :=
                              partial_fills (sw_stats sw2) + 1\<rparr>\<rparr> in
                  if ord_tif o1 = ImmediateOrCancel then Some (None, None, sw3)
                  else Some (None, Some p1, sw3)))))"

definition attempt_order ::
    "CostModel \<Rightarrow> FillConfig \<Rightarrow> MarketState \<Rightarrow> Timestamp \<Rightarrow> Price \<Rightarrow> PendingOrder \<Rightarrow> Sweep
      \<Rightarrow> visit_result option" where
  "attempt_order costs cfg s now touch_price p sw =
     (let o1 = po_order p; st = sw_stats sw in
      if \<not> is_marketable_against o1 touch_price
      then Some (None, Some p, sw\<lparr>sw_stats := st\<lparr>passive_no_fill := passive_no_fill st + 1\<rparr>\<rparr>)
      else
        (let want = fsub (ord_quantity o1) (po_filled p) in
         if fle want fzero then Some (None, None, sw)
         else (case allowed_quantity cfg s (ord_side o1) (sw_budget sw) want st of
             (None, st1) \<Rightarrow> Some (None, Some p, sw\<lparr>sw_stats := st1\<rparr>)
           | (Some allowed, st1) \<Rightarrow>
               if ord_tif o1 = FillOrKill \<and> flt (fadd allowed (lit (1 / 10 ^ 9))) want
               then Some (None, None, sw\<lparr>sw_stats := st1\<lparr>fok_killed := fok_killed st1 + 1\<rparr>\<rparr>)
               else execute_order costs s now touch_price allowed p (sw\<lparr>sw_stats := st1\<rparr>))))"

definition visit_order ::
    "CostModel \<Rightarrow> FillConfig \<Rightarrow> InstrumentId \<Rightarrow> MarketState \<Rightarrow> Timestamp \<Rightarrow> PendingOrder \<Rightarrow> Sweep
      \<Rightarrow> visit_result option" where
  "visit_order costs cfg i s now p sw =
     (let o1 = po_order p in
      if ord_instrument o1 \<noteq> i then Some (None, Some p, sw)
      else if now < po_arrival_time p then Some (None, Some p, sw)
      else
        (let touch_price = (if has_quote s then touch s (ord_side o1) else ms_bid s) in
         if is_stop o1 \<and> \<not> po_stop_triggered p then
           (if \<not> stop_hit o1 touch_price then Some (None, Some p, sw)
            else attempt_order costs cfg s now touch_price (p\<lparr>po_stop_triggered := True\<rparr>)
              (sw\<lparr>sw_stats := (sw_stats sw)\<lparr>stops_triggered := stops_triggered (sw_stats sw) + 1\<rparr>\<rparr>))
         else attempt_order costs cfg s now touch_price p sw))"

fun sweep_orders ::
    "CostModel \<Rightarrow> FillConfig \<Rightarrow> InstrumentId \<Rightarrow> MarketState \<Rightarrow> Timestamp \<Rightarrow> PendingOrder list \<Rightarrow> Sweep
      \<Rightarrow> (broker_error option \<times> PendingOrder list \<times> Sweep) option" where
  "sweep_orders costs cfg i s now [] sw = Some (None, [], sw)"
| "sweep_orders costs cfg i s now (p # ps) sw =
     (case visit_order costs cfg i s now p sw of
        None \<Rightarrow> None
      | Some (Some e, kept, sw1) \<Rightarrow> Some (Some e, (case kept of None \<Rightarrow> ps | Some p1 \<Rightarrow> p1 # ps), sw1)
      | Some (None, kept, sw1) \<Rightarrow>
          (case sweep_orders costs cfg i s now ps sw1 of
             None \<Rightarrow> None
           | Some (e, ps1, sw2) \<Rightarrow> Some (e, (case kept of None \<Rightarrow> ps1 | Some p1 \<Rightarrow> p1 # ps1), sw2)))"

definition on_market ::
    "InstrumentId \<Rightarrow> MarketState \<Rightarrow> Timestamp \<Rightarrow> BrokerSimulator
      \<Rightarrow> ((broker_error, Fill list) result \<times> BrokerSimulator) option" where
  "on_market i s now b =
     (let sw = \<lparr>sw_budget = fmul (interval_volume s) (max_participation_rate (br_fill_cfg b)),
                sw_rng = br_slippage_rng b, sw_stats = br_stats b, sw_fills = []\<rparr> in
      case sweep_orders (br_costs b) (br_fill_cfg b) i s now (br_pending b) sw of
        None \<Rightarrow> None
      | Some (e, ps, sw1) \<Rightarrow>
          (let b1 = b\<lparr>br_pending := ps, br_slippage_rng := sw_rng sw1, br_stats := sw_stats sw1\<rparr> in
           case e of Some err \<Rightarrow> Some (Err err, b1) | None \<Rightarrow> Some (Ok (sw_fills sw1), b1)))"

definition on_quote_update ::
    "InstrumentId \<Rightarrow> RoutedMarket \<Rightarrow> Timestamp \<Rightarrow> BrokerSimulator
      \<Rightarrow> ((broker_error, Fill list) result \<times> BrokerSimulator) option" where
  "on_quote_update i r now b =
     (if \<not> rt_executable r then
        (let st = br_stats b;
             st1 = (case qs_condition (rt_quote_state r) of
                 Stale \<Rightarrow> st\<lparr>rejected_stale_quote := rejected_stale_quote st + 1\<rparr>
               | Crossed \<Rightarrow> st\<lparr>rejected_crossed := rejected_crossed st + 1\<rparr>
               | _ \<Rightarrow> st);
             st2 = (if qs_trading_state (rt_quote_state r) = Halted
                    then st1\<lparr>rejected_halted := rejected_halted st1 + 1\<rparr> else st1) in
         Some (Ok [], b\<lparr>br_stats := st2\<rparr>))
      else on_market i (rt_state r) now b)"

definition broker_reset :: "BrokerSimulator \<Rightarrow> BrokerSimulator" where
  "broker_reset b = b\<lparr>br_pending := [], br_stats := no_stats\<rparr>"

section \<open>What every fill of a sweep satisfies\<close>

definition touch_for :: "MarketState \<Rightarrow> Side \<Rightarrow> Price" where
  "touch_for s side = (if has_quote s then touch s side else ms_bid s)"

definition remaining_of :: "PendingOrder \<Rightarrow> Qty" where
  "remaining_of p = fsub (ord_quantity (po_order p)) (po_filled p)"

text \<open>
  The conditions under which the loop fills a pending order: it is for this instrument and has
  arrived, its stop has been hit and its limit allows the touch, and the quantity is the one the
  size, participation and fill-or-kill rules leave.
\<close>

definition may_fill :: "FillConfig \<Rightarrow> InstrumentId \<Rightarrow> MarketState \<Rightarrow> Timestamp \<Rightarrow> PendingOrder \<Rightarrow> Qty \<Rightarrow> bool" where
  "may_fill cfg i s now p qty \<longleftrightarrow>
     (let o1 = po_order p; tp = touch_for s (ord_side o1) in
      ord_instrument o1 = i \<and> po_arrival_time p \<le> now \<and> is_marketable_against o1 tp \<and>
      (is_stop o1 \<longrightarrow> po_stop_triggered p \<or> stop_hit o1 tp) \<and> \<not> fle (remaining_of p) fzero \<and>
      (\<exists>budget st st'. allowed_quantity cfg s (ord_side o1) budget (remaining_of p) st = (Some qty, st')) \<and>
      (ord_tif o1 = FillOrKill \<longrightarrow> \<not> flt (fadd qty (lit (1 / 10 ^ 9))) (remaining_of p)))"

definition priced :: "CostModel \<Rightarrow> MarketState \<Rightarrow> Timestamp \<Rightarrow> PendingOrder \<Rightarrow> Fill \<Rightarrow> bool" where
  "priced costs s now p f \<longleftrightarrow>
     (\<exists>slip r r'. cm_stochastic_slippage costs r = Some (slip, r') \<and>
        f_price f = execution_price costs s (ord_side (po_order p))
          (touch_for s (ord_side (po_order p))) (f_quantity f) slip) \<and>
     fin (f_price f) \<and> 0 < val (f_price f) \<and> fin (f_quantity f) \<and> 0 < val (f_quantity f) \<and>
     f = fill_of (po_order p) (f_price f) (f_quantity f) now (f_commission f) fzero Taker \<and>
     validate_chain (f_times f) = None"

definition good_fill ::
    "CostModel \<Rightarrow> FillConfig \<Rightarrow> InstrumentId \<Rightarrow> MarketState \<Rightarrow> Timestamp \<Rightarrow> PendingOrder \<Rightarrow> Fill \<Rightarrow> bool" where
  "good_fill costs cfg i s now p f \<longleftrightarrow>
     may_fill cfg i s now p (f_quantity f) \<and> priced costs s now p f"

lemma make_fill_Ok:
  "make_fill costs o1 price qty now liq st = (Ok f, st') \<Longrightarrow>
     f = fill_of o1 price qty now (f_commission f) fzero liq \<and> f_price f = price \<and> f_quantity f = qty \<and>
     fin price \<and> 0 < val price \<and> fin qty \<and> 0 < val qty \<and> validate_chain (f_times f) = None"
  by (auto simp: make_fill_def Let_def fill_of_def f64_sem split: if_splits option.splits)

text \<open>What a visit does to the sweep's fills and to the order it visits.\<close>

definition visit_ok ::
    "(Fill \<Rightarrow> bool) \<Rightarrow> PendingOrder \<Rightarrow> Sweep \<Rightarrow> visit_result \<Rightarrow> bool" where
  "visit_ok G p sw res \<longleftrightarrow>
     (let (e, kept, sw') = res in
      (sw_fills sw' = sw_fills sw \<or> (\<exists>f. sw_fills sw' = sw_fills sw @ [f] \<and> G f)) \<and>
      (case kept of None \<Rightarrow> True
       | Some p1 \<Rightarrow> po_order p1 = po_order p \<and> po_arrival_time p1 = po_arrival_time p))"

lemma execute_order_visit:
  assumes "execute_order costs s now reference allowed p sw = Some res"
    and "reference = touch_for s (ord_side (po_order p))"
  shows "visit_ok (\<lambda>f. priced costs s now p f \<and> f_quantity f = allowed) p sw res"
proof -
  obtain slip rng where r: "cm_stochastic_slippage costs (sw_rng sw) = Some (slip, rng)"
    using assms(1) by (auto simp: execute_order_def split: option.splits)
  define price where "price = execution_price costs s (ord_side (po_order p)) reference allowed slip"
  obtain mf st where mf: "make_fill costs (po_order p) price allowed now Taker (sw_stats sw) = (mf, st)"
    by fastforce
  show ?thesis
  proof (cases mf)
    case (Inl e)
    then show ?thesis
      using assms(1) r mf by (auto simp: execute_order_def Let_def visit_ok_def price_def)
  next
    case (Inr f)
    note M = make_fill_Ok [OF mf [unfolded Inr]]
    have q: "f_quantity f = allowed" "f_price f = price" using M by blast+
    have "\<exists>slip r r'. cm_stochastic_slippage costs r = Some (slip, r') \<and>
        price = execution_price costs s (ord_side (po_order p))
          (touch_for s (ord_side (po_order p))) allowed slip"
      using r assms(2) unfolding price_def by blast
    then have "priced costs s now p f \<and> f_quantity f = allowed"
      using M unfolding priced_def q by blast
    then show ?thesis
      using assms(1) r mf Inr
      by (auto simp: execute_order_def Let_def visit_ok_def price_def split: if_splits)
  qed
qed

lemma visit_ok_mono: "visit_ok G p sw res \<Longrightarrow> (\<And>f. G f \<Longrightarrow> H f) \<Longrightarrow> visit_ok H p sw res"
  by (auto simp: visit_ok_def)

lemma visit_ok_stats [simp]: "visit_ok G p (sw\<lparr>sw_stats := st\<rparr>) res = visit_ok G p sw res"
  by (simp add: visit_ok_def)

lemma visit_ok_triggered [simp]: "visit_ok G (p\<lparr>po_stop_triggered := t\<rparr>) sw res = visit_ok G p sw res"
  by (cases res) (simp add: visit_ok_def split: option.splits)

lemma attempt_order_visit:
  assumes "attempt_order costs cfg s now tp p sw = Some res"
    and "tp = touch_for s (ord_side (po_order p))" "ord_instrument (po_order p) = i"
      "po_arrival_time p \<le> now" "is_stop (po_order p) \<longrightarrow> po_stop_triggered p"
  shows "visit_ok (good_fill costs cfg i s now p) p sw res"
proof (cases "\<not> is_marketable_against (po_order p) tp \<or> fle (remaining_of p) fzero")
  case True
  then show ?thesis
    using assms(1) by (auto simp: attempt_order_def Let_def visit_ok_def remaining_of_def split: if_splits)
next
  case False
  obtain al st1 where al: "allowed_quantity cfg s (ord_side (po_order p)) (sw_budget sw)
      (remaining_of p) (sw_stats sw) = (al, st1)" by fastforce
  show ?thesis
  proof (cases al)
    case None
    then show ?thesis
      using assms(1) False al
      by (auto simp: attempt_order_def Let_def visit_ok_def remaining_of_def split: if_splits)
  next
    case (Some a)
    show ?thesis
    proof (cases "ord_tif (po_order p) = FillOrKill \<and> flt (fadd a (lit (1 / 10 ^ 9))) (remaining_of p)")
      case True
      then show ?thesis
        using assms(1) False al Some
        by (auto simp: attempt_order_def Let_def visit_ok_def remaining_of_def split: if_splits)
    next
      case fok: False
      have "execute_order costs s now tp a p (sw\<lparr>sw_stats := st1\<rparr>) = Some res"
        using assms(1) False al Some fok
        by (simp add: attempt_order_def Let_def remaining_of_def split: if_splits)
      from execute_order_visit [OF this assms(2)]
      have "visit_ok (\<lambda>f. priced costs s now p f \<and> f_quantity f = a) p sw res" by simp
      moreover have "may_fill cfg i s now p a"
        unfolding may_fill_def Let_def using assms(2-5) False fok al Some by auto
      ultimately show ?thesis by (auto simp: good_fill_def elim: visit_ok_mono)
    qed
  qed
qed

lemma good_fill_triggered:
  "stop_hit (po_order p) (touch_for s (ord_side (po_order p))) \<Longrightarrow>
     good_fill costs cfg i s now (p\<lparr>po_stop_triggered := True\<rparr>) f \<Longrightarrow> good_fill costs cfg i s now p f"
  by (auto simp: good_fill_def may_fill_def priced_def remaining_of_def Let_def)

lemma visit_order_visit:
  assumes "visit_order costs cfg i s now p sw = Some res"
  shows "visit_ok (good_fill costs cfg i s now p) p sw res"
proof -
  let ?tp = "touch_for s (ord_side (po_order p))"
  consider (skip) "ord_instrument (po_order p) \<noteq> i \<or> now < po_arrival_time p \<or>
      is_stop (po_order p) \<and> \<not> po_stop_triggered p \<and> \<not> stop_hit (po_order p) ?tp"
    | (hit) "ord_instrument (po_order p) = i" "po_arrival_time p \<le> now"
      "is_stop (po_order p) \<and> \<not> po_stop_triggered p" "stop_hit (po_order p) ?tp"
    | (live) "ord_instrument (po_order p) = i" "po_arrival_time p \<le> now"
      "is_stop (po_order p) \<longrightarrow> po_stop_triggered p"
    by linarith
  then show ?thesis
  proof cases
    case skip
    then show ?thesis
      using assms by (auto simp: visit_order_def visit_ok_def Let_def touch_for_def split: if_splits)
  next
    case hit
    let ?p = "p\<lparr>po_stop_triggered := True\<rparr>"
    let ?sw = "sw\<lparr>sw_stats := (sw_stats sw)\<lparr>stops_triggered := stops_triggered (sw_stats sw) + 1\<rparr>\<rparr>"
    have "attempt_order costs cfg s now ?tp ?p ?sw = Some res"
      using assms hit by (simp add: visit_order_def Let_def touch_for_def)
    from attempt_order_visit [OF this, of i] hit
    have "visit_ok (good_fill costs cfg i s now ?p) p sw res" by simp
    then show ?thesis by (rule visit_ok_mono) (rule good_fill_triggered [OF hit(4)])
  next
    case live
    have "attempt_order costs cfg s now ?tp p sw = Some res"
      using assms live by (auto simp: visit_order_def Let_def touch_for_def)
    from attempt_order_visit [OF this, of i] live show ?thesis by simp
  qed
qed

lemma sweep_orders_fills:
  assumes "sweep_orders costs cfg i s now ps sw = Some (e, ps', sw')"
  shows "(\<forall>f \<in> set (sw_fills sw'). f \<in> set (sw_fills sw) \<or>
      (\<exists>p \<in> set ps. good_fill costs cfg i s now p f)) \<and>
    (\<forall>p1 \<in> set ps'. \<exists>p \<in> set ps. po_order p1 = po_order p \<and> po_arrival_time p1 = po_arrival_time p)"
  using assms
proof (induction ps arbitrary: sw e ps')
  case (Cons p ps)
  obtain e1 kept sw1 where v: "visit_order costs cfg i s now p sw = Some (e1, kept, sw1)"
    using Cons.prems by (auto split: option.splits)
  note ok = visit_order_visit [OF v, unfolded visit_ok_def Let_def prod.case]
  show ?case
  proof (cases e1)
    case (Some err)
    then show ?thesis using Cons.prems v ok by (auto split: option.splits)
  next
    case None
    obtain ps1 where s: "sweep_orders costs cfg i s now ps sw1 = Some (e, ps1, sw')"
      and ps': "ps' = (case kept of None \<Rightarrow> ps1 | Some p1 \<Rightarrow> p1 # ps1)"
      using Cons.prems v None by (auto split: option.splits)
    from Cons.IH [OF s] ok show ?thesis by (auto simp: ps' split: option.splits)
  qed
qed simp

lemma on_market_fills:
  assumes "on_market i s now b = Some (Ok fs, b')" and "f \<in> set fs"
  shows "\<exists>p \<in> set (br_pending b). good_fill (br_costs b) (br_fill_cfg b) i s now p f"
proof -
  obtain ps sw1 where "sweep_orders (br_costs b) (br_fill_cfg b) i s now (br_pending b)
      \<lparr>sw_budget = fmul (interval_volume s) (max_participation_rate (br_fill_cfg b)),
       sw_rng = br_slippage_rng b, sw_stats = br_stats b, sw_fills = []\<rparr> = Some (None, ps, sw1)"
    and "fs = sw_fills sw1"
    using assms(1) by (auto simp: on_market_def Let_def split: option.splits)
  then show ?thesis using sweep_orders_fills assms(2) by fastforce
qed

section \<open>The venue as a machine\<close>

text \<open>
  One step of the venue. An order is one the factory made; the clock of a submission is a 64-bit
  instant. A call whose random draw diverges makes no step.
\<close>

inductive br_step :: "BrokerSimulator \<Rightarrow> BrokerSimulator \<Rightarrow> bool" where
  submit: "order_valid o1 \<Longrightarrow> kNoTimestamp \<le> now \<Longrightarrow> broker_submit now o1 b = Some (r, b') \<Longrightarrow> br_step b b'"
| cancel: "br_step b (snd (broker_cancel oid b))"
| market: "on_market i s now b = Some (r, b') \<Longrightarrow> br_step b b'"
| quote: "on_quote_update i rt now b = Some (r, b') \<Longrightarrow> br_step b b'"
| external: "br_step b (snd (ingest_external_fill xr b))"
| reset: "br_step b (broker_reset b)"

inductive br_run :: "BrokerSimulator \<Rightarrow> BrokerSimulator \<Rightarrow> bool" where
  refl: "br_run b b"
| trans: "br_run b b1 \<Longrightarrow> br_step b1 b2 \<Longrightarrow> br_run b b2"

definition pending_ok :: "PendingOrder \<Rightarrow> bool" where
  "pending_ok p \<longleftrightarrow> order_valid (po_order p) \<and> is_set (po_arrival_time p) \<and>
     arrival_time (ord_times (po_order p)) = po_arrival_time p \<and>
     decision_time (ord_times (po_order p)) < po_arrival_time p"

definition broker_ok :: "BrokerSimulator \<Rightarrow> bool" where
  "broker_ok b \<longleftrightarrow> (\<forall>p \<in> set (br_pending b). pending_ok p)"

lemma pending_ok_same: "po_order p1 = po_order p \<Longrightarrow> po_arrival_time p1 = po_arrival_time p \<Longrightarrow>
    pending_ok p \<Longrightarrow> pending_ok p1"
  by (simp add: pending_ok_def)

lemma set_erase_first: "set (erase_first P xs) \<subseteq> set xs"
  by (induction xs) auto

lemma set_update_first: "y \<in> set (update_first P g xs) \<Longrightarrow> y \<in> set xs \<or> (\<exists>x \<in> set xs. y = g x)"
  by (induction xs) (auto split: if_splits)

text \<open>What an accepted submission stores.\<close>

lemma broker_submit_Ok:
  assumes "broker_submit now o1 b = Some (Ok a, b')"
  shows "\<exists>o2 flight rng. lm_decision_to_arrival (br_latency b) (br_latency_rng b) = Some (flight, rng) \<and>
    a = now + max 1 flight \<and> with_arrival a o1 = Ok o2 \<and> is_set now \<and>
    decision_time (ord_times o1) \<le> now \<and>
    br_pending b' = br_pending b @ [\<lparr>po_order = o2, po_arrival_time = a, po_filled = fzero,
      po_stop_triggered = False\<rparr>]"
proof -
  obtain flight rng where fl: "lm_decision_to_arrival (br_latency b) (br_latency_rng b) = Some (flight, rng)"
    and now: "is_set now" "decision_time (ord_times o1) \<le> now"
    using assms by (auto simp: broker_submit_def split: if_splits option.splits)
  have "(if 0 < flight then flight else 1) = max 1 flight" by auto
  then show ?thesis
    using assms fl now by (auto simp: broker_submit_def Let_def split: sum.splits)
qed

lemma broker_submit_pending:
  assumes "broker_submit now o1 b = Some (r, b')" "order_valid o1" "kNoTimestamp \<le> now"
  shows "br_pending b' = br_pending b \<or>
    (\<exists>p. br_pending b' = br_pending b @ [p] \<and> pending_ok p)"
proof (cases r)
  case (Inl e)
  then show ?thesis
    using assms(1)
    by (auto simp: broker_submit_def count_rejected_def Let_def split: if_splits option.splits sum.splits)
next
  case (Inr a)
  from broker_submit_Ok [OF assms(1) [unfolded Inr]] obtain o2 flight rng where
    a: "a = now + max 1 flight" and o2: "with_arrival a o1 = Ok o2" and now: "is_set now"
    and d: "decision_time (ord_times o1) \<le> now"
    and b': "br_pending b' = br_pending b @ [\<lparr>po_order = o2, po_arrival_time = a, po_filled = fzero,
      po_stop_triggered = False\<rparr>]" by blast
  have "is_set a" using a assms(3) by (simp add: is_set_def)
  then have "pending_ok \<lparr>po_order = o2, po_arrival_time = a, po_filled = fzero,
      po_stop_triggered = False\<rparr>"
    using with_arrival_frame [OF o2] with_arrival_valid [OF assms(2) o2] a d
    by (simp add: pending_ok_def)
  with b' show ?thesis by blast
qed

lemma on_market_pending:
  "on_market i s now b = Some (r, b') \<Longrightarrow> broker_ok b \<Longrightarrow> broker_ok b'"
  by (auto simp: on_market_def Let_def broker_ok_def split: option.splits
      dest!: sweep_orders_fills) (metis pending_ok_same)+

lemma broker_step_ok: "br_step b b' \<Longrightarrow> broker_ok b \<Longrightarrow> broker_ok b'"
proof (induction rule: br_step.induct)
  case (submit o1 now b r b')
  then show ?case using broker_submit_pending [OF submit(3,1,2)] by (auto simp: broker_ok_def)
next
  case (cancel b oid)
  then show ?case
    using set_erase_first [of "is_order oid" "br_pending b"]
    by (auto simp: broker_cancel_def broker_ok_def split: option.splits)
next
  case (market i s now b r b')
  then show ?case using on_market_pending by blast
next
  case (quote i rt now b r b')
  then show ?case
    using on_market_pending [of i "rt_state rt" now b r b']
    by (auto simp: on_quote_update_def broker_ok_def Let_def split: if_splits)
next
  case (external b xr)
  have "pending_ok p1" if "p1 \<in> set (br_pending (snd (ingest_external_fill xr b)))" for p1
    using that external set_erase_first [of "is_order (xr_order_id xr)" "br_pending b"]
    by (auto simp: ingest_external_fill_def Let_def broker_ok_def
        split: option.splits if_splits dest!: set_update_first intro: pending_ok_same [rotated 2])
  then show ?case by (simp add: broker_ok_def)
qed (simp add: broker_reset_def broker_ok_def)

lemma broker_run_ok: "br_run b b' \<Longrightarrow> broker_ok b \<Longrightarrow> broker_ok b'"
  by (induction rule: br_run.induct) (auto intro: broker_step_ok)

lemma broker_ok_new [simp]: "broker_ok (make_broker costs latency rng cfg)"
  by (simp add: broker_ok_def make_broker_def)

section \<open>Properties\<close>

text \<open>
  C2: no order executes on the data that produced it. In every state of the venue, each fill of a
  market update belongs to a pending order that arrived no later than the update and was decided
  strictly before it; the fill carries the update's instant and a valid timestamp chain.
\<close>

theorem fills_respect_latency:
  assumes "br_run (make_broker costs latency rng cfg) b"
    and "on_market i s now b = Some (Ok fs, b')" and "f \<in> set fs"
  shows "fill_time (f_times f) = now \<and> decision_time (f_times f) < now \<and>
    arrival_time (f_times f) \<le> now \<and> f_instrument f = i \<and> validate_chain (f_times f) = None \<and>
    (\<exists>p \<in> set (br_pending b). f_order_id f = ord_id (po_order p) \<and> f_side f = ord_side (po_order p))"
proof -
  obtain p where p: "p \<in> set (br_pending b)" and g: "good_fill (br_costs b) (br_fill_cfg b) i s now p f"
    using on_market_fills [OF assms(2,3)] by blast
  have "broker_ok b" using broker_run_ok [OF assms(1)] by simp
  then have ok: "pending_ok p" using p by (simp add: broker_ok_def)
  have g1: "ord_instrument (po_order p) = i" "po_arrival_time p \<le> now"
    using g by (simp_all add: good_fill_def may_fill_def Let_def)
  have chain: "validate_chain (f_times f) = None"
    and f: "f = fill_of (po_order p) (f_price f) (f_quantity f) now (f_commission f) fzero Taker"
    using g unfolding good_fill_def priced_def by blast+
  have "f_times f = (ord_times (po_order p))\<lparr>fill_time := now\<rparr> \<and> f_instrument f = ord_instrument (po_order p)
      \<and> f_order_id f = ord_id (po_order p) \<and> f_side f = ord_side (po_order p)"
    by (subst (1 2 3 4) f) (simp add: fill_of_def)
  then show ?thesis using ok g1 chain p by (auto simp: pending_ok_def)
qed

text \<open>
  A submission is stamped with an arrival strictly after the venue's clock and the order's
  decision, even with a zero or negative latency; a refused one leaves the pending orders alone.
\<close>

theorem submit_arrives_later:
  "case broker_submit now o1 b of
     None \<Rightarrow> lm_decision_to_arrival (br_latency b) (br_latency_rng b) = None
   | Some (Inr a, b') \<Rightarrow> now < a \<and> decision_time (ord_times o1) < a \<and>
       (\<exists>o2. with_arrival a o1 = Ok o2 \<and> br_pending b' = br_pending b @
         [\<lparr>po_order = o2, po_arrival_time = a, po_filled = fzero, po_stop_triggered = False\<rparr>])
   | Some (Inl e, b') \<Rightarrow> br_pending b' = br_pending b"
proof (cases "broker_submit now o1 b")
  case None
  then show ?thesis
    by (auto simp: broker_submit_def Let_def split: if_splits option.splits sum.splits)
next
  case (Some res)
  obtain r b' where res: "res = (r, b')" by fastforce
  show ?thesis
  proof (cases r)
    case (Inl e)
    then have "br_pending b' = br_pending b"
      using Some res by (auto simp: broker_submit_def count_rejected_def Let_def
          split: if_splits option.splits sum.splits)
    then show ?thesis using Some res Inl by simp
  next
    case (Inr a)
    have "now < a \<and> decision_time (ord_times o1) < a \<and>
       (\<exists>o2. with_arrival a o1 = Ok o2 \<and> br_pending b' = br_pending b @
         [\<lparr>po_order = o2, po_arrival_time = a, po_filled = fzero, po_stop_triggered = False\<rparr>])"
      using broker_submit_Ok [OF Some [unfolded res Inr]] by auto
    then show ?thesis using Some res Inr by simp
  qed
qed

text \<open>
  C22: costs move the price against the trader, never for them. With the standard cost model under a
  configuration without negative coefficients, a purchase is never filled below the touch and a
  sale never above it.
\<close>

theorem fills_never_better_than_touch:
  assumes "br_costs b = standard_cost_model pow_fn log_fn ccfg" "cost_config_ok ccfg" "pow_ok pow_fn"
    and "on_market i s now b = Some (Ok fs, b')" "f \<in> set fs"
    and "is_f64 (touch_for s (f_side f))" "flt fzero (touch_for s (f_side f))"
  shows "case f_side f of Buy \<Rightarrow> fle (touch_for s Buy) (f_price f)
    | Sell \<Rightarrow> fle (f_price f) (touch_for s Sell)"
proof -
  have cm: "cost_model (br_costs b)"
    unfolding assms(1) by (rule standard_is_cost_model [OF assms(2,3)])
  obtain p where g: "good_fill (br_costs b) (br_fill_cfg b) i s now p f"
    using on_market_fills [OF assms(4,5)] by blast
  then obtain slip r r' where slip: "cm_stochastic_slippage (br_costs b) r = Some (slip, r')"
    and price: "f_price f = execution_price (br_costs b) s (ord_side (po_order p))
          (touch_for s (ord_side (po_order p))) (f_quantity f) slip"
    and fin: "fin (f_price f)"
    and f: "f = fill_of (po_order p) (f_price f) (f_quantity f) now (f_commission f) fzero Taker"
    unfolding good_fill_def priced_def by blast
  have side: "ord_side (po_order p) = f_side f" by (subst f) (simp add: fill_of_def)
  have "f_price f = apply_bps (touch_for s (f_side f))
      (cost_model.total_bps (br_costs b) s (f_quantity f) slip) (sign_of (f_side f))"
    unfolding price side by (simp add: execution_price_def cost_model.total_bps_def [OF cm] Let_def)
  then show ?thesis
    using cost_model.price_against_trader [OF cm assms(6,7) slip, of s "f_quantity f" "f_side f"] fin
    by (cases "f_side f") simp_all
qed

lemma displayed_allows_le:
  "displayed_allows cfg s side want st = (Some a, st') \<Longrightarrow> \<not> is_nan want \<Longrightarrow>
     fle a want \<and> (has_quote s \<and> respect_displayed_size cfg \<longrightarrow>
       fle a (if side = Buy then ms_ask_size s else ms_bid_size s))"
  using not_flt [of "if side = Buy then ms_ask_size s else ms_bid_size s" want] flt_not_nan flt_imp_fle
  by (auto simp: displayed_allows_def Let_def split: if_splits)

lemma participation_allows_le:
  "participation_allows s budget a st = (Some a2, st') \<Longrightarrow> \<not> is_nan a \<Longrightarrow> fle a2 a"
  using flt_imp_fle by (auto simp: participation_allows_def split: if_splits)

lemma allowed_quantity_le:
  assumes "allowed_quantity cfg s side budget want st = (Some a, st')" "\<not> is_nan want"
  shows "fle a want \<and> (has_quote s \<and> respect_displayed_size cfg \<longrightarrow>
    fle a (if side = Buy then ms_ask_size s else ms_bid_size s))"
proof -
  obtain a1 st1 where d: "displayed_allows cfg s side want st = (Some a1, st1)"
    using assms(1) by (auto simp: allowed_quantity_def split: prod.splits option.splits)
  obtain a2 st2 where p: "participation_allows s budget a1 st1 = (Some a2, st2)"
    using assms(1) d by (auto simp: allowed_quantity_def split: prod.splits option.splits)
  have "a = a2" using assms(1) d p by (auto simp: allowed_quantity_def split: if_splits)
  moreover note le = displayed_allows_le [OF d assms(2)]
  moreover have "fle a2 a1" using participation_allows_le [OF p] le fle_not_nan by blast
  ultimately show ?thesis using fle_trans by metis
qed

lemma allowed_quantity_nan:
  "allowed_quantity cfg s side budget want st = (Some a, st') \<Longrightarrow> is_nan want \<Longrightarrow> is_nan a"
proof -
  assume w: "is_nan want" and a: "allowed_quantity cfg s side budget want st = (Some a, st')"
  have "\<not> flt x want" for x using w flt_not_nan by blast
  then show "is_nan a"
    using w a by (auto simp: allowed_quantity_def displayed_allows_def participation_allows_def Let_def
        split: if_splits)
qed

text \<open>
  C36: a fill respects its order and the liquidity it saw: the quantity is at most what remains and,
  against a quote whose displayed size is respected, at most that size; a limit is never filled
  against a touch beyond it; a stop only once hit; and a fill-or-kill order only in full.
\<close>

theorem fills_respect_order_and_liquidity:
  assumes "on_market i s now b = Some (Ok fs, b')" "f \<in> set fs"
  shows "\<exists>p \<in> set (br_pending b). let o1 = po_order p; tp = touch_for s (ord_side o1) in
    f_order_id f = ord_id o1 \<and> fle (f_quantity f) (remaining_of p) \<and>
    (if has_quote s \<and> respect_displayed_size (br_fill_cfg b)
     then fle (f_quantity f) (if ord_side o1 = Buy then ms_ask_size s else ms_bid_size s) else True) \<and>
    is_marketable_against o1 tp \<and>
    (if is_stop o1 then po_stop_triggered p \<or> stop_hit o1 tp else True) \<and>
    (if ord_tif o1 = FillOrKill then fle (remaining_of p) (fadd (f_quantity f) (lit (1 / 10 ^ 9)))
     else True)"
proof -
  obtain p where p: "p \<in> set (br_pending b)" and g: "good_fill (br_costs b) (br_fill_cfg b) i s now p f"
    using on_market_fills [OF assms] by blast
  have m: "may_fill (br_fill_cfg b) i s now p (f_quantity f)" and pr: "priced (br_costs b) s now p f"
    using g by (simp_all add: good_fill_def)
  have id: "f_order_id f = ord_id (po_order p)"
  proof -
    have "f = fill_of (po_order p) (f_price f) (f_quantity f) now (f_commission f) fzero Taker"
      using pr unfolding priced_def by blast
    then show ?thesis by (metis Fill.select_convs(1) fill_of_def)
  qed
  have qty: "fin (f_quantity f)" using pr unfolding priced_def by blast
  obtain budget st st' where al: "allowed_quantity (br_fill_cfg b) s (ord_side (po_order p)) budget
      (remaining_of p) st = (Some (f_quantity f), st')"
    using m unfolding may_fill_def Let_def by blast
  have rem: "\<not> is_nan (remaining_of p)"
    using allowed_quantity_nan [OF al] qty fin_not_nan by blast
  have "\<not> is_nan (fadd (f_quantity f) (lit (1 / 10 ^ 9)))"
    by (rule fadd_not_nan [OF qty]) (simp add: f64_eval)
  then have fok: "ord_tif (po_order p) = FillOrKill \<Longrightarrow>
      fle (remaining_of p) (fadd (f_quantity f) (lit (1 / 10 ^ 9)))"
    using m rem by (simp add: may_fill_def Let_def not_flt)
  have conds: "is_marketable_against (po_order p) (touch_for s (ord_side (po_order p)))"
    "is_stop (po_order p) \<Longrightarrow> po_stop_triggered p \<or>
      stop_hit (po_order p) (touch_for s (ord_side (po_order p)))"
    using m unfolding may_fill_def Let_def by blast+
  note le = allowed_quantity_le [OF al rem]
  have imp: "(if c then A else True) \<longleftrightarrow> (c \<longrightarrow> A)" for c A by simp
  show ?thesis unfolding Let_def imp using p id fok le conds by blast
qed

section \<open>A worked venue\<close>

text \<open>
  A concrete venue for the examples: a cost model that charges nothing, a latency of 150 ns, half of
  the interval's volume as the participation cap, one arrived market order, and a bar at 100.
\<close>

definition no_costs :: CostModel where
  "no_costs = \<lparr>cm_commission = \<lambda>_ _. fzero, cm_half_spread = \<lambda>_. fzero,
     cm_market_impact = \<lambda>_ _. fzero, cm_stochastic_slippage = \<lambda>r. Some (fzero, r)\<rparr>"

definition sample_latency :: LatencyModel where
  "sample_latency = standard_latency_model (\<lambda>x. x) (\<lambda>x. x) (default_latency_config\<lparr>
     strategy_compute := 100, order_transmission := 50, exchange_processing := 0\<rparr>)"

definition half_config :: FillConfig where
  "half_config = default_fill_config\<lparr>max_participation_rate := Fin (1 / 2)\<rparr>"

definition sample_pending :: "OrderId \<Rightarrow> Side \<Rightarrow> Qty \<Rightarrow> PendingOrder" where
  "sample_pending oid s q =
     \<lparr>po_order = (sample_order oid s q)\<lparr>ord_times := (sample_times 100)\<lparr>arrival_time := 250\<rparr>\<rparr>,
      po_arrival_time = 250, po_filled = fzero, po_stop_triggered = False\<rparr>"

definition sample_broker :: "CostModel \<Rightarrow> PendingOrder list \<Rightarrow> BrokerSimulator" where
  "sample_broker costs ps = (make_broker costs sample_latency (make_rng 7) half_config)\<lparr>br_pending := ps\<rparr>"

definition bar_market :: "Volume \<Rightarrow> MarketState" where
  "bar_market v = default_market_state\<lparr>ms_bid := Fin 100, ms_ask := Fin 100, interval_volume := v\<rparr>"

definition quote_market :: MarketState where
  "quote_market = default_market_state\<lparr>ms_bid := Fin 99, ms_ask := Fin 100, ms_bid_size := Fin 50,
     ms_ask_size := Fin 50, has_quote := True, volume_known := False\<rparr>"

lemma sample_chain: "validate_chain ((sample_times 100)\<lparr>arrival_time := 250, fill_time := 300\<rparr>) = None"
  by (simp add: validate_chain_None_iff chain_ordered_def in_order_def sample_times_def no_times_def)
    (simp add: is_set_def)

lemma apply_no_bps: "apply_bps (Fin 100) fzero (sign_of s) = Fin 100"
proof -
  define r :: real where "r = 7378697629483821 / 73786976294838206464"
  have r: "lit (1 / 10 ^ 4) = Fin r" "0 < r" by (simp_all add: f64_eval r_def)
  have "fadd (lit 1) (fmul (fmul (of_int64 (sign_of s)) fzero) (lit (1 / 10 ^ 4))) = Fin 1"
    by (cases s) (use r(2) in \<open>simp_all only: r(1) of_int64_sign\<close>,
      auto simp: fmul_def fadd_def fzero_def signed_zero_def Let_def)
  then show ?thesis
    by (simp only: apply_bps_def) (simp add: fmul_def lit_numeral)
qed

lemma sample_pending_simps [simp]:
  "po_filled (sample_pending k side q) = fzero" "po_arrival_time (sample_pending k side q) = 250"
  "ord_instrument (po_order (sample_pending k side q)) = 0"
  "ord_side (po_order (sample_pending k side q)) = side"
  "ord_quantity (po_order (sample_pending k side q)) = q"
  "ord_tif (po_order (sample_pending k side q)) = Day"
  "\<not> is_stop (po_order (sample_pending k side q))"
  "is_marketable_against (po_order (sample_pending k side q)) tp"
  by (simp_all add: sample_pending_def sample_order_def is_stop_def is_marketable_against_def)

lemma tolerance: "fin (lit (1 / 10 ^ 9))" "0 < val (lit (1 / 10 ^ 9))" "val (lit (1 / 10 ^ 9)) < 1"
  by (simp_all add: f64_eval)

text \<open>A cost model that leaves the price at 100, in a market whose touch is 100.\<close>

definition at_par :: "CostModel \<Rightarrow> MarketState \<Rightarrow> Side \<Rightarrow> bool" where
  "at_par costs s side \<longleftrightarrow> touch_for s side = Fin 100 \<and>
     (\<forall>r. cm_stochastic_slippage costs r = Some (fzero, r)) \<and>
     (\<forall>q. execution_price costs s side (Fin 100) q fzero = Fin 100)"

lemma at_par_fill: "0 < a \<Longrightarrow>
    make_fill costs (po_order (sample_pending k side q)) (Fin 100) (Fin a) 300 Taker st =
      (Ok (fill_of (po_order (sample_pending k side q)) (Fin 100) (Fin a) 300
             (cm_commission costs (Fin a) (Fin 100)) fzero Taker),
       st\<lparr>total_commission := fadd (total_commission st) (cm_commission costs (Fin a) (Fin 100))\<rparr>)"
  by (simp add: make_fill_def fill_of_def sample_pending_def sample_order_def sample_chain f64_sem)

lemma full_fill:
  assumes "0 < a" "is_f64 (Fin a)"
  shows "fle (Fin a) (fadd (Fin a) (lit (1 / 10 ^ 9)))" "fadd fzero (Fin a) = Fin a"
    "fsub (Fin a) fzero = Fin a" "\<not> fle (Fin a) fzero"
proof -
  have "fle (fadd (Fin a) fzero) (fadd (Fin a) (lit (1 / 10 ^ 9)))"
    by (rule fadd_mono) (use tolerance in auto)
  moreover have "fadd (Fin a) fzero = Fin a"
    using assms by (simp add: fadd_def fzero_def lit_def is_f64_def Let_def abs_if split: if_splits)
  ultimately show "fle (Fin a) (fadd (Fin a) (lit (1 / 10 ^ 9)))" by simp
qed (use assms in \<open>simp_all add: fsub_def fadd_def fzero_def lit_def is_f64_def Let_def abs_if f64_sem
       split: if_splits\<close>)

text \<open>A visit that fills a sample order in full, and what it leaves of the budget.\<close>

definition filled_by :: "CostModel \<Rightarrow> OrderId \<Rightarrow> Side \<Rightarrow> real \<Rightarrow> Fill" where
  "filled_by costs k side a = fill_of (po_order (sample_pending k side (Fin a))) (Fin 100) (Fin a) 300
     (cm_commission costs (Fin a) (Fin 100)) fzero Taker"

lemma visit_full:
  assumes a: "0 < a" "is_f64 (Fin a)" and par: "at_par costs s side"
    and al: "\<And>st. fst (allowed_quantity cfg s side (sw_budget sw) (Fin a) st) = Some (Fin a)"
  shows "\<exists>sw'. visit_order costs cfg 0 s 300 (sample_pending k side (Fin a)) sw = Some (None, None, sw') \<and>
    sw_fills sw' = sw_fills sw @ [filled_by costs k side a] \<and>
    sw_budget sw' = fmax fzero (fsub (sw_budget sw) (Fin a))"
proof -
  obtain st1 where st1: "allowed_quantity cfg s side (sw_budget sw) (Fin a) (sw_stats sw) =
      (Some (Fin a), st1)" using al [of "sw_stats sw"] by (metis prod.collapse)
  have tp: "has_quote s \<Longrightarrow> touch s side = Fin 100" "\<not> has_quote s \<Longrightarrow> ms_bid s = Fin 100"
    using par by (simp_all add: at_par_def touch_for_def)
  note P = par [unfolded at_par_def]
  have "\<exists>sw'. execute_order costs s 300 (Fin 100) (Fin a) (sample_pending k side (Fin a))
      (sw\<lparr>sw_stats := st1\<rparr>) = Some (None, None, sw') \<and>
    sw_fills sw' = sw_fills sw @ [filled_by costs k side a] \<and>
    sw_budget sw' = fmax fzero (fsub (sw_budget sw) (Fin a))"
    using full_fill [OF a] P
    by (simp add: execute_order_def at_par_fill [OF a(1)] Let_def filled_by_def)
  then show ?thesis
    using st1 full_fill [OF a] by (simp add: visit_order_def attempt_order_def Let_def tp)
qed

lemma no_costs_at_par: "at_par no_costs (bar_market v) side"
proof -
  have "fadd (fadd (if has_quote s then fzero else fzero) fzero) fzero = fzero" for s
    by (simp add: fadd_def fzero_def)
  then show ?thesis
    by (simp add: at_par_def touch_for_def bar_market_def default_market_state_def execution_price_def
        no_costs_def Let_def apply_no_bps)
qed

text \<open>
  The participation budget stops binding once it is spent: two orders against an interval of 20
  shares at half participation fill 10 and then 1000.
\<close>

lemma budget_binds_only_while_positive:
  "\<exists>fs b'. on_market 0 (bar_market (Fin 20)) 300
      (sample_broker no_costs [sample_pending 1 Buy (Fin 10), sample_pending 2 Buy (Fin 1000)]) = Some (Ok fs, b') \<and>
    map f_quantity fs = [Fin 10, Fin 1000]"
proof -
  let ?s = "bar_market (Fin 20)"
  define b where "b = sample_broker no_costs [sample_pending 1 Buy (Fin 10), sample_pending 2 Buy (Fin 1000)]"
  define sw where "sw = \<lparr>sw_budget = Fin 10, sw_rng = br_slippage_rng b, sw_stats = br_stats b, sw_fills = []\<rparr>"
  have budget: "fmul (interval_volume ?s) (max_participation_rate half_config) = Fin 10"
    by (simp add: bar_market_def default_market_state_def half_config_def fmul_def lit_numeral)
  have f: "is_f64 (Fin 10)" "is_f64 (Fin 1000)"
    by (simp_all add: is_f64_def rnd_numeral_exact f64_lim_def)
  have al1: "fst (allowed_quantity half_config ?s Buy (sw_budget sw) (Fin 10) st) = Some (Fin 10)" for st
    by (simp add: sw_def allowed_quantity_def displayed_allows_def participation_allows_def bar_market_def
        default_market_state_def flt_def fle_def feq_def fzero_def)
  obtain sw1 where v1: "visit_order no_costs half_config 0 ?s 300 (sample_pending 1 Buy (Fin 10)) sw =
      Some (None, None, sw1)" and s1: "sw_fills sw1 = sw_fills sw @ [filled_by no_costs 1 Buy 10]"
    "sw_budget sw1 = fmax fzero (fsub (sw_budget sw) (Fin 10))"
    using visit_full [OF _ f(1) no_costs_at_par al1, of 1] by auto
  have b1: "sw_budget sw1 = fzero" by (simp add: s1 sw_def fsub_def fadd_def fmax_def flt_def fzero_def)
  have al2: "fst (allowed_quantity half_config ?s Buy (sw_budget sw1) (Fin 1000) st) = Some (Fin 1000)" for st
    by (simp add: b1 allowed_quantity_def displayed_allows_def participation_allows_def bar_market_def
        default_market_state_def flt_def fle_def feq_def fzero_def)
  obtain sw2 where v2: "visit_order no_costs half_config 0 ?s 300 (sample_pending 2 Buy (Fin 1000)) sw1 =
      Some (None, None, sw2)" and s2: "sw_fills sw2 = sw_fills sw1 @ [filled_by no_costs 2 Buy 1000]"
    using visit_full [OF _ f(2) no_costs_at_par al2, of 2] by auto
  have "map f_quantity (sw_fills sw2) = [Fin 10, Fin 1000]"
    by (simp add: s2 s1 sw_def filled_by_def fill_of_def)
  moreover have "br_costs b = no_costs" "br_fill_cfg b = half_config"
    "br_pending b = [sample_pending 1 Buy (Fin 10), sample_pending 2 Buy (Fin 1000)]"
    by (simp_all add: b_def sample_broker_def make_broker_def)
  ultimately show ?thesis
    unfolding b_def [symmetric]
    by (simp add: on_market_def budget sw_def [symmetric] v1 v2 Let_def)
qed

text \<open>One order in the sample venue fills in full at 100, in a bar market and against a quote.\<close>

lemma one_full_fill:
  assumes b: "br_costs b = costs" "br_fill_cfg b = half_config"
      "br_pending b = [sample_pending 1 Buy (Fin 4)]"
    and par: "at_par costs s Buy"
    and al0: "\<And>st. fst (allowed_quantity half_config s Buy
           (fmul (interval_volume s) (max_participation_rate half_config)) (Fin 4) st) = Some (Fin 4)"
  shows "\<exists>b'. on_market 0 s 300 b = Some (Ok [filled_by costs 1 Buy 4], b')"
proof -
  define sw where "sw = \<lparr>sw_budget = fmul (interval_volume s) (max_participation_rate half_config),
     sw_rng = br_slippage_rng b, sw_stats = br_stats b, sw_fills = []\<rparr>"
  have f: "is_f64 (Fin 4)" by (simp add: is_f64_def rnd_numeral_exact f64_lim_def)
  have al: "fst (allowed_quantity half_config s Buy (sw_budget sw) (Fin 4) st) = Some (Fin 4)" for st
    using al0 by (simp add: sw_def)
  obtain sw1 where v: "visit_order costs half_config 0 s 300 (sample_pending 1 Buy (Fin 4)) sw =
      Some (None, None, sw1)" "sw_fills sw1 = [filled_by costs 1 Buy 4]"
    using visit_full [OF _ f par al, of 1] by (auto simp: sw_def)
  then show ?thesis using b by (simp add: on_market_def sw_def [symmetric] Let_def)
qed

lemma bar_allows: "fst (allowed_quantity half_config (bar_market (Fin 200)) Buy
    (fmul (interval_volume (bar_market (Fin 200))) (max_participation_rate half_config)) (Fin 4) st) =
    Some (Fin 4)"
proof -
  have "fmul (interval_volume (bar_market (Fin 200))) (max_participation_rate half_config) = Fin 100"
    by (simp add: bar_market_def default_market_state_def half_config_def fmul_def lit_numeral)
  then show ?thesis
    by (simp add: allowed_quantity_def displayed_allows_def participation_allows_def bar_market_def
        default_market_state_def flt_def fle_def feq_def fzero_def)
qed

lemma quote_allows: "fst (allowed_quantity half_config quote_market Buy
    (fmul (interval_volume quote_market) (max_participation_rate half_config)) (Fin 4) st) = Some (Fin 4)"
proof -
  have "fmul (interval_volume quote_market) (max_participation_rate half_config) = fzero"
    by (simp add: quote_market_def default_market_state_def half_config_def fmul_def fzero_def
        signed_zero_def)
  then show ?thesis
    by (simp add: allowed_quantity_def displayed_allows_def participation_allows_def quote_market_def
        default_market_state_def half_config_def default_fill_config_def flt_def fle_def feq_def fzero_def)
qed

lemma sample_submitted:
  "\<exists>b. br_run (make_broker no_costs sample_latency (make_rng 7) half_config) b \<and>
     br_pending b = [sample_pending 1 Buy (Fin 4)] \<and> br_costs b = no_costs \<and> br_fill_cfg b = half_config"
proof -
  let ?b0 = "make_broker no_costs sample_latency (make_rng 7) half_config"
  let ?o = "sample_order 1 Buy (Fin 4)"
  have flight: "lm_decision_to_arrival sample_latency r = Some (150, r)" for r
    by (simp add: sample_latency_def standard_latency_model_def decision_to_arrival_def jittered_def
        default_latency_config_def)
  have "validate_chain ((sample_times 100)\<lparr>arrival_time := 250\<rparr>) = None"
    by (simp add: validate_chain_None_iff chain_ordered_def in_order_def sample_times_def no_times_def)
      (simp add: is_set_def)
  then have wa: "with_arrival 250 ?o = Ok (po_order (sample_pending 1 Buy (Fin 4)))"
    by (simp add: with_arrival_def sample_order_def sample_pending_def Let_def)
  have "\<exists>b. broker_submit 100 ?o ?b0 = Some (Ok 250, b) \<and> br_pending b = [sample_pending 1 Buy (Fin 4)] \<and>
      br_costs b = no_costs \<and> br_fill_cfg b = half_config"
    using wa by (simp add: broker_submit_def make_broker_def flight Let_def sample_order_def
        sample_times_def sample_pending_def)
  then obtain b where b: "broker_submit 100 ?o ?b0 = Some (Ok 250, b)"
    "br_pending b = [sample_pending 1 Buy (Fin 4)]" "br_costs b = no_costs" "br_fill_cfg b = half_config"
    by blast
  have "br_step ?b0 b"
    by (rule br_step.submit [OF _ _ b(1)]) (simp_all add: sample_order_valid kNoTimestamp_def)
  then have "br_run ?b0 b" by (rule br_run.trans [OF br_run.refl])
  with b show ?thesis by blast
qed

theorem fills_respect_latency_witness:
  "\<exists>b b' f. br_pending b = [sample_pending 1 Buy (Fin 4)] \<and>
     on_market 0 (bar_market (Fin 200)) 300 b = Some (Ok [f], b') \<and>
     fill_time (f_times f) = 300 \<and> decision_time (f_times f) < 300"
proof -
  obtain b where b: "br_run (make_broker no_costs sample_latency (make_rng 7) half_config) b"
    "br_pending b = [sample_pending 1 Buy (Fin 4)]" "br_costs b = no_costs" "br_fill_cfg b = half_config"
    using sample_submitted by blast
  from one_full_fill [OF b(3,4,2) no_costs_at_par bar_allows] obtain b' where
    m: "on_market 0 (bar_market (Fin 200)) 300 b = Some (Ok [filled_by no_costs 1 Buy 4], b')" by blast
  from fills_respect_latency [OF b(1) m, of "filled_by no_costs 1 Buy 4"] b(2) m show ?thesis
    by auto
qed

definition free_config :: CostConfig where
  "free_config = default_cost_config\<lparr>stochastic_slippage_bps := fzero\<rparr>"

lemma standard_at_par: "at_par (standard_cost_model pow_half (\<lambda>x. x) free_config) quote_market Buy"
proof -
  have "fle fzero fzero" by (simp add: f64_sem)
  moreover have "fadd (fadd fzero fzero) fzero = fzero" by (simp add: fadd_def fzero_def)
  moreover have "has_quote quote_market" "interval_volume quote_market = fzero"
    "touch_for quote_market Buy = Fin 100"
    by (simp_all add: quote_market_def default_market_state_def touch_for_def touch_def)
  ultimately show ?thesis
    by (simp add: at_par_def standard_cost_model_def stochastic_slippage_def execution_price_def
        market_impact_def free_config_def Let_def apply_no_bps [of Buy, simplified] del: fle_refl)
qed

theorem fills_never_better_than_touch_witness:
  "\<exists>b' f. on_market 0 quote_market 300
      (sample_broker (standard_cost_model pow_half (\<lambda>x. x) free_config) [sample_pending 1 Buy (Fin 4)]) =
      Some (Ok [f], b') \<and> fle (touch_for quote_market Buy) (f_price f)"
proof -
  let ?costs = "standard_cost_model pow_half (\<lambda>x. x) free_config"
  let ?b = "sample_broker ?costs [sample_pending 1 Buy (Fin 4)]"
  let ?f = "filled_by ?costs 1 Buy 4"
  have b: "br_costs ?b = ?costs" "br_fill_cfg ?b = half_config"
    "br_pending ?b = [sample_pending 1 Buy (Fin 4)]"
    by (simp_all add: sample_broker_def make_broker_def)
  obtain b' where m: "on_market 0 quote_market 300 ?b = Some (Ok [?f], b')"
    using one_full_fill [OF b standard_at_par quote_allows] by blast
  have cfg: "cost_config_ok free_config"
    using default_config_ok by (simp add: free_config_def cost_config_ok_def)
  have side: "f_side ?f = Buy" by (simp add: filled_by_def fill_of_def)
  have tp: "touch_for quote_market Buy = Fin 100"
    by (simp add: quote_market_def default_market_state_def touch_for_def touch_def)
  have "is_f64 (Fin 100)" "flt fzero (Fin 100)"
    by (simp_all add: is_f64_def rnd_numeral_exact f64_lim_def f64_sem)
  then have "case f_side ?f of Buy \<Rightarrow> fle (touch_for quote_market Buy) (f_price ?f)
      | Sell \<Rightarrow> fle (f_price ?f) (touch_for quote_market Sell)"
    using fills_never_better_than_touch [OF b(1) cfg pow_half_ok m, of ?f] by (simp add: side tp)
  with m side show ?thesis by auto
qed

theorem fills_respect_order_and_liquidity_witness:
  "\<exists>b' f. on_market 0 (bar_market (Fin 200)) 300 (sample_broker no_costs [sample_pending 1 Buy (Fin 4)]) =
      Some (Ok [f], b') \<and> (\<exists>p. f_order_id f = ord_id (po_order p) \<and> fle (f_quantity f) (remaining_of p))"
proof -
  let ?b = "sample_broker no_costs [sample_pending 1 Buy (Fin 4)]"
  have b: "br_costs ?b = no_costs" "br_fill_cfg ?b = half_config"
    "br_pending ?b = [sample_pending 1 Buy (Fin 4)]"
    by (simp_all add: sample_broker_def make_broker_def)
  obtain b' where m: "on_market 0 (bar_market (Fin 200)) 300 ?b = Some (Ok [filled_by no_costs 1 Buy 4], b')"
    using one_full_fill [OF b no_costs_at_par bar_allows] by blast
  from fills_respect_order_and_liquidity [OF m, of "filled_by no_costs 1 Buy 4"] m show ?thesis
    unfolding Let_def by auto
qed

definition external_admissible :: "ExternalFillReport \<Rightarrow> PendingOrder \<Rightarrow> bool" where
  "external_admissible r p \<longleftrightarrow>
     fin (xr_quantity r) \<and> 0 < val (xr_quantity r) \<and> fin (xr_price r) \<and> 0 < val (xr_price r) \<and>
     \<not> flt (fadd (remaining_of p) (lit (1 / 10 ^ 9))) (xr_quantity r) \<and>
     validate_chain ((ord_times (po_order p))\<lparr>fill_time := xr_fill_time r\<rparr>) = None"

text \<open>
  A venue message is validated, not trusted. An external fill is admitted exactly when it
  names a pending order, its quantity and price are positive and finite, it does not exceed what
  remains (beyond the tolerance) and it keeps the order's timestamp chain; an admitted one carries
  the venue's price, quantity and costs, and a refused one changes nothing.
\<close>

theorem external_fill_validated:
  "case ingest_external_fill r b of
     (Inr f, b') \<Rightarrow> \<exists>p. List.find (is_order (xr_order_id r)) (br_pending b) = Some p \<and>
        external_admissible r p \<and> f_order_id f = xr_order_id r \<and> f_price f = xr_price r \<and>
        f_quantity f = xr_quantity r \<and> f_commission f = xr_commission r \<and>
        f_exchange_fee f = xr_exchange_fee r \<and> validate_chain (f_times f) = None \<and>
        st_fills (br_stats b') = st_fills (br_stats b) + 1
   | (Inl e, b') \<Rightarrow> b' = b \<and>
        (case List.find (is_order (xr_order_id r)) (br_pending b) of
           None \<Rightarrow> True | Some p \<Rightarrow> \<not> external_admissible r p)"
proof (cases "List.find (is_order (xr_order_id r)) (br_pending b)")
  case None then show ?thesis by (simp add: ingest_external_fill_def)
next
  case (Some p)
  have p: "ord_id (po_order p) = xr_order_id r"
    using Some by (auto simp: find_Some_iff is_order_def)
  have q: "\<not> flt fzero (xr_quantity r) \<or> \<not> is_finite (xr_quantity r) \<longleftrightarrow>
      \<not> (fin (xr_quantity r) \<and> 0 < val (xr_quantity r))"
    "\<not> flt fzero (xr_price r) \<or> \<not> is_finite (xr_price r) \<longleftrightarrow>
      \<not> (fin (xr_price r) \<and> 0 < val (xr_price r))"
    by (auto simp: f64_sem)
  have times: "f_times (fill_of (po_order p) a c ts d e l) = (ord_times (po_order p))\<lparr>fill_time := ts\<rparr>"
    for a c ts d e l by (simp add: fill_of_def)
  show ?thesis
  proof (cases "external_admissible r p")
    case True
    then show ?thesis
      using Some p by (simp add: ingest_external_fill_def Let_def times external_admissible_def
          remaining_of_def f64_sem) (simp add: fill_of_def)
  next
    case False
    then show ?thesis
      using Some unfolding ingest_external_fill_def Let_def option.case q times
      by (auto simp: external_admissible_def remaining_of_def times split: option.splits)
  qed
qed

end
