(* ===== verification/Portfolio.thy ===== *)
theory Portfolio
  imports Oms MarketData
begin

text \<open>
  Positions and the portfolio (\<open>src/portfolio\<close>): weighted-average cost accounting per
  instrument, cash, marks and the equity curve. Positions and marks are \<open>std::map\<close>s, whose
  iteration order fixes the order of the floating-point sums.
\<close>

section \<open>Positions\<close>

record Position =
  pos_instrument :: InstrumentId
  pos_quantity :: Qty
  pos_average_cost :: Price
  pos_realized :: Notional
  pos_commission :: Notional
  pos_bought :: Qty
  pos_sold :: Qty

definition new_position :: "InstrumentId \<Rightarrow> Position" where
  "new_position i = \<lparr>pos_instrument = i, pos_quantity = fzero, pos_average_cost = fzero,
     pos_realized = fzero, pos_commission = fzero, pos_bought = fzero, pos_sold = fzero\<rparr>"

definition is_flat :: "Position \<Rightarrow> bool" where
  "is_flat p \<longleftrightarrow> feq (pos_quantity p) fzero"

definition is_long :: "Position \<Rightarrow> bool" where
  "is_long p \<longleftrightarrow> flt fzero (pos_quantity p)"

definition is_short :: "Position \<Rightarrow> bool" where
  "is_short p \<longleftrightarrow> flt (pos_quantity p) fzero"

definition market_value :: "Position \<Rightarrow> Price \<Rightarrow> Notional" where
  "market_value p mark = fmul (pos_quantity p) mark"

definition pos_unrealized :: "Position \<Rightarrow> Price \<Rightarrow> Notional" where
  "pos_unrealized p mark =
     (if is_flat p then fzero else fmul (fsub mark (pos_average_cost p)) (pos_quantity p))"

definition pos_gross :: "Position \<Rightarrow> Price \<Rightarrow> Notional" where
  "pos_gross p mark = fmul (fabs (pos_quantity p)) mark"

text \<open>\<open>Position::apply\<close> returns the profit realised by the fill and the position it leaves.\<close>

definition position_apply :: "Fill \<Rightarrow> Position \<Rightarrow> Notional \<times> Position" where
  "position_apply f p =
     (let delta = fill_signed_quantity f;
          px = f_price f;
          before = pos_quantity p;
          after = fadd before delta;
          p1 = p\<lparr>pos_commission := fadd (pos_commission p) (fill_total_cost f)\<rparr>;
          p2 = (if flt fzero delta then p1\<lparr>pos_bought := fadd (pos_bought p1) delta\<rparr>
                else p1\<lparr>pos_sold := fadd (pos_sold p1) (fneg delta)\<rparr>);
          (realized_now, p3) =
            (if feq before fzero \<or> flt fzero before = flt fzero delta then
               (let denom = fadd before delta in
                (fzero,
                 if \<not> feq denom fzero
                 then p2\<lparr>pos_average_cost :=
                   fdiv (fadd (fmul (pos_average_cost p2) before) (fmul px delta)) denom\<rparr>
                 else p2))
             else
               (let closing = fmin (fabs delta) (fabs before);
                    direction = (if flt fzero before then lit 1 else lit (- 1));
                    realized_now = fmul (fmul (fsub px (pos_average_cost p2)) closing) direction;
                    p3 = p2\<lparr>pos_realized := fadd (pos_realized p2) realized_now\<rparr> in
                (realized_now,
                 if flt (fabs before) (fabs delta) then p3\<lparr>pos_average_cost := px\<rparr>
                 else if feq after fzero then p3\<lparr>pos_average_cost := fzero\<rparr>
                 else p3)));
          p4 = p3\<lparr>pos_quantity := after\<rparr> in
      (realized_now, if feq (pos_quantity p4) fzero then p4\<lparr>pos_average_cost := fzero\<rparr> else p4))"

definition position_split :: "f64 \<Rightarrow> Position \<Rightarrow> Position" where
  "position_split ratio p =
     (if \<not> is_finite ratio \<or> fle ratio fzero then p
      else p\<lparr>pos_quantity := fmul (pos_quantity p) ratio,
             pos_average_cost := fdiv (pos_average_cost p) ratio,
             pos_bought := fmul (pos_bought p) ratio,
             pos_sold := fmul (pos_sold p) ratio\<rparr>)"

definition dividend_cash :: "Notional \<Rightarrow> Position \<Rightarrow> Notional" where
  "dividend_cash per_share p = fmul per_share (pos_quantity p)"

section \<open>The portfolio\<close>

datatype MarkMode = Liquidation | Mid | Last

record PortfolioConfig =
  initial_cash :: Notional
  mark_mode :: MarkMode
  annual_borrow_rate :: f64
  allow_short :: bool

definition default_portfolio_config :: PortfolioConfig where
  "default_portfolio_config = \<lparr>initial_cash = lit (10 ^ 6), mark_mode = Liquidation,
     annual_borrow_rate = fzero, allow_short = True\<rparr>"

record EquityPoint =
  ep_ts :: Timestamp
  ep_equity :: Notional
  ep_cash :: Notional
  ep_gross_exposure :: Notional
  ep_net_exposure :: Notional
  ep_realized_pnl :: Notional
  ep_unrealized_pnl :: Notional
  ep_cumulative_costs :: Notional
  ep_turnover :: Notional

record MarkPair =
  mark_bid :: Price
  mark_ask :: Price

record Portfolio =
  pf_cfg :: PortfolioConfig
  pf_cash :: Notional
  pf_realized :: Notional
  pf_costs :: Notional
  pf_turnover :: Notional
  pf_positions :: "(InstrumentId, Position) omap"
  pf_marks :: "(InstrumentId, MarkPair) omap"
  pf_curve :: "EquityPoint list"

definition new_portfolio :: "PortfolioConfig \<Rightarrow> Portfolio" where
  "new_portfolio cfg = \<lparr>pf_cfg = cfg, pf_cash = initial_cash cfg, pf_realized = fzero,
     pf_costs = fzero, pf_turnover = fzero, pf_positions = [], pf_marks = [], pf_curve = []\<rparr>"

datatype portfolio_error = FillNotFinite | ShortDisabled | CashNotFinite | BadSplitRatio
  | SnapshotBackwards | EquityNotFinite Timestamp | IdentityViolated

definition held_position :: "InstrumentId \<Rightarrow> Portfolio \<Rightarrow> Position" where
  "held_position i pf =
     (case om_find (pf_positions pf) i of None \<Rightarrow> new_position i | Some p \<Rightarrow> p)"

definition portfolio_apply :: "Fill \<Rightarrow> Portfolio \<Rightarrow> (portfolio_error, bool) result \<times> Portfolio" where
  "portfolio_apply f pf =
     (if \<not> is_finite (f_price f) \<or> \<not> is_finite (f_quantity f) then (Err FillNotFinite, pf)
      else
        (let pos = held_position (f_instrument f) pf;
             pf1 = pf\<lparr>pf_positions := om_put (f_instrument f) pos (pf_positions pf)\<rparr> in
         if \<not> allow_short (pf_cfg pf1) \<and>
            flt (fadd (pos_quantity pos) (fill_signed_quantity f)) (lit (- (1 / 10 ^ 9)))
         then (Err ShortDisabled, pf1)
         else
           (let (realized_now, pos') = position_apply f pos;
                pf2 = pf1\<lparr>pf_positions := om_put (f_instrument f) pos' (pf_positions pf1),
                          pf_realized := fadd (pf_realized pf1) realized_now,
                          pf_cash := fadd (pf_cash pf1) (fill_cash_delta f),
                          pf_costs := fadd (pf_costs pf1) (fill_total_cost f),
                          pf_turnover := fadd (pf_turnover pf1)
                            (fabs (fmul (f_price f) (f_quantity f)))\<rparr> in
            if \<not> is_finite (pf_cash pf2) then (Err CashNotFinite, pf2) else (Ok True, pf2))))"

definition portfolio_split ::
    "InstrumentId \<Rightarrow> f64 \<Rightarrow> Portfolio \<Rightarrow> (portfolio_error, bool) result \<times> Portfolio" where
  "portfolio_split i ratio pf =
     (if \<not> is_finite ratio \<or> fle ratio fzero then (Err BadSplitRatio, pf)
      else
        (let pf1 = (case om_find (pf_positions pf) i of
                 None \<Rightarrow> pf
               | Some p \<Rightarrow> pf\<lparr>pf_positions := om_put i (position_split ratio p) (pf_positions pf)\<rparr>);
             pf2 = (case om_find (pf_marks pf1) i of
                 None \<Rightarrow> pf1
               | Some mk \<Rightarrow> pf1\<lparr>pf_marks := om_put i
                   \<lparr>mark_bid = fdiv (mark_bid mk) ratio, mark_ask = fdiv (mark_ask mk) ratio\<rparr>
                   (pf_marks pf1)\<rparr>) in
         (Ok True, pf2)))"

definition portfolio_dividend ::
    "InstrumentId \<Rightarrow> Notional \<Rightarrow> Portfolio \<Rightarrow> (portfolio_error, bool) result \<times> Portfolio" where
  "portfolio_dividend i per_share pf =
     (case om_find (pf_positions pf) i of
        None \<Rightarrow> (Ok True, pf)
      | Some p \<Rightarrow> (Ok True, pf\<lparr>pf_cash := fadd (pf_cash pf) (dividend_cash per_share p)\<rparr>))"

definition mark :: "InstrumentId \<Rightarrow> Price \<Rightarrow> Price \<Rightarrow> Portfolio \<Rightarrow> Portfolio" where
  "mark i bid ask pf = pf\<lparr>pf_marks := om_put i \<lparr>mark_bid = bid, mark_ask = ask\<rparr> (pf_marks pf)\<rparr>"

definition mark_last :: "InstrumentId \<Rightarrow> Price \<Rightarrow> Portfolio \<Rightarrow> Portfolio" where
  "mark_last i px pf =
     pf\<lparr>pf_marks := om_put i \<lparr>mark_bid = px, mark_ask = px\<rparr> (pf_marks pf)\<rparr>"

definition mark_from_quote :: "Quote \<Rightarrow> Portfolio \<Rightarrow> Portfolio" where
  "mark_from_quote q pf = mark (q_instrument q) (q_bid q) (q_ask q) pf"

definition mark_of_mode :: "MarkMode \<Rightarrow> MarkPair \<Rightarrow> Position \<Rightarrow> Price" where
  "mark_of_mode mode mk p =
     (case mode of
        Mid \<Rightarrow> fmul (fadd (mark_bid mk) (mark_ask mk)) (lit (1 / 2))
      | Last \<Rightarrow> mark_bid mk
      | Liquidation \<Rightarrow> if is_short p then mark_ask mk else mark_bid mk)"

definition mark_for :: "Portfolio \<Rightarrow> InstrumentId \<Rightarrow> Position \<Rightarrow> Price" where
  "mark_for pf i p =
     (case om_find (pf_marks pf) i of
        None \<Rightarrow> pos_average_cost p
      | Some mk \<Rightarrow> mark_of_mode (mark_mode (pf_cfg pf)) mk p)"

text \<open>The shape three of the portfolio's loops share: a sum over the open positions, in order.\<close>

definition sum_open :: "(Position \<Rightarrow> Price \<Rightarrow> Notional) \<Rightarrow> Portfolio \<Rightarrow> Notional" where
  "sum_open g pf =
     foldl (\<lambda>total (key, p).
         if is_flat p then total else fadd total (g p (mark_for pf (pos_instrument p) p)))
       fzero (pf_positions pf)"

definition position_value :: "Portfolio \<Rightarrow> Notional" where
  "position_value pf = sum_open market_value pf"

definition equity :: "Portfolio \<Rightarrow> Notional" where
  "equity pf = fadd (pf_cash pf) (position_value pf)"

definition gross_exposure :: "Portfolio \<Rightarrow> Notional" where
  "gross_exposure pf = sum_open pos_gross pf"

definition net_exposure :: "Portfolio \<Rightarrow> Notional" where
  "net_exposure pf = position_value pf"

definition unrealized_pnl :: "Portfolio \<Rightarrow> Notional" where
  "unrealized_pnl pf = sum_open pos_unrealized pf"

definition leverage :: "Portfolio \<Rightarrow> f64" where
  "leverage pf =
     (let eq = equity pf in
      if \<not> is_finite eq \<or> feq eq fzero then fzero else fdiv (gross_exposure pf) eq)"

definition buying_power :: "Portfolio \<Rightarrow> Notional" where
  "buying_power pf = fmax fzero (pf_cash pf)"

definition position_of :: "Portfolio \<Rightarrow> InstrumentId \<Rightarrow> Position option" where
  "position_of pf i = om_find (pf_positions pf) i"

definition mark_price :: "Portfolio \<Rightarrow> InstrumentId \<Rightarrow> Price option" where
  "mark_price pf i =
     (case om_find (pf_marks pf) i of
        None \<Rightarrow> None
      | Some mk \<Rightarrow> (case om_find (pf_positions pf) i of
            None \<Rightarrow> Some (mark_bid mk)
          | Some p \<Rightarrow> Some (mark_for pf i p)))"

definition identity_holds :: "f64 \<Rightarrow> Portfolio \<Rightarrow> bool" where
  "identity_holds tolerance pf =
     (let lhs = equity pf; rhs = fadd (pf_cash pf) (position_value pf) in
      is_finite lhs \<and> is_finite rhs \<and> fle (fabs (fsub lhs rhs)) tolerance)"

definition snapshot :: "Timestamp \<Rightarrow> Portfolio \<Rightarrow> (portfolio_error, EquityPoint) result \<times> Portfolio" where
  "snapshot ts pf =
     (if pf_curve pf \<noteq> [] \<and> ts < ep_ts (last (pf_curve pf)) then (Err SnapshotBackwards, pf)
      else
        (let p = \<lparr>ep_ts = ts, ep_equity = equity pf, ep_cash = pf_cash pf,
                  ep_gross_exposure = gross_exposure pf, ep_net_exposure = net_exposure pf,
                  ep_realized_pnl = pf_realized pf, ep_unrealized_pnl = unrealized_pnl pf,
                  ep_cumulative_costs = pf_costs pf, ep_turnover = pf_turnover pf\<rparr> in
         if \<not> is_finite (ep_equity p) then (Err (EquityNotFinite ts), pf)
         else if \<not> identity_holds (lit (1 / 10 ^ 6)) pf then (Err IdentityViolated, pf)
         else (Ok p, pf\<lparr>pf_curve := pf_curve pf @ [p]\<rparr>)))"

section \<open>Average-cost accounting\<close>

text \<open>
  The cost basis, whatever the rounding. A fill that opens or adds realises nothing; a partial
  reduction keeps the basis; a reversal through zero resets it to the fill's own price; and a flat
  position has no basis.
\<close>

theorem position_apply_basis:
  "let delta = fill_signed_quantity f; before = pos_quantity p;
       (now, p') = position_apply f p in
   pos_quantity p' = fadd before delta \<and> pos_instrument p' = pos_instrument p \<and>
   pos_commission p' = fadd (pos_commission p) (fill_total_cost f) \<and>
   (if feq (pos_quantity p') fzero then pos_average_cost p' = fzero
    else if feq before fzero \<or> flt fzero before = flt fzero delta
      then now = fzero \<and> pos_realized p' = pos_realized p
    else pos_realized p' = fadd (pos_realized p) now \<and>
      pos_average_cost p' =
        (if flt (fabs before) (fabs delta) then f_price f else pos_average_cost p))"
  by (simp add: position_apply_def Let_def case_prod_beta)

text \<open>
  The abstract account: quantity, average cost and realised profit as reals. Whatever is bought and
  sold, realised profit less the cost of what is held is minus the cash paid for shares.
\<close>

definition ideal_apply :: "real \<Rightarrow> real \<Rightarrow> real \<times> real \<times> real \<Rightarrow> real \<times> real \<times> real" where
  "ideal_apply px d acc =
     (let (q, a, r) = acc; adding = (q = 0 \<or> (0 < q) = (0 < d)) in
      (q + d,
       if q + d = 0 then 0
       else if adding then (a * q + px * d) / (q + d)
       else if \<bar>q\<bar> < \<bar>d\<bar> then px else a,
       if adding then r else r + (px - a) * min \<bar>d\<bar> \<bar>q\<bar> * (if 0 < q then 1 else - 1)))"

definition account_balance :: "real \<times> real \<times> real \<Rightarrow> real" where
  "account_balance acc = (let (q, a, r) = acc in r - q * a)"

lemma ideal_apply_balance:
  "account_balance (ideal_apply px d acc) = account_balance acc - px * d"
proof -
  obtain q a r where acc: "acc = (q, a, r)" by (cases acc)
  consider (adding) "q = 0 \<or> (0 < q) = (0 < d)"
    | (reducing) "q \<noteq> 0" "(0 < q) \<noteq> (0 < d)" "\<bar>d\<bar> \<le> \<bar>q\<bar>"
    | (reversing) "q \<noteq> 0" "(0 < q) \<noteq> (0 < d)" "\<bar>q\<bar> < \<bar>d\<bar>"
    by linarith
  then show ?thesis
  proof cases
    case adding
    then have "q + d = 0 \<Longrightarrow> q = 0 \<and> d = 0" by linarith
    with adding show ?thesis
      by (cases "q + d = 0") (simp_all add: acc ideal_apply_def account_balance_def mult.commute)
  next
    case reducing
    show ?thesis
    proof (cases "q + d = 0")
      case True
      then have "d = - q" by simp
      with reducing show ?thesis
        by (cases "0 < q") (auto simp: acc ideal_apply_def account_balance_def algebra_simps)
    qed (use reducing in \<open>cases "0 < q"; auto simp: acc ideal_apply_def account_balance_def abs_if
           algebra_simps min_def split: if_splits\<close>)
  next
    case reversing
    then show ?thesis
      by (cases "0 < q") (auto simp: acc ideal_apply_def account_balance_def abs_if algebra_simps min_def
          split: if_splits)
  qed
qed

definition account_of :: "Position \<Rightarrow> real \<times> real \<times> real" where
  "account_of p = (val (pos_quantity p), val (pos_average_cost p), val (pos_realized p))"

definition position_fin :: "Position \<Rightarrow> bool" where
  "position_fin p \<longleftrightarrow> fin (pos_quantity p) \<and> fin (pos_average_cost p) \<and> fin (pos_realized p)"

definition fill_delta :: "Fill \<Rightarrow> real" where
  "fill_delta f = of_int (sign_of (f_side f)) * val (f_quantity f)"

text \<open>Every intermediate value of the fill's arithmetic is a binary64 value.\<close>

definition exact_fill :: "Fill \<Rightarrow> Position \<Rightarrow> bool" where
  "exact_fill f p \<longleftrightarrow>
     fin (f_price f) \<and> fin (f_quantity f) \<and> is_f64 (f_quantity f) \<and>
     (let (q, a, r) = account_of p; d = fill_delta f; px = val (f_price f) in
      representable (q + d) \<and>
      (if q = 0 \<or> (0 < q) = (0 < d)
       then representable (a * q) \<and> representable (px * d) \<and> representable (a * q + px * d) \<and>
            representable ((a * q + px * d) / (q + d))
       else representable (px - a) \<and> representable ((px - a) * min \<bar>d\<bar> \<bar>q\<bar>) \<and>
            representable (r + (px - a) * min \<bar>d\<bar> \<bar>q\<bar> * (if 0 < q then 1 else - 1))))"

lemma position_apply_reducing:
  assumes "\<not> (feq (pos_quantity p) fzero \<or> flt fzero (pos_quantity p) = flt fzero (fill_signed_quantity f))"
  shows "pos_quantity (snd (position_apply f p)) = fadd (pos_quantity p) (fill_signed_quantity f) \<and>
    pos_realized (snd (position_apply f p)) = fadd (pos_realized p)
      (fmul (fmul (fsub (f_price f) (pos_average_cost p))
         (fmin (fabs (fill_signed_quantity f)) (fabs (pos_quantity p))))
        (if flt fzero (pos_quantity p) then lit 1 else lit (- 1))) \<and>
    pos_average_cost (snd (position_apply f p)) =
      (if feq (fadd (pos_quantity p) (fill_signed_quantity f)) fzero then fzero
       else if flt (fabs (pos_quantity p)) (fabs (fill_signed_quantity f)) then f_price f
       else pos_average_cost p)"
  using assms by (simp add: position_apply_def Let_def case_prod_beta)

lemma position_apply_refines:
  assumes p: "position_fin p" and ex: "exact_fill f p"
  shows "position_fin (snd (position_apply f p)) \<and>
    account_of (snd (position_apply f p)) = ideal_apply (val (f_price f)) (fill_delta f) (account_of p)"
proof -
  define q a r d px where "q = val (pos_quantity p)" and "a = val (pos_average_cost p)"
    and "r = val (pos_realized p)" and "d = fill_delta f" and "px = val (f_price f)"
  note defs = q_def a_def r_def px_def
  let ?delta = "fill_signed_quantity f"
  have acc: "account_of p = (q, a, r)" by (simp add: account_of_def defs)
  have P: "fin (pos_quantity p)" "fin (pos_average_cost p)" "fin (pos_realized p)"
    using p by (simp_all add: position_fin_def)
  have F: "fin (f_price f)" "fin (f_quantity f)" "is_f64 (f_quantity f)"
    using ex by (simp_all add: exact_fill_def)
  have D: "fin ?delta" "val ?delta = d"
    using signed_qty_sem [OF F(3,2)] by (simp_all add: fill_signed_quantity_def d_def fill_delta_def)
  have A: "fin (fadd (pos_quantity p) ?delta)" "val (fadd (pos_quantity p) ?delta) = q + d"
    using ex exact_ops(1) [of "pos_quantity p" ?delta] P(1) D
    by (simp_all add: exact_fill_def acc Let_def d_def defs)
  show ?thesis
  proof (cases "q = 0 \<or> (0 < q) = (0 < d)")
    case True
    then have R: "representable (a * q)" "representable (px * d)" "representable (a * q + px * d)"
      "representable ((a * q + px * d) / (q + d))"
      using ex by (auto simp: exact_fill_def acc Let_def d_def [symmetric] px_def [symmetric])
    have M: "fin (fmul (pos_average_cost p) (pos_quantity p))"
      "val (fmul (pos_average_cost p) (pos_quantity p)) = a * q"
      "fin (fmul (f_price f) ?delta)" "val (fmul (f_price f) ?delta) = px * d"
      using exact_ops(3) P D F R by (simp_all add: defs)
    have S: "fin (fadd (fmul (pos_average_cost p) (pos_quantity p)) (fmul (f_price f) ?delta))"
      "val (fadd (fmul (pos_average_cost p) (pos_quantity p)) (fmul (f_price f) ?delta))
        = a * q + px * d"
      using exact_ops(1) [OF M(1,3)] R by (simp_all add: M)
    show ?thesis
      using True P D A M exact_ops(4) [OF S(1) A(1)] R S
      by (auto simp: position_apply_def Let_def case_prod_beta position_fin_def account_of_def
          ideal_apply_def f64_sem d_def [symmetric] px_def [symmetric] q_def [symmetric]
          a_def [symmetric] r_def [symmetric])
  next
    case False
    define g where "g = (if 0 < q then 1 else - 1 :: real)"
    have R: "representable (px - a)" "representable ((px - a) * min \<bar>d\<bar> \<bar>q\<bar>)"
      "representable (r + (px - a) * min \<bar>d\<bar> \<bar>q\<bar> * g)"
      using ex False by (auto simp: exact_fill_def acc Let_def d_def [symmetric] px_def [symmetric] g_def)
    let ?m = "fmin (fabs ?delta) (fabs (pos_quantity p))"
    let ?g = "if flt fzero (pos_quantity p) then lit 1 else lit (- 1)"
    have G: "fin ?g" "val ?g = g" using P by (simp_all add: f64_sem g_def defs)
    have M: "fin ?m" "val ?m = min \<bar>d\<bar> \<bar>q\<bar>"
      using P D fin_max_min by (simp_all add: defs)
    have S: "fin (fsub (f_price f) (pos_average_cost p))"
      "val (fsub (f_price f) (pos_average_cost p)) = px - a"
      using exact_ops(2) [OF F(1) P(2)] R by (simp_all add: defs)
    have T: "fin (fmul (fsub (f_price f) (pos_average_cost p)) ?m)"
      "val (fmul (fsub (f_price f) (pos_average_cost p)) ?m) = (px - a) * min \<bar>d\<bar> \<bar>q\<bar>"
      using exact_ops(3) [OF S(1) M(1)] R by (simp_all add: S M)
    have "representable ((px - a) * min \<bar>d\<bar> \<bar>q\<bar> * g)" using R(2) by (cases "0 < q") (simp_all add: g_def)
    then have U: "fin (fmul (fmul (fsub (f_price f) (pos_average_cost p)) ?m) ?g)"
      "val (fmul (fmul (fsub (f_price f) (pos_average_cost p)) ?m) ?g) = (px - a) * min \<bar>d\<bar> \<bar>q\<bar> * g"
      using exact_ops(3) [OF T(1) G(1)] by (simp_all add: T G)
    have V: "fin (fadd (pos_realized p) (fmul (fmul (fsub (f_price f) (pos_average_cost p)) ?m) ?g))"
      "val (fadd (pos_realized p) (fmul (fmul (fsub (f_price f) (pos_average_cost p)) ?m) ?g))
        = r + (px - a) * min \<bar>d\<bar> \<bar>q\<bar> * g"
      using exact_ops(1) [OF P(3) U(1)] R by (simp_all add: U defs)
    have flags: "\<not> (feq (pos_quantity p) fzero \<or>
        flt fzero (pos_quantity p) = flt fzero ?delta)"
      using False P D by (simp add: f64_sem q_def)
    have ideal: "ideal_apply px d (q, a, r) =
        (q + d, if q + d = 0 then 0 else if \<bar>q\<bar> < \<bar>d\<bar> then px else a,
         r + (px - a) * min \<bar>d\<bar> \<bar>q\<bar> * g)"
      using False by (simp add: ideal_apply_def g_def)
    have cond: "feq (fadd (pos_quantity p) ?delta) fzero \<longleftrightarrow> q + d = 0"
      "flt (fabs (pos_quantity p)) (fabs ?delta) \<longleftrightarrow> \<bar>q\<bar> < \<bar>d\<bar>"
      using A P D by (simp_all add: f64_sem q_def)
    show ?thesis
      unfolding acc px_def [symmetric] d_def [symmetric] ideal position_fin_def
      unfolding account_of_def
      using position_apply_reducing [OF flags] A V P(2) F(1)
      by (simp add: cond px_def [symmetric] a_def [symmetric])
  qed
qed

fun position_run :: "Fill list \<Rightarrow> Position \<Rightarrow> Position" where
  "position_run [] p = p"
| "position_run (f # fs) p = position_run fs (snd (position_apply f p))"

fun exact_run :: "Fill list \<Rightarrow> Position \<Rightarrow> bool" where
  "exact_run [] p = True"
| "exact_run (f # fs) p \<longleftrightarrow> exact_fill f p \<and> exact_run fs (snd (position_apply f p))"

lemma position_run_balance:
  "position_fin p \<Longrightarrow> exact_run fs p \<Longrightarrow>
     position_fin (position_run fs p) \<and>
     account_balance (account_of (position_run fs p)) =
       account_balance (account_of p) - (\<Sum>f \<leftarrow> fs. val (f_price f) * fill_delta f) \<and>
     val (pos_quantity (position_run fs p)) = val (pos_quantity p) + (\<Sum>f \<leftarrow> fs. fill_delta f)"
proof (induction fs arbitrary: p)
  case (Cons f fs)
  let ?p' = "snd (position_apply f p)"
  have step: "position_fin ?p'"
    "account_of ?p' = ideal_apply (val (f_price f)) (fill_delta f) (account_of p)"
    using position_apply_refines Cons.prems by auto
  then have "val (pos_quantity ?p') = val (pos_quantity p) + fill_delta f"
    by (simp add: account_of_def ideal_apply_def Let_def)
  with Cons.IH [of ?p'] step Cons.prems show ?case by (simp add: ideal_apply_balance)
qed simp

text \<open>
  C9: profit is conserved. Over any sequence of fills whose arithmetic is exact, starting flat,
  realised profit plus the held quantity marked against its average cost, at any mark, is the
  mark-to-market value of every fill: nothing is lost or double counted by openings, reductions,
  closings and reversals.
\<close>

theorem profit_is_conserved:
  assumes "exact_run fs (new_position i)"
  shows "let p = position_run fs (new_position i) in
    val (pos_realized p) + val (pos_quantity p) * (m - val (pos_average_cost p)) =
      (\<Sum>f \<leftarrow> fs. fill_delta f * (m - val (f_price f)))"
proof -
  have p0: "position_fin (new_position i)" "account_of (new_position i) = (0, 0, 0)"
    by (simp_all add: position_fin_def new_position_def account_of_def)
  define p where "p = position_run fs (new_position i)"
  define paid where "paid = (\<Sum>f \<leftarrow> fs. val (f_price f) * fill_delta f)"
  have q0: "val (pos_quantity (new_position i)) = 0" by (simp add: new_position_def)
  have run: "account_balance (account_of p) = - paid"
    "val (pos_quantity p) = (\<Sum>f \<leftarrow> fs. fill_delta f)"
    using position_run_balance [OF p0(1) assms]
    unfolding p_def [symmetric] paid_def [symmetric] p0(2) q0 by (simp_all add: account_balance_def)
  have "(\<Sum>f \<leftarrow> fs. fill_delta f * (m - val (f_price f))) = (\<Sum>f \<leftarrow> fs. fill_delta f) * m - paid"
    unfolding paid_def by (induction fs) (simp_all add: algebra_simps)
  with run show ?thesis
    unfolding Let_def p_def [symmetric]
    by (simp add: account_balance_def account_of_def right_diff_distrib)
qed

text \<open>A purchase of ten at 100, a sale of four at 103, and a sale of eight at 105 through zero.\<close>

theorem profit_is_conserved_witness:
  "let fs = [sample_fill 1 Buy (Fin 100) (Fin 10), sample_fill 2 Sell (Fin 103) (Fin 4),
             sample_fill 3 Sell (Fin 105) (Fin 8)];
       p = position_run fs (new_position 0) in
   val (pos_realized p) + val (pos_quantity p) * (110 - val (pos_average_cost p)) =
      (\<Sum>f \<leftarrow> fs. fill_delta f * (110 - val (f_price f)))"
proof -
  define f1 f2 f3 where "f1 = sample_fill 1 Buy (Fin 100) (Fin 10)"
    and "f2 = sample_fill 2 Sell (Fin 103) (Fin 4)" and "f3 = sample_fill 3 Sell (Fin 105) (Fin 8)"
  note fs = f1_def f2_def f3_def
  have facts: "fill_delta f1 = 10" "val (f_price f1) = 100" "fill_delta f2 = - 4"
    "val (f_price f2) = 103" "fill_delta f3 = - 8" "val (f_price f3) = 105"
    by (simp_all add: fs sample_fill_def fill_delta_def)
  have fin: "fin (f_price f) \<and> fin (f_quantity f) \<and> is_f64 (f_quantity f)" if "f \<in> {f1, f2, f3}" for f
    using that by (auto simp: fs sample_fill_def is_f64_def rnd_numeral_exact f64_lim_def)
  define p1 p2 where "p1 = snd (position_apply f1 (new_position 0))"
    and "p2 = snd (position_apply f2 p1)"
  have a0: "position_fin (new_position 0)" "account_of (new_position 0) = (0, 0, 0)"
    by (simp_all add: position_fin_def new_position_def account_of_def)
  have e1: "exact_fill f1 (new_position 0)"
    using fin [of f1] by (simp add: exact_fill_def a0 facts Let_def representable_numeral)
  have a1: "position_fin p1" "account_of p1 = (10, 100, 0)"
    using position_apply_refines [OF a0(1) e1] by (simp_all add: p1_def a0 facts ideal_apply_def)
  have e2: "exact_fill f2 p1"
    using fin [of f2] by (simp add: exact_fill_def a1 facts Let_def representable_numeral)
  have a2: "position_fin p2" "account_of p2 = (6, 100, 12)"
    using position_apply_refines [OF a1(1) e2] by (simp_all add: p2_def a1 facts ideal_apply_def)
  have e3: "exact_fill f3 p2"
    using fin [of f3] by (simp add: exact_fill_def a2 facts Let_def representable_numeral)
  have "exact_run [f1, f2, f3] (new_position 0)"
    using e1 e2 e3 by (simp add: p1_def p2_def)
  from profit_is_conserved [OF this] show ?thesis unfolding Let_def fs .
qed

section \<open>The portfolio as a machine\<close>

datatype PfOp = PfFill Fill | PfSplit InstrumentId f64 | PfDividend InstrumentId Notional
  | PfMark InstrumentId Price Price | PfLast InstrumentId Price | PfQuote Quote
  | PfSnapshot Timestamp

fun pf_exec :: "PfOp \<Rightarrow> Portfolio \<Rightarrow> Portfolio" where
  "pf_exec (PfFill f) pf = snd (portfolio_apply f pf)"
| "pf_exec (PfSplit i ratio) pf = snd (portfolio_split i ratio pf)"
| "pf_exec (PfDividend i n) pf = snd (portfolio_dividend i n pf)"
| "pf_exec (PfMark i b a) pf = mark i b a pf"
| "pf_exec (PfLast i px) pf = mark_last i px pf"
| "pf_exec (PfQuote q) pf = mark_from_quote q pf"
| "pf_exec (PfSnapshot ts) pf = snd (snapshot ts pf)"

lemmas pf_ops = portfolio_apply_def portfolio_split_def portfolio_dividend_def mark_def mark_last_def
  mark_from_quote_def

definition curve_ok :: "EquityPoint list \<Rightarrow> bool" where
  "curve_ok c \<longleftrightarrow> sorted (map ep_ts c) \<and>
     (\<forall>p \<in> set c. fin (ep_equity p) \<and> ep_equity p = fadd (ep_cash p) (ep_net_exposure p))"

definition positions_ok :: "(InstrumentId, Position) omap \<Rightarrow> bool" where
  "positions_ok m \<longleftrightarrow> om_inv m \<and> om.all_records (\<lambda>k p. pos_instrument p = k) m"

definition portfolio_ok :: "Portfolio \<Rightarrow> bool" where
  "portfolio_ok pf \<longleftrightarrow> positions_ok (pf_positions pf) \<and> om_inv (pf_marks pf) \<and> curve_ok (pf_curve pf)"

lemma positions_ok_put: "positions_ok m \<Longrightarrow> pos_instrument p = k \<Longrightarrow> positions_ok (om_put k p m)"
  by (auto simp: positions_ok_def om.all_records_put)

lemma positions_ok_find: "positions_ok m \<Longrightarrow> om_find m k = Some p \<Longrightarrow> pos_instrument p = k"
  using om.all_recordsD unfolding positions_ok_def by fast

lemma held_position_instrument: "positions_ok (pf_positions pf) \<Longrightarrow> pos_instrument (held_position i pf) = i"
  by (auto simp: held_position_def new_position_def positions_ok_find split: option.splits)

lemma position_apply_instrument [frame]: "pos_instrument (snd (position_apply f p)) = pos_instrument p"
  by (simp add: position_apply_def Let_def case_prod_beta)

lemma position_split_instrument [frame]: "pos_instrument (position_split ratio p) = pos_instrument p"
  by (simp add: position_split_def)

lemma curve_ok_snoc:
  "curve_ok c \<Longrightarrow> fin (ep_equity p) \<Longrightarrow> ep_equity p = fadd (ep_cash p) (ep_net_exposure p) \<Longrightarrow>
     c = [] \<or> ep_ts (last c) \<le> ep_ts p \<Longrightarrow> curve_ok (c @ [p])"
  using sorted_map_snoc [of ep_ts c p] unfolding curve_ok_def by auto

lemma portfolio_apply_positions:
  "pf_positions (snd (portfolio_apply f pf)) = pf_positions pf \<or>
   (\<exists>p. pf_positions (snd (portfolio_apply f pf)) = om_put (f_instrument f) p (pf_positions pf) \<and>
     p = held_position (f_instrument f) pf) \<or>
   (\<exists>p. pf_positions (snd (portfolio_apply f pf)) =
       om_put (f_instrument f) p (om_put (f_instrument f) (held_position (f_instrument f) pf) (pf_positions pf)) \<and>
     p = snd (position_apply f (held_position (f_instrument f) pf)) \<and>
     (allow_short (pf_cfg pf) \<or>
      \<not> flt (fadd (pos_quantity (held_position (f_instrument f) pf)) (fill_signed_quantity f))
           (lit (- (1 / 10 ^ 9)))))"
  by (simp add: portfolio_apply_def Let_def case_prod_beta)

lemma portfolio_apply_frame [frame]:
  "pf_marks (snd (portfolio_apply f pf)) = pf_marks pf"
  "pf_curve (snd (portfolio_apply f pf)) = pf_curve pf"
  "pf_cfg (snd (portfolio_apply f pf)) = pf_cfg pf"
  by (simp_all add: portfolio_apply_def Let_def case_prod_beta)

lemma portfolio_ok_apply: "portfolio_ok pf \<Longrightarrow> portfolio_ok (snd (portfolio_apply f pf))"
  using portfolio_apply_positions [of f pf] held_position_instrument [of pf "f_instrument f"]
  by (auto simp: portfolio_ok_def frame positions_ok_put)

lemma snapshot_curve:
  "pf_curve (snd (snapshot ts pf)) = pf_curve pf \<or>
   (\<exists>p. snd (snapshot ts pf) = pf\<lparr>pf_curve := pf_curve pf @ [p]\<rparr> \<and> ep_ts p = ts \<and> fin (ep_equity p) \<and>
      ep_equity p = equity pf \<and> ep_cash p = pf_cash pf \<and> ep_net_exposure p = net_exposure pf \<and>
      (pf_curve pf = [] \<or> ep_ts (last (pf_curve pf)) \<le> ts))"
  by (auto simp: snapshot_def Let_def)

lemma snapshot_frame [frame]:
  "pf_positions (snd (snapshot ts pf)) = pf_positions pf" "pf_marks (snd (snapshot ts pf)) = pf_marks pf"
  "pf_cfg (snd (snapshot ts pf)) = pf_cfg pf"
  by (simp_all add: snapshot_def Let_def)

interpretation pf: stepped pf_exec portfolio_ok
proof
  fix pf i assume ok: "portfolio_ok pf"
  then have P: "positions_ok (pf_positions pf)" "om_inv (pf_marks pf)" "curve_ok (pf_curve pf)"
    by (simp_all add: portfolio_ok_def)
  show "portfolio_ok (pf_exec i pf)"
  proof (cases i)
    case (PfFill f) then show ?thesis using portfolio_ok_apply [OF ok] by simp
  next
    case (PfSplit k ratio) then show ?thesis
      using P positions_ok_find [OF P(1), of k]
      by (auto simp: portfolio_split_def portfolio_ok_def Let_def positions_ok_put frame
          split: option.splits)
  next
    case (PfDividend k n) then show ?thesis
      using ok by (auto simp: portfolio_dividend_def portfolio_ok_def split: option.splits)
  next
    case (PfSnapshot ts)
    then show ?thesis
      using snapshot_curve [of ts pf] P curve_ok_snoc [OF P(3)]
      by (auto simp: portfolio_ok_def frame equity_def net_exposure_def)
  qed (use P in \<open>auto simp: portfolio_ok_def mark_def mark_last_def mark_from_quote_def\<close>)
qed

text \<open>
  C23: the books after any history. Whatever fills, splits, dividends, marks and snapshots were
  applied, the equity curve is in time order, every point on it is finite and satisfies
  equity = cash + position value, and every position stands once, under its own instrument, in key
  order.
\<close>

theorem portfolio_books_ok:
  "let pf = fold pf_exec ops (new_portfolio cfg) in
   sorted (map ep_ts (pf_curve pf)) \<and>
   list_all (\<lambda>p. fin (ep_equity p) \<and> ep_equity p = fadd (ep_cash p) (ep_net_exposure p)) (pf_curve pf) \<and>
   sorted_wrt (<) (map fst (pf_positions pf)) \<and>
   list_all (\<lambda>(k, p). pos_instrument p = k) (pf_positions pf)"
proof -
  define pf where "pf = fold pf_exec ops (new_portfolio cfg)"
  have "portfolio_ok (new_portfolio cfg)"
    by (simp add: portfolio_ok_def new_portfolio_def positions_ok_def curve_ok_def om.all_records_empty)
  then have ok: "portfolio_ok pf"
    using pf.run_inv [of "new_portfolio cfg" ops] by (simp add: pf.run_def pf_def)
  then have P: "positions_ok (pf_positions pf)" and C: "curve_ok (pf_curve pf)"
    by (simp_all add: portfolio_ok_def)
  have "\<forall>(k, p) \<in> set (pf_positions pf). pos_instrument p = k"
    using P om_in_find positions_ok_find [OF P] unfolding positions_ok_def by fast
  moreover have "sorted_wrt (<) (map fst (pf_positions pf))"
    using P unfolding positions_ok_def om_inv_def by blast
  ultimately show ?thesis
    using C unfolding Let_def pf_def [symmetric] curve_ok_def list_all_iff by blast
qed

text \<open>
  The snapshot's identity check compares equity with the very expression that defines it, so its
  error is never returned.
\<close>

lemma snapshot_never_reports_identity: "fst (snapshot ts pf) \<noteq> Err IdentityViolated"
proof -
  have "identity_holds (lit (1 / 10 ^ 6)) pf" if f: "fin (equity pf)"
  proof -
    have "val (fsub (equity pf) (equity pf)) = 0 \<and> fin (fsub (equity pf) (equity pf))"
      using exact_sub [OF f f] by simp
    moreover have "fin (lit (1 / 10 ^ 6))" "0 \<le> val (lit (1 / 10 ^ 6))" by (simp_all add: f64_eval)
    ultimately show ?thesis using f by (simp add: identity_holds_def equity_def f64_sem Let_def)
  qed
  then show ?thesis by (simp add: snapshot_def Let_def)
qed

text \<open>
  A long-only portfolio: no operation but a split changes a held quantity except through a fill, and
  a fill that would go below the tolerance is refused.
\<close>

fun keeps_quantities :: "PfOp \<Rightarrow> bool" where
  "keeps_quantities (PfSplit _ _) = False"
| "keeps_quantities _ = True"

definition oversold :: "Position \<Rightarrow> bool" where
  "oversold p \<longleftrightarrow> flt (pos_quantity p) (lit (- (1 / 10 ^ 9)))"

definition long_only :: "Portfolio \<Rightarrow> bool" where
  "long_only pf \<longleftrightarrow> \<not> allow_short (pf_cfg pf) \<and>
     om.all_records (\<lambda>k p. \<not> oversold p) (pf_positions pf)"

lemma not_oversold_new: "\<not> oversold (new_position i)"
  by (simp add: oversold_def new_position_def f64_eval f64_sem flt_def fzero_def)

lemma held_not_oversold: "long_only pf \<Longrightarrow> \<not> oversold (held_position i pf)"
  using not_oversold_new om.all_recordsD
  by (fastforce simp: held_position_def long_only_def split: option.splits)

lemma position_apply_quantity:
  "pos_quantity (snd (position_apply f p)) = fadd (pos_quantity p) (fill_signed_quantity f)"
  by (simp add: position_apply_def Let_def case_prod_beta)

lemma pf_exec_frame:
  "keeps_quantities op \<Longrightarrow> \<not> (\<exists>f. op = PfFill f) \<Longrightarrow> pf_positions (pf_exec op pf) = pf_positions pf"
  "pf_cfg (pf_exec op pf) = pf_cfg pf"
  by (cases op; auto simp: frame portfolio_dividend_def portfolio_split_def mark_def mark_last_def
      mark_from_quote_def Let_def split: option.splits)+

lemma long_only_step:
  assumes lo: "long_only pf" and keeps: "keeps_quantities op"
  shows "long_only (pf_exec op pf)"
proof (cases "\<exists>f. op = PfFill f")
  case True
  have all: "om.all_records (\<lambda>k p. \<not> oversold p) (pf_positions pf)"
    and short: "\<not> allow_short (pf_cfg pf)" using lo by (simp_all add: long_only_def)
  from True obtain f where op: "op = PfFill f" by blast
  let ?h = "held_position (f_instrument f) pf"
  have held: "om.all_records (\<lambda>k p. \<not> oversold p) (om_put (f_instrument f) ?h (pf_positions pf))"
    by (rule om.all_records_put [OF all]) (rule held_not_oversold [OF lo])
  from portfolio_apply_positions [of f pf]
  have "om.all_records (\<lambda>k p. \<not> oversold p) (pf_positions (snd (portfolio_apply f pf)))"
  proof (elim disjE exE conjE)
    fix p assume eq: "pf_positions (snd (portfolio_apply f pf)) =
        om_put (f_instrument f) p (om_put (f_instrument f) ?h (pf_positions pf))"
      "p = snd (position_apply f ?h)"
      and "\<not> flt (fadd (pos_quantity ?h) (fill_signed_quantity f)) (lit (- (1 / 10 ^ 9)))"
    then have "\<not> oversold p" by (simp add: oversold_def position_apply_quantity)
    then show ?thesis unfolding eq(1) by (rule om.all_records_put [OF held])
  qed (use all held short in simp_all)
  then show ?thesis using short by (simp add: long_only_def op frame)
next
  case False
  then show ?thesis
    using pf_exec_frame lo keeps by (simp add: long_only_def)
qed

text \<open>
  With short selling disabled, no history of fills, dividends, marks and snapshots leaves any
  instrument sold below zero by more than the tolerance of 1e-9 shares.
\<close>

theorem no_short_positions:
  assumes "\<not> allow_short cfg" and "list_all keeps_quantities ops"
    and "position_of (fold pf_exec ops (new_portfolio cfg)) i = Some p"
  shows "\<not> flt (pos_quantity p) (lit (- (1 / 10 ^ 9)))"
proof -
  have "long_only pf \<Longrightarrow> list_all keeps_quantities ops \<Longrightarrow> long_only (fold pf_exec ops pf)" for pf ops
    by (induction ops arbitrary: pf) (simp_all add: long_only_step)
  moreover have "long_only (new_portfolio cfg)"
    using assms(1) by (simp add: long_only_def new_portfolio_def om.all_records_empty)
  ultimately have "long_only (fold pf_exec ops (new_portfolio cfg))" using assms(2) by blast
  then show ?thesis
    using assms(3) om.all_recordsD unfolding long_only_def position_of_def oversold_def by fast
qed

theorem no_short_positions_witness:
  "let pf = fold pf_exec [PfFill (sample_fill 1 Sell (Fin 100) (Fin 5))]
       (new_portfolio (default_portfolio_config\<lparr>allow_short := False\<rparr>)) in
   \<exists>p. position_of pf 0 = Some p \<and> \<not> flt (pos_quantity p) (lit (- (1 / 10 ^ 9)))"
proof -
  let ?ops = "[PfFill (sample_fill 1 Sell (Fin 100) (Fin 5))]"
  let ?cfg = "default_portfolio_config\<lparr>allow_short := False\<rparr>"
  have "position_of (fold pf_exec ?ops (new_portfolio ?cfg)) 0 \<noteq> None"
    by (simp add: position_of_def portfolio_apply_def Let_def case_prod_beta omap_simps
        sample_fill_def)
  then obtain p where p: "position_of (fold pf_exec ?ops (new_portfolio ?cfg)) 0 = Some p" by blast
  have "\<not> allow_short ?cfg" by simp
  moreover have "list_all keeps_quantities ?ops" by simp
  ultimately show ?thesis unfolding Let_def using no_short_positions p by blast
qed

lemma mid_between:
  assumes "is_f64 b" "is_f64 a" "fin b" "fin a" "val b \<le> val a" "fin (fadd b a)"
  shows "fin (fmul (fadd b a) (lit (1 / 2))) \<and> val b \<le> val (fmul (fadd b a) (lit (1 / 2))) \<and>
    val (fmul (fadd b a) (lit (1 / 2))) \<le> val a"
proof -
  have half: "lit (1 / 2) = Fin (1 / 2)" by (simp add: f64_eval)
  have s: "val (fadd b a) = rnd (val b + val a)" using assms by (simp add: fadd_val)
  have "2 * val b \<le> rnd (val b + val a)" "rnd (val b + val a) \<le> 2 * val a"
    using rnd_mono [of "2 * val b" "val b + val a"] rnd_mono [of "val b + val a" "2 * val a"]
      rnd_double is_f64_rnd assms by simp_all
  then have m: "val b \<le> rnd (rnd (val b + val a) / 2)" "rnd (rnd (val b + val a) / 2) \<le> val a"
    using rnd_mono [of "val b" "rnd (val b + val a) / 2"] rnd_mono [of "rnd (val b + val a) / 2" "val a"]
      is_f64_rnd assms by simp_all
  have "\<bar>val b\<bar> < f64_lim" "\<bar>val a\<bar> < f64_lim"
    using assms by (cases b; cases a; auto simp: is_f64_def)+
  with m have "\<bar>rnd (rnd (val b + val a) / 2)\<bar> < f64_lim" by linarith
  then have "fin (fmul (fadd b a) (lit (1 / 2)))"
    using assms half s by (simp add: fin_fmul_iff)
  then show ?thesis using m half s assms by (simp add: fmul_val)
qed

text \<open>
  Liquidation marks never flatter the book. With a bid no higher than the ask, an open
  position marked to the side it would trade against (the bid for a long, the ask for a short) is
  worth at most what it is worth at the mid.
\<close>

theorem liquidation_never_flatters:
  assumes "is_f64 (mark_bid mk)" "is_f64 (mark_ask mk)" "fin (pos_quantity p)"
    and "fin (fadd (mark_bid mk) (mark_ask mk))" and "fle (mark_bid mk) (mark_ask mk)"
  shows "fle (market_value p (mark_of_mode Liquidation mk p)) (market_value p (mark_of_mode Mid mk p))"
proof -
  let ?b = "mark_bid mk" and ?a = "mark_ask mk" and ?q = "pos_quantity p"
  have ba: "fin ?b" "fin ?a" using fin_fadd_args [OF assms(4)] by simp_all
  then have m: "fin (fmul (fadd ?b ?a) (lit (1 / 2)))" "val ?b \<le> val (fmul (fadd ?b ?a) (lit (1 / 2)))"
    "val (fmul (fadd ?b ?a) (lit (1 / 2))) \<le> val ?a"
    using mid_between [OF assms(1,2) ba] assms by (simp_all add: f64_sem)
  show ?thesis
  proof (cases "val ?q < 0")
    case True
    then have "fle (fmul ?q ?a) (fmul ?q (fmul (fadd ?b ?a) (lit (1 / 2))))"
      using assms(3) ba m by (intro fmul_mono) (auto intro: mult_left_mono_neg)
    with True assms(3) show ?thesis
      by (simp add: market_value_def mark_of_mode_def is_short_def f64_sem)
  next
    case False
    then have "fle (fmul ?q ?b) (fmul ?q (fmul (fadd ?b ?a) (lit (1 / 2))))"
      using assms(3) ba m by (intro fmul_mono) (auto intro: mult_left_mono)
    with False assms(3) show ?thesis
      by (simp add: market_value_def mark_of_mode_def is_short_def f64_sem)
  qed
qed

theorem liquidation_never_flatters_witness:
  "let p = (new_position 0)\<lparr>pos_quantity := Fin (- 10)\<rparr>;
       mk = \<lparr>mark_bid = Fin 99, mark_ask = Fin 101\<rparr> in
   fle (market_value p (mark_of_mode Liquidation mk p)) (market_value p (mark_of_mode Mid mk p))"
  unfolding Let_def
  by (rule liquidation_never_flatters) (simp_all add: is_f64_def f64_eval)

end
