(* ===== verification/LiveBroker.thy ===== *)
theory LiveBroker
  imports LiveTranslator Broker Portfolio
begin

text \<open>
  The live broker adapter (\<open>src/live/broker.cpp\<close>, \<open>include/ptl/live/broker.hpp\<close>): orders out to the venue,
  order updates and fills back in, and the comparison of the portfolio with the venue's account. The
  connection, the simulator and the outside world are borrowed in the code; here a \<open>LiveDesk\<close> holds them
  beside the broker, and the translator, the clock and the transport are arguments. The simulator reads
  the same clock as the broker, as in a session. Text reports and \<open>to_json\<close> are not modelled, and the
  numbers in error texts are the numbers.
\<close>

section \<open>Accounts and reports\<close>

record BrokerAccountSnapshot =
  ba_ts :: Timestamp
  ba_cash :: Notional
  ba_buying_power :: Notional
  ba_equity :: Notional
  ba_position_value :: Notional
  ba_realized_pnl :: Notional
  ba_unrealized_pnl :: Notional
  ba_positions :: "(InstrumentId, f64) omap"
  ba_open_order_count :: nat

definition no_account :: BrokerAccountSnapshot where
  "no_account = \<lparr>ba_ts = kNoTimestamp, ba_cash = fzero, ba_buying_power = fzero, ba_equity = fzero,
     ba_position_value = fzero, ba_realized_pnl = fzero, ba_unrealized_pnl = fzero, ba_positions = [],
     ba_open_order_count = 0\<rparr>"

datatype drift_note = CashDiffers | VenueOnlyPosition InstrumentId

record ReconciliationReport =
  rr_ts :: Timestamp
  rr_cash_matches :: bool
  rr_positions_match :: bool
  rr_cash_drift :: Notional
  rr_position_drift :: "(InstrumentId, f64) omap"
  rr_notes :: "drift_note list"

definition report_clean :: "ReconciliationReport \<Rightarrow> bool" where
  "report_clean r \<longleftrightarrow> rr_cash_matches r \<and> rr_positions_match r \<and> rr_position_drift r = []"

record LiveBrokerConfig =
  lb_cash_tolerance :: f64
  lb_position_tolerance :: f64
  lb_require_clean :: bool
  lb_max_order_notional :: Notional

definition default_live_broker :: LiveBrokerConfig where
  "default_live_broker = \<lparr>lb_cash_tolerance = lit (1 / 100), lb_position_tolerance = fzero,
     lb_require_clean = True, lb_max_order_notional = lit (10 ^ 7)\<rparr>"

record LiveBrokerStats =
  ls_submitted :: nat
  ls_accepted :: nat
  ls_rejected :: nat
  ls_cancelled :: nat
  ls_replaced :: nat
  ls_fills_ingested :: nat
  ls_fills_refused :: nat
  ls_reconciliations :: nat
  ls_reconciliation_failures :: nat

definition no_live_stats :: LiveBrokerStats where
  "no_live_stats = \<lparr>ls_submitted = 0, ls_accepted = 0, ls_rejected = 0, ls_cancelled = 0, ls_replaced = 0,
     ls_fills_ingested = 0, ls_fills_refused = 0, ls_reconciliations = 0, ls_reconciliation_failures = 0\<rparr>"

record LiveBroker =
  lb_config :: LiveBrokerConfig
  lb_listener :: Listener
  lb_stats :: LiveBrokerStats
  lb_account :: BrokerAccountSnapshot
  lb_venue_ids :: "(OrderId, string) omap"
  lb_working :: "(OrderId, bool) omap"

definition new_live_broker :: "LiveBrokerConfig \<Rightarrow> LiveBroker" where
  "new_live_broker c = \<lparr>lb_config = c, lb_listener = [], lb_stats = no_live_stats, lb_account = no_account,
     lb_venue_ids = [], lb_working = []\<rparr>"

record 'w LiveDesk =
  dk_broker :: LiveBroker
  dk_connection :: LiveConnection
  dk_simulator :: BrokerSimulator
  dk_world :: 'w

datatype live_error = OrdersNotPermitted ConnectionState | NotionalExceeds f64
  | FromTranslator translator_error | FromSimulator broker_error | FromListener listener_error
  | FromConnection connection_error

abbreviation with_broker :: "(LiveBroker \<Rightarrow> LiveBroker) \<Rightarrow> 'w LiveDesk \<Rightarrow> 'w LiveDesk" where
  "with_broker g d \<equiv> d\<lparr>dk_broker := g (dk_broker d)\<rparr>"

abbreviation with_live_stats :: "(LiveBrokerStats \<Rightarrow> LiveBrokerStats) \<Rightarrow> 'w LiveDesk \<Rightarrow> 'w LiveDesk" where
  "with_live_stats g d \<equiv> with_broker (\<lambda>b. b\<lparr>lb_stats := g (lb_stats b)\<rparr>) d"

abbreviation live_rejected :: "'w LiveDesk \<Rightarrow> 'w LiveDesk" where
  "live_rejected \<equiv> with_live_stats (\<lambda>s. s\<lparr>ls_rejected := ls_rejected s + 1\<rparr>)"

section \<open>Orders out\<close>

definition reference_of :: "Order \<Rightarrow> Price" where
  "reference_of o1 = (case ord_limit_price o1 of Some p \<Rightarrow> p | None \<Rightarrow> ord_arrival_price o1)"

text \<open>\<open>connection_->send\<close>, with the world it leaves behind.\<close>

definition desk_send :: "'w LiveTransport \<Rightarrow> string \<Rightarrow> 'w LiveDesk \<Rightarrow> (connection_error, bool) result \<times> 'w LiveDesk" where
  "desk_send tr p d = (let (r, w) = conn_send tr p (dk_connection d) (dk_world d) in (r, d\<lparr>dk_world := w\<rparr>))"

text \<open>
  \<open>LiveBroker::submit\<close>; \<open>None\<close> where the simulator's latency draw does not return.
\<close>

definition live_submit ::
    "OrderTranslator \<Rightarrow> 'w clock \<Rightarrow> 'w LiveTransport \<Rightarrow> Order \<Rightarrow> 'w LiveDesk
      \<Rightarrow> ((live_error, bool) result \<times> 'w LiveDesk) option" where
  "live_submit tx clk tr o1 d0 =
     (let d = with_live_stats (\<lambda>s. s\<lparr>ls_submitted := ls_submitted s + 1\<rparr>) d0;
          worth = fmul (ord_quantity o1) (reference_of o1);
          cap = lb_max_order_notional (lb_config (dk_broker d)) in
      if \<not> permits_trading (lc_state (dk_connection d)) then
        Some (Err (OrdersNotPermitted (lc_state (dk_connection d))), live_rejected d)
      else if flt fzero cap \<and> is_finite worth \<and> flt cap worth then
        Some (Err (NotionalExceeds worth), live_rejected d)
      else
       (case ot_encode_new tx o1 of
          Inl e \<Rightarrow> Some (Err (FromTranslator e), live_rejected d)
        | Inr rq \<Rightarrow>
            (let (t, w1) = clk (dk_world d) in
             case broker_submit t o1 (dk_simulator d) of
               None \<Rightarrow> None
             | Some (Inl e, sim) \<Rightarrow>
                 Some (Err (FromSimulator e), live_rejected (d\<lparr>dk_simulator := sim, dk_world := w1\<rparr>))
             | Some (Inr _, sim) \<Rightarrow>
                 (let d1 = d\<lparr>dk_simulator := sim, dk_world := w1\<rparr>;
                      (tracked, l) = track (rq_client_order_id rq) (ord_id o1) (lb_listener (dk_broker d1));
                      d2 = with_broker (\<lambda>b. b\<lparr>lb_listener := l\<rparr>) d1 in
                  case tracked of
                    Inl e \<Rightarrow> Some (Err (FromListener e), d2)
                  | Inr _ \<Rightarrow>
                      (case desk_send tr (rq_payload rq) d2 of
                         (Inl e, d3) \<Rightarrow>
                           Some (Err (FromConnection e),
                             live_rejected (with_broker
                               (\<lambda>b. b\<lparr>lb_listener := forget (rq_client_order_id rq) (lb_listener b)\<rparr>) d3
                                 \<lparr>dk_simulator := snd (broker_cancel (ord_id o1) (dk_simulator d3))\<rparr>))
                       | (Inr _, d3) \<Rightarrow>
                           Some (Ok True,
                             with_live_stats (\<lambda>s. s\<lparr>ls_accepted := ls_accepted s + 1\<rparr>)
                               (with_broker (\<lambda>b. b\<lparr>lb_working := om_put (ord_id o1) True (lb_working b)\<rparr>) d3)))))))"

definition venue_id_of :: "OrderId \<Rightarrow> LiveBroker \<Rightarrow> string" where
  "venue_id_of oid b = (case om_find (lb_venue_ids b) oid of None \<Rightarrow> [] | Some v \<Rightarrow> v)"

definition live_cancel ::
    "OrderTranslator \<Rightarrow> 'w LiveTransport \<Rightarrow> OrderId \<Rightarrow> 'w LiveDesk \<Rightarrow> (live_error, bool) result \<times> 'w LiveDesk" where
  "live_cancel tx tr oid d =
     (case ot_encode_cancel tx oid (venue_id_of oid (dk_broker d)) of
        Inl e \<Rightarrow> (Err (FromTranslator e), d)
      | Inr rq \<Rightarrow>
          (case desk_send tr (rq_payload rq) d of
             (Inl e, d1) \<Rightarrow> (Err (FromConnection e), d1)
           | (Inr _, d1) \<Rightarrow> (Ok True, with_live_stats (\<lambda>s. s\<lparr>ls_cancelled := ls_cancelled s + 1\<rparr>) d1)))"

definition live_replace ::
    "OrderTranslator \<Rightarrow> 'w LiveTransport \<Rightarrow> Order \<Rightarrow> 'w LiveDesk \<Rightarrow> (live_error, bool) result \<times> 'w LiveDesk" where
  "live_replace tx tr o1 d =
     (case ot_encode_replace tx o1 (venue_id_of (ord_id o1) (dk_broker d)) of
        Inl e \<Rightarrow> (Err (FromTranslator e), d)
      | Inr rq \<Rightarrow>
          (case desk_send tr (rq_payload rq) d of
             (Inl e, d1) \<Rightarrow> (Err (FromConnection e), d1)
           | (Inr _, d1) \<Rightarrow> (Ok True, with_live_stats (\<lambda>s. s\<lparr>ls_replaced := ls_replaced s + 1\<rparr>) d1)))"

section \<open>Updates in\<close>

definition observe_account :: "BrokerAccountSnapshot \<Rightarrow> LiveBroker \<Rightarrow> LiveBroker" where
  "observe_account a b = b\<lparr>lb_account := a\<rparr>"

definition account_of_message :: "BrokerMessage \<Rightarrow> BrokerAccountSnapshot" where
  "account_of_message m = no_account\<lparr>ba_ts := bm_venue_time m, ba_cash := bm_price m\<rparr>"

definition note_venue_id :: "OrderUpdate \<Rightarrow> LiveBroker \<Rightarrow> LiveBroker" where
  "note_venue_id u b =
     (if ou_venue_order_id u \<noteq> []
      then b\<lparr>lb_venue_ids := om_put (ou_order_id u) (ou_venue_order_id u) (lb_venue_ids b)\<rparr> else b)"

definition stop_working :: "OrderTranslator \<Rightarrow> OrderId \<Rightarrow> LiveBroker \<Rightarrow> LiveBroker" where
  "stop_working tx oid b = b\<lparr>lb_working := om_erase oid (lb_working b),
     lb_listener := forget (ot_client_order_id tx oid) (lb_listener b)\<rparr>"

definition fill_report :: "OrderUpdate \<Rightarrow> Timestamp \<Rightarrow> ExternalFillReport" where
  "fill_report u t = \<lparr>xr_order_id = ou_order_id u, xr_quantity = ou_filled_quantity u,
     xr_price = ou_fill_price u, xr_fill_time = t, xr_commission = ou_commission u,
     xr_exchange_fee = ou_exchange_fee u, xr_liquidity = Taker, xr_venue_fill_id = ou_venue_fill_id u\<rparr>"

text \<open>One attributed update: the fill it makes, if it makes one.\<close>

definition apply_update ::
    "OrderTranslator \<Rightarrow> 'w clock \<Rightarrow> OrderUpdate \<Rightarrow> 'w LiveDesk
      \<Rightarrow> (live_error, Fill option) result \<times> 'w LiveDesk" where
  "apply_update tx clk u d =
     (case ou_kind u of
        UpAccepted \<Rightarrow> (Ok None, with_broker (note_venue_id u) d)
      | UpReplaced \<Rightarrow> (Ok None, with_broker (note_venue_id u) d)
      | UpRejected \<Rightarrow> (Ok None, live_rejected (with_broker (stop_working tx (ou_order_id u)) d
            \<lparr>dk_simulator := snd (broker_cancel (ou_order_id u) (dk_simulator d))\<rparr>))
      | UpCancelled \<Rightarrow> (Ok None, with_broker (stop_working tx (ou_order_id u)) d
            \<lparr>dk_simulator := snd (broker_cancel (ou_order_id u) (dk_simulator d))\<rparr>)
      | UpIgnored \<Rightarrow> (Ok None, d)
      | _ \<Rightarrow>
          (let (t, w1) = (if is_set (ou_venue_time u) then (ou_venue_time u, dk_world d) else clk (dk_world d));
               (r, sim) = ingest_external_fill (fill_report u t) (dk_simulator d);
               d1 = d\<lparr>dk_simulator := sim, dk_world := w1\<rparr> in
           case r of
             Inl e \<Rightarrow> (Err (FromSimulator e), with_live_stats (\<lambda>s. s\<lparr>ls_fills_refused := ls_fills_refused s + 1\<rparr>) d1)
           | Inr f \<Rightarrow>
               (let d2 = with_live_stats (\<lambda>s. s\<lparr>ls_fills_ingested := ls_fills_ingested s + 1\<rparr>) d1 in
                (Ok (Some f), if ou_kind u = UpFilled then with_broker (stop_working tx (ou_order_id u)) d2 else d2))))"

definition apply_message ::
    "OrderTranslator \<Rightarrow> 'w clock \<Rightarrow> BrokerMessage \<Rightarrow> 'w LiveDesk
      \<Rightarrow> (live_error, Fill option) result \<times> 'w LiveDesk" where
  "apply_message tx clk m d =
     (if bm_kind m = MsgAccountUpdate then (Ok None, with_broker (observe_account (account_of_message m)) d)
      else (case interpret_message m (lb_listener (dk_broker d)) of
              Inl e \<Rightarrow> (Err (FromListener e), with_live_stats (\<lambda>s. s\<lparr>ls_fills_refused := ls_fills_refused s + 1\<rparr>) d)
            | Inr u \<Rightarrow> apply_update tx clk u d))"

text \<open>The loop over what the connection delivered; an error abandons it.\<close>

fun apply_messages ::
    "OrderTranslator \<Rightarrow> 'w clock \<Rightarrow> BrokerMessage list \<Rightarrow> Fill list \<Rightarrow> 'w LiveDesk
      \<Rightarrow> (live_error, Fill list) result \<times> 'w LiveDesk" where
  "apply_messages tx clk [] fills d = (Ok fills, d)"
| "apply_messages tx clk (m # ms) fills d =
     (case apply_message tx clk m d of
        (Inl e, d1) \<Rightarrow> (Err e, d1)
      | (Inr None, d1) \<Rightarrow> apply_messages tx clk ms fills d1
      | (Inr (Some f), d1) \<Rightarrow> apply_messages tx clk ms (fills @ [f]) d1)"

definition live_poll ::
    "OrderTranslator \<Rightarrow> 'w clock \<Rightarrow> 'w LiveTransport \<Rightarrow> 'w LiveDesk
      \<Rightarrow> (live_error, Fill list) result \<times> 'w LiveDesk" where
  "live_poll tx clk tr d =
     (let (ms, c, w) = conn_poll clk tr (dk_connection d) (dk_world d) in
      apply_messages tx clk ms [] (d\<lparr>dk_connection := c, dk_world := w\<rparr>))"

definition working_orders :: "LiveBroker \<Rightarrow> OrderId list" where
  "working_orders b = map fst (filter snd (lb_working b))"

section \<open>Reconciliation\<close>

definition add_drift :: "InstrumentId \<Rightarrow> f64 \<Rightarrow> ReconciliationReport \<Rightarrow> ReconciliationReport" where
  "add_drift k x r = r\<lparr>rr_position_drift := om_put k x (rr_position_drift r), rr_positions_match := False\<rparr>"

fun compare_ours ::
    "f64 \<Rightarrow> (InstrumentId, f64) omap \<Rightarrow> (InstrumentId, Position) omap \<Rightarrow> ReconciliationReport
      \<Rightarrow> ReconciliationReport" where
  "compare_ours tol venue [] r = r"
| "compare_ours tol venue ((k, p) # ps) r =
     (let ours = pos_quantity p;
          theirs = (case om_find venue k of None \<Rightarrow> fzero | Some q \<Rightarrow> q) in
      compare_ours tol venue ps
        (if flt tol (fabs (fsub ours theirs)) then add_drift k (fsub ours theirs) r else r))"

fun compare_theirs ::
    "f64 \<Rightarrow> (InstrumentId, Position) omap \<Rightarrow> (InstrumentId, f64) omap \<Rightarrow> ReconciliationReport
      \<Rightarrow> ReconciliationReport" where
  "compare_theirs tol ours [] r = r"
| "compare_theirs tol ours ((k, q) # qs) r =
     compare_theirs tol ours qs
       (if om_contains (rr_position_drift r) k then r
        else if om_find ours k = None \<and> flt tol (fabs q)
        then (add_drift k (fneg q) r)\<lparr>rr_notes := rr_notes r @ [VenueOnlyPosition k]\<rparr>
        else r)"

definition live_reconcile :: "LiveBrokerConfig \<Rightarrow> Portfolio \<Rightarrow> BrokerAccountSnapshot \<Rightarrow> ReconciliationReport" where
  "live_reconcile c p venue =
     (let drift = fsub (pf_cash p) (ba_cash venue);
          ok = fle (fabs drift) (lb_cash_tolerance c);
          r0 = \<lparr>rr_ts = ba_ts venue, rr_cash_matches = ok, rr_positions_match = True, rr_cash_drift = drift,
                rr_position_drift = [], rr_notes = (if ok then [] else [CashDiffers])\<rparr>;
          r1 = compare_ours (lb_position_tolerance c) (ba_positions venue) (pf_positions p) r0 in
      compare_theirs (lb_position_tolerance c) (pf_positions p) (ba_positions venue) r1)"

section \<open>What a reconciliation finds\<close>

definition theirs_of :: "BrokerAccountSnapshot \<Rightarrow> InstrumentId \<Rightarrow> f64" where
  "theirs_of v k = (case om_find (ba_positions v) k of None \<Rightarrow> fzero | Some q \<Rightarrow> q)"

text \<open>Our quantity minus theirs, where a book without the instrument holds none.\<close>

definition drift_of :: "Portfolio \<Rightarrow> BrokerAccountSnapshot \<Rightarrow> InstrumentId \<Rightarrow> f64" where
  "drift_of p v k = (case om_find (pf_positions p) k of
     None \<Rightarrow> fneg (theirs_of v k) | Some q \<Rightarrow> fsub (pos_quantity q) (theirs_of v k))"

lemma add_drift_fields [simp]:
  "rr_position_drift (add_drift k x r) = om_put k x (rr_position_drift r)"
  "rr_positions_match (add_drift k x r) = False"
  "rr_cash_matches (add_drift k x r) = rr_cash_matches r" "rr_ts (add_drift k x r) = rr_ts r"
  "rr_cash_drift (add_drift k x r) = rr_cash_drift r" "rr_notes (add_drift k x r) = rr_notes r"
  by (simp_all add: add_drift_def)

text \<open>The report lists a drift exactly where positions do not match.\<close>

definition drift_listed :: "ReconciliationReport \<Rightarrow> bool" where
  "drift_listed r \<longleftrightarrow> (rr_positions_match r \<longleftrightarrow> rr_position_drift r = [])"

lemma om_put_nonempty [simp]: "om_put k v m \<noteq> []"
  by (cases m) (auto split: if_splits)

lemma drift_listed_add [simp]: "drift_listed (add_drift k x r)" "drift_listed (add_drift k x r\<lparr>rr_notes := n\<rparr>)"
  by (simp_all add: drift_listed_def)

lemma compare_ours_drift:
  assumes "om_inv ps"
  shows "om_find (rr_position_drift (compare_ours tol venue ps r)) k =
      (case om_find ps k of None \<Rightarrow> om_find (rr_position_drift r) k
       | Some p \<Rightarrow> (let x = fsub (pos_quantity p) (case om_find venue k of None \<Rightarrow> fzero | Some q \<Rightarrow> q) in
           if flt tol (fabs x) then Some x else om_find (rr_position_drift r) k))
    \<and> rr_cash_matches (compare_ours tol venue ps r) = rr_cash_matches r
    \<and> (drift_listed r \<longrightarrow> drift_listed (compare_ours tol venue ps r))"
  using assms
proof (induction ps arbitrary: r)
  case (Cons a ps)
  obtain j p where a: "a = (j, p)" by fastforce
  have j: "om_find ps j = None"
    using Cons.prems om_find_in [of ps j] by (cases "om_find ps j") (force simp: a)+
  show ?case
    using Cons.IH Cons.prems j by (auto simp: a om_find_Cons omap_simps Let_def split: option.splits)
qed simp

lemma compare_theirs_drift:
  assumes "om_inv qs"
  shows "om_find (rr_position_drift (compare_theirs tol ours qs r)) k =
      (case om_find (rr_position_drift r) k of Some x \<Rightarrow> Some x
       | None \<Rightarrow> (case om_find qs k of None \<Rightarrow> None
          | Some q \<Rightarrow> if om_find ours k = None \<and> flt tol (fabs q) then Some (fneg q) else None))
    \<and> rr_cash_matches (compare_theirs tol ours qs r) = rr_cash_matches r
    \<and> (drift_listed r \<longrightarrow> drift_listed (compare_theirs tol ours qs r))"
  using assms
proof (induction qs arbitrary: r)
  case (Cons a qs)
  obtain j q where a: "a = (j, q)" by fastforce
  have j: "om_find qs j = None"
    using Cons.prems om_find_in [of qs j] by (cases "om_find qs j") (force simp: a)+
  show ?case
    using Cons.IH Cons.prems j
    by (auto simp: a om_find_Cons omap_simps om_contains_def split: option.splits)
qed (simp split: option.splits)

lemma fabs_fneg [simp]: "fabs (fneg x) = fabs x"
  by (cases x) auto

lemma om_find_Nil_iff: "om_inv m \<Longrightarrow> (\<forall>k. om_find m k = None) \<longleftrightarrow> m = []"
  by (cases m) (auto simp: om_find_Cons)

lemma compare_keeps_inv:
  "om_inv (rr_position_drift r) \<Longrightarrow> om_inv (rr_position_drift (compare_ours tol venue ps r))"
  "om_inv (rr_position_drift r) \<Longrightarrow> om_inv (rr_position_drift (compare_theirs tol ours qs r))"
proof -
  show "om_inv (rr_position_drift r) \<Longrightarrow> om_inv (rr_position_drift (compare_ours tol venue ps r))"
    by (induction ps arbitrary: r) (auto simp: Let_def om_inv_put)
  show "om_inv (rr_position_drift r) \<Longrightarrow> om_inv (rr_position_drift (compare_theirs tol ours qs r))"
    by (induction qs arbitrary: r) (auto simp: om_inv_put)
qed

lemma reconcile_drift:
  assumes "om_inv (pf_positions p)" "om_inv (ba_positions v)" "\<not> flt (lb_position_tolerance c) fzero"
  defines "r \<equiv> live_reconcile c p v"
  shows "om_find (rr_position_drift r) k =
      (if flt (lb_position_tolerance c) (fabs (drift_of p v k)) then Some (drift_of p v k) else None)"
    and "drift_listed r" "om_inv (rr_position_drift r)"
    and "rr_cash_matches r = fle (fabs (fsub (pf_cash p) (ba_cash v))) (lb_cash_tolerance c)"
proof -
  define r0 where "r0 = \<lparr>rr_ts = ba_ts v,
     rr_cash_matches = fle (fabs (fsub (pf_cash p) (ba_cash v))) (lb_cash_tolerance c),
     rr_positions_match = True, rr_cash_drift = fsub (pf_cash p) (ba_cash v), rr_position_drift = [],
     rr_notes = (if fle (fabs (fsub (pf_cash p) (ba_cash v))) (lb_cash_tolerance c) then [] else [CashDiffers])\<rparr>"
  define r1 where "r1 = compare_ours (lb_position_tolerance c) (ba_positions v) (pf_positions p) r0"
  have r: "r = compare_theirs (lb_position_tolerance c) (pf_positions p) (ba_positions v) r1"
    by (simp add: r_def live_reconcile_def r0_def r1_def Let_def)
  note o1 = compare_ours_drift [OF assms(1), of "lb_position_tolerance c" "ba_positions v" r0, folded r1_def]
  note t1 = compare_theirs_drift [OF assms(2), of "lb_position_tolerance c" "pf_positions p" r1, folded r]
  have z: "\<not> flt (lb_position_tolerance c) (fabs (fneg fzero))" using assms(3) by (simp add: fzero_def)
  show "om_find (rr_position_drift r) k =
      (if flt (lb_position_tolerance c) (fabs (drift_of p v k)) then Some (drift_of p v k) else None)"
    using o1 t1 z by (auto simp: drift_of_def theirs_of_def r0_def Let_def split: option.splits)
  show "drift_listed r" using o1 t1 by (simp add: r0_def drift_listed_def)
  show "om_inv (rr_position_drift r)" by (simp add: r r1_def r0_def compare_keeps_inv)
  show "rr_cash_matches r = fle (fabs (fsub (pf_cash p) (ba_cash v))) (lb_cash_tolerance c)"
    using o1 t1 by (simp add: r0_def)
qed

section \<open>The fills of a poll\<close>

definition fill_message :: "BrokerMessage \<Rightarrow> bool" where
  "fill_message m \<longleftrightarrow> bm_kind m = MsgPartialFill \<or> bm_kind m = MsgFill"

text \<open>The fill a message reports, as the venue reported it.\<close>

definition reports :: "BrokerMessage \<Rightarrow> Fill \<Rightarrow> bool" where
  "reports m f \<longleftrightarrow> fill_message m \<and> f_price f = bm_price m \<and> f_quantity f = bm_quantity m
     \<and> f_commission f = bm_commission m \<and> f_exchange_fee f = bm_exchange_fee m"

definition booked :: "'w LiveDesk \<Rightarrow> nat" where
  "booked d = st_fills (br_stats (dk_simulator d))"

lemma ingest_result:
  assumes "ingest_external_fill x b = (r, b')"
  shows "(case r of Inl _ \<Rightarrow> b' = b
      | Inr f \<Rightarrow> f_price f = xr_price x \<and> f_quantity f = xr_quantity x \<and> f_commission f = xr_commission x
          \<and> f_exchange_fee f = xr_exchange_fee x \<and> f_order_id f = xr_order_id x
          \<and> st_fills (br_stats b') = st_fills (br_stats b) + 1
          \<and> (\<exists>q\<in>set (br_pending b). ord_id (po_order q) = xr_order_id x \<and> f_instrument f = ord_instrument (po_order q)))"
proof (cases "List.find (is_order (xr_order_id x)) (br_pending b)")
  case (Some q)
  then have "q \<in> set (br_pending b)" "ord_id (po_order q) = xr_order_id x"
    by (auto simp: find_Some_iff is_order_def)
  then show ?thesis
    using Some assms by (auto simp: ingest_external_fill_def Let_def fill_of_def split: option.splits if_splits)
qed (use assms in \<open>auto simp: ingest_external_fill_def\<close>)

lemma fill_report_fields [simp]:
  "xr_order_id (fill_report u t) = ou_order_id u" "xr_quantity (fill_report u t) = ou_filled_quantity u"
  "xr_price (fill_report u t) = ou_fill_price u" "xr_commission (fill_report u t) = ou_commission u"
  "xr_exchange_fee (fill_report u t) = ou_exchange_fee u"
  by (simp_all add: fill_report_def)

lemma broker_cancel_stats [simp]: "br_stats (snd (broker_cancel oid b)) = br_stats b"
  by (simp add: broker_cancel_def split: option.split)

lemma interpret_fill:
  "interpret_message m l = Ok u \<Longrightarrow>
     ou_kind u = update_kind (bm_kind m) \<and>
     (ou_kind u = UpPartiallyFilled \<or> ou_kind u = UpFilled \<longrightarrow>
        ou_filled_quantity u = bm_quantity m \<and> ou_fill_price u = bm_price m \<and> ou_commission u = bm_commission m
        \<and> ou_exchange_fee u = bm_exchange_fee m \<and> resolve (bm_client_order_id m) l = Some (ou_order_id u))"
  by (auto simp: interpret_message_def update_of_def update_is_fill_def Let_def split: if_splits option.splits)

lemma update_kind_fill [simp]:
  "update_kind k = UpPartiallyFilled \<longleftrightarrow> k = MsgPartialFill" "update_kind k = UpFilled \<longleftrightarrow> k = MsgFill"
  by (cases k; simp)+

lemma apply_update_fill:
  assumes "apply_update tx clk u d = (r, d')"
  shows "case r of
     Inl _ \<Rightarrow> booked d' = booked d
   | Inr None \<Rightarrow> booked d' = booked d \<and> ou_kind u \<noteq> UpPartiallyFilled \<and> ou_kind u \<noteq> UpFilled
   | Inr (Some f) \<Rightarrow> booked d' = booked d + 1 \<and> (ou_kind u = UpPartiallyFilled \<or> ou_kind u = UpFilled)
       \<and> f_price f = ou_fill_price u \<and> f_quantity f = ou_filled_quantity u
       \<and> f_commission f = ou_commission u \<and> f_exchange_fee f = ou_exchange_fee u \<and> f_order_id f = ou_order_id u"
proof (cases "ou_kind u = UpPartiallyFilled \<or> ou_kind u = UpFilled")
  case True
  define tw where "tw = (if is_set (ou_venue_time u) then (ou_venue_time u, dk_world d) else clk (dk_world d))"
  obtain t w where t: "tw = (t, w)" by fastforce
  obtain x sim where i: "ingest_external_fill (fill_report u t) (dk_simulator d) = (x, sim)" by fastforce
  show ?thesis
    using True assms ingest_result [OF i]
    by (auto simp: apply_update_def tw_def [symmetric] t i booked_def Let_def
        split: sum.splits UpdateKind.splits)
next
  case False
  then show ?thesis using assms by (auto simp: apply_update_def booked_def split: UpdateKind.splits)
qed

lemma apply_message_fill:
  assumes "apply_message tx clk m d = (r, d')"
  shows "case r of
     Inl _ \<Rightarrow> booked d' = booked d
   | Inr None \<Rightarrow> booked d' = booked d \<and> \<not> fill_message m
   | Inr (Some f) \<Rightarrow> booked d' = booked d + 1 \<and> reports m f
       \<and> resolve (bm_client_order_id m) (lb_listener (dk_broker d)) = Some (f_order_id f)"
proof (cases "bm_kind m = MsgAccountUpdate")
  case True
  then show ?thesis using assms by (auto simp: apply_message_def booked_def fill_message_def)
next
  case False
  show ?thesis
  proof (cases "interpret_message m (lb_listener (dk_broker d))")
    case (Inl e)
    then show ?thesis using assms False by (auto simp: apply_message_def booked_def)
  next
    case (Inr u)
    then have "apply_update tx clk u d = (r, d')" using assms False by (simp add: apply_message_def)
    from apply_update_fill [OF this] interpret_fill [OF Inr] show ?thesis
      by (auto simp: reports_def fill_message_def split: sum.splits option.splits)
  qed
qed

text \<open>While updates are applied the listener forgets and never learns.\<close>

definition knows_no_more :: "'w LiveDesk \<Rightarrow> Listener \<Rightarrow> bool" where
  "knows_no_more d l \<longleftrightarrow> (\<forall>c oid. resolve c (lb_listener (dk_broker d)) = Some oid \<longrightarrow> resolve c l = Some oid)"

lemma apply_message_listener:
  assumes "apply_message tx clk m d = (r, d')" "knows_no_more d l"
  shows "knows_no_more d' l"
proof -
  have "lb_listener (dk_broker d') = lb_listener (dk_broker d)
      \<or> (\<exists>c. lb_listener (dk_broker d') = forget c (lb_listener (dk_broker d)))"
    using assms(1) unfolding apply_message_def apply_update_def note_venue_id_def stop_working_def observe_account_def
    by (auto simp: Let_def split: if_splits sum.splits UpdateKind.splits prod.splits)
  then show ?thesis
    using assms(2) by (auto simp: knows_no_more_def resolve_def forget_def omap_simps split: if_splits)
qed

definition reports_own :: "Listener \<Rightarrow> BrokerMessage \<Rightarrow> Fill \<Rightarrow> bool" where
  "reports_own l m f \<longleftrightarrow> reports m f \<and> resolve (bm_client_order_id m) l = Some (f_order_id f)"

lemma apply_messages_fills:
  "apply_messages tx clk ms fills d = (r, d') \<Longrightarrow> knows_no_more d l \<Longrightarrow>
     (case r of
        Inl _ \<Rightarrow> booked d \<le> booked d'
      | Inr out \<Rightarrow> \<exists>fs. out = fills @ fs \<and> list_all2 (reports_own l) (filter fill_message ms) fs
          \<and> booked d' = booked d + length fs)"
proof (induction ms arbitrary: fills d)
  case (Cons m ms)
  obtain x d1 where m: "apply_message tx clk m d = (x, d1)" by fastforce
  note one = apply_message_fill [OF m] and l = apply_message_listener [OF m Cons.prems(2)]
  show ?case
  proof (cases x)
    case (Inl e)
    then show ?thesis using Cons.prems one by (auto simp: m)
  next
    case (Inr fo)
    show ?thesis
    proof (cases fo)
      case None
      then have "apply_messages tx clk ms fills d1 = (r, d')" using Cons.prems by (simp add: m Inr)
      from Cons.IH [OF this l] one show ?thesis by (simp add: Inr None split: sum.splits)
    next
      case (Some f)
      then have "apply_messages tx clk ms (fills @ [f]) d1 = (r, d')" using Cons.prems by (simp add: m Inr)
      moreover have "reports_own l m f" using one Cons.prems(2) by (simp add: Inr Some reports_own_def knows_no_more_def)
      ultimately show ?thesis
        using Cons.IH [OF _ l] one by (fastforce simp: Inr Some reports_def split: sum.splits)
    qed
  qed
qed auto

section \<open>Submission\<close>

text \<open>What a refused submission must leave alone, and what an accepted one adds.\<close>

definition same_book :: "'w LiveDesk \<Rightarrow> 'w LiveDesk \<Rightarrow> bool" where
  "same_book d d' \<longleftrightarrow> br_pending (dk_simulator d') = br_pending (dk_simulator d)
     \<and> lb_listener (dk_broker d') = lb_listener (dk_broker d) \<and> lb_working (dk_broker d') = lb_working (dk_broker d)
     \<and> lb_venue_ids (dk_broker d') = lb_venue_ids (dk_broker d) \<and> dk_connection d' = dk_connection d"

definition order_added :: "OrderTranslator \<Rightarrow> Order \<Rightarrow> 'w LiveDesk \<Rightarrow> 'w LiveDesk \<Rightarrow> bool" where
  "order_added tx o1 d d' \<longleftrightarrow>
     (\<exists>p. br_pending (dk_simulator d') = br_pending (dk_simulator d) @ [p] \<and> ord_id (po_order p) = ord_id o1)
     \<and> lb_listener (dk_broker d') = om_put (ot_client_order_id tx (ord_id o1)) (ord_id o1) (lb_listener (dk_broker d))
     \<and> lb_working (dk_broker d') = om_put (ord_id o1) True (lb_working (dk_broker d))
     \<and> dk_connection d' = dk_connection d"

text \<open>An order the desk has not seen: not pending at the simulator and not tracked by the listener.\<close>

definition fresh_order :: "OrderTranslator \<Rightarrow> Order \<Rightarrow> 'w LiveDesk \<Rightarrow> bool" where
  "fresh_order tx o1 d \<longleftrightarrow> ord_id o1 \<noteq> kNoOrder
     \<and> resolve (ot_client_order_id tx (ord_id o1)) (lb_listener (dk_broker d)) = None
     \<and> (\<forall>p\<in>set (br_pending (dk_simulator d)). ord_id (po_order p) \<noteq> ord_id o1)"

lemma om_erase_put: "om_find m k = None \<Longrightarrow> om_erase k (om_put k v m) = m"
  by (induction m) (auto simp: om_erase_def om_find_def filter_id_conv map_of_eq_None_iff image_iff split: if_splits)

lemma erase_first_last: "\<forall>p\<in>set ps. \<not> P p \<Longrightarrow> P q \<Longrightarrow> erase_first P (ps @ [q]) = ps"
  by (induction ps) auto

lemma find_last: "\<forall>p\<in>set ps. \<not> P p \<Longrightarrow> P q \<Longrightarrow> List.find P (ps @ [q]) = Some q"
  by (induction ps) auto

lemma broker_submit_cases:
  assumes "broker_submit t o1 b = Some (r, b')"
  shows "case r of
      Inl _ \<Rightarrow> br_pending b' = br_pending b
    | Inr _ \<Rightarrow> \<exists>p. br_pending b' = br_pending b @ [p] \<and> ord_id (po_order p) = ord_id o1"
proof -
  have w: "ord_id s = ord_id o1" if "with_arrival a o1 = Ok s" for a s
    using that by (auto simp: with_arrival_def Let_def split: option.splits)
  show ?thesis
    using assms by (auto simp: broker_submit_def Let_def count_rejected_def split: if_splits option.splits sum.splits dest!: w)
qed

lemma desk_send_keeps: "desk_send tr p d = (r, d') \<Longrightarrow> \<exists>w. d' = d\<lparr>dk_world := w\<rparr>"
  by (auto simp: desk_send_def Let_def split: prod.splits)

context order_translator
begin

lemma submission_all_or_nothing:
  assumes fr: "fresh_order tx o1 d" and s: "live_submit tx clk tr o1 d = Some (r, d')"
  shows "case r of Inl _ \<Rightarrow> same_book d d' | Inr _ \<Rightarrow> order_added tx o1 d d'"
proof -
  let ?d = "with_live_stats (\<lambda>s. s\<lparr>ls_submitted := ls_submitted s + 1\<rparr>) d"
  let ?c = "ot_client_order_id tx (ord_id o1)"
  have early: "same_book d (live_rejected ?d)" by (simp add: same_book_def)
  show ?thesis
  proof (cases "ot_encode_new tx o1")
    case (Inl e)
    then show ?thesis using s early by (auto simp: live_submit_def Let_def split: if_splits)
  next
    case enc: (Inr rq)
    have rq: "rq_client_order_id rq = ?c" using encode_identity [OF enc] by simp
    obtain t w1 where t: "clk (dk_world d) = (t, w1)" by fastforce
    show ?thesis
    proof (cases "broker_submit t o1 (dk_simulator d)")
      case None
      then show ?thesis using s early by (auto simp: live_submit_def Let_def enc t split: if_splits)
    next
      case (Some a)
      obtain x sim where a: "a = (x, sim)" by fastforce
      note bs = broker_submit_cases [OF Some [unfolded a]]
      show ?thesis
      proof (cases x)
        case (Inl e)
        then show ?thesis
          using s early bs
          by (auto simp: live_submit_def Let_def enc t Some a same_book_def split: if_splits)
      next
        case ok: (Inr arrival)
        obtain p where p: "br_pending sim = br_pending (dk_simulator d) @ [p]" "ord_id (po_order p) = ord_id o1"
          using bs ok by auto
        let ?l = "om_put ?c (ord_id o1) (lb_listener (dk_broker d))"
        have tk: "track ?c (ord_id o1) (lb_listener (dk_broker d)) = (Ok True, ?l)"
          using fr track_own by (simp add: fresh_order_def)
        let ?d2 = "?d\<lparr>dk_simulator := sim, dk_world := w1,
          dk_broker := (dk_broker ?d)\<lparr>lb_listener := ?l\<rparr>\<rparr>"
        obtain y d3 where sent: "desk_send tr (rq_payload rq) ?d2 = (y, d3)" by fastforce
        then obtain w where d3: "d3 = ?d2\<lparr>dk_world := w\<rparr>" using desk_send_keeps by blast
        have undone: "om_erase ?c ?l = lb_listener (dk_broker d)"
          using fr by (intro om_erase_put) (simp add: fresh_order_def resolve_def)
        have cancel: "br_pending (snd (broker_cancel (ord_id o1) sim)) = br_pending (dk_simulator d)"
          using fr p by (simp add: broker_cancel_def find_last erase_first_last is_order_def fresh_order_def)
        show ?thesis
          using s early p undone cancel
          by (auto simp: live_submit_def Let_def enc t Some a ok rq tk sent [simplified] d3 same_book_def
              order_added_def forget_def split: if_splits sum.splits)
      qed
    qed
  qed
qed

end

section \<open>What the live broker promises\<close>

text \<open>
  C19: The submission of an order the desk has not seen happens entirely or not at all. The order is fresh: it has an
  id, the simulator has no pending order of that id and the listener does not know its client id. If the connection,
  the notional limit, the translator, the simulator or the transport refuses it, then the simulator's pending orders,
  the listener and the working set are what they were; otherwise all three have gained exactly this order, under the
  client id the venue will quote. Orders that are not fresh can be left half submitted, as the examples below show.
\<close>

theorem live_submission_is_all_or_nothing:
  assumes "table_ok a" "fresh_order (alpaca a) o1 d" "live_submit (alpaca a) clk tr o1 d = Some (r, d')"
  shows "case r of Inl _ \<Rightarrow> same_book d d' | Inr _ \<Rightarrow> order_added (alpaca a) o1 d d'"
  by (rule order_translator.submission_all_or_nothing [OF alpaca_is_translator [OF assms(1)] assms(2,3)])

text \<open>
  The fills of a poll are the venue's, each once. When a poll succeeds, the connection's filter has let
  each sequence number through at most once, and the fills returned are, in order and one for one, the
  fill messages it let through: with the reported price, quantity, commission and fee, on the order whose
  client id the message quotes, and each booked once at the simulator. When it fails, what was booked
  before the failure stays booked although no fill is returned.
\<close>

theorem live_fills_are_the_venues:
  "case conn_poll clk tr (dk_connection d) (dk_world d) of (ms, c, w) \<Rightarrow>
     sorted_wrt (<) (sequences ms) \<and>
     (case live_poll tx clk tr d of
        (Inr fills, d') \<Rightarrow> list_all2 (reports_own (lb_listener (dk_broker d))) (filter fill_message ms) fills
          \<and> booked d' = booked d + length fills
      | (Inl e, d') \<Rightarrow> booked d \<le> booked d')"
proof -
  obtain ms c w where p: "conn_poll clk tr (dk_connection d) (dk_world d) = (ms, c, w)"
    by (cases "conn_poll clk tr (dk_connection d) (dk_world d)") auto
  let ?d = "d\<lparr>dk_connection := c, dk_world := w\<rparr>"
  obtain r d' where m: "apply_messages tx clk ms [] ?d = (r, d')" by fastforce
  have "sorted_wrt (<) (sequences ms)"
    using step_filters [where clk = clk and tr = tr and a = OpPoll and c = "dk_connection d" and w = "dk_world d"]
    by (simp add: p in_sequence_def)
  moreover have "knows_no_more ?d (lb_listener (dk_broker d))" by (simp add: knows_no_more_def)
  ultimately show ?thesis
    using apply_messages_fills [OF m] by (auto simp: live_poll_def p m booked_def split: sum.splits)
qed

text \<open>
  C24: Reconciliation misses nothing. With books in order and a tolerance that is not negative, an instrument is
  reported as drifting exactly when the two quantities differ by more than the tolerance, whichever book it
  is missing from, with our quantity minus the venue's; and the report is clean exactly when no instrument
  drifts and the cash is within its tolerance.
\<close>

theorem reconciliation_reports_every_drift:
  assumes "om_inv (pf_positions p)" "om_inv (ba_positions v)" "\<not> flt (lb_position_tolerance c) fzero"
  shows "om_find (rr_position_drift (live_reconcile c p v)) k =
      (if flt (lb_position_tolerance c) (fabs (drift_of p v k)) then Some (drift_of p v k) else None)
    \<and> (report_clean (live_reconcile c p v) \<longleftrightarrow>
        fle (fabs (fsub (pf_cash p) (ba_cash v))) (lb_cash_tolerance c)
        \<and> (\<forall>k. \<not> flt (lb_position_tolerance c) (fabs (drift_of p v k))))"
proof -
  note r = reconcile_drift [OF assms]
  have "(\<forall>k. om_find (rr_position_drift (live_reconcile c p v)) k = None)
      \<longleftrightarrow> rr_position_drift (live_reconcile c p v) = []"
    by (rule om_find_Nil_iff [OF r(3)])
  then show ?thesis
    using r by (auto simp: report_clean_def drift_listed_def split: if_splits)
qed

section \<open>Examples\<close>

definition sample_account :: BrokerAccountSnapshot where
  "sample_account = no_account\<lparr>ba_cash := lit (10 ^ 6), ba_positions := [(3, Fin 5)]\<rparr>"

theorem reconciliation_reports_every_drift_witness:
  "om_find (rr_position_drift (live_reconcile default_live_broker (new_portfolio default_portfolio_config)
      sample_account)) 3 = Some (Fin (- 5))"
proof -
  have "om_inv (pf_positions (new_portfolio default_portfolio_config))" by (simp add: new_portfolio_def)
  moreover have "om_inv (ba_positions sample_account)" by (simp add: sample_account_def)
  moreover have "\<not> flt (lb_position_tolerance default_live_broker) fzero"
    by (simp add: default_live_broker_def flt_def fzero_def)
  moreover have "drift_of (new_portfolio default_portfolio_config) sample_account 3 = Fin (- 5)"
    by (simp add: drift_of_def theirs_of_def sample_account_def new_portfolio_def om_find_Cons)
  moreover have "flt (lb_position_tolerance default_live_broker) (fabs (Fin (- 5)))"
    by (simp add: default_live_broker_def flt_def fzero_def)
  ultimately show ?thesis
    using reconciliation_reports_every_drift [of "new_portfolio default_portfolio_config" sample_account
      default_live_broker 3] by simp
qed

definition sample_desk :: "sample_world LiveDesk" where
  "sample_desk = \<lparr>dk_broker = new_live_broker default_live_broker,
     dk_connection = (new_connection default_heartbeat default_supervisor)\<lparr>lc_state := Ready\<rparr>,
     dk_simulator = sample_broker no_costs [], dk_world = (200, True, [], [])\<rparr>"

lemma sample_order_accepted:
  "\<exists>s b. broker_submit 200 (sample_order 7 Buy (Fin 100)) (sample_broker no_costs ps) = Some (Ok s, b)"
proof -
  have c: "validate_chain ((sample_times 100)\<lparr>arrival_time := a\<rparr>) = None" if "200 < a" for a
    using that by (simp add: validate_chain_None_iff chain_ordered_def in_order_def sample_times_def no_times_def)
  have "decision_time (sample_times 100) = 100" "is_set 200"
    by (simp_all add: sample_times_def is_set_def kNoTimestamp_def)
  then show ?thesis
    by (simp add: broker_submit_def sample_broker_def make_broker_def sample_latency_def standard_latency_model_def
        decision_to_arrival_def jittered_def default_latency_config_def fle_def flt_def feq_def fzero_def
        with_arrival_def sample_order_def c Let_def)
qed

lemma sample_submission:
  "\<exists>d'. live_submit (alpaca sample_alpaca) sample_clock sample_transport (sample_order 7 Buy (Fin 100)) sample_desk
    = Some (Ok True, d')"
proof -
  obtain t b where b: "broker_submit 200 (sample_order 7 Buy (Fin 100)) (sample_broker no_costs []) = Some (Ok t, b)"
    using sample_order_accepted by blast
  have w: "fmul (ord_quantity (sample_order 7 Buy (Fin 100))) (reference_of (sample_order 7 Buy (Fin 100))) = fzero"
    by (simp add: sample_order_def reference_of_def fmul_def fzero_def signed_zero_def)
  have cap: "\<not> flt (lit 10000000) fzero" using lit_int_exact [of 10000000] by (simp add: flt_def fzero_def)
  have enc: "ot_encode_new (alpaca sample_alpaca) (sample_order 7 Buy (Fin 100)) = Ok \<lparr>
     rq_payload = new_order_payload sample_alpaca ''SPY'' ''ptl-7'' (sample_order 7 Buy (Fin 100)),
     rq_client_order_id = ''ptl-7'', rq_order_id = 7\<rparr>"
    using sample_order_encodes by (simp add: alpaca_def)
  have "ord_id (sample_order 7 Buy (Fin 100)) = 7" by (simp add: sample_order_def)
  then show ?thesis
    using b by (simp add: live_submit_def w cap enc sample_desk_def new_live_broker_def default_live_broker_def
        permits_trading_def track_def kNoOrder_def desk_send_def conn_send_def sample_transport_def Let_def)
qed

theorem live_submission_is_all_or_nothing_witness:
  "\<exists>d'. order_added (alpaca sample_alpaca) (sample_order 7 Buy (Fin 100)) sample_desk d'"
proof -
  obtain d' where s: "live_submit (alpaca sample_alpaca) sample_clock sample_transport
      (sample_order 7 Buy (Fin 100)) sample_desk = Some (Ok True, d')"
    using sample_submission by blast
  have "fresh_order (alpaca sample_alpaca) (sample_order 7 Buy (Fin 100)) sample_desk"
    by (simp add: fresh_order_def sample_order_def kNoOrder_def sample_desk_def new_live_broker_def resolve_def
        sample_broker_def)
  from live_submission_is_all_or_nothing [OF sample_alpaca_ok this s] show ?thesis by auto
qed

text \<open>
  A submission the listener refuses is half done. With the client id of the order held by another one, the answer is an
  error, and the order it refused stays pending at the simulator: only the path of a failed send takes it back.
\<close>

definition sample_refusal :: "OrderId \<Rightarrow> PendingOrder list \<Rightarrow> sample_world LiveDesk" where
  "sample_refusal oid ps = sample_desk\<lparr>dk_simulator := sample_broker no_costs ps,
     dk_broker := (dk_broker sample_desk)\<lparr>lb_listener := [(''ptl-7'', oid)]\<rparr>\<rparr>"

lemma sample_encoded:
  "ot_encode_new (alpaca sample_alpaca) (sample_order 7 Buy (Fin 100)) = Ok \<lparr>
     rq_payload = new_order_payload sample_alpaca ''SPY'' ''ptl-7'' (sample_order 7 Buy (Fin 100)),
     rq_client_order_id = ''ptl-7'', rq_order_id = 7\<rparr>"
  "fmul (ord_quantity (sample_order 7 Buy (Fin 100))) (reference_of (sample_order 7 Buy (Fin 100))) = fzero"
  "\<not> flt (lit 10000000) fzero" "ord_id (sample_order 7 Buy (Fin 100)) = 7"
  using sample_order_encodes lit_int_exact [of 10000000]
  by (simp_all add: alpaca_def sample_order_def reference_of_def fmul_def fzero_def signed_zero_def flt_def)

lemma sample_gained:
  "\<exists>t b p. broker_submit 200 (sample_order 7 Buy (Fin 100)) (sample_broker no_costs ps) = Some (Ok t, b)
     \<and> br_pending b = ps @ [p] \<and> ord_id (po_order p) = 7"
proof -
  obtain t b where b: "broker_submit 200 (sample_order 7 Buy (Fin 100)) (sample_broker no_costs ps) = Some (Ok t, b)"
    using sample_order_accepted by blast
  obtain o2 where o2: "with_arrival t (sample_order 7 Buy (Fin 100)) = Ok o2" "br_pending b = ps @
      [\<lparr>po_order = o2, po_arrival_time = t, po_filled = fzero, po_stop_triggered = False\<rparr>]"
    using broker_submit_Ok [OF b] by (auto simp: sample_broker_def)
  moreover have "ord_id o2 = 7" using with_arrival_frame [OF o2(1)] by (simp add: sample_order_def)
  ultimately show ?thesis using b by (intro exI [of _ t] exI [of _ b]) simp
qed

theorem a_refused_listener_leaves_the_order_pending:
  "\<exists>e d'. live_submit (alpaca sample_alpaca) sample_clock sample_transport (sample_order 7 Buy (Fin 100)) (sample_refusal 9 [])
      = Some (Err (FromListener e), d')
    \<and> map (\<lambda>p. ord_id (po_order p)) (br_pending (dk_simulator d')) = [7]"
proof -
  obtain t b p where b: "broker_submit 200 (sample_order 7 Buy (Fin 100)) (sample_broker no_costs []) = Some (Ok t, b)"
    "br_pending b = [] @ [p]" "ord_id (po_order p) = 7" using sample_gained by blast
  show ?thesis
    using b by (simp add: live_submit_def sample_encoded sample_refusal_def sample_desk_def new_live_broker_def
        default_live_broker_def permits_trading_def track_def kNoOrder_def om_find_Cons Let_def)
qed

text \<open>
  A failed resubmission undoes the first submission. With order 7 partly filled at the venue, submitting the same order
  again through a transport that fails cancels the first pending order of that id at the simulator, the one with the
  fills, keeps the new one, and forgets the client id, so that further fills of it can no longer be attributed.
\<close>

definition sample_working :: PendingOrder where
  "sample_working = (sample_pending 7 Buy (Fin 100))\<lparr>po_filled := Fin 10\<rparr>"

theorem a_failed_resubmission_forgets_the_first:
  "\<exists>e d' p. live_submit (alpaca sample_alpaca) sample_clock
        (sample_transport\<lparr>tr_send := \<lambda>x w. (Err \<lparr>err_code = IoError, err_message = [], err_context = []\<rparr>, w)\<rparr>)
        (sample_order 7 Buy (Fin 100)) (sample_refusal 7 [sample_working])
      = Some (Err (FromConnection e), d')
    \<and> resolve ''ptl-7'' (lb_listener (dk_broker d')) = None
    \<and> br_pending (dk_simulator d') = [p] \<and> po_filled p = fzero"
proof -
  obtain t b where b: "broker_submit 200 (sample_order 7 Buy (Fin 100)) (sample_broker no_costs [sample_working]) = Some (Ok t, b)"
    using sample_order_accepted by blast
  obtain o2 where "br_pending b = [sample_working, \<lparr>po_order = o2, po_arrival_time = t, po_filled = fzero,
      po_stop_triggered = False\<rparr>]"
    using broker_submit_Ok [OF b] by (auto simp: sample_broker_def)
  moreover have "is_order 7 sample_working"
    by (simp add: is_order_def sample_working_def sample_pending_def sample_order_def)
  ultimately have cancelled: "br_pending (snd (broker_cancel 7 b)) = [\<lparr>po_order = o2, po_arrival_time = t,
      po_filled = fzero, po_stop_triggered = False\<rparr>]" by (simp add: broker_cancel_def)
  have forgotten: "resolve ''ptl-7'' (forget ''ptl-7'' [(''ptl-7'', 7)]) = None"
    by (simp add: resolve_def forget_def om_erase_def om_find_Cons)
  show ?thesis
    using b cancelled forgotten
    by (simp add: live_submit_def sample_encoded sample_refusal_def sample_desk_def new_live_broker_def
        default_live_broker_def permits_trading_def track_def kNoOrder_def om_find_Cons desk_send_def conn_send_def
        sample_transport_def Let_def)
qed

text \<open>
  A poll that meets an update it cannot attribute answers with the error alone: the partial fill it booked
  just before is in the simulator and nowhere else.
\<close>

lemma failed_poll_keeps_what_it_booked:
  "\<exists>e d'. apply_messages (alpaca sample_alpaca) sample_clock
       [(new_message MsgPartialFill)\<lparr>bm_client_order_id := ''ptl-7'', bm_venue_time := 300,
          bm_quantity := Fin 10, bm_price := Fin 100\<rparr>, new_message MsgFill] []
       (sample_desk\<lparr>dk_simulator := sample_broker no_costs [sample_pending 7 Buy (Fin 100)],
          dk_broker := (dk_broker sample_desk)\<lparr>lb_listener := [(''ptl-7'', 7)]\<rparr>\<rparr>) = (Err e, d')
     \<and> booked d' = 1"
proof -
  let ?x = "\<lparr>xr_order_id = 7, xr_quantity = Fin 10, xr_price = Fin 100, xr_fill_time = 300, xr_commission = fzero,
    xr_exchange_fee = fzero, xr_liquidity = Taker, xr_venue_fill_id = []\<rparr>"
  let ?p = "sample_pending 7 Buy (Fin 100)"
  have q: "\<not> flt (fadd (fsub (Fin 100) fzero) (lit (1 / 10 ^ 9))) (Fin 10)" "flt fzero (Fin 10)" "flt fzero (Fin 100)"
    by (simp_all add: f64_eval)
  have big: "\<not> fle (fsub (Fin 100) (lit (1 / 10 ^ 9))) (fadd fzero (Fin 10))" by (simp add: f64_eval)
  have i7: "is_order 7 ?p" by (simp add: is_order_def sample_pending_def sample_order_def)
  have t: "f_times (fill_of (po_order ?p) x y 300 z u v) = (sample_times 100)\<lparr>arrival_time := 250, fill_time := 300\<rparr>"
    for x y z u v by (simp add: fill_of_def sample_pending_def)
  obtain f b where i: "ingest_external_fill ?x (sample_broker no_costs [?p]) = (Ok f, b)"
    and n: "st_fills (br_stats b) = 1"
    using q big i7 t sample_chain
    by (simp add: ingest_external_fill_def sample_broker_def make_broker_def no_stats_def Let_def)
  have m: "apply_message (alpaca sample_alpaca) sample_clock
       ((new_message MsgPartialFill)\<lparr>bm_client_order_id := ''ptl-7'', bm_venue_time := 300,
          bm_quantity := Fin 10, bm_price := Fin 100\<rparr>)
       (sample_desk\<lparr>dk_simulator := sample_broker no_costs [?p],
          dk_broker := (dk_broker sample_desk)\<lparr>lb_listener := [(''ptl-7'', 7)]\<rparr>\<rparr>)
     = (Ok (Some f), sample_desk\<lparr>dk_simulator := b, dk_broker := (dk_broker sample_desk)\<lparr>
          lb_listener := [(''ptl-7'', 7)], lb_stats := no_live_stats\<lparr>ls_fills_ingested := 1\<rparr>\<rparr>\<rparr>)"
    using i q by (simp add: apply_message_def interpret_message_def update_of_def new_message_def resolve_def
        om_find_Cons update_is_fill_def apply_update_def fill_report_def is_set_def kNoTimestamp_def Let_def
        sample_desk_def new_live_broker_def no_live_stats_def)
  show ?thesis
    using n by (simp add: m) (simp add: apply_message_def interpret_message_def update_of_def new_message_def
        resolve_def om_find_Cons booked_def Let_def)
qed

end
