(* ===== verification/AlgoSchedule.thy ===== *)
theory AlgoSchedule
  imports QuoteBook Oms
begin

text \<open>
  Execution schedules (\<open>src/algo/schedule.cpp\<close>, \<open>include/ptl/algo/schedule.hpp\<close>) and the vocabulary of
  the execution algorithms (\<open>include/ptl/algo/execution_types.hpp\<close>): child orders, progress, policy,
  statistics, and the volume profile of a VWAP. An \<open>ExecutionSchedule\<close> is its vector of slices.
\<close>

section \<open>Vocabulary\<close>

datatype AlgoKind = KindImmediate | KindTwap | KindVwap | KindParticipation | KindIceberg | KindAdaptiveLimit

fun to_string_AlgoKind :: "AlgoKind \<Rightarrow> string" where
  "to_string_AlgoKind KindImmediate = ''immediate''"
| "to_string_AlgoKind KindTwap = ''twap''"
| "to_string_AlgoKind KindVwap = ''vwap''"
| "to_string_AlgoKind KindParticipation = ''pov''"
| "to_string_AlgoKind KindIceberg = ''iceberg''"
| "to_string_AlgoKind KindAdaptiveLimit = ''adaptive_limit''"

datatype ExecutionState = ExecPending | ExecWorking | ExecCompleted | ExecCancelled | ExecExpired | ExecFailed

fun to_string_ExecutionState :: "ExecutionState \<Rightarrow> string" where
  "to_string_ExecutionState ExecPending = ''pending''"
| "to_string_ExecutionState ExecWorking = ''working''"
| "to_string_ExecutionState ExecCompleted = ''completed''"
| "to_string_ExecutionState ExecCancelled = ''cancelled''"
| "to_string_ExecutionState ExecExpired = ''expired''"
| "to_string_ExecutionState ExecFailed = ''failed''"

definition exec_is_terminal :: "ExecutionState \<Rightarrow> bool" where
  "exec_is_terminal s \<longleftrightarrow> s = ExecCompleted \<or> s = ExecCancelled \<or> s = ExecExpired \<or> s = ExecFailed"

record ChildOrder =
  cd_instrument :: InstrumentId
  cd_side :: Side
  cd_quantity :: Qty
  cd_type :: OrderType
  cd_limit_price :: "Price option"
  cd_stop_price :: "Price option"
  cd_tif :: TimeInForce
  cd_slice_index :: nat
  cd_hidden :: Qty

definition child_valid :: "ChildOrder \<Rightarrow> bool" where
  "child_valid c \<longleftrightarrow>
     (if cd_instrument c = kInvalidInstrument then False
      else if \<not> is_finite (cd_quantity c) \<or> fle (cd_quantity c) fzero then False
      else
        (let needs_limit = (cd_type c = Limit \<or> cd_type c = StopLimit);
             needs_stop = (cd_type c = Stop \<or> cd_type c = StopLimit) in
         if needs_limit \<noteq> (cd_limit_price c \<noteq> None) then False
         else if needs_stop \<noteq> (cd_stop_price c \<noteq> None) then False
         else if (case cd_limit_price c of None \<Rightarrow> False | Some p \<Rightarrow> fle p fzero) then False
         else if (case cd_stop_price c of None \<Rightarrow> False | Some p \<Rightarrow> fle p fzero) then False
         else True))"

record ExecutionContext =
  xc_now :: Timestamp
  xc_market :: RoutedMarket
  xc_interval_volume :: Volume
  xc_cumulative_volume :: Volume
  xc_expected_share :: f64
  xc_session_open :: Timestamp
  xc_session_close :: Timestamp

record ExecutionProgress =
  pg_filled :: Qty
  pg_remaining :: Qty
  pg_filled_notional :: Notional
  pg_costs :: Notional
  pg_slices_released :: nat
  pg_slices_filled :: nat

definition fresh_progress :: ExecutionProgress where
  "fresh_progress = \<lparr>pg_filled = fzero, pg_remaining = fzero, pg_filled_notional = fzero,
     pg_costs = fzero, pg_slices_released = 0, pg_slices_filled = 0\<rparr>"

text \<open>\<open>std::clamp\<close>.\<close>

definition fclamp :: "f64 \<Rightarrow> f64 \<Rightarrow> f64 \<Rightarrow> f64" where
  "fclamp v lo hi = (if flt v lo then lo else if flt hi v then hi else v)"

definition completion_ratio :: "Qty \<Rightarrow> ExecutionProgress \<Rightarrow> f64" where
  "completion_ratio parent p =
     (if \<not> is_finite parent \<or> fle parent fzero then fzero
      else fclamp (fdiv (pg_filled p) parent) fzero (lit 1))"

definition average_price :: "ExecutionProgress \<Rightarrow> Price option" where
  "average_price p =
     (if fle (pg_filled p) fzero then None
      else (let avg = fdiv (pg_filled_notional p) (pg_filled p) in
            if \<not> is_finite avg \<or> fle avg fzero then None else Some avg))"

definition progress_complete :: "Qty \<Rightarrow> ExecutionProgress \<Rightarrow> bool" where
  "progress_complete parent p \<longleftrightarrow> fle parent (fadd (pg_filled p) (lit (1 / 10 ^ 9)))"

record ExecutionPolicy =
  max_participation_rate :: f64
  min_clip_size :: Qty
  max_display_quantity :: Qty
  price_collar :: Bps
  po_time_in_force :: TimeInForce
  respect_market_hours :: bool
  open_buffer :: Duration
  close_buffer :: Duration
  lot_size :: f64
  expire_rather_than_dump :: bool

definition default_policy :: ExecutionPolicy where
  "default_policy = \<lparr>max_participation_rate = lit (1 / 10), min_clip_size = lit 1,
     max_display_quantity = fzero, price_collar = lit 100, po_time_in_force = Day,
     respect_market_hours = True, open_buffer = 60 * 10 ^ 9, close_buffer = 60 * 10 ^ 9,
     lot_size = lit 1, expire_rather_than_dump = True\<rparr>"

record ExecutionResult =
  er_state :: ExecutionState
  er_progress :: ExecutionProgress
  er_started :: Timestamp
  er_finished :: Timestamp
  er_arrival_price :: Price

definition shortfall_bps :: "Side \<Rightarrow> ExecutionResult \<Rightarrow> Bps" where
  "shortfall_bps side r =
     (case average_price (er_progress r) of
        None \<Rightarrow> fzero
      | Some avg \<Rightarrow>
          if fle (er_arrival_price r) fzero then fzero
          else fmul (fmul (fsub (fdiv avg (er_arrival_price r)) (lit 1)) (lit (10 ^ 4)))
                 (of_int64 (sign_of side)))"

definition execution_duration :: "ExecutionResult \<Rightarrow> Duration" where
  "execution_duration r =
     (if \<not> is_set (er_started r) \<or> \<not> is_set (er_finished r) then 0 else er_finished r - er_started r)"

record ExecutionStatistics =
  xs_started :: nat
  xs_completed :: nat
  xs_expired :: nat
  xs_cancelled :: nat
  xs_children_emitted :: nat
  xs_children_rejected :: nat
  xs_skipped_participation :: nat
  xs_skipped_min_clip :: nat
  xs_skipped_market_closed :: nat
  xs_skipped_not_executable :: nat
  xs_limit_repriced :: nat

definition no_statistics :: ExecutionStatistics where
  "no_statistics = \<lparr>xs_started = 0, xs_completed = 0, xs_expired = 0, xs_cancelled = 0,
     xs_children_emitted = 0, xs_children_rejected = 0, xs_skipped_participation = 0,
     xs_skipped_min_clip = 0, xs_skipped_market_closed = 0, xs_skipped_not_executable = 0,
     xs_limit_repriced = 0\<rparr>"

section \<open>Schedules\<close>

datatype schedule_error = BadScheduleQuantity | BadScheduleWindow | NoSlices | NoProfile | BadWeight
  | ZeroProfile | SlotMismatch nat nat | BadSlotVolume nat | ProfileNotReady | EmptyWindow
  | WindowBeyondProfile nat nat nat

record ScheduleSlice =
  sl_index :: nat
  sl_begin :: Timestamp
  sl_end :: Timestamp
  sl_target :: Qty
  sl_cumulative :: Qty

type_synonym ExecutionSchedule = "ScheduleSlice list"

definition schedule_begin :: "ExecutionSchedule \<Rightarrow> Timestamp" where
  "schedule_begin s = (if s = [] then kNoTimestamp else sl_begin (hd s))"

definition schedule_end :: "ExecutionSchedule \<Rightarrow> Timestamp" where
  "schedule_end s = (if s = [] then kNoTimestamp else sl_end (List.last s))"

definition total_quantity :: "ExecutionSchedule \<Rightarrow> Qty" where
  "total_quantity s = (if s = [] then fzero else sl_cumulative (List.last s))"

text \<open>\<open>upper_bound\<close> over the ends: the first slice that ends after \<open>ts\<close>.\<close>

definition slice_at :: "ExecutionSchedule \<Rightarrow> Timestamp \<Rightarrow> ScheduleSlice option" where
  "slice_at s ts =
     (case find (\<lambda>x. ts < sl_end x) s of
        None \<Rightarrow> None
      | Some x \<Rightarrow> if ts < sl_begin x then None else Some x)"

definition target_by :: "ExecutionSchedule \<Rightarrow> Timestamp \<Rightarrow> Qty" where
  "target_by s ts =
     (if s = [] then fzero
      else if ts < sl_begin (hd s) then fzero
      else if sl_end (List.last s) \<le> ts then sl_cumulative (List.last s)
      else (case slice_at s ts of
          None \<Rightarrow> fzero
        | Some x \<Rightarrow>
            (let span = of_int64 (sl_end x - sl_begin x);
                 elapsed = of_int64 (ts - sl_begin x);
                 fraction = (if flt fzero span then fclamp (fdiv elapsed span) fzero (lit 1) else lit 1);
                 before = fsub (sl_cumulative x) (sl_target x) in
             fadd before (fmul (sl_target x) fraction))))"

text \<open>The loop that lays the slices end to end; the last one ends exactly at the end of the window.\<close>

fun lay_slices ::
    "Timestamp \<Rightarrow> Timestamp \<Rightarrow> Duration \<Rightarrow> nat \<Rightarrow> (nat \<Rightarrow> Qty) \<Rightarrow> nat list \<Rightarrow> Qty \<Rightarrow> ExecutionSchedule" where
  "lay_slices b e per n quantity [] cum = []"
| "lay_slices b e per n quantity (i # is) cum =
     (let cum1 = fadd cum (quantity i) in
      \<lparr>sl_index = i, sl_begin = b + per * int i,
       sl_end = (if i + 1 = n then e else b + per * int (i + 1)),
       sl_target = quantity i, sl_cumulative = cum1\<rparr> # lay_slices b e per n quantity is cum1)"

definition snap_total :: "Qty \<Rightarrow> ExecutionSchedule \<Rightarrow> ExecutionSchedule" where
  "snap_total tot s = s[length s - 1 := (s ! (length s - 1))\<lparr>sl_cumulative := tot\<rparr>]"

definition twap :: "Qty \<Rightarrow> Timestamp \<Rightarrow> Timestamp \<Rightarrow> nat \<Rightarrow> (schedule_error, ExecutionSchedule) result" where
  "twap tot b e slice_count =
     (if \<not> is_finite tot \<or> fle tot fzero then Err BadScheduleQuantity
      else if \<not> is_set b \<or> \<not> is_set e \<or> e \<le> b then Err BadScheduleWindow
      else if slice_count = 0 then Err NoSlices
      else
        (let per = (e - b) div int slice_count;
             per_slice = fdiv tot (of_int64 (int slice_count)) in
         Ok (snap_total tot (lay_slices b e per slice_count (\<lambda>i. per_slice) [0..<slice_count] fzero))))"

fun profile_sum :: "f64 list \<Rightarrow> f64 \<Rightarrow> f64 option" where
  "profile_sum [] acc = Some acc"
| "profile_sum (w # ws) acc =
     (if \<not> is_finite w \<or> flt w fzero then None else profile_sum ws (fadd acc w))"

definition vwap :: "Qty \<Rightarrow> Timestamp \<Rightarrow> Timestamp \<Rightarrow> f64 list \<Rightarrow> (schedule_error, ExecutionSchedule) result" where
  "vwap tot b e profile =
     (if \<not> is_finite tot \<or> fle tot fzero then Err BadScheduleQuantity
      else if \<not> is_set b \<or> \<not> is_set e \<or> e \<le> b then Err BadScheduleWindow
      else if profile = [] then Err NoProfile
      else (case profile_sum profile fzero of
          None \<Rightarrow> Err BadWeight
        | Some weight \<Rightarrow>
            if fle weight fzero then Err ZeroProfile
            else
              (let n = length profile; per = (e - b) div int n in
               Ok (snap_total tot
                 (lay_slices b e per n (\<lambda>i. fmul tot (fdiv (profile ! i) weight)) [0..<n] fzero)))))"

definition immediate :: "Qty \<Rightarrow> Timestamp \<Rightarrow> Timestamp \<Rightarrow> (schedule_error, ExecutionSchedule) result" where
  "immediate tot b e = twap tot b e 1"

section \<open>Volume profiles\<close>

record VolumeProfile =
  vp_totals :: "f64 list"
  vp_shares :: "f64 list"
  vp_sessions :: nat

definition new_profile :: "nat \<Rightarrow> VolumeProfile" where
  "new_profile slots = \<lparr>vp_totals = replicate (max 1 slots) fzero, vp_shares = [], vp_sessions = 0\<rparr>"

definition profile_ready :: "VolumeProfile \<Rightarrow> bool" where
  "profile_ready p \<longleftrightarrow> 0 < vp_sessions p"

text \<open>
  The accumulation loop writes slot by slot: a bad volume leaves the slots before it added, which
  shows in the returned totals.
\<close>

fun add_volumes :: "nat \<Rightarrow> f64 list \<Rightarrow> f64 list \<Rightarrow> schedule_error option \<times> f64 list" where
  "add_volumes i totals [] = (None, totals)"
| "add_volumes i totals (v # vs) =
     (if \<not> is_finite v \<or> flt v fzero then (Some (BadSlotVolume i), totals)
      else add_volumes (i + 1) (totals[i := fadd (totals ! i) v]) vs)"

definition add_session :: "f64 list \<Rightarrow> VolumeProfile \<Rightarrow> (schedule_error, bool) result \<times> VolumeProfile" where
  "add_session volumes p =
     (if length volumes \<noteq> length (vp_totals p)
      then (Err (SlotMismatch (length volumes) (length (vp_totals p))), p)
      else (case add_volumes 0 (vp_totals p) volumes of
          (Some err, totals) \<Rightarrow> (Err err, p\<lparr>vp_totals := totals\<rparr>)
        | (None, totals) \<Rightarrow>
            (let vol = fold (\<lambda>x acc. fadd acc x) totals fzero in
             (Ok True, p\<lparr>vp_totals := totals, vp_sessions := vp_sessions p + 1,
                vp_shares := (if flt fzero vol then map (\<lambda>x. fdiv x vol) totals
                              else replicate (length totals) fzero)\<rparr>))))"

text \<open>
  The bound is checked on a sum of two 64-bit sizes, which wraps; \<open>None\<close> is the iterator range that
  lies outside the vector then.
\<close>

definition window_profile ::
    "nat \<Rightarrow> nat \<Rightarrow> VolumeProfile \<Rightarrow> (schedule_error, f64 list) result option" where
  "window_profile first cnt p =
     (if \<not> profile_ready p then Some (Err ProfileNotReady)
      else if cnt = 0 then Some (Err EmptyWindow)
      else if length (vp_shares p) < (first + cnt) mod 2 ^ 64
        then Some (Err (WindowBeyondProfile first cnt (length (vp_shares p))))
      else if length (vp_shares p) < first + cnt then None
      else Some (Ok (take cnt (drop first (vp_shares p)))))"

definition uniform_profile :: "nat \<Rightarrow> f64 list" where
  "uniform_profile slots =
     (let n = max 1 slots in replicate n (fdiv (lit 1) (of_int64 (int n))))"

definition profile_reset :: "VolumeProfile \<Rightarrow> VolumeProfile" where
  "profile_reset p = p\<lparr>vp_totals := replicate (length (vp_totals p)) fzero, vp_shares := [], vp_sessions := 0\<rparr>"

section \<open>The slices tile the window\<close>

text \<open>Slices laid end to end from \<open>b\<close> to \<open>e\<close>.\<close>

fun tiles :: "Timestamp \<Rightarrow> ExecutionSchedule \<Rightarrow> Timestamp \<Rightarrow> bool" where
  "tiles b [] e \<longleftrightarrow> b = e"
| "tiles b (s # ss) e \<longleftrightarrow> sl_begin s = b \<and> b \<le> sl_end s \<and> tiles (sl_end s) ss e"

lemma tiles_mono: "tiles b s e \<Longrightarrow> b \<le> e"
  by (induction s arbitrary: b) force+

lemma tiles_ends: "tiles b s e \<Longrightarrow> s \<noteq> [] \<Longrightarrow> sl_begin (hd s) = b \<and> sl_end (List.last s) = e"
  by (induction s arbitrary: b) auto

lemma slice_at_Cons:
  "slice_at (x # xs) ts =
     (if ts < sl_end x then if ts < sl_begin x then None else Some x else slice_at xs ts)"
  by (simp add: slice_at_def)

lemma slice_at_tiles:
  assumes "tiles b s e"
  shows "ts < b \<Longrightarrow> slice_at s ts = None" "e \<le> ts \<Longrightarrow> slice_at s ts = None"
    "b \<le> ts \<Longrightarrow> ts < e \<Longrightarrow> \<exists>x \<in> set s. slice_at s ts = Some x \<and> sl_begin x \<le> ts \<and> ts < sl_end x"
  using assms
proof (induction s arbitrary: b)
  case Nil
  { case 1 show ?case by (simp add: slice_at_def) next
    case 2 show ?case by (simp add: slice_at_def) next
    case 3 then show ?case by simp }
next
  case (Cons x xs)
  { case 1
    then show ?case using Cons.IH(1) [of "sl_end x"] by (auto simp: slice_at_Cons)
  next
    case 2
    then show ?case using Cons.IH(2) [of "sl_end x"] tiles_mono by (fastforce simp: slice_at_Cons)
  next
    case 3
    then show ?case using Cons.IH(3) [of "sl_end x"] by (auto simp: slice_at_Cons)
  }
qed

lemma lay_slices_tiles:
  assumes "0 \<le> per" "per * int n \<le> e - b" "k < n"
  shows "tiles (b + per * int k) (lay_slices b e per n q [k..<n] cum) e"
  using assms(3)
proof (induction "n - k" arbitrary: k cum)
  case (Suc m)
  then have upt: "[k..<n] = k # [Suc k..<n]" by (simp add: upt_rec)
  show ?case
  proof (cases "Suc k = n")
    case True
    then have "per * int k \<le> per * int n" using assms(1) by (simp add: mult_left_mono)
    then show ?thesis using True assms(2) by (simp add: upt)
  next
    case False
    then have "tiles (b + per * int (Suc k)) (lay_slices b e per n q [Suc k..<n] (fadd cum (q k))) e"
      using Suc by (intro Suc.hyps(1)) auto
    then show ?thesis using False assms(1) by (simp add: upt Let_def algebra_simps)
  qed
qed simp

lemma lay_slices_length [simp]: "length (lay_slices b e per n q is cum) = length is"
  by (induction "is" arbitrary: cum) (simp_all add: Let_def)

lemma lay_slices_index: "map sl_index (lay_slices b e per n q is cum) = is"
  by (induction "is" arbitrary: cum) (simp_all add: Let_def)

lemma tiles_snap: "tiles b (s[k := (s ! k)\<lparr>sl_cumulative := t\<rparr>]) e \<longleftrightarrow> tiles b s e" if "k < length s"
  using that
proof (induction s arbitrary: b k)
  case (Cons x xs)
  then show ?case by (cases k) auto
qed simp

lemma snap_total_frame:
  assumes "s \<noteq> []"
  shows "tiles b (snap_total t s) e \<longleftrightarrow> tiles b s e" "length (snap_total t s) = length s"
    "snap_total t s \<noteq> []" "sl_cumulative (List.last (snap_total t s)) = t"
    "map sl_index (snap_total t s) = map sl_index s"
proof -
  show "tiles b (snap_total t s) e \<longleftrightarrow> tiles b s e"
    unfolding snap_total_def by (rule tiles_snap) (use assms in simp)
  show "length (snap_total t s) = length s" "snap_total t s \<noteq> []"
    using assms by (auto simp: snap_total_def)
  show "sl_cumulative (List.last (snap_total t s)) = t"
    using assms by (simp add: snap_total_def last_conv_nth)
  show "map sl_index (snap_total t s) = map sl_index s"
    by (rule nth_equalityI) (auto simp: snap_total_def nth_list_update)
qed

text \<open>What a planned schedule promises its algorithm.\<close>

definition schedule_of :: "Qty \<Rightarrow> Timestamp \<Rightarrow> Timestamp \<Rightarrow> nat \<Rightarrow> ExecutionSchedule \<Rightarrow> bool" where
  "schedule_of tot b e n s \<longleftrightarrow> 0 < n \<and> length s = n \<and> b < e \<and> is_set b \<and> is_set e \<and> fin tot \<and> 0 < val tot \<and>
     tiles b s e \<and> total_quantity s = tot \<and> map sl_index s = [0..<n]"

lemma laid_schedule:
  assumes "is_set b" "is_set e" "b < e" "0 < n" "fin tot" "0 < val tot"
  shows "schedule_of tot b e n (snap_total tot (lay_slices b e ((e - b) div int n) n q [0..<n] cum))"
proof -
  let ?s = "lay_slices b e ((e - b) div int n) n q [0..<n] cum"
  have ne: "?s \<noteq> []" using assms(4) by (simp flip: length_0_conv)
  have "(e - b) div int n * int n \<le> e - b"
    using assms(4) by (simp flip: minus_mod_eq_div_mult)
  then have "tiles (b + (e - b) div int n * int 0) ?s e"
    using assms(3,4) by (intro lay_slices_tiles) (simp_all add: pos_imp_zdiv_nonneg_iff)
  then show ?thesis
    using assms snap_total_frame [OF ne] by (simp add: schedule_of_def total_quantity_def lay_slices_index)
qed

lemma twap_schedule: "twap tot b e n = Ok s \<Longrightarrow> schedule_of tot b e n s"
  by (auto simp: twap_def Let_def f64_sem not_le split: if_splits intro: laid_schedule)

lemma vwap_schedule: "vwap tot b e ws = Ok s \<Longrightarrow> schedule_of tot b e (length ws) s"
  by (auto simp: vwap_def Let_def f64_sem not_le split: if_splits option.splits intro!: laid_schedule)

lemma tiles_once:
  assumes "tiles b s e" "b \<le> ts" "ts < e"
  shows "length (filter (\<lambda>x. sl_begin x \<le> ts \<and> ts < sl_end x) s) = 1"
proof -
  have before: "filter (\<lambda>x. sl_begin x \<le> ts \<and> ts < sl_end x) s = []" if "tiles b s e" "ts < b" for b s
    using that by (induction s arbitrary: b) (fastforce simp: filter_empty_conv)+
  show ?thesis
    using assms
  proof (induction s arbitrary: b)
    case (Cons x xs)
    then show ?case using before [of "sl_end x" xs] by (cases "ts < sl_end x") auto
  qed simp
qed

text \<open>
  A schedule that is planned, by time (\<open>twap\<close>) or by a volume profile (\<open>vwap\<close>), has one slice per
  requested interval; the slices are numbered in order and tile the window: every instant of it lies in
  exactly one slice, the one \<open>slice_at\<close> finds, and no instant outside lies in any. The target is zero
  before the window and the whole quantity after it.
\<close>

theorem schedules_tile_the_window:
  "case (case profile of None \<Rightarrow> twap tot b e n | Some ws \<Rightarrow> vwap tot b e ws) of
     Err _ \<Rightarrow> True
   | Ok s \<Rightarrow>
       map sl_index s = [0..<(case profile of None \<Rightarrow> n | Some ws \<Rightarrow> length ws)] \<and>
       schedule_begin s = b \<and> schedule_end s = e \<and> total_quantity s = tot \<and>
       (\<forall>ts. if b \<le> ts \<and> ts < e
             then length (filter (\<lambda>x. sl_begin x \<le> ts \<and> ts < sl_end x) s) = 1 \<and>
               (\<exists>x. slice_at s ts = Some x \<and> x \<in> set s \<and> sl_begin x \<le> ts \<and> ts < sl_end x)
             else slice_at s ts = None \<and> target_by s ts = (if ts < b then fzero else tot))"
proof -
  have "map sl_index s = [0..<n] \<and> schedule_begin s = b \<and> schedule_end s = e \<and> total_quantity s = tot \<and>
       (\<forall>ts. if b \<le> ts \<and> ts < e
             then length (filter (\<lambda>x. sl_begin x \<le> ts \<and> ts < sl_end x) s) = 1 \<and>
               (\<exists>x. slice_at s ts = Some x \<and> x \<in> set s \<and> sl_begin x \<le> ts \<and> ts < sl_end x)
             else slice_at s ts = None \<and> target_by s ts = (if ts < b then fzero else tot))"
    if "schedule_of tot b e n s" for s n
  proof -
    from that have t: "tiles b s e" and ne: "s \<noteq> []" by (auto simp: schedule_of_def)
    note ends = tiles_ends [OF t ne]
    have "if b \<le> ts \<and> ts < e
      then length (filter (\<lambda>x. sl_begin x \<le> ts \<and> ts < sl_end x) s) = 1 \<and>
        (\<exists>x. slice_at s ts = Some x \<and> x \<in> set s \<and> sl_begin x \<le> ts \<and> ts < sl_end x)
      else slice_at s ts = None \<and> target_by s ts = (if ts < b then fzero else tot)" for ts
    proof (cases "b \<le> ts \<and> ts < e")
      case True
      then show ?thesis
        using slice_at_tiles(3) [OF t, of ts] tiles_once [OF t, of ts] by auto
    next
      case False
      then have "target_by s ts = (if ts < b then fzero else tot)"
        using ends ne that by (auto simp: target_by_def schedule_of_def total_quantity_def)
      then show ?thesis
        using False slice_at_tiles(1,2) [OF t, of ts] by (cases "ts < b") auto
    qed
    then show ?thesis
      using that ends ne by (simp add: schedule_of_def schedule_begin_def schedule_end_def)
  qed
  then show ?thesis
    by (auto split: option.splits sum.splits dest: twap_schedule vwap_schedule)
qed

text \<open>
  A refused session vector is not without effect: the volumes before the bad slot are already added to
  the totals.
\<close>

lemma refused_session_writes:
  "add_session [Fin 5, Fin (- 1)] (new_profile 2) =
     (Err (BadSlotVolume 1), (new_profile 2)\<lparr>vp_totals := [Fin 5, Fin 0]\<rparr>)"
  by (simp add: add_session_def new_profile_def f64_eval)

text \<open>The bound of a window wraps: a first slot near the top of the range passes the check.\<close>

lemma window_bound_wraps:
  "window_profile (2 ^ 64 - 1) 1 \<lparr>vp_totals = [v], vp_shares = [w], vp_sessions = 1\<rparr> = None"
  by (simp add: window_profile_def profile_ready_def)

end
