(* ===== verification/Algorithms.thy ===== *)
theory Algorithms
  imports AlgoSchedule "HOL-Library.List_Lexorder" "HOL-Library.Char_ord"
begin

text \<open>
  The execution algorithms (\<open>src/algo/algorithms.cpp\<close>, \<open>include/ptl/algo/algorithms.hpp\<close>): the request
  and its validation, the policy every algorithm shares (\<open>AlgorithmBase\<close>), the six algorithms behind
  \<open>IExecutionAlgorithm\<close>, and their registry. The interface is the record \<open>ExecutionAlgorithm\<close> of its
  virtual functions and the locale \<open>execution_algorithm\<close> of what its clients rely on; every built-in
  algorithm is interpreted. The optional statistics pointer is an option that is returned updated.
\<close>

section \<open>Requests\<close>

record ExecutionRequest =
  rq_parent :: Order
  rq_window_begin :: Timestamp
  rq_window_end :: Timestamp
  rq_policy :: ExecutionPolicy
  rq_slice_count :: nat
  rq_volume_profile :: "f64 list"

datatype algo_error = NoParentQuantity | BadExecutionWindow | WindowBeforeDecision Timestamp Timestamp
  | BadParticipationRate | NegativeMinClip | FromSchedule schedule_error | NeedsVolumeProfile
  | BadDisplaySize | EmptyAlgorithmName | NullAlgorithm | AlgorithmRegistered string
  | UnknownAlgorithm string "string list"

definition request_validate :: "ExecutionRequest \<Rightarrow> (algo_error, bool) result" where
  "request_validate r =
     (if fle (ord_quantity (rq_parent r)) fzero then Err NoParentQuantity
      else if \<not> is_set (rq_window_begin r) \<or> \<not> is_set (rq_window_end r) \<or> rq_window_end r \<le> rq_window_begin r
        then Err BadExecutionWindow
      else if rq_window_begin r < decision_time (ord_times (rq_parent r))
        then Err (WindowBeforeDecision (rq_window_begin r) (decision_time (ord_times (rq_parent r))))
      else if fle (max_participation_rate (rq_policy r)) fzero \<or> flt (lit 1) (max_participation_rate (rq_policy r))
        then Err BadParticipationRate
      else if flt (min_clip_size (rq_policy r)) fzero then Err NegativeMinClip
      else Ok True)"

section \<open>The shared policy\<close>

text \<open>\<open>std::trunc\<close>.\<close>

fun ftrunc :: "f64 \<Rightarrow> f64" where
  "ftrunc (Fin r) = (if 0 \<le> r then Fin (of_int \<lfloor>r\<rfloor>) else if \<lceil>r\<rceil> = 0 then NZero else Fin (of_int \<lceil>r\<rceil>))"
| "ftrunc x = x"

type_synonym stats_ptr = "ExecutionStatistics option"

definition skip_not_executable :: "stats_ptr \<Rightarrow> stats_ptr" where
  "skip_not_executable = map_option (\<lambda>s. s\<lparr>xs_skipped_not_executable := xs_skipped_not_executable s + 1\<rparr>)"

definition skip_market_closed :: "stats_ptr \<Rightarrow> stats_ptr" where
  "skip_market_closed = map_option (\<lambda>s. s\<lparr>xs_skipped_market_closed := xs_skipped_market_closed s + 1\<rparr>)"

definition skip_participation :: "stats_ptr \<Rightarrow> stats_ptr" where
  "skip_participation = map_option (\<lambda>s. s\<lparr>xs_skipped_participation := xs_skipped_participation s + 1\<rparr>)"

definition skip_min_clip :: "stats_ptr \<Rightarrow> stats_ptr" where
  "skip_min_clip = map_option (\<lambda>s. s\<lparr>xs_skipped_min_clip := xs_skipped_min_clip s + 1\<rparr>)"

definition releasable :: "ExecutionRequest \<Rightarrow> ExecutionContext \<Rightarrow> stats_ptr \<Rightarrow> bool \<times> stats_ptr" where
  "releasable r c st =
     (if \<not> rt_executable (xc_market c) then (False, skip_not_executable st)
      else if respect_market_hours (rq_policy r) \<and> is_set (xc_session_open c) \<and>
              xc_now c < xc_session_open c + open_buffer (rq_policy r) then (False, skip_market_closed st)
      else if respect_market_hours (rq_policy r) \<and> is_set (xc_session_close c) \<and>
              xc_session_close c - close_buffer (rq_policy r) \<le> xc_now c then (False, skip_market_closed st)
      else if xc_now c < rq_window_begin r \<or> rq_window_end r \<le> xc_now c then (False, skip_market_closed st)
      else (True, st))"

definition round_to_lot :: "f64 \<Rightarrow> f64 \<Rightarrow> f64" where
  "round_to_lot lot want = (if flt fzero lot then fmul (ftrunc (fdiv want lot)) lot else want)"

definition apply_policy_caps ::
    "ExecutionRequest \<Rightarrow> ExecutionContext \<Rightarrow> f64 \<Rightarrow> Qty \<Rightarrow> stats_ptr \<Rightarrow> Qty \<times> stats_ptr" where
  "apply_policy_caps r c desired remaining st =
     (let pol = rq_policy r; want = fmin desired remaining in
      if \<not> is_finite want \<or> fle want fzero then (fzero, st)
      else
        (let cap = fmul (xc_interval_volume c) (max_participation_rate pol);
             capped = flt fzero (xc_interval_volume c) \<and> flt cap want;
             want1 = (if capped then cap else want);
             st1 = (if capped then skip_participation st else st);
             want2 = (if flt fzero (max_display_quantity pol) then fmin want1 (max_display_quantity pol) else want1);
             want3 = round_to_lot (lot_size pol) want2 in
         if flt want3 (min_clip_size pol) then
           (if \<not> fle remaining (min_clip_size pol) then (fzero, skip_min_clip st1)
            else (fmax fzero remaining, st1))
         else (fmax fzero want3, st1)))"

definition clip_quantity ::
    "ExecutionRequest \<Rightarrow> ExecutionSchedule \<Rightarrow> ExecutionProgress \<Rightarrow> ExecutionContext \<Rightarrow> stats_ptr \<Rightarrow> Qty \<times> stats_ptr"
    where
  "clip_quantity r s p c st =
     (let due = target_by s (xc_now c); shortfall = fsub due (pg_filled p) in
      apply_policy_caps r c shortfall (pg_remaining p) st)"

definition collared_limit :: "ExecutionRequest \<Rightarrow> ExecutionContext \<Rightarrow> Bps \<Rightarrow> Price option" where
  "collared_limit r c offset =
     (if \<not> rt_executable (xc_market c) then None
      else
        (let side = ord_side (rq_parent r); t = touch (rt_state (xc_market c)) side in
         if fle t fzero then None
         else
           (let limit = apply_bps t offset (- sign_of side);
                deviation = fabs (to_bps limit t) in
            if flt (price_collar (rq_policy r)) deviation
            then Some (apply_bps t (price_collar (rq_policy r)) (- sign_of side))
            else Some limit)))"

section \<open>The six algorithms\<close>

record ExecutionAlgorithm =
  alg_name :: string
  alg_kind :: AlgoKind
  alg_plan :: "ExecutionRequest \<Rightarrow> (algo_error, ExecutionSchedule) result"
  alg_next_child :: "ExecutionRequest \<Rightarrow> ExecutionSchedule \<Rightarrow> ExecutionProgress \<Rightarrow> ExecutionContext \<Rightarrow> ChildOrder option"

definition lift_schedule :: "(schedule_error, ExecutionSchedule) result \<Rightarrow> (algo_error, ExecutionSchedule) result" where
  "lift_schedule x = (case x of Inl e \<Rightarrow> Err (FromSchedule e) | Inr s \<Rightarrow> Ok s)"

text \<open>A market child of the parent, as every algorithm fills it in.\<close>

definition market_child :: "ExecutionRequest \<Rightarrow> Qty \<Rightarrow> nat \<Rightarrow> ChildOrder" where
  "market_child r q i = \<lparr>cd_instrument = ord_instrument (rq_parent r), cd_side = ord_side (rq_parent r),
     cd_quantity = q, cd_type = Market, cd_limit_price = None, cd_stop_price = None,
     cd_tif = po_time_in_force (rq_policy r), cd_slice_index = i, cd_hidden = fzero\<rparr>"

definition immediate_plan :: "ExecutionRequest \<Rightarrow> (algo_error, ExecutionSchedule) result" where
  "immediate_plan r =
     (case request_validate r of Inl e \<Rightarrow> Err e
      | Inr _ \<Rightarrow> lift_schedule (immediate (ord_quantity (rq_parent r)) (rq_window_begin r) (rq_window_end r)))"

definition immediate_next_child ::
    "ExecutionRequest \<Rightarrow> ExecutionSchedule \<Rightarrow> ExecutionProgress \<Rightarrow> ExecutionContext \<Rightarrow> ChildOrder option" where
  "immediate_next_child r s p c =
     (if \<not> fst (releasable r c None) then None
      else
        (let clip = fst (apply_policy_caps r c (pg_remaining p) (pg_remaining p) None) in
         if fle clip fzero then None else Some (market_child r clip (pg_slices_released p))))"

definition twap_plan :: "ExecutionRequest \<Rightarrow> (algo_error, ExecutionSchedule) result" where
  "twap_plan r =
     (case request_validate r of Inl e \<Rightarrow> Err e
      | Inr _ \<Rightarrow> lift_schedule (twap (ord_quantity (rq_parent r)) (rq_window_begin r) (rq_window_end r)
          (max 1 (rq_slice_count r))))"

definition slice_index_at :: "ExecutionSchedule \<Rightarrow> ExecutionProgress \<Rightarrow> Timestamp \<Rightarrow> nat" where
  "slice_index_at s p now = (case slice_at s now of None \<Rightarrow> pg_slices_released p | Some x \<Rightarrow> sl_index x)"

definition twap_next_child ::
    "ExecutionRequest \<Rightarrow> ExecutionSchedule \<Rightarrow> ExecutionProgress \<Rightarrow> ExecutionContext \<Rightarrow> ChildOrder option" where
  "twap_next_child r s p c =
     (if \<not> fst (releasable r c None) then None
      else
        (let clip = fst (clip_quantity r s p c None) in
         if fle clip fzero then None else Some (market_child r clip (slice_index_at s p (xc_now c)))))"

definition vwap_plan :: "ExecutionRequest \<Rightarrow> (algo_error, ExecutionSchedule) result" where
  "vwap_plan r =
     (case request_validate r of Inl e \<Rightarrow> Err e
      | Inr _ \<Rightarrow>
          if rq_volume_profile r = [] then Err NeedsVolumeProfile
          else lift_schedule (vwap (ord_quantity (rq_parent r)) (rq_window_begin r) (rq_window_end r)
                 (rq_volume_profile r)))"

definition vwap_next_child ::
    "ExecutionRequest \<Rightarrow> ExecutionSchedule \<Rightarrow> ExecutionProgress \<Rightarrow> ExecutionContext \<Rightarrow> ChildOrder option" where
  "vwap_next_child r s p c =
     (if \<not> fst (releasable r c None) then None
      else
        (let clip = fst (clip_quantity r s p c None) in
         if fle clip fzero then None else Some (market_child r clip (slice_index_at s p (xc_now c)))))"

definition pov_next_child ::
    "f64 \<Rightarrow> ExecutionRequest \<Rightarrow> ExecutionSchedule \<Rightarrow> ExecutionProgress \<Rightarrow> ExecutionContext \<Rightarrow> ChildOrder option" where
  "pov_next_child target_rate r s p c =
     (if \<not> fst (releasable r c None) then None
      else if fle (xc_interval_volume c) fzero then None
      else
        (let pol = rq_policy r;
             effective_rate = fmin target_rate (max_participation_rate pol);
             want = fmin (fmul (xc_interval_volume c) effective_rate) (pg_remaining p);
             want1 = round_to_lot (lot_size pol) want in
         if flt want1 (min_clip_size pol) \<and> \<not> fle (pg_remaining p) (min_clip_size pol) then None
         else
           (let want2 = (if flt want1 (min_clip_size pol) then pg_remaining p else want1) in
            if fle want2 fzero then None else Some (market_child r want2 (pg_slices_released p)))))"

definition iceberg_plan :: "Qty \<Rightarrow> ExecutionRequest \<Rightarrow> (algo_error, ExecutionSchedule) result" where
  "iceberg_plan display_size r =
     (case request_validate r of Inl e \<Rightarrow> Err e
      | Inr _ \<Rightarrow>
          if fle display_size fzero then Err BadDisplaySize
          else lift_schedule (immediate (ord_quantity (rq_parent r)) (rq_window_begin r) (rq_window_end r)))"

definition iceberg_next_child ::
    "Qty \<Rightarrow> ExecutionRequest \<Rightarrow> ExecutionSchedule \<Rightarrow> ExecutionProgress \<Rightarrow> ExecutionContext \<Rightarrow> ChildOrder option" where
  "iceberg_next_child display_size r s p c =
     (if \<not> fst (releasable r c None) then None
      else
        (let want = round_to_lot (lot_size (rq_policy r)) (fmin display_size (pg_remaining p));
             want1 = (if fle want fzero then pg_remaining p else want) in
         if fle want fzero \<and> fle want1 fzero then None
         else (case collared_limit r c fzero of
             None \<Rightarrow> None
           | Some limit \<Rightarrow> Some ((market_child r want1 (pg_slices_released p))
               \<lparr>cd_type := Limit, cd_limit_price := Some limit,
                cd_hidden := fmax fzero (fsub (pg_remaining p) want1)\<rparr>))))"

record AdaptiveConfig =
  passive_offset :: Bps
  urgency_threshold :: f64
  ad_slice_count :: nat

definition default_adaptive :: AdaptiveConfig where
  "default_adaptive = \<lparr>passive_offset = lit 5, urgency_threshold = lit (1 / 4), ad_slice_count = 10\<rparr>"

definition adaptive_plan :: "AdaptiveConfig \<Rightarrow> ExecutionRequest \<Rightarrow> (algo_error, ExecutionSchedule) result" where
  "adaptive_plan cfg r =
     (case request_validate r of Inl e \<Rightarrow> Err e
      | Inr _ \<Rightarrow> lift_schedule (twap (ord_quantity (rq_parent r)) (rq_window_begin r) (rq_window_end r)
          (max 1 (ad_slice_count cfg))))"

definition adaptive_next_child ::
    "AdaptiveConfig \<Rightarrow> ExecutionRequest \<Rightarrow> ExecutionSchedule \<Rightarrow> ExecutionProgress \<Rightarrow> ExecutionContext \<Rightarrow> ChildOrder option"
    where
  "adaptive_next_child cfg r s p c =
     (if \<not> fst (releasable r c None) then None
      else
        (let clip = fst (clip_quantity r s p c None) in
         if fle clip fzero then None
         else
           (let child = market_child r clip (pg_slices_released p);
                due = target_by s (xc_now c);
                parent = ord_quantity (rq_parent r);
                shortfall = (if flt fzero parent then fdiv (fsub due (pg_filled p)) parent else fzero) in
            if fle (urgency_threshold cfg) shortfall then Some child
            else (case collared_limit r c (passive_offset cfg) of
                None \<Rightarrow> None
              | Some limit \<Rightarrow> Some (child\<lparr>cd_type := Limit, cd_limit_price := Some limit\<rparr>)))))"

definition ImmediateAlgorithm :: ExecutionAlgorithm where
  "ImmediateAlgorithm = \<lparr>alg_name = ''immediate'', alg_kind = KindImmediate, alg_plan = immediate_plan,
     alg_next_child = immediate_next_child\<rparr>"

definition TwapAlgorithm :: ExecutionAlgorithm where
  "TwapAlgorithm = \<lparr>alg_name = ''twap'', alg_kind = KindTwap, alg_plan = twap_plan,
     alg_next_child = twap_next_child\<rparr>"

definition VwapAlgorithm :: ExecutionAlgorithm where
  "VwapAlgorithm = \<lparr>alg_name = ''vwap'', alg_kind = KindVwap, alg_plan = vwap_plan,
     alg_next_child = vwap_next_child\<rparr>"

text \<open>The plan of a participation algorithm is the single slice of an immediate one.\<close>

definition ParticipationAlgorithm :: "f64 \<Rightarrow> ExecutionAlgorithm" where
  "ParticipationAlgorithm target_rate = \<lparr>alg_name = ''pov'', alg_kind = KindParticipation,
     alg_plan = immediate_plan, alg_next_child = pov_next_child target_rate\<rparr>"

definition IcebergAlgorithm :: "Qty \<Rightarrow> ExecutionAlgorithm" where
  "IcebergAlgorithm display_size = \<lparr>alg_name = ''iceberg'', alg_kind = KindIceberg,
     alg_plan = iceberg_plan display_size, alg_next_child = iceberg_next_child display_size\<rparr>"

definition AdaptiveLimitAlgorithm :: "AdaptiveConfig \<Rightarrow> ExecutionAlgorithm" where
  "AdaptiveLimitAlgorithm cfg = \<lparr>alg_name = ''adaptive_limit'', alg_kind = KindAdaptiveLimit,
     alg_plan = adaptive_plan cfg, alg_next_child = adaptive_next_child cfg\<rparr>"

section \<open>The registry\<close>

type_synonym AlgorithmRegistry = "(string, ExecutionAlgorithm) omap"

definition register_algorithm ::
    "string \<Rightarrow> ExecutionAlgorithm option \<Rightarrow> AlgorithmRegistry \<Rightarrow> (algo_error, bool) result \<times> AlgorithmRegistry" where
  "register_algorithm nm a reg =
     (if nm = [] then (Err EmptyAlgorithmName, reg)
      else (case a of
          None \<Rightarrow> (Err NullAlgorithm, reg)
        | Some alg \<Rightarrow>
            if om_contains reg nm then (Err (AlgorithmRegistered nm), reg)
            else (Ok True, om_put nm alg reg)))"

definition registry_create :: "string \<Rightarrow> AlgorithmRegistry \<Rightarrow> (algo_error, ExecutionAlgorithm) result" where
  "registry_create nm reg =
     (case om_find reg nm of None \<Rightarrow> Err (UnknownAlgorithm nm (map fst reg)) | Some a \<Rightarrow> Ok a)"

definition registry_names :: "AlgorithmRegistry \<Rightarrow> string list" where
  "registry_names reg = map fst reg"

fun register_all :: "(string \<times> ExecutionAlgorithm) list \<Rightarrow> AlgorithmRegistry \<Rightarrow> (algo_error, AlgorithmRegistry) result" where
  "register_all [] reg = Ok reg"
| "register_all ((nm, a) # as) reg =
     (case register_algorithm nm (Some a) reg of
        (Inl e, _) \<Rightarrow> Err e
      | (Inr _, reg1) \<Rightarrow> register_all as reg1)"

definition with_defaults :: "(algo_error, AlgorithmRegistry) result" where
  "with_defaults = register_all
     [(''immediate'', ImmediateAlgorithm), (''twap'', TwapAlgorithm), (''vwap'', VwapAlgorithm),
      (''pov'', ParticipationAlgorithm (lit (1 / 10))), (''iceberg'', IcebergAlgorithm (lit 100)),
      (''adaptive_limit'', AdaptiveLimitAlgorithm default_adaptive)] []"

section \<open>The shared policy, proved\<close>

text \<open>
  Lots that never round a quantity up: no lots at all, or the default of whole shares. For other lots
  the product of the whole lots can be rounded above the quantity (\<open>lot_rounds_up\<close> below).
\<close>

definition whole_lots :: "f64 \<Rightarrow> bool" where
  "whole_lots lot \<longleftrightarrow> \<not> flt fzero lot \<or> lot = Fin 1"

lemma div_one: "is_f64 w \<Longrightarrow> fin w \<Longrightarrow> fin (fdiv w (Fin 1)) \<and> val (fdiv w (Fin 1)) = val w"
  using exact_div [of w "Fin 1"] by (cases w) (auto simp: representable_def is_f64_def)

lemma ftrunc_down:
  assumes "fin x" "0 \<le> val x"
  shows "fin (ftrunc x) \<and> 0 \<le> val (ftrunc x) \<and> val (ftrunc x) \<le> val x"
  using assms by (cases x) auto

lemma mul_one_down:
  assumes "is_f64 x" "fin x" "fin t" "0 \<le> val t" "val t \<le> val x"
  shows "fin (fmul t (Fin 1)) \<and> 0 \<le> val (fmul t (Fin 1)) \<and> val (fmul t (Fin 1)) \<le> val x"
proof -
  have r: "rnd (val t) \<le> val x" "0 \<le> rnd (val t)"
    using rnd_mono [OF assms(5)] is_f64_rnd [OF assms(1)] rnd_nonneg [OF assms(4)] by auto
  have "\<bar>val x\<bar> < f64_lim" using assms(1,2) by (cases x) (auto simp: is_f64_def)
  then have "fin (fmul t (Fin 1))"
    using r assms(3) by (simp add: fin_fmul_iff)
  then show ?thesis
    using r assms(3) fmul_val [of t "Fin 1"] by simp
qed

lemma round_whole_lots:
  assumes "whole_lots lot" "is_f64 w" "fin w" "0 \<le> val w"
  shows "fin (round_to_lot lot w) \<and> 0 \<le> val (round_to_lot lot w) \<and> val (round_to_lot lot w) \<le> val w"
proof (cases "flt fzero lot")
  case True
  then have lot: "lot = Fin 1" using assms(1) by (simp add: whole_lots_def)
  note d = div_one [OF assms(2,3)]
  have t: "fin (ftrunc (fdiv w (Fin 1)))" "0 \<le> val (ftrunc (fdiv w (Fin 1)))"
    "val (ftrunc (fdiv w (Fin 1))) \<le> val w"
    using ftrunc_down [of "fdiv w (Fin 1)"] d assms(4) by auto
  show ?thesis
    using mul_one_down [OF assms(2,3) t] True by (simp add: round_to_lot_def lot)
next
  case False
  then show ?thesis using assms by (simp add: round_to_lot_def)
qed

text \<open>Rounding to lots of a tenth turns a quantity of 1.7 into the next larger one.\<close>

lemma lot_rounds_up: "flt (lit (17 / 10)) (round_to_lot (lit (1 / 10)) (lit (17 / 10)))"
  by (simp add: round_to_lot_def f64_eval)

lemma fmax_zero: "fmax fzero q = (if flt fzero q then q else fzero)"
  by (simp add: fmax_def)

lemma fmul_pos_not_neg:
  assumes "flt fzero a" "flt fzero b" shows "fle fzero (fmul a b)"
proof -
  have pos: "a = PInf \<or> (\<exists>x. a = Fin x \<and> 0 < x)" "b = PInf \<or> (\<exists>x. b = Fin x \<and> 0 < x)"
    using assms by (cases a; cases b; auto simp: flt_def fzero_def)+
  then show ?thesis
    using lit_mono [of 0 "val a * val b"]
    by (auto simp: fmul_def Let_def signed_inf_def signed_zero_def fle_PInf fzero_def)
qed

lemma cap_step:
  assumes "fin w" "is_f64 w" "0 < val w" "flt fzero a" "flt fzero b" "flt (fmul a b) w"
  shows "fin (fmul a b) \<and> is_f64 (fmul a b) \<and> 0 \<le> val (fmul a b) \<and> val (fmul a b) \<le> val w"
proof -
  have "fin (fmul a b)"
    by (rule fin_between [OF fmul_pos_not_neg [OF assms(4,5)] flt_imp_fle [OF assms(6)]]) (use assms in simp_all)
  then show ?thesis
    using assms(1,6) fmul_pos_not_neg [OF assms(4,5)] by (simp add: f64_sem)
qed

lemma fmin_cap:
  assumes "fin w" "is_f64 w" "0 \<le> val w" "is_f64 d" "flt fzero d"
  shows "fin (fmin w d) \<and> is_f64 (fmin w d) \<and> 0 \<le> val (fmin w d) \<and> val (fmin w d) \<le> val w \<and>
    \<not> flt d (fmin w d)"
proof (cases "flt d w")
  case True
  then have "fin d"
    by (intro fin_between [OF flt_imp_fle [OF assms(5)] flt_imp_fle]) (use assms in simp_all)
  then show ?thesis using True assms by (simp add: fmin_def f64_sem)
next
  case False
  then show ?thesis using assms by (simp add: fmin_def)
qed

lemma val_le_not_flt: "fin q \<Longrightarrow> fin w \<Longrightarrow> val q \<le> val w \<Longrightarrow> \<not> flt c w \<Longrightarrow> \<not> flt c q"
  by (cases c; cases q; cases w) (auto simp: flt_def)

lemma policy_caps:
  assumes "apply_policy_caps r c desired remaining st = (q, st1)"
    and "is_f64 desired" "is_f64 remaining" "fin remaining" "is_f64 (max_display_quantity (rq_policy r))"
    and "whole_lots (lot_size (rq_policy r))" "flt fzero (max_participation_rate (rq_policy r))"
  shows "q = fzero \<or> (q = remaining \<and> fle remaining (min_clip_size (rq_policy r)))
    \<or> (flt fzero q \<and> fle q desired \<and> fle q remaining \<and>
       \<not> (flt fzero (xc_interval_volume c) \<and>
          flt (fmul (xc_interval_volume c) (max_participation_rate (rq_policy r))) q) \<and>
       \<not> (flt fzero (max_display_quantity (rq_policy r)) \<and> flt (max_display_quantity (rq_policy r)) q) \<and>
       \<not> flt q (min_clip_size (rq_policy r)))"
proof -
  let ?pol = "rq_policy r"
  define want where "want = fmin desired remaining"
  define cap where "cap = fmul (xc_interval_volume c) (max_participation_rate ?pol)"
  define capped where "capped = (flt fzero (xc_interval_volume c) \<and> flt cap want)"
  define want1 where "want1 = (if capped then cap else want)"
  define want2 where "want2 = (if flt fzero (max_display_quantity ?pol)
    then fmin want1 (max_display_quantity ?pol) else want1)"
  define want3 where "want3 = round_to_lot (lot_size ?pol) want2"
  note defs = want_def [symmetric] cap_def [symmetric] capped_def [symmetric] want1_def [symmetric]
    want2_def [symmetric] want3_def [symmetric]
  show ?thesis
  proof (cases "fin want \<and> 0 < val want")
    case False
    then have "\<not> is_finite want \<or> fle want fzero" by (auto simp: f64_sem not_le)
    then show ?thesis using assms(1) unfolding apply_policy_caps_def Let_def defs by (simp split: if_splits)
  next
    case True
    then have w: "fin want" "0 < val want" by auto
    have f: "is_f64 want" using assms(2,3) by (simp add: want_def)
    have le: "fle want desired" "fle want remaining"
      using w assms(4) by (auto simp: want_def fmin_def not_flt flt_imp_fle split: if_splits)
    have w1: "fin want1" "is_f64 want1" "0 \<le> val want1" "val want1 \<le> val want"
      using w f cap_step [OF w(1) f w(2) _ assms(7)] by (auto simp: want1_def capped_def cap_def)
    have w2: "fin want2" "is_f64 want2" "0 \<le> val want2" "val want2 \<le> val want1"
      using w1 fmin_cap [OF w1(1,2,3) assms(5)] by (auto simp: want2_def)
    have w3: "fin want3" "0 \<le> val want3" "val want3 \<le> val want2"
      using round_whole_lots [OF assms(6) w2(2,1,3)] by (auto simp: want3_def)
    have q: "q = (if flt want3 (min_clip_size ?pol)
        then if \<not> fle remaining (min_clip_size ?pol) then fzero else fmax fzero remaining
        else fmax fzero want3)"
      using assms(1) w unfolding apply_policy_caps_def Let_def defs
      by (auto simp: f64_sem split: if_splits)
    have cap: "\<not> flt cap want1" if "flt fzero (xc_interval_volume c)"
      using that by (auto simp: want1_def capped_def)
    have display: "\<not> flt (max_display_quantity ?pol) want2" if "flt fzero (max_display_quantity ?pol)"
      using that fmin_cap [OF w1(1,2,3) assms(5)] by (simp add: want2_def)
    show ?thesis
    proof (cases "flt want3 (min_clip_size ?pol)")
      case True
      then show ?thesis using q by (auto simp: fmax_zero)
    next
      case False
      then have "q = fzero \<or> q = want3 \<and> flt fzero want3" using q by (auto simp: fmax_zero)
      moreover have "fle want3 want" using w w1 w2 w3 by (simp add: f64_sem)
      moreover have "\<not> flt cap want3" if "flt fzero (xc_interval_volume c)"
        using val_le_not_flt [OF w3(1) w1(1) _ cap [OF that]] w2(4) w3(3) by simp
      moreover have "\<not> flt (max_display_quantity ?pol) want3" if "flt fzero (max_display_quantity ?pol)"
        using val_le_not_flt [OF w3(1) w2(1) w3(3) display [OF that]] .
      ultimately show ?thesis
        using False le fle_trans unfolding cap_def by blast
    qed
  qed
qed

text \<open>
  Every clip the shared policy sizes is zero, or the last residue of the parent (too small to be worth a
  clip of its own), or a quantity that respects all caps at once: what was asked for, what remains of the
  parent, the participation in the interval's volume, the display size, and the minimum clip.
\<close>

theorem policy_caps_respected:
  assumes "apply_policy_caps r c desired remaining st = (q, st1)"
    and "is_f64 desired" "is_f64 remaining" "fin remaining" "is_f64 (max_display_quantity (rq_policy r))"
    and "whole_lots (lot_size (rq_policy r))" "flt fzero (max_participation_rate (rq_policy r))"
  shows "q = fzero \<or> (q = remaining \<and> fle remaining (min_clip_size (rq_policy r)))
    \<or> (flt fzero q \<and> fle q desired \<and> fle q remaining \<and>
       \<not> (flt fzero (xc_interval_volume c) \<and>
          flt (fmul (xc_interval_volume c) (max_participation_rate (rq_policy r))) q) \<and>
       \<not> (flt fzero (max_display_quantity (rq_policy r)) \<and> flt (max_display_quantity (rq_policy r)) q) \<and>
       \<not> flt q (min_clip_size (rq_policy r)))"
  by (rule policy_caps [OF assms])

section \<open>What every algorithm promises\<close>

text \<open>
  The shape of a child: it is released only when the market, the session and the window allow it, it
  trades the parent's instrument on the parent's side, and it carries a limit exactly when it is a
  limit order.
\<close>

definition child_shape :: "ExecutionRequest \<Rightarrow> ExecutionContext \<Rightarrow> ChildOrder \<Rightarrow> bool" where
  "child_shape r c ch \<longleftrightarrow>
     fst (releasable r c None) \<and> cd_instrument ch = ord_instrument (rq_parent r) \<and>
     cd_side ch = ord_side (rq_parent r) \<and> cd_tif ch = po_time_in_force (rq_policy r) \<and>
     \<not> fle (cd_quantity ch) fzero \<and> cd_type ch \<in> {Market, Limit} \<and>
     (cd_type ch = Limit \<longleftrightarrow> cd_limit_price ch \<noteq> None) \<and> cd_stop_price ch = None"

text \<open>The inputs are doubles, what remains is finite, and rounding to lots cannot round up.\<close>

definition schedule_f64 :: "ExecutionSchedule \<Rightarrow> bool" where
  "schedule_f64 s \<longleftrightarrow> (\<forall>x \<in> set s. is_f64 (sl_target x) \<and> is_f64 (sl_cumulative x))"

definition inputs_ok :: "ExecutionRequest \<Rightarrow> ExecutionSchedule \<Rightarrow> ExecutionProgress \<Rightarrow> bool" where
  "inputs_ok r s p \<longleftrightarrow> schedule_f64 s \<and> is_f64 (pg_filled p) \<and> is_f64 (pg_remaining p) \<and> fin (pg_remaining p) \<and>
     is_f64 (max_display_quantity (rq_policy r)) \<and> whole_lots (lot_size (rq_policy r)) \<and>
     flt fzero (max_participation_rate (rq_policy r))"

definition planned :: "ExecutionRequest \<Rightarrow> ExecutionSchedule \<Rightarrow> bool" where
  "planned r s \<longleftrightarrow> request_validate r = Ok True \<and>
     (\<exists>n. schedule_of (ord_quantity (rq_parent r)) (rq_window_begin r) (rq_window_end r) n s) \<and>
     (is_f64 (ord_quantity (rq_parent r)) \<longrightarrow> schedule_f64 s)"

locale execution_algorithm =
  fixes plan :: "ExecutionRequest \<Rightarrow> (algo_error, ExecutionSchedule) result"
    and next_child :: "ExecutionRequest \<Rightarrow> ExecutionSchedule \<Rightarrow> ExecutionProgress \<Rightarrow> ExecutionContext \<Rightarrow> ChildOrder option"
  assumes plan_ok: "plan r = Ok s \<Longrightarrow> planned r s"
    and child_ok: "next_child r s p c = Some ch \<Longrightarrow> child_shape r c ch"
    and child_le: "next_child r s p c = Some ch \<Longrightarrow> inputs_ok r s p \<Longrightarrow> \<not> is_nan (cd_quantity ch) \<Longrightarrow>
      fle (cd_quantity ch) (pg_remaining p)"
begin

lemma plan_tiles: "plan r = Ok s \<Longrightarrow> tiles (rq_window_begin r) s (rq_window_end r)"
  using plan_ok by (auto simp: planned_def schedule_of_def)

lemma valid_child:
  assumes "next_child r s p c = Some ch" "child_valid ch" "inputs_ok r s p"
  shows "flt fzero (cd_quantity ch) \<and> fle (cd_quantity ch) (pg_remaining p)"
proof -
  have "fin (cd_quantity ch)" "\<not> fle (cd_quantity ch) fzero"
    using assms(2) by (auto simp: child_valid_def split: if_splits)
  then show ?thesis using child_le [OF assms(1,3)] by (simp add: f64_sem not_le)
qed

end

subsection \<open>The laws of the shared parts\<close>

lemma lay_slices_f64:
  assumes "\<And>i. is_f64 (q i)" "is_f64 cum"
  shows "schedule_f64 (lay_slices b e per n q is cum)"
  using assms(2)
proof (induction "is" arbitrary: cum)
  case (Cons i "is")
  then have "schedule_f64 (lay_slices b e per n q is (fadd cum (q i)))" "is_f64 (fadd cum (q i))"
    using assms(1) by simp_all
  then show ?case using assms(1) by (simp add: schedule_f64_def Let_def)
qed (simp add: schedule_f64_def)

lemma snap_f64: "schedule_f64 s \<Longrightarrow> is_f64 t \<Longrightarrow> s \<noteq> [] \<Longrightarrow> schedule_f64 (snap_total t s)"
  by (auto simp: snap_total_def schedule_f64_def dest!: in_set_conv_nth [THEN iffD1]
      simp: nth_list_update split: if_splits)

lemma lay_slices_nonempty: "is \<noteq> [] \<Longrightarrow> lay_slices b e per n q is cum \<noteq> []"
  by (cases "is") (simp_all add: Let_def)

lemma twap_f64: "twap tot b e n = Ok s \<Longrightarrow> is_f64 tot \<Longrightarrow> schedule_f64 s"
  by (auto simp: twap_def Let_def split: if_splits intro!: snap_f64 lay_slices_f64 lay_slices_nonempty)

lemma vwap_f64: "vwap tot b e ws = Ok s \<Longrightarrow> is_f64 tot \<Longrightarrow> schedule_f64 s"
  by (auto simp: vwap_def Let_def split: if_splits option.splits
      intro!: snap_f64 lay_slices_f64 lay_slices_nonempty)

lemma request_validate_ok: "request_validate r = Inr b \<Longrightarrow> b = True"
  by (auto simp: request_validate_def split: if_splits)

lemma lift_schedule_ok: "lift_schedule x = Ok s \<longleftrightarrow> x = Ok s"
  by (cases x) (simp_all add: lift_schedule_def)

lemma immediate_planned: "immediate_plan r = Ok s \<Longrightarrow> planned r s"
  by (auto simp: immediate_plan_def planned_def immediate_def lift_schedule_ok
      split: sum.splits dest: request_validate_ok twap_schedule twap_f64)

lemma twap_planned: "twap_plan r = Ok s \<Longrightarrow> planned r s"
  by (auto simp: twap_plan_def planned_def lift_schedule_ok
      split: sum.splits dest: request_validate_ok twap_schedule twap_f64)

lemma vwap_planned: "vwap_plan r = Ok s \<Longrightarrow> planned r s"
  by (auto simp: vwap_plan_def planned_def lift_schedule_ok
      split: sum.splits if_splits dest: request_validate_ok vwap_schedule vwap_f64)

lemma iceberg_planned: "iceberg_plan d r = Ok s \<Longrightarrow> planned r s"
  by (auto simp: iceberg_plan_def planned_def immediate_def lift_schedule_ok
      split: sum.splits if_splits dest: request_validate_ok twap_schedule twap_f64)

lemma adaptive_planned: "adaptive_plan cfg r = Ok s \<Longrightarrow> planned r s"
  by (auto simp: adaptive_plan_def planned_def lift_schedule_ok
      split: sum.splits dest: request_validate_ok twap_schedule twap_f64)

lemma target_by_f64: "schedule_f64 s \<Longrightarrow> is_f64 (target_by s ts)"
proof -
  assume f: "schedule_f64 s"
  have "is_f64 (sl_cumulative x) \<and> is_f64 (sl_target x)" if "slice_at s ts = Some x" for x
    using that f unfolding slice_at_def schedule_f64_def
    by (auto split: option.splits if_splits dest: find_Some_iff [THEN iffD1])
  then show ?thesis
    using f by (auto simp: target_by_def Let_def schedule_f64_def split: option.splits)
qed

lemma caps_le_remaining:
  assumes "inputs_ok r s p" "is_f64 desired" "\<not> fle q fzero"
    and "q = fst (apply_policy_caps r c desired (pg_remaining p) st)"
  shows "fle q (pg_remaining p)"
proof -
  obtain st1 where eq: "apply_policy_caps r c desired (pg_remaining p) st = (q, st1)"
    using assms(4) by (metis prod.collapse)
  from assms(1) have "is_f64 (pg_remaining p)" "fin (pg_remaining p)"
    "is_f64 (max_display_quantity (rq_policy r))" "whole_lots (lot_size (rq_policy r))"
    "flt fzero (max_participation_rate (rq_policy r))"
    by (simp_all add: inputs_ok_def)
  then show ?thesis
    using policy_caps [OF eq assms(2)] assms(3) by auto
qed

lemma clip_le_remaining:
  assumes "inputs_ok r s p" "\<not> fle q fzero" "q = fst (clip_quantity r s p c st)"
  shows "fle q (pg_remaining p)"
  using assms caps_le_remaining [of r s p "fsub (target_by s (xc_now c)) (pg_filled p)" q c st]
  by (auto simp: clip_quantity_def Let_def inputs_ok_def target_by_f64)

lemma round_le:
  assumes "whole_lots lot" "is_f64 w" "\<not> fle (round_to_lot lot w) fzero" "\<not> is_nan (round_to_lot lot w)"
  shows "fle (round_to_lot lot w) w"
proof (cases "fin w \<and> 0 \<le> val w")
  case True
  then show ?thesis using round_whole_lots [OF assms(1,2)] by (simp add: f64_sem)
next
  case False
  consider "flt fzero lot" "lot = Fin 1" | "round_to_lot lot w = w"
  proof (cases "flt fzero lot")
    case True
    then have "lot = Fin 1" using assms(1) by (simp add: whole_lots_def)
    with True show thesis by (rule that(1))
  next
    case False
    then have "round_to_lot lot w = w" by (simp add: round_to_lot_def)
    then show thesis by (rule that(2))
  qed
  then show ?thesis
  proof cases
    case 1
    show ?thesis
    proof (cases "fin w")
      case True
      then have neg: "val w < 0" using False by simp
      define t where "t = ftrunc (fdiv w (Fin 1))"
      have "fin t \<and> val t \<le> 0"
        using div_one [OF assms(2) True] neg unfolding t_def by (cases "fdiv w (Fin 1)") auto
      then have "fle (fmul t (Fin 1)) (fmul fzero (Fin 1))"
        by (intro fmul_mono) simp_all
      moreover have "fmul fzero (Fin 1) = fzero" by (simp add: fmul_def fzero_def signed_zero_def)
      ultimately show ?thesis using assms(3) 1 by (simp add: round_to_lot_def t_def)
    next
      case nf: False
      then show ?thesis
        using assms(3,4) 1 by (cases w) (auto simp: round_to_lot_def fdiv_def fmul_def Let_def signed_inf_def
            fle_NInf fle_PInf split: if_splits)
    qed
  qed (use assms(4) in simp)
qed

lemma fmin_le_right: "\<not> is_nan (fmin a b) \<Longrightarrow> \<not> is_nan b \<Longrightarrow> fle (fmin a b) b"
  by (auto simp: fmin_def not_flt)

lemma round_nan: "is_nan w \<Longrightarrow> is_nan (round_to_lot lot w)"
  by (cases w) (auto simp: round_to_lot_def fdiv_def fmul_def)

lemma rounded_le_remaining:
  assumes "whole_lots lot" "is_f64 a" "is_f64 b" "fin b" "q = round_to_lot lot (fmin a b)"
    and "\<not> fle q fzero" "\<not> is_nan q"
  shows "fle q b"
  using round_le [OF assms(1), of "fmin a b"] fmin_le_right [of a b] round_nan [of "fmin a b" lot] assms(2-7) fle_trans
  by (metis fin_not_nan is_f64_minmax(1))

subsection \<open>Each algorithm keeps the promise\<close>

lemma market_child_sel [simp]:
  "cd_quantity (market_child r q i) = q" "cd_type (market_child r q i) = Market"
  by (simp_all add: market_child_def)

lemma market_child_shape:
  "fst (releasable r c None) \<Longrightarrow> \<not> fle q fzero \<Longrightarrow> child_shape r c (market_child r q i)"
  by (simp add: child_shape_def market_child_def)

lemma limit_child_shape:
  "fst (releasable r c None) \<Longrightarrow> \<not> fle q fzero \<Longrightarrow>
     child_shape r c ((market_child r q i)\<lparr>cd_type := Limit, cd_limit_price := Some l\<rparr>)"
  "fst (releasable r c None) \<Longrightarrow> \<not> fle q fzero \<Longrightarrow>
     child_shape r c ((market_child r q i)\<lparr>cd_type := Limit, cd_limit_price := Some l, cd_hidden := h\<rparr>)"
  by (simp_all add: child_shape_def market_child_def)

interpretation immediate_alg: execution_algorithm immediate_plan immediate_next_child
proof
  fix r s p c ch
  assume "immediate_next_child r s p c = Some ch"
  then have rel: "fst (releasable r c None)"
    and ch: "ch = market_child r (fst (apply_policy_caps r c (pg_remaining p) (pg_remaining p) None))
      (pg_slices_released p)" "\<not> fle (cd_quantity ch) fzero"
    by (auto simp: immediate_next_child_def Let_def split: if_splits)
  then show "child_shape r c ch" by (auto intro: market_child_shape)
  show "fle (cd_quantity ch) (pg_remaining p)" if "inputs_ok r s p"
    using caps_le_remaining [OF that, of "pg_remaining p" "cd_quantity ch"] ch that
    by (simp add: inputs_ok_def)
qed (rule immediate_planned)

text \<open>The schedule-driven algorithms differ in the slice they name, not in what they send.\<close>

lemma scheduled_child:
  assumes "f r s p c = (if \<not> fst (releasable r c None) then None
      else (let clip = fst (clip_quantity r s p c None) in
            if fle clip fzero then None else Some (market_child r clip (slice_index_at s p (xc_now c)))))"
    and "f r s p c = Some ch"
  shows "child_shape r c ch" "inputs_ok r s p \<Longrightarrow> fle (cd_quantity ch) (pg_remaining p)"
proof -
  from assms have rel: "fst (releasable r c None)"
    and ch: "ch = market_child r (fst (clip_quantity r s p c None)) (slice_index_at s p (xc_now c))"
      "\<not> fle (cd_quantity ch) fzero"
    by (auto simp: Let_def split: if_splits)
  then show "child_shape r c ch" by (auto intro: market_child_shape)
  show "fle (cd_quantity ch) (pg_remaining p)" if "inputs_ok r s p"
    using clip_le_remaining [OF that] ch by simp
qed

lemmas twap_child = scheduled_child [OF twap_next_child_def]
lemmas vwap_child = scheduled_child [OF vwap_next_child_def]

interpretation twap_alg: execution_algorithm twap_plan twap_next_child
  by unfold_locales
    (erule twap_planned twap_child | (rule twap_child, assumption, assumption))+

interpretation vwap_alg: execution_algorithm vwap_plan vwap_next_child
  by unfold_locales
    (erule vwap_planned vwap_child | (rule vwap_child, assumption, assumption))+

interpretation pov_alg: execution_algorithm immediate_plan "pov_next_child rate" for rate
proof
  fix r s p c ch
  assume some: "pov_next_child rate r s p c = Some ch"
  let ?w = "round_to_lot (lot_size (rq_policy r))
    (fmin (fmul (xc_interval_volume c) (fmin rate (max_participation_rate (rq_policy r)))) (pg_remaining p))"
  from some have rel: "fst (releasable r c None)"
    and ch: "ch = market_child r (cd_quantity ch) (pg_slices_released p)" "\<not> fle (cd_quantity ch) fzero"
    and q: "cd_quantity ch = pg_remaining p \<or> cd_quantity ch = ?w"
    by (auto simp: pov_next_child_def Let_def split: if_splits)
  show "child_shape r c ch"
    using market_child_shape [OF rel ch(2)] ch(1) by metis
  show "fle (cd_quantity ch) (pg_remaining p)" if "inputs_ok r s p" "\<not> is_nan (cd_quantity ch)"
    using q
  proof
    assume "cd_quantity ch = ?w"
    then show ?thesis
      using that ch(2) by (intro rounded_le_remaining) (auto simp: inputs_ok_def)
  qed (use that in \<open>simp add: inputs_ok_def\<close>)
qed (rule immediate_planned)

interpretation iceberg_alg: execution_algorithm "iceberg_plan (lit d)" "iceberg_next_child (lit d)" for d
proof
  fix r s p c ch
  assume some: "iceberg_next_child (lit d) r s p c = Some ch"
  let ?w = "round_to_lot (lot_size (rq_policy r)) (fmin (lit d) (pg_remaining p))"
  let ?q = "cd_quantity ch"
  from some obtain l where rel: "fst (releasable r c None)"
    and ch: "ch = (market_child r ?q (pg_slices_released p))\<lparr>cd_type := Limit, cd_limit_price := Some l,
      cd_hidden := fmax fzero (fsub (pg_remaining p) ?q)\<rparr>" "\<not> fle ?q fzero"
    and q: "?q = pg_remaining p \<or> ?q = ?w"
    by (auto simp: iceberg_next_child_def Let_def split: if_splits option.splits)
  show "child_shape r c ch"
    using limit_child_shape(2) [OF rel ch(2)] ch(1) by metis
  show "fle ?q (pg_remaining p)" if "inputs_ok r s p" "\<not> is_nan ?q"
    using q
  proof
    assume "?q = ?w"
    then show ?thesis
      using that ch(2) by (intro rounded_le_remaining) (auto simp: inputs_ok_def)
  qed (use that in \<open>simp add: inputs_ok_def\<close>)
qed (rule iceberg_planned)

interpretation adaptive_alg: execution_algorithm "adaptive_plan cfg" "adaptive_next_child cfg" for cfg
proof
  fix r s p c ch
  assume some: "adaptive_next_child cfg r s p c = Some ch"
  let ?q = "fst (clip_quantity r s p c None)"
  from some have rel: "fst (releasable r c None)" and q: "cd_quantity ch = ?q" "\<not> fle ?q fzero"
    and ch: "ch = market_child r ?q (pg_slices_released p) \<or>
      (\<exists>l. ch = (market_child r ?q (pg_slices_released p))\<lparr>cd_type := Limit, cd_limit_price := Some l\<rparr>)"
    by (auto simp: adaptive_next_child_def Let_def split: if_splits option.splits)
  show "child_shape r c ch"
    using ch market_child_shape [OF rel q(2)] limit_child_shape(1) [OF rel q(2)] by auto
  show "fle (cd_quantity ch) (pg_remaining p)" if "inputs_ok r s p"
    using clip_le_remaining [OF that q(2)] q(1) by simp
qed (rule adaptive_planned)

section \<open>Properties of the built-in algorithms\<close>

text \<open>The release rule, and the one counter a refusal moves.\<close>

lemma releasable_iff:
  "fst (releasable r c st) \<longleftrightarrow>
     rt_executable (xc_market c) \<and> rq_window_begin r \<le> xc_now c \<and> xc_now c < rq_window_end r \<and>
     (respect_market_hours (rq_policy r) \<longrightarrow>
       (is_set (xc_session_open c) \<longrightarrow> xc_session_open c + open_buffer (rq_policy r) \<le> xc_now c) \<and>
       (is_set (xc_session_close c) \<longrightarrow> xc_now c < xc_session_close c - close_buffer (rq_policy r)))"
  by (auto simp: releasable_def)

text \<open>
  A resting limit never crosses the touch: with a non-negative offset and collar the buy limit is at
  or below the ask it is measured against, the sell limit at or above the bid.
\<close>

lemma opposite_sign: "- sign_of s = sign_of (opposite s)"
  by (cases s) simp_all

lemma passive_limit_never_crosses:
  assumes "collared_limit r c offset = Some l" "fin l" "not_neg offset" "not_neg (price_collar (rq_policy r))"
    and "is_f64 (touch (rt_state (xc_market c)) (ord_side (rq_parent r)))"
    and "\<not> is_nan (touch (rt_state (xc_market c)) (ord_side (rq_parent r)))"
  shows "case ord_side (rq_parent r) of
      Buy \<Rightarrow> fle l (touch (rt_state (xc_market c)) Buy) | Sell \<Rightarrow> fle (touch (rt_state (xc_market c)) Sell) l"
proof -
  let ?side = "ord_side (rq_parent r)"
  let ?t = "touch (rt_state (xc_market c)) ?side"
  obtain b where b: "l = apply_bps ?t b (sign_of (opposite ?side))" "not_neg b" and pos: "\<not> fle ?t fzero"
    using assms(1,3,4) by (auto simp: collared_limit_def Let_def opposite_sign split: if_splits)
  have "flt fzero ?t" using pos assms(6) not_fle [of ?t fzero] by simp
  from apply_bps_direction [OF assms(5) this b(2), of "opposite ?side"] show ?thesis
    using assms(2) b(1) by (cases ?side) simp_all
qed

text \<open>The six built-in algorithms, in the order of their names.\<close>

definition default_registry :: AlgorithmRegistry where
  "default_registry = [(''adaptive_limit'', AdaptiveLimitAlgorithm default_adaptive),
     (''iceberg'', IcebergAlgorithm (lit 100)), (''immediate'', ImmediateAlgorithm),
     (''pov'', ParticipationAlgorithm (lit (1 / 10))), (''twap'', TwapAlgorithm), (''vwap'', VwapAlgorithm)]"

lemma with_defaults_registry: "with_defaults = Ok default_registry"
  by (simp add: with_defaults_def default_registry_def register_algorithm_def om_contains_def om_find_Cons
      less_char_def)

lemma default_laws:
  "list_all (\<lambda>(nm, a). alg_name a = nm \<and> execution_algorithm (alg_plan a) (alg_next_child a)) default_registry"
  unfolding default_registry_def
  by (simp add: ImmediateAlgorithm_def TwapAlgorithm_def VwapAlgorithm_def ParticipationAlgorithm_def
      IcebergAlgorithm_def AdaptiveLimitAlgorithm_def immediate_alg.execution_algorithm_axioms
      twap_alg.execution_algorithm_axioms vwap_alg.execution_algorithm_axioms
      pov_alg.execution_algorithm_axioms iceberg_alg.execution_algorithm_axioms
      adaptive_alg.execution_algorithm_axioms del: lit_one)

lemma default_algorithms:
  assumes "registry_create nm default_registry = Ok a"
  shows "alg_name a = nm \<and> execution_algorithm (alg_plan a) (alg_next_child a)"
proof -
  have "(nm, a) \<in> set default_registry"
    using assms om_find_in by (fastforce simp: registry_create_def split: option.splits)
  then show ?thesis
    using default_laws by (auto simp: list_all_iff)
qed

text \<open>
  Whatever built-in algorithm the default registry hands out under a name, it has that name, plans a
  schedule only for a valid request and over exactly the request's window, and the children it releases
  stay inside the request: within the window, while the market is executable, on the parent's instrument
  and side, and for a positive quantity that does not exceed what remains of the parent.
\<close>

theorem built_in_children_stay_inside:
  assumes "with_defaults = Ok reg" "registry_create nm reg = Ok a" "alg_plan a r = Ok s"
    and "alg_next_child a r s p c = Some ch" "child_valid ch" "inputs_ok r s p"
  shows "alg_name a = nm \<and> request_validate r = Ok True \<and>
    schedule_begin s = rq_window_begin r \<and> schedule_end s = rq_window_end r \<and>
    rq_window_begin r \<le> xc_now c \<and> xc_now c < rq_window_end r \<and> rt_executable (xc_market c) \<and>
    cd_instrument ch = ord_instrument (rq_parent r) \<and> cd_side ch = ord_side (rq_parent r) \<and>
    flt fzero (cd_quantity ch) \<and> fle (cd_quantity ch) (pg_remaining p)"
proof -
  have nm: "alg_name a = nm" and laws: "execution_algorithm (alg_plan a) (alg_next_child a)"
    using default_algorithms assms(1,2) by (auto simp: with_defaults_registry)
  note plan = execution_algorithm.plan_ok [OF laws assms(3)]
  then have tiles: "tiles (rq_window_begin r) s (rq_window_end r)" "s \<noteq> []"
    by (auto simp: planned_def schedule_of_def)
  note shape = execution_algorithm.child_ok [OF laws assms(4)]
  note le = execution_algorithm.valid_child [OF laws assms(4-6)]
  show ?thesis
    using nm plan tiles_ends [OF tiles] tiles(2) shape le
    by (simp add: planned_def child_shape_def releasable_iff schedule_begin_def schedule_end_def)
qed

definition sample_request :: ExecutionRequest where
  "sample_request = \<lparr>rq_parent = sample_order 1 Buy (Fin 100), rq_window_begin = 100, rq_window_end = 1100,
     rq_policy = default_policy, rq_slice_count = 10, rq_volume_profile = []\<rparr>"

definition sample_context :: "Timestamp \<Rightarrow> ExecutionContext" where
  "sample_context ts = \<lparr>xc_now = ts, xc_market = default_routed\<lparr>rt_executable := True\<rparr>,
     xc_interval_volume = Fin 200, xc_cumulative_volume = fzero, xc_expected_share = fzero,
     xc_session_open = kNoTimestamp, xc_session_close = kNoTimestamp\<rparr>"

lemma sample_request_valid: "request_validate sample_request = Ok True"
proof -
  have "\<not> fle (lit (1 / 10)) fzero" "\<not> flt (lit 1) (lit (1 / 10))" "\<not> flt (lit 1) fzero" "\<not> fle (Fin 100) fzero"
    by (simp_all add: f64_eval)
  then show ?thesis
    by (simp add: request_validate_def sample_request_def default_policy_def sample_order_def sample_times_def
        is_set_def kNoTimestamp_def)
qed

lemma sample_caps:
  "apply_policy_caps sample_request (sample_context 600) (Fin 100) (Fin 100) None = (Fin 20, None)"
proof -
  have cap: "fmul (Fin 200) (lit (1 / 10)) = Fin 20" by (simp add: f64_eval)
  have rest: "flt fzero (Fin 200)" "flt (Fin 20) (Fin 100)" "\<not> flt fzero fzero" "fmin (Fin 100) (Fin 100) = Fin 100"
    "round_to_lot (Fin 1) (Fin 20) = Fin 20" "\<not> flt (Fin 20) (Fin 1)" "fmax fzero (Fin 20) = Fin 20"
    "\<not> fle (Fin 100) fzero"
    by (simp_all add: f64_eval round_to_lot_def fmax_def)
  show ?thesis
    using cap rest by (simp add: apply_policy_caps_def sample_request_def default_policy_def sample_context_def
        skip_participation_def Let_def)
qed

lemma f64_sample: "is_f64 (Fin 100)"
  by (simp add: is_f64_def rnd_numeral_exact f64_lim_def)

theorem policy_caps_respected_witness:
  "apply_policy_caps sample_request (sample_context 600) (Fin 100) (Fin 100) None = (Fin 20, None) \<and>
   (Fin 20 = fzero \<or> (Fin 20 = Fin 100 \<and> fle (Fin 100) (min_clip_size (rq_policy sample_request)))
    \<or> (flt fzero (Fin 20) \<and> fle (Fin 20) (Fin 100) \<and> fle (Fin 20) (Fin 100) \<and>
       \<not> (flt fzero (xc_interval_volume (sample_context 600)) \<and>
          flt (fmul (xc_interval_volume (sample_context 600)) (max_participation_rate (rq_policy sample_request)))
            (Fin 20)) \<and>
       \<not> (flt fzero (max_display_quantity (rq_policy sample_request)) \<and>
          flt (max_display_quantity (rq_policy sample_request)) (Fin 20)) \<and>
       \<not> flt (Fin 20) (min_clip_size (rq_policy sample_request))))"
proof -
  have "is_f64 (max_display_quantity (rq_policy sample_request))" "whole_lots (lot_size (rq_policy sample_request))"
    "flt fzero (max_participation_rate (rq_policy sample_request))"
    by (simp_all add: sample_request_def default_policy_def whole_lots_def) (simp add: f64_eval)
  then show ?thesis
    using sample_caps policy_caps_respected [OF sample_caps f64_sample f64_sample] by simp
qed

theorem built_in_children_stay_inside_witness:
  "\<exists>reg a s ch. with_defaults = Ok reg \<and> registry_create ''immediate'' reg = Ok a \<and>
     alg_plan a sample_request = Ok s \<and>
     alg_next_child a sample_request s (fresh_progress\<lparr>pg_remaining := Fin 100\<rparr>) (sample_context 600) = Some ch \<and>
     cd_quantity ch = Fin 20 \<and> schedule_begin s = 100 \<and> fle (cd_quantity ch) (Fin 100)"
proof -
  let ?p = "fresh_progress\<lparr>pg_remaining := Fin 100\<rparr>"
  let ?ch = "market_child sample_request (Fin 20) 0"
  have a: "registry_create ''immediate'' default_registry = Ok ImmediateAlgorithm"
    by (simp add: registry_create_def default_registry_def om_find_Cons)
  have q: "\<not> fle (Fin 100) fzero" by (simp add: f64_eval)
  obtain s where s: "twap (Fin 100) 100 1100 1 = Ok s"
    using q by (simp add: twap_def is_set_def kNoTimestamp_def Let_def)
  then have plan: "alg_plan ImmediateAlgorithm sample_request = Ok s"
    using sample_request_valid by (simp add: ImmediateAlgorithm_def immediate_plan_def lift_schedule_def
        immediate_def sample_request_def sample_order_def)
  have rel: "fst (releasable sample_request (sample_context 600) None)"
    by (simp add: releasable_iff sample_request_def sample_context_def default_policy_def is_set_def)
  have q20: "\<not> fle (Fin 20) fzero" by (simp add: f64_eval)
  then have next_ch: "alg_next_child ImmediateAlgorithm sample_request s ?p (sample_context 600) = Some ?ch"
    using sample_caps rel by (simp add: ImmediateAlgorithm_def immediate_next_child_def fresh_progress_def)
  have valid: "child_valid ?ch"
    using q20 by (simp add: child_valid_def market_child_def sample_request_def sample_order_def
        kInvalidInstrument_def)
  have "inputs_ok sample_request s ?p"
    using twap_f64 [OF s f64_sample] f64_sample
    by (simp add: inputs_ok_def fresh_progress_def sample_request_def default_policy_def whole_lots_def)
      (simp add: f64_eval)
  from built_in_children_stay_inside [OF with_defaults_registry a plan next_ch valid this] a plan next_ch
  show ?thesis
    using with_defaults_registry by (auto simp: sample_request_def fresh_progress_def)
qed

end
