(* ===== verification/Accounting.thy ===== *)
theory Accounting
  imports Portfolio
begin

text \<open>
  The transaction journal (\<open>src/accounting/journal.cpp\<close>): the append-only, chronological
  entries, the matching of fills into round trips, and the gross-to-net bridge. The CSV and text
  renderings are left out; entry details are strings the callers pass.
\<close>

datatype EntryKind = OrderSubmitted | OrderRejected | OrderCancelled | FillReceived | Dividend
  | SplitEntry | MarkEntry | RiskRejection

fun to_string_EntryKind :: "EntryKind \<Rightarrow> string" where
  "to_string_EntryKind OrderSubmitted = ''order_submitted''"
| "to_string_EntryKind OrderRejected = ''order_rejected''"
| "to_string_EntryKind OrderCancelled = ''order_cancelled''"
| "to_string_EntryKind FillReceived = ''fill''"
| "to_string_EntryKind Dividend = ''dividend''"
| "to_string_EntryKind SplitEntry = ''split''"
| "to_string_EntryKind MarkEntry = ''mark''"
| "to_string_EntryKind RiskRejection = ''risk_rejection''"

record JournalEntry =
  je_ts :: Timestamp
  je_kind :: EntryKind
  je_order_id :: OrderId
  je_instrument :: InstrumentId
  je_side :: Side
  je_quantity :: Qty
  je_price :: Price
  je_cash_delta :: Notional
  je_cost :: Notional
  je_detail :: string

definition default_entry :: JournalEntry where
  "default_entry = \<lparr>je_ts = kNoTimestamp, je_kind = MarkEntry, je_order_id = kNoOrder,
     je_instrument = kInvalidInstrument, je_side = Buy, je_quantity = fzero, je_price = fzero,
     je_cash_delta = fzero, je_cost = fzero, je_detail = []\<rparr>"

record Trade =
  tr_instrument :: InstrumentId
  tr_direction :: Side
  tr_opened :: Timestamp
  tr_closed :: Timestamp
  tr_quantity :: Qty
  tr_entry_price :: Price
  tr_exit_price :: Price
  tr_gross_pnl :: Notional
  tr_costs :: Notional

definition trade_net_pnl :: "Trade \<Rightarrow> Notional" where
  "trade_net_pnl t = fsub (tr_gross_pnl t) (tr_costs t)"

definition trade_is_win :: "Trade \<Rightarrow> bool" where
  "trade_is_win t \<longleftrightarrow> flt fzero (trade_net_pnl t)"

definition holding_period :: "Trade \<Rightarrow> Duration" where
  "holding_period t = tr_closed t - tr_opened t"

record Reconciliation =
  rc_gross_pnl :: Notional
  rc_spread_cost :: Notional
  rc_impact_and_slippage :: Notional
  rc_commissions_and_fees :: Notional
  rc_financing :: Notional
  rc_other :: Notional
  rc_net_pnl :: Notional
  rc_reported_net :: Notional

definition residual :: "Reconciliation \<Rightarrow> Notional" where
  "residual r = fsub (rc_net_pnl r) (rc_reported_net r)"

definition balances :: "f64 \<Rightarrow> Reconciliation \<Rightarrow> bool" where
  "balances tolerance r \<longleftrightarrow> is_finite (residual r) \<and> fle (fabs (residual r)) tolerance"

record Journal =
  jr_entries :: "JournalEntry list"
  jr_fills :: "Fill list"
  jr_trades :: "Trade list"

definition empty_journal :: Journal where
  "empty_journal = \<lparr>jr_entries = [], jr_fills = [], jr_trades = []\<rparr>"

datatype journal_error = EntryBackwards Timestamp

definition journal_append :: "JournalEntry \<Rightarrow> Journal \<Rightarrow> (journal_error, bool) result \<times> Journal" where
  "journal_append e j =
     (if jr_entries j \<noteq> [] \<and> je_ts e < je_ts (last (jr_entries j))
      then (Err (EntryBackwards (je_ts e)), j)
      else (Ok True, j\<lparr>jr_entries := jr_entries j @ [e]\<rparr>))"

definition fill_entry :: "Fill \<Rightarrow> JournalEntry" where
  "fill_entry f = default_entry\<lparr>je_ts := fill_time (f_times f), je_kind := FillReceived,
     je_order_id := f_order_id f, je_instrument := f_instrument f, je_side := f_side f,
     je_quantity := f_quantity f, je_price := f_price f, je_cash_delta := fill_cash_delta f,
     je_cost := fill_total_cost f\<rparr>"

definition record_fill :: "Fill \<Rightarrow> Journal \<Rightarrow> Journal" where
  "record_fill f j =
     (let j1 = snd (journal_append (fill_entry f) j) in j1\<lparr>jr_fills := jr_fills j1 @ [f]\<rparr>)"

definition record_risk_rejection :: "Timestamp \<Rightarrow> InstrumentId \<Rightarrow> string \<Rightarrow> Journal \<Rightarrow> Journal" where
  "record_risk_rejection ts i reason j =
     snd (journal_append (default_entry\<lparr>je_ts := ts, je_kind := RiskRejection, je_instrument := i,
       je_detail := reason\<rparr>) j)"

section \<open>Matching fills into trades\<close>

record Open =
  op_qty :: f64
  op_avg :: f64
  op_opened :: Timestamp
  op_costs :: f64

definition default_open :: Open where
  "default_open = \<lparr>op_qty = fzero, op_avg = fzero, op_opened = kNoTimestamp, op_costs = fzero\<rparr>"

text \<open>One fill against the running position of its instrument: the new position and the trade closed.\<close>

definition match_one :: "Fill \<Rightarrow> Open \<Rightarrow> Open \<times> Trade option" where
  "match_one f oo =
     (let delta = fill_signed_quantity f; px = f_price f in
      if feq (op_qty oo) fzero \<or> flt fzero (op_qty oo) = flt fzero delta then
        (let denom = fadd (op_qty oo) delta;
             o1 = (if feq (op_qty oo) fzero then oo\<lparr>op_opened := fill_time (f_times f)\<rparr> else oo);
             o2 = (if \<not> feq denom fzero
                   then o1\<lparr>op_avg := fdiv (fadd (fmul (op_avg o1) (op_qty o1)) (fmul px delta)) denom\<rparr>
                   else o1) in
         (o2\<lparr>op_qty := denom, op_costs := fadd (op_costs o2) (fill_total_cost f)\<rparr>, None))
      else
        (let closing = fmin (fabs delta) (fabs (op_qty oo));
             direction = (if flt fzero (op_qty oo) then lit 1 else lit (- 1));
             share = (if flt fzero (fabs (op_qty oo)) then fdiv closing (fabs (op_qty oo)) else lit 1);
             t = \<lparr>tr_instrument = f_instrument f,
                  tr_direction = (if flt fzero (op_qty oo) then Buy else Sell),
                  tr_opened = op_opened oo, tr_closed = fill_time (f_times f), tr_quantity = closing,
                  tr_entry_price = op_avg oo, tr_exit_price = px,
                  tr_gross_pnl = fmul (fmul (fsub px (op_avg oo)) closing) direction,
                  tr_costs = fadd (fmul (op_costs oo) share) (fill_total_cost f)\<rparr>;
             o1 = oo\<lparr>op_costs := fmul (op_costs oo) (fsub (lit 1) share)\<rparr>;
             after = fadd (op_qty o1) delta in
         if flt (fabs (op_qty o1)) (fabs delta)
         then (o1\<lparr>op_qty := after, op_avg := px, op_opened := fill_time (f_times f),
                  op_costs := fzero\<rparr>, Some t)
         else (let o2 = o1\<lparr>op_qty := after\<rparr> in
               (if feq (op_qty o2) fzero then o2\<lparr>op_avg := fzero, op_costs := fzero\<rparr> else o2,
                Some t))))"

definition open_of :: "(InstrumentId, Open) omap \<Rightarrow> InstrumentId \<Rightarrow> Open" where
  "open_of m i = (case om_find m i of None \<Rightarrow> default_open | Some oo \<Rightarrow> oo)"

fun match_fills :: "Fill list \<Rightarrow> (InstrumentId, Open) omap \<Rightarrow> Trade list \<Rightarrow> Trade list" where
  "match_fills [] opens trades = trades"
| "match_fills (f # fs) opens trades =
     (let (oo, t) = match_one f (open_of opens (f_instrument f)) in
      match_fills fs (om_put (f_instrument f) oo opens)
        (case t of None \<Rightarrow> trades | Some tr \<Rightarrow> trades @ [tr]))"

definition match_trades :: "Journal \<Rightarrow> Journal" where
  "match_trades j = j\<lparr>jr_trades := match_fills (jr_fills j) [] []\<rparr>"

section \<open>The bridge\<close>

fun fill_costs :: "Fill list \<Rightarrow> f64 \<times> f64 \<Rightarrow> f64 \<times> f64" where
  "fill_costs [] acc = acc"
| "fill_costs (f # fs) (commissions, slippage) =
     (let bps = fill_slippage_bps f in
      fill_costs fs
        (fadd commissions (fill_total_cost f),
         if is_finite bps
         then fadd slippage (fmul (fmul (fmul bps (lit (1 / 10 ^ 4))) (f_arrival_price f)) (f_quantity f))
         else slippage))"

definition reconcile :: "Portfolio \<Rightarrow> Journal \<Rightarrow> Reconciliation" where
  "reconcile pf j =
     (let (commissions, slippage) = fill_costs (jr_fills j) (fzero, fzero);
          reported = fadd (pf_realized pf) (unrealized_pnl pf);
          gross = fadd reported commissions in
      \<lparr>rc_gross_pnl = gross, rc_spread_cost = fzero, rc_impact_and_slippage = slippage,
       rc_commissions_and_fees = commissions, rc_financing = fzero, rc_other = fzero,
       rc_net_pnl = fsub (fsub (fsub (fsub gross fzero) commissions) fzero) fzero,
       rc_reported_net = reported\<rparr>)"

definition reset_journal :: "Journal \<Rightarrow> Journal" where
  "reset_journal j = j\<lparr>jr_entries := [], jr_fills := [], jr_trades := []\<rparr>"

section \<open>Trades and positions agree\<close>

text \<open>The journal's running position and the portfolio's, as the same accounting state.\<close>

definition agrees :: "Open \<Rightarrow> Position \<Rightarrow> bool" where
  "agrees oo p \<longleftrightarrow> op_qty oo = pos_quantity p \<and> op_avg oo = pos_average_cost p \<and>
     (feq (op_qty oo) fzero \<longrightarrow> op_avg oo = fzero) \<and> is_f64 (op_qty oo)"

lemma fadd_same_side_zero:
  assumes "is_f64 a" "is_f64 b" "\<not> feq a fzero" "flt fzero a = flt fzero b" "feq (fadd a b) fzero"
  shows "False"
proof -
  have f: "fin (fadd a b)" using assms(5) by (cases "fadd a b") (auto simp: feq_def)
  then have "fin a" "fin b" using fin_fadd_args by blast+
  with assms fadd_eq_zero [OF assms(1,2)] show False by (auto simp: f64_sem)
qed

lemma fadd_reversal_nonzero:
  assumes "is_f64 a" "is_f64 b" "flt (fabs a) (fabs b)"
  shows "\<not> feq (fadd a b) fzero"
proof
  assume z: "feq (fadd a b) fzero"
  then have f: "fin (fadd a b)" by (cases "fadd a b") (auto simp: feq_def)
  then have "fin a" "fin b" using fin_fadd_args by blast+
  with assms z fadd_eq_zero [OF assms(1,2)] show False by (auto simp: f64_sem)
qed

lemma match_one_agrees:
  assumes ag: "agrees oo p"
  shows "agrees (fst (match_one f oo)) (snd (position_apply f p)) \<and>
    (case snd (match_one f oo) of
       None \<Rightarrow> pos_realized (snd (position_apply f p)) = pos_realized p
     | Some t \<Rightarrow> tr_instrument t = f_instrument f \<and>
         pos_realized (snd (position_apply f p)) = fadd (pos_realized p) (tr_gross_pnl t))"
proof -
  let ?d = "fill_signed_quantity f" and ?q = "pos_quantity p"
  have q: "op_qty oo = ?q" "op_avg oo = pos_average_cost p" "is_f64 ?q"
    and flat: "feq ?q fzero \<Longrightarrow> pos_average_cost p = fzero"
    using ag by (auto simp: agrees_def)
  have d: "is_f64 ?d" by (simp add: fill_signed_quantity_def signed_qty_def)
  show ?thesis
  proof (cases "feq ?q fzero \<or> flt fzero ?q = flt fzero ?d")
    case True
    have "feq (fadd ?q ?d) fzero \<Longrightarrow> pos_average_cost p = fzero"
      using True flat fadd_same_side_zero [OF q(3) d] by blast
    with True d show ?thesis
      by (simp add: match_one_def position_apply_def Let_def case_prod_beta agrees_def q)
  next
    case False
    with fadd_reversal_nonzero [OF q(3) d] d show ?thesis
      by (simp add: match_one_def position_apply_def Let_def case_prod_beta agrees_def q)
  qed
qed

definition trades_gross :: "InstrumentId \<Rightarrow> Trade list \<Rightarrow> Notional" where
  "trades_gross i ts = foldl fadd fzero (map tr_gross_pnl (filter (\<lambda>t. tr_instrument t = i) ts))"

lemma trades_gross_snoc: "trades_gross i (ts @ [t]) =
    (if tr_instrument t = i then fadd (trades_gross i ts) (tr_gross_pnl t) else trades_gross i ts)"
  by (simp add: trades_gross_def)

lemma match_fills_agrees:
  assumes "\<And>i. agrees (open_of opens i) (P i)" and "\<And>i. trades_gross i trades = pos_realized (P i)"
  shows "trades_gross i (match_fills fs opens trades) =
    pos_realized (position_run (filter (\<lambda>f. f_instrument f = i) fs) (P i))"
  using assms
proof (induction fs arbitrary: opens trades P)
  case (Cons f fs)
  let ?k = "f_instrument f"
  let ?m = "match_one f (open_of opens ?k)" and ?p = "snd (position_apply f (P ?k))"
  define P' where "P' = P(?k := ?p)"
  let ?opens = "om_put ?k (fst ?m) opens"
  let ?trades = "case snd ?m of None \<Rightarrow> trades | Some t \<Rightarrow> trades @ [t]"
  note step = match_one_agrees [OF Cons.prems(1) [of ?k], of f]
  have "agrees (open_of ?opens j) (P' j)" for j
    using step Cons.prems(1) [of j] by (simp add: P'_def open_of_def omap_simps)
  moreover have "trades_gross j ?trades = pos_realized (P' j)" for j
    using step Cons.prems(2) by (auto simp: P'_def trades_gross_snoc split: option.splits)
  ultimately have "trades_gross i (match_fills fs ?opens ?trades) =
      pos_realized (position_run (filter (\<lambda>f. f_instrument f = i) fs) (P' i))"
    by (rule Cons.IH)
  then show ?case by (simp add: Let_def case_prod_beta P'_def)
qed simp

text \<open>
  C8: the journal's trades and the portfolio's positions are the same accounting, to the last bit.
  For every instrument, the gross profits of the matched round trips, summed in order, are exactly
  the realised profit a position accumulates from the same fills.
\<close>

theorem trades_sum_to_realized:
  "foldl fadd fzero (map tr_gross_pnl
      (filter (\<lambda>t. tr_instrument t = i) (jr_trades (match_trades j)))) =
   pos_realized (position_run (filter (\<lambda>f. f_instrument f = i) (jr_fills j)) (new_position i))"
proof -
  have "agrees (open_of [] k) (new_position k)" for k
    by (simp add: agrees_def open_of_def default_open_def new_position_def)
  moreover have "trades_gross k [] = pos_realized (new_position k)" for k
    by (simp add: trades_gross_def new_position_def)
  ultimately have "trades_gross i (match_fills (jr_fills j) [] []) =
      pos_realized (position_run (filter (\<lambda>f. f_instrument f = i) (jr_fills j)) (new_position i))"
    by (rule match_fills_agrees)
  then show ?thesis by (simp add: match_trades_def trades_gross_def)
qed

section \<open>The journal's order\<close>

datatype JrOp = JrAppend JournalEntry | JrFill Fill | JrReject Timestamp InstrumentId string

fun jr_exec :: "JrOp \<Rightarrow> Journal \<Rightarrow> Journal" where
  "jr_exec (JrAppend e) j = snd (journal_append e j)"
| "jr_exec (JrFill f) j = record_fill f j"
| "jr_exec (JrReject ts i why) j = record_risk_rejection ts i why j"

definition journal_ok :: "Journal \<Rightarrow> bool" where
  "journal_ok j \<longleftrightarrow> sorted (map je_ts (jr_entries j))"

lemma journal_ok_append: "journal_ok j \<Longrightarrow> journal_ok (snd (journal_append e j))"
  using sorted_map_snoc [of je_ts "jr_entries j" e] by (auto simp: journal_ok_def journal_append_def)

interpretation jr: stepped jr_exec journal_ok
proof
  fix j i assume "journal_ok j"
  then show "journal_ok (jr_exec i j)"
    by (cases i) (auto simp: record_fill_def record_risk_rejection_def Let_def
        journal_ok_append journal_ok_def [of "_\<lparr>jr_fills := _\<rparr>"] journal_ok_def [symmetric])
qed

text \<open>
  The journal is chronological. Whatever entries, fills and rejections were recorded, in
  whatever order they arrived, the entries kept are in non-decreasing time order, and every fill
  received is kept for matching.
\<close>

theorem journal_is_chronological:
  "let j = fold jr_exec ops empty_journal in
   sorted (map je_ts (jr_entries j)) \<and>
   jr_fills j = concat (map (\<lambda>op. case op of JrFill f \<Rightarrow> [f] | _ \<Rightarrow> []) ops)"
proof -
  have "journal_ok empty_journal" by (simp add: journal_ok_def empty_journal_def)
  then have "journal_ok (fold jr_exec ops empty_journal)"
    using jr.run_inv [of empty_journal ops] by (simp add: jr.run_def)
  moreover have app: "jr_fills (snd (journal_append e j)) = jr_fills j" for e j
    by (simp add: journal_append_def)
  have "jr_fills (fold jr_exec ops j) =
      jr_fills j @ concat (map (\<lambda>op. case op of JrFill f \<Rightarrow> [f] | _ \<Rightarrow> []) ops)" for j
    by (induction ops arbitrary: j)
      (auto simp: record_fill_def record_risk_rejection_def Let_def app split: JrOp.splits)
  ultimately show ?thesis by (simp add: Let_def journal_ok_def empty_journal_def)
qed

text \<open>
  A fill stamped before the last entry is matched into trades but leaves no entry: the refusal of
  \<open>append\<close> is discarded.
\<close>

lemma late_fill_leaves_no_entry:
  "let j = jr_exec (JrReject 400 0 ''limit'') empty_journal;
       j' = record_fill (sample_fill 1 Buy (Fin 100) (Fin 5)) j in
   jr_entries j' = jr_entries j \<and> jr_fills j' \<noteq> []"
  by (simp add: record_risk_rejection_def journal_append_def empty_journal_def record_fill_def
      fill_entry_def default_entry_def sample_fill_def Let_def)

text \<open>
  The bridge cancels the costs it added: when the sums are exact the residual is zero whatever the
  fills were, so it cannot reveal a dropped or doubled cost.
\<close>

lemma reconcile_residual_zero:
  assumes "fin (rc_reported_net (reconcile pf j))" "fin (rc_commissions_and_fees (reconcile pf j))"
    and "representable (val (rc_reported_net (reconcile pf j)))"
    and "representable (val (rc_reported_net (reconcile pf j)) +
           val (rc_commissions_and_fees (reconcile pf j)))"
  shows "fin (residual (reconcile pf j)) \<and> val (residual (reconcile pf j)) = 0"
proof -
  let ?r = "rc_reported_net (reconcile pf j)" and ?c = "rc_commissions_and_fees (reconcile pf j)"
  have g: "fin (fadd ?r ?c)" "val (fadd ?r ?c) = val ?r + val ?c"
    using exact_add [OF assms(1,2,4)] by simp_all
  have g0: "fin (fsub (fadd ?r ?c) fzero)" "val (fsub (fadd ?r ?c) fzero) = val ?r + val ?c"
    using exact_sub [OF g(1), of fzero] g assms(4) by simp_all
  have n: "fin (fsub (fsub (fadd ?r ?c) fzero) ?c)" "val (fsub (fsub (fadd ?r ?c) fzero) ?c) = val ?r"
    using exact_sub [OF g0(1) assms(2)] g0 assms(3) by simp_all
  have n1: "fin (fsub (fsub (fsub (fadd ?r ?c) fzero) ?c) fzero)"
    "val (fsub (fsub (fsub (fadd ?r ?c) fzero) ?c) fzero) = val ?r"
    using exact_sub [OF n(1), of fzero] n assms(3) by simp_all
  have n2: "fin (fsub (fsub (fsub (fsub (fadd ?r ?c) fzero) ?c) fzero) fzero)"
    "val (fsub (fsub (fsub (fsub (fadd ?r ?c) fzero) ?c) fzero) fzero) = val ?r"
    using exact_sub [OF n1(1), of fzero] n1 assms(3) by simp_all
  have "rc_net_pnl (reconcile pf j) = fsub (fsub (fsub (fsub (fadd ?r ?c) fzero) ?c) fzero) fzero"
    by (simp add: reconcile_def Let_def case_prod_beta)
  then show ?thesis using exact_sub [OF n2(1) assms(1)] n2 by (simp add: residual_def)
qed

end
