(* ===== verification/OrderManager.thy ===== *)
theory OrderManager
  imports Oms
begin

text \<open>
  The order manager (\<open>src/oms/order_manager.cpp\<close>): identity, parent and child, and the
  lifecycle state machine. The book is the \<open>std::map\<close> of records with the id counter. Every
  operation returns its result and the book it leaves behind.
\<close>

section \<open>The lifecycle\<close>

datatype OrderState = New | PendingNew | Working | PartiallyFilled | Filled | PendingCancel
  | Cancelled | Rejected | Expired

fun to_string_OrderState :: "OrderState \<Rightarrow> string" where
  "to_string_OrderState New = ''new''"
| "to_string_OrderState PendingNew = ''pending_new''"
| "to_string_OrderState Working = ''working''"
| "to_string_OrderState PartiallyFilled = ''partially_filled''"
| "to_string_OrderState Filled = ''filled''"
| "to_string_OrderState PendingCancel = ''pending_cancel''"
| "to_string_OrderState Cancelled = ''cancelled''"
| "to_string_OrderState Rejected = ''rejected''"
| "to_string_OrderState Expired = ''expired''"

definition is_terminal :: "OrderState \<Rightarrow> bool" where
  "is_terminal s \<longleftrightarrow> s = Filled \<or> s = Cancelled \<or> s = Rejected \<or> s = Expired"

definition is_legal_transition :: "OrderState \<Rightarrow> OrderState \<Rightarrow> bool" where
  "is_legal_transition from to =
     (if is_terminal from then False
      else if from = to then False
      else (case from of
          New \<Rightarrow> to = PendingNew \<or> to = Rejected \<or> to = Cancelled
        | PendingNew \<Rightarrow> to = Working \<or> to = Rejected \<or> to = PartiallyFilled \<or> to = Filled \<or>
            to = Cancelled
        | Working \<Rightarrow> to = PartiallyFilled \<or> to = Filled \<or> to = PendingCancel \<or> to = Cancelled \<or>
            to = Expired
        | PartiallyFilled \<Rightarrow> to = Filled \<or> to = PendingCancel \<or> to = Cancelled \<or> to = Expired
        | PendingCancel \<Rightarrow> to = Cancelled \<or> to = Filled \<or> to = PartiallyFilled
        | _ \<Rightarrow> False))"

lemma to_string_OrderState_inj: "to_string_OrderState s = to_string_OrderState t \<longleftrightarrow> s = t"
  by (cases s; cases t) simp_all

section \<open>Records and the book\<close>

record OrderRecord =
  rec_order :: Order
  rec_state :: OrderState
  rec_filled_quantity :: Qty
  rec_filled_notional :: Notional
  rec_total_cost :: Notional
  rec_reject_reason :: string

definition remaining :: "OrderRecord \<Rightarrow> Qty" where
  "remaining r = fsub (ord_quantity (rec_order r)) (rec_filled_quantity r)"

definition complete :: "OrderRecord \<Rightarrow> bool" where
  "complete r \<longleftrightarrow> fle (ord_quantity (rec_order r)) (rec_filled_quantity r)"

definition average_price :: "OrderRecord \<Rightarrow> Price option" where
  "average_price r =
     (if fle (rec_filled_quantity r) fzero then None
      else Some (fdiv (rec_filled_notional r) (rec_filled_quantity r)))"

record OrderManager =
  om_records :: "(OrderId, OrderRecord) omap"
  om_next :: OrderId

definition new_book :: OrderManager where
  "new_book = \<lparr>om_records = [], om_next = 1\<rparr>"

datatype oms_error = NoId | DuplicateId OrderId | UnknownParent OrderId | UnknownOrder OrderId
  | IllegalTransition OrderState OrderState OrderId | FillUnknownOrder OrderId
  | FillTerminal OrderState | FillMismatch | FillOverfill Qty Qty | FillNotAfterDecision
  | FillIllegalTransition OrderState | ReplaceUnknown | ReplaceTerminal OrderState | ReplaceMismatch

definition next_id :: "OrderManager \<Rightarrow> OrderId \<times> OrderManager" where
  "next_id m = (om_next m, m\<lparr>om_next := om_next m + 1\<rparr>)"

definition submit :: "Order \<Rightarrow> OrderManager \<Rightarrow> (oms_error, OrderId) result \<times> OrderManager" where
  "submit o1 m =
     (let key = ord_id o1 in
      if key = 0 then (Err NoId, m)
      else if om_contains (om_records m) key then (Err (DuplicateId key), m)
      else if order_is_child o1 \<and> \<not> om_contains (om_records m) (ord_parent o1)
        then (Err (UnknownParent (ord_parent o1)), m)
      else (Ok (ord_id o1),
            m\<lparr>om_next := max (om_next m) (key + 1),
              om_records := om_put key
                \<lparr>rec_order = o1, rec_state = New, rec_filled_quantity = fzero,
                 rec_filled_notional = fzero, rec_total_cost = fzero, rec_reject_reason = []\<rparr>
                (om_records m)\<rparr>))"

definition transition ::
    "OrderId \<Rightarrow> OrderState \<Rightarrow> string \<Rightarrow> OrderManager \<Rightarrow> (oms_error, bool) result \<times> OrderManager" where
  "transition oid to reason m =
     (case om_find (om_records m) oid of
        None \<Rightarrow> (Err (UnknownOrder oid), m)
      | Some r \<Rightarrow>
          if \<not> is_legal_transition (rec_state r) to
          then (Err (IllegalTransition (rec_state r) to oid), m)
          else (let r1 = r\<lparr>rec_state := to\<rparr>;
                    r2 = (if reason \<noteq> [] then r1\<lparr>rec_reject_reason := reason\<rparr> else r1) in
                (Ok True, m\<lparr>om_records := om_put oid r2 (om_records m)\<rparr>)))"

definition apply_fill :: "Fill \<Rightarrow> OrderManager \<Rightarrow> (oms_error, bool) result \<times> OrderManager" where
  "apply_fill f m =
     (case om_find (om_records m) (f_order_id f) of
        None \<Rightarrow> (Err (FillUnknownOrder (f_order_id f)), m)
      | Some r \<Rightarrow>
          if is_terminal (rec_state r) then (Err (FillTerminal (rec_state r)), m)
          else if f_instrument f \<noteq> ord_instrument (rec_order r) \<or> f_side f \<noteq> ord_side (rec_order r)
          then (Err FillMismatch, m)
          else (let after = fadd (rec_filled_quantity r) (f_quantity f) in
            if flt (fadd (ord_quantity (rec_order r)) (lit (1 / 10 ^ 9))) after
            then (Err (FillOverfill after (ord_quantity (rec_order r))), m)
            else if fill_time (f_times f) \<le> decision_time (ord_times (rec_order r))
            then (Err FillNotAfterDecision, m)
            else
              (let r1 = r\<lparr>rec_filled_quantity := after,
                          rec_filled_notional :=
                            fadd (rec_filled_notional r) (fmul (f_price f) (f_quantity f)),
                          rec_total_cost := fadd (rec_total_cost r) (fill_total_cost f)\<rparr>;
                   m1 = m\<lparr>om_records := om_put (f_order_id f) r1 (om_records m)\<rparr>;
                   nxt = (if complete r1 then Filled else PartiallyFilled) in
               if rec_state r1 \<noteq> nxt then
                 if \<not> is_legal_transition (rec_state r1) nxt
                 then (Err (FillIllegalTransition (rec_state r1)), m1)
                 else (Ok True, m\<lparr>om_records := om_put (f_order_id f) (r1\<lparr>rec_state := nxt\<rparr>)
                                                 (om_records m)\<rparr>)
               else (Ok True, m1))))"

definition cancel_replace ::
    "OrderId \<Rightarrow> Order \<Rightarrow> OrderManager \<Rightarrow> (oms_error, OrderId) result \<times> OrderManager" where
  "cancel_replace original replacement m =
     (case om_find (om_records m) original of
        None \<Rightarrow> (Err ReplaceUnknown, m)
      | Some r \<Rightarrow>
          if is_terminal (rec_state r) then (Err (ReplaceTerminal (rec_state r)), m)
          else if ord_instrument replacement \<noteq> ord_instrument (rec_order r) \<or>
                  ord_side replacement \<noteq> ord_side (rec_order r)
          then (Err ReplaceMismatch, m)
          else (case transition original Cancelled ''replaced'' m of
                  (Inl e, m1) \<Rightarrow> (Err e, m1)
                | (Inr _, m1) \<Rightarrow> submit replacement m1))"

definition find_order :: "OrderManager \<Rightarrow> OrderId \<Rightarrow> OrderRecord option" where
  "find_order m oid = om_find (om_records m) oid"

definition working :: "OrderManager \<Rightarrow> OrderId list" where
  "working m = map fst (filter (\<lambda>(key, r). \<not> is_terminal (rec_state r)) (om_records m))"

definition children_of :: "OrderManager \<Rightarrow> OrderId \<Rightarrow> OrderId list" where
  "children_of m p = map fst (filter (\<lambda>(key, r). ord_parent (rec_order r) = p) (om_records m))"

definition exposure_of :: "OrderManager \<Rightarrow> InstrumentId \<Rightarrow> Qty" where
  "exposure_of m i =
     foldl (\<lambda>total (key, r).
         if ord_instrument (rec_order r) \<noteq> i \<or> is_terminal (rec_state r) then total
         else fadd total (fmul (remaining r) (of_int64 (sign_of (ord_side (rec_order r))))))
       fzero (om_records m)"

definition reset_book :: "OrderManager \<Rightarrow> OrderManager" where
  "reset_book m = m\<lparr>om_records := [], om_next := 1\<rparr>"

section \<open>Lemmas\<close>

lemmas oms_ops = submit_def transition_def apply_fill_def cancel_replace_def next_id_def

lemma submit_lookup [omap_simps]:
  "om_find (om_records (snd (submit o1 m))) k =
     (if is_ok (fst (submit o1 m)) \<and> k = ord_id o1
      then Some \<lparr>rec_order = o1, rec_state = New, rec_filled_quantity = fzero,
                 rec_filled_notional = fzero, rec_total_cost = fzero, rec_reject_reason = []\<rparr>
      else om_find (om_records m) k)"
  by (auto simp: submit_def Let_def omap_simps)

lemma submit_Ok_iff:
  "is_ok (fst (submit o1 m)) \<longleftrightarrow> ord_id o1 \<noteq> 0 \<and> om_find (om_records m) (ord_id o1) = None \<and>
     (order_is_child o1 \<longrightarrow> om_find (om_records m) (ord_parent o1) \<noteq> None)"
  by (auto simp: submit_def Let_def om_contains_def)

text \<open>The record an accepted transition leaves behind.\<close>

lemma transition_lookup [omap_simps]:
  "om_find (om_records (snd (transition oid to reason m))) k =
     (case om_find (om_records m) oid of
        Some r \<Rightarrow> if k = oid \<and> is_legal_transition (rec_state r) to
                  then Some (r\<lparr>rec_state := to,
                    rec_reject_reason := if reason \<noteq> [] then reason else rec_reject_reason r\<rparr>)
                  else om_find (om_records m) k
      | None \<Rightarrow> om_find (om_records m) k)"
  by (auto simp: transition_def Let_def omap_simps split: option.splits)

lemma transition_next [frame]: "om_next (snd (transition oid to reason m)) = om_next m"
  by (auto simp: transition_def Let_def split: option.splits)

lemma legal_from_new_fill:
  "\<not> is_terminal s \<Longrightarrow> t = Filled \<or> t = PartiallyFilled \<Longrightarrow>
     \<not> is_legal_transition s t \<longleftrightarrow> s = New \<or> s = t"
  by (cases s) (auto simp: is_legal_transition_def is_terminal_def)

lemma terminal_filled [simp]: "is_terminal Filled" "\<not> is_terminal PartiallyFilled"
  by (simp_all add: is_terminal_def)

section \<open>The book as a machine\<close>

text \<open>
  One step of the book is any of its operations, accepted or refused. An \<open>Order\<close> exists only
  as a factory made it, hence \<open>order_valid\<close>. The id counter is a 64-bit word: a step that draws an
  id is one before the counter wraps.
\<close>

inductive oms_step :: "OrderManager \<Rightarrow> OrderManager \<Rightarrow> bool" where
  draw: "om_next m \<noteq> - 1 \<Longrightarrow> oms_step m (snd (next_id m))"
| submit: "order_valid o1 \<Longrightarrow> oms_step m (snd (submit o1 m))"
| transition: "oms_step m (snd (transition oid to reason m))"
| fill: "oms_step m (snd (apply_fill f m))"
| replace: "order_valid o1 \<Longrightarrow> oms_step m (snd (cancel_replace original o1 m))"

inductive oms_run :: "OrderManager \<Rightarrow> OrderManager \<Rightarrow> bool" where
  refl: "oms_run m m"
| trans: "oms_run m m1 \<Longrightarrow> oms_step m1 m2 \<Longrightarrow> oms_run m m2"

inductive_cases oms_stepE: "oms_step m m'"

lemma oms_run_one: "oms_step m m' \<Longrightarrow> oms_run m m'"
  by (rule oms_run.trans [OF oms_run.refl])

lemma oms_run_trans: "oms_run a b \<Longrightarrow> oms_run b c \<Longrightarrow> oms_run a c"
  by (rotate_tac 1, induction rule: oms_run.induct) (auto intro: oms_run.trans)

lemma cancel_replace_cases:
  "snd (cancel_replace original o1 m) = m \<or>
   (\<exists>m1. m1 = snd (transition original Cancelled ''replaced'' m) \<and>
      (snd (cancel_replace original o1 m) = m1 \<or>
       snd (cancel_replace original o1 m) = snd (submit o1 m1)))"
  by (auto simp: cancel_replace_def split: option.splits prod.splits sum.splits)

text \<open>
  A property that every submission, transition, fill and id draw keeps holds after any run: a
  replacement is a transition followed by a submission.
\<close>

lemma oms_run_keeps:
  assumes run: "oms_run m m'" and start: "P m"
    and draw: "\<And>m. P m \<Longrightarrow> om_next m \<noteq> - 1 \<Longrightarrow> P (snd (next_id m))"
    and submit: "\<And>o1 m. P m \<Longrightarrow> order_valid o1 \<Longrightarrow> P (snd (submit o1 m))"
    and transition: "\<And>oid to reason m. P m \<Longrightarrow> P (snd (transition oid to reason m))"
    and fill: "\<And>f m. P m \<Longrightarrow> P (snd (apply_fill f m))"
  shows "P m'"
  using run start
proof induction
  case (trans m m1 m2)
  then have "P m1" by simp
  from trans.hyps(2) show ?case
  proof cases
    case (replace o1 original)
    then show ?thesis using \<open>P m1\<close> cancel_replace_cases [of original o1 m1] submit transition by auto
  qed (use \<open>P m1\<close> draw submit transition fill in auto)
qed

text \<open>What an accepted fill writes, and what a refused one leaves.\<close>

definition filled_record :: "Fill \<Rightarrow> OrderRecord \<Rightarrow> OrderRecord" where
  "filled_record f r = r\<lparr>
     rec_filled_quantity := fadd (rec_filled_quantity r) (f_quantity f),
     rec_filled_notional := fadd (rec_filled_notional r) (fmul (f_price f) (f_quantity f)),
     rec_total_cost := fadd (rec_total_cost r) (fill_total_cost f)\<rparr>"

definition fill_admissible :: "Fill \<Rightarrow> OrderRecord \<Rightarrow> bool" where
  "fill_admissible f r \<longleftrightarrow>
     \<not> is_terminal (rec_state r) \<and> f_instrument f = ord_instrument (rec_order r) \<and>
     f_side f = ord_side (rec_order r) \<and>
     \<not> flt (fadd (ord_quantity (rec_order r)) (lit (1 / 10 ^ 9)))
           (fadd (rec_filled_quantity r) (f_quantity f)) \<and>
     decision_time (ord_times (rec_order r)) < fill_time (f_times f)"

definition state_after_fill :: "OrderRecord \<Rightarrow> OrderState" where
  "state_after_fill r = (if complete r then Filled else PartiallyFilled)"

lemma filled_record_simps [simp]:
  "rec_order (filled_record f r) = rec_order r" "rec_state (filled_record f r) = rec_state r"
  by (simp_all add: filled_record_def)

lemma apply_fill_unknown:
  "om_find (om_records m) (f_order_id f) = None \<Longrightarrow>
     apply_fill f m = (Err (FillUnknownOrder (f_order_id f)), m)"
  by (simp add: apply_fill_def)

lemma apply_fill_inadmissible:
  "om_find (om_records m) (f_order_id f) = Some r \<Longrightarrow> \<not> fill_admissible f r \<Longrightarrow>
     snd (apply_fill f m) = m \<and> \<not> is_ok (fst (apply_fill f m))"
  by (auto simp: apply_fill_def fill_admissible_def Let_def)

lemma apply_fill_admissible:
  assumes "om_find (om_records m) (f_order_id f) = Some r" "fill_admissible f r"
  shows "apply_fill f m =
    (if rec_state r = New
     then (Err (FillIllegalTransition New),
           m\<lparr>om_records := om_put (f_order_id f) (filled_record f r) (om_records m)\<rparr>)
     else (Ok True, m\<lparr>om_records := om_put (f_order_id f)
            ((filled_record f r)\<lparr>rec_state := state_after_fill (filled_record f r)\<rparr>)
            (om_records m)\<rparr>))"
proof -
  define r1 where "r1 = filled_record f r"
  have nt: "\<not> is_terminal (rec_state r)" using assms(2) by (simp add: fill_admissible_def)
  have legal: "\<not> is_legal_transition (rec_state r) (state_after_fill r1) \<longleftrightarrow>
      rec_state r = New \<or> rec_state r = state_after_fill r1"
    by (rule legal_from_new_fill [OF nt]) (simp add: state_after_fill_def)
  have new: "rec_state r = New \<Longrightarrow> rec_state r \<noteq> state_after_fill r1"
    by (simp add: state_after_fill_def)
  have same: "rec_state r = state_after_fill r1 \<Longrightarrow> r1\<lparr>rec_state := state_after_fill r1\<rparr> = r1"
    by (simp add: r1_def filled_record_def)
  have "apply_fill f m =
    (if rec_state r1 \<noteq> state_after_fill r1 then
       if \<not> is_legal_transition (rec_state r1) (state_after_fill r1)
       then (Err (FillIllegalTransition (rec_state r1)),
             m\<lparr>om_records := om_put (f_order_id f) r1 (om_records m)\<rparr>)
       else (Ok True, m\<lparr>om_records := om_put (f_order_id f)
               (r1\<lparr>rec_state := state_after_fill r1\<rparr>) (om_records m)\<rparr>)
     else (Ok True, m\<lparr>om_records := om_put (f_order_id f) r1 (om_records m)\<rparr>))"
    using assms unfolding apply_fill_def fill_admissible_def r1_def filled_record_def
      state_after_fill_def Let_def
    by (simp add: not_le)
  moreover have "rec_state r1 = rec_state r" by (simp add: r1_def)
  ultimately show ?thesis unfolding r1_def [symmetric]
    by (cases "rec_state r = state_after_fill r1"; cases "rec_state r = New")
      (use legal new in \<open>simp_all add: same\<close>)
qed

lemma apply_fill_lookup [omap_simps]:
  "om_find (om_records (snd (apply_fill f m))) k =
     (case om_find (om_records m) (f_order_id f) of
        Some r \<Rightarrow> if k = f_order_id f \<and> fill_admissible f r
          then Some (if rec_state r = New then filled_record f r
            else (filled_record f r)\<lparr>rec_state := state_after_fill (filled_record f r)\<rparr>)
          else om_find (om_records m) k
      | None \<Rightarrow> om_find (om_records m) k)"
proof (cases "om_find (om_records m) (f_order_id f)")
  case None then show ?thesis by (simp add: apply_fill_unknown)
next
  case (Some r)
  then show ?thesis
    by (cases "fill_admissible f r")
      (auto simp: apply_fill_admissible apply_fill_inadmissible omap_simps)
qed

lemma apply_fill_next [frame]: "om_next (snd (apply_fill f m)) = om_next m"
proof (cases "om_find (om_records m) (f_order_id f)")
  case None then show ?thesis by (simp add: apply_fill_unknown)
next
  case (Some r)
  then show ?thesis
    by (cases "fill_admissible f r") (simp_all add: apply_fill_admissible apply_fill_inadmissible)
qed

text \<open>
  C20: a terminal state is terminal. Whatever operations run on the book afterwards, the record of a
  filled, cancelled, rejected or expired order never changes again.
\<close>

theorem terminal_orders_frozen:
  assumes "oms_run m m'" and "find_order m oid = Some r" and "is_terminal (rec_state r)"
  shows "find_order m' oid = Some r"
  using assms(1,2)
proof (rule oms_run_keeps [where P = "\<lambda>m. find_order m oid = Some r"])
  have frozen: "\<not> is_legal_transition (rec_state r) to" "\<not> fill_admissible f r" for to f
    using assms(3) by (simp_all add: is_legal_transition_def fill_admissible_def)
  show "find_order (snd (submit o1 m)) oid = Some r" if "find_order m oid = Some r" for o1 m
    using that by (auto simp: find_order_def omap_simps submit_Ok_iff)
  show "find_order (snd (transition k to reason m)) oid = Some r"
    if "find_order m oid = Some r" for k to reason m
    using that frozen by (auto simp: find_order_def omap_simps split: option.splits)
  show "find_order (snd (apply_fill f m)) oid = Some r" if "find_order m oid = Some r" for f m
    using that frozen by (auto simp: find_order_def omap_simps split: option.splits)
qed (simp add: find_order_def next_id_def)

theorem terminal_orders_frozen_witness:
  "let m = \<lparr>om_records = [(1, \<lparr>rec_order = sample_order 1 Buy (Fin 10), rec_state = Cancelled,
       rec_filled_quantity = fzero, rec_filled_notional = fzero, rec_total_cost = fzero,
       rec_reject_reason = []\<rparr>)], om_next = 2\<rparr> in
   find_order (snd (transition 1 Working [] m)) 1 = find_order m 1"
proof -
  define r where "r = \<lparr>rec_order = sample_order 1 Buy (Fin 10), rec_state = Cancelled,
       rec_filled_quantity = fzero, rec_filled_notional = fzero, rec_total_cost = fzero,
       rec_reject_reason = []\<rparr>"
  define m where "m = \<lparr>om_records = [(1 :: OrderId, r)], om_next = 2\<rparr>"
  have "oms_run m (snd (transition 1 Working [] m))"
    by (intro oms_run_one oms_step.transition)
  moreover have "find_order m 1 = Some r" by (simp add: m_def find_order_def om_find_Cons)
  moreover have "is_terminal (rec_state r)" by (simp add: r_def is_terminal_def)
  ultimately have "find_order (snd (transition 1 Working [] m)) 1 = Some r"
    by (rule terminal_orders_frozen)
  with \<open>find_order m 1 = Some r\<close> show ?thesis by (simp add: m_def r_def)
qed

text \<open>
  What every reachable book satisfies: the records are in id order, each under its own id, none is
  filled beyond its order's quantity plus the tolerance, and the counter is ahead of every id but
  the largest.
\<close>

definition overfilled :: "OrderRecord \<Rightarrow> bool" where
  "overfilled r \<longleftrightarrow>
     flt (fadd (ord_quantity (rec_order r)) (lit (1 / 10 ^ 9))) (rec_filled_quantity r)"

definition record_ok :: "OrderId \<Rightarrow> OrderRecord \<Rightarrow> bool" where
  "record_ok k r \<longleftrightarrow> ord_id (rec_order r) = k \<and> order_valid (rec_order r) \<and> \<not> overfilled r"

definition book_ok :: "OrderManager \<Rightarrow> bool" where
  "book_ok m \<longleftrightarrow> om_inv (om_records m) \<and> om.all_records record_ok (om_records m)"

definition counter_ahead :: "OrderManager \<Rightarrow> bool" where
  "counter_ahead m \<longleftrightarrow> om_next m \<noteq> 0 \<and>
     om.all_records (\<lambda>k r. k < om_next m \<or> k = - 1) (om_records m)"

lemma fadd_tolerance_nonneg:
  assumes "fin q" "0 < val q" shows "\<not> flt (fadd q (lit (1 / 10 ^ 9))) fzero"
proof -
  have tol: "fin (lit (1 / 10 ^ 9))" "0 \<le> val (lit (1 / 10 ^ 9))" by (simp_all add: f64_eval)
  have "fle (fadd fzero fzero) (fadd q (lit (1 / 10 ^ 9)))"
    by (rule fadd_mono) (use assms tol in auto)
  moreover have "fadd fzero fzero = fzero" by (simp add: f64_eval fadd_def)
  ultimately have "fle fzero (fadd q (lit (1 / 10 ^ 9)))" by simp
  then show ?thesis by (metis fle_flt_trans flt_irrefl)
qed

lemma submit_record_ok: "order_valid o1 \<Longrightarrow>
    record_ok (ord_id o1) \<lparr>rec_order = o1, rec_state = New, rec_filled_quantity = fzero,
      rec_filled_notional = fzero, rec_total_cost = fzero, rec_reject_reason = []\<rparr>"
  using fadd_tolerance_nonneg [of "ord_quantity o1"]
  by (simp add: record_ok_def overfilled_def order_valid_def)

lemma fill_record_ok: "record_ok k r \<Longrightarrow> fill_admissible f r \<Longrightarrow> record_ok k (filled_record f r)"
  by (simp add: record_ok_def overfilled_def fill_admissible_def filled_record_def)

lemma record_ok_state [simp]:
  "record_ok k (r\<lparr>rec_state := s\<rparr>) = record_ok k r"
  "record_ok k (r\<lparr>rec_state := s, rec_reject_reason := why\<rparr>) = record_ok k r"
  by (simp_all add: record_ok_def overfilled_def)

lemma om_inv_ops [intro]:
  "om_inv (om_records m) \<Longrightarrow> om_inv (om_records (snd (submit o1 m)))"
  "om_inv (om_records m) \<Longrightarrow> om_inv (om_records (snd (transition oid to reason m)))"
  "om_inv (om_records m) \<Longrightarrow> om_inv (om_records (snd (apply_fill f m)))"
  by (auto simp: oms_ops Let_def split: option.splits)

lemma book_ok_run:
  assumes "oms_run m m'" "book_ok m" shows "book_ok m'"
  using assms
proof (rule oms_run_keeps [where P = book_ok])
  fix m assume m: "book_ok m"
  then have inv: "om_inv (om_records m)"
    and all: "\<And>k r. om_find (om_records m) k = Some r \<Longrightarrow> record_ok k r"
    by (simp_all add: book_ok_def om.all_records_def)
  show "book_ok (snd (submit o1 m))" if "order_valid o1" for o1
    using inv all submit_record_ok [OF that]
    by (auto simp: book_ok_def om.all_records_def omap_simps)
  show "book_ok (snd (transition k to reason m))" for k to reason
    using inv all by (auto simp: book_ok_def om.all_records_def omap_simps split: option.splits)
  show "book_ok (snd (apply_fill f m))" for f
    using inv all fill_record_ok
    by (auto simp: book_ok_def om.all_records_def omap_simps split: option.splits)
qed (simp add: book_ok_def next_id_def)

lemma book_ok_new [simp]: "book_ok new_book"
  by (simp add: book_ok_def new_book_def om.all_records_empty)

lemma word_inc_gt: "(k :: 64 word) \<noteq> - 1 \<Longrightarrow> k < k + 1"
proof -
  assume "k \<noteq> - 1"
  then have "uint k \<noteq> uint (- 1 :: 64 word)" by (metis word_of_int_uint)
  then have "uint k \<noteq> 2 ^ 64 - 1" by (simp add: unsigned_minus_1_eq_mask mask_eq_exp_minus_1)
  then have "uint k + 1 < 2 ^ 64" using uint_lt2p [of k] by simp
  then show ?thesis by (simp add: word_less_def uint_word_ariths(1))
qed

lemma counter_ahead_run:
  assumes "oms_run m m'" "counter_ahead m" shows "counter_ahead m'"
  using assms
proof (rule oms_run_keeps [where P = counter_ahead])
  fix m assume m: "counter_ahead m"
  then have nz: "om_next m \<noteq> 0"
    and all: "\<And>k r. om_find (om_records m) k = Some r \<Longrightarrow> k < om_next m \<or> k = - 1"
    by (simp_all add: counter_ahead_def om.all_records_def)
  show "counter_ahead (snd (next_id m))" if "om_next m \<noteq> - 1"
  proof -
    have up: "om_next m < om_next m + 1" using that by (rule word_inc_gt)
    then have "om_next m + 1 \<noteq> 0" by auto
    then show ?thesis using all order_less_trans [OF _ up]
      by (auto simp: counter_ahead_def om.all_records_def next_id_def)
  qed
  show "counter_ahead (snd (submit o1 m))" for o1
  proof (cases "is_ok (fst (submit o1 m))")
    case True
    then have n: "om_next (snd (submit o1 m)) = max (om_next m) (ord_id o1 + 1)"
      unfolding submit_Ok_iff by (auto simp: submit_def Let_def om_contains_def)
    have "max (om_next m) (ord_id o1 + 1) \<noteq> 0"
      using nz by (metis max.cobounded1 word_le_0_iff)
    moreover have "ord_id o1 < max (om_next m) (ord_id o1 + 1) \<or> ord_id o1 = - 1"
      using word_inc_gt [of "ord_id o1"] by (auto simp: less_max_iff_disj)
    ultimately show ?thesis using all True
      by (auto simp: counter_ahead_def om.all_records_def omap_simps n less_max_iff_disj
          split: if_splits)
  next
    case False
    then have "snd (submit o1 m) = m" by (auto simp: submit_def Let_def split: if_splits)
    with m show ?thesis by simp
  qed
  show "counter_ahead (snd (transition k to reason m))" for k to reason
    using nz all
    by (auto simp: counter_ahead_def om.all_records_def omap_simps frame split: option.splits)
  show "counter_ahead (snd (apply_fill f m))" for f
    using nz all
    by (auto simp: counter_ahead_def om.all_records_def omap_simps frame split: option.splits
        if_splits)
qed

lemma counter_ahead_new [simp]: "counter_ahead new_book"
  by (simp add: counter_ahead_def new_book_def om.all_records_empty)

text \<open>
  C3: overfill is impossible. In every book reached from an empty one, whatever was submitted,
  transitioned, filled or replaced, no record holds more than its order's quantity plus the
  tolerance of 1e-9, and each record stands under its own order's id.
\<close>

theorem no_overfill:
  assumes "oms_run new_book m" and "find_order m k = Some r"
  shows "ord_id (rec_order r) = k \<and> order_valid (rec_order r) \<and>
    \<not> flt (fadd (ord_quantity (rec_order r)) (lit (1 / 10 ^ 9))) (rec_filled_quantity r)"
proof -
  have "book_ok m" using assms(1) by (rule book_ok_run) simp
  then show ?thesis
    using assms(2) unfolding book_ok_def om.all_records_def record_ok_def overfilled_def find_order_def
    by blast
qed

definition sample_book :: OrderManager where
  "sample_book = snd (transition 1 PendingNew [] (snd (submit (sample_order 1 Buy (Fin 10)) new_book)))"

lemma sample_book_run: "oms_run new_book sample_book"
proof -
  have "oms_step new_book (snd (submit (sample_order 1 Buy (Fin 10)) new_book))"
    by (rule oms_step.submit) (rule sample_order_valid; simp)
  then have "oms_run new_book (snd (submit (sample_order 1 Buy (Fin 10)) new_book))"
    by (rule oms_run_one)
  then show ?thesis
    unfolding sample_book_def by (rule oms_run.trans) (rule oms_step.transition)
qed

lemma sample_book_eval: "sample_book = \<lparr>om_records = [(1, \<lparr>rec_order = sample_order 1 Buy (Fin 10),
     rec_state = PendingNew, rec_filled_quantity = fzero, rec_filled_notional = fzero,
     rec_total_cost = fzero, rec_reject_reason = []\<rparr>)], om_next = 2\<rparr>"
  by (simp add: sample_book_def submit_def transition_def new_book_def sample_order_def
      om_contains_def om_find_Cons order_is_child_def is_legal_transition_def is_terminal_def
      kNoOrder_def Let_def)

theorem no_overfill_witness:
  "\<exists>r. find_order (snd (apply_fill (sample_fill 1 Buy (Fin 100) (Fin 11)) sample_book)) 1 = Some r \<and>
     \<not> flt (fadd (ord_quantity (rec_order r)) (lit (1 / 10 ^ 9))) (rec_filled_quantity r)"
proof -
  let ?m = "snd (apply_fill (sample_fill 1 Buy (Fin 100) (Fin 11)) sample_book)"
  have "oms_run new_book ?m"
    by (rule oms_run.trans [OF sample_book_run]) (rule oms_step.fill)
  moreover have "find_order ?m 1 \<noteq> None"
    by (simp add: find_order_def omap_simps sample_book_eval om_find_Cons split: option.splits)
  ultimately show ?thesis using no_overfill by blast
qed

text \<open>
  Ids are fresh. In every reachable book the next id drawn is not the id of any record, even
  when ids were supplied from outside, and is never the reserved id 0 (the counter stands one step
  before its 64-bit wrap at the latest).
\<close>

theorem fresh_ids:
  assumes "oms_run new_book m" and "om_next m \<noteq> - 1"
  shows "find_order m (fst (next_id m)) = None \<and> fst (next_id m) \<noteq> kNoOrder"
proof -
  have "counter_ahead m" using assms(1) by (rule counter_ahead_run) simp
  then have nz: "om_next m \<noteq> 0"
    and all: "\<And>r. om_find (om_records m) (om_next m) = Some r \<Longrightarrow> om_next m = - 1"
    by (auto simp: counter_ahead_def om.all_records_def)
  then show ?thesis
    using assms(2) by (cases "om_find (om_records m) (om_next m)")
      (auto simp: next_id_def find_order_def kNoOrder_def)
qed

theorem fresh_ids_witness: "find_order sample_book (fst (next_id sample_book)) = None"
  using fresh_ids [OF sample_book_run] by (simp add: sample_book_eval)

text \<open>
  The accounting of one fill. An accepted fill adds exactly its quantity, its notional and its
  costs to its own order's record, moves it to filled or partially filled, and touches no other
  record; a refused one leaves the whole book alone, except that a fill for an order that was never
  sent is refused only after its quantities were written.
\<close>

theorem apply_fill_accounting:
  "case apply_fill f m of
     (Inr _, m') \<Rightarrow> \<exists>r. find_order m (f_order_id f) = Some r \<and> fill_admissible f r \<and>
        rec_state r \<noteq> New \<and>
        m' = m\<lparr>om_records := om_put (f_order_id f)
          (r\<lparr>rec_filled_quantity := fadd (rec_filled_quantity r) (f_quantity f),
             rec_filled_notional := fadd (rec_filled_notional r) (fmul (f_price f) (f_quantity f)),
             rec_total_cost := fadd (rec_total_cost r) (fadd (f_commission f) (f_exchange_fee f)),
             rec_state := if fle (ord_quantity (rec_order r)) (fadd (rec_filled_quantity r) (f_quantity f))
                          then Filled else PartiallyFilled\<rparr>) (om_records m)\<rparr>
   | (Inl e, m') \<Rightarrow> m' = m \<or> e = FillIllegalTransition New"
proof (cases "om_find (om_records m) (f_order_id f)")
  case None then show ?thesis by (simp add: apply_fill_unknown)
next
  case (Some r)
  show ?thesis
  proof (cases "fill_admissible f r")
    case False
    from apply_fill_inadmissible [OF Some this] show ?thesis
      by (cases "apply_fill f m") (auto split: sum.splits)
  next
    case True
    from apply_fill_admissible [OF Some this] True Some show ?thesis
      by (cases "rec_state r = New")
        (simp_all add: find_order_def filled_record_def state_after_fill_def complete_def
          fill_total_cost_def)
  qed
qed

text \<open>A refused fill that did write: the first fill of an order still in state New.\<close>

lemma refused_fill_writes:
  "let m = snd (submit (sample_order 1 Buy (Fin 10)) new_book);
       (res, m') = apply_fill (sample_fill 1 Buy (Fin 100) (Fin 4)) m in
   res = Err (FillIllegalTransition New) \<and>
   (case find_order m' 1 of None \<Rightarrow> False | Some r \<Rightarrow> rec_filled_quantity r = Fin 4)"
  by (simp add: submit_def new_book_def sample_order_def om_contains_def order_is_child_def
      kNoOrder_def Let_def apply_fill_def om_find_Cons is_terminal_def sample_fill_def
      sample_times_def fadd_def f64_eval flt_def complete_def fle_def feq_def
      is_legal_transition_def find_order_def)

text \<open>
  Cancel and replace never leaves both orders live. On success the original is cancelled and
  the replacement is a new record under its own id; on a refusal the book is either untouched or has
  only the original cancelled, with no replacement in it: the pair is ordered, not atomic.
\<close>

theorem cancel_replace_never_both_live:
  "case cancel_replace original o1 m of
     (Inr k, m') \<Rightarrow> k = ord_id o1 \<and> k \<noteq> original \<and>
        (\<exists>r. find_order m' original = Some r \<and> rec_state r = Cancelled \<and>
           rec_reject_reason r = ''replaced'') \<and>
        (\<exists>r. find_order m' k = Some r \<and> rec_order r = o1 \<and> rec_state r = New)
   | (Inl e, m') \<Rightarrow> m' = m \<or>
        (m' = snd (transition original Cancelled ''replaced'' m) \<and>
         (\<exists>r. find_order m' original = Some r \<and> rec_state r = Cancelled))"
proof -
  define t where "t = transition original Cancelled ''replaced'' m"
  show ?thesis
  proof (cases "om_find (om_records m) original")
    case None then show ?thesis by (simp add: cancel_replace_def)
  next
    case (Some r)
    note r = Some
    show ?thesis
    proof (cases "is_ok (fst t)")
      case False
      then have "snd t = m" "\<exists>e. fst t = Err e"
        by (auto simp: t_def transition_def Let_def r split: if_splits)
      then obtain e where "t = (Err e, m)" by (cases t) auto
      with r show ?thesis
        by (simp add: cancel_replace_def t_def)
    next
      case True
      then have legal: "is_legal_transition (rec_state r) Cancelled"
        by (auto simp: t_def transition_def Let_def r split: if_splits)
      then have nt: "\<not> is_terminal (rec_state r)" by (auto simp: is_legal_transition_def)
      obtain b m1 where t: "t = (Ok b, m1)" using True by (cases t) (auto simp: is_ok_iff)
      have m1: "m1 = snd t" by (simp add: t)
      have orig: "om_find (om_records m1) original =
          Some (r\<lparr>rec_state := Cancelled, rec_reject_reason := ''replaced''\<rparr>)"
        by (simp add: m1 t_def omap_simps r legal)
      show ?thesis
      proof (cases "ord_instrument o1 \<noteq> ord_instrument (rec_order r) \<or>
          ord_side o1 \<noteq> ord_side (rec_order r)")
        case True with r nt show ?thesis by (auto simp: cancel_replace_def)
      next
        case False
        then have cr: "cancel_replace original o1 m = submit o1 m1"
          using r nt t by (simp add: cancel_replace_def t_def)
        show ?thesis
        proof (cases "is_ok (fst (submit o1 m1))")
          case ok: True
          then obtain k m2 where s: "submit o1 m1 = (Ok k, m2)"
            by (cases "submit o1 m1") (auto simp: is_ok_iff)
          have k: "k = ord_id o1" using s by (auto simp: submit_def Let_def split: if_splits)
          have free: "om_find (om_records m1) (ord_id o1) = None"
            using ok by (simp add: submit_Ok_iff)
          have m2: "m2 = snd (submit o1 m1)" by (simp add: s)
          show ?thesis
            unfolding cr s using free orig ok
            by (auto simp: find_order_def m2 omap_simps k)
        next
          case refused: False
          then obtain e where s: "submit o1 m1 = (Err e, m1)"
            by (auto simp: submit_def Let_def split: if_splits)
          show ?thesis
            unfolding cr s using orig by (simp add: find_order_def m1 t_def)
        qed
      qed
    qed
  qed
qed

end
