(* ===== verification/Risk.thy ===== *)
theory Risk
  imports OrderManager Portfolio
begin

text \<open>
  The pre-trade risk gate (\<open>src/risk/risk_manager.cpp\<close>). \<open>check\<close> inspects the order, the
  portfolio and the book and changes none of them; outcomes are counted by \<open>record\<close>. The text of
  a rejection is a constructor carrying the numbers the message prints.
\<close>

datatype RejectCode = Approved | MaxPositionExceeded | MaxOrderNotional | MaxGrossExposure
  | MaxNetExposure | MaxLeverage | InsufficientBuyingPower | ShortingDisabled | PriceCollar
  | StaleData | DrawdownKillSwitch | ConcentrationLimit | TurnoverBudget | NoMarkAvailable

fun to_string_RejectCode :: "RejectCode \<Rightarrow> string" where
  "to_string_RejectCode Approved = ''approved''"
| "to_string_RejectCode MaxPositionExceeded = ''max_position_exceeded''"
| "to_string_RejectCode MaxOrderNotional = ''max_order_notional''"
| "to_string_RejectCode MaxGrossExposure = ''max_gross_exposure''"
| "to_string_RejectCode MaxNetExposure = ''max_net_exposure''"
| "to_string_RejectCode MaxLeverage = ''max_leverage''"
| "to_string_RejectCode InsufficientBuyingPower = ''insufficient_buying_power''"
| "to_string_RejectCode ShortingDisabled = ''shorting_disabled''"
| "to_string_RejectCode PriceCollar = ''price_collar''"
| "to_string_RejectCode StaleData = ''stale_data''"
| "to_string_RejectCode DrawdownKillSwitch = ''drawdown_kill_switch''"
| "to_string_RejectCode ConcentrationLimit = ''concentration_limit''"
| "to_string_RejectCode TurnoverBudget = ''turnover_budget''"
| "to_string_RejectCode NoMarkAvailable = ''no_mark_available''"

text \<open>The underlying value of the enumeration, the key under which outcomes are counted.\<close>

fun code_value :: "RejectCode \<Rightarrow> 8 word" where
  "code_value Approved = 0" | "code_value MaxPositionExceeded = 1"
| "code_value MaxOrderNotional = 2" | "code_value MaxGrossExposure = 3"
| "code_value MaxNetExposure = 4" | "code_value MaxLeverage = 5"
| "code_value InsufficientBuyingPower = 6" | "code_value ShortingDisabled = 7"
| "code_value PriceCollar = 8" | "code_value StaleData = 9"
| "code_value DrawdownKillSwitch = 10" | "code_value ConcentrationLimit = 11"
| "code_value TurnoverBudget = 12" | "code_value NoMarkAvailable = 13"

lemma code_value_inj [simp]: "code_value c = code_value d \<longleftrightarrow> c = d"
  by (cases c; cases d) simp_all

record RiskLimits =
  max_order_notional :: Notional
  max_position_notional :: Notional
  max_gross_leverage :: f64
  max_net_leverage :: f64
  max_concentration :: f64
  price_collar :: Bps
  max_data_staleness :: Duration
  max_drawdown_pct :: f64
  max_daily_turnover :: f64
  limits_allow_short :: bool

definition default_limits :: RiskLimits where
  "default_limits = \<lparr>max_order_notional = lit 250000, max_position_notional = lit 500000,
     max_gross_leverage = lit 2, max_net_leverage = lit 1, max_concentration = lit (1 / 4),
     price_collar = lit 500, max_data_staleness = 5 * 60 * 10 ^ 9, max_drawdown_pct = lit (1 / 4),
     max_daily_turnover = lit 1, limits_allow_short = True\<rparr>"

datatype risk_detail = NoDetail | DataAge Duration Duration | NoReferencePrice | WouldGoShort
  | Exceeds f64 f64 | NeedsHas f64 f64

record RiskDecision =
  rd_code :: RejectCode
  rd_detail :: risk_detail
  rd_adjusted_quantity :: Qty

definition approved :: "RiskDecision \<Rightarrow> bool" where
  "approved d \<longleftrightarrow> rd_code d = Approved"

definition resized :: "RiskDecision \<Rightarrow> bool" where
  "resized d \<longleftrightarrow> approved d \<and> flt fzero (rd_adjusted_quantity d)"

record RiskContext =
  ctx_now :: Timestamp
  data_age :: Duration
  reference_price :: Price
  peak_equity :: Notional
  turnover_today :: Notional

definition reject :: "RejectCode \<Rightarrow> risk_detail \<Rightarrow> RiskDecision" where
  "reject c d = \<lparr>rd_code = c, rd_detail = d, rd_adjusted_quantity = fzero\<rparr>"

definition drawdown_from_peak :: "f64 \<Rightarrow> RiskContext \<Rightarrow> f64" where
  "drawdown_from_peak eq ctx = fsub (lit 1) (fdiv eq (peak_equity ctx))"

definition projected_quantity :: "Order \<Rightarrow> Portfolio \<Rightarrow> OrderManager \<Rightarrow> Qty" where
  "projected_quantity o1 pf oms =
     (let current = (case position_of pf (ord_instrument o1) of
            None \<Rightarrow> fzero | Some p \<Rightarrow> pos_quantity p);
          in_flight = exposure_of oms (ord_instrument o1) in
      fadd (fadd current in_flight) (order_signed_quantity o1))"

definition risk_check ::
    "RiskLimits \<Rightarrow> Order \<Rightarrow> Portfolio \<Rightarrow> OrderManager \<Rightarrow> RiskContext \<Rightarrow> RiskDecision" where
  "risk_check lims o1 pf oms ctx =
     (if max_data_staleness lims < data_age ctx
      then reject StaleData (DataAge (data_age ctx) (max_data_staleness lims))
      else
     (let ref = reference_price ctx in
      if \<not> is_finite ref \<or> fle ref fzero then reject NoMarkAvailable NoReferencePrice
      else
     (let eq = equity pf; dd = drawdown_from_peak eq ctx in
      if (flt fzero (peak_equity ctx) \<and> is_finite eq) \<and> flt (max_drawdown_pct lims) dd
      then reject DrawdownKillSwitch (Exceeds dd (max_drawdown_pct lims))
      else
     (let projected = projected_quantity o1 pf oms in
      if \<not> limits_allow_short lims \<and> flt projected (lit (- (1 / 10 ^ 9)))
      then reject ShortingDisabled WouldGoShort
      else
     (let order_notional = fabs (fmul (ord_quantity o1) ref) in
      if flt (max_order_notional lims) order_notional
      then reject MaxOrderNotional (Exceeds order_notional (max_order_notional lims))
      else
     (let projected_notional = fabs (fmul projected ref) in
      if flt (max_position_notional lims) projected_notional
      then reject MaxPositionExceeded (Exceeds projected_notional (max_position_notional lims))
      else if flt fzero eq \<and> flt (max_concentration lims) (fdiv projected_notional eq)
      then reject ConcentrationLimit (Exceeds (fdiv projected_notional eq) (max_concentration lims))
      else
     (let projected_gross = fadd (gross_exposure pf) (fabs (fmul (ord_quantity o1) ref));
          projected_net = fabs (fadd (net_exposure pf) (fmul (order_signed_quantity o1) ref)) in
      if flt fzero eq \<and> flt (max_gross_leverage lims) (fdiv projected_gross eq)
      then reject MaxGrossExposure (Exceeds (fdiv projected_gross eq) (max_gross_leverage lims))
      else if flt fzero eq \<and> flt (max_net_leverage lims) (fdiv projected_net eq)
      then reject MaxNetExposure (Exceeds (fdiv projected_net eq) (max_net_leverage lims))
      else
     (let dev = (case ord_limit_price o1 of None \<Rightarrow> fzero | Some l \<Rightarrow> fabs (to_bps l ref)) in
      if ord_limit_price o1 \<noteq> None \<and> flt (price_collar lims) dev
      then reject PriceCollar (Exceeds dev (price_collar lims))
      else if ord_side o1 = Buy \<and> flt (buying_power pf) order_notional
      then reject InsufficientBuyingPower (NeedsHas order_notional (buying_power pf))
      else
     (let projected_turnover = fadd (turnover_today ctx) order_notional in
      if (flt fzero eq \<and> flt fzero (max_daily_turnover lims)) \<and>
         flt (max_daily_turnover lims) (fdiv projected_turnover eq)
      then reject TurnoverBudget (Exceeds (fdiv projected_turnover eq) (max_daily_turnover lims))
      else \<lparr>rd_code = Approved, rd_detail = NoDetail,
             rd_adjusted_quantity = ord_quantity o1\<rparr>)))))))))"

section \<open>Counting outcomes\<close>

record RiskManager =
  rm_limits :: RiskLimits
  rm_rejections :: "(8 word, 64 word) omap"

definition record_decision :: "RiskDecision \<Rightarrow> RiskManager \<Rightarrow> RiskManager" where
  "record_decision d rm =
     (let k = code_value (rd_code d);
          n = (case om_find (rm_rejections rm) k of None \<Rightarrow> 0 | Some n \<Rightarrow> n) in
      rm\<lparr>rm_rejections := om_put k (n + 1) (rm_rejections rm)\<rparr>)"

definition rejection_count :: "RiskManager \<Rightarrow> 64 word" where
  "rejection_count rm =
     foldl (\<lambda>total (code, n). if code \<noteq> code_value Approved then total + n else total)
       0 (rm_rejections rm)"

definition rejection_count_of :: "RiskManager \<Rightarrow> RejectCode \<Rightarrow> 64 word" where
  "rejection_count_of rm c =
     (case om_find (rm_rejections rm) (code_value c) of None \<Rightarrow> 0 | Some n \<Rightarrow> n)"

definition reset_risk :: "RiskManager \<Rightarrow> RiskManager" where
  "reset_risk rm = rm\<lparr>rm_rejections := []\<rparr>"

section \<open>What approval means\<close>

text \<open>The limits as the header documents them, each on the order, the books and the context.\<close>

definition data_usable :: "RiskLimits \<Rightarrow> RiskContext \<Rightarrow> bool" where
  "data_usable lims ctx \<longleftrightarrow> data_age ctx \<le> max_data_staleness lims \<and>
     fin (reference_price ctx) \<and> 0 < val (reference_price ctx)"

definition drawdown_ok :: "RiskLimits \<Rightarrow> Portfolio \<Rightarrow> RiskContext \<Rightarrow> bool" where
  "drawdown_ok lims pf ctx \<longleftrightarrow>
     \<not> (flt fzero (peak_equity ctx) \<and> fin (equity pf) \<and>
        flt (max_drawdown_pct lims) (drawdown_from_peak (equity pf) ctx))"

definition size_ok :: "RiskLimits \<Rightarrow> Order \<Rightarrow> Portfolio \<Rightarrow> OrderManager \<Rightarrow> Price \<Rightarrow> bool" where
  "size_ok lims o1 pf oms ref \<longleftrightarrow>
     \<not> (\<not> limits_allow_short lims \<and> flt (projected_quantity o1 pf oms) (lit (- (1 / 10 ^ 9)))) \<and>
     \<not> flt (max_order_notional lims) (fabs (fmul (ord_quantity o1) ref)) \<and>
     \<not> flt (max_position_notional lims) (fabs (fmul (projected_quantity o1 pf oms) ref))"

definition weight_ok :: "f64 \<Rightarrow> f64 \<Rightarrow> f64 \<Rightarrow> bool" where
  "weight_ok cap x eq \<longleftrightarrow> \<not> (flt fzero eq \<and> flt cap (fdiv x eq))"

definition leverage_ok :: "RiskLimits \<Rightarrow> Order \<Rightarrow> Portfolio \<Rightarrow> OrderManager \<Rightarrow> Price \<Rightarrow> bool" where
  "leverage_ok lims o1 pf oms ref \<longleftrightarrow>
     weight_ok (max_concentration lims) (fabs (fmul (projected_quantity o1 pf oms) ref)) (equity pf) \<and>
     weight_ok (max_gross_leverage lims)
       (fadd (gross_exposure pf) (fabs (fmul (ord_quantity o1) ref))) (equity pf) \<and>
     weight_ok (max_net_leverage lims)
       (fabs (fadd (net_exposure pf) (fmul (order_signed_quantity o1) ref))) (equity pf)"

definition money_ok :: "RiskLimits \<Rightarrow> Order \<Rightarrow> Portfolio \<Rightarrow> RiskContext \<Rightarrow> bool" where
  "money_ok lims o1 pf ctx \<longleftrightarrow>
     (case ord_limit_price o1 of None \<Rightarrow> True
      | Some l \<Rightarrow> \<not> flt (price_collar lims) (fabs (to_bps l (reference_price ctx)))) \<and>
     (ord_side o1 = Sell \<or>
      \<not> flt (buying_power pf) (fabs (fmul (ord_quantity o1) (reference_price ctx)))) \<and>
     (\<not> flt fzero (max_daily_turnover lims) \<or>
      weight_ok (max_daily_turnover lims)
        (fadd (turnover_today ctx) (fabs (fmul (ord_quantity o1) (reference_price ctx)))) (equity pf))"

lemma reject_not_approved [simp]: "rd_code (reject c d) = c" "rd_adjusted_quantity (reject c d) = fzero"
  by (simp_all add: reject_def)

lemma side_not_sell: "s \<noteq> Buy \<longleftrightarrow> s = Sell"
  by (cases s) auto

lemma approved_if:
  "c \<noteq> Approved \<Longrightarrow> approved (if b then reject c d else x) \<longleftrightarrow> \<not> b \<and> approved x"
  "rd_adjusted_quantity (if b then reject c d else x) = (if b then fzero else rd_adjusted_quantity x)"
  "approved \<lparr>rd_code = Approved, rd_detail = NoDetail, rd_adjusted_quantity = q\<rparr>"
  by (simp_all add: approved_def)

lemma approved_adjusted:
  "rd_adjusted_quantity (risk_check lims o1 pf oms ctx) =
     (if approved (risk_check lims o1 pf oms ctx) then ord_quantity o1 else fzero)"
  unfolding risk_check_def Let_def by (simp add: approved_def)

text \<open>
  The gate approves exactly the orders within every limit, at their full size; everything else
  is refused with a size of zero.
\<close>

theorem approval_iff_within_limits:
  "let d = risk_check lims o1 pf oms ctx;
       ok = (data_usable lims ctx \<and> drawdown_ok lims pf ctx \<and>
             size_ok lims o1 pf oms (reference_price ctx) \<and>
             leverage_ok lims o1 pf oms (reference_price ctx) \<and> money_ok lims o1 pf ctx) in
   approved d = ok \<and> rd_adjusted_quantity d = (if ok then ord_quantity o1 else fzero)"
proof -
  have use: "data_usable lims ctx \<longleftrightarrow> \<not> max_data_staleness lims < data_age ctx \<and>
      \<not> (\<not> is_finite (reference_price ctx) \<or> fle (reference_price ctx) fzero)"
    by (auto simp: data_usable_def f64_sem)
  have dd: "drawdown_ok lims pf ctx \<longleftrightarrow> \<not> ((flt fzero (peak_equity ctx) \<and> is_finite (equity pf)) \<and>
      flt (max_drawdown_pct lims) (drawdown_from_peak (equity pf) ctx))"
    by (auto simp: drawdown_ok_def)
  have money: "money_ok lims o1 pf ctx \<longleftrightarrow>
      \<not> (ord_limit_price o1 \<noteq> None \<and> flt (price_collar lims)
          (case ord_limit_price o1 of None \<Rightarrow> fzero | Some l \<Rightarrow> fabs (to_bps l (reference_price ctx)))) \<and>
      \<not> (ord_side o1 = Buy \<and>
          flt (buying_power pf) (fabs (fmul (ord_quantity o1) (reference_price ctx)))) \<and>
      \<not> ((flt fzero (equity pf) \<and> flt fzero (max_daily_turnover lims)) \<and> flt (max_daily_turnover lims)
          (fdiv (fadd (turnover_today ctx) (fabs (fmul (ord_quantity o1) (reference_price ctx))))
            (equity pf)))"
    by (cases "ord_side o1") (auto simp: money_ok_def weight_ok_def split: option.splits)
  have "approved (risk_check lims o1 pf oms ctx) \<longleftrightarrow>
      data_usable lims ctx \<and> drawdown_ok lims pf ctx \<and>
      size_ok lims o1 pf oms (reference_price ctx) \<and>
      leverage_ok lims o1 pf oms (reference_price ctx) \<and> money_ok lims o1 pf ctx"
    unfolding use dd money size_ok_def leverage_ok_def weight_ok_def risk_check_def Let_def
    by (simp only: approved_if RejectCode.distinct RejectCode.simps not_False_eq_True simp_thms conj_assoc)
  then show ?thesis by (simp add: approved_adjusted)
qed

text \<open>
  The gate reads the book only through the exposure in the order's own instrument: the working
  orders of other instruments, and the cash that working purchases will consume, are not seen.
\<close>

lemma check_sees_only_own_exposure:
  "exposure_of oms (ord_instrument o1) = exposure_of oms' (ord_instrument o1) \<Longrightarrow>
     risk_check lims o1 pf oms ctx = risk_check lims o1 pf oms' ctx"
  by (simp add: risk_check_def projected_quantity_def Let_def)

text \<open>With no positive equity the concentration, leverage and turnover limits are not evaluated.\<close>

lemma no_leverage_limit_without_equity:
  "\<not> flt fzero (equity pf) \<Longrightarrow> leverage_ok lims o1 pf oms ref"
  by (simp add: leverage_ok_def weight_ok_def)

definition counted :: "8 word \<times> 64 word \<Rightarrow> 64 word" where
  "counted e = (if fst e \<noteq> code_value Approved then snd e else 0)"

lemma counted_pair: "counted (k, n) = (if k \<noteq> code_value Approved then n else 0)"
  by (simp add: counted_def)

lemma rejection_count_sum: "rejection_count rm = (\<Sum>e \<leftarrow> rm_rejections rm. counted e)"
proof -
  have "foldl (\<lambda>total (code, n). if code \<noteq> code_value Approved then total + n else total) a m =
      a + (\<Sum>e \<leftarrow> m. counted e)" for a and m :: "(8 word, 64 word) omap"
    by (induction m arbitrary: a) (auto simp: counted_def)
  then show ?thesis by (simp add: rejection_count_def)
qed

lemma sum_counted_put:
  "om_inv m \<Longrightarrow> (\<Sum>e \<leftarrow> om_put k v m. counted e) =
     (\<Sum>e \<leftarrow> m. counted e) - counted (k, case om_find m k of None \<Rightarrow> 0 | Some n \<Rightarrow> n) + counted (k, v)"
proof (induction m)
  case (Cons e m)
  obtain j w where e: "e = (j, w)" by (cases e)
  show ?case
  proof (cases "k < j")
    case True
    then have "om_find m k = None" using Cons.prems by (auto simp: e om_find_def map_of_eq_None_iff)
    moreover have "\<not> j < k" "j \<noteq> k" using True by auto
    ultimately show ?thesis by (simp add: e om_find_Cons counted_pair del: code_value.simps)
  next
    case False
    with Cons show ?thesis by (auto simp: e om_find_Cons counted_pair simp del: code_value.simps)
  qed
qed (simp add: counted_pair)

lemma record_decision_step:
  "om_inv (rm_rejections rm) \<Longrightarrow>
     om_inv (rm_rejections (record_decision d rm)) \<and>
     rejection_count (record_decision d rm) = rejection_count rm + (if approved d then 0 else 1) \<and>
     rejection_count_of (record_decision d rm) c =
       rejection_count_of rm c + (if rd_code d = c then 1 else 0)"
  by (auto simp: record_decision_def Let_def rejection_count_sum sum_counted_put rejection_count_of_def
      omap_simps counted_pair approved_def simp del: code_value.simps split: option.splits)

text \<open>
  Rejections are counted and reported, never dropped. After any sequence of recorded decisions
  the totals are the number of refusals, and of each code, in the 64-bit arithmetic of the counters.
\<close>

theorem rejections_are_counted:
  "let rm = fold record_decision ds \<lparr>rm_limits = lims, rm_rejections = []\<rparr> in
   rejection_count rm = of_nat (length (filter (\<lambda>d. \<not> approved d) ds)) \<and>
   rejection_count_of rm c = of_nat (length (filter (\<lambda>d. rd_code d = c) ds))"
proof -
  have "rejection_count (fold record_decision ds rm) =
        rejection_count rm + of_nat (length (filter (\<lambda>d. \<not> approved d) ds)) \<and>
      rejection_count_of (fold record_decision ds rm) c =
        rejection_count_of rm c + of_nat (length (filter (\<lambda>d. rd_code d = c) ds))"
    if "om_inv (rm_rejections rm)" for rm
    using that by (induction ds arbitrary: rm) (simp_all add: record_decision_step)
  then show ?thesis
    by (simp add: Let_def rejection_count_def rejection_count_of_def)
qed

end
