(* ===== verification/Engine.thy ===== *)
theory Engine
  imports Broker Accounting Risk "HOL-Library.List_Lexorder" "HOL-Library.Char_ord"
begin

text \<open>
  The event loop (\<open>src/engine/engine.cpp\<close>), its order sink, and the strategy registry
  (\<open>src/engine/strategy.cpp\<close>). The engine owns copies of the collaborators it borrows in the code;
  clock, source and venue are the ones of a replay (\<open>SimulatedClock\<close>, \<open>ReplaySource\<close>,
  \<open>BrokerSimulator\<close>).

  A strategy is code the engine cannot see. A callback that is given the sink is a program over the
  sink's operations: it may look at the context, draw an id, submit and cancel, each time going on
  with the answer, and ends in a new strategy state. A callback without the sink is a function.
\<close>

section \<open>Strategies\<close>

record StrategyContext =
  sc_now :: Timestamp
  sc_portfolio :: Portfolio
  sc_orders :: OrderManager
  sc_limits :: RiskLimits

definition ctx_position_of :: "StrategyContext \<Rightarrow> InstrumentId \<Rightarrow> Qty" where
  "ctx_position_of c i = (case position_of (sc_portfolio c) i of
     None \<Rightarrow> fzero | Some p \<Rightarrow> pos_quantity p)"

datatype engine_error = NotStarted | FromRisk RiskDecision | FromOms oms_error
  | FromBroker broker_error | FromPortfolio portfolio_error | StartFailed string
  | Threw ClockException

datatype 's program = Return 's
  | Look "StrategyContext \<Rightarrow> 's program"
  | FreshId "OrderId \<Rightarrow> 's program"
  | SubmitOrder Order "(engine_error, OrderId) result \<Rightarrow> 's program"
  | CancelOrder OrderId "(engine_error, bool) result \<Rightarrow> 's program"

record 's IStrategy =
  on_start :: "StrategyContext \<Rightarrow> 's \<Rightarrow> (string, bool) result \<times> 's"
  on_bar :: "Bar \<Rightarrow> 's \<Rightarrow> 's program"
  on_quote :: "Quote \<Rightarrow> 's \<Rightarrow> 's program"
  on_trade :: "TradePrint \<Rightarrow> 's \<Rightarrow> 's program"
  on_fill :: "Fill \<Rightarrow> StrategyContext \<Rightarrow> 's \<Rightarrow> 's"
  on_session_open :: "Timestamp \<Rightarrow> 's \<Rightarrow> 's program"
  on_session_close :: "Timestamp \<Rightarrow> 's \<Rightarrow> 's program"
  on_stop :: "StrategyContext \<Rightarrow> 's \<Rightarrow> 's"

section \<open>The engine's state\<close>

record EngineConfig =
  snapshot_on_session_close :: bool
  snapshot_on_bar :: bool
  halt_on_risk_rejection :: bool
  default_interval_volume :: Volume

record RunSummary =
  events_processed :: nat
  sum_bars :: nat
  sum_quotes :: nat
  orders_submitted :: nat
  sum_orders_rejected :: nat
  sum_fills :: nat
  chain_violations :: "64 word"
  first_event :: Timestamp
  last_event :: Timestamp
  final_equity :: Notional
  reconciled :: bool

definition no_summary :: RunSummary where
  "no_summary = \<lparr>events_processed = 0, sum_bars = 0, sum_quotes = 0, orders_submitted = 0,
     sum_orders_rejected = 0, sum_fills = 0, chain_violations = 0, first_event = kNoTimestamp,
     last_event = kNoTimestamp, final_equity = fzero, reconciled = False\<rparr>"

record 's Engine =
  en_clock :: SimulatedClock
  en_source :: ReplaySource
  en_strategy :: 's
  en_broker :: BrokerSimulator
  en_portfolio :: Portfolio
  en_oms :: OrderManager
  en_risk :: RiskManager
  en_journal :: Journal
  en_cfg :: EngineConfig
  en_summary :: RunSummary
  en_started :: bool
  en_state :: "(InstrumentId, MarketState) omap"
  en_last_update :: "(InstrumentId, Timestamp) omap"
  en_peak_equity :: Notional
  en_turnover_today :: Notional
  en_violation_count :: "64 word"
  en_detail_text :: "risk_detail \<Rightarrow> string"
  en_error_text :: "broker_error \<Rightarrow> string"

definition context_of :: "'s Engine \<Rightarrow> StrategyContext" where
  "context_of e = \<lparr>sc_now = clock_now (en_clock e), sc_portfolio = en_portfolio e,
     sc_orders = en_oms e, sc_limits = rm_limits (en_risk e)\<rparr>"

abbreviation with_summary :: "(RunSummary \<Rightarrow> RunSummary) \<Rightarrow> 's Engine \<Rightarrow> 's Engine" where
  "with_summary g e \<equiv> e\<lparr>en_summary := g (en_summary e)\<rparr>"

section \<open>The order sink\<close>

text \<open>\<open>Duration::max()\<close>, the age of data that never arrived.\<close>

definition max_duration :: Duration where
  "max_duration = 2 ^ 63 - 1"

definition risk_context :: "'s Engine \<Rightarrow> InstrumentId \<Rightarrow> RiskContext" where
  "risk_context e i =
     (let now = clock_now (en_clock e);
          base = \<lparr>ctx_now = now, data_age = 0, reference_price = fzero,
                  peak_equity = en_peak_equity e, turnover_today = en_turnover_today e\<rparr> in
      case om_find (en_state e) i of
        None \<Rightarrow> base\<lparr>data_age := max_duration\<rparr>
      | Some st \<Rightarrow> base\<lparr>
          reference_price := (if has_quote st then market_mid st else ms_bid st),
          data_age := (case om_find (en_last_update e) i of
              None \<Rightarrow> max_duration | Some lu \<Rightarrow> now - lu)\<rparr>)"

text \<open>
  \<open>RiskDecision::describe\<close>. The texts that render numbers (a rejection's detail, an error's
  message) are functions the engine carries as parameters.
\<close>

definition describe_decision :: "(risk_detail \<Rightarrow> string) \<Rightarrow> RiskDecision \<Rightarrow> string" where
  "describe_decision detail_text d =
     (let out = to_string_RejectCode (rd_code d); detail = detail_text (rd_detail d) in
      if detail \<noteq> [] then out @ '': '' @ detail else out)"

definition sink_submit ::
    "Order \<Rightarrow> 's Engine \<Rightarrow> ((engine_error, OrderId) result \<times> 's Engine) option" where
  "sink_submit o1 e =
     (let rctx = risk_context e (ord_instrument o1);
          decision = risk_check (rm_limits (en_risk e)) o1 (en_portfolio e) (en_oms e) rctx;
          e1 = e\<lparr>en_risk := record_decision decision (en_risk e)\<rparr> in
      if \<not> approved decision then
        Some (Err (FromRisk decision),
          (with_summary (\<lambda>s. s\<lparr>sum_orders_rejected := sum_orders_rejected s + 1\<rparr>) e1)
            \<lparr>en_journal := record_risk_rejection (ctx_now rctx) (ord_instrument o1)
               (describe_decision (en_detail_text e) decision) (en_journal e1)\<rparr>)
      else
        (let priced = (if flt fzero (reference_price rctx)
                       then with_arrival_price (reference_price rctx) o1 else o1) in
         case submit priced (en_oms e1) of
           (Inl err, oms1) \<Rightarrow> Some (Err (FromOms err), e1\<lparr>en_oms := oms1\<rparr>)
         | (Inr _, oms1) \<Rightarrow>
             (case broker_submit (clock_now (en_clock e1)) priced (en_broker e1) of
                None \<Rightarrow> None
              | Some (Inl err, b1) \<Rightarrow>
                  Some (Err (FromBroker err),
                    e1\<lparr>en_broker := b1,
                       en_oms := snd (transition (ord_id priced) Rejected (en_error_text e err) oms1)\<rparr>)
              | Some (Inr arrival, b1) \<Rightarrow>
                  (let oms2 = snd (transition (ord_id priced) PendingNew [] oms1);
                       oms3 = snd (transition (ord_id priced) Working [] oms2);
                       entry = default_entry\<lparr>je_ts := ctx_now rctx, je_kind := OrderSubmitted,
                         je_order_id := ord_id priced, je_instrument := ord_instrument priced,
                         je_side := ord_side priced, je_quantity := ord_quantity priced,
                         je_price := reference_price rctx\<rparr>;
                       e2 = e1\<lparr>en_broker := b1, en_oms := oms3,
                               en_journal := snd (journal_append entry (en_journal e1))\<rparr> in
                   Some (Ok (ord_id priced),
                     with_summary (\<lambda>s. s\<lparr>orders_submitted := orders_submitted s + 1\<rparr>) e2)))))"

definition sink_cancel :: "OrderId \<Rightarrow> 's Engine \<Rightarrow> (engine_error, bool) result \<times> 's Engine" where
  "sink_cancel oid e =
     (case broker_cancel oid (en_broker e) of
        (Inl err, b1) \<Rightarrow> (Err (FromBroker err), e\<lparr>en_broker := b1\<rparr>)
      | (Inr _, b1) \<Rightarrow>
          (case transition oid Cancelled ''strategy cancel'' (en_oms e) of
             (Inl err, oms1) \<Rightarrow> (Err (FromOms err), e\<lparr>en_broker := b1, en_oms := oms1\<rparr>)
           | (Inr ok, oms1) \<Rightarrow> (Ok ok, e\<lparr>en_broker := b1, en_oms := oms1\<rparr>)))"

definition sink_next_id :: "'s Engine \<Rightarrow> OrderId \<times> 's Engine" where
  "sink_next_id e = (let (i, oms1) = next_id (en_oms e) in (i, e\<lparr>en_oms := oms1\<rparr>))"

text \<open>Running a callback against the live engine.\<close>

primrec run_program :: "'s program \<Rightarrow> 's Engine \<Rightarrow> 's Engine option" where
  "run_program (Return s) e = Some (e\<lparr>en_strategy := s\<rparr>)"
| "run_program (Look k) e = run_program (k (context_of e)) e"
| "run_program (FreshId k) e = run_program (k (fst (sink_next_id e))) (snd (sink_next_id e))"
| "run_program (SubmitOrder o1 k) e =
     (case sink_submit o1 e of None \<Rightarrow> None | Some (r, e1) \<Rightarrow> run_program (k r) e1)"
| "run_program (CancelOrder oid k) e =
     run_program (k (fst (sink_cancel oid e))) (snd (sink_cancel oid e))"

section \<open>Dispatch\<close>

fun dispatch_fills :: "'s IStrategy \<Rightarrow> Fill list \<Rightarrow> 's Engine \<Rightarrow> (engine_error, bool) result \<times> 's Engine" where
  "dispatch_fills S [] e = (Ok True, e)"
| "dispatch_fills S (f # fs) e =
     (case apply_fill f (en_oms e) of
        (Inl err, oms1) \<Rightarrow> (Err (FromOms err), e\<lparr>en_oms := oms1\<rparr>)
      | (Inr _, oms1) \<Rightarrow>
          (case portfolio_apply f (en_portfolio e) of
             (Inl err, pf1) \<Rightarrow> (Err (FromPortfolio err), e\<lparr>en_oms := oms1, en_portfolio := pf1\<rparr>)
           | (Inr _, pf1) \<Rightarrow>
               (let e1 = e\<lparr>en_oms := oms1, en_portfolio := pf1,
                           en_journal := record_fill f (en_journal e),
                           en_turnover_today := fadd (en_turnover_today e)
                             (fabs (fmul (f_price f) (f_quantity f)))\<rparr>;
                    e2 = with_summary (\<lambda>s. s\<lparr>sum_fills := sum_fills s + 1\<rparr>) e1 in
                dispatch_fills S fs
                  (e2\<lparr>en_strategy := on_fill S f (context_of e2) (en_strategy e2)\<rparr>))))"

text \<open>
  What a handler does with the venue's answer: an error or a failed dispatch ends the event, else
  the strategy's callback runs.
\<close>

definition market_then ::
    "'s IStrategy \<Rightarrow> InstrumentId \<Rightarrow> MarketState \<Rightarrow> Timestamp \<Rightarrow> ('s \<Rightarrow> 's program) \<Rightarrow> 's Engine
      \<Rightarrow> ((engine_error, bool) result \<times> 's Engine) option" where
  "market_then S i st now callback e =
     (case on_market i st now (en_broker e) of
        None \<Rightarrow> None
      | Some (Inl err, b1) \<Rightarrow> Some (Err (FromBroker err), e\<lparr>en_broker := b1\<rparr>)
      | Some (Inr fs, b1) \<Rightarrow>
          (case dispatch_fills S fs (e\<lparr>en_broker := b1\<rparr>) of
             (Inl err, e1) \<Rightarrow> Some (Err err, e1)
           | (Inr _, e1) \<Rightarrow>
               (case run_program (callback (en_strategy e1)) e1 of
                  None \<Rightarrow> None | Some e2 \<Rightarrow> Some (Ok True, e2))))"

definition market_state_of :: "'s Engine \<Rightarrow> InstrumentId \<Rightarrow> MarketState" where
  "market_state_of e i = (case om_find (en_state e) i of
     None \<Rightarrow> default_market_state | Some st \<Rightarrow> st)"

definition state_from_bar :: "EngineConfig \<Rightarrow> Bar \<Rightarrow> MarketState \<Rightarrow> MarketState" where
  "state_from_bar cfg bar st =
     (let st1 = (if \<not> has_quote st then st\<lparr>ms_bid := bar_close bar, ms_ask := bar_close bar\<rparr> else st);
          range = fsub (bar_high bar) (bar_low bar) in
      st1\<lparr>interval_volume := (if flt fzero (default_interval_volume cfg)
                             then default_interval_volume cfg else bar_volume bar),
          intraday_volatility := (if flt fzero (bar_close bar)
                             then fdiv (fabs range) (bar_close bar) else fzero)\<rparr>)"

definition handle_bar ::
    "'s IStrategy \<Rightarrow> Bar \<Rightarrow> 's Engine \<Rightarrow> ((engine_error, bool) result \<times> 's Engine) option" where
  "handle_bar S bar e =
     (let i = bar_instrument bar; st = state_from_bar (en_cfg e) bar (market_state_of e i);
          e1 = e\<lparr>en_state := om_put i st (en_state e),
                 en_last_update := om_put i (bar_close_time bar) (en_last_update e),
                 en_portfolio := mark_last i (bar_close bar) (en_portfolio e)\<rparr> in
      case market_then S i st (bar_close_time bar) (on_bar S bar) e1 of
        None \<Rightarrow> None
      | Some (Inl err, e2) \<Rightarrow> Some (Err err, e2)
      | Some (Inr _, e2) \<Rightarrow>
          (let e3 = with_summary (\<lambda>s. s\<lparr>sum_bars := sum_bars s + 1\<rparr>) e2 in
           if snapshot_on_bar (en_cfg e3) then
             (case snapshot (bar_close_time bar) (en_portfolio e3) of
                (Inl err, pf1) \<Rightarrow> Some (Err (FromPortfolio err), e3\<lparr>en_portfolio := pf1\<rparr>)
              | (Inr _, pf1) \<Rightarrow> Some (Ok True, e3\<lparr>en_portfolio := pf1\<rparr>))
           else Some (Ok True, e3)))"

definition state_from_quote :: "Quote \<Rightarrow> MarketState \<Rightarrow> MarketState" where
  "state_from_quote q st = st\<lparr>ms_bid := q_bid q, ms_ask := q_ask q, ms_bid_size := q_bid_size q,
     ms_ask_size := q_ask_size q, has_quote := True\<rparr>"

definition handle_quote ::
    "'s IStrategy \<Rightarrow> Quote \<Rightarrow> 's Engine \<Rightarrow> ((engine_error, bool) result \<times> 's Engine) option" where
  "handle_quote S q e =
     (let i = q_instrument q; st = state_from_quote q (market_state_of e i);
          now = ev_exchange (q_time q);
          e1 = e\<lparr>en_state := om_put i st (en_state e),
                 en_last_update := om_put i now (en_last_update e),
                 en_portfolio := mark_from_quote q (en_portfolio e)\<rparr> in
      case market_then S i st now (on_quote S q) e1 of
        None \<Rightarrow> None
      | Some (Inl err, e2) \<Rightarrow> Some (Err err, e2)
      | Some (Inr _, e2) \<Rightarrow>
          Some (Ok True, with_summary (\<lambda>s. s\<lparr>sum_quotes := sum_quotes s + 1\<rparr>) e2))"

text \<open>A callback on its own, for the events that only reach the strategy.\<close>

definition callback_only ::
    "'s program \<Rightarrow> 's Engine \<Rightarrow> ((engine_error, bool) result \<times> 's Engine) option" where
  "callback_only prog e =
     (case run_program prog e of None \<Rightarrow> None | Some e1 \<Rightarrow> Some (Ok True, e1))"

definition lift_portfolio ::
    "(portfolio_error, 'a) result \<times> Portfolio \<Rightarrow> 's Engine \<Rightarrow> (engine_error, bool) result \<times> 's Engine" where
  "lift_portfolio r e =
     ((case fst r of Inl err \<Rightarrow> Err (FromPortfolio err) | Inr _ \<Rightarrow> Ok True),
      e\<lparr>en_portfolio := snd r\<rparr>)"

fun handle_event ::
    "'s IStrategy \<Rightarrow> MarketEvent \<Rightarrow> 's Engine \<Rightarrow> ((engine_error, bool) result \<times> 's Engine) option" where
  "handle_event S (BarEv b) e = handle_bar S b e"
| "handle_event S (QuoteEv q) e = handle_quote S q e"
| "handle_event S (TradeEv t) e = callback_only (on_trade S t (en_strategy e)) e"
| "handle_event S (ActionEv a) e =
     Some (case ca_kind a of
        Split \<Rightarrow> lift_portfolio (portfolio_split (ca_instrument a) (ca_ratio a) (en_portfolio e)) e
      | CashDividend \<Rightarrow> lift_portfolio (portfolio_dividend (ca_instrument a) (ca_amount a) (en_portfolio e)) e)"
| "handle_event S (SessionEv v) e =
     (if se_kind v = SessionOpen
      then callback_only (on_session_open S (ev_exchange (se_time v)) (en_strategy e))
             (e\<lparr>en_turnover_today := fzero\<rparr>)
      else (case callback_only (on_session_close S (ev_exchange (se_time v)) (en_strategy e)) e of
              None \<Rightarrow> None
            | Some (r, e1) \<Rightarrow>
                if snapshot_on_session_close (en_cfg e1)
                then Some (lift_portfolio (snapshot (ev_exchange (se_time v)) (en_portfolio e1)) e1)
                else Some (r, e1)))"
| "handle_event S (TimerEv t) e = Some (Ok True, e)"

section \<open>The loop\<close>

definition engine_begin :: "'s IStrategy \<Rightarrow> 's Engine \<Rightarrow> (engine_error, bool) result \<times> 's Engine" where
  "engine_begin S e =
     (let e1 = e\<lparr>en_violation_count := 0, en_summary := no_summary,
                 en_peak_equity := equity (en_portfolio e), en_started := True\<rparr>;
          (r, s) = on_start S (context_of e1) (en_strategy e1);
          e2 = e1\<lparr>en_strategy := s\<rparr> in
      (case r of Inl why \<Rightarrow> Err (StartFailed why) | Inr _ \<Rightarrow> Ok True, e2))"

definition pull :: "'s Engine \<Rightarrow> (ClockException, MarketEvent option) result \<times> 's Engine" where
  "pull e =
     (let (r, src, clk) = replay_next (en_source e, en_clock e) in
      (r, e\<lparr>en_source := src, en_clock := clk\<rparr>))"

definition count_event :: "MarketEvent \<Rightarrow> 's Engine \<Rightarrow> 's Engine" where
  "count_event ev e =
     with_summary (\<lambda>s. s\<lparr>events_processed := events_processed s + 1,
       first_event := (if \<not> is_set (first_event s) then exchange_time_of ev else first_event s),
       last_event := exchange_time_of ev\<rparr>) e"

definition raise_peak :: "'s Engine \<Rightarrow> 's Engine" where
  "raise_peak e = (let eq = equity (en_portfolio e) in
     if flt (en_peak_equity e) eq then e\<lparr>en_peak_equity := eq\<rparr> else e)"

fun step_loop :: "'s IStrategy \<Rightarrow> nat \<Rightarrow> nat \<Rightarrow> 's Engine \<Rightarrow> ((engine_error, nat) result \<times> 's Engine) option" where
  "step_loop S 0 processed e = Some (Ok processed, e)"
| "step_loop S (Suc n) processed e =
     (case pull e of
        (Inl ex, e1) \<Rightarrow> Some (Err (Threw ex), e1)
      | (Inr None, e1) \<Rightarrow> Some (Ok processed, e1)
      | (Inr (Some ev), e1) \<Rightarrow>
          (case handle_event S ev (count_event ev e1) of
             None \<Rightarrow> None
           | Some (Inl err, e2) \<Rightarrow> Some (Err err, e2)
           | Some (Inr _, e2) \<Rightarrow> step_loop S n (Suc processed) (raise_peak e2)))"

definition engine_step ::
    "'s IStrategy \<Rightarrow> nat \<Rightarrow> 's Engine \<Rightarrow> ((engine_error, nat) result \<times> 's Engine) option" where
  "engine_step S max_events e =
     (if \<not> en_started e then Some (Err NotStarted, e) else step_loop S max_events 0 e)"

definition engine_finish :: "'s IStrategy \<Rightarrow> 's Engine \<Rightarrow> RunSummary \<times> 's Engine" where
  "engine_finish S e =
     (let e1 = e\<lparr>en_strategy := on_stop S (context_of e) (en_strategy e)\<rparr>;
          e2 = e1\<lparr>en_journal := match_trades (en_journal e1)\<rparr>;
          recon = reconcile (en_portfolio e2) (en_journal e2);
          tol = lit (1 / 10 ^ 6);
          e3 = with_summary (\<lambda>s. s\<lparr>final_equity := equity (en_portfolio e2),
                 chain_violations := en_violation_count e2,
                 reconciled := balances tol recon \<and> identity_holds tol (en_portfolio e2)\<rparr>) e2 in
      (en_summary e3, e3))"

section \<open>Frames\<close>

text \<open>Handling an event leaves the feed alone: only the loop's own \<open>next\<close> moves it.\<close>

definition same_feed :: "'s Engine \<Rightarrow> 's Engine \<Rightarrow> bool" where
  "same_feed e e' \<longleftrightarrow> en_source e' = en_source e \<and> en_clock e' = en_clock e \<and>
     en_started e' = en_started e \<and> en_cfg e' = en_cfg e"

lemma same_feed_refl [simp]: "same_feed e e"
  by (simp add: same_feed_def)

lemma same_feed_trans: "same_feed a b \<Longrightarrow> same_feed b c \<Longrightarrow> same_feed a c"
  by (simp add: same_feed_def)

lemma sink_submit_feed: "sink_submit o1 e = Some (r, e1) \<Longrightarrow> same_feed e e1"
  by (auto simp: sink_submit_def Let_def same_feed_def split: if_splits prod.splits sum.splits
      option.splits)

lemma sink_cancel_feed: "same_feed e (snd (sink_cancel oid e))"
  by (auto simp: sink_cancel_def same_feed_def split: prod.splits sum.splits)

lemma sink_next_id_feed: "same_feed e (snd (sink_next_id e))"
  by (simp add: sink_next_id_def same_feed_def case_prod_beta)

lemma run_program_feed: "run_program prog e = Some e' \<Longrightarrow> same_feed e e'"
proof (induction prog arbitrary: e)
  case (Return s) then show ?case by (auto simp: same_feed_def)
next
  case (Look k) then show ?case by (metis rangeI run_program.simps(2))
next
  case (FreshId k)
  then show ?case by (metis rangeI run_program.simps(3) same_feed_trans sink_next_id_feed)
next
  case (SubmitOrder o1 k)
  then obtain r e1 where s: "sink_submit o1 e = Some (r, e1)" "run_program (k r) e1 = Some e'"
    by (auto split: option.splits)
  then have "same_feed e1 e'" using SubmitOrder.IH by blast
  then show ?case using sink_submit_feed [OF s(1)] same_feed_trans by blast
next
  case (CancelOrder oid k)
  then show ?case by (metis rangeI run_program.simps(5) same_feed_trans sink_cancel_feed)
qed

lemma dispatch_fills_feed: "dispatch_fills S fs e = (r, e') \<Longrightarrow> same_feed e e'"
proof (induction fs arbitrary: e)
  case (Cons f fs)
  show ?case
    using Cons.prems
    by (auto simp: same_feed_def Let_def split: prod.splits sum.splits
        dest!: Cons.IH [unfolded same_feed_def])
qed simp

lemma market_then_feed: "market_then S i st now cb e = Some (r, e') \<Longrightarrow> same_feed e e'"
  using dispatch_fills_feed run_program_feed same_feed_trans
  by (fastforce simp: market_then_def same_feed_def split: option.splits prod.splits sum.splits)

lemma handle_event_feed: "handle_event S ev e = Some (r, e') \<Longrightarrow> same_feed e e'"
proof (cases ev)
  case (BarEv b)
  then show "handle_event S ev e = Some (r, e') \<Longrightarrow> same_feed e e'"
    by (auto simp: handle_bar_def Let_def same_feed_def split: option.splits prod.splits sum.splits if_splits
        dest!: market_then_feed [unfolded same_feed_def])
next
  case (QuoteEv q)
  then show "handle_event S ev e = Some (r, e') \<Longrightarrow> same_feed e e'"
    by (auto simp: handle_quote_def Let_def same_feed_def split: option.splits prod.splits sum.splits if_splits
        dest!: market_then_feed [unfolded same_feed_def])
next
  case (SessionEv v)
  then show "handle_event S ev e = Some (r, e') \<Longrightarrow> same_feed e e'"
    by (auto simp: callback_only_def lift_portfolio_def same_feed_def split: option.splits if_splits
        dest!: run_program_feed [unfolded same_feed_def])
qed (auto simp: callback_only_def lift_portfolio_def same_feed_def split: option.splits
       CorporateActionKind.splits dest!: run_program_feed [unfolded same_feed_def])

section \<open>Running to completion\<close>

definition events_left :: "'s Engine \<Rightarrow> nat" where
  "events_left e = length (rs_events (en_source e)) - rs_next (en_source e)"

lemma pull_event: "pull e = (Inr (Some ev), e1) \<Longrightarrow> events_left e = Suc (events_left e1) \<and>
    en_started e1 = en_started e"
  by (auto simp: pull_def replay_next_def events_left_def replay_exhausted_def Let_def case_prod_beta
      split: if_splits sum.splits)

lemma pull_none: "pull e = (Inr None, e1) \<Longrightarrow> e1 = e \<and> events_left e = 0"
  by (auto simp: pull_def replay_next_def events_left_def replay_exhausted_def Let_def case_prod_beta
      split: if_splits sum.splits)

lemma same_feed_events_left: "same_feed e e' \<Longrightarrow> events_left e' = events_left e"
  by (simp add: same_feed_def events_left_def)

lemma raise_peak_feed [simp]: "same_feed e (raise_peak e)"
  by (simp add: raise_peak_def same_feed_def Let_def)

lemma count_event_feed [simp]: "same_feed e (count_event ev e)"
  by (simp add: count_event_def same_feed_def)

text \<open>One event taken from the feed and handled.\<close>

lemma event_feed:
  assumes "pull e = (Inr (Some ev), e1)" "handle_event S ev (count_event ev e1) = Some (r, e2)"
  shows "events_left e = Suc (events_left (raise_peak e2))" "en_started (raise_peak e2) = en_started e"
proof -
  have "same_feed e1 (raise_peak e2)"
    using handle_event_feed [OF assms(2)] count_event_feed raise_peak_feed same_feed_trans by metis
  then show "events_left e = Suc (events_left (raise_peak e2))"
    "en_started (raise_peak e2) = en_started e"
    using pull_event [OF assms(1)] same_feed_events_left [of e1 "raise_peak e2"]
    by (simp_all add: same_feed_def)
qed

lemma step_loop_progress:
  "step_loop S n k e = Some (Ok j, e') \<Longrightarrow>
     k \<le> j \<and> j \<le> k + n \<and> events_left e = events_left e' + (j - k) \<and> en_started e' = en_started e \<and>
     (j < k + n \<longrightarrow> events_left e' = 0)"
proof (induction n arbitrary: k e)
  case (Suc n)
  note prem = Suc.prems and IH = Suc.IH
  show ?case
  proof (cases "pull e")
    case (Pair res e1)
    show ?thesis
    proof (cases res)
      case (Inl ex) with Pair prem show ?thesis by simp
    next
      case (Inr eo)
      show ?thesis
      proof (cases eo)
        case None
        with Pair Inr prem show ?thesis using pull_none [of e e1] by simp
      next
        case (Some ev)
        then obtain ok e2 where h: "handle_event S ev (count_event ev e1) = Some (Inr ok, e2)"
          and rest: "step_loop S n (Suc k) (raise_peak e2) = Some (Ok j, e')"
          using prem Pair Inr by (auto split: option.splits sum.splits)
        have p: "pull e = (Inr (Some ev), e1)" using Pair Inr Some by simp
        from IH [OF rest] event_feed [OF p h] show ?thesis by auto
      qed
    qed
  qed
qed simp

text \<open>
  \<open>run\<close> takes chunks of 1024 until one processes nothing. Every chunk that processes an event
  leaves fewer events, so the loop ends.
\<close>

function run_chunks :: "'s IStrategy \<Rightarrow> 's Engine \<Rightarrow> ((engine_error, unit) result \<times> 's Engine) option" where
  "run_chunks S e =
     (case engine_step S 1024 e of
        None \<Rightarrow> None
      | Some (Inl err, e1) \<Rightarrow> Some (Err err, e1)
      | Some (Inr processed, e1) \<Rightarrow> if processed = 0 then Some (Ok (), e1) else run_chunks S e1)"
  by pat_completeness auto

termination
proof (relation "measure (\<lambda>(S, e). events_left e)")
  fix S :: "'s IStrategy" and e :: "'s Engine" and x res e1 processed
  assume "engine_step S 1024 e = Some x" "(res, e1) = x" "res = Inr processed" "processed \<noteq> 0"
  then have "step_loop S 1024 0 e = Some (Ok processed, e1)" "processed \<noteq> 0"
    by (auto simp: engine_step_def split: if_splits)
  from step_loop_progress [OF this(1)] this(2)
  show "((S, e1), S, e) \<in> measure (\<lambda>(S, e). events_left e)" by simp
qed simp

declare run_chunks.simps [simp del]

definition engine_run ::
    "'s IStrategy \<Rightarrow> 's Engine \<Rightarrow> ((engine_error, RunSummary) result \<times> 's Engine) option" where
  "engine_run S e =
     (case engine_begin S e of
        (Inl err, e1) \<Rightarrow> Some (Err err, e1)
      | (Inr _, e1) \<Rightarrow>
          (case run_chunks S e1 of
             None \<Rightarrow> None
           | Some (Inl err, e2) \<Rightarrow> Some (Err err, e2)
           | Some (Inr _, e2) \<Rightarrow> (case engine_finish S e2 of (sm, e3) \<Rightarrow> Some (Ok sm, e3))))"

section \<open>Chunks do not matter\<close>

lemma step_loop_exhausted: "pull e = (Inr None, e1) \<Longrightarrow> step_loop S n k e = Some (Ok k, e)"
  using pull_none [of e e1] by (cases n) auto

lemma step_loop_add:
  "step_loop S (m + n) k e =
     (case step_loop S m k e of
        None \<Rightarrow> None
      | Some (Inl err, e') \<Rightarrow> Some (Err err, e')
      | Some (Inr j, e') \<Rightarrow> step_loop S n j e')"
proof (induction m arbitrary: k e)
  case (Suc m)
  show ?case
  proof (cases "\<exists>e1. pull e = (Inr None, e1)")
    case True
    then obtain e1 where p: "pull e = (Inr None, e1)" by blast
    from step_loop_exhausted [OF p, of S n k] pull_none [OF p] p show ?thesis by simp
  next
    case False
    then show ?thesis
      by (cases "pull e") (auto simp: Suc.IH split: sum.splits option.splits)
  qed
qed simp

lemma step_loop_start: "step_loop S n (c + k) e =
    (case step_loop S n k e of None \<Rightarrow> None
     | Some (Inl err, e') \<Rightarrow> Some (Err err, e') | Some (Inr j, e') \<Rightarrow> Some (Ok (c + j), e'))"
proof (induction n arbitrary: k e)
  case (Suc n)
  show ?case
    by (cases "pull e")
      (auto simp: Suc.IH [of "Suc k" for k, simplified] split: sum.splits option.splits)
qed simp

text \<open>
  C5: stepped execution is independent of the chunk size. A step of at most m + n events is a step
  of at most m followed by one of at most n, whatever the strategy does: same events, same order,
  same state, same error.
\<close>

theorem stepping_is_chunk_independent:
  "engine_step S (m + n) e =
     (case engine_step S m e of
        None \<Rightarrow> None
      | Some (Inl err, e1) \<Rightarrow> Some (Err err, e1)
      | Some (Inr j, e1) \<Rightarrow>
          (case engine_step S n e1 of
             None \<Rightarrow> None
           | Some (Inl err, e2) \<Rightarrow> Some (Err err, e2)
           | Some (Inr i, e2) \<Rightarrow> Some (Ok (j + i), e2)))"
proof (cases "en_started e")
  case True
  have "en_started e1 \<and> step_loop S n j e1 = (case step_loop S n 0 e1 of None \<Rightarrow> None
     | Some (Inl err, e') \<Rightarrow> Some (Err err, e') | Some (Inr i, e') \<Rightarrow> Some (Ok (j + i), e'))"
    if "step_loop S m 0 e = Some (Ok j, e1)" for j e1
    using step_loop_progress [OF that] step_loop_start [of S n j 0 e1] True by simp
  then show ?thesis
    using True by (auto simp: engine_step_def step_loop_add split: option.splits sum.splits)
qed (simp add: engine_step_def)

lemma pull_exhausted: "events_left e = 0 \<Longrightarrow> pull e = (Inr None, e)"
  by (simp add: pull_def replay_next_def events_left_def replay_exhausted_def Let_def)

lemma step_enough: "events_left e \<le> n \<Longrightarrow> step_loop S (n + m) k e = step_loop S n k e"
proof -
  assume n: "events_left e \<le> n"
  have "step_loop S m j e1 = Some (Ok j, e1)" if "step_loop S n k e = Some (Ok j, e1)" for j e1
    using step_loop_progress [OF that] n step_loop_exhausted [OF pull_exhausted] by auto
  then show ?thesis by (auto simp: step_loop_add split: option.splits sum.splits)
qed

lemma step_ignores_count:
  "(case step_loop S n k e of None \<Rightarrow> None | Some (Inl err, e1) \<Rightarrow> Some (Inl err, e1)
    | Some (Inr j, e1) \<Rightarrow> Some (Inr (), e1)) =
   (case step_loop S n 0 e of None \<Rightarrow> None | Some (Inl err, e1) \<Rightarrow> Some (Inl err, e1)
    | Some (Inr j, e1) \<Rightarrow> Some (Inr (), e1))"
  using step_loop_start [of S n k 0 e] by (auto split: option.splits sum.splits)

lemma run_chunks_step:
  "en_started e \<Longrightarrow> events_left e \<le> n \<Longrightarrow> run_chunks S e =
     (case step_loop S n 0 e of
        None \<Rightarrow> None | Some (Inl err, e1) \<Rightarrow> Some (Inl err, e1) | Some (Inr j, e1) \<Rightarrow> Some (Inr (), e1))"
proof (induction "events_left e" arbitrary: e rule: less_induct)
  case less
  have split: "step_loop S n 0 e =
      (case step_loop S 1024 0 e of None \<Rightarrow> None | Some (Inl err, e') \<Rightarrow> Some (Inl err, e')
       | Some (Inr j, e') \<Rightarrow> step_loop S n j e')"
    using step_enough [OF less.prems(2), of S 1024 0] step_loop_add [of S 1024 n 0 e]
    by (simp add: add.commute)
  show ?case
  proof (cases "step_loop S 1024 0 e")
    case None
    then show ?thesis by (simp add: split run_chunks.simps [of S e] engine_step_def less.prems)
  next
    case (Some re)
    obtain r e1 where re: "re = (r, e1)" by fastforce
    show ?thesis
    proof (cases r)
      case (Inl err)
      then show ?thesis
        using Some re by (simp add: split run_chunks.simps [of S e] engine_step_def less.prems)
    next
      case (Inr j)
      note prog = step_loop_progress [OF Some [unfolded re Inr]]
      show ?thesis
      proof (cases "j = 0")
        case True
        then have "pull e1 = (Inr None, e1)" using prog by (intro pull_exhausted) simp
        from step_loop_exhausted [OF this] show ?thesis
          using Some re Inr True
          by (simp add: split run_chunks.simps [of S e] engine_step_def less.prems)
      next
        case False
        then have "run_chunks S e = run_chunks S e1"
          using Some re Inr by (simp add: run_chunks.simps [of S e] engine_step_def less.prems)
        also have "\<dots> = (case step_loop S n 0 e1 of None \<Rightarrow> None
            | Some (Inl err, e2) \<Rightarrow> Some (Inl err, e2) | Some (Inr i, e2) \<Rightarrow> Some (Inr (), e2))"
          by (rule less.hyps) (use prog False less.prems in auto)
        finally show ?thesis
          using Some re Inr step_ignores_count [of S n j e1] by (simp add: split)
      qed
    qed
  qed
qed

text \<open>
  C6: a batch run ends and is one step over everything that is left. The chunks of 1024 are a
  detail: \<open>run\<close> is \<open>begin\<close>, a single step of as many events as the source holds, and \<open>finish\<close>
  (the only way to have no result is a random draw that never ends).
\<close>

theorem run_is_one_step:
  "engine_run S e =
     (case engine_begin S e of
        (Inl err, e1) \<Rightarrow> Some (Err err, e1)
      | (Inr _, e1) \<Rightarrow>
          (case engine_step S (events_left e1) e1 of
             None \<Rightarrow> None
           | Some (Inl err, e2) \<Rightarrow> Some (Err err, e2)
           | Some (Inr _, e2) \<Rightarrow> (case engine_finish S e2 of (sm, e3) \<Rightarrow> Some (Ok sm, e3))))"
proof -
  have "en_started (snd (engine_begin S e))"
    by (simp add: engine_begin_def Let_def case_prod_beta)
  then have "run_chunks S (snd (engine_begin S e)) =
      (case engine_step S (events_left (snd (engine_begin S e))) (snd (engine_begin S e)) of
        None \<Rightarrow> None | Some (Inl err, e1) \<Rightarrow> Some (Inl err, e1) | Some (Inr j, e1) \<Rightarrow> Some (Inr (), e1))"
    using run_chunks_step [OF _ order_refl] by (simp add: engine_step_def)
  then show ?thesis
    by (auto simp: engine_run_def split: prod.splits sum.splits option.splits)
qed

section \<open>The gate and the invariants\<close>

lemma submit_then_work:
  assumes "submit o1 m = (Ok k, m1)"
  shows "\<exists>r. find_order (snd (transition (ord_id o1) Working []
      (snd (transition (ord_id o1) PendingNew [] m1)))) (ord_id o1) = Some r \<and>
    rec_state r = Working \<and> rec_order r = o1"
proof -
  have "om_find (om_records m1) (ord_id o1) = Some \<lparr>rec_order = o1, rec_state = New,
      rec_filled_quantity = fzero, rec_filled_notional = fzero, rec_total_cost = fzero,
      rec_reject_reason = []\<rparr>"
    using submit_lookup [of o1 m "ord_id o1"] assms by simp
  then show ?thesis
    by (simp add: find_order_def omap_simps is_legal_transition_def is_terminal_def)
qed

lemma with_arrival_price_frame [frame]:
  "ord_id (with_arrival_price p o1) = ord_id o1"
  "ord_instrument (with_arrival_price p o1) = ord_instrument o1"
  "ord_side (with_arrival_price p o1) = ord_side o1"
  by (simp_all add: with_arrival_price_def)

text \<open>What the gate answers for an order on the books the engine holds now.\<close>

definition gate_approves :: "'s Engine \<Rightarrow> Order \<Rightarrow> bool" where
  "gate_approves e o1 \<longleftrightarrow> approved (risk_check (rm_limits (en_risk e)) o1 (en_portfolio e) (en_oms e)
     (risk_context e (ord_instrument o1)))"

lemma sink_submit_accepts:
  assumes "sink_submit o1 e = Some (Inr k, e1)"
  shows "gate_approves e o1 \<and> k = ord_id o1
    \<and> (\<exists>r. find_order (en_oms e1) (ord_id o1) = Some r \<and> rec_state r = Working)
    \<and> (\<exists>p. br_pending (en_broker e1) = br_pending (en_broker e) @ [p] \<and> ord_id (po_order p) = ord_id o1)
    \<and> orders_submitted (en_summary e1) = orders_submitted (en_summary e) + 1"
proof -
  define rctx where "rctx = risk_context e (ord_instrument o1)"
  define d where "d = risk_check (rm_limits (en_risk e)) o1 (en_portfolio e) (en_oms e) rctx"
  define priced where "priced = (if flt fzero (reference_price rctx)
    then with_arrival_price (reference_price rctx) o1 else o1)"
  have pid: "ord_id priced = ord_id o1" by (simp add: priced_def frame)
  note unf = sink_submit_def Let_def rctx_def [symmetric] d_def [symmetric] priced_def [symmetric]
  have gate: "approved d" using assms unfolding unf by (auto split: if_splits)
  obtain k2 oms1 a b1 where sub: "submit priced (en_oms e) = (Inr k2, oms1)"
    and br: "broker_submit (clock_now (en_clock e)) priced (en_broker e) = Some (Inr a, b1)"
    using assms gate unfolding unf by (auto split: sum.splits prod.splits option.splits)
  obtain o2 where wa: "with_arrival a priced = Ok o2" and pend: "br_pending b1 = br_pending (en_broker e) @
      [\<lparr>po_order = o2, po_arrival_time = a, po_filled = fzero, po_stop_triggered = False\<rparr>]"
    using broker_submit_Ok [OF br] by blast
  have "ord_id o2 = ord_id o1" using with_arrival_frame [OF wa] pid by simp
  then show ?thesis
    using assms gate sub br pend submit_then_work [OF sub] pid
    unfolding gate_approves_def unf by auto
qed

lemma sink_submit_refuses:
  assumes "sink_submit o1 e = Some (Inl err, e1)"
  shows "br_pending (en_broker e1) = br_pending (en_broker e) \<and>
    orders_submitted (en_summary e1) = orders_submitted (en_summary e)"
  using assms
  by (auto simp: sink_submit_def Let_def broker_submit_def count_rejected_def
      split: if_splits option.splits sum.splits prod.splits)

text \<open>
  C1: no order bypasses risk. An order the sink accepts was approved by the gate against the live
  books, and is then pending at the venue and working in the order manager; an order the gate
  refuses reaches neither, and the refusal is counted and journalled.
\<close>

theorem no_order_bypasses_risk:
  "let decision = risk_check (rm_limits (en_risk e)) o1 (en_portfolio e) (en_oms e)
         (risk_context e (ord_instrument o1)) in
   case sink_submit o1 e of
     None \<Rightarrow> approved decision
   | Some (Inr k, e1) \<Rightarrow> approved decision \<and> k = ord_id o1 \<and>
       (\<exists>r. find_order (en_oms e1) k = Some r \<and> rec_state r = Working) \<and>
       (\<exists>p. br_pending (en_broker e1) = br_pending (en_broker e) @ [p] \<and> ord_id (po_order p) = k) \<and>
       orders_submitted (en_summary e1) = orders_submitted (en_summary e) + 1
   | Some (Inl err, e1) \<Rightarrow>
       br_pending (en_broker e1) = br_pending (en_broker e) \<and>
       (if approved decision then sum_orders_rejected (en_summary e1) = sum_orders_rejected (en_summary e)
        else err = FromRisk decision \<and> en_oms e1 = en_oms e \<and> en_broker e1 = en_broker e \<and>
          en_risk e1 = record_decision decision (en_risk e) \<and>
          sum_orders_rejected (en_summary e1) = sum_orders_rejected (en_summary e) + 1 \<and>
          en_journal e1 = record_risk_rejection (clock_now (en_clock e)) (ord_instrument o1)
            (describe_decision (en_detail_text e) decision) (en_journal e))"
proof -
  define rctx where "rctx = risk_context e (ord_instrument o1)"
  define d where "d = risk_check (rm_limits (en_risk e)) o1 (en_portfolio e) (en_oms e) rctx"
  define priced where "priced = (if flt fzero (reference_price rctx)
    then with_arrival_price (reference_price rctx) o1 else o1)"
  have now: "ctx_now rctx = clock_now (en_clock e)"
    by (auto simp: rctx_def risk_context_def Let_def split: option.splits)
  have pid: "ord_id priced = ord_id o1" by (simp add: priced_def frame)
  show ?thesis
  proof (cases "approved d")
    case False
    then show ?thesis
      unfolding Let_def rctx_def [symmetric] d_def [symmetric]
      by (simp add: sink_submit_def Let_def rctx_def [symmetric] d_def [symmetric] now)
  next
    case True
    note unf = sink_submit_def Let_def rctx_def [symmetric] d_def [symmetric] priced_def [symmetric]
    obtain sr oms1 where sub: "submit priced (en_oms e) = (sr, oms1)" by fastforce
    show ?thesis
    proof (cases sr)
      case (Inl err)
      then show ?thesis
        unfolding Let_def rctx_def [symmetric] d_def [symmetric]
        using True sub by (simp add: unf)
    next
      case (Inr k)
      show ?thesis
      proof (cases "broker_submit (clock_now (en_clock e)) priced (en_broker e)")
        case None
        then show ?thesis
          unfolding Let_def rctx_def [symmetric] d_def [symmetric]
          using True sub Inr by (simp add: unf)
      next
        case (Some br)
        obtain res b1 where br: "br = (res, b1)" by fastforce
        show ?thesis
        proof (cases res)
          case (Inl err)
          then have "br_pending b1 = br_pending (en_broker e)"
            using Some br by (auto simp: broker_submit_def count_rejected_def Let_def
                split: if_splits option.splits sum.splits)
          then show ?thesis
            unfolding Let_def rctx_def [symmetric] d_def [symmetric]
            using True sub \<open>sr = Inr k\<close> Some br Inl by (simp add: unf)
        next
          case arrived: (Inr a)
          from broker_submit_Ok [OF Some [unfolded br arrived]] obtain o2 where
            wa: "with_arrival a priced = Ok o2" and pend: "br_pending b1 = br_pending (en_broker e) @
              [\<lparr>po_order = o2, po_arrival_time = a, po_filled = fzero, po_stop_triggered = False\<rparr>]"
            by blast
          have "ord_id o2 = ord_id o1" using with_arrival_frame [OF wa] pid by simp
          then show ?thesis
            unfolding Let_def rctx_def [symmetric] d_def [symmetric]
            using True sub \<open>sr = Inr k\<close> Some br arrived pend
              submit_then_work [OF sub [unfolded \<open>sr = Inr k\<close>]] pid
            by (simp add: unf) blast
        qed
      qed
    qed
  qed
qed

text \<open>
  An instrument without market data is refused for the age of its data, which is checked before the
  missing mark is.
\<close>

lemma no_market_data_is_stale:
  assumes "om_find (en_state e) i = None" "max_data_staleness lims < max_duration" "ord_instrument o1 = i"
  shows "rd_code (risk_check lims o1 pf oms (risk_context e i)) = StaleData"
  using assms by (simp add: risk_check_def risk_context_def Let_def)

end
