(* ===== verification/Executor.thy ===== *)
theory Executor
  imports Algorithms Engine
begin

text \<open>
  The executor (\<open>src/algo/executor.cpp\<close>, \<open>include/ptl/algo/executor.hpp\<close>): it drives one execution
  algorithm over a set of parent orders and routes the children through an order sink. The sink is the
  abstract class \<open>engine::OrderSink\<close>: a record of its three virtual functions over a state of its own,
  which the engine's sink instantiates at the end of this theory. An operation takes the executor and the
  state of the sink and returns both updated; \<open>None\<close> is a submission that does not return. The
  \<open>std::optional\<close> around a plan's request, which \<open>submit\<close> always engages, is not kept.
\<close>

section \<open>State\<close>

record 'w OrderSink =
  os_submit :: "Order \<Rightarrow> 'w \<Rightarrow> ((engine_error, OrderId) result \<times> 'w) option"
  os_cancel :: "OrderId \<Rightarrow> 'w \<Rightarrow> (engine_error, bool) result \<times> 'w"
  os_next_order_id :: "'w \<Rightarrow> OrderId \<times> 'w"

record ExecutionPlan =
  pl_parent_id :: OrderId
  pl_request :: ExecutionRequest
  pl_schedule :: ExecutionSchedule
  pl_progress :: ExecutionProgress
  pl_state :: ExecutionState
  pl_started :: Timestamp
  pl_finished :: Timestamp
  pl_arrival_price :: Price
  pl_children :: "OrderId list"
  pl_working_child :: "OrderId option"

definition plan_result :: "ExecutionPlan \<Rightarrow> ExecutionResult" where
  "plan_result p = \<lparr>er_state = pl_state p, er_progress = pl_progress p, er_started = pl_started p,
     er_finished = pl_finished p, er_arrival_price = pl_arrival_price p\<rparr>"

record Executor =
  ex_algorithm :: "ExecutionAlgorithm option"
  ex_plans :: "(OrderId, ExecutionPlan) omap"
  ex_child_to_parent :: "(OrderId, OrderId) omap"
  ex_stats :: ExecutionStatistics
  ex_emitted_hash :: "64 word"

definition fnv_offset :: "64 word" where
  "fnv_offset = 0xcbf29ce484222325"

definition new_executor :: "ExecutionAlgorithm option \<Rightarrow> Executor" where
  "new_executor a = \<lparr>ex_algorithm = a, ex_plans = [], ex_child_to_parent = [], ex_stats = no_statistics,
     ex_emitted_hash = fnv_offset\<rparr>"

datatype executor_error = ExecutorHasNoAlgorithm | ExecutionNeedsParent | DuplicateExecution OrderId
  | FromAlgorithm algo_error | InvalidChild | ChildOrderRefused order_error | ChildSubmitRefused engine_error
  | FillWithoutExecution OrderId | FillUnknownExecution OrderId | FillWithoutQuantity
  | CancelUnknownExecution | ExecutionAlreadyTerminal ExecutionState

abbreviation with_exec_stats :: "(ExecutionStatistics \<Rightarrow> ExecutionStatistics) \<Rightarrow> Executor \<Rightarrow> Executor" where
  "with_exec_stats g ex \<equiv> ex\<lparr>ex_stats := g (ex_stats ex)\<rparr>"

section \<open>The determinism hash\<close>

text \<open>
  The hash reads the object representation of what was sent: two's complement integers and IEEE 754
  doubles, in little-endian byte order. A quantity or price that reaches it is finite.
\<close>

definition f64_bits :: "f64 \<Rightarrow> int" where
  "f64_bits x = (case x of
       NaN \<Rightarrow> 0x7FF8000000000000 | PInf \<Rightarrow> 0x7FF0000000000000 | NInf \<Rightarrow> 0xFFF0000000000000
     | NZero \<Rightarrow> 0x8000000000000000
     | Fin r \<Rightarrow> (if r = 0 then 0
         else (if r < 0 then 0x8000000000000000 else 0) + \<lfloor>\<bar>r\<bar> * 2 powi (- uexp r)\<rfloor> + (uexp r + 1074) * 2 ^ 52))"

fun bytes_le :: "nat \<Rightarrow> int \<Rightarrow> int list" where
  "bytes_le 0 n = []"
| "bytes_le (Suc k) n = (n mod 256) # bytes_le k (n div 256)"

definition hash_bytes :: "int list \<Rightarrow> 64 word \<Rightarrow> 64 word" where
  "hash_bytes bs h = fold (\<lambda>b h. (h XOR word_of_int b) * 0x100000001b3) bs h"

fun order_type_code :: "OrderType \<Rightarrow> int" where
  "order_type_code Market = 0"
| "order_type_code Limit = 1"
| "order_type_code Stop = 2"
| "order_type_code StopLimit = 3"

definition hash_child :: "Timestamp \<Rightarrow> ChildOrder \<Rightarrow> 64 word \<Rightarrow> 64 word" where
  "hash_child now ch h0 =
     (let h1 = hash_bytes (bytes_le 8 now) h0;
          h2 = hash_bytes (bytes_le 4 (uint (cd_instrument ch))) h1;
          h3 = hash_bytes (bytes_le 8 (f64_bits (cd_quantity ch))) h2;
          h4 = hash_bytes (bytes_le 1 (order_type_code (cd_type ch))) h3 in
      case cd_limit_price ch of None \<Rightarrow> h4 | Some px \<Rightarrow> hash_bytes (bytes_le 8 (f64_bits px)) h4)"

section \<open>Operations\<close>

definition executor_submit ::
    "ExecutionRequest \<Rightarrow> OrderId \<Rightarrow> Price \<Rightarrow> Executor \<Rightarrow> (executor_error, bool) result \<times> Executor" where
  "executor_submit r parent_id arrival ex =
     (case ex_algorithm ex of
        None \<Rightarrow> (Err ExecutorHasNoAlgorithm, ex)
      | Some a \<Rightarrow>
          if parent_id = kNoOrder then (Err ExecutionNeedsParent, ex)
          else if om_contains (ex_plans ex) parent_id then (Err (DuplicateExecution parent_id), ex)
          else (case request_validate r of
              Inl e \<Rightarrow> (Err (FromAlgorithm e), ex)
            | Inr _ \<Rightarrow>
                (case alg_plan a r of
                   Inl e \<Rightarrow> (Err (FromAlgorithm e), ex)
                 | Inr schedule \<Rightarrow>
                     (let plan = \<lparr>pl_parent_id = parent_id, pl_request = r, pl_schedule = schedule,
                            pl_progress = fresh_progress\<lparr>pg_remaining := ord_quantity (rq_parent r)\<rparr>,
                            pl_state = ExecPending, pl_started = rq_window_begin r, pl_finished = kNoTimestamp,
                            pl_arrival_price = arrival, pl_children = [], pl_working_child = None\<rparr> in
                      (Ok True, with_exec_stats (\<lambda>s. s\<lparr>xs_started := xs_started s + 1\<rparr>)
                         (ex\<lparr>ex_plans := om_put parent_id plan (ex_plans ex)\<rparr>))))))"

text \<open>The order of a child: its decision instant is now, its parent the execution's.\<close>

definition child_order :: "ChildOrder \<Rightarrow> OrderId \<Rightarrow> OrderId \<Rightarrow> Timestamp \<Rightarrow> (order_error, Order) result" where
  "child_order ch child_id parent_id now =
     (let tms = no_times\<lparr>decision_time := now\<rparr> in
      case cd_type ch of
        Market \<Rightarrow> order_market child_id (cd_instrument ch) (cd_side ch) (cd_quantity ch) tms (cd_tif ch) parent_id
      | Limit \<Rightarrow> order_limit child_id (cd_instrument ch) (cd_side ch) (cd_quantity ch)
          (the (cd_limit_price ch)) tms (cd_tif ch) parent_id
      | Stop \<Rightarrow> order_stop child_id (cd_instrument ch) (cd_side ch) (cd_quantity ch)
          (the (cd_stop_price ch)) tms (cd_tif ch) parent_id
      | StopLimit \<Rightarrow> order_stop_limit child_id (cd_instrument ch) (cd_side ch) (cd_quantity ch)
          (the (cd_stop_price ch)) (the (cd_limit_price ch)) tms (cd_tif ch) parent_id)"

definition emit_child ::
    "'w OrderSink \<Rightarrow> ChildOrder \<Rightarrow> Timestamp \<Rightarrow> ExecutionPlan \<Rightarrow> Executor \<Rightarrow> 'w
      \<Rightarrow> ((executor_error, OrderId) result \<times> ExecutionPlan \<times> Executor \<times> 'w) option" where
  "emit_child sink ch now plan ex w =
     (if \<not> child_valid ch then Some (Err InvalidChild, plan, ex, w)
      else
        (let (child_id, w1) = os_next_order_id sink w in
         case child_order ch child_id (pl_parent_id plan) now of
           Inl e \<Rightarrow> Some (Err (ChildOrderRefused e), plan, ex, w1)
         | Inr o1 \<Rightarrow>
             (case os_submit sink (with_arrival_price (pl_arrival_price plan) o1) w1 of
                None \<Rightarrow> None
              | Some (Inl e, w2) \<Rightarrow>
                  Some (Err (ChildSubmitRefused e), plan,
                    with_exec_stats (\<lambda>s. s\<lparr>xs_children_rejected := xs_children_rejected s + 1\<rparr>) ex, w2)
              | Some (Inr _, w2) \<Rightarrow>
                  Some (Ok child_id,
                    plan\<lparr>pl_children := pl_children plan @ [child_id], pl_working_child := Some child_id,
                         pl_progress := (pl_progress plan)\<lparr>pg_slices_released :=
                           pg_slices_released (pl_progress plan) + 1\<rparr>\<rparr>,
                    (with_exec_stats (\<lambda>s. s\<lparr>xs_children_emitted := xs_children_emitted s + 1\<rparr>) ex)
                      \<lparr>ex_child_to_parent := om_put child_id (pl_parent_id plan) (ex_child_to_parent ex),
                       ex_emitted_hash := hash_child now ch (ex_emitted_hash ex)\<rparr>, w2))))"

text \<open>One turn of the loop of \<open>on_market\<close>: the plan, whether a child went out, the executor, the sink.\<close>

definition visit_plan ::
    "'w OrderSink \<Rightarrow> ExecutionAlgorithm \<Rightarrow> InstrumentId \<Rightarrow> ExecutionContext \<Rightarrow> ExecutionPlan \<Rightarrow> Executor \<Rightarrow> 'w
      \<Rightarrow> (ExecutionPlan \<times> bool \<times> Executor \<times> 'w) option" where
  "visit_plan sink a instrument ctx plan ex w =
     (if exec_is_terminal (pl_state plan) then Some (plan, False, ex, w)
      else if ord_instrument (rq_parent (pl_request plan)) \<noteq> instrument then Some (plan, False, ex, w)
      else if progress_complete (ord_quantity (rq_parent (pl_request plan))) (pl_progress plan) then
        Some (plan\<lparr>pl_state := ExecCompleted, pl_finished := xc_now ctx\<rparr>, False,
          with_exec_stats (\<lambda>s. s\<lparr>xs_completed := xs_completed s + 1\<rparr>) ex, w)
      else if pl_working_child plan \<noteq> None then Some (plan, False, ex, w)
      else (case alg_next_child a (pl_request plan) (pl_schedule plan) (pl_progress plan) ctx of
          None \<Rightarrow> Some (plan, False, ex, w)
        | Some ch \<Rightarrow>
            (case emit_child sink ch (xc_now ctx) plan ex w of
               None \<Rightarrow> None
             | Some (Inl _, plan1, ex1, w1) \<Rightarrow> Some (plan1, False, ex1, w1)
             | Some (Inr _, plan1, ex1, w1) \<Rightarrow> Some (plan1\<lparr>pl_state := ExecWorking\<rparr>, True, ex1, w1))))"

fun market_loop ::
    "'w OrderSink \<Rightarrow> ExecutionAlgorithm \<Rightarrow> InstrumentId \<Rightarrow> ExecutionContext \<Rightarrow> (OrderId, ExecutionPlan) omap
      \<Rightarrow> nat \<Rightarrow> Executor \<Rightarrow> 'w \<Rightarrow> ((OrderId, ExecutionPlan) omap \<times> nat \<times> Executor \<times> 'w) option" where
  "market_loop sink a instrument ctx [] n ex w = Some ([], n, ex, w)"
| "market_loop sink a instrument ctx ((k, plan) # ps) n ex w =
     (case visit_plan sink a instrument ctx plan ex w of
        None \<Rightarrow> None
      | Some (plan1, sent, ex1, w1) \<Rightarrow>
          (case market_loop sink a instrument ctx ps (if sent then n + 1 else n) ex1 w1 of
             None \<Rightarrow> None
           | Some (ps1, n1, ex2, w2) \<Rightarrow> Some ((k, plan1) # ps1, n1, ex2, w2)))"

definition executor_on_market ::
    "'w OrderSink \<Rightarrow> InstrumentId \<Rightarrow> ExecutionContext \<Rightarrow> Executor \<Rightarrow> 'w
      \<Rightarrow> ((executor_error, nat) result \<times> Executor \<times> 'w) option" where
  "executor_on_market sink instrument ctx ex w =
     (case ex_algorithm ex of
        None \<Rightarrow> Some (Err ExecutorHasNoAlgorithm, ex, w)
      | Some a \<Rightarrow>
          (case market_loop sink a instrument ctx (ex_plans ex) 0 ex w of
             None \<Rightarrow> None
           | Some (ps, n, ex1, w1) \<Rightarrow> Some (Ok n, ex1\<lparr>ex_plans := ps\<rparr>, w1)))"

definition book_child_fill :: "Fill \<Rightarrow> ExecutionPlan \<Rightarrow> ExecutionPlan" where
  "book_child_fill f plan =
     (let p = pl_progress plan; filled = fadd (pg_filled p) (f_quantity f) in
      plan\<lparr>pl_progress := p\<lparr>pg_filled := filled,
             pg_remaining := fmax fzero (fsub (ord_quantity (rq_parent (pl_request plan))) filled),
             pg_filled_notional := fadd (pg_filled_notional p) (fmul (f_price f) (f_quantity f)),
             pg_costs := fadd (pg_costs p) (fill_total_cost f),
             pg_slices_filled := pg_slices_filled p + 1\<rparr>,
           pl_working_child := (if pl_working_child plan = Some (f_order_id f) then None
                                else pl_working_child plan)\<rparr>)"

definition fill_parent :: "Fill \<Rightarrow> Executor \<Rightarrow> OrderId option" where
  "fill_parent f ex =
     (if f_parent_id f = 0 then om_find (ex_child_to_parent ex) (f_order_id f) else Some (f_parent_id f))"

definition executor_on_fill :: "Fill \<Rightarrow> Executor \<Rightarrow> (executor_error, bool) result \<times> Executor" where
  "executor_on_fill f ex =
     (case fill_parent f ex of
        None \<Rightarrow> (Err (FillWithoutExecution (f_order_id f)), ex)
      | Some k \<Rightarrow>
          (case om_find (ex_plans ex) k of
             None \<Rightarrow> (Err (FillUnknownExecution k), ex)
           | Some plan \<Rightarrow>
               if fle (f_quantity f) fzero then (Err FillWithoutQuantity, ex)
               else
                 (let plan1 = book_child_fill f plan in
                  if progress_complete (ord_quantity (rq_parent (pl_request plan1))) (pl_progress plan1)
                  then (Ok True, with_exec_stats (\<lambda>s. s\<lparr>xs_completed := xs_completed s + 1\<rparr>)
                         (ex\<lparr>ex_plans := om_put k (plan1\<lparr>pl_state := ExecCompleted,
                            pl_finished := fill_time (f_times f)\<rparr>) (ex_plans ex)\<rparr>))
                  else (Ok True, ex\<lparr>ex_plans := om_put k plan1 (ex_plans ex)\<rparr>))))"

text \<open>The answer of the venue to the cancellation of the resting child is ignored.\<close>

definition drop_working_child :: "'w OrderSink \<Rightarrow> ExecutionPlan \<Rightarrow> 'w \<Rightarrow> ExecutionPlan \<times> 'w" where
  "drop_working_child sink plan w =
     (case pl_working_child plan of
        None \<Rightarrow> (plan, w)
      | Some c \<Rightarrow> (plan\<lparr>pl_working_child := None\<rparr>, snd (os_cancel sink c w)))"

definition executor_cancel ::
    "'w OrderSink \<Rightarrow> OrderId \<Rightarrow> Executor \<Rightarrow> 'w \<Rightarrow> (executor_error, bool) result \<times> Executor \<times> 'w" where
  "executor_cancel sink parent_id ex w =
     (case om_find (ex_plans ex) parent_id of
        None \<Rightarrow> (Err CancelUnknownExecution, ex, w)
      | Some plan \<Rightarrow>
          if exec_is_terminal (pl_state plan) then (Err (ExecutionAlreadyTerminal (pl_state plan)), ex, w)
          else
            (let (plan1, w1) = drop_working_child sink plan w in
             (Ok True, with_exec_stats (\<lambda>s. s\<lparr>xs_cancelled := xs_cancelled s + 1\<rparr>)
                (ex\<lparr>ex_plans := om_put parent_id (plan1\<lparr>pl_state := ExecCancelled\<rparr>) (ex_plans ex)\<rparr>), w1)))"

definition expire_plan ::
    "'w OrderSink \<Rightarrow> Timestamp \<Rightarrow> ExecutionPlan \<Rightarrow> 'w \<Rightarrow> ExecutionPlan \<times> bool \<times> 'w" where
  "expire_plan sink now plan w =
     (if exec_is_terminal (pl_state plan) then (plan, False, w)
      else if now < rq_window_end (pl_request plan) then (plan, False, w)
      else (let (plan1, w1) = drop_working_child sink plan w in
            (plan1\<lparr>pl_state := ExecExpired, pl_finished := now\<rparr>, True, w1)))"

fun expire_loop ::
    "'w OrderSink \<Rightarrow> Timestamp \<Rightarrow> (OrderId, ExecutionPlan) omap \<Rightarrow> nat \<Rightarrow> 'w
      \<Rightarrow> (OrderId, ExecutionPlan) omap \<times> nat \<times> 'w" where
  "expire_loop sink now [] n w = ([], n, w)"
| "expire_loop sink now ((k, plan) # ps) n w =
     (let (plan1, hit, w1) = expire_plan sink now plan w;
          (ps1, n1, w2) = expire_loop sink now ps (if hit then n + 1 else n) w1 in
      ((k, plan1) # ps1, n1, w2))"

definition expire_stale :: "'w OrderSink \<Rightarrow> Timestamp \<Rightarrow> Executor \<Rightarrow> 'w \<Rightarrow> nat \<times> Executor \<times> 'w" where
  "expire_stale sink now ex w =
     (let (ps, n, w1) = expire_loop sink now (ex_plans ex) 0 w in
      (n, with_exec_stats (\<lambda>s. s\<lparr>xs_expired := xs_expired s + n\<rparr>) (ex\<lparr>ex_plans := ps\<rparr>), w1))"

definition executor_find :: "OrderId \<Rightarrow> Executor \<Rightarrow> ExecutionPlan option" where
  "executor_find parent_id ex = om_find (ex_plans ex) parent_id"

definition executor_active :: "Executor \<Rightarrow> OrderId list" where
  "executor_active ex = map pl_parent_id (filter (\<lambda>p. \<not> exec_is_terminal (pl_state p)) (om_values (ex_plans ex)))"

definition executor_reset :: "Executor \<Rightarrow> Executor" where
  "executor_reset ex = ex\<lparr>ex_plans := [], ex_child_to_parent := [], ex_stats := no_statistics,
     ex_emitted_hash := fnv_offset\<rparr>"

text \<open>The engine is an order sink.\<close>

definition engine_sink :: "'s Engine OrderSink" where
  "engine_sink = \<lparr>os_submit = sink_submit, os_cancel = sink_cancel, os_next_order_id = sink_next_id\<rparr>"

section \<open>Well-formed executors\<close>

definition plan_wf :: "OrderId \<Rightarrow> ExecutionPlan \<Rightarrow> bool" where
  "plan_wf k p \<longleftrightarrow> pl_parent_id p = k \<and> planned (pl_request p) (pl_schedule p) \<and>
     pl_started p = rq_window_begin (pl_request p) \<and>
     pg_slices_released (pl_progress p) = length (pl_children p) \<and>
     (case pl_working_child p of None \<Rightarrow> True | Some c \<Rightarrow> c \<in> set (pl_children p)) \<and>
     (pl_state p = ExecPending \<longrightarrow> pl_children p = []) \<and>
     (pl_state p \<in> {ExecCancelled, ExecExpired} \<longrightarrow> pl_working_child p = None)"

abbreviation child_count :: "(OrderId, ExecutionPlan) omap \<Rightarrow> nat" where
  "child_count ps \<equiv> sum_list (map (\<lambda>kp. length (pl_children (snd kp))) ps)"

definition executor_wf :: "Executor \<Rightarrow> bool" where
  "executor_wf ex \<longleftrightarrow> om_inv (ex_plans ex) \<and> (\<forall>(k, p) \<in> set (ex_plans ex). plan_wf k p) \<and>
     (\<forall>c k. om_find (ex_child_to_parent ex) c = Some k \<longrightarrow>
        (\<exists>p. (k, p) \<in> set (ex_plans ex) \<and> c \<in> set (pl_children p))) \<and>
     xs_started (ex_stats ex) = length (ex_plans ex) \<and>
     xs_children_emitted (ex_stats ex) = child_count (ex_plans ex)"

text \<open>What may be sent for a plan.\<close>

definition child_permitted :: "InstrumentId \<Rightarrow> ExecutionContext \<Rightarrow> ExecutionPlan \<Rightarrow> Order \<Rightarrow> bool" where
  "child_permitted instrument ctx p o1 \<longleftrightarrow>
     order_valid o1 \<and> ord_parent o1 = pl_parent_id p \<and> ord_arrival_price o1 = pl_arrival_price p \<and>
     ord_instrument o1 = instrument \<and> ord_instrument (rq_parent (pl_request p)) = instrument \<and>
     ord_side o1 = ord_side (rq_parent (pl_request p)) \<and> decision_time (ord_times o1) = xc_now ctx \<and>
     \<not> exec_is_terminal (pl_state p) \<and> pl_working_child p = None \<and>
     \<not> progress_complete (ord_quantity (rq_parent (pl_request p))) (pl_progress p) \<and>
     rq_window_begin (pl_request p) \<le> xc_now ctx \<and> xc_now ctx < rq_window_end (pl_request p) \<and>
     rt_executable (xc_market ctx) \<and>
     (inputs_ok (pl_request p) (pl_schedule p) (pl_progress p) \<longrightarrow>
        fle (ord_quantity o1) (pg_remaining (pl_progress p)))"

subsection \<open>Children become valid orders\<close>

lemma order_make_sel:
  "order_make i ins s q ty l st tm tif par = Ok o1 \<Longrightarrow>
     ord_id o1 = i \<and> ord_instrument o1 = ins \<and> ord_side o1 = s \<and> ord_quantity o1 = q \<and> ord_times o1 = tm \<and>
     ord_parent o1 = par"
  by (auto simp: order_make_def Let_def split: if_splits option.splits)

lemma child_order_sel:
  assumes "child_order ch i par now = Ok o1"
  shows "order_valid o1 \<and> ord_id o1 = i \<and> ord_instrument o1 = cd_instrument ch \<and> ord_side o1 = cd_side ch \<and>
    ord_quantity o1 = cd_quantity ch \<and> decision_time (ord_times o1) = now \<and> ord_parent o1 = par"
  using assms
  by (auto simp: child_order_def Let_def order_market_def order_limit_def order_stop_def order_stop_limit_def
      split: OrderType.splits dest: order_make_sel order_make_valid)

lemma child_order_permitted:
  assumes "execution_algorithm (alg_plan a) (alg_next_child a)"
    and "alg_next_child a (pl_request p) (pl_schedule p) (pl_progress p) ctx = Some ch"
    and "child_valid ch" "child_order ch i (pl_parent_id p) (xc_now ctx) = Ok o1"
    and "\<not> exec_is_terminal (pl_state p)" "pl_working_child p = None"
    and "\<not> progress_complete (ord_quantity (rq_parent (pl_request p))) (pl_progress p)"
  shows "child_permitted (ord_instrument (rq_parent (pl_request p))) ctx p
    (with_arrival_price (pl_arrival_price p) o1)"
proof -
  note shape = execution_algorithm.child_ok [OF assms(1,2)]
  note le = execution_algorithm.valid_child [OF assms(1,2,3)]
  show ?thesis
    using shape le child_order_sel [OF assms(4)] assms(5-7)
    by (auto simp: child_permitted_def child_shape_def releasable_iff with_arrival_price_def order_valid_def)
qed

section \<open>The executor and its sink\<close>

text \<open>
  The contract of a sink: an invariant of its state that every operation keeps, for the orders that are
  allowed.
\<close>

locale guarded_sink =
  fixes sink :: "'w OrderSink" and I :: "'w \<Rightarrow> bool" and allowed :: "Order \<Rightarrow> bool"
  assumes keeps_submit: "allowed o1 \<Longrightarrow> I w \<Longrightarrow> os_submit sink o1 w = Some (r, w1) \<Longrightarrow> I w1"
    and keeps_cancel: "I w \<Longrightarrow> I (snd (os_cancel sink c w))"
    and keeps_next: "I w \<Longrightarrow> I (snd (os_next_order_id sink w))"
begin

lemma emit_keeps:
  assumes "emit_child sink ch now p ex w = Some (r, p1, ex1, w1)" "I w"
    and "\<And>i o1. child_valid ch \<Longrightarrow> child_order ch i (pl_parent_id p) now = Ok o1 \<Longrightarrow>
      allowed (with_arrival_price (pl_arrival_price p) o1)"
  shows "I w1"
proof (cases "child_valid ch")
  case False
  then show ?thesis using assms(1,2) by (simp add: emit_child_def)
next
  case True
  obtain i w2 where i: "os_next_order_id sink w = (i, w2)" by fastforce
  then have "I w2" using keeps_next [OF assms(2)] by simp
  then show ?thesis
    using assms(1) True i keeps_submit [OF assms(3) [OF True]]
    by (auto simp: emit_child_def split: sum.splits option.splits)
qed

lemma visit_keeps:
  assumes "execution_algorithm (alg_plan a) (alg_next_child a)"
    and "visit_plan sink a ins ctx p ex w = Some (p1, sent, ex1, w1)" "I w"
    and "\<And>o1. child_permitted ins ctx p o1 \<Longrightarrow> allowed o1"
  shows "I w1"
proof (cases "exec_is_terminal (pl_state p) \<or> ord_instrument (rq_parent (pl_request p)) \<noteq> ins \<or>
    progress_complete (ord_quantity (rq_parent (pl_request p))) (pl_progress p) \<or> pl_working_child p \<noteq> None \<or>
    alg_next_child a (pl_request p) (pl_schedule p) (pl_progress p) ctx = None")
  case True
  then show ?thesis using assms(2,3) by (auto simp: visit_plan_def split: if_splits)
next
  case False
  then obtain ch where ch: "alg_next_child a (pl_request p) (pl_schedule p) (pl_progress p) ctx = Some ch"
    by auto
  from False have g: "\<not> exec_is_terminal (pl_state p)" "ord_instrument (rq_parent (pl_request p)) = ins"
    "\<not> progress_complete (ord_quantity (rq_parent (pl_request p))) (pl_progress p)" "pl_working_child p = None"
    by auto
  from assms(2) g ch obtain r p2 where "emit_child sink ch (xc_now ctx) p ex w = Some (r, p2, ex1, w1)"
    by (auto simp: visit_plan_def split: option.splits sum.splits)
  then show ?thesis
    using emit_keeps [OF _ assms(3)] child_order_permitted [OF assms(1) ch _ _ g(1,4,3)] assms(4) g(2)
    by blast
qed

lemma market_keeps:
  assumes "execution_algorithm (alg_plan a) (alg_next_child a)"
    and "market_loop sink a ins ctx ps n ex w = Some (ps1, n1, ex1, w1)" "I w"
    and "\<And>k p o1. (k, p) \<in> set ps \<Longrightarrow> child_permitted ins ctx p o1 \<Longrightarrow> allowed o1"
  shows "I w1"
  using assms(2-4)
proof (induction ps arbitrary: n ex w ps1)
  case (Cons kp ps)
  obtain k p where kp: "kp = (k, p)" by fastforce
  from Cons.prems(1) obtain p1 sent ex2 w2 n2 ps2 where
    v: "visit_plan sink a ins ctx p ex w = Some (p1, sent, ex2, w2)"
    and l: "market_loop sink a ins ctx ps n2 ex2 w2 = Some (ps2, n1, ex1, w1)"
    by (auto simp: kp split: option.splits if_splits)
  have "I w2" by (rule visit_keeps [OF assms(1) v Cons.prems(2)]) (use Cons.prems(3) kp in auto)
  then show ?case by (rule Cons.IH [OF l]) (use Cons.prems(3) in auto)
qed simp

lemma drop_keeps: "I w \<Longrightarrow> I (snd (drop_working_child sink p w))"
  using keeps_cancel by (simp add: drop_working_child_def split: option.splits)

lemma cancel_keeps: "I w \<Longrightarrow> executor_cancel sink k ex w = (r, ex1, w1) \<Longrightarrow> I w1"
  using drop_keeps by (auto simp: executor_cancel_def case_prod_beta split: option.splits if_splits)

lemma expire_keeps: "I w \<Longrightarrow> I (snd (snd (expire_loop sink now ps n w)))"
proof (induction ps arbitrary: n w)
  case (Cons kp ps)
  obtain k p where kp: "kp = (k, p)" by fastforce
  have "I (snd (snd (expire_plan sink now p w)))"
    using Cons.prems drop_keeps by (simp add: expire_plan_def case_prod_beta)
  then show ?case using Cons.IH by (simp add: kp Let_def case_prod_beta)
qed simp

end

section \<open>Every operation keeps the executor well formed\<close>

text \<open>How one visit moves the plan and the executor.\<close>

definition visited :: "OrderId \<Rightarrow> ExecutionPlan \<Rightarrow> Executor \<Rightarrow> ExecutionPlan \<Rightarrow> Executor \<Rightarrow> bool" where
  "visited k p ex p1 ex1 \<longleftrightarrow> plan_wf k p1 \<and> ex_plans ex1 = ex_plans ex \<and>
     xs_started (ex_stats ex1) = xs_started (ex_stats ex) \<and>
     xs_children_emitted (ex_stats ex1) + length (pl_children p) =
       xs_children_emitted (ex_stats ex) + length (pl_children p1) \<and>
     set (pl_children p) \<subseteq> set (pl_children p1) \<and>
     (\<forall>c j. om_find (ex_child_to_parent ex1) c = Some j \<longrightarrow>
        om_find (ex_child_to_parent ex) c = Some j \<or> (j = k \<and> c \<in> set (pl_children p1)))"

lemma emit_child_cases:
  assumes "emit_child sink ch now p ex w = Some (r, p1, ex1, w1)"
  obtains (refused) e where "r = Inl e" "p1 = p" "ex_plans ex1 = ex_plans ex"
      "ex_child_to_parent ex1 = ex_child_to_parent ex" "ex_algorithm ex1 = ex_algorithm ex"
      "xs_started (ex_stats ex1) = xs_started (ex_stats ex)"
      "xs_children_emitted (ex_stats ex1) = xs_children_emitted (ex_stats ex)"
    | (sent) c where "r = Inr c" "p1 = p\<lparr>pl_children := pl_children p @ [c], pl_working_child := Some c,
        pl_progress := (pl_progress p)\<lparr>pg_slices_released := pg_slices_released (pl_progress p) + 1\<rparr>\<rparr>"
      "ex_plans ex1 = ex_plans ex" "ex_algorithm ex1 = ex_algorithm ex"
      "ex_child_to_parent ex1 = om_put c (pl_parent_id p) (ex_child_to_parent ex)"
      "xs_started (ex_stats ex1) = xs_started (ex_stats ex)"
      "xs_children_emitted (ex_stats ex1) = xs_children_emitted (ex_stats ex) + 1"
proof -
  obtain i w2 where i: "os_next_order_id sink w = (i, w2)" by fastforce
  show thesis
  proof (cases "child_valid ch")
    case False
    show thesis by (rule refused) (use assms False in \<open>auto simp: emit_child_def\<close>)
  next
    case valid: True
    show thesis
    proof (cases "child_order ch i (pl_parent_id p) now")
      case (Inl e)
      show thesis by (rule refused) (use assms valid i Inl in \<open>auto simp: emit_child_def\<close>)
    next
      case (Inr o1)
      show thesis
      proof (cases "os_submit sink (with_arrival_price (pl_arrival_price p) o1) w2")
        case None
        then show thesis using assms valid i Inr by (simp add: emit_child_def)
      next
        case (Some rw)
        obtain res w3 where rw: "rw = (res, w3)" by fastforce
        show thesis
        proof (cases res)
          case (Inl e)
          show thesis
            by (rule refused) (use assms valid i \<open>child_order ch i _ now = Inr o1\<close> Some rw Inl in
                \<open>auto simp: emit_child_def\<close>)
        next
          case (Inr oid)
          show thesis
            by (rule sent) (use assms valid i \<open>child_order ch i _ now = Inr o1\<close> Some rw Inr in
                \<open>auto simp: emit_child_def\<close>)
        qed
      qed
    qed
  qed
qed

lemma visit_visited:
  assumes wf: "plan_wf k p" and v: "visit_plan sink a ins ctx p ex w = Some (p1, sent, ex1, w1)"
  shows "visited k p ex p1 ex1"
proof -
  consider "p1 = p" "ex1 = ex"
    | "p1 = p\<lparr>pl_state := ExecCompleted, pl_finished := xc_now ctx\<rparr>"
      "ex1 = with_exec_stats (\<lambda>s. s\<lparr>xs_completed := xs_completed s + 1\<rparr>) ex"
    | ch r p2 where "emit_child sink ch (xc_now ctx) p ex w = Some (r, p2, ex1, w1)"
      "p1 = (case r of Inl _ \<Rightarrow> p2 | Inr _ \<Rightarrow> p2\<lparr>pl_state := ExecWorking\<rparr>)"
    using v by (auto simp: visit_plan_def split: if_splits option.splits sum.splits)
  then show ?thesis
  proof cases
    case 3
    from 3(1) show ?thesis
    proof (cases rule: emit_child_cases)
      case refused
      then show ?thesis using wf 3(2) by (simp add: visited_def)
    next
      case (sent c)
      then show ?thesis
        using wf 3(2) by (auto simp: visited_def plan_wf_def omap_simps)
    qed
  qed (use wf in \<open>auto simp: visited_def plan_wf_def split: option.splits\<close>)
qed

lemma market_loop_wf:
  assumes "market_loop sink a ins ctx ps n ex w = Some (ps1, n1, ex1, w1)" "\<forall>(k, p) \<in> set ps. plan_wf k p"
  shows "map fst ps1 = map fst ps \<and> (\<forall>(k, p) \<in> set ps1. plan_wf k p) \<and> ex_plans ex1 = ex_plans ex \<and>
    xs_started (ex_stats ex1) = xs_started (ex_stats ex) \<and>
    xs_children_emitted (ex_stats ex1) + child_count ps = xs_children_emitted (ex_stats ex) + child_count ps1 \<and>
    (\<forall>(k, p) \<in> set ps. \<exists>p1. (k, p1) \<in> set ps1 \<and> set (pl_children p) \<subseteq> set (pl_children p1)) \<and>
    (\<forall>c j. om_find (ex_child_to_parent ex1) c = Some j \<longrightarrow> om_find (ex_child_to_parent ex) c = Some j \<or>
       (\<exists>p1. (j, p1) \<in> set ps1 \<and> c \<in> set (pl_children p1)))"
  using assms
proof (induction ps arbitrary: n ex w ps1)
  case (Cons kp ps)
  obtain k p where kp: "kp = (k, p)" by fastforce
  from Cons.prems(1) obtain p1 sent ex2 w2 n2 ps2 where
    v: "visit_plan sink a ins ctx p ex w = Some (p1, sent, ex2, w2)" and ps1: "ps1 = (k, p1) # ps2"
    and l: "market_loop sink a ins ctx ps n2 ex2 w2 = Some (ps2, n1, ex1, w1)"
    by (auto simp: kp split: option.splits if_splits)
  have vis: "visited k p ex p1 ex2" by (rule visit_visited [OF _ v]) (use Cons.prems(2) kp in simp)
  have wf: "\<forall>(k, p) \<in> set ps. plan_wf k p" using Cons.prems(2) by simp
  note IH = Cons.IH [OF l wf]
  have attributed: "\<forall>c j. om_find (ex_child_to_parent ex1) c = Some j \<longrightarrow>
      om_find (ex_child_to_parent ex) c = Some j \<or> (\<exists>q. (j, q) \<in> set ps1 \<and> c \<in> set (pl_children q))"
  proof (intro allI impI)
    fix c j
    assume "om_find (ex_child_to_parent ex1) c = Some j"
    then consider "om_find (ex_child_to_parent ex2) c = Some j"
      | "\<exists>q. (j, q) \<in> set ps2 \<and> c \<in> set (pl_children q)"
      using IH by blast
    then show "om_find (ex_child_to_parent ex) c = Some j \<or> (\<exists>q. (j, q) \<in> set ps1 \<and> c \<in> set (pl_children q))"
    proof cases
      case 1
      then show ?thesis using vis ps1 by (auto simp: visited_def)
    next
      case 2
      then show ?thesis using ps1 by auto
    qed
  qed
  show ?case
    using IH vis attributed by (auto simp: visited_def kp ps1)
qed simp

lemma om_put_replace:
  "om_inv m \<Longrightarrow> om_find m k = Some v0 \<Longrightarrow> g v = g v0 \<Longrightarrow>
     map fst (om_put k v m) = map fst m \<and> map (\<lambda>kv. g (snd kv)) (om_put k v m) = map (\<lambda>kv. g (snd kv)) m"
proof (induction m)
  case (Cons jw m)
  obtain j w where jw: "jw = (j, w)" by fastforce
  have "k \<le> j \<Longrightarrow> j = k"
    using Cons.prems(1,2) om_find_in [of m k v0] by (force simp: jw om_find_Cons split: if_splits)
  then show ?case
    using Cons by (auto simp: jw om_find_Cons not_less split: if_splits)
qed simp

lemma om_put_fresh:
  "om_find m k = None \<Longrightarrow> length (om_put k v m) = Suc (length m) \<and>
     sum_list (map (\<lambda>kv. g (snd kv) :: nat) (om_put k v m)) = g v + sum_list (map (\<lambda>kv. g (snd kv)) m)"
  by (induction m) (auto simp: om_find_Cons split: if_splits)

lemma executor_wf_replace:
  assumes wf: "executor_wf ex" and find: "om_find (ex_plans ex) k = Some p" and p1: "plan_wf k p1"
    and same: "pl_children p1 = pl_children p"
    and st: "xs_started s = xs_started (ex_stats ex)" "xs_children_emitted s = xs_children_emitted (ex_stats ex)"
  shows "executor_wf (ex\<lparr>ex_plans := om_put k p1 (ex_plans ex), ex_stats := s\<rparr>)"
proof -
  let ?ps = "ex_plans ex"
  have inv: "om_inv ?ps" using wf by (simp add: executor_wf_def)
  have "map fst (om_put k p1 ?ps) = map fst ?ps" "child_count (om_put k p1 ?ps) = child_count ?ps"
    using om_put_replace [OF inv find, of "\<lambda>p. length (pl_children p)" p1] same by simp_all
  then have "length (om_put k p1 ?ps) = length ?ps" by (metis length_map)
  moreover have mem: "(j, q) \<in> set (om_put k p1 ?ps) \<longleftrightarrow> (if j = k then q = p1 else (j, q) \<in> set ?ps)" for j q
    using om_in_put [OF inv] by (auto simp: split: if_splits)
  moreover have "c \<in> set (pl_children p1)" if "(k, q) \<in> set ?ps" "c \<in> set (pl_children q)" for c q
    using om_in_find [OF inv that(1)] find that(2) same by simp
  ultimately show ?thesis
    using wf p1 st \<open>child_count (om_put k p1 ?ps) = child_count ?ps\<close>
    unfolding executor_wf_def by (auto split: if_splits) metis+
qed

lemma find_plan_wf: "executor_wf ex \<Longrightarrow> om_find (ex_plans ex) k = Some p \<Longrightarrow> plan_wf k p"
  using om_find_in by (fastforce simp: executor_wf_def)

lemma new_executor_wf: "executor_wf (new_executor a)"
  by (simp add: executor_wf_def new_executor_def no_statistics_def)

lemma reset_wf: "executor_wf (executor_reset ex)"
  by (simp add: executor_wf_def executor_reset_def no_statistics_def)

lemma submit_wf:
  assumes "ex_algorithm ex = Some a" "execution_algorithm (alg_plan a) (alg_next_child a)" "executor_wf ex"
  shows "executor_wf (snd (executor_submit r k px ex))"
proof -
  have "snd (executor_submit r k px ex) = ex \<or> (\<exists>s. om_find (ex_plans ex) k = None \<and> alg_plan a r = Ok s \<and>
      snd (executor_submit r k px ex) = with_exec_stats (\<lambda>s. s\<lparr>xs_started := xs_started s + 1\<rparr>)
         (ex\<lparr>ex_plans := om_put k \<lparr>pl_parent_id = k, pl_request = r, pl_schedule = s,
            pl_progress = fresh_progress\<lparr>pg_remaining := ord_quantity (rq_parent r)\<rparr>,
            pl_state = ExecPending, pl_started = rq_window_begin r, pl_finished = kNoTimestamp,
            pl_arrival_price = px, pl_children = [], pl_working_child = None\<rparr> (ex_plans ex)\<rparr>))"
    using assms(1) by (simp add: executor_submit_def om_contains_def Let_def split: sum.split)
  then consider "snd (executor_submit r k px ex) = ex"
    | s where "om_find (ex_plans ex) k = None" "alg_plan a r = Ok s"
      "snd (executor_submit r k px ex) = with_exec_stats (\<lambda>s. s\<lparr>xs_started := xs_started s + 1\<rparr>)
         (ex\<lparr>ex_plans := om_put k \<lparr>pl_parent_id = k, pl_request = r, pl_schedule = s,
            pl_progress = fresh_progress\<lparr>pg_remaining := ord_quantity (rq_parent r)\<rparr>,
            pl_state = ExecPending, pl_started = rq_window_begin r, pl_finished = kNoTimestamp,
            pl_arrival_price = px, pl_children = [], pl_working_child = None\<rparr> (ex_plans ex)\<rparr>)"
    by blast
  then show ?thesis
  proof cases
    case (2 s)
    let ?p = "\<lparr>pl_parent_id = k, pl_request = r, pl_schedule = s,
            pl_progress = fresh_progress\<lparr>pg_remaining := ord_quantity (rq_parent r)\<rparr>,
            pl_state = ExecPending, pl_started = rq_window_begin r, pl_finished = kNoTimestamp,
            pl_arrival_price = px, pl_children = [], pl_working_child = None\<rparr>"
    have inv: "om_inv (ex_plans ex)" using assms(3) by (simp add: executor_wf_def)
    have wf: "plan_wf k ?p"
      using execution_algorithm.plan_ok [OF assms(2) 2(2)] by (simp add: plan_wf_def fresh_progress_def)
    have none: "(k, q) \<notin> set (ex_plans ex)" for q
      using om_in_find [OF inv, of k q] 2(1) by auto
    have "(j, q) \<in> set (om_put k ?p (ex_plans ex)) \<longleftrightarrow> (if j = k then q = ?p else (j, q) \<in> set (ex_plans ex))" for j q
      using om_in_put [OF inv] by (auto split: if_splits)
    then show ?thesis
      using assms(3) wf none inv om_put_fresh [OF 2(1), of ?p "\<lambda>p. length (pl_children p)"]
      unfolding 2(3) executor_wf_def by (auto split: if_splits) metis+
  qed (use assms(3) in simp)
qed

lemma market_wf:
  assumes "executor_on_market sink ins ctx ex w = Some (r, ex1, w1)" "executor_wf ex"
  shows "executor_wf ex1"
proof (cases "ex_algorithm ex")
  case None
  then show ?thesis using assms by (simp add: executor_on_market_def)
next
  case (Some a)
  with assms(1) obtain ps n ex2 where l: "market_loop sink a ins ctx (ex_plans ex) 0 ex w = Some (ps, n, ex2, w1)"
    and ex1: "ex1 = ex2\<lparr>ex_plans := ps\<rparr>"
    by (auto simp: executor_on_market_def split: option.splits)
  have wf: "\<forall>(k, p) \<in> set (ex_plans ex). plan_wf k p" using assms(2) by (simp add: executor_wf_def)
  note eff = market_loop_wf [OF l wf]
  have attributed: "\<exists>p. (k, p) \<in> set ps \<and> c \<in> set (pl_children p)"
    if "om_find (ex_child_to_parent ex2) c = Some k" for c k
  proof (cases "om_find (ex_child_to_parent ex) c = Some k")
    case True
    then obtain p where "(k, p) \<in> set (ex_plans ex)" "c \<in> set (pl_children p)"
      using assms(2) unfolding executor_wf_def by blast
    then show ?thesis using eff by blast
  next
    case False
    then show ?thesis using eff that by blast
  qed
  have "om_inv ps" "length ps = length (ex_plans ex)"
    using eff assms(2) by (simp_all add: executor_wf_def om_inv_def) (metis length_map)
  then show ?thesis
    using eff attributed assms(2) by (simp add: executor_wf_def ex1)
qed

lemma fill_effect:
  "snd (executor_on_fill f ex) = ex \<or>
   (\<exists>k p. om_find (ex_plans ex) k = Some p \<and> (snd (executor_on_fill f ex) =
        with_exec_stats (\<lambda>s. s\<lparr>xs_completed := xs_completed s + 1\<rparr>) (ex\<lparr>ex_plans :=
          om_put k ((book_child_fill f p)\<lparr>pl_state := ExecCompleted, pl_finished := fill_time (f_times f)\<rparr>)
            (ex_plans ex)\<rparr>) \<or>
      snd (executor_on_fill f ex) =
        ex\<lparr>ex_plans := om_put k (book_child_fill f p) (ex_plans ex), ex_stats := ex_stats ex\<rparr>))"
  by (simp add: executor_on_fill_def Let_def split: option.split) blast

lemma fill_wf:
  assumes "executor_wf ex" shows "executor_wf (snd (executor_on_fill f ex))"
proof -
  consider "snd (executor_on_fill f ex) = ex"
    | k p where "om_find (ex_plans ex) k = Some p" "snd (executor_on_fill f ex) =
        with_exec_stats (\<lambda>s. s\<lparr>xs_completed := xs_completed s + 1\<rparr>) (ex\<lparr>ex_plans :=
          om_put k ((book_child_fill f p)\<lparr>pl_state := ExecCompleted, pl_finished := fill_time (f_times f)\<rparr>)
            (ex_plans ex)\<rparr>)"
    | k p where "om_find (ex_plans ex) k = Some p" "snd (executor_on_fill f ex) =
        ex\<lparr>ex_plans := om_put k (book_child_fill f p) (ex_plans ex), ex_stats := ex_stats ex\<rparr>"
    using fill_effect [of f ex] by blast
  then show ?thesis
  proof cases
    case (2 k p)
    have "plan_wf k ((book_child_fill f p)\<lparr>pl_state := ExecCompleted, pl_finished := fill_time (f_times f)\<rparr>)"
      using find_plan_wf [OF assms 2(1)] by (auto simp: plan_wf_def book_child_fill_def Let_def split: option.splits)
    from executor_wf_replace [OF assms 2(1) this, of "(ex_stats ex)\<lparr>xs_completed := xs_completed (ex_stats ex) + 1\<rparr>"]
    show ?thesis unfolding 2(2) by (simp add: book_child_fill_def Let_def)
  next
    case (3 k p)
    have "plan_wf k (book_child_fill f p)"
      using find_plan_wf [OF assms 3(1)] by (auto simp: plan_wf_def book_child_fill_def Let_def split: option.splits)
    from executor_wf_replace [OF assms 3(1) this, of "ex_stats ex"] show ?thesis
      unfolding 3(2) by (simp add: book_child_fill_def Let_def)
  qed (use assms in simp)
qed

lemma drop_working_child_sel:
  "fst (drop_working_child sink p w) = p\<lparr>pl_working_child := None\<rparr>"
  by (cases p) (auto simp: drop_working_child_def split: option.splits)

lemma dropped_wf: "plan_wf k p \<Longrightarrow> \<not> exec_is_terminal (pl_state p) \<Longrightarrow> st \<noteq> ExecPending \<Longrightarrow>
    plan_wf k (p\<lparr>pl_working_child := None, pl_state := st\<rparr>) \<and>
    plan_wf k (p\<lparr>pl_working_child := None, pl_state := st, pl_finished := now\<rparr>)"
  by (simp add: plan_wf_def)

lemma cancel_effect:
  "fst (snd (executor_cancel sink k ex w)) = ex \<or>
   (\<exists>p. om_find (ex_plans ex) k = Some p \<and> \<not> exec_is_terminal (pl_state p) \<and>
      fst (snd (executor_cancel sink k ex w)) =
        with_exec_stats (\<lambda>s. s\<lparr>xs_cancelled := xs_cancelled s + 1\<rparr>)
          (ex\<lparr>ex_plans := om_put k (p\<lparr>pl_working_child := None, pl_state := ExecCancelled\<rparr>) (ex_plans ex)\<rparr>))"
  by (simp add: executor_cancel_def case_prod_beta Let_def drop_working_child_sel split: option.split)

lemma cancel_wf:
  assumes "executor_wf ex" shows "executor_wf (fst (snd (executor_cancel sink k ex w)))"
proof -
  consider "fst (snd (executor_cancel sink k ex w)) = ex"
    | p where "om_find (ex_plans ex) k = Some p" "\<not> exec_is_terminal (pl_state p)"
      "fst (snd (executor_cancel sink k ex w)) =
        with_exec_stats (\<lambda>s. s\<lparr>xs_cancelled := xs_cancelled s + 1\<rparr>)
          (ex\<lparr>ex_plans := om_put k (p\<lparr>pl_working_child := None, pl_state := ExecCancelled\<rparr>) (ex_plans ex)\<rparr>)"
    using cancel_effect [of sink k ex w] by blast
  then show ?thesis
  proof cases
    case (2 p)
    have "plan_wf k (p\<lparr>pl_working_child := None, pl_state := ExecCancelled\<rparr>)"
      using dropped_wf [OF find_plan_wf [OF assms 2(1)] 2(2)] by simp
    from executor_wf_replace [OF assms 2(1) this, of "(ex_stats ex)\<lparr>xs_cancelled := xs_cancelled (ex_stats ex) + 1\<rparr>"]
    show ?thesis unfolding 2(3) by simp
  qed (use assms in simp)
qed

lemma expire_loop_wf:
  assumes "\<forall>(k, p) \<in> set ps. plan_wf k p"
  shows "map fst (fst (expire_loop sink now ps n w)) = map fst ps \<and>
    (\<forall>(k, p) \<in> set (fst (expire_loop sink now ps n w)). plan_wf k p) \<and>
    child_count (fst (expire_loop sink now ps n w)) = child_count ps \<and>
    (\<forall>(k, p) \<in> set ps. \<exists>q. (k, q) \<in> set (fst (expire_loop sink now ps n w)) \<and> pl_children q = pl_children p)"
  using assms
proof (induction ps arbitrary: n w)
  case (Cons kp ps)
  obtain k p where kp: "kp = (k, p)" by fastforce
  let ?p1 = "fst (expire_plan sink now p w)"
  have "plan_wf k ?p1 \<and> pl_children ?p1 = pl_children p"
    using Cons.prems dropped_wf by (auto simp: kp expire_plan_def case_prod_beta drop_working_child_sel)
  moreover define ps1 where "ps1 = fst (expire_loop sink now ps (if fst (snd (expire_plan sink now p w)) then n + 1 else n)
    (snd (snd (expire_plan sink now p w))))"
  have "fst (expire_loop sink now (kp # ps) n w) = (k, ?p1) # ps1"
    by (simp add: kp Let_def case_prod_beta ps1_def)
  moreover have "map fst ps1 = map fst ps \<and> (\<forall>(k, p) \<in> set ps1. plan_wf k p) \<and> child_count ps1 = child_count ps \<and>
      (\<forall>(k, p) \<in> set ps. \<exists>q. (k, q) \<in> set ps1 \<and> pl_children q = pl_children p)"
    unfolding ps1_def by (rule Cons.IH) (use Cons.prems in simp)
  ultimately show ?case
    by (auto simp: kp)
qed simp

lemma expire_wf:
  assumes "executor_wf ex" shows "executor_wf (fst (snd (expire_stale sink now ex w)))"
proof -
  obtain ps n w1 where l: "expire_loop sink now (ex_plans ex) 0 w = (ps, n, w1)" by (metis prod.collapse)
  have "\<forall>(k, p) \<in> set (ex_plans ex). plan_wf k p" using assms by (simp add: executor_wf_def)
  from expire_loop_wf [OF this, of sink now 0 w] l have eff: "map fst ps = map fst (ex_plans ex)"
    "\<forall>(k, p) \<in> set ps. plan_wf k p" "child_count ps = child_count (ex_plans ex)"
    "\<forall>(k, p) \<in> set (ex_plans ex). \<exists>q. (k, q) \<in> set ps \<and> pl_children q = pl_children p"
    by simp_all
  have "\<exists>q. (k, q) \<in> set ps \<and> c \<in> set (pl_children q)"
    if "om_find (ex_child_to_parent ex) c = Some k" for c k
  proof -
    from that obtain p where "(k, p) \<in> set (ex_plans ex)" "c \<in> set (pl_children p)"
      using assms unfolding executor_wf_def by blast
    then show ?thesis using eff(4) by fastforce
  qed
  moreover have "length ps = length (ex_plans ex)" using eff(1) by (metis length_map)
  moreover have "om_inv ps" using eff(1) assms by (simp add: executor_wf_def om_inv_def)
  ultimately show ?thesis
    using assms l eff(2,3) by (simp add: executor_wf_def expire_stale_def)
qed

section \<open>Runs\<close>

datatype exec_op = OpSubmit ExecutionRequest OrderId Price | OpMarket InstrumentId ExecutionContext
  | OpFill Fill | OpCancel OrderId | OpExpire Timestamp | OpReset

fun exec_step :: "'w OrderSink \<Rightarrow> exec_op \<Rightarrow> Executor \<times> 'w \<Rightarrow> (Executor \<times> 'w) option" where
  "exec_step sink (OpSubmit r k px) (ex, w) = Some (snd (executor_submit r k px ex), w)"
| "exec_step sink (OpMarket ins ctx) (ex, w) = map_option snd (executor_on_market sink ins ctx ex w)"
| "exec_step sink (OpFill f) (ex, w) = Some (snd (executor_on_fill f ex), w)"
| "exec_step sink (OpCancel k) (ex, w) = Some (snd (executor_cancel sink k ex w))"
| "exec_step sink (OpExpire now) (ex, w) = Some (snd (expire_stale sink now ex w))"
| "exec_step sink OpReset (ex, w) = Some (executor_reset ex, w)"

fun exec_run :: "'w OrderSink \<Rightarrow> exec_op list \<Rightarrow> Executor \<times> 'w \<Rightarrow> (Executor \<times> 'w) option" where
  "exec_run sink [] s = Some s"
| "exec_run sink (op # ops) s = (case exec_step sink op s of None \<Rightarrow> None | Some t \<Rightarrow> exec_run sink ops t)"

lemma market_loop_algorithm:
  "market_loop sink a ins ctx ps n ex w = Some (ps1, n1, ex1, w1) \<Longrightarrow> ex_algorithm ex1 = ex_algorithm ex"
proof (induction ps arbitrary: n ex w ps1)
  case (Cons kp ps)
  obtain k p where kp: "kp = (k, p)" by fastforce
  from Cons.prems obtain p1 sent ex2 w2 n2 ps2 where
    v: "visit_plan sink a ins ctx p ex w = Some (p1, sent, ex2, w2)"
    and l: "market_loop sink a ins ctx ps n2 ex2 w2 = Some (ps2, n1, ex1, w1)"
    by (auto simp: kp split: option.splits if_splits)
  have "ex_algorithm ex2 = ex_algorithm ex"
    using v by (auto simp: visit_plan_def split: if_splits option.splits sum.splits elim: emit_child_cases)
  then show ?case using Cons.IH [OF l] by simp
qed simp

lemma exec_step_wf:
  assumes "exec_step sink op (ex, w) = Some (ex1, w1)" "executor_wf ex" "ex_algorithm ex = Some a"
    and "execution_algorithm (alg_plan a) (alg_next_child a)"
  shows "executor_wf ex1 \<and> ex_algorithm ex1 = Some a"
proof (cases op)
  case (OpSubmit r k px)
  then show ?thesis
    using assms submit_wf [OF assms(3,4,2), of r k px]
    by (auto simp: executor_submit_def Let_def split: option.splits if_splits sum.splits)
next
  case (OpMarket ins ctx)
  with assms(1) obtain r where m: "executor_on_market sink ins ctx ex w = Some (r, ex1, w1)" by auto
  then have "ex_algorithm ex1 = Some a"
    using assms(3) by (auto simp: executor_on_market_def split: option.splits dest: market_loop_algorithm)
  then show ?thesis using market_wf [OF m assms(2)] by simp
next
  case (OpFill f)
  then show ?thesis
    using assms(1,3) fill_wf [OF assms(2), of f] fill_effect [of f ex] by auto
next
  case (OpCancel k)
  then have "ex1 = fst (snd (executor_cancel sink k ex w))" using assms(1) by simp
  then show ?thesis
    using assms(3) cancel_wf [OF assms(2), of sink k w] cancel_effect [of sink k ex w] by auto
next
  case (OpExpire now)
  then have "ex1 = fst (snd (expire_stale sink now ex w))" using assms(1) by simp
  then show ?thesis
    using assms(3) expire_wf [OF assms(2), of sink now w] by (simp add: expire_stale_def case_prod_beta)
next
  case OpReset
  then show ?thesis using assms(1,3) reset_wf [of ex] by (auto simp: executor_reset_def)
qed

lemma exec_run_wf:
  "exec_run sink ops (ex, w) = Some (ex1, w1) \<Longrightarrow> executor_wf ex \<Longrightarrow> ex_algorithm ex = Some a \<Longrightarrow>
     execution_algorithm (alg_plan a) (alg_next_child a) \<Longrightarrow> executor_wf ex1"
proof (induction ops arbitrary: ex w)
  case (Cons op ops)
  then obtain ex2 w2 where s: "exec_step sink op (ex, w) = Some (ex2, w2)"
    and r: "exec_run sink ops (ex2, w2) = Some (ex1, w1)" by (auto split: option.splits)
  from exec_step_wf [OF s Cons.prems(2-4)] show ?case using Cons.IH [OF r] Cons.prems(4) by blast
qed simp

text \<open>
  The books of the executor agree in every reachable state, with any built-in algorithm and any sink:
  every plan stands under its own parent id, was planned over its request's window, has as many
  released slices as children, and rests only a child of its own; a child is attributed to the plan it
  belongs to; a cancelled or expired execution rests no child; and the statistics count exactly the
  plans and the children.
\<close>

theorem executor_books_agree:
  assumes "with_defaults = Ok reg" "registry_create nm reg = Ok a"
    and "exec_run sink ops (new_executor (Some a), w) = Some (ex, w1)"
  shows "executor_wf ex"
  using exec_run_wf [OF assms(3) new_executor_wf, of a] default_algorithms assms(1,2)
  by (simp add: with_defaults_registry new_executor_def)

text \<open>
  C7: Every order the executor sends with a built-in algorithm on a market event is one the request permits: a valid
  order that is decided now, on the parent's instrument and side, inside the window of an execution that is neither
  finished nor complete and whose slot for a working child is empty, in an executable market. Where the sizes of the
  execution are finite numbers and its lot is one or none, it is for no more than what remains; with a fractional lot
  the rounding may exceed it. An empty slot is not an empty venue: a partial fill empties it while the rest of that
  child is live. Stated for any property of the sink's state that the sink keeps for permitted orders and while
  drawing ids.
\<close>

theorem executor_sends_only_permitted:
  assumes "with_defaults = Ok reg" "registry_create nm reg = Ok a" "ex_algorithm ex = Some a"
    and "executor_on_market sink ins ctx ex w = Some (r, ex1, w1)"
    and "\<And>p o1 u res v. p \<in> snd ` set (ex_plans ex) \<Longrightarrow> child_permitted ins ctx p o1 \<Longrightarrow> I u \<Longrightarrow>
      os_submit sink o1 u = Some (res, v) \<Longrightarrow> I v"
    and "\<And>u. I u \<Longrightarrow> I (snd (os_next_order_id sink u))" and "I w"
  shows "I w1"
proof -
  let ?allowed = "\<lambda>o1. \<exists>p \<in> snd ` set (ex_plans ex). child_permitted ins ctx p o1"
  let ?sink = "sink\<lparr>os_cancel := \<lambda>c u. (Ok True, u)\<rparr>"
  have sel: "os_submit ?sink = os_submit sink" "os_next_order_id ?sink = os_next_order_id sink" by simp_all
  have emit: "emit_child ?sink ch now p x u = emit_child sink ch now p x u" for ch now p x u
    by (simp only: emit_child_def sel)
  have visit: "visit_plan ?sink a ins ctx p x u = visit_plan sink a ins ctx p x u" for p x u
    by (simp only: visit_plan_def emit)
  have loop: "market_loop ?sink a ins ctx ps n x u = market_loop sink a ins ctx ps n x u" for ps n x u
    by (induction ps arbitrary: n x u) (auto simp: visit split: option.split)
  have laws: "execution_algorithm (alg_plan a) (alg_next_child a)"
    using default_algorithms assms(1,2) by (simp add: with_defaults_registry)
  have sink: "guarded_sink ?sink I ?allowed"
  proof
    show "I v" if "?allowed o1" "I u" "os_submit ?sink o1 u = Some (res, v)" for o1 u res v
      using that(1) assms(5) [OF _ _ that(2)] that(3) unfolding sel by blast
  qed (use assms(6) in simp_all)
  obtain ps n ex2 where "market_loop ?sink a ins ctx (ex_plans ex) 0 ex w = Some (ps, n, ex2, w1)"
    using assms(3,4) by (auto simp: executor_on_market_def loop split: option.splits)
  from guarded_sink.market_keeps [OF sink laws this assms(7)] show ?thesis
    by force
qed

lemma expire_loop_ends:
  "list_all (\<lambda>(k, p). if rq_window_end (pl_request p) \<le> now then exec_is_terminal (pl_state p) else True)
     (fst (expire_loop sink now ps n w)) \<and>
   fst (snd (expire_loop sink now ps n w)) =
     n + length (filter (\<lambda>(k, p). \<not> exec_is_terminal (pl_state p) \<and> rq_window_end (pl_request p) \<le> now) ps) \<and>
   filter (\<lambda>(k, p). now < rq_window_end (pl_request p)) (fst (expire_loop sink now ps n w)) =
     filter (\<lambda>(k, p). now < rq_window_end (pl_request p)) ps"
proof (induction ps arbitrary: n w)
  case (Cons kp ps)
  obtain k p where kp: "kp = (k, p)" by fastforce
  consider "exec_is_terminal (pl_state p)" | "now < rq_window_end (pl_request p)"
    | "\<not> exec_is_terminal (pl_state p)" "rq_window_end (pl_request p) \<le> now" by linarith
  then show ?case
  proof cases
    case 3
    obtain p1 w1 where d: "drop_working_child sink p w = (p1, w1)" by fastforce
    then have "p1 = p\<lparr>pl_working_child := None\<rparr>" using drop_working_child_sel [of sink p w] by simp
    then have e: "expire_plan sink now p w = (p\<lparr>pl_working_child := None, pl_state := ExecExpired, pl_finished := now\<rparr>, True, w1)"
      using 3 d by (simp add: expire_plan_def)
    show ?thesis using Cons.IH [of "n + 1" w1] 3
      by (simp add: kp e case_prod_beta Let_def exec_is_terminal_def)
  qed (use Cons.IH [of n w] in \<open>auto simp: kp expire_plan_def case_prod_beta Let_def\<close>)
qed simp

text \<open>
  C39: No execution outlives its window. Once stale executions are expired, every execution whose window has
  closed is in a terminal state, whatever the venue answers to the cancellation of its resting child;
  the number returned is the number of executions that were still live and past their window, and the
  other plans are untouched.
\<close>

theorem no_execution_outlives_its_window:
  "case expire_stale sink now ex w of (n, ex1, w1) \<Rightarrow>
     list_all (\<lambda>(k, p). if rq_window_end (pl_request p) \<le> now then exec_is_terminal (pl_state p) else True)
       (ex_plans ex1) \<and>
     n = length (filter (\<lambda>(k, p). \<not> exec_is_terminal (pl_state p) \<and> rq_window_end (pl_request p) \<le> now)
       (ex_plans ex)) \<and>
     filter (\<lambda>(k, p). now < rq_window_end (pl_request p)) (ex_plans ex1) =
       filter (\<lambda>(k, p). now < rq_window_end (pl_request p)) (ex_plans ex)"
  using expire_loop_ends [of now sink "ex_plans ex" 0 w]
  by (simp add: expire_stale_def case_prod_beta Let_def)

section \<open>The executor on the engine's sink\<close>


text \<open>What no operation of the engine's sink touches: positions and cash, fills, feed, limits.\<close>

definition same_exposure :: "'s Engine \<Rightarrow> 's Engine \<Rightarrow> bool" where
  "same_exposure e e1 \<longleftrightarrow> en_portfolio e1 = en_portfolio e \<and> same_feed e e1 \<and>
     rm_limits (en_risk e1) = rm_limits (en_risk e) \<and> sum_fills (en_summary e1) = sum_fills (en_summary e) \<and>
     en_turnover_today e1 = en_turnover_today e \<and> en_strategy e1 = en_strategy e"

lemma record_decision_limits: "rm_limits (record_decision d rm) = rm_limits rm"
  by (simp add: record_decision_def Let_def)

lemma sink_submit_exposure: "sink_submit o1 e = Some (r, e1) \<Longrightarrow> same_exposure e e1"
  by (auto simp: sink_submit_def same_exposure_def same_feed_def Let_def record_decision_limits
      split: if_splits sum.splits option.splits prod.splits)

lemma sink_cancel_exposure: "same_exposure e (snd (sink_cancel oid e))"
  by (auto simp: sink_cancel_def same_exposure_def same_feed_def split: sum.split prod.split)

lemma sink_next_exposure: "same_exposure e (snd (sink_next_id e))"
  by (auto simp: sink_next_id_def same_exposure_def same_feed_def case_prod_beta Let_def)

lemma same_exposure_trans: "same_exposure a b \<Longrightarrow> same_exposure b c \<Longrightarrow> same_exposure a c"
  by (auto simp: same_exposure_def intro: same_feed_trans)


lemma same_exposure_self: "same_exposure e e"
  by (simp add: same_exposure_def)




interpretation engine_exposure: guarded_sink engine_sink "same_exposure e0" "\<lambda>_. True" for e0
proof
  fix o1 e r e1
  show "same_exposure e0 e1" if "same_exposure e0 e" "os_submit engine_sink o1 e = Some (r, e1)"
    using same_exposure_trans [OF that(1)] sink_submit_exposure [of o1 e r e1] that(2)
    by (simp add: engine_sink_def)
next
  fix e c
  show "same_exposure e0 e \<Longrightarrow> same_exposure e0 (snd (os_cancel engine_sink c e))"
    using same_exposure_trans [OF _ sink_cancel_exposure] by (simp add: engine_sink_def)
next
  fix e
  show "same_exposure e0 e \<Longrightarrow> same_exposure e0 (snd (os_next_order_id engine_sink e))"
    using same_exposure_trans [OF _ sink_next_exposure] by (simp add: engine_sink_def)
qed

text \<open>Cancelling an execution or expiring the stale ones books nothing either.\<close>

lemma ending_executions_books_nothing:
  "executor_cancel engine_sink k ex e = (r, ex1, e1) \<Longrightarrow> same_exposure e e1"
  "expire_stale engine_sink now ex e = (n, ex2, e2) \<Longrightarrow> same_exposure e e2"
  using engine_exposure.cancel_keeps [OF same_exposure_self [of e]]
    engine_exposure.expire_keeps [OF same_exposure_self [of e]]
  by (auto simp: expire_stale_def case_prod_beta Let_def)


section \<open>Where the executor falls short\<close>

text \<open>
  The comment says a new clip is shown only when the previous one filled, but any fill of the resting
  child frees its slot, a partial one too: the next market event releases another child while the rest
  of the first is still live.
\<close>

lemma partial_fill_frees_the_slot:
  assumes "fill_parent f ex = Some k" "om_find (ex_plans ex) k = Some p" "\<not> fle (f_quantity f) fzero"
    and "pl_working_child p = Some (f_order_id f)"
  shows "\<exists>p1. om_find (ex_plans (snd (executor_on_fill f ex))) k = Some p1 \<and> pl_working_child p1 = None"
  using assms by (simp add: executor_on_fill_def Let_def omap_simps book_child_fill_def)

text \<open>
  A terminal state is not final: a fill that arrives after a cancellation or an expiry turns the
  execution into a completed one, and a completed execution is counted again with every further fill.
\<close>

lemma fill_revives_terminal:
  assumes "fill_parent f ex = Some k" "om_find (ex_plans ex) k = Some p" "\<not> fle (f_quantity f) fzero"
    and "exec_is_terminal (pl_state p)"
    and "progress_complete (ord_quantity (rq_parent (pl_request p))) (pl_progress (book_child_fill f p))"
  shows "\<exists>p1. om_find (ex_plans (snd (executor_on_fill f ex))) k = Some p1 \<and> pl_state p1 = ExecCompleted"
    and "xs_completed (ex_stats (snd (executor_on_fill f ex))) = xs_completed (ex_stats ex) + 1"
proof -
  have "pl_request (book_child_fill f p) = pl_request p" by (simp add: book_child_fill_def Let_def)
  then have "executor_on_fill f ex = (Ok True, with_exec_stats (\<lambda>s. s\<lparr>xs_completed := xs_completed s + 1\<rparr>)
      (ex\<lparr>ex_plans := om_put k ((book_child_fill f p)\<lparr>pl_state := ExecCompleted,
        pl_finished := fill_time (f_times f)\<rparr>) (ex_plans ex)\<rparr>))"
    using assms by (simp add: executor_on_fill_def Let_def)
  then show "\<exists>p1. om_find (ex_plans (snd (executor_on_fill f ex))) k = Some p1 \<and> pl_state p1 = ExecCompleted"
    "xs_completed (ex_stats (snd (executor_on_fill f ex))) = xs_completed (ex_stats ex) + 1"
    by (simp_all add: omap_simps)
qed

section \<open>A sample run\<close>

text \<open>A sink that numbers and keeps every order.\<close>

definition log_sink :: "(OrderId \<times> Order list) OrderSink" where
  "log_sink = \<lparr>os_submit = (\<lambda>o1 (n, os). Some (Ok (ord_id o1), n, os @ [o1])),
     os_cancel = (\<lambda>c w. (Ok True, w)), os_next_order_id = (\<lambda>(n, os). (n, n + 1, os))\<rparr>"

definition sample_plan :: "ExecutionSchedule \<Rightarrow> ExecutionPlan" where
  "sample_plan s = \<lparr>pl_parent_id = 7, pl_request = sample_request, pl_schedule = s,
     pl_progress = fresh_progress\<lparr>pg_remaining := Fin 100\<rparr>, pl_state = ExecPending, pl_started = 100,
     pl_finished = kNoTimestamp, pl_arrival_price = Fin 10, pl_children = [], pl_working_child = None\<rparr>"

definition sample_executor :: "ExecutionSchedule \<Rightarrow> Executor" where
  "sample_executor s = (new_executor (Some ImmediateAlgorithm))\<lparr>ex_plans := [(7, sample_plan s)],
     ex_stats := no_statistics\<lparr>xs_started := 1\<rparr>\<rparr>"

lemma sample_execution:
  "\<exists>s. executor_submit sample_request 7 (Fin 10) (new_executor (Some ImmediateAlgorithm)) = (Ok True, sample_executor s)"
proof -
  have q: "\<not> fle (Fin 100) fzero" by (simp add: f64_eval)
  obtain s where s: "twap (Fin 100) 100 1100 1 = Ok s"
    using q by (simp add: twap_def is_set_def kNoTimestamp_def Let_def)
  then have plan: "immediate_plan sample_request = Ok s"
    using sample_request_valid by (simp add: immediate_plan_def lift_schedule_def
        immediate_def sample_request_def sample_order_def)
  have req: "ord_quantity (rq_parent sample_request) = Fin 100" "rq_window_begin sample_request = 100"
    by (simp_all add: sample_request_def sample_order_def)
  show ?thesis
    using plan sample_request_valid req
    by (auto simp: executor_submit_def new_executor_def kNoOrder_def om_contains_def ImmediateAlgorithm_def
        sample_executor_def sample_plan_def no_statistics_def)
qed

lemma sample_child:
  "alg_next_child ImmediateAlgorithm sample_request s (fresh_progress\<lparr>pg_remaining := Fin 100\<rparr>) (sample_context 600)
     = Some (market_child sample_request (Fin 20) 0)"
proof -
  have rel: "fst (releasable sample_request (sample_context 600) None)"
    by (simp add: releasable_iff sample_request_def sample_context_def default_policy_def is_set_def)
  have "\<not> fle (Fin 20) fzero" by (simp add: f64_eval)
  then show ?thesis
    using sample_caps rel by (simp add: ImmediateAlgorithm_def immediate_next_child_def fresh_progress_def)
qed

lemma sample_market:
  "\<exists>o1 ex1. executor_on_market log_sink 0 (sample_context 600) (sample_executor s) (1, []) = Some (Ok 1, ex1, 2, [o1]) \<and>
     ord_quantity o1 = Fin 20 \<and> decision_time (ord_times o1) = 600"
proof -
  let ?ch = "market_child sample_request (Fin 20) 0"
  have q20: "\<not> fle (Fin 20) fzero" by (simp add: f64_eval)
  have valid: "child_valid ?ch"
    using q20 by (simp add: child_valid_def market_child_def sample_request_def sample_order_def
        kInvalidInstrument_def)
  have chain: "validate_chain (no_times\<lparr>decision_time := 600\<rparr>) = None"
    using sample_times_chain [of 600] by (simp add: sample_times_def is_set_def kNoTimestamp_def)
  obtain o1 where o1: "child_order ?ch 1 7 600 = Ok o1"
    using q20 chain by (simp add: child_order_def order_market_def order_make_def market_child_def sample_request_def
        sample_order_def kInvalidInstrument_def kNoOrder_def is_set_def kNoTimestamp_def)
  have incomplete: "\<not> progress_complete (Fin 100) (fresh_progress\<lparr>pg_remaining := Fin 100\<rparr>)"
    by (simp add: progress_complete_def fresh_progress_def f64_eval)
  have now: "xc_now (sample_context 600) = 600" by (simp add: sample_context_def)
  have parent: "ord_instrument (rq_parent sample_request) = 0" "ord_quantity (rq_parent sample_request) = Fin 100"
    by (simp_all add: sample_request_def sample_order_def)
  have "\<exists>p1 ex1. emit_child log_sink ?ch 600 (sample_plan s) (sample_executor s) (1, []) =
      Some (Ok 1, p1, ex1, 2, [with_arrival_price (Fin 10) o1])"
    using valid o1 by (simp add: emit_child_def log_sink_def sample_plan_def)
  then obtain p1 ex1 where emit: "emit_child log_sink ?ch 600 (sample_plan s) (sample_executor s) (1, []) =
      Some (Ok 1, p1, ex1, 2, [with_arrival_price (Fin 10) o1])" by blast
  have visit: "visit_plan log_sink ImmediateAlgorithm 0 (sample_context 600) (sample_plan s) (sample_executor s) (1, []) =
      Some (p1\<lparr>pl_state := ExecWorking\<rparr>, True, ex1, 2, [with_arrival_price (Fin 10) o1])"
    using emit sample_child [of s] incomplete
    by (simp add: visit_plan_def sample_plan_def exec_is_terminal_def parent now)
  have sel: "ex_algorithm (sample_executor s) = Some ImmediateAlgorithm" "ex_plans (sample_executor s) = [(7, sample_plan s)]"
    by (simp_all add: sample_executor_def new_executor_def)
  show ?thesis
    using visit child_order_sel [OF o1]
    by (simp add: executor_on_market_def sel with_arrival_price_def market_child_def)
qed

theorem executor_sends_only_permitted_witness:
  "\<exists>s o1 ex1. executor_on_market log_sink 0 (sample_context 600) (sample_executor s) (1, []) = Some (Ok 1, ex1, 2, [o1]) \<and>
     (\<exists>p \<in> snd ` set (ex_plans (sample_executor s)). child_permitted 0 (sample_context 600) p o1)"
proof -
  obtain s :: ExecutionSchedule where True by simp
  obtain o1 ex1 where m: "executor_on_market log_sink 0 (sample_context 600) (sample_executor s) (1, []) = Some (Ok 1, ex1, 2, [o1])"
    using sample_market by blast
  let ?I = "\<lambda>w. list_all (\<lambda>o1. \<exists>p \<in> snd ` set (ex_plans (sample_executor s)). child_permitted 0 (sample_context 600) p o1) (snd w)"
  have reg: "registry_create ''immediate'' default_registry = Ok ImmediateAlgorithm"
    by (simp add: registry_create_def default_registry_def om_find_Cons)
  have alg: "ex_algorithm (sample_executor s) = Some ImmediateAlgorithm"
    by (simp add: sample_executor_def new_executor_def)
  have "?I (2 :: OrderId, [o1])"
    by (rule executor_sends_only_permitted [OF with_defaults_registry reg alg m, of ?I])
      (force simp: log_sink_def)+
  then show ?thesis using m by auto
qed

theorem executor_books_agree_witness:
  "\<exists>ex w1. exec_run log_sink [OpSubmit sample_request 7 (Fin 10), OpMarket 0 (sample_context 600), OpCancel 7]
      (new_executor (Some ImmediateAlgorithm), 1, []) = Some (ex, w1) \<and> executor_wf ex"
proof -
  obtain s where s: "snd (executor_submit sample_request 7 (Fin 10) (new_executor (Some ImmediateAlgorithm))) = sample_executor s"
    using sample_execution by (metis snd_conv)
  obtain o1 ex1 where m: "executor_on_market log_sink 0 (sample_context 600) (sample_executor s) (1, []) = Some (Ok 1, ex1, 2, [o1])"
    using sample_market by blast
  have reg: "registry_create ''immediate'' default_registry = Ok ImmediateAlgorithm"
    by (simp add: registry_create_def default_registry_def om_find_Cons)
  obtain ex w1 where r: "exec_run log_sink [OpSubmit sample_request 7 (Fin 10), OpMarket 0 (sample_context 600), OpCancel 7]
      (new_executor (Some ImmediateAlgorithm), 1, []) = Some (ex, w1)"
    using s m by (cases "snd (executor_cancel log_sink 7 ex1 (2, [o1]))") simp
  from executor_books_agree [OF with_defaults_registry reg r] r show ?thesis by blast
qed

end
