(* ===== verification/LiveSession.thy ===== *)
theory LiveSession
  imports LiveBroker Executor
begin

text \<open>
  The live session and its market data adapter (\<open>src/live/session.cpp\<close>,
  \<open>include/ptl/live/session.hpp\<close>). The session borrows every trading component; here they are fields of
  its record: the connection, the broker, the adapter and the engine, which holds the simulator, the
  portfolio, the order manager and the journal. The adapter and the broker share one connection.

  The engine's clock is set to a reading of the session's clock before each event, so the clock stands
  still while one event is handled. The artifact store keeps the persisted state itself: the JSON text
  it is written as, and its parser, are not modelled. A text built from a report is the report.
\<close>

section \<open>The market data adapter\<close>

record LiveAdapter =
  ad_buffer :: "MarketEvent list"
  ad_last_event_time :: Timestamp
  ad_dropped_stale :: nat

definition new_adapter :: LiveAdapter where
  "new_adapter = \<lparr>ad_buffer = [], ad_last_event_time = kNoTimestamp, ad_dropped_stale = 0\<rparr>"

definition adapter_next :: "LiveAdapter \<Rightarrow> MarketEvent option \<times> LiveAdapter" where
  "adapter_next a = (case ad_buffer a of [] \<Rightarrow> (None, a) | ev # evs \<Rightarrow> (Some ev, a\<lparr>ad_buffer := evs\<rparr>))"

definition adapter_peek_time :: "LiveAdapter \<Rightarrow> Timestamp" where
  "adapter_peek_time a = (case ad_buffer a of [] \<Rightarrow> kNoTimestamp | ev # _ \<Rightarrow> exchange_time_of ev)"

definition event_of_message :: "BrokerMessage \<Rightarrow> Timestamp \<Rightarrow> (market_error, MarketEvent) result" where
  "event_of_message m ts =
     (if bm_kind m = MsgQuote
      then map_sum id QuoteEv (quote_create (bm_instrument m) ts (bm_bid m) (bm_bid_size m) (bm_ask m) (bm_ask_size m) 0)
      else map_sum id TradeEv (trade_create (bm_instrument m) ts (bm_price m) (bm_quantity m) None 0))"

fun pump_loop ::
    "'w clock \<Rightarrow> BrokerMessage list \<Rightarrow> nat \<Rightarrow> LiveAdapter \<Rightarrow> 'w
      \<Rightarrow> (market_error, nat) result \<times> LiveAdapter \<times> 'w" where
  "pump_loop clk [] produced a w = (Ok produced, a, w)"
| "pump_loop clk (m # ms) produced a w =
     (if bm_kind m \<noteq> MsgQuote \<and> bm_kind m \<noteq> MsgTrade then pump_loop clk ms produced a w
      else let (ts, w1) = (if is_set (bm_venue_time m) then (bm_venue_time m, w) else clk w) in
        if is_set (ad_last_event_time a) \<and> ts < ad_last_event_time a
        then pump_loop clk ms produced (a\<lparr>ad_dropped_stale := ad_dropped_stale a + 1\<rparr>) w1
        else (case event_of_message m ts of
                Inl e \<Rightarrow> (Err e, a, w1)
              | Inr ev \<Rightarrow> pump_loop clk ms (produced + 1)
                  (a\<lparr>ad_buffer := ad_buffer a @ [ev], ad_last_event_time := ts\<rparr>) w1))"

definition pump ::
    "'w clock \<Rightarrow> 'w LiveTransport \<Rightarrow> LiveAdapter \<Rightarrow> LiveConnection \<Rightarrow> 'w
      \<Rightarrow> (market_error, nat) result \<times> LiveAdapter \<times> LiveConnection \<times> 'w" where
  "pump clk tr a c w =
     (let (ms, c1, w1) = conn_poll clk tr c w; (r, a1, w2) = pump_loop clk ms 0 a w1 in (r, a1, c1, w2))"

section \<open>The session's state\<close>

datatype LiveSessionPhase = PhCreated | PhConnecting | PhReconciling | PhRunning | PhRecovering | PhHalted
  | PhStopping | PhStopped | PhFailed

fun to_string_LiveSessionPhase :: "LiveSessionPhase \<Rightarrow> string" where
  "to_string_LiveSessionPhase PhCreated = ''created''"
| "to_string_LiveSessionPhase PhConnecting = ''connecting''"
| "to_string_LiveSessionPhase PhReconciling = ''reconciling''"
| "to_string_LiveSessionPhase PhRunning = ''running''"
| "to_string_LiveSessionPhase PhRecovering = ''recovering''"
| "to_string_LiveSessionPhase PhHalted = ''halted''"
| "to_string_LiveSessionPhase PhStopping = ''stopping''"
| "to_string_LiveSessionPhase PhStopped = ''stopped''"
| "to_string_LiveSessionPhase PhFailed = ''failed''"

definition phase_terminal :: "LiveSessionPhase \<Rightarrow> bool" where
  "phase_terminal p \<longleftrightarrow> p = PhStopped \<or> p = PhFailed"

record LiveSessionConfig =
  lsc_session_id :: string
  lsc_fingerprint :: "64 word"
  lsc_persist_every :: nat
  lsc_reconcile_every :: nat
  lsc_halt_on_failure :: bool
  lsc_regular_hours_only :: bool

definition default_live_session :: LiveSessionConfig where
  "default_live_session = \<lparr>lsc_session_id = ''live'', lsc_fingerprint = 0, lsc_persist_every = 50,
     lsc_reconcile_every = 500, lsc_halt_on_failure = True, lsc_regular_hours_only = True\<rparr>"

record LiveSessionStats =
  lss_events :: nat
  lss_orders :: nat
  lss_fills :: nat
  lss_reconnects :: nat
  lss_reconciliations :: nat
  lss_reconciliation_failures :: nat
  lss_persists :: nat
  lss_halts :: nat
  lss_started_at :: Timestamp
  lss_stopped_at :: Timestamp

definition no_session_stats :: LiveSessionStats where
  "no_session_stats = \<lparr>lss_events = 0, lss_orders = 0, lss_fills = 0, lss_reconnects = 0,
     lss_reconciliations = 0, lss_reconciliation_failures = 0, lss_persists = 0, lss_halts = 0,
     lss_started_at = kNoTimestamp, lss_stopped_at = kNoTimestamp\<rparr>"

record LiveSessionState =
  sv_session_id :: string
  sv_sequence :: "64 word"
  sv_saved_at :: Timestamp
  sv_phase :: LiveSessionPhase
  sv_fingerprint :: "64 word"
  sv_events :: nat
  sv_last_venue_sequence :: "64 word"
  sv_last_sync_point :: Timestamp
  sv_account :: BrokerAccountSnapshot
  sv_tracked_orders :: "(string \<times> OrderId) list"

definition hash_string :: "string \<Rightarrow> 64 word \<Rightarrow> 64 word" where
  "hash_string s h = hash_bytes (map of_char s) h"

definition state_checksum :: "LiveSessionState \<Rightarrow> 64 word" where
  "state_checksum s =
     (let h1 = hash_string (sv_session_id s) fnv_offset;
          h2 = hash_bytes (bytes_le 8 (uint (sv_sequence s))) h1;
          h3 = hash_bytes (bytes_le 8 (uint (sv_fingerprint s))) h2;
          h4 = hash_bytes (bytes_le 8 (int (sv_events s))) h3;
          h5 = hash_bytes (bytes_le 8 (uint (sv_last_venue_sequence s))) h4;
          h6 = hash_bytes (bytes_le 8 (f64_bits (ba_cash (sv_account s)))) h5;
          h7 = hash_bytes (bytes_le 8 (f64_bits (ba_equity (sv_account s)))) h6 in
      fold (\<lambda>(client, oid) h. hash_bytes (bytes_le 8 (uint oid)) (hash_string client h)) (sv_tracked_orders s) h7)"

text \<open>\<open>ArtifactStore\<close>: what is stored under a key, if anything, and writing.\<close>

record 'w StateStore =
  so_load :: "string \<Rightarrow> 'w \<Rightarrow> (Error, LiveSessionState) result option"
  so_save :: "string \<Rightarrow> LiveSessionState \<Rightarrow> 'w \<Rightarrow> (Error, bool) result \<times> 'w"

datatype halt_reason = NotHalted | HaltText string | HaltDrift ReconciliationReport

record ('s, 'w) LiveSession =
  ls_config :: LiveSessionConfig
  ls_connection :: LiveConnection
  ls_adapter :: LiveAdapter
  ls_broker :: LiveBroker
  ls_engine :: "'s Engine"
  ls_engaged :: bool
  ls_phase :: LiveSessionPhase
  ls_session_stats :: LiveSessionStats
  ls_halt_reason :: halt_reason
  ls_stop_requested :: bool
  ls_sequence :: "64 word"
  ls_hash :: "64 word"
  ls_last_event :: Timestamp
  ls_last_sync :: Timestamp
  ls_world :: 'w

datatype session_error = AlreadyStarted | SessionTerminal LiveSessionPhase | NotEngaged
  | SessionConnection connection_error | SessionStore Error | OtherConfiguration string
  | SessionListener listener_error | SessionEngine engine_error | SessionBroker live_error
  | SessionMarket market_error | CannotResume LiveSessionPhase | ConnectionNotReady

abbreviation with_session_stats ::
    "(LiveSessionStats \<Rightarrow> LiveSessionStats) \<Rightarrow> ('s, 'w) LiveSession \<Rightarrow> ('s, 'w) LiveSession" where
  "with_session_stats g s \<equiv> s\<lparr>ls_session_stats := g (ls_session_stats s)\<rparr>"

text \<open>The parts an interpreter of this session is given: its clock, transport, venue, strategy and store.\<close>

record ('s, 'w) SessionPorts =
  sp_clock :: "'w clock"
  sp_transport :: "'w LiveTransport"
  sp_translator :: OrderTranslator
  sp_strategy :: "'s IStrategy"
  sp_store :: "'w StateStore"

definition session_now :: "('s, 'w) SessionPorts \<Rightarrow> ('s, 'w) LiveSession \<Rightarrow> Timestamp \<times> ('s, 'w) LiveSession" where
  "session_now P s = (let (t, w) = sp_clock P (ls_world s) in (t, s\<lparr>ls_world := w\<rparr>))"

section \<open>Trading, halting, reconciling\<close>

definition session_trading_permitted :: "('s, 'w) LiveSession \<Rightarrow> bool" where
  "session_trading_permitted s \<longleftrightarrow> ls_phase s = PhRunning \<and> permits_trading (lc_state (ls_connection s))"

definition session_halt :: "halt_reason \<Rightarrow> ('s, 'w) LiveSession \<Rightarrow> ('s, 'w) LiveSession" where
  "session_halt why s =
     (if phase_terminal (ls_phase s) then s
      else with_session_stats (\<lambda>x. x\<lparr>lss_halts := lss_halts x + 1\<rparr>) s\<lparr>ls_phase := PhHalted, ls_halt_reason := why\<rparr>)"

definition session_resume :: "('s, 'w) LiveSession \<Rightarrow> (session_error, bool) result \<times> ('s, 'w) LiveSession" where
  "session_resume s =
     (if ls_phase s \<noteq> PhHalted \<and> ls_phase s \<noteq> PhRecovering then (Err (CannotResume (ls_phase s)), s)
      else if \<not> permits_trading (lc_state (ls_connection s)) then (Err ConnectionNotReady, s)
      else (Ok True, s\<lparr>ls_halt_reason := NotHalted, ls_phase := PhRunning\<rparr>))"

definition session_reconcile ::
    "('s, 'w) SessionPorts \<Rightarrow> ('s, 'w) LiveSession \<Rightarrow> ReconciliationReport \<times> ('s, 'w) LiveSession" where
  "session_reconcile P z0 =
     (let s = with_session_stats (\<lambda>x. x\<lparr>lss_reconciliations := lss_reconciliations x + 1\<rparr>) z0;
          report = live_reconcile (lb_config (ls_broker s)) (en_portfolio (ls_engine s)) (lb_account (ls_broker s));
          (t, z1) = session_now P s;
          z2 = z1\<lparr>ls_last_sync := t\<rparr> in
      if \<not> report_clean report then
        let z3 = with_session_stats (\<lambda>x. x\<lparr>lss_reconciliation_failures := lss_reconciliation_failures x + 1\<rparr>) z2 in
        (report, if lsc_halt_on_failure (ls_config s) then session_halt (HaltDrift report) z3 else z3)
      else (report, z2))"

section \<open>Persistence\<close>

definition state_key :: "LiveSessionConfig \<Rightarrow> string" where
  "state_key c = ''live/'' @ lsc_session_id c @ ''/state''"

definition session_capture :: "('s, 'w) SessionPorts \<Rightarrow> ('s, 'w) LiveSession \<Rightarrow> LiveSessionState \<times> ('s, 'w) LiveSession" where
  "session_capture P z0 =
     (let (t, s) = session_now P z0 in
      (\<lparr>sv_session_id = lsc_session_id (ls_config s), sv_sequence = ls_sequence s, sv_saved_at = t,
        sv_phase = ls_phase s, sv_fingerprint = lsc_fingerprint (ls_config s),
        sv_events = lss_events (ls_session_stats s), sv_last_venue_sequence = lc_last_sequence (ls_connection s),
        sv_last_sync_point = ls_last_sync s, sv_account = lb_account (ls_broker s),
        sv_tracked_orders = listener_snapshot (lb_listener (ls_broker s))\<rparr>, s))"

definition session_persist ::
    "('s, 'w) SessionPorts \<Rightarrow> ('s, 'w) LiveSession \<Rightarrow> (session_error, bool) result \<times> ('s, 'w) LiveSession" where
  "session_persist P z0 =
     (let (state, s) = session_capture P z0;
          z1 = s\<lparr>ls_sequence := ls_sequence s + 1\<rparr>;
          (r, w) = so_save (sp_store P) (state_key (ls_config s)) (state\<lparr>sv_sequence := ls_sequence z1\<rparr>) (ls_world z1);
          z2 = z1\<lparr>ls_world := w\<rparr> in
      case r of
        Inl e \<Rightarrow> (Err (SessionStore e), z2)
      | Inr _ \<Rightarrow> (Ok True, with_session_stats (\<lambda>x. x\<lparr>lss_persists := lss_persists x + 1\<rparr>) z2))"

definition session_recover ::
    "('s, 'w) SessionPorts \<Rightarrow> ('s, 'w) LiveSession \<Rightarrow> (session_error, bool) result \<times> ('s, 'w) LiveSession" where
  "session_recover P s =
     (case so_load (sp_store P) (state_key (ls_config s)) (ls_world s) of
        None \<Rightarrow> (Ok True, s)
      | Some (Inl e) \<Rightarrow> (Err (SessionStore e), s)
      | Some (Inr state) \<Rightarrow>
          if lsc_fingerprint (ls_config s) \<noteq> 0 \<and> sv_fingerprint state \<noteq> lsc_fingerprint (ls_config s)
          then (Err (OtherConfiguration (lsc_session_id (ls_config s))), s)
          else
            let z1 = s\<lparr>ls_sequence := sv_sequence state,
                  ls_session_stats := (ls_session_stats s)\<lparr>lss_events := sv_events state\<rparr>,
                  ls_last_sync := sv_last_sync_point state,
                  ls_connection := restore_sequence (sv_last_venue_sequence state) (ls_connection s)\<rparr>;
                (r, l) = listener_restore (sv_tracked_orders state) (lb_listener (ls_broker z1));
                z2 = z1\<lparr>ls_broker := (ls_broker z1)\<lparr>lb_listener := l\<rparr>\<rparr>
            in (case r of Inl e \<Rightarrow> (Err (SessionListener e), z2) | Inr _ \<Rightarrow> (Ok True, z2)))"

section \<open>Starting\<close>

definition session_start ::
    "('s, 'w) SessionPorts \<Rightarrow> ('s, 'w) LiveSession \<Rightarrow> (session_error, bool) result \<times> ('s, 'w) LiveSession" where
  "session_start P s =
     (if ls_phase s \<noteq> PhCreated then (Err AlreadyStarted, s)
      else
        let (connected, c, w) = connect (sp_clock P) (sp_transport P) (ls_connection s) (ls_world s);
            z1 = s\<lparr>ls_phase := PhConnecting, ls_connection := c, ls_world := w\<rparr> in
        case connected of Inl e \<Rightarrow> (Err (SessionConnection e), z1\<lparr>ls_phase := PhFailed\<rparr>) | Inr _ \<Rightarrow>
       (case session_recover P z1 of
          (Inl e, z2) \<Rightarrow> (Err e, z2\<lparr>ls_phase := PhFailed\<rparr>)
        | (Inr _, z2) \<Rightarrow>
            (case mark_synchronized (ls_connection z2) of
               (Inl e, c2) \<Rightarrow> (Err (SessionConnection e), z2\<lparr>ls_phase := PhFailed, ls_connection := c2\<rparr>)
             | (Inr _, c2) \<Rightarrow>
                (let (t, z3) = session_now P (z2\<lparr>ls_phase := PhReconciling, ls_connection := c2\<rparr>);
                     (te, z4) = session_now P (z3\<lparr>ls_last_sync := t\<rparr>);
                     (begun, e) = engine_begin (sp_strategy P) ((ls_engine z4)\<lparr>en_clock := \<lparr>clock_now = te\<rparr>\<rparr>);
                     z5 = z4\<lparr>ls_engine := e, ls_engaged := True\<rparr> in
                 case begun of
                   Inl err \<Rightarrow> (Err (SessionEngine err), z5\<lparr>ls_phase := PhFailed\<rparr>)
                 | Inr _ \<Rightarrow>
                    (let (t2, z6) = session_now P z5 in
                     (Ok True, with_session_stats (\<lambda>x. x\<lparr>lss_started_at := t2\<rparr>) z6\<lparr>ls_phase := PhRunning\<rparr>))))))"

section \<open>One step\<close>

text \<open>The desk the broker works at, and its return to the session.\<close>

definition session_desk :: "('s, 'w) LiveSession \<Rightarrow> 'w LiveDesk" where
  "session_desk s = \<lparr>dk_broker = ls_broker s, dk_connection = ls_connection s,
     dk_simulator = en_broker (ls_engine s), dk_world = ls_world s\<rparr>"

definition put_desk :: "'w LiveDesk \<Rightarrow> ('s, 'w) LiveSession \<Rightarrow> ('s, 'w) LiveSession" where
  "put_desk d s = s\<lparr>ls_broker := dk_broker d, ls_connection := dk_connection d,
     ls_engine := (ls_engine s)\<lparr>en_broker := dk_simulator d\<rparr>, ls_world := dk_world d\<rparr>"

text \<open>\<open>Engine::step(1)\<close> over the adapter: the next buffered event, counted and handled.\<close>

definition engine_event ::
    "'s IStrategy \<Rightarrow> MarketEvent \<Rightarrow> 's Engine \<Rightarrow> ((engine_error, nat) result \<times> 's Engine) option" where
  "engine_event S ev e =
     (case handle_event S ev (count_event ev e) of
        None \<Rightarrow> None
      | Some (Inl err, e1) \<Rightarrow> Some (Err err, e1)
      | Some (Inr _, e1) \<Rightarrow> Some (Ok 1, raise_peak e1))"

definition session_engine_step ::
    "('s, 'w) SessionPorts \<Rightarrow> ('s, 'w) LiveSession \<Rightarrow> ((engine_error, nat) result \<times> ('s, 'w) LiveSession) option" where
  "session_engine_step P s =
     (if \<not> en_started (ls_engine s) then Some (Err NotStarted, s)
      else (case adapter_next (ls_adapter s) of
              (None, a) \<Rightarrow> Some (Ok 0, s\<lparr>ls_adapter := a\<rparr>)
            | (Some ev, a) \<Rightarrow>
                (let (t, z1) = session_now P (s\<lparr>ls_adapter := a\<rparr>) in
                 case engine_event (sp_strategy P) ev ((ls_engine z1)\<lparr>en_clock := \<lparr>clock_now = t\<rparr>\<rparr>) of
                   None \<Rightarrow> None
                 | Some (r, e) \<Rightarrow> Some (r, z1\<lparr>ls_engine := e\<rparr>))))"

definition every :: "nat \<Rightarrow> nat \<Rightarrow> bool" where
  "every n k \<longleftrightarrow> 0 < n \<and> k mod n = 0"

fun session_events ::
    "('s, 'w) SessionPorts \<Rightarrow> nat \<Rightarrow> nat \<Rightarrow> ('s, 'w) LiveSession
      \<Rightarrow> ((session_error, nat) result \<times> ('s, 'w) LiveSession) option" where
  "session_events P 0 processed s = Some (Ok processed, s)"
| "session_events P (Suc n) processed s =
     (if ls_stop_requested s then Some (Ok processed, s)
      else (case session_engine_step P s of
              None \<Rightarrow> None
            | Some (Inl e, z1) \<Rightarrow> Some (Err (SessionEngine e), z1\<lparr>ls_phase := PhFailed\<rparr>)
            | Some (Inr k, z1) \<Rightarrow>
                if k = 0 then Some (Ok processed, z1)
                else
                  let sm = en_summary (ls_engine z1);
                      z2 = (with_session_stats (\<lambda>x. x\<lparr>lss_events := events_processed sm, lss_orders := orders_submitted sm\<rparr>) z1)
                             \<lparr>ls_last_event := last_event sm,
                              ls_hash := hash_bytes (bytes_le 8 (last_event sm)) (ls_hash z1)\<rparr>;
                      z3 = (if every (lsc_reconcile_every (ls_config z2)) (lss_events (ls_session_stats z2))
                            then snd (session_reconcile P z2) else z2)
                  in if every (lsc_persist_every (ls_config z3)) (lss_events (ls_session_stats z3))
                     then (case session_persist P z3 of
                             (Inl e, z4) \<Rightarrow> Some (Err e, z4)
                           | (Inr _, z4) \<Rightarrow> session_events P n (processed + 1) z4)
                     else session_events P n (processed + 1) z3))"

text \<open>The health check at the top of a step: tick, and a reconnect while recovering.\<close>

definition session_health ::
    "('s, 'w) SessionPorts \<Rightarrow> ('s, 'w) LiveSession \<Rightarrow> (session_error, unit) result \<times> ('s, 'w) LiveSession" where
  "session_health P s =
     (let (c, w) = conn_tick (sp_clock P) (ls_connection s) (ls_world s);
          z0 = s\<lparr>ls_connection := c, ls_world := w\<rparr>;
          z1 = (if \<not> permits_trading (lc_state c) \<and> ls_phase z0 = PhRunning then z0\<lparr>ls_phase := PhRecovering\<rparr> else z0) in
      if ls_phase z1 \<noteq> PhRecovering then (Ok (), z1)
      else
        (let (r, c1, w1) = maybe_reconnect (sp_clock P) (sp_transport P) (ls_connection z1) (ls_world z1);
             z2 = z1\<lparr>ls_connection := c1, ls_world := w1\<rparr> in
         case r of
           Inl e \<Rightarrow> (Err (SessionConnection e), z2\<lparr>ls_phase := PhFailed\<rparr>)
         | Inr reconnected \<Rightarrow>
             if \<not> reconnected then (Ok (), z2)
             else
               let z3 = with_session_stats (\<lambda>x. x\<lparr>lss_reconnects := lss_reconnects x + 1\<rparr>) z2 in
               (case mark_synchronized (ls_connection z3) of
                  (Inl e, c2) \<Rightarrow> (Ok (), z3\<lparr>ls_connection := c2\<rparr>)
                | (Inr _, c2) \<Rightarrow>
                    (let (t, z4) = session_now P (z3\<lparr>ls_connection := c2, ls_phase := PhRunning\<rparr>) in
                     (Ok (), z4\<lparr>ls_last_sync := t\<rparr>)))))"

definition session_step ::
    "('s, 'w) SessionPorts \<Rightarrow> nat \<Rightarrow> ('s, 'w) LiveSession
      \<Rightarrow> ((session_error, nat) result \<times> ('s, 'w) LiveSession) option" where
  "session_step P max_events s =
     (if phase_terminal (ls_phase s) then Some (Err (SessionTerminal (ls_phase s)), s)
      else if \<not> ls_engaged s then Some (Err NotEngaged, s)
      else
       (case session_health P s of
          (Inl e, z1) \<Rightarrow> Some (Err e, z1)
        | (Inr _, z1) \<Rightarrow>
           (case live_poll (sp_translator P) (sp_clock P) (sp_transport P) (session_desk z1) of
              (Inl e, d) \<Rightarrow> Some (Err (SessionBroker e), put_desk d z1)
            | (Inr fills, d) \<Rightarrow>
               (let z2 = with_session_stats (\<lambda>x. x\<lparr>lss_fills := lss_fills x + length fills\<rparr>) (put_desk d z1);
                    (pumped, a, c, w) = pump (sp_clock P) (sp_transport P) (ls_adapter z2) (ls_connection z2) (ls_world z2);
                    z3 = z2\<lparr>ls_adapter := a, ls_connection := c, ls_world := w\<rparr> in
                case pumped of
                  Inl e \<Rightarrow> Some (Err (SessionMarket e), z3)
                | Inr _ \<Rightarrow> session_events P max_events 0 z3))))"

section \<open>Stopping and running\<close>

definition request_stop :: "('s, 'w) LiveSession \<Rightarrow> ('s, 'w) LiveSession" where
  "request_stop s = s\<lparr>ls_stop_requested := True\<rparr>"

definition session_shutdown ::
    "('s, 'w) SessionPorts \<Rightarrow> ('s, 'w) LiveSession \<Rightarrow> (session_error, bool) result \<times> ('s, 'w) LiveSession" where
  "session_shutdown P s =
     (if phase_terminal (ls_phase s) then (Ok True, s)
      else
        let z0 = s\<lparr>ls_phase := PhStopping\<rparr>;
            z1 = (if ls_engaged z0 then z0\<lparr>ls_engine := snd (engine_finish (sp_strategy P) (ls_engine z0))\<rparr> else z0) in
        (case session_persist P z1 of
           (Inl e, z2) \<Rightarrow> (Err e, z2\<lparr>ls_phase := PhFailed\<rparr>)
         | (Inr _, z2) \<Rightarrow>
             (let (c, w) = disconnect (sp_transport P) (ls_connection z2) (ls_world z2);
                  (t, z3) = session_now P (z2\<lparr>ls_connection := c, ls_world := w\<rparr>) in
              (Ok True, with_session_stats (\<lambda>x. x\<lparr>lss_stopped_at := t\<rparr>) z3\<lparr>ls_phase := PhStopped\<rparr>))))"

partial_function (option) session_loop ::
    "('s, 'w) SessionPorts \<Rightarrow> nat \<Rightarrow> nat \<Rightarrow> ('s, 'w) LiveSession
      \<Rightarrow> ((session_error, unit) result \<times> ('s, 'w) LiveSession) option" where
  "session_loop P max_iterations iterations s =
     (if ls_stop_requested s \<or> phase_terminal (ls_phase s) then Some (Ok (), s)
      else Option.bind (session_step P 64 s) (\<lambda>(r, z1).
        case r of
          Inl e \<Rightarrow> Some (Err e, z1)
        | Inr processed \<Rightarrow>
            if 0 < max_iterations \<and> max_iterations \<le> iterations + 1 then Some (Ok (), z1)
            else if max_iterations = 0 \<and> processed = 0 then Some (Ok (), z1)
            else session_loop P max_iterations (iterations + 1) z1))"

definition session_run ::
    "('s, 'w) SessionPorts \<Rightarrow> nat \<Rightarrow> ('s, 'w) LiveSession
      \<Rightarrow> ((session_error, LiveSessionStats) result \<times> ('s, 'w) LiveSession) option" where
  "session_run P max_iterations s =
     (case (if ls_phase s = PhCreated then session_start P s else (Ok True, s)) of
        (Inl e, z1) \<Rightarrow> Some (Err e, z1)
      | (Inr _, z1) \<Rightarrow>
          (case session_loop P max_iterations 0 z1 of
             None \<Rightarrow> None
           | Some (Inl e, z2) \<Rightarrow> Some (Err e, z2)
           | Some (Inr _, z2) \<Rightarrow>
               (case session_shutdown P z2 of
                  (Inl e, z3) \<Rightarrow> Some (Err e, z3)
                | (Inr _, z3) \<Rightarrow> Some (Ok (ls_session_stats z3), z3))))"

section \<open>One poll for two readers\<close>

text \<open>
  A transport whose \<open>poll\<close> takes everything that has arrived: right after a poll, and until something
  new arrives, the world is dry, which reading the clock does not change.
\<close>

definition polls_dry :: "'w clock \<Rightarrow> 'w LiveTransport \<Rightarrow> ('w \<Rightarrow> bool) \<Rightarrow> bool" where
  "polls_dry clk tr dry \<longleftrightarrow> (\<forall>w. dry (snd (tr_poll tr w))) \<and> (\<forall>w. dry w \<longrightarrow> dry (snd (clk w)))
     \<and> (\<forall>w. dry w \<longrightarrow> tr_poll tr w = ([], w)) \<and> (\<forall>w. dry w \<longrightarrow> tr_is_open tr (snd (clk w)) = tr_is_open tr w)"

lemma poll_loop_dry: "polls_dry clk tr dry \<Longrightarrow> dry w \<Longrightarrow> dry (snd (snd (poll_loop clk ms c w)))"
proof (induction ms arbitrary: c w)
  case (Cons m ms)
  then have "dry (snd (clk w))" by (simp add: polls_dry_def)
  then have "dry (snd (snd (poll_loop clk ms c1 (snd (clk w)))))" for c1
    using Cons.IH [OF Cons.prems(1)] by blast
  then show ?case by (simp add: Let_def split: prod.split) (metis snd_conv)
qed simp

lemma conn_poll_dry:
  assumes "polls_dry clk tr dry" "conn_poll clk tr c w = (ms, c1, w1)"
  shows "dry w1 \<or> (ms = [] \<and> c1 = c \<and> w1 = w \<and> \<not> tr_is_open tr w)"
proof (cases "tr_is_open tr w")
  case True
  obtain q w0 where q: "tr_poll tr w = (q, w0)" by fastforce
  have "dry w0" using assms(1) q by (metis polls_dry_def snd_conv)
  then show ?thesis
    using poll_loop_dry [OF assms(1), of w0 q c] assms(2) True by (simp add: conn_poll_def q)
qed (use assms(2) in \<open>simp add: conn_poll_def\<close>)

lemma conn_poll_of_dry: "polls_dry clk tr dry \<Longrightarrow> dry w \<Longrightarrow> conn_poll clk tr c w = ([], c, w)"
  by (simp add: conn_poll_def polls_dry_def)

lemma apply_message_world:
  assumes "polls_dry clk tr dry" "apply_message tx clk m d = (r, d')" "dry (dk_world d)"
  shows "dry (dk_world d')"
proof -
  have "dk_world d' = dk_world d \<or> dk_world d' = snd (clk (dk_world d))"
    using assms(2) unfolding apply_message_def apply_update_def
    by (auto simp: Let_def split: if_splits sum.splits UpdateKind.splits prod.splits)
  then show ?thesis using assms(1,3) by (auto simp: polls_dry_def)
qed

lemma apply_messages_world:
  "polls_dry clk tr dry \<Longrightarrow> apply_messages tx clk ms fills d = (r, d') \<Longrightarrow> dry (dk_world d) \<Longrightarrow> dry (dk_world d')"
proof (induction ms arbitrary: fills d)
  case (Cons m ms)
  obtain x d1 where m: "apply_message tx clk m d = (x, d1)" by fastforce
  have "dry (dk_world d1)" by (rule apply_message_world [OF Cons.prems(1) m Cons.prems(3)])
  then show ?case using Cons by (auto simp: m split: sum.splits option.splits)
qed auto

lemma live_poll_dry:
  assumes "polls_dry clk tr dry" "live_poll tx clk tr d = (r, d')"
  shows "conn_poll clk tr (dk_connection d') (dk_world d') = ([], dk_connection d', dk_world d')"
proof -
  obtain ms c w where p: "conn_poll clk tr (dk_connection d) (dk_world d) = (ms, c, w)"
    by (cases "conn_poll clk tr (dk_connection d) (dk_world d)") auto
  have m: "apply_messages tx clk ms [] (d\<lparr>dk_connection := c, dk_world := w\<rparr>) = (r, d')"
    using assms(2) by (simp add: live_poll_def p)
  from conn_poll_dry [OF assms(1) p] show ?thesis
  proof
    assume "dry w"
    then have "dry (dk_world d')" using apply_messages_world [OF assms(1) m] by simp
    then show ?thesis by (rule conn_poll_of_dry [OF assms(1)])
  next
    assume e: "ms = [] \<and> c = dk_connection d \<and> w = dk_world d \<and> \<not> tr_is_open tr (dk_world d)"
    then have "d' = d" using m by simp
    with e show ?thesis by (simp add: conn_poll_def)
  qed
qed

section \<open>Frames of a step\<close>

lemma session_health_frame:
  "session_health P s = (r, s') \<Longrightarrow> ls_engine s' = ls_engine s \<and> ls_adapter s' = ls_adapter s \<and> ls_broker s' = ls_broker s"
  by (auto simp: session_health_def session_now_def Let_def mark_synchronized_def
      split: prod.splits if_splits sum.splits)

lemma session_events_empty:
  assumes "ad_buffer (ls_adapter s) = []" "session_events P n k s = Some (r, s')"
  shows "(r = Ok k \<or> r = Err (SessionEngine NotStarted)) \<and> ls_engine s' = ls_engine s \<and> ls_adapter s' = ls_adapter s"
proof (cases n)
  case (Suc m)
  then show ?thesis
    using assms by (auto simp: session_engine_step_def adapter_next_def split: if_splits)
qed (use assms in simp)

text \<open>What the session's step leaves of the engine: everything but the simulator.\<close>

definition only_simulator :: "'s Engine \<Rightarrow> 's Engine \<Rightarrow> bool" where
  "only_simulator e e' \<longleftrightarrow> e' = e\<lparr>en_broker := en_broker e'\<rparr>"

lemma session_step_dry:
  assumes d: "polls_dry (sp_clock P) (sp_transport P) dry" and e: "ad_buffer (ls_adapter s) = []"
    and st: "session_step P n s = Some (r, s')"
  shows "ad_buffer (ls_adapter s') = [] \<and> only_simulator (ls_engine s) (ls_engine s') \<and> (case r of Inr k \<Rightarrow> k = 0 | Inl _ \<Rightarrow> True)"
proof -
  consider (stop) "s' = s" "\<not> is_ok r" | (go) x z1 where "session_health P s = (x, z1)"
    "r = (case x of Inl er \<Rightarrow> Err er | _ \<Rightarrow> r)" "\<not> is_ok x \<longrightarrow> s' = z1" "ls_engaged s" "\<not> phase_terminal (ls_phase s)"
    using st by (cases "session_health P s") (auto simp: session_step_def split: if_splits sum.splits)
  then show ?thesis
  proof cases
    case stop
    then show ?thesis using e by (auto simp: only_simulator_def is_ok_def split: sum.splits)
  next
    case (go x z1)
    note fr = session_health_frame [OF go(1)]
    show ?thesis
    proof (cases x)
      case (Inl er)
      then show ?thesis using go fr e by (auto simp: only_simulator_def)
    next
      case (Inr u)
      obtain y dk where lp: "live_poll (sp_translator P) (sp_clock P) (sp_transport P) (session_desk z1) = (y, dk)"
        by fastforce
      show ?thesis
      proof (cases y)
        case (Inl er)
        then have "s' = put_desk dk z1" "r = Err (SessionBroker er)"
          using st go Inr by (auto simp: session_step_def lp split: if_splits)
        then show ?thesis using fr e by (simp add: put_desk_def only_simulator_def)
      next
        case fills: (Inr fills)
        define z2 where "z2 = with_session_stats (\<lambda>x. x\<lparr>lss_fills := lss_fills x + length fills\<rparr>) (put_desk dk z1)"
        let ?q = "put_desk dk z1"
        have "conn_poll (sp_clock P) (sp_transport P) (ls_connection ?q) (ls_world ?q) = ([], ls_connection ?q, ls_world ?q)"
          using live_poll_dry [OF d lp] by (simp add: put_desk_def)
        then have "pump (sp_clock P) (sp_transport P) (ls_adapter ?q) (ls_connection ?q) (ls_world ?q)
            = (Ok 0, ls_adapter ?q, ls_connection ?q, ls_world ?q)"
          by (simp add: pump_def)
        moreover have "z2\<lparr>ls_adapter := ls_adapter ?q, ls_connection := ls_connection ?q, ls_world := ls_world ?q\<rparr> = z2"
          by (simp add: z2_def)
        ultimately have ev: "session_events P n 0 z2 = Some (r, s')"
          using st go Inr fills by (simp add: session_step_def lp Let_def z2_def split: if_splits)
        have "ad_buffer (ls_adapter z2) = []" using fr e by (simp add: z2_def put_desk_def)
        from session_events_empty [OF this ev] fr e show ?thesis
          by (auto simp: z2_def put_desk_def only_simulator_def)
      qed
    qed
  qed
qed

section \<open>The phases\<close>

text \<open>What a session's owner may do, in any order.\<close>

datatype session_op = DoStart | DoStep nat | DoHalt halt_reason | DoResume | DoPersist | DoReconcile
  | DoRequestStop | DoShutdown

fun session_apply ::
    "('s, 'w) SessionPorts \<Rightarrow> session_op \<Rightarrow> ('s, 'w) LiveSession \<Rightarrow> ('s, 'w) LiveSession option" where
  "session_apply P DoStart s = Some (snd (session_start P s))"
| "session_apply P (DoStep n) s = map_option snd (session_step P n s)"
| "session_apply P (DoHalt why) s = Some (session_halt why s)"
| "session_apply P DoResume s = Some (snd (session_resume s))"
| "session_apply P DoPersist s = Some (snd (session_persist P s))"
| "session_apply P DoReconcile s = Some (snd (session_reconcile P s))"
| "session_apply P DoRequestStop s = Some (request_stop s)"
| "session_apply P DoShutdown s = Some (snd (session_shutdown P s))"

fun session_ops ::
    "('s, 'w) SessionPorts \<Rightarrow> session_op list \<Rightarrow> ('s, 'w) LiveSession \<Rightarrow> ('s, 'w) LiveSession option" where
  "session_ops P [] s = Some s"
| "session_ops P (a # as) s = Option.bind (session_apply P a s) (session_ops P as)"

definition running_ready :: "('s, 'w) LiveSession \<Rightarrow> bool" where
  "running_ready s \<longleftrightarrow> (if ls_phase s = PhRunning then lc_state (ls_connection s) = Ready else True)"

lemma session_persist_frame [frame]:
  "session_persist P s = (r, s') \<Longrightarrow> ls_phase s' = ls_phase s \<and> ls_connection s' = ls_connection s
     \<and> ls_engaged s' = ls_engaged s \<and> ls_broker s' = ls_broker s \<and> ls_engine s' = ls_engine s \<and> ls_config s' = ls_config s"
  by (auto simp: session_persist_def session_capture_def session_now_def Let_def split: prod.splits sum.splits)

lemma session_reconcile_frame [frame]:
  "session_reconcile P s = (r, s') \<Longrightarrow> (ls_phase s' = ls_phase s \<or> (ls_phase s' = PhHalted \<and> \<not> phase_terminal (ls_phase s)))
     \<and> ls_connection s' = ls_connection s"
  by (auto simp: session_reconcile_def session_now_def session_halt_def Let_def split: prod.splits if_splits)

lemma session_engine_step_frame:
  "session_engine_step P s = Some (r, s') \<Longrightarrow> ls_phase s' = ls_phase s \<and> ls_connection s' = ls_connection s"
  by (auto simp: session_engine_step_def session_now_def Let_def split: if_splits prod.splits option.splits)

lemma session_events_frame:
  "session_events P n k s = Some (r, s') \<Longrightarrow>
     ls_connection s' = ls_connection s \<and> (ls_phase s' = ls_phase s \<or> ls_phase s' = PhHalted \<or> ls_phase s' = PhFailed)"
proof (induction n arbitrary: k s)
  case (Suc n)
  show ?case
  proof (cases "ls_stop_requested s")
    case False
    obtain x z1 where st: "session_engine_step P s = Some (x, z1)"
      using Suc.prems False by (auto split: option.splits)
    note one = session_engine_step_frame [OF st]
    show ?thesis
    proof (cases "\<exists>j. x = Inr j \<and> j \<noteq> 0")
      case False
      then show ?thesis using Suc.prems one \<open>\<not> ls_stop_requested s\<close> by (auto simp: st split: sum.splits)
    next
      case True
      then obtain j where j: "x = Inr j" "j \<noteq> 0" by blast
      define sm where "sm = en_summary (ls_engine z1)"
      define z2 where "z2 = (with_session_stats (\<lambda>x. x\<lparr>lss_events := events_processed sm, lss_orders := orders_submitted sm\<rparr>) z1)
         \<lparr>ls_last_event := last_event sm, ls_hash := hash_bytes (bytes_le 8 (last_event sm)) (ls_hash z1)\<rparr>"
      define z3 where "z3 = (if every (lsc_reconcile_every (ls_config z2)) (lss_events (ls_session_stats z2))
         then snd (session_reconcile P z2) else z2)"
      obtain rr zr where rc: "session_reconcile P z2 = (rr, zr)" by fastforce
      have z3: "ls_connection z3 = ls_connection s" "ls_phase z3 = ls_phase s \<or> ls_phase z3 = PhHalted"
      proof -
        have "ls_connection z2 = ls_connection s" "ls_phase z2 = ls_phase s" using one by (simp_all add: z2_def)
        then show "ls_connection z3 = ls_connection s" "ls_phase z3 = ls_phase s \<or> ls_phase z3 = PhHalted"
          using session_reconcile_frame [OF rc] by (auto simp: z3_def rc)
      qed
      obtain y z4 where pr: "session_persist P z3 = (y, z4)" by fastforce
      have eq: "session_events P (Suc n) k s =
          (if every (lsc_persist_every (ls_config z3)) (lss_events (ls_session_stats z3))
           then (case y of Inl e \<Rightarrow> Some (Err e, z4) | Inr _ \<Rightarrow> session_events P n (k + 1) z4)
           else session_events P n (k + 1) z3)"
        using False j unfolding session_events.simps st option.case prod.case sum.case Let_def
          sm_def [symmetric] z2_def [symmetric] z3_def [symmetric] pr by simp
      show ?thesis
        using Suc.prems Suc.IH [of "k + 1" z4] Suc.IH [of "k + 1" z3] session_persist_frame [OF pr] z3
        unfolding eq by (auto split: if_splits sum.splits)
    qed
  qed (use Suc.prems in auto)
qed auto

lemma apply_message_connection:
  "apply_message tx clk m d = (r, d') \<Longrightarrow> dk_connection d' = dk_connection d"
  unfolding apply_message_def apply_update_def
  by (auto simp: Let_def split: if_splits sum.splits UpdateKind.splits prod.splits)

lemma apply_messages_connection:
  "apply_messages tx clk ms fills d = (r, d') \<Longrightarrow> dk_connection d' = dk_connection d"
proof (induction ms arbitrary: fills d)
  case (Cons m ms)
  obtain x d1 where m: "apply_message tx clk m d = (x, d1)" by fastforce
  show ?case
    using Cons.prems Cons.IH [of _ d1] apply_message_connection [OF m]
    by (auto simp: m split: sum.splits option.splits)
qed auto

lemma live_poll_state: "live_poll tx clk tr d = (r, d') \<Longrightarrow> lc_state (dk_connection d') = lc_state (dk_connection d)"
  using conn_poll_state [of clk tr "dk_connection d" "dk_world d"]
  by (auto simp: live_poll_def split: prod.splits dest!: apply_messages_connection)

lemma pump_state: "pump clk tr a c w = (r, a1, c1, w1) \<Longrightarrow> lc_state c1 = lc_state c"
  using conn_poll_state [of clk tr c w] by (auto simp: pump_def split: prod.splits)

text \<open>After the health check a running session is on a ready connection.\<close>

lemma session_health_ready: "session_health P s = (r, s') \<Longrightarrow> running_ready s'"
  by (auto simp: session_health_def session_now_def Let_def mark_synchronized_def running_ready_def permits_trading_def
      split: prod.splits if_splits sum.splits)

lemma session_step_ready:
  assumes "running_ready s" "session_step P n s = Some (r, s')"
  shows "running_ready s'"
proof -
  obtain x z1 where h: "session_health P s = (x, z1)" by fastforce
  obtain y dk where lp: "live_poll (sp_translator P) (sp_clock P) (sp_transport P) (session_desk z1) = (y, dk)"
    by fastforce
  let ?q = "put_desk dk z1"
  obtain pm a c w where pu: "pump (sp_clock P) (sp_transport P) (ls_adapter ?q) (ls_connection ?q) (ls_world ?q) = (pm, a, c, w)"
    by (cases "pump (sp_clock P) (sp_transport P) (ls_adapter ?q) (ls_connection ?q) (ls_world ?q)") auto
  have z1: "running_ready z1" by (rule session_health_ready [OF h])
  then have q: "running_ready (with_session_stats f ?q)" "running_ready ?q"
    and pq: "running_ready (with_session_stats f ?q\<lparr>ls_adapter := a, ls_connection := c, ls_world := w\<rparr>)" for f
    using live_poll_state [OF lp] pump_state [OF pu] by (auto simp: running_ready_def put_desk_def session_desk_def)
  have ev: "running_ready s'" if "session_events P n 0 z = Some (r, s')" "running_ready z" for z
    using session_events_frame [OF that(1)] that(2) by (auto simp: running_ready_def split: if_splits)
  show ?thesis
    using assms z1 q pq ev by (auto simp: session_step_def h lp pu Let_def split: if_splits sum.splits)
qed

lemma session_apply_ready:
  assumes "running_ready s" "session_apply P a s = Some s'"
  shows "running_ready s'"
proof (cases a)
  case DoStart
  have "running_ready (snd (session_start P s))"
    using assms(1) by (auto simp: session_start_def session_now_def running_ready_def mark_synchronized_def Let_def
        split: prod.splits sum.splits)
  then show ?thesis using assms(2) by (simp add: DoStart)
next
  case (DoStep n)
  then show ?thesis using assms session_step_ready by auto
next
  case (DoHalt why)
  then show ?thesis using assms by (auto simp: session_halt_def running_ready_def split: if_splits)
next
  case DoResume
  then show ?thesis using assms by (auto simp: session_resume_def running_ready_def permits_trading_def split: if_splits)
next
  case DoPersist
  obtain r z where "session_persist P s = (r, z)" by fastforce
  then show ?thesis using assms session_persist_frame [of P s r z] by (auto simp: DoPersist running_ready_def)
next
  case DoReconcile
  obtain r z where "session_reconcile P s = (r, z)" by fastforce
  then show ?thesis using assms session_reconcile_frame [of P s r z]
    by (auto simp: DoReconcile running_ready_def split: if_splits)
next
  case DoRequestStop
  then show ?thesis using assms by (auto simp: request_stop_def running_ready_def)
next
  case DoShutdown
  have "running_ready (snd (session_shutdown P s))"
    using assms(1) by (auto simp: session_shutdown_def session_now_def running_ready_def phase_terminal_def Let_def
        split: prod.splits sum.splits)
  then show ?thesis using assms(2) by (simp add: DoShutdown)
qed

lemma session_ops_ready: "running_ready s \<Longrightarrow> session_ops P as s = Some s' \<Longrightarrow> running_ready s'"
proof (induction "as" arbitrary: s)
  case (Cons a as')
  then obtain z where "session_apply P a s = Some z" "session_ops P as' z = Some s'"
    by (auto simp: bind_eq_Some_conv)
  then show ?case using Cons session_apply_ready by blast
qed simp

lemma session_apply_terminal:
  assumes "phase_terminal (ls_phase s)" "session_apply P a s = Some s'"
  shows "ls_phase s' = ls_phase s"
proof (cases a)
  case DoPersist
  obtain r z where "session_persist P s = (r, z)" by fastforce
  then show ?thesis using assms session_persist_frame [of P s r z] by (auto simp: DoPersist)
next
  case DoReconcile
  obtain r z where "session_reconcile P s = (r, z)" by fastforce
  then show ?thesis using assms session_reconcile_frame [of P s r z] by (auto simp: DoReconcile)
qed (use assms in \<open>auto simp: session_start_def session_step_def session_halt_def session_resume_def
       session_shutdown_def request_stop_def phase_terminal_def\<close>)

lemma session_ops_terminal:
  "phase_terminal (ls_phase s) \<Longrightarrow> session_ops P as s = Some s' \<Longrightarrow> ls_phase s' = ls_phase s"
proof (induction "as" arbitrary: s)
  case (Cons a as')
  then obtain z where z: "session_apply P a s = Some z" "session_ops P as' z = Some s'"
    by (auto simp: bind_eq_Some_conv)
  note e = session_apply_terminal [OF Cons.prems(1) z(1)]
  with Cons.prems(1) have "phase_terminal (ls_phase z)" by simp
  from Cons.IH [OF this z(2)] e show ?case by simp
qed simp

section \<open>What the session promises\<close>

definition keeps_what_it_saves :: "'w StateStore \<Rightarrow> bool" where
  "keeps_what_it_saves st \<longleftrightarrow> (\<forall>k v w. is_ok (fst (so_save st k v w)) \<longrightarrow>
     so_load st k (snd (so_save st k v w)) = Some (Ok v))"

definition new_session ::
    "LiveSessionConfig \<Rightarrow> LiveConnection \<Rightarrow> LiveBroker \<Rightarrow> 's Engine \<Rightarrow> 'w \<Rightarrow> ('s, 'w) LiveSession" where
  "new_session cfg c b e w = \<lparr>ls_config = cfg, ls_connection = c, ls_adapter = new_adapter, ls_broker = b,
     ls_engine = e, ls_engaged = False, ls_phase = PhCreated, ls_session_stats = no_session_stats,
     ls_halt_reason = NotHalted, ls_stop_requested = False, ls_sequence = 0, ls_hash = fnv_offset,
     ls_last_event = kNoTimestamp, ls_last_sync = kNoTimestamp, ls_world = w\<rparr>"

text \<open>
  C25: A running session is on a connection that may trade. After any sequence of calls on a new session, if
  its phase is running then its connection is ready, so trading is permitted exactly while the phase is
  running; and a stopped or failed session stays stopped or failed whatever is called next.
\<close>

theorem a_running_session_may_trade:
  assumes "session_ops P as (new_session cfg c b e w) = Some s"
  shows "session_trading_permitted s = (ls_phase s = PhRunning)
    \<and> (case session_ops P bs s of None \<Rightarrow> True
       | Some s' \<Rightarrow> if phase_terminal (ls_phase s) then ls_phase s' = ls_phase s else True)"
proof -
  have "running_ready (new_session cfg c b e w)" by (simp add: running_ready_def new_session_def)
  then have "running_ready s" using session_ops_ready assms by blast
  then show ?thesis
    using session_ops_terminal [of s P bs]
    by (auto simp: session_trading_permitted_def running_ready_def permits_trading_def split: option.split)
qed

text \<open>
  The broker's poll takes the market data too. With a transport whose poll takes everything that has
  arrived, and no event left over in the adapter's buffer, a step hands the engine nothing: no event is
  processed, nothing is buffered, and of the engine, its portfolio, its orders and its journal included,
  only the simulator's pending orders can have changed, whatever quotes, trades and fills the venue sent.
\<close>

theorem a_live_step_hands_the_engine_nothing:
  assumes "polls_dry (sp_clock P) (sp_transport P) dry" "ad_buffer (ls_adapter s) = []"
    and "session_step P n s = Some (r, s')"
  shows "ad_buffer (ls_adapter s') = [] \<and> only_simulator (ls_engine s) (ls_engine s')
    \<and> (case r of Inr k \<Rightarrow> k = 0 | Inl _ \<Rightarrow> True)"
  by (rule session_step_dry [OF assms])

text \<open>
  A restart keeps what protects the book. When the store gives back what was saved, a new session under
  the same configuration that recovers from a persisted one has the same listener, the same highest venue
  sequence, event count and state sequence: a redelivered message is still a duplicate, and a reply to an
  order of the old session still finds its order.
\<close>

theorem a_restart_keeps_the_book:
  assumes "session_persist P s = (Ok True, z1)"
    and "keeps_what_it_saves (sp_store P)"
    and "listener_ok (lb_listener (ls_broker s))"
    and "ls_world fresh = ls_world z1" "ls_config fresh = ls_config s"
  shows "case session_recover P fresh of (r, z2) \<Rightarrow> r = Ok True
    \<and> lb_listener (ls_broker z2) = lb_listener (ls_broker s)
    \<and> lc_last_sequence (ls_connection z2) = lc_last_sequence (ls_connection s)
    \<and> lss_events (ls_session_stats z2) = lss_events (ls_session_stats s) \<and> ls_sequence z2 = ls_sequence z1"
proof -
  obtain v s1' where c: "session_capture P s = (v, s1')" by fastforce
  let ?k = "state_key (ls_config s)" and ?v = "v\<lparr>sv_sequence := ls_sequence s + 1\<rparr>"
  have v: "sv_fingerprint v = lsc_fingerprint (ls_config s)" "sv_events v = lss_events (ls_session_stats s)"
    "sv_last_venue_sequence v = lc_last_sequence (ls_connection s)"
    "sv_tracked_orders v = listener_snapshot (lb_listener (ls_broker s))"
    and keep: "ls_config s1' = ls_config s" "ls_sequence s1' = ls_sequence s"
    using c by (auto simp: session_capture_def session_now_def split: prod.splits)
  obtain r w where sv: "so_save (sp_store P) ?k ?v (ls_world s1') = (r, w)" by fastforce
  have ok: "is_ok r" and z1: "ls_world z1 = w" "ls_sequence z1 = ls_sequence s + 1"
    using assms(1) by (auto simp: session_persist_def c sv keep Let_def split: sum.splits)
  have "so_load (sp_store P) ?k w = Some (Ok ?v)"
    using assms(2) sv ok by (auto simp: keeps_what_it_saves_def dest!: spec [of _ ?k] spec [of _ ?v] spec [of _ "ls_world s1'"])
  then show ?thesis
    using assms(4,5) listener_roundtrip [OF assms(3)] v z1
    by (simp add: session_recover_def restore_sequence_def Let_def split: prod.split)
qed

section \<open>A session to try it on\<close>

definition idle_strategy :: "unit IStrategy" where
  "idle_strategy = \<lparr>on_start = \<lambda>_ s. (Ok True, s), on_bar = \<lambda>_. Return, on_quote = \<lambda>_. Return,
     on_trade = \<lambda>_. Return, on_fill = \<lambda>_ _ s. s, on_session_open = \<lambda>_. Return,
     on_session_close = \<lambda>_. Return, on_stop = \<lambda>_ s. s\<rparr>"

definition sample_engine :: "unit Engine" where
  "sample_engine = \<lparr>en_clock = \<lparr>clock_now = 0\<rparr>, en_source = \<lparr>rs_events = [], rs_next = 0, rs_first = kNoTimestamp\<rparr>,
     en_strategy = (), en_broker = sample_broker no_costs [], en_portfolio = new_portfolio default_portfolio_config,
     en_oms = new_book, en_risk = \<lparr>rm_limits = default_limits, rm_rejections = []\<rparr>, en_journal = empty_journal,
     en_cfg = \<lparr>snapshot_on_session_close = True, snapshot_on_bar = False, halt_on_risk_rejection = False,
       default_interval_volume = fzero\<rparr>, en_summary = no_summary, en_started = False, en_state = [],
     en_last_update = [], en_peak_equity = fzero, en_turnover_today = fzero, en_violation_count = 0,
     en_detail_text = \<lambda>_. [], en_error_text = \<lambda>_. []\<rparr>"

text \<open>A world of the time, whether the transport is open, what has arrived, and what was saved.\<close>

type_synonym session_world = "Timestamp \<times> bool \<times> BrokerMessage list \<times> LiveSessionState option"

definition sample_ports :: "(unit, session_world) SessionPorts" where
  "sample_ports = \<lparr>sp_clock = \<lambda>(t, up, i, v). (t, (t + 10 ^ 9, up, i, v)),
     sp_transport = \<lparr>tr_open = \<lambda>(t, up, i, v). (Ok True, (t, True, i, v)), tr_close = \<lambda>(t, up, i, v). (t, False, i, v),
       tr_is_open = \<lambda>(t, up, i, v). up, tr_send = \<lambda>p w. (Ok True, w), tr_poll = \<lambda>(t, up, i, v). (i, (t, up, [], v))\<rparr>,
     sp_translator = alpaca sample_alpaca, sp_strategy = idle_strategy,
     sp_store = \<lparr>so_load = \<lambda>k (t, up, i, v). map_option Ok v, so_save = \<lambda>k x (t, up, i, v). (Ok True, (t, up, i, Some x))\<rparr>\<rparr>"

definition sample_session :: "BrokerMessage list \<Rightarrow> (unit, session_world) LiveSession" where
  "sample_session msgs = new_session default_live_session (new_connection default_heartbeat default_supervisor)
     (new_live_broker default_live_broker) sample_engine (0, False, msgs, None)"

lemma sample_polls_dry: "polls_dry (sp_clock sample_ports) (sp_transport sample_ports) (\<lambda>(t, up, i, v). i = [])"
  by (auto simp: polls_dry_def sample_ports_def)

lemma sample_store_keeps: "keeps_what_it_saves (sp_store sample_ports)"
  by (auto simp: keeps_what_it_saves_def sample_ports_def)

lemma sample_start:
  "\<exists>s. session_start sample_ports (sample_session msgs) = (Ok True, s) \<and> ls_phase s = PhRunning
     \<and> ls_engaged s \<and> ad_buffer (ls_adapter s) = [] \<and> listener_ok (lb_listener (ls_broker s))"
  by (simp add: session_start_def sample_session_def new_session_def connect_def new_connection_def sample_ports_def
      session_recover_def mark_synchronized_def session_now_def engine_begin_def idle_strategy_def new_adapter_def
      new_live_broker_def Let_def)

theorem a_running_session_may_trade_witness:
  "\<exists>s. session_ops sample_ports [DoStart] (sample_session []) = Some s \<and> session_trading_permitted s"
proof -
  obtain s where s: "session_start sample_ports (sample_session []) = (Ok True, s)" "ls_phase s = PhRunning"
    using sample_start by blast
  then have "session_ops sample_ports [DoStart] (sample_session []) = Some s" by simp
  moreover from a_running_session_may_trade [OF this [unfolded sample_session_def]]
  have "session_trading_permitted s" using s(2) by simp
  ultimately show ?thesis by blast
qed

theorem a_live_step_hands_the_engine_nothing_witness:
  "\<exists>s. session_start sample_ports (sample_session [new_message MsgQuote]) = (Ok True, s)
     \<and> (case session_step sample_ports 10 s of None \<Rightarrow> True | Some (r, s') \<Rightarrow> only_simulator (ls_engine s) (ls_engine s'))"
proof -
  obtain s where s: "session_start sample_ports (sample_session [new_message MsgQuote]) = (Ok True, s)"
    "ad_buffer (ls_adapter s) = []"
    using sample_start by blast
  have "only_simulator (ls_engine s) (ls_engine s')" if "session_step sample_ports 10 s = Some (r, s')" for r s'
    using a_live_step_hands_the_engine_nothing [OF sample_polls_dry s(2) that] by blast
  with s(1) show ?thesis by (auto split: option.split)
qed

theorem a_restart_keeps_the_book_witness:
  "\<exists>s z1. session_start sample_ports (sample_session []) = (Ok True, s) \<and> session_persist sample_ports s = (Ok True, z1)
     \<and> fst (session_recover sample_ports ((sample_session [])\<lparr>ls_world := ls_world z1, ls_config := ls_config s\<rparr>)) = Ok True"
proof -
  obtain s where s: "session_start sample_ports (sample_session []) = (Ok True, s)" "listener_ok (lb_listener (ls_broker s))"
    using sample_start by blast
  obtain z1 where z1: "session_persist sample_ports s = (Ok True, z1)"
    by (cases "session_persist sample_ports s")
      (auto simp: session_persist_def sample_ports_def Let_def split: prod.splits)
  show ?thesis
    using a_restart_keeps_the_book [OF z1 sample_store_keeps s(2),
      of "(sample_session [])\<lparr>ls_world := ls_world z1, ls_config := ls_config s\<rparr>"] s(1) z1
    by (auto split: prod.splits)
qed

end
