(* ===== verification/PaperBroker.thy ===== *)
theory PaperBroker
  imports Broker Portfolio
begin

text \<open>
  The paper trading account and its broker adapter (\<open>src/paper/account.cpp\<close>, \<open>src/paper/broker.cpp\<close>).

  The account reads a portfolio it does not own: every figure is a function of the account and the
  portfolio. The adapter borrows the clock, the simulator and the account: they are arguments, and the
  simulator is returned updated. A text built from an error is the error's constructor.
\<close>

section \<open>The account\<close>

record MarginConfig =
  mg_initial :: f64
  mg_maintenance :: f64
  mg_multiplier :: f64
  mg_allow_short :: bool
  mg_interest_rate :: f64

definition default_margin :: MarginConfig where
  "default_margin = \<lparr>mg_initial = lit (1 / 2), mg_maintenance = lit (1 / 4), mg_multiplier = lit 2,
     mg_allow_short = True, mg_interest_rate = lit (55 / 1000)\<rparr>"

datatype AccountStatus = AcctActive | AcctMarginCall | AcctLiquidation | AcctSuspended

fun to_string_AccountStatus :: "AccountStatus \<Rightarrow> string" where
  "to_string_AccountStatus AcctActive = ''active''"
| "to_string_AccountStatus AcctMarginCall = ''margin_call''"
| "to_string_AccountStatus AcctLiquidation = ''liquidation''"
| "to_string_AccountStatus AcctSuspended = ''suspended''"

record PaperAccount =
  pa_config :: MarginConfig
  pa_suspended :: bool

definition new_account :: "MarginConfig \<Rightarrow> PaperAccount" where
  "new_account cfg = \<lparr>pa_config = cfg, pa_suspended = False\<rparr>"

definition account_suspend :: "PaperAccount \<Rightarrow> PaperAccount" where
  "account_suspend a = a\<lparr>pa_suspended := True\<rparr>"

definition account_resume :: "PaperAccount \<Rightarrow> PaperAccount" where
  "account_resume a = a\<lparr>pa_suspended := False\<rparr>"

definition maintenance_requirement :: "PaperAccount \<Rightarrow> Portfolio \<Rightarrow> Notional" where
  "maintenance_requirement a pf =
     (let gross = gross_exposure pf in
      if \<not> is_finite gross then fzero else fmul gross (mg_maintenance (pa_config a)))"

definition margin_excess :: "PaperAccount \<Rightarrow> Portfolio \<Rightarrow> Notional" where
  "margin_excess a pf =
     (let eq = equity pf; requirement = maintenance_requirement a pf in
      if \<not> is_finite eq \<or> \<not> is_finite requirement then fzero else fsub eq requirement)"

definition available_buying_power :: "PaperAccount \<Rightarrow> Portfolio \<Rightarrow> Notional" where
  "available_buying_power a pf =
     (let eq = equity pf in
      if \<not> is_finite eq \<or> fle eq fzero then fzero
      else
        (let whole = fmul eq (mg_multiplier (pa_config a));
             used = gross_exposure pf;
             available = fsub whole used in
         fmax fzero (if is_finite available then available else fzero)))"

definition account_status :: "PaperAccount \<Rightarrow> Portfolio \<Rightarrow> AccountStatus" where
  "account_status a pf =
     (if pa_suspended a then AcctSuspended
      else
        (let eq = equity pf in
         if \<not> is_finite eq \<or> fle eq fzero then AcctLiquidation
         else if flt (margin_excess a pf) fzero then AcctMarginCall
         else AcctActive))"

datatype account_error = AccountSuspended | EquityExhausted | UnderMarginCall | ShortingNotPermitted
  | NotionalNotFinite | OverBuyingPower Notional Notional

definition can_accept ::
    "Notional \<Rightarrow> Side \<Rightarrow> bool \<Rightarrow> PaperAccount \<Rightarrow> Portfolio \<Rightarrow> (account_error, bool) result" where
  "can_accept order_notional side reduces_risk a pf =
     (let current = account_status a pf in
      if current = AcctSuspended then Err AccountSuspended
      else if current = AcctLiquidation then Err EquityExhausted
      else if current = AcctMarginCall \<and> \<not> reduces_risk then Err UnderMarginCall
      else if side = Sell \<and> \<not> mg_allow_short (pa_config a) \<and> \<not> reduces_risk then Err ShortingNotPermitted
      else
        (let amount = fabs order_notional in
         if \<not> is_finite amount then Err NotionalNotFinite
         else if \<not> reduces_risk \<and> flt (available_buying_power a pf) amount
         then Err (OverBuyingPower amount (available_buying_power a pf))
         else Ok True))"

definition accrue_interest :: "Duration \<Rightarrow> PaperAccount \<Rightarrow> Portfolio \<Rightarrow> Notional" where
  "accrue_interest elapsed a pf =
     (if elapsed \<le> 0 then fzero
      else
        (let cash = pf_cash pf in
         if \<not> is_finite cash \<or> fle fzero cash then fzero
         else
           (let years = fdiv (of_int64 elapsed) (lit (31557600 * 10 ^ 9));
                interest = fmul (fmul (fneg cash) (mg_interest_rate (pa_config a))) years in
            if is_finite interest then fneg interest else fzero)))"

record AccountSnapshot =
  as_ts :: Timestamp
  as_cash :: Notional
  as_equity :: Notional
  as_position_value :: Notional
  as_realized_pnl :: Notional
  as_unrealized_pnl :: Notional
  as_total_costs :: Notional
  as_gross_exposure :: Notional
  as_net_exposure :: Notional
  as_maintenance_requirement :: Notional
  as_margin_excess :: Notional
  as_available_buying_power :: Notional
  as_status :: AccountStatus

definition account_snapshot :: "Timestamp \<Rightarrow> PaperAccount \<Rightarrow> Portfolio \<Rightarrow> AccountSnapshot" where
  "account_snapshot ts a pf = \<lparr>as_ts = ts, as_cash = pf_cash pf, as_equity = equity pf,
     as_position_value = position_value pf, as_realized_pnl = pf_realized pf,
     as_unrealized_pnl = unrealized_pnl pf, as_total_costs = pf_costs pf,
     as_gross_exposure = gross_exposure pf, as_net_exposure = net_exposure pf,
     as_maintenance_requirement = maintenance_requirement a pf, as_margin_excess = margin_excess a pf,
     as_available_buying_power = available_buying_power a pf, as_status = account_status a pf\<rparr>"

section \<open>The broker adapter\<close>

datatype AckStatus = AckAccepted | AckRejected | AckPending

fun to_string_AckStatus :: "AckStatus \<Rightarrow> string" where
  "to_string_AckStatus AckAccepted = ''accepted''"
| "to_string_AckStatus AckRejected = ''rejected''"
| "to_string_AckStatus AckPending = ''pending''"

datatype RejectReason = RrNone | RrNotConnected | RrExceedsVenueLimit | RrInsufficientBuyingPower
  | RrMarginCall | RrShortNotPermitted | RrAccountSuspended | RrSimulatorRejected

fun to_string_RejectReason :: "RejectReason \<Rightarrow> string" where
  "to_string_RejectReason RrNone = ''none''"
| "to_string_RejectReason RrNotConnected = ''not_connected''"
| "to_string_RejectReason RrExceedsVenueLimit = ''exceeds_venue_limit''"
| "to_string_RejectReason RrInsufficientBuyingPower = ''insufficient_buying_power''"
| "to_string_RejectReason RrMarginCall = ''margin_call''"
| "to_string_RejectReason RrShortNotPermitted = ''short_not_permitted''"
| "to_string_RejectReason RrAccountSuspended = ''account_suspended''"
| "to_string_RejectReason RrSimulatorRejected = ''simulator_rejected''"

fun reason_value :: "RejectReason \<Rightarrow> 8 word" where
  "reason_value RrNone = 0"
| "reason_value RrNotConnected = 1"
| "reason_value RrExceedsVenueLimit = 2"
| "reason_value RrInsufficientBuyingPower = 3"
| "reason_value RrMarginCall = 4"
| "reason_value RrShortNotPermitted = 5"
| "reason_value RrAccountSuspended = 6"
| "reason_value RrSimulatorRejected = 7"

text \<open>Why an order was refused: the reason's name, or the simulator's own message.\<close>

datatype reject_text = NoText | ReasonText RejectReason | SimulatorText broker_error

record OrderAck =
  ack_order_id :: OrderId
  ack_status :: AckStatus
  ack_at :: Timestamp
  ack_reject_reason :: reject_text

definition ack_accepted :: "OrderAck \<Rightarrow> bool" where
  "ack_accepted a \<longleftrightarrow> ack_status a = AckAccepted"

record PaperBrokerConfig =
  pbc_ack_latency :: Duration
  pbc_max_order_notional :: Notional
  pbc_reject_every_n :: nat
  pbc_enforce_buying_power :: bool

definition default_paper_broker :: PaperBrokerConfig where
  "default_paper_broker = \<lparr>pbc_ack_latency = 5 * 10 ^ 6, pbc_max_order_notional = lit (10 ^ 7),
     pbc_reject_every_n = 0, pbc_enforce_buying_power = True\<rparr>"

record BrokerStats =
  bs_submitted :: nat
  bs_accepted :: nat
  bs_rejected :: nat
  bs_cancelled :: nat
  bs_fills_routed :: nat
  bs_by_reason :: "(8 word, nat) omap"

record PaperBroker =
  pb_config :: PaperBrokerConfig
  pb_connected :: bool
  pb_stats :: BrokerStats
  pb_pending :: "Fill list"
  pb_working :: "(OrderId, bool) omap"

definition new_paper_broker :: "PaperBrokerConfig \<Rightarrow> PaperBroker" where
  "new_paper_broker cfg = \<lparr>pb_config = cfg, pb_connected = False,
     pb_stats = \<lparr>bs_submitted = 0, bs_accepted = 0, bs_rejected = 0, bs_cancelled = 0, bs_fills_routed = 0,
       bs_by_reason = []\<rparr>, pb_pending = [], pb_working = []\<rparr>"

abbreviation with_pb_stats :: "(BrokerStats \<Rightarrow> BrokerStats) \<Rightarrow> PaperBroker \<Rightarrow> PaperBroker" where
  "with_pb_stats g b \<equiv> b\<lparr>pb_stats := g (pb_stats b)\<rparr>"

datatype paper_error = SubmitDisconnected | CancelDisconnected | FromSimulator broker_error

definition paper_connect :: "PaperBroker \<Rightarrow> (paper_error, bool) result \<times> PaperBroker" where
  "paper_connect b = (Ok True, b\<lparr>pb_connected := True\<rparr>)"

definition paper_disconnect :: "PaperBroker \<Rightarrow> PaperBroker" where
  "paper_disconnect b = b\<lparr>pb_connected := False\<rparr>"

definition screen :: "Order \<Rightarrow> PaperAccount \<Rightarrow> Portfolio \<Rightarrow> PaperBroker \<Rightarrow> RejectReason" where
  "screen o1 a pf b =
     (if \<not> pb_connected b then RrNotConnected
      else
        (let reference = (case ord_limit_price o1 of Some p \<Rightarrow> p | None \<Rightarrow> ord_arrival_price o1);
             amount = fmul (ord_quantity o1) reference in
         if flt fzero (pbc_max_order_notional (pb_config b)) \<and> is_finite amount
            \<and> flt (pbc_max_order_notional (pb_config b)) amount
         then RrExceedsVenueLimit
         else if pbc_enforce_buying_power (pb_config b) then
           (case can_accept amount (ord_side o1) False a pf of
              Inl _ \<Rightarrow> (case account_status a pf of
                  AcctSuspended \<Rightarrow> RrAccountSuspended
                | AcctMarginCall \<Rightarrow> RrMarginCall
                | AcctLiquidation \<Rightarrow> RrMarginCall
                | AcctActive \<Rightarrow> RrInsufficientBuyingPower)
            | Inr _ \<Rightarrow> RrNone)
         else RrNone))"

definition count_reason :: "RejectReason \<Rightarrow> BrokerStats \<Rightarrow> BrokerStats" where
  "count_reason reason st =
     (let before = (case om_find (bs_by_reason st) (reason_value reason) of None \<Rightarrow> 0 | Some n \<Rightarrow> n) in
      st\<lparr>bs_rejected := bs_rejected st + 1,
         bs_by_reason := om_put (reason_value reason) (before + 1) (bs_by_reason st)\<rparr>)"

definition record_rejection :: "RejectReason \<Rightarrow> OrderAck \<times> PaperBroker \<Rightarrow> OrderAck \<times> PaperBroker" where
  "record_rejection reason = (\<lambda>(ack, b).
     (ack\<lparr>ack_status := AckRejected, ack_reject_reason := ReasonText reason\<rparr>,
      with_pb_stats (count_reason reason) b))"

definition paper_submit ::
    "Timestamp \<Rightarrow> PaperAccount \<Rightarrow> Portfolio \<Rightarrow> Order \<Rightarrow> PaperBroker \<Rightarrow> BrokerSimulator
      \<Rightarrow> ((paper_error, OrderAck) result \<times> PaperBroker \<times> BrokerSimulator) option" where
  "paper_submit now a pf o1 b0 sim =
     (let b = with_pb_stats (\<lambda>st. st\<lparr>bs_submitted := bs_submitted st + 1\<rparr>) b0;
          ack = \<lparr>ack_order_id = ord_id o1, ack_status = AckPending,
                 ack_at = now + pbc_ack_latency (pb_config b), ack_reject_reason = NoText\<rparr>;
          reason = screen o1 a pf b in
      if reason \<noteq> RrNone then
        (let (ack', b') = record_rejection reason (ack, b) in
         Some (if reason = RrNotConnected then Err SubmitDisconnected else Ok ack', b', sim))
      else if 0 < pbc_reject_every_n (pb_config b) \<and> bs_submitted (pb_stats b) mod pbc_reject_every_n (pb_config b) = 0 then
        (let (ack', b') = record_rejection RrSimulatorRejected (ack, b) in Some (Ok ack', b', sim))
      else (case broker_submit now o1 sim of
              None \<Rightarrow> None
            | Some (Inl e, sim') \<Rightarrow>
                (let (ack', b') = record_rejection RrSimulatorRejected (ack, b) in
                 Some (Ok (ack'\<lparr>ack_reject_reason := SimulatorText e\<rparr>), b', sim'))
            | Some (Inr _, sim') \<Rightarrow>
                (let b' = with_pb_stats (\<lambda>st. st\<lparr>bs_accepted := bs_accepted st + 1\<rparr>) b in
                 Some (Ok (ack\<lparr>ack_status := AckAccepted\<rparr>),
                   b'\<lparr>pb_working := om_put (ord_id o1) True (pb_working b')\<rparr>, sim'))))"

definition paper_cancel ::
    "OrderId \<Rightarrow> PaperBroker \<Rightarrow> BrokerSimulator \<Rightarrow> (paper_error, bool) result \<times> PaperBroker \<times> BrokerSimulator" where
  "paper_cancel oid b sim =
     (if \<not> pb_connected b then (Err CancelDisconnected, b, sim)
      else (case broker_cancel oid sim of
              (Inl e, sim') \<Rightarrow> (Err (FromSimulator e), b, sim')
            | (Inr _, sim') \<Rightarrow>
                (Ok True, with_pb_stats (\<lambda>st. st\<lparr>bs_cancelled := bs_cancelled st + 1\<rparr>) b
                   \<lparr>pb_working := om_erase oid (pb_working b)\<rparr>, sim')))"

fun paper_route :: "Fill list \<Rightarrow> PaperBroker \<Rightarrow> PaperBroker" where
  "paper_route [] b = b"
| "paper_route (f # fs) b = paper_route fs
     (b\<lparr>pb_working := om_erase (f_order_id f) (pb_working b), pb_pending := pb_pending b @ [f]\<rparr>)"

definition poll_fills :: "PaperBroker \<Rightarrow> Fill list \<times> PaperBroker" where
  "poll_fills b = (pb_pending b,
     with_pb_stats (\<lambda>st. st\<lparr>bs_fills_routed := bs_fills_routed st + length (pb_pending b)\<rparr>) b\<lparr>pb_pending := []\<rparr>)"

definition paper_working_orders :: "PaperBroker \<Rightarrow> OrderId list" where
  "paper_working_orders b = map fst (filter snd (pb_working b))"

section \<open>What acceptance means\<close>

lemma buying_power_bounds:
  "fin (available_buying_power a pf) \<and> 0 \<le> val (available_buying_power a pf)"
  by (auto simp: available_buying_power_def Let_def fmax_def fzero_def is_finite_def flt_def)

lemma can_accept_ok:
  "can_accept n side red a pf = Ok True \<longleftrightarrow>
     (account_status a pf = AcctActive \<or> account_status a pf = AcctMarginCall \<and> red) \<and> is_finite (fabs n)
     \<and> (red \<or> (side = Buy \<or> mg_allow_short (pa_config a)) \<and> \<not> flt (available_buying_power a pf) (fabs n))"
  by (cases "account_status a pf"; cases side) (auto simp: can_accept_def Let_def)

lemma can_accept_value: "can_accept n side red a pf = Ok b \<Longrightarrow> b"
  by (auto simp: can_accept_def Let_def split: if_splits)

lemma active_account:
  "account_status a pf = AcctActive \<Longrightarrow> \<not> pa_suspended a \<and> fin (equity pf) \<and> 0 < val (equity pf)"
  by (auto simp: account_status_def Let_def f64_sem not_le split: if_splits)

text \<open>An order within what the account and the venue allow, read as real numbers.\<close>

definition within_account :: "Order \<Rightarrow> PaperAccount \<Rightarrow> Portfolio \<Rightarrow> PaperBroker \<Rightarrow> bool" where
  "within_account o1 a pf b \<longleftrightarrow>
     (let amount = fmul (ord_quantity o1) (case ord_limit_price o1 of Some p \<Rightarrow> p | None \<Rightarrow> ord_arrival_price o1);
          cap = pbc_max_order_notional (pb_config b) in
      pb_connected b
      \<and> (fin amount \<and> fin cap \<and> 0 < val cap \<longrightarrow> val amount \<le> val cap)
      \<and> (pbc_enforce_buying_power (pb_config b) \<longrightarrow>
           \<not> pa_suspended a \<and> 0 < val (equity pf) \<and> fin amount
           \<and> \<bar>val amount\<bar> \<le> val (available_buying_power a pf)
           \<and> (ord_side o1 = Sell \<longrightarrow> mg_allow_short (pa_config a))))"

lemma screen_none:
  assumes "screen o1 a pf b = RrNone"
  shows "within_account o1 a pf b"
proof -
  let ?amount = "fmul (ord_quantity o1) (case ord_limit_price o1 of Some p \<Rightarrow> p | None \<Rightarrow> ord_arrival_price o1)"
  have ok: "can_accept ?amount (ord_side o1) False a pf = Ok True" if "pbc_enforce_buying_power (pb_config b)"
    using that assms can_accept_value [of ?amount "ord_side o1" False a pf]
    by (cases "can_accept ?amount (ord_side o1) False a pf")
      (auto simp: screen_def Let_def split: if_splits AccountStatus.splits)
  have "pb_connected b" "fin ?amount \<and> fin (pbc_max_order_notional (pb_config b)) \<and> 0 < val (pbc_max_order_notional (pb_config b))
      \<longrightarrow> val ?amount \<le> val (pbc_max_order_notional (pb_config b))"
    using assms by (auto simp: screen_def Let_def f64_sem split: if_splits)
  then show ?thesis
    using ok buying_power_bounds [of a pf] active_account [of a pf]
    by (auto simp: within_account_def Let_def can_accept_ok f64_sem)
qed

lemma broker_submit_refused:
  "broker_submit now o1 b = Some (Err e, b') \<Longrightarrow> br_pending b' = br_pending b"
  by (auto simp: broker_submit_def count_rejected_def Let_def split: if_splits option.splits sum.splits)

lemma within_account_stats [simp]: "within_account o1 a pf (with_pb_stats g b) = within_account o1 a pf b"
  by (simp add: within_account_def)

lemma screen_stats [simp]: "screen o1 a pf (with_pb_stats g b) = screen o1 a pf b"
  unfolding screen_def Let_def by simp

lemma screen_disconnected: "screen o1 a pf b = RrNotConnected \<longleftrightarrow> \<not> pb_connected b"
  by (auto simp: screen_def Let_def split: if_splits sum.splits AccountStatus.splits)

lemma count_reason_accepted [simp]:
  "bs_accepted (count_reason q st) = bs_accepted st" "bs_submitted (count_reason q st) = bs_submitted st"
  "bs_rejected (count_reason q st) = bs_rejected st + 1" "bs_fills_routed (count_reason q st) = bs_fills_routed st"
  by (simp_all add: count_reason_def Let_def)

text \<open>
  C15: What an acknowledgement says is what happened at the venue. An accepted order was within the account and
  the venue's limits and stands at the end of the simulator's queue, untouched and due strictly later; a
  refused one, or one sent while disconnected, changes neither the queue nor the working set. The
  acknowledgement bears the order's identifier and the configured latency, the adapter makes no fill of its
  own, and every submission is counted once.
\<close>

theorem paper_submission:
  "case paper_submit now a pf o1 b sim of None \<Rightarrow> True | Some (r, b', sim') \<Rightarrow>
     pb_pending b' = pb_pending b \<and> bs_submitted (pb_stats b') = bs_submitted (pb_stats b) + 1
     \<and> (case r of
          Inr ack \<Rightarrow> pb_connected b \<and> ack_order_id ack = ord_id o1 \<and> ack_at ack = now + pbc_ack_latency (pb_config b)
            \<and> (if ack_accepted ack
               then within_account o1 a pf b
                 \<and> (\<exists>stamped arrival. with_arrival arrival o1 = Ok stamped \<and> now < arrival
                     \<and> br_pending sim' = br_pending sim @ [\<lparr>po_order = stamped, po_arrival_time = arrival,
                         po_filled = fzero, po_stop_triggered = False\<rparr>])
                 \<and> om_find (pb_working b') (ord_id o1) = Some True
               else ack_status ack = AckRejected \<and> br_pending sim' = br_pending sim \<and> pb_working b' = pb_working b
                 \<and> bs_rejected (pb_stats b') = bs_rejected (pb_stats b) + 1)
        | Inl e \<Rightarrow> \<not> pb_connected b \<and> sim' = sim \<and> pb_working b' = pb_working b)"
proof -
  let ?b = "with_pb_stats (\<lambda>st. st\<lparr>bs_submitted := bs_submitted st + 1\<rparr>) b"
  consider (screened) "screen o1 a pf b \<noteq> RrNone"
    | (nth) "screen o1 a pf b = RrNone"
        "0 < pbc_reject_every_n (pb_config b) \<and> bs_submitted (pb_stats ?b) mod pbc_reject_every_n (pb_config b) = 0"
    | (venue) "screen o1 a pf b = RrNone"
        "\<not> (0 < pbc_reject_every_n (pb_config b) \<and> bs_submitted (pb_stats ?b) mod pbc_reject_every_n (pb_config b) = 0)"
    by blast
  then show ?thesis
  proof cases
    case screened
    then show ?thesis
      by (auto simp: paper_submit_def record_rejection_def ack_accepted_def Let_def screen_disconnected)
  next
    case nth
    then show ?thesis
      using screen_disconnected [of o1 a pf b]
      by (auto simp: paper_submit_def record_rejection_def ack_accepted_def Let_def)
  next
    case venue
    note conn = screen_disconnected [of o1 a pf b] screen_none [OF venue(1)]
    show ?thesis
    proof (cases "broker_submit now o1 sim")
      case None
      with venue show ?thesis by (auto simp: paper_submit_def Let_def)
    next
      case (Some x)
      obtain q sim' where x: "x = (q, sim')" by (cases x)
      show ?thesis
      proof (cases q)
        case (Inl e)
        from broker_submit_refused [OF Some [unfolded x Inl]] venue conn show ?thesis
          by (auto simp: paper_submit_def record_rejection_def ack_accepted_def Let_def Some x Inl)
      next
        case (Inr arrival)
        from broker_submit_Ok [OF Some [unfolded x Inr]] obtain stamped flight where
          "arrival = now + max 1 flight" "with_arrival arrival o1 = Ok stamped"
          "br_pending sim' = br_pending sim @ [\<lparr>po_order = stamped, po_arrival_time = arrival, po_filled = fzero,
             po_stop_triggered = False\<rparr>]" by blast
        moreover from this(1) have "now < arrival" by simp
        ultimately show ?thesis using venue conn
          by (auto simp: paper_submit_def ack_accepted_def Let_def Some x Inr omap_simps)
      qed
    qed
  qed
qed

text \<open>
  A margin call traps the book. The account lets a risk-reducing order through under a margin call, but the
  adapter always asks as if the order added risk: with buying power enforced, every order is refused
  under a margin call, the ones that would close the position which caused it included.
\<close>

theorem margin_call_refuses_closing_orders:
  assumes "account_status a pf = AcctMarginCall" "pbc_enforce_buying_power (pb_config b)"
  shows "can_accept n side True a pf = (if fin n then Ok True else Err NotionalNotFinite)
    \<and> (case paper_submit now a pf o1 b sim of None \<Rightarrow> False | Some (r, b', sim') \<Rightarrow>
         sim' = sim \<and> (case r of Inl _ \<Rightarrow> \<not> pb_connected b | Inr ack \<Rightarrow> \<not> ack_accepted ack))"
proof -
  have r: "screen o1 a pf b \<noteq> RrNone"
    using assms by (auto simp: screen_def can_accept_def Let_def)
  have "can_accept n side True a pf = (if fin n then Ok True else Err NotionalNotFinite)"
    using assms(1) by (simp add: can_accept_def Let_def)
  then show ?thesis
    using r by (simp add: paper_submit_def record_rejection_def ack_accepted_def Let_def screen_disconnected)
qed

section \<open>Any sequence of calls\<close>

datatype paper_op = PConnect | PDisconnect | PSubmit Timestamp PaperAccount Portfolio Order | PCancel OrderId
  | PRoute "Fill list" | PPoll

text \<open>The adapter, the simulator behind it, and the fills its polls have returned so far, in order.\<close>

fun paper_apply ::
    "paper_op \<Rightarrow> PaperBroker \<times> BrokerSimulator \<times> Fill list \<Rightarrow> (PaperBroker \<times> BrokerSimulator \<times> Fill list) option" where
  "paper_apply PConnect (b, sim, fs) = Some (snd (paper_connect b), sim, fs)"
| "paper_apply PDisconnect (b, sim, fs) = Some (paper_disconnect b, sim, fs)"
| "paper_apply (PSubmit now a pf o1) (b, sim, fs) =
     (case paper_submit now a pf o1 b sim of None \<Rightarrow> None | Some (r, b', sim') \<Rightarrow> Some (b', sim', fs))"
| "paper_apply (PCancel oid) (b, sim, fs) = (case paper_cancel oid b sim of (r, b', sim') \<Rightarrow> Some (b', sim', fs))"
| "paper_apply (PRoute gs) (b, sim, fs) = Some (paper_route gs b, sim, fs)"
| "paper_apply PPoll (b, sim, fs) = (case poll_fills b of (gs, b') \<Rightarrow> Some (b', sim, fs @ gs))"

fun paper_ops ::
    "paper_op list \<Rightarrow> PaperBroker \<times> BrokerSimulator \<times> Fill list \<Rightarrow> (PaperBroker \<times> BrokerSimulator \<times> Fill list) option" where
  "paper_ops [] s = Some s"
| "paper_ops (x # xs) s = Option.bind (paper_apply x s) (paper_ops xs)"

fun routed :: "paper_op list \<Rightarrow> Fill list" where
  "routed [] = []"
| "routed (PRoute gs # xs) = gs @ routed xs"
| "routed (_ # xs) = routed xs"

definition reasons_counted :: "BrokerStats \<Rightarrow> nat" where
  "reasons_counted st = sum_list (om_values (bs_by_reason st))"

definition paper_stats_ok :: "PaperBroker \<Rightarrow> bool" where
  "paper_stats_ok b \<longleftrightarrow>
     (let st = pb_stats b in bs_submitted st = bs_accepted st + bs_rejected st
       \<and> bs_rejected st = reasons_counted st \<and> om_inv (bs_by_reason st))"

lemma sum_put:
  fixes n :: nat
  shows "om_inv m \<Longrightarrow> sum_list (om_values (om_put k (Suc (case om_find m k of None \<Rightarrow> 0 | Some n \<Rightarrow> n)) m))
    = Suc (sum_list (om_values m))"
proof (induction m)
  case (Cons p m)
  obtain j w where p: "p = (j, w)" by (cases p)
  have fresh: "om_find m k = None" if "k < j"
    using Cons.prems that by (auto simp: p om_find_def map_of_eq_None_iff)
  show ?case using Cons fresh by (auto simp: p om_values_def om_find_Cons)
qed (simp add: om_values_def)

lemma count_reason_ok:
  "om_inv (bs_by_reason st) \<Longrightarrow> om_inv (bs_by_reason (count_reason q st))
     \<and> reasons_counted (count_reason q st) = Suc (reasons_counted st)"
  using sum_put [of "bs_by_reason st" "reason_value q"]
  by (simp add: count_reason_def reasons_counted_def Let_def om_inv_put)

lemma paper_submit_stats:
  assumes "paper_stats_ok b" "paper_submit now a pf o1 b sim = Some (r, b', sim')"
  shows "paper_stats_ok b'"
  using assms count_reason_ok [of "(pb_stats b)\<lparr>bs_submitted := bs_submitted (pb_stats b) + 1\<rparr>"]
  by (auto simp: paper_submit_def record_rejection_def paper_stats_ok_def reasons_counted_def Let_def
      split: if_splits option.splits sum.splits)

lemma paper_route_frame:
  "pb_stats (paper_route fs b) = pb_stats b" "pb_pending (paper_route fs b) = pb_pending b @ fs"
  by (induction fs arbitrary: b) auto

lemma paper_submit_fills:
  "paper_submit now a pf o1 b sim = Some (r, b', sim') \<Longrightarrow>
     pb_pending b' = pb_pending b \<and> bs_fills_routed (pb_stats b') = bs_fills_routed (pb_stats b)"
  by (auto simp: paper_submit_def record_rejection_def Let_def split: if_splits option.splits sum.splits)

text \<open>The fills delivered and those still queued are the ones routed, and the delivered ones are counted.\<close>

definition paper_inv :: "Fill list \<Rightarrow> PaperBroker \<times> BrokerSimulator \<times> Fill list \<Rightarrow> bool" where
  "paper_inv gs = (\<lambda>(b, sim, fs). paper_stats_ok b \<and> fs @ pb_pending b = gs \<and> bs_fills_routed (pb_stats b) = length fs)"

lemma paper_apply_inv:
  assumes "paper_inv gs (b, sim, fs)" "paper_apply x (b, sim, fs) = Some s'"
  shows "paper_inv (gs @ routed [x]) s'"
proof (cases x)
  case (PSubmit now a pf o1)
  with assms show ?thesis using paper_submit_stats [of b now a pf o1 sim] paper_submit_fills [of now a pf o1 b sim]
    by (auto simp: paper_inv_def split: option.splits)
next
  case (PRoute fs')
  with assms show ?thesis by (auto simp: paper_inv_def paper_route_frame paper_stats_ok_def)
qed (use assms in \<open>auto simp: paper_inv_def paper_connect_def paper_disconnect_def paper_cancel_def poll_fills_def
       paper_stats_ok_def reasons_counted_def Let_def split: if_splits sum.splits prod.splits\<close>)

lemma paper_ops_inv:
  "paper_inv gs s \<Longrightarrow> paper_ops xs s = Some s' \<Longrightarrow> paper_inv (gs @ routed xs) s'"
proof (induction xs arbitrary: gs s)
  case (Cons x xs)
  obtain b sim fs where s: "s = (b, sim, fs)" by (cases s)
  from Cons.prems obtain z where z: "paper_apply x s = Some z" "paper_ops xs z = Some s'"
    by (auto simp: bind_eq_Some_conv)
  have "paper_inv (gs @ routed [x]) z"
    using paper_apply_inv Cons.prems(1) z(1) unfolding s by blast
  from Cons.IH [OF this z(2)] show ?case by (cases x) simp_all
qed simp

text \<open>
  The adapter's books balance. Whatever is connected, submitted, cancelled, routed and polled, every
  submission is counted as accepted or rejected, every rejection under one reason, and the fills the polls
  returned followed by those still queued are exactly the fills routed, in order: none is lost, repeated or
  invented.
\<close>

theorem paper_broker_balances:
  "case paper_ops xs (new_paper_broker cfg, sim, []) of None \<Rightarrow> True | Some (b, sim', fs) \<Rightarrow>
     bs_submitted (pb_stats b) = bs_accepted (pb_stats b) + bs_rejected (pb_stats b)
     \<and> bs_rejected (pb_stats b) = sum_list (om_values (bs_by_reason (pb_stats b)))
     \<and> fs @ pb_pending b = routed xs \<and> bs_fills_routed (pb_stats b) = length fs"
proof -
  have "paper_inv [] (new_paper_broker cfg, sim, [])"
    by (simp add: paper_inv_def paper_stats_ok_def new_paper_broker_def reasons_counted_def om_values_def)
  from paper_ops_inv [OF this, of xs] show ?thesis
    by (auto simp: paper_inv_def paper_stats_ok_def reasons_counted_def Let_def split: option.split)
qed

section \<open>A book under a margin call\<close>

text \<open>A hundred shares held at 100 on 8000 borrowed: equity 2000 against a requirement of 2500.\<close>

definition called_book :: Portfolio where
  "called_book = (new_portfolio (default_portfolio_config\<lparr>initial_cash := Fin (- 8000)\<rparr>))
     \<lparr>pf_positions := [(0, (new_position 0)\<lparr>pos_quantity := Fin 100, pos_average_cost := Fin 100\<rparr>)]\<rparr>"

lemma called_book_values:
  "equity called_book = Fin 2000" "gross_exposure called_book = Fin 10000"
proof -
  have v: "position_value called_book = Fin 10000"
    by (simp add: called_book_def position_value_def sum_open_def market_value_def mark_for_def new_position_def
        new_portfolio_def is_flat_def f64_eval)
  show "equity called_book = Fin 2000"
    unfolding equity_def v by (simp add: called_book_def new_portfolio_def f64_eval)
  show "gross_exposure called_book = Fin 10000"
    by (simp add: called_book_def gross_exposure_def sum_open_def pos_gross_def mark_for_def new_position_def
        new_portfolio_def is_flat_def f64_eval)
qed

lemma called_book_margin_call: "account_status (new_account default_margin) called_book = AcctMarginCall"
  by (simp add: account_status_def margin_excess_def maintenance_requirement_def called_book_values new_account_def
      default_margin_def Let_def f64_eval)

theorem margin_call_refuses_closing_orders_witness:
  "case paper_submit 200 (new_account default_margin) called_book (sample_order 1 Sell (Fin 100))
       (snd (paper_connect (new_paper_broker default_paper_broker))) (sample_broker no_costs []) of
     None \<Rightarrow> False
   | Some (r, b', sim') \<Rightarrow> (case r of Inl _ \<Rightarrow> False | Inr ack \<Rightarrow> \<not> ack_accepted ack)"
proof -
  let ?b = "snd (paper_connect (new_paper_broker default_paper_broker))"
  have b: "pbc_enforce_buying_power (pb_config ?b)" "pb_connected ?b"
    by (simp_all add: paper_connect_def new_paper_broker_def default_paper_broker_def)
  from margin_call_refuses_closing_orders [OF called_book_margin_call b(1), where now = 200 and n = fzero
      and side = Sell and ?o1.0 = "sample_order 1 Sell (Fin 100)" and sim = "sample_broker no_costs []"] b(2)
  show ?thesis by (auto split: option.splits sum.splits)
qed

end
