(* ===== verification/PaperSession.thy ===== *)
theory PaperSession
  imports PaperBroker Executor CivilTime
begin

text \<open>
  The paper session (\<open>src/paper/session.cpp\<close>): start, step, pause, resume, persistence, recovery and the
  daily reset around the same engine a backtest runs.

  The session borrows every trading component; here the engine's record holds them, before the start too.
  Its clock and its source are the engine's: the simulated clock and the replay source, the feed a backtest
  has. The artifact store keeps the persisted state itself: the JSON text it is written as, and its reader,
  are not modelled. An exception of the replay source passes through the session, which is left as it was.
\<close>

section \<open>State\<close>

datatype SessionPhase = SpCreated | SpStarting | SpRunning | SpPaused | SpStopping | SpStopped | SpFailed

fun to_string_SessionPhase :: "SessionPhase \<Rightarrow> string" where
  "to_string_SessionPhase SpCreated = ''created''"
| "to_string_SessionPhase SpStarting = ''starting''"
| "to_string_SessionPhase SpRunning = ''running''"
| "to_string_SessionPhase SpPaused = ''paused''"
| "to_string_SessionPhase SpStopping = ''stopping''"
| "to_string_SessionPhase SpStopped = ''stopped''"
| "to_string_SessionPhase SpFailed = ''failed''"

definition paper_terminal :: "SessionPhase \<Rightarrow> bool" where
  "paper_terminal p \<longleftrightarrow> p = SpStopped \<or> p = SpFailed"

record SessionConfig =
  psc_session_id :: string
  psc_fingerprint :: "64 word"
  psc_persist_every :: nat
  psc_daily_reset :: bool
  psc_require_matching :: bool
  psc_margin :: MarginConfig
  psc_broker :: PaperBrokerConfig

definition default_paper_session :: SessionConfig where
  "default_paper_session = \<lparr>psc_session_id = ''paper'', psc_fingerprint = 0, psc_persist_every = 100,
     psc_daily_reset = True, psc_require_matching = True, psc_margin = default_margin,
     psc_broker = default_paper_broker\<rparr>"

record PersistedPosition =
  pp_instrument :: "32 word"
  pp_quantity :: f64
  pp_average_cost :: f64
  pp_realized_pnl :: f64

record PersistedOrder =
  pw_order_id :: "64 word"
  pw_instrument :: "32 word"
  pw_side :: "8 word"
  pw_quantity :: f64
  pw_filled :: f64

record SessionState =
  pst_session_id :: string
  pst_sequence :: "64 word"
  pst_saved_at :: Timestamp
  pst_phase :: SessionPhase
  pst_fingerprint :: "64 word"
  pst_events :: nat
  pst_last_event_time :: Timestamp
  pst_account :: AccountSnapshot
  pst_positions :: "PersistedPosition list"
  pst_working_orders :: "PersistedOrder list"
  pst_fills :: nat
  pst_orders :: nat

record SessionStats =
  pss_events :: nat
  pss_orders :: nat
  pss_orders_rejected :: nat
  pss_fills :: nat
  pss_persists :: nat
  pss_pauses :: nat
  pss_daily_resets :: nat
  pss_started_at :: Timestamp
  pss_stopped_at :: Timestamp

definition no_paper_stats :: SessionStats where
  "no_paper_stats = \<lparr>pss_events = 0, pss_orders = 0, pss_orders_rejected = 0, pss_fills = 0, pss_persists = 0,
     pss_pauses = 0, pss_daily_resets = 0, pss_started_at = kNoTimestamp, pss_stopped_at = kNoTimestamp\<rparr>"

definition paper_checksum :: "SessionState \<Rightarrow> 64 word" where
  "paper_checksum s =
     (let h1 = hash_bytes (map of_char (pst_session_id s)) fnv_offset;
          h2 = hash_bytes (bytes_le 8 (uint (pst_sequence s))) h1;
          h3 = hash_bytes (bytes_le 8 (uint (pst_fingerprint s))) h2;
          h4 = hash_bytes (bytes_le 8 (int (pst_events s))) h3;
          h5 = hash_bytes (bytes_le 8 (f64_bits (as_cash (pst_account s)))) h4;
          h6 = hash_bytes (bytes_le 8 (f64_bits (as_equity (pst_account s)))) h5;
          h7 = fold (\<lambda>p h. hash_bytes (bytes_le 8 (f64_bits (pp_average_cost p)))
                 (hash_bytes (bytes_le 8 (f64_bits (pp_quantity p)))
                   (hash_bytes (bytes_le 4 (uint (pp_instrument p))) h))) (pst_positions s) h6 in
      fold (\<lambda>o1 h. hash_bytes (bytes_le 8 (f64_bits (pw_filled o1)))
             (hash_bytes (bytes_le 8 (f64_bits (pw_quantity o1)))
               (hash_bytes (bytes_le 8 (uint (pw_order_id o1))) h))) (pst_working_orders s) h7)"

text \<open>\<open>ArtifactStore\<close>: what is stored under a key, if anything, and writing.\<close>

record 'w PaperStore =
  pt_load :: "string \<Rightarrow> 'w \<Rightarrow> (Error, SessionState) result option"
  pt_save :: "string \<Rightarrow> SessionState \<Rightarrow> 'w \<Rightarrow> (Error, bool) result \<times> 'w"

record ('s, 'w) PaperSession =
  ps_config :: SessionConfig
  ps_engine :: "'s Engine"
  ps_engaged :: bool
  ps_account :: PaperAccount
  ps_broker :: PaperBroker
  ps_phase :: SessionPhase
  ps_stats :: SessionStats
  ps_pause_reason :: string
  ps_stop_requested :: bool
  ps_sequence :: "64 word"
  ps_content_hash :: "64 word"
  ps_last_event :: Timestamp
  ps_session_date :: Timestamp
  ps_world :: 'w

datatype paper_session_error = PsAlreadyStarted | PsBroker paper_error | PsStore Error | PsOtherConfiguration
  | PsEngine engine_error | PsNotPaused SessionPhase | PsNotRunning SessionPhase | PsNotEngaged

definition new_paper_session ::
    "SessionConfig \<Rightarrow> 's Engine \<Rightarrow> PaperBroker \<Rightarrow> 'w \<Rightarrow> ('s, 'w) PaperSession" where
  "new_paper_session cfg e b w = \<lparr>ps_config = cfg, ps_engine = e, ps_engaged = False,
     ps_account = new_account (psc_margin cfg), ps_broker = b, ps_phase = SpCreated, ps_stats = no_paper_stats,
     ps_pause_reason = [], ps_stop_requested = False, ps_sequence = 0, ps_content_hash = fnv_offset,
     ps_last_event = kNoTimestamp, ps_session_date = kNoTimestamp, ps_world = w\<rparr>"

abbreviation with_paper_stats :: "(SessionStats \<Rightarrow> SessionStats) \<Rightarrow> ('s, 'w) PaperSession \<Rightarrow> ('s, 'w) PaperSession" where
  "with_paper_stats g s \<equiv> s\<lparr>ps_stats := g (ps_stats s)\<rparr>"

definition paper_now :: "('s, 'w) PaperSession \<Rightarrow> Timestamp" where
  "paper_now s = clock_now (en_clock (ps_engine s))"

section \<open>Capture, persistence, recovery\<close>

definition persisted_positions :: "Portfolio \<Rightarrow> PersistedPosition list" where
  "persisted_positions pf = map (\<lambda>(key, p). \<lparr>pp_instrument = key, pp_quantity = pos_quantity p,
     pp_average_cost = pos_average_cost p, pp_realized_pnl = pos_realized p\<rparr>)
     (filter (\<lambda>(key, p). \<not> is_flat p) (pf_positions pf))"

fun side_code :: "Side \<Rightarrow> 8 word" where
  "side_code Buy = 0"
| "side_code Sell = 1"

definition persisted_orders :: "OrderManager \<Rightarrow> PersistedOrder list" where
  "persisted_orders m = List.map_filter (\<lambda>oid. case find_order m oid of None \<Rightarrow> None | Some r \<Rightarrow>
     Some \<lparr>pw_order_id = oid, pw_instrument = ord_instrument (rec_order r), pw_side = side_code (ord_side (rec_order r)),
       pw_quantity = ord_quantity (rec_order r), pw_filled = rec_filled_quantity r\<rparr>) (working m)"

definition paper_capture :: "('s, 'w) PaperSession \<Rightarrow> SessionState" where
  "paper_capture s = \<lparr>pst_session_id = psc_session_id (ps_config s), pst_sequence = ps_sequence s,
     pst_saved_at = paper_now s, pst_phase = ps_phase s, pst_fingerprint = psc_fingerprint (ps_config s),
     pst_events = pss_events (ps_stats s), pst_last_event_time = ps_last_event s,
     pst_account = account_snapshot (paper_now s) (ps_account s) (en_portfolio (ps_engine s)),
     pst_positions = persisted_positions (en_portfolio (ps_engine s)),
     pst_working_orders = persisted_orders (en_oms (ps_engine s)),
     pst_fills = pss_fills (ps_stats s), pst_orders = pss_orders (ps_stats s)\<rparr>"

definition paper_key :: "SessionConfig \<Rightarrow> string" where
  "paper_key c = ''paper/'' @ psc_session_id c @ ''/state''"

definition paper_persist ::
    "'w PaperStore \<Rightarrow> ('s, 'w) PaperSession \<Rightarrow> (paper_session_error, bool) result \<times> ('s, 'w) PaperSession" where
  "paper_persist st z0 =
     (let state = paper_capture z0;
          s = z0\<lparr>ps_sequence := ps_sequence z0 + 1\<rparr>;
          (r, w) = pt_save st (paper_key (ps_config s)) (state\<lparr>pst_sequence := ps_sequence s\<rparr>) (ps_world s);
          z1 = s\<lparr>ps_world := w\<rparr> in
      case r of
        Inl e \<Rightarrow> (Err (PsStore e), z1)
      | Inr _ \<Rightarrow> (Ok True, with_paper_stats (\<lambda>x. x\<lparr>pss_persists := pss_persists x + 1\<rparr>) z1))"

definition paper_recover ::
    "'w PaperStore \<Rightarrow> ('s, 'w) PaperSession \<Rightarrow> (paper_session_error, bool) result \<times> ('s, 'w) PaperSession" where
  "paper_recover st s =
     (case pt_load st (paper_key (ps_config s)) (ps_world s) of
        None \<Rightarrow> (Ok True, s)
      | Some (Inl e) \<Rightarrow> (Err (PsStore e), s)
      | Some (Inr state) \<Rightarrow>
          if psc_require_matching (ps_config s) \<and> psc_fingerprint (ps_config s) \<noteq> 0
             \<and> pst_fingerprint state \<noteq> psc_fingerprint (ps_config s)
          then (Err PsOtherConfiguration, s)
          else (Ok True, (with_paper_stats (\<lambda>x. x\<lparr>pss_events := pst_events state, pss_fills := pst_fills state,
                  pss_orders := pst_orders state\<rparr>) s)
                 \<lparr>ps_sequence := pst_sequence state, ps_last_event := pst_last_event_time state\<rparr>))"

section \<open>Start, pause, resume\<close>

definition default_engine_config :: EngineConfig where
  "default_engine_config = \<lparr>snapshot_on_session_close = True, snapshot_on_bar = False,
     halt_on_risk_rejection = False, default_interval_volume = fzero\<rparr>"

text \<open>A new engine over the components another engine holds.\<close>

definition emplace_engine :: "'s Engine \<Rightarrow> 's Engine" where
  "emplace_engine e = e\<lparr>en_cfg := default_engine_config, en_summary := no_summary, en_started := False,
     en_state := [], en_last_update := [], en_peak_equity := fzero, en_turnover_today := fzero,
     en_violation_count := 0\<rparr>"

definition paper_start ::
    "'s IStrategy \<Rightarrow> 'w PaperStore \<Rightarrow> ('s, 'w) PaperSession
      \<Rightarrow> (paper_session_error, bool) result \<times> ('s, 'w) PaperSession" where
  "paper_start S st s =
     (if ps_phase s \<noteq> SpCreated then (Err PsAlreadyStarted, s)
      else
        let (connected, b) = paper_connect (ps_broker s);
            z1 = s\<lparr>ps_phase := SpStarting, ps_broker := b\<rparr> in
        case connected of Inl e \<Rightarrow> (Err (PsBroker e), z1\<lparr>ps_phase := SpFailed\<rparr>) | Inr _ \<Rightarrow>
       (case paper_recover st z1 of
          (Inl e, z2) \<Rightarrow> (Err e, z2\<lparr>ps_phase := SpFailed\<rparr>)
        | (Inr _, z2) \<Rightarrow>
            (let (begun, e) = engine_begin S (emplace_engine (ps_engine z2));
                 z3 = z2\<lparr>ps_engine := e, ps_engaged := True\<rparr> in
             case begun of
               Inl err \<Rightarrow> (Err (PsEngine err), z3\<lparr>ps_phase := SpFailed\<rparr>)
             | Inr _ \<Rightarrow> (Ok True, with_paper_stats (\<lambda>x. x\<lparr>pss_started_at := paper_now z3\<rparr>) z3
                 \<lparr>ps_session_date := utc_date_floor (paper_now z3), ps_phase := SpRunning\<rparr>))))"

definition paper_pause :: "string \<Rightarrow> ('s, 'w) PaperSession \<Rightarrow> ('s, 'w) PaperSession" where
  "paper_pause reason s =
     (if paper_terminal (ps_phase s) then s
      else with_paper_stats (\<lambda>x. x\<lparr>pss_pauses := pss_pauses x + 1\<rparr>) s
        \<lparr>ps_phase := SpPaused, ps_pause_reason := reason, ps_broker := paper_disconnect (ps_broker s)\<rparr>)"

definition paper_resume :: "('s, 'w) PaperSession \<Rightarrow> (paper_session_error, bool) result \<times> ('s, 'w) PaperSession" where
  "paper_resume s =
     (if ps_phase s \<noteq> SpPaused then (Err (PsNotPaused (ps_phase s)), s)
      else
        let (connected, b) = paper_connect (ps_broker s); z1 = s\<lparr>ps_broker := b\<rparr> in
        case connected of
          Inl e \<Rightarrow> (Err (PsBroker e), z1)
        | Inr _ \<Rightarrow> (Ok True, z1\<lparr>ps_pause_reason := [], ps_phase := SpRunning\<rparr>))"

definition paper_request_stop :: "('s, 'w) PaperSession \<Rightarrow> ('s, 'w) PaperSession" where
  "paper_request_stop s = s\<lparr>ps_stop_requested := True\<rparr>"

definition paper_trading_permitted :: "('s, 'w) PaperSession \<Rightarrow> bool" where
  "paper_trading_permitted s \<longleftrightarrow> ps_phase s = SpRunning"

definition paper_account_snapshot :: "('s, 'w) PaperSession \<Rightarrow> AccountSnapshot" where
  "paper_account_snapshot s = account_snapshot (paper_now s) (ps_account s) (en_portfolio (ps_engine s))"

section \<open>One step\<close>

definition daily_reset ::
    "'w PaperStore \<Rightarrow> Timestamp \<Rightarrow> ('s, 'w) PaperSession
      \<Rightarrow> (paper_session_error, bool) result \<times> ('s, 'w) PaperSession" where
  "daily_reset st now s =
     (case paper_persist st s of
        (Inl e, z1) \<Rightarrow> (Err e, z1)
      | (Inr _, z1) \<Rightarrow>
          (Ok True, with_paper_stats (\<lambda>x. x\<lparr>pss_daily_resets := pss_daily_resets x + 1\<rparr>) z1
             \<lparr>ps_engine := (ps_engine z1)\<lparr>en_risk := reset_risk (en_risk (ps_engine z1))\<rparr>,
              ps_session_date := utc_date_floor now\<rparr>))"

text \<open>What the session reads off the engine after an event.\<close>

definition read_summary :: "('s, 'w) PaperSession \<Rightarrow> ('s, 'w) PaperSession" where
  "read_summary s =
     (let sm = en_summary (ps_engine s) in
      with_paper_stats (\<lambda>x. x\<lparr>pss_events := events_processed sm, pss_fills := sum_fills sm,
        pss_orders := orders_submitted sm, pss_orders_rejected := sum_orders_rejected sm\<rparr>) s
      \<lparr>ps_last_event := last_event sm,
       ps_content_hash := hash_bytes (bytes_le 8 (last_event sm)) (ps_content_hash s)\<rparr>)"

text \<open>The session's work between two events: the daily boundary, then the periodic persist.\<close>

definition between_events ::
    "'w PaperStore \<Rightarrow> ('s, 'w) PaperSession \<Rightarrow> (paper_session_error, bool) result \<times> ('s, 'w) PaperSession" where
  "between_events st s =
     (case (if psc_daily_reset (ps_config s) \<and> is_set (ps_last_event s) \<and> is_set (ps_session_date s)
               \<and> ps_session_date s < utc_date_floor (ps_last_event s)
            then daily_reset st (ps_last_event s) s else (Ok True, s)) of
        (Inl e, z1) \<Rightarrow> (Err e, z1)
      | (Inr _, z1) \<Rightarrow>
          if 0 < psc_persist_every (ps_config z1) \<and> pss_events (ps_stats z1) mod psc_persist_every (ps_config z1) = 0
          then paper_persist st z1 else (Ok True, z1))"

definition engine_threw :: "engine_error \<Rightarrow> bool" where
  "engine_threw err = (case err of Threw _ \<Rightarrow> True | _ \<Rightarrow> False)"

fun paper_events ::
    "'s IStrategy \<Rightarrow> 'w PaperStore \<Rightarrow> nat \<Rightarrow> nat \<Rightarrow> ('s, 'w) PaperSession
      \<Rightarrow> ((paper_session_error, nat) result \<times> ('s, 'w) PaperSession) option" where
  "paper_events S st 0 processed s = Some (Ok processed, s)"
| "paper_events S st (Suc n) processed s =
     (if ps_stop_requested s then Some (Ok processed, s)
      else (case engine_step S 1 (ps_engine s) of
              None \<Rightarrow> None
            | Some (Inl err, e) \<Rightarrow>
                Some (Err (PsEngine err),
                  if engine_threw err then s\<lparr>ps_engine := e\<rparr> else s\<lparr>ps_engine := e, ps_phase := SpFailed\<rparr>)
            | Some (Inr k, e) \<Rightarrow>
                if k = 0 then Some (Ok processed, s\<lparr>ps_engine := e\<rparr>)
                else (case between_events st (read_summary (s\<lparr>ps_engine := e\<rparr>)) of
                        (Inl err, z1) \<Rightarrow> Some (Err err, z1)
                      | (Inr _, z1) \<Rightarrow> paper_events S st n (processed + 1) z1)))"

definition paper_step ::
    "'s IStrategy \<Rightarrow> 'w PaperStore \<Rightarrow> nat \<Rightarrow> ('s, 'w) PaperSession
      \<Rightarrow> ((paper_session_error, nat) result \<times> ('s, 'w) PaperSession) option" where
  "paper_step S st max_events s =
     (if ps_phase s \<noteq> SpRunning \<and> ps_phase s \<noteq> SpPaused then Some (Err (PsNotRunning (ps_phase s)), s)
      else if \<not> ps_engaged s then Some (Err PsNotEngaged, s)
      else paper_events S st max_events 0 s)"

definition paper_shutdown ::
    "'s IStrategy \<Rightarrow> 'w PaperStore \<Rightarrow> ('s, 'w) PaperSession
      \<Rightarrow> (paper_session_error, bool) result \<times> ('s, 'w) PaperSession" where
  "paper_shutdown S st s =
     (if paper_terminal (ps_phase s) then (Ok True, s)
      else
        let z0 = s\<lparr>ps_phase := SpStopping\<rparr>;
            z1 = (if ps_engaged z0 then z0\<lparr>ps_engine := snd (engine_finish S (ps_engine z0))\<rparr> else z0) in
        (case paper_persist st z1 of
           (Inl e, z2) \<Rightarrow> (Err e, z2\<lparr>ps_phase := SpFailed\<rparr>)
         | (Inr _, z2) \<Rightarrow>
             (Ok True, with_paper_stats (\<lambda>x. x\<lparr>pss_stopped_at := paper_now z2\<rparr>) z2
                \<lparr>ps_broker := paper_disconnect (ps_broker z2), ps_phase := SpStopped\<rparr>)))"

section \<open>The same run\<close>

text \<open>
  Two engines are in the same run when they differ at most in the risk gate's own tally of rejections, the
  only thing the daily reset clears and nothing in the engine reads.
\<close>

definition same_run :: "'s Engine \<Rightarrow> 's Engine \<Rightarrow> bool" where
  "same_run e e' \<longleftrightarrow> e\<lparr>en_risk := reset_risk (en_risk e)\<rparr> = e'\<lparr>en_risk := reset_risk (en_risk e')\<rparr>"

lemma same_run_refl [simp]: "same_run e e"
  by (simp add: same_run_def)

lemma same_run_sym: "same_run e e' \<Longrightarrow> same_run e' e"
  by (simp add: same_run_def)

lemma same_run_trans: "same_run a b \<Longrightarrow> same_run b c \<Longrightarrow> same_run a c"
  by (simp add: same_run_def)

lemma same_run_tally: "same_run e e' \<longleftrightarrow> (\<exists>rs. e' = e\<lparr>en_risk := (en_risk e)\<lparr>rm_rejections := rs\<rparr>\<rparr>)"
proof
  assume h: "same_run e e'"
  have "e' = e\<lparr>en_risk := (en_risk e)\<lparr>rm_rejections := rm_rejections (en_risk e')\<rparr>\<rparr>"
    using h by (cases e; cases e'; cases "en_risk e"; cases "en_risk e'") (auto simp: same_run_def reset_risk_def)
  then show "\<exists>rs. e' = e\<lparr>en_risk := (en_risk e)\<lparr>rm_rejections := rs\<rparr>\<rparr>" by blast
qed (auto simp: same_run_def reset_risk_def)

lemma same_runE:
  assumes "same_run e e'"
  obtains rs where "e' = e\<lparr>en_risk := (en_risk e)\<lparr>rm_rejections := rs\<rparr>\<rparr>"
  using assms same_run_tally by blast

abbreviation same_outcome :: "('r \<times> 's Engine) option \<Rightarrow> ('r \<times> 's Engine) option \<Rightarrow> bool" where
  "same_outcome \<equiv> rel_option (rel_prod (=) same_run)"

lemma reset_risk_simps [simp]:
  "reset_risk (record_decision d rm) = reset_risk rm" "reset_risk (rm\<lparr>rm_rejections := rs\<rparr>) = reset_risk rm"
  "reset_risk (reset_risk rm) = reset_risk rm" "rm_limits (record_decision d rm) = rm_limits rm"
  by (simp_all add: reset_risk_def record_decision_def Let_def)

lemma context_of_run: "same_run e e' \<Longrightarrow> context_of e' = context_of e"
  by (auto simp: context_of_def elim: same_runE)

lemma risk_context_run: "same_run e e' \<Longrightarrow> risk_context e' i = risk_context e i"
  by (erule same_runE) (simp add: risk_context_def Let_def split: option.split)

lemma sink_submit_run:
  assumes "same_run e e'"
  shows "same_outcome (sink_submit o1 e) (sink_submit o1 e')"
proof -
  obtain qs where e': "e' = e\<lparr>en_risk := (en_risk e)\<lparr>rm_rejections := qs\<rparr>\<rparr>" using assms by (rule same_runE)
  let ?rc = "risk_context e (ord_instrument o1)"
  let ?d = "risk_check (rm_limits (en_risk e)) o1 (en_portfolio e) (en_oms e) ?rc"
  let ?o = "if flt fzero (reference_price ?rc) then with_arrival_price (reference_price ?rc) o1 else o1"
  have rc: "risk_context e' (ord_instrument o1) = ?rc" by (rule risk_context_run [OF assms])
  obtain a m where s: "submit ?o (en_oms e) = (a, m)" by fastforce
  show ?thesis
  proof (cases "approved ?d")
    case False
    then show ?thesis unfolding sink_submit_def rc by (simp add: e' Let_def same_run_def)
  next
    case True
    show ?thesis
    proof (cases a)
      case Inl
      then show ?thesis using True s unfolding sink_submit_def rc by (simp add: e' Let_def same_run_def)
    next
      case Inr
      show ?thesis
      proof (cases "broker_submit (clock_now (en_clock e)) ?o (en_broker e)")
        case None
        then show ?thesis using True s Inr unfolding sink_submit_def rc by (simp add: e' Let_def)
      next
        case (Some x)
        obtain y b where "x = (y, b)" by (cases x)
        then show ?thesis using True s Inr Some unfolding sink_submit_def rc
          by (cases y) (simp_all add: e' Let_def same_run_def)
      qed
    qed
  qed
qed

lemma sink_cancel_run: "same_run e e' \<Longrightarrow> rel_prod (=) same_run (sink_cancel oid e) (sink_cancel oid e')"
  by (erule same_runE) (simp add: sink_cancel_def same_run_def split: prod.split sum.split)

lemma sink_next_id_run: "same_run e e' \<Longrightarrow> rel_prod (=) same_run (sink_next_id e) (sink_next_id e')"
  by (erule same_runE) (simp add: sink_next_id_def same_run_def split: prod.split)

lemma run_program_run: "same_run e e' \<Longrightarrow> rel_option same_run (run_program prog e) (run_program prog e')"
proof (induction prog arbitrary: e e')
  case (Return s)
  then show ?case by (erule_tac same_runE) (simp add: same_run_def)
next
  case (Look k)
  then show ?case by (simp add: context_of_run)
next
  case (FreshId k)
  from sink_next_id_run [OF FreshId.prems] FreshId.IH show ?case by (auto simp: rel_prod_sel)
next
  case (SubmitOrder o1 k)
  from sink_submit_run [OF SubmitOrder.prems, of o1] SubmitOrder.IH show ?case
    by (auto elim!: option.rel_cases split: option.split simp: rel_prod_sel)
next
  case (CancelOrder oid k)
  from sink_cancel_run [OF CancelOrder.prems, of oid] CancelOrder.IH show ?case by (auto simp: rel_prod_sel)
qed

lemma dispatch_fills_run:
  "same_run e e' \<Longrightarrow> rel_prod (=) same_run (dispatch_fills S fs e) (dispatch_fills S fs e')"
proof (induction fs arbitrary: e e')
  case (Cons f fs)
  obtain qs where e': "e' = e\<lparr>en_risk := (en_risk e)\<lparr>rm_rejections := qs\<rparr>\<rparr>" using Cons.prems by (rule same_runE)
  obtain a m where a: "apply_fill f (en_oms e) = (a, m)" by fastforce
  obtain b pf where b: "portfolio_apply f (en_portfolio e) = (b, pf)" by fastforce
  show ?case
  proof (cases "is_ok a \<and> is_ok b")
    case True
    then show ?thesis
      by (auto simp: e' a b is_ok_def Let_def context_of_def split: sum.splits intro!: Cons.IH)
        (simp_all add: same_run_def)
  next
    case False
    then show ?thesis by (auto simp: e' a b is_ok_def Let_def same_run_def split: sum.splits)
  qed
qed simp

lemma market_then_run:
  assumes "same_run e e'"
  shows "same_outcome (market_then S i st now cb e) (market_then S i st now cb e')"
proof -
  obtain qs where e': "e' = e\<lparr>en_risk := (en_risk e)\<lparr>rm_rejections := qs\<rparr>\<rparr>" using assms by (rule same_runE)
  show ?thesis
  proof (cases "on_market i st now (en_broker e)")
    case None
    then show ?thesis by (simp add: market_then_def e')
  next
    case (Some x)
    obtain y b where x: "x = (y, b)" by (cases x)
    show ?thesis
    proof (cases y)
      case (Inl err)
      then show ?thesis by (simp add: market_then_def e' Some x same_run_def)
    next
      case (Inr fs)
      have "rel_prod (=) same_run (dispatch_fills S fs (e\<lparr>en_broker := b\<rparr>)) (dispatch_fills S fs (e'\<lparr>en_broker := b\<rparr>))"
        by (rule dispatch_fills_run) (simp add: e' same_run_def)
      then obtain r z z' where d: "dispatch_fills S fs (e\<lparr>en_broker := b\<rparr>) = (r, z)"
        "dispatch_fills S fs (e'\<lparr>en_broker := b\<rparr>) = (r, z')" and z: "same_run z z'"
        by (auto elim: rel_prod.cases)
      have st: "en_strategy z' = en_strategy z" using z by (auto elim: same_runE)
      have om: "on_market i st now (en_broker e') = Some (Inr fs, b)" using Some by (simp add: e' x Inr)
      from run_program_run [OF z, of "cb (en_strategy z)"] z show ?thesis
        by (auto simp: market_then_def Some x Inr om d st split: sum.split option.split elim: option.rel_cases)
    qed
  qed
qed

text \<open>Going on with the outcome of two calls: where they ended, the same answer in the same run.\<close>

lemma same_outcome_cases:
  assumes "same_outcome x y"
  obtains "x = None" "y = None"
    | r e rs where "x = Some (r, e)" "y = Some (r, e\<lparr>en_risk := (en_risk e)\<lparr>rm_rejections := rs\<rparr>\<rparr>)"
  using assms by (auto elim!: option.rel_cases rel_prod.cases same_runE)

lemma same_run_tally_self [simp]: "same_run e (e\<lparr>en_risk := (en_risk e)\<lparr>rm_rejections := rs\<rparr>\<rparr>)"
  by (simp add: same_run_def)

lemma handle_bar_run:
  assumes "same_run e e'"
  shows "same_outcome (handle_bar S bar e) (handle_bar S bar e')"
proof -
  obtain qs where e': "e' = e\<lparr>en_risk := (en_risk e)\<lparr>rm_rejections := qs\<rparr>\<rparr>" using assms by (rule same_runE)
  let ?i = "bar_instrument bar"
  let ?st = "state_from_bar (en_cfg e) bar (market_state_of e ?i)"
  let ?g = "\<lambda>e :: 'a Engine. e\<lparr>en_state := om_put ?i ?st (en_state e),
                 en_last_update := om_put ?i (bar_close_time bar) (en_last_update e),
                 en_portfolio := mark_last ?i (bar_close bar) (en_portfolio e)\<rparr>"
  have st: "state_from_bar (en_cfg e') bar (market_state_of e' ?i) = ?st" by (simp add: e' market_state_of_def)
  have "same_outcome (market_then S ?i ?st (bar_close_time bar) (on_bar S bar) (?g e))
      (market_then S ?i ?st (bar_close_time bar) (on_bar S bar) (?g e'))"
    by (rule market_then_run) (simp add: e' same_run_def)
  then show ?thesis
  proof (cases rule: same_outcome_cases)
    case (2 r z rs)
    then show ?thesis
      unfolding handle_bar_def st Let_def
      by (simp add: same_run_def split: sum.split prod.split)
  qed (simp add: handle_bar_def st Let_def)
qed

lemma handle_quote_run:
  assumes "same_run e e'"
  shows "same_outcome (handle_quote S q e) (handle_quote S q e')"
proof -
  obtain qs where e': "e' = e\<lparr>en_risk := (en_risk e)\<lparr>rm_rejections := qs\<rparr>\<rparr>" using assms by (rule same_runE)
  let ?i = "q_instrument q" and ?now = "ev_exchange (q_time q)"
  let ?st = "state_from_quote q (market_state_of e ?i)"
  let ?g = "\<lambda>e :: 'a Engine. e\<lparr>en_state := om_put ?i ?st (en_state e),
                 en_last_update := om_put ?i ?now (en_last_update e),
                 en_portfolio := mark_from_quote q (en_portfolio e)\<rparr>"
  have st: "state_from_quote q (market_state_of e' ?i) = ?st" by (simp add: e' market_state_of_def)
  have "same_outcome (market_then S ?i ?st ?now (on_quote S q) (?g e)) (market_then S ?i ?st ?now (on_quote S q) (?g e'))"
    by (rule market_then_run) (simp add: e' same_run_def)
  then show ?thesis
  proof (cases rule: same_outcome_cases)
    case (2 r z rs)
    then show ?thesis
      unfolding handle_quote_def st Let_def
      by (simp add: same_run_def split: sum.split prod.split)
  qed (simp add: handle_quote_def st Let_def)
qed

lemma callback_only_run: "same_run e e' \<Longrightarrow> same_outcome (callback_only prog e) (callback_only prog e')"
  using run_program_run [of e e' prog] by (auto simp: callback_only_def elim: option.rel_cases)

lemma handle_event_run:
  assumes "same_run e e'"
  shows "same_outcome (handle_event S ev e) (handle_event S ev e')"
proof -
  obtain qs where e': "e' = e\<lparr>en_risk := (en_risk e)\<lparr>rm_rejections := qs\<rparr>\<rparr>" using assms by (rule same_runE)
  show ?thesis
  proof (cases ev)
    case (TradeEv t)
    then show ?thesis using callback_only_run [OF assms] by (simp add: e')
  next
    case (ActionEv a)
    then show ?thesis by (simp add: e' lift_portfolio_def same_run_def split: CorporateActionKind.split)
  next
    case (SessionEv v)
    let ?t = "ev_exchange (se_time v)"
    have o1: "same_outcome (callback_only (on_session_open S ?t (en_strategy e)) (e\<lparr>en_turnover_today := fzero\<rparr>))
        (callback_only (on_session_open S ?t (en_strategy e')) (e'\<lparr>en_turnover_today := fzero\<rparr>))"
      unfolding e' by simp (rule callback_only_run, simp add: same_run_def)
    have "same_outcome (callback_only (on_session_close S ?t (en_strategy e)) e)
        (callback_only (on_session_close S ?t (en_strategy e')) e')"
      using callback_only_run [OF assms, of "on_session_close S ?t (en_strategy e)"] by (simp add: e')
    then show ?thesis
    proof (cases rule: same_outcome_cases)
      case 1
      with o1 SessionEv show ?thesis by simp
    next
      case (2 r z rs)
      with o1 SessionEv show ?thesis by (simp add: lift_portfolio_def same_run_def)
    qed
  qed (use assms in \<open>simp_all add: handle_bar_run handle_quote_run\<close>)
qed

lemma pull_run: "same_run e e' \<Longrightarrow> rel_prod (=) same_run (pull e) (pull e')"
  by (erule same_runE) (simp add: pull_def same_run_def split: prod.split)

lemma count_event_run: "same_run e e' \<Longrightarrow> same_run (count_event ev e) (count_event ev e')"
  by (erule same_runE) (simp add: count_event_def same_run_def)

lemma raise_peak_run: "same_run e e' \<Longrightarrow> same_run (raise_peak e) (raise_peak e')"
  by (erule same_runE) (simp add: raise_peak_def same_run_def Let_def)

lemma step_loop_run: "same_run e e' \<Longrightarrow> same_outcome (step_loop S n k e) (step_loop S n k e')"
proof (induction n arbitrary: k e e')
  case (Suc n)
  from pull_run [OF Suc.prems] obtain r z z' where p: "pull e = (r, z)" "pull e' = (r, z')" and z: "same_run z z'"
    by (auto elim: rel_prod.cases)
  have h: "same_outcome (handle_event S ev (count_event ev z)) (handle_event S ev (count_event ev z'))" for ev
    by (intro handle_event_run count_event_run z)
  show ?case
  proof (cases r)
    case (Inr eo)
    then show ?thesis
    proof (cases eo)
      case (Some ev)
      from h [of ev] show ?thesis
      proof (cases rule: same_outcome_cases)
        case (2 a y rs)
        then show ?thesis
          using p z Inr Some
          by (cases a) (auto intro!: Suc.IH raise_peak_run)
      qed (use p z Inr Some in simp)
    qed (use p z Inr in simp)
  qed (use p z in simp)
qed simp

section \<open>Running to completion\<close>

text \<open>What the session's own work leaves alone: all but what was saved, its counters and the risk tallies.\<close>

definition same_session :: "('s, 'w) PaperSession \<Rightarrow> ('s, 'w) PaperSession \<Rightarrow> bool" where
  "same_session s s' \<longleftrightarrow> same_run (ps_engine s) (ps_engine s') \<and> ps_phase s' = ps_phase s
     \<and> ps_stop_requested s' = ps_stop_requested s \<and> ps_engaged s' = ps_engaged s \<and> ps_broker s' = ps_broker s
     \<and> pss_events (ps_stats s') = pss_events (ps_stats s) \<and> pss_orders (ps_stats s') = pss_orders (ps_stats s)
     \<and> pss_orders_rejected (ps_stats s') = pss_orders_rejected (ps_stats s)
     \<and> pss_fills (ps_stats s') = pss_fills (ps_stats s) \<and> ps_content_hash s' = ps_content_hash s"

lemma same_session_refl [simp]: "same_session s s"
  by (simp add: same_session_def)

lemma same_session_trans: "same_session a b \<Longrightarrow> same_session b c \<Longrightarrow> same_session a c"
  using same_run_trans by (fastforce simp: same_session_def)

lemma paper_persist_frame: "paper_persist st s = (r, s') \<Longrightarrow> same_session s s' \<and> ps_engine s' = ps_engine s"
  by (auto simp: paper_persist_def same_session_def Let_def split: prod.splits sum.splits)

lemma daily_reset_frame: "daily_reset st t s = (r, s') \<Longrightarrow> same_session s s'"
  by (auto simp: daily_reset_def same_session_def same_run_def split: prod.splits sum.splits
      dest!: paper_persist_frame)

lemma between_events_frame:
  assumes "between_events st s = (r, s')"
  shows "same_session s s'"
proof -
  obtain q z where q: "(if psc_daily_reset (ps_config s) \<and> is_set (ps_last_event s) \<and> is_set (ps_session_date s)
      \<and> ps_session_date s < utc_date_floor (ps_last_event s)
      then daily_reset st (ps_last_event s) s else (Ok True, s)) = (q, z)" by fastforce
  then have z: "same_session s z" using daily_reset_frame by (auto split: if_splits)
  have "same_session z s'" using assms paper_persist_frame
    by (auto simp: between_events_def q split: sum.splits if_splits)
  with z show ?thesis by (rule same_session_trans)
qed

lemma read_summary_frame [simp]:
  "ps_engine (read_summary s) = ps_engine s" "ps_phase (read_summary s) = ps_phase s"
  "ps_stop_requested (read_summary s) = ps_stop_requested s" "ps_engaged (read_summary s) = ps_engaged s"
  "ps_broker (read_summary s) = ps_broker s"
  by (simp_all add: read_summary_def Let_def)

lemma same_run_feed: "same_run e e' \<Longrightarrow> same_feed e e'"
  by (erule same_runE) (simp add: same_feed_def)

lemma paper_events_progress:
  "paper_events S st n k s = Some (Ok j, s') \<Longrightarrow>
     k \<le> j \<and> events_left (ps_engine s) = events_left (ps_engine s') + (j - k)"
proof (induction n arbitrary: k s)
  case (Suc n)
  show ?case
  proof (cases "ps_stop_requested s")
    case False
    then obtain i e where st: "engine_step S 1 (ps_engine s) = Some (Ok i, e)"
      using Suc.prems by (auto split: option.splits sum.splits)
    then have "step_loop S 1 0 (ps_engine s) = Some (Ok i, e)" by (auto simp: engine_step_def split: if_splits)
    from step_loop_progress [OF this] have i: "i \<le> 1" "events_left (ps_engine s) = events_left e + i" by auto
    show ?thesis
    proof (cases "i = 0")
      case True
      with st i False Suc.prems show ?thesis by auto
    next
      case pos: False
      obtain x z1 where b: "between_events st (read_summary (s\<lparr>ps_engine := e\<rparr>)) = (x, z1)" by fastforce
      with st pos False Suc.prems have "paper_events S st n (k + 1) z1 = Some (Ok j, s')"
        by (auto split: sum.splits)
      moreover have "events_left (ps_engine z1) = events_left e"
        using between_events_frame [OF b] same_feed_events_left [OF same_run_feed, of e "ps_engine z1"]
        by (simp add: same_session_def)
      ultimately show ?thesis using Suc.IH [of "k + 1" z1] i pos by fastforce
    qed
  qed (use Suc.prems in simp)
qed simp

text \<open>
  \<open>run\<close> steps 64 events at a time until a step processes none. Every step that processes an event leaves
  fewer in the source, so the loop ends.
\<close>

function paper_loop ::
    "'s IStrategy \<Rightarrow> 'w PaperStore \<Rightarrow> ('s, 'w) PaperSession
      \<Rightarrow> ((paper_session_error, unit) result \<times> ('s, 'w) PaperSession) option" where
  "paper_loop S st s =
     (if ps_stop_requested s \<or> paper_terminal (ps_phase s) then Some (Ok (), s)
      else (case paper_step S st 64 s of
              None \<Rightarrow> None
            | Some (Inl e, z1) \<Rightarrow> Some (Err e, z1)
            | Some (Inr k, z1) \<Rightarrow> if k = 0 then Some (Ok (), z1) else paper_loop S st z1))"
  by pat_completeness auto

termination
proof (relation "measure (\<lambda>(S, st, s). events_left (ps_engine s))")
  fix S :: "'s IStrategy" and st :: "'w PaperStore" and s x r z1 k
  assume "paper_step S st 64 s = Some x" "(r, z1) = x" "r = Inr k" "k \<noteq> 0"
  then have "paper_events S st 64 0 s = Some (Ok k, z1)" "k \<noteq> 0" by (auto simp: paper_step_def split: if_splits)
  from paper_events_progress [OF this(1)] this(2)
  show "((S, st, z1), S, st, s) \<in> measure (\<lambda>(S, st, s). events_left (ps_engine s))" by simp
qed simp

declare paper_loop.simps [simp del]

definition paper_run ::
    "'s IStrategy \<Rightarrow> 'w PaperStore \<Rightarrow> ('s, 'w) PaperSession
      \<Rightarrow> ((paper_session_error, SessionStats) result \<times> ('s, 'w) PaperSession) option" where
  "paper_run S st s =
     (case (if ps_phase s = SpCreated then paper_start S st s else (Ok True, s)) of
        (Inl e, z1) \<Rightarrow> Some (Err e, z1)
      | (Inr _, z1) \<Rightarrow>
          (case paper_loop S st z1 of
             None \<Rightarrow> None
           | Some (Inl e, z2) \<Rightarrow> Some (Err e, z2)
           | Some (Inr _, z2) \<Rightarrow>
               (case paper_shutdown S st z2 of
                  (Inl e, z3) \<Rightarrow> Some (Err e, z3)
                | (Inr _, z3) \<Rightarrow> Some (Ok (ps_stats z3), z3))))"

section \<open>Parity with a backtest\<close>

definition accepts_saves :: "'w PaperStore \<Rightarrow> bool" where
  "accepts_saves st \<longleftrightarrow> (\<forall>k v w. is_ok (fst (pt_save st k v w)))"

definition session_live :: "('s, 'w) PaperSession \<Rightarrow> bool" where
  "session_live s \<longleftrightarrow> (ps_phase s = SpRunning \<or> ps_phase s = SpPaused) \<and> ps_engaged s
     \<and> \<not> ps_stop_requested s \<and> en_started (ps_engine s)"

text \<open>The session's outcome follows the engine's: the same answer, its engine in the same run.\<close>

definition follows ::
    "((engine_error, 'r) result \<times> 's Engine) option \<Rightarrow> ((paper_session_error, 'r) result \<times> ('s, 'w) PaperSession) option \<Rightarrow> bool" where
  "follows = rel_option (\<lambda>(r, e) (q, s). q = map_sum PsEngine id r \<and> same_run e (ps_engine s) \<and> (is_ok r \<longrightarrow> session_live s))"

lemma paper_persist_ok: "accepts_saves st \<Longrightarrow> \<exists>s'. paper_persist st s = (Ok True, s')"
  unfolding paper_persist_def accepts_saves_def is_ok_def Let_def
  by (drule spec [of _ "paper_key (ps_config s)"],
      drule spec [of _ "paper_capture s\<lparr>pst_sequence := ps_sequence s + 1\<rparr>"], drule spec [of _ "ps_world s"])
    (auto split: prod.split sum.splits)

lemma between_events_ok:
  assumes "accepts_saves st"
  shows "\<exists>s'. between_events st s = (Ok True, s')"
proof -
  have p: "\<exists>s'. paper_persist st z = (Ok True, s')" for z :: "('b, 'a) PaperSession"
    by (rule paper_persist_ok [OF assms])
  have d: "\<exists>z. daily_reset st t s = (Ok True, z)" for t
    using p [of s] by (auto simp: daily_reset_def)
  have "\<exists>z. (if psc_daily_reset (ps_config s) \<and> is_set (ps_last_event s) \<and> is_set (ps_session_date s)
      \<and> ps_session_date s < utc_date_floor (ps_last_event s)
      then daily_reset st (ps_last_event s) s else (Ok True, s)) = (Ok True, z)" using d by simp
  then show ?thesis using p by (auto simp: between_events_def)
qed

lemma engine_step_one: "en_started e \<Longrightarrow> engine_step S 1 e = step_loop S 1 0 e"
  by (simp add: engine_step_def)

lemma step_loop_unroll:
  "step_loop S (Suc n) k e =
     (case step_loop S 1 0 e of
        None \<Rightarrow> None
      | Some (Inl err, e') \<Rightarrow> Some (Err err, e')
      | Some (Inr j, e') \<Rightarrow> if j = 0 then Some (Ok k, e') else step_loop S n (Suc k) e')"
proof (cases "pull e")
  case (Pair r e1)
  then show ?thesis
    by (auto split: sum.splits option.splits)
qed

lemma paper_events_follows:
  assumes ok: "accepts_saves st"
  shows "session_live s \<Longrightarrow> same_run e (ps_engine s) \<Longrightarrow> follows (step_loop S n k e) (paper_events S st n k s)"
proof (induction n arbitrary: k s e)
  case (Suc n)
  have live: "\<not> ps_stop_requested s" "en_started (ps_engine s)" using Suc.prems(1) by (auto simp: session_live_def)
  note one = engine_step_one [OF live(2), of S]
  from step_loop_run [OF Suc.prems(2), of S 1 0] show ?case
  proof (cases rule: same_outcome_cases)
    case 1
    then show ?thesis unfolding step_loop_unroll using one live by (simp add: follows_def)
  next
    case (2 r z rs)
    let ?z = "z\<lparr>en_risk := (en_risk z)\<lparr>rm_rejections := rs\<rparr>\<rparr>"
    note two = 2
    show ?thesis
    proof (cases r)
      case (Inl err)
      then show ?thesis unfolding step_loop_unroll using one live two by (simp add: follows_def is_ok_def)
    next
      case (Inr j)
      have st: "en_started ?z" using step_loop_progress [OF two(2) [unfolded Inr]] live by simp
      show ?thesis
      proof (cases "j = 0")
        case True
        then show ?thesis unfolding step_loop_unroll using one live two Inr st Suc.prems(1)
          by (simp add: follows_def session_live_def)
      next
        case False
        obtain z1 where b: "between_events st (read_summary (s\<lparr>ps_engine := ?z\<rparr>)) = (Ok True, z1)"
          using between_events_ok [OF ok] by blast
        note fr = between_events_frame [OF b]
        have "same_run z (ps_engine z1)" using fr same_run_trans [of z ?z] by (simp add: same_session_def)
        moreover have "session_live z1"
          using fr Suc.prems(1) st same_run_feed [of ?z "ps_engine z1"]
          by (simp add: session_live_def same_session_def same_feed_def)
        ultimately show ?thesis
          unfolding step_loop_unroll using one live two Inr False b Suc.IH [of z1 z "Suc k"] by simp
      qed
    qed
  qed
qed (simp add: follows_def)

text \<open>A batch run may be entered with a step of any size first.\<close>

lemma run_chunks_split:
  assumes "en_started e"
  shows "run_chunks S e = (case step_loop S m 0 e of None \<Rightarrow> None | Some (Inl err, e') \<Rightarrow> Some (Err err, e')
    | Some (Inr j, e') \<Rightarrow> run_chunks S e')"
proof -
  let ?n = "events_left e"
  have rest: "run_chunks S e' = (case step_loop S ?n j e' of None \<Rightarrow> None
      | Some (Inl err, e1) \<Rightarrow> Some (Inl err, e1) | Some (Inr i, e1) \<Rightarrow> Some (Inr (), e1))"
    if "step_loop S m 0 e = Some (Ok j, e')" for j e'
    using step_loop_progress [OF that] assms run_chunks_step [of e' ?n S] step_ignores_count [of S ?n j e'] by simp
  have "run_chunks S e = (case step_loop S (m + ?n) 0 e of None \<Rightarrow> None
      | Some (Inl err, e1) \<Rightarrow> Some (Inl err, e1) | Some (Inr j, e1) \<Rightarrow> Some (Inr (), e1))"
    by (rule run_chunks_step) (use assms in simp_all)
  then show ?thesis
    by (auto simp: step_loop_add rest split: option.split sum.split)
qed

lemma run_chunks_done: "en_started e \<Longrightarrow> events_left e = 0 \<Longrightarrow> run_chunks S e = Some (Ok (), e)"
  using run_chunks_step [of e 0 S] by simp

lemma paper_step_live: "session_live s \<Longrightarrow> paper_step S st n s = paper_events S st n 0 s"
  by (auto simp: paper_step_def session_live_def)

lemma paper_loop_follows:
  assumes ok: "accepts_saves st"
  shows "session_live s \<Longrightarrow> same_run e (ps_engine s) \<Longrightarrow> follows (run_chunks S e) (paper_loop S st s)"
proof (induction "events_left e" arbitrary: e s rule: less_induct)
  case less
  have st: "en_started e" "\<not> ps_stop_requested s" "\<not> paper_terminal (ps_phase s)"
    using less.prems by (auto simp: session_live_def paper_terminal_def elim: same_runE)
  note loop = paper_loop.simps [of S st s] run_chunks_split [OF st(1), of S 64] paper_step_live [OF less.prems(1), of S st 64]
  have f: "follows (step_loop S 64 0 e) (paper_events S st 64 0 s)"
    by (rule paper_events_follows [OF ok less.prems])
  show ?case
  proof (cases "step_loop S 64 0 e")
    case None
    then show ?thesis using f st by (simp add: loop follows_def)
  next
    case (Some x)
    obtain r z where x: "x = (r, z)" by (cases x)
    obtain q s' where q: "paper_events S st 64 0 s = Some (q, s')" "q = map_sum PsEngine id r" "same_run z (ps_engine s')"
      "is_ok r \<longrightarrow> session_live s'"
      using f by (auto simp: follows_def Some x option_rel_Some1)
    show ?thesis
    proof (cases r)
      case (Inl err)
      then show ?thesis using q st by (simp add: loop Some x follows_def is_ok_def)
    next
      case (Inr j)
      from step_loop_progress [OF Some [unfolded x Inr]]
      have pr: "events_left e = events_left z + j" "en_started z" "j < 64 \<longrightarrow> events_left z = 0" using st by auto
      show ?thesis
      proof (cases "j = 0")
        case True
        then show ?thesis using q st pr run_chunks_done [of z S] by (simp add: loop Some x Inr follows_def is_ok_def)
      next
        case False
        then show ?thesis using q st pr less.hyps [of z s'] by (simp add: loop Some x Inr is_ok_def)
      qed
    qed
  qed
qed

lemma engine_begin_run:
  "engine_begin S e = (r, e') \<Longrightarrow> en_started e' \<and> en_summary e' = no_summary"
  by (auto simp: engine_begin_def Let_def split: prod.splits)

lemma engine_finish_run: "same_run e e' \<Longrightarrow> rel_prod (=) same_run (engine_finish S e) (engine_finish S e')"
  by (erule same_runE) (simp add: engine_finish_def context_of_def same_run_def Let_def)

lemma paper_recover_frame:
  "paper_recover st s = (r, s') \<Longrightarrow> ps_engine s' = ps_engine s \<and> ps_phase s' = ps_phase s \<and> ps_engaged s' = ps_engaged s
     \<and> ps_stop_requested s' = ps_stop_requested s \<and> ps_broker s' = ps_broker s"
  by (auto simp: paper_recover_def split: option.splits sum.splits if_splits)

lemma paper_recover_fst [simp]: "fst (paper_recover st (s\<lparr>ps_phase := p, ps_broker := b\<rparr>)) = fst (paper_recover st s)"
  by (simp add: paper_recover_def split: option.split sum.split)

text \<open>What a start that recovers leaves: the fresh engine begun, the session live if it succeeded.\<close>

lemma paper_start_engine:
  assumes "ps_phase s = SpCreated" "\<not> ps_stop_requested s" "fst (paper_recover st s) = Ok True"
    and "engine_begin S (emplace_engine (ps_engine s)) = (r, e)"
  shows "\<exists>s'. paper_start S st s = (map_sum PsEngine id r, s') \<and> ps_engine s' = e \<and> (is_ok r \<longrightarrow> session_live s')"
proof -
  let ?z1 = "s\<lparr>ps_phase := SpStarting, ps_broker := snd (paper_connect (ps_broker s))\<rparr>"
  obtain q z2 where z2: "paper_recover st ?z1 = (q, z2)" by fastforce
  then have q: "q = Ok True" using assms(3) paper_recover_fst [where s = s and st = st] by (metis fst_conv)
  have b: "r = Ok True" if "is_ok r" using assms(4) that by (auto simp: engine_begin_def is_ok_def Let_def split: prod.splits sum.splits)
  show ?thesis
    using assms paper_recover_frame [OF z2] z2 q engine_begin_run [OF assms(4)] b
    by (cases r) (auto simp: paper_start_def paper_connect_def session_live_def is_ok_def Let_def)
qed

text \<open>
  C14: Paper trading is the backtest. From a created session whose store takes what it is given and whose recovery
  succeeds, running it to the end gives what a batch run of a fresh engine over the same components gives: the
  same error, or a stopped session whose engine has the same orders, fills, positions, equity curve, journal
  and summary. The daily resets, the persists and the chunk size make no difference; only the risk gate's own
  tally of rejections can differ.
\<close>

theorem paper_run_is_the_backtest:
  assumes "accepts_saves st" "ps_phase s = SpCreated" "\<not> ps_stop_requested s" "fst (paper_recover st s) = Ok True"
  shows "case engine_run S (emplace_engine (ps_engine s)) of
      None \<Rightarrow> paper_run S st s = None
    | Some (r, e) \<Rightarrow>
       (case paper_run S st s of
          None \<Rightarrow> False
        | Some (q, s') \<Rightarrow> same_run e (ps_engine s')
            \<and> (case r of Inl err \<Rightarrow> q = Err (PsEngine err) | Inr sm \<Rightarrow> q = Ok (ps_stats s') \<and> ps_phase s' = SpStopped))"
proof -
  obtain b e1 where begun: "engine_begin S (emplace_engine (ps_engine s)) = (b, e1)" by fastforce
  obtain z1 where z1: "paper_start S st s = (map_sum PsEngine id b, z1)" "ps_engine z1 = e1" "is_ok b \<longrightarrow> session_live z1"
    using paper_start_engine [OF assms(2-4) begun] by blast
  show ?thesis
  proof (cases b)
    case (Inl err)
    then show ?thesis using z1 begun assms(2) by (simp add: engine_run_def paper_run_def)
  next
    case (Inr v)
    have "follows (run_chunks S e1) (paper_loop S st z1)"
      using paper_loop_follows [OF assms(1), of z1 e1 S] z1 Inr by (simp add: is_ok_def)
    then consider (none) "run_chunks S e1 = None" "paper_loop S st z1 = None"
      | (some) r e2 q z2 where "run_chunks S e1 = Some (r, e2)" "paper_loop S st z1 = Some (q, z2)"
          "q = map_sum PsEngine id r" "same_run e2 (ps_engine z2)" "is_ok r \<longrightarrow> session_live z2"
      by (auto simp: follows_def elim!: option.rel_cases)
    then show ?thesis
    proof cases
      case none
      then show ?thesis using z1 begun assms(2) Inr by (simp add: engine_run_def paper_run_def)
    next
      case some
      note follow = some
      show ?thesis
      proof (cases r)
        case (Inl err)
        then show ?thesis using follow z1 begun assms(2) Inr by (simp add: engine_run_def paper_run_def \<open>b = _\<close>)
      next
        case ran: (Inr u)
        have live: "session_live z2" using follow ran by (simp add: is_ok_def)
        obtain sm e3 where fin: "engine_finish S e2 = (sm, e3)" by fastforce
        let ?z = "z2\<lparr>ps_phase := SpStopping, ps_engine := snd (engine_finish S (ps_engine z2))\<rparr>"
        have e3: "same_run e3 (ps_engine ?z)"
          using engine_finish_run [OF follow(4), of S] fin by (auto simp: rel_prod_sel)
        obtain z3 where p: "paper_persist st ?z = (Ok True, z3)" using paper_persist_ok [OF assms(1)] by blast
        then show ?thesis
          using follow ran z1 begun assms(2) Inr fin live e3 paper_persist_frame [OF p]
          by (auto simp: engine_run_def paper_run_def paper_shutdown_def session_live_def paper_terminal_def Let_def)
      qed
    qed
  qed
qed

section \<open>Pausing\<close>

lemma paper_pause_frame:
  "ps_engine (paper_pause why s) = ps_engine s"
  "session_live s \<Longrightarrow> session_live (paper_pause why s) \<and> ps_phase (paper_pause why s) = SpPaused
     \<and> \<not> pb_connected (ps_broker (paper_pause why s))"
  by (auto simp: paper_pause_def paper_terminal_def session_live_def paper_disconnect_def)

text \<open>
  Pausing does not stop orders. A pause disconnects the session's broker and forbids trading by its own
  account, but the engine submits to the simulator itself: stepping the paused session does to the books,
  the orders and the venue exactly what stepping the engine does.
\<close>

theorem pausing_does_not_stop_orders:
  assumes "accepts_saves st" "session_live s"
  shows "\<not> paper_trading_permitted (paper_pause why s)
    \<and> (case engine_step S n (ps_engine s) of
         None \<Rightarrow> paper_step S st n (paper_pause why s) = None
       | Some (r, e) \<Rightarrow>
          (case paper_step S st n (paper_pause why s) of
             None \<Rightarrow> False
           | Some (q, s') \<Rightarrow> q = map_sum PsEngine id r \<and> same_run e (ps_engine s')))"
proof -
  let ?p = "paper_pause why s"
  note p = paper_pause_frame(2) [OF assms(2), of why]
  have "follows (step_loop S n 0 (ps_engine s)) (paper_events S st n 0 ?p)"
    by (rule paper_events_follows [OF assms(1)]) (use p in \<open>simp_all add: paper_pause_frame(1)\<close>)
  moreover have "engine_step S n (ps_engine s) = step_loop S n 0 (ps_engine s)"
    using assms(2) by (simp add: engine_step_def session_live_def)
  ultimately show ?thesis
    using p by (auto simp: paper_step_live follows_def paper_trading_permitted_def elim!: option.rel_cases)
qed

section \<open>Restarting\<close>

text \<open>Handling an event leaves the count of events alone: only the loop counts.\<close>

definition same_count :: "'s Engine \<Rightarrow> 's Engine \<Rightarrow> bool" where
  "same_count e e' \<longleftrightarrow> events_processed (en_summary e') = events_processed (en_summary e)"

lemma same_count_trans: "same_count a b \<Longrightarrow> same_count b c \<Longrightarrow> same_count a c"
  by (simp add: same_count_def)

lemma sink_submit_keeps_count: "sink_submit o1 e = Some (r, e1) \<Longrightarrow> same_count e e1"
  by (auto simp: sink_submit_def Let_def same_count_def split: if_splits prod.splits sum.splits option.splits)

lemma sink_cancel_count: "same_count e (snd (sink_cancel oid e))"
  by (auto simp: sink_cancel_def same_count_def split: prod.splits sum.splits)

lemma sink_next_id_count: "same_count e (snd (sink_next_id e))"
  by (simp add: sink_next_id_def same_count_def case_prod_beta)

lemma run_program_count: "run_program prog e = Some e' \<Longrightarrow> same_count e e'"
proof (induction prog arbitrary: e)
  case (Return s) then show ?case by (auto simp: same_count_def)
next
  case (Look k) then show ?case by (metis rangeI run_program.simps(2))
next
  case (FreshId k)
  then show ?case by (metis rangeI run_program.simps(3) same_count_trans sink_next_id_count)
next
  case (SubmitOrder o1 k)
  then obtain r e1 where s: "sink_submit o1 e = Some (r, e1)" "run_program (k r) e1 = Some e'"
    by (auto split: option.splits)
  then have "same_count e1 e'" using SubmitOrder.IH by blast
  then show ?case using sink_submit_keeps_count [OF s(1)] same_count_trans by blast
next
  case (CancelOrder oid k)
  then show ?case by (metis rangeI run_program.simps(5) same_count_trans sink_cancel_count)
qed

lemma dispatch_fills_count: "dispatch_fills S fs e = (r, e') \<Longrightarrow> same_count e e'"
proof (induction fs arbitrary: e)
  case (Cons f fs)
  show ?case
    using Cons.prems
    by (auto simp: same_count_def Let_def split: prod.splits sum.splits dest!: Cons.IH [unfolded same_count_def])
qed (simp add: same_count_def)

lemma market_then_count: "market_then S i st now cb e = Some (r, e') \<Longrightarrow> same_count e e'"
  using dispatch_fills_count run_program_count same_count_trans
  by (fastforce simp: market_then_def same_count_def split: option.splits prod.splits sum.splits)

lemma handle_event_count: "handle_event S ev e = Some (r, e') \<Longrightarrow> same_count e e'"
proof (cases ev)
  case (BarEv b)
  then show "handle_event S ev e = Some (r, e') \<Longrightarrow> same_count e e'"
    by (auto simp: handle_bar_def Let_def same_count_def split: option.splits prod.splits sum.splits if_splits
        dest!: market_then_count [unfolded same_count_def])
next
  case (QuoteEv q)
  then show "handle_event S ev e = Some (r, e') \<Longrightarrow> same_count e e'"
    by (auto simp: handle_quote_def Let_def same_count_def split: option.splits prod.splits sum.splits if_splits
        dest!: market_then_count [unfolded same_count_def])
next
  case (SessionEv v)
  then show "handle_event S ev e = Some (r, e') \<Longrightarrow> same_count e e'"
    by (auto simp: callback_only_def lift_portfolio_def same_count_def split: option.splits if_splits
        dest!: run_program_count [unfolded same_count_def])
qed (auto simp: callback_only_def lift_portfolio_def same_count_def split: option.splits
       CorporateActionKind.splits dest!: run_program_count [unfolded same_count_def])

lemma step_loop_counts:
  "step_loop S n k e = Some (Ok j, e') \<Longrightarrow>
     events_processed (en_summary e') + k = events_processed (en_summary e) + j"
proof (induction n arbitrary: k e)
  case (Suc n)
  have p: "same_count e z" if "pull e = (y, z)" for y z
    using that by (auto simp: pull_def same_count_def split: prod.splits)
  show ?case
    using Suc.prems p
    by (auto simp: same_count_def count_event_def raise_peak_def Let_def split: prod.splits sum.splits option.splits if_splits
        dest!: Suc.IH handle_event_count [unfolded same_count_def])
qed simp

text \<open>The statistics say what the engine's summary says.\<close>

definition stats_read :: "('s, 'w) PaperSession \<Rightarrow> bool" where
  "stats_read s \<longleftrightarrow> (let x = ps_stats s; sm = en_summary (ps_engine s) in
     pss_events x = events_processed sm \<and> pss_fills x = sum_fills sm \<and> pss_orders x = orders_submitted sm
     \<and> pss_orders_rejected x = sum_orders_rejected sm)"

lemma read_summary_stats: "stats_read (read_summary s)"
  by (simp add: stats_read_def read_summary_def Let_def)

lemma same_session_stats: "same_session s s' \<Longrightarrow> stats_read s \<Longrightarrow> stats_read s'"
  by (auto simp: same_session_def stats_read_def Let_def elim: same_runE)

lemma engine_step_one_none:
  assumes "engine_step S 1 e = Some (Ok 0, e')"
  shows "e' = e"
proof -
  have l: "step_loop S 1 0 e = Some (Ok 0, e')" using assms by (auto simp: engine_step_def split: if_splits)
  with step_loop_progress [OF l] have "events_left e = 0" by simp
  from step_loop_exhausted [OF pull_exhausted [OF this], of S 1 0] l show ?thesis by simp
qed

lemma paper_events_stats:
  "paper_events S st n k s = Some (Ok j, s') \<Longrightarrow>
     (stats_read s \<or> k < j \<longrightarrow> stats_read s')
     \<and> events_processed (en_summary (ps_engine s')) + k = events_processed (en_summary (ps_engine s)) + j"
proof (induction n arbitrary: k s)
  case (Suc n)
  show ?case
  proof (cases "ps_stop_requested s")
    case False
    then obtain i e where st: "engine_step S 1 (ps_engine s) = Some (Ok i, e)"
      using Suc.prems by (auto split: option.splits sum.splits)
    then have l: "step_loop S 1 0 (ps_engine s) = Some (Ok i, e)" by (auto simp: engine_step_def split: if_splits)
    show ?thesis
    proof (cases "i = 0")
      case True
      with st have "e = ps_engine s" using engine_step_one_none by blast
      with st True False Suc.prems show ?thesis by auto
    next
      case pos: False
      obtain x z1 where b: "between_events st (read_summary (s\<lparr>ps_engine := e\<rparr>)) = (x, z1)" by fastforce
      with st pos False Suc.prems have "paper_events S st n (k + 1) z1 = Some (Ok j, s')"
        by (auto split: sum.splits)
      from Suc.IH [OF this] have ih: "stats_read z1 \<or> k + 1 < j \<longrightarrow> stats_read s'"
        "events_processed (en_summary (ps_engine s')) + (k + 1) = events_processed (en_summary (ps_engine z1)) + j" by simp_all
      have z1: "stats_read z1" by (rule same_session_stats [OF between_events_frame [OF b] read_summary_stats])
      have "en_summary (ps_engine z1) = en_summary e"
        using between_events_frame [OF b] by (auto simp: same_session_def elim: same_runE)
      moreover have "i = 1" using step_loop_progress [OF l] pos by simp
      ultimately show ?thesis using ih z1 step_loop_counts [OF l] by simp
    qed
  qed (use Suc.prems in simp)
qed simp

text \<open>
  A restart does not restore the book. After a start that recovers a persisted state the session's counters and
  sequence are the persisted ones, but the positions, cash and orders it trades on are those it was handed,
  whatever positions and working orders were saved; and the first step that processes an event replaces the
  restored counts by this run's own, so the next state saved counts from zero again.
\<close>

theorem recovery_restores_only_counters:
  assumes "paper_start S st s = (Ok True, za)"
    and "pt_load st (paper_key (ps_config s)) (ps_world s) = Some (Ok v)"
  shows "pss_events (ps_stats za) = pst_events v \<and> ps_sequence za = pst_sequence v
    \<and> en_portfolio (ps_engine za) = en_portfolio (ps_engine s) \<and> en_oms (ps_engine za) = en_oms (ps_engine s)
    \<and> (case paper_step S st n za of
         Some (Inr k, zb) \<Rightarrow> if 0 < k then pss_events (ps_stats zb) = k \<and> pst_events (paper_capture zb) = k else True
       | _ \<Rightarrow> True)"
proof -
  have begun: "en_portfolio e = en_portfolio x \<and> en_oms e = en_oms x \<and> en_summary e = no_summary"
    if "engine_begin S (emplace_engine x) = (r, e)" for r x e
    using that by (auto simp: engine_begin_def emplace_engine_def Let_def split: prod.splits)
  obtain r z where rec: "paper_recover st (s\<lparr>ps_phase := SpStarting, ps_broker := snd (paper_connect (ps_broker s))\<rparr>) = (r, z)"
    by fastforce
  obtain q e where eb: "engine_begin S (emplace_engine (ps_engine z)) = (q, e)" by fastforce
  have za: "ps_engine za = e" "ps_stats za = (ps_stats z)\<lparr>pss_started_at := paper_now (z\<lparr>ps_engine := e, ps_engaged := True\<rparr>)\<rparr>"
    "ps_sequence za = ps_sequence z" and ok: "is_ok r"
    using assms(1) rec eb by (auto simp: paper_start_def paper_connect_def is_ok_def Let_def split: if_splits sum.splits)
  have z: "pss_events (ps_stats z) = pst_events v" "ps_sequence z = pst_sequence v" "ps_engine z = ps_engine s"
    using rec assms(2) ok by (auto simp: paper_recover_def is_ok_def split: if_splits)
  have "pss_events (ps_stats zb) = k" if "paper_step S st n za = Some (Inr k, zb)" "0 < k" for k zb
  proof -
    have "paper_events S st n 0 za = Some (Ok k, zb)" using that(1) by (auto simp: paper_step_def split: if_splits)
    from paper_events_stats [OF this] that(2) show ?thesis
      using begun [OF eb] za by (simp add: stats_read_def no_summary_def Let_def)
  qed
  then show ?thesis
    using za z begun [OF eb] by (auto simp: paper_capture_def split: option.split sum.split)
qed

section \<open>A session to try it on\<close>

definition quiet_strategy :: "unit IStrategy" where
  "quiet_strategy = \<lparr>on_start = \<lambda>_ s. (Ok True, s), on_bar = \<lambda>_. Return, on_quote = \<lambda>_. Return,
     on_trade = \<lambda>_. Return, on_fill = \<lambda>_ _ s. s, on_session_open = \<lambda>_. Return,
     on_session_close = \<lambda>_. Return, on_stop = \<lambda>_ s. s\<rparr>"

definition paper_engine :: "unit Engine" where
  "paper_engine = \<lparr>en_clock = \<lparr>clock_now = 0\<rparr>, en_source = \<lparr>rs_events = [], rs_next = 0, rs_first = kNoTimestamp\<rparr>,
     en_strategy = (), en_broker = sample_broker no_costs [], en_portfolio = new_portfolio default_portfolio_config,
     en_oms = new_book, en_risk = \<lparr>rm_limits = default_limits, rm_rejections = []\<rparr>, en_journal = empty_journal,
     en_cfg = default_engine_config, en_summary = no_summary, en_started = False, en_state = [],
     en_last_update = [], en_peak_equity = fzero, en_turnover_today = fzero, en_violation_count = 0,
     en_detail_text = \<lambda>_. [], en_error_text = \<lambda>_. []\<rparr>"

text \<open>A store of at most one state, whatever the key.\<close>

definition one_slot :: "SessionState option PaperStore" where
  "one_slot = \<lparr>pt_load = \<lambda>k v. map_option Ok v, pt_save = \<lambda>k x v. (Ok True, Some x)\<rparr>"

definition sample_paper_session :: "SessionState option \<Rightarrow> (unit, SessionState option) PaperSession" where
  "sample_paper_session v = new_paper_session default_paper_session paper_engine (new_paper_broker default_paper_broker) v"

lemma one_slot_accepts: "accepts_saves one_slot"
  by (simp add: accepts_saves_def one_slot_def is_ok_def)

lemma sample_paper_recovers: "fst (paper_recover one_slot (sample_paper_session v)) = Ok True"
  by (cases v) (simp_all add: paper_recover_def one_slot_def sample_paper_session_def new_paper_session_def default_paper_session_def)

lemma sample_paper_fresh:
  "ps_phase (sample_paper_session v) = SpCreated" "\<not> ps_stop_requested (sample_paper_session v)"
  "ps_engine (sample_paper_session v) = paper_engine"
  by (simp_all add: sample_paper_session_def new_paper_session_def)

lemma quiet_begin: "\<exists>e. engine_begin quiet_strategy (emplace_engine paper_engine) = (Ok True, e) \<and> events_left e = 0"
  by (simp add: engine_begin_def quiet_strategy_def emplace_engine_def paper_engine_def events_left_def Let_def)

lemma sample_paper_start:
  "\<exists>s. paper_start quiet_strategy one_slot (sample_paper_session v) = (Ok True, s) \<and> session_live s"
proof -
  obtain e where e: "engine_begin quiet_strategy (emplace_engine (ps_engine (sample_paper_session v))) = (Ok True, e)"
    using quiet_begin by (auto simp: sample_paper_fresh)
  from paper_start_engine [OF sample_paper_fresh(1,2) sample_paper_recovers e] show ?thesis by (auto simp: is_ok_def)
qed

theorem paper_run_is_the_backtest_witness:
  "case paper_run quiet_strategy one_slot (sample_paper_session None) of
     None \<Rightarrow> False | Some (q, s) \<Rightarrow> q = Ok (ps_stats s) \<and> ps_phase s = SpStopped"
proof -
  obtain e where e: "engine_begin quiet_strategy (emplace_engine paper_engine) = (Ok True, e)" "events_left e = 0"
    using quiet_begin by blast
  have "run_chunks quiet_strategy e = Some (Ok (), e)"
    by (rule run_chunks_done) (use e engine_begin_run [OF e(1)] in simp_all)
  then have "\<exists>sm e3. engine_run quiet_strategy (emplace_engine paper_engine) = Some (Ok sm, e3)"
    using e by (auto simp: engine_run_def split: prod.split)
  with paper_run_is_the_backtest [OF one_slot_accepts sample_paper_fresh(1,2) sample_paper_recovers,
      of quiet_strategy None]
  show ?thesis by (auto simp: sample_paper_fresh split: option.splits)
qed

theorem pausing_does_not_stop_orders_witness:
  "\<exists>s. paper_start quiet_strategy one_slot (sample_paper_session None) = (Ok True, s)
     \<and> paper_step quiet_strategy one_slot 5 (paper_pause ''news'' s) \<noteq> None"
proof -
  obtain s where s: "paper_start quiet_strategy one_slot (sample_paper_session None) = (Ok True, s)" "session_live s"
    using sample_paper_start by blast
  have "ps_engine s = snd (engine_begin quiet_strategy (emplace_engine paper_engine))"
    using paper_start_engine [OF sample_paper_fresh(1,2) sample_paper_recovers surjective_pairing, of quiet_strategy None] s(1)
    by (auto simp: sample_paper_fresh)
  then have "events_left (ps_engine s) = 0" using quiet_begin by auto
  from step_loop_exhausted [OF pull_exhausted [OF this], of quiet_strategy 5 0]
  have "engine_step quiet_strategy 5 (ps_engine s) = Some (Ok 0, ps_engine s)"
    using s(2) by (simp add: engine_step_def session_live_def)
  with pausing_does_not_stop_orders [OF one_slot_accepts s(2), of "''news''" quiet_strategy 5] s(1)
  show ?thesis by (auto split: option.splits)
qed

theorem recovery_restores_only_counters_witness:
  "\<exists>v s. paper_start quiet_strategy one_slot (sample_paper_session (Some v)) = (Ok True, s)
     \<and> pss_events (ps_stats s) = 7 \<and> pst_positions v \<noteq> [] \<and> pf_positions (en_portfolio (ps_engine s)) = []"
proof -
  define v where "v = (paper_capture (sample_paper_session None))\<lparr>pst_events := 7,
    pst_positions := [\<lparr>pp_instrument = 0, pp_quantity = Fin 100, pp_average_cost = Fin 100, pp_realized_pnl = fzero\<rparr>]\<rparr>"
  obtain s where s: "paper_start quiet_strategy one_slot (sample_paper_session (Some v)) = (Ok True, s)"
    using sample_paper_start by blast
  have l: "pt_load one_slot (paper_key (ps_config (sample_paper_session (Some v)))) (ps_world (sample_paper_session (Some v)))
      = Some (Ok v)"
    by (simp add: one_slot_def sample_paper_session_def new_paper_session_def)
  have "pss_events (ps_stats s) = 7" "pf_positions (en_portfolio (ps_engine s)) = []"
    using recovery_restores_only_counters [OF s l, where n = 0]
    by (simp_all add: v_def sample_paper_fresh paper_engine_def new_portfolio_def)
  moreover have "pst_positions v \<noteq> []" by (simp add: v_def)
  ultimately show ?thesis using s by blast
qed

end
