(* ===== verification/Calendar.thy ===== *)
theory Calendar
  imports CivilTime MarketData
begin

text \<open>
  The exchange calendar (\<open>src/market/calendar.cpp\<close>, \<open>session.hpp\<close>) and the session markers the
  replay source puts into a stream (\<open>with_session_events\<close> in \<open>source.cpp\<close>): the rules for
  holidays and daylight saving time, the generation of one session per date, the lookups, and what
  they answer for every instant.

  The midnights of dates are 64-bit products and the years of \<open>std::chrono\<close> are 16-bit numbers; both wrap here as the
  stored values do (\<open>CivilTime\<close>). The sums of a midnight and a few hours or days are exact: for the years up to 2261,
  which the theorems are about, none leaves the 64 bits. From 2262 on the code's midnights overflow.
\<close>

section \<open>Sessions\<close>

datatype SessionKind = SessClosed | SessRegular | SessHalfDay

fun to_string_SessionKind :: "SessionKind \<Rightarrow> string" where
  "to_string_SessionKind SessClosed = ''closed''"
| "to_string_SessionKind SessRegular = ''regular''"
| "to_string_SessionKind SessHalfDay = ''half_day''"

record Session =
  ses_date :: Timestamp
  ses_open :: Timestamp
  ses_close :: Timestamp
  ses_kind :: SessionKind

definition default_session :: Session where
  "default_session = \<lparr>ses_date = kNoTimestamp, ses_open = kNoTimestamp, ses_close = kNoTimestamp,
     ses_kind = SessClosed\<rparr>"

definition ses_is_open :: "Session \<Rightarrow> bool" where
  "ses_is_open s \<longleftrightarrow> ses_kind s \<noteq> SessClosed"

definition ses_length :: "Session \<Rightarrow> Duration" where
  "ses_length s = ses_close s - ses_open s"

definition ses_contains :: "Session \<Rightarrow> Timestamp \<Rightarrow> bool" where
  "ses_contains s ts \<longleftrightarrow> ses_is_open s \<and> ses_open s \<le> ts \<and> ts < ses_close s"

definition bar_count :: "Session \<Rightarrow> Duration \<Rightarrow> int" where
  "bar_count s bar = (if \<not> ses_is_open s \<or> bar \<le> 0 then 0 else ses_length s div bar)"

section \<open>Rules\<close>

definition year_rep :: "int \<Rightarrow> int" where
  "year_rep y = wrap_signed 16 y"

definition from_ymd :: "int \<Rightarrow> int \<Rightarrow> int \<Rightarrow> Timestamp" where
  "from_ymd y m d = wrap64 (days_from_civil (year_rep y) m d * day_ns)"

text \<open>Monday is 1 and Sunday 7; the epoch was a Thursday.\<close>

definition weekday_of :: "int \<Rightarrow> int" where
  "weekday_of k = (k + 3) mod 7 + 1"

definition iso_weekday :: "Timestamp \<Rightarrow> int" where
  "iso_weekday ts = weekday_of (ts div day_ns)"

definition year_of :: "Timestamp \<Rightarrow> int" where
  "year_of ts = fst (civil_from_days (ts div day_ns))"

text \<open>For the years the calendar generates all of these are quotients of non-negative numbers.\<close>

definition easter_sunday :: "int \<Rightarrow> Timestamp" where
  "easter_sunday y =
     (let a = y mod 19; b = y div 100; c = y mod 100; d = b div 4; e = b mod 4;
          f = (b + 8) div 25; g = (b - f + 1) div 3; h = (19 * a + b - d - g + 15) mod 30;
          i = c div 4; k = c mod 4; l = (32 + 2 * e + 2 * i - h - k) mod 7;
          m = (a + 11 * h + 22 * l) div 451 in
      from_ymd y ((h + l - 7 * m + 114) div 31) ((h + l - 7 * m + 114) mod 31 + 1))"

definition nth_weekday :: "int \<Rightarrow> int \<Rightarrow> int \<Rightarrow> int \<Rightarrow> Timestamp" where
  "nth_weekday y mo wd n =
     (if 0 < n then
        (let first_wd = weekday_of (days_from_civil (year_rep y) mo 1) in
         from_ymd y mo (1 + ((wd + 7 - first_wd) mod 7 + (n - 1) * 7)))
      else
        (let ld = last_day (year_rep y) mo; last_wd = weekday_of (days_from_civil (year_rep y) mo ld) in
         from_ymd y mo (ld - ((last_wd + 7 - wd) mod 7 + (- n - 1) * 7))))"

definition observed_holiday :: "Timestamp \<Rightarrow> Timestamp" where
  "observed_holiday actual =
     (if iso_weekday actual = 6 then actual - day_ns
      else if iso_weekday actual = 7 then actual + day_ns else actual)"

definition is_us_daylight_time :: "Timestamp \<Rightarrow> int \<Rightarrow> bool" where
  "is_us_daylight_time d y \<longleftrightarrow> nth_weekday y 3 7 2 \<le> d \<and> d < nth_weekday y 11 7 1"

definition full_holidays :: "int \<Rightarrow> Timestamp list" where
  "full_holidays y =
     [observed_holiday (from_ymd y 1 1), nth_weekday y 1 1 3, nth_weekday y 2 1 3,
      easter_sunday y - 2 * day_ns, nth_weekday y 5 1 (- 1)] @
     (if 2022 \<le> y then [observed_holiday (from_ymd y 6 19)] else []) @
     [observed_holiday (from_ymd y 7 4), nth_weekday y 9 1 1, nth_weekday y 11 4 4,
      observed_holiday (from_ymd y 12 25)] @
     (let next_ny = observed_holiday (from_ymd (y + 1) 1 1) in
      if year_of next_ny = y then [next_ny] else [])"

definition half_days :: "int \<Rightarrow> Timestamp list \<Rightarrow> Timestamp list" where
  "half_days y shut =
     (let jul3 = from_ymd y 7 3; jul4 = from_ymd y 7 4; dec24 = from_ymd y 12 24 in
      (if iso_weekday jul3 \<le> 5 \<and> iso_weekday jul4 \<le> 5 \<and> jul3 \<notin> set shut then [jul3] else []) @
      [nth_weekday y 11 4 4 + day_ns] @
      (if iso_weekday dec24 \<le> 5 \<and> dec24 \<notin> set shut then [dec24] else []))"

section \<open>Generation\<close>

record CalendarException =
  cx_date :: Timestamp
  cx_kind :: SessionKind
  cx_reason :: string

record CalendarSpec =
  cs_mic :: string
  regular_open :: Duration
  regular_close :: Duration
  half_day_close :: Duration
  standard_utc_offset_hours :: int
  daylight_utc_offset_hours :: int
  cs_exceptions :: "CalendarException list"

definition us_equities_spec :: CalendarSpec where
  "us_equities_spec = \<lparr>cs_mic = ''XNYS'', regular_open = 9 * hour_ns + 30 * minute_ns,
     regular_close = 16 * hour_ns, half_day_close = 13 * hour_ns,
     standard_utc_offset_hours = - 5, daylight_utc_offset_hours = - 4,
     cs_exceptions =
       [\<lparr>cx_date = from_ymd 2018 12 5, cx_kind = SessClosed,
         cx_reason = ''national day of mourning: G.H.W. Bush''\<rparr>,
        \<lparr>cx_date = from_ymd 2025 1 9, cx_kind = SessClosed,
         cx_reason = ''national day of mourning: J. Carter''\<rparr>]\<rparr>"

record Calendar =
  cal_mic :: string
  cal_all :: "Session list"
  cal_open :: "Session list"

datatype calendar_error = YearsReversed | YearBefore2008 | CloseNotAfterOpen

text \<open>\<open>emplace\<close> keeps the exception that is listed first for a date.\<close>

definition override_kind :: "CalendarSpec \<Rightarrow> Timestamp \<Rightarrow> SessionKind option" where
  "override_kind spec d = map_option cx_kind (find (\<lambda>e. utc_date_floor (cx_date e) = d) (cs_exceptions spec))"

definition kind_on :: "CalendarSpec \<Rightarrow> Timestamp list \<Rightarrow> Timestamp list \<Rightarrow> Timestamp \<Rightarrow> SessionKind" where
  "kind_on spec shut early d =
     (case override_kind spec d of
        Some k \<Rightarrow> k
      | None \<Rightarrow>
          if 6 \<le> iso_weekday d \<or> d \<in> set shut then SessClosed
          else if d \<in> set early then SessHalfDay else SessRegular)"

definition make_session :: "CalendarSpec \<Rightarrow> Timestamp list \<Rightarrow> Timestamp list \<Rightarrow> int \<Rightarrow> Timestamp \<Rightarrow> Session" where
  "make_session spec shut early y d =
     (let kind = kind_on spec shut early d;
          s = default_session\<lparr>ses_date := d, ses_kind := kind\<rparr> in
      if kind = SessClosed then s
      else
        (let offset_h = (if is_us_daylight_time d y then daylight_utc_offset_hours spec
                         else standard_utc_offset_hours spec);
             to_utc = - (offset_h * hour_ns) in
         s\<lparr>ses_open := d + regular_open spec + to_utc,
           ses_close := d + (if kind = SessHalfDay then half_day_close spec else regular_close spec) + to_utc\<rparr>))"

text \<open>
  The loop over the dates of a year. Both ends are midnights of the same calendar, so where the first is below the
  second the loop meets it and no step overflows.
\<close>

function day_loop :: "Timestamp \<Rightarrow> Timestamp \<Rightarrow> Timestamp list" where
  "day_loop d until = (if d < until then d # day_loop (d + day_ns) until else [])"
  by pat_completeness auto
termination by (relation "measure (\<lambda>(d, until). nat (until - d))") (simp_all add: day_ns_def)

declare day_loop.simps [simp del]

definition year_sessions :: "CalendarSpec \<Rightarrow> int \<Rightarrow> Session list" where
  "year_sessions spec y =
     (let shut = full_holidays y; early = half_days y shut in
      map (make_session spec shut early y) (day_loop (from_ymd y 1 1) (from_ymd (y + 1) 1 1)))"

definition calendar_build :: "CalendarSpec \<Rightarrow> int \<Rightarrow> int \<Rightarrow> (calendar_error, Calendar) result" where
  "calendar_build spec first_year last_year =
     (if last_year < first_year then Err YearsReversed
      else if first_year < 2008 then Err YearBefore2008
      else if regular_close spec \<le> regular_open spec \<or> half_day_close spec \<le> regular_open spec
        then Err CloseNotAfterOpen
      else
        (let sessions = concat (map (year_sessions spec) [first_year .. last_year]) in
         Ok \<lparr>cal_mic = cs_mic spec, cal_all = sessions, cal_open = filter ses_is_open sessions\<rparr>))"

section \<open>Lookups\<close>

text \<open>\<open>lower_bound\<close> on a range sorted by date is its first element not before the key.\<close>

definition find_by_date :: "Session list \<Rightarrow> Timestamp \<Rightarrow> Session option" where
  "find_by_date v date =
     (case dropWhile (\<lambda>s. ses_date s < date) v of
        [] \<Rightarrow> None
      | s # _ \<Rightarrow> if ses_date s \<noteq> date then None else Some s)"

definition session_on :: "Calendar \<Rightarrow> Timestamp \<Rightarrow> Session option" where
  "session_on cal ts = find_by_date (cal_all cal) (utc_date_floor ts)"

fun first_containing :: "Calendar \<Rightarrow> Timestamp \<Rightarrow> int list \<Rightarrow> Session option" where
  "first_containing cal ts [] = None"
| "first_containing cal ts (off # offs) =
     (case find_by_date (cal_all cal) (wrap64 (utc_date_floor ts + off * day_ns)) of
        None \<Rightarrow> first_containing cal ts offs
      | Some s \<Rightarrow> if ses_contains s ts then Some s else first_containing cal ts offs)"

definition session_containing :: "Calendar \<Rightarrow> Timestamp \<Rightarrow> Session option" where
  "session_containing cal ts = first_containing cal ts [- 1, 0, 1]"

definition is_trading_day :: "Calendar \<Rightarrow> Timestamp \<Rightarrow> bool" where
  "is_trading_day cal ts \<longleftrightarrow> (case session_on cal ts of None \<Rightarrow> False | Some s \<Rightarrow> ses_is_open s)"

definition is_open_at :: "Calendar \<Rightarrow> Timestamp \<Rightarrow> bool" where
  "is_open_at cal ts \<longleftrightarrow> session_containing cal ts \<noteq> None"

definition next_session :: "Calendar \<Rightarrow> Timestamp \<Rightarrow> Session option" where
  "next_session cal ts =
     (case dropWhile (\<lambda>s. \<not> utc_date_floor ts < ses_date s) (cal_open cal) of [] \<Rightarrow> None | s # _ \<Rightarrow> Some s)"

definition previous_session :: "Calendar \<Rightarrow> Timestamp \<Rightarrow> Session option" where
  "previous_session cal ts =
     (case takeWhile (\<lambda>s. ses_date s < utc_date_floor ts) (cal_open cal) of [] \<Rightarrow> None | ss \<Rightarrow> Some (last ss))"

definition range_begin :: "Calendar \<Rightarrow> Timestamp" where
  "range_begin cal = (if cal_all cal = [] then kNoTimestamp else ses_date (hd (cal_all cal)))"

definition range_end :: "Calendar \<Rightarrow> Timestamp" where
  "range_end cal = (if cal_all cal = [] then kNoTimestamp else ses_date (last (cal_all cal)))"

section \<open>The rules land where they say\<close>

lemma day_ns_pos [simp]: "0 < day_ns"
  by (simp add: day_ns_def)

lemma day_ns_nonneg [simp]: "0 \<le> day_ns"
  by (simp add: day_ns_def)

lemma div_day [simp]: "k * day_ns div day_ns = k"
  by (simp add: day_ns_def)

lemma weekday_of_range: "1 \<le> weekday_of k \<and> weekday_of k \<le> 7"
  using pos_mod_bound [of 7 "k + 3"] by (simp add: weekday_of_def)

lemma iso_weekday_range: "1 \<le> iso_weekday ts \<and> iso_weekday ts \<le> 7"
  by (simp add: iso_weekday_def weekday_of_range)

lemma days_from_civil_day: "days_from_civil y m d = days_from_civil y m 1 + (d - 1)"
  by (simp add: days_from_civil_def Let_def)

lemma weekday_of_civil: "weekday_of (days_from_civil y m d) = (weekday_of (days_from_civil y m 1) - 1 + (d - 1)) mod 7 + 1"
proof -
  have "(days_from_civil y m d + 3) mod 7 = ((days_from_civil y m 1 + 3) mod 7 + (d - 1)) mod 7"
    by (subst days_from_civil_day, subst mod_add_left_eq) (simp add: algebra_simps)
  then show ?thesis by (simp add: weekday_of_def)
qed

lemma year_rep_exact [simp]: "0 \<le> y \<Longrightarrow> y \<le> 32767 \<Longrightarrow> year_rep y = y"
  by (simp add: year_rep_def wrap_signed_def)

text \<open>The days whose midnight fits the 64 bits.\<close>

lemma midnight_fits: "fits64 (k * day_ns) \<longleftrightarrow> - 106751 \<le> k \<and> k \<le> 106751"
  unfolding fits64_def kNoTimestamp_def kMaxTimestamp_def day_ns_def by simp linarith

text \<open>Every date the calendar names in the years up to 2261 is one of them, the days a rule may step over included.\<close>

lemma civil_days_fit:
  assumes "1700 \<le> y" "y \<le> 2261" "1 \<le> m" "m \<le> 12" "- 7 \<le> d" "d \<le> 35"
  shows "- 106751 \<le> days_from_civil y m d \<and> days_from_civil y m d \<le> 106751"
proof -
  define y1 where "y1 = (if m \<le> 2 then y - 1 else y)"
  define mp where "mp = (if m > 2 then m - 3 else m + 9)"
  define e r where "e = y1 div 400" and "r = y1 mod 400"
  have y1: "1699 \<le> y1" "y1 \<le> 2261" using assms by (auto simp: y1_def)
  have split: "y1 = 400 * e + r" "0 \<le> r" "r < 400" by (simp_all add: e_def r_def)
  have ms: "0 \<le> month_start mp" "month_start mp \<le> 337"
    using assms(3,4) by (auto simp: mp_def month_start_def le_div_iff)
  have q: "4 * (r div 4) \<le> r" "r < 4 * (r div 4) + 4" "100 * (r div 100) \<le> r" "r < 100 * (r div 100) + 100"
    using div_bounds [of 4 r] div_bounds [of 100 r] by simp_all
  have days: "days_from_civil y m d = e * 146097 + r * 365 + r div 4 - r div 100 + month_start mp + (d - 1) - 719468"
    by (simp add: days_from_civil_def Let_def e_def r_def y1_def mp_def)
  have "e = 4 \<or> e = 5" using y1 split by linarith
  then show ?thesis
  proof
    assume "e = 4"
    then show ?thesis using days y1 split ms q assms(5,6) by (simp; linarith)
  next
    assume "e = 5"
    then show ?thesis using days y1 split ms q assms(5,6) by (simp; linarith)
  qed
qed

lemma from_ymd_exact:
  assumes "1700 \<le> y" "y \<le> 2261" "1 \<le> m" "m \<le> 12" "- 7 \<le> d" "d \<le> 35"
  shows "from_ymd y m d = days_from_civil y m d * day_ns"
  using civil_days_fit [OF assms] assms(1,2) by (simp add: from_ymd_def midnight_fits)

lemma weekday_forward:
  fixes w wd :: int
  assumes "1 \<le> wd" "wd \<le> 7"
  shows "(w - 1 + ((wd + 7 - w) mod 7 + j * 7)) mod 7 + 1 = wd"
proof -
  have "(w - 1 + ((wd + 7 - w) mod 7 + j * 7)) mod 7 = (w - 1 + (wd + 7 - w)) mod 7"
    by (metis add.assoc mod_add_right_eq mod_mult_self1)
  also have "\<dots> = wd - 1" using assms by presburger
  finally show ?thesis by simp
qed

text \<open>
  The holiday rules land where they say: in the years whose dates fit, the \<open>n\<close>th weekday of a month is that weekday, in
  the \<open>n\<close>th seven days of the month counted from its start (or from its end for a negative \<open>n\<close>), and an observed
  holiday is never at a weekend and at most a day from the actual one.
\<close>

theorem holiday_rules_land:
  assumes "1 \<le> wd" "wd \<le> 7" "n \<noteq> 0" "- 5 \<le> n" "n \<le> 5" "1700 \<le> y" "y \<le> 2261" "1 \<le> mo" "mo \<le> 12"
  shows "iso_weekday (nth_weekday y mo wd n) = wd \<and>
    (\<exists>d. nth_weekday y mo wd n = from_ymd y mo d \<and>
       (if 0 < n then 7 * (n - 1) < d \<and> d \<le> 7 * n
        else 7 * (- n - 1) \<le> last_day y mo - d \<and> last_day y mo - d < 7 * (- n))) \<and>
    iso_weekday (observed_holiday ts) \<le> 5 \<and> \<bar>observed_holiday ts - ts\<bar> \<le> day_ns"
proof -
  have obs: "iso_weekday (observed_holiday ts) \<le> 5 \<and> \<bar>observed_holiday ts - ts\<bar> \<le> day_ns"
  proof -
    have sub: "(ts - day_ns) div day_ns = ts div day_ns - 1" "(ts + day_ns) div day_ns = ts div day_ns + 1"
      "0 \<le> day_ns"
      using div_mult_self1 [of day_ns ts "- 1"] div_mult_self1 [of day_ns ts 1] by (simp_all add: day_ns_def)
    define k where "k = ts div day_ns + 3"
    have "k mod 7 \<le> 4 \<or> k mod 7 = 5 \<or> k mod 7 = 6" by presburger
    moreover have "(k - 1) mod 7 = 4" if "k mod 7 = 5" using that by presburger
    moreover have "(k + 1) mod 7 = 0" if "k mod 7 = 6" using that by presburger
    ultimately show ?thesis
      using sub unfolding observed_holiday_def iso_weekday_def weekday_of_def by (auto simp: k_def)
  qed
  have rep: "year_rep y = y" using assms by simp
  show ?thesis
  proof (cases "0 < n")
    case True
    define w where "w = weekday_of (days_from_civil y mo 1)"
    define d where "d = 1 + ((wd + 7 - w) mod 7 + (n - 1) * 7)"
    have e: "nth_weekday y mo wd n = from_ymd y mo d"
      using True by (simp add: nth_weekday_def Let_def w_def d_def rep)
    have d: "7 * (n - 1) < d" "d \<le> 7 * n"
      using pos_mod_sign [of 7 "wd + 7 - w"] pos_mod_bound [of 7 "wd + 7 - w"]
      by (simp_all add: d_def algebra_simps del: pos_mod_sign pos_mod_bound)
    then have "from_ymd y mo d = days_from_civil y mo d * day_ns" using assms True by (intro from_ymd_exact) simp_all
    moreover have "weekday_of (days_from_civil y mo d) = wd"
      unfolding weekday_of_civil [of y mo d] w_def [symmetric]
      using weekday_forward [OF assms(1,2), of w "n - 1"] by (simp add: d_def)
    ultimately have "iso_weekday (from_ymd y mo d) = wd" by (simp add: iso_weekday_def)
    then show ?thesis using obs True d unfolding e by auto
  next
    case False
    define w where "w = weekday_of (days_from_civil y mo (last_day y mo))"
    define b where "b = (w + 7 - wd) mod 7 + (- n - 1) * 7"
    have e: "nth_weekday y mo wd n = from_ymd y mo (last_day y mo - b)"
      using False by (simp add: nth_weekday_def Let_def w_def b_def rep)
    have bound: "7 * (- n - 1) \<le> b" "b < 7 * (- n)"
      using pos_mod_sign [of 7 "w + 7 - wd"] pos_mod_bound [of 7 "w + 7 - wd"]
      by (simp_all add: b_def algebra_simps del: pos_mod_sign pos_mod_bound)
    have ld: "28 \<le> last_day y mo" "last_day y mo \<le> 31" by (simp_all add: last_day_def)
    have "w - 1 = (weekday_of (days_from_civil y mo 1) - 1 + (last_day y mo - 1)) mod 7"
      by (simp add: w_def weekday_of_civil [of y mo "last_day y mo"])
    then have "(weekday_of (days_from_civil y mo 1) - 1 + (last_day y mo - b - 1)) mod 7 = (w - 1 - b) mod 7"
      by (simp add: mod_simps algebra_simps)
    also have "\<dots> = (w - 1 - (w + 7 - wd)) mod 7"
      unfolding b_def by (metis diff_diff_eq mod_diff_right_eq mod_mult_self1)
    also have "\<dots> = (wd - 8) mod 7" by simp
    also have "\<dots> = wd - 1" using assms by presburger
    finally have "weekday_of (days_from_civil y mo (last_day y mo - b)) = wd"
      by (simp add: weekday_of_civil [of y mo "last_day y mo - b"])
    moreover have "from_ymd y mo (last_day y mo - b) = days_from_civil y mo (last_day y mo - b) * day_ns"
      using assms bound ld False by (intro from_ymd_exact) simp_all
    ultimately have "iso_weekday (from_ymd y mo (last_day y mo - b)) = wd" by (simp add: iso_weekday_def)
    then show ?thesis using obs False bound unfolding e by auto
  qed
qed

theorem holiday_rules_land_witness:
  "iso_weekday (nth_weekday 2024 11 4 4) = 4 \<and>
    (\<exists>d. nth_weekday 2024 11 4 4 = from_ymd 2024 11 d \<and>
       (if 0 < (4::int) then 7 * (4 - 1) < d \<and> d \<le> 7 * 4
        else 7 * (- 4 - 1) \<le> last_day 2024 11 - d \<and> last_day 2024 11 - d < 7 * (- 4))) \<and>
    iso_weekday (observed_holiday (from_ymd 2026 7 4)) \<le> 5 \<and>
    \<bar>observed_holiday (from_ymd 2026 7 4) - from_ymd 2026 7 4\<bar> \<le> day_ns"
  by (rule holiday_rules_land) simp_all

section \<open>Every date once, in order\<close>

text \<open>The day number of the first of January, in closed form.\<close>

lemma new_year:
  "days_from_civil y 1 1 = 365 * (y - 1) + (y - 1) div 4 - (y - 1) div 100 + (y - 1) div 400 + 306 - 719468"
proof -
  define n where "n = y - 1"
  define e r where "e = n div 400" and "r = n mod 400"
  have n: "n = r + 4 * (100 * e)" "n = r + 100 * (4 * e)" by (simp_all add: e_def r_def)
  have "n div 4 = 100 * e + r div 4" by (subst n(1), subst div_mult_self2) simp_all
  moreover have "n div 100 = 4 * e + r div 100" by (subst n(2), subst div_mult_self2) simp_all
  moreover have "days_from_civil y 1 1 = e * 146097 + r * 365 + r div 4 - r div 100 + 306 - 719468"
    unfolding days_from_civil_def Let_def by (simp add: month_start_values e_def r_def n_def)
  ultimately have "days_from_civil y 1 1 = 365 * n + n div 4 - n div 100 + n div 400 + 306 - 719468"
    unfolding e_def [symmetric] using n(1) by linarith
  then show ?thesis by (simp only: n_def)
qed

lemma year_length: "365 \<le> days_from_civil (y + 1) 1 1 - days_from_civil y 1 1"
proof -
  have "y div k = (y - 1) div k + (if y mod k = 0 then 1 else 0)" if "0 < k" for k
    using succ_div [OF that, of "y - 1"] by simp
  note s = this
  define step :: "int \<Rightarrow> int" where "step = (\<lambda>k. if y mod k = 0 then 1 else 0)"
  have q: "y div 4 = (y - 1) div 4 + step 4" "y div 100 = (y - 1) div 100 + step 100"
    "y div 400 = (y - 1) div 400 + step 400"
    unfolding step_def by (rule s, simp)+
  have "step 100 \<le> step 4" "0 \<le> step 400" using mod_mod_cancel [of 4 100 y] by (auto simp: step_def)
  moreover have "days_from_civil (y + 1) 1 1 = 365 * y + y div 4 - y div 100 + y div 400 + 306 - 719468"
    by (simp add: new_year)
  moreover have "365 \<le> D1 - D0"
    if "A = A' + s4" "B = B' + s100" "C = C' + s400" "s100 \<le> s4" "0 \<le> s400"
      "D1 = 365 * y + A - B + C + 306 - 719468" "D0 = 365 * (y - 1) + A' - B' + C' + 306 - 719468"
    for A A' B B' C C' s4 s100 s400 D0 D1 :: int
    using that by simp
  ultimately show ?thesis using q new_year [of y] by blast
qed

lemma new_year_mono: "y \<le> y' \<Longrightarrow> days_from_civil y 1 1 \<le> days_from_civil y' 1 1"
proof (induction y' rule: int_ge_induct)
  case (step i)
  then show ?case using year_length [of i] by simp
qed simp

lemma upto_append: "b \<le> c \<Longrightarrow> a \<le> b \<Longrightarrow> [a .. b - 1] @ [b .. c - 1] = [a .. c - 1]" for a b c :: int
proof (induction c rule: int_ge_induct)
  case (step i)
  then show ?case using upto_rec2 [of b i] upto_rec2 [of a i] by simp
qed simp_all

text \<open>The dates of a calendar are consecutive days, from the first year's first to the last year's last.\<close>

definition calendar_days :: "int \<Rightarrow> int \<Rightarrow> int list" where
  "calendar_days first_year last_year = [days_from_civil first_year 1 1 .. days_from_civil (last_year + 1) 1 1 - 1]"

lemma make_session_date [simp]: "ses_date (make_session spec shut early y d) = d"
  by (simp add: make_session_def default_session_def Let_def)

lemma day_loop_days: "day_loop (a * day_ns) (b * day_ns) = map (\<lambda>k. k * day_ns) [a .. b - 1]"
proof (induction "nat (b - a)" arbitrary: a)
  case 0
  then show ?case by (subst day_loop.simps) simp
next
  case (Suc n)
  then have "day_loop ((a + 1) * day_ns) (b * day_ns) = map (\<lambda>k. k * day_ns) [a + 1 .. b - 1]" by simp
  then show ?case using Suc(2) by (subst day_loop.simps) (simp add: distrib_right upto_rec1)
qed

lemma new_year_exact:
  assumes "1700 \<le> y" "y \<le> 2262"
  shows "from_ymd y 1 1 = days_from_civil y 1 1 * day_ns"
proof -
  have ends: "days_from_civil 1700 1 1 = - 98615" "days_from_civil 2262 1 1 = 106651" by code_simp+
  have "- 98615 \<le> days_from_civil y 1 1" "days_from_civil y 1 1 \<le> 106651"
    using new_year_mono [OF assms(1)] new_year_mono [OF assms(2)] by (simp_all add: ends)
  then show ?thesis using assms by (simp add: from_ymd_def midnight_fits)
qed

lemma year_days:
  assumes "1700 \<le> y" "y \<le> 2261"
  shows "day_loop (from_ymd y 1 1) (from_ymd (y + 1) 1 1) =
     map (\<lambda>k. k * day_ns) [days_from_civil y 1 1 .. days_from_civil (y + 1) 1 1 - 1]"
  using assms by (simp add: new_year_exact day_loop_days)

lemma year_sessions_dates:
  assumes "1700 \<le> y" "y \<le> 2261"
  shows "map ses_date (year_sessions spec y) =
     map (\<lambda>k. k * day_ns) [days_from_civil y 1 1 .. days_from_civil (y + 1) 1 1 - 1]"
  by (simp add: year_sessions_def Let_def year_days [OF assms] comp_def)

lemma all_dates:
  assumes "first_year \<le> last_year"
  shows "1700 \<le> first_year \<Longrightarrow> last_year \<le> 2261 \<Longrightarrow>
    map ses_date (concat (map (year_sessions spec) [first_year .. last_year])) =
     map (\<lambda>k. k * day_ns) (calendar_days first_year last_year)"
  using assms
proof (induction last_year rule: int_ge_induct)
  case base
  then show ?case by (simp add: year_sessions_dates calendar_days_def)
next
  case (step i)
  let ?n = "\<lambda>y. days_from_civil y 1 1"
  have ih: "map ses_date (concat (map (year_sessions spec) [first_year .. i])) =
     map (\<lambda>k. k * day_ns) (calendar_days first_year i)" using step by simp
  have "map ses_date (concat (map (year_sessions spec) [first_year .. i + 1])) =
      map ses_date (concat (map (year_sessions spec) [first_year .. i])) @ map ses_date (year_sessions spec (i + 1))"
    using step(1) by (simp add: upto_rec2)
  also have "\<dots> = map (\<lambda>k. k * day_ns) ([?n first_year .. ?n (i + 1) - 1] @ [?n (i + 1) .. ?n (i + 1 + 1) - 1])"
    using step by (simp only: ih, subst year_sessions_dates) (simp_all add: calendar_days_def)
  also have "[?n first_year .. ?n (i + 1) - 1] @ [?n (i + 1) .. ?n (i + 1 + 1) - 1] = calendar_days first_year (i + 1)"
    unfolding calendar_days_def by (rule upto_append) (use step(1) new_year_mono in simp_all)
  finally show ?case .
qed

text \<open>
  The year 2262 has no date: the midnight of the first of January 2263 overflows to an instant of 1678, so the loop
  over its days starts after it has ended.
\<close>

lemma the_year_2262_is_empty: "year_sessions spec 2262 = []"
proof -
  have "from_ymd 2263 1 1 \<le> from_ymd 2262 1 1" by code_simp
  then show ?thesis by (simp add: year_sessions_def Let_def) (subst day_loop.simps, simp)
qed

section \<open>What the lookups answer\<close>

lemma find_by_date_iff:
  "sorted_wrt (<) (map ses_date v) \<Longrightarrow> find_by_date v d = Some s \<longleftrightarrow> s \<in> set v \<and> ses_date s = d"
proof (induction v)
  case (Cons a v)
  then have less: "\<forall>x \<in> set v. ses_date a < ses_date x" by simp
  show ?case
  proof (cases "ses_date a < d")
    case True
    then have "find_by_date (a # v) d = find_by_date v d" by (simp add: find_by_date_def)
    with Cons True show ?thesis by auto
  next
    case False
    with less show ?thesis by (auto simp: find_by_date_def)
  qed
qed (simp add: find_by_date_def)

text \<open>What \<open>build\<close> guarantees of its sessions, whatever the schedule.\<close>

definition calendar_ok :: "Calendar \<Rightarrow> bool" where
  "calendar_ok cal \<longleftrightarrow> sorted_wrt (<) (map ses_date (cal_all cal)) \<and> cal_open cal = filter ses_is_open (cal_all cal) \<and>
     list_all (\<lambda>s. ses_date s div day_ns * day_ns = ses_date s \<and> fits64 (ses_date s)) (cal_all cal)"

lemma sorted_days: "sorted_wrt (<) (map (\<lambda>k. k * day_ns) [a .. b])"
proof -
  have "sorted_wrt (<) [a .. b]" by (rule sorted_wrt_upto)
  then show ?thesis by (simp add: sorted_wrt_map sorted_wrt_mono_rel [of _ "(<)"])
qed

lemma calendar_build_cases:
  assumes "calendar_build spec first_year last_year = Ok cal" "last_year \<le> 2261"
  shows "calendar_ok cal" "map ses_date (cal_all cal) = map (\<lambda>k. k * day_ns) (calendar_days first_year last_year)"
    "\<And>s. s \<in> set (cal_all cal) \<Longrightarrow> \<exists>y d. s = make_session spec (full_holidays y) (half_days y (full_holidays y)) y d"
    "2008 \<le> first_year" "first_year \<le> last_year"
proof -
  from assms(1) have y: "first_year \<le> last_year" "2008 \<le> first_year"
    and all: "cal_all cal = concat (map (year_sessions spec) [first_year .. last_year])"
    and opn: "cal_open cal = filter ses_is_open (cal_all cal)"
    by (auto simp: calendar_build_def Let_def split: if_splits)
  show "2008 \<le> first_year" "first_year \<le> last_year" by (rule y)+
  show dates: "map ses_date (cal_all cal) = map (\<lambda>k. k * day_ns) (calendar_days first_year last_year)"
    unfolding all using all_dates [OF y(1)] y(2) assms(2) by simp
  have ends: "days_from_civil 1700 1 1 = - 98615" "days_from_civil 2262 1 1 = 106651" by code_simp+
  have "- 98615 \<le> days_from_civil first_year 1 1" "days_from_civil (last_year + 1) 1 1 \<le> 106651"
    using new_year_mono [of 1700 first_year] new_year_mono [of "last_year + 1" 2262] y assms(2) by (simp_all add: ends)
  then have "\<forall>d \<in> set (map ses_date (cal_all cal)). d div day_ns * day_ns = d \<and> fits64 d"
    unfolding dates by (auto simp: calendar_days_def midnight_fits)
  then have "\<forall>s \<in> set (cal_all cal). ses_date s div day_ns * day_ns = ses_date s \<and> fits64 (ses_date s)" by simp
  then show "calendar_ok cal"
    using sorted_days opn unfolding calendar_ok_def dates calendar_days_def list_all_iff by blast
  show "\<exists>y d. s = make_session spec (full_holidays y) (half_days y (full_holidays y)) y d"
    if "s \<in> set (cal_all cal)" for s
    using that unfolding all year_sessions_def Let_def by auto
qed

text \<open>
  The sessions of the default schedule: on a weekday, inside their own UTC date, opening at 09:30 New
  York time, of six and a half hours or, on a half day, three and a half.
\<close>

definition us_session :: "Session \<Rightarrow> bool" where
  "us_session s \<longleftrightarrow> (ses_is_open s \<longrightarrow> iso_weekday (ses_date s) \<le> 5 \<and>
     ses_date s < ses_open s \<and> ses_close s < ses_date s + day_ns \<and>
     ses_length s = (if ses_kind s = SessHalfDay then 210 * minute_ns else 390 * minute_ns))"

lemma us_override_closed:
  "override_kind us_equities_spec d = Some k \<Longrightarrow> k = SessClosed"
  by (auto simp: override_kind_def us_equities_spec_def split: if_splits)

lemma us_make_session: "us_session (make_session us_equities_spec shut early y d)"
proof (cases "kind_on us_equities_spec shut early d = SessClosed")
  case True
  then show ?thesis by (simp add: us_session_def make_session_def Let_def ses_is_open_def default_session_def)
next
  case False
  then have none: "override_kind us_equities_spec d = None"
    by (auto simp: kind_on_def dest: us_override_closed split: option.splits)
  with False have wd: "iso_weekday d \<le> 5" by (auto simp: kind_on_def split: if_splits)
  have off: "daylight_utc_offset_hours us_equities_spec = - 4" "standard_utc_offset_hours us_equities_spec = - 5"
    "regular_open us_equities_spec = 9 * hour_ns + 30 * minute_ns" "regular_close us_equities_spec = 16 * hour_ns"
    "half_day_close us_equities_spec = 13 * hour_ns"
    by (simp_all add: us_equities_spec_def)
  from False wd show ?thesis
    by (simp add: us_session_def make_session_def Let_def ses_length_def off hour_ns_def minute_ns_def day_ns_def)
qed

definition us_calendar :: "Calendar \<Rightarrow> bool" where
  "us_calendar cal \<longleftrightarrow> calendar_ok cal \<and> list_all us_session (cal_all cal)"

lemma us_built: "calendar_build us_equities_spec first_year last_year = Ok cal \<Longrightarrow> last_year \<le> 2261 \<Longrightarrow> us_calendar cal"
  using calendar_build_cases(1,3) [of us_equities_spec first_year last_year cal] us_make_session
  unfolding us_calendar_def list_all_iff by metis

lemma us_date:
  assumes "us_calendar cal" "s \<in> set (cal_all cal)"
  shows "ses_date s = ses_date s div day_ns * day_ns" "fits64 (ses_date s)"
  using assms by (auto simp: us_calendar_def calendar_ok_def list_all_iff)

lemma us_floor:
  assumes "us_calendar cal" "s \<in> set (cal_all cal)" "ses_contains s ts"
  shows "ts div day_ns * day_ns = ses_date s" "utc_date_floor ts = ses_date s"
proof -
  from assms(1,2) have us: "us_session s" by (auto simp: us_calendar_def list_all_iff)
  define k where "k = ses_date s div day_ns"
  have k: "ses_date s = k * day_ns" using us_date(1) [OF assms(1,2)] by (simp add: k_def)
  from us assms(3) have "k * day_ns \<le> ts" "ts < k * day_ns + day_ns"
    by (auto simp: us_session_def ses_contains_def k)
  then have "ts div day_ns = k"
    by (intro div_unique) (simp_all add: mult.commute)
  then show "ts div day_ns * day_ns = ses_date s" "utc_date_floor ts = ses_date s"
    using us_date(2) [OF assms(1,2)] by (simp_all add: utc_date_floor_def k)
qed

text \<open>A neighbouring midnight is another one, even where the sum wraps.\<close>

lemma neighbour_differs: "wrap64 (d + off * day_ns) = d \<Longrightarrow> fits64 d \<Longrightarrow> off = 1 \<or> off = - 1 \<Longrightarrow> False"
  using wrap64_eq_iff [of "d + off * day_ns" d] by (auto simp: day_ns_def)

lemma us_lookup:
  assumes "us_calendar cal"
  shows "session_containing cal ts = Some s \<longleftrightarrow> s \<in> set (cal_all cal) \<and> ses_contains s ts"
proof -
  have sorted: "sorted_wrt (<) (map ses_date (cal_all cal))" using assms by (simp add: us_calendar_def calendar_ok_def)
  note f = find_by_date_iff [OF sorted]
  have miss: "\<not> ses_contains x ts"
    if found: "find_by_date (cal_all cal) (wrap64 (utc_date_floor ts + off * day_ns)) = Some x" and off: "off = 1 \<or> off = - 1"
    for x off
  proof
    assume contains: "ses_contains x ts"
    have x: "x \<in> set (cal_all cal)" "ses_date x = wrap64 (utc_date_floor ts + off * day_ns)" using found by (simp_all add: f)
    then have "wrap64 (ses_date x + off * day_ns) = ses_date x" using us_floor(2) [OF assms x(1) contains] by simp
    then show False using neighbour_differs us_date(2) [OF assms x(1)] off by blast
  qed
  have floor: "wrap64 (utc_date_floor ts + 0 * day_ns) = utc_date_floor ts"
    by (simp add: utc_date_floor_def wrap64_range)
  have hit: "find_by_date (cal_all cal) (utc_date_floor ts) = Some s" if "s \<in> set (cal_all cal)" "ses_contains s ts"
    using that us_floor(2) [OF assms that] by (simp add: f)
  show ?thesis
    using miss [of "- 1"] miss [of 1] hit f [of "utc_date_floor ts" s]
    unfolding session_containing_def first_containing.simps floor by (auto split: option.splits if_splits)
qed

text \<open>
  C37: A calendar of the default United States schedule, built for years up to 2261, holds each date of its years exactly
  once, in order; \<open>session_containing\<close> finds the session an instant lies in whenever there is one, and never another;
  and every open session is a weekday session of 390 minutes, or 210 on a half day. It is refused only for years in
  the wrong order or before 2008.
\<close>

theorem calendar_answers_every_instant:
  assumes "last_year \<le> 2261"
  shows "case calendar_build us_equities_spec first_year last_year of
     Err e \<Rightarrow> last_year < first_year \<or> first_year < 2008
   | Ok cal \<Rightarrow>
       map ses_date (cal_all cal) = map (\<lambda>k. k * day_ns) (calendar_days first_year last_year) \<and>
       (\<forall>ts s. session_containing cal ts = Some s \<longleftrightarrow> s \<in> set (cal_all cal) \<and> ses_contains s ts) \<and>
       list_all (\<lambda>s. ses_is_open s \<and> iso_weekday (ses_date s) \<le> 5 \<and>
           bar_count s minute_ns = (if ses_kind s = SessHalfDay then 210 else 390)) (cal_open cal)"
proof (cases "calendar_build us_equities_spec first_year last_year")
  case (Inl e)
  then show ?thesis
    by (auto simp: calendar_build_def Let_def us_equities_spec_def hour_ns_def minute_ns_def split: if_splits)
next
  case (Inr cal)
  note us = us_built [OF Inr assms]
  have len: "ses_is_open s \<and> iso_weekday (ses_date s) \<le> 5 \<and>
      bar_count s minute_ns = (if ses_kind s = SessHalfDay then 210 else 390)" if "s \<in> set (cal_open cal)" for s
    using that us by (auto simp: us_calendar_def calendar_ok_def list_all_iff us_session_def bar_count_def minute_ns_def)
  show ?thesis
    unfolding Inr sum.case
    using calendar_build_cases(2) [OF Inr assms] us_lookup [OF us] len by (simp add: list_all_iff)
qed

lemma us_build_2024: "\<exists>cal. calendar_build us_equities_spec 2024 2024 = Ok cal"
  unfolding calendar_build_def Let_def by (simp add: us_equities_spec_def hour_ns_def minute_ns_def)

theorem calendar_answers_every_instant_witness:
  "\<exists>cal. calendar_build us_equities_spec 2024 2024 = Ok cal
     \<and> map ses_date (cal_all cal) = map (\<lambda>k. k * day_ns) (calendar_days 2024 2024)
     \<and> (\<forall>ts s. session_containing cal ts = Some s \<longleftrightarrow> s \<in> set (cal_all cal) \<and> ses_contains s ts)"
proof -
  obtain cal where cal: "calendar_build us_equities_spec 2024 2024 = Ok cal" using us_build_2024 by blast
  have "(2024 :: int) \<le> 2261" by simp
  from calendar_answers_every_instant [OF this, of 2024] show ?thesis unfolding cal sum.case by blast
qed

text \<open>The instant of the close is in no session.\<close>

lemma closing_instant_outside:
  assumes "us_calendar cal" "s \<in> set (cal_all cal)" "ses_is_open s"
  shows "session_containing cal (ses_close s) = None"
proof (rule ccontr)
  assume "session_containing cal (ses_close s) \<noteq> None"
  then obtain s' where s': "s' \<in> set (cal_all cal)" "ses_contains s' (ses_close s)"
    using us_lookup [OF assms(1)] by auto
  have us: "us_session s" using assms(1,2) by (auto simp: us_calendar_def list_all_iff)
  define k where "k = ses_date s div day_ns"
  have k: "ses_date s = k * day_ns" using us_date(1) [OF assms(1,2)] by (simp add: k_def)
  have "k * day_ns \<le> ses_close s" "ses_close s < k * day_ns + day_ns"
    using us assms(3) by (auto simp: us_session_def k ses_length_def minute_ns_def split: if_splits)
  then have "ses_close s div day_ns = k" by (intro div_unique) (simp_all add: mult.commute)
  with us_floor(1) [OF assms(1) s'] have "ses_date s' = ses_date s" by (simp add: k)
  moreover have "sorted_wrt (<) (map ses_date (cal_all cal))"
    using assms(1) by (simp add: us_calendar_def calendar_ok_def)
  ultimately have "s' = s" using find_by_date_iff assms(2) s'(1) by (metis option.inject)
  with s'(2) show False by (simp add: ses_contains_def)
qed

section \<open>Session markers in a stream\<close>

datatype session_error = OutsideAnySession Timestamp string

definition marker :: "SessionEventKind \<Rightarrow> Timestamp \<Rightarrow> MarketEvent" where
  "marker kind ts = SessionEv \<lparr>se_time = \<lparr>ev_exchange = ts, ev_receive = ts\<rparr>, se_kind = kind\<rparr>"

fun bracket_sessions ::
    "Calendar \<Rightarrow> Timestamp \<Rightarrow> Session \<Rightarrow> MarketEvent list \<Rightarrow> (session_error, MarketEvent list) result" where
  "bracket_sessions cal current_date current [] =
     Ok (if is_set current_date then [marker SessionClose (ses_close current)] else [])"
| "bracket_sessions cal current_date current (e # es) =
     (case session_containing cal (exchange_time_of e) of
        None \<Rightarrow> Err (OutsideAnySession (exchange_time_of e) (kind_name e))
      | Some s \<Rightarrow>
          (if ses_date s \<noteq> current_date
           then (case bracket_sessions cal (ses_date s) s es of
                   Inl err \<Rightarrow> Err err
                 | Inr out \<Rightarrow>
                     Ok ((if is_set current_date then [marker SessionClose (ses_close current)] else []) @
                         [marker SessionOpen (ses_open s), e] @ out))
           else (case bracket_sessions cal current_date current es of
                   Inl err \<Rightarrow> Err err | Inr out \<Rightarrow> Ok (e # out))))"

definition with_session_events :: "MarketEvent list \<Rightarrow> Calendar \<Rightarrow> (session_error, MarketEvent list) result" where
  "with_session_events events cal =
     (if events = [] then Ok events else bracket_sessions cal kNoTimestamp default_session events)"

lemma exchange_marker [simp]: "exchange_time_of (marker kind ts) = ts"
  by (simp add: marker_def)

lemma receive_marker [simp]: "receive_time_of (marker kind ts) = ts"
  by (simp add: marker_def)

definition is_marker :: "MarketEvent \<Rightarrow> bool" where
  "is_marker e \<longleftrightarrow> (case e of SessionEv _ \<Rightarrow> True | _ \<Rightarrow> False)"

lemma is_marker_marker [simp]: "is_marker (marker kind ts)"
  by (simp add: is_marker_def marker_def)

text \<open>
  Where the loop stands: no session yet, or in one of the calendar's sessions, whose last event was
  at \<open>now\<close>.
\<close>

definition bracket_state :: "Calendar \<Rightarrow> Timestamp \<Rightarrow> Session \<Rightarrow> Timestamp \<Rightarrow> bool" where
  "bracket_state cal current_date current now \<longleftrightarrow>
     \<not> is_set current_date \<or>
     current_date = ses_date current \<and> current \<in> set (cal_all cal) \<and> ses_contains current now"

lemma us_session_times:
  assumes "us_calendar cal" "s \<in> set (cal_all cal)" "ses_is_open s"
  shows "ses_date s < ses_open s" "ses_open s < ses_close s" "ses_close s < ses_date s + day_ns"
  using assms by (auto simp: us_calendar_def list_all_iff us_session_def ses_length_def minute_ns_def split: if_splits)

text \<open>The unset stamp is not a midnight.\<close>

lemma midnight_is_set: "d div day_ns * day_ns = d \<Longrightarrow> is_set d"
  by (auto simp: is_set_def kNoTimestamp_def day_ns_def)

lemma us_dates_set: "us_calendar cal \<Longrightarrow> s \<in> set (cal_all cal) \<Longrightarrow> is_set (ses_date s)"
  by (auto simp: us_calendar_def calendar_ok_def list_all_iff intro: midnight_is_set)

lemma us_date_mono:
  assumes us: "us_calendar cal" and s: "s \<in> set (cal_all cal)" "ses_contains s now"
    and s': "s' \<in> set (cal_all cal)" "ses_contains s' now'" and le: "now \<le> now'"
    and ne: "ses_date s' \<noteq> ses_date s"
  shows "ses_close s \<le> ses_open s'"
proof -
  have open': "ses_is_open s" "ses_is_open s'" using s s' by (simp_all add: ses_contains_def)
  have "now div day_ns \<le> now' div day_ns" using le by (simp add: zdiv_mono1)
  then have "ses_date s div day_ns \<le> ses_date s' div day_ns"
    using us_floor(1) [OF us s] us_floor(1) [OF us s'] by (metis div_day)
  moreover have "ses_date s div day_ns \<noteq> ses_date s' div day_ns"
    using ne us_date(1) [OF us s(1)] us_date(1) [OF us s'(1)] by metis
  ultimately have "ses_date s div day_ns + 1 \<le> ses_date s' div day_ns" by simp
  then have "(ses_date s div day_ns + 1) * day_ns \<le> ses_date s' div day_ns * day_ns" by (rule mult_right_mono) simp
  then have "ses_date s + day_ns \<le> ses_date s'"
    using us_date(1) [OF us s(1)] us_date(1) [OF us s'(1)] by (simp add: distrib_right)
  with us_session_times [OF us s(1) open'(1)] us_session_times [OF us s'(1) open'(2)] show ?thesis by simp
qed

lemma bracket_keeps_events:
  "bracket_sessions cal cd cur es = Ok out \<Longrightarrow> filter (\<lambda>e. \<not> is_marker e) out = filter (\<lambda>e. \<not> is_marker e) es"
proof (induction es arbitrary: cd cur out)
  case (Cons e es)
  then obtain s where s: "session_containing cal (exchange_time_of e) = Some s" by (auto split: option.splits)
  show ?case
  proof (cases "ses_date s = cd")
    case True
    with Cons.prems s obtain out1 where "bracket_sessions cal cd cur es = Ok out1" "out = e # out1"
      by (auto split: sum.splits)
    with Cons.IH show ?thesis by simp
  next
    case False
    with Cons.prems s obtain out1 where "bracket_sessions cal (ses_date s) s es = Ok out1"
      "out = (if is_set cd then [marker SessionClose (ses_close cur)] else []) @
         [marker SessionOpen (ses_open s), e] @ out1"
      by (auto split: sum.splits)
    with Cons.IH show ?thesis by simp
  qed
qed (auto split: if_splits)

lemma bracket_sorted:
  assumes us: "us_calendar cal"
  shows "bracket_sessions cal cd cur es = Ok out \<Longrightarrow> bracket_state cal cd cur now \<Longrightarrow>
    sorted (map exchange_time_of es) \<Longrightarrow> (\<forall>e \<in> set es. now \<le> exchange_time_of e) \<Longrightarrow>
    sorted (map exchange_time_of out) \<and>
    (if is_set cd then \<forall>e \<in> set out. now \<le> exchange_time_of e
     else True)"
proof (induction es arbitrary: cd cur now out)
  case Nil
  then show ?case using us_lookup [OF us]
    by (auto simp: bracket_state_def ses_contains_def)
next
  case (Cons e es)
  let ?ts = "exchange_time_of e"
  from Cons.prems(1) obtain s where s: "session_containing cal ?ts = Some s"
    by (auto split: option.splits)
  then have s': "s \<in> set (cal_all cal)" "ses_contains s ?ts" using us_lookup [OF us] by auto
  have rest: "sorted (map exchange_time_of es)" "\<forall>x \<in> set es. ?ts \<le> exchange_time_of x" "now \<le> ?ts"
    using Cons.prems(3,4) by auto
  show ?case
  proof (cases "ses_date s = cd")
    case False
    with Cons.prems(1) s obtain out1 where out1: "bracket_sessions cal (ses_date s) s es = Ok out1"
      and out: "out = (if is_set cd then [marker SessionClose (ses_close cur)] else []) @
                         [marker SessionOpen (ses_open s), e] @ out1"
      by (auto split: sum.splits)
    have st: "bracket_state cal (ses_date s) s ?ts" using s' by (simp add: bracket_state_def)
    have "is_set (ses_date s)" using us_dates_set [OF us s'(1)] by simp
    with Cons.IH [OF out1 st rest(1,2)] have ih: "sorted (map exchange_time_of out1)"
      "\<forall>x \<in> set out1. ?ts \<le> exchange_time_of x" by auto
    have op: "ses_open s \<le> ?ts" using s'(2) by (simp add: ses_contains_def)
    show ?thesis
    proof (cases "is_set cd")
      case True
      with Cons.prems(2) have cur: "cd = ses_date cur" "cur \<in> set (cal_all cal)" "ses_contains cur now"
        by (auto simp: bracket_state_def)
      have "ses_close cur \<le> ses_open s"
        using us_date_mono [OF us cur(2,3) s' rest(3)] False cur(1) by simp
      moreover have "now < ses_close cur" using cur(3) by (simp add: ses_contains_def)
      ultimately show ?thesis using ih op rest(3) True by (auto simp: out)
    qed (use ih op in \<open>auto simp: out\<close>)
  next
    case True
    with Cons.prems(1) s obtain out1 where out1: "bracket_sessions cal cd cur es = Ok out1" and out: "out = e # out1"
      by (auto split: sum.splits)
    have set: "is_set cd" using us_dates_set [OF us s'(1)] True by auto
    with Cons.prems(2) have cur: "cd = ses_date cur" "cur \<in> set (cal_all cal)" by (auto simp: bracket_state_def)
    have "s = cur"
      using find_by_date_iff [of "cal_all cal"] us cur s'(1) True
      by (metis calendar_ok_def option.inject us_calendar_def)
    then have "bracket_state cal cd cur ?ts" using s' cur by (simp add: bracket_state_def)
    from Cons.IH [OF out1 this rest(1,2)] set rest(3) show ?thesis by (auto simp: out)
  qed
qed

lemma bracket_fails:
  "bracket_sessions cal cd cur es = Err x \<Longrightarrow> list_ex (\<lambda>e. session_containing cal (exchange_time_of e) = None) es"
  by (induction es arbitrary: cd cur) (auto split: option.splits sum.splits if_splits)

text \<open>
  Session markers keep the stream. On the default calendar, a chronological stream is either refused
  because an event lies outside every session, or it comes back with every event of its own, in the
  same order, and with the markers in time order between them, so that the replay source accepts
  its order.
\<close>

theorem session_markers_keep_the_stream:
  assumes "calendar_build us_equities_spec first_year last_year = Ok cal" "last_year \<le> 2261"
    and "sorted (map exchange_time_of events)"
  shows "case with_session_events events cal of
      Err _ \<Rightarrow> list_ex (\<lambda>e. session_containing cal (exchange_time_of e) = None) events
    | Ok out \<Rightarrow> filter (\<lambda>e. \<not> is_marker e) out = filter (\<lambda>e. \<not> is_marker e) events \<and>
        sorted (map exchange_time_of out) \<and> check_order 1 out = None"
proof (cases "with_session_events events cal")
  case (Inl err)
  then show ?thesis using bracket_fails by (auto simp: with_session_events_def split: if_splits)
next
  case (Inr out)
  have "sorted (map exchange_time_of out) \<and> filter (\<lambda>e. \<not> is_marker e) out = filter (\<lambda>e. \<not> is_marker e) events"
  proof (cases events)
    case Nil
    with Inr show ?thesis by (simp add: with_session_events_def)
  next
    case (Cons e es)
    with Inr have b: "bracket_sessions cal kNoTimestamp default_session events = Ok out"
      by (simp add: with_session_events_def)
    have "bracket_state cal kNoTimestamp default_session (exchange_time_of e)"
      by (simp add: bracket_state_def is_set_def)
    moreover have "\<forall>x \<in> set events. exchange_time_of e \<le> exchange_time_of x"
      using assms(3) Cons by auto
    ultimately show ?thesis
      using bracket_sorted [OF us_built [OF assms(1,2)] b _ assms(3)] bracket_keeps_events [OF b] by blast
  qed
  with Inr show ?thesis by (simp add: check_order_None_iff)
qed

text \<open>Two instants of 2 July 2024, at 14:52 and 14:53 UTC.\<close>

theorem session_markers_keep_the_stream_witness:
  "\<exists>cal. calendar_build us_equities_spec 2024 2024 = Ok cal \<and>
    (let events = [timer_at 1719931920000000000 1719931920000000000, timer_at 1719931980000000000 1719931980000000000] in
     case with_session_events events cal of
      Err _ \<Rightarrow> list_ex (\<lambda>e. session_containing cal (exchange_time_of e) = None) events
    | Ok out \<Rightarrow> filter (\<lambda>e. \<not> is_marker e) out = filter (\<lambda>e. \<not> is_marker e) events \<and>
        sorted (map exchange_time_of out) \<and> check_order 1 out = None)"
proof -
  obtain cal where cal: "calendar_build us_equities_spec 2024 2024 = Ok cal" using us_build_2024 by blast
  have "sorted (map exchange_time_of [timer_at 1719931920000000000 1719931920000000000,
      timer_at 1719931980000000000 1719931980000000000])"
    by (simp add: timer_at_def)
  moreover have "(2024 :: int) \<le> 2261" by simp
  ultimately show ?thesis using session_markers_keep_the_stream [OF cal] cal unfolding Let_def by blast
qed

text \<open>
  Sessions are half-open, and an event is stamped with the close of its bar: the last bar of a session
  lies outside it, and a stream that has one is refused.
\<close>

lemma closing_bar_refused:
  assumes "us_calendar cal" "s \<in> set (cal_all cal)" "ses_is_open s" "exchange_time_of e = ses_close s"
  shows "with_session_events [e] cal = Err (OutsideAnySession (ses_close s) (kind_name e))"
  using closing_instant_outside [OF assms(1-3)] by (simp add: with_session_events_def assms(4))

text \<open>
  The close marker is received at the close. An event of the session that reached the system after it
  makes the replay throw in the middle of the stream it accepted.
\<close>

lemma late_event_breaks_replay:
  assumes "us_calendar cal" "s \<in> set (cal_all cal)" "ses_contains s (exchange_time_of e)"
    and "ses_close s < receive_time_of e" "is_set (ses_open s)"
  shows "\<exists>out. with_session_events [e] cal = Ok out \<and>
    (\<exists>sc. replay_create out (Some c) = Ok sc \<and>
      replay_drain 3 sc = Err (MovedBackwards (receive_time_of e) (ses_close s)))"
proof -
  have find: "session_containing cal (exchange_time_of e) = Some s"
    using us_lookup [OF assms(1)] assms(2,3) by blast
  have set: "is_set (ses_date s)" "kNoTimestamp \<noteq> ses_date s"
    using us_dates_set [OF assms(1,2)] by (auto simp: is_set_def)
  define out where "out = [marker SessionOpen (ses_open s), e, marker SessionClose (ses_close s)]"
  have out: "with_session_events [e] cal = Ok out"
    using find set by (simp add: with_session_events_def out_def is_set_def [of kNoTimestamp])
  have t: "ses_open s \<le> exchange_time_of e" "exchange_time_of e < ses_close s"
    using assms(3) by (simp_all add: ses_contains_def)
  define src where "src = \<lparr>rs_events = out, rs_next = 0, rs_first = ses_open s\<rparr>"
  have "check_order 1 out = None" "check_receive 0 out = None"
    using t assms(4) by (simp_all add: out_def)
  moreover have "(case out of [] \<Rightarrow> kNoTimestamp | e # _ \<Rightarrow> receive_time_of e) = ses_open s"
    by (simp add: out_def)
  ultimately have "replay_create out (Some c) = Ok (src, clock_reset (ses_open s) c)"
    using assms(5) by (simp add: replay_create_def src_def Let_def)
  moreover have "replay_drain 3 (src, clock_reset (ses_open s) c) =
      Err (MovedBackwards (receive_time_of e) (ses_close s))"
    using t assms(4) by (simp add: eval_nat_numeral src_def out_def replay_next_def replay_exhausted_def
        advance_to_def clock_reset_def Let_def)
  ultimately show ?thesis using out by blast
qed

end
