(* ===== verification/Validator.thy ===== *)
theory Validator
  imports Calendar "HOL-Library.Signed_Division"
begin

text \<open>
  The data validator (\<open>src/market/validator.cpp\<close>): one pass over a stream of events that collects
  issues and counts, and what a report without a fatal issue says of the stream. The text of an
  issue is kept as the data it is made of; \<open>std::log\<close> is the parameter \<open>log_fn\<close>.
\<close>

datatype IssueCode = NonMonotonicTimestamp | DuplicateTimestamp | GapInSession | OutsideSession
  | UnknownSession | SuspiciousPriceJump | ZeroVolume | StaleQuote | CrossedQuote | TimeframeMismatch

fun to_string_IssueCode :: "IssueCode \<Rightarrow> string" where
  "to_string_IssueCode NonMonotonicTimestamp = ''non_monotonic_timestamp''"
| "to_string_IssueCode DuplicateTimestamp = ''duplicate_timestamp''"
| "to_string_IssueCode GapInSession = ''gap_in_session''"
| "to_string_IssueCode OutsideSession = ''outside_session''"
| "to_string_IssueCode UnknownSession = ''unknown_session''"
| "to_string_IssueCode SuspiciousPriceJump = ''suspicious_price_jump''"
| "to_string_IssueCode ZeroVolume = ''zero_volume''"
| "to_string_IssueCode StaleQuote = ''stale_quote''"
| "to_string_IssueCode CrossedQuote = ''crossed_quote''"
| "to_string_IssueCode TimeframeMismatch = ''timeframe_mismatch''"

datatype Severity = Fatal | Warning

datatype issue_detail = NoCalendarSupplied | PrecededBy Timestamp | NoSessionContains
  | BarSpans Duration Duration | RepeatedBarClose | MissingBars "int option" Timestamp
  | LogReturnExceeds f64 | ZeroVolumeRun nat | AskBelowBid

record ValidationIssue =
  vi_code :: IssueCode
  vi_severity :: Severity
  vi_at :: Timestamp
  vi_instrument :: InstrumentId
  vi_detail :: issue_detail

record ValidationStats =
  vs_events :: nat
  vs_bars :: nat
  vs_quotes :: nat
  vs_trades :: nat
  vs_sessions :: nat
  vs_zero_volume_bars :: nat
  vs_first :: Timestamp
  vs_last :: Timestamp

record ValidationReport =
  vr_issues :: "ValidationIssue list"
  vr_stats :: ValidationStats

definition empty_report :: ValidationReport where
  "empty_report = \<lparr>vr_issues = [], vr_stats = \<lparr>vs_events = 0, vs_bars = 0, vs_quotes = 0, vs_trades = 0,
     vs_sessions = 0, vs_zero_volume_bars = 0, vs_first = kNoTimestamp, vs_last = kNoTimestamp\<rparr>\<rparr>"

definition fatal_count :: "ValidationReport \<Rightarrow> nat" where
  "fatal_count r = length (filter (\<lambda>i. vi_severity i = Fatal) (vr_issues r))"

definition warning_count :: "ValidationReport \<Rightarrow> nat" where
  "warning_count r = length (vr_issues r) - fatal_count r"

definition report_ok :: "ValidationReport \<Rightarrow> bool" where
  "report_ok r \<longleftrightarrow> fatal_count r = 0"

record ValidatorConfig =
  expected_bar_timeframe :: Duration
  max_abs_log_return :: f64
  require_complete_sessions :: bool
  max_consecutive_zero_volume :: nat
  vc_strict :: bool

definition default_validator_config :: ValidatorConfig where
  "default_validator_config = \<lparr>expected_bar_timeframe = minute_ns, max_abs_log_return = lit (20 / 100),
     require_complete_sessions = True, max_consecutive_zero_volume = 30, vc_strict = False\<rparr>"

text \<open>The running state of one instrument, and of the whole pass.\<close>

record InstrumentState =
  is_last_bar_close :: Timestamp
  is_last_close :: Price
  is_zero_volume_run :: nat

definition fresh_instrument :: InstrumentState where
  "fresh_instrument = \<lparr>is_last_bar_close = kNoTimestamp, is_last_close = fzero, is_zero_volume_run = 0\<rparr>"

record Pass =
  ps_report :: ValidationReport
  ps_state :: "(InstrumentId, InstrumentState) omap"
  ps_prev :: Timestamp
  ps_session :: Timestamp

definition add_issue :: "IssueCode \<Rightarrow> Severity \<Rightarrow> Timestamp \<Rightarrow> InstrumentId \<Rightarrow> issue_detail \<Rightarrow> Pass \<Rightarrow> Pass" where
  "add_issue code sev ts i detail p =
     p\<lparr>ps_report := (ps_report p)\<lparr>vr_issues := vr_issues (ps_report p) @
        [\<lparr>vi_code = code, vi_severity = sev, vi_at = ts, vi_instrument = i, vi_detail = detail\<rparr>]\<rparr>\<rparr>"

definition with_stats :: "(ValidationStats \<Rightarrow> ValidationStats) \<Rightarrow> Pass \<Rightarrow> Pass" where
  "with_stats g p = p\<lparr>ps_report := (ps_report p)\<lparr>vr_stats := g (vr_stats (ps_report p))\<rparr>\<rparr>"

definition warn_severity :: "ValidatorConfig \<Rightarrow> Severity" where
  "warn_severity cfg = (if vc_strict cfg then Fatal else Warning)"

definition check_stream_order :: "Timestamp \<Rightarrow> InstrumentId \<Rightarrow> Pass \<Rightarrow> Pass" where
  "check_stream_order ts i p =
     (if is_set (ps_prev p) \<and> ts < ps_prev p
      then add_issue NonMonotonicTimestamp Fatal ts i (PrecededBy (ps_prev p)) p else p)\<lparr>ps_prev := ts\<rparr>"

fun needs_session :: "MarketEvent \<Rightarrow> bool" where
  "needs_session (SessionEv _) = False"
| "needs_session (TimerEv _) = False"
| "needs_session (ActionEv _) = False"
| "needs_session _ = True"

definition check_membership :: "Calendar option \<Rightarrow> MarketEvent \<Rightarrow> Pass \<Rightarrow> Pass" where
  "check_membership calendar e p =
     (case calendar of
        None \<Rightarrow> p
      | Some cal \<Rightarrow>
          if \<not> needs_session e then p
          else (case session_containing cal (exchange_time_of e) of
                  None \<Rightarrow> add_issue OutsideSession Fatal (exchange_time_of e) (instrument_of e) NoSessionContains p
                | Some s \<Rightarrow>
                    if ses_date s \<noteq> ps_session p
                    then with_stats (\<lambda>st. st\<lparr>vs_sessions := vs_sessions st + 1\<rparr>) (p\<lparr>ps_session := ses_date s\<rparr>)
                    else p))"

definition instrument_state :: "Pass \<Rightarrow> InstrumentId \<Rightarrow> InstrumentState" where
  "instrument_state p i = (case om_find (ps_state p) i of None \<Rightarrow> fresh_instrument | Some st \<Rightarrow> st)"

definition check_timeframe :: "ValidatorConfig \<Rightarrow> Bar \<Rightarrow> Pass \<Rightarrow> Pass" where
  "check_timeframe cfg b p =
     (let tf = bar_close_time b - bar_open_time b in
      if 0 < expected_bar_timeframe cfg \<and> tf \<noteq> expected_bar_timeframe cfg
      then add_issue TimeframeMismatch Fatal (ev_exchange (bar_time b)) (bar_instrument b)
             (BarSpans tf (expected_bar_timeframe cfg)) p
      else p)"

text \<open>
  The number of missing bars in the text of a gap: \<open>delta / timeframe - 1\<close> on 64-bit counts,
  truncating; \<open>None\<close> is the division by zero of a configuration whose timeframe is zero.
\<close>

definition missing_bars :: "Duration \<Rightarrow> Duration \<Rightarrow> int option" where
  "missing_bars delta tf = (if tf = 0 then None else Some (delta sdiv tf - 1))"

text \<open>A gap inside one session, or a repeated close, against the instrument's previous bar.\<close>

definition check_gap :: "ValidatorConfig \<Rightarrow> Calendar option \<Rightarrow> Bar \<Rightarrow> InstrumentState \<Rightarrow> Pass \<Rightarrow> Pass" where
  "check_gap cfg calendar b st p =
     (let ts = ev_exchange (bar_time b); i = bar_instrument b in
      if bar_close_time b = is_last_bar_close st
      then add_issue DuplicateTimestamp Fatal ts i RepeatedBarClose p
      else (case (require_complete_sessions cfg, calendar) of
          (True, Some cal) \<Rightarrow>
            (let delta = bar_close_time b - is_last_bar_close st;
                 same = (case (session_containing cal (is_last_bar_close st - 1), session_containing cal ts) of
                     (Some a, Some c) \<Rightarrow> ses_date a = ses_date c | _ \<Rightarrow> False) in
             if same \<and> expected_bar_timeframe cfg < delta
             then add_issue GapInSession (warn_severity cfg) ts i
                    (MissingBars (missing_bars delta (expected_bar_timeframe cfg)) (is_last_bar_close st)) p
             else p)
        | _ \<Rightarrow> p))"

definition check_jump :: "(f64 \<Rightarrow> f64) \<Rightarrow> ValidatorConfig \<Rightarrow> Bar \<Rightarrow> InstrumentState \<Rightarrow> Pass \<Rightarrow> Pass" where
  "check_jump log_fn cfg b st p =
     (let r = log_fn (fdiv (bar_close b) (is_last_close st)) in
      if flt (max_abs_log_return cfg) (fabs r)
      then add_issue SuspiciousPriceJump Fatal (ev_exchange (bar_time b)) (bar_instrument b) (LogReturnExceeds r) p
      else p)"

definition check_volume :: "ValidatorConfig \<Rightarrow> Bar \<Rightarrow> InstrumentState \<Rightarrow> Pass \<Rightarrow> InstrumentState \<times> Pass" where
  "check_volume cfg b st p =
     (if feq (bar_volume b) fzero then
        (let p1 = with_stats (\<lambda>s. s\<lparr>vs_zero_volume_bars := vs_zero_volume_bars s + 1\<rparr>) p;
             n = is_zero_volume_run st + 1 in
         (st\<lparr>is_zero_volume_run := n\<rparr>,
          if n = max_consecutive_zero_volume cfg
          then add_issue ZeroVolume (warn_severity cfg) (ev_exchange (bar_time b)) (bar_instrument b)
                 (ZeroVolumeRun n) p1
          else p1))
      else (st\<lparr>is_zero_volume_run := 0\<rparr>, p))"

definition validate_bar ::
    "(f64 \<Rightarrow> f64) \<Rightarrow> ValidatorConfig \<Rightarrow> Calendar option \<Rightarrow> Bar \<Rightarrow> Pass \<Rightarrow> Pass" where
  "validate_bar log_fn cfg calendar b p =
     (let i = bar_instrument b;
          p1 = with_stats (\<lambda>s. s\<lparr>vs_bars := vs_bars s + 1\<rparr>) p;
          st = instrument_state p1 i;
          p2 = check_timeframe cfg b p1;
          p3 = (if is_set (is_last_bar_close st)
                then check_jump log_fn cfg b st (check_gap cfg calendar b st p2) else p2);
          (st1, p4) = check_volume cfg b st p3;
          st2 = st1\<lparr>is_last_bar_close := bar_close_time b, is_last_close := bar_close b\<rparr> in
      p4\<lparr>ps_state := om_put i st2 (ps_state p4)\<rparr>)"

definition note_event :: "Timestamp \<Rightarrow> Pass \<Rightarrow> Pass" where
  "note_event ts = with_stats (\<lambda>s. s\<lparr>vs_events := vs_events s + 1,
     vs_first := (if \<not> is_set (vs_first s) then ts else vs_first s), vs_last := ts\<rparr>)"

definition validate_event ::
    "(f64 \<Rightarrow> f64) \<Rightarrow> ValidatorConfig \<Rightarrow> Calendar option \<Rightarrow> MarketEvent \<Rightarrow> Pass \<Rightarrow> Pass" where
  "validate_event log_fn cfg calendar e p =
     (let ts = exchange_time_of e;
          p1 = check_membership calendar e (check_stream_order ts (instrument_of e) (note_event ts p)) in
      case e of
        BarEv b \<Rightarrow> validate_bar log_fn cfg calendar b p1
      | QuoteEv q \<Rightarrow>
          (let p2 = with_stats (\<lambda>s. s\<lparr>vs_quotes := vs_quotes s + 1\<rparr>) p1 in
           if flt (q_ask q) (q_bid q)
           then add_issue CrossedQuote Fatal ts (q_instrument q) AskBelowBid p2 else p2)
      | TradeEv _ \<Rightarrow> with_stats (\<lambda>s. s\<lparr>vs_trades := vs_trades s + 1\<rparr>) p1
      | _ \<Rightarrow> p1)"

definition initial_pass :: "ValidatorConfig \<Rightarrow> Calendar option \<Rightarrow> Pass" where
  "initial_pass cfg calendar =
     (let p = \<lparr>ps_report = empty_report, ps_state = [], ps_prev = kNoTimestamp, ps_session = kNoTimestamp\<rparr> in
      if calendar = None
      then add_issue UnknownSession (warn_severity cfg) kNoTimestamp kInvalidInstrument NoCalendarSupplied p
      else p)"

definition validate :: "(f64 \<Rightarrow> f64) \<Rightarrow> ValidatorConfig \<Rightarrow> MarketEvent list \<Rightarrow> Calendar option \<Rightarrow> ValidationReport" where
  "validate log_fn cfg events calendar =
     ps_report (fold (validate_event log_fn cfg calendar) events (initial_pass cfg calendar))"

section \<open>What a clean report says of the stream\<close>

abbreviation stats_of :: "Pass \<Rightarrow> ValidationStats" where
  "stats_of p \<equiv> vr_stats (ps_report p)"

definition pass_ok :: "Pass \<Rightarrow> bool" where
  "pass_ok p \<longleftrightarrow> report_ok (ps_report p)"

named_theorems pass_simps

lemma report_ok_iff: "report_ok r \<longleftrightarrow> (\<forall>i \<in> set (vr_issues r). vi_severity i \<noteq> Fatal)"
  by (auto simp: report_ok_def fatal_count_def filter_empty_conv)

lemma pass_ok_ops [pass_simps]:
  "pass_ok (add_issue c s t i d p) \<longleftrightarrow> s \<noteq> Fatal \<and> pass_ok p"
  "pass_ok (with_stats g p) \<longleftrightarrow> pass_ok p"
  "pass_ok (p\<lparr>ps_state := m\<rparr>) \<longleftrightarrow> pass_ok p"
  "pass_ok (p\<lparr>ps_prev := ts\<rparr>) \<longleftrightarrow> pass_ok p"
  "pass_ok (p\<lparr>ps_session := ts\<rparr>) \<longleftrightarrow> pass_ok p"
  by (auto simp: pass_ok_def report_ok_iff add_issue_def with_stats_def)

lemma prev_ops [pass_simps]:
  "ps_prev (add_issue c s t i d p) = ps_prev p" "ps_prev (with_stats g p) = ps_prev p"
  by (simp_all add: add_issue_def with_stats_def)

lemma state_ops [pass_simps]:
  "ps_state (add_issue c s t i d p) = ps_state p" "ps_state (with_stats g p) = ps_state p"
  by (simp_all add: add_issue_def with_stats_def)

lemma stats_ops [pass_simps]:
  "stats_of (add_issue c s t i d p) = stats_of p" "stats_of (with_stats g p) = g (stats_of p)"
  by (simp_all add: add_issue_def with_stats_def)

lemma note_event_frame [pass_simps]:
  "ps_prev (note_event ts p) = ps_prev p" "ps_state (note_event ts p) = ps_state p"
  "pass_ok (note_event ts p) \<longleftrightarrow> pass_ok p"
  by (simp_all add: note_event_def pass_simps)

lemma check_gap_frame [pass_simps]:
  "ps_prev (check_gap cfg cal b st p) = ps_prev p"
  "ps_state (check_gap cfg cal b st p) = ps_state p"
  "stats_of (check_gap cfg cal b st p) = stats_of p"
  by (auto simp: check_gap_def Let_def pass_simps split: option.splits bool.splits)

lemma check_gap_ok:
  "pass_ok (check_gap cfg cal b st p) \<Longrightarrow> pass_ok p \<and> bar_close_time b \<noteq> is_last_bar_close st"
  by (auto simp: check_gap_def Let_def pass_simps split: option.splits bool.splits if_splits)

lemma check_jump_frame [pass_simps]:
  "ps_prev (check_jump f cfg b st p) = ps_prev p"
  "ps_state (check_jump f cfg b st p) = ps_state p"
  "stats_of (check_jump f cfg b st p) = stats_of p"
  "pass_ok (check_jump f cfg b st p) \<longleftrightarrow> pass_ok p \<and>
     \<not> flt (max_abs_log_return cfg) (fabs (f (fdiv (bar_close b) (is_last_close st))))"
  by (auto simp: check_jump_def Let_def pass_simps)

lemma check_timeframe_frame [pass_simps]:
  "ps_prev (check_timeframe cfg b p) = ps_prev p"
  "ps_state (check_timeframe cfg b p) = ps_state p"
  "stats_of (check_timeframe cfg b p) = stats_of p"
  "pass_ok (check_timeframe cfg b p) \<longleftrightarrow>
     pass_ok p \<and> (0 < expected_bar_timeframe cfg \<longrightarrow>
       bar_close_time b - bar_open_time b = expected_bar_timeframe cfg)"
  by (auto simp: check_timeframe_def Let_def pass_simps)

lemma check_volume_frame [pass_simps]:
  "ps_prev (snd (check_volume cfg b st p)) = ps_prev p"
  "ps_state (snd (check_volume cfg b st p)) = ps_state p"
  "stats_of (snd (check_volume cfg b st p)) =
     (if feq (bar_volume b) fzero
      then (stats_of p)\<lparr>vs_zero_volume_bars := vs_zero_volume_bars (stats_of p) + 1\<rparr> else stats_of p)"
  by (auto simp: check_volume_def Let_def pass_simps)

lemma check_volume_ok: "pass_ok (snd (check_volume cfg b st p)) \<Longrightarrow> pass_ok p"
  by (auto simp: check_volume_def Let_def pass_simps split: if_splits)

lemma check_stream_order_frame [pass_simps]:
  "ps_prev (check_stream_order ts i p) = ts"
  "ps_state (check_stream_order ts i p) = ps_state p"
  "stats_of (check_stream_order ts i p) = stats_of p"
  "pass_ok (check_stream_order ts i p) \<longleftrightarrow> pass_ok p \<and> (is_set (ps_prev p) \<longrightarrow> ps_prev p \<le> ts)"
  by (auto simp: check_stream_order_def pass_simps)

definition in_some_session :: "Calendar option \<Rightarrow> MarketEvent \<Rightarrow> bool" where
  "in_some_session calendar e \<longleftrightarrow>
     (case calendar of None \<Rightarrow> True
      | Some cal \<Rightarrow> \<not> needs_session e \<or> session_containing cal (exchange_time_of e) \<noteq> None)"

lemma check_membership_frame [pass_simps]:
  "ps_prev (check_membership cal e p) = ps_prev p"
  "ps_state (check_membership cal e p) = ps_state p"
  "pass_ok (check_membership cal e p) \<longleftrightarrow> pass_ok p \<and> in_some_session cal e"
  by (auto simp: check_membership_def in_some_session_def pass_simps split: option.splits)

text \<open>What each event of a clean stream satisfies on its own.\<close>

definition event_admitted :: "ValidatorConfig \<Rightarrow> Calendar option \<Rightarrow> MarketEvent \<Rightarrow> bool" where
  "event_admitted cfg calendar e \<longleftrightarrow> in_some_session calendar e \<and>
     (case e of
        BarEv b \<Rightarrow> 0 < expected_bar_timeframe cfg \<longrightarrow>
          bar_close_time b - bar_open_time b = expected_bar_timeframe cfg
      | QuoteEv q \<Rightarrow> \<not> flt (q_ask q) (q_bid q)
      | _ \<Rightarrow> True)"

lemma validate_bar_prev [pass_simps]: "ps_prev (validate_bar f cfg cal b p) = ps_prev p"
  by (simp add: validate_bar_def Let_def case_prod_beta pass_simps)

lemma validate_bar_state:
  "instrument_state (validate_bar f cfg cal b p) i =
     (if i = bar_instrument b
      then (fst (check_volume cfg b (instrument_state p i) p))
        \<lparr>is_last_bar_close := bar_close_time b, is_last_close := bar_close b\<rparr>
      else instrument_state p i)"
  by (simp add: validate_bar_def Let_def case_prod_beta pass_simps instrument_state_def omap_simps
      check_volume_def)

lemma validate_bar_ok:
  assumes "pass_ok (validate_bar f cfg cal b p)"
  shows "pass_ok p" "0 < expected_bar_timeframe cfg \<Longrightarrow>
      bar_close_time b - bar_open_time b = expected_bar_timeframe cfg"
    "is_set (is_last_bar_close (instrument_state p (bar_instrument b))) \<Longrightarrow>
      bar_close_time b \<noteq> is_last_bar_close (instrument_state p (bar_instrument b))"
proof -
  let ?st = "instrument_state p (bar_instrument b)"
  let ?p2 = "check_timeframe cfg b (with_stats (\<lambda>s. s\<lparr>vs_bars := vs_bars s + 1\<rparr>) p)"
  have eq: "instrument_state (with_stats g p) i = instrument_state p i" for g i
    by (simp add: instrument_state_def pass_simps)
  have ok3: "pass_ok (if is_set (is_last_bar_close ?st) then check_jump f cfg b ?st (check_gap cfg cal b ?st ?p2)
      else ?p2)"
    using assms check_volume_ok
    by (simp add: validate_bar_def Let_def case_prod_beta pass_simps eq cong: if_cong)
  then have ok2: "pass_ok ?p2"
    by (auto simp: pass_simps dest: check_gap_ok split: if_splits)
  then show "pass_ok p" "0 < expected_bar_timeframe cfg \<Longrightarrow>
      bar_close_time b - bar_open_time b = expected_bar_timeframe cfg"
    by (auto simp: pass_simps)
  show "bar_close_time b \<noteq> is_last_bar_close ?st" if "is_set (is_last_bar_close ?st)"
    using ok3 that by (auto simp: pass_simps dest: check_gap_ok)
qed

lemma validate_event_prev [pass_simps]: "ps_prev (validate_event f cfg cal e p) = exchange_time_of e"
  by (cases e) (simp_all add: validate_event_def Let_def pass_simps)

lemma instrument_state_cong: "ps_state p = ps_state p' \<Longrightarrow> instrument_state p i = instrument_state p' i"
  by (simp add: instrument_state_def)

lemma validate_event_state:
  "is_last_bar_close (instrument_state (validate_event f cfg cal e p) i) =
     (case e of BarEv b \<Rightarrow> if bar_instrument b = i then bar_close_time b
                           else is_last_bar_close (instrument_state p i)
      | _ \<Rightarrow> is_last_bar_close (instrument_state p i))"
proof (cases e)
  case (BarEv b)
  let ?p1 = "check_membership cal e (check_stream_order (exchange_time_of e) (instrument_of e)
    (note_event (exchange_time_of e) p))"
  have "instrument_state ?p1 i = instrument_state p i"
    by (rule instrument_state_cong) (simp add: pass_simps)
  then show ?thesis
    by (auto simp: BarEv validate_event_def Let_def validate_bar_state)
qed (auto simp: validate_event_def Let_def pass_simps intro!: arg_cong [OF instrument_state_cong])

lemma validate_event_ok:
  assumes "pass_ok (validate_event f cfg cal e p)"
  shows "pass_ok p" "is_set (ps_prev p) \<Longrightarrow> ps_prev p \<le> exchange_time_of e"
    "event_admitted cfg cal e"
    "e = BarEv b \<Longrightarrow> is_set (is_last_bar_close (instrument_state p (bar_instrument b))) \<Longrightarrow>
      bar_close_time b \<noteq> is_last_bar_close (instrument_state p (bar_instrument b))"
proof -
  define p2 where "p2 = check_membership cal e (check_stream_order (exchange_time_of e) (instrument_of e)
     (note_event (exchange_time_of e) p))"
  have st: "ps_state p2 = ps_state p"
    by (simp add: p2_def pass_simps)
  note ev = validate_event_def [of f cfg cal e p, unfolded Let_def, folded p2_def]
  have ok2: "pass_ok p2"
    using assms unfolding ev
    by (cases e) (auto simp: pass_simps dest: validate_bar_ok(1) split: if_splits)
  then show "pass_ok p" "is_set (ps_prev p) \<Longrightarrow> ps_prev p \<le> exchange_time_of e"
    by (auto simp: p2_def pass_simps)
  have "in_some_session cal e"
    using ok2 by (simp add: p2_def pass_simps)
  then show "event_admitted cfg cal e"
    using assms validate_bar_ok(2) unfolding ev
    by (cases e) (auto simp: event_admitted_def pass_simps split: if_splits)
  show "bar_close_time b \<noteq> is_last_bar_close (instrument_state p (bar_instrument b))"
    if "e = BarEv b" "is_set (is_last_bar_close (instrument_state p (bar_instrument b)))"
    using assms that validate_bar_ok(3) [of f cfg cal b p2] instrument_state_cong [OF st]
    unfolding ev by auto
qed

fun bar_closes :: "InstrumentId \<Rightarrow> MarketEvent list \<Rightarrow> Timestamp list" where
  "bar_closes i [] = []"
| "bar_closes i (e # es) =
     (case e of BarEv b \<Rightarrow> if bar_instrument b = i then bar_close_time b # bar_closes i es else bar_closes i es
      | _ \<Rightarrow> bar_closes i es)"

lemma bar_closes_append [simp]: "bar_closes i (xs @ ys) = bar_closes i xs @ bar_closes i ys"
  by (induction xs) (auto split: MarketEvent.splits)

text \<open>What the factories guarantee of every event: it is stamped, and a bar is stamped at its close.\<close>

definition event_stamped :: "MarketEvent \<Rightarrow> bool" where
  "event_stamped e \<longleftrightarrow> is_set (exchange_time_of e) \<and>
     (case e of BarEv b \<Rightarrow> bar_close_time b = exchange_time_of e | _ \<Rightarrow> True)"

lemma bar_closes_stamped:
  "list_all event_stamped es \<Longrightarrow> t \<in> set (bar_closes i es) \<Longrightarrow>
     is_set t \<and> t \<in> exchange_time_of ` set es"
  by (induction es) (auto simp: event_stamped_def split: MarketEvent.splits if_splits)

lemma initial_pass_frame [pass_simps]:
  "ps_state (initial_pass cfg cal) = []" "ps_prev (initial_pass cfg cal) = kNoTimestamp"
  by (simp_all add: initial_pass_def Let_def pass_simps)

lemma sorted_wrt_snoc_last:
  fixes xs :: "int list"
  assumes "sorted_wrt (<) xs" "xs \<noteq> [] \<Longrightarrow> List.last xs < y"
  shows "sorted_wrt (<) (xs @ [y])"
  using assms by (cases xs rule: rev_cases) (force simp: sorted_wrt_append)+

definition clean_prefix :: "ValidatorConfig \<Rightarrow> Calendar option \<Rightarrow> MarketEvent list \<Rightarrow> Pass \<Rightarrow> bool" where
  "clean_prefix cfg cal es p \<longleftrightarrow>
     sorted (map exchange_time_of es) \<and> (es \<noteq> [] \<longrightarrow> ps_prev p = exchange_time_of (List.last es)) \<and>
     list_all (event_admitted cfg cal) es \<and>
     (\<forall>i. is_last_bar_close (instrument_state p i)
        = (if bar_closes i es = [] then kNoTimestamp else List.last (bar_closes i es))) \<and>
     (\<forall>i. sorted_wrt (<) (bar_closes i es))"

lemma clean_prefix_step:
  assumes clean: "clean_prefix cfg cal es p" and stamped: "list_all event_stamped (es @ [e])"
    and ok: "pass_ok (validate_event f cfg cal e p)"
  shows "clean_prefix cfg cal (es @ [e]) (validate_event f cfg cal e p)"
proof -
  note step = validate_event_ok [OF ok]
  from clean have sorted: "sorted (map exchange_time_of es)"
    and prev: "es \<noteq> [] \<Longrightarrow> ps_prev p = exchange_time_of (List.last es)"
    and admitted: "list_all (event_admitted cfg cal) es"
    and state: "\<And>i. is_last_bar_close (instrument_state p i)
        = (if bar_closes i es = [] then kNoTimestamp else List.last (bar_closes i es))"
    and closes: "\<And>i. sorted_wrt (<) (bar_closes i es)"
    unfolding clean_prefix_def by blast+
  have last: "exchange_time_of (List.last es) \<le> exchange_time_of e" if "es \<noteq> []"
  proof -
    have "is_set (exchange_time_of (List.last es))"
      using that stamped last_in_set [OF that] by (simp add: event_stamped_def list_all_iff)
    then show ?thesis
      using step(2) prev [OF that] by simp
  qed
  have before: "exchange_time_of x \<le> exchange_time_of e" if "x \<in> set es" for x
    using last sorted that by (cases es rule: rev_cases) (auto simp: sorted_append)
  have closes': "sorted_wrt (<) (bar_closes i (es @ [e]))" for i
  proof (cases "\<exists>b. e = BarEv b \<and> bar_instrument b = i")
    case True
    then obtain b where b: "e = BarEv b" "bar_instrument b = i" by blast
    have "List.last (bar_closes i es) < bar_close_time b" if ne: "bar_closes i es \<noteq> []"
    proof -
      let ?t = "List.last (bar_closes i es)"
      have t: "is_set ?t" "?t \<in> exchange_time_of ` set es"
        using bar_closes_stamped [of es ?t i] stamped ne by auto
      have "bar_close_time b = exchange_time_of e"
        using stamped b by (simp add: event_stamped_def)
      then have "?t \<le> bar_close_time b"
        using t(2) before by auto
      moreover have "bar_close_time b \<noteq> ?t"
        using step(4) [OF b(1)] state [of i] ne t(1) b(2) by simp
      ultimately show ?thesis by simp
    qed
    then show ?thesis
      using closes [of i] b sorted_wrt_snoc_last by simp
  next
    case False
    then show ?thesis
      using closes [of i] by (auto split: MarketEvent.splits)
  qed
  have sorted': "sorted (map exchange_time_of (es @ [e]))"
    using sorted before by (auto simp: sorted_append)
  have state': "is_last_bar_close (instrument_state (validate_event f cfg cal e p) i)
        = (if bar_closes i (es @ [e]) = [] then kNoTimestamp else List.last (bar_closes i (es @ [e])))" for i
    using state [of i] by (cases e) (simp_all add: validate_event_state)
  show ?thesis
    unfolding clean_prefix_def
    using sorted' closes' state' admitted step(3) by (simp add: pass_simps)
qed

lemma clean_prefix_fold:
  assumes "list_all event_stamped es" "pass_ok (fold (validate_event f cfg cal) es (initial_pass cfg cal))"
  shows "clean_prefix cfg cal es (fold (validate_event f cfg cal) es (initial_pass cfg cal))"
  using assms
proof (induction es rule: rev_induct)
  case Nil
  show ?case
    by (simp add: clean_prefix_def instrument_state_def pass_simps fresh_instrument_def)
next
  case (snoc e es)
  then have "pass_ok (fold (validate_event f cfg cal) es (initial_pass cfg cal))"
    by (auto dest: validate_event_ok(1))
  then show ?case
    using snoc clean_prefix_step by simp
qed

text \<open>
  C35: A stamped stream the validator finds no fatal issue in can be replayed: it is in exchange order, so the replay
  source accepts its order; every bar of an instrument closes strictly after the one before it, so no interval is
  delivered twice; where a calendar is given every bar, quote and trade lies in one of its sessions; no quote is crossed;
  and where a timeframe is expected every bar has it. Corporate actions, timers and session events belong to no
  session, and without a calendar or with a timeframe of zero nothing is asked of sessions or of timeframes.
\<close>

theorem validated_stream_is_replayable:
  assumes "list_all event_stamped events"
    and "report_ok (validate log_fn cfg events calendar)"
  shows "check_order 1 events = None \<and> list_all (event_admitted cfg calendar) events \<and>
    sorted_wrt (<) (bar_closes i events)"
  using clean_prefix_fold [of events log_fn cfg calendar] assms
  by (simp add: validate_def pass_ok_def clean_prefix_def check_order_None_iff)

definition flat_bar :: "InstrumentId \<Rightarrow> Timestamp \<Rightarrow> Bar" where
  "flat_bar i close_time = \<lparr>bar_instrument = i, bar_open_time = close_time - minute_ns, bar_close_time = close_time,
     bar_time = \<lparr>ev_exchange = close_time, ev_receive = close_time\<rparr>, bar_open = lit 1, bar_high = lit 1,
     bar_low = lit 1, bar_close = lit 1, bar_volume = lit 1\<rparr>"

definition one_day :: Calendar where
  "one_day = (let s = \<lparr>ses_date = 1719878400000000000, ses_open = 1719927000000000000,
     ses_close = 1719950400000000000, ses_kind = SessRegular\<rparr> in
     \<lparr>cal_mic = ''XNYS'', cal_all = [s], cal_open = [s]\<rparr>)"

lemma one_day_sessions:
  obtains s where "session_containing one_day 1719930000000000000 = Some s"
    "session_containing one_day 1719930060000000000 = Some s"
    "session_containing one_day 1719929999999999999 = Some s" "ses_date s \<noteq> kNoTimestamp"
proof -
  let ?s = "hd (cal_all one_day)"
  have "session_containing one_day 1719930000000000000 = Some ?s"
    "session_containing one_day 1719930060000000000 = Some ?s"
    "session_containing one_day 1719929999999999999 = Some ?s" "ses_date ?s \<noteq> kNoTimestamp"
    by code_simp+
  then show thesis by (rule that)
qed

lemma flt_not_self [simp]: "\<not> flt x x"
  by (cases x) (auto simp: flt_def)

lemma flat_bar_sel [simp]:
  "bar_instrument (flat_bar i t) = i" "bar_open_time (flat_bar i t) = t - minute_ns"
  "bar_close_time (flat_bar i t) = t" "bar_time (flat_bar i t) = \<lparr>ev_exchange = t, ev_receive = t\<rparr>"
  "bar_close (flat_bar i t) = lit 1" "bar_volume (flat_bar i t) = lit 1"
  by (simp_all add: flat_bar_def)

lemma flat_bar_passes:
  assumes "pass_ok p" "in_some_session cal (BarEv (flat_bar i t))" "is_set (ps_prev p) \<longrightarrow> ps_prev p \<le> t"
    and "is_last_bar_close (instrument_state p i) \<in> {kNoTimestamp, t - minute_ns}"
  shows "pass_ok (validate_event (\<lambda>x. fzero) default_validator_config cal (BarEv (flat_bar i t)) p)"
proof -
  let ?e = "BarEv (flat_bar i t)" and ?cfg = default_validator_config
  define q0 where "q0 = check_membership cal ?e (check_stream_order t i (note_event t p))"
  define q where "q = with_stats (\<lambda>s. s\<lparr>vs_bars := vs_bars s + 1\<rparr>) q0"
  have q: "pass_ok q" "instrument_state q i = instrument_state p i"
    using assms(1-3) by (simp_all add: q_def q0_def pass_simps instrument_state_def)
  let ?st = "instrument_state p i"
  have gap: "check_gap ?cfg cal (flat_bar i t) ?st r = r" if "is_last_bar_close ?st = t - minute_ns" for r
    using that by (simp add: check_gap_def Let_def default_validator_config_def minute_ns_def
        second_ns_def split: option.splits)
  have jump: "\<not> flt (lit (1 / 5)) (fabs fzero)" "\<not> feq (lit 1) fzero"
    by (simp_all add: f64_eval)
  have eq: "validate_event (\<lambda>x. fzero) ?cfg cal ?e p =
      q\<lparr>ps_state := om_put i (?st\<lparr>is_zero_volume_run := 0, is_last_bar_close := t, is_last_close := lit 1\<rparr>)
         (ps_state q)\<rparr>"
  proof -
    have "check_timeframe ?cfg (flat_bar i t) q = q"
      by (simp add: check_timeframe_def Let_def default_validator_config_def)
    moreover have "check_jump (\<lambda>x. fzero) ?cfg (flat_bar i t) ?st (check_gap ?cfg cal (flat_bar i t) ?st q) = q"
      if "is_set (is_last_bar_close ?st)"
      using that assms(4) gap jump(1)
      by (auto simp: check_jump_def Let_def is_set_def default_validator_config_def)
    moreover have "check_volume ?cfg (flat_bar i t) ?st q = (?st\<lparr>is_zero_volume_run := 0\<rparr>, q)"
      using jump(2) by (simp add: check_volume_def)
    moreover have "validate_event (\<lambda>x. fzero) ?cfg cal ?e p = validate_bar (\<lambda>x. fzero) ?cfg cal (flat_bar i t) q0"
      by (simp add: validate_event_def q0_def Let_def)
    ultimately show ?thesis
      using q(2) unfolding validate_bar_def Let_def flat_bar_sel q_def [symmetric] by simp
  qed
  show ?thesis
    using q(1) by (simp add: eq pass_simps)
qed

theorem validated_stream_is_replayable_witness:
  "let events = [BarEv (flat_bar 1 1719930000000000000), BarEv (flat_bar 2 1719930000000000000),
       BarEv (flat_bar 1 1719930060000000000)] in
   check_order 1 events = None \<and>
   list_all (event_admitted default_validator_config (Some one_day)) events \<and>
   sorted_wrt (<) (bar_closes 1 events)"
proof -
  let ?b1 = "BarEv (flat_bar 1 1719930000000000000)" and ?b2 = "BarEv (flat_bar 2 1719930000000000000)"
    and ?b3 = "BarEv (flat_bar 1 1719930060000000000)"
  let ?step = "validate_event (\<lambda>x. fzero) default_validator_config (Some one_day)"
  let ?p = "initial_pass default_validator_config (Some one_day)"
  obtain s where ses: "session_containing one_day 1719930000000000000 = Some s"
    "session_containing one_day 1719930060000000000 = Some s"
    by (rule one_day_sessions)
  have in_ses: "in_some_session (Some one_day) ?b1" "in_some_session (Some one_day) ?b2"
    "in_some_session (Some one_day) ?b3"
    using ses by (simp_all add: in_some_session_def)
  have start: "pass_ok ?p" "is_last_bar_close (instrument_state ?p i) = kNoTimestamp" for i
    by (simp_all add: initial_pass_def pass_ok_def report_ok_iff empty_report_def instrument_state_def
        fresh_instrument_def)
  have p1: "pass_ok (?step ?b1 ?p)"
    using start in_ses(1) by - (rule flat_bar_passes, simp_all add: pass_simps is_set_def)
  have p2: "pass_ok (?step ?b2 (?step ?b1 ?p))"
    using start in_ses(2) p1
    by - (rule flat_bar_passes, simp_all add: pass_simps validate_event_state)
  have p3: "pass_ok (?step ?b3 (?step ?b2 (?step ?b1 ?p)))"
    using in_ses(3) p2
    by - (rule flat_bar_passes, simp_all add: pass_simps validate_event_state minute_ns_def
        second_ns_def)
  have "report_ok (validate (\<lambda>x. fzero) default_validator_config [?b1, ?b2, ?b3] (Some one_day))"
    using p3 by (simp add: validate_def pass_ok_def)
  moreover have "list_all event_stamped [?b1, ?b2, ?b3]"
    by (simp add: event_stamped_def is_set_def kNoTimestamp_def)
  ultimately show ?thesis
    unfolding Let_def using validated_stream_is_replayable by blast
qed

text \<open>
  Sessions are half-open and a bar is stamped with its close: the last bar of every session of the
  US calendar is reported as fatally outside of it.
\<close>

lemma closing_bar_is_fatal:
  assumes "us_calendar cal" "s \<in> set (cal_all cal)" "ses_is_open s" "ev_exchange (bar_time b) = ses_close s"
  shows "\<not> report_ok (validate log_fn cfg [BarEv b] (Some cal))"
proof -
  have "\<not> event_admitted cfg (Some cal) (BarEv b)"
    using closing_instant_outside [OF assms(1-3)] assms(4)
    by (simp add: event_admitted_def in_some_session_def)
  then show ?thesis
    using validate_event_ok(3) by (auto simp: validate_def pass_ok_def)
qed

text \<open>
  With the timeframe check disabled (a timeframe of zero), two bars of one session that are apart make
  the validator divide by zero while it writes the text of the gap.
\<close>

lemma zero_timeframe_divides_by_zero:
  assumes "require_complete_sessions cfg" "expected_bar_timeframe cfg = 0"
    and "is_last_bar_close st < bar_close_time b"
    and "session_containing cal (is_last_bar_close st - 1) = Some s"
    and "session_containing cal (ev_exchange (bar_time b)) = Some s"
  shows "check_gap cfg (Some cal) b st p =
    add_issue GapInSession (warn_severity cfg) (ev_exchange (bar_time b)) (bar_instrument b)
      (MissingBars None (is_last_bar_close st)) p"
  using assms by (simp add: check_gap_def missing_bars_def)

end
