(* ===== verification/Symbology.thy ===== *)
theory Symbology
  imports InstrumentTable MarketData "HOL-Library.Sublist"
begin

text \<open>
  From vendor symbols to instruments (\<open>market/symbol_mapper.hpp\<close>, \<open>market/quote_stream.hpp\<close>,
  \<open>market/symbol_mapper.cpp\<close>): the mapper with its windows of validity, which interns through the shared instrument
  table, and the normaliser that turns fixed-point vendor quotes into validated ones. The mapper borrows the table, so
  the table is part of its state here.
\<close>

section \<open>The symbol mapper\<close>

record SymbolMapping =
  smp_raw_symbol :: string
  smp_instrument :: InstrumentId
  smp_vendor_id :: "32 word"
  smp_valid_from :: Timestamp
  smp_valid_to :: Timestamp

definition mapping_covers :: "SymbolMapping \<Rightarrow> Timestamp \<Rightarrow> bool" where
  "mapping_covers m ts \<longleftrightarrow> smp_valid_from m \<le> ts \<and> ts < smp_valid_to m"

record SymbolMapper =
  smr_mappings :: "SymbolMapping list"
  smr_instruments :: InstrumentTable

datatype mapper_error = NoRawSymbol | NoValidFrom | EmptyValidity | OverlappingMapping Timestamp Timestamp

definition new_mapper :: "InstrumentTable \<Rightarrow> SymbolMapper" where
  "new_mapper t = \<lparr>smr_mappings = [], smr_instruments = t\<rparr>"

definition windows_overlap :: "SymbolMapping \<Rightarrow> SymbolMapping \<Rightarrow> bool" where
  "windows_overlap m existing \<longleftrightarrow> smp_valid_from m < smp_valid_to existing \<and> smp_valid_from existing < smp_valid_to m"

fun first_overlap :: "SymbolMapping \<Rightarrow> SymbolMapping list \<Rightarrow> SymbolMapping option" where
  "first_overlap m [] = None"
| "first_overlap m (existing # rest) =
     (if smp_raw_symbol existing \<noteq> smp_raw_symbol m then first_overlap m rest
      else if windows_overlap m existing then Some existing
      else first_overlap m rest)"

definition mapper_add :: "SymbolMapping \<Rightarrow> SymbolMapper \<Rightarrow> (mapper_error, InstrumentId) result \<times> SymbolMapper" where
  "mapper_add m sm =
     (if smp_raw_symbol m = [] then (Err NoRawSymbol, sm)
      else if \<not> is_set (smp_valid_from m) then (Err NoValidFrom, sm)
      else if smp_valid_to m \<le> smp_valid_from m then (Err EmptyValidity, sm)
      else (case first_overlap m (smr_mappings sm) of
              Some existing \<Rightarrow> (Err (OverlappingMapping (smp_valid_from m) (smp_valid_from existing)), sm)
            | None \<Rightarrow>
                (let (iid, t) = intern (smp_raw_symbol m) (smr_instruments sm) in
                 (Ok iid, sm\<lparr>smr_mappings := smr_mappings sm @ [m\<lparr>smp_instrument := iid\<rparr>], smr_instruments := t\<rparr>))))"

definition add_static :: "string \<Rightarrow> 32 word \<Rightarrow> SymbolMapper \<Rightarrow> (mapper_error, InstrumentId) result \<times> SymbolMapper" where
  "add_static raw_symbol vendor_id sm =
     mapper_add \<lparr>smp_raw_symbol = raw_symbol, smp_instrument = kInvalidInstrument, smp_vendor_id = vendor_id,
       smp_valid_from = 0, smp_valid_to = kMaxTimestamp\<rparr> sm"

definition mapper_resolve :: "string \<Rightarrow> Timestamp \<Rightarrow> SymbolMapper \<Rightarrow> InstrumentId option" where
  "mapper_resolve raw_symbol as_of sm =
     map_option smp_instrument (find (\<lambda>m. smp_raw_symbol m = raw_symbol \<and> mapping_covers m as_of) (smr_mappings sm))"

definition resolve_vendor_id :: "32 word \<Rightarrow> Timestamp \<Rightarrow> SymbolMapper \<Rightarrow> InstrumentId option" where
  "resolve_vendor_id vendor_id as_of sm =
     (if vendor_id = 0 then None
      else map_option smp_instrument (find (\<lambda>m. smp_vendor_id m = vendor_id \<and> mapping_covers m as_of) (smr_mappings sm)))"

definition raw_symbol_of :: "InstrumentId \<Rightarrow> Timestamp \<Rightarrow> SymbolMapper \<Rightarrow> string option" where
  "raw_symbol_of instrument as_of sm =
     map_option smp_raw_symbol (find (\<lambda>m. smp_instrument m = instrument \<and> mapping_covers m as_of) (smr_mappings sm))"

definition mapper_reset :: "SymbolMapper \<Rightarrow> SymbolMapper" where
  "mapper_reset sm = sm\<lparr>smr_mappings := []\<rparr>"

text \<open>The calls on a mapper and on its table, which others intern through as well.\<close>

datatype mapper_op = AddMapping SymbolMapping | AddStatic string "32 word" | InternElsewhere string | ResetMapper

fun mapper_step :: "mapper_op \<Rightarrow> SymbolMapper \<Rightarrow> SymbolMapper" where
  "mapper_step (AddMapping m) sm = snd (mapper_add m sm)"
| "mapper_step (AddStatic raw v) sm = snd (add_static raw v sm)"
| "mapper_step (InternElsewhere s) sm = sm\<lparr>smr_instruments := snd (intern s (smr_instruments sm))\<rparr>"
| "mapper_step ResetMapper sm = mapper_reset sm"

definition apart :: "SymbolMapping \<Rightarrow> SymbolMapping \<Rightarrow> bool" where
  "apart a b \<longleftrightarrow> (smp_raw_symbol a = smp_raw_symbol b \<longrightarrow> \<not> windows_overlap b a)"

definition mapper_ok :: "SymbolMapper \<Rightarrow> bool" where
  "mapper_ok sm \<longleftrightarrow> sorted_wrt apart (smr_mappings sm)
     \<and> list_all (\<lambda>m. smp_raw_symbol m \<noteq> [] \<and> smp_valid_from m < smp_valid_to m
          \<and> find_symbol (smp_raw_symbol m) (smr_instruments sm) = Some (smp_instrument m)) (smr_mappings sm)"

lemma first_overlap_none: "first_overlap m ms = None \<longleftrightarrow> list_all (\<lambda>e. apart e m) ms"
  by (induction m ms rule: first_overlap.induct) (auto simp: apart_def)

lemma first_overlap_instrument [simp]: "apart e (m\<lparr>smp_instrument := i\<rparr>) = apart e m"
  by (simp add: apart_def windows_overlap_def)

lemma intern_keeps: "find_symbol u t = Some k \<Longrightarrow> find_symbol u (snd (intern s t)) = Some k"
  by (auto simp: find_symbol_def intern_def Let_def split: option.split)

lemma intern_finds: "find_symbol s (snd (intern s t)) = Some (fst (intern s t))"
  by (auto simp: find_symbol_def intern_def Let_def split: option.split)

lemma mapper_add_cases:
  "snd (mapper_add m sm) = sm
   \<or> smp_raw_symbol m \<noteq> [] \<and> smp_valid_from m < smp_valid_to m \<and> list_all (\<lambda>e. apart e m) (smr_mappings sm)
     \<and> snd (mapper_add m sm) = sm\<lparr>smr_mappings := smr_mappings sm @ [m\<lparr>smp_instrument := fst (intern (smp_raw_symbol m) (smr_instruments sm))\<rparr>],
         smr_instruments := snd (intern (smp_raw_symbol m) (smr_instruments sm))\<rparr>"
  by (auto simp: mapper_add_def first_overlap_none split: option.split prod.split)

lemma mapper_ok_add: "mapper_ok sm \<Longrightarrow> mapper_ok (snd (mapper_add m sm))"
  using mapper_add_cases [of m sm]
  by (auto simp: mapper_ok_def sorted_wrt_append list_all_iff intern_finds intern_keeps)

interpretation mapper: stepped mapper_step mapper_ok
proof unfold_locales
  fix x sm assume ok: "mapper_ok sm"
  show "mapper_ok (mapper_step x sm)"
  proof (cases x)
    case (InternElsewhere s)
    then show ?thesis using ok by (auto simp: mapper_ok_def list_all_iff intern_keeps)
  qed (use ok mapper_ok_add in \<open>simp_all add: add_static_def mapper_reset_def mapper_ok_def [of "_\<lparr>smr_mappings := []\<rparr>"]\<close>)
qed

lemma covering_overlap: "mapping_covers a ts \<Longrightarrow> mapping_covers b ts \<Longrightarrow> windows_overlap b a"
  by (auto simp: mapping_covers_def windows_overlap_def)

lemma one_covering:
  "sorted_wrt apart ms \<Longrightarrow> length (filter (\<lambda>m. smp_raw_symbol m = raw \<and> mapping_covers m ts) ms) \<le> 1"
proof (induction ms)
  case (Cons a ms)
  have "filter (\<lambda>m. smp_raw_symbol m = raw \<and> mapping_covers m ts) ms = []"
    if "smp_raw_symbol a = raw" "mapping_covers a ts"
    using Cons.prems that covering_overlap by (auto simp: filter_empty_conv apart_def)
  then show ?case using Cons by auto
qed simp

lemma find_filter: "find P xs = (case filter P xs of [] \<Rightarrow> None | x # _ \<Rightarrow> Some x)"
  by (induction xs) auto

text \<open>
  A lookup never has to choose. Whatever was registered and refused, at every instant at most one mapping of a symbol
  is valid, the lookup answers exactly that one, and it answers the instrument the symbol has in the shared table: a
  symbol whose windows belong to different companies has one instrument for all of them.
\<close>

theorem a_symbol_means_one_instrument:
  "let sm = fold mapper_step ops (new_mapper t);
       valid = filter (\<lambda>m. smp_raw_symbol m = raw \<and> mapping_covers m ts) (smr_mappings sm) in
   length valid \<le> 1 \<and> mapper_resolve raw ts sm
     = (case valid of [] \<Rightarrow> None | m # _ \<Rightarrow> find_symbol raw (smr_instruments sm))"
proof -
  define sm where "sm = fold mapper_step ops (new_mapper t)"
  have ok: "mapper_ok sm"
    using mapper.run_inv [of "new_mapper t" ops] by (simp add: sm_def mapper.run_def mapper_ok_def new_mapper_def)
  have "m \<in> set (smr_mappings sm) \<Longrightarrow> find_symbol (smp_raw_symbol m) (smr_instruments sm) = Some (smp_instrument m)" for m
    using ok by (simp add: mapper_ok_def list_all_iff)
  then have "mapper_resolve raw ts sm
      = (case filter (\<lambda>m. smp_raw_symbol m = raw \<and> mapping_covers m ts) (smr_mappings sm) of
           [] \<Rightarrow> None | m # _ \<Rightarrow> find_symbol raw (smr_instruments sm))"
    by (auto simp: mapper_resolve_def find_filter filter_eq_Cons_iff split: list.split)
  then show ?thesis using one_covering ok by (simp add: Let_def mapper_ok_def flip: sm_def)
qed

text \<open>
  A vendor identifier is not looked after that way. The windows are compared among the mappings of one symbol only, so
  two symbols are accepted with the same vendor identifier for all time, and its lookup silently answers the first.
\<close>

theorem two_symbols_may_share_a_vendor_id:
  "let (a, sm1) = add_static ''SPY'' 7 (new_mapper empty_table); (b, sm2) = add_static ''XLE'' 7 sm1 in
   a = Ok 0 \<and> b = Ok 1 \<and> resolve_vendor_id 7 1 sm2 = Some 0"
  by (simp add: add_static_def mapper_add_def new_mapper_def empty_table_def intern_def is_set_def kNoTimestamp_def
      kMaxTimestamp_def resolve_vendor_id_def mapping_covers_def windows_overlap_def)

section \<open>The quote normaliser\<close>

record RawQuote =
  rwq_vendor_instrument_id :: "32 word"
  rwq_exchange_time_ns :: int
  rwq_bid_price_fixed :: int
  rwq_ask_price_fixed :: int
  rwq_bid_size :: "32 word"
  rwq_ask_size :: "32 word"

record QuoteNormaliserConfig =
  qnc_price_scale :: f64
  qnc_feed_latency :: Duration
  qnc_drop_one_sided :: bool

definition default_normaliser_config :: QuoteNormaliserConfig where
  "default_normaliser_config =
     \<lparr>qnc_price_scale = lit (1 / 10 ^ 9), qnc_feed_latency = 500000, qnc_drop_one_sided = True\<rparr>"

record QuoteNormaliserStats =
  qns_accepted :: nat
  qns_dropped_unmapped :: nat
  qns_dropped_one_sided :: nat
  qns_dropped_invalid :: nat
  qns_dropped_crossed :: nat

definition no_quotes_seen :: QuoteNormaliserStats where
  "no_quotes_seen = \<lparr>qns_accepted = 0, qns_dropped_unmapped = 0, qns_dropped_one_sided = 0, qns_dropped_invalid = 0,
     qns_dropped_crossed = 0\<rparr>"

definition raw_price :: "QuoteNormaliserConfig \<Rightarrow> int \<Rightarrow> Price" where
  "raw_price cfg fixed = fmul (of_int64 fixed) (qnc_price_scale cfg)"

definition normalise ::
    "QuoteNormaliserConfig \<Rightarrow> SymbolMapper \<Rightarrow> RawQuote \<Rightarrow> QuoteNormaliserStats \<Rightarrow> Quote option \<times> QuoteNormaliserStats" where
  "normalise cfg sm raw st =
     (let exchange_time = rwq_exchange_time_ns raw in
      if exchange_time \<le> 0 then (None, st\<lparr>qns_dropped_invalid := qns_dropped_invalid st + 1\<rparr>)
      else (case resolve_vendor_id (rwq_vendor_instrument_id raw) exchange_time sm of
              None \<Rightarrow> (None, st\<lparr>qns_dropped_unmapped := qns_dropped_unmapped st + 1\<rparr>)
            | Some instrument \<Rightarrow>
                if qnc_drop_one_sided cfg \<and> (rwq_bid_price_fixed raw \<le> 0 \<or> rwq_ask_price_fixed raw \<le> 0)
                then (None, st\<lparr>qns_dropped_one_sided := qns_dropped_one_sided st + 1\<rparr>)
                else
                  (let bid = raw_price cfg (rwq_bid_price_fixed raw); ask = raw_price cfg (rwq_ask_price_fixed raw) in
                   if flt ask bid then (None, st\<lparr>qns_dropped_crossed := qns_dropped_crossed st + 1\<rparr>)
                   else (case quote_create instrument exchange_time bid (of_int64 (uint (rwq_bid_size raw)))
                           ask (of_int64 (uint (rwq_ask_size raw))) (qnc_feed_latency cfg) of
                           Inl e \<Rightarrow> (None, st\<lparr>qns_dropped_invalid := qns_dropped_invalid st + 1\<rparr>)
                         | Inr q \<Rightarrow> (Some q, st\<lparr>qns_accepted := qns_accepted st + 1\<rparr>)))))"

fun normalise_all ::
    "QuoteNormaliserConfig \<Rightarrow> SymbolMapper \<Rightarrow> RawQuote list \<Rightarrow> QuoteNormaliserStats \<Rightarrow> Quote list \<times> QuoteNormaliserStats"
    where
  "normalise_all cfg sm [] st = ([], st)"
| "normalise_all cfg sm (raw # raws) st =
     (case normalise cfg sm raw st of
        (None, st') \<Rightarrow> normalise_all cfg sm raws st'
      | (Some q, st') \<Rightarrow> (let (qs, st'') = normalise_all cfg sm raws st' in (q # qs, st'')))"

fun first_backward :: "Timestamp list \<Rightarrow> nat \<Rightarrow> nat option" where
  "first_backward (a # b # ts) i = (if b < a then Some i else first_backward (b # ts) (i + 1))"
| "first_backward _ i = None"

text \<open>The error is the index of the first quote earlier than the one before it.\<close>

definition normalise_batch ::
    "QuoteNormaliserConfig \<Rightarrow> SymbolMapper \<Rightarrow> RawQuote list \<Rightarrow> QuoteNormaliserStats
      \<Rightarrow> (nat, Quote list) result \<times> QuoteNormaliserStats" where
  "normalise_batch cfg sm raws st =
     (let (out, st') = normalise_all cfg sm raws st in
      case first_backward (map (\<lambda>q. ev_exchange (q_time q)) out) 1 of
        Some i \<Rightarrow> (Err i, st')
      | None \<Rightarrow> (Ok out, st'))"

definition records_counted :: "QuoteNormaliserStats \<Rightarrow> nat" where
  "records_counted st = qns_accepted st + qns_dropped_unmapped st + qns_dropped_one_sided st + qns_dropped_invalid st
     + qns_dropped_crossed st"

text \<open>A quote that came from a record: the instrument its identifier had then, at its time and with its prices.\<close>

definition quote_from :: "QuoteNormaliserConfig \<Rightarrow> SymbolMapper \<Rightarrow> RawQuote \<Rightarrow> Quote \<Rightarrow> bool" where
  "quote_from cfg sm raw q \<longleftrightarrow> ev_exchange (q_time q) = rwq_exchange_time_ns raw \<and> 0 < ev_exchange (q_time q)
     \<and> Some (q_instrument q) = resolve_vendor_id (rwq_vendor_instrument_id raw) (ev_exchange (q_time q)) sm
     \<and> q_bid q = raw_price cfg (rwq_bid_price_fixed raw) \<and> q_ask q = raw_price cfg (rwq_ask_price_fixed raw)
     \<and> ev_receive (q_time q) = ev_exchange (q_time q) + qnc_feed_latency cfg \<and> quote_valid q"

lemma first_backward_none: "first_backward ts i = None \<longleftrightarrow> sorted ts"
  by (induction ts i rule: first_backward.induct) auto

lemma normalise_some:
  assumes "normalise cfg sm raw st = (Some q, st')"
  shows "quote_from cfg sm raw q"
proof -
  from assms obtain i where i: "resolve_vendor_id (rwq_vendor_instrument_id raw) (rwq_exchange_time_ns raw) sm = Some i"
      and t: "0 < rwq_exchange_time_ns raw"
      and q: "quote_create i (rwq_exchange_time_ns raw) (raw_price cfg (rwq_bid_price_fixed raw))
        (of_int64 (uint (rwq_bid_size raw))) (raw_price cfg (rwq_ask_price_fixed raw))
        (of_int64 (uint (rwq_ask_size raw))) (qnc_feed_latency cfg) = Ok q"
    by (auto simp: normalise_def Let_def split: if_splits option.splits sum.splits)
  then show ?thesis using quote_create_valid [OF q] i t
    by (auto simp: quote_from_def quote_create_def split: if_splits)
qed

lemma normalise_counts:
  "normalise cfg sm raw st = (r, st') \<Longrightarrow>
   records_counted st' = records_counted st + 1 \<and> qns_accepted st' = qns_accepted st + (if r = None then 0 else 1)"
  by (auto simp: normalise_def records_counted_def Let_def split: if_splits option.splits sum.splits)

definition picked_from :: "('a \<Rightarrow> 'b \<Rightarrow> bool) \<Rightarrow> 'a list \<Rightarrow> 'b list \<Rightarrow> bool" where
  "picked_from R xs ys \<longleftrightarrow> (\<exists>zs. list_all2 R zs ys \<and> subseq zs xs)"

lemma picked_from_intros:
  "picked_from R [] []"
  "picked_from R xs ys \<Longrightarrow> picked_from R (x # xs) ys"
  "picked_from R xs ys \<Longrightarrow> R x y \<Longrightarrow> picked_from R (x # xs) (y # ys)"
proof -
  show "picked_from R [] []" by (simp add: picked_from_def)
  show "picked_from R xs ys \<Longrightarrow> picked_from R (x # xs) ys" unfolding picked_from_def by (meson list_emb_Cons)
  show "picked_from R xs ys \<Longrightarrow> R x y \<Longrightarrow> picked_from R (x # xs) (y # ys)"
    unfolding picked_from_def by (meson list_all2_Cons subseq_Cons2)
qed

lemma normalise_all_from:
  "normalise_all cfg sm raws st = (qs, st') \<Longrightarrow> picked_from (quote_from cfg sm) raws qs
     \<and> records_counted st' = records_counted st + length raws \<and> qns_accepted st' = qns_accepted st + length qs"
proof (induction raws arbitrary: st qs st')
  case Nil
  then show ?case by (simp add: picked_from_intros(1))
next
  case (Cons raw raws)
  obtain r st1 where n: "normalise cfg sm raw st = (r, st1)" by (cases "normalise cfg sm raw st")
  show ?case
  proof (cases r)
    case None
    have rest: "normalise_all cfg sm raws st1 = (qs, st')" using Cons.prems by (simp add: n None)
    show ?thesis using Cons.IH [OF rest] normalise_counts [OF n] None by (simp add: picked_from_intros(2))
  next
    case (Some q)
    obtain qs1 st2 where rest: "normalise_all cfg sm raws st1 = (qs1, st2)" by (cases "normalise_all cfg sm raws st1")
    then have qs: "qs = q # qs1" "st' = st2" using Cons.prems by (simp_all add: n Some)
    have "quote_from cfg sm raw q" using normalise_some n Some by simp
    then show ?thesis using Cons.IH [OF rest] normalise_counts [OF n] Some by (simp add: picked_from_intros(3) qs)
  qed
qed

lemma normalise_batch_cases:
  assumes "normalise_all cfg sm raws st = (qs, st')"
  obtains "sorted (map (\<lambda>q. ev_exchange (q_time q)) qs)" "normalise_batch cfg sm raws st = (Ok qs, st')"
    | i where "\<not> sorted (map (\<lambda>q. ev_exchange (q_time q)) qs)" "normalise_batch cfg sm raws st = (Err i, st')"
  using first_backward_none [of "map (\<lambda>q. ev_exchange (q_time q)) qs" 1]
  by (cases "first_backward (map (\<lambda>q. ev_exchange (q_time q)) qs) 1") (auto simp: normalise_batch_def assms)

lemma normalise_batch_picked:
  assumes "normalise_batch cfg sm raws st = (Ok qs, st')"
  shows "picked_from (quote_from cfg sm) raws qs"
proof -
  obtain qs1 st1 where n: "normalise_all cfg sm raws st = (qs1, st1)" by (cases "normalise_all cfg sm raws st")
  show ?thesis by (rule normalise_batch_cases [OF n]) (use assms normalise_all_from [OF n] in auto)
qed

text \<open>
  C21: Normalising a batch loses nothing silently. Every record is counted exactly once, as accepted or under the reason it
  was dropped for; the quotes that come out are, in the order of their records, the accepted ones, each a valid quote
  with the instrument, time and prices of its record; and the batch is refused exactly when they are not chronological.
\<close>

theorem a_batch_loses_no_record_silently:
  "case normalise_batch cfg sm raws st of (result, st') \<Rightarrow>
     records_counted st' = records_counted st + length raws
     \<and> (case result of
          Inl i \<Rightarrow> \<not> sorted (map (\<lambda>q. ev_exchange (q_time q)) (fst (normalise_all cfg sm raws st)))
        | Inr qs \<Rightarrow> picked_from (quote_from cfg sm) raws qs \<and> sorted (map (\<lambda>q. ev_exchange (q_time q)) qs)
            \<and> qns_accepted st' = qns_accepted st + length qs)"
proof -
  obtain qs st' where n: "normalise_all cfg sm raws st = (qs, st')" by (cases "normalise_all cfg sm raws st")
  show ?thesis
    by (rule normalise_batch_cases [OF n]) (use normalise_all_from [OF n] in \<open>simp_all add: n\<close>)
qed

lemma raw_price_not_positive:
  assumes "fixed \<le> 0" "fin (qnc_price_scale cfg)" "0 \<le> val (qnc_price_scale cfg)"
  shows "\<not> sane_price (raw_price cfg fixed)"
proof
  assume "sane_price (raw_price cfg fixed)"
  then have f: "fin (raw_price cfg fixed)" "0 < val (raw_price cfg fixed)" by (simp_all add: sane_price_iff)
  then have fx: "fin (of_int64 fixed)" using fin_fmul_args raw_price_def by metis
  have "val (of_int64 fixed) \<le> 0" using assms(1) fx rnd_mono [of "of_int fixed" 0] by (simp add: of_int64_def lit_val)
  then have "val (of_int64 fixed) * val (qnc_price_scale cfg) \<le> 0" using assms(3) by (simp add: mult_nonpos_nonneg)
  then have "val (raw_price cfg fixed) \<le> 0"
    using fmul_val [of "of_int64 fixed" "qnc_price_scale cfg"] f fx assms(2) rnd_mono [of _ 0] by (auto simp: raw_price_def)
  with f show False by simp
qed

lemma insane_refused:
  "\<not> sane_price bid \<or> \<not> sane_price ask
   \<Longrightarrow> (case quote_create i ts bid bs ask as lat of Inl e \<Rightarrow> a | Inr q \<Rightarrow> f q) = a"
  by (auto simp: quote_create_def)

text \<open>
  The setting for one-sided books decides only which counter they appear under: a book without a bid or an ask never
  becomes a quote, whether it is asked to be dropped or not, because a price of zero is refused further on.
\<close>

theorem one_sided_books_are_always_dropped:
  "fst (normalise (default_normaliser_config\<lparr>qnc_drop_one_sided := b\<rparr>) sm raw st)
   = fst (normalise default_normaliser_config sm raw st)"
proof -
  have scale: "fin (qnc_price_scale default_normaliser_config)" "0 \<le> val (qnc_price_scale default_normaliser_config)"
    using rnd_mono [of 0 "1 / 10 ^ 9"] rnd_mono [of "1 / 10 ^ 9" 1] rnd_int_exact [of 1] small_lt_overflow [of 1]
    by (simp_all add: default_normaliser_config_def lit_fin_iff lit_val)
  have price: "raw_price (default_normaliser_config\<lparr>qnc_drop_one_sided := c\<rparr>) = raw_price default_normaliser_config" for c
    by (simp add: raw_price_def fun_eq_iff)
  show ?thesis
  proof (cases "rwq_bid_price_fixed raw \<le> 0 \<or> rwq_ask_price_fixed raw \<le> 0")
    case True
    then have "\<not> sane_price (raw_price default_normaliser_config (rwq_bid_price_fixed raw))
        \<or> \<not> sane_price (raw_price default_normaliser_config (rwq_ask_price_fixed raw))"
      using raw_price_not_positive [OF _ scale] by blast
    then show ?thesis using True by (simp add: normalise_def Let_def price insane_refused split: option.split)
  next
    case False
    then show ?thesis by (simp add: normalise_def Let_def price split: option.split sum.split)
  qed
qed

end
