(* ===== verification/Vendor.thy ===== *)
theory Vendor
  imports WireText ExecutionModels Symbology Calendar "HOL-Library.Char_ord" "HOL-Library.List_Lexorder" "HOL-Library.Product_Lexorder"
begin

unbundle bit_operations_syntax

text \<open>
  Market data vendors (\<open>market/http, capability, provider, alpaca\<close>): requests and recorded responses, the capability
  sets with the entitlement gate, and the Alpaca adapter. The JSON library is outside the program: a parser from text to
  JSON values is a parameter, and so is \<open>std::stod\<close>; a transport is a function of an outside world.
\<close>

section \<open>JSON values and numbers\<close>

text \<open>An object is a \<open>std::map\<close>, so its members come in the order of their names.\<close>

datatype json = JNull | JBool bool | JInt int | JFloat f64 | JString string | JArray "json list"
  | JObject "(string \<times> json) list"

definition json_member :: "json \<Rightarrow> string \<Rightarrow> json option" where
  "json_member j key = (case j of JObject m \<Rightarrow> om_find m key | _ \<Rightarrow> None)"

definition json_text :: "json \<Rightarrow> string \<Rightarrow> string option" where
  "json_text j key = (case json_member j key of Some (JString s) \<Rightarrow> Some s | _ \<Rightarrow> None)"

definition is_space :: "char \<Rightarrow> bool" where
  "is_space c \<longleftrightarrow> c \<in> {CHR '' '', CHR 0x09, CHR 0x0A, CHR 0x0B, CHR 0x0C, CHR 0x0D}"

text \<open>A sign in front of the digits, after white space, as \<open>std::stoll\<close> and \<open>std::stoul\<close> read it.\<close>

definition signed_digits :: "string \<Rightarrow> bool \<times> string" where
  "signed_digits s =
     (case dropWhile is_space s of
        [] \<Rightarrow> (False, [])
      | c # rest \<Rightarrow> if c = CHR ''-'' then (True, takeWhile is_digit rest)
          else if c = CHR ''+'' then (False, takeWhile is_digit rest)
          else (False, takeWhile is_digit (c # rest)))"

definition stoll :: "string \<Rightarrow> int option" where
  "stoll s =
     (let (neg, ds) = signed_digits s; v = (if neg then - digits_value ds else digits_value ds) in
      if ds = [] \<or> v < - (2 ^ 63) \<or> 2 ^ 63 \<le> v then None else Some v)"

definition stoul :: "string \<Rightarrow> int option" where
  "stoul s =
     (let (neg, ds) = signed_digits s; v = digits_value ds in
      if ds = [] \<or> 2 ^ 64 \<le> v then None else Some ((if neg then - v else v) mod 2 ^ 64))"

definition read_i64 :: "json \<Rightarrow> string \<Rightarrow> int option" where
  "read_i64 obj key =
     (case json_member obj key of
        Some (JInt n) \<Rightarrow> Some (sint (word_of_int n :: 64 word))
      | Some (JFloat d) \<Rightarrow> Some (trunc_int64 d)
      | Some (JString s) \<Rightarrow> stoll s
      | _ \<Rightarrow> None)"

definition read_number :: "(string \<Rightarrow> f64 option) \<Rightarrow> json \<Rightarrow> string \<Rightarrow> f64 option" where
  "read_number stod obj key =
     (case json_member obj key of
        Some (JInt n) \<Rightarrow> Some (of_int64 n)
      | Some (JFloat d) \<Rightarrow> Some d
      | Some (JString s) \<Rightarrow> stod s
      | _ \<Rightarrow> None)"

section \<open>Requests\<close>

record HttpRequest =
  hrq_url :: string
  hrq_headers :: "(string, string) omap"
  hrq_query :: "(string, string) omap"

fun joined :: "string \<Rightarrow> string list \<Rightarrow> string" where
  "joined sep [] = []"
| "joined sep [x] = x"
| "joined sep (x # xs) = x @ sep @ joined sep xs"

definition full_url :: "HttpRequest \<Rightarrow> string" where
  "full_url r =
     (if hrq_query r = [] then hrq_url r
      else hrq_url r @ ''?'' @ joined ''&'' (map (\<lambda>(k, v). k @ ''='' @ v) (hrq_query r)))"

record HttpResponse =
  hrs_status :: int
  hrs_body :: string

definition http_ok :: "HttpResponse \<Rightarrow> bool" where
  "http_ok r \<longleftrightarrow> 200 \<le> hrs_status r \<and> hrs_status r < 300"

type_synonym 'w HttpTransport = "HttpRequest \<Rightarrow> 'w \<Rightarrow> (string, HttpResponse) result \<times> 'w"

record RecordedTransport =
  rct_responses :: "(string, HttpResponse) omap"
  rct_requested :: "string list"

definition record_response :: "string \<Rightarrow> HttpResponse \<Rightarrow> RecordedTransport \<Rightarrow> RecordedTransport" where
  "record_response url response t = t\<lparr>rct_responses := om_put url response (rct_responses t)\<rparr>"

text \<open>The error of an unrecorded request is its address.\<close>

definition recorded_get :: "RecordedTransport HttpTransport" where
  "recorded_get request t =
     (let url = full_url request; t' = t\<lparr>rct_requested := rct_requested t @ [url]\<rparr> in
      case om_find (rct_responses t) url of
        None \<Rightarrow> (Err url, t')
      | Some response \<Rightarrow> (Ok response, t'))"

section \<open>Capabilities\<close>

datatype Capability = HistoricalBars | HistoricalTrades | HistoricalQuotes | RealtimeBars | RealtimeTrades | RealtimeQuotes
  | CorporateActions | ConsolidatedFeed | SampledQuotes

fun capability_index :: "Capability \<Rightarrow> nat" where
  "capability_index HistoricalBars = 0"
| "capability_index HistoricalTrades = 1"
| "capability_index HistoricalQuotes = 2"
| "capability_index RealtimeBars = 3"
| "capability_index RealtimeTrades = 4"
| "capability_index RealtimeQuotes = 5"
| "capability_index CorporateActions = 6"
| "capability_index ConsolidatedFeed = 7"
| "capability_index SampledQuotes = 8"

definition capability_bit :: "Capability \<Rightarrow> 32 word" where
  "capability_bit c = push_bit (capability_index c) 1"

type_synonym CapabilitySet = "32 word"

definition capability_set :: "Capability list \<Rightarrow> CapabilitySet" where
  "capability_set cs = foldl (\<lambda>bits c. bits OR capability_bit c) 0 cs"

definition cap_has :: "CapabilitySet \<Rightarrow> Capability \<Rightarrow> bool" where
  "cap_has s c \<longleftrightarrow> s AND capability_bit c \<noteq> 0"

definition cap_contains :: "CapabilitySet \<Rightarrow> CapabilitySet \<Rightarrow> bool" where
  "cap_contains s other \<longleftrightarrow> s AND other = other"

definition cap_add :: "Capability \<Rightarrow> CapabilitySet \<Rightarrow> CapabilitySet" where
  "cap_add c s = s OR capability_bit c"

definition missing_from :: "CapabilitySet \<Rightarrow> CapabilitySet \<Rightarrow> CapabilitySet" where
  "missing_from s required = required AND NOT s"

definition all_capabilities :: "Capability list" where
  "all_capabilities = [HistoricalBars, HistoricalTrades, HistoricalQuotes, RealtimeBars, RealtimeTrades, RealtimeQuotes,
     CorporateActions, ConsolidatedFeed, SampledQuotes]"

fun to_string_Capability :: "Capability \<Rightarrow> string" where
  "to_string_Capability HistoricalBars = ''historical_bars''"
| "to_string_Capability HistoricalTrades = ''historical_trades''"
| "to_string_Capability HistoricalQuotes = ''historical_quotes''"
| "to_string_Capability RealtimeBars = ''realtime_bars''"
| "to_string_Capability RealtimeTrades = ''realtime_trades''"
| "to_string_Capability RealtimeQuotes = ''realtime_quotes''"
| "to_string_Capability CorporateActions = ''corporate_actions''"
| "to_string_Capability ConsolidatedFeed = ''consolidated_feed''"
| "to_string_Capability SampledQuotes = ''sampled_quotes''"

definition cap_names :: "CapabilitySet \<Rightarrow> string list" where
  "cap_names s = map to_string_Capability (filter (cap_has s) all_capabilities)"

definition cap_describe :: "CapabilitySet \<Rightarrow> string" where
  "cap_describe s = (if cap_names s = [] then ''(none)'' else joined '', '' (cap_names s))"

section \<open>The entitlement gate\<close>

record TimeRange =
  tr_begin :: Timestamp
  tr_end :: Timestamp

definition range_valid :: "TimeRange \<Rightarrow> bool" where
  "range_valid r \<longleftrightarrow> is_set (tr_begin r) \<and> is_set (tr_end r) \<and> tr_begin r < tr_end r"

definition range_contains :: "TimeRange \<Rightarrow> Timestamp \<Rightarrow> bool" where
  "range_contains r ts \<longleftrightarrow> tr_begin r \<le> ts \<and> ts < tr_end r"

record BarRequest =
  brq_instruments :: "InstrumentId list"
  brq_range :: TimeRange
  brq_timeframe :: Duration

record QuoteRequest =
  qrq_instruments :: "InstrumentId list"
  qrq_range :: TimeRange
  qrq_sampling :: Duration

record ProviderIdentity =
  pid_name :: string
  pid_feed :: string
  pid_schema :: string
  pid_coverage :: string
  pid_dataset :: string

text \<open>What the gate asks of a provider.\<close>

record MarketDataProvider =
  mdp_identity :: ProviderIdentity
  mdp_capabilities :: CapabilitySet
  mdp_available_through :: "Timestamp \<Rightarrow> Timestamp"

record EntitlementRequest =
  erq_required :: CapabilitySet
  erq_range :: TimeRange
  erq_now :: Timestamp
  erq_purpose :: string

record EntitlementReport =
  erp_granted :: bool
  erp_provider :: ProviderIdentity
  erp_required :: CapabilitySet
  erp_available :: CapabilitySet
  erp_missing :: CapabilitySet
  erp_available_through :: Timestamp
  erp_detail :: string

definition newline_indent :: string where
  "newline_indent = CHR 0x0A # ''  ''"

definition entitlement_describe :: "EntitlementReport \<Rightarrow> string" where
  "entitlement_describe r =
     (if erp_granted r then ''entitlement granted'' else ''ENTITLEMENT DENIED'') @ '' for provider '' @ [CHR 0x27]
     @ pid_name (erp_provider r) @ (if pid_feed (erp_provider r) = [] then [] else ''/'' @ pid_feed (erp_provider r))
     @ [CHR 0x27] @ '' (coverage: ''
     @ (if pid_coverage (erp_provider r) = [] then ''unspecified'' else pid_coverage (erp_provider r)) @ '')''
     @ (if erp_granted r then []
        else newline_indent @ ''required : '' @ cap_describe (erp_required r)
          @ newline_indent @ ''available: '' @ cap_describe (erp_available r)
          @ (if erp_missing r = 0 then [] else newline_indent @ ''MISSING  : '' @ cap_describe (erp_missing r)))
     @ (if erp_detail r = [] then [] else newline_indent @ erp_detail r)"

definition single_venue_warning :: string where
  "single_venue_warning = '' -- this provider serves a single venue, not the consolidated tape. Spreads and volumes from it are not representative and must not be used for transaction-cost modelling.''"

definition gate_evaluate :: "MarketDataProvider \<Rightarrow> EntitlementRequest \<Rightarrow> EntitlementReport" where
  "gate_evaluate p request =
     (let r = \<lparr>erp_granted = False, erp_provider = mdp_identity p, erp_required = erq_required request,
              erp_available = mdp_capabilities p, erp_missing = missing_from (mdp_capabilities p) (erq_required request),
              erp_available_through = mdp_available_through p (erq_now request), erp_detail = []\<rparr> in
      if erp_missing r \<noteq> 0
      then r\<lparr>erp_detail := ''provider cannot serve: '' @ cap_describe (erp_missing r)
             @ (if \<not> cap_has (erp_available r) ConsolidatedFeed \<and> cap_has (erp_required r) ConsolidatedFeed
                then single_venue_warning else [])\<rparr>
      else if range_valid (erq_range request) \<and> is_set (erp_available_through r)
          \<and> erp_available_through r < tr_end (erq_range request)
      then r\<lparr>erp_detail := ''requested range ends at '' @ to_iso8601 (tr_end (erq_range request))
             @ '' but this provider is only entitled through '' @ to_iso8601 (erp_available_through r)\<rparr>
      else r\<lparr>erp_granted := True\<rparr>)"

definition gate_enforce :: "MarketDataProvider \<Rightarrow> EntitlementRequest \<Rightarrow> (string \<times> string, EntitlementReport) result" where
  "gate_enforce p request =
     (let r = gate_evaluate p request in
      if \<not> erp_granted r then Err (entitlement_describe r, erq_purpose request) else Ok r)"

lemma capability_index_less: "capability_index c < 9"
  by (cases c) simp_all

lemma capability_index_inj: "capability_index c = capability_index d \<longleftrightarrow> c = d"
  by (cases c; cases d) simp_all

lemma cap_has_bit: "cap_has s c \<longleftrightarrow> bit s (capability_index c)"
  by (simp add: cap_has_def capability_bit_def push_bit_eq_mult and_exp_eq_0_iff_not_bit)

lemma bit_capability: "bit (capability_bit c) n \<longleftrightarrow> n = capability_index c"
  using capability_index_less [of c] by (auto simp: capability_bit_def bit_simps)

lemma cap_has_ops:
  "cap_has (cap_add d s) c \<longleftrightarrow> cap_has s c \<or> c = d"
  "cap_has (missing_from s r) c \<longleftrightarrow> cap_has r c \<and> \<not> cap_has s c"
  using capability_index_less [of c]
  by (auto simp: cap_has_bit cap_add_def missing_from_def bit_simps bit_capability capability_index_inj)

lemma bit_capability_set: "bit (capability_set cs) n \<longleftrightarrow> n \<in> capability_index ` set cs"
proof -
  have "bit (foldl (\<lambda>bits c. bits OR capability_bit c) s cs) n \<longleftrightarrow> bit s n \<or> n \<in> capability_index ` set cs" for s
    by (induction cs arbitrary: s) (auto simp: bit_simps bit_capability)
  then show ?thesis by (simp add: capability_set_def)
qed

lemma cap_has_set: "cap_has (capability_set cs) c \<longleftrightarrow> c \<in> set cs"
  by (auto simp: cap_has_bit bit_capability_set capability_index_inj)

lemma missing_none: "missing_from s (capability_set cs) = 0 \<longleftrightarrow> list_all (cap_has s) cs"
proof -
  have "missing_from s (capability_set cs) = 0 \<longleftrightarrow> (\<forall>n < 32. \<not> (n \<in> capability_index ` set cs \<and> \<not> bit s n))"
    by (auto simp: missing_from_def bit_eq_iff bit_simps bit_capability_set)
  moreover have "capability_index c < 32" for c using capability_index_less [of c] by linarith
  ultimately show ?thesis by (auto simp: list_all_iff cap_has_bit)
qed

text \<open>
  The gate grants exactly what the provider has. For a request made of capabilities it grants exactly when the provider
  has every one of them and the window, where the window and the limit are given at all, ends by the instant the
  provider serves up to; a denial names in its missing set exactly the capabilities that lack.
\<close>

theorem gate_grants_what_the_provider_has:
  "let r = gate_evaluate p \<lparr>erq_required = capability_set cs, erq_range = window, erq_now = t, erq_purpose = why\<rparr> in
   (erp_granted r \<longleftrightarrow> list_all (cap_has (mdp_capabilities p)) cs
      \<and> (if range_valid window \<and> is_set (mdp_available_through p t) then tr_end window \<le> mdp_available_through p t else True))
   \<and> (cap_has (erp_missing r) c \<longleftrightarrow> c \<in> set cs \<and> \<not> cap_has (mdp_capabilities p) c)"
  by (auto simp: gate_evaluate_def Let_def missing_none cap_has_ops cap_has_set)

section \<open>The Alpaca adapter\<close>

datatype AlpacaFeed = Iex | Sip

fun to_string_AlpacaFeed :: "AlpacaFeed \<Rightarrow> string" where
  "to_string_AlpacaFeed Sip = ''sip''"
| "to_string_AlpacaFeed Iex = ''iex''"

record AlpacaConfig =
  apc_feed :: AlpacaFeed
  apc_base_url :: string
  apc_historical_end_delay :: Duration
  apc_realtime_entitled :: bool
  apc_page_limit :: nat

definition default_alpaca_config :: AlpacaConfig where
  "default_alpaca_config = \<lparr>apc_feed = Sip, apc_base_url = ''https://data.alpaca.markets'',
     apc_historical_end_delay = 15 * minute_ns, apc_realtime_entitled = False, apc_page_limit = 10000\<rparr>"

datatype vendor_error = MalformedJson | NotAnObject | NoMember string | NotASymbolMap | NotAnArray string
  | UnparseableTime string | RejectedBar market_error | InvalidRange | NoInstruments | UnsupportedRequest
  | TransportFailed string | HttpStatus int string | UnusableEstimate | SpendRefused f64 | BackwardQuote nat
  | RejectedAction market_error | UnknownAction string | UnknownSchema string | MappingRefused mapper_error
  | PublisherScoped string | BackwardBar nat | IncompleteInterval string | NotBracketed session_error

definition bar_before :: "Bar list \<Rightarrow> Bar list" where
  "bar_before bs = sort_key (\<lambda>b. (bar_close_time b, unat (bar_instrument b))) bs"

definition alpaca_row :: "(string \<Rightarrow> f64 option) \<Rightarrow> InstrumentId \<Rightarrow> Duration \<Rightarrow> json \<Rightarrow> (vendor_error, Bar) result" where
  "alpaca_row stod iid timeframe row =
     (case row of
        JObject m \<Rightarrow>
          (case json_text row ''t'' of
             None \<Rightarrow> Err (NoMember ''t'')
           | Some t_str \<Rightarrow>
               (case parse_timestamp t_str of
                  None \<Rightarrow> Err (UnparseableTime t_str)
                | Some left_edge \<Rightarrow>
                    (case (read_number stod row ''o'', read_number stod row ''h'', read_number stod row ''l'',
                           read_number stod row ''c'', read_number stod row ''v'') of
                       (Some op, Some h, Some l, Some cl, Some v) \<Rightarrow>
                         (case bar_from_left_edge iid left_edge timeframe op h l cl v 0 of
                            Inl e \<Rightarrow> Err (RejectedBar e)
                          | Inr bar \<Rightarrow> Ok bar)
                     | _ \<Rightarrow> Err (NoMember ''ohlcv''))))
      | _ \<Rightarrow> Err NotAnObject)"

fun alpaca_rows :: "(string \<Rightarrow> f64 option) \<Rightarrow> InstrumentId \<Rightarrow> Duration \<Rightarrow> json list \<Rightarrow> (vendor_error, Bar list) result" where
  "alpaca_rows stod iid timeframe [] = Ok []"
| "alpaca_rows stod iid timeframe (row # rows) =
     (case alpaca_row stod iid timeframe row of
        Inl e \<Rightarrow> Err e
      | Inr bar \<Rightarrow> (case alpaca_rows stod iid timeframe rows of Inl e \<Rightarrow> Err e | Inr bars \<Rightarrow> Ok (bar # bars)))"

fun alpaca_symbols ::
    "(string \<Rightarrow> f64 option) \<Rightarrow> Duration \<Rightarrow> (string \<times> json) list \<Rightarrow> InstrumentTable
      \<Rightarrow> (vendor_error, Bar list) result \<times> InstrumentTable" where
  "alpaca_symbols stod timeframe [] t = (Ok [], t)"
| "alpaca_symbols stod timeframe ((symbol, rows) # rest) t =
     (case rows of
        JArray items \<Rightarrow>
          (let (iid, t1) = intern symbol t in
           case alpaca_rows stod iid timeframe items of
             Inl e \<Rightarrow> (Err e, t1)
           | Inr bars \<Rightarrow>
               (case alpaca_symbols stod timeframe rest t1 of
                  (Inl e, t2) \<Rightarrow> (Err e, t2)
                | (Inr more_bars, t2) \<Rightarrow> (Ok (bars @ more_bars), t2)))
      | _ \<Rightarrow> (Err (NotAnArray symbol), t))"

text \<open>
  The page of bars with the token of the page after it. The sort breaks ties by instrument and no further: the order of
  two bars of one instrument with one close is the library's, and the order they came in here.
\<close>

definition parse_alpaca_bars ::
    "(string \<Rightarrow> json option) \<Rightarrow> (string \<Rightarrow> f64 option) \<Rightarrow> string \<Rightarrow> Duration \<Rightarrow> InstrumentTable
      \<Rightarrow> (vendor_error, Bar list) result \<times> string \<times> InstrumentTable" where
  "parse_alpaca_bars parse stod payload timeframe t =
     (case parse payload of
        None \<Rightarrow> (Err MalformedJson, [], t)
      | Some (JObject m) \<Rightarrow>
          (let doc = JObject m; token = (case json_text doc ''next_page_token'' of Some s \<Rightarrow> s | None \<Rightarrow> []) in
           case json_member doc ''bars'' of
             None \<Rightarrow> (Err (NoMember ''bars''), token, t)
           | Some JNull \<Rightarrow> (Ok [], token, t)
           | Some (JObject symbols) \<Rightarrow>
               (case alpaca_symbols stod timeframe symbols t of
                  (Inl e, t1) \<Rightarrow> (Err e, token, t1)
                | (Inr bars, t1) \<Rightarrow> (Ok (bar_before bars), token, t1))
           | Some j \<Rightarrow> (Err NotASymbolMap, token, t))
      | Some j \<Rightarrow> (Err NotAnObject, [], t))"

record AlpacaProvider =
  app_cfg :: AlpacaConfig
  app_key_id :: string
  app_secret :: string

definition alpaca_identity :: "AlpacaProvider \<Rightarrow> ProviderIdentity" where
  "alpaca_identity p = \<lparr>pid_name = ''alpaca'', pid_feed = to_string_AlpacaFeed (apc_feed (app_cfg p)),
     pid_schema = ''ohlcv-1m'',
     pid_coverage = (if apc_feed (app_cfg p) = Sip then ''consolidated_sip_historical'' else ''single_venue_iex''),
     pid_dataset = []\<rparr>"

definition alpaca_capabilities :: "AlpacaProvider \<Rightarrow> CapabilitySet" where
  "alpaca_capabilities p =
     (let c0 = capability_set [HistoricalBars, HistoricalTrades, HistoricalQuotes, CorporateActions];
          c1 = (if apc_feed (app_cfg p) = Sip then cap_add ConsolidatedFeed c0 else c0) in
      if apc_realtime_entitled (app_cfg p)
      then cap_add RealtimeQuotes (cap_add RealtimeTrades (cap_add RealtimeBars c1)) else c1)"

definition alpaca_available_through :: "AlpacaProvider \<Rightarrow> Timestamp \<Rightarrow> Timestamp" where
  "alpaca_available_through p now =
     (if apc_realtime_entitled (app_cfg p) then kMaxTimestamp
      else if \<not> is_set now then kMaxTimestamp
      else now - apc_historical_end_delay (app_cfg p))"

definition alpaca_provider :: "AlpacaProvider \<Rightarrow> MarketDataProvider" where
  "alpaca_provider p = \<lparr>mdp_identity = alpaca_identity p, mdp_capabilities = alpaca_capabilities p,
     mdp_available_through = alpaca_available_through p\<rparr>"

definition with_query :: "(string \<times> string) list \<Rightarrow> HttpRequest \<Rightarrow> HttpRequest" where
  "with_query kvs r = r\<lparr>hrq_query := foldl (\<lambda>q (k, v). om_put k v q) (hrq_query r) kvs\<rparr>"

definition alpaca_request :: "AlpacaProvider \<Rightarrow> string \<Rightarrow> HttpRequest" where
  "alpaca_request p path = \<lparr>hrq_url = apc_base_url (app_cfg p) @ path,
     hrq_headers = om_put ''APCA-API-SECRET-KEY'' (app_secret p) (om_put ''APCA-API-KEY-ID'' (app_key_id p) []),
     hrq_query = []\<rparr>"

definition entitlement_probe_request :: "AlpacaProvider \<Rightarrow> HttpRequest" where
  "entitlement_probe_request p =
     with_query [(''symbols'', ''SPY''), (''timeframe'', ''1Min''), (''feed'', to_string_AlpacaFeed (apc_feed (app_cfg p))),
       (''start'', ''2024-01-02T14:30:00Z''), (''end'', ''2024-01-02T15:00:00Z'')] (alpaca_request p ''/v2/stocks/bars'')"

definition symbol_list :: "InstrumentTable \<Rightarrow> InstrumentId list \<Rightarrow> string" where
  "symbol_list t ids = joined '','' (map (\<lambda>i. symbol_of i t) ids)"

definition bars_page_request :: "AlpacaProvider \<Rightarrow> string \<Rightarrow> TimeRange \<Rightarrow> string \<Rightarrow> HttpRequest" where
  "bars_page_request p symbols window page_token =
     with_query ([(''symbols'', symbols), (''timeframe'', ''1Min''), (''feed'', to_string_AlpacaFeed (apc_feed (app_cfg p))),
       (''start'', to_iso8601 (tr_begin window)), (''end'', to_iso8601 (tr_end window)),
       (''limit'', dec_string (apc_page_limit (app_cfg p)))] @ (if page_token = [] then [] else [(''page_token'', page_token)]))
       (alpaca_request p ''/v2/stocks/bars'')"

definition sent :: "'w HttpTransport \<Rightarrow> HttpRequest \<Rightarrow> 'w \<Rightarrow> (vendor_error, string) result \<times> 'w" where
  "sent transport request w =
     (case transport request w of
        (Inl e, w') \<Rightarrow> (Err (TransportFailed e), w')
      | (Inr response, w') \<Rightarrow>
          (if http_ok response then Ok (hrs_body response) else Err (HttpStatus (hrs_status response) (hrs_body response)), w'))"

definition kMaxPages :: nat where
  "kMaxPages = 10000"

fun fetch_pages ::
    "(string \<Rightarrow> json option) \<Rightarrow> (string \<Rightarrow> f64 option) \<Rightarrow> 'w HttpTransport \<Rightarrow> AlpacaProvider \<Rightarrow> string \<Rightarrow> BarRequest
      \<Rightarrow> nat \<Rightarrow> string \<Rightarrow> Bar list \<Rightarrow> InstrumentTable \<times> 'w \<Rightarrow> (vendor_error, Bar list) result \<times> InstrumentTable \<times> 'w" where
  "fetch_pages parse stod transport p symbols request 0 page_token all_bars (t, w) = (Ok all_bars, t, w)"
| "fetch_pages parse stod transport p symbols request (Suc pages) page_token all_bars (t, w) =
     (case sent transport (bars_page_request p symbols (brq_range request) page_token) w of
        (Inl e, w1) \<Rightarrow> (Err e, t, w1)
      | (Inr body, w1) \<Rightarrow>
          (case parse_alpaca_bars parse stod body (brq_timeframe request) t of
             (Inl e, next_token, t1) \<Rightarrow> (Err e, t1, w1)
           | (Inr bars, next_token, t1) \<Rightarrow>
               if next_token = [] then (Ok (all_bars @ bars), t1, w1)
               else fetch_pages parse stod transport p symbols request pages next_token (all_bars @ bars) (t1, w1)))"

definition alpaca_fetch_bars ::
    "(string \<Rightarrow> json option) \<Rightarrow> (string \<Rightarrow> f64 option) \<Rightarrow> 'w HttpTransport \<Rightarrow> AlpacaProvider \<Rightarrow> BarRequest
      \<Rightarrow> InstrumentTable \<times> 'w \<Rightarrow> (vendor_error, Bar list) result \<times> InstrumentTable \<times> 'w" where
  "alpaca_fetch_bars parse stod transport p request tw =
     (if \<not> range_valid (brq_range request) then (Err InvalidRange, tw)
      else if brq_instruments request = [] then (Err NoInstruments, tw)
      else if brq_timeframe request \<noteq> minute_ns then (Err UnsupportedRequest, tw)
      else (case fetch_pages parse stod transport p (symbol_list (fst tw) (brq_instruments request)) request kMaxPages [] [] tw of
              (Inl e, tw') \<Rightarrow> (Err e, tw')
            | (Inr bars, tw') \<Rightarrow> (Ok (bar_before bars), tw')))"

definition alpaca_fetch_quotes :: "QuoteRequest \<Rightarrow> (vendor_error, Quote list) result" where
  "alpaca_fetch_quotes request = Err UnsupportedRequest"

definition minute_bar :: "Duration \<Rightarrow> Bar \<Rightarrow> bool" where
  "minute_bar timeframe b \<longleftrightarrow> bar_valid b \<and> bar_close_time b = bar_open_time b + timeframe \<and> ev_receive (bar_time b) = bar_close_time b"

lemma bar_from_left_edge_stamp:
  "bar_from_left_edge i ot tf op h l c v 0 = Ok b \<Longrightarrow> minute_bar tf b"
  by (auto simp: minute_bar_def bar_from_left_edge_def bar_make_valid split: if_splits)
    (auto simp: bar_make_def split: if_splits)

lemma alpaca_row_stamp: "alpaca_row stod i tf row = Ok b \<Longrightarrow> minute_bar tf b"
  by (auto simp: alpaca_row_def intro: bar_from_left_edge_stamp split: json.splits option.splits sum.splits)

lemma alpaca_rows_stamp: "alpaca_rows stod i tf rows = Ok bs \<Longrightarrow> list_all (minute_bar tf) bs"
  by (induction rows arbitrary: bs) (auto intro: alpaca_row_stamp split: sum.splits)

lemma alpaca_symbols_stamp: "alpaca_symbols stod tf symbols t = (Ok bs, t') \<Longrightarrow> list_all (minute_bar tf) bs"
proof (induction stod tf symbols t arbitrary: bs t' rule: alpaca_symbols.induct)
  case (2 stod tf symbol rows rest t)
  then obtain items where r: "rows = JArray items" by (cases rows) auto
  obtain iid t1 where i: "intern symbol t = (iid, t1)" by (cases "intern symbol t")
  from 2 r i obtain bars more where "alpaca_rows stod iid tf items = Ok bars"
      "alpaca_symbols stod tf rest t1 = (Ok more, t')" "bs = bars @ more"
    by (auto split: sum.splits prod.splits)
  then show ?case using "2.IH" r i by (auto simp: alpaca_rows_stamp)
qed simp

lemma set_bar_before [simp]: "list_all P (bar_before bs) \<longleftrightarrow> list_all P bs"
  by (simp add: bar_before_def list_all_iff)

lemma sorted_bar_before: "sorted (map bar_close_time (bar_before bs))"
proof -
  have "sorted (map (\<lambda>b. (bar_close_time b, unat (bar_instrument b))) (bar_before bs))" by (simp add: bar_before_def)
  then show ?thesis by (auto simp: sorted_wrt_map elim!: sorted_wrt_mono_rel [rotated])
qed

lemma parse_alpaca_stamp: "parse_alpaca_bars parse stod body tf t = (Ok bs, token, t') \<Longrightarrow> list_all (minute_bar tf) bs"
  by (auto simp: parse_alpaca_bars_def Let_def intro: alpaca_symbols_stamp
      split: option.splits json.splits sum.splits prod.splits)

lemma fetch_pages_stamp:
  "fetch_pages parse stod transport p symbols request pages token bars tw = (Ok bs, tw')
   \<Longrightarrow> list_all (minute_bar (brq_timeframe request)) bars \<Longrightarrow> list_all (minute_bar (brq_timeframe request)) bs"
proof (induction pages arbitrary: token bars tw)
  case 0
  then show ?case by (cases tw) simp
next
  case (Suc pages)
  obtain t w where tw: "tw = (t, w)" by (cases tw)
  with Suc.prems(1) obtain body w1 where s: "sent transport (bars_page_request p symbols (brq_range request) token) w = (Ok body, w1)"
    by (auto split: prod.splits sum.splits)
  with Suc.prems(1) tw obtain page next_token t1
    where pg: "parse_alpaca_bars parse stod body (brq_timeframe request) t = (Ok page, next_token, t1)"
    by (auto split: prod.splits sum.splits)
  then have "list_all (minute_bar (brq_timeframe request)) (bars @ page)"
    using parse_alpaca_stamp Suc.prems(2) by auto
  then show ?case using Suc s pg tw by (auto split: if_splits)
qed

text \<open>
  The bars Alpaca's adapter returns can be replayed. Whatever the venue answers, over however many pages, the result is
  an error or a chronological list of valid one-minute bars, each stamped at its close and not at the left edge the
  venue stamps it with.
\<close>

theorem alpaca_bars_are_stamped_at_their_close:
  "case fst (alpaca_fetch_bars parse stod transport p request tw) of
     Inl e \<Rightarrow> True
   | Inr bars \<Rightarrow> sorted (map bar_close_time bars)
       \<and> list_all (\<lambda>b. bar_valid b \<and> bar_close_time b = bar_open_time b + minute_ns \<and> ev_receive (bar_time b) = bar_close_time b) bars"
proof -
  have "list_all (minute_bar minute_ns) bs"
    if "fetch_pages parse stod transport p symbols request n [] [] tw = (Ok bs, tw')" "brq_timeframe request = minute_ns"
    for symbols n bs tw'
    using fetch_pages_stamp [OF that(1)] that(2) by simp
  then show ?thesis
    unfolding minute_bar_def [abs_def] by (auto simp: alpaca_fetch_bars_def sorted_bar_before split: sum.split prod.split)
qed

text \<open>
  The bound on the pages cuts without a word. A venue that always names a page to follow is asked ten thousand times, and
  what has arrived by then is returned as if it were all there is.
\<close>

lemma fetch_pages_endless:
  "parse body = Some (JObject [(''bars'', JNull), (''next_page_token'', JString ''next'')]) \<Longrightarrow>
   fetch_pages parse stod (\<lambda>r n. (Ok \<lparr>hrs_status = 200, hrs_body = body\<rparr>, n + 1)) p symbols request pages token [] (t, n)
     = (Ok [], t, n + pages)"
  by (induction pages arbitrary: token n)
    (simp_all add: sent_def http_ok_def parse_alpaca_bars_def json_member_def json_text_def om_find_Cons Let_def)

theorem an_endless_answer_looks_complete:
  "fetch_pages (\<lambda>s. Some (JObject [(''bars'', JNull), (''next_page_token'', JString ''next'')])) stod
     (\<lambda>r n. (Ok \<lparr>hrs_status = 200, hrs_body = []\<rparr>, n + 1)) p symbols request kMaxPages [] [] (t, 0 :: nat) = (Ok [], t, 10000)"
  by (subst fetch_pages_endless) (simp_all add: kMaxPages_def)

text \<open>
  Only the consolidated feed is claimed to be consolidated: the gate grants Alpaca a request for consolidated bars
  exactly on the SIP feed and, without the real-time plan, when the window ends before the withheld minutes.
\<close>

theorem alpaca_consolidated_only_on_sip:
  "erp_granted (gate_evaluate (alpaca_provider p)
      \<lparr>erq_required = capability_set [HistoricalBars, ConsolidatedFeed], erq_range = window, erq_now = t, erq_purpose = why\<rparr>)
   \<longleftrightarrow> apc_feed (app_cfg p) = Sip
     \<and> (if range_valid window \<and> is_set (alpaca_available_through p t) then tr_end window \<le> alpaca_available_through p t else True)"
proof -
  have "cap_has (alpaca_capabilities p) HistoricalBars"
    "cap_has (alpaca_capabilities p) ConsolidatedFeed \<longleftrightarrow> apc_feed (app_cfg p) = Sip"
    by (auto simp: alpaca_capabilities_def Let_def cap_has_ops cap_has_set)
  then show ?thesis
    using gate_grants_what_the_provider_has by (auto simp: gate_evaluate_def Let_def missing_none alpaca_provider_def)
qed

end
