(* ===== verification/Databento.thy ===== *)
theory Databento
  imports Vendor
begin

text \<open>
  The Databento adapter (\<open>databento/client, decoder, symbols, historical, live\<close>): symbology, the decoders of its
  payloads, the provider with its spend guard, the interleaving of quotes and bars, and the live quote source. As in
  \<open>Vendor\<close> the JSON parser and \<open>std::stod\<close> are parameters and transports are functions of an outside world.
\<close>

section \<open>Symbology\<close>

record SymbologyInterval =
  syi_raw_symbol :: string
  syi_instrument_id :: "32 word"
  syi_start_date :: string
  syi_end_date :: string

definition text_or_empty :: "json \<Rightarrow> string \<Rightarrow> string" where
  "text_or_empty j key = (case json_text j key of Some s \<Rightarrow> s | None \<Rightarrow> [])"

definition interval_id :: "string \<Rightarrow> json \<Rightarrow> (vendor_error, 32 word) result" where
  "interval_id symbol iv =
     (case json_member iv ''s'' of
        Some (JString s) \<Rightarrow> (case stoul s of None \<Rightarrow> Err (IncompleteInterval symbol) | Some v \<Rightarrow> Ok (word_of_int v))
      | Some (JInt n) \<Rightarrow> Ok (if 0 \<le> n then word_of_int n else 0)
      | _ \<Rightarrow> Ok 0)"

definition symbology_interval :: "string \<Rightarrow> json \<Rightarrow> (vendor_error, SymbologyInterval) result" where
  "symbology_interval symbol iv =
     (let start = text_or_empty iv ''d0''; finish = text_or_empty iv ''d1'' in
      case interval_id symbol iv of
        Inl e \<Rightarrow> Err e
      | Inr iid \<Rightarrow>
          if iid = 0 \<or> start = [] \<or> finish = [] then Err (IncompleteInterval symbol)
          else Ok \<lparr>syi_raw_symbol = symbol, syi_instrument_id = iid, syi_start_date = start, syi_end_date = finish\<rparr>)"

fun traverse :: "('a \<Rightarrow> ('e, 'b) result) \<Rightarrow> 'a list \<Rightarrow> ('e, 'b list) result" where
  "traverse f [] = Ok []"
| "traverse f (x # xs) =
     (case f x of Inl e \<Rightarrow> Err e | Inr y \<Rightarrow> (case traverse f xs of Inl e \<Rightarrow> Err e | Inr ys \<Rightarrow> Ok (y # ys)))"

definition symbol_intervals :: "string \<times> json \<Rightarrow> (vendor_error, SymbologyInterval list) result" where
  "symbol_intervals entry =
     (case snd entry of
        JArray ivs \<Rightarrow> traverse (symbology_interval (fst entry)) ivs
      | _ \<Rightarrow> Err (NotAnArray (fst entry)))"

definition parse_symbology :: "(string \<Rightarrow> json option) \<Rightarrow> string \<Rightarrow> (vendor_error, SymbologyInterval list) result" where
  "parse_symbology parse payload =
     (case parse payload of
        None \<Rightarrow> Err MalformedJson
      | Some doc \<Rightarrow>
          (case json_member doc ''result'' of
             Some (JObject entries) \<Rightarrow>
               (case traverse symbol_intervals entries of Inl e \<Rightarrow> Err e | Inr xss \<Rightarrow> Ok (concat xss))
           | _ \<Rightarrow> Err (NoMember ''result'')))"

fun load_symbology :: "SymbologyInterval list \<Rightarrow> nat \<Rightarrow> SymbolMapper \<Rightarrow> (vendor_error, nat) result \<times> SymbolMapper" where
  "load_symbology [] added sm = (Ok added, sm)"
| "load_symbology (iv # ivs) added sm =
     (case parse_date (syi_start_date iv) of
        None \<Rightarrow> (Err (UnparseableTime (syi_start_date iv)), sm)
      | Some start \<Rightarrow>
          (case parse_date (syi_end_date iv) of
             None \<Rightarrow> (Err (UnparseableTime (syi_end_date iv)), sm)
           | Some finish \<Rightarrow>
               (case mapper_add \<lparr>smp_raw_symbol = syi_raw_symbol iv, smp_instrument = kInvalidInstrument,
                       smp_vendor_id = syi_instrument_id iv, smp_valid_from = start, smp_valid_to = finish\<rparr> sm of
                  (Inl e, sm') \<Rightarrow> (Err (MappingRefused e), sm')
                | (Inr iid, sm') \<Rightarrow> load_symbology ivs (added + 1) sm')))"

section \<open>Decoding\<close>

datatype Schema = Cbbo1m | Cbbo1s | Ohlcv1m | TradesSchema | DefinitionSchema | CorporateActionsSchema

fun to_string_Schema :: "Schema \<Rightarrow> string" where
  "to_string_Schema Cbbo1m = ''cbbo-1m''"
| "to_string_Schema Cbbo1s = ''cbbo-1s''"
| "to_string_Schema Ohlcv1m = ''ohlcv-1m''"
| "to_string_Schema TradesSchema = ''trades''"
| "to_string_Schema DefinitionSchema = ''definition''"
| "to_string_Schema CorporateActionsSchema = ''corporate-actions''"

definition parse_schema :: "string \<Rightarrow> (vendor_error, Schema) result" where
  "parse_schema name =
     (if name = ''cbbo-1m'' then Ok Cbbo1m
      else if name = ''cbbo-1s'' then Ok Cbbo1s
      else if name = ''ohlcv-1m'' then Ok Ohlcv1m
      else if name = ''trades'' then Ok TradesSchema
      else if name = ''definition'' then Ok DefinitionSchema
      else if name = ''corporate-actions'' then Ok CorporateActionsSchema
      else if name = ''bbo-1m'' \<or> name = ''bbo-1s'' then Err (PublisherScoped name)
      else Err (UnknownSchema name))"

record DecoderStats =
  dcs_records_read :: nat
  dcs_records_decoded :: nat
  dcs_records_rejected :: nat

record Decoder =
  dcd_cfg :: QuoteNormaliserConfig
  dcd_normaliser :: QuoteNormaliserStats
  dcd_stats :: DecoderStats

definition nothing_decoded :: DecoderStats where
  "nothing_decoded = \<lparr>dcs_records_read = 0, dcs_records_decoded = 0, dcs_records_rejected = 0\<rparr>"

definition new_decoder :: "QuoteNormaliserConfig \<Rightarrow> Decoder" where
  "new_decoder cfg = \<lparr>dcd_cfg = cfg, dcd_normaliser = no_quotes_seen, dcd_stats = nothing_decoded\<rparr>"

definition decoder_reset :: "Decoder \<Rightarrow> Decoder" where
  "decoder_reset d = d\<lparr>dcd_stats := nothing_decoded, dcd_normaliser := no_quotes_seen\<rparr>"

definition parse_records :: "(string \<Rightarrow> json option) \<Rightarrow> string \<Rightarrow> (vendor_error, json list) result" where
  "parse_records parse payload =
     (case parse payload of
        None \<Rightarrow> Err MalformedJson
      | Some (JArray recs) \<Rightarrow> Ok recs
      | Some doc \<Rightarrow> (case json_member doc ''records'' of Some (JArray recs) \<Rightarrow> Ok recs | _ \<Rightarrow> Err (NoMember ''records'')))"

definition was_read :: "DecoderStats \<Rightarrow> DecoderStats" where
  "was_read st = st\<lparr>dcs_records_read := dcs_records_read st + 1\<rparr>"

definition was_rejected :: "DecoderStats \<Rightarrow> DecoderStats" where
  "was_rejected st = st\<lparr>dcs_records_rejected := dcs_records_rejected st + 1\<rparr>"

definition were_decoded :: "nat \<Rightarrow> DecoderStats \<Rightarrow> DecoderStats" where
  "were_decoded n st = st\<lparr>dcs_records_decoded := dcs_records_decoded st + n\<rparr>"

definition raw_quote :: "json \<Rightarrow> (vendor_error, RawQuote) result" where
  "raw_quote rec =
     (case rec of
        JObject m \<Rightarrow>
          (case (read_i64 rec ''instrument_id'', read_i64 rec ''ts_recv'') of
             (Some instrument_id, Some ts) \<Rightarrow>
               (case (read_i64 rec ''bid_px'', read_i64 rec ''ask_px'') of
                  (Some bid, Some ask) \<Rightarrow>
                    (let bid_sz = (case read_i64 rec ''bid_sz'' of Some n \<Rightarrow> n | None \<Rightarrow> 0);
                         ask_sz = (case read_i64 rec ''ask_sz'' of Some n \<Rightarrow> n | None \<Rightarrow> 0) in
                     Ok \<lparr>rwq_vendor_instrument_id = word_of_int instrument_id, rwq_exchange_time_ns = ts,
                         rwq_bid_price_fixed = bid, rwq_ask_price_fixed = ask,
                         rwq_bid_size = word_of_int (max 0 bid_sz), rwq_ask_size = word_of_int (max 0 ask_sz)\<rparr>)
                | _ \<Rightarrow> Err (NoMember ''px''))
           | _ \<Rightarrow> Err (NoMember ''instrument_id''))
      | _ \<Rightarrow> Err NotAnObject)"

fun raw_quotes :: "json list \<Rightarrow> DecoderStats \<Rightarrow> (vendor_error, RawQuote list) result \<times> DecoderStats" where
  "raw_quotes [] st = (Ok [], st)"
| "raw_quotes (rec # recs) st =
     (case raw_quote rec of
        Inl e \<Rightarrow> (Err e, was_rejected (was_read st))
      | Inr raw \<Rightarrow>
          (case raw_quotes recs (was_read st) of
             (Inl e, st') \<Rightarrow> (Err e, st')
           | (Inr raws, st') \<Rightarrow> (Ok (raw # raws), st')))"

definition decode_quotes ::
    "(string \<Rightarrow> json option) \<Rightarrow> SymbolMapper \<Rightarrow> string \<Rightarrow> Decoder \<Rightarrow> (vendor_error, Quote list) result \<times> Decoder" where
  "decode_quotes parse sm payload d =
     (case parse_records parse payload of
        Inl e \<Rightarrow> (Err e, d)
      | Inr recs \<Rightarrow>
          (case raw_quotes recs (dcd_stats d) of
             (Inl e, st) \<Rightarrow> (Err e, d\<lparr>dcd_stats := st\<rparr>)
           | (Inr raws, st) \<Rightarrow>
               (case normalise_batch (dcd_cfg d) sm raws (dcd_normaliser d) of
                  (Inl i, ns) \<Rightarrow> (Err (BackwardQuote i), d\<lparr>dcd_stats := st, dcd_normaliser := ns\<rparr>)
                | (Inr quotes, ns) \<Rightarrow>
                    (Ok quotes, d\<lparr>dcd_stats := were_decoded (length quotes) st, dcd_normaliser := ns\<rparr>))))"

text \<open>
  The loop of the other decoders: a record is decoded, rejected and passed over (\<open>None\<close>), or ends the decoding with an
  error.
\<close>

fun decode_records ::
    "(json \<Rightarrow> (vendor_error, 'a option) result) \<Rightarrow> json list \<Rightarrow> DecoderStats \<Rightarrow> (vendor_error, 'a list) result \<times> DecoderStats"
    where
  "decode_records f [] st = (Ok [], st)"
| "decode_records f (rec # recs) st =
     (case f rec of
        Inl e \<Rightarrow> (Err e, was_rejected (was_read st))
      | Inr None \<Rightarrow> decode_records f recs (was_rejected (was_read st))
      | Inr (Some x) \<Rightarrow>
          (case decode_records f recs (were_decoded 1 (was_read st)) of
             (Inl e, st') \<Rightarrow> (Err e, st')
           | (Inr xs, st') \<Rightarrow> (Ok (x # xs), st')))"

definition decode_payload ::
    "(string \<Rightarrow> json option) \<Rightarrow> (json \<Rightarrow> (vendor_error, 'a option) result) \<Rightarrow> string \<Rightarrow> Decoder
      \<Rightarrow> (vendor_error, 'a list) result \<times> Decoder" where
  "decode_payload parse f payload d =
     (case parse_records parse payload of
        Inl e \<Rightarrow> (Err e, d)
      | Inr recs \<Rightarrow> (let (r, st) = decode_records f recs (dcd_stats d) in (r, d\<lparr>dcd_stats := st\<rparr>)))"

text \<open>The instrument of a record at an instant; a record of no instrument is passed over.\<close>

definition record_instrument :: "SymbolMapper \<Rightarrow> int \<Rightarrow> int \<Rightarrow> InstrumentId option" where
  "record_instrument sm instrument_id ts = resolve_vendor_id (word_of_int instrument_id) ts sm"

definition decode_bar :: "(string \<Rightarrow> f64 option) \<Rightarrow> SymbolMapper \<Rightarrow> Duration \<Rightarrow> json \<Rightarrow> (vendor_error, Bar option) result" where
  "decode_bar stod sm timeframe rec =
     (case (read_i64 rec ''instrument_id'', read_i64 rec ''ts_event'') of
        (Some instrument_id, Some left_edge) \<Rightarrow>
          (case record_instrument sm instrument_id left_edge of
             None \<Rightarrow> Ok None
           | Some instrument \<Rightarrow>
               (case (read_number stod rec ''open'', read_number stod rec ''high'', read_number stod rec ''low'',
                      read_number stod rec ''close'') of
                  (Some op, Some h, Some l, Some c) \<Rightarrow>
                    (let v = (case read_number stod rec ''volume'' of Some v \<Rightarrow> v | None \<Rightarrow> fzero) in
                     case bar_from_left_edge instrument left_edge timeframe op h l c v 0 of
                       Inl e \<Rightarrow> Err (RejectedBar e)
                     | Inr bar \<Rightarrow> Ok (Some bar))
                | _ \<Rightarrow> Err (NoMember ''ohlc'')))
      | _ \<Rightarrow> Err (NoMember ''instrument_id''))"

definition decode_bars ::
    "(string \<Rightarrow> json option) \<Rightarrow> (string \<Rightarrow> f64 option) \<Rightarrow> SymbolMapper \<Rightarrow> string \<Rightarrow> Duration \<Rightarrow> Decoder
      \<Rightarrow> (vendor_error, Bar list) result \<times> Decoder" where
  "decode_bars parse stod sm payload timeframe d =
     (case parse_records parse payload of
        Inl e \<Rightarrow> (Err e, d)
      | Inr recs \<Rightarrow>
          if timeframe \<le> 0 then (Err InvalidRange, d)
          else (case decode_payload parse (decode_bar stod sm timeframe) payload d of
                  (Inl e, d') \<Rightarrow> (Err e, d')
                | (Inr bars, d') \<Rightarrow> (Ok (bar_before bars), d')))"

definition decode_trade :: "SymbolMapper \<Rightarrow> json \<Rightarrow> (vendor_error, TradePrint option) result" where
  "decode_trade sm rec =
     (case (read_i64 rec ''instrument_id'', read_i64 rec ''ts_recv'', read_i64 rec ''price'', read_i64 rec ''size'') of
        (Some instrument_id, Some ts, Some px, Some sz) \<Rightarrow>
          (case record_instrument sm instrument_id ts of
             None \<Rightarrow> Ok None
           | Some instrument \<Rightarrow>
               (case trade_create instrument ts (fmul (of_int64 px) (lit (1 / 10 ^ 9))) (of_int64 sz) None 0 of
                  Inl e \<Rightarrow> Ok None
                | Inr trade \<Rightarrow> Ok (Some trade)))
      | _ \<Rightarrow> Err (NoMember ''instrument_id''))"

definition decode_trades ::
    "(string \<Rightarrow> json option) \<Rightarrow> SymbolMapper \<Rightarrow> string \<Rightarrow> Decoder \<Rightarrow> (vendor_error, TradePrint list) result \<times> Decoder" where
  "decode_trades parse sm payload d = decode_payload parse (decode_trade sm) payload d"

record InstrumentDefinition =
  idf_instrument_id :: "32 word"
  idf_raw_symbol :: string
  idf_exchange :: string
  idf_asset_class :: string
  idf_min_price_increment :: f64
  idf_lot_size :: "32 word"

definition decode_definition :: "(string \<Rightarrow> f64 option) \<Rightarrow> json \<Rightarrow> (vendor_error, InstrumentDefinition option) result" where
  "decode_definition stod rec =
     (case read_i64 rec ''instrument_id'' of
        None \<Rightarrow> Err (NoMember ''instrument_id'')
      | Some iid \<Rightarrow>
          (case json_text rec ''raw_symbol'' of
             None \<Rightarrow> Err (NoMember ''raw_symbol'')
           | Some raw_symbol \<Rightarrow>
               Ok (Some \<lparr>idf_instrument_id = word_of_int iid, idf_raw_symbol = raw_symbol,
                 idf_exchange = text_or_empty rec ''exchange'', idf_asset_class = text_or_empty rec ''asset_class'',
                 idf_min_price_increment = (case read_number stod rec ''min_price_increment'' of Some x \<Rightarrow> x | None \<Rightarrow> lit (1 / 100)),
                 idf_lot_size = (case read_i64 rec ''lot_size'' of Some n \<Rightarrow> if 0 < n then word_of_int n else 1 | None \<Rightarrow> 1)\<rparr>)))"

definition decode_definitions ::
    "(string \<Rightarrow> json option) \<Rightarrow> (string \<Rightarrow> f64 option) \<Rightarrow> string \<Rightarrow> Decoder
      \<Rightarrow> (vendor_error, InstrumentDefinition list) result \<times> Decoder" where
  "decode_definitions parse stod payload d = decode_payload parse (decode_definition stod) payload d"

definition decode_action :: "(string \<Rightarrow> f64 option) \<Rightarrow> SymbolMapper \<Rightarrow> json \<Rightarrow> (vendor_error, CorporateAction option) result" where
  "decode_action stod sm rec =
     (case (read_i64 rec ''instrument_id'', read_i64 rec ''ts_event'') of
        (Some instrument_id, Some effective) \<Rightarrow>
          (case record_instrument sm instrument_id effective of
             None \<Rightarrow> Ok None
           | Some instrument \<Rightarrow>
               (let kind = text_or_empty rec ''action'';
                    made = (\<lambda>r. case r of Inl e \<Rightarrow> Err (RejectedAction e) | Inr a \<Rightarrow> Ok (Some a)) in
                if kind = ''split''
                then (case read_number stod rec ''ratio'' of
                        None \<Rightarrow> Err (NoMember ''ratio'')
                      | Some ratio \<Rightarrow> made (action_split instrument effective ratio))
                else if kind = ''dividend'' \<or> kind = ''cash_dividend''
                then (case read_number stod rec ''amount'' of
                        None \<Rightarrow> Err (NoMember ''amount'')
                      | Some amount \<Rightarrow> made (action_cash_dividend instrument effective amount))
                else Err (UnknownAction kind)))
      | _ \<Rightarrow> Err (NoMember ''instrument_id''))"

definition decode_corporate_actions ::
    "(string \<Rightarrow> json option) \<Rightarrow> (string \<Rightarrow> f64 option) \<Rightarrow> SymbolMapper \<Rightarrow> string \<Rightarrow> Decoder
      \<Rightarrow> (vendor_error, CorporateAction list) result \<times> Decoder" where
  "decode_corporate_actions parse stod sm payload d = decode_payload parse (decode_action stod sm) payload d"

section \<open>The provider and its spend guard\<close>

record DatabentoConfig =
  dbc_base_url :: string
  dbc_dataset :: string
  dbc_schema :: Schema
  dbc_max_spend_usd :: f64
  dbc_allow_spend_override :: bool
  dbc_realtime_entitled :: bool

definition default_databento_config :: DatabentoConfig where
  "default_databento_config = \<lparr>dbc_base_url = ''https://hist.databento.com'', dbc_dataset = ''EQUS.SUMMARY'',
     dbc_schema = Cbbo1m, dbc_max_spend_usd = lit 25, dbc_allow_spend_override = False, dbc_realtime_entitled = False\<rparr>"

record CostEstimate =
  cse_usd :: f64
  cse_bytes :: "64 word"
  cse_record_count :: "64 word"
  cse_estimated :: bool

record DatabentoProvider =
  dbp_cfg :: DatabentoConfig
  dbp_secret :: string

definition databento_identity :: "DatabentoProvider \<Rightarrow> ProviderIdentity" where
  "databento_identity p = \<lparr>pid_name = ''databento'', pid_feed = ''consolidated'',
     pid_schema = to_string_Schema (dbc_schema (dbp_cfg p)), pid_coverage = ''consolidated_cbbo'',
     pid_dataset = dbc_dataset (dbp_cfg p)\<rparr>"

definition databento_capabilities :: "DatabentoProvider \<Rightarrow> CapabilitySet" where
  "databento_capabilities p =
     (let c0 = capability_set [HistoricalQuotes, HistoricalTrades, HistoricalBars, ConsolidatedFeed];
          c1 = (if dbc_schema (dbp_cfg p) = Cbbo1m \<or> dbc_schema (dbp_cfg p) = Cbbo1s then cap_add SampledQuotes c0 else c0);
          c2 = (if dbc_schema (dbp_cfg p) = CorporateActionsSchema then cap_add CorporateActions c1 else c1) in
      if dbc_realtime_entitled (dbp_cfg p) then cap_add RealtimeTrades (cap_add RealtimeQuotes c2) else c2)"

definition databento_available_through :: "DatabentoProvider \<Rightarrow> Timestamp \<Rightarrow> Timestamp" where
  "databento_available_through p now = (if dbc_realtime_entitled (dbp_cfg p) then kMaxTimestamp else now)"

definition databento_provider :: "DatabentoProvider \<Rightarrow> MarketDataProvider" where
  "databento_provider p = \<lparr>mdp_identity = databento_identity p, mdp_capabilities = databento_capabilities p,
     mdp_available_through = databento_available_through p\<rparr>"

definition databento_request :: "DatabentoProvider \<Rightarrow> string \<Rightarrow> HttpRequest" where
  "databento_request p path = \<lparr>hrq_url = dbc_base_url (dbp_cfg p) @ path,
     hrq_headers = om_put ''Authorization'' (''Bearer '' @ dbp_secret p) [], hrq_query = []\<rparr>"

definition schema_probe_request :: "DatabentoProvider \<Rightarrow> HttpRequest" where
  "schema_probe_request p =
     with_query [(''dataset'', dbc_dataset (dbp_cfg p))] (databento_request p ''/v0/metadata.list_schemas'')"

definition range_query :: "DatabentoProvider \<Rightarrow> string \<Rightarrow> string \<Rightarrow> TimeRange \<Rightarrow> (string \<times> string) list" where
  "range_query p schema symbols window =
     [(''dataset'', dbc_dataset (dbp_cfg p)), (''schema'', schema), (''symbols'', symbols),
      (''start'', to_iso8601 (tr_begin window)), (''end'', to_iso8601 (tr_end window))]"

definition cost_request :: "DatabentoProvider \<Rightarrow> InstrumentTable \<Rightarrow> QuoteRequest \<Rightarrow> HttpRequest" where
  "cost_request p t request =
     with_query (range_query p (to_string_Schema (dbc_schema (dbp_cfg p))) (symbol_list t (qrq_instruments request)) (qrq_range request))
       (databento_request p ''/v0/metadata.get_cost'')"

definition quotes_request :: "DatabentoProvider \<Rightarrow> InstrumentTable \<Rightarrow> QuoteRequest \<Rightarrow> HttpRequest" where
  "quotes_request p t request =
     with_query (range_query p (to_string_Schema (dbc_schema (dbp_cfg p))) (symbol_list t (qrq_instruments request)) (qrq_range request)
       @ [(''encoding'', ''json'')]) (databento_request p ''/v0/timeseries.get_range'')"

definition bars_request :: "DatabentoProvider \<Rightarrow> InstrumentTable \<Rightarrow> BarRequest \<Rightarrow> HttpRequest" where
  "bars_request p t request =
     with_query (range_query p ''ohlcv-1m'' (symbol_list t (brq_instruments request)) (brq_range request)
       @ [(''encoding'', ''json'')]) (databento_request p ''/v0/timeseries.get_range'')"

definition json_number :: "json \<Rightarrow> f64 option" where
  "json_number j = (case j of JInt n \<Rightarrow> Some (of_int64 n) | JFloat d \<Rightarrow> Some d | _ \<Rightarrow> None)"

definition number_member :: "json \<Rightarrow> string \<Rightarrow> f64 option" where
  "number_member j key = Option.bind (json_member j key) json_number"

definition unsigned_member :: "json \<Rightarrow> string \<Rightarrow> 64 word" where
  "unsigned_member j key = (case json_member j key of Some (JInt n) \<Rightarrow> if 0 \<le> n then word_of_int n else 0 | _ \<Rightarrow> 0)"

definition read_estimate :: "json \<Rightarrow> (vendor_error, CostEstimate) result" where
  "read_estimate doc =
     (case json_number doc of
        Some usd \<Rightarrow> Ok \<lparr>cse_usd = usd, cse_bytes = 0, cse_record_count = 0, cse_estimated = True\<rparr>
      | None \<Rightarrow>
          (case doc of
             JObject m \<Rightarrow>
               (case (if number_member doc ''cost'' \<noteq> None then number_member doc ''cost'' else number_member doc ''total_cost'') of
                  None \<Rightarrow> Err (NoMember ''cost'')
                | Some usd \<Rightarrow> Ok \<lparr>cse_usd = usd, cse_bytes = unsigned_member doc ''size'',
                    cse_record_count = unsigned_member doc ''record_count'', cse_estimated = True\<rparr>)
           | _ \<Rightarrow> Err NotAnObject))"

definition estimate_cost ::
    "(string \<Rightarrow> json option) \<Rightarrow> 'w HttpTransport \<Rightarrow> DatabentoProvider \<Rightarrow> InstrumentTable \<Rightarrow> QuoteRequest \<Rightarrow> 'w
      \<Rightarrow> (vendor_error, CostEstimate) result \<times> 'w" where
  "estimate_cost parse transport p t request w =
     (if \<not> range_valid (qrq_range request) then (Err InvalidRange, w)
      else (case sent transport (cost_request p t request) w of
              (Inl e, w1) \<Rightarrow> (Err e, w1)
            | (Inr body, w1) \<Rightarrow> (case parse body of None \<Rightarrow> (Err MalformedJson, w1) | Some doc \<Rightarrow> (read_estimate doc, w1))))"

definition enforce_spend_guard :: "DatabentoProvider \<Rightarrow> CostEstimate \<Rightarrow> (vendor_error, CostEstimate) result" where
  "enforce_spend_guard p estimate =
     (if \<not> cse_estimated estimate then Err UnusableEstimate
      else if \<not> is_finite (cse_usd estimate) \<or> flt (cse_usd estimate) fzero then Err UnusableEstimate
      else if flt (dbc_max_spend_usd (dbp_cfg p)) (cse_usd estimate) \<and> \<not> dbc_allow_spend_override (dbp_cfg p)
      then Err (SpendRefused (cse_usd estimate))
      else Ok estimate)"

definition databento_fetch_quotes ::
    "(string \<Rightarrow> json option) \<Rightarrow> 'w HttpTransport \<Rightarrow> DatabentoProvider \<Rightarrow> InstrumentTable \<Rightarrow> SymbolMapper \<Rightarrow> QuoteRequest \<Rightarrow> 'w
      \<Rightarrow> (vendor_error, Quote list) result \<times> 'w" where
  "databento_fetch_quotes parse transport p t sm request w =
     (if \<not> range_valid (qrq_range request) then (Err InvalidRange, w)
      else if qrq_instruments request = [] then (Err NoInstruments, w)
      else if dbc_schema (dbp_cfg p) \<noteq> Cbbo1m \<and> dbc_schema (dbp_cfg p) \<noteq> Cbbo1s then (Err UnsupportedRequest, w)
      else (case estimate_cost parse transport p t request w of
              (Inl e, w1) \<Rightarrow> (Err e, w1)
            | (Inr estimate, w1) \<Rightarrow>
                (case enforce_spend_guard p estimate of
                   Inl e \<Rightarrow> (Err e, w1)
                 | Inr approved \<Rightarrow>
                     (case sent transport (quotes_request p t request) w1 of
                        (Inl e, w2) \<Rightarrow> (Err e, w2)
                      | (Inr body, w2) \<Rightarrow>
                          (fst (decode_quotes parse sm body (new_decoder default_normaliser_config)), w2)))))"

definition databento_fetch_bars ::
    "(string \<Rightarrow> json option) \<Rightarrow> (string \<Rightarrow> f64 option) \<Rightarrow> 'w HttpTransport \<Rightarrow> DatabentoProvider \<Rightarrow> InstrumentTable
      \<Rightarrow> SymbolMapper \<Rightarrow> BarRequest \<Rightarrow> 'w \<Rightarrow> (vendor_error, Bar list) result \<times> 'w" where
  "databento_fetch_bars parse stod transport p t sm request w =
     (if \<not> range_valid (brq_range request) then (Err InvalidRange, w)
      else if dbc_schema (dbp_cfg p) \<noteq> Ohlcv1m then (Err UnsupportedRequest, w)
      else (case sent transport (bars_request p t request) w of
              (Inl e, w1) \<Rightarrow> (Err e, w1)
            | (Inr body, w1) \<Rightarrow>
                (fst (decode_bars parse stod sm body (brq_timeframe request) (new_decoder default_normaliser_config)), w1)))"

text \<open>A transport that remembers what it was asked.\<close>

definition logged :: "'w HttpTransport \<Rightarrow> (HttpRequest list \<times> 'w) HttpTransport" where
  "logged transport r lw = (let (answer, w') = transport r (snd lw) in (answer, (fst lw @ [r], w')))"

definition affordable :: "DatabentoProvider \<Rightarrow> CostEstimate \<Rightarrow> bool" where
  "affordable p e \<longleftrightarrow> cse_estimated e \<and> is_finite (cse_usd e) \<and> \<not> flt (cse_usd e) fzero
     \<and> (dbc_allow_spend_override (dbp_cfg p) \<or> \<not> flt (dbc_max_spend_usd (dbp_cfg p)) (cse_usd e))"

lemma enforce_iff: "enforce_spend_guard p e = Ok e' \<longleftrightarrow> affordable p e \<and> e' = e"
  by (auto simp: enforce_spend_guard_def affordable_def)

lemma logged_log: "snd (sent (logged transport) r (rs, w)) = (rs @ [r], snd (transport r w))"
  by (auto simp: sent_def logged_def Let_def split: prod.split sum.split)

lemma estimate_log:
  "snd (estimate_cost parse (logged transport) p t request ([], w))
   = (if range_valid (qrq_range request) then ([cost_request p t request], snd (transport (cost_request p t request) w)) else ([], w))"
  using logged_log [of transport "cost_request p t request" "[]" w]
  by (auto simp: estimate_cost_def split: prod.splits sum.splits option.splits)

text \<open>
  C33: No quote is downloaded before its cost is approved. A fetch sends nothing, or the request for an estimate alone, or
  that request and then the download, and the last only when the vendor's estimate is a finite amount, not negative, and
  within the maximum unless the override is set.
\<close>

theorem no_download_above_the_spend_guard:
  "case fst (snd (databento_fetch_quotes parse (logged transport) p t sm request ([], w))) of
     [] \<Rightarrow> True
   | [r] \<Rightarrow> r = cost_request p t request
   | [r1, r2] \<Rightarrow> r1 = cost_request p t request \<and> r2 = quotes_request p t request
       \<and> (case fst (estimate_cost parse (logged transport) p t request ([], w)) of Inl e \<Rightarrow> False | Inr e \<Rightarrow> affordable p e)
   | _ \<Rightarrow> False"
proof (cases "range_valid (qrq_range request)")
  case True
  obtain est lw where e: "estimate_cost parse (logged transport) p t request ([], w) = (est, lw)"
    by (cases "estimate_cost parse (logged transport) p t request ([], w)")
  then have lw: "lw = ([cost_request p t request], snd (transport (cost_request p t request) w))"
    using estimate_log [of parse transport p t request w] True by simp
  then show ?thesis
    using True e enforce_iff logged_log [of transport "quotes_request p t request" "fst lw" "snd lw"]
    by (auto simp: databento_fetch_quotes_def split: sum.split prod.split)
qed (simp add: databento_fetch_quotes_def)

text \<open>
  Bars are downloaded with no such guard: for a valid range under the bar schema the adapter sends the download as its
  only request, whatever the maximum is and without asking what it costs.
\<close>

theorem bars_are_downloaded_without_an_estimate:
  "fst (snd (databento_fetch_bars parse stod (logged transport) p t sm request ([], w)))
   = (if range_valid (brq_range request) \<and> dbc_schema (dbp_cfg p) = Ohlcv1m then [bars_request p t request] else [])"
  using logged_log [of transport "bars_request p t request" "[]" w]
  by (auto simp: databento_fetch_bars_def split: prod.splits sum.splits)

text \<open>
  The provider claims more than it serves. It always has the capabilities of historical quotes and of historical bars, so
  the gate grants a request for both, and under any schema one of the two fetches is refused without asking the vendor.
\<close>

theorem one_of_the_claimed_feeds_is_refused:
  "erp_granted (gate_evaluate (databento_provider p)
      \<lparr>erq_required = capability_set [HistoricalQuotes, HistoricalBars], erq_range = window, erq_now = kMaxTimestamp, erq_purpose = why\<rparr>)
     = (if range_valid window then tr_end window \<le> kMaxTimestamp else True)
   \<and> (is_ok (fst (databento_fetch_quotes parse transport p t sm quotes w)) \<and> is_ok (fst (databento_fetch_bars parse stod transport' p t sm bars w')))
     = False"
proof -
  have caps: "cap_has (databento_capabilities p) HistoricalQuotes" "cap_has (databento_capabilities p) HistoricalBars"
    by (auto simp: databento_capabilities_def Let_def cap_has_ops cap_has_set)
  have through: "databento_available_through p kMaxTimestamp = kMaxTimestamp" "is_set kMaxTimestamp"
    by (simp_all add: databento_available_through_def is_set_def kMaxTimestamp_def kNoTimestamp_def)
  have "\<not> (is_ok (fst (databento_fetch_quotes parse transport p t sm quotes w))
      \<and> is_ok (fst (databento_fetch_bars parse stod transport' p t sm bars w')))"
    by (cases "dbc_schema (dbp_cfg p) = Ohlcv1m") (simp_all add: databento_fetch_quotes_def databento_fetch_bars_def)
  then show ?thesis
    using caps through by (auto simp: gate_evaluate_def Let_def missing_none databento_provider_def)
qed

text \<open>
  A number is cut to the width of its field, not checked against it: an instrument identifier of 2 to the 32 plus 7 is
  read as 7, and a displayed size of 2 to the 32 as nothing.
\<close>

theorem wide_numbers_are_cut:
  "raw_quote (JObject [(''ask_px'', JInt 2), (''bid_px'', JInt 1), (''bid_sz'', JInt (2 ^ 32)),
     (''instrument_id'', JInt (2 ^ 32 + 7)), (''ts_recv'', JInt 5)])
   = Ok \<lparr>rwq_vendor_instrument_id = 7, rwq_exchange_time_ns = 5, rwq_bid_price_fixed = 1, rwq_ask_price_fixed = 2,
       rwq_bid_size = 0, rwq_ask_size = 0\<rparr>"
  by (simp add: raw_quote_def read_i64_def json_member_def om_find_Cons)

section \<open>Interleaving quotes and bars\<close>

fun interleave :: "Quote list \<Rightarrow> Bar list \<Rightarrow> MarketEvent list" where
  "interleave [] bars = map BarEv bars"
| "interleave quotes [] = map QuoteEv quotes"
| "interleave (q # quotes) (b # bars) =
     (if ev_exchange (q_time q) \<le> bar_close_time b then QuoteEv q # interleave quotes (b # bars)
      else BarEv b # interleave (q # quotes) bars)"

definition merge_quotes_and_bars :: "Quote list \<Rightarrow> Bar list \<Rightarrow> (vendor_error, MarketEvent list) result" where
  "merge_quotes_and_bars quotes bars =
     (case first_backward (map (\<lambda>q. ev_exchange (q_time q)) quotes) 1 of
        Some i \<Rightarrow> Err (BackwardQuote i)
      | None \<Rightarrow>
          (case first_backward (map bar_close_time bars) 1 of
             Some i \<Rightarrow> Err (BackwardBar i)
           | None \<Rightarrow> Ok (interleave quotes bars)))"

definition build_replay_events :: "Quote list \<Rightarrow> Bar list \<Rightarrow> Calendar \<Rightarrow> (vendor_error, MarketEvent list) result" where
  "build_replay_events quotes bars cal =
     (case merge_quotes_and_bars quotes bars of
        Inl e \<Rightarrow> Err e
      | Inr merged \<Rightarrow> (case with_session_events merged cal of Inl e \<Rightarrow> Err (NotBracketed e) | Inr es \<Rightarrow> Ok es))"

text \<open>The place of an event in the merge: its instant, and quotes before bars at the same instant.\<close>

fun merge_key :: "MarketEvent \<Rightarrow> Timestamp \<times> nat" where
  "merge_key (BarEv b) = (bar_close_time b, 1)"
| "merge_key e = (exchange_time_of e, 0)"

definition quotes_of :: "MarketEvent list \<Rightarrow> Quote list" where
  "quotes_of es = concat (map (\<lambda>e. case e of QuoteEv q \<Rightarrow> [q] | _ \<Rightarrow> []) es)"

definition bars_of :: "MarketEvent list \<Rightarrow> Bar list" where
  "bars_of es = concat (map (\<lambda>e. case e of BarEv b \<Rightarrow> [b] | _ \<Rightarrow> []) es)"

lemma parts_of_simps [simp]:
  "quotes_of [] = []" "quotes_of (QuoteEv q # es) = q # quotes_of es" "quotes_of (BarEv b # es) = quotes_of es"
  "bars_of [] = []" "bars_of (QuoteEv q # es) = bars_of es" "bars_of (BarEv b # es) = b # bars_of es"
  by (simp_all add: quotes_of_def bars_of_def)

lemma parts_of_maps [simp]:
  "quotes_of (map BarEv bs) = []" "bars_of (map BarEv bs) = bs" "quotes_of (map QuoteEv qs) = qs" "bars_of (map QuoteEv qs) = []"
  by (induction bs) (simp_all, (induction qs, simp_all)+)

lemma interleave_parts: "quotes_of (interleave qs bs) = qs" "bars_of (interleave qs bs) = bs"
  by (induction qs bs rule: interleave.induct) simp_all

lemma interleave_set: "set (interleave qs bs) = QuoteEv ` set qs \<union> BarEv ` set bs"
  by (induction qs bs rule: interleave.induct) auto

lemma interleave_sorted:
  "sorted (map (\<lambda>q. ev_exchange (q_time q)) qs) \<Longrightarrow> sorted (map bar_close_time bs) \<Longrightarrow> sorted (map merge_key (interleave qs bs))"
proof (induction qs bs rule: interleave.induct)
  case (1 bs)
  then show ?case by (induction bs) auto
next
  case (2 q qs)
  then show ?case by (induction qs arbitrary: q) auto
next
  case (3 q qs b bs)
  then show ?case by (fastforce simp: interleave_set)
qed

text \<open>
  C26: Interleaving keeps everything and its order. Two series are refused exactly when one is not chronological; otherwise
  the stream holds every quote and every bar once, each kind in the order it came in, it runs in time, and of a quote and
  a bar closing at the same instant the quote comes first.
\<close>

theorem interleaving_puts_quotes_first:
  "case merge_quotes_and_bars quotes bars of
     Inl e \<Rightarrow> \<not> (sorted (map (\<lambda>q. ev_exchange (q_time q)) quotes) \<and> sorted (map bar_close_time bars))
   | Inr es \<Rightarrow> quotes_of es = quotes \<and> bars_of es = bars \<and> length es = length quotes + length bars
       \<and> sorted (map merge_key es)"
proof -
  have "length (interleave quotes bars) = length quotes + length bars"
    by (induction quotes bars rule: interleave.induct) simp_all
  then show ?thesis
    using first_backward_none [of "map (\<lambda>q. ev_exchange (q_time q)) quotes" 1] first_backward_none [of "map bar_close_time bars" 1]
      interleave_sorted [of quotes bars]
    by (cases "first_backward (map (\<lambda>q. ev_exchange (q_time q)) quotes) 1"; cases "first_backward (map bar_close_time bars) 1")
      (simp_all add: merge_quotes_and_bars_def interleave_parts)
qed

section \<open>The live source\<close>

type_synonym 'w PayloadSource = "'w \<Rightarrow> string option \<times> 'w"

definition queued_next :: "string list PayloadSource" where
  "queued_next queue = (case queue of [] \<Rightarrow> (None, []) | payload # rest \<Rightarrow> (Some payload, rest))"

record LiveQuoteSource =
  lqs_decoder :: Decoder
  lqs_replay_clock :: "SimulatedClock option"
  lqs_pending :: "MarketEvent list"
  lqs_last_emitted :: Timestamp
  lqs_decoded :: nat
  lqs_payloads :: nat

definition new_live_source :: "Decoder \<Rightarrow> SimulatedClock option \<Rightarrow> LiveQuoteSource" where
  "new_live_source d clock = \<lparr>lqs_decoder = d, lqs_replay_clock = clock, lqs_pending = [], lqs_last_emitted = kNoTimestamp,
     lqs_decoded = 0, lqs_payloads = 0\<rparr>"

text \<open>One payload: a bad one is counted and otherwise passed over.\<close>

definition lqs_ingest :: "(string \<Rightarrow> json option) \<Rightarrow> SymbolMapper \<Rightarrow> string \<Rightarrow> LiveQuoteSource \<Rightarrow> LiveQuoteSource" where
  "lqs_ingest parse sm payload s =
     (let s1 = s\<lparr>lqs_payloads := lqs_payloads s + 1\<rparr> in
      case decode_quotes parse sm payload (lqs_decoder s) of
        (Inl e, d) \<Rightarrow> s1\<lparr>lqs_decoder := d\<rparr>
      | (Inr quotes, d) \<Rightarrow> s1\<lparr>lqs_decoder := d, lqs_pending := lqs_pending s @ map QuoteEv quotes,
          lqs_decoded := lqs_decoded s + length quotes\<rparr>)"

text \<open>The loop ends when the transport does, so it may not end: \<open>None\<close> is a refill that never returns.\<close>

partial_function (option) lqs_refill ::
    "(string \<Rightarrow> json option) \<Rightarrow> 'w PayloadSource \<Rightarrow> SymbolMapper \<Rightarrow> LiveQuoteSource \<Rightarrow> 'w \<Rightarrow> (bool \<times> LiveQuoteSource \<times> 'w) option" where
  "lqs_refill parse transport sm s w =
     (if lqs_pending s \<noteq> [] then Some (True, s, w)
      else (case transport w of
              (None, w1) \<Rightarrow> Some (False, s, w1)
            | (Some payload, w1) \<Rightarrow> lqs_refill parse transport sm (lqs_ingest parse sm payload s) w1))"

definition lqs_emit :: "MarketEvent \<Rightarrow> LiveQuoteSource \<Rightarrow> (ClockException, MarketEvent option) result \<times> LiveQuoteSource" where
  "lqs_emit event s =
     (let s1 = s\<lparr>lqs_last_emitted := exchange_time_of event\<rparr> in
      case lqs_replay_clock s of
        None \<Rightarrow> (Ok (Some event), s1)
      | Some c \<Rightarrow> (case advance_to (receive_time_of event) c of
                     Inl ex \<Rightarrow> (Err ex, s1)
                   | Inr c' \<Rightarrow> (Ok (Some event), s1\<lparr>lqs_replay_clock := Some c'\<rparr>)))"

partial_function (option) lqs_next ::
    "(string \<Rightarrow> json option) \<Rightarrow> 'w PayloadSource \<Rightarrow> SymbolMapper \<Rightarrow> LiveQuoteSource \<Rightarrow> 'w
      \<Rightarrow> ((ClockException, MarketEvent option) result \<times> LiveQuoteSource \<times> 'w) option" where
  "lqs_next parse transport sm s w =
     (case lqs_refill parse transport sm s w of
        None \<Rightarrow> None
      | Some (ok, z1, w1) \<Rightarrow>
          if \<not> ok then Some (Ok None, z1, w1)
          else
            (let event = hd (lqs_pending z1); z2 = z1\<lparr>lqs_pending := tl (lqs_pending z1)\<rparr> in
             if is_set (lqs_last_emitted z2) \<and> exchange_time_of event < lqs_last_emitted z2
             then lqs_next parse transport sm z2 w1
             else (let (r, z3) = lqs_emit event z2 in Some (r, z3, w1))))"

definition lqs_peek_time :: "LiveQuoteSource \<Rightarrow> Timestamp" where
  "lqs_peek_time s = (case lqs_pending s of [] \<Rightarrow> kMaxTimestamp | e # es \<Rightarrow> exchange_time_of e)"

text \<open>A consumer that pulls up to \<open>n\<close> events.\<close>

fun lqs_take ::
    "(string \<Rightarrow> json option) \<Rightarrow> 'w PayloadSource \<Rightarrow> SymbolMapper \<Rightarrow> nat \<Rightarrow> LiveQuoteSource \<Rightarrow> 'w \<Rightarrow> MarketEvent list option" where
  "lqs_take parse transport sm 0 s w = Some []"
| "lqs_take parse transport sm (Suc n) s w =
     (case lqs_next parse transport sm s w of
        None \<Rightarrow> None
      | Some (Inr (Some e), s', w') \<Rightarrow> map_option ((#) e) (lqs_take parse transport sm n s' w')
      | Some (_, s', w') \<Rightarrow> Some [])"

text \<open>What is pending are quotes of positive times, and the last emitted time is unset or positive.\<close>

definition lqs_ok :: "LiveQuoteSource \<Rightarrow> bool" where
  "lqs_ok s \<longleftrightarrow> list_all (\<lambda>e. 0 < exchange_time_of e) (lqs_pending s)
     \<and> (lqs_last_emitted s = kNoTimestamp \<or> 0 < lqs_last_emitted s)"

lemma picked_from_all: "picked_from R xs ys \<Longrightarrow> (\<And>x y. R x y \<Longrightarrow> P y) \<Longrightarrow> list_all P ys"
  unfolding picked_from_def by (force simp: list_all_iff list_all2_conv_all_nth in_set_conv_nth)

lemma decoded_positive: "decode_quotes parse sm payload d = (Ok qs, d') \<Longrightarrow> list_all (\<lambda>q. 0 < ev_exchange (q_time q)) qs"
proof -
  assume "decode_quotes parse sm payload d = (Ok qs, d')"
  then obtain raws ns where "normalise_batch (dcd_cfg d) sm raws (dcd_normaliser d) = (Ok qs, ns)"
    by (auto simp: decode_quotes_def split: sum.splits prod.splits)
  then have "picked_from (quote_from (dcd_cfg d) sm) raws qs" by (rule normalise_batch_picked)
  then show ?thesis by (rule picked_from_all) (simp add: quote_from_def)
qed

lemma lqs_ingest_ok: "lqs_ok s \<Longrightarrow> lqs_ok (lqs_ingest parse sm payload s)"
  using decoded_positive by (fastforce simp: lqs_ok_def lqs_ingest_def Let_def list_all_iff split: sum.split prod.split)

lemma lqs_ingest_last [simp]:
  "lqs_last_emitted (lqs_ingest parse sm payload s) = lqs_last_emitted s"
  by (auto simp: lqs_ingest_def Let_def split: sum.split prod.split)

definition refilled :: "LiveQuoteSource \<Rightarrow> bool \<times> LiveQuoteSource \<times> 'w \<Rightarrow> bool" where
  "refilled s r \<longleftrightarrow> (case r of (ok, s', w') \<Rightarrow>
     lqs_ok s' \<and> lqs_last_emitted s' = lqs_last_emitted s \<and> (if ok then lqs_pending s' \<noteq> [] else True))"

lemma lqs_refill_ok:
  assumes "lqs_refill parse transport sm s w = Some r" "lqs_ok s"
  shows "refilled s r"
proof -
  have "lqs_ok s \<longrightarrow> refilled s r"
  proof (rule lqs_refill.raw_induct [where P = "\<lambda>parse transport sm s w r. lqs_ok s \<longrightarrow> refilled s r", OF _ assms(1)])
    fix f parse transport sm s w r
    assume IH: "\<And>parse transport sm s w r. f parse transport sm s w = Some r \<Longrightarrow> lqs_ok s \<longrightarrow> refilled s r"
      and eq: "(if lqs_pending s \<noteq> [] then Some (True, s, w)
         else (case transport w of (None, w1) \<Rightarrow> Some (False, s, w1)
           | (Some payload, w1) \<Rightarrow> f parse transport sm (lqs_ingest parse sm payload s) w1)) = Some r"
    show "lqs_ok s \<longrightarrow> refilled s r"
    proof (cases "lqs_pending s = []")
      case True
      then show ?thesis using eq IH lqs_ingest_ok by (fastforce simp: refilled_def split: prod.splits option.splits)
    next
      case False
      then show ?thesis using eq by (auto simp: refilled_def)
    qed
  qed
  then show ?thesis using assms(2) by blast
qed

definition emitted :: "LiveQuoteSource \<Rightarrow> (ClockException, MarketEvent option) result \<times> LiveQuoteSource \<times> 'w \<Rightarrow> bool" where
  "emitted s x \<longleftrightarrow> (case x of (r, s', w') \<Rightarrow> lqs_ok s' \<and>
     (case r of
        Inr (Some e) \<Rightarrow> lqs_last_emitted s' = exchange_time_of e \<and> lqs_last_emitted s \<le> exchange_time_of e
      | _ \<Rightarrow> True))"

lemma emitted_cong: "lqs_last_emitted a = lqs_last_emitted b \<Longrightarrow> emitted a x \<longleftrightarrow> emitted b x"
  by (simp add: emitted_def split: prod.split sum.split option.split)

lemma lqs_emit_ok:
  assumes "lqs_ok s" "0 < exchange_time_of e" "lqs_last_emitted s = kNoTimestamp \<or> lqs_last_emitted s \<le> exchange_time_of e"
  shows "emitted s (fst (lqs_emit e s), snd (lqs_emit e s), w)"
  using assms
  by (auto simp: emitted_def lqs_emit_def lqs_ok_def Let_def kNoTimestamp_def split: option.split sum.split)

lemma lqs_next_ok:
  assumes "lqs_next parse transport sm s w = Some x" "lqs_ok s"
  shows "emitted s x"
proof -
  have "lqs_ok s \<longrightarrow> emitted s x"
  proof (rule lqs_next.raw_induct [where P = "\<lambda>parse transport sm s w x. lqs_ok s \<longrightarrow> emitted s x", OF _ assms(1)])
    fix f parse transport sm s w x
    assume IH: "\<And>parse transport sm s w x. f parse transport sm s w = Some x \<Longrightarrow> lqs_ok s \<longrightarrow> emitted s x"
      and eq: "(case lqs_refill parse transport sm s w of None \<Rightarrow> None
        | Some (ok, z1, w1) \<Rightarrow> if \<not> ok then Some (Ok None, z1, w1)
            else (let event = hd (lqs_pending z1); z2 = z1\<lparr>lqs_pending := tl (lqs_pending z1)\<rparr> in
              if is_set (lqs_last_emitted z2) \<and> exchange_time_of event < lqs_last_emitted z2 then f parse transport sm z2 w1
              else (let (r, z3) = lqs_emit event z2 in Some (r, z3, w1)))) = Some x"
    show "lqs_ok s \<longrightarrow> emitted s x"
    proof
      assume ok: "lqs_ok s"
      from eq obtain full z1 w1 where r: "lqs_refill parse transport sm s w = Some (full, z1, w1)" by (auto split: option.splits)
      have z: "refilled s (full, z1, w1)" using lqs_refill_ok [OF r ok] .
      show "emitted s x"
      proof (cases full)
        case False
        then show ?thesis using eq r z by (auto simp: refilled_def emitted_def)
      next
        case True
        then obtain e es where p: "lqs_pending z1 = e # es" using z by (cases "lqs_pending z1") (auto simp: refilled_def)
        define z2 where "z2 = z1\<lparr>lqs_pending := es\<rparr>"
        have z2: "lqs_ok z2" "0 < exchange_time_of e" "lqs_last_emitted z2 = lqs_last_emitted s"
          using z p by (auto simp: refilled_def lqs_ok_def z2_def)
        show ?thesis
        proof (cases "is_set (lqs_last_emitted z2) \<and> exchange_time_of e < lqs_last_emitted z2")
          case True
          then have "f parse transport sm z2 w1 = Some x" using eq r \<open>full\<close> p by (simp add: z2_def)
          then show ?thesis using IH z2 emitted_cong [of z2 s] by blast
        next
          case False
          then have "x = (fst (lqs_emit e z2), snd (lqs_emit e z2), w1)"
            using eq r \<open>full\<close> p by (auto simp: z2_def Let_def split: prod.splits if_splits)
          moreover have "lqs_last_emitted z2 = kNoTimestamp \<or> lqs_last_emitted z2 \<le> exchange_time_of e"
            using False by (auto simp: is_set_def)
          ultimately show ?thesis using lqs_emit_ok [OF z2(1,2)] emitted_cong [OF z2(3)] z2(3) by metis
        qed
      qed
    qed
  qed
  then show ?thesis using assms(2) by blast
qed

lemma lqs_take_sorted:
  "lqs_take parse transport sm n s w = Some es \<Longrightarrow> lqs_ok s \<Longrightarrow> sorted (lqs_last_emitted s # map exchange_time_of es)"
proof (induction n arbitrary: s w es)
  case (Suc n)
  obtain r s' w' where x: "lqs_next parse transport sm s w = Some (r, s', w')"
    using Suc.prems(1) by (auto split: option.splits)
  have e: "emitted s (r, s', w')" using lqs_next_ok [OF x] Suc.prems(2) .
  show ?case
  proof (cases "\<exists>ev. r = Inr (Some ev)")
    case True
    then obtain ev where r: "r = Inr (Some ev)" ..
    then obtain es1 where "lqs_take parse transport sm n s' w' = Some es1" "es = ev # es1"
      using Suc.prems(1) x by auto
    then show ?thesis using Suc.IH e r by (fastforce simp: emitted_def)
  next
    case False
    then have "es = []" using Suc.prems(1) x by (auto split: sum.splits option.splits)
    then show ?thesis by simp
  qed
qed simp

text \<open>
  A live source never goes back in time. Whatever payloads arrive, decodable or not and however they interleave, the
  events a consumer pulls from a fresh source are in the order of their exchange times.
\<close>

theorem a_live_source_never_goes_back:
  "case lqs_take parse transport sm n (new_live_source d clock) w of
     None \<Rightarrow> True
   | Some es \<Rightarrow> sorted (map exchange_time_of es)"
proof -
  have "lqs_ok (new_live_source d clock)" by (simp add: lqs_ok_def new_live_source_def)
  then show ?thesis using lqs_take_sorted by (fastforce split: option.split)
qed

lemma queued_refill:
  "\<exists>ok s' queue'. lqs_refill parse queued_next sm s queue = Some (ok, s', queue')
     \<and> (queue' = queue \<and> s' = s \<or> length queue' < length queue \<or> \<not> ok)"
proof (induction queue arbitrary: s)
  case Nil
  then show ?case by (subst lqs_refill.simps) (auto simp: queued_next_def)
next
  case (Cons payload queue)
  show ?case
  proof (cases "lqs_pending s = []")
    case True
    then have "lqs_refill parse queued_next sm s (payload # queue)
        = lqs_refill parse queued_next sm (lqs_ingest parse sm payload s) queue"
      by (subst lqs_refill.simps) (simp add: queued_next_def)
    then show ?thesis using Cons.IH [of "lqs_ingest parse sm payload s"] by auto
  next
    case False
    then show ?thesis by (subst lqs_refill.simps) auto
  qed
qed

lemma queued_next_returns: "lqs_ok s \<Longrightarrow> \<exists>r s' queue'. lqs_next parse queued_next sm s queue = Some (r, s', queue') \<and> lqs_ok s'"
proof (induction "(length queue, length (lqs_pending s))" arbitrary: s queue rule: less_induct)
  case less
  obtain full z1 q1 where r: "lqs_refill parse queued_next sm s queue = Some (full, z1, q1)"
      and d: "q1 = queue \<and> z1 = s \<or> length q1 < length queue \<or> \<not> full"
    using queued_refill by blast
  have z: "refilled s (full, z1, q1)" using lqs_refill_ok [OF r less.prems] .
  show ?case
  proof (cases full)
    case False
    then show ?thesis using r z by (subst lqs_next.simps) (auto simp: refilled_def)
  next
    case True
    then obtain e es where p: "lqs_pending z1 = e # es" using z by (cases "lqs_pending z1") (auto simp: refilled_def)
    define z2 where "z2 = z1\<lparr>lqs_pending := es\<rparr>"
    have z2: "lqs_ok z2" "0 < exchange_time_of e" using z p by (auto simp: refilled_def lqs_ok_def z2_def)
    have "(length q1, length (lqs_pending z2)) < (length queue, length (lqs_pending s))"
      using d True p by (auto simp: z2_def)
    from less.hyps [OF this z2(1)] show ?thesis
      using lqs_next_ok [of parse queued_next sm s queue] less.prems r True p
      by (subst lqs_next.simps) (auto simp: z2_def case_prod_beta Let_def emitted_def lqs_next.simps [of _ _ _ s])
  qed
qed

text \<open>
  Over recorded payloads the source always answers: a consumer of a queue gets a list, in the order of exchange times.
\<close>

theorem a_recorded_session_replays_in_order:
  "case lqs_take parse queued_next sm n (new_live_source d clock) queue of
     None \<Rightarrow> False
   | Some es \<Rightarrow> sorted (map exchange_time_of es)"
proof -
  have ok: "lqs_ok (new_live_source d clock)" by (simp add: lqs_ok_def new_live_source_def)
  have "\<exists>es. lqs_take parse queued_next sm n s queue = Some es" if "lqs_ok s" for s queue
    using that
  proof (induction n arbitrary: s queue)
    case (Suc n)
    then show ?case using queued_next_returns [OF Suc.prems, of parse sm queue] by (fastforce split: sum.split option.split)
  qed simp
  then obtain es where "lqs_take parse queued_next sm n (new_live_source d clock) queue = Some es" using ok by blast
  then show ?thesis using lqs_take_sorted [OF _ ok] by fastforce
qed

end
