(* ===== verification/WalkForward.thy ===== *)
theory WalkForward
  imports CivilTime
begin

text \<open>
  Walk-forward validation (\<open>src/validation/walk_forward.cpp\<close>, \<open>include/ptl/validation/fold.hpp\<close>): the
  splitter that lays train, validation and test windows over chronological observations, purging the training
  rows whose labels reach into a later window, and the guard of the locked holdout.

  Rows are indices into the list of observations. Sizes and indices are natural numbers and the sums the code takes of
  them are those of \<open>std::size_t\<close>, which wrap at 64 bits: nothing in the code bounds the sizes of a configuration. A
  read beyond the list is undefined in the code and an unspecified element here. The loop over folds is a partial
  function: that it ends is a theorem about the configurations whose sums do not wrap, and what a sum that wraps does
  to a fold is shown at the end.
\<close>

section \<open>Sizes\<close>

text \<open>The sum and the difference of \<open>std::size_t\<close>.\<close>

definition size_add :: "nat \<Rightarrow> nat \<Rightarrow> nat" where
  "size_add a b = (a + b) mod 2 ^ 64"

definition size_sub :: "nat \<Rightarrow> nat \<Rightarrow> nat" where
  "size_sub a b = (a + (2 ^ 64 - b)) mod 2 ^ 64"

lemma size_add_exact [simp]: "a + b < 2 ^ 64 \<Longrightarrow> size_add a b = a + b"
  by (simp add: size_add_def)

lemma size_add_word: "size_add (unat a) (unat b) = unat (a + b :: 64 word)"
  by (simp add: size_add_def unat_word_ariths)

lemma size_sub_word: "size_sub (unat a) (unat b) = unat (a - b :: 64 word)"
proof -
  have "unat a < 2 ^ 64" "unat b < 2 ^ 64" using unsigned_less [of a] unsigned_less [of b] by simp_all
  then show ?thesis
    by (cases "b \<le> a") (simp_all add: size_sub_def unat_sub_if' word_le_nat_alt mod_if)
qed

lemma size_sub_exact [simp]: "b \<le> a \<Longrightarrow> a < 2 ^ 64 \<Longrightarrow> size_sub a b = a - b"
proof -
  assume "b \<le> a" "a < 2 ^ 64"
  then have "a + (2 ^ 64 - b) = (a - b) + 2 ^ 64" "a - b < 2 ^ 64" by linarith+
  then show ?thesis by (simp add: size_sub_def)
qed

section \<open>Folds and configuration\<close>

datatype WindowMode = Rolling | Expanding

fun to_string_WindowMode :: "WindowMode \<Rightarrow> string" where
  "to_string_WindowMode Rolling = ''rolling''"
| "to_string_WindowMode Expanding = ''expanding''"

datatype SetKind = SetTrain | SetValidation | SetTest | SetPurged | SetEmbargoed | SetUnused

fun to_string_SetKind :: "SetKind \<Rightarrow> string" where
  "to_string_SetKind SetTrain = ''train''"
| "to_string_SetKind SetValidation = ''validation''"
| "to_string_SetKind SetTest = ''test''"
| "to_string_SetKind SetPurged = ''purged''"
| "to_string_SetKind SetEmbargoed = ''embargoed''"
| "to_string_SetKind SetUnused = ''unused''"

record Fold =
  fd_id :: nat
  fd_mode :: WindowMode
  fd_train_begin :: Timestamp
  fd_train_end :: Timestamp
  fd_validation_begin :: Timestamp
  fd_validation_end :: Timestamp
  fd_test_begin :: Timestamp
  fd_test_end :: Timestamp
  fd_train_rows :: "nat list"
  fd_validation_rows :: "nat list"
  fd_test_rows :: "nat list"
  fd_purged_rows :: "nat list"
  fd_embargoed_rows :: "nat list"

definition fold_size :: "Fold \<Rightarrow> nat" where
  "fold_size f = length (fd_train_rows f) + length (fd_validation_rows f) + length (fd_test_rows f)"

text \<open>The scan of \<open>Fold::disjoint\<close>: each row is new to the set of those seen.\<close>

fun rows_unseen :: "nat set \<Rightarrow> nat list \<Rightarrow> bool" where
  "rows_unseen seen [] = True"
| "rows_unseen seen (i # is) = (if i \<in> seen then False else rows_unseen (insert i seen) is)"

definition fold_disjoint :: "Fold \<Rightarrow> bool" where
  "fold_disjoint f = rows_unseen {} (fd_train_rows f @ fd_validation_rows f @ fd_test_rows f)"

record WalkForwardConfig =
  wf_mode :: WindowMode
  wf_train_size :: nat
  wf_validation_size :: nat
  wf_test_size :: nat
  wf_step :: nat
  wf_warmup :: nat
  wf_embargo :: nat
  wf_min_train_rows :: nat
  wf_purge :: bool

definition default_walk_forward :: WalkForwardConfig where
  "default_walk_forward = \<lparr>wf_mode = Expanding, wf_train_size = 20000, wf_validation_size = 4000,
     wf_test_size = 4000, wf_step = 4000, wf_warmup = 0, wf_embargo = 0, wf_min_train_rows = 500, wf_purge = True\<rparr>"

definition wf_signature :: "WalkForwardConfig \<Rightarrow> string" where
  "wf_signature c = to_string_WindowMode (wf_mode c) @ ''|train='' @ dec_string (wf_train_size c)
     @ ''|val='' @ dec_string (wf_validation_size c) @ ''|test='' @ dec_string (wf_test_size c)
     @ ''|step='' @ dec_string (wf_step c) @ ''|warmup='' @ dec_string (wf_warmup c)
     @ ''|embargo='' @ dec_string (wf_embargo c) @ ''|min_train='' @ dec_string (wf_min_train_rows c)
     @ ''|purge='' @ (if wf_purge c then ''1'' else ''0'')"

definition wf_hash :: "WalkForwardConfig \<Rightarrow> 64 word" where
  "wf_hash c = fnv1a64 (wf_signature c)"

section \<open>Splitting\<close>

datatype walk_forward_error = ZeroWindowSize | NotChronological nat | NeedsJustification
  | HoldoutRefused Timestamp Timestamp | FoldReachesHoldout nat SetKind Timestamp

definition train_begin_index :: "WalkForwardConfig \<Rightarrow> nat \<Rightarrow> nat" where
  "train_begin_index c train_end =
     (if wf_mode c = Rolling
      then (if wf_train_size c \<le> train_end then train_end - wf_train_size c else 0)
      else wf_warmup c)"

text \<open>A training row whose label reaches into the validation or the test window.\<close>

definition leaks :: "WalkForwardConfig \<Rightarrow> ObservationInterval list \<Rightarrow> nat \<Rightarrow> nat \<Rightarrow> bool" where
  "leaks c ivs train_end i =
     (let val_begin = train_end;
          val_end = size_add val_begin (wf_validation_size c);
          test_begin = val_end;
          test_end = size_add test_begin (wf_test_size c) in
      wf_purge c \<and>
      (label_overlaps (ivs ! i) (obs_feature_end (ivs ! val_begin)) (label_end (ivs ! size_sub val_end 1))
       \<or> label_overlaps (ivs ! i) (obs_feature_end (ivs ! test_begin)) (label_end (ivs ! size_sub test_end 1))))"

definition make_fold :: "WalkForwardConfig \<Rightarrow> ObservationInterval list \<Rightarrow> nat \<Rightarrow> nat \<Rightarrow> Fold" where
  "make_fold c ivs train_end fid =
     (let n = length ivs;
          val_begin = train_end;
          val_end = size_add val_begin (wf_validation_size c);
          test_begin = val_end;
          test_end = size_add test_begin (wf_test_size c);
          train_begin = train_begin_index c train_end;
          stamp = (\<lambda>i. obs_feature_end (ivs ! i)) in
      \<lparr>fd_id = fid, fd_mode = wf_mode c,
       fd_train_begin = stamp train_begin, fd_train_end = stamp (size_sub train_end 1),
       fd_validation_begin = stamp val_begin, fd_validation_end = stamp (size_sub val_end 1),
       fd_test_begin = stamp test_begin, fd_test_end = stamp (size_sub test_end 1),
       fd_train_rows = filter (\<lambda>i. \<not> leaks c ivs train_end i) [train_begin..<train_end],
       fd_validation_rows = [val_begin..<val_end], fd_test_rows = [test_begin..<test_end],
       fd_purged_rows = filter (leaks c ivs train_end) [train_begin..<train_end],
       fd_embargoed_rows = [test_end..<min n (size_add test_end (wf_embargo c))]\<rparr>)"

partial_function (option) split_loop ::
    "WalkForwardConfig \<Rightarrow> ObservationInterval list \<Rightarrow> nat \<Rightarrow> nat \<Rightarrow> Fold list \<Rightarrow> Fold list option" where
  "split_loop c ivs train_end fid folds =
     (if length ivs < size_add (size_add train_end (wf_validation_size c)) (wf_test_size c) then Some folds
      else let f = make_fold c ivs train_end fid in
        split_loop c ivs (size_add train_end (wf_step c)) (fid + 1)
          (if length (fd_train_rows f) < wf_min_train_rows c then folds else folds @ [f]))"

fun first_unordered :: "nat \<Rightarrow> ObservationInterval list \<Rightarrow> nat option" where
  "first_unordered i (a # b # ivs) =
     (if obs_feature_end b < obs_feature_end a then Some i else first_unordered (i + 1) (b # ivs))"
| "first_unordered i _ = None"

definition wf_split ::
    "WalkForwardConfig \<Rightarrow> ObservationInterval list \<Rightarrow> (walk_forward_error, Fold list) result option" where
  "wf_split c ivs =
     (if ivs = [] then Some (Ok [])
      else if wf_train_size c = 0 \<or> wf_test_size c = 0 \<or> wf_step c = 0 then Some (Err ZeroWindowSize)
      else (case first_unordered 1 ivs of
              Some i \<Rightarrow> Some (Err (NotChronological i))
            | None \<Rightarrow> map_option Ok (split_loop c ivs (size_add (wf_warmup c) (wf_train_size c)) 0 [])))"

definition split_both_modes ::
    "WalkForwardConfig \<Rightarrow> ObservationInterval list
      \<Rightarrow> (walk_forward_error, Fold list \<times> Fold list) result option" where
  "split_both_modes c ivs =
     (case wf_split (c\<lparr>wf_mode := Rolling\<rparr>) ivs of
        None \<Rightarrow> None
      | Some (Inl e) \<Rightarrow> Some (Err e)
      | Some (Inr r) \<Rightarrow>
          (case wf_split (c\<lparr>wf_mode := Expanding\<rparr>) ivs of
             None \<Rightarrow> None
           | Some (Inl e) \<Rightarrow> Some (Err e)
           | Some (Inr e) \<Rightarrow> Some (Ok (r, e))))"

section \<open>The holdout guard\<close>

record HoldoutGuard =
  hg_boundary :: Timestamp
  hg_unlocked :: bool
  hg_justification :: string

definition new_holdout :: "Timestamp \<Rightarrow> HoldoutGuard" where
  "new_holdout boundary = \<lparr>hg_boundary = boundary, hg_unlocked = False, hg_justification = []\<rparr>"

definition holdout_unlock :: "string \<Rightarrow> HoldoutGuard \<Rightarrow> (walk_forward_error, bool) result \<times> HoldoutGuard" where
  "holdout_unlock justification g =
     (if justification = [] then (Err NeedsJustification, g)
      else (Ok True, g\<lparr>hg_unlocked := True, hg_justification := justification\<rparr>))"

definition is_holdout :: "HoldoutGuard \<Rightarrow> Timestamp \<Rightarrow> bool" where
  "is_holdout g ts \<longleftrightarrow> is_set (hg_boundary g) \<and> hg_boundary g \<le> ts"

definition holdout_check :: "HoldoutGuard \<Rightarrow> Timestamp \<Rightarrow> (walk_forward_error, bool) result" where
  "holdout_check g ts =
     (if \<not> is_holdout g ts \<or> hg_unlocked g then Ok True else Err (HoldoutRefused (hg_boundary g) ts))"

definition touches_holdout :: "HoldoutGuard \<Rightarrow> ObservationInterval \<Rightarrow> bool" where
  "touches_holdout g iv \<longleftrightarrow> is_holdout g (obs_feature_end iv) \<or> is_holdout g (label_end iv)"

record FilterResult =
  fr_allowed_rows :: "nat list"
  fr_withheld :: nat

fun filter_rows :: "HoldoutGuard \<Rightarrow> nat \<Rightarrow> ObservationInterval list \<Rightarrow> FilterResult \<Rightarrow> FilterResult" where
  "filter_rows g i [] out = out"
| "filter_rows g i (iv # ivs) out =
     (if touches_holdout g iv \<and> \<not> hg_unlocked g
      then filter_rows g (i + 1) ivs (out\<lparr>fr_withheld := fr_withheld out + 1\<rparr>)
      else filter_rows g (i + 1) ivs (out\<lparr>fr_allowed_rows := fr_allowed_rows out @ [i]\<rparr>))"

definition holdout_filter :: "HoldoutGuard \<Rightarrow> ObservationInterval list \<Rightarrow> FilterResult" where
  "holdout_filter g ivs = filter_rows g 0 ivs \<lparr>fr_allowed_rows = [], fr_withheld = 0\<rparr>"

fun scan_rows ::
    "HoldoutGuard \<Rightarrow> ObservationInterval list \<Rightarrow> nat \<Rightarrow> SetKind \<Rightarrow> nat list \<Rightarrow> (walk_forward_error, bool) result" where
  "scan_rows g ivs fid kind [] = Ok True"
| "scan_rows g ivs fid kind (i # is) =
     (if length ivs \<le> i then scan_rows g ivs fid kind is
      else if touches_holdout g (ivs ! i) then Err (FoldReachesHoldout fid kind (label_end (ivs ! i)))
      else scan_rows g ivs fid kind is)"

definition check_fold :: "HoldoutGuard \<Rightarrow> Fold \<Rightarrow> ObservationInterval list \<Rightarrow> (walk_forward_error, bool) result" where
  "check_fold g f ivs =
     (if hg_unlocked g \<or> \<not> is_set (hg_boundary g) then Ok True
      else (case scan_rows g ivs (fd_id f) SetTrain (fd_train_rows f) of
              Inl e \<Rightarrow> Err e
            | Inr _ \<Rightarrow>
                (case scan_rows g ivs (fd_id f) SetValidation (fd_validation_rows f) of
                   Inl e \<Rightarrow> Err e
                 | Inr _ \<Rightarrow>
                     (case scan_rows g ivs (fd_id f) SetTest (fd_test_rows f) of
                        Inl e \<Rightarrow> Err e
                      | Inr _ \<Rightarrow> Ok True))))"

section \<open>The loop ends, and what every fold is\<close>

text \<open>The configurations none of whose sums wrap over so many observations.\<close>

definition sizes_fit :: "WalkForwardConfig \<Rightarrow> nat \<Rightarrow> bool" where
  "sizes_fit c n \<longleftrightarrow> wf_warmup c + wf_train_size c + wf_validation_size c + wf_test_size c < 2 ^ 64 \<and> n + wf_step c < 2 ^ 64"

lemma windows_exact:
  assumes "e + wf_validation_size c + wf_test_size c < 2 ^ 64"
  shows "size_add e (wf_validation_size c) = e + wf_validation_size c"
    and "size_add (size_add e (wf_validation_size c)) (wf_test_size c) = e + wf_validation_size c + wf_test_size c"
    and "size_add (e + wf_validation_size c) (wf_test_size c) = e + wf_validation_size c + wf_test_size c"
  using assms by simp_all

lemma make_fold_rows:
  "fd_id (make_fold c ivs e fid) = fid"
  "fd_train_rows (make_fold c ivs e fid) = filter (\<lambda>i. \<not> leaks c ivs e i) [train_begin_index c e..<e]"
  "fd_purged_rows (make_fold c ivs e fid) = filter (leaks c ivs e) [train_begin_index c e..<e]"
  "fd_validation_rows (make_fold c ivs e fid) = [e..<size_add e (wf_validation_size c)]"
  "fd_test_rows (make_fold c ivs e fid) =
     [size_add e (wf_validation_size c)..<size_add (size_add e (wf_validation_size c)) (wf_test_size c)]"
  by (simp_all add: make_fold_def Let_def)

lemma leaks_exact:
  assumes "e + wf_validation_size c + wf_test_size c < 2 ^ 64" "0 < e" "0 < wf_test_size c"
  shows "leaks c ivs e i \<longleftrightarrow> wf_purge c \<and>
      (label_overlaps (ivs ! i) (obs_feature_end (ivs ! e)) (label_end (ivs ! (e + wf_validation_size c - 1)))
       \<or> label_overlaps (ivs ! i) (obs_feature_end (ivs ! (e + wf_validation_size c)))
           (label_end (ivs ! (e + wf_validation_size c + wf_test_size c - 1))))"
  using assms by (simp add: leaks_def Let_def windows_exact [OF assms(1)])

text \<open>The folds the loop can emit, by the end of their training window.\<close>

definition emitted :: "WalkForwardConfig \<Rightarrow> ObservationInterval list \<Rightarrow> Fold \<Rightarrow> bool" where
  "emitted c ivs f \<longleftrightarrow> (\<exists>e. wf_warmup c + wf_train_size c \<le> e
     \<and> e + wf_validation_size c + wf_test_size c \<le> length ivs \<and> f = make_fold c ivs e (fd_id f)
     \<and> wf_min_train_rows c \<le> length (fd_train_rows f))"

lemma split_loop_emits:
  assumes "0 < wf_step c" "length ivs + wf_step c < 2 ^ 64"
  shows "wf_warmup c + wf_train_size c \<le> e \<Longrightarrow> e + wf_validation_size c + wf_test_size c < 2 ^ 64 \<Longrightarrow>
    \<forall>f\<in>set folds. emitted c ivs f \<Longrightarrow>
    \<exists>fs. split_loop c ivs e fid folds = Some fs \<and> (\<forall>f\<in>set fs. emitted c ivs f)"
proof (induction "length ivs - e" arbitrary: e fid folds rule: less_induct)
  case less
  note exact = windows_exact [OF less.prems(2)]
  show ?case
  proof (cases "length ivs < e + wf_validation_size c + wf_test_size c")
    case True
    then show ?thesis using less.prems exact by (subst split_loop.simps) simp
  next
    case False
    let ?f = "make_fold c ivs e fid"
    let ?folds = "if length (fd_train_rows ?f) < wf_min_train_rows c then folds else folds @ [?f]"
    have folds: "\<forall>f\<in>set ?folds. emitted c ivs f"
      using less.prems False by (auto simp: emitted_def not_less make_fold_rows(1))
    have next_e: "wf_warmup c + wf_train_size c \<le> e + wf_step c" using less.prems by simp
    have fits: "e + wf_step c + wf_validation_size c + wf_test_size c < 2 ^ 64" using False assms(2) by linarith
    then have up: "size_add e (wf_step c) = e + wf_step c" by simp
    show ?thesis
    proof (cases "e < length ivs")
      case True
      have "length ivs - (e + wf_step c) < length ivs - e" using True assms by simp
      from less.hyps [OF this next_e fits folds] show ?thesis
        using False exact up by (subst split_loop.simps) (simp add: Let_def)
    next
      case end_reached: False
      have "split_loop c ivs (e + wf_step c) (fid + 1) ?folds = Some ?folds"
        using end_reached assms windows_exact [OF fits] by (subst split_loop.simps) simp
      then show ?thesis using folds False exact up by (subst split_loop.simps) (simp add: Let_def)
    qed
  qed
qed

lemma first_unordered_none:
  "first_unordered k ivs = None \<longleftrightarrow> sorted (map obs_feature_end ivs)"
proof (induction k ivs rule: first_unordered.induct)
  case (1 i a b ivs)
  then show ?case by (auto simp: not_less)
qed simp_all

lemma first_unordered_some:
  "first_unordered k ivs = Some i \<Longrightarrow> \<exists>j. i = k + j \<and> j + 1 < length ivs
     \<and> obs_feature_end (ivs ! (j + 1)) < obs_feature_end (ivs ! j)"
proof (induction k ivs rule: first_unordered.induct)
  case (1 k a b ivs)
  show ?case
  proof (cases "obs_feature_end b < obs_feature_end a")
    case True
    then show ?thesis using 1(2) by (intro exI [of _ 0]) simp
  next
    case False
    then obtain j where "i = k + 1 + j" "j + 1 < length (b # ivs)"
      "obs_feature_end ((b # ivs) ! (j + 1)) < obs_feature_end ((b # ivs) ! j)" using 1 by auto
    then show ?thesis by (intro exI [of _ "j + 1"]) simp
  qed
qed simp_all

lemma wf_split_refused:
  assumes "wf_split c ivs = Some (Inl e)"
  shows "case e of ZeroWindowSize \<Rightarrow> wf_train_size c = 0 \<or> wf_test_size c = 0 \<or> wf_step c = 0
     | NotChronological i \<Rightarrow> 0 < i \<and> i < length ivs \<and> obs_feature_end (ivs ! i) < obs_feature_end (ivs ! (i - 1))
     | _ \<Rightarrow> False"
  using assms by (auto simp: wf_split_def split: if_splits option.splits dest!: first_unordered_some)

lemma wf_split_total:
  assumes "sizes_fit c (length ivs)"
  shows "case wf_split c ivs of
     None \<Rightarrow> False
   | Some (Inl e) \<Rightarrow> e = ZeroWindowSize \<or> \<not> sorted (map obs_feature_end ivs)
   | Some (Inr folds) \<Rightarrow> (\<forall>f\<in>set folds. emitted c ivs f)
       \<and> (ivs \<noteq> [] \<longrightarrow> 0 < wf_train_size c \<and> 0 < wf_test_size c \<and> sorted (map obs_feature_end ivs))"
proof -
  have loop: "\<exists>fs. split_loop c ivs (size_add (wf_warmup c) (wf_train_size c)) 0 [] = Some fs \<and> (\<forall>f\<in>set fs. emitted c ivs f)"
    if "wf_step c \<noteq> 0"
    using split_loop_emits [of c ivs "wf_warmup c + wf_train_size c" "[]"] that assms by (simp add: sizes_fit_def)
  show ?thesis
    using loop first_unordered_none [of 1 ivs] by (auto simp: wf_split_def split: option.split)
qed

lemma rows_unseen_distinct: "rows_unseen seen is \<longleftrightarrow> distinct is \<and> set is \<inter> seen = {}"
  by (induction "is" arbitrary: seen) auto

text \<open>
  C27: For a configuration none of whose \<open>size_t\<close> sums wraps over the observations given, splitting returns, and what it
  returns are folds: in each, validation follows training and test follows validation without a gap, the three sets
  share no row, every row of the training window is either trained on or purged, the training set is never below the
  minimum, and no row lies beyond the observations. A refusal names a zero size or a row that really comes before its
  predecessor.
\<close>

theorem splitting_returns_proper_folds:
  assumes "sizes_fit c (length ivs)"
  shows "case wf_split c ivs of
     None \<Rightarrow> False
   | Some (Inl e) \<Rightarrow> (case e of ZeroWindowSize \<Rightarrow> wf_train_size c = 0 \<or> wf_test_size c = 0 \<or> wf_step c = 0
       | NotChronological i \<Rightarrow> 0 < i \<and> i < length ivs \<and> obs_feature_end (ivs ! i) < obs_feature_end (ivs ! (i - 1))
       | _ \<Rightarrow> False)
   | Some (Inr folds) \<Rightarrow> list_all (\<lambda>f. fold_disjoint f \<and> wf_min_train_rows c \<le> length (fd_train_rows f)
       \<and> (\<exists>b e. fd_validation_rows f = [e..<e + wf_validation_size c]
            \<and> fd_test_rows f = [e + wf_validation_size c..<e + wf_validation_size c + wf_test_size c]
            \<and> e + wf_validation_size c + wf_test_size c \<le> length ivs
            \<and> wf_warmup c \<le> b \<and> set (fd_train_rows f) \<union> set (fd_purged_rows f) = {b..<e}
            \<and> set (fd_train_rows f) \<inter> set (fd_purged_rows f) = {})) folds"
proof -
  have one: "fold_disjoint f \<and> wf_min_train_rows c \<le> length (fd_train_rows f)
       \<and> (\<exists>b e. fd_validation_rows f = [e..<e + wf_validation_size c]
            \<and> fd_test_rows f = [e + wf_validation_size c..<e + wf_validation_size c + wf_test_size c]
            \<and> e + wf_validation_size c + wf_test_size c \<le> length ivs
            \<and> wf_warmup c \<le> b \<and> set (fd_train_rows f) \<union> set (fd_purged_rows f) = {b..<e}
            \<and> set (fd_train_rows f) \<inter> set (fd_purged_rows f) = {})" if em: "emitted c ivs f" for f
  proof -
    obtain e where e: "wf_warmup c + wf_train_size c \<le> e" "e + wf_validation_size c + wf_test_size c \<le> length ivs"
      "f = make_fold c ivs e (fd_id f)" "wf_min_train_rows c \<le> length (fd_train_rows f)"
      using em by (auto simp: emitted_def)
    have lt: "e + wf_validation_size c + wf_test_size c < 2 ^ 64"
      using e(2) assms unfolding sizes_fit_def by linarith
    have rows: "fd_validation_rows f = [e..<e + wf_validation_size c]"
      "fd_test_rows f = [e + wf_validation_size c..<e + wf_validation_size c + wf_test_size c]"
      "fd_train_rows f = filter (\<lambda>i. \<not> leaks c ivs e i) [train_begin_index c e..<e]"
      "fd_purged_rows f = filter (leaks c ivs e) [train_begin_index c e..<e]"
      by (subst e(3), simp add: make_fold_rows windows_exact [OF lt])+
    have "wf_warmup c \<le> train_begin_index c e" using e(1) by (auto simp: train_begin_index_def)
    moreover have "fold_disjoint f" by (auto simp: fold_disjoint_def rows_unseen_distinct rows)
    moreover have "set (fd_train_rows f) \<union> set (fd_purged_rows f) = {train_begin_index c e..<e}"
      "set (fd_train_rows f) \<inter> set (fd_purged_rows f) = {}" by (auto simp: rows)
    ultimately show ?thesis using e rows by blast
  qed
  show ?thesis
    using wf_split_total [OF assms] wf_split_refused [of c ivs] one
    by (cases "wf_split c ivs") (auto simp: list_all_iff split: sum.split)
qed

section \<open>No leakage\<close>

lemma stamp_mono: "sorted (map obs_feature_end ivs) \<Longrightarrow> i \<le> j \<Longrightarrow> j < length ivs \<Longrightarrow>
    obs_feature_end (ivs ! i) \<le> obs_feature_end (ivs ! j)"
  using sorted_nth_mono [of "map obs_feature_end ivs" i j] by simp

lemma label_start_mono: "sorted (map label_start ivs) \<Longrightarrow> i \<le> j \<Longrightarrow> j < length ivs \<Longrightarrow>
    label_start (ivs ! i) \<le> label_start (ivs ! j)"
  using sorted_nth_mono [of "map label_start ivs" i j] by simp

lemma split_emits:
  assumes "wf_split c ivs = Some (Ok folds)" "f \<in> set folds" "sizes_fit c (length ivs)"
  obtains e where "wf_warmup c + wf_train_size c \<le> e" "e + wf_validation_size c + wf_test_size c \<le> length ivs"
    "e + wf_validation_size c + wf_test_size c < 2 ^ 64" "f = make_fold c ivs e (fd_id f)"
    "0 < wf_train_size c" "0 < wf_test_size c" "sorted (map obs_feature_end ivs)"
proof -
  have tot: "emitted c ivs f" "0 < wf_train_size c" "0 < wf_test_size c" "sorted (map obs_feature_end ivs)"
    using wf_split_total [OF assms(3)] assms(1,2) by (cases "ivs = []"; auto simp: wf_split_def)+
  then obtain e where e: "wf_warmup c + wf_train_size c \<le> e" "e + wf_validation_size c + wf_test_size c \<le> length ivs"
    "f = make_fold c ivs e (fd_id f)" by (auto simp: emitted_def)
  moreover have "e + wf_validation_size c + wf_test_size c < 2 ^ 64"
    using e(2) assms(3) unfolding sizes_fit_def by linarith
  ultimately show ?thesis using that tot by blast
qed

lemma split_rows_in_range:
  assumes "wf_split c ivs = Some (Ok folds)" "f \<in> set folds" "sizes_fit c (length ivs)"
  shows "set (fd_train_rows f) \<union> set (fd_validation_rows f) \<union> set (fd_test_rows f) \<subseteq> {..<length ivs}"
proof -
  obtain e where e: "e + wf_validation_size c + wf_test_size c \<le> length ivs"
    "e + wf_validation_size c + wf_test_size c < 2 ^ 64" "f = make_fold c ivs e (fd_id f)"
    using split_emits [OF assms] by blast
  show ?thesis by (subst (1 2 3) e(3), use e(1) in \<open>auto simp: make_fold_rows windows_exact [OF e(2)]\<close>)
qed

text \<open>
  With purging on, nothing the model learns from is known only later. Over well-formed observations whose labels
  start in order, the label of every training row has ended when the first row it is judged on is decided:
  no validation or test decision comes before the end of a training label.
\<close>

theorem no_training_label_reaches_evaluation:
  assumes "wf_split c ivs = Some (Ok folds)" "wf_purge c" "f \<in> set folds"
    and "\<forall>iv\<in>set ivs. interval_ok iv" "sorted (map label_start ivs)" "sizes_fit c (length ivs)"
    and "i \<in> set (fd_train_rows f)" "j \<in> set (fd_validation_rows f) \<union> set (fd_test_rows f)"
  shows "label_end (ivs ! i) \<le> obs_feature_end (ivs ! j)"
proof -
  obtain e where e: "wf_warmup c + wf_train_size c \<le> e" "e + wf_validation_size c + wf_test_size c \<le> length ivs"
    and lt: "e + wf_validation_size c + wf_test_size c < 2 ^ 64" and f: "f = make_fold c ivs e (fd_id f)"
    and tot: "0 < wf_train_size c" "0 < wf_test_size c" "sorted (map obs_feature_end ivs)"
    using split_emits [OF assms(1,3,6)] by blast
  have rows: "set (fd_train_rows f) = {i \<in> {train_begin_index c e..<e}. \<not> leaks c ivs e i}"
    "set (fd_validation_rows f) \<union> set (fd_test_rows f) = {e..<e + wf_validation_size c + wf_test_size c}"
    subgoal by (subst f) (auto simp: make_fold_rows)
    subgoal by (subst (1 2) f) (auto simp: make_fold_rows windows_exact [OF lt])
    done
  have i: "i < e" "\<not> leaks c ivs e i" using assms(7) by (simp_all add: rows(1))
  have j: "e \<le> j" "j < length ivs" using assms(8) e(2) by (simp_all add: rows(2))
  let ?last = "e + wf_validation_size c - 1"
  have last: "i \<le> ?last" "?last < length ivs" using i(1) e tot by simp_all
  have "label_start (ivs ! i) \<le> label_start (ivs ! ?last)" by (rule label_start_mono [OF assms(5) last])
  also have "\<dots> < label_end (ivs ! ?last)" using assms(4) last(2) by (simp add: interval_ok_def)
  finally have "label_start (ivs ! i) < label_end (ivs ! ?last)" .
  then have "label_end (ivs ! i) \<le> obs_feature_end (ivs ! e)"
    using i assms(2) tot by (simp add: leaks_exact [OF lt] label_overlaps_def)
  also have "\<dots> \<le> obs_feature_end (ivs ! j)" by (rule stamp_mono [OF tot(3) j])
  finally show ?thesis .
qed

section \<open>The embargo\<close>

abbreviation without_embargo :: "Fold \<Rightarrow> Fold" where
  "without_embargo f \<equiv> f\<lparr>fd_embargoed_rows := []\<rparr>"

lemma make_fold_embargo:
  "without_embargo (make_fold (c\<lparr>wf_embargo := k\<rparr>) ivs e fid) = without_embargo (make_fold c ivs e fid)"
  "fd_train_rows (make_fold (c\<lparr>wf_embargo := k\<rparr>) ivs e fid) = fd_train_rows (make_fold c ivs e fid)"
proof -
  have "leaks (c\<lparr>wf_embargo := k\<rparr>) ivs e = leaks c ivs e" by (rule ext) (simp add: leaks_def)
  then show "without_embargo (make_fold (c\<lparr>wf_embargo := k\<rparr>) ivs e fid) = without_embargo (make_fold c ivs e fid)"
    "fd_train_rows (make_fold (c\<lparr>wf_embargo := k\<rparr>) ivs e fid) = fd_train_rows (make_fold c ivs e fid)"
    by (simp_all add: make_fold_def train_begin_index_def Let_def)
qed

lemma split_loop_embargo:
  assumes "0 < wf_step c" "length ivs + wf_step c < 2 ^ 64"
  shows "map without_embargo gs = map without_embargo fs \<Longrightarrow> e + wf_validation_size c + wf_test_size c < 2 ^ 64 \<Longrightarrow>
    map_option (map without_embargo) (split_loop (c\<lparr>wf_embargo := k\<rparr>) ivs e fid gs)
      = map_option (map without_embargo) (split_loop c ivs e fid fs)"
proof (induction "length ivs - e" arbitrary: e fid fs gs rule: less_induct)
  case less
  note step = split_loop.simps [of c ivs e fid fs] split_loop.simps [of "c\<lparr>wf_embargo := k\<rparr>" ivs e fid gs]
    and exact = windows_exact [OF less.prems(2)]
  show ?case
  proof (cases "length ivs < e + wf_validation_size c + wf_test_size c")
    case True
    then show ?thesis using less.prems(1) by (simp add: step exact)
  next
    case False
    let ?f = "make_fold c ivs e fid" and ?g = "make_fold (c\<lparr>wf_embargo := k\<rparr>) ivs e fid"
    let ?t = "\<lambda>h hs. if length (fd_train_rows ?f) < wf_min_train_rows c then hs else hs @ [h]"
    have eq: "map without_embargo (?t ?g gs) = map without_embargo (?t ?f fs)"
      using less.prems(1) make_fold_embargo(1) by simp
    have fits: "e + wf_step c + wf_validation_size c + wf_test_size c < 2 ^ 64" using False assms(2) by linarith
    then have up: "size_add e (wf_step c) = e + wf_step c" by simp
    have "map_option (map without_embargo) (split_loop (c\<lparr>wf_embargo := k\<rparr>) ivs (e + wf_step c) (fid + 1) (?t ?g gs))
      = map_option (map without_embargo) (split_loop c ivs (e + wf_step c) (fid + 1) (?t ?f fs))"
    proof (cases "e < length ivs")
      case True
      then show ?thesis using assms(1) by (intro less.hyps [OF _ eq fits]) simp
    next
      case end_reached: False
      have "split_loop d ivs (e + wf_step c) (fid + 1) hs = Some hs"
        if "wf_validation_size d = wf_validation_size c" "wf_test_size d = wf_test_size c" for d hs
        using end_reached assms(1) windows_exact [OF fits] that by (subst split_loop.simps) simp
      then show ?thesis using eq by simp
    qed
    then show ?thesis using False by (simp add: step exact up make_fold_embargo(2) Let_def)
  qed
qed

text \<open>
  The embargo changes nothing. Whatever embargo is configured, the folds have the same training, validation, test
  and purged rows: the rows after a test window are listed as embargoed and no fold leaves them out of its
  training set.
\<close>

theorem the_embargo_excludes_nothing:
  assumes "sizes_fit c (length ivs)"
  shows "map_option (map_sum id (map without_embargo)) (wf_split (c\<lparr>wf_embargo := k\<rparr>) ivs)
     = map_option (map_sum id (map without_embargo)) (wf_split c ivs)"
proof -
  have "map_option (map without_embargo) (split_loop (c\<lparr>wf_embargo := k\<rparr>) ivs (size_add (wf_warmup c) (wf_train_size c)) 0 [])
      = map_option (map without_embargo) (split_loop c ivs (size_add (wf_warmup c) (wf_train_size c)) 0 [])" if "wf_step c \<noteq> 0"
    using that assms by (intro split_loop_embargo) (simp_all add: sizes_fit_def)
  from this [THEN arg_cong [of _ _ "map_option Inr"]] show ?thesis
    by (auto simp: wf_split_def option.map_comp comp_def split: option.split)
qed

section \<open>The locked holdout\<close>

lemma filter_rows_out:
  "fr_allowed_rows (filter_rows g k ivs out) = fr_allowed_rows out
     @ filter (\<lambda>i. hg_unlocked g \<or> \<not> touches_holdout g (ivs ! (i - k))) [k..<k + length ivs]
   \<and> fr_withheld (filter_rows g k ivs out) + length (fr_allowed_rows (filter_rows g k ivs out))
     = fr_withheld out + length (fr_allowed_rows out) + length ivs"
proof (induction ivs arbitrary: k out)
  case (Cons iv ivs)
  have up: "[k..<k + length (iv # ivs)] = k # [Suc k..<Suc k + length ivs]" by (simp add: upt_rec)
  have "filter (\<lambda>i. hg_unlocked g \<or> \<not> touches_holdout g ((iv # ivs) ! (i - k))) [Suc k..<Suc k + length ivs]
      = filter (\<lambda>i. hg_unlocked g \<or> \<not> touches_holdout g (ivs ! (i - Suc k))) [Suc k..<Suc k + length ivs]"
  proof (rule filter_cong [OF refl])
    fix i assume "i \<in> set [Suc k..<Suc k + length ivs]"
    then have "i - k = Suc (i - Suc k)" by auto
    then show "(hg_unlocked g \<or> \<not> touches_holdout g ((iv # ivs) ! (i - k)))
        = (hg_unlocked g \<or> \<not> touches_holdout g (ivs ! (i - Suc k)))" by simp
  qed
  note same = this and ih = Cons.IH [of "Suc k"]
  show ?case
  proof (cases "touches_holdout g iv \<and> \<not> hg_unlocked g")
    case True
    then show ?thesis using ih [of "out\<lparr>fr_withheld := fr_withheld out + 1\<rparr>"] same
      unfolding up by (auto simp del: upt_Suc)
  next
    case False
    then show ?thesis using ih [of "out\<lparr>fr_allowed_rows := fr_allowed_rows out @ [k]\<rparr>"] same
      unfolding up by (auto simp del: upt_Suc)
  qed
qed simp

lemma scan_rows_ok:
  "is_ok (scan_rows g ivs fid kind is) \<longleftrightarrow> filter (\<lambda>i. i < length ivs \<and> touches_holdout g (ivs ! i)) is = []"
  "is_ok (scan_rows g ivs fid kind is) \<longleftrightarrow> scan_rows g ivs fid kind is = Ok True"
  by (induction "is") (auto simp: is_ok_def)

lemma check_fold_ok:
  "check_fold g f ivs = Ok True \<longleftrightarrow> hg_unlocked g \<or>
     filter (\<lambda>i. i < length ivs \<and> touches_holdout g (ivs ! i)) (fd_train_rows f @ fd_validation_rows f @ fd_test_rows f) = []"
proof (cases "hg_unlocked g \<or> \<not> is_set (hg_boundary g)")
  case True
  then show ?thesis by (auto simp: check_fold_def touches_holdout_def is_holdout_def)
next
  case False
  have r: "(\<exists>e. x = Inl e) \<or> x = Ok True" if "x = scan_rows g ivs fid kind is" for x fid kind "is"
    unfolding that using scan_rows_ok(2) [of g ivs fid kind "is"] by (cases "scan_rows g ivs fid kind is") (auto simp: is_ok_def)
  show ?thesis
    using False r scan_rows_ok(1) [of g ivs "fd_id f" SetTrain "fd_train_rows f"]
      scan_rows_ok(1) [of g ivs "fd_id f" SetValidation "fd_validation_rows f"]
      scan_rows_ok(1) [of g ivs "fd_id f" SetTest "fd_test_rows f"]
    by (auto simp: check_fold_def is_ok_def split: sum.splits)
qed

text \<open>
  A locked holdout is never read. The filter lets through exactly the rows that neither decide nor label inside
  the holdout, in order, and counts the rest; a fold passes the check exactly when no row of its three sets
  touches the holdout; and the only way past either is an unlock, which a justification must come with.
\<close>

theorem a_locked_holdout_is_never_read:
  "fr_allowed_rows (holdout_filter g ivs)
     = filter (\<lambda>i. if touches_holdout g (ivs ! i) then hg_unlocked g else True) [0..<length ivs]
   \<and> fr_withheld (holdout_filter g ivs) + length (fr_allowed_rows (holdout_filter g ivs)) = length ivs
   \<and> (check_fold g f ivs = Ok True \<longleftrightarrow> hg_unlocked g \<or>
        filter (\<lambda>i. i < length ivs \<and> touches_holdout g (ivs ! i))
          (fd_train_rows f @ fd_validation_rows f @ fd_test_rows f) = [])
   \<and> hg_unlocked (snd (holdout_unlock why g)) = (if why = [] then hg_unlocked g else True)"
proof -
  have "(\<lambda>i. if touches_holdout g (ivs ! i) then hg_unlocked g else True)
      = (\<lambda>i. hg_unlocked g \<or> \<not> touches_holdout g (ivs ! i))" by auto
  then show ?thesis
    using filter_rows_out [of g 0 ivs "\<lparr>fr_allowed_rows = [], fr_withheld = 0\<rparr>"] check_fold_ok [of g f ivs]
    by (auto simp: holdout_filter_def holdout_unlock_def)
qed

section \<open>The signature\<close>

lemma dec_string_takeWhile:
  assumes "x = [] \<or> \<not> is_digit (hd x)"
  shows "takeWhile is_digit (dec_string n @ x) = dec_string n"
proof -
  have "takeWhile is_digit (dec_string n @ x) = dec_string n @ takeWhile is_digit x"
    using dec_string_digits [of n] by (intro takeWhile_append2) (simp add: list_all_iff)
  then show ?thesis using assms by (cases x) auto
qed

lemma dec_string_eq_iff [simp]: "dec_string a = dec_string b \<longleftrightarrow> a = b"
  by (metis of_nat_eq_iff option.inject parse_dec_string)

lemma dec_string_cut:
  assumes "dec_string a @ x = dec_string b @ y" "x = [] \<or> \<not> is_digit (hd x)" "y = [] \<or> \<not> is_digit (hd y)"
  shows "a = b \<and> x = y"
proof -
  have "dec_string a = dec_string b"
    using dec_string_takeWhile [OF assms(2), of a] dec_string_takeWhile [OF assms(3), of b] assms(1) by simp
  then show ?thesis using assms(1) by simp
qed

lemma bar_not_digit [simp]: "\<not> is_digit CHR 0x7C"
  by (simp add: is_digit_def)

lemma mode_cut: "to_string_WindowMode m @ ''|'' @ x = to_string_WindowMode k @ ''|'' @ y \<Longrightarrow> m = k \<and> x = y"
  by (cases m; cases k) simp_all

text \<open>
  A signature says which configuration it is: two configurations with the same signature are equal, so the hash
  that identifies a run is taken over every parameter of the split.
\<close>

theorem signature_identifies_the_split:
  "inj wf_signature"
proof (rule injI)
  fix c d :: WalkForwardConfig
  assume eq: "wf_signature c = wf_signature d"
  have tail: "wf_signature x = to_string_WindowMode (wf_mode x) @ ''|'' @ ''train='' @ dec_string (wf_train_size x)
      @ ''|val='' @ dec_string (wf_validation_size x) @ ''|test='' @ dec_string (wf_test_size x)
      @ ''|step='' @ dec_string (wf_step x) @ ''|warmup='' @ dec_string (wf_warmup x)
      @ ''|embargo='' @ dec_string (wf_embargo x) @ ''|min_train='' @ dec_string (wf_min_train_rows x)
      @ ''|purge='' @ (if wf_purge x then ''1'' else ''0'')" for x
    by (simp add: wf_signature_def)
  note one = mode_cut [OF eq [unfolded tail]]
  have cut: "dec_string a @ CHR 0x7C # u = dec_string b @ CHR 0x7C # v \<longleftrightarrow> a = b \<and> u = v" for a b u v
    using dec_string_cut [of a "CHR 0x7C # u" b "CHR 0x7C # v"] by auto
  have "wf_mode c = wf_mode d" using one by blast
  moreover have "wf_train_size c = wf_train_size d \<and> wf_validation_size c = wf_validation_size d
      \<and> wf_test_size c = wf_test_size d \<and> wf_step c = wf_step d \<and> wf_warmup c = wf_warmup d
      \<and> wf_embargo c = wf_embargo d \<and> wf_min_train_rows c = wf_min_train_rows d \<and> wf_purge c = wf_purge d"
    using conjunct2 [OF one] by (simp add: cut split: if_splits)
  ultimately show "c = d" by (cases c; cases d) simp
qed

section \<open>A split to try it on\<close>

definition sample_intervals :: "ObservationInterval list" where
  "sample_intervals = map (\<lambda>k. \<lparr>sample_start = 10 * int k, obs_feature_end = 10 * int k + 5,
     label_start = 10 * int k + 6, label_end = 10 * int k + 18\<rparr>) [0..<9]"

definition sample_walk :: WalkForwardConfig where
  "sample_walk = \<lparr>wf_mode = Rolling, wf_train_size = 3, wf_validation_size = 1, wf_test_size = 2, wf_step = 2,
     wf_warmup = 0, wf_embargo = 1, wf_min_train_rows = 1, wf_purge = True\<rparr>"

lemma sample_walk_sel [simp]:
  "wf_mode sample_walk = Rolling" "wf_train_size sample_walk = 3" "wf_validation_size sample_walk = 1"
  "wf_test_size sample_walk = 2" "wf_step sample_walk = 2" "wf_warmup sample_walk = 0"
  "wf_min_train_rows sample_walk = 1" "wf_purge sample_walk"
  by (simp_all add: sample_walk_def)

lemma sample_split:
  "wf_split sample_walk sample_intervals =
     Some (Ok [make_fold sample_walk sample_intervals 3 0, make_fold sample_walk sample_intervals 5 1])"
proof -
  have n: "length sample_intervals = 9" by (simp add: sample_intervals_def)
  have t: "fd_train_rows (make_fold sample_walk sample_intervals 3 0) \<noteq> []"
    "fd_train_rows (make_fold sample_walk sample_intervals 5 1) \<noteq> []"
    by (simp_all add: make_fold_def sample_walk_def sample_intervals_def train_begin_index_def leaks_def
        label_overlaps_def upt_rec Let_def)
  have "split_loop sample_walk sample_intervals 3 0 [] =
     Some [make_fold sample_walk sample_intervals 3 0, make_fold sample_walk sample_intervals 5 1]"
    using t by (subst split_loop.simps, simp add: n Let_def)+
  moreover have "first_unordered 1 sample_intervals = None"
    by (simp add: first_unordered_none sample_intervals_def upt_rec)
  moreover have "sample_intervals \<noteq> []" using n by auto
  ultimately show ?thesis by (simp add: wf_split_def)
qed

lemma sample_sizes_fit: "sizes_fit sample_walk (length sample_intervals)"
  by (simp add: sizes_fit_def sample_intervals_def)

theorem splitting_returns_proper_folds_witness:
  "list_all (\<lambda>f. fold_disjoint f \<and> 1 \<le> length (fd_train_rows f)
      \<and> (\<exists>b e. fd_validation_rows f = [e..<e + 1] \<and> fd_test_rows f = [e + 1..<e + 1 + 2] \<and> e + 1 + 2 \<le> 9
           \<and> 0 \<le> b \<and> set (fd_train_rows f) \<union> set (fd_purged_rows f) = {b..<e}
           \<and> set (fd_train_rows f) \<inter> set (fd_purged_rows f) = {}))
    [make_fold sample_walk sample_intervals 3 0, make_fold sample_walk sample_intervals 5 1]"
proof -
  have n: "length sample_intervals = 9" by (simp add: sample_intervals_def)
  show ?thesis
    using splitting_returns_proper_folds [OF sample_sizes_fit]
    unfolding sample_split n sample_walk_sel option.case sum.case .
qed

theorem no_training_label_reaches_evaluation_witness:
  "\<exists>folds. wf_split sample_walk sample_intervals = Some (Ok folds) \<and> folds \<noteq> []
     \<and> label_end (sample_intervals ! 1) \<le> obs_feature_end (sample_intervals ! 4)"
proof -
  let ?f = "make_fold sample_walk sample_intervals 3 0"
  have "label_end (sample_intervals ! 1) \<le> obs_feature_end (sample_intervals ! 4)"
    by (rule no_training_label_reaches_evaluation [OF sample_split _ _ _ _ sample_sizes_fit, where f = ?f])
      (simp_all add: sample_walk_def sample_intervals_def make_fold_def train_begin_index_def leaks_def
        label_overlaps_def interval_ok_def upt_rec Let_def)
  then show ?thesis using sample_split by blast
qed

section \<open>What a size that wraps does\<close>

text \<open>
  A validation size just below the largest \<open>std::size_t\<close>: the end of the validation window wraps, so the window is
  empty and the test window starts before the training window has ended.
\<close>

definition wrapping_walk :: WalkForwardConfig where
  "wrapping_walk = \<lparr>wf_mode = Expanding, wf_train_size = 10, wf_validation_size = 2 ^ 64 - 5, wf_test_size = 1,
     wf_step = 100, wf_warmup = 0, wf_embargo = 0, wf_min_train_rows = 1, wf_purge = False\<rparr>"

lemma wrapping_walk_sel [simp]:
  "wf_mode wrapping_walk = Expanding" "wf_train_size wrapping_walk = 10" "wf_validation_size wrapping_walk = 2 ^ 64 - 5"
  "wf_test_size wrapping_walk = 1" "wf_step wrapping_walk = 100" "wf_warmup wrapping_walk = 0"
  "wf_min_train_rows wrapping_walk = 1" "\<not> wf_purge wrapping_walk"
  by (simp_all add: wrapping_walk_def)

text \<open>
  A size that wraps trains on the test row. The configuration has no zero size and the observations are in order, so
  splitting succeeds; its one fold is tested on row 5, which it also trains on, with four rows after it.
\<close>

theorem a_wrapping_size_trains_on_the_test_row:
  assumes "sorted (map obs_feature_end ivs)" "12 \<le> length ivs" "length ivs < 100"
  shows "\<exists>f. wf_split wrapping_walk ivs = Some (Ok [f]) \<and> fd_test_rows f = [5]
    \<and> fd_train_rows f = [0..<10] \<and> \<not> fold_disjoint f"
proof -
  let ?f = "make_fold wrapping_walk ivs 10 0"
  have ends: "size_add 10 (2 ^ 64 - 5) = 5" "size_add 5 1 = 6" "size_add 10 100 = 110" "size_add 110 (2 ^ 64 - 5) = 105"
    "size_add 105 1 = 106" "size_add 0 10 = 10" by (simp_all add: size_add_def)
  have leak: "\<not> leaks wrapping_walk ivs 10 i" for i by (simp add: leaks_def Let_def)
  have rows: "fd_test_rows ?f = [5]" "fd_train_rows ?f = [0..<10]" "fd_validation_rows ?f = []"
    by (simp_all only: make_fold_rows wrapping_walk_sel ends)
      (simp_all add: upt_rec train_begin_index_def leak)
  have "split_loop wrapping_walk ivs 110 1 [?f] = Some [?f]"
    using assms(3) by (subst split_loop.simps) (simp only: wrapping_walk_sel ends, simp)
  then have "split_loop wrapping_walk ivs 10 0 [] = Some [?f]"
    using assms(2) by (subst split_loop.simps) (simp only: wrapping_walk_sel ends Let_def rows, simp)
  moreover have "ivs \<noteq> []" using assms(2) by auto
  moreover have "\<not> fold_disjoint ?f"
    by (simp only: fold_disjoint_def rows) (simp add: rows_unseen_distinct)
  moreover have "first_unordered 1 ivs = None" using assms(1) by (simp add: first_unordered_none)
  ultimately show ?thesis using rows
    by (intro exI [of _ ?f]) (simp only: wf_split_def wrapping_walk_sel ends, simp)
qed

end
