(* ===== verification/Signals.thy ===== *)
theory Signals
  imports Calendar AlgoSchedule
begin

text \<open>
  Signals (\<open>signal/signal.cpp\<close>, \<open>signal/filter.cpp\<close>, \<open>signal/generator.cpp\<close>): what a prediction becomes before
  anything is traded on it. A signal is built only by \<open>signal_create\<close> and \<open>signal_flat\<close>; three generators turn a
  prediction into one; the filter chain decides whether it may be acted on. The texts of errors and filter
  decisions are left out, the reasons are kept.
\<close>

section \<open>Signals\<close>

datatype Direction = DirShort | DirFlat | DirLong

fun direction_sign :: "Direction \<Rightarrow> int" where
  "direction_sign DirShort = -1"
| "direction_sign DirFlat = 0"
| "direction_sign DirLong = 1"

fun to_string_Direction :: "Direction \<Rightarrow> string" where
  "to_string_Direction DirLong = ''long''"
| "to_string_Direction DirShort = ''short''"
| "to_string_Direction DirFlat = ''flat''"

record CostEstimate =
  ce_half_spread :: f64
  ce_commission :: f64
  ce_slippage :: f64
  ce_borrow :: f64
  ce_turnover_penalty :: f64

definition no_costs :: CostEstimate where
  "no_costs = \<lparr>ce_half_spread = fzero, ce_commission = fzero, ce_slippage = fzero, ce_borrow = fzero,
     ce_turnover_penalty = fzero\<rparr>"

definition cost_total :: "CostEstimate \<Rightarrow> f64" where
  "cost_total c = fadd (fadd (fadd (fadd (ce_half_spread c) (ce_commission c)) (ce_slippage c)) (ce_borrow c))
     (ce_turnover_penalty c)"

record Signal =
  sig_as_of :: Timestamp
  sig_instrument :: InstrumentId
  sig_direction :: Direction
  sig_expected_return :: f64
  sig_net_edge :: f64
  sig_confidence :: f64
  sig_horizon :: Duration
  sig_model_id :: "64 word"
  sig_costs :: CostEstimate

datatype signal_error = SignalNoTimestamp | SignalNoInstrument | ReturnNotFinite | BadConfidence f64 | BadHorizon
  | NoModelId | BadCosts | PredictionNotFinite | PredictionFromFuture Timestamp Timestamp
  | NullMember | BadMemberWeight | NoMembers

definition signal_create ::
    "Timestamp \<Rightarrow> InstrumentId \<Rightarrow> Direction \<Rightarrow> f64 \<Rightarrow> f64 \<Rightarrow> Duration \<Rightarrow> 64 word \<Rightarrow> CostEstimate
      \<Rightarrow> (signal_error, Signal) result" where
  "signal_create as_of instrument direction expected_return confidence horizon model_id costs =
     (if \<not> is_set as_of then Err SignalNoTimestamp
      else if instrument = kInvalidInstrument then Err SignalNoInstrument
      else if \<not> is_finite expected_return then Err ReturnNotFinite
      else if \<not> is_finite confidence \<or> flt confidence fzero \<or> flt (lit 1) confidence then Err (BadConfidence confidence)
      else if horizon \<le> 0 then Err BadHorizon
      else if model_id = 0 then Err NoModelId
      else if \<not> is_finite (cost_total costs) \<or> flt (cost_total costs) fzero then Err BadCosts
      else Ok \<lparr>sig_as_of = as_of, sig_instrument = instrument, sig_direction = direction,
             sig_expected_return = expected_return,
             sig_net_edge = (if direction = DirFlat then fzero else fsub (fabs expected_return) (cost_total costs)),
             sig_confidence = confidence, sig_horizon = horizon, sig_model_id = model_id, sig_costs = costs\<rparr>)"

definition signal_flat :: "Timestamp \<Rightarrow> InstrumentId \<Rightarrow> 64 word \<Rightarrow> Signal" where
  "signal_flat as_of instrument model_id =
     \<lparr>sig_as_of = as_of, sig_instrument = instrument, sig_direction = DirFlat, sig_expected_return = fzero,
      sig_net_edge = fzero, sig_confidence = fzero, sig_horizon = 60 * 10 ^ 9, sig_model_id = model_id,
      sig_costs = no_costs\<rparr>"

definition is_flat_signal :: "Signal \<Rightarrow> bool" where
  "is_flat_signal s \<longleftrightarrow> sig_direction s = DirFlat"

definition is_actionable :: "Signal \<Rightarrow> bool" where
  "is_actionable s \<longleftrightarrow> sig_direction s \<noteq> DirFlat \<and> flt fzero (sig_net_edge s)"

definition expires_at :: "Signal \<Rightarrow> Timestamp" where
  "expires_at s = sig_as_of s + sig_horizon s"

section \<open>Generators\<close>

record GeneratorInput =
  gi_as_of :: Timestamp
  gi_instrument :: InstrumentId
  gi_prediction :: f64
  gi_prediction_time :: Timestamp
  gi_volatility :: f64
  gi_reference_price :: Price
  gi_costs :: CostEstimate

datatype PredictionKind = Regression | Probability

record GeneratorConfig =
  gc_kind :: PredictionKind
  gc_horizon :: Duration
  gc_entry_threshold :: f64
  gc_probability_return_scale :: f64
  gc_direction_multiplier :: f64
  gc_allow_short :: bool

definition default_generator :: GeneratorConfig where
  "default_generator = \<lparr>gc_kind = Regression, gc_horizon = 15 * 60 * 10 ^ 9, gc_entry_threshold = fzero,
     gc_probability_return_scale = lit (1 / 1000), gc_direction_multiplier = lit 1, gc_allow_short = True\<rparr>"

definition check_causality :: "GeneratorInput \<Rightarrow> (signal_error, bool) result" where
  "check_causality gin =
     (if \<not> is_set (gi_as_of gin) then Err SignalNoTimestamp
      else if gi_instrument gin = kInvalidInstrument then Err SignalNoInstrument
      else if \<not> is_finite (gi_prediction gin) then Err PredictionNotFinite
      else if is_set (gi_prediction_time gin) \<and> gi_as_of gin < gi_prediction_time gin
      then Err (PredictionFromFuture (gi_prediction_time gin) (gi_as_of gin))
      else Ok True)"

record Interpretation =
  vw_direction :: Direction
  vw_expected_return :: f64
  vw_confidence :: f64

definition no_view :: Interpretation where
  "no_view = \<lparr>vw_direction = DirFlat, vw_expected_return = fzero, vw_confidence = fzero\<rparr>"

definition raw_view :: "GeneratorInput \<Rightarrow> GeneratorConfig \<Rightarrow> Interpretation" where
  "raw_view gin cfg =
     (let raw = fmul (gi_prediction gin) (gc_direction_multiplier cfg) in
      if gc_kind cfg = Probability then
        (let centred = fsub raw (lit (1 / 2)) in
         if feq centred fzero then no_view
         else if flt (fabs centred) (gc_entry_threshold cfg) then no_view
         else \<lparr>vw_direction = (if flt fzero centred then DirLong else DirShort),
               vw_expected_return = fmul (fmul centred (lit 2)) (gc_probability_return_scale cfg),
               vw_confidence = fclamp (fmul (fabs centred) (lit 2)) fzero (lit 1)\<rparr>)
      else if feq raw fzero then no_view
      else if flt (fabs raw) (gc_entry_threshold cfg) then no_view
      else
        (let sigma = (if flt fzero (gi_volatility gin) then gi_volatility gin else lit 1) in
         \<lparr>vw_direction = (if flt fzero raw then DirLong else DirShort), vw_expected_return = raw,
          vw_confidence = fclamp (fdiv (fabs raw) sigma) fzero (lit 1)\<rparr>))"

definition interpret_prediction :: "GeneratorInput \<Rightarrow> GeneratorConfig \<Rightarrow> Interpretation" where
  "interpret_prediction gin cfg =
     (let out = raw_view gin cfg in
      if vw_direction out = DirShort \<and> \<not> gc_allow_short cfg then no_view else out)"

record SignalGenerator =
  sg_name :: string
  sg_model_id :: "64 word"
  sg_cfg :: GeneratorConfig

definition model_generate :: "SignalGenerator \<Rightarrow> GeneratorInput \<Rightarrow> (signal_error, Signal) result" where
  "model_generate g gin =
     (case check_causality gin of
        Inl e \<Rightarrow> Err e
      | Inr _ \<Rightarrow>
          (let view = interpret_prediction gin (sg_cfg g) in
           if vw_direction view = DirFlat then Ok (signal_flat (gi_as_of gin) (gi_instrument gin) (sg_model_id g))
           else signal_create (gi_as_of gin) (gi_instrument gin) (vw_direction view) (vw_expected_return view)
                  (vw_confidence view) (gc_horizon (sg_cfg g)) (sg_model_id g) (gi_costs gin)))"

definition rule_generate :: "SignalGenerator \<Rightarrow> GeneratorInput \<Rightarrow> (signal_error, Signal) result" where
  "rule_generate g gin =
     (case check_causality gin of
        Inl e \<Rightarrow> Err e
      | Inr _ \<Rightarrow>
          (let view = interpret_prediction gin (sg_cfg g) in
           if vw_direction view = DirFlat then Ok (signal_flat (gi_as_of gin) (gi_instrument gin) (sg_model_id g))
           else signal_create (gi_as_of gin) (gi_instrument gin) (vw_direction view) (vw_expected_return view)
                  (vw_confidence view) (gc_horizon (sg_cfg g)) (sg_model_id g) (gi_costs gin)))"

subsection \<open>Ensembles\<close>

text \<open>A member is any generator, as the function the interface gives it, with its weight.\<close>

type_synonym generate_fn = "GeneratorInput \<Rightarrow> (signal_error, Signal) result"

datatype EnsembleMethod = WeightedAverage | Voting | ConfidenceWeighted

fun to_string_EnsembleMethod :: "EnsembleMethod \<Rightarrow> string" where
  "to_string_EnsembleMethod WeightedAverage = ''weighted_average''"
| "to_string_EnsembleMethod Voting = ''voting''"
| "to_string_EnsembleMethod ConfidenceWeighted = ''confidence_weighted''"

record EnsembleGenerator =
  eg_name :: string
  eg_model_id :: "64 word"
  eg_method :: EnsembleMethod
  eg_horizon :: Duration
  eg_members :: "(generate_fn \<times> f64) list"

definition ensemble_add ::
    "generate_fn option \<Rightarrow> f64 \<Rightarrow> EnsembleGenerator \<Rightarrow> (signal_error, bool) result \<times> EnsembleGenerator" where
  "ensemble_add member weight g =
     (case member of
        None \<Rightarrow> (Err NullMember, g)
      | Some m \<Rightarrow>
          if \<not> is_finite weight \<or> fle weight fzero then (Err BadMemberWeight, g)
          else (Ok True, g\<lparr>eg_members := eg_members g @ [(m, weight)]\<rparr>))"

fun collect_votes ::
    "(generate_fn \<times> f64) list \<Rightarrow> GeneratorInput \<Rightarrow> (Signal \<times> f64) list \<Rightarrow> (signal_error, (Signal \<times> f64) list) result" where
  "collect_votes [] gin votes = Ok votes"
| "collect_votes ((m, w) # ms) gin votes =
     (case m gin of Inl e \<Rightarrow> Err e | Inr s \<Rightarrow> collect_votes ms gin (votes @ [(s, w)]))"

record VoteTotals =
  vt_weight :: f64
  vt_return :: f64
  vt_confidence :: f64
  vt_long :: f64
  vt_short :: f64

definition count_vote :: "EnsembleMethod \<Rightarrow> VoteTotals \<Rightarrow> Signal \<times> f64 \<Rightarrow> VoteTotals" where
  "count_vote mtd t = (\<lambda>(v, w0).
     (let w = (if mtd = ConfidenceWeighted then fmul w0 (sig_confidence v) else w0) in
      \<lparr>vt_weight = fadd (vt_weight t) w,
       vt_return = fadd (vt_return t) (fmul (sig_expected_return v) w),
       vt_confidence = fadd (vt_confidence t) (fmul (sig_confidence v) w),
       vt_long = (if sig_direction v = DirLong then fadd (vt_long t) w else vt_long t),
       vt_short = (if sig_direction v = DirShort then fadd (vt_short t) w else vt_short t)\<rparr>))"

definition tally :: "EnsembleMethod \<Rightarrow> (Signal \<times> f64) list \<Rightarrow> VoteTotals" where
  "tally mtd votes = foldl (count_vote mtd)
     \<lparr>vt_weight = fzero, vt_return = fzero, vt_confidence = fzero, vt_long = fzero, vt_short = fzero\<rparr> votes"

definition verdict :: "EnsembleMethod \<Rightarrow> VoteTotals \<Rightarrow> Interpretation" where
  "verdict mtd t =
     (let expected = fdiv (vt_return t) (vt_weight t) in
      if mtd = Voting then
        \<lparr>vw_direction = (if flt (vt_short t) (vt_long t) then DirLong
           else if flt (vt_long t) (vt_short t) then DirShort else DirFlat),
         vw_expected_return = expected,
         vw_confidence = fclamp (fdiv (fmax (vt_long t) (vt_short t)) (vt_weight t)) fzero (lit 1)\<rparr>
      else
        \<lparr>vw_direction = (if flt fzero expected then DirLong else if flt expected fzero then DirShort else DirFlat),
         vw_expected_return = expected,
         vw_confidence = fclamp (fdiv (vt_confidence t) (vt_weight t)) fzero (lit 1)\<rparr>)"

definition ensemble_generate :: "EnsembleGenerator \<Rightarrow> GeneratorInput \<Rightarrow> (signal_error, Signal) result" where
  "ensemble_generate g gin =
     (case check_causality gin of
        Inl e \<Rightarrow> Err e
      | Inr _ \<Rightarrow>
          if eg_members g = [] then Err NoMembers
          else (case collect_votes (eg_members g) gin [] of
             Inl e \<Rightarrow> Err e
           | Inr votes \<Rightarrow>
               (let t = tally (eg_method g) votes;
                    flat = signal_flat (gi_as_of gin) (gi_instrument gin) (eg_model_id g) in
                if fle (vt_weight t) fzero then Ok flat
                else
                  (let view = verdict (eg_method g) t in
                   if vw_direction view = DirFlat then Ok flat
                   else signal_create (gi_as_of gin) (gi_instrument gin) (vw_direction view)
                          (vw_expected_return view) (vw_confidence view) (eg_horizon g) (eg_model_id g)
                          (gi_costs gin)))))"

section \<open>The filter chain\<close>

datatype FilterReason = FrPassed | FrLowConfidence | FrNegativeNetEdge | FrVolatilityOutOfRange
  | FrInsufficientLiquidity | FrSpreadTooWide | FrOutsideTradingHours | FrCooldownActive | FrStaleFeatures
  | FrStalePrediction | FrNoMarketData

fun to_string_FilterReason :: "FilterReason \<Rightarrow> string" where
  "to_string_FilterReason FrPassed = ''passed''"
| "to_string_FilterReason FrLowConfidence = ''low_confidence''"
| "to_string_FilterReason FrNegativeNetEdge = ''negative_net_edge''"
| "to_string_FilterReason FrVolatilityOutOfRange = ''volatility_out_of_range''"
| "to_string_FilterReason FrInsufficientLiquidity = ''insufficient_liquidity''"
| "to_string_FilterReason FrSpreadTooWide = ''spread_too_wide''"
| "to_string_FilterReason FrOutsideTradingHours = ''outside_trading_hours''"
| "to_string_FilterReason FrCooldownActive = ''cooldown_active''"
| "to_string_FilterReason FrStaleFeatures = ''stale_features''"
| "to_string_FilterReason FrStalePrediction = ''stale_prediction''"
| "to_string_FilterReason FrNoMarketData = ''no_market_data''"

fun reason_value :: "FilterReason \<Rightarrow> nat" where
  "reason_value FrPassed = 0"
| "reason_value FrLowConfidence = 1"
| "reason_value FrNegativeNetEdge = 2"
| "reason_value FrVolatilityOutOfRange = 3"
| "reason_value FrInsufficientLiquidity = 4"
| "reason_value FrSpreadTooWide = 5"
| "reason_value FrOutsideTradingHours = 6"
| "reason_value FrCooldownActive = 7"
| "reason_value FrStaleFeatures = 8"
| "reason_value FrStalePrediction = 9"
| "reason_value FrNoMarketData = 10"

record FilterContext =
  fx_now :: Timestamp
  fx_realized_volatility :: f64
  fx_interval_volume :: f64
  fx_average_volume :: f64
  fx_spread_bps :: Bps
  fx_feature_age :: Duration
  fx_prediction_age :: Duration
  fx_has_market_data :: bool

record FilterConfig =
  fcg_min_confidence :: f64
  fcg_require_positive_net_edge :: bool
  fcg_min_volatility :: f64
  fcg_max_volatility :: f64
  fcg_min_relative_volume :: f64
  fcg_min_interval_volume :: f64
  fcg_max_spread_bps :: Bps
  fcg_open_buffer :: Duration
  fcg_close_buffer :: Duration
  fcg_cooldown :: Duration
  fcg_max_feature_age :: Duration
  fcg_max_prediction_age :: Duration

definition default_filters :: FilterConfig where
  "default_filters = \<lparr>fcg_min_confidence = lit (55 / 100), fcg_require_positive_net_edge = True,
     fcg_min_volatility = fzero, fcg_max_volatility = lit 1, fcg_min_relative_volume = lit (1 / 10),
     fcg_min_interval_volume = fzero, fcg_max_spread_bps = lit 25, fcg_open_buffer = 5 * 60 * 10 ^ 9,
     fcg_close_buffer = 5 * 60 * 10 ^ 9, fcg_cooldown = 15 * 60 * 10 ^ 9,
     fcg_max_feature_age = 5 * 60 * 10 ^ 9, fcg_max_prediction_age = 15 * 60 * 10 ^ 9\<rparr>"

record SignalFilterChain =
  sf_cfg :: FilterConfig
  sf_counts :: "(nat, nat) omap"
  sf_last_accepted :: "(InstrumentId, Timestamp) omap"

definition new_filters :: "FilterConfig \<Rightarrow> SignalFilterChain" where
  "new_filters cfg = \<lparr>sf_cfg = cfg, sf_counts = [], sf_last_accepted = []\<rparr>"

definition check_session :: "FilterConfig \<Rightarrow> Calendar option \<Rightarrow> Timestamp \<Rightarrow> bool" where
  "check_session cfg calendar now =
     (case calendar of
        None \<Rightarrow> True
      | Some cal \<Rightarrow>
          (case session_containing cal now of
             None \<Rightarrow> False
           | Some ses \<Rightarrow> \<not> now < ses_open ses + fcg_open_buffer cfg \<and> \<not> ses_close ses - fcg_close_buffer cfg \<le> now))"

definition cooling_down :: "SignalFilterChain \<Rightarrow> InstrumentId \<Rightarrow> Timestamp \<Rightarrow> bool" where
  "cooling_down f i now =
     (case om_find (sf_last_accepted f) i of
        None \<Rightarrow> False
      | Some accepted \<Rightarrow> is_set accepted \<and> now - accepted < fcg_cooldown (sf_cfg f))"

definition filter_evaluate ::
    "SignalFilterChain \<Rightarrow> Signal \<Rightarrow> FilterContext \<Rightarrow> Calendar option \<Rightarrow> FilterReason" where
  "filter_evaluate f s x calendar =
     (let cfg = sf_cfg f in
      if is_flat_signal s then FrPassed
      else if \<not> fx_has_market_data x then FrNoMarketData
      else if fcg_max_feature_age cfg < fx_feature_age x then FrStaleFeatures
      else if fcg_max_prediction_age cfg < fx_prediction_age x then FrStalePrediction
      else if flt (sig_confidence s) (fcg_min_confidence cfg) then FrLowConfidence
      else if fcg_require_positive_net_edge cfg \<and> fle (sig_net_edge s) fzero then FrNegativeNetEdge
      else if flt (fx_realized_volatility x) (fcg_min_volatility cfg)
              \<or> flt (fcg_max_volatility cfg) (fx_realized_volatility x) then FrVolatilityOutOfRange
      else if flt (fx_interval_volume x) (fcg_min_interval_volume cfg) then FrInsufficientLiquidity
      else if flt fzero (fx_average_volume x)
              \<and> flt (fdiv (fx_interval_volume x) (fx_average_volume x)) (fcg_min_relative_volume cfg)
           then FrInsufficientLiquidity
      else if flt (fcg_max_spread_bps cfg) (fx_spread_bps x) then FrSpreadTooWide
      else if \<not> check_session cfg calendar (fx_now x) then FrOutsideTradingHours
      else if cooling_down f (sig_instrument s) (fx_now x) then FrCooldownActive
      else FrPassed)"

definition filter_record :: "InstrumentId \<Rightarrow> FilterReason \<Rightarrow> Timestamp \<Rightarrow> SignalFilterChain \<Rightarrow> SignalFilterChain" where
  "filter_record i reason now f =
     (let k = reason_value reason;
          n = (case om_find (sf_counts f) k of None \<Rightarrow> 0 | Some n \<Rightarrow> n);
          f1 = f\<lparr>sf_counts := om_put k (n + 1) (sf_counts f)\<rparr> in
      if reason = FrPassed then f1\<lparr>sf_last_accepted := om_put i now (sf_last_accepted f1)\<rparr> else f1)"

definition filter_rejections :: "SignalFilterChain \<Rightarrow> nat" where
  "filter_rejections f = foldl (\<lambda>n (reason, k). if reason \<noteq> reason_value FrPassed then n + k else n) 0 (sf_counts f)"

definition filter_rejections_of :: "SignalFilterChain \<Rightarrow> FilterReason \<Rightarrow> nat" where
  "filter_rejections_of f r = (case om_find (sf_counts f) (reason_value r) of None \<Rightarrow> 0 | Some n \<Rightarrow> n)"

definition filter_passes :: "SignalFilterChain \<Rightarrow> nat" where
  "filter_passes f = filter_rejections_of f FrPassed"

definition last_signal_time :: "SignalFilterChain \<Rightarrow> InstrumentId \<Rightarrow> Timestamp" where
  "last_signal_time f i = (case om_find (sf_last_accepted f) i of None \<Rightarrow> kNoTimestamp | Some t \<Rightarrow> t)"

definition filter_reset :: "SignalFilterChain \<Rightarrow> SignalFilterChain" where
  "filter_reset f = f\<lparr>sf_counts := [], sf_last_accepted := []\<rparr>"

section \<open>A signal never looks ahead\<close>

text \<open>
  What every generator owes its client: a signal it returns is made at the decision time, for the instrument
  asked about, from a finite prediction that is not stamped later, and it is coherent or a deliberate flat.
\<close>

definition coherent :: "Signal \<Rightarrow> bool" where
  "coherent s \<longleftrightarrow> is_set (sig_as_of s) \<and> sig_instrument s \<noteq> kInvalidInstrument
     \<and> (if sig_direction s = DirFlat then sig_net_edge s = fzero
        else fin (sig_expected_return s) \<and> fin (sig_confidence s) \<and> 0 \<le> val (sig_confidence s)
          \<and> val (sig_confidence s) \<le> 1 \<and> 0 < sig_horizon s \<and> sig_model_id s \<noteq> 0
          \<and> sig_net_edge s = fsub (fabs (sig_expected_return s)) (cost_total (sig_costs s))
          \<and> fin (cost_total (sig_costs s)) \<and> 0 \<le> val (cost_total (sig_costs s)))"

definition signal_for :: "GeneratorInput \<Rightarrow> Signal \<Rightarrow> bool" where
  "signal_for gin s \<longleftrightarrow> sig_as_of s = gi_as_of gin \<and> sig_instrument s = gi_instrument gin \<and> coherent s
     \<and> fin (gi_prediction gin) \<and> (is_set (gi_prediction_time gin) \<longrightarrow> gi_prediction_time gin \<le> gi_as_of gin)"

lemma signal_create_coherent:
  assumes "signal_create t i d er conf hz mid costs = Inr s"
  shows "coherent s \<and> sig_as_of s = t \<and> sig_instrument s = i \<and> sig_direction s = d"
  using assms
  by (auto simp: signal_create_def coherent_def flt_fin not_less lit_int_exact split: if_splits)

lemma signal_flat_for: "check_causality gin = Inr b \<Longrightarrow> signal_for gin (signal_flat (gi_as_of gin) (gi_instrument gin) mid)"
  by (auto simp: check_causality_def signal_for_def signal_flat_def coherent_def split: if_splits)

lemma signal_create_for:
  assumes "check_causality gin = Inr b"
    and "signal_create (gi_as_of gin) (gi_instrument gin) d er conf hz mid costs = Inr s"
  shows "signal_for gin s"
  using signal_create_coherent [OF assms(2)] assms(1)
  by (auto simp: check_causality_def signal_for_def split: if_splits)

lemma flt_zero_fsub:
  assumes "fin a" "fin b" "flt fzero (fsub a b)"
  shows "val b < val a"
proof (rule ccontr)
  assume "\<not> val b < val a"
  then have "fle (lit (val a - val b)) (lit 0)" by (intro lit_mono) simp
  moreover have "fsub a b = NZero \<or> fsub a b = lit (val a - val b)"
    using assms(1,2) by (auto simp: fsub_def fadd_def)
  ultimately have "fle (fsub a b) fzero" by (auto simp: fzero_def fle_def feq_def flt_def)
  with assms(3) have "flt fzero fzero" by (rule flt_fle_trans)
  then show False by simp
qed

locale signal_source =
  fixes generate :: generate_fn
  assumes causal: "generate gin = Inr s \<Longrightarrow> signal_for gin s"
begin

lemma at_decision: "generate gin = Inr s \<Longrightarrow> sig_as_of s = gi_as_of gin \<and> sig_instrument s = gi_instrument gin"
  using causal by (simp add: signal_for_def)

lemma from_the_past: "generate gin = Inr s \<Longrightarrow> is_set (gi_prediction_time gin) \<Longrightarrow> gi_prediction_time gin \<le> gi_as_of gin"
  using causal by (simp add: signal_for_def)

lemma coherent_signal: "generate gin = Inr s \<Longrightarrow> coherent s"
  using causal by (simp add: signal_for_def)

text \<open>Costs are taken from the size of the expected move, so that size is above the costs of an actionable signal.\<close>

lemma actionable_pays:
  assumes "generate gin = Inr s" "is_actionable s"
  shows "val (cost_total (sig_costs s)) < \<bar>val (sig_expected_return s)\<bar>"
proof -
  have c: "fin (sig_expected_return s)" "fin (cost_total (sig_costs s))"
    "sig_net_edge s = fsub (fabs (sig_expected_return s)) (cost_total (sig_costs s))"
    using coherent_signal [OF assms(1)] assms(2) by (auto simp: coherent_def is_actionable_def split: if_splits)
  have "flt fzero (fsub (fabs (sig_expected_return s)) (cost_total (sig_costs s)))"
    using assms(2) c(3) by (simp add: is_actionable_def)
  then show ?thesis using flt_zero_fsub [of "fabs (sig_expected_return s)" "cost_total (sig_costs s)"] c(1,2) by simp
qed

end

interpretation model_source: signal_source "model_generate g" for g
proof unfold_locales
  show "signal_for gin s" if "model_generate g gin = Inr s" for gin s
    using that signal_create_for signal_flat_for
    by (auto simp: model_generate_def Let_def split: sum.splits if_splits)
qed

interpretation rule_source: signal_source "rule_generate g" for g
proof unfold_locales
  show "signal_for gin s" if "rule_generate g gin = Inr s" for gin s
    using that signal_create_for signal_flat_for
    by (auto simp: rule_generate_def Let_def split: sum.splits if_splits)
qed

interpretation ensemble_source: signal_source "ensemble_generate g" for g
proof unfold_locales
  show "signal_for gin s" if "ensemble_generate g gin = Inr s" for gin s
    using that signal_create_for signal_flat_for
    by (auto simp: ensemble_generate_def Let_def split: sum.splits if_splits)
qed

datatype generator = ModelGenerator SignalGenerator | RuleGenerator SignalGenerator | Ensemble EnsembleGenerator

fun generate_with :: "generator \<Rightarrow> generate_fn" where
  "generate_with (ModelGenerator g) = model_generate g"
| "generate_with (RuleGenerator g) = rule_generate g"
| "generate_with (Ensemble g) = ensemble_generate g"

text \<open>
  C13: No generator looks ahead. Whatever a model, a rule or an ensemble of any members is asked, a signal it answers is
  made at the decision instant for the instrument asked about, from a prediction not stamped later; it is coherent;
  and when it is actionable the size of its expected return, whatever its sign, is larger than all its costs. The sign
  is not tied to the direction: a vote of an ensemble may be long with a negative expected return.
\<close>

theorem generators_never_look_ahead:
  "case generate_with g gin of
     Inl _ \<Rightarrow> True
   | Inr s \<Rightarrow> signal_for gin s
       \<and> (if is_actionable s then val (cost_total (sig_costs s)) < \<bar>val (sig_expected_return s)\<bar> else True)"
  using model_source.causal model_source.actionable_pays rule_source.causal rule_source.actionable_pays
    ensemble_source.causal ensemble_source.actionable_pays
  by (cases g) (auto split: sum.split)

section \<open>What the chain lets through\<close>

lemma filter_passed:
  "filter_evaluate f s x calendar = FrPassed \<longleftrightarrow> is_flat_signal s \<or>
     (fx_has_market_data x
      \<and> fx_feature_age x \<le> fcg_max_feature_age (sf_cfg f) \<and> fx_prediction_age x \<le> fcg_max_prediction_age (sf_cfg f)
      \<and> flt (sig_confidence s) (fcg_min_confidence (sf_cfg f)) = False
      \<and> (if fcg_require_positive_net_edge (sf_cfg f) then fle (sig_net_edge s) fzero = False else True)
      \<and> flt (fx_realized_volatility x) (fcg_min_volatility (sf_cfg f)) = False
      \<and> flt (fcg_max_volatility (sf_cfg f)) (fx_realized_volatility x) = False
      \<and> flt (fx_interval_volume x) (fcg_min_interval_volume (sf_cfg f)) = False
      \<and> (if flt fzero (fx_average_volume x)
         then flt (fdiv (fx_interval_volume x) (fx_average_volume x)) (fcg_min_relative_volume (sf_cfg f)) = False
         else True)
      \<and> flt (fcg_max_spread_bps (sf_cfg f)) (fx_spread_bps x) = False
      \<and> check_session (sf_cfg f) calendar (fx_now x)
      \<and> cooling_down f (sig_instrument s) (fx_now x) = False)"
  by (auto simp: filter_evaluate_def Let_def not_less)

text \<open>
  The chain passes exactly the flat signals and the ones every check holds for: data present, features and
  prediction fresh, confidence and net edge sufficient, volatility in range, enough volume, spread not too wide,
  inside the trading hours less the buffers, and the cooldown of the instrument over.
\<close>

theorem filter_passes_iff:
  "filter_evaluate f s x calendar = FrPassed \<longleftrightarrow> is_flat_signal s \<or>
     (fx_has_market_data x
      \<and> fx_feature_age x \<le> fcg_max_feature_age (sf_cfg f) \<and> fx_prediction_age x \<le> fcg_max_prediction_age (sf_cfg f)
      \<and> flt (sig_confidence s) (fcg_min_confidence (sf_cfg f)) = False
      \<and> (if fcg_require_positive_net_edge (sf_cfg f) then fle (sig_net_edge s) fzero = False else True)
      \<and> flt (fx_realized_volatility x) (fcg_min_volatility (sf_cfg f)) = False
      \<and> flt (fcg_max_volatility (sf_cfg f)) (fx_realized_volatility x) = False
      \<and> flt (fx_interval_volume x) (fcg_min_interval_volume (sf_cfg f)) = False
      \<and> (if flt fzero (fx_average_volume x)
         then flt (fdiv (fx_interval_volume x) (fx_average_volume x)) (fcg_min_relative_volume (sf_cfg f)) = False
         else True)
      \<and> flt (fcg_max_spread_bps (sf_cfg f)) (fx_spread_bps x) = False
      \<and> check_session (sf_cfg f) calendar (fx_now x)
      \<and> cooling_down f (sig_instrument s) (fx_now x) = False)"
  by (rule filter_passed)

text \<open>
  A flat signal starts the cooldown. It passes the chain and \<open>record\<close> notes it as accepted, so for the length of
  the cooldown after it no signal on the instrument that wants a position is let through.
\<close>

theorem a_flat_signal_starts_the_cooldown:
  "let f' = filter_record i (filter_evaluate f (signal_flat t i mid) x calendar) t f in
   if is_set t \<and> fx_now x' - t < fcg_cooldown (sf_cfg f) \<and> is_flat_signal s = False \<and> sig_instrument s = i
   then (filter_evaluate f' s x' calendar = FrPassed) = False else True"
proof -
  let ?f = "filter_record i (filter_evaluate f (signal_flat t i mid) x calendar) t f"
  have p: "filter_evaluate f (signal_flat t i mid) x calendar = FrPassed"
    by (simp add: filter_evaluate_def is_flat_signal_def signal_flat_def)
  have f: "om_find (sf_last_accepted ?f) i = Some t" "sf_cfg ?f = sf_cfg f"
    by (simp_all add: p filter_record_def Let_def omap_simps)
  then show ?thesis by (auto simp: Let_def filter_passed cooling_down_def)
qed

section \<open>Where the view goes wrong\<close>

text \<open>
  Inverting a probability makes every view bearish. The multiplier is applied to the probability, not to its
  distance from one half, so with the multiplier -1 documented for a reversal rule a prediction between 0 and 1
  becomes one below -1/2: no prediction opens a long.
\<close>

theorem inverted_probability_is_never_long:
  "if gc_kind cfg = Probability \<and> gc_direction_multiplier cfg = lit (- 1)
      \<and> fle fzero (gi_prediction gin) \<and> fle (gi_prediction gin) (lit 1)
   then vw_direction (interpret_prediction gin cfg) \<noteq> DirLong else True"
proof -
  have "\<not> flt fzero (fsub (fmul (gi_prediction gin) (lit (- 1))) (lit (1 / 2)))"
    if p: "fle fzero (gi_prediction gin)" "fle (gi_prediction gin) (lit 1)"
  proof
    assume up: "flt fzero (fsub (fmul (gi_prediction gin) (lit (- 1))) (lit (1 / 2)))"
    have f: "fin (gi_prediction gin)" using fin_between [OF p] by (simp add: lit_int_exact)
    have v: "0 \<le> val (gi_prediction gin)" "val (gi_prediction gin) \<le> 1"
      using p f by (simp_all add: fle_fin lit_int_exact)
    have one: "lit (- 1) = Fin (- 1)" by (simp add: lit_int_exact)
    have r: "rnd (- val (gi_prediction gin)) \<le> 0" "- 1 \<le> rnd (- val (gi_prediction gin))"
      using rnd_mono [of "- val (gi_prediction gin)" 0] rnd_mono [of "- 1" "- val (gi_prediction gin)"] v
        rnd_of_int [of "- 1"] by auto
    have raw: "fin (fmul (gi_prediction gin) (Fin (- 1)))" 
      using f r small_lt_overflow [of "rnd (- val (gi_prediction gin))"] by (simp add: fin_fmul_iff)
    have half: "fin (lit (1 / 2))" "0 \<le> val (lit (1 / 2))"
      by (simp_all add: f64_eval)
    have "val (lit (1 / 2)) < val (fmul (gi_prediction gin) (Fin (- 1)))"
      using flt_zero_fsub [OF raw half(1)] up one by simp
    moreover have "val (fmul (gi_prediction gin) (Fin (- 1))) \<le> 0"
      using fmul_val [OF f _ raw] r by simp
    ultimately show False using half(2) by simp
  qed
  then show ?thesis
    by (auto simp: interpret_prediction_def raw_view_def no_view_def Let_def)
qed

text \<open>
  A vote may go against its own return. The direction comes from the weights, the expected return from the mean:
  three members that expect little long and one that expects much short make a long signal whose expected return is
  negative, and as costs are subtracted from its size it counts as actionable.
\<close>

definition voting_member :: "Direction \<Rightarrow> f64 \<Rightarrow> generate_fn" where
  "voting_member d er gin =
     signal_create (gi_as_of gin) (gi_instrument gin) d er (Fin 1) 1 1 no_costs"

definition voting_ensemble :: EnsembleGenerator where
  "voting_ensemble = \<lparr>eg_name = ''vote'', eg_model_id = 1, eg_method = Voting, eg_horizon = 1,
     eg_members = [(voting_member DirLong (Fin (1 / 64)), Fin 1), (voting_member DirLong (Fin (1 / 64)), Fin 1),
       (voting_member DirLong (Fin (1 / 64)), Fin 1), (voting_member DirShort (Fin (- (1 / 2))), Fin 1)]\<rparr>"

definition vote_input :: GeneratorInput where
  "vote_input = \<lparr>gi_as_of = 0, gi_instrument = 1, gi_prediction = fzero, gi_prediction_time = 0, gi_volatility = fzero,
     gi_reference_price = fzero, gi_costs = no_costs\<rparr>"

lemma vote_sums:
  "fadd (Fin 0) (Fin 1) = Fin 1" "fadd (Fin 1) (Fin 1) = Fin 2" "fadd (Fin 2) (Fin 1) = Fin 3" "fadd (Fin 3) (Fin 1) = Fin 4"
  "fmul (Fin 1) (Fin 1) = Fin 1"
  by (simp_all add: fadd_def fmul_def lit_int_exact)

lemma vote_returns:
  "fmul (Fin (1 / 64)) (Fin 1) = Fin (1 / 64)" "fmul (Fin (- (1 / 2))) (Fin 1) = Fin (- (1 / 2))"
  "fadd (Fin 0) (Fin (1 / 64)) = Fin (1 / 64)" "fadd (Fin (1 / 64)) (Fin (1 / 64)) = Fin (1 / 32)"
  "fadd (Fin (1 / 32)) (Fin (1 / 64)) = Fin (3 / 64)" "fadd (Fin (3 / 64)) (Fin (- (1 / 2))) = Fin (- (29 / 64))"
  "fdiv (Fin (- (29 / 64))) (Fin 4) = Fin (- (29 / 256))" "fdiv (Fin 3) (Fin 4) = Fin (3 / 4)"
  by (simp_all add: fadd_def fmul_def fdiv_def f64_eval)

lemma vote_costs: "cost_total no_costs = Fin 0" "fsub (Fin (29 / 256)) (Fin 0) = Fin (29 / 256)"
  "fsub (Fin (1 / 64)) (Fin 0) = Fin (1 / 64)" "fsub (Fin (1 / 2)) (Fin 0) = Fin (1 / 2)"
  by (simp_all add: cost_total_def no_costs_def fadd_def fzero_def fsub_def f64_eval)

lemma voting_member_signal:
  "\<exists>s. voting_member DirLong (Fin (1 / 64)) vote_input = Inr s \<and> sig_direction s = DirLong
     \<and> sig_expected_return s = Fin (1 / 64) \<and> sig_confidence s = Fin 1"
  "\<exists>s. voting_member DirShort (Fin (- (1 / 2))) vote_input = Inr s \<and> sig_direction s = DirShort
     \<and> sig_expected_return s = Fin (- (1 / 2)) \<and> sig_confidence s = Fin 1"
  by (simp_all add: voting_member_def signal_create_def vote_input_def is_set_def kNoTimestamp_def kInvalidInstrument_def
      vote_costs f64_sem lit_int_exact)

theorem a_vote_may_go_against_its_return:
  "\<exists>s. ensemble_generate voting_ensemble vote_input = Inr s \<and> sig_direction s = DirLong
     \<and> flt (sig_expected_return s) fzero \<and> is_actionable s"
proof -
  obtain l where l: "voting_member DirLong (Fin (1 / 64)) vote_input = Inr l" "sig_direction l = DirLong"
    "sig_expected_return l = Fin (1 / 64)" "sig_confidence l = Fin 1" using voting_member_signal(1) by blast
  obtain k where k: "voting_member DirShort (Fin (- (1 / 2))) vote_input = Inr k" "sig_direction k = DirShort"
    "sig_expected_return k = Fin (- (1 / 2))" "sig_confidence k = Fin 1" using voting_member_signal(2) by blast
  have t: "tally Voting [(l, Fin 1), (l, Fin 1), (l, Fin 1), (k, Fin 1)] = \<lparr>vt_weight = Fin 4, vt_return = Fin (- (29 / 64)),
      vt_confidence = Fin 4, vt_long = Fin 3, vt_short = Fin 1\<rparr>"
    by (simp add: tally_def count_vote_def Let_def l k vote_sums vote_returns fzero_def)
  have v: "verdict Voting \<lparr>vt_weight = Fin 4, vt_return = Fin (- (29 / 64)), vt_confidence = Fin 4, vt_long = Fin 3,
      vt_short = Fin 1\<rparr> = \<lparr>vw_direction = DirLong, vw_expected_return = Fin (- (29 / 256)), vw_confidence = Fin (3 / 4)\<rparr>"
    by (simp add: verdict_def Let_def fmax_def fclamp_def f64_sem vote_returns lit_int_exact)
  have "check_causality vote_input = Inr True"
    by (simp add: check_causality_def vote_input_def is_set_def kNoTimestamp_def kInvalidInstrument_def)
  then show ?thesis
    by (simp add: ensemble_generate_def voting_ensemble_def l k t v Let_def f64_sem)
      (simp add: signal_create_def vote_input_def is_set_def kNoTimestamp_def kInvalidInstrument_def vote_costs f64_sem
        lit_int_exact is_actionable_def)
qed

end
