(* ===== verification/Construction.thy ===== *)
theory Construction
  imports Signals Executor
begin

text \<open>
  From a signal to orders (\<open>sizing/sizer.cpp\<close>, \<open>construction/rebalance.cpp\<close>): the position sizer with its caps, the
  target portfolio, the plan that compares it with the book, and the orders of a plan. The sizer returns a target,
  never a change; the plan trades the difference. Order identifiers come from the sink, so turning a plan into
  orders is a program of the engine.
\<close>

section \<open>Sizing\<close>

datatype SizingMethod = FixedShares | FixedDollar | PercentCapital | VolatilityTarget | RiskParity | Kelly | FractionalKelly

fun to_string_SizingMethod :: "SizingMethod \<Rightarrow> string" where
  "to_string_SizingMethod FixedShares = ''fixed_shares''"
| "to_string_SizingMethod FixedDollar = ''fixed_dollar''"
| "to_string_SizingMethod PercentCapital = ''percent_capital''"
| "to_string_SizingMethod VolatilityTarget = ''volatility_target''"
| "to_string_SizingMethod RiskParity = ''risk_parity''"
| "to_string_SizingMethod Kelly = ''kelly''"
| "to_string_SizingMethod FractionalKelly = ''fractional_kelly''"

record ExposureLimits =
  szl_max_gross_leverage :: f64
  szl_max_net_leverage :: f64
  szl_max_position_weight :: f64
  szl_max_sector_weight :: f64
  szl_max_position_notional :: Notional
  szl_max_order_notional :: Notional

record SizingConfig =
  szc_method :: SizingMethod
  szc_fixed_shares :: f64
  szc_fixed_dollar :: Notional
  szc_percent_capital :: f64
  szc_target_volatility :: f64
  szc_annualization_periods :: f64
  szc_kelly_fraction :: f64
  szc_kelly_cap :: f64
  szc_lot_size :: f64
  szc_min_trade_notional :: Notional
  szc_limits :: ExposureLimits

definition default_exposure_limits :: ExposureLimits where
  "default_exposure_limits = \<lparr>szl_max_gross_leverage = lit 2, szl_max_net_leverage = lit 1,
     szl_max_position_weight = lit (1 / 4), szl_max_sector_weight = lit (2 / 5),
     szl_max_position_notional = lit 500000, szl_max_order_notional = lit 250000\<rparr>"

definition default_sizing :: SizingConfig where
  "default_sizing = \<lparr>szc_method = VolatilityTarget, szc_fixed_shares = lit 100, szc_fixed_dollar = lit 10000,
     szc_percent_capital = lit (2 / 100), szc_target_volatility = lit (1 / 10),
     szc_annualization_periods = fmul (lit 252) (lit 390), szc_kelly_fraction = lit (1 / 4),
     szc_kelly_cap = lit (2 / 10), szc_lot_size = lit 1, szc_min_trade_notional = lit 500,
     szc_limits = default_exposure_limits\<rparr>"

record SizingContext =
  sx_now :: Timestamp
  sx_equity :: Notional
  sx_reference_price :: Price
  sx_volatility :: f64
  sx_current_position :: Qty
  sx_sector :: int
  sx_existing_gross :: Notional
  sx_existing_net :: Notional
  sx_sector_exposure :: Notional

datatype CapReason = NotCapped | CapNoEquity | CapPositionWeight | CapPositionNotional | CapSectorWeight
  | CapGrossLeverage | CapNetLeverage

record SizingDecision =
  szd_target_position :: Qty
  szd_target_notional :: Notional
  szd_raw_weight :: f64
  szd_final_weight :: f64
  szd_capped :: bool
  szd_cap_reason :: CapReason

definition no_sizing :: SizingDecision where
  "no_sizing = \<lparr>szd_target_position = fzero, szd_target_notional = fzero, szd_raw_weight = fzero,
     szd_final_weight = fzero, szd_capped = False, szd_cap_reason = NotCapped\<rparr>"

definition kelly_weight :: "f64 \<Rightarrow> f64 \<Rightarrow> f64" where
  "kelly_weight edge variance =
     (if \<not> is_finite edge \<or> \<not> is_finite variance \<or> fle variance fzero then fzero
      else let f = fdiv edge variance in if is_finite f then f else fzero)"

definition risk_parity_weight :: "f64 \<Rightarrow> f64 \<Rightarrow> f64" where
  "risk_parity_weight volatility target_volatility =
     (if \<not> is_finite volatility \<or> fle volatility fzero then fzero
      else let w = fdiv target_volatility volatility in if is_finite w then w else fzero)"

definition raw_weight_for :: "SizingConfig \<Rightarrow> Signal \<Rightarrow> SizingContext \<Rightarrow> f64" where
  "raw_weight_for cfg s x =
     (let eq = sx_equity x; price = sx_reference_price x;
          annual_vol = fmul (sx_volatility x) (fsqrt (szc_annualization_periods cfg)) in
      if fle eq fzero \<or> fle price fzero then fzero
      else (case szc_method cfg of
          FixedShares \<Rightarrow> fdiv (fmul (szc_fixed_shares cfg) price) eq
        | FixedDollar \<Rightarrow> fdiv (szc_fixed_dollar cfg) eq
        | PercentCapital \<Rightarrow> szc_percent_capital cfg
        | VolatilityTarget \<Rightarrow>
            if fle (sx_volatility x) fzero then fzero
            else if fle annual_vol fzero then fzero
            else fdiv (szc_target_volatility cfg) annual_vol
        | RiskParity \<Rightarrow> risk_parity_weight annual_vol (szc_target_volatility cfg)
        | _ \<Rightarrow>
            (let full = kelly_weight (sig_net_edge s) (fmul annual_vol annual_vol);
                 scaled = (if szc_method cfg = Kelly then full else fmul full (szc_kelly_fraction cfg)) in
             fclamp scaled (fneg (szc_kelly_cap cfg)) (szc_kelly_cap cfg))))"

text \<open>\<open>std::copysign\<close>.\<close>

definition fcopysign :: "f64 \<Rightarrow> f64 \<Rightarrow> f64" where
  "fcopysign a b = (if negative b then fneg (fabs a) else fabs a)"

definition apply_cap :: "f64 \<Rightarrow> CapReason \<Rightarrow> f64 \<times> SizingDecision \<Rightarrow> f64 \<times> SizingDecision" where
  "apply_cap limit reason = (\<lambda>(w, out).
     if flt limit (fabs w)
     then (fcopysign limit w, out\<lparr>szd_capped := True, szd_cap_reason := reason\<rparr>) else (w, out))"

definition headroom :: "f64 \<Rightarrow> Notional \<Rightarrow> Notional \<Rightarrow> f64" where
  "headroom limit used eq = fmax fzero (fsub limit (fdiv (fabs used) eq))"

definition cap_net :: "SizingConfig \<Rightarrow> Signal \<Rightarrow> SizingContext \<Rightarrow> f64 \<times> SizingDecision \<Rightarrow> f64 \<times> SizingDecision" where
  "cap_net cfg s x wd =
     (let limit = szl_max_net_leverage (szc_limits cfg) in
      if \<not> flt fzero limit then wd
      else
        (let signed_weight = fmul (fst wd) (of_int64 (direction_sign (sig_direction s)));
             net = fdiv (sx_existing_net x) (sx_equity x);
             projected = fabs (fadd net signed_weight) in
         if flt limit projected
         then apply_cap (fmax fzero (fsub limit (fabs net))) CapNetLeverage wd else wd))"

definition apply_limits :: "SizingConfig \<Rightarrow> Signal \<Rightarrow> SizingContext \<Rightarrow> f64 \<times> SizingDecision \<Rightarrow> f64 \<times> SizingDecision" where
  "apply_limits cfg s x wd0 =
     (let lims = szc_limits cfg; eq = sx_equity x;
          wd1 = apply_cap (szl_max_position_weight lims) CapPositionWeight wd0;
          wd2 = (if flt fzero (szl_max_position_notional lims)
                 then apply_cap (fdiv (szl_max_position_notional lims) eq) CapPositionNotional wd1 else wd1);
          wd3 = (if 0 \<le> sx_sector x \<and> flt fzero (szl_max_sector_weight lims)
                 then apply_cap (headroom (szl_max_sector_weight lims) (sx_sector_exposure x) eq) CapSectorWeight wd2
                 else wd2);
          wd4 = (if flt fzero (szl_max_gross_leverage lims)
                 then apply_cap (headroom (szl_max_gross_leverage lims) (sx_existing_gross x) eq) CapGrossLeverage wd3
                 else wd3) in
      cap_net cfg s x wd4)"

datatype sizing_error = SizingNoTimestamp | EquityNotFinite | SizingBadPrice | SharesNotFinite

definition size_position :: "SizingConfig \<Rightarrow> Signal \<Rightarrow> SizingContext \<Rightarrow> (sizing_error, SizingDecision) result" where
  "size_position cfg s x =
     (if \<not> is_set (sx_now x) then Err SizingNoTimestamp
      else if \<not> is_finite (sx_equity x) then Err EquityNotFinite
      else if fle (sx_reference_price x) fzero \<or> \<not> is_finite (sx_reference_price x) then Err SizingBadPrice
      else if is_flat_signal s \<or> \<not> is_actionable s then Ok no_sizing
      else if fle (sx_equity x) fzero then Ok (no_sizing\<lparr>szd_cap_reason := CapNoEquity, szd_capped := True\<rparr>)
      else
        (let w0 = raw_weight_for cfg s x;
             weight0 = (if is_finite w0 then w0 else fzero);
             (weight, out) = apply_limits cfg s x (weight0, no_sizing\<lparr>szd_raw_weight := weight0\<rparr>);
             shares0 = fmul (fdiv (fmul weight (sx_equity x)) (sx_reference_price x))
                         (of_int64 (direction_sign (sig_direction s)));
             shares = round_to_lot (szc_lot_size cfg) shares0 in
         if \<not> is_finite shares then Err SharesNotFinite
         else Ok (out\<lparr>szd_final_weight := weight, szd_target_position := shares,
                      szd_target_notional := fmul shares (sx_reference_price x)\<rparr>)))"

section \<open>The target portfolio\<close>

record TargetPosition =
  tg_instrument :: InstrumentId
  tg_quantity :: Qty
  tg_reference_price :: Price
  tg_weight :: f64
  tg_net_edge :: f64

record TargetPortfolio =
  tpf_as_of :: Timestamp
  tpf_targets :: "(InstrumentId, TargetPosition) omap"

definition new_targets :: "Timestamp \<Rightarrow> TargetPortfolio" where
  "new_targets as_of = \<lparr>tpf_as_of = as_of, tpf_targets = []\<rparr>"

datatype rebalance_error = TargetNoInstrument | TargetNotFinite | TargetBadPrice | DuplicateTarget InstrumentId
  | NoEquity | TooMuchTurnover f64 | NoDecisionTime | FromOrder order_error

definition target_set :: "TargetPosition \<Rightarrow> TargetPortfolio \<Rightarrow> (rebalance_error, bool) result \<times> TargetPortfolio" where
  "target_set tg tp =
     (if tg_instrument tg = kInvalidInstrument then (Err TargetNoInstrument, tp)
      else if \<not> is_finite (tg_quantity tg) then (Err TargetNotFinite, tp)
      else if fle (tg_reference_price tg) fzero \<or> \<not> is_finite (tg_reference_price tg) then (Err TargetBadPrice, tp)
      else if om_contains (tpf_targets tp) (tg_instrument tg) then (Err (DuplicateTarget (tg_instrument tg)), tp)
      else (Ok True, tp\<lparr>tpf_targets := om_put (tg_instrument tg) tg (tpf_targets tp)\<rparr>))"

definition target_find :: "InstrumentId \<Rightarrow> TargetPortfolio \<Rightarrow> TargetPosition option" where
  "target_find i tp = om_find (tpf_targets tp) i"

definition target_gross :: "TargetPortfolio \<Rightarrow> Notional" where
  "target_gross tp = foldl (\<lambda>acc (key, tg). fadd acc (fabs (fmul (tg_quantity tg) (tg_reference_price tg))))
     fzero (tpf_targets tp)"

definition target_net :: "TargetPortfolio \<Rightarrow> Notional" where
  "target_net tp = foldl (\<lambda>acc (key, tg). fadd acc (fmul (tg_quantity tg) (tg_reference_price tg)))
     fzero (tpf_targets tp)"

section \<open>The plan\<close>

datatype RebalanceMode = Partial | Full

fun to_string_RebalanceMode :: "RebalanceMode \<Rightarrow> string" where
  "to_string_RebalanceMode Full = ''full''"
| "to_string_RebalanceMode Partial = ''partial''"

record RebalanceConfig =
  rbc_mode :: RebalanceMode
  rbc_drift_threshold :: f64
  rbc_min_trade_notional :: Notional
  rbc_lot_size :: f64
  rbc_estimated_cost_bps :: Bps
  rbc_max_turnover :: f64
  rbc_order_type :: OrderType
  rbc_limit_offset_bps :: Bps
  rbc_tif :: TimeInForce

definition default_rebalance :: RebalanceConfig where
  "default_rebalance = \<lparr>rbc_mode = Partial, rbc_drift_threshold = lit (5 / 1000), rbc_min_trade_notional = lit 500,
     rbc_lot_size = lit 1, rbc_estimated_cost_bps = lit 3, rbc_max_turnover = lit (1 / 2), rbc_order_type = Market,
     rbc_limit_offset_bps = lit 5, rbc_tif = Day\<rparr>"

datatype skip_reason = NotSkipped | NoReference | AlreadyAtTarget | BelowDrift f64 | BelowMinimum | RoundsToZero

record RebalanceTrade =
  rbt_instrument :: InstrumentId
  rbt_current :: Qty
  rbt_target :: Qty
  rbt_delta :: Qty
  rbt_side :: Side
  rbt_reference_price :: Price
  rbt_notional :: Notional
  rbt_drift :: f64
  rbt_skipped :: bool
  rbt_skip_reason :: skip_reason

record RebalancePlan =
  rbp_as_of :: Timestamp
  rbp_trades :: "RebalanceTrade list"
  rbp_gross_turnover :: Notional
  rbp_estimated_cost :: Notional
  rbp_turnover_ratio :: f64
  rbp_skipped :: nat

definition actionable_trades :: "RebalancePlan \<Rightarrow> nat" where
  "actionable_trades p = length (filter (\<lambda>t. \<not> rbt_skipped t) (rbp_trades p))"

definition skip_trade :: "skip_reason \<Rightarrow> RebalanceTrade \<Rightarrow> RebalanceTrade" where
  "skip_trade r t = t\<lparr>rbt_skipped := True, rbt_skip_reason := r\<rparr>"

text \<open>The instruments targeted or held, each once and in order.\<close>

definition universe :: "TargetPortfolio \<Rightarrow> Portfolio \<Rightarrow> InstrumentId list" where
  "universe tp pf =
     map fst (fold (\<lambda>(key, p) m. if is_flat p then m else om_put key True m) (pf_positions pf)
       (fold (\<lambda>(key, tg) m. om_put key True m) (tpf_targets tp) []))"

text \<open>One round of the loop of \<open>plan\<close>: the trade of one instrument, skipped or not.\<close>

definition plan_trade :: "RebalanceConfig \<Rightarrow> f64 \<Rightarrow> TargetPortfolio \<Rightarrow> Portfolio \<Rightarrow> InstrumentId \<Rightarrow> RebalanceTrade" where
  "plan_trade cfg eq tp pf i =
     (let tg = target_find i tp;
          t0 = \<lparr>rbt_instrument = i,
                rbt_current = (case position_of pf i of None \<Rightarrow> fzero | Some p \<Rightarrow> pos_quantity p),
                rbt_target = (case tg of None \<Rightarrow> fzero | Some g \<Rightarrow> tg_quantity g),
                rbt_delta = fzero, rbt_side = Buy, rbt_reference_price = fzero, rbt_notional = fzero,
                rbt_drift = fzero, rbt_skipped = False, rbt_skip_reason = NotSkipped\<rparr>;
          reference = (case tg of Some g \<Rightarrow> Some (tg_reference_price g) | None \<Rightarrow> mark_price pf i) in
      case reference of
        None \<Rightarrow> skip_trade NoReference t0
      | Some price \<Rightarrow>
          (let delta = fsub (rbt_target t0) (rbt_current t0);
               worth = fmul (fabs delta) price;
               t1 = t0\<lparr>rbt_reference_price := price, rbt_delta := delta,
                       rbt_side := (if fle fzero delta then Buy else Sell),
                       rbt_notional := worth, rbt_drift := fdiv worth eq\<rparr> in
           if feq delta fzero then skip_trade AlreadyAtTarget t1
           else if rbc_mode cfg = Partial \<and> flt (rbt_drift t1) (rbc_drift_threshold cfg)
           then skip_trade (BelowDrift (rbt_drift t1)) t1
           else if flt (rbt_notional t1) (rbc_min_trade_notional cfg) then skip_trade BelowMinimum t1
           else if flt fzero (rbc_lot_size cfg) then
             (let rounded = fmul (ftrunc (fdiv (rbt_delta t1) (rbc_lot_size cfg))) (rbc_lot_size cfg) in
              if feq rounded fzero then skip_trade RoundsToZero t1
              else t1\<lparr>rbt_delta := rounded, rbt_notional := fmul (fabs rounded) price\<rparr>)
           else t1))"

definition plan_rebalance ::
    "RebalanceConfig \<Rightarrow> TargetPortfolio \<Rightarrow> Portfolio \<Rightarrow> (rebalance_error, RebalancePlan) result" where
  "plan_rebalance cfg tp pf =
     (let eq = equity pf in
      if \<not> is_finite eq \<or> fle eq fzero then Err NoEquity
      else
        (let trades = map (plan_trade cfg eq tp pf) (universe tp pf);
             turnover = foldl (\<lambda>acc t. if rbt_skipped t then acc else fadd acc (rbt_notional t)) fzero trades;
             ratio = fdiv turnover eq in
         if flt fzero (rbc_max_turnover cfg) \<and> flt (rbc_max_turnover cfg) ratio then Err (TooMuchTurnover ratio)
         else Ok \<lparr>rbp_as_of = tpf_as_of tp, rbp_trades = trades, rbp_gross_turnover = turnover,
                rbp_estimated_cost = fmul (fmul turnover (rbc_estimated_cost_bps cfg)) (lit (1 / 10 ^ 4)),
                rbp_turnover_ratio = ratio,
                rbp_skipped = length (filter rbt_skipped trades)\<rparr>))"

section \<open>Orders of a plan\<close>

definition trade_order ::
    "RebalanceConfig \<Rightarrow> Timestamp \<Rightarrow> RebalanceTrade \<Rightarrow> OrderId \<Rightarrow> (order_error, Order) result" where
  "trade_order cfg decision t oid =
     (let tms = no_times\<lparr>decision_time := decision\<rparr>; quantity = fabs (rbt_delta t);
          direction = (if rbt_side t = Buy then 1 else - 1 :: int);
          i = rbt_instrument t; tif = rbc_tif cfg; off = rbc_limit_offset_bps cfg;
          ref_price = rbt_reference_price t in
      case rbc_order_type cfg of
        Market \<Rightarrow> order_market oid i (rbt_side t) quantity tms tif kNoOrder
      | Limit \<Rightarrow> order_limit oid i (rbt_side t) quantity (apply_bps ref_price off (- direction)) tms tif kNoOrder
      | Stop \<Rightarrow> order_stop oid i (rbt_side t) quantity (apply_bps ref_price off direction) tms tif kNoOrder
      | StopLimit \<Rightarrow>
          (let stop = apply_bps ref_price off direction in
           order_stop_limit oid i (rbt_side t) quantity stop (apply_bps stop off direction) tms tif kNoOrder))"

text \<open>The loop of \<open>to_orders\<close>, with the identifier source of the caller: the sink of the engine.\<close>

fun orders_loop ::
    "RebalanceConfig \<Rightarrow> Timestamp \<Rightarrow> RebalanceTrade list \<Rightarrow> Order list
      \<Rightarrow> ((rebalance_error, Order list) result \<Rightarrow> 's program) \<Rightarrow> 's program" where
  "orders_loop cfg decision [] orders k = k (Ok orders)"
| "orders_loop cfg decision (t # ts) orders k =
     (if rbt_skipped t then orders_loop cfg decision ts orders k
      else FreshId (\<lambda>oid.
        case trade_order cfg decision t oid of
          Inl e \<Rightarrow> k (Err (FromOrder e))
        | Inr o1 \<Rightarrow>
            orders_loop cfg decision ts (orders @ [with_arrival_price (rbt_reference_price t) o1]) k))"

definition to_orders ::
    "RebalanceConfig \<Rightarrow> RebalancePlan \<Rightarrow> Timestamp \<Rightarrow> ((rebalance_error, Order list) result \<Rightarrow> 's program) \<Rightarrow> 's program" where
  "to_orders cfg plan decision k =
     (if \<not> is_set decision then k (Err NoDecisionTime)
      else orders_loop cfg decision (rbp_trades plan) [] k)"

section \<open>The caps hold\<close>

lemma fcopysign_sem:
  "fin (fcopysign a w) = fin a" "fabs (fcopysign a w) = fabs (fabs a)"
  by (cases a; auto simp: fcopysign_def)+

text \<open>One cap: it never enlarges the weight, and leaves it within the limit.\<close>

lemma apply_cap_holds:
  assumes "fin w" "fle fzero limit"
  shows "fin (fst (apply_cap limit r (w, out))) \<and> fle (fabs (fst (apply_cap limit r (w, out)))) limit
    \<and> fle (fabs (fst (apply_cap limit r (w, out)))) (fabs w)"
proof (cases "flt limit (fabs w)")
  case True
  have l: "fin limit" using fin_between [OF assms(2) flt_imp_fle [OF True]] assms(1) by simp
  then have v: "0 \<le> val limit" "val limit < \<bar>val w\<bar>"
    using assms True by (simp_all add: f64_sem)
  have "fabs (fcopysign limit w) = fabs (fabs limit)" by (rule fcopysign_sem)
  then show ?thesis using True l v assms(1) by (simp add: apply_cap_def fcopysign_sem f64_sem)
next
  case False
  moreover have "\<not> is_nan limit" using fle_not_nan [OF assms(2)] by simp
  ultimately have "fle (fabs w) limit" using not_flt [of limit "fabs w"] assms(1) by simp
  then show ?thesis using False assms(1) by (simp add: apply_cap_def)
qed

lemma fle_zero_fmax [simp]: "fle fzero (fmax fzero y)"
  by (auto simp: fmax_def flt_imp_fle)

lemma fle_zero_headroom [simp]: "fle fzero (headroom limit used eq)"
  by (simp add: headroom_def)

lemma fle_zero_quotient:
  assumes "flt fzero a" "flt fzero b" "fin b"
  shows "fle fzero (fdiv a b)"
proof (cases "fin a")
  case True
  then have "0 \<le> val a / val b" "val b \<noteq> 0" using assms by (simp_all add: f64_sem)
  moreover from this(1) have "fle (lit 0) (lit (val a / val b))" by (rule lit_mono)
  ultimately show ?thesis using True assms by (auto simp: fdiv_def Let_def signed_zero_def fle_fin fzero_def)
next
  case False
  then show ?thesis using assms by (cases a; cases b) (auto simp: fdiv_def flt_def fle_def signed_inf_def fzero_def feq_def)
qed

lemma cap_net_holds:
  assumes "fin w" "cap_net cfg s x (w, out) = (w', out')"
  shows "fin w' \<and> fle (fabs w') (fabs w)
    \<and> (flt fzero (szl_max_net_leverage (szc_limits cfg))
        \<and> flt (szl_max_net_leverage (szc_limits cfg))
            (fabs (fadd (fdiv (sx_existing_net x) (sx_equity x))
              (fmul w' (of_int64 (direction_sign (sig_direction s))))))
        \<longrightarrow> fle (fabs w') (fmax fzero (fsub (szl_max_net_leverage (szc_limits cfg))
              (fabs (fdiv (sx_existing_net x) (sx_equity x))))))"
proof -
  let ?h = "fmax fzero (fsub (szl_max_net_leverage (szc_limits cfg)) (fabs (fdiv (sx_existing_net x) (sx_equity x))))"
  have cap: "fin (fst (apply_cap ?h CapNetLeverage (w, out))) \<and> fle (fabs (fst (apply_cap ?h CapNetLeverage (w, out)))) ?h
      \<and> fle (fabs (fst (apply_cap ?h CapNetLeverage (w, out)))) (fabs w)"
    by (rule apply_cap_holds [OF assms(1)]) simp
  have "w' = w \<and> \<not> (flt fzero (szl_max_net_leverage (szc_limits cfg)) \<and> flt (szl_max_net_leverage (szc_limits cfg))
            (fabs (fadd (fdiv (sx_existing_net x) (sx_equity x)) (fmul w (of_int64 (direction_sign (sig_direction s)))))))
      \<or> w' = fst (apply_cap ?h CapNetLeverage (w, out))"
    using assms(2) by (auto simp: cap_net_def Let_def split: if_splits)
  then show ?thesis using cap assms(1) by auto
qed

text \<open>What the limits promise of the weight a position is sized to.\<close>

definition within_caps :: "SizingConfig \<Rightarrow> Signal \<Rightarrow> SizingContext \<Rightarrow> f64 \<Rightarrow> bool" where
  "within_caps cfg s x w \<longleftrightarrow>
     (let lims = szc_limits cfg; eq = sx_equity x; net = fdiv (sx_existing_net x) eq in
      fle (fabs w) (szl_max_position_weight lims)
      \<and> (flt fzero (szl_max_position_notional lims) \<longrightarrow> fle (fabs w) (fdiv (szl_max_position_notional lims) eq))
      \<and> (0 \<le> sx_sector x \<and> flt fzero (szl_max_sector_weight lims) \<longrightarrow>
           fle (fabs w) (headroom (szl_max_sector_weight lims) (sx_sector_exposure x) eq))
      \<and> (flt fzero (szl_max_gross_leverage lims) \<longrightarrow>
           fle (fabs w) (headroom (szl_max_gross_leverage lims) (sx_existing_gross x) eq))
      \<and> (flt fzero (szl_max_net_leverage lims)
           \<and> flt (szl_max_net_leverage lims)
               (fabs (fadd net (fmul w (of_int64 (direction_sign (sig_direction s)))))) \<longrightarrow>
           fle (fabs w) (fmax fzero (fsub (szl_max_net_leverage lims) (fabs net)))))"

lemma apply_limits_within:
  assumes w0: "fin w0" and eq: "flt fzero (sx_equity x)" "fin (sx_equity x)"
    and pos: "fle fzero (szl_max_position_weight (szc_limits cfg))"
    and res: "apply_limits cfg s x (w0, out0) = (w, out)"
  shows "fin w \<and> within_caps cfg s x w"
proof -
  let ?L = "szc_limits cfg"
  define c1 where "c1 = apply_cap (szl_max_position_weight ?L) CapPositionWeight (w0, out0)"
  define c2 where "c2 = (if flt fzero (szl_max_position_notional ?L)
     then apply_cap (fdiv (szl_max_position_notional ?L) (sx_equity x)) CapPositionNotional c1 else c1)"
  define c3 where "c3 = (if 0 \<le> sx_sector x \<and> flt fzero (szl_max_sector_weight ?L)
     then apply_cap (headroom (szl_max_sector_weight ?L) (sx_sector_exposure x) (sx_equity x)) CapSectorWeight c2 else c2)"
  define c4 where "c4 = (if flt fzero (szl_max_gross_leverage ?L)
     then apply_cap (headroom (szl_max_gross_leverage ?L) (sx_existing_gross x) (sx_equity x)) CapGrossLeverage c3 else c3)"
  have out: "(w, out) = cap_net cfg s x c4"
    using res unfolding apply_limits_def Let_def c1_def c2_def c3_def c4_def by (rule sym)
  have h1: "fin (fst c1)" "fle (fabs (fst c1)) (szl_max_position_weight ?L)"
    using apply_cap_holds [OF w0 pos, of CapPositionWeight out0] by (simp_all add: c1_def)
  have "fin (fst c2) \<and> fle (fabs (fst c2)) (fabs (fst c1)) \<and> (flt fzero (szl_max_position_notional ?L) \<longrightarrow>
      fle (fabs (fst c2)) (fdiv (szl_max_position_notional ?L) (sx_equity x)))"
    using h1(1) apply_cap_holds [OF h1(1) fle_zero_quotient [OF _ eq], of "szl_max_position_notional ?L" CapPositionNotional "snd c1"]
    by (simp add: c2_def)
  note h2 = this
  have "fin (fst c3) \<and> fle (fabs (fst c3)) (fabs (fst c2)) \<and> (0 \<le> sx_sector x \<and> flt fzero (szl_max_sector_weight ?L) \<longrightarrow>
      fle (fabs (fst c3)) (headroom (szl_max_sector_weight ?L) (sx_sector_exposure x) (sx_equity x)))"
    using h2 apply_cap_holds [of "fst c2" "headroom (szl_max_sector_weight ?L) (sx_sector_exposure x) (sx_equity x)" CapSectorWeight "snd c2"]
    by (simp add: c3_def)
  note h3 = this
  have "fin (fst c4) \<and> fle (fabs (fst c4)) (fabs (fst c3)) \<and> (flt fzero (szl_max_gross_leverage ?L) \<longrightarrow>
      fle (fabs (fst c4)) (headroom (szl_max_gross_leverage ?L) (sx_existing_gross x) (sx_equity x)))"
    using h3 apply_cap_holds [of "fst c3" "headroom (szl_max_gross_leverage ?L) (sx_existing_gross x) (sx_equity x)" CapGrossLeverage "snd c3"]
    by (simp add: c4_def)
  note h4 = this
  have h5: "fin w \<and> fle (fabs w) (fabs (fst c4))"
    using cap_net_holds [of "fst c4" cfg s x "snd c4" w out] h4 out by simp
  have net: "within_caps cfg s x w \<longleftrightarrow> fle (fabs w) (szl_max_position_weight ?L)
      \<and> (flt fzero (szl_max_position_notional ?L) \<longrightarrow> fle (fabs w) (fdiv (szl_max_position_notional ?L) (sx_equity x)))
      \<and> (0 \<le> sx_sector x \<and> flt fzero (szl_max_sector_weight ?L) \<longrightarrow>
           fle (fabs w) (headroom (szl_max_sector_weight ?L) (sx_sector_exposure x) (sx_equity x)))
      \<and> (flt fzero (szl_max_gross_leverage ?L) \<longrightarrow>
           fle (fabs w) (headroom (szl_max_gross_leverage ?L) (sx_existing_gross x) (sx_equity x)))"
    using cap_net_holds [of "fst c4" cfg s x "snd c4" w out] h4 out by (simp add: within_caps_def Let_def)
  have chain: "fle (fabs w) (fabs (fst c4))" "fle (fabs w) (fabs (fst c3))" "fle (fabs w) (fabs (fst c2))"
    "fle (fabs w) (fabs (fst c1))"
    using h5 h4 h3 h2 fle_trans by blast+
  then show ?thesis unfolding net using h1 h2 h3 h4 h5 fle_trans by blast
qed

text \<open>
  C12: A sized position is within every cap. When the signal is actionable, the equity positive and the position limit
  not negative, the weight is at most the limit on one position, in weight and in notional, and at most what the
  sector and the gross limit still leave; a weight that takes the net exposure past its limit is at most the
  headroom the net limit leaves. A signal that is not actionable, or a book without equity, is sized to zero.
\<close>

theorem sizing_respects_the_caps:
  "case size_position cfg s x of
     Inl _ \<Rightarrow> True
   | Inr d \<Rightarrow>
       if is_actionable s \<and> flt fzero (sx_equity x)
       then (if fle fzero (szl_max_position_weight (szc_limits cfg)) then within_caps cfg s x (szd_final_weight d) else True)
       else szd_target_position d = fzero \<and> szd_final_weight d = fzero"
proof (cases "size_position cfg s x")
  case (Inr d)
  show ?thesis
  proof (cases "is_actionable s \<and> flt fzero (sx_equity x)")
    case True
    then have act: "\<not> is_flat_signal s" by (simp add: is_actionable_def is_flat_signal_def)
    have eq: "fin (sx_equity x)" using Inr by (auto simp: size_position_def split: if_splits)
    have pos: "\<not> fle (sx_equity x) fzero" using True eq by (simp add: f64_sem)
    obtain w out where w: "apply_limits cfg s x (if fin (raw_weight_for cfg s x) then raw_weight_for cfg s x else fzero,
        no_sizing\<lparr>szd_raw_weight := if fin (raw_weight_for cfg s x) then raw_weight_for cfg s x else fzero\<rparr>) = (w, out)"
      by fastforce
    have "szd_final_weight d = w"
      using Inr True act pos w by (auto simp: size_position_def Let_def split: if_splits)
    moreover have "within_caps cfg s x w" if "fle fzero (szl_max_position_weight (szc_limits cfg))"
      using apply_limits_within [OF _ _ eq that w] True by simp
    ultimately show ?thesis using Inr True by simp
  next
    case False
    have "szd_target_position d = fzero \<and> szd_final_weight d = fzero"
    proof (cases "is_actionable s")
      case True
      with False Inr have "fin (sx_equity x)" "\<not> flt fzero (sx_equity x)"
        by (auto simp: size_position_def split: if_splits)
      then have "fle (sx_equity x) fzero" by (simp add: f64_sem)
      then show ?thesis using Inr by (auto simp: size_position_def no_sizing_def split: if_splits)
    qed (use Inr in \<open>auto simp: size_position_def no_sizing_def split: if_splits\<close>)
    then show ?thesis unfolding Inr sum.case if_not_P [OF False] .
  qed
qed simp

section \<open>The plan covers the book\<close>

lemma universe_inv: "sorted_wrt (<) (universe tp pf)"
proof -
  have one: "om_inv m \<Longrightarrow> om_inv (fold (\<lambda>(key, tg) m. om_put key True m) xs m)" for m :: "(InstrumentId, bool) omap" and xs :: "(InstrumentId \<times> TargetPosition) list"
    by (induction xs arbitrary: m) (simp_all add: om_inv_put split_def)
  have two: "om_inv m \<Longrightarrow> om_inv (fold (\<lambda>(key, p) m. if is_flat p then m else om_put key True m) xs m)" for m :: "(InstrumentId, bool) omap" and xs :: "(InstrumentId \<times> Position) list"
    by (induction xs arbitrary: m) (simp_all add: om_inv_put split_def)
  show ?thesis using two [OF one [OF om_inv_empty]] by (simp add: universe_def om_inv_def)
qed

lemma universe_iff:
  "i \<in> set (universe tp pf) \<longleftrightarrow> target_find i tp \<noteq> None \<or> (\<exists>p. (i, p) \<in> set (pf_positions pf) \<and> \<not> is_flat p)"
proof -
  have one: "i \<in> fst ` set (fold (\<lambda>(key, tg) m. om_put key True m) xs m) \<longleftrightarrow> i \<in> fst ` set m \<or> i \<in> fst ` set xs"
    for m :: "(InstrumentId, bool) omap" and xs :: "(InstrumentId \<times> TargetPosition) list"
  proof (induction xs arbitrary: m)
    case (Cons x xs)
    have "i \<in> fst ` set (om_put (fst x) True m) \<longleftrightarrow> i = fst x \<or> i \<in> fst ` set m" by (simp add: om_keys_put)
    then show ?case using Cons.IH [of "om_put (fst x) True m"] by (simp add: split_def) blast
  qed simp
  have two: "i \<in> fst ` set (fold (\<lambda>(key, p) m. if is_flat p then m else om_put key True m) xs m)
      \<longleftrightarrow> i \<in> fst ` set m \<or> (\<exists>p. (i, p) \<in> set xs \<and> \<not> is_flat p)"
    for m :: "(InstrumentId, bool) omap" and xs :: "(InstrumentId \<times> Position) list"
  proof (induction xs arbitrary: m)
    case (Cons x xs)
    have "i \<in> fst ` set (om_put (fst x) True m) \<longleftrightarrow> i = fst x \<or> i \<in> fst ` set m" by (simp add: om_keys_put)
    then show ?case using Cons.IH [of "om_put (fst x) True m"] Cons.IH [of m] by (cases x) auto
  qed simp
  show ?thesis
    using two one by (auto simp: universe_def target_find_def om_find_def map_of_eq_None_iff)
qed

lemma is_f64_fsub [simp]: "is_f64 (fsub a b)"
  by (auto simp: fsub_def fadd_def) (cases a; cases b; simp)+

lemma whole_shares_toward_zero:
  assumes "is_f64 x" "fin x"
  shows "fle (fabs (fmul (ftrunc (fdiv x (Fin 1))) (Fin 1))) (fabs x)"
proof -
  note d = div_one [OF assms]
  define y where "y = ftrunc (fdiv x (Fin 1))"
  have y: "fin y" "\<bar>val y\<bar> \<le> \<bar>val x\<bar>"
    using d by (cases "fdiv x (Fin 1)"; auto simp: y_def abs_if; linarith)+
  have g: "rnd \<bar>val x\<bar> = \<bar>val x\<bar>" "\<bar>val x\<bar> < f64_lim"
    using assms is_f64_rnd [OF assms(1)] by (cases x; auto simp: is_f64_def abs_if rnd_minus)+
  have "rnd (val y) \<le> \<bar>val x\<bar>" "- \<bar>val x\<bar> \<le> rnd (val y)"
    using rnd_mono [of "val y" "\<bar>val x\<bar>"] rnd_mono [of "- \<bar>val x\<bar>" "val y"] y g(1) by (auto simp: rnd_minus)
  then have r: "\<bar>rnd (val y)\<bar> \<le> \<bar>val x\<bar>" by simp
  then have f: "fin (fmul y (Fin 1))" using y(1) g(2) by (simp add: fin_fmul_iff)
  then have "val (fmul y (Fin 1)) = rnd (val y)" using fmul_val [of y "Fin 1"] y(1) by simp
  then show ?thesis using r f assms(2) by (simp add: y_def [symmetric] fle_fin)
qed

text \<open>A trade that is not skipped moves the position towards its target, and with whole shares not past it.\<close>

definition towards_target :: "RebalanceConfig \<Rightarrow> RebalanceTrade \<Rightarrow> bool" where
  "towards_target cfg t \<longleftrightarrow>
     (let gap = fsub (rbt_target t) (rbt_current t) in
      \<not> rbt_skipped t \<longrightarrow>
        \<not> feq (rbt_delta t) fzero \<and> rbt_side t = (if fle fzero gap then Buy else Sell)
        \<and> (whole_lots (rbc_lot_size cfg) \<and> fin gap \<longrightarrow> fle (fabs (rbt_delta t)) (fabs gap)))"

lemma plan_trade_ok:
  "rbt_instrument (plan_trade cfg eq tp pf i) = i
   \<and> rbt_current (plan_trade cfg eq tp pf i) = (case position_of pf i of None \<Rightarrow> fzero | Some p \<Rightarrow> pos_quantity p)
   \<and> rbt_target (plan_trade cfg eq tp pf i) = (case target_find i tp of None \<Rightarrow> fzero | Some g \<Rightarrow> tg_quantity g)
   \<and> towards_target cfg (plan_trade cfg eq tp pf i)"
proof (cases "case target_find i tp of Some g \<Rightarrow> Some (tg_reference_price g) | None \<Rightarrow> mark_price pf i")
  case None
  then show ?thesis by (simp add: plan_trade_def skip_trade_def towards_target_def Let_def)
next
  case (Some px)
  define gap where "gap = fsub (case target_find i tp of None \<Rightarrow> fzero | Some g \<Rightarrow> tg_quantity g)
      (case position_of pf i of None \<Rightarrow> fzero | Some p \<Rightarrow> pos_quantity p)"
  have lot: "fle (fabs (fmul (ftrunc (fdiv gap (rbc_lot_size cfg))) (rbc_lot_size cfg))) (fabs gap)"
    if "whole_lots (rbc_lot_size cfg)" "fin gap" "flt fzero (rbc_lot_size cfg)"
    using that whole_shares_toward_zero [of gap] by (simp add: whole_lots_def gap_def)
  show ?thesis
    unfolding plan_trade_def Let_def Some option.case gap_def [symmetric] select_convs
    by (auto simp: skip_trade_def towards_target_def Let_def gap_def [symmetric] lot)
qed

text \<open>
  C11: A plan covers the book. It has exactly one trade for each instrument that is targeted or held, in order; each
  starts from the quantity held and aims at the target, or at zero where there is none; a trade that is not skipped
  moves towards its target, never past it in whole shares; and the turnover is within the limit of a rebalance.
\<close>

theorem plan_covers_the_book:
  "case plan_rebalance cfg tp pf of
     Inl _ \<Rightarrow> True
   | Inr plan \<Rightarrow>
       sorted_wrt (<) (map rbt_instrument (rbp_trades plan))
     \<and> (\<forall>i. (i \<in> set (map rbt_instrument (rbp_trades plan))) =
          (case target_find i tp of Some _ \<Rightarrow> True
           | None \<Rightarrow> list_ex (\<lambda>(key, p). key = i \<and> is_flat p = False) (pf_positions pf)))
     \<and> list_all (\<lambda>t. towards_target cfg t
          \<and> rbt_current t = (case position_of pf (rbt_instrument t) of None \<Rightarrow> fzero | Some p \<Rightarrow> pos_quantity p)
          \<and> rbt_target t = (case target_find (rbt_instrument t) tp of None \<Rightarrow> fzero | Some g \<Rightarrow> tg_quantity g))
          (rbp_trades plan)
     \<and> (if flt fzero (rbc_max_turnover cfg) then flt (rbc_max_turnover cfg) (rbp_turnover_ratio plan) = False else True)"
proof (cases "plan_rebalance cfg tp pf")
  case (Inr plan)
  then have trades: "rbp_trades plan = map (plan_trade cfg (equity pf) tp pf) (universe tp pf)"
    and ratio: "\<not> (flt fzero (rbc_max_turnover cfg) \<and> flt (rbc_max_turnover cfg) (rbp_turnover_ratio plan))"
    by (auto simp: plan_rebalance_def Let_def split: if_splits)
  have ids: "map rbt_instrument (rbp_trades plan) = universe tp pf"
    by (simp add: trades comp_def plan_trade_ok map_idI)
  have "list_all (\<lambda>t. towards_target cfg t
          \<and> rbt_current t = (case position_of pf (rbt_instrument t) of None \<Rightarrow> fzero | Some p \<Rightarrow> pos_quantity p)
          \<and> rbt_target t = (case target_find (rbt_instrument t) tp of None \<Rightarrow> fzero | Some g \<Rightarrow> tg_quantity g))
          (rbp_trades plan)"
    by (simp add: trades list_all_iff plan_trade_ok)
  moreover have "(i \<in> set (universe tp pf)) = (case target_find i tp of Some _ \<Rightarrow> True
           | None \<Rightarrow> list_ex (\<lambda>(key, p). key = i \<and> is_flat p = False) (pf_positions pf))" for i
    by (auto simp: universe_iff list_ex_iff split: option.split)
  ultimately show ?thesis using ratio universe_inv [of tp pf] unfolding Inr sum.case ids by simp
qed simp

end
