(* ===== verification/Labels.thy ===== *)
theory Labels
  imports WalkForward WireText Construction "HOL-Library.Product_Lexorder"
begin

text \<open>
  Forward-looking labels (\<open>labels/label.cpp\<close>): the target of every observation of a midprice series, with the
  interval it looks over, for one instrument and for a panel. The logarithm is a parameter. A row plus the horizon is a
  sum of \<open>std::size_t\<close> and may wrap; the theorems name the bound under which it does not. What the splitter of
  \<open>WalkForward\<close> needs of its observations is proved of the labels here, which gives the guarantee that spans both.
\<close>

section \<open>Labels and their configuration\<close>

datatype LabelKind = ForwardLogReturn | VolNormalisedReturn | CostAwareReturn | DirectionLabel | TripleBarrier

fun to_string_LabelKind :: "LabelKind \<Rightarrow> string" where
  "to_string_LabelKind ForwardLogReturn = ''forward_log_return''"
| "to_string_LabelKind VolNormalisedReturn = ''vol_normalised_return''"
| "to_string_LabelKind CostAwareReturn = ''cost_aware_return''"
| "to_string_LabelKind DirectionLabel = ''direction''"
| "to_string_LabelKind TripleBarrier = ''triple_barrier''"

record LabelConfig =
  lcf_kind :: LabelKind
  lcf_horizon :: nat
  lcf_vol_window :: nat
  lcf_winsor_sigma :: f64
  lcf_winsorize :: bool
  lcf_direction_threshold :: f64
  lcf_round_trip_cost_bps :: f64
  lcf_barrier_upper_sigma :: f64
  lcf_barrier_lower_sigma :: f64

definition default_labels :: LabelConfig where
  "default_labels = \<lparr>lcf_kind = ForwardLogReturn, lcf_horizon = 15, lcf_vol_window = 60, lcf_winsor_sigma = lit 4,
     lcf_winsorize = True, lcf_direction_threshold = fzero, lcf_round_trip_cost_bps = lit 2,
     lcf_barrier_upper_sigma = lit 2, lcf_barrier_lower_sigma = lit 2\<rparr>"

definition label_signature :: "LabelConfig \<Rightarrow> string" where
  "label_signature c = to_string_LabelKind (lcf_kind c) @ ''|h='' @ dec_string (lcf_horizon c)
     @ ''|vw='' @ dec_string (lcf_vol_window c)
     @ ''|winsor='' @ wire_number (if lcf_winsorize c then lcf_winsor_sigma c else fzero)
     @ ''|thr='' @ wire_number (lcf_direction_threshold c) @ ''|cost='' @ wire_number (lcf_round_trip_cost_bps c)
     @ ''|bu='' @ wire_number (lcf_barrier_upper_sigma c) @ ''|bl='' @ wire_number (lcf_barrier_lower_sigma c)"

definition label_hash :: "LabelConfig \<Rightarrow> 64 word" where
  "label_hash c = fnv1a64 (label_signature c)"

record Label =
  lbl_instrument :: InstrumentId
  lbl_interval :: ObservationInterval
  lbl_value :: f64
  lbl_weight :: f64
  lbl_valid :: bool
  lbl_touched :: int

record LabelSet =
  lbs_labels :: "Label list"
  lbs_config :: LabelConfig
  lbs_config_hash :: "64 word"

definition label_valid_count :: "LabelSet \<Rightarrow> nat" where
  "label_valid_count s = length (filter lbl_valid (lbs_labels s))"

definition label_valid_rows :: "LabelSet \<Rightarrow> nat list" where
  "label_valid_rows s = filter (\<lambda>i. lbl_valid (lbs_labels s ! i)) [0..<length (lbs_labels s)]"

definition label_values :: "LabelSet \<Rightarrow> f64 list" where
  "label_values s = map lbl_value (lbs_labels s)"

definition label_intervals :: "LabelSet \<Rightarrow> ObservationInterval list" where
  "label_intervals s = map lbl_interval (lbs_labels s)"

record PricePoint =
  pp_ts :: Timestamp
  pp_instrument :: InstrumentId
  pp_mid :: Price

datatype label_error = ZeroHorizon | SeriesNotChronological Timestamp

section \<open>Building the labels of one instrument\<close>

text \<open>
  Trailing realised volatility up to and including an index: the sum of the squared log returns and their number,
  pairs with a price that is not positive or a return that is not finite left out.
\<close>

definition vol_step :: "(f64 \<Rightarrow> f64) \<Rightarrow> PricePoint list \<Rightarrow> nat \<Rightarrow> f64 \<times> nat \<Rightarrow> f64 \<times> nat" where
  "vol_step flog ps i acc =
     (let a = pp_mid (ps ! (i - 1)); b = pp_mid (ps ! i); r = flog (fdiv b a) in
      if fle a fzero \<or> fle b fzero then acc
      else if \<not> is_finite r then acc
      else (fadd (fst acc) (fmul r r), snd acc + 1))"

definition trailing_vol :: "(f64 \<Rightarrow> f64) \<Rightarrow> PricePoint list \<Rightarrow> nat \<Rightarrow> nat \<Rightarrow> f64" where
  "trailing_vol flog ps index window =
     (if index = 0 \<or> window = 0 then fzero
      else
        (let start = (if window \<le> index then index - window + 1 else 1);
             acc = fold (vol_step flog ps) [start..<index + 1] (fzero, 0) in
         if snd acc = 0 then fzero else fsqrt (fdiv (fst acc) (of_int64 (int (snd acc))))))"

text \<open>The first barrier touched on the way: 1 the upper one, -1 the lower one, 0 neither before the horizon.\<close>

fun first_touch :: "(f64 \<Rightarrow> f64) \<Rightarrow> f64 \<Rightarrow> f64 \<Rightarrow> f64 \<Rightarrow> PricePoint list \<Rightarrow> int" where
  "first_touch flog p0 upper lower [] = 0"
| "first_touch flog p0 upper lower (p # ps) =
     (let pj = pp_mid p; r = flog (fdiv pj p0) in
      if \<not> flt fzero pj then first_touch flog p0 upper lower ps
      else if \<not> is_finite r then first_touch flog p0 upper lower ps
      else if fle upper r then 1
      else if fle r lower then -1
      else first_touch flog p0 upper lower ps)"

text \<open>The prices the barrier walk visits, from the row after \<open>i\<close> to the horizon.\<close>

definition path_ahead :: "PricePoint list \<Rightarrow> nat \<Rightarrow> nat \<Rightarrow> PricePoint list" where
  "path_ahead ps i h = map ((!) ps) [i + 1..<size_add i h + 1]"

text \<open>The target of one row from its raw forward return: the value and the barrier, or nothing when it is unusable.\<close>

definition label_target :: "(f64 \<Rightarrow> f64) \<Rightarrow> LabelConfig \<Rightarrow> PricePoint list \<Rightarrow> nat \<Rightarrow> f64 \<Rightarrow> (f64 \<times> int) option" where
  "label_target flog c ps i raw =
     (case lcf_kind c of
        ForwardLogReturn \<Rightarrow> Some (raw, 0)
      | VolNormalisedReturn \<Rightarrow>
          (let sigma = trailing_vol flog ps i (lcf_vol_window c) in
           if fle sigma fzero then None else Some (fdiv raw sigma, 0))
      | CostAwareReturn \<Rightarrow>
          (let cost = fmul (lcf_round_trip_cost_bps c) (lit (1 / 10000)); net = fsub (fabs raw) cost in
           Some (if fle net fzero then fzero else fcopysign net raw, 0))
      | DirectionLabel \<Rightarrow> Some (if flt (lcf_direction_threshold c) raw then lit 1 else fzero, 0)
      | TripleBarrier \<Rightarrow>
          (let sigma = trailing_vol flog ps i (lcf_vol_window c) in
           if fle sigma fzero then None
           else
             (let touched = first_touch flog (pp_mid (ps ! i)) (fmul (lcf_barrier_upper_sigma c) sigma)
                (fmul (fneg (lcf_barrier_lower_sigma c)) sigma) (path_ahead ps i (lcf_horizon c)) in
              Some (of_int64 touched, touched))))"

definition blank_label :: "PricePoint list \<Rightarrow> nat \<Rightarrow> Timestamp \<Rightarrow> Label" where
  "blank_label ps i until =
     \<lparr>lbl_instrument = pp_instrument (ps ! i),
      lbl_interval = \<lparr>sample_start = pp_ts (ps ! 0), obs_feature_end = pp_ts (ps ! i), label_start = pp_ts (ps ! i),
        label_end = until\<rparr>,
      lbl_value = fzero, lbl_weight = lit 1, lbl_valid = False, lbl_touched = 0\<rparr>"

definition label_row :: "(f64 \<Rightarrow> f64) \<Rightarrow> LabelConfig \<Rightarrow> PricePoint list \<Rightarrow> nat \<Rightarrow> Label" where
  "label_row flog c ps i =
     (let h = lcf_horizon c in
      if length ps \<le> size_add i h then blank_label ps i (pp_ts (ps ! i) + 1)
      else
        (let l = blank_label ps i (pp_ts (ps ! size_add i h));
             p0 = pp_mid (ps ! i); p1 = pp_mid (ps ! size_add i h); raw = flog (fdiv p1 p0) in
         if \<not> flt fzero p0 \<or> \<not> flt fzero p1 \<or> \<not> is_finite p0 \<or> \<not> is_finite p1 then l
         else if \<not> is_finite raw then l
         else (case label_target flog c ps i raw of
                 None \<Rightarrow> l
               | Some (v, touched) \<Rightarrow> l\<lparr>lbl_value := v, lbl_valid := True, lbl_touched := touched\<rparr>)))"

text \<open>Winsorising the continuous kinds: the valid values are clipped around their mean over the whole series.\<close>

definition continuous_kind :: "LabelKind \<Rightarrow> bool" where
  "continuous_kind k \<longleftrightarrow> k = ForwardLogReturn \<or> k = VolNormalisedReturn \<or> k = CostAwareReturn"

definition winsor_bounds :: "f64 \<Rightarrow> f64 list \<Rightarrow> (f64 \<times> f64) option" where
  "winsor_bounds sigma xs =
     (let n = length xs in
      if n < 2 then None
      else
        (let mean = fdiv (fold (\<lambda>x s. fadd s x) xs fzero) (of_int64 (int n));
             m2 = fold (\<lambda>x s. let d = fsub x mean in fadd s (fmul d d)) xs fzero;
             sd = fsqrt (fdiv m2 (of_int64 (int (n - 1)))) in
         if flt fzero sd then Some (fsub mean (fmul sigma sd), fadd mean (fmul sigma sd)) else None))"

definition clip_label :: "f64 \<Rightarrow> f64 \<Rightarrow> Label \<Rightarrow> Label" where
  "clip_label lo hi l = (if lbl_valid l then l\<lparr>lbl_value := fclamp (lbl_value l) lo hi\<rparr> else l)"

definition winsorise :: "LabelConfig \<Rightarrow> Label list \<Rightarrow> Label list" where
  "winsorise c ls =
     (if lcf_winsorize c \<and> continuous_kind (lcf_kind c) \<and> flt fzero (lcf_winsor_sigma c) then
        (case winsor_bounds (lcf_winsor_sigma c) (map lbl_value (filter lbl_valid ls)) of
           None \<Rightarrow> ls
         | Some (lo, hi) \<Rightarrow> map (clip_label lo hi) ls)
      else ls)"

definition weigh_label :: "LabelConfig \<Rightarrow> Label \<Rightarrow> Label" where
  "weigh_label c l =
     (if lbl_valid l then l\<lparr>lbl_weight := fdiv (lit 1) (of_int64 (int (lcf_horizon c)))\<rparr> else l)"

fun first_not_later :: "PricePoint list \<Rightarrow> Timestamp option" where
  "first_not_later (a # b # ps) = (if pp_ts b \<le> pp_ts a then Some (pp_ts b) else first_not_later (b # ps))"
| "first_not_later _ = None"

definition build_labels :: "(f64 \<Rightarrow> f64) \<Rightarrow> LabelConfig \<Rightarrow> PricePoint list \<Rightarrow> (label_error, LabelSet) result" where
  "build_labels flog c ps =
     (if lcf_horizon c = 0 then Err ZeroHorizon
      else (case first_not_later ps of
              Some ts \<Rightarrow> Err (SeriesNotChronological ts)
            | None \<Rightarrow>
                Ok \<lparr>lbs_labels = map (weigh_label c) (winsorise c (map (label_row flog c ps) [0..<length ps])),
                    lbs_config = c, lbs_config_hash = label_hash c\<rparr>))"

section \<open>Building the labels of a panel\<close>

fun panel_labels :: "(f64 \<Rightarrow> f64) \<Rightarrow> LabelConfig \<Rightarrow> PricePoint list list \<Rightarrow> (label_error, Label list) result" where
  "panel_labels flog c [] = Ok []"
| "panel_labels flog c (ps # pss) =
     (case build_labels flog c ps of
        Inl e \<Rightarrow> Err e
      | Inr one \<Rightarrow>
          (case panel_labels flog c pss of Inl e \<Rightarrow> Err e | Inr others \<Rightarrow> Ok (lbs_labels one @ others)))"

definition label_order :: "Label \<Rightarrow> Timestamp \<times> int" where
  "label_order l = (obs_feature_end (lbl_interval l), uint (lbl_instrument l))"

definition build_panel :: "(f64 \<Rightarrow> f64) \<Rightarrow> LabelConfig \<Rightarrow> PricePoint list list \<Rightarrow> (label_error, LabelSet) result" where
  "build_panel flog c pss =
     (case panel_labels flog c pss of
        Inl e \<Rightarrow> Err e
      | Inr ls \<Rightarrow> Ok \<lparr>lbs_labels = sort_key label_order ls, lbs_config = c, lbs_config_hash = label_hash c\<rparr>)"

section \<open>What the splitter needs of the observations\<close>

definition label_span :: "LabelConfig \<Rightarrow> PricePoint list \<Rightarrow> nat \<Rightarrow> ObservationInterval" where
  "label_span c ps i =
     \<lparr>sample_start = pp_ts (ps ! 0), obs_feature_end = pp_ts (ps ! i), label_start = pp_ts (ps ! i),
      label_end = (if length ps \<le> size_add i (lcf_horizon c) then pp_ts (ps ! i) + 1
        else pp_ts (ps ! size_add i (lcf_horizon c)))\<rparr>"

text \<open>The horizons that reach ahead of every row without wrapping.\<close>

definition horizon_fits :: "LabelConfig \<Rightarrow> PricePoint list \<Rightarrow> bool" where
  "horizon_fits c ps \<longleftrightarrow> length ps + lcf_horizon c < 2 ^ 64"

lemma horizon_exact:
  assumes "horizon_fits c ps" "i < length ps"
  shows "size_add i (lcf_horizon c) = i + lcf_horizon c"
  using assms by (intro size_add_exact) (simp add: horizon_fits_def)

lemma label_row_interval [simp]: "lbl_interval (label_row flog c ps i) = label_span c ps i"
  by (simp add: label_row_def label_span_def blank_label_def Let_def split: option.split)

lemma weigh_label_sel [simp]: "lbl_interval (weigh_label c l) = lbl_interval l"
  "lbl_instrument (weigh_label c l) = lbl_instrument l" "lbl_valid (weigh_label c l) = lbl_valid l"
  "lbl_value (weigh_label c l) = lbl_value l"
  by (simp_all add: weigh_label_def)

lemma clip_label_sel [simp]: "lbl_interval (clip_label lo hi l) = lbl_interval l" "lbl_valid (clip_label lo hi l) = lbl_valid l"
  by (simp_all add: clip_label_def)

lemma winsorise_sel [simp]: "map lbl_interval (winsorise c ls) = map lbl_interval ls"
  "map lbl_valid (winsorise c ls) = map lbl_valid ls"
  by (auto simp: winsorise_def split: option.split)

lemma winsorise_length [simp]: "length (winsorise c ls) = length ls"
  using winsorise_sel(1) by (metis length_map)

lemma first_not_later_none: "first_not_later ps = None \<longleftrightarrow> sorted_wrt (<) (map pp_ts ps)"
proof (induction ps rule: first_not_later.induct)
  case (1 a b ps)
  then show ?case by (auto simp: not_le)
qed simp_all

lemma build_labels_Ok:
  assumes "build_labels flog c ps = Ok s"
  shows "lcf_horizon c \<noteq> 0" and "sorted_wrt (<) (map pp_ts ps)"
    and "lbs_labels s = map (weigh_label c) (winsorise c (map (label_row flog c ps) [0..<length ps]))"
    and "label_intervals s = map (label_span c ps) [0..<length ps]"
proof -
  have "lcf_horizon c \<noteq> 0 \<and> first_not_later ps = None
      \<and> s = \<lparr>lbs_labels = map (weigh_label c) (winsorise c (map (label_row flog c ps) [0..<length ps])),
             lbs_config = c, lbs_config_hash = label_hash c\<rparr>"
    using assms by (auto simp: build_labels_def split: if_splits option.splits)
  moreover from this have "label_intervals s = map lbl_interval (winsorise c (map (label_row flog c ps) [0..<length ps]))"
    by (simp add: label_intervals_def comp_def)
  ultimately show "lcf_horizon c \<noteq> 0" and "sorted_wrt (<) (map pp_ts ps)"
    and "lbs_labels s = map (weigh_label c) (winsorise c (map (label_row flog c ps) [0..<length ps]))"
    and "label_intervals s = map (label_span c ps) [0..<length ps]"
    by (simp_all add: first_not_later_none comp_def)
qed

lemma ts_less: "sorted_wrt (<) (map pp_ts ps) \<Longrightarrow> i < j \<Longrightarrow> j < length ps \<Longrightarrow> pp_ts (ps ! i) < pp_ts (ps ! j)"
  using sorted_wrt_nth_less [of "(<)" "map pp_ts ps" i j] by simp

lemma ts_le: "sorted_wrt (<) (map pp_ts ps) \<Longrightarrow> i \<le> j \<Longrightarrow> j < length ps \<Longrightarrow> pp_ts (ps ! i) \<le> pp_ts (ps ! j)"
  using ts_less [of ps i j] by (cases "i = j") simp_all

lemma label_span_ok:
  assumes "sorted_wrt (<) (map pp_ts ps)" "lcf_horizon c \<noteq> 0" "i < length ps" "horizon_fits c ps"
  shows "interval_ok (label_span c ps i)"
  using ts_le [OF assms(1), of 0 i] ts_less [OF assms(1), of i "i + lcf_horizon c"] assms(2,3)
    horizon_exact [OF assms(4,3)]
  by (auto simp: interval_ok_def label_span_def)

lemma labels_are_splittable:
  assumes "build_labels flog c ps = Ok s" "horizon_fits c ps"
  shows "\<forall>iv\<in>set (label_intervals s). interval_ok iv" and "sorted (map label_start (label_intervals s))"
    and "sorted (map obs_feature_end (label_intervals s))"
proof -
  note built = build_labels_Ok [OF assms(1)]
  have times: "sorted (map pp_ts ps)" using built(2) by (rule strict_sorted_imp_sorted)
  have "map label_start (label_intervals s) = map pp_ts ps \<and> map obs_feature_end (label_intervals s) = map pp_ts ps"
    by (auto simp: built(4) label_span_def comp_def intro!: nth_equalityI)
  then show "sorted (map label_start (label_intervals s))" and "sorted (map obs_feature_end (label_intervals s))"
    using times by simp_all
  show "\<forall>iv\<in>set (label_intervals s). interval_ok iv"
    using label_span_ok [OF built(2,1) _ assms(2)] by (auto simp: built(4))
qed

section \<open>A label reads no price after its end\<close>

lemma trailing_vol_local:
  assumes "\<And>j. j \<le> i \<Longrightarrow> ps ! j = qs ! j"
  shows "trailing_vol flog ps i w = trailing_vol flog qs i w"
proof -
  have "fold (vol_step flog ps) [k..<i + 1] acc = fold (vol_step flog qs) [k..<i + 1] acc" for k acc
    by (rule fold_cong) (auto simp: vol_step_def assms intro!: ext)
  then show ?thesis by (simp add: trailing_vol_def Let_def)
qed

lemma label_row_local:
  assumes same: "take (Suc (i + lcf_horizon c)) ps = take (Suc (i + lcf_horizon c)) qs"
    and ahead: "i + lcf_horizon c < length ps" and fits: "horizon_fits c ps"
  shows "label_row flog c ps i = label_row flog c qs i"
proof -
  let ?h = "lcf_horizon c"
  have len: "i + ?h < length qs" using arg_cong [OF same, of length] ahead by (simp add: min_def split: if_splits)
  have at: "ps ! j = qs ! j" if "j \<le> i + ?h" for j
    using arg_cong [OF same, of "\<lambda>xs. xs ! j"] that by simp
  have exact: "size_add i ?h = i + ?h" using ahead by (intro horizon_exact [OF fits]) simp
  have ahead_eq: "path_ahead ps i ?h = path_ahead qs i ?h"
    unfolding path_ahead_def by (rule map_cong) (auto simp: exact intro: at)
  have "trailing_vol flog ps i w = trailing_vol flog qs i w" for w
    by (rule trailing_vol_local) (simp add: at)
  then have "label_target flog c ps i raw = label_target flog c qs i raw" for raw
    by (cases "lcf_kind c") (simp_all add: label_target_def ahead_eq at Let_def)
  then show ?thesis using ahead len by (simp add: label_row_def blank_label_def at exact Let_def)
qed

lemma label_valid_ahead: "lbl_valid (label_row flog c ps i) \<Longrightarrow> size_add i (lcf_horizon c) < length ps"
  by (auto simp: label_row_def blank_label_def Let_def not_le split: if_splits)

lemma winsorise_off: "\<not> lcf_winsorize c \<Longrightarrow> winsorise c ls = ls"
  by (simp add: winsorise_def)

text \<open>
  C28: Without winsorising, and for a horizon and window sizes whose \<open>size_t\<close> sums do not wrap, no training target reads a
  price of the evaluation. Take the labels of a series, any fold of a purged split over their intervals, a training row
  with a usable label and a row the model is judged on: a series that agrees up to the moment of that decision, and
  moves in any way after it, gives the training row the same label.
\<close>

theorem training_targets_precede_the_evaluation:
  assumes "build_labels flog c ps = Ok s" "build_labels flog c qs = Ok t" "\<not> lcf_winsorize c"
    and "wf_split w (label_intervals s) = Some (Ok folds)" "wf_purge w" "f \<in> set folds"
    and "i \<in> set (fd_train_rows f)" "lbl_valid (lbs_labels s ! i)"
    and "j \<in> set (fd_validation_rows f) \<union> set (fd_test_rows f)"
    and "take (Suc j) qs = take (Suc j) ps"
    and "horizon_fits c ps" "sizes_fit w (length ps)"
  shows "lbs_labels t ! i = lbs_labels s ! i"
proof -
  note built = build_labels_Ok [OF assms(1)] and other = build_labels_Ok [OF assms(2)]
  have fits: "sizes_fit w (length (label_intervals s))" using assms(12) by (simp add: built(4))
  have rows: "i < length ps" "j < length ps"
    using split_rows_in_range [OF assms(4,6) fits] assms(7,9) by (auto simp: built(4))
  have ends: "label_end (label_intervals s ! i) \<le> obs_feature_end (label_intervals s ! j)"
    by (rule no_training_label_reaches_evaluation [OF assms(4,5,6)
          labels_are_splittable(1,2) [OF assms(1,11)] fits assms(7,9)])
  have row: "lbs_labels s ! i = weigh_label c (label_row flog c ps i)"
    using rows assms(3) by (simp add: built(3) winsorise_off)
  note exact = horizon_exact [OF assms(11) rows(1)]
  have ahead: "i + lcf_horizon c < length ps"
    using assms(8) label_valid_ahead [of flog c ps i] by (simp add: row exact)
  have "i + lcf_horizon c \<le> j"
  proof (rule ccontr)
    assume "\<not> i + lcf_horizon c \<le> j"
    then have "pp_ts (ps ! j) < pp_ts (ps ! (i + lcf_horizon c))" using ts_less [OF built(2)] ahead by simp
    then show False using ends rows ahead by (simp add: built(4) label_span_def exact)
  qed
  then have "take (Suc (i + lcf_horizon c)) ps = take (Suc (i + lcf_horizon c)) qs"
    using arg_cong [OF assms(10), of "take (Suc (i + lcf_horizon c))"] by (simp add: min_def)
  from label_row_local [OF this ahead assms(11), of flog] have "label_row flog c ps i = label_row flog c qs i" .
  moreover have "i < length qs" using arg_cong [OF assms(10), of length] rows \<open>i + lcf_horizon c \<le> j\<close> by simp
  ultimately show ?thesis using assms(3) by (simp add: row other(3) winsorise_off)
qed

section \<open>The panel\<close>

lemma panel_labels_Ok:
  "panel_labels flog c pss = Ok ls \<Longrightarrow>
   \<exists>ss. list_all2 (\<lambda>ps s. build_labels flog c ps = Ok s) pss ss \<and> ls = concat (map lbs_labels ss)"
proof (induction pss arbitrary: ls)
  case (Cons ps pss)
  then obtain one others where "build_labels flog c ps = Ok one" "panel_labels flog c pss = Ok others"
    "ls = lbs_labels one @ others" by (auto split: sum.splits)
  moreover from Cons.IH [OF this(2)] obtain ss where
    "list_all2 (\<lambda>ps s. build_labels flog c ps = Ok s) pss ss" "others = concat (map lbs_labels ss)" by blast
  ultimately show ?case by (intro exI [of _ "one # ss"]) simp
qed simp

lemma list_all2_images: "list_all2 P xs ys \<Longrightarrow> y \<in> set ys \<Longrightarrow> \<exists>x\<in>set xs. P x y"
  by (induction rule: list_all2_induct) auto

lemma label_start_decision:
  assumes "build_labels flog c ps = Ok s" "l \<in> set (lbs_labels s)" "horizon_fits c ps"
  shows "interval_ok (lbl_interval l) \<and> label_start (lbl_interval l) = obs_feature_end (lbl_interval l)"
proof -
  note built = build_labels_Ok [OF assms(1)]
  have "lbl_interval l \<in> set (label_intervals s)" using assms(2) by (simp add: label_intervals_def)
  then show ?thesis using label_span_ok [OF built(2,1) _ assms(3)] by (auto simp: built(4) label_span_def)
qed

text \<open>
  The labels of a panel are ready to be split, the horizon reaching ahead of no series by more than a size holds. They are the labels of the single series, sorted by decision time and
  then by instrument; every interval is well formed, and both the decisions and the label starts come in order, so
  the splitter never refuses them as unordered and its purge keeps every training label clear of the evaluation.
\<close>

theorem panel_labels_are_splittable:
  assumes "list_all (horizon_fits c) pss"
  shows "case build_panel flog c pss of
     Inl e \<Rightarrow> (\<exists>ps\<in>set pss. build_labels flog c ps = Err e)
   | Inr s \<Rightarrow> (\<exists>ss. list_all2 (\<lambda>ps s. build_labels flog c ps = Ok s) pss ss
         \<and> mset (lbs_labels s) = mset (concat (map lbs_labels ss)))
       \<and> sorted (map label_order (lbs_labels s))
       \<and> sorted (map obs_feature_end (label_intervals s)) \<and> sorted (map label_start (label_intervals s))
       \<and> list_all interval_ok (label_intervals s)"
proof (cases "build_panel flog c pss")
  case (Inl e)
  then have "panel_labels flog c pss = Err e" by (auto simp: build_panel_def split: sum.splits)
  then have "\<exists>ps\<in>set pss. build_labels flog c ps = Err e"
    by (induction pss) (auto split: sum.splits)
  then show ?thesis using Inl by simp
next
  case (Inr s)
  then obtain ls where ls: "panel_labels flog c pss = Ok ls" and s: "lbs_labels s = sort_key label_order ls"
    by (auto simp: build_panel_def split: sum.splits)
  obtain ss where ss: "list_all2 (\<lambda>ps s. build_labels flog c ps = Ok s) pss ss" "ls = concat (map lbs_labels ss)"
    using panel_labels_Ok [OF ls] by blast
  have each: "interval_ok (lbl_interval l) \<and> label_start (lbl_interval l) = obs_feature_end (lbl_interval l)"
    if l: "l \<in> set ls" for l
  proof -
    obtain s1 where s1: "s1 \<in> set ss" "l \<in> set (lbs_labels s1)" using l by (auto simp: ss(2))
    from list_all2_images [OF ss(1) s1(1)] obtain ps where "ps \<in> set pss" "build_labels flog c ps = Ok s1" by blast
    with assms label_start_decision [OF this(2) s1(2)] show ?thesis by (simp add: list_all_iff)
  qed
  have order: "sorted (map label_order (lbs_labels s))" by (simp add: s)
  then have "sorted (map fst (map label_order (lbs_labels s)))"
    by (auto simp: sorted_wrt_map less_eq_prod_def elim!: sorted_wrt_mono_rel [rotated])
  then have decided: "sorted (map obs_feature_end (label_intervals s))"
    by (simp add: label_intervals_def label_order_def comp_def)
  have same: "map label_start (label_intervals s) = map obs_feature_end (label_intervals s)"
    using each by (auto simp: label_intervals_def s)
  have starts: "sorted (map label_start (label_intervals s))" unfolding same by (rule decided)
  have "list_all interval_ok (label_intervals s)"
    using each by (auto simp: list_all_iff label_intervals_def s)
  moreover have "\<exists>ss. list_all2 (\<lambda>ps s. build_labels flog c ps = Ok s) pss ss
      \<and> mset (lbs_labels s) = mset (concat (map lbs_labels ss))"
    using ss by (intro exI [of _ ss]) (simp add: s)
  ultimately show ?thesis using Inr order decided starts by simp
qed

section \<open>Series to try it on\<close>

definition sample_prices :: "Price \<Rightarrow> PricePoint list" where
  "sample_prices final = map (\<lambda>k. \<lparr>pp_ts = 10 * int k, pp_instrument = 1,
     pp_mid = if k = 8 then final else Fin 100\<rparr>) [0..<9]"

definition sample_label_config :: LabelConfig where
  "sample_label_config = default_labels\<lparr>lcf_kind := DirectionLabel, lcf_horizon := 2, lcf_winsorize := False\<rparr>"

lemma sample_label_config_sel [simp]:
  "lcf_kind sample_label_config = DirectionLabel" "lcf_horizon sample_label_config = 2"
  "\<not> lcf_winsorize sample_label_config" "lcf_direction_threshold sample_label_config = fzero"
  by (simp_all add: sample_label_config_def default_labels_def)

lemma sample_prices_nth [simp]:
  "k < 9 \<Longrightarrow> sample_prices p ! k = \<lparr>pp_ts = 10 * int k, pp_instrument = 1, pp_mid = if k = 8 then p else Fin 100\<rparr>"
  "length (sample_prices p) = 9"
  by (simp_all add: sample_prices_def)

abbreviation log_near_one :: "f64 \<Rightarrow> f64" where
  "log_near_one x \<equiv> fsub x (Fin 1)"

lemma sample_labels:
  "\<exists>s. build_labels log_near_one sample_label_config (sample_prices p) = Ok s"
  by (simp add: build_labels_def first_not_later_none sample_prices_def upt_rec)

lemma sample_label_intervals:
  assumes "build_labels log_near_one sample_label_config (sample_prices p) = Ok s"
  shows "label_intervals s = map (\<lambda>k. \<lparr>sample_start = 0, obs_feature_end = 10 * int k, label_start = 10 * int k,
     label_end = (if k < 7 then 10 * int k + 20 else 10 * int k + 1)\<rparr>) [0..<9]"
  unfolding build_labels_Ok(4) [OF assms] by (simp add: label_span_def upt_rec)

lemma sample_label_split:
  assumes "label_intervals s = map (\<lambda>k. \<lparr>sample_start = 0, obs_feature_end = 10 * int k, label_start = 10 * int k,
     label_end = (if k < 7 then 10 * int k + 20 else 10 * int k + 1)\<rparr>) [0..<9]"
  defines "f \<equiv> make_fold sample_walk (label_intervals s) 3 0"
  shows "\<exists>folds. wf_split sample_walk (label_intervals s) = Some (Ok folds) \<and> f \<in> set folds"
    and "1 \<in> set (fd_train_rows f)" "3 \<in> set (fd_validation_rows f)"
proof -
  let ?ivs = "label_intervals s"
  have n: "length ?ivs = 9" by (simp add: assms(1))
  have t: "fd_train_rows f \<noteq> []" "fd_train_rows (make_fold sample_walk ?ivs 5 1) \<noteq> []"
    unfolding f_def by (simp_all add: make_fold_def sample_walk_def assms(1) train_begin_index_def leaks_def
        label_overlaps_def upt_rec Let_def)
  have "split_loop sample_walk ?ivs 3 0 [] = Some [f, make_fold sample_walk ?ivs 5 1]"
    using t unfolding f_def by (subst split_loop.simps, simp add: n Let_def)+
  moreover have "first_unordered 1 ?ivs = None" by (simp add: first_unordered_none assms(1) upt_rec)
  moreover have "?ivs \<noteq> []" using n by auto
  ultimately show "\<exists>folds. wf_split sample_walk ?ivs = Some (Ok folds) \<and> f \<in> set folds" by (simp add: wf_split_def)
  show "1 \<in> set (fd_train_rows f)" "3 \<in> set (fd_validation_rows f)"
    unfolding f_def by (simp_all add: make_fold_def sample_walk_def assms(1) train_begin_index_def leaks_def
        label_overlaps_def upt_rec Let_def)
qed

theorem training_targets_precede_the_evaluation_witness:
  "\<exists>s t. build_labels log_near_one sample_label_config (sample_prices (Fin 100)) = Ok s
     \<and> build_labels log_near_one sample_label_config (sample_prices NaN) = Ok t
     \<and> lbl_valid (lbs_labels s ! 1) \<and> lbs_labels t ! 1 = lbs_labels s ! 1"
proof -
  obtain s t where s: "build_labels log_near_one sample_label_config (sample_prices (Fin 100)) = Ok s"
    and t: "build_labels log_near_one sample_label_config (sample_prices NaN) = Ok t"
    using sample_labels by blast
  obtain folds where f: "wf_split sample_walk (label_intervals s) = Some (Ok folds)"
    "make_fold sample_walk (label_intervals s) 3 0 \<in> set folds" and rows:
    "1 \<in> set (fd_train_rows (make_fold sample_walk (label_intervals s) 3 0))"
    "3 \<in> set (fd_validation_rows (make_fold sample_walk (label_intervals s) 3 0))"
    using sample_label_split [OF sample_label_intervals [OF s]] by blast
  have raw: "fsub (fdiv (Fin 100) (Fin 100)) (Fin 1) = fzero" and pos: "flt fzero (Fin 100)"
    by (simp_all add: f64_eval)
  have "lbl_valid (label_row log_near_one sample_label_config (sample_prices (Fin 100)) 1)"
    by (simp add: label_row_def raw pos label_target_def)
  then have valid: "lbl_valid (lbs_labels s ! 1)"
    by (simp add: build_labels_Ok(3) [OF s] winsorise_off)
  have "take (Suc 3) (sample_prices NaN) = take (Suc 3) (sample_prices (Fin 100))"
    by (simp add: sample_prices_def upt_rec)
  moreover have "horizon_fits sample_label_config (sample_prices (Fin 100))"
    "sizes_fit sample_walk (length (sample_prices (Fin 100)))" by (simp_all add: horizon_fits_def sizes_fit_def)
  ultimately have "lbs_labels t ! 1 = lbs_labels s ! 1"
    using rows(2)
    by (intro training_targets_precede_the_evaluation [OF s t _ f(1) _ f(2) rows(1) valid, where j = 3]) simp_all
  then show ?thesis using s t valid by blast
qed

section \<open>What a horizon that wraps reads\<close>

text \<open>
  A horizon of the largest size looks back: the row plus the horizon wraps to the row before, so every label but the
  first ends, and is computed from a price, before its decision.
\<close>

theorem a_wrapping_horizon_looks_back:
  assumes "lcf_horizon c = 2 ^ 64 - 1" "0 < i" "i < length ps" "length ps < 2 ^ 64"
  shows "label_end (lbl_interval (label_row flog c ps i)) = pp_ts (ps ! (i - 1))"
proof -
  have sum: "i + (2 ^ 64 - 1) = (i - 1) + 2 ^ 64" and less: "i - 1 < 2 ^ 64" using assms by linarith+
  have "size_add i (lcf_horizon c) = ((i - 1) + 2 ^ 64) mod 2 ^ 64" by (simp only: size_add_def assms(1) sum)
  also have "\<dots> = i - 1" using less by (simp only: mod_add_self2 mod_less)
  finally have "size_add i (lcf_horizon c) = i - 1" .
  moreover have "\<not> length ps \<le> i - 1" using assms(3) by simp
  ultimately show ?thesis by (simp add: label_span_def)
qed

section \<open>What winsorising reads\<close>

lemma rnd_within:
  assumes "of_int m / 64 \<le> x" "x \<le> of_int n / 64" "\<bar>m\<bar> \<le> 64" "\<bar>n\<bar> \<le> 64"
  shows "of_int m / 64 \<le> rnd x \<and> rnd x \<le> of_int n / 64 \<and> \<bar>rnd x\<bar> < f64_lim"
proof -
  have exact: "rnd (of_int k / 64) = of_int k / 64" if "\<bar>k\<bar> \<le> 64" for k :: int
    using rnd_scaled_int [of k "-6"] that by (simp add: power_int_minus field_simps)
  have r: "of_int m / 64 \<le> rnd x" "rnd x \<le> of_int n / 64"
    using rnd_mono [OF assms(1)] rnd_mono [OF assms(2)] exact assms(3,4) by simp_all
  have "of_int n \<le> (64 :: real)" "- 64 \<le> (of_int m :: real)" using assms(3,4) by linarith+
  then have "\<bar>rnd x\<bar> \<le> 1" using r by linarith
  then have "\<bar>rnd x\<bar> \<le> 2 ^ 53" by (rule order_trans) simp
  then show ?thesis using r small_lt_overflow by blast
qed

lemma lit_within:
  assumes "of_int m / 64 \<le> x" "x \<le> of_int n / 64" "\<bar>m\<bar> \<le> 64" "\<bar>n\<bar> \<le> 64"
  shows "fin (lit x) \<and> of_int m / 64 \<le> val (lit x) \<and> val (lit x) \<le> of_int n / 64"
  using rnd_within [OF assms] lit_val [of x] lit_fin_iff [of x] by auto

lemma within_ops:
  assumes "fin a" "fin b" "\<bar>m\<bar> \<le> 64" "\<bar>n\<bar> \<le> 64"
  shows "of_int m / 64 \<le> val a + val b \<Longrightarrow> val a + val b \<le> of_int n / 64 \<Longrightarrow>
      fin (fadd a b) \<and> of_int m / 64 \<le> val (fadd a b) \<and> val (fadd a b) \<le> of_int n / 64"
    and "of_int m / 64 \<le> val a - val b \<Longrightarrow> val a - val b \<le> of_int n / 64 \<Longrightarrow>
      fin (fsub a b) \<and> of_int m / 64 \<le> val (fsub a b) \<and> val (fsub a b) \<le> of_int n / 64"
    and "of_int m / 64 \<le> val a * val b \<Longrightarrow> val a * val b \<le> of_int n / 64 \<Longrightarrow>
      fin (fmul a b) \<and> of_int m / 64 \<le> val (fmul a b) \<and> val (fmul a b) \<le> of_int n / 64"
  using rnd_within [OF _ _ assms(3,4)] assms(1,2)
  by (auto simp: fin_fadd_iff fin_fmul_iff fadd_val fmul_val fsub_def)

definition leak_config :: LabelConfig where
  "leak_config = default_labels\<lparr>lcf_horizon := 1, lcf_winsor_sigma := lit (1 / 2)\<rparr>"

definition leak_prices :: "PricePoint list" where
  "leak_prices = [\<lparr>pp_ts = 0, pp_instrument = 1, pp_mid = Fin 1\<rparr>, \<lparr>pp_ts = 1, pp_instrument = 1, pp_mid = Fin 1\<rparr>,
     \<lparr>pp_ts = 2, pp_instrument = 1, pp_mid = Fin 2\<rparr>]"

lemma leak_config_sel [simp]:
  "lcf_kind leak_config = ForwardLogReturn" "lcf_horizon leak_config = 1" "lcf_winsorize leak_config"
  "lcf_winsor_sigma leak_config = lit (1 / 2)"
  by (simp_all add: leak_config_def default_labels_def)

lemma half: "lit (1 / 2) = Fin (1 / 2)"
  using rnd_scaled_int [of 1 "-1"] small_lt_overflow [of "1 / 2"]
  by (simp add: lit_def Let_def power_int_minus abs_less_iff)

lemma winsor_bounds_of_two:
  assumes "11 / 16 \<le> r" "r \<le> 3 / 4"
  obtains lo hi where "winsor_bounds (lit (1 / 2)) [fzero, Fin r] = Some (lo, hi)" "flt fzero lo"
proof -
  let ?x = "Fin r" and ?two = "of_int64 2"
  have two: "?two = Fin 2" by (simp add: of_int64_def f64_eval)
  have one: "of_int64 1 = Fin 1" by (simp add: of_int64_def)
  define s where "s = fadd (fadd fzero fzero) ?x"
  have "fadd fzero fzero = fzero" by (simp add: f64_eval)
  then have s: "fin s" "44 / 64 \<le> val s" "val s \<le> 48 / 64"
    using within_ops(1) [of fzero ?x 44 48] assms by (simp_all add: s_def)
  define mean where "mean = fdiv s ?two"
  have mean: "fin mean" "22 / 64 \<le> val mean" "val mean \<le> 24 / 64"
    using lit_within [of 22 "val s / 2" 24] s by (simp_all add: mean_def two fdiv_def Let_def)
  define d1 where "d1 = fsub fzero mean"
  have d1: "fin d1" "- 24 / 64 \<le> val d1" "val d1 \<le> - 22 / 64"
    using within_ops(2) [of fzero mean "- 24" "- 22"] mean by (simp_all add: d1_def)
  define q1 where "q1 = fmul d1 d1"
  have "22 / 64 * (22 / 64) \<le> val d1 * val d1" "val d1 * val d1 \<le> 24 / 64 * (24 / 64)"
    using mult_mono [of "22 / 64" "- val d1" "22 / 64" "- val d1"]
      mult_mono [of "- val d1" "24 / 64" "- val d1" "24 / 64"] d1 by simp_all
  then have q1: "fin q1" "7 / 64 \<le> val q1" "val q1 \<le> 9 / 64"
    using within_ops(3) [of d1 d1 7 9] d1(1) by (simp_all add: q1_def)
  define m1 where "m1 = fadd fzero q1"
  have m1: "fin m1" "7 / 64 \<le> val m1" "val m1 \<le> 9 / 64"
    using within_ops(1) [of fzero q1 7 9] q1 by (simp_all add: m1_def)
  define d2 where "d2 = fsub ?x mean"
  have d2: "fin d2" "20 / 64 \<le> val d2" "val d2 \<le> 26 / 64"
    using within_ops(2) [of ?x mean 20 26] mean assms by (simp_all add: d2_def)
  define q2 where "q2 = fmul d2 d2"
  have "20 / 64 * (20 / 64) \<le> val d2 * val d2" "val d2 * val d2 \<le> 26 / 64 * (26 / 64)"
    using mult_mono [of "20 / 64" "val d2" "20 / 64" "val d2"] mult_mono [of "val d2" "26 / 64" "val d2" "26 / 64"] d2
    by simp_all
  then have q2: "fin q2" "6 / 64 \<le> val q2" "val q2 \<le> 11 / 64"
    using within_ops(3) [of d2 d2 6 11] d2(1) by (simp_all add: q2_def)
  define m2 where "m2 = fadd m1 q2"
  have m2: "fin m2" "13 / 64 \<le> val m2" "val m2 \<le> 20 / 64"
    using within_ops(1) [of m1 q2 13 20] m1 q2 by (simp_all add: m2_def)
  define v where "v = fdiv m2 (of_int64 1)"
  have v: "fin v" "13 / 64 \<le> val v" "val v \<le> 20 / 64"
    using lit_within [of 13 "val m2" 20] m2 by (simp_all add: v_def one fdiv_def Let_def)
  define sd where "sd = fsqrt v"
  have "sqrt (val v) \<le> sqrt ((36 / 64)\<^sup>2)" "sqrt ((28 / 64)\<^sup>2) \<le> sqrt (val v)"
    using v by (simp_all only: real_sqrt_le_iff, simp_all add: power2_eq_square)
  then have root: "28 / 64 \<le> sqrt (val v)" "sqrt (val v) \<le> 36 / 64" by simp_all
  have "fsqrt v = lit (sqrt (val v))"
    using v by (cases v) (auto simp: fsqrt_def f64_sem)
  then have sd: "fin sd" "28 / 64 \<le> val sd" "val sd \<le> 36 / 64"
    using lit_within [of 28 "sqrt (val v)" 36] root by (simp_all add: sd_def)
  define w where "w = fmul (lit (1 / 2)) sd"
  have w: "fin w" "14 / 64 \<le> val w" "val w \<le> 18 / 64"
    using within_ops(3) [of "Fin (1 / 2)" sd 14 18] sd by (simp_all add: w_def half)
  have lo: "fin (fsub mean w)" "4 / 64 \<le> val (fsub mean w)"
    using within_ops(2) [of mean w 4 10] mean w by simp_all
  have "flt fzero sd" using sd by (simp add: f64_sem)
  then have "winsor_bounds (lit (1 / 2)) [fzero, ?x] = Some (fsub mean w, fadd mean w)"
    by (simp add: winsor_bounds_def Let_def flip: s_def)
      (simp flip: mean_def d1_def q1_def m1_def d2_def q2_def m2_def v_def sd_def w_def)
  then show ?thesis using that lo by (simp add: f64_sem)
qed

text \<open>
  Winsorising reads the future. The clipping bounds are the mean and deviation of all labels of the series, those of
  later rows included: with the defaults but a horizon of one bar and half a deviation, the first label of the price
  1, 1 is the return zero, and once a third price has doubled, a moment after that label has ended, the same label
  is positive.
\<close>

theorem winsorised_targets_read_the_future:
  assumes "flog (Fin 1) = fzero" "flog (Fin 2) = Fin r" "11 / 16 \<le> r" "r \<le> 3 / 4"
  shows "\<exists>s t. build_labels flog leak_config (take 2 leak_prices) = Ok s \<and> build_labels flog leak_config leak_prices = Ok t
    \<and> label_end (lbl_interval (lbs_labels t ! 0)) < pp_ts (leak_prices ! 2)
    \<and> lbl_value (lbs_labels s ! 0) = fzero \<and> flt fzero (lbl_value (lbs_labels t ! 0))"
proof -
  have quotients: "fdiv (Fin 1) (Fin 1) = Fin 1" "fdiv (Fin 2) (Fin 1) = Fin 2" and pos: "flt fzero (Fin 1)" "flt fzero (Fin 2)"
    and sigma: "flt fzero (lit (1 / 2))"
    by (simp_all add: f64_eval half)
  obtain s t where s: "build_labels flog leak_config (take 2 leak_prices) = Ok s"
    and t: "build_labels flog leak_config leak_prices = Ok t"
    by (simp add: build_labels_def leak_prices_def)
  have row: "lbl_value (label_row flog leak_config ps 0) = fzero \<and> lbl_valid (label_row flog leak_config ps 0)"
    if "ps = leak_prices \<or> ps = take 2 leak_prices" for ps
    using that assms(1) by (auto simp: label_row_def leak_prices_def label_target_def quotients pos blank_label_def)
  have next_row: "lbl_value (label_row flog leak_config leak_prices 1) = Fin r \<and> lbl_valid (label_row flog leak_config leak_prices 1)"
    using assms(2) by (simp add: label_row_def leak_prices_def label_target_def quotients pos)
  have tail: "\<not> lbl_valid (label_row flog leak_config (take 2 leak_prices) 1)" "\<not> lbl_valid (label_row flog leak_config leak_prices 2)"
    using label_valid_ahead [of flog leak_config] by (fastforce simp: leak_prices_def)+
  obtain lo hi where bounds: "winsor_bounds (lit (1 / 2)) [fzero, Fin r] = Some (lo, hi)" "flt fzero lo"
    using winsor_bounds_of_two [OF assms(3,4)] by blast
  have rows: "map (label_row flog leak_config leak_prices) [0..<3] = [label_row flog leak_config leak_prices 0,
      label_row flog leak_config leak_prices 1, label_row flog leak_config leak_prices 2]"
    "map (label_row flog leak_config (take 2 leak_prices)) [0..<2] = [label_row flog leak_config (take 2 leak_prices) 0,
      label_row flog leak_config (take 2 leak_prices) 1]" by (simp_all add: upt_rec numeral_eq_Suc)
  have len: "length leak_prices = 3" by (simp add: leak_prices_def)
  have one: "lbl_value (lbs_labels s ! 0) = fzero"
    using row [of "take 2 leak_prices"] tail(1)
    by (simp add: build_labels_Ok(3) [OF s] len rows(2) winsorise_def winsor_bounds_def)
  have two: "lbl_value (lbs_labels t ! 0) = lo"
    using row [of leak_prices] next_row tail(2) bounds
    by (simp add: build_labels_Ok(3) [OF t] len rows(1) winsorise_def sigma continuous_kind_def clip_label_def fclamp_def)
  have "label_end (lbl_interval (lbs_labels t ! 0)) < pp_ts (leak_prices ! 2)"
  proof -
    have "label_intervals t ! 0 = lbl_interval (lbs_labels t ! 0)"
      by (simp add: label_intervals_def build_labels_Ok(3) [OF t] len)
    moreover have "label_intervals t ! 0 = label_span leak_config leak_prices 0"
      by (simp add: build_labels_Ok(4) [OF t] len)
    ultimately have "lbl_interval (lbs_labels t ! 0) = label_span leak_config leak_prices 0" by simp
    then show ?thesis by (simp only: leak_config_sel len label_span_def, simp add: leak_prices_def)
  qed
  then show ?thesis using s t one two bounds(2) by blast
qed

end
