(* ===== verification/Performance.thy ===== *)
theory Performance
  imports Accounting Risk AlgoSchedule "HOL-Library.List_Lexorder" "HOL-Library.Char_ord"
begin

text \<open>
  Performance analytics (\<open>analytics/drawdown, exposure, metrics, risk\<close>): the drawdown tracker with its episodes, the
  one-pass statistics, exposure and turnover, the performance metrics of an equity curve and its trades, and the
  risk metrics against a benchmark. Powers and logarithms are parameters; the describe texts are left out. Sorting
  is meant for numbers: where \<open>std::sort\<close> meets a NaN its result is undefined, and the order of the two zeros is open.
\<close>

section \<open>Drawdown\<close>

datatype analytics_error = UnstampedObservation | ObservationNotFinite | ObservationOutOfOrder | WindowBelowTwo
  | ExposureOutOfOrder | CurveTooShort | PeriodsNotPositive | VolumeNotPositive | ParticipationRange
  | TurnoverNotPositive | EmptyReturns | BenchmarkLength nat nat | ReturnNotFinite

record UnderwaterPoint =
  uwp_ts :: Timestamp
  uwp_drawdown :: f64
  uwp_equity :: Notional
  uwp_peak :: Notional
  uwp_periods :: nat

record DrawdownEpisode =
  dep_peak_time :: Timestamp
  dep_trough_time :: Timestamp
  dep_recovery_time :: Timestamp
  dep_peak_equity :: Notional
  dep_trough_equity :: Notional
  dep_depth :: f64

definition new_episode :: DrawdownEpisode where
  "new_episode = \<lparr>dep_peak_time = kNoTimestamp, dep_trough_time = kNoTimestamp, dep_recovery_time = kNoTimestamp,
     dep_peak_equity = fzero, dep_trough_equity = fzero, dep_depth = fzero\<rparr>"

definition episode_recovered :: "DrawdownEpisode \<Rightarrow> bool" where
  "episode_recovered e \<longleftrightarrow> is_set (dep_recovery_time e)"

definition decline_duration :: "DrawdownEpisode \<Rightarrow> Duration" where
  "decline_duration e =
     (if \<not> is_set (dep_peak_time e) \<or> \<not> is_set (dep_trough_time e) then 0 else dep_trough_time e - dep_peak_time e)"

definition total_duration :: "DrawdownEpisode \<Rightarrow> Duration" where
  "total_duration e =
     (if \<not> episode_recovered e \<or> \<not> is_set (dep_peak_time e) then 0 else dep_recovery_time e - dep_peak_time e)"

record DrawdownTracker =
  ddt_current :: f64
  ddt_max :: f64
  ddt_peak :: Notional
  ddt_peak_time :: Timestamp
  ddt_last_ts :: Timestamp
  ddt_max_peak_time :: Timestamp
  ddt_max_trough_time :: Timestamp
  ddt_underwater :: nat
  ddt_longest :: nat
  ddt_have_peak :: bool
  ddt_curve :: "UnderwaterPoint list"
  ddt_episodes :: "DrawdownEpisode list"
  ddt_in_episode :: bool
  ddt_active :: DrawdownEpisode

definition new_tracker :: DrawdownTracker where
  "new_tracker = \<lparr>ddt_current = fzero, ddt_max = fzero, ddt_peak = fzero, ddt_peak_time = kNoTimestamp,
     ddt_last_ts = kNoTimestamp, ddt_max_peak_time = kNoTimestamp, ddt_max_trough_time = kNoTimestamp,
     ddt_underwater = 0, ddt_longest = 0, ddt_have_peak = False, ddt_curve = [], ddt_episodes = [],
     ddt_in_episode = False, ddt_active = new_episode\<rparr>"

text \<open>A new high closes the episode in progress.\<close>

definition new_high :: "Timestamp \<Rightarrow> Notional \<Rightarrow> DrawdownTracker \<Rightarrow> DrawdownTracker" where
  "new_high ts eq t =
     (let t1 = (if ddt_in_episode t
                then t\<lparr>ddt_active := (ddt_active t)\<lparr>dep_recovery_time := ts\<rparr>,
                       ddt_episodes := ddt_episodes t @ [(ddt_active t)\<lparr>dep_recovery_time := ts\<rparr>],
                       ddt_in_episode := False\<rparr>
                else t) in
      t1\<lparr>ddt_peak := eq, ddt_peak_time := ts, ddt_have_peak := True, ddt_current := fzero, ddt_underwater := 0\<rparr>)"

definition drawdown_below :: "Notional \<Rightarrow> Notional \<Rightarrow> f64" where
  "drawdown_below peak eq =
     (let dd = (if flt fzero peak then fsub (lit 1) (fdiv eq peak) else fzero) in
      if is_finite dd then dd else fzero)"

definition below_peak :: "Timestamp \<Rightarrow> Notional \<Rightarrow> DrawdownTracker \<Rightarrow> DrawdownTracker" where
  "below_peak ts eq t =
     (let current = drawdown_below (ddt_peak t) eq;
          t1 = t\<lparr>ddt_current := current, ddt_underwater := ddt_underwater t + 1,
                ddt_longest := max (ddt_longest t) (ddt_underwater t + 1)\<rparr>;
          t2 = (if \<not> ddt_in_episode t1 then
                  t1\<lparr>ddt_in_episode := True,
                     ddt_active := new_episode\<lparr>dep_peak_time := ddt_peak_time t1, dep_peak_equity := ddt_peak t1,
                       dep_trough_time := ts, dep_trough_equity := eq, dep_depth := current\<rparr>\<rparr>
                else if flt eq (dep_trough_equity (ddt_active t1)) then
                  t1\<lparr>ddt_active := (ddt_active t1)\<lparr>dep_trough_time := ts, dep_trough_equity := eq,
                       dep_depth := current\<rparr>\<rparr>
                else t1) in
      if flt (ddt_max t2) current
      then t2\<lparr>ddt_max := current, ddt_max_peak_time := ddt_peak_time t2, ddt_max_trough_time := ts\<rparr> else t2)"

definition drawdown_update ::
    "Timestamp \<Rightarrow> Notional \<Rightarrow> DrawdownTracker \<Rightarrow> (analytics_error, bool) result \<times> DrawdownTracker" where
  "drawdown_update ts eq t =
     (if \<not> is_set ts then (Err UnstampedObservation, t)
      else if \<not> is_finite eq then (Err ObservationNotFinite, t)
      else if is_set (ddt_last_ts t) \<and> ts < ddt_last_ts t then (Err ObservationOutOfOrder, t)
      else
        (let t1 = t\<lparr>ddt_last_ts := ts\<rparr>;
             t2 = (if \<not> ddt_have_peak t1 \<or> fle (ddt_peak t1) eq then new_high ts eq t1 else below_peak ts eq t1) in
         (Ok True, t2\<lparr>ddt_curve := ddt_curve t2 @ [\<lparr>uwp_ts = ts, uwp_drawdown = ddt_current t2, uwp_equity = eq,
            uwp_peak = ddt_peak t2, uwp_periods = ddt_underwater t2\<rparr>]\<rparr>)))"

definition tracker_reset :: "DrawdownTracker \<Rightarrow> DrawdownTracker" where
  "tracker_reset t = new_tracker"

definition tracker_underwater :: "DrawdownTracker \<Rightarrow> bool" where
  "tracker_underwater t \<longleftrightarrow> flt fzero (ddt_current t)"

text \<open>The worst drawdown within a list of equities, below the running peak that starts from a given value.\<close>

definition worst_step :: "Notional \<Rightarrow> f64 \<times> f64 \<Rightarrow> f64 \<times> f64" where
  "worst_step e acc =
     (if \<not> is_finite e then acc
      else
        (let peak = fmax (fst acc) e in
         (peak, if flt fzero peak then fmax (snd acc) (fsub (lit 1) (fdiv e peak)) else snd acc)))"

definition rolling_max_drawdown :: "EquityPoint list \<Rightarrow> nat \<Rightarrow> (analytics_error, f64 list) result" where
  "rolling_max_drawdown curve window =
     (if window < 2 then Err WindowBelowTwo
      else Ok (map (\<lambda>i. let start = (if window \<le> i + 1 then i + 1 - window else 0) in
             snd (fold worst_step (map ep_equity (take (i + 1 - start) (drop start curve))) (lit (- 1), fzero)))
           [0..<length curve]))"

definition max_drawdown :: "f64 list \<Rightarrow> f64" where
  "max_drawdown es = snd (fold worst_step es (NInf, fzero))"

section \<open>One-pass statistics\<close>

record StatisticsAccumulator =
  sta_n :: nat
  sta_mean :: f64
  sta_m2 :: f64
  sta_m3 :: f64
  sta_m4 :: f64
  sta_sum :: f64
  sta_min :: f64
  sta_max :: f64
  sta_downside_sq :: f64
  sta_threshold :: f64
  sta_downside_valid :: bool

definition new_accumulator :: "f64 \<Rightarrow> StatisticsAccumulator" where
  "new_accumulator threshold = \<lparr>sta_n = 0, sta_mean = fzero, sta_m2 = fzero, sta_m3 = fzero, sta_m4 = fzero,
     sta_sum = fzero, sta_min = fzero, sta_max = fzero, sta_downside_sq = fzero, sta_threshold = threshold,
     sta_downside_valid = True\<rparr>"

definition of_count :: "nat \<Rightarrow> f64" where
  "of_count n = of_int64 (int n)"

definition stats_update :: "f64 \<Rightarrow> StatisticsAccumulator \<Rightarrow> StatisticsAccumulator" where
  "stats_update x a =
     (if \<not> is_finite x then a
      else
        (let n1 = of_count (sta_n a); n = of_count (sta_n a + 1);
             delta = fsub x (sta_mean a); delta_n = fdiv delta n; delta_n2 = fmul delta_n delta_n;
             term = fmul (fmul delta delta_n) n1;
             m4 = fadd (sta_m4 a)
                    (fsub (fadd (fmul (fmul term delta_n2) (fadd (fsub (fmul n n) (fmul (lit 3) n)) (lit 3)))
                                (fmul (fmul (lit 6) delta_n2) (sta_m2 a)))
                          (fmul (fmul (lit 4) delta_n) (sta_m3 a)));
             m3 = fadd (sta_m3 a)
                    (fsub (fmul (fmul term delta_n) (fsub n (lit 2))) (fmul (fmul (lit 3) delta_n) (sta_m2 a)));
             d = fmin fzero (fsub x (sta_threshold a)) in
         a\<lparr>sta_min := if sta_n a = 0 then x else fmin (sta_min a) x,
           sta_max := if sta_n a = 0 then x else fmax (sta_max a) x,
           sta_n := sta_n a + 1, sta_mean := fadd (sta_mean a) delta_n, sta_m4 := m4, sta_m3 := m3,
           sta_m2 := fadd (sta_m2 a) term, sta_sum := fadd (sta_sum a) x,
           sta_downside_sq := if sta_downside_valid a then fadd (sta_downside_sq a) (fmul d d)
                              else sta_downside_sq a\<rparr>))"

definition stats_mean :: "StatisticsAccumulator \<Rightarrow> f64" where
  "stats_mean a = (if 0 < sta_n a then sta_mean a else fzero)"

definition stats_min :: "StatisticsAccumulator \<Rightarrow> f64" where
  "stats_min a = (if 0 < sta_n a then sta_min a else fzero)"

definition stats_max :: "StatisticsAccumulator \<Rightarrow> f64" where
  "stats_max a = (if 0 < sta_n a then sta_max a else fzero)"

definition stats_variance :: "StatisticsAccumulator \<Rightarrow> f64" where
  "stats_variance a = (if sta_n a < 2 then fzero else fdiv (sta_m2 a) (of_count (sta_n a - 1)))"

definition stats_stdev :: "StatisticsAccumulator \<Rightarrow> f64" where
  "stats_stdev a = fsqrt (fmax fzero (stats_variance a))"

definition stats_skewness :: "(f64 \<Rightarrow> f64 \<Rightarrow> f64) \<Rightarrow> StatisticsAccumulator \<Rightarrow> f64" where
  "stats_skewness fpow a =
     (if sta_n a < 3 \<or> fle (sta_m2 a) fzero then fzero
      else
        (let s = fdiv (fmul (fsqrt (of_count (sta_n a))) (sta_m3 a)) (fpow (sta_m2 a) (lit (3 / 2))) in
         if is_finite s then s else fzero))"

definition stats_kurtosis :: "StatisticsAccumulator \<Rightarrow> f64" where
  "stats_kurtosis a =
     (if sta_n a < 4 \<or> fle (sta_m2 a) fzero then fzero
      else
        (let k = fsub (fdiv (fmul (of_count (sta_n a)) (sta_m4 a)) (fmul (sta_m2 a) (sta_m2 a))) (lit 3) in
         if is_finite k then k else fzero))"

definition downside_deviation :: "f64 \<Rightarrow> StatisticsAccumulator \<Rightarrow> f64" where
  "downside_deviation threshold a =
     (if sta_n a = 0 then fzero
      else if sta_downside_valid a \<and> feq threshold (sta_threshold a)
      then fsqrt (fdiv (sta_downside_sq a) (of_count (sta_n a)))
      else fzero)"

definition stats_reset :: "StatisticsAccumulator \<Rightarrow> StatisticsAccumulator" where
  "stats_reset a = a\<lparr>sta_n := 0, sta_mean := fzero, sta_m2 := fzero, sta_m3 := fzero, sta_m4 := fzero,
     sta_sum := fzero, sta_min := fzero, sta_max := fzero, sta_downside_sq := fzero, sta_downside_valid := False\<rparr>"

text \<open>Sorting numbers, and the statistics of a sorted copy. \<open>std::llround\<close> rounds half up on the values it gets here.\<close>

fun finsert :: "f64 \<Rightarrow> f64 list \<Rightarrow> f64 list" where
  "finsert x [] = [x]"
| "finsert x (y # ys) = (if flt y x then y # finsert x ys else x # y # ys)"

definition fsort :: "f64 list \<Rightarrow> f64 list" where
  "fsort xs = foldr finsert xs []"

definition fsum :: "f64 list \<Rightarrow> f64" where
  "fsum xs = fold (\<lambda>x s. fadd s x) xs fzero"

definition quantile_of :: "f64 list \<Rightarrow> f64 \<Rightarrow> f64" where
  "quantile_of xs q =
     (if xs = [] then fzero
      else
        (let clamped = fclamp q fzero (lit 1);
             idx = nat \<lfloor>val (fmul clamped (of_count (length xs - 1))) + 1 / 2\<rfloor> in
         fsort xs ! min idx (length xs - 1)))"

definition expected_shortfall :: "f64 list \<Rightarrow> f64 \<Rightarrow> f64" where
  "expected_shortfall xs q =
     (if xs = [] then fzero
      else
        (let clamped = fclamp q fzero (lit 1);
             tail = max 1 (nat \<lfloor>val (fmul clamped (of_count (length xs)))\<rfloor>) in
         fdiv (fsum (take tail (fsort xs))) (of_count tail)))"

section \<open>Exposure, turnover and capacity\<close>

record ExposureSnapshot =
  xsn_ts :: Timestamp
  xsn_equity :: Notional
  xsn_long :: Notional
  xsn_short :: Notional
  xsn_gross :: Notional
  xsn_net :: Notional
  xsn_gross_leverage :: f64
  xsn_net_leverage :: f64
  xsn_max_concentration :: f64
  xsn_long_positions :: nat
  xsn_short_positions :: nat
  xsn_sectors :: "(int, Notional) omap"
  xsn_factors :: "(string, f64) omap"

record ExposureConfig =
  xcf_sectors :: "(32 word, int) omap"
  xcf_loadings :: "(32 word, (string, f64) omap) omap"

text \<open>A value added under a key that starts at zero, as \<open>operator[]\<close> of a map does.\<close>

definition add_under :: "'k::linorder \<Rightarrow> f64 \<Rightarrow> ('k, f64) omap \<Rightarrow> ('k, f64) omap" where
  "add_under k v m = om_put k (fadd (case om_find m k of None \<Rightarrow> fzero | Some w \<Rightarrow> w) v) m"

definition add_position ::
    "ExposureConfig \<Rightarrow> Notional \<Rightarrow> 32 word \<Rightarrow> f64 \<Rightarrow> ExposureSnapshot \<Rightarrow> ExposureSnapshot" where
  "add_position cfg eq key v x =
     (let x1 = (if flt fzero v
                then x\<lparr>xsn_long := fadd (xsn_long x) v, xsn_long_positions := xsn_long_positions x + 1\<rparr>
                else x\<lparr>xsn_short := fadd (xsn_short x) (fneg v), xsn_short_positions := xsn_short_positions x + 1\<rparr>);
          x2 = (if flt fzero eq
                then x1\<lparr>xsn_max_concentration := fmax (xsn_max_concentration x1) (fdiv (fabs v) eq)\<rparr> else x1);
          x3 = (case om_find (xcf_sectors cfg) key of
                  None \<Rightarrow> x2
                | Some sector \<Rightarrow> x2\<lparr>xsn_sectors := add_under sector v (xsn_sectors x2)\<rparr>) in
      case om_find (xcf_loadings cfg) key of
        None \<Rightarrow> x3
      | Some loadings \<Rightarrow>
          (if \<not> flt fzero eq then x3
           else x3\<lparr>xsn_factors := fold (\<lambda>(factor, loading). add_under factor (fmul (fdiv v eq) loading)) loadings
                     (xsn_factors x3)\<rparr>))"

definition exposure_snapshot :: "ExposureConfig \<Rightarrow> Portfolio \<Rightarrow> Timestamp \<Rightarrow> ExposureSnapshot" where
  "exposure_snapshot cfg pf ts =
     (let eq = equity pf;
          blank = \<lparr>xsn_ts = ts, xsn_equity = eq, xsn_long = fzero, xsn_short = fzero, xsn_gross = fzero,
            xsn_net = fzero, xsn_gross_leverage = fzero, xsn_net_leverage = fzero, xsn_max_concentration = fzero,
            xsn_long_positions = 0, xsn_short_positions = 0, xsn_sectors = [], xsn_factors = []\<rparr>;
          x = fold (\<lambda>(key, p) x.
                if is_flat p then x
                else (case mark_price pf (pos_instrument p) of
                        None \<Rightarrow> x
                      | Some px \<Rightarrow>
                          (let v = fmul (pos_quantity p) px in
                           if \<not> is_finite v then x else add_position cfg eq key v x))) (pf_positions pf) blank;
          x1 = x\<lparr>xsn_gross := fadd (xsn_long x) (xsn_short x), xsn_net := fsub (xsn_long x) (xsn_short x)\<rparr> in
      if flt fzero eq \<and> is_finite eq
      then x1\<lparr>xsn_gross_leverage := fdiv (xsn_gross x1) eq, xsn_net_leverage := fdiv (xsn_net x1) eq\<rparr> else x1)"

definition exposure_record ::
    "ExposureSnapshot \<Rightarrow> ExposureSnapshot list \<Rightarrow> (analytics_error, bool) result \<times> ExposureSnapshot list" where
  "exposure_record x history =
     (if history \<noteq> [] \<and> xsn_ts x < xsn_ts (last history) then (Err ExposureOutOfOrder, history)
      else (Ok True, history @ [x]))"

definition peak_gross_leverage :: "ExposureSnapshot list \<Rightarrow> f64" where
  "peak_gross_leverage history = fold (\<lambda>x peak. fmax peak (xsn_gross_leverage x)) history fzero"

definition average_gross_leverage :: "ExposureSnapshot list \<Rightarrow> f64" where
  "average_gross_leverage history =
     (if history = [] then fzero
      else fdiv (fsum (map xsn_gross_leverage history)) (of_count (length history)))"

definition nanoseconds_per_year :: f64 where
  "nanoseconds_per_year = lit (31557600 * 10 ^ 9)"

record TurnoverStatistics =
  trn_total :: Notional
  trn_average_daily :: Notional
  trn_annualized :: f64
  trn_holding_days :: f64

definition years_between :: "EquityPoint list \<Rightarrow> f64" where
  "years_between curve = fdiv (of_int64 (ep_ts (last curve) - ep_ts (hd curve))) nanoseconds_per_year"

definition compute_turnover :: "EquityPoint list \<Rightarrow> f64 \<Rightarrow> (analytics_error, TurnoverStatistics) result" where
  "compute_turnover curve periods_per_year =
     (if length curve < 2 then Err CurveTooShort
      else if \<not> flt fzero periods_per_year then Err PeriodsNotPositive
      else
        (let whole = fsub (ep_turnover (last curve)) (ep_turnover (hd curve));
             start = ep_equity (hd curve); periods = of_count (length curve - 1); years = years_between curve;
             daily = (if flt fzero periods then fdiv whole periods else fzero);
             annual = (if flt fzero years \<and> flt fzero start then fdiv (fdiv whole start) years else fzero) in
         Ok \<lparr>trn_total = whole, trn_average_daily = daily, trn_annualized = annual,
             trn_holding_days = if flt fzero annual then fdiv (lit (1461 / 4)) annual else fzero\<rparr>))"

record CapacityEstimate =
  cap_participation :: f64
  cap_median_volume :: Notional
  cap_implied :: Notional
  cap_turnover :: f64

definition estimate_capacity :: "Notional \<Rightarrow> f64 \<Rightarrow> f64 \<Rightarrow> (analytics_error, CapacityEstimate) result" where
  "estimate_capacity volume annual share =
     (if fle volume fzero then Err VolumeNotPositive
      else if \<not> flt fzero share \<or> flt (lit 1) share then Err ParticipationRange
      else if fle annual fzero then Err TurnoverNotPositive
      else
        (let daily = fmul volume share; rate = fdiv annual (lit 252) in
         Ok \<lparr>cap_participation = share, cap_median_volume = volume,
             cap_implied = if flt fzero rate then fdiv daily rate else fzero, cap_turnover = annual\<rparr>))"

section \<open>Performance of a curve and its trades\<close>

record MetricsConfig =
  mcf_periods_per_year :: f64
  mcf_risk_free_rate :: f64
  mcf_sortino_threshold :: f64
  mcf_use_log_returns :: bool

definition default_metrics :: MetricsConfig where
  "default_metrics = \<lparr>mcf_periods_per_year = lit 252, mcf_risk_free_rate = fzero, mcf_sortino_threshold = fzero,
     mcf_use_log_returns = True\<rparr>"

definition mean_of :: "f64 list \<Rightarrow> f64" where
  "mean_of xs = (if xs = [] then fzero else fdiv (fsum xs) (of_count (length xs)))"

definition welford_step :: "f64 \<Rightarrow> nat \<times> f64 \<times> f64 \<Rightarrow> nat \<times> f64 \<times> f64" where
  "welford_step x acc =
     (case acc of (n, mean, m2) \<Rightarrow>
        (let delta = fsub x mean; mean1 = fadd mean (fdiv delta (of_count (n + 1))) in
         (n + 1, mean1, fadd m2 (fmul delta (fsub x mean1)))))"

definition stdev_of :: "f64 list \<Rightarrow> f64" where
  "stdev_of xs =
     (if length xs < 2 then fzero
      else (case fold welford_step xs (0, fzero, fzero) of
              (n, mean, m2) \<Rightarrow> fsqrt (fdiv m2 (of_count (n - 1)))))"

fun curve_returns :: "(f64 \<Rightarrow> f64) \<Rightarrow> MetricsConfig \<Rightarrow> EquityPoint list \<Rightarrow> f64 list" where
  "curve_returns flog cfg (a # b # curve) =
     (let prev = ep_equity a; cur = ep_equity b in
      (if \<not> is_finite prev \<or> \<not> is_finite cur \<or> fle prev fzero \<or> fle cur fzero then fzero
       else if mcf_use_log_returns cfg then flog (fdiv cur prev) else fsub (fdiv cur prev) (lit 1))
      # curve_returns flog cfg (b # curve))"
| "curve_returns flog cfg _ = []"

record PerformanceMetrics =
  pfm_periods :: nat
  pfm_initial_equity :: Notional
  pfm_final_equity :: Notional
  pfm_cumulative_return :: f64
  pfm_annualized_return :: f64
  pfm_cagr :: f64
  pfm_annualized_volatility :: f64
  pfm_downside_volatility :: f64
  pfm_sharpe :: f64
  pfm_sortino :: f64
  pfm_calmar :: f64
  pfm_max_drawdown :: f64
  pfm_drawdown_start :: Timestamp
  pfm_drawdown_trough :: Timestamp
  pfm_drawdown_periods :: nat
  pfm_trades :: nat
  pfm_wins :: nat
  pfm_losses :: nat
  pfm_win_rate :: f64
  pfm_average_win :: Notional
  pfm_average_loss :: Notional
  pfm_win_loss_ratio :: f64
  pfm_profit_factor :: f64
  pfm_expectancy :: Notional
  pfm_total_costs :: Notional
  pfm_total_turnover :: Notional
  pfm_annualized_turnover :: f64
  pfm_cost_to_gross :: f64
  pfm_skewness :: f64
  pfm_worst_period :: f64
  pfm_best_period :: f64
  pfm_shortfall :: f64

definition blank_performance :: PerformanceMetrics where
  "blank_performance = \<lparr>pfm_periods = 0, pfm_initial_equity = fzero, pfm_final_equity = fzero,
     pfm_cumulative_return = fzero, pfm_annualized_return = fzero, pfm_cagr = fzero, pfm_annualized_volatility = fzero,
     pfm_downside_volatility = fzero, pfm_sharpe = fzero, pfm_sortino = fzero, pfm_calmar = fzero,
     pfm_max_drawdown = fzero, pfm_drawdown_start = kNoTimestamp, pfm_drawdown_trough = kNoTimestamp,
     pfm_drawdown_periods = 0, pfm_trades = 0, pfm_wins = 0, pfm_losses = 0, pfm_win_rate = fzero,
     pfm_average_win = fzero, pfm_average_loss = fzero, pfm_win_loss_ratio = fzero, pfm_profit_factor = fzero,
     pfm_expectancy = fzero, pfm_total_costs = fzero, pfm_total_turnover = fzero, pfm_annualized_turnover = fzero,
     pfm_cost_to_gross = fzero, pfm_skewness = fzero, pfm_worst_period = fzero, pfm_best_period = fzero,
     pfm_shortfall = fzero\<rparr>"

text \<open>The part computed from the returns.\<close>

definition downside_of :: "f64 \<Rightarrow> f64 list \<Rightarrow> f64" where
  "downside_of threshold rs =
     fsqrt (fdiv (fsum (map (\<lambda>x. let d = fmin fzero (fsub x threshold) in fmul d d) rs)) (of_count (length rs)))"

definition return_metrics ::
    "(f64 \<Rightarrow> f64 \<Rightarrow> f64) \<Rightarrow> MetricsConfig \<Rightarrow> EquityPoint list \<Rightarrow> f64 list \<Rightarrow> PerformanceMetrics \<Rightarrow> PerformanceMetrics" where
  "return_metrics fpow cfg curve rs m =
     (let e0 = pfm_initial_equity m; e1 = pfm_final_equity m; mu = mean_of rs; sd = stdev_of rs;
          ann = mcf_periods_per_year cfg; root = fsqrt ann; rf = fdiv (mcf_risk_free_rate cfg) ann;
          mar = fdiv (mcf_sortino_threshold cfg) ann; dd = downside_of mar rs; ordered = fsort rs;
          years = years_between curve in
      m\<lparr>pfm_annualized_return :=
          if mcf_use_log_returns cfg then fmul mu ann else fsub (fpow (fadd (lit 1) mu) ann) (lit 1),
        pfm_annualized_volatility := fmul sd root,
        pfm_sharpe := if flt fzero sd then fmul (fdiv (fsub mu rf) sd) root else pfm_sharpe m,
        pfm_downside_volatility := fmul dd root,
        pfm_sortino := if flt fzero dd then fmul (fdiv (fsub mu mar) dd) root else pfm_sortino m,
        pfm_worst_period := hd ordered, pfm_best_period := last ordered,
        pfm_shortfall := mean_of (take (max 1 (length ordered div 20)) ordered),
        pfm_skewness := if flt fzero sd \<and> 2 < length rs
          then fdiv (fsum (map (\<lambda>x. fpow (fdiv (fsub x mu) sd) (lit 3)) rs)) (of_count (length rs)) else pfm_skewness m,
        pfm_cagr := if flt fzero years \<and> flt fzero e0 \<and> flt fzero e1
          then fsub (fpow (fdiv e1 e0) (fdiv (lit 1) years)) (lit 1) else pfm_cagr m,
        pfm_annualized_turnover := if flt fzero years \<and> flt fzero e0
          then fdiv (fdiv (pfm_total_turnover m) e0) years else pfm_annualized_turnover m\<rparr>)"

text \<open>Where the worst drawdown starts and ends: the running peak, its row, the worst drawdown, and its span.\<close>

record DrawdownSpan =
  dsp_peak :: f64
  dsp_peak_row :: nat
  dsp_worst :: f64
  dsp_span :: "(nat \<times> nat) option"

definition span_step :: "nat \<times> f64 \<Rightarrow> DrawdownSpan \<Rightarrow> DrawdownSpan" where
  "span_step row s =
     (case row of (i, e) \<Rightarrow>
        (let s1 = (if flt (dsp_peak s) e then s\<lparr>dsp_peak := e, dsp_peak_row := i\<rparr> else s);
             dd = fsub (lit 1) (fdiv e (dsp_peak s1)) in
         if flt fzero (dsp_peak s1) \<and> flt (dsp_worst s1) dd
         then s1\<lparr>dsp_worst := dd, dsp_span := Some (dsp_peak_row s1, i)\<rparr> else s1))"

definition drawdown_span :: "f64 list \<Rightarrow> (nat \<times> nat) option" where
  "drawdown_span es = dsp_span (fold span_step (zip [0..<length es] es)
     \<lparr>dsp_peak = NInf, dsp_peak_row = 0, dsp_worst = fzero, dsp_span = None\<rparr>)"

definition drawdown_metrics :: "EquityPoint list \<Rightarrow> PerformanceMetrics \<Rightarrow> PerformanceMetrics" where
  "drawdown_metrics curve m =
     (let es = map ep_equity curve;
          m1 = m\<lparr>pfm_max_drawdown := max_drawdown es\<rparr>;
          m2 = (case drawdown_span es of
                  None \<Rightarrow> m1
                | Some (i, j) \<Rightarrow> m1\<lparr>pfm_drawdown_start := ep_ts (curve ! i), pfm_drawdown_trough := ep_ts (curve ! j),
                    pfm_drawdown_periods := j - i\<rparr>) in
      if flt fzero (pfm_max_drawdown m2) then m2\<lparr>pfm_calmar := fdiv (pfm_cagr m2) (pfm_max_drawdown m2)\<rparr> else m2)"

definition trade_metrics :: "Trade list \<Rightarrow> PerformanceMetrics \<Rightarrow> PerformanceMetrics" where
  "trade_metrics trades m =
     (if trades = [] then m
      else
        (let pnls = map trade_net_pnl trades;
             won = filter (flt fzero) pnls; lost = filter (\<lambda>x. \<not> flt fzero x) pnls;
             win_sum = fsum won; loss_sum = fsum (map fneg lost);
             n = of_count (length trades);
             average_win = (if won = [] then fzero else fdiv win_sum (of_count (length won)));
             average_loss = (if lost = [] then fzero else fdiv loss_sum (of_count (length lost))) in
         m\<lparr>pfm_trades := length trades, pfm_wins := length won, pfm_losses := length lost,
           pfm_win_rate := fdiv (of_count (length won)) n, pfm_average_win := average_win,
           pfm_average_loss := average_loss,
           pfm_win_loss_ratio := if flt fzero average_loss then fdiv average_win average_loss else pfm_win_loss_ratio m,
           pfm_profit_factor := if flt fzero loss_sum then fdiv win_sum loss_sum else pfm_profit_factor m,
           pfm_expectancy := fdiv (fsub win_sum loss_sum) n\<rparr>))"

definition compute_performance ::
    "(f64 \<Rightarrow> f64) \<Rightarrow> (f64 \<Rightarrow> f64 \<Rightarrow> f64) \<Rightarrow> MetricsConfig \<Rightarrow> EquityPoint list \<Rightarrow> Trade list \<Rightarrow> PerformanceMetrics" where
  "compute_performance flog fpow cfg curve trades =
     (if curve = [] then blank_performance
      else
        (let e0 = ep_equity (hd curve); e1 = ep_equity (last curve); costs = ep_cumulative_costs (last curve);
             m = blank_performance\<lparr>pfm_periods := length curve, pfm_initial_equity := e0, pfm_final_equity := e1,
               pfm_total_costs := costs, pfm_total_turnover := ep_turnover (last curve),
               pfm_cumulative_return := if flt fzero e0 \<and> is_finite e1 then fsub (fdiv e1 e0) (lit 1) else fzero\<rparr>;
             rs = curve_returns flog cfg curve;
             m1 = (if rs = [] then m else return_metrics fpow cfg curve rs m);
             m2 = trade_metrics trades (drawdown_metrics curve m1);
             gross = fadd (fsub e1 e0) costs in
         if flt fzero (fabs gross) then m2\<lparr>pfm_cost_to_gross := fdiv costs (fabs gross)\<rparr> else m2))"

section \<open>Risk against a benchmark\<close>

record RiskMetrics =
  rkm_periods :: nat
  rkm_annualized_return :: f64
  rkm_annualized_volatility :: f64
  rkm_downside :: f64
  rkm_sharpe :: f64
  rkm_sortino :: f64
  rkm_calmar :: f64
  rkm_beta :: f64
  rkm_alpha :: f64
  rkm_tracking_error :: f64
  rkm_information_ratio :: f64
  rkm_treynor :: f64
  rkm_r_squared :: f64
  rkm_correlation :: f64
  rkm_skewness :: f64
  rkm_kurtosis :: f64
  rkm_var95 :: f64
  rkm_es95 :: f64
  rkm_best :: f64
  rkm_worst :: f64

record RiskConfig =
  rkc_periods_per_year :: f64
  rkc_risk_free_rate :: f64
  rkc_sortino_threshold :: f64

definition sum_then_mean :: "f64 list \<Rightarrow> f64" where
  "sum_then_mean xs = (if xs = [] then fzero else fdiv (fsum xs) (of_count (length xs)))"

definition covariance_sum :: "f64 list \<Rightarrow> f64 list \<Rightarrow> f64 \<Rightarrow> f64 \<Rightarrow> f64" where
  "covariance_sum rs bs mr mb = fsum (map (\<lambda>(r, b). fmul (fsub r mr) (fsub b mb)) (zip rs bs))"

definition beta_of :: "f64 list \<Rightarrow> f64 list \<Rightarrow> f64" where
  "beta_of rs bs =
     (let n = min (length rs) (length bs) in
      if n < 2 then fzero
      else
        (let r = take n rs; b = take n bs; mr = sum_then_mean r; mb = sum_then_mean b;
             var_b = fsum (map (\<lambda>x. let db = fsub x mb in fmul db db) b) in
         if fle var_b fzero then fzero
         else (let beta = fdiv (covariance_sum r b mr mb) var_b in if is_finite beta then beta else fzero)))"

definition tracking_error_of :: "f64 list \<Rightarrow> f64 list \<Rightarrow> f64 \<Rightarrow> f64" where
  "tracking_error_of rs bs periods_per_year =
     (if min (length rs) (length bs) < 2 then fzero
      else fmul (stats_stdev (fold stats_update (map (\<lambda>(r, b). fsub r b) (zip rs bs)) (new_accumulator fzero)))
             (fsqrt (fmax (lit 1) periods_per_year)))"

definition benchmark_metrics :: "RiskConfig \<Rightarrow> f64 list \<Rightarrow> f64 list \<Rightarrow> StatisticsAccumulator \<Rightarrow> RiskMetrics \<Rightarrow> RiskMetrics" where
  "benchmark_metrics cfg rs bs stats m =
     (let ann = rkc_periods_per_year cfg; rf = fdiv (rkc_risk_free_rate cfg) ann;
          beta = beta_of rs bs; te = tracking_error_of rs bs ann;
          mr = sum_then_mean rs; mb = sum_then_mean bs;
          bench = fold stats_update bs (new_accumulator fzero);
          n = of_count (length rs); cov = covariance_sum rs bs mr mb;
          correlation = (if flt (lit 1) n \<and> flt fzero (stats_stdev stats) \<and> flt fzero (stats_stdev bench)
            then Some (fclamp (fdiv (fdiv cov (fsub n (lit 1))) (fmul (stats_stdev stats) (stats_stdev bench)))
                         (lit (- 1)) (lit 1)) else None) in
      m\<lparr>rkm_beta := beta, rkm_tracking_error := te,
        rkm_alpha := fsub (fmul (fsub mr rf) ann) (fmul beta (fmul (fsub mb rf) ann)),
        rkm_information_ratio := if flt fzero te then fdiv (fmul (fsub mr mb) ann) te else rkm_information_ratio m,
        rkm_treynor := if flt (lit (1 / 10 ^ 12)) (fabs beta) then fdiv (fmul (fsub mr rf) ann) beta else rkm_treynor m,
        rkm_correlation := (case correlation of None \<Rightarrow> rkm_correlation m | Some k \<Rightarrow> k),
        rkm_r_squared := (case correlation of None \<Rightarrow> rkm_r_squared m | Some k \<Rightarrow> fmul k k)\<rparr>)"

definition analyze_risk ::
    "(f64 \<Rightarrow> f64 \<Rightarrow> f64) \<Rightarrow> RiskConfig \<Rightarrow> f64 list \<Rightarrow> f64 list \<Rightarrow> f64 \<Rightarrow> (analytics_error, RiskMetrics) result" where
  "analyze_risk fpow cfg rs bs drawdown =
     (if rs = [] then Err EmptyReturns
      else if bs \<noteq> [] \<and> length bs \<noteq> length rs then Err (BenchmarkLength (length bs) (length rs))
      else if list_ex (\<lambda>r. \<not> is_finite r) rs then Err ReturnNotFinite
      else
        (let ann = rkc_periods_per_year cfg; threshold = fdiv (rkc_sortino_threshold cfg) ann;
             stats = fold stats_update rs (new_accumulator threshold);
             root = fsqrt (fmax (lit 1) ann); yearly = fmul (stats_mean stats) ann;
             downside = fmul (downside_deviation threshold stats) root;
             rf = fdiv (rkc_risk_free_rate cfg) ann; sd = stats_stdev stats;
             m = \<lparr>rkm_periods = length rs, rkm_annualized_return = yearly, rkm_annualized_volatility = fmul sd root,
               rkm_downside = downside,
               rkm_sharpe = if flt fzero sd then fmul (fdiv (fsub (stats_mean stats) rf) sd) root else fzero,
               rkm_sortino = if flt fzero downside then fdiv (fsub yearly (rkc_sortino_threshold cfg)) downside else fzero,
               rkm_calmar = if flt fzero drawdown then fdiv yearly drawdown else fzero,
               rkm_beta = fzero, rkm_alpha = fzero, rkm_tracking_error = fzero, rkm_information_ratio = fzero,
               rkm_treynor = fzero, rkm_r_squared = fzero, rkm_correlation = fzero,
               rkm_skewness = stats_skewness fpow stats, rkm_kurtosis = stats_kurtosis stats,
               rkm_var95 = quantile_of rs (lit (1 / 20)), rkm_es95 = expected_shortfall rs (lit (1 / 20)),
               rkm_best = stats_max stats, rkm_worst = stats_min stats\<rparr> in
         Ok (if bs = [] then m else benchmark_metrics cfg rs bs stats m)))"

section \<open>The drawdowns agree\<close>

definition track_curve :: "(Timestamp \<times> Notional) list \<Rightarrow> DrawdownTracker \<Rightarrow> DrawdownTracker" where
  "track_curve obs t = fold (\<lambda>(ts, e) t. snd (drawdown_update ts e t)) obs t"

definition solvent :: "Notional \<Rightarrow> bool" where
  "solvent e \<longleftrightarrow> fin e \<and> 0 \<le> val e"

definition unit_fraction :: "f64 \<Rightarrow> bool" where
  "unit_fraction x \<longleftrightarrow> fin x \<and> 0 \<le> val x \<and> val x \<le> 1"

lemma rnd_unit: "0 \<le> x \<Longrightarrow> x \<le> 1 \<Longrightarrow> 0 \<le> rnd x \<and> rnd x \<le> 1"
  using rnd_mono [of 0 x] rnd_mono [of x 1] rnd_int_exact [of 1] by simp

lemma lit_unit: "0 \<le> x \<Longrightarrow> x \<le> 1 \<Longrightarrow> unit_fraction (lit x)"
  using rnd_unit [of x] small_lt_overflow [of "rnd x"] lit_fin_iff [of x] lit_val [of x]
  by (simp add: unit_fraction_def)

lemma quotient_unit:
  assumes "solvent e" "fin p" "0 < val p" "val e \<le> val p"
  shows "unit_fraction (fdiv e p)"
proof -
  have "unit_fraction (lit (val e / val p))" using assms by (intro lit_unit) (simp_all add: solvent_def)
  then show ?thesis using assms by (cases "val e = 0") (auto simp: fdiv_def Let_def solvent_def signed_zero_def unit_fraction_def)
qed

lemma drop_unit:
  assumes "unit_fraction q" shows "unit_fraction (fsub (Fin 1) q)"
proof -
  have "unit_fraction (lit (1 - val q))" using assms by (intro lit_unit) (simp_all add: unit_fraction_def)
  then show ?thesis using assms by (auto simp: fsub_def fadd_def unit_fraction_def)
qed

lemma no_drop: "0 < r \<Longrightarrow> fsub (Fin 1) (fdiv (Fin r) (Fin r)) = Fin 0"
  by (simp add: fdiv_def Let_def f64_eval)

text \<open>The tracker and the running worst drawdown side by side.\<close>

definition same_drawdown :: "DrawdownTracker \<Rightarrow> f64 \<times> f64 \<Rightarrow> bool" where
  "same_drawdown t acc \<longleftrightarrow> unit_fraction (snd acc) \<and> snd acc = ddt_max t
     \<and> (if ddt_have_peak t then fin (fst acc) \<and> fin (ddt_peak t) \<and> val (fst acc) = val (ddt_peak t) \<and> 0 \<le> val (ddt_peak t)
        else flt (fst acc) fzero)
     \<and> list_all (\<lambda>p. unit_fraction (uwp_drawdown p)) (ddt_curve t)"

lemma fin_pos: "fin e \<Longrightarrow> 0 < val e \<Longrightarrow> e = Fin (val e)"
  by (cases e) simp_all

lemma new_high_sel:
  "ddt_max (new_high ts e t) = ddt_max t" "ddt_peak (new_high ts e t) = e" "ddt_have_peak (new_high ts e t)"
  "ddt_current (new_high ts e t) = fzero" "ddt_curve (new_high ts e t) = ddt_curve t"
  "ddt_last_ts (new_high ts e t) = ddt_last_ts t"
  by (simp_all add: new_high_def Let_def)

lemma below_peak_sel:
  "ddt_max (below_peak ts e t) = fmax (ddt_max t) (drawdown_below (ddt_peak t) e)"
  "ddt_peak (below_peak ts e t) = ddt_peak t" "ddt_have_peak (below_peak ts e t) = ddt_have_peak t"
  "ddt_current (below_peak ts e t) = drawdown_below (ddt_peak t) e" "ddt_curve (below_peak ts e t) = ddt_curve t"
  "ddt_last_ts (below_peak ts e t) = ddt_last_ts t"
  by (simp_all add: below_peak_def Let_def fmax_def)

lemma same_drawdown_step:
  assumes "same_drawdown t acc" "solvent e" "is_set ts" "is_set (ddt_last_ts t) \<longrightarrow> ddt_last_ts t \<le> ts"
  shows "same_drawdown (snd (drawdown_update ts e t)) (worst_step e acc)
    \<and> fst (drawdown_update ts e t) = Ok True \<and> ddt_last_ts (snd (drawdown_update ts e t)) = ts"
proof -
  let ?t = "t\<lparr>ddt_last_ts := ts\<rparr>"
  have e: "fin e" "0 \<le> val e" using assms(2) by (simp_all add: solvent_def)
  have w: "unit_fraction (snd acc)" "snd acc = ddt_max t" and curve: "list_all (\<lambda>p. unit_fraction (uwp_drawdown p)) (ddt_curve t)"
    using assms(1) unfolding same_drawdown_def by blast+
  have zero: "unit_fraction fzero" by (simp add: unit_fraction_def)
  show ?thesis
  proof (cases "\<not> ddt_have_peak t \<or> fle (ddt_peak t) e")
    case True
    have peak: "fin (fmax (fst acc) e) \<and> val (fmax (fst acc) e) = val e"
      using assms(1) True e by (cases "fst acc") (auto simp: same_drawdown_def fmax_def fzero_def f64_sem flt_def split: if_splits)
    have "fmax (snd acc) (fsub (Fin 1) (fdiv e (fmax (fst acc) e))) = snd acc" if "flt fzero (fmax (fst acc) e)"
    proof -
      have "0 < val e" using that peak by (simp add: f64_sem)
      then have "e = Fin (val e)" "fmax (fst acc) e = Fin (val e)" using fin_pos peak e(1) by metis+
      then have "fsub (Fin 1) (fdiv e (fmax (fst acc) e)) = Fin 0" using no_drop \<open>0 < val e\<close> by metis
      then show ?thesis using w(1) by (simp add: fmax_def unit_fraction_def f64_sem)
    qed
    then have "worst_step e acc = (fmax (fst acc) e, snd acc)"
      using e by (simp add: worst_step_def Let_def)
    then show ?thesis
      using True assms(3,4) e peak w curve zero
      by (auto simp: drawdown_update_def Let_def same_drawdown_def new_high_sel)
  next
    case False
    then have peak: "ddt_have_peak t" "fin (ddt_peak t)" "fin (fst acc)" "val (fst acc) = val (ddt_peak t)" "val e < val (ddt_peak t)"
      using assms(1) e by (auto simp: same_drawdown_def f64_sem)
    then have pos: "0 < val (ddt_peak t)" using e by simp
    then have same: "fst acc = ddt_peak t" using fin_pos peak(2,3,4) by metis
    have below: "unit_fraction (fsub (Fin 1) (fdiv e (ddt_peak t)))"
      using assms(2) peak pos by (intro drop_unit quotient_unit) simp_all
    then have dd: "drawdown_below (ddt_peak t) e = fsub (Fin 1) (fdiv e (ddt_peak t))"
      using pos peak by (simp add: drawdown_below_def Let_def f64_sem unit_fraction_def)
    have "fmax (fst acc) e = ddt_peak t" using same peak e by (simp add: fmax_def f64_sem)
    then have "worst_step e acc = (ddt_peak t, fmax (ddt_max t) (drawdown_below (ddt_peak t) e))"
      using e pos peak w by (simp add: worst_step_def Let_def dd f64_sem)
    moreover have "unit_fraction (fmax (ddt_max t) (drawdown_below (ddt_peak t) e))"
      using below w by (auto simp: fmax_def dd)
    ultimately show ?thesis
      using False assms(3,4) e peak pos curve below
      by (auto simp: drawdown_update_def Let_def same_drawdown_def below_peak_sel dd)
  qed
qed

lemma same_drawdown_run:
  assumes "same_drawdown t acc" "list_all (\<lambda>(ts, e). is_set ts \<and> solvent e) obs"
    "is_set (ddt_last_ts t) \<longrightarrow> list_all (\<lambda>(ts, e). ddt_last_ts t \<le> ts) obs" "sorted (map fst obs)"
  shows "same_drawdown (track_curve obs t) (fold worst_step (map snd obs) acc)"
  using assms
proof (induction obs arbitrary: t acc)
  case (Cons o1 obs)
  obtain ts e where o1: "o1 = (ts, e)" by (cases o1)
  have step: "same_drawdown (snd (drawdown_update ts e t)) (worst_step e acc)"
    "ddt_last_ts (snd (drawdown_update ts e t)) = ts"
    using same_drawdown_step [OF Cons.prems(1)] Cons.prems(2,3) by (simp_all add: o1)
  have "same_drawdown (track_curve obs (snd (drawdown_update ts e t))) (fold worst_step (map snd obs) (worst_step e acc))"
    using Cons.prems by (intro Cons.IH step(1)) (auto simp: o1 step(2) list_all_iff)
  then show ?case by (simp add: o1 track_curve_def)
qed (simp add: track_curve_def)

lemma same_drawdown_new: "flt p fzero \<Longrightarrow> same_drawdown new_tracker (p, fzero)"
  by (simp add: same_drawdown_def new_tracker_def unit_fraction_def)

text \<open>
  The peak the scan starts from does not matter, whether below every number or minus one, for equities that are
  positive: both scans do what the tracker does.
\<close>

abbreviation orderly :: "EquityPoint list \<Rightarrow> bool" where
  "orderly curve \<equiv> list_all (\<lambda>p. is_set (ep_ts p) \<and> solvent (ep_equity p)) curve \<and> sorted (map ep_ts curve)"

lemma orderly_run:
  assumes "orderly curve" "flt p fzero"
  shows "same_drawdown (track_curve (map (\<lambda>p. (ep_ts p, ep_equity p)) curve) new_tracker)
    (fold worst_step (map ep_equity curve) (p, fzero))"
  using same_drawdown_run [OF same_drawdown_new [OF assms(2)], of "map (\<lambda>p. (ep_ts p, ep_equity p)) curve"] assms(1)
  by (simp add: comp_def list_all_iff new_tracker_def is_set_def)

lemma below_zero: "flt NInf fzero" "flt (lit (- 1)) fzero"
  by (simp_all add: flt_def f64_eval)

lemma orderly_max:
  assumes "orderly curve"
  shows "ddt_max (track_curve (map (\<lambda>p. (ep_ts p, ep_equity p)) curve) new_tracker) = max_drawdown (map ep_equity curve)"
    and "snd (fold worst_step (map ep_equity curve) (lit (- 1), fzero)) = max_drawdown (map ep_equity curve)"
  using orderly_run [OF assms below_zero(1)] orderly_run [OF assms below_zero(2)]
  by (simp_all add: same_drawdown_def max_drawdown_def)

lemma orderly_window: "orderly curve \<Longrightarrow> orderly (take n (drop k curve))"
  by (auto simp: list_all_iff take_map drop_map simp flip: take_map drop_map
      intro: sorted_wrt_take sorted_wrt_drop dest: in_set_takeD in_set_dropD)

text \<open>
  C29: One drawdown. For a solvent equity curve in time order, the maximum of the incremental tracker and the maximum the
  metrics engine computes from the list are the same floating-point number; the rolling computation gives, at every
  point and for every window of at least two, the metrics maximum of the points in the window that ends there, so a
  window that holds the whole curve ends with the same number too; and every drawdown of the underwater curve lies
  between 0 and 1.
\<close>

theorem drawdown_computations_agree:
  assumes "list_all (\<lambda>p. is_set (ep_ts p) \<and> solvent (ep_equity p)) curve" "sorted (map ep_ts curve)" "2 \<le> window"
  defines "t \<equiv> track_curve (map (\<lambda>p. (ep_ts p, ep_equity p)) curve) new_tracker"
  shows "ddt_max t = max_drawdown (map ep_equity curve)
    \<and> rolling_max_drawdown curve window =
        Ok (map (\<lambda>i. max_drawdown (map ep_equity (drop (i + 1 - window) (take (i + 1) curve)))) [0..<length curve])
    \<and> list_all (\<lambda>p. fle fzero (uwp_drawdown p) \<and> fle (uwp_drawdown p) (lit 1)) (ddt_curve t)"
proof -
  have ok: "orderly curve" using assms(1,2) by simp
  have "snd (fold worst_step (map ep_equity (take (i + 1 - start) (drop start curve))) (lit (- 1), fzero))
      = max_drawdown (map ep_equity (drop start (take (i + 1) curve)))" for i start
    using orderly_max(2) [OF orderly_window [OF ok]] by (simp add: drop_take)
  moreover have "(if window \<le> i + 1 then i + 1 - window else 0) = i + 1 - window" for i by simp
  ultimately have rolling: "rolling_max_drawdown curve window =
      Ok (map (\<lambda>i. max_drawdown (map ep_equity (drop (i + 1 - window) (take (i + 1) curve)))) [0..<length curve])"
    using assms(3) by (simp only: rolling_max_drawdown_def Let_def) simp
  have "list_all (\<lambda>p. fle fzero (uwp_drawdown p) \<and> fle (uwp_drawdown p) (lit 1)) (ddt_curve t)"
    using orderly_run [OF ok below_zero(1)]
    by (simp add: t_def same_drawdown_def list_all_iff unit_fraction_def f64_sem)
  then show ?thesis using orderly_max(1) [OF ok] rolling unfolding t_def by blast
qed

definition sample_curve :: "EquityPoint list" where
  "sample_curve = map (\<lambda>(ts, e). \<lparr>ep_ts = ts, ep_equity = Fin e, ep_cash = Fin e, ep_gross_exposure = fzero,
     ep_net_exposure = fzero, ep_realized_pnl = fzero, ep_unrealized_pnl = fzero, ep_cumulative_costs = fzero,
     ep_turnover = fzero\<rparr>) [(1, 100), (2, 50), (3, 75)]"

theorem drawdown_computations_agree_witness:
  "ddt_max (track_curve [(1, Fin 100), (2, Fin 50), (3, Fin 75)] new_tracker) = max_drawdown [Fin 100, Fin 50, Fin 75]
    \<and> rolling_max_drawdown sample_curve 2 =
        Ok (map (\<lambda>i. max_drawdown (map ep_equity (drop (i + 1 - 2) (take (i + 1) sample_curve)))) [0..<length sample_curve])"
proof -
  have "list_all (\<lambda>p. is_set (ep_ts p) \<and> solvent (ep_equity p)) sample_curve" "sorted (map ep_ts sample_curve)"
    by (simp_all add: sample_curve_def is_set_def kNoTimestamp_def solvent_def)
  from drawdown_computations_agree [OF this, of 2] have
    "ddt_max (track_curve (map (\<lambda>p. (ep_ts p, ep_equity p)) sample_curve) new_tracker) = max_drawdown (map ep_equity sample_curve)
     \<and> rolling_max_drawdown sample_curve 2 =
        Ok (map (\<lambda>i. max_drawdown (map ep_equity (drop (i + 1 - 2) (take (i + 1) sample_curve)))) [0..<length sample_curve])"
    by blast
  moreover have "map (\<lambda>p. (ep_ts p, ep_equity p)) sample_curve = [(1, Fin 100), (2, Fin 50), (3, Fin 75)]"
    "map ep_equity sample_curve = [Fin 100, Fin 50, Fin 75]" by (simp_all add: sample_curve_def)
  ultimately show ?thesis by simp
qed

section \<open>Two surprises\<close>

text \<open>A drawdown is documented as a fraction between 0 and 1; a book that owes money reports more.\<close>

theorem a_debt_exceeds_the_whole_peak:
  "uwp_drawdown (last (ddt_curve (track_curve [(1, Fin 100), (2, Fin (- 50))] new_tracker))) = Fin (3 / 2)"
  by (simp add: track_curve_def drawdown_update_def new_tracker_def new_high_def below_peak_def drawdown_below_def Let_def
      is_set_def kNoTimestamp_def f64_eval)

lemma reset_stays_off: "\<not> sta_downside_valid a \<Longrightarrow> \<not> sta_downside_valid (fold stats_update xs a)"
  by (induction xs arbitrary: a) (simp_all add: stats_update_def Let_def)

text \<open>
  After a reset the statistics have lost their downside: whatever is observed afterwards, the downside deviation at
  every threshold is zero, the threshold the accumulator was made for included.
\<close>

theorem reset_loses_the_downside:
  "downside_deviation threshold (fold stats_update xs (stats_reset a)) = fzero"
proof -
  have "\<not> sta_downside_valid (fold stats_update xs (stats_reset a))"
    by (rule reset_stays_off) (simp add: stats_reset_def)
  then show ?thesis by (simp add: downside_deviation_def)
qed

end
