(* ===== verification/Attribution.thy ===== *)
theory Attribution
  imports Performance
begin

text \<open>
  Attribution (\<open>attribution/pnl, execution_quality\<close>): the decomposition of the change of equity over the periods of
  a curve, the split of returns into beta and alpha, the execution quality of trades, their summary and the decay of
  their edge. The describe texts are left out.
\<close>

section \<open>Profit and loss\<close>

datatype attribution_error = PointUnstamped | PeriodBackwards | TermNotFinite | TwoPointsNeeded | NoReturns
  | BenchmarkMismatch nat nat | SeriesNotFinite | NoFills | MixedInstruments | MixedSides | NothingFilled
  | NoHorizons | HorizonsNotAscending

record PnlDecomposition =
  pnd_begin :: Timestamp
  pnd_end :: Timestamp
  pnd_realized :: Notional
  pnd_unrealized :: Notional
  pnd_commission :: Notional
  pnd_exchange_fees :: Notional
  pnd_slippage :: Notional
  pnd_borrow :: Notional
  pnd_carry :: Notional
  pnd_cash_drag :: Notional

definition blank_decomposition :: PnlDecomposition where
  "blank_decomposition = \<lparr>pnd_begin = kNoTimestamp, pnd_end = kNoTimestamp, pnd_realized = fzero,
     pnd_unrealized = fzero, pnd_commission = fzero, pnd_exchange_fees = fzero, pnd_slippage = fzero,
     pnd_borrow = fzero, pnd_carry = fzero, pnd_cash_drag = fzero\<rparr>"

definition total_costs :: "PnlDecomposition \<Rightarrow> Notional" where
  "total_costs d =
     fadd (fadd (fadd (fadd (fadd (pnd_commission d) (pnd_exchange_fees d)) (pnd_slippage d)) (pnd_borrow d))
       (pnd_carry d)) (pnd_cash_drag d)"

definition gross_pnl :: "PnlDecomposition \<Rightarrow> Notional" where
  "gross_pnl d = fadd (pnd_realized d) (pnd_unrealized d)"

definition net_pnl :: "PnlDecomposition \<Rightarrow> Notional" where
  "net_pnl d = fadd (gross_pnl d) (total_costs d)"

definition pnl_residual :: "Notional \<Rightarrow> PnlDecomposition \<Rightarrow> Notional" where
  "pnl_residual reported d = fsub reported (net_pnl d)"

definition pnl_closes :: "Notional \<Rightarrow> f64 \<Rightarrow> PnlDecomposition \<Rightarrow> bool" where
  "pnl_closes reported tolerance d \<longleftrightarrow>
     is_finite (pnl_residual reported d) \<and> fle (fabs (pnl_residual reported d)) tolerance"

definition year_fraction :: "Timestamp \<Rightarrow> Timestamp \<Rightarrow> f64" where
  "year_fraction start finish =
     (if \<not> is_set start \<or> \<not> is_set finish \<or> finish \<le> start then fzero
      else fdiv (of_int64 (finish - start)) nanoseconds_per_year)"

record FinancingRates =
  fnr_borrow :: f64
  fnr_margin :: f64
  fnr_cash :: f64
  fnr_opportunity :: f64
  fnr_periods_per_year :: f64

definition default_rates :: FinancingRates where
  "default_rates = \<lparr>fnr_borrow = fzero, fnr_margin = fzero, fnr_cash = fzero, fnr_opportunity = fzero,
     fnr_periods_per_year = lit 252\<rparr>"

text \<open>The fills a period charges, and the slippage of one of them in currency.\<close>

definition charged_in :: "Timestamp \<Rightarrow> Timestamp \<Rightarrow> Fill list \<Rightarrow> Fill list" where
  "charged_in start finish fills = filter (\<lambda>f. \<not> (fill_time (f_times f) < start \<or> finish < fill_time (f_times f))) fills"

definition slippage_step :: "Fill \<Rightarrow> f64 \<Rightarrow> f64" where
  "slippage_step f s =
     (let bps = fill_slippage_bps f in
      if is_finite bps \<and> flt fzero (f_arrival_price f)
      then fadd s (fmul (fmul (fmul bps (lit (1 / 10000))) (f_arrival_price f)) (f_quantity f)) else s)"

definition financing :: "FinancingRates \<Rightarrow> EquityPoint \<Rightarrow> f64 \<Rightarrow> PnlDecomposition \<Rightarrow> PnlDecomposition" where
  "financing rates start years d =
     (if \<not> flt fzero years then d
      else
        (let gross = ep_gross_exposure start; net = ep_net_exposure start; eq = ep_equity start; cash = ep_cash start;
             short_notional = fmax fzero (fmul (fsub gross net) (lit (1 / 2)));
             borrowed = fmax fzero (fsub gross eq);
             financing_cost = fmul (fmul borrowed (fnr_margin rates)) years;
             interest = fmul (fmul (fmax fzero cash) (fnr_cash rates)) years;
             d1 = d\<lparr>pnd_borrow := fmul (fmul (fneg short_notional) (fnr_borrow rates)) years,
                   pnd_carry := fsub interest financing_cost\<rparr> in
         if flt fzero (fnr_opportunity rates) \<and> flt fzero eq
         then d1\<lparr>pnd_cash_drag := fmul (fmul (fneg (fmax fzero (fsub eq gross))) (fnr_opportunity rates)) years\<rparr>
         else d1))"

definition terms_finite :: "PnlDecomposition \<Rightarrow> bool" where
  "terms_finite d \<longleftrightarrow> list_all is_finite [pnd_realized d, pnd_unrealized d, pnd_commission d, pnd_exchange_fees d,
     pnd_slippage d, pnd_borrow d, pnd_carry d, pnd_cash_drag d]"

definition decompose_period ::
    "FinancingRates \<Rightarrow> EquityPoint \<Rightarrow> EquityPoint \<Rightarrow> Fill list \<Rightarrow> (attribution_error, PnlDecomposition) result" where
  "decompose_period rates start finish fills =
     (if \<not> is_set (ep_ts start) \<or> \<not> is_set (ep_ts finish) then Err PointUnstamped
      else if ep_ts finish < ep_ts start then Err PeriodBackwards
      else
        (let charged = charged_in (ep_ts start) (ep_ts finish) fills;
             d = blank_decomposition\<lparr>pnd_begin := ep_ts start, pnd_end := ep_ts finish,
               pnd_realized := fsub (ep_realized_pnl finish) (ep_realized_pnl start),
               pnd_unrealized := fsub (ep_unrealized_pnl finish) (ep_unrealized_pnl start),
               pnd_commission := fneg (fsum (map f_commission charged)),
               pnd_exchange_fees := fneg (fsum (map f_exchange_fee charged)),
               pnd_slippage := fneg (fold slippage_step charged fzero)\<rparr>;
             d1 = financing rates start (year_fraction (ep_ts start) (ep_ts finish)) d in
         if terms_finite d1 then Ok d1 else Err TermNotFinite))"

text \<open>The periods of a curve, each with the fills up to its end that no earlier period took.\<close>

fun decompose_periods ::
    "FinancingRates \<Rightarrow> EquityPoint list \<Rightarrow> Fill list \<Rightarrow> (attribution_error, PnlDecomposition list) result" where
  "decompose_periods rates (a # b # curve) fills =
     (case decompose_period rates a b (takeWhile (\<lambda>f. fill_time (f_times f) \<le> ep_ts b) fills) of
        Inl e \<Rightarrow> Err e
      | Inr d \<Rightarrow>
          (case decompose_periods rates (b # curve) (dropWhile (\<lambda>f. fill_time (f_times f) \<le> ep_ts b) fills) of
             Inl e \<Rightarrow> Err e
           | Inr ds \<Rightarrow> Ok (d # ds)))"
| "decompose_periods rates _ fills = Ok []"

definition decompose_series ::
    "FinancingRates \<Rightarrow> EquityPoint list \<Rightarrow> Fill list \<Rightarrow> (attribution_error, PnlDecomposition list) result" where
  "decompose_series rates curve fills =
     (if length curve < 2 then Err TwoPointsNeeded
      else decompose_periods rates curve (sort_key (\<lambda>f. fill_time (f_times f)) fills))"

definition aggregate :: "PnlDecomposition list \<Rightarrow> PnlDecomposition" where
  "aggregate ds =
     (if ds = [] then blank_decomposition
      else blank_decomposition\<lparr>pnd_begin := pnd_begin (hd ds), pnd_end := pnd_end (last ds),
        pnd_realized := fsum (map pnd_realized ds), pnd_unrealized := fsum (map pnd_unrealized ds),
        pnd_commission := fsum (map pnd_commission ds), pnd_exchange_fees := fsum (map pnd_exchange_fees ds),
        pnd_slippage := fsum (map pnd_slippage ds), pnd_borrow := fsum (map pnd_borrow ds),
        pnd_carry := fsum (map pnd_carry ds), pnd_cash_drag := fsum (map pnd_cash_drag ds)\<rparr>)"

record FactorContribution =
  fct_beta_contribution :: f64
  fct_alpha_contribution :: f64
  fct_residual_contribution :: f64
  fct_beta :: f64
  fct_benchmark_return :: f64
  fct_portfolio_return :: f64
  fct_periods :: nat

definition factor_closes :: "f64 \<Rightarrow> FactorContribution \<Rightarrow> bool" where
  "factor_closes tolerance c \<longleftrightarrow>
     (let s = fadd (fadd (fct_beta_contribution c) (fct_alpha_contribution c)) (fct_residual_contribution c) in
      is_finite s \<and> fle (fabs (fsub s (fct_portfolio_return c))) tolerance)"

definition factor_contribution :: "f64 list \<Rightarrow> f64 list \<Rightarrow> (attribution_error, FactorContribution) result" where
  "factor_contribution rs bs =
     (if rs = [] then Err NoReturns
      else if length rs \<noteq> length bs then Err (BenchmarkMismatch (length bs) (length rs))
      else if list_ex (\<lambda>(r, b). \<not> is_finite r \<or> \<not> is_finite b) (zip rs bs) then Err SeriesNotFinite
      else
        (let n = of_count (length rs); mean_p = fdiv (fsum rs) n; mean_b = fdiv (fsum bs) n;
             covariance = covariance_sum rs bs mean_p mean_b;
             variance_b = fsum (map (\<lambda>b. let db = fsub b mean_b in fmul db db) bs);
             quotient = (if flt fzero variance_b then fdiv covariance variance_b else fzero);
             beta = (if is_finite quotient then quotient else fzero);
             portfolio_return = fmul mean_p n; benchmark_return = fmul mean_b n;
             beta_contribution = fmul beta benchmark_return in
         Ok \<lparr>fct_beta_contribution = beta_contribution,
             fct_alpha_contribution = fsub portfolio_return beta_contribution, fct_residual_contribution = fzero,
             fct_beta = beta, fct_benchmark_return = benchmark_return, fct_portfolio_return = portfolio_return,
             fct_periods = length rs\<rparr>))"

section \<open>Execution quality\<close>

definition cost_bps :: "Price \<Rightarrow> Price \<Rightarrow> Side \<Rightarrow> Bps" where
  "cost_bps px benchmark side =
     (if fle benchmark fzero \<or> \<not> is_finite px \<or> \<not> is_finite benchmark then fzero
      else
        (let raw = fmul (fsub (fdiv px benchmark) (lit 1)) (lit (10 ^ 4));
             signed = fmul raw (of_int64 (sign_of side)) in
         if is_finite signed then signed else fzero))"

record ExecutionBenchmarks =
  ebm_decision :: "Price option"
  ebm_arrival :: "Price option"
  ebm_vwap :: "Price option"
  ebm_twap :: "Price option"
  ebm_volume :: "Volume option"
  ebm_best :: "Price option"
  ebm_worst :: "Price option"

record TradeExecutionQuality =
  teq_instrument :: InstrumentId
  teq_side :: Side
  teq_quantity :: Qty
  teq_average_price :: Price
  teq_decision_time :: Timestamp
  teq_first_fill :: Timestamp
  teq_last_fill :: Timestamp
  teq_fill_count :: nat
  teq_delay_cost :: "Bps option"
  teq_execution_cost :: "Bps option"
  teq_shortfall :: "Bps option"
  teq_vs_vwap :: "Bps option"
  teq_vs_twap :: "Bps option"
  teq_participation :: "f64 option"
  teq_efficiency :: f64
  teq_favorable :: "Bps option"
  teq_adverse :: "Bps option"
  teq_holding :: Duration
  teq_realized_edge :: "Bps option"
  teq_expected_edge :: "Bps option"
  teq_edge_surprise :: "Bps option"
  teq_commission :: Notional
  teq_fees :: Notional

text \<open>The fills of one trade: the first that differs in instrument or side refuses it.\<close>

fun mixed_fills :: "InstrumentId \<Rightarrow> Side \<Rightarrow> Fill list \<Rightarrow> attribution_error option" where
  "mixed_fills i side [] = None"
| "mixed_fills i side (f # fs) =
     (if f_instrument f \<noteq> i then Some MixedInstruments
      else if f_side f \<noteq> side then Some MixedSides else mixed_fills i side fs)"

definition both_prices :: "Price option \<Rightarrow> Price option \<Rightarrow> Side \<Rightarrow> Bps option" where
  "both_prices px benchmark side =
     (case (px, benchmark) of (Some p, Some b) \<Rightarrow> Some (cost_bps p b side) | _ \<Rightarrow> None)"

definition analyze_trade ::
    "Fill list \<Rightarrow> ExecutionBenchmarks \<Rightarrow> Qty \<Rightarrow> (attribution_error, TradeExecutionQuality) result" where
  "analyze_trade fills marks sought =
     (if fills = [] then Err NoFills
      else
        (let i = f_instrument (hd fills); side = f_side (hd fills) in
         case mixed_fills i side fills of
           Some e \<Rightarrow> Err e
         | None \<Rightarrow>
             (let filled = fsum (map f_quantity fills);
                  notional_sum = fsum (map (\<lambda>f. fmul (f_quantity f) (f_price f)) fills);
                  start = fold (\<lambda>f t. min t (fill_time (f_times f))) fills kMaxTimestamp;
                  finish = fold (\<lambda>f t. max t (fill_time (f_times f))) fills kNoTimestamp;
                  entry = fdiv notional_sum filled;
                  decided = decision_time (f_times (hd fills)) in
              if fle filled fzero then Err NothingFilled
              else Ok \<lparr>teq_instrument = i, teq_side = side, teq_quantity = filled, teq_average_price = entry,
                teq_decision_time = decided, teq_first_fill = start, teq_last_fill = finish,
                teq_fill_count = length fills,
                teq_delay_cost = both_prices (ebm_arrival marks) (ebm_decision marks) side,
                teq_execution_cost = both_prices (Some entry) (ebm_arrival marks) side,
                teq_shortfall = both_prices (Some entry) (ebm_decision marks) side,
                teq_vs_vwap = both_prices (Some entry) (ebm_vwap marks) side,
                teq_vs_twap = both_prices (Some entry) (ebm_twap marks) side,
                teq_participation = (case ebm_volume marks of
                    None \<Rightarrow> None
                  | Some v \<Rightarrow> if flt fzero v then Some (fdiv filled v) else None),
                teq_efficiency = if flt fzero sought then fmin (lit 1) (fdiv filled sought) else lit 1,
                teq_favorable = (case ebm_best marks of
                    None \<Rightarrow> None
                  | Some p \<Rightarrow> if flt fzero entry then Some (fmax fzero (cost_bps p entry side)) else None),
                teq_adverse = (case ebm_worst marks of
                    None \<Rightarrow> None
                  | Some p \<Rightarrow> if flt fzero entry then Some (fmax fzero (fneg (cost_bps p entry side))) else None),
                teq_holding = if is_set decided \<and> is_set finish then finish - decided else 0,
                teq_realized_edge = None, teq_expected_edge = None, teq_edge_surprise = None,
                teq_commission = fsum (map f_commission fills), teq_fees = fsum (map f_exchange_fee fills)\<rparr>)))"

section \<open>Summaries\<close>

record ExecutionQualitySummary =
  eqs_trades :: nat
  eqs_fills :: nat
  eqs_shortfall :: Bps
  eqs_delay :: Bps
  eqs_execution :: Bps
  eqs_vs_vwap :: Bps
  eqs_median_shortfall :: Bps
  eqs_worst_shortfall :: Bps
  eqs_participation :: f64
  eqs_efficiency :: f64
  eqs_holding :: Duration
  eqs_commission :: Notional
  eqs_fees :: Notional
  eqs_below_edge :: nat

text \<open>The sum of a cost weighted by quantity over the trades that carry it, and the sum of their weights.\<close>

definition weighted_cost :: "(TradeExecutionQuality \<Rightarrow> Bps option) \<Rightarrow> TradeExecutionQuality list \<Rightarrow> f64 \<times> f64" where
  "weighted_cost cost trades =
     fold (\<lambda>t (s, w). case cost t of None \<Rightarrow> (s, w)
       | Some c \<Rightarrow> (fadd s (fmul c (teq_quantity t)), fadd w (teq_quantity t))) trades (fzero, fzero)"

definition over_weight :: "f64 \<Rightarrow> f64 \<Rightarrow> Bps" where
  "over_weight s w = (if flt fzero w then fdiv s w else fzero)"

definition below_edge :: "TradeExecutionQuality \<Rightarrow> bool" where
  "below_edge t =
     (case (teq_realized_edge t, teq_expected_edge t) of (Some r, Some e) \<Rightarrow> flt r e | _ \<Rightarrow> False)"

definition truncated_div :: "int \<Rightarrow> int \<Rightarrow> int" where
  "truncated_div a b = (if 0 \<le> a then a div b else - (- a div b))"

definition summarize :: "TradeExecutionQuality list \<Rightarrow> ExecutionQualitySummary" where
  "summarize trades =
     (let shortfalls = fsort (List.map_filter teq_shortfall trades);
          rates = List.map_filter teq_participation trades; n = length trades;
          weight = fsum (map teq_quantity trades);
          (is_weighted, is_weight) = weighted_cost teq_shortfall trades;
          (delay, delay_weight) = weighted_cost teq_delay_cost trades;
          (execution, execution_weight) = weighted_cost teq_execution_cost trades;
          (vwap, vwap_weight) = weighted_cost teq_vs_vwap trades in
      \<lparr>eqs_trades = n, eqs_fills = sum_list (map teq_fill_count trades),
       eqs_shortfall = over_weight is_weighted weight, eqs_delay = over_weight delay delay_weight,
       eqs_execution = over_weight execution execution_weight, eqs_vs_vwap = over_weight vwap vwap_weight,
       eqs_median_shortfall = if shortfalls = [] then fzero else shortfalls ! (length shortfalls div 2),
       eqs_worst_shortfall = if shortfalls = [] then fzero else last shortfalls,
       eqs_participation = if rates = [] then fzero else fdiv (fsum rates) (of_count (length rates)),
       eqs_efficiency = if trades = [] then fzero else fdiv (fsum (map teq_efficiency trades)) (of_count n),
       eqs_holding = if trades = [] then 0 else truncated_div (sum_list (map teq_holding trades)) (int n),
       eqs_commission = fsum (map teq_commission trades), eqs_fees = fsum (map teq_fees trades),
       eqs_below_edge = length (filter below_edge trades)\<rparr>)"

section \<open>Signal decay\<close>

record SignalDecayProfile =
  sdp_horizons :: "Duration list"
  sdp_mean_edge :: "f64 list"
  sdp_samples :: "nat list"
  sdp_half_life :: "Duration option"

fun horizon_index :: "Duration \<Rightarrow> Duration list \<Rightarrow> nat \<Rightarrow> nat option" where
  "horizon_index delay [] i = None"
| "horizon_index delay (h # hs) i = (if delay \<le> h then Some i else horizon_index delay hs (i + 1))"

definition trade_delay :: "TradeExecutionQuality \<Rightarrow> Duration" where
  "trade_delay t =
     (if is_set (teq_decision_time t) \<and> is_set (teq_first_fill t) then teq_first_fill t - teq_decision_time t else 0)"

definition decay_step :: "Duration list \<Rightarrow> TradeExecutionQuality \<Rightarrow> f64 list \<times> nat list \<Rightarrow> f64 list \<times> nat list" where
  "decay_step horizons t acc =
     (case teq_realized_edge t of
        None \<Rightarrow> acc
      | Some edge \<Rightarrow>
          (case horizon_index (trade_delay t) horizons 0 of
             None \<Rightarrow> acc
           | Some i \<Rightarrow> ((fst acc)[i := fadd (fst acc ! i) edge], (snd acc)[i := snd acc ! i + 1])))"

fun first_halved :: "f64 \<Rightarrow> (Duration \<times> f64 \<times> nat) list \<Rightarrow> Duration option" where
  "first_halved half [] = None"
| "first_halved half ((h, m, n) # rows) =
     (if n = 0 then first_halved half rows else if flt m half then Some h else first_halved half rows)"

definition signal_decay ::
    "TradeExecutionQuality list \<Rightarrow> Duration list \<Rightarrow> (attribution_error, SignalDecayProfile) result" where
  "signal_decay trades horizons =
     (if horizons = [] then Err NoHorizons
      else if \<not> sorted_wrt (<) horizons then Err HorizonsNotAscending
      else
        (let k = length horizons;
             (edges, samples) = fold (decay_step horizons) trades (replicate k fzero, replicate k 0);
             means = map (\<lambda>(s, n). if 0 < n then fdiv s (of_count n) else fzero) (zip edges samples);
             half = fmul (hd means) (lit (1 / 2)) in
         Ok \<lparr>sdp_horizons = horizons, sdp_mean_edge = means, sdp_samples = samples,
             sdp_half_life = if flt fzero (hd means) \<and> 0 < hd samples
               then first_halved half (tl (zip horizons (zip means samples))) else None\<rparr>))"

section \<open>Every fill is charged once\<close>

abbreviation booked_at :: "Fill \<Rightarrow> Timestamp" where
  "booked_at f \<equiv> fill_time (f_times f)"

lemma decompose_period_commission:
  "decompose_period rates a b fills = Ok d \<Longrightarrow>
   pnd_commission d = fneg (fsum (map f_commission (charged_in (ep_ts a) (ep_ts b) fills)))
   \<and> pnd_begin d = ep_ts a \<and> pnd_end d = ep_ts b \<and> ep_ts a \<le> ep_ts b"
  by (auto simp: decompose_period_def financing_def Let_def split: if_splits)

lemma after_window:
  assumes "sorted (map booked_at fs)"
  shows "dropWhile (\<lambda>f. booked_at f \<le> t) fs = filter (\<lambda>f. t < booked_at f) fs"
  using assms
proof (induction fs)
  case (Cons f fs)
  show ?case
  proof (cases "booked_at f \<le> t")
    case False
    then have "filter (\<lambda>f. t < booked_at f) fs = fs" using Cons.prems by (intro filter_True) auto
    then show ?thesis using False by simp
  qed (use Cons in simp)
qed simp

lemma charged_window:
  assumes "sorted (map booked_at fs)"
  shows "charged_in start finish (takeWhile (\<lambda>f. booked_at f \<le> finish) fs) =
     filter (\<lambda>f. start \<le> booked_at f \<and> booked_at f \<le> finish) fs"
  using assms
proof (induction fs)
  case (Cons f fs)
  show ?case
  proof (cases "booked_at f \<le> finish")
    case False
    then have "filter (\<lambda>f. start \<le> booked_at f \<and> booked_at f \<le> finish) fs = []"
      using Cons.prems by (intro filter_False) auto
    then show ?thesis using False by (simp add: charged_in_def)
  qed (use Cons in \<open>simp add: charged_in_def not_less\<close>)
qed (simp add: charged_in_def)

lemma sorted_filter_fills: "sorted (map booked_at fs) \<Longrightarrow> sorted (map booked_at (filter P fs))"
  by (induction fs) auto

lemma filter_split:
  assumes "sorted (map booked_at fs)" "lo \<le> mid" "mid \<le> hi"
  shows "filter (\<lambda>f. lo \<le> booked_at f \<and> booked_at f \<le> mid) fs @ filter (\<lambda>f. mid < booked_at f \<and> booked_at f \<le> hi) fs
    = filter (\<lambda>f. lo \<le> booked_at f \<and> booked_at f \<le> hi) fs"
  using assms
proof (induction fs)
  case (Cons f fs)
  show ?case
  proof (cases "booked_at f \<le> mid")
    case False
    then have "filter (\<lambda>f. lo \<le> booked_at f \<and> booked_at f \<le> mid) fs = []"
      using Cons.prems by (intro filter_False) auto
    then show ?thesis using False Cons by auto
  qed (use Cons in auto)
qed simp

text \<open>The groups of fills the periods charge, over fills that start after the first point or at it.\<close>

definition charges :: "PnlDecomposition list \<Rightarrow> Fill list list \<Rightarrow> bool" where
  "charges ds groups \<longleftrightarrow> list_all2 (\<lambda>d g. pnd_commission d = fneg (fsum (map f_commission g))
     \<and> list_all (\<lambda>f. pnd_begin d \<le> booked_at f \<and> booked_at f \<le> pnd_end d) g) ds groups"

lemma decompose_periods_charge:
  assumes "decompose_periods rates curve fs = Ok ds" "curve \<noteq> []" "sorted (map booked_at fs)"
  shows "\<exists>groups. charges ds groups \<and>
      concat groups = (if length curve < 2 then []
        else filter (\<lambda>f. ep_ts (hd curve) \<le> booked_at f \<and> booked_at f \<le> ep_ts (last curve)) fs)
      \<and> ep_ts (hd curve) \<le> ep_ts (last curve)"
  using assms
proof (induction rates curve fs arbitrary: ds rule: decompose_periods.induct)
  case (1 rates a b curve fs)
  let ?in = "takeWhile (\<lambda>f. booked_at f \<le> ep_ts b) fs" and ?out = "dropWhile (\<lambda>f. booked_at f \<le> ep_ts b) fs"
  obtain d rest where d: "decompose_period rates a b ?in = Ok d"
    and rest: "decompose_periods rates (b # curve) ?out = Ok rest" and ds: "ds = d # rest"
    using 1(2) by (auto split: sum.splits)
  note one = decompose_period_commission [OF d]
  have out: "?out = filter (\<lambda>f. ep_ts b < booked_at f) fs" using after_window 1(4) by blast
  have "sorted (map booked_at ?out)" using sorted_filter_fills 1(4) by (simp add: out)
  from 1(1) [OF d rest _ this] obtain groups where groups: "charges rest groups"
    "concat groups = (if curve = [] then []
        else filter (\<lambda>f. ep_ts b \<le> booked_at f \<and> booked_at f \<le> ep_ts (last (b # curve))) ?out)"
    "ep_ts b \<le> ep_ts (last (b # curve))" by (auto split: if_splits)
  let ?g = "filter (\<lambda>f. ep_ts a \<le> booked_at f \<and> booked_at f \<le> ep_ts b) fs"
  have "charges ds (?g # groups)"
    using groups(1) one by (simp add: charges_def ds charged_window [OF 1(4)] list_all_iff)
  moreover have "concat (?g # groups) = filter (\<lambda>f. ep_ts a \<le> booked_at f \<and> booked_at f \<le> ep_ts (last (b # curve))) fs"
  proof (cases "curve = []")
    case False
    have "concat groups = filter (\<lambda>f. ep_ts b < booked_at f \<and> booked_at f \<le> ep_ts (last (b # curve))) fs"
      using False groups(2) by (auto simp: out intro!: filter_cong)
    then show ?thesis using filter_split [OF 1(4), of "ep_ts a" "ep_ts b" "ep_ts (last (b # curve))"] one groups(3) by simp
  qed (use groups(2) in simp)
  moreover have "ep_ts a \<le> ep_ts (last (b # curve))" using one groups(3) by simp
  ultimately show ?case by (intro exI [of _ "?g # groups"]) simp
qed (auto simp: charges_def)

text \<open>
  C30: The decomposition of a curve charges every fill once. Where it succeeds, the commission of every period is minus the
  sum over a group of fills that lie in the period, and the groups together are exactly the fills from the first
  point of the curve to the last, in time order: none is dropped between two periods and none charged twice.
\<close>

theorem every_fill_is_charged_once:
  "case decompose_series rates curve fills of
     Inl e \<Rightarrow> True
   | Inr ds \<Rightarrow> \<exists>groups. charges ds groups \<and>
       concat groups = filter (\<lambda>f. ep_ts (hd curve) \<le> fill_time (f_times f) \<and> fill_time (f_times f) \<le> ep_ts (last curve))
         (sort_key (\<lambda>f. fill_time (f_times f)) fills)"
proof (cases "decompose_series rates curve fills")
  case (Inr ds)
  then have long: "2 \<le> length curve" and loop: "decompose_periods rates curve (sort_key booked_at fills) = Ok ds"
    by (auto simp: decompose_series_def not_less split: if_splits)
  then have "curve \<noteq> []" by auto
  from decompose_periods_charge [OF loop this sorted_sort_key] show ?thesis using long Inr by auto
qed simp

section \<open>What a cost in basis points says\<close>

lemma fle_lit_sign: "r \<le> 0 \<Longrightarrow> fle (lit r) fzero" "0 \<le> r \<Longrightarrow> fle fzero (lit r)"
  using lit_mono [of r 0] lit_mono [of 0 r] by (simp_all add: fzero_def)

lemma signed_zero_le [simp]: "fle (signed_zero s) fzero" "fle fzero (signed_zero s)" "fle fzero fzero"
  by (simp_all add: signed_zero_def fle_def feq_def flt_def fzero_def)

lemma fle_fmul_fin:
  assumes "fin x" "fin k"
  shows "val x * val k \<le> 0 \<Longrightarrow> fle (fmul x k) fzero" "0 \<le> val x * val k \<Longrightarrow> fle fzero (fmul x k)"
  using assms fle_lit_sign [of "val x * val k"] by (auto simp: fmul_def Let_def)

lemma fle_fmul_sign:
  assumes "0 < c"
  shows "fle x fzero \<Longrightarrow> fle (fmul x (Fin c)) fzero" "fle fzero x \<Longrightarrow> fle fzero (fmul x (Fin c))"
proof -
  consider "fin x" | "x = PInf" | "x = NInf" | "x = NaN" by (cases x) auto
  note split = this
  show "fle (fmul x (Fin c)) fzero" if "fle x fzero"
    using split
  proof cases
    case 1
    then have "val x * c \<le> 0" using that assms by (simp add: f64_sem mult_nonpos_nonneg)
    then show ?thesis using fle_fmul_fin(1) [OF 1, of "Fin c"] by simp
  qed (use that assms in \<open>simp_all add: fmul_def Let_def signed_inf_def fle_def flt_def feq_def fzero_def\<close>)
  show "fle fzero (fmul x (Fin c))" if "fle fzero x"
    using split
  proof cases
    case 1
    then have "0 \<le> val x * c" using that assms by (simp add: f64_sem)
    then show ?thesis using fle_fmul_fin(2) [OF 1, of "Fin c"] by simp
  qed (use that assms in \<open>simp_all add: fmul_def Let_def signed_inf_def fle_def flt_def feq_def fzero_def\<close>)
qed

lemma fle_fmul_minus_one:
  "fle x fzero \<Longrightarrow> fle fzero (fmul x (Fin (- 1)))" "fle fzero x \<Longrightarrow> fle (fmul x (Fin (- 1))) fzero"
proof -
  consider "fin x" | "x = PInf" | "x = NInf" | "x = NaN" by (cases x) auto
  note split = this
  show "fle fzero (fmul x (Fin (- 1)))" if "fle x fzero"
    using split
  proof cases
    case 1
    then show ?thesis using that fle_fmul_fin(2) [OF 1, of "Fin (- 1)"] by (simp add: f64_sem)
  qed (use that in \<open>simp_all add: fmul_def Let_def signed_inf_def fle_def flt_def feq_def fzero_def\<close>)
  show "fle (fmul x (Fin (- 1))) fzero" if "fle fzero x"
    using split
  proof cases
    case 1
    then show ?thesis using that fle_fmul_fin(1) [OF 1, of "Fin (- 1)"] by (simp add: f64_sem)
  qed (use that in \<open>simp_all add: fmul_def Let_def signed_inf_def fle_def flt_def feq_def fzero_def\<close>)
qed

lemma fle_fsub_one:
  "fle q (Fin 1) \<Longrightarrow> fle (fsub q (Fin 1)) fzero" "fle (Fin 1) q \<Longrightarrow> fle fzero (fsub q (Fin 1))"
proof -
  consider "fin q" | "q = PInf" | "q = NInf" | "q = NaN" by (cases q) auto
  note split = this
  have diff: "fsub q (Fin 1) = lit (val q - 1)" if "fin q"
    using that by (auto simp: fsub_def fadd_def)
  show "fle (fsub q (Fin 1)) fzero" if "fle q (Fin 1)"
    using split
  proof cases
    case 1
    then show ?thesis using that fle_lit_sign(1) [of "val q - 1"] by (simp add: diff f64_sem)
  qed (use that in \<open>simp_all add: fsub_def fadd_def fle_def flt_def feq_def fzero_def\<close>)
  show "fle fzero (fsub q (Fin 1))" if "fle (Fin 1) q"
    using split
  proof cases
    case 1
    then show ?thesis using that fle_lit_sign(2) [of "val q - 1"] by (simp add: diff f64_sem)
  qed (use that in \<open>simp_all add: fsub_def fadd_def fle_def flt_def feq_def fzero_def\<close>)
qed

lemma fdiv_against_one:
  assumes "fin p" "fin b" "0 < val b"
  shows "val p \<le> val b \<Longrightarrow> fle (fdiv p b) (Fin 1)" "val b \<le> val p \<Longrightarrow> fle (Fin 1) (fdiv p b)"
proof -
  have q: "fdiv p b = (if val p = 0 then signed_zero (negative p \<noteq> negative b) else lit (val p / val b))"
    using assms by (auto simp: fdiv_def Let_def)
  have "fle (signed_zero s) (Fin 1)" for s by (simp add: signed_zero_def fle_def flt_def)
  then show "val p \<le> val b \<Longrightarrow> fle (fdiv p b) (Fin 1)"
    using lit_mono [of "val p / val b" 1] assms(3) by (simp add: q)
  show "val b \<le> val p \<Longrightarrow> fle (Fin 1) (fdiv p b)"
    using lit_mono [of 1 "val p / val b"] assms(3) by (simp add: q)
qed

text \<open>
  A cost is positive on either side: filling a buy at or above the benchmark never earns, filling it at or below never
  costs, and a sell reads the other way round.
\<close>

theorem cost_bps_sign:
  "if fle b fzero \<or> \<not> fin b \<or> \<not> fin p then cost_bps p b side = fzero
   else if val p \<le> val b then fle (cost_bps p b Buy) fzero \<and> fle fzero (cost_bps p b Sell)
   else fle fzero (cost_bps p b Buy) \<and> fle (cost_bps p b Sell) fzero"
proof (cases "fle b fzero \<or> \<not> fin b \<or> \<not> fin p")
  case False
  then have b: "fin b" "0 < val b" and p: "fin p" by (auto simp: f64_sem)
  have side: "of_int64 1 = Fin 1" "of_int64 (- 1) = Fin (- 1)" by (simp_all add: of_int64_def)
  have scale: "lit 10000 = Fin 10000" by (simp add: f64_eval)
  show ?thesis
  proof (cases "val p \<le> val b")
    case True
    then have "fle (fmul (fsub (fdiv p b) (Fin 1)) (Fin 10000)) fzero"
      by (intro fle_fmul_sign(1) fle_fsub_one(1) fdiv_against_one(1) p b) simp_all
    note fle_fmul_sign(1) [OF _ this, of 1] fle_fmul_minus_one(1) [OF this]
    then show ?thesis using False True by (simp add: cost_bps_def Let_def side scale)
  next
    case above: False
    then have "fle fzero (fmul (fsub (fdiv p b) (Fin 1)) (Fin 10000))"
      by (intro fle_fmul_sign(2) fle_fsub_one(2) fdiv_against_one(2) p b) simp_all
    note fle_fmul_sign(2) [OF _ this, of 1] fle_fmul_minus_one(2) [OF this]
    then show ?thesis using False above by (simp add: cost_bps_def Let_def side scale)
  qed
qed (auto simp: cost_bps_def)

section \<open>Three surprises\<close>

text \<open>
  The average shortfall is diluted. Its weight counts every trade, those without a decision price included, while the
  average delay cost weighs only the trades that carry one: of two equal trades where one cost 10 basis points on
  both measures and the other carries neither, the summary reports a shortfall of 5 and a delay cost of 10.
\<close>

theorem unmeasured_trades_dilute_the_shortfall:
  assumes "teq_quantity t = Fin 100" "teq_quantity u = Fin 100"
    and "teq_shortfall t = Some (Fin 10)" "teq_shortfall u = None"
    and "teq_delay_cost t = Some (Fin 10)" "teq_delay_cost u = None"
  shows "eqs_shortfall (summarize [t, u]) = Fin 5 \<and> eqs_delay (summarize [t, u]) = Fin 10"
proof -
  have "weighted_cost teq_shortfall [t, u] = (Fin 1000, Fin 100)" "weighted_cost teq_delay_cost [t, u] = (Fin 1000, Fin 100)"
    using assms by (simp_all add: weighted_cost_def f64_eval)
  moreover have "fsum (map teq_quantity [t, u]) = Fin 200" using assms by (simp add: fsum_def f64_eval)
  ultimately show ?thesis by (simp add: summarize_def Let_def split_def over_weight_def f64_eval)
qed

text \<open>
  The edge of a trade is never measured: the analysis leaves it empty, so the decay profile of analysed trades has no
  sample at any horizon and no half-life, and none of them counts as below its expected edge.
\<close>

theorem analysed_trades_show_no_decay:
  "if list_all (\<lambda>t. \<exists>fills marks sought. analyze_trade fills marks sought = Ok t) trades
   then eqs_below_edge (summarize trades) = 0 \<and>
     (case signal_decay trades horizons of Inl e \<Rightarrow> True
      | Inr p \<Rightarrow> list_all (\<lambda>n. n = 0) (sdp_samples p) \<and> sdp_half_life p = None)
   else True"
proof -
  have empty: "teq_realized_edge t = None" if "analyze_trade fills marks sought = Ok t" for fills marks sought t
    using that by (auto simp: analyze_trade_def Let_def split: if_splits option.splits)
  have quiet: "fold (decay_step horizons) ts acc = acc" if "\<forall>t\<in>set ts. teq_realized_edge t = None" for ts acc
    using that by (induction ts arbitrary: acc) (simp_all add: decay_step_def)
  show ?thesis
  proof (cases "list_all (\<lambda>t. \<exists>fills marks sought. analyze_trade fills marks sought = Ok t) trades")
    case True
    then have none: "\<forall>t\<in>set trades. teq_realized_edge t = None" using empty by (auto simp: list_all_iff)
    then have "filter below_edge trades = []" by (auto simp: below_edge_def filter_empty_conv)
    then have "eqs_below_edge (summarize trades) = 0" by (simp add: summarize_def Let_def split_def)
    then show ?thesis using True quiet [OF none]
      by (auto simp: signal_decay_def Let_def list_all_iff hd_replicate split: sum.splits if_splits)
  qed simp
qed

lemma pos_quotient: "0 < a \<Longrightarrow> 0 < b \<Longrightarrow> \<exists>r>0. r * a = (b :: real)"
  by (rule exI [of _ "b / a"]) simp

definition slipped_fill :: Fill where
  "slipped_fill = (sample_fill 1 Buy (Fin 125) (Fin 10))\<lparr>f_commission := fzero, f_arrival_price := Fin 100\<rparr>"

definition slipped_book :: Portfolio where
  "slipped_book = mark_last 0 (Fin 125) (snd (portfolio_apply slipped_fill (new_portfolio
     \<lparr>initial_cash = Fin 10000, mark_mode = Last, annual_borrow_rate = fzero, allow_short = True\<rparr>)))"

text \<open>
  Slippage is counted twice. The fill price already lowers the profit of the position, and the decomposition takes
  the slippage off again: buying 10 at 125 after an arrival price of 100 leaves the equity of the portfolio model
  unchanged, and the decomposition reports a residual of 250 where it promises none.
\<close>

theorem slippage_is_counted_twice:
  "\<exists>d. decompose_period default_rates
        \<lparr>ep_ts = 100, ep_equity = Fin 10000, ep_cash = Fin 10000, ep_gross_exposure = fzero, ep_net_exposure = fzero,
         ep_realized_pnl = fzero, ep_unrealized_pnl = fzero, ep_cumulative_costs = fzero, ep_turnover = fzero\<rparr>
        \<lparr>ep_ts = 400, ep_equity = equity slipped_book, ep_cash = pf_cash slipped_book,
         ep_gross_exposure = gross_exposure slipped_book, ep_net_exposure = net_exposure slipped_book,
         ep_realized_pnl = pf_realized slipped_book, ep_unrealized_pnl = unrealized_pnl slipped_book,
         ep_cumulative_costs = pf_costs slipped_book, ep_turnover = pf_turnover slipped_book\<rparr> [slipped_fill] = Ok d
    \<and> equity slipped_book = Fin 10000 \<and> pnl_residual (fsub (equity slipped_book) (Fin 10000)) d = Fin 250"
proof -
  have slip: "slippage_step slipped_fill fzero = Fin 250"
    by (simp add: slippage_step_def fill_slippage_bps_def slipped_fill_def sample_fill_def f64_eval)
  have arith: "fmul (Fin 125) (Fin 10) = Fin 1250" "fmul (Fin 10) (Fin 125) = Fin 1250" "fmul (Fin 10) (Fin 1) = Fin 10"
    "fmul (Fin 1250) (Fin 1) = Fin 1250" "fsub (Fin (- 1250)) fzero = Fin (- 1250)" "fadd (Fin 10000) (Fin (- 1250)) = Fin 8750"
    "fadd fzero (Fin 10) = Fin 10" "fadd fzero (Fin 1250) = Fin 1250" "fadd (Fin 8750) (Fin 1250) = Fin 10000"
    "fmul fzero fzero = fzero" "fdiv (Fin 1250) (Fin 10) = Fin 125" "fsub (Fin 125) (Fin 125) = fzero"
    "fmul fzero (Fin 10) = fzero" "fadd fzero fzero = fzero" "fadd fzero (Fin 0) = fzero" "fsub (Fin (- 1250)) (Fin 0) = Fin (- 1250)"
    "fsub fzero fzero = fzero" "fadd fzero (fneg (Fin 250)) = Fin (- 250)" "fadd (fneg fzero) (fneg fzero) = fneg fzero"
    "fadd (fneg fzero) (fneg (Fin 250)) = Fin (- 250)" "fadd (Fin (- 250)) fzero = Fin (- 250)" "fadd fzero (Fin (- 250)) = Fin (- 250)"
    "fsub (Fin 10000) (Fin 10000) = fzero" "fsub fzero (Fin (- 250)) = Fin 250"
    by (simp_all add: f64_eval)
  have order: "feq fzero fzero" "\<not> feq (Fin 10) fzero" "flt fzero (Fin 10)" "of_int64 1 = Fin 1"
    by (simp_all add: feq_def flt_def fzero_def of_int64_def)
  have delta: "fill_signed_quantity slipped_fill = Fin 10" "fill_cash_delta slipped_fill = Fin (- 1250)"
    "fill_total_cost slipped_fill = fzero" "f_price slipped_fill = Fin 125" "f_quantity slipped_fill = Fin 10"
    "f_instrument slipped_fill = 0"
    by (simp_all add: slipped_fill_def sample_fill_def fill_signed_quantity_def fill_cash_delta_def fill_total_cost_def
        signed_qty_def arith order)
  let ?p = "\<lparr>pos_instrument = 0, pos_quantity = Fin 10, pos_average_cost = Fin 125, pos_realized = fzero,
     pos_commission = fzero, pos_bought = Fin 10, pos_sold = fzero\<rparr>"
  have bought: "position_apply slipped_fill (new_position 0) = (fzero, ?p)"
    by (simp add: position_apply_def new_position_def delta arith order Let_def)
  have held: "pf_positions slipped_book = [(0, ?p)]" "pf_marks slipped_book = [(0, \<lparr>mark_bid = Fin 125, mark_ask = Fin 125\<rparr>)]"
    "pf_cash slipped_book = Fin 8750" "pf_realized slipped_book = fzero" "mark_mode (pf_cfg slipped_book) = Last"
    by (simp_all add: slipped_book_def mark_last_def portfolio_apply_def new_portfolio_def held_position_def delta bought
        arith Let_def om_find_empty)
  have open_sum: "sum_open g slipped_book = fadd fzero (g ?p (Fin 125))" for g
    by (simp add: sum_open_def held mark_for_def mark_of_mode_def is_flat_def order om_find_Cons)
  have book: "equity slipped_book = Fin 10000" "unrealized_pnl slipped_book = fzero"
    by (simp_all add: equity_def position_value_def unrealized_pnl_def open_sum held market_value_def pos_unrealized_def
        is_flat_def arith order)
  have charged: "charged_in 100 400 [slipped_fill] = [slipped_fill]"
    by (simp add: charged_in_def slipped_fill_def sample_fill_def)
  have fees: "f_commission slipped_fill = fzero" "f_exchange_fee slipped_fill = fzero"
    by (simp_all add: slipped_fill_def sample_fill_def fzero_def)
  have "\<exists>r>0. year_fraction 100 400 = Fin r"
    by (simp add: year_fraction_def is_set_def kNoTimestamp_def of_int64_def nanoseconds_per_year_def f64_eval)
      (rule pos_quotient; simp)
  then obtain r where r: "0 < r" "year_fraction 100 400 = Fin r" by blast
  have zeros: "fmul (fneg fzero) fzero = NZero" "fmul NZero (Fin r) = NZero" "fmul (Fin 10000) fzero = fzero"
    "fmul fzero (Fin r) = fzero" "fmax fzero fzero = fzero" "fmul fzero (lit (1 / 2)) = fzero" "flt fzero (Fin r)"
    "fadd (fneg fzero) (Fin (- 250)) = Fin (- 250)" "fadd (Fin (- 250)) NZero = Fin (- 250)" "fsub fzero (Fin 10000) = Fin (- 10000)" "fmax fzero (Fin (- 10000)) = fzero"
    "fmax fzero (Fin 10000) = Fin 10000" "\<not> flt fzero fzero"
    using r(1) by (simp_all add: f64_eval fzero_def flt_def fmul_def fmax_def signed_zero_def)
  let ?d = "blank_decomposition\<lparr>pnd_begin := 100, pnd_end := 400, pnd_realized := fzero, pnd_unrealized := fzero,
     pnd_commission := fneg fzero, pnd_exchange_fees := fneg fzero, pnd_slippage := fneg (Fin 250),
     pnd_borrow := NZero, pnd_carry := fzero\<rparr>"
  have "net_pnl ?d = Fin (- 250)"
    by (simp add: net_pnl_def gross_pnl_def total_costs_def blank_decomposition_def arith zeros)
  then have residual: "pnl_residual (fsub (equity slipped_book) (Fin 10000)) ?d = Fin 250"
    by (simp add: pnl_residual_def book arith)
  have "terms_finite ?d" by (simp add: terms_finite_def blank_decomposition_def)
  then show ?thesis using residual
    by (intro exI [of _ ?d]) (simp add: decompose_period_def is_set_def kNoTimestamp_def charged fsum_def fees slip r(2)
        financing_def default_rates_def zeros arith book held Let_def)
qed

end
