(* ===== verification/Trials.thy ===== *)
theory Trials
  imports WalkForward "HOL-Library.Char_ord" "HOL-Library.List_Lexorder"
begin

text \<open>
  The experiment registry (\<open>experiments/registry.cpp\<close>) and the validation of research trials
  (\<open>research/trial.cpp\<close>). The registry is five SQL tables; an operation is the effect of its statement, and whether a
  statement succeeds is an argument, as SQLite is not part of the program. \<open>erfc\<close> and the logarithm are parameters.
\<close>

section \<open>The registry\<close>

record RunRecord =
  rrc_run_id :: string
  rrc_created_utc :: string
  rrc_git_sha :: string
  rrc_git_dirty :: string
  rrc_config_hash :: string
  rrc_config_canonical :: string
  rrc_data_manifest_sha :: string
  rrc_seed :: "64 word"
  rrc_compiler :: string
  rrc_compiler_version :: string
  rrc_build_type :: string
  rrc_tag :: string
  rrc_status :: string
  rrc_chain_violations :: "64 word"

record TrialRecord =
  trc_trial_id :: int
  trc_run_id :: string
  trc_research_question :: string
  trc_hypothesis :: string
  trc_params_json :: string
  trc_status :: string

record SearchBudget =
  sbu_research_question :: string
  sbu_declared_utc :: string
  sbu_budget :: int
  sbu_used :: int
  sbu_rationale :: string

text \<open>The tables: runs by id with their finishing time, trials, metrics, budgets by question, and holdout unlocks.\<close>

record Registry =
  rgy_runs :: "(string, RunRecord \<times> string option) omap"
  rgy_trials :: "(string \<times> TrialRecord) list"
  rgy_metrics :: "(string \<times> int \<times> string \<times> f64) list"
  rgy_budgets :: "(string, string \<times> int \<times> string) omap"
  rgy_unlocks :: "(string \<times> string \<times> string) list"

datatype registry_error = StatementFailed | JustificationMissing | NotDeterministic "64 word" "64 word"

definition registry_open :: Registry where
  "registry_open = \<lparr>rgy_runs = [], rgy_trials = [], rgy_metrics = [], rgy_budgets = [], rgy_unlocks = []\<rparr>"

definition insert_run :: "bool \<Rightarrow> string \<Rightarrow> RunRecord \<Rightarrow> Registry \<Rightarrow> (registry_error, bool) result \<times> Registry" where
  "insert_run io now r reg =
     (if \<not> io then (Err StatementFailed, reg)
      else (Ok True, reg\<lparr>rgy_runs := om_put (rrc_run_id r)
             (r\<lparr>rrc_created_utc := if rrc_created_utc r = [] then now else rrc_created_utc r\<rparr>, None) (rgy_runs reg)\<rparr>))"

definition finish_run ::
    "bool \<Rightarrow> string \<Rightarrow> string \<Rightarrow> string \<Rightarrow> 64 word \<Rightarrow> Registry \<Rightarrow> (registry_error, bool) result \<times> Registry" where
  "finish_run io now run_id status violations reg =
     (if \<not> io then (Err StatementFailed, reg)
      else (case om_find (rgy_runs reg) run_id of
              None \<Rightarrow> (Ok True, reg)
            | Some (r, finished) \<Rightarrow> (Ok True, reg\<lparr>rgy_runs := om_put run_id
                (r\<lparr>rrc_status := status, rrc_chain_violations := violations\<rparr>, Some now) (rgy_runs reg)\<rparr>)))"

definition find_run :: "bool \<Rightarrow> string \<Rightarrow> Registry \<Rightarrow> (registry_error, RunRecord option) result" where
  "find_run io run_id reg =
     (if \<not> io then Err StatementFailed else Ok (map_option fst (om_find (rgy_runs reg) run_id)))"

definition insert_trial ::
    "bool \<Rightarrow> string \<Rightarrow> TrialRecord \<Rightarrow> Registry \<Rightarrow> (registry_error, int) result \<times> Registry" where
  "insert_trial io now t reg =
     (if \<not> io then (Err StatementFailed, reg)
      else (let row = int (length (rgy_trials reg)) + 1 in
            (Ok row, reg\<lparr>rgy_trials := rgy_trials reg @ [(now, t\<lparr>trc_trial_id := row\<rparr>)]\<rparr>)))"

definition trials_of :: "string \<Rightarrow> Registry \<Rightarrow> int" where
  "trials_of question reg = int (length (filter (\<lambda>(created, t). trc_research_question t = question) (rgy_trials reg)))"

definition trial_count :: "bool \<Rightarrow> string \<Rightarrow> Registry \<Rightarrow> (registry_error, int) result" where
  "trial_count io question reg = (if \<not> io then Err StatementFailed else Ok (trials_of question reg))"

definition declare_budget ::
    "bool \<Rightarrow> string \<Rightarrow> SearchBudget \<Rightarrow> Registry \<Rightarrow> (registry_error, bool) result \<times> Registry" where
  "declare_budget io now b reg =
     (if \<not> io then (Err StatementFailed, reg)
      else (case om_find (rgy_budgets reg) (sbu_research_question b) of
              Some row \<Rightarrow> (Ok False, reg)
            | None \<Rightarrow> (Ok True, reg\<lparr>rgy_budgets := om_put (sbu_research_question b)
                (if sbu_declared_utc b = [] then now else sbu_declared_utc b, sbu_budget b, sbu_rationale b)
                (rgy_budgets reg)\<rparr>)))"

text \<open>Reading a budget runs two statements: the row, and the number of trials used.\<close>

definition get_budget :: "bool \<Rightarrow> bool \<Rightarrow> string \<Rightarrow> Registry \<Rightarrow> (registry_error, SearchBudget option) result" where
  "get_budget io1 io2 question reg =
     (if \<not> io1 then Err StatementFailed
      else (case om_find (rgy_budgets reg) question of
              None \<Rightarrow> Ok None
            | Some (declared, budget, rationale) \<Rightarrow>
                (case trial_count io2 question reg of
                   Inl e \<Rightarrow> Err e
                 | Inr used \<Rightarrow> Ok (Some \<lparr>sbu_research_question = question, sbu_declared_utc = declared,
                     sbu_budget = budget, sbu_used = used, sbu_rationale = rationale\<rparr>))))"

definition budget_exceeded :: "bool \<Rightarrow> bool \<Rightarrow> string \<Rightarrow> Registry \<Rightarrow> (registry_error, bool) result" where
  "budget_exceeded io1 io2 question reg =
     (case get_budget io1 io2 question reg of
        Inl e \<Rightarrow> Err e
      | Inr None \<Rightarrow> Ok False
      | Inr (Some b) \<Rightarrow> Ok (sbu_budget b < sbu_used b))"

text \<open>SQLite binds a NaN as NULL, which the column refuses.\<close>

definition record_metric ::
    "bool \<Rightarrow> string \<Rightarrow> int \<Rightarrow> string \<Rightarrow> f64 \<Rightarrow> Registry \<Rightarrow> (registry_error, bool) result \<times> Registry" where
  "record_metric io run_id trial name v reg =
     (if \<not> io \<or> is_nan v then (Err StatementFailed, reg)
      else (Ok True, reg\<lparr>rgy_metrics := rgy_metrics reg @ [(run_id, trial, name, v)]\<rparr>))"

definition record_holdout_unlock ::
    "bool \<Rightarrow> string \<Rightarrow> string \<Rightarrow> string \<Rightarrow> Registry \<Rightarrow> (registry_error, bool) result \<times> Registry" where
  "record_holdout_unlock io now run_id justification reg =
     (if justification = [] then (Err JustificationMissing, reg)
      else if \<not> io then (Err StatementFailed, reg)
      else (Ok True, reg\<lparr>rgy_unlocks := rgy_unlocks reg @ [(now, run_id, justification)]\<rparr>))"

definition holdout_unlock_count :: "bool \<Rightarrow> Registry \<Rightarrow> (registry_error, int) result" where
  "holdout_unlock_count io reg = (if \<not> io then Err StatementFailed else Ok (int (length (rgy_unlocks reg))))"

section \<open>Trial manifests\<close>

definition hex_digit :: "nat \<Rightarrow> char" where
  "hex_digit n = ''0123456789abcdef'' ! n"

definition hex64 :: "64 word \<Rightarrow> string" where
  "hex64 v = map (\<lambda>k. hex_digit (unat (take_bit 4 (drop_bit (4 * k) v)))) (rev [0..<16])"

abbreviation unit_separator :: char where
  "unit_separator \<equiv> CHR 0x1F"

record TrialManifest =
  tmf_question :: string
  tmf_hypothesis :: string
  tmf_data_version :: "64 word"
  tmf_feature_set_id :: "64 word"
  tmf_label_config_hash :: "64 word"
  tmf_fold_config_hash :: "64 word"
  tmf_model_config_hash :: "64 word"
  tmf_git_sha :: string
  tmf_seed :: "64 word"
  tmf_holdout_boundary :: string
  tmf_parameters :: "(string, string) omap"

definition manifest_field :: "string \<Rightarrow> string \<Rightarrow> string" where
  "manifest_field name v = name @ CHR ''='' # v @ [unit_separator]"

definition canonical :: "TrialManifest \<Rightarrow> string" where
  "canonical m =
     manifest_field ''question'' (tmf_question m) @ manifest_field ''hypothesis'' (tmf_hypothesis m)
     @ manifest_field ''data'' (hex64 (tmf_data_version m)) @ manifest_field ''features'' (hex64 (tmf_feature_set_id m))
     @ manifest_field ''labels'' (hex64 (tmf_label_config_hash m))
     @ manifest_field ''folds'' (hex64 (tmf_fold_config_hash m))
     @ manifest_field ''model'' (hex64 (tmf_model_config_hash m)) @ manifest_field ''git'' (tmf_git_sha m)
     @ manifest_field ''seed'' (dec_string (unat (tmf_seed m)))
     @ manifest_field ''holdout'' (tmf_holdout_boundary m)
     @ concat (map (\<lambda>(k, v). manifest_field k v) (tmf_parameters m))"

definition trial_id :: "TrialManifest \<Rightarrow> 64 word" where
  "trial_id m = fnv1a64 (canonical m)"

definition trial_id_hex :: "TrialManifest \<Rightarrow> string" where
  "trial_id_hex m = hex64 (trial_id m)"

section \<open>Validating research\<close>

datatype ResearchIssueCode = DuplicateTrial | ConfigurationDrift | StaleArtifact | HoldoutContamination
  | LabelFeatureMisalignment | SearchBudgetExceeded | NonDeterministicResult | UndeclaredBudget

fun to_string_ResearchIssueCode :: "ResearchIssueCode \<Rightarrow> string" where
  "to_string_ResearchIssueCode DuplicateTrial = ''duplicate_trial''"
| "to_string_ResearchIssueCode ConfigurationDrift = ''configuration_drift''"
| "to_string_ResearchIssueCode StaleArtifact = ''stale_artifact''"
| "to_string_ResearchIssueCode HoldoutContamination = ''holdout_contamination''"
| "to_string_ResearchIssueCode LabelFeatureMisalignment = ''label_feature_misalignment''"
| "to_string_ResearchIssueCode SearchBudgetExceeded = ''search_budget_exceeded''"
| "to_string_ResearchIssueCode NonDeterministicResult = ''non_deterministic_result''"
| "to_string_ResearchIssueCode UndeclaredBudget = ''undeclared_budget''"

text \<open>An issue keeps its code and whether it is fatal; its detail is text.\<close>

record ResearchIssue =
  rsi_code :: ResearchIssueCode
  rsi_fatal :: bool

record ResearchReport =
  rsr_issues :: "ResearchIssue list"
  rsr_trials_run :: int
  rsr_declared_budget :: int

definition research_fatal_count :: "ResearchReport \<Rightarrow> nat" where
  "research_fatal_count r = length (filter rsi_fatal (rsr_issues r))"

definition research_ok :: "ResearchReport \<Rightarrow> bool" where
  "research_ok r \<longleftrightarrow> research_fatal_count r = 0"

definition warn :: "ResearchIssueCode \<Rightarrow> ResearchReport \<Rightarrow> ResearchReport" where
  "warn code r = r\<lparr>rsr_issues := rsr_issues r @ [\<lparr>rsi_code = code, rsi_fatal = False\<rparr>]\<rparr>"

text \<open>Validation runs up to six statements, in this order; whether the nth succeeds is an argument.\<close>

definition validate_trial :: "(nat \<Rightarrow> bool) \<Rightarrow> TrialManifest \<Rightarrow> Registry \<Rightarrow> (registry_error, ResearchReport) result" where
  "validate_trial io m reg =
     (case trial_count (io 0) (tmf_question m) reg of
        Inl e \<Rightarrow> Err e
      | Inr n \<Rightarrow>
          (case get_budget (io 1) (io 2) (tmf_question m) reg of
             Inl e \<Rightarrow> Err e
           | Inr declared \<Rightarrow>
               (let r0 = \<lparr>rsr_issues = [], rsr_trials_run = n, rsr_declared_budget = 0\<rparr>;
                    r1 = (case declared of
                        None \<Rightarrow> Ok (warn UndeclaredBudget r0)
                      | Some b \<Rightarrow>
                          (case budget_exceeded (io 3) (io 4) (tmf_question m) reg of
                             Inl e \<Rightarrow> Err e
                           | Inr exceeded \<Rightarrow>
                               (let r = r0\<lparr>rsr_declared_budget := sbu_budget b\<rparr> in
                                Ok (if exceeded then warn SearchBudgetExceeded r else r)))) in
                case r1 of
                  Inl e \<Rightarrow> Err e
                | Inr r \<Rightarrow>
                    (case find_run (io 5) (trial_id_hex m) reg of
                       Inl e \<Rightarrow> Err e
                     | Inr existing \<Rightarrow> Ok (if existing \<noteq> None then warn DuplicateTrial r else r)))))"

definition register_trial ::
    "bool \<Rightarrow> bool \<Rightarrow> string \<Rightarrow> TrialManifest \<Rightarrow> string \<Rightarrow> Registry \<Rightarrow> (registry_error, int) result \<times> Registry" where
  "register_trial io1 io2 now m run_id reg =
     (case find_run io1 (trial_id_hex m) reg of
        Inl e \<Rightarrow> (Err e, reg)
      | Inr (Some r) \<Rightarrow> (Ok 0, reg)
      | Inr None \<Rightarrow> insert_trial io2 now \<lparr>trc_trial_id = 0, trc_run_id = run_id, trc_research_question = tmf_question m,
          trc_hypothesis = tmf_hypothesis m, trc_params_json = canonical m, trc_status = ''run''\<rparr> reg)"

definition verify_determinism :: "64 word \<Rightarrow> 64 word \<Rightarrow> (registry_error, bool) result" where
  "verify_determinism a b = (if a = b then Ok True else Err (NotDeterministic a b))"

definition check_artifact_freshness :: "64 word \<Rightarrow> 64 word \<Rightarrow> 64 word \<Rightarrow> 64 word \<Rightarrow> ResearchIssue" where
  "check_artifact_freshness artifact_features current_features artifact_data current_data =
     (if artifact_features \<noteq> current_features then \<lparr>rsi_code = StaleArtifact, rsi_fatal = True\<rparr>
      else if artifact_data \<noteq> current_data then \<lparr>rsi_code = StaleArtifact, rsi_fatal = True\<rparr>
      else \<lparr>rsi_code = StaleArtifact, rsi_fatal = False\<rparr>)"

fun first_mismatch :: "Timestamp list \<Rightarrow> Timestamp list \<Rightarrow> nat \<Rightarrow> nat option" where
  "first_mismatch (a # as) (b # bs) i = (if a \<noteq> b then Some i else first_mismatch as bs (i + 1))"
| "first_mismatch _ _ i = None"

definition check_alignment :: "Timestamp list \<Rightarrow> Timestamp list \<Rightarrow> ResearchIssue" where
  "check_alignment feature_times label_times =
     (if length feature_times \<noteq> length label_times then \<lparr>rsi_code = LabelFeatureMisalignment, rsi_fatal = True\<rparr>
      else (case first_mismatch feature_times label_times 0 of
              Some i \<Rightarrow> \<lparr>rsi_code = LabelFeatureMisalignment, rsi_fatal = True\<rparr>
            | None \<Rightarrow> \<lparr>rsi_code = LabelFeatureMisalignment, rsi_fatal = False\<rparr>))"

section \<open>Deflating a Sharpe ratio\<close>

definition sqrt2 :: f64 where
  "sqrt2 = lit (14142135623730951 / 10 ^ 16)"

definition euler :: f64 where
  "euler = lit (2718281828459045 / 10 ^ 15)"

definition normal_cdf :: "(f64 \<Rightarrow> f64) \<Rightarrow> f64 \<Rightarrow> f64" where
  "normal_cdf ferfc z = fmul (lit (1 / 2)) (ferfc (fdiv (fneg z) sqrt2))"

definition horner :: "f64 list \<Rightarrow> f64 \<Rightarrow> f64" where
  "horner cs x = foldl (\<lambda>acc c. fadd (fmul acc x) c) (hd cs) (tl cs)"

definition quantile_a :: "f64 list" where
  "quantile_a = map lit [- 3969683028665376 / 10 ^ 14, 2209460984245205 / 10 ^ 13, - 2759285104469687 / 10 ^ 13,
     1383577518672690 / 10 ^ 13, - 3066479806614716 / 10 ^ 14, 2506628277459239 / 10 ^ 15]"

definition quantile_b :: "f64 list" where
  "quantile_b = map lit [- 5447609879822406 / 10 ^ 14, 1615858368580409 / 10 ^ 13, - 1556989798598866 / 10 ^ 13,
     6680131188771972 / 10 ^ 14, - 1328068155288572 / 10 ^ 14]"

definition quantile_c :: "f64 list" where
  "quantile_c = map lit [- 7784894002430293 / 10 ^ 18, - 3223964580411365 / 10 ^ 16, - 2400758277161838 / 10 ^ 15,
     - 2549732539343734 / 10 ^ 15, 4374664141464968 / 10 ^ 15, 2938163982698783 / 10 ^ 15]"

definition quantile_d :: "f64 list" where
  "quantile_d = map lit [7784695709041462 / 10 ^ 18, 3224671290700398 / 10 ^ 16, 2445134137142996 / 10 ^ 15,
     3754408661907416 / 10 ^ 15]"

definition normal_quantile :: "(f64 \<Rightarrow> f64) \<Rightarrow> f64 \<Rightarrow> f64" where
  "normal_quantile flog p =
     (let p_low = lit (2425 / 100000);
          tail = (\<lambda>u. let q = fsqrt (fmul (lit (- 2)) (flog u)) in (horner quantile_c q, horner (quantile_d @ [lit 1]) q)) in
      if fle p fzero then lit (- (10 ^ 10))
      else if fle (lit 1) p then lit (10 ^ 10)
      else if flt p p_low then fdiv (fst (tail p)) (snd (tail p))
      else if flt (fsub (lit 1) p_low) p
      then fdiv (fneg (fst (tail (fsub (lit 1) p)))) (snd (tail (fsub (lit 1) p)))
      else
        (let q = fsub p (lit (1 / 2)); r = fmul q q in
         fdiv (fmul (horner quantile_a r) q) (horner (quantile_b @ [lit 1]) r)))"

definition expected_max_sharpe :: "(f64 \<Rightarrow> f64) \<Rightarrow> nat \<Rightarrow> f64 \<Rightarrow> f64" where
  "expected_max_sharpe flog n_trials trial_stdev =
     (if n_trials \<le> 1 then fzero
      else
        (let n = of_int64 (int n_trials); gamma = lit (5772156649015329 / 10 ^ 16);
             z1 = normal_quantile flog (fsub (lit 1) (fdiv (lit 1) n));
             z2 = normal_quantile flog (fsub (lit 1) (fdiv (lit 1) (fmul n euler))) in
         fmul trial_stdev (fadd (fmul (fsub (lit 1) gamma) z1) (fmul gamma z2))))"

definition deflated_sharpe_ratio ::
    "(f64 \<Rightarrow> f64) \<Rightarrow> (f64 \<Rightarrow> f64) \<Rightarrow> f64 \<Rightarrow> nat \<Rightarrow> nat \<Rightarrow> f64 \<Rightarrow> f64 \<Rightarrow> f64 \<Rightarrow> f64" where
  "deflated_sharpe_ratio flog ferfc observed n_trials n_observations skewness kurtosis trial_stdev =
     (if n_observations < 2 then fzero
      else if n_trials \<le> 1 then (if flt fzero observed then lit 1 else fzero)
      else
        (let star = expected_max_sharpe flog n_trials trial_stdev; t = of_int64 (int n_observations);
             denominator = fadd (fsub (lit 1) (fmul skewness observed))
               (fmul (fmul (fdiv (fsub kurtosis (lit 1)) (lit 4)) observed) observed);
             z = fdiv (fmul (fsub observed star) (fsqrt (fsub t (lit 1)))) (fsqrt denominator) in
         if fle denominator fzero \<or> \<not> is_finite denominator then fzero
         else if \<not> is_finite z then fzero
         else normal_cdf ferfc z))"

section \<open>The registry only grows\<close>

text \<open>A statement of the registry that writes, with whether it succeeds and the time it runs at.\<close>

datatype RegistryOp = OpInsertRun bool string RunRecord | OpFinishRun bool string string string "64 word"
  | OpInsertTrial bool string TrialRecord | OpDeclareBudget bool string SearchBudget
  | OpRecordMetric bool string int string f64 | OpRecordUnlock bool string string string
  | OpRegisterTrial bool bool string TrialManifest string

fun registry_step :: "RegistryOp \<Rightarrow> Registry \<Rightarrow> Registry" where
  "registry_step (OpInsertRun io now r) reg = snd (insert_run io now r reg)"
| "registry_step (OpFinishRun io now i status n) reg = snd (finish_run io now i status n reg)"
| "registry_step (OpInsertTrial io now t) reg = snd (insert_trial io now t reg)"
| "registry_step (OpDeclareBudget io now b) reg = snd (declare_budget io now b reg)"
| "registry_step (OpRecordMetric io i t name v) reg = snd (record_metric io i t name v reg)"
| "registry_step (OpRecordUnlock io now i why) reg = snd (record_holdout_unlock io now i why reg)"
| "registry_step (OpRegisterTrial io1 io2 now m i) reg = snd (register_trial io1 io2 now m i reg)"

definition rows_numbered :: "Registry \<Rightarrow> bool" where
  "rows_numbered reg \<longleftrightarrow> map (\<lambda>(now, t). trc_trial_id t) (rgy_trials reg) = map (\<lambda>k. int k + 1) [0..<length (rgy_trials reg)]"

definition registry_ok :: "Registry \<Rightarrow> bool" where
  "registry_ok reg \<longleftrightarrow> om_inv (rgy_runs reg) \<and> om_inv (rgy_budgets reg) \<and> rows_numbered reg
     \<and> list_all (\<lambda>(now, i, why). why \<noteq> []) (rgy_unlocks reg)"

definition registry_grows :: "Registry \<Rightarrow> Registry \<Rightarrow> bool" where
  "registry_grows a b \<longleftrightarrow> (\<exists>ts. rgy_trials b = rgy_trials a @ ts) \<and> (\<exists>us. rgy_unlocks b = rgy_unlocks a @ us)
     \<and> (\<exists>ms. rgy_metrics b = rgy_metrics a @ ms) \<and> om_find (rgy_budgets a) \<subseteq>\<^sub>m om_find (rgy_budgets b)
     \<and> dom (om_find (rgy_runs a)) \<subseteq> dom (om_find (rgy_runs b))"

lemma rows_numbered_snoc: "rows_numbered reg \<Longrightarrow> rows_numbered (snd (insert_trial io now t reg))"
  by (simp add: rows_numbered_def insert_trial_def Let_def)

lemma insert_trial_frame:
  "rgy_runs (snd (insert_trial io now t reg)) = rgy_runs reg" "rgy_budgets (snd (insert_trial io now t reg)) = rgy_budgets reg"
  "rgy_unlocks (snd (insert_trial io now t reg)) = rgy_unlocks reg" "rgy_metrics (snd (insert_trial io now t reg)) = rgy_metrics reg"
  "\<exists>ts. rgy_trials (snd (insert_trial io now t reg)) = rgy_trials reg @ ts"
  by (simp_all add: insert_trial_def Let_def)

lemma register_trial_cases:
  "snd (register_trial io1 io2 now m i reg) = reg \<or> (\<exists>t. snd (register_trial io1 io2 now m i reg) = snd (insert_trial io2 now t reg))"
  by (auto simp: register_trial_def split: sum.splits option.splits)

interpretation registry: stepped registry_step registry_ok
proof unfold_locales
  fix x reg assume ok: "registry_ok reg"
  have insert: "registry_ok (snd (insert_trial io now t reg))" for io now t
    using ok by (simp add: registry_ok_def insert_trial_frame rows_numbered_snoc)
  show "registry_ok (registry_step x reg)"
  proof (cases x)
    case (OpRegisterTrial io1 io2 now m i)
    then show ?thesis using register_trial_cases [of io1 io2 now m i reg] insert ok by auto
  qed (use ok insert in \<open>auto simp: registry_ok_def rows_numbered_def insert_run_def finish_run_def declare_budget_def
      record_metric_def record_holdout_unlock_def intro!: om_inv_put split: option.split\<close>)
qed

lemma registry_grows_step: "registry_grows reg (registry_step x reg)"
proof -
  have insert: "registry_grows reg (snd (insert_trial io now t reg))" for io now t
    by (simp add: registry_grows_def insert_trial_frame)
  show ?thesis
  proof (cases x)
    case (OpRegisterTrial io1 io2 now m i)
    have "registry_grows reg reg" by (simp add: registry_grows_def)
    then have "registry_grows reg (snd (register_trial io1 io2 now m i reg))"
      using register_trial_cases [of io1 io2 now m i reg] insert by (elim disjE exE) (simp_all only:)
    then show ?thesis using OpRegisterTrial by simp
  qed (use insert in \<open>auto simp: registry_grows_def insert_run_def finish_run_def declare_budget_def record_metric_def
      record_holdout_unlock_def map_le_def omap_simps dom_def split: option.split\<close>)
qed

lemma registry_grows_trans: "registry_grows a b \<Longrightarrow> registry_grows b c \<Longrightarrow> registry_grows a c"
  by (clarsimp simp: registry_grows_def) (meson map_le_trans subset_trans)

text \<open>
  The registry only grows. After any statements, succeeding or failing, the trials, the metrics and the holdout
  unlocks are those there were before followed by the new ones, a declared budget is what it was declared to be, no
  run is forgotten, the trials carry the numbers one, two and so on, and every unlock has a justification.
\<close>

theorem the_registry_only_grows:
  "let reg = fold registry_step before registry_open; later = fold registry_step after reg in
   registry_ok reg \<and> registry_ok later \<and> registry_grows reg later"
proof -
  have "registry_ok registry_open" by (simp add: registry_open_def registry_ok_def rows_numbered_def om_inv_empty)
  then have "registry_ok (fold registry_step before registry_open)"
    using registry.run_inv [of registry_open before] by (simp add: registry.run_def)
  moreover from this have "registry_grows (fold registry_step before registry_open)
      (fold registry_step after (fold registry_step before registry_open))"
    using registry.run_ascends [of registry_grows, OF _ registry_grows_trans registry_grows_step]
    by (simp add: registry.run_def registry_grows_def)
  ultimately show ?thesis using registry.run_inv by (simp add: Let_def registry.run_def)
qed

section \<open>What a trial identifier says\<close>

lemma nibble_bit: "bit (take_bit 4 (drop_bit (4 * k) (v :: 64 word))) j \<longleftrightarrow> j < 4 \<and> bit v (4 * k + j)"
  by (auto simp: bit_simps)

lemma hex_digit_inj: "m < 16 \<Longrightarrow> n < 16 \<Longrightarrow> hex_digit m = hex_digit n \<Longrightarrow> m = n"
  using nth_eq_iff_index_eq [of "''0123456789abcdef''" m n] by (simp add: hex_digit_def)

lemma nibble_less: "unat (take_bit 4 (w :: 64 word)) < 16"
  using take_bit_nat_less_exp [of 4 "unat w"] by (simp add: unsigned_take_bit_eq)

lemma hex64_inj [simp]: "hex64 v = hex64 w \<longleftrightarrow> v = w"
proof
  assume e: "hex64 v = hex64 w"
  have nib: "take_bit 4 (drop_bit (4 * k) v) = take_bit 4 (drop_bit (4 * k) w)" if "k < 16" for k
  proof -
    have "hex_digit (unat (take_bit 4 (drop_bit (4 * k) v))) = hex_digit (unat (take_bit 4 (drop_bit (4 * k) w)))"
      using e that by (auto simp: hex64_def)
    then show ?thesis using hex_digit_inj nibble_less word_eq_iff_unsigned by blast
  qed
  show "v = w"
  proof (rule bit_word_eqI)
    fix n assume "n < LENGTH(64)"
    then show "bit v n \<longleftrightarrow> bit w n"
      using nib [of "n div 4"] nibble_bit [of "n div 4" v "n mod 4"] nibble_bit [of "n div 4" w "n mod 4"]
      by simp
  qed
qed simp

definition separator_free :: "string \<Rightarrow> bool" where
  "separator_free s \<longleftrightarrow> unit_separator \<notin> set s"

definition clean_manifest :: "TrialManifest \<Rightarrow> bool" where
  "clean_manifest m \<longleftrightarrow> separator_free (tmf_question m) \<and> separator_free (tmf_hypothesis m)
     \<and> separator_free (tmf_git_sha m) \<and> separator_free (tmf_holdout_boundary m)
     \<and> list_all (\<lambda>(k, v). separator_free k \<and> separator_free v \<and> CHR ''='' \<notin> set k) (tmf_parameters m)"

lemma cut_at: "c \<notin> set a \<Longrightarrow> c \<notin> set b \<Longrightarrow> a @ c # x = b @ c # y \<longleftrightarrow> a = b \<and> x = y"
proof (induction a arbitrary: b)
  case Nil
  then show ?case by (cases b) auto
next
  case (Cons d a)
  then show ?case by (cases b) auto
qed

lemma field_eq:
  "separator_free v \<Longrightarrow> separator_free w \<Longrightarrow> manifest_field n v @ x = manifest_field n w @ y \<longleftrightarrow> v = w \<and> x = y"
  using cut_at [of unit_separator v w x y] by (simp add: manifest_field_def separator_free_def)

lemma separator_free_digits: "list_all is_digit s \<Longrightarrow> separator_free s"
  by (auto simp: separator_free_def list_all_iff is_digit_def)

lemma separator_free_hex [simp]: "separator_free (hex64 v)"
proof -
  have "length ''0123456789abcdef'' = 16" by simp
  then have "hex_digit (unat (take_bit 4 (drop_bit (4 * k) v))) \<in> set ''0123456789abcdef''" for k
    unfolding hex_digit_def using nibble_less [of "drop_bit (4 * k) v"] by (intro nth_mem) linarith
  then have "set (hex64 v) \<subseteq> set ''0123456789abcdef''" by (auto simp: hex64_def)
  moreover have "unit_separator \<notin> set ''0123456789abcdef''" by simp
  ultimately show ?thesis unfolding separator_free_def by blast
qed

lemma separator_free_number [simp]: "separator_free (dec_string n)"
  by (rule separator_free_digits) (simp add: dec_string_digits)

lemma parameters_eq:
  assumes "list_all (\<lambda>(k, v). separator_free k \<and> separator_free v \<and> CHR ''='' \<notin> set k) ps"
    and "list_all (\<lambda>(k, v). separator_free k \<and> separator_free v \<and> CHR ''='' \<notin> set k) qs"
    and "concat (map (\<lambda>(k, v). manifest_field k v) ps) = concat (map (\<lambda>(k, v). manifest_field k v) qs)"
  shows "ps = qs"
  using assms
proof (induction ps arbitrary: qs)
  case Nil
  then show ?case by (cases qs) (auto simp: manifest_field_def split: prod.splits)
next
  case (Cons p ps)
  obtain k v where p: "p = (k, v)" by (cases p)
  with Cons.prems(3) obtain j w qs' where qs: "qs = (j, w) # qs'"
    by (cases qs) (auto simp: manifest_field_def)
  have "k @ CHR ''='' # v @ unit_separator # concat (map (\<lambda>(k, v). manifest_field k v) ps)
      = j @ CHR ''='' # w @ unit_separator # concat (map (\<lambda>(k, v). manifest_field k v) qs')"
    using Cons.prems(3) by (simp add: p qs manifest_field_def)
  moreover have "CHR ''='' \<notin> set k" "CHR ''='' \<notin> set j" "unit_separator \<notin> set v" "unit_separator \<notin> set w"
    using Cons.prems(1,2) by (simp_all add: p qs separator_free_def)
  ultimately have "k = j" "v = w" "concat (map (\<lambda>(k, v). manifest_field k v) ps) = concat (map (\<lambda>(k, v). manifest_field k v) qs')"
    using cut_at by metis+
  then show ?case using Cons by (simp add: p qs)
qed

text \<open>
  C40: The text a trial is identified by says which trial it is. For manifests whose texts hold no separator and whose
  parameter names hold no equals sign, the canonical text is the same exactly when the manifests are: every input of
  the trial is in it, and no two places of it can be confused.
\<close>

theorem canonical_text_identifies_the_trial:
  assumes "clean_manifest a" "clean_manifest b"
  shows "canonical a = canonical b \<longleftrightarrow> a = b"
proof
  assume "canonical a = canonical b"
  moreover have "separator_free (tmf_question a)" "separator_free (tmf_hypothesis a)" "separator_free (tmf_git_sha a)"
      "separator_free (tmf_holdout_boundary a)" "separator_free (tmf_question b)" "separator_free (tmf_hypothesis b)"
      "separator_free (tmf_git_sha b)" "separator_free (tmf_holdout_boundary b)"
    using assms by (simp_all add: clean_manifest_def)
  ultimately have e: "tmf_question a = tmf_question b" "tmf_hypothesis a = tmf_hypothesis b"
      "tmf_data_version a = tmf_data_version b" "tmf_feature_set_id a = tmf_feature_set_id b"
      "tmf_label_config_hash a = tmf_label_config_hash b" "tmf_fold_config_hash a = tmf_fold_config_hash b"
      "tmf_model_config_hash a = tmf_model_config_hash b" "tmf_git_sha a = tmf_git_sha b"
      "dec_string (unat (tmf_seed a)) = dec_string (unat (tmf_seed b))" "tmf_holdout_boundary a = tmf_holdout_boundary b"
    and ps: "concat (map (\<lambda>(k, v). manifest_field k v) (tmf_parameters a)) = concat (map (\<lambda>(k, v). manifest_field k v) (tmf_parameters b))"
    by (simp_all add: canonical_def field_eq)
  have "tmf_parameters a = tmf_parameters b"
    by (rule parameters_eq [OF _ _ ps]) (use assms in \<open>simp_all add: clean_manifest_def\<close>)
  moreover have "tmf_seed a = tmf_seed b" using e(9) by (simp add: word_unat_eq_iff)
  ultimately show "a = b" using e by (cases a; cases b) simp
qed simp

definition sample_manifest :: "64 word \<Rightarrow> TrialManifest" where
  "sample_manifest seed = \<lparr>tmf_question = ''momentum'', tmf_hypothesis = ''trend'', tmf_data_version = 1,
     tmf_feature_set_id = 2, tmf_label_config_hash = 3, tmf_fold_config_hash = 4, tmf_model_config_hash = 5,
     tmf_git_sha = ''deadbeef'', tmf_seed = seed, tmf_holdout_boundary = ''2025'',
     tmf_parameters = [(''depth'', ''3''), (''rate'', ''0.1'')]\<rparr>"

lemma sample_manifest_clean: "clean_manifest (sample_manifest seed)"
  by (simp add: sample_manifest_def clean_manifest_def separator_free_def)

theorem canonical_text_identifies_the_trial_witness:
  "clean_manifest (sample_manifest 42) \<and> clean_manifest (sample_manifest 43)
   \<and> canonical (sample_manifest 42) \<noteq> canonical (sample_manifest 43)"
  using canonical_text_identifies_the_trial [OF sample_manifest_clean sample_manifest_clean, of 42 43]
  by (simp add: sample_manifest_clean) (simp add: sample_manifest_def)

text \<open>
  An equals sign in a parameter name is enough to lose that: the parameter named \<open>a\<close> with value \<open>b=c\<close> and the one
  named \<open>a=b\<close> with value \<open>c\<close> have the same canonical text, so the two trials share their identifier.
\<close>

theorem an_equals_sign_confuses_two_trials:
  "trial_id (m\<lparr>tmf_parameters := [(''a'', ''b=c'')]\<rparr>) = trial_id (m\<lparr>tmf_parameters := [(''a=b'', ''c'')]\<rparr>)"
  by (simp add: trial_id_def canonical_def manifest_field_def)

section \<open>Counting and aligning\<close>

lemma trials_of_insert:
  "trials_of q (snd (insert_trial True now t reg)) = trials_of q reg + (if trc_research_question t = q then 1 else 0)"
  by (simp add: trials_of_def insert_trial_def Let_def)

text \<open>
  A trial is counted never or every time. The check for a repetition looks for a run whose identifier is that of the
  trial, and registering a trial inserts no run: with such a run in the table the trial is not counted at all, and
  without one every repetition of the same manifest counts again.
\<close>

theorem a_trial_counts_never_or_every_time:
  "trials_of (tmf_question m) (((\<lambda>reg. snd (register_trial True True now m run_id reg)) ^^ n) reg)
     = trials_of (tmf_question m) reg
       + (case om_find (rgy_runs reg) (trial_id_hex m) of None \<Rightarrow> int n | Some r \<Rightarrow> 0)"
proof -
  have "rgy_runs (((\<lambda>reg. snd (register_trial True True now m run_id reg)) ^^ n) reg) = rgy_runs reg
    \<and> trials_of (tmf_question m) (((\<lambda>reg. snd (register_trial True True now m run_id reg)) ^^ n) reg)
     = trials_of (tmf_question m) reg
       + (case om_find (rgy_runs reg) (trial_id_hex m) of None \<Rightarrow> int n | Some r \<Rightarrow> 0)"
    by (induction n)
      (auto simp: register_trial_def find_run_def insert_trial_frame trials_of_insert split: option.split)
  then show ?thesis by blast
qed

lemma first_mismatch_None: "length as = length bs \<Longrightarrow> first_mismatch as bs i = None \<longleftrightarrow> as = bs"
  by (induction as bs i rule: first_mismatch.induct) (auto simp: neq_Nil_conv)

text \<open>Features and labels pass the alignment check exactly when their times are the same, row for row.\<close>

theorem alignment_is_equality: "rsi_fatal (check_alignment feature_times label_times) \<longleftrightarrow> feature_times \<noteq> label_times"
  using first_mismatch_None [of feature_times label_times 0]
  by (auto simp: check_alignment_def split: option.split)

end
