(* ===== verification/StrategyCatalogue.thy ===== *)
theory StrategyCatalogue
  imports CivilTime Executor "HOL-Library.Product_Lexorder"
begin

text \<open>
  The strategy catalogue (\<open>src/strategy/registry.cpp\<close>): strategy identifiers, versions and their order,
  parameter schemas, the lifecycle of a registered strategy and the resolution of its dependencies; and the
  factory registry of the engine (\<open>src/engine/strategy.cpp\<close>).

  An identifier is a string that passed \<open>create\<close>. The map of the catalogue is an ordered map from identifier
  and version, so its listings come by name and version. How many characters \<open>std::stod\<close> reads, or that it
  throws, is a parameter: whether a subnormal value is out of range is left open by the C++ standard. The
  depth-first walk over dependencies keeps its explicit stack; the marks are a map in which an absent
  identifier reads as unseen. The JSON texts are not modelled.
\<close>

section \<open>Identifiers and versions\<close>

type_synonym StrategyId = string

datatype catalogue_error = EmptyId | IdTooLong string | UnsafeCharacter char string | EmptyComponent string
  | ComponentNotNumber string | NotThreeComponents string | RequiredEmpty string | NotNumeric string string
  | TrailingCharacters string string | NotBoolean string string | UnknownType string
  | Undeclared string | NotSupplied string | NoStrategyId | ParameterUnnamed | DuplicateParameter string
  | UnsupportedType string string | DefaultFailsSchema string string | DependsOnItself string
  | AlreadyRegistered string | NoSuchStrategy string | RetiredStrategy string | DraftToProduction string
  | DependencyCycle string | UnresolvedDependency string

definition safe_char :: "char \<Rightarrow> bool" where
  "safe_char c \<longleftrightarrow>
     (CHR ''a'' \<le> c \<and> c \<le> CHR ''z'') \<or> (CHR ''A'' \<le> c \<and> c \<le> CHR ''Z'')
     \<or> (CHR ''0'' \<le> c \<and> c \<le> CHR ''9'') \<or> c = CHR ''_'' \<or> c = CHR ''-'' \<or> c = CHR ''.''"

definition strategy_id_create :: "string \<Rightarrow> (catalogue_error, StrategyId) result" where
  "strategy_id_create value =
     (if value = [] then Err EmptyId
      else if 128 < length value then Err (IdTooLong (take 32 value))
      else (case List.find (\<lambda>c. \<not> safe_char c) value of
              Some c \<Rightarrow> Err (UnsafeCharacter c value)
            | None \<Rightarrow> Ok value))"

definition strategy_id_hash :: "StrategyId \<Rightarrow> 64 word" where
  "strategy_id_hash i = hash_bytes (map of_char i) fnv_offset"

datatype StrategyVersion = Version (ver_major: "32 word") (ver_minor: "32 word") (ver_patch: "32 word")

instantiation StrategyVersion :: linorder
begin

definition less_eq_StrategyVersion :: "StrategyVersion \<Rightarrow> StrategyVersion \<Rightarrow> bool" where
  "v \<le> w \<longleftrightarrow> ver_major v < ver_major w \<or> ver_major v = ver_major w \<and>
     (ver_minor v < ver_minor w \<or> ver_minor v = ver_minor w \<and> ver_patch v \<le> ver_patch w)"

definition less_StrategyVersion :: "StrategyVersion \<Rightarrow> StrategyVersion \<Rightarrow> bool" where
  "v < w \<longleftrightarrow> ver_major v < ver_major w \<or> ver_major v = ver_major w \<and>
     (ver_minor v < ver_minor w \<or> ver_minor v = ver_minor w \<and> ver_patch v < ver_patch w)"

instance
  by standard (auto simp: less_eq_StrategyVersion_def less_StrategyVersion_def StrategyVersion.expand)

end

definition compatible_with :: "StrategyVersion \<Rightarrow> StrategyVersion \<Rightarrow> bool" where
  "compatible_with v other \<longleftrightarrow> ver_major v = ver_major other"

text \<open>\<open>std::from_chars\<close> into \<open>uint32_t\<close>, required to use the whole part.\<close>

definition from_chars_u32 :: "string \<Rightarrow> 32 word option" where
  "from_chars_u32 part =
     (case parse_digits 0 part of
        None \<Rightarrow> None
      | Some n \<Rightarrow> if part = [] \<or> 2 ^ 32 \<le> n then None else Some (word_of_int n))"

text \<open>The loop of \<open>parse\<close>: at most three fields, each up to the next dot.\<close>

fun parse_components :: "string \<Rightarrow> nat \<Rightarrow> string \<Rightarrow> (catalogue_error, 32 word list) result" where
  "parse_components text 0 rest = Ok []"
| "parse_components text (Suc n) rest =
     (let part = takeWhile (\<lambda>c. c \<noteq> CHR ''.'') rest; tail = dropWhile (\<lambda>c. c \<noteq> CHR ''.'') rest in
      if part = [] then Err (EmptyComponent text)
      else (case from_chars_u32 part of
              None \<Rightarrow> Err (ComponentNotNumber text)
            | Some v \<Rightarrow>
                if tail = [] then Ok [v]
                else map_sum id (\<lambda>vs. v # vs) (parse_components text n (drop 1 tail))))"

definition version_parse :: "string \<Rightarrow> (catalogue_error, StrategyVersion) result" where
  "version_parse text =
     (case parse_components text 3 text of
        Inl e \<Rightarrow> Err e
      | Inr vs \<Rightarrow> if length vs \<noteq> 3 then Err (NotThreeComponents text) else Ok (Version (vs ! 0) (vs ! 1) (vs ! 2)))"

definition version_to_string :: "StrategyVersion \<Rightarrow> string" where
  "version_to_string v = dec_string (unat (ver_major v)) @ ''.'' @ dec_string (unat (ver_minor v)) @ ''.''
     @ dec_string (unat (ver_patch v))"

section \<open>States\<close>

datatype StrategyState = StDraft | StResearch | StCandidate | StProduction | StDeprecated | StRetired

fun to_string_StrategyState :: "StrategyState \<Rightarrow> string" where
  "to_string_StrategyState StDraft = ''draft''"
| "to_string_StrategyState StResearch = ''research''"
| "to_string_StrategyState StCandidate = ''candidate''"
| "to_string_StrategyState StProduction = ''production''"
| "to_string_StrategyState StDeprecated = ''deprecated''"
| "to_string_StrategyState StRetired = ''retired''"

definition accepts_new_experiments :: "StrategyState \<Rightarrow> bool" where
  "accepts_new_experiments s \<longleftrightarrow> s = StResearch \<or> s = StCandidate \<or> s = StProduction"

section \<open>Parameters\<close>

record ParameterSpec =
  prm_name :: string
  prm_type :: string
  prm_description :: string
  prm_required :: bool
  prm_default :: string

definition is_space :: "char \<Rightarrow> bool" where
  "is_space c \<longleftrightarrow> c \<in> {CHR '' '', CHR 0x09, CHR 0x0A, CHR 0x0B, CHR 0x0C, CHR 0x0D}"

text \<open>How many characters \<open>std::stoll\<close> reads, \<open>None\<close> when it throws.\<close>

definition stoll_consumed :: "string \<Rightarrow> nat option" where
  "stoll_consumed s =
     (let ws = takeWhile is_space s;
          r = dropWhile is_space s;
          sgn_len = (case r of [] \<Rightarrow> 0 | c # _ \<Rightarrow> if c = CHR ''-'' \<or> c = CHR ''+'' then 1 else 0);
          minus = (sgn_len = 1 \<and> hd r = CHR ''-'');
          ds = takeWhile is_digit (drop sgn_len r) in
      if ds = [] then None
      else (case parse_digits 0 ds of
              None \<Rightarrow> None
            | Some n \<Rightarrow>
                let v = (if minus then - n else n) in
                if - (2 ^ 63) \<le> v \<and> v < 2 ^ 63 then Some (length ws + sgn_len + length ds) else None))"

definition validate_value :: "(string \<Rightarrow> nat option) \<Rightarrow> ParameterSpec \<Rightarrow> string \<Rightarrow> (catalogue_error, bool) result" where
  "validate_value stod spec value =
     (if value = [] then (if prm_required spec then Err (RequiredEmpty (prm_name spec)) else Ok True)
      else
        let numeric = (\<lambda>consumed. case consumed of
              None \<Rightarrow> Err (NotNumeric (prm_name spec) value)
            | Some n \<Rightarrow> if n \<noteq> length value then Err (TrailingCharacters (prm_name spec) value) else Ok True) in
        if prm_type spec = ''double'' then numeric (stod value)
        else if prm_type spec = ''int'' then numeric (stoll_consumed value)
        else if prm_type spec = ''bool'' then
          (if value = ''true'' \<or> value = ''false'' then Ok True else Err (NotBoolean (prm_name spec) value))
        else if prm_type spec = ''string'' then Ok True
        else Err (UnknownType (prm_type spec)))"

section \<open>Descriptors\<close>

record StrategyMetadata =
  md_author :: string
  md_description :: string
  md_tags :: "string list"
  md_created_at :: Timestamp
  md_required_data :: "string list"
  md_required_features :: "string list"

record StrategyDescriptor =
  sd_id :: StrategyId
  sd_version :: StrategyVersion
  sd_state :: StrategyState
  sd_metadata :: StrategyMetadata
  sd_parameters :: "ParameterSpec list"
  sd_depends_on :: "StrategyId list"

fun check_supplied ::
    "(string \<Rightarrow> nat option) \<Rightarrow> StrategyDescriptor \<Rightarrow> (string, string) omap \<Rightarrow> (catalogue_error, bool) result" where
  "check_supplied stod d [] = Ok True"
| "check_supplied stod d ((key, value) # rest) =
     (case List.find (\<lambda>spec. prm_name spec = key) (sd_parameters d) of
        None \<Rightarrow> Err (Undeclared key)
      | Some spec \<Rightarrow> (case validate_value stod spec value of
            Inl e \<Rightarrow> Err e
          | Inr _ \<Rightarrow> check_supplied stod d rest))"

definition validate_parameters ::
    "(string \<Rightarrow> nat option) \<Rightarrow> StrategyDescriptor \<Rightarrow> (string, string) omap \<Rightarrow> (catalogue_error, bool) result" where
  "validate_parameters stod d parameters =
     (case check_supplied stod d parameters of
        Inl e \<Rightarrow> Err e
      | Inr _ \<Rightarrow>
          (case List.find (\<lambda>spec. prm_required spec \<and> \<not> om_contains parameters (prm_name spec) \<and> prm_default spec = [])
                  (sd_parameters d) of
             Some spec \<Rightarrow> Err (NotSupplied (prm_name spec))
           | None \<Rightarrow> Ok True))"

definition hash_text :: "string \<Rightarrow> 64 word \<Rightarrow> 64 word" where
  "hash_text s h = hash_bytes (map of_char s) h"

definition fingerprint :: "StrategyDescriptor \<Rightarrow> 64 word" where
  "fingerprint d =
     (let h1 = hash_text (sd_id d) fnv_offset;
          h2 = hash_bytes (bytes_le 4 (uint (ver_major (sd_version d)))) h1;
          h3 = hash_bytes (bytes_le 4 (uint (ver_minor (sd_version d)))) h2;
          h4 = hash_bytes (bytes_le 4 (uint (ver_patch (sd_version d)))) h3;
          h5 = fold (\<lambda>spec h. hash_text (prm_default spec)
                 (hash_bytes [if prm_required spec then 1 else 0]
                   (hash_text (prm_type spec) (hash_text (prm_name spec) h)))) (sd_parameters d) h4 in
      fold hash_text (sd_depends_on d) h5)"

fun check_schema ::
    "(string \<Rightarrow> nat option) \<Rightarrow> string list \<Rightarrow> ParameterSpec list \<Rightarrow> (catalogue_error, bool) result" where
  "check_schema stod seen [] = Ok True"
| "check_schema stod seen (spec # specs) =
     (if prm_name spec = [] then Err ParameterUnnamed
      else if prm_name spec \<in> set seen then Err (DuplicateParameter (prm_name spec))
      else if prm_type spec \<noteq> ''double'' \<and> prm_type spec \<noteq> ''int'' \<and> prm_type spec \<noteq> ''bool'' \<and> prm_type spec \<noteq> ''string''
      then Err (UnsupportedType (prm_name spec) (prm_type spec))
      else if prm_default spec \<noteq> [] \<and> \<not> is_ok (validate_value stod spec (prm_default spec))
      then Err (DefaultFailsSchema (prm_name spec) (prm_default spec))
      else check_schema stod (seen @ [prm_name spec]) specs)"

definition descriptor_validate :: "(string \<Rightarrow> nat option) \<Rightarrow> StrategyDescriptor \<Rightarrow> (catalogue_error, bool) result" where
  "descriptor_validate stod d =
     (if sd_id d = [] then Err NoStrategyId
      else (case check_schema stod [] (sd_parameters d) of
              Inl e \<Rightarrow> Err e
            | Inr _ \<Rightarrow> if sd_id d \<in> set (sd_depends_on d) then Err (DependsOnItself (sd_id d)) else Ok True))"

section \<open>The catalogue\<close>

type_synonym Catalogue = "(StrategyId \<times> StrategyVersion, StrategyDescriptor) omap"

definition register_strategy ::
    "(string \<Rightarrow> nat option) \<Rightarrow> StrategyDescriptor \<Rightarrow> Catalogue \<Rightarrow> (catalogue_error, bool) result \<times> Catalogue" where
  "register_strategy stod d reg =
     (case descriptor_validate stod d of
        Inl e \<Rightarrow> (Err e, reg)
      | Inr _ \<Rightarrow>
          (let key = (sd_id d, sd_version d) in
           if om_contains reg key then (Err (AlreadyRegistered (sd_id d)), reg)
           else (Ok True, om_put key d reg)))"

definition catalogue_find :: "StrategyId \<Rightarrow> StrategyVersion \<Rightarrow> Catalogue \<Rightarrow> StrategyDescriptor option" where
  "catalogue_find i v reg = om_find reg (i, v)"

text \<open>The two scans for the best version: the first of the highest among those that qualify.\<close>

definition better :: "(StrategyDescriptor \<Rightarrow> bool) \<Rightarrow> StrategyId \<Rightarrow> (StrategyId \<times> StrategyVersion) \<times> StrategyDescriptor
    \<Rightarrow> StrategyDescriptor option \<Rightarrow> StrategyDescriptor option" where
  "better ok i = (\<lambda>(key, d) best.
     if fst key \<noteq> i \<or> \<not> ok d then best
     else (case best of None \<Rightarrow> Some d | Some b \<Rightarrow> if sd_version b < sd_version d then Some d else best))"

definition latest :: "StrategyId \<Rightarrow> Catalogue \<Rightarrow> StrategyDescriptor option" where
  "latest i reg = fold (better (\<lambda>d. True) i) reg None"

definition latest_compatible :: "StrategyId \<Rightarrow> StrategyVersion \<Rightarrow> Catalogue \<Rightarrow> StrategyDescriptor option" where
  "latest_compatible i v reg = fold (better (\<lambda>d. compatible_with (sd_version d) v) i) reg None"

fun distinct_ids :: "Catalogue \<Rightarrow> StrategyId list \<Rightarrow> StrategyId list" where
  "distinct_ids [] out = out"
| "distinct_ids ((key, d) # reg) out =
     distinct_ids reg (if out = [] \<or> last out \<noteq> sd_id d then out @ [sd_id d] else out)"

definition catalogue_ids :: "Catalogue \<Rightarrow> StrategyId list" where
  "catalogue_ids reg = distinct_ids reg []"

definition versions_of :: "StrategyId \<Rightarrow> Catalogue \<Rightarrow> StrategyVersion list" where
  "versions_of i reg = map (\<lambda>(key, d). sd_version d) (filter (\<lambda>(key, d). fst key = i) reg)"

definition with_state :: "StrategyState \<Rightarrow> Catalogue \<Rightarrow> StrategyDescriptor list" where
  "with_state s reg = map snd (filter (\<lambda>(key, d). sd_state d = s) reg)"

definition with_tag :: "string \<Rightarrow> Catalogue \<Rightarrow> StrategyDescriptor list" where
  "with_tag tag reg = map snd (filter (\<lambda>(key, d). tag \<in> set (md_tags (sd_metadata d))) reg)"

definition strategy_transition ::
    "StrategyId \<Rightarrow> StrategyVersion \<Rightarrow> StrategyState \<Rightarrow> Catalogue \<Rightarrow> (catalogue_error, bool) result \<times> Catalogue" where
  "strategy_transition i v target reg =
     (case om_find reg (i, v) of
        None \<Rightarrow> (Err (NoSuchStrategy i), reg)
      | Some d \<Rightarrow>
          if sd_state d = target then (Ok True, reg)
          else if sd_state d = StRetired then (Err (RetiredStrategy i), reg)
          else if sd_state d = StDraft \<and> target = StProduction then (Err (DraftToProduction i), reg)
          else (Ok True, om_put (i, v) (d\<lparr>sd_state := target\<rparr>) reg))"

section \<open>Resolving dependencies\<close>

text \<open>A frame of the walk: a descriptor and the index of its next dependency.\<close>

type_synonym frame = "StrategyDescriptor \<times> nat"

datatype dependency_mark = Unseen | Visiting | Done

definition mark_of :: "(StrategyId, dependency_mark) omap \<Rightarrow> StrategyId \<Rightarrow> dependency_mark" where
  "mark_of marks i = (case om_find marks i of None \<Rightarrow> Unseen | Some m \<Rightarrow> m)"

lemma better_result:
  "fold (better ok i) reg best = Some d \<Longrightarrow> best = Some d \<or> (\<exists>v. ((i, v), d) \<in> set reg \<and> ok d)"
  by (induction reg arbitrary: best) (force simp: better_def split: if_splits option.splits)+

text \<open>What is left to do: identifiers of the catalogue not yet marked, then dependencies not yet looked at.\<close>

definition unseen_ids :: "Catalogue \<Rightarrow> (StrategyId, dependency_mark) omap \<Rightarrow> StrategyId set" where
  "unseen_ids reg marks = {i \<in> (fst \<circ> fst) ` set reg. mark_of marks i = Unseen}"

definition frames_left :: "frame list \<Rightarrow> nat" where
  "frames_left stack = sum_list (map (\<lambda>(d, next). Suc (length (sd_depends_on d) - next)) stack)"

lemma mark_of_put: "mark_of (om_put i m marks) j = (if j = i then m else mark_of marks j)"
  by (simp add: mark_of_def omap_simps)

lemma finite_unseen: "finite (unseen_ids reg marks)"
  by (simp add: unseen_ids_def)

lemma unseen_put_subset: "m \<noteq> Unseen \<Longrightarrow> unseen_ids reg (om_put i m marks) \<subseteq> unseen_ids reg marks"
  by (auto simp: unseen_ids_def mark_of_put split: if_splits)

lemma unseen_put_card: "m \<noteq> Unseen \<Longrightarrow> card (unseen_ids reg (om_put i m marks)) \<le> card (unseen_ids reg marks)"
  by (rule card_mono [OF finite_unseen unseen_put_subset])

lemma unseen_put_less:
  assumes "latest i reg = Some d" "mark_of marks i = Unseen"
  shows "card (unseen_ids reg (om_put i Visiting marks)) < card (unseen_ids reg marks)"
proof (rule psubset_card_mono [OF finite_unseen])
  obtain v where "((i, v), d) \<in> set reg"
    using better_result [OF assms(1) [unfolded latest_def]] by auto
  then have "i \<in> (fst \<circ> fst) ` set reg" by force
  then have "i \<in> unseen_ids reg marks" "i \<notin> unseen_ids reg (om_put i Visiting marks)"
    using assms(2) by (auto simp: unseen_ids_def mark_of_put)
  then show "unseen_ids reg (om_put i Visiting marks) \<subset> unseen_ids reg marks"
    using unseen_put_subset [of Visiting reg i marks] by blast
qed

function resolve_loop ::
    "Catalogue \<Rightarrow> frame list \<Rightarrow> (StrategyId, dependency_mark) omap \<Rightarrow> StrategyId list
      \<Rightarrow> (catalogue_error, StrategyId list) result" where
  "resolve_loop reg [] marks ordered = Ok ordered"
| "resolve_loop reg ((d, k) # stack) marks ordered =
     (if k < length (sd_depends_on d) then
        (let dependency = sd_depends_on d ! k; state = mark_of marks dependency in
         if state = Visiting then Err (DependencyCycle dependency)
         else if state = Done then resolve_loop reg ((d, k + 1) # stack) marks ordered
         else (case latest dependency reg of
                 None \<Rightarrow> Err (UnresolvedDependency dependency)
               | Some nx \<Rightarrow>
                   resolve_loop reg ((nx, 0) # (d, k + 1) # stack) (om_put dependency Visiting marks) ordered))
      else resolve_loop reg stack (om_put (sd_id d) Done marks) (ordered @ [sd_id d]))"
  by pat_completeness auto

termination resolve_loop
proof (relation "measures [\<lambda>(reg, stack, marks, ordered). card (unseen_ids reg marks),
    \<lambda>(reg, stack, marks, ordered). frames_left stack]")
  fix reg :: Catalogue and d nx :: StrategyDescriptor and k stack marks and ordered :: "StrategyId list" and x m
  assume "k < length (sd_depends_on d)" "x = sd_depends_on d ! k" "m = mark_of marks x" "m \<noteq> Visiting" "m \<noteq> Done"
    "latest x reg = Some nx"
  then have "card (unseen_ids reg (om_put x Visiting marks)) < card (unseen_ids reg marks)"
    by (intro unseen_put_less) (cases m; simp)+
  then show "((reg, (nx, 0) # (d, k + 1) # stack, om_put x Visiting marks, ordered), reg, (d, k) # stack, marks, ordered)
      \<in> measures [\<lambda>(reg, stack, marks, ordered). card (unseen_ids reg marks),
          \<lambda>(reg, stack, marks, ordered). frames_left stack]" by simp
next
  fix reg :: Catalogue and d :: StrategyDescriptor and k stack marks and ordered :: "StrategyId list"
  show "((reg, stack, om_put (sd_id d) Done marks, ordered @ [sd_id d]), reg, (d, k) # stack, marks, ordered)
      \<in> measures [\<lambda>(reg, stack, marks, ordered). card (unseen_ids reg marks),
          \<lambda>(reg, stack, marks, ordered). frames_left stack]"
    using unseen_put_card [of Done reg "sd_id d" marks] by (auto simp: frames_left_def)
qed (auto simp: frames_left_def)

declare resolve_loop.simps [simp del]

definition resolve_dependencies ::
    "StrategyId \<Rightarrow> StrategyVersion \<Rightarrow> Catalogue \<Rightarrow> (catalogue_error, StrategyId list) result" where
  "resolve_dependencies i v reg =
     (case catalogue_find i v reg of
        None \<Rightarrow> Err (NoSuchStrategy i)
      | Some d \<Rightarrow> resolve_loop reg [(d, 0)] (om_put (sd_id d) Visiting []) [])"

section \<open>The engine's factories\<close>

datatype factory_error = EmptyName | NullFactory | FactoryRegistered string | UnknownStrategy string "string list"
  | FactoryFailed Error

text \<open>A factory of the engine's registry: a function from configuration text, possibly null.\<close>

type_synonym 'r Factories = "(string, string \<Rightarrow> (Error, 'r) result) omap"

definition factory_register ::
    "string \<Rightarrow> (string \<Rightarrow> (Error, 'r) result) option \<Rightarrow> 'r Factories \<Rightarrow> (factory_error, bool) result \<times> 'r Factories" where
  "factory_register name factory fs =
     (if name = [] then (Err EmptyName, fs)
      else (case factory of
              None \<Rightarrow> (Err NullFactory, fs)
            | Some f \<Rightarrow>
                if om_contains fs name then (Err (FactoryRegistered name), fs)
                else (Ok True, om_put name f fs)))"

definition factory_create :: "string \<Rightarrow> string \<Rightarrow> 'r Factories \<Rightarrow> (factory_error, 'r) result" where
  "factory_create name config fs =
     (case om_find fs name of
        None \<Rightarrow> Err (UnknownStrategy name (map fst fs))
      | Some f \<Rightarrow> map_sum FactoryFailed id (f config))"

definition factory_contains :: "string \<Rightarrow> 'r Factories \<Rightarrow> bool" where
  "factory_contains name fs = om_contains fs name"

definition factory_names :: "'r Factories \<Rightarrow> string list" where
  "factory_names fs = map fst fs"

section \<open>Any history of the catalogue\<close>

datatype catalogue_op = RegisterOp StrategyDescriptor | TransitionOp StrategyId StrategyVersion StrategyState

fun catalogue_step :: "(string \<Rightarrow> nat option) \<Rightarrow> catalogue_op \<Rightarrow> Catalogue \<Rightarrow> Catalogue" where
  "catalogue_step stod (RegisterOp d) reg = snd (register_strategy stod d reg)"
| "catalogue_step stod (TransitionOp i v s) reg = snd (strategy_transition i v s reg)"

definition catalogue_ok :: "Catalogue \<Rightarrow> bool" where
  "catalogue_ok reg \<longleftrightarrow> om_inv reg \<and> (\<forall>i v d. om_find reg (i, v) = Some d \<longrightarrow> sd_id d = i \<and> sd_version d = v)"

interpretation cat: stepped "catalogue_step stod" catalogue_ok for stod
proof unfold_locales
  show "catalogue_ok (catalogue_step stod x reg)" if "catalogue_ok reg" for x reg
    using that by (cases x)
      (auto simp: catalogue_ok_def register_strategy_def strategy_transition_def Let_def omap_simps
        split: sum.split option.split)
qed

lemma catalogue_empty_ok [simp]: "catalogue_ok []"
  by (simp add: catalogue_ok_def)

lemma catalogue_ok_in: "catalogue_ok reg \<Longrightarrow> ((i, v), d) \<in> set reg \<Longrightarrow> sd_id d = i \<and> sd_version d = v"
  using om_in_find by (fastforce simp: catalogue_ok_def)

lemma catalogue_step_find:
  assumes "om_find reg (i, v) = Some d"
  shows "\<exists>s. om_find (catalogue_step stod x reg) (i, v) = Some (d\<lparr>sd_state := s\<rparr>)
    \<and> (sd_state d = StRetired \<longrightarrow> s = StRetired) \<and> (sd_state d = StDraft \<longrightarrow> s \<noteq> StProduction)"
proof (cases x)
  case (RegisterOp d')
  then show ?thesis using assms
    by (intro exI [of _ "sd_state d"])
      (auto simp: register_strategy_def om_contains_def Let_def omap_simps split: sum.split)
next
  case (TransitionOp j w t)
  then show ?thesis using assms
    by (intro exI [of _ "if (j, w) = (i, v) \<and> sd_state d \<noteq> StRetired \<and> \<not> (sd_state d = StDraft \<and> t = StProduction)
        then t else sd_state d"])
      (auto simp: strategy_transition_def omap_simps split: option.split)
qed

text \<open>
  A registered strategy stays what was registered. Whatever is registered and moved afterwards, a lookup finds
  the same descriptor but for its state; a retired strategy stays retired, and no single call takes a draft to
  production.
\<close>

theorem registered_strategies_are_permanent:
  "case catalogue_find i v (fold (catalogue_step stod) ops reg) of
     None \<Rightarrow> catalogue_find i v reg = None
   | Some d' \<Rightarrow> (case catalogue_find i v reg of
       None \<Rightarrow> True
     | Some d \<Rightarrow> (\<exists>s. d' = d\<lparr>sd_state := s\<rparr>) \<and> (if sd_state d = StRetired then sd_state d' = StRetired else True)
         \<and> (if length ops = 1 \<and> sd_state d = StDraft then sd_state d' \<noteq> StProduction else True))"
proof -
  have run: "\<exists>s. om_find (fold (catalogue_step stod) ops reg) (i, v) = Some (d\<lparr>sd_state := s\<rparr>)
      \<and> (sd_state d = StRetired \<longrightarrow> s = StRetired)" if "om_find reg (i, v) = Some d" for d
    using that
  proof (induction ops arbitrary: reg d)
    case Nil
    then show ?case by (intro exI [of _ "sd_state d"]) simp
  next
    case (Cons x ops)
    from catalogue_step_find [OF Cons.prems, of stod x] obtain s where
      s: "om_find (catalogue_step stod x reg) (i, v) = Some (d\<lparr>sd_state := s\<rparr>)" "sd_state d = StRetired \<longrightarrow> s = StRetired"
      by blast
    from Cons.IH [OF s(1)] s(2) show ?case by auto
  qed
  have one: "\<exists>s. om_find (fold (catalogue_step stod) ops reg) (i, v) = Some (d\<lparr>sd_state := s\<rparr>) \<and> s \<noteq> StProduction"
    if "om_find reg (i, v) = Some d" "length ops = 1" "sd_state d = StDraft" for d
    using catalogue_step_find [OF that(1), of stod "hd ops"] that(2,3) by (cases ops) auto
  show ?thesis using run one
    by (fastforce simp: catalogue_find_def split: option.split)
qed

section \<open>The latest version\<close>

lemma better_None: "better ok i x best = None \<longleftrightarrow> best = None \<and> \<not> (fst (fst x) = i \<and> ok (snd x))"
  by (cases x) (auto simp: better_def split: option.splits)

lemma better_none: "fold (better ok i) reg best = None \<Longrightarrow> best = None \<and> (\<forall>v d. ((i, v), d) \<in> set reg \<longrightarrow> \<not> ok d)"
proof (induction reg arbitrary: best)
  case (Cons x reg)
  from Cons.IH [of "better ok i x best"] Cons.prems
  have "better ok i x best = None" "\<forall>v d. ((i, v), d) \<in> set reg \<longrightarrow> \<not> ok d" by simp_all
  then show ?case by (auto simp: better_None)
qed simp

lemma better_max:
  "fold (better ok i) reg best = Some b \<Longrightarrow>
     (\<forall>d. best = Some d \<longrightarrow> sd_version d \<le> sd_version b)
     \<and> (\<forall>v d. ((i, v), d) \<in> set reg \<longrightarrow> ok d \<longrightarrow> sd_version d \<le> sd_version b)"
proof (induction reg arbitrary: best)
  case (Cons x reg)
  obtain j v d where x: "x = ((j, v), d)" by (cases x) auto
  let ?c = "better ok i x best"
  from Cons.IH [of ?c] Cons.prems
  have ih: "\<forall>d. ?c = Some d \<longrightarrow> sd_version d \<le> sd_version b"
    "\<forall>v d. ((i, v), d) \<in> set reg \<longrightarrow> ok d \<longrightarrow> sd_version d \<le> sd_version b" by simp_all
  show ?case
  proof (cases "j = i \<and> ok d")
    case True
    then have "\<exists>e. ?c = Some e \<and> sd_version d \<le> sd_version e \<and> (\<forall>d. best = Some d \<longrightarrow> sd_version d \<le> sd_version e)"
      by (cases best) (auto simp: x better_def)
    then obtain e where e: "?c = Some e" "sd_version d \<le> sd_version e" "\<forall>d. best = Some d \<longrightarrow> sd_version d \<le> sd_version e"
      by blast
    then show ?thesis using ih x by (auto intro: order_trans)
  next
    case False
    then show ?thesis using ih by (auto simp: x better_def)
  qed
qed simp

text \<open>
  The latest version is the highest. In every catalogue reached, \<open>latest\<close> answers a registered version of the
  strategy that is at least every registered one in the numeric order of versions, and \<open>latest_compatible\<close> the
  highest of the same major; they answer nothing only when there is none.
\<close>

theorem latest_is_the_highest:
  "let reg = fold (catalogue_step stod) ops [] in
     (case latest i reg of
        None \<Rightarrow> versions_of i reg = []
      | Some b \<Rightarrow> catalogue_find i (sd_version b) reg = Some b \<and> list_all (\<lambda>w. w \<le> sd_version b) (versions_of i reg))
   \<and> (case latest_compatible i v reg of
        None \<Rightarrow> list_all (\<lambda>w. \<not> compatible_with w v) (versions_of i reg)
      | Some b \<Rightarrow> catalogue_find i (sd_version b) reg = Some b \<and> compatible_with (sd_version b) v
          \<and> list_all (\<lambda>w. if compatible_with w v then w \<le> sd_version b else True) (versions_of i reg))"
proof -
  define reg where "reg = fold (catalogue_step stod) ops []"
  have ok: "catalogue_ok reg"
    using cat.run_inv [of "[]" stod ops] by (simp add: reg_def cat.run_def)
  have found: "catalogue_find i (sd_version d) reg = Some d" if "((i, w), d) \<in> set reg" for d w
    using catalogue_ok_in [OF ok that] that ok om_in_find by (auto simp: catalogue_find_def catalogue_ok_def)
  have vs: "set (versions_of i reg) = {sd_version d | d w. ((i, w), d) \<in> set reg}"
    by (force simp: versions_of_def)
  have any: "case fold (better P i) reg None of None \<Rightarrow> \<forall>d w. ((i, w), d) \<in> set reg \<longrightarrow> \<not> P d
      | Some b \<Rightarrow> catalogue_find i (sd_version b) reg = Some b \<and> P b
          \<and> (\<forall>d w. ((i, w), d) \<in> set reg \<longrightarrow> P d \<longrightarrow> sd_version d \<le> sd_version b)" for P
    using better_none [of P i reg None] better_result [of P i reg None] better_max [of P i reg None] found
    by (auto split: option.split)
  have "versions_of i reg = [] \<longleftrightarrow> (\<forall>d w. ((i, w), d) \<notin> set reg)" using vs by (auto simp flip: set_empty)
  then show ?thesis
    using any [of "\<lambda>d. True"] any [of "\<lambda>d. compatible_with (sd_version d) v"]
    unfolding reg_def [symmetric] Let_def latest_def latest_compatible_def list_all_iff vs
    by (auto split: option.splits)
qed

section \<open>Dependencies come first\<close>

text \<open>The descriptor a walk from a root uses for an identifier: the root itself, else the latest version.\<close>

definition desc_of :: "Catalogue \<Rightarrow> StrategyDescriptor \<Rightarrow> StrategyId \<Rightarrow> StrategyDescriptor option" where
  "desc_of reg rt i = (if i = sd_id rt then Some rt else latest i reg)"

definition depends :: "Catalogue \<Rightarrow> StrategyDescriptor \<Rightarrow> StrategyId \<Rightarrow> StrategyId \<Rightarrow> bool" where
  "depends reg rt a b \<longleftrightarrow> (case desc_of reg rt a of None \<Rightarrow> False | Some d \<Rightarrow> b \<in> set (sd_depends_on d))"

definition topological :: "Catalogue \<Rightarrow> StrategyDescriptor \<Rightarrow> StrategyId list \<Rightarrow> bool" where
  "topological reg rt ids \<longleftrightarrow> distinct ids \<and>
     (\<forall>p<length ids. case desc_of reg rt (ids ! p) of None \<Rightarrow> False | Some d \<Rightarrow> set (sd_depends_on d) \<subseteq> set (take p ids))"

fun frames_ok :: "StrategyId list \<Rightarrow> StrategyId option \<Rightarrow> frame list \<Rightarrow> bool" where
  "frames_ok ordered up [] = True"
| "frames_ok ordered up ((d, k) # stack) \<longleftrightarrow>
     set (take k (sd_depends_on d)) \<subseteq> set ordered \<union> set_option up \<and> set_option up \<subseteq> set (sd_depends_on d)
     \<and> frames_ok ordered (Some (sd_id d)) stack"

abbreviation frame_id :: "frame \<Rightarrow> StrategyId" where
  "frame_id fr \<equiv> sd_id (fst fr)"

definition walk_ok ::
    "Catalogue \<Rightarrow> StrategyDescriptor \<Rightarrow> frame list \<Rightarrow> (StrategyId, dependency_mark) omap \<Rightarrow> StrategyId list \<Rightarrow> bool" where
  "walk_ok reg rt stack marks ordered \<longleftrightarrow> topological reg rt ordered
     \<and> (\<forall>i. mark_of marks i = Done \<longleftrightarrow> i \<in> set ordered)
     \<and> (\<forall>i. mark_of marks i = Visiting \<longleftrightarrow> i \<in> frame_id ` set stack)
     \<and> distinct (map frame_id stack) \<and> (\<forall>fr\<in>set stack. desc_of reg rt (frame_id fr) = Some (fst fr))
     \<and> frames_ok ordered None stack \<and> stack \<noteq> [] \<and> fst (last stack) = rt"

lemma frames_ok_snoc: "frames_ok ordered (Some i) stack \<Longrightarrow> frames_ok (ordered @ [i]) None stack"
proof -
  have mono: "frames_ok ordered a st \<Longrightarrow> frames_ok (ordered @ [i]) a st" for a st
    by (induction ordered a st rule: frames_ok.induct) auto
  assume "frames_ok ordered (Some i) stack"
  then show "frames_ok (ordered @ [i]) None stack" by (cases stack) (auto simp: mono)
qed

lemma latest_id: "catalogue_ok reg \<Longrightarrow> latest i reg = Some d \<Longrightarrow> sd_id d = i"
  using better_result [of "\<lambda>d. True" i reg None d] catalogue_ok_in by (auto simp: latest_def)

text \<open>From every frame below to the top one there is a chain of dependencies.\<close>

lemma frames_chain:
  assumes "\<forall>fr\<in>set stack. desc_of reg rt (frame_id fr) = Some (fst fr)" "frames_ok ordered up stack"
  shows "fr \<in> set stack \<Longrightarrow> (depends reg rt)\<^sup>*\<^sup>* (frame_id fr) (frame_id (hd stack))
    \<and> (\<forall>a. up = Some a \<longrightarrow> depends reg rt (frame_id (hd stack)) a)"
  using assms
proof (induction ordered up stack rule: frames_ok.induct)
  case (2 ordered up d k stack)
  have top: "depends reg rt (sd_id d) a" if "up = Some a" for a
    using 2(3,4) that by (auto simp: depends_def)
  show ?case
  proof (cases "fr = (d, k)")
    case False
    with 2 have "(depends reg rt)\<^sup>*\<^sup>* (frame_id fr) (frame_id (hd stack)) \<and> depends reg rt (frame_id (hd stack)) (sd_id d)"
      by auto
    then show ?thesis using top by (auto intro: rtranclp.rtrancl_into_rtrancl)
  qed (use top in auto)
qed simp

text \<open>What a resolution must answer: an order, a real cycle below the root, or a strategy nobody registered.\<close>

definition resolved :: "Catalogue \<Rightarrow> StrategyDescriptor \<Rightarrow> (catalogue_error, StrategyId list) result \<Rightarrow> bool" where
  "resolved reg rt r = (case r of
     Inr ids \<Rightarrow> topological reg rt ids \<and> ids \<noteq> [] \<and> last ids = sd_id rt
   | Inl e \<Rightarrow> (\<exists>x. e = DependencyCycle x \<and> (depends reg rt)\<^sup>*\<^sup>* (sd_id rt) x \<and> (depends reg rt)\<^sup>+\<^sup>+ x x)
       \<or> (\<exists>x. e = UnresolvedDependency x \<and> (depends reg rt)\<^sup>*\<^sup>* (sd_id rt) x \<and> latest x reg = None))"

lemma topological_snoc:
  assumes "topological reg rt ids" "i \<notin> set ids" "desc_of reg rt i = Some d" "set (sd_depends_on d) \<subseteq> set ids"
  shows "topological reg rt (ids @ [i])"
  using assms by (auto simp: topological_def nth_append less_Suc_eq split: option.splits)

lemma walk_visit:
  assumes "walk_ok reg rt ((d, k) # stack) marks ordered" "k < length (sd_depends_on d)"
  shows "(depends reg rt)\<^sup>*\<^sup>* (sd_id rt) (sd_id d)" "depends reg rt (sd_id d) (sd_depends_on d ! k)"
    "sd_depends_on d ! k \<in> frame_id ` set ((d, k) # stack) \<Longrightarrow>
       (depends reg rt)\<^sup>*\<^sup>* (sd_depends_on d ! k) (sd_id d)"
proof -
  let ?st = "(d, k) # stack"
  have w: "\<forall>fr\<in>set ?st. desc_of reg rt (frame_id fr) = Some (fst fr)" "frames_ok ordered None ?st"
    "fst (last ?st) = rt" using assms(1) by (auto simp: walk_ok_def)
  note chain = frames_chain [OF w(1,2)]
  have "last ?st \<in> set ?st" by (rule last_in_set) simp
  from chain [OF this] w(3) show "(depends reg rt)\<^sup>*\<^sup>* (sd_id rt) (sd_id d)" by (simp split: if_splits)
  show "depends reg rt (sd_id d) (sd_depends_on d ! k)" using w(1) assms(2) by (simp add: depends_def)
  assume "sd_depends_on d ! k \<in> frame_id ` set ?st"
  then obtain fr where fr: "sd_depends_on d ! k = frame_id fr" "fr \<in> set ?st" by (rule imageE)
  from chain [OF fr(2)] show "(depends reg rt)\<^sup>*\<^sup>* (sd_depends_on d ! k) (sd_id d)" by (simp add: fr(1))
qed

lemma walk_advance:
  assumes "walk_ok reg rt ((d, k) # stack) marks ordered" "k < length (sd_depends_on d)"
    "mark_of marks (sd_depends_on d ! k) = Done"
  shows "walk_ok reg rt ((d, k + 1) # stack) marks ordered"
  using assms by (auto simp: walk_ok_def take_Suc_conv_app_nth)

lemma walk_push:
  assumes "catalogue_ok reg" "walk_ok reg rt ((d, k) # stack) marks ordered" "k < length (sd_depends_on d)"
    "mark_of marks (sd_depends_on d ! k) = Unseen" "latest (sd_depends_on d ! k) reg = Some nx"
  shows "walk_ok reg rt ((nx, 0) # (d, k + 1) # stack) (om_put (sd_depends_on d ! k) Visiting marks) ordered"
proof -
  have id: "sd_id nx = sd_depends_on d ! k" by (rule latest_id [OF assms(1,5)])
  have w: "mark_of marks (sd_id nx) \<noteq> Visiting" "mark_of marks (sd_id nx) \<noteq> Done" using assms(4) id by simp_all
  then have new: "sd_id nx \<notin> frame_id ` set ((d, k) # stack)" "sd_id nx \<notin> set ordered"
    using assms(2) by (auto simp: walk_ok_def)
  have "last ((d, k) # stack) \<in> set ((d, k) # stack)" by (rule last_in_set) simp
  then have "sd_id nx \<noteq> sd_id rt" using new(1) assms(2) unfolding walk_ok_def by (metis image_eqI)
  then have "desc_of reg rt (sd_id nx) = Some nx" using assms(5) by (simp add: desc_of_def id)
  then show ?thesis
    using assms(2,3) new unfolding walk_ok_def id
    by (auto simp: mark_of_put take_Suc_conv_app_nth id simp del: id [symmetric])
qed

lemma walk_pop:
  assumes "walk_ok reg rt ((d, k) # stack) marks ordered" "\<not> k < length (sd_depends_on d)"
  shows "topological reg rt (ordered @ [sd_id d])"
    "stack \<noteq> [] \<Longrightarrow> walk_ok reg rt stack (om_put (sd_id d) Done marks) (ordered @ [sd_id d])"
    "stack = [] \<Longrightarrow> sd_id d = sd_id rt"
proof -
  have "mark_of marks (sd_id d) = Visiting" using assms(1) by (auto simp: walk_ok_def)
  then have new: "sd_id d \<notin> set ordered" using assms(1) by (metis dependency_mark.distinct(5) walk_ok_def)
  have "set (sd_depends_on d) \<subseteq> set ordered" using assms by (simp add: walk_ok_def)
  then show top: "topological reg rt (ordered @ [sd_id d])"
    using topological_snoc assms(1) new by (auto simp: walk_ok_def)
  show "walk_ok reg rt stack (om_put (sd_id d) Done marks) (ordered @ [sd_id d])" if "stack \<noteq> []"
    using assms(1) that top frames_ok_snoc by (auto simp: walk_ok_def mark_of_put)
  show "stack = [] \<Longrightarrow> sd_id d = sd_id rt" using assms(1) by (simp add: walk_ok_def)
qed

lemma resolve_loop_resolved:
  assumes ok: "catalogue_ok reg"
  shows "walk_ok reg rt stack marks ordered \<Longrightarrow> resolved reg rt (resolve_loop reg stack marks ordered)"
  using ok
proof (induction reg stack marks ordered rule: resolve_loop.induct)
  case (2 reg d k stack marks ordered)
  note IH = 2(1-3) and w = 2(4) and ok = 2(5)
  let ?x = "sd_depends_on d ! k"
  show ?case
  proof (cases "k < length (sd_depends_on d)")
    case True
    note visit = walk_visit [OF w True]
    consider "mark_of marks ?x = Visiting" | "mark_of marks ?x = Done" | "mark_of marks ?x = Unseen"
      by (cases "mark_of marks ?x") auto
    then show ?thesis
    proof cases
      case 1
      then have "?x \<in> frame_id ` set ((d, k) # stack)" using w by (auto simp: walk_ok_def)
      from visit(3) [OF this] visit(1,2) 1 True show ?thesis
        by (subst resolve_loop.simps) (auto simp: resolved_def Let_def)
    next
      case 2
      then have "resolved reg rt (resolve_loop reg ((d, k + 1) # stack) marks ordered)"
        using IH(1) [OF True HOL.refl HOL.refl] walk_advance [OF w True] ok by simp
      then show ?thesis using 2 True by (subst resolve_loop.simps) (simp add: Let_def)
    next
      case 3
      show ?thesis
      proof (cases "latest ?x reg")
        case None
        then show ?thesis using 3 True visit(1,2)
          by (subst resolve_loop.simps) (auto simp: resolved_def Let_def)
      next
        case (Some nx)
        then have "resolved reg rt (resolve_loop reg ((nx, 0) # (d, k + 1) # stack) (om_put ?x Visiting marks) ordered)"
          using IH(2) [OF True HOL.refl HOL.refl] walk_push [OF ok w True 3 Some] ok 3 by simp
        then show ?thesis using 3 True Some by (subst resolve_loop.simps) (simp add: Let_def)
      qed
    qed
  next
    case False
    note pop = walk_pop [OF w False]
    show ?thesis
    proof (cases "stack = []")
      case True
      then show ?thesis using False pop(1,3)
        by (subst resolve_loop.simps) (simp add: resolve_loop.simps(1) resolved_def)
    next
      case more: False
      have "resolved reg rt (resolve_loop reg stack (om_put (sd_id d) Done marks) (ordered @ [sd_id d]))"
        using IH(3) [OF False] pop(2) [OF more] ok by simp
      then show ?thesis using False by (subst resolve_loop.simps) simp
    qed
  qed
qed (simp add: walk_ok_def)

text \<open>
  C31: Dependencies come first. In every catalogue reached, resolving a strategy ends; an order it returns has no
  identifier twice, ends with the strategy itself, and has every dependency before what depends on it. When it
  refuses, the strategy named is really part of a cycle below the root, or really was never registered.
\<close>

theorem dependencies_come_first:
  "let reg = fold (catalogue_step stod) ops []; r = resolve_dependencies i v reg in
     case catalogue_find i v reg of
       None \<Rightarrow> r = Err (NoSuchStrategy i)
     | Some rt \<Rightarrow> sd_id rt = i \<and> (case r of
         Inr ids \<Rightarrow> topological reg rt ids \<and> ids \<noteq> [] \<and> last ids = i
       | Inl e \<Rightarrow> (\<exists>x. e = DependencyCycle x \<and> (depends reg rt)\<^sup>*\<^sup>* i x \<and> (depends reg rt)\<^sup>+\<^sup>+ x x)
           \<or> (\<exists>x. e = UnresolvedDependency x \<and> (depends reg rt)\<^sup>*\<^sup>* i x \<and> latest x reg = None))"
proof -
  define reg where "reg = fold (catalogue_step stod) ops []"
  have ok: "catalogue_ok reg"
    using cat.run_inv [of "[]" stod ops] by (simp add: reg_def cat.run_def)
  have "resolved reg rt (resolve_dependencies i v reg) \<and> sd_id rt = i" if f: "catalogue_find i v reg = Some rt" for rt
  proof -
    have id: "sd_id rt = i" using ok f by (auto simp: catalogue_ok_def catalogue_find_def)
    have "walk_ok reg rt [(rt, 0)] (om_put (sd_id rt) Visiting []) []"
      by (auto simp: walk_ok_def topological_def desc_of_def mark_of_def om_find_Cons split: if_splits)
    from resolve_loop_resolved [OF ok this] show ?thesis by (simp add: resolve_dependencies_def f id)
  qed
  then show ?thesis
    unfolding reg_def [symmetric] Let_def
    by (auto simp: resolved_def resolve_dependencies_def split: option.split)
qed

section \<open>Versions as text\<close>

lemma dec_string_no_dot: "c \<in> set (dec_string n) \<Longrightarrow> c \<noteq> CHR ''.''"
  using dec_string_digits [of n] by (auto simp: list_all_iff is_digit_def)

lemma take_part:
  "takeWhile (\<lambda>c. c \<noteq> CHR ''.'') (dec_string n @ CHR ''.'' # r) = dec_string n"
  "dropWhile (\<lambda>c. c \<noteq> CHR ''.'') (dec_string n @ CHR ''.'' # r) = CHR ''.'' # r"
  "takeWhile (\<lambda>c. c \<noteq> CHR ''.'') (dec_string n) = dec_string n"
  "dropWhile (\<lambda>c. c \<noteq> CHR ''.'') (dec_string n) = []"
  using dec_string_no_dot [of _ n] by (auto simp: takeWhile_append2 dropWhile_append2)

lemma from_chars_dec_string: "from_chars_u32 (dec_string (unat (w :: 32 word))) = Some w"
proof -
  have "int (unat w) < 2 ^ 32" using unsigned_less [of w, where ?'a = int] by simp
  then show ?thesis using dec_string_digits [of "unat w"]
    by (simp add: from_chars_u32_def parse_dec_string)
qed

lemma parse_part:
  "parse_components t (Suc n) (dec_string (unat w) @ CHR ''.'' # r) = map_sum id (\<lambda>vs. w # vs) (parse_components t n r)"
  "parse_components t (Suc n) (dec_string (unat w)) = Ok [w]"
  using dec_string_digits [of "unat w"] by (simp_all add: take_part from_chars_dec_string Let_def)

declare parse_components.simps(2) [simp del]

text \<open>
  A version prints and parses back. But the parser stops after three components: whatever follows a third dot
  is ignored, so \<open>1.2.3.rc1\<close> is read as the version \<open>1.2.3\<close>.
\<close>

theorem version_text_roundtrip:
  "version_parse (version_to_string v) = Ok v \<and> version_parse (version_to_string v @ ''.'' @ junk) = Ok v"
  by (cases v) (simp add: version_parse_def version_to_string_def eval_nat_numeral parse_part)

section \<open>Fingerprints\<close>

lemma hash_text_append: "fold hash_text ts h = hash_bytes (map of_char (concat ts)) h"
  by (induction ts arbitrary: h) (simp_all add: hash_text_def hash_bytes_def)

text \<open>
  Promotion keeps the fingerprint: it does not depend on the state or the metadata. Nor does it depend on where
  one dependency ends and the next begins: the identifiers are hashed one after the other without a separator,
  so two descriptors with different dependencies can have the same fingerprint.
\<close>

theorem fingerprint_ignores:
  "fingerprint (d\<lparr>sd_state := s, sd_metadata := m\<rparr>) = fingerprint d
   \<and> (if concat xs = concat ys
      then fingerprint (d\<lparr>sd_depends_on := xs\<rparr>) = fingerprint (d\<lparr>sd_depends_on := ys\<rparr>) else True)"
  by (simp add: fingerprint_def hash_text_append Let_def)

section \<open>Parameter sets\<close>

definition parameter_fits :: "(string \<Rightarrow> nat option) \<Rightarrow> StrategyDescriptor \<Rightarrow> string \<times> string \<Rightarrow> bool" where
  "parameter_fits stod d = (\<lambda>(key, value).
     case List.find (\<lambda>spec. prm_name spec = key) (sd_parameters d) of
       None \<Rightarrow> False | Some spec \<Rightarrow> is_ok (validate_value stod spec value))"

lemma check_supplied_ok: "is_ok (check_supplied stod d ps) \<longleftrightarrow> list_all (parameter_fits stod d) ps"
proof (induction ps)
  case (Cons p ps)
  have "is_ok (check_supplied stod d (p # ps)) \<longleftrightarrow> parameter_fits stod d p \<and> is_ok (check_supplied stod d ps)"
    by (cases p) (auto simp: parameter_fits_def is_ok_def split: option.split sum.split)
  with Cons show ?case by simp
qed (simp add: is_ok_def)

text \<open>
  A parameter set is accepted exactly when every supplied parameter is declared and its value fits the
  declaration, and every required parameter without a default is supplied.
\<close>

theorem parameters_accepted_iff:
  "is_ok (validate_parameters stod d ps) \<longleftrightarrow> list_all (parameter_fits stod d) ps
     \<and> list_all (\<lambda>spec. \<not> (prm_required spec \<and> prm_default spec = [] \<and> \<not> om_contains ps (prm_name spec)))
         (sd_parameters d)"
proof -
  have "is_ok (validate_parameters stod d ps) \<longleftrightarrow> is_ok (check_supplied stod d ps)
      \<and> List.find (\<lambda>spec. prm_required spec \<and> \<not> om_contains ps (prm_name spec) \<and> prm_default spec = [])
          (sd_parameters d) = None"
    by (auto simp: validate_parameters_def is_ok_def split: sum.splits option.splits)
  then show ?thesis by (auto simp: check_supplied_ok find_None_iff list_all_iff)
qed

end
