(* ===== verification/Health.thy ===== *)
theory Health
  imports Core "HOL-Library.Char_ord" "HOL-Library.List_Lexorder"
begin

text \<open>
  Operations (\<open>ops/health.cpp\<close>, \<open>ops/health.hpp\<close>): the health monitor, the circuit breaker, the watchdog and
  the alert manager. Each of them borrows a clock; where the code reads it, the operation takes the instant
  read as an argument. The monitor is compared with a reference that looks only at the history of reports, the
  breaker is shown to stay shut while it is open, and the alert manager to keep its books and its bounds.
  The JSON texts are left out.
\<close>

section \<open>Health\<close>

datatype HealthStatus = HsHealthy | HsDegraded | HsUnhealthy | HsUnknown

fun to_string_HealthStatus :: "HealthStatus \<Rightarrow> string" where
  "to_string_HealthStatus HsHealthy = ''healthy''"
| "to_string_HealthStatus HsDegraded = ''degraded''"
| "to_string_HealthStatus HsUnhealthy = ''unhealthy''"
| "to_string_HealthStatus HsUnknown = ''unknown''"

fun severity_rank :: "HealthStatus \<Rightarrow> nat" where
  "severity_rank HsHealthy = 0"
| "severity_rank HsDegraded = 1"
| "severity_rank HsUnknown = 2"
| "severity_rank HsUnhealthy = 3"

definition worse_of :: "HealthStatus \<Rightarrow> HealthStatus \<Rightarrow> HealthStatus" where
  "worse_of a b = (if severity_rank b \<le> severity_rank a then a else b)"

record ComponentHealth =
  ch_name :: string
  ch_status :: HealthStatus
  ch_last_report :: Timestamp
  ch_detail :: string
  ch_consecutive_failures :: nat
  ch_critical :: bool

record HealthConfig =
  hc_staleness_timeout :: Duration
  hc_failures_before_unhealthy :: nat

definition default_health :: HealthConfig where
  "default_health = \<lparr>hc_staleness_timeout = 60 * 10 ^ 9, hc_failures_before_unhealthy = 3\<rparr>"

type_synonym Components = "(string, ComponentHealth) omap"

datatype ops_error = EmptyComponentName | ComponentRegistered string | ShuttingDown | NotRunning

definition register_component ::
    "string \<Rightarrow> bool \<Rightarrow> Components \<Rightarrow> (ops_error, bool) result \<times> Components" where
  "register_component name critical cs =
     (if name = [] then (Err EmptyComponentName, cs)
      else if om_contains cs name then (Err (ComponentRegistered name), cs)
      else (Ok True, om_put name \<lparr>ch_name = name, ch_status = HsUnknown, ch_last_report = kNoTimestamp,
        ch_detail = [], ch_consecutive_failures = 0, ch_critical = critical\<rparr> cs))"

definition health_report ::
    "HealthConfig \<Rightarrow> Timestamp \<Rightarrow> string \<Rightarrow> HealthStatus \<Rightarrow> string \<Rightarrow> Components \<Rightarrow> Components" where
  "health_report cfg now name status detail cs =
     (case om_find cs name of
        None \<Rightarrow> cs
      | Some c0 \<Rightarrow>
          (let c1 = c0\<lparr>ch_last_report := now, ch_detail := detail\<rparr> in
           if status = HsHealthy
           then om_put name (c1\<lparr>ch_consecutive_failures := 0, ch_status := HsHealthy\<rparr>) cs
           else (let c2 = c1\<lparr>ch_consecutive_failures := ch_consecutive_failures c1 + 1\<rparr> in
             om_put name (c2\<lparr>ch_status :=
               if status = HsUnhealthy \<or> hc_failures_before_unhealthy cfg \<le> ch_consecutive_failures c2
               then HsUnhealthy else HsDegraded\<rparr>) cs)))"

definition report_healthy :: "HealthConfig \<Rightarrow> Timestamp \<Rightarrow> string \<Rightarrow> Components \<Rightarrow> Components" where
  "report_healthy cfg now name cs = health_report cfg now name HsHealthy [] cs"

definition report_failure :: "HealthConfig \<Rightarrow> Timestamp \<Rightarrow> string \<Rightarrow> string \<Rightarrow> Components \<Rightarrow> Components" where
  "report_failure cfg now name detail cs = health_report cfg now name HsDegraded detail cs"

definition effective_status :: "HealthConfig \<Rightarrow> Timestamp \<Rightarrow> ComponentHealth \<Rightarrow> HealthStatus" where
  "effective_status cfg now c =
     (if \<not> is_set (ch_last_report c) then HsUnknown
      else if is_set now \<and> hc_staleness_timeout cfg < now - ch_last_report c then HsUnknown
      else ch_status c)"

definition status_of :: "HealthConfig \<Rightarrow> Timestamp \<Rightarrow> string \<Rightarrow> Components \<Rightarrow> HealthStatus" where
  "status_of cfg now name cs = (case om_find cs name of None \<Rightarrow> HsUnknown | Some c \<Rightarrow> effective_status cfg now c)"

definition worst_of :: "HealthConfig \<Rightarrow> Timestamp \<Rightarrow> ComponentHealth list \<Rightarrow> HealthStatus" where
  "worst_of cfg now cs = fold (\<lambda>c worst. worse_of worst (effective_status cfg now c)) cs HsHealthy"

definition overall :: "HealthConfig \<Rightarrow> Timestamp \<Rightarrow> Components \<Rightarrow> HealthStatus" where
  "overall cfg now cs = (if cs = [] then HsUnknown else worst_of cfg now (om_values cs))"

definition critical_status :: "HealthConfig \<Rightarrow> Timestamp \<Rightarrow> Components \<Rightarrow> HealthStatus" where
  "critical_status cfg now cs =
     (let criticals = filter ch_critical (om_values cs) in
      if criticals = [] then HsUnknown else worst_of cfg now criticals)"

definition health_trading_permitted :: "HealthConfig \<Rightarrow> Timestamp \<Rightarrow> Components \<Rightarrow> bool" where
  "health_trading_permitted cfg now cs =
     (let status = critical_status cfg now cs in status = HsHealthy \<or> status = HsDegraded)"

definition health_components :: "HealthConfig \<Rightarrow> Timestamp \<Rightarrow> Components \<Rightarrow> ComponentHealth list" where
  "health_components cfg now cs = map (\<lambda>c. c\<lparr>ch_status := effective_status cfg now c\<rparr>) (om_values cs)"

definition unhealthy_components :: "HealthConfig \<Rightarrow> Timestamp \<Rightarrow> Components \<Rightarrow> string list" where
  "unhealthy_components cfg now cs =
     map fst (filter (\<lambda>(name, c). effective_status cfg now c = HsUnhealthy \<or> effective_status cfg now c = HsUnknown) cs)"

section \<open>The circuit breaker\<close>

datatype BreakerState = BrClosed | BrOpen | BrHalfOpen

fun to_string_BreakerState :: "BreakerState \<Rightarrow> string" where
  "to_string_BreakerState BrClosed = ''closed''"
| "to_string_BreakerState BrOpen = ''open''"
| "to_string_BreakerState BrHalfOpen = ''half_open''"

record CircuitBreakerConfig =
  cbc_failure_threshold :: nat
  cbc_rate_threshold :: f64
  cbc_rate_minimum_samples :: nat
  cbc_window :: nat
  cbc_open_duration :: Duration
  cbc_probes_to_close :: nat

definition default_breaker :: CircuitBreakerConfig where
  "default_breaker = \<lparr>cbc_failure_threshold = 5, cbc_rate_threshold = lit (1 / 2), cbc_rate_minimum_samples = 20,
     cbc_window = 100, cbc_open_duration = 30 * 10 ^ 9, cbc_probes_to_close = 3\<rparr>"

record CircuitBreaker =
  cb_name :: string
  cb_state :: BreakerState
  cb_window :: "bool list"
  cb_consecutive_failures :: nat
  cb_probe_successes :: nat
  cb_trips :: nat
  cb_opened_at :: Timestamp

definition new_breaker :: "string \<Rightarrow> CircuitBreaker" where
  "new_breaker name = \<lparr>cb_name = name, cb_state = BrClosed, cb_window = [], cb_consecutive_failures = 0,
     cb_probe_successes = 0, cb_trips = 0, cb_opened_at = kNoTimestamp\<rparr>"

definition breaker_allow :: "CircuitBreakerConfig \<Rightarrow> Timestamp \<Rightarrow> CircuitBreaker \<Rightarrow> bool \<times> CircuitBreaker" where
  "breaker_allow cfg now b =
     (if cb_state b = BrClosed then (True, b)
      else if cb_state b = BrOpen then
        (if is_set (cb_opened_at b) \<and> is_set now \<and> cbc_open_duration cfg \<le> now - cb_opened_at b
         then (True, b\<lparr>cb_state := BrHalfOpen, cb_probe_successes := 0\<rparr>)
         else (False, b))
      else (True, b))"

definition push_sample :: "CircuitBreakerConfig \<Rightarrow> bool \<Rightarrow> bool list \<Rightarrow> bool list" where
  "push_sample cfg x w =
     (let w1 = w @ [x] in if cbc_window cfg < length w1 then tl w1 else w1)"

definition breaker_success :: "CircuitBreakerConfig \<Rightarrow> CircuitBreaker \<Rightarrow> CircuitBreaker" where
  "breaker_success cfg b =
     (let b1 = b\<lparr>cb_consecutive_failures := 0, cb_window := push_sample cfg True (cb_window b)\<rparr> in
      if cb_state b1 = BrHalfOpen then
        (let b2 = b1\<lparr>cb_probe_successes := cb_probe_successes b1 + 1\<rparr> in
         if cbc_probes_to_close cfg \<le> cb_probe_successes b2
         then b2\<lparr>cb_state := BrClosed, cb_window := [], cb_probe_successes := 0\<rparr> else b2)
      else b1)"

definition breaker_trip :: "Timestamp \<Rightarrow> CircuitBreaker \<Rightarrow> CircuitBreaker" where
  "breaker_trip now b =
     b\<lparr>cb_state := BrOpen, cb_opened_at := now, cb_trips := cb_trips b + 1, cb_probe_successes := 0\<rparr>"

definition failure_rate :: "CircuitBreaker \<Rightarrow> f64" where
  "failure_rate b =
     (if cb_window b = [] then fzero
      else fdiv (of_int64 (int (length (filter (\<lambda>x. \<not> x) (cb_window b))))) (of_int64 (int (length (cb_window b)))))"

definition breaker_failure :: "CircuitBreakerConfig \<Rightarrow> Timestamp \<Rightarrow> CircuitBreaker \<Rightarrow> CircuitBreaker" where
  "breaker_failure cfg now b =
     (let b1 = b\<lparr>cb_consecutive_failures := cb_consecutive_failures b + 1,
                 cb_window := push_sample cfg False (cb_window b)\<rparr> in
      if cb_state b1 = BrHalfOpen then breaker_trip now b1
      else if cb_state b1 \<noteq> BrClosed then b1
      else if cbc_failure_threshold cfg \<le> cb_consecutive_failures b1 then breaker_trip now b1
      else if cbc_rate_minimum_samples cfg \<le> length (cb_window b1)
              \<and> fle (cbc_rate_threshold cfg) (failure_rate b1) then breaker_trip now b1
      else b1)"

definition breaker_reset :: "CircuitBreaker \<Rightarrow> CircuitBreaker" where
  "breaker_reset b = b\<lparr>cb_state := BrClosed, cb_window := [], cb_consecutive_failures := 0,
     cb_probe_successes := 0, cb_opened_at := kNoTimestamp\<rparr>"

section \<open>The watchdog\<close>

record Watchdog =
  wd_name :: string
  wd_timeout :: Duration
  wd_last_kick :: Timestamp
  wd_expirations :: nat

definition new_watchdog :: "string \<Rightarrow> Duration \<Rightarrow> Watchdog" where
  "new_watchdog name timeout =
     \<lparr>wd_name = name, wd_timeout = timeout, wd_last_kick = kNoTimestamp, wd_expirations = 0\<rparr>"

definition watchdog_kick :: "Timestamp \<Rightarrow> Watchdog \<Rightarrow> Watchdog" where
  "watchdog_kick now w = w\<lparr>wd_last_kick := now\<rparr>"

definition since_kick :: "Timestamp \<Rightarrow> Watchdog \<Rightarrow> Duration" where
  "since_kick now w =
     (if \<not> is_set (wd_last_kick w) \<or> \<not> is_set now \<or> now < wd_last_kick w then 0 else now - wd_last_kick w)"

definition watchdog_expired :: "Timestamp \<Rightarrow> Watchdog \<Rightarrow> bool" where
  "watchdog_expired now w = (if \<not> is_set (wd_last_kick w) then False else wd_timeout w < since_kick now w)"

definition check_and_count :: "Timestamp \<Rightarrow> Watchdog \<Rightarrow> bool \<times> Watchdog" where
  "check_and_count now w =
     (if \<not> watchdog_expired now w then (False, w)
      else (True, w\<lparr>wd_expirations := wd_expirations w + 1\<rparr>))"

section \<open>Alerts\<close>

datatype AlertSeverity = AlInfo | AlWarning | AlError | AlCritical

fun to_string_AlertSeverity :: "AlertSeverity \<Rightarrow> string" where
  "to_string_AlertSeverity AlInfo = ''info''"
| "to_string_AlertSeverity AlWarning = ''warning''"
| "to_string_AlertSeverity AlError = ''error''"
| "to_string_AlertSeverity AlCritical = ''critical''"

fun alert_rank :: "AlertSeverity \<Rightarrow> nat" where
  "alert_rank AlInfo = 0"
| "alert_rank AlWarning = 1"
| "alert_rank AlError = 2"
| "alert_rank AlCritical = 3"

record Alert =
  alt_key :: string
  alt_severity :: AlertSeverity
  alt_summary :: string
  alt_detail :: string
  alt_raised_at :: Timestamp
  alt_last_seen :: Timestamp
  alt_occurrences :: nat
  alt_resolved :: bool
  alt_resolved_at :: Timestamp

record AlertConfig =
  alc_deduplication_window :: Duration
  alc_max_active :: nat
  alc_max_history :: nat

definition default_alerts :: AlertConfig where
  "default_alerts = \<lparr>alc_deduplication_window = 300 * 10 ^ 9, alc_max_active = 512, alc_max_history = 1024\<rparr>"

record AlertManager =
  alm_active :: "(string, Alert) omap"
  alm_history :: "Alert list"
  alm_raised_total :: nat
  alm_suppressed :: nat

definition new_alerts :: AlertManager where
  "new_alerts = \<lparr>alm_active = [], alm_history = [], alm_raised_total = 0, alm_suppressed = 0\<rparr>"

text \<open>Erasing the first entry until the bound holds leaves the last ones: the ordered map drops the least keys.\<close>

definition drop_front :: "nat \<Rightarrow> 'a list \<Rightarrow> 'a list" where
  "drop_front bound xs = drop (length xs - bound) xs"

definition alert_raise ::
    "AlertConfig \<Rightarrow> Timestamp \<Rightarrow> string \<Rightarrow> AlertSeverity \<Rightarrow> string \<Rightarrow> string \<Rightarrow> AlertManager \<Rightarrow> AlertManager" where
  "alert_raise cfg now key severity summary detail m =
     (if key = [] then m
      else
        (let m1 = m\<lparr>alm_raised_total := alm_raised_total m + 1\<rparr> in
         case om_find (alm_active m1) key of
           Some a0 \<Rightarrow>
             (let a1 = a0\<lparr>alt_occurrences := alt_occurrences a0 + 1, alt_last_seen := now\<rparr>;
                  a2 = (if alert_rank (alt_severity a1) < alert_rank severity
                        then a1\<lparr>alt_severity := severity, alt_summary := summary, alt_detail := detail\<rparr> else a1) in
              m1\<lparr>alm_active := om_put key a2 (alm_active m1), alm_suppressed := alm_suppressed m1 + 1\<rparr>)
         | None \<Rightarrow>
             m1\<lparr>alm_active := drop_front (alc_max_active cfg)
               (om_put key \<lparr>alt_key = key, alt_severity = severity, alt_summary = summary, alt_detail = detail,
                  alt_raised_at = now, alt_last_seen = now, alt_occurrences = 1, alt_resolved = False,
                  alt_resolved_at = kNoTimestamp\<rparr> (alm_active m1))\<rparr>))"

definition alert_resolve :: "AlertConfig \<Rightarrow> Timestamp \<Rightarrow> string \<Rightarrow> AlertManager \<Rightarrow> AlertManager" where
  "alert_resolve cfg now key m =
     (case om_find (alm_active m) key of
        None \<Rightarrow> m
      | Some a0 \<Rightarrow> m\<lparr>alm_active := om_erase key (alm_active m),
          alm_history := drop_front (alc_max_history cfg)
            (alm_history m @ [a0\<lparr>alt_resolved := True, alt_resolved_at := now\<rparr>])\<rparr>)"

definition active_alerts :: "AlertManager \<Rightarrow> Alert list" where
  "active_alerts m = om_values (alm_active m)"

definition alert_find :: "string \<Rightarrow> AlertManager \<Rightarrow> Alert option" where
  "alert_find key m = om_find (alm_active m) key"

definition worst_active :: "AlertManager \<Rightarrow> AlertSeverity option" where
  "worst_active m =
     (if alm_active m = [] then None
      else Some (fold (\<lambda>a worst. if alert_rank worst < alert_rank (alt_severity a) then alt_severity a else worst)
        (om_values (alm_active m)) AlInfo))"

section \<open>Trading follows the reports\<close>

datatype health_op = RegisterComponent string bool | ReportHealth Timestamp string HealthStatus string

fun health_step :: "HealthConfig \<Rightarrow> health_op \<Rightarrow> Components \<Rightarrow> Components" where
  "health_step cfg (RegisterComponent name critical) cs = snd (register_component name critical cs)"
| "health_step cfg (ReportHealth now name status detail) cs = health_report cfg now name status detail cs"

text \<open>The history of a component: whether it is critical, and its reports since it was registered, newest first.\<close>

type_synonym health_record = "bool \<times> (Timestamp \<times> HealthStatus) list"

fun health_note :: "string \<Rightarrow> health_op \<Rightarrow> health_record option \<Rightarrow> health_record option" where
  "health_note n (RegisterComponent name critical) h =
     (if name = n \<and> n \<noteq> [] \<and> h = None then Some (critical, []) else h)"
| "health_note n (ReportHealth now name status detail) h =
     (if name = n then map_option (\<lambda>(critical, rs). (critical, (now, status) # rs)) h else h)"

definition health_record_of :: "string \<Rightarrow> health_op list \<Rightarrow> health_record option" where
  "health_record_of n ops = fold (health_note n) ops None"

text \<open>
  A component can be vouched for when its last report is recent enough and is good, or is a wobble that is not
  yet the configured number of bad reports in a row.
\<close>

fun vouched :: "HealthConfig \<Rightarrow> Timestamp \<Rightarrow> (Timestamp \<times> HealthStatus) list \<Rightarrow> bool" where
  "vouched cfg now [] = False"
| "vouched cfg now ((t, st) # rs) \<longleftrightarrow>
     is_set t \<and> (is_set now \<longrightarrow> now - t \<le> hc_staleness_timeout cfg)
     \<and> (st = HsHealthy \<or> st \<noteq> HsUnhealthy
        \<and> length (takeWhile (\<lambda>r. snd r \<noteq> HsHealthy) ((t, st) # rs)) < hc_failures_before_unhealthy cfg)"

fun reported :: "HealthConfig \<Rightarrow> (Timestamp \<times> HealthStatus) list \<Rightarrow> Timestamp \<times> HealthStatus" where
  "reported cfg [] = (kNoTimestamp, HsUnknown)"
| "reported cfg ((t, st) # rs) = (t,
     if st = HsHealthy then HsHealthy
     else if st = HsUnhealthy \<or> hc_failures_before_unhealthy cfg
               \<le> length (takeWhile (\<lambda>r. snd r \<noteq> HsHealthy) ((t, st) # rs)) then HsUnhealthy
     else HsDegraded)"

definition stands_for :: "HealthConfig \<Rightarrow> ComponentHealth \<Rightarrow> health_record \<Rightarrow> bool" where
  "stands_for cfg c = (\<lambda>(critical, rs). ch_critical c = critical
     \<and> (ch_last_report c, ch_status c) = reported cfg rs
     \<and> ch_consecutive_failures c = length (takeWhile (\<lambda>r. snd r \<noteq> HsHealthy) rs))"

lemma health_step_stands:
  assumes "rel_option (stands_for cfg) (om_find cs n) h"
  shows "rel_option (stands_for cfg) (om_find (health_step cfg x cs) n) (health_note n x h)"
proof (cases x)
  case (RegisterComponent name critical)
  then show ?thesis using assms
    by (cases "om_find cs n"; cases h)
      (auto simp: register_component_def om_contains_def omap_simps stands_for_def)
next
  case (ReportHealth now name status detail)
  then show ?thesis using assms
    by (cases "om_find cs name"; cases "om_find cs n"; cases h)
      (auto simp: health_report_def Let_def omap_simps stands_for_def)
qed

lemma health_run_stands:
  "rel_option (stands_for cfg) (om_find cs n) h \<Longrightarrow>
   rel_option (stands_for cfg) (om_find (fold (health_step cfg) ops cs) n) (fold (health_note n) ops h)"
  by (induction ops arbitrary: cs h) (simp_all add: health_step_stands)

lemma health_step_inv: "om_inv cs \<Longrightarrow> om_inv (health_step cfg x cs)"
  by (cases x) (auto simp: register_component_def health_report_def Let_def split: option.split)

interpretation health: stepped "health_step cfg" om_inv for cfg
  by unfold_locales (rule health_step_inv)

lemma vouched_iff:
  assumes "stands_for cfg c (crit, rs)"
  shows "vouched cfg now rs \<longleftrightarrow> severity_rank (effective_status cfg now c) \<le> 1"
proof (cases rs)
  case Nil
  then show ?thesis using assms by (simp add: stands_for_def effective_status_def is_set_def)
next
  case (Cons r rs')
  then show ?thesis using assms
    by (cases r) (auto simp: stands_for_def effective_status_def)
qed

lemma worse_of_rank: "severity_rank (worse_of a b) = max (severity_rank a) (severity_rank b)"
  by (simp add: worse_of_def)

lemma worst_rank:
  "severity_rank (fold (\<lambda>c worst. worse_of worst (effective_status cfg now c)) cs w) \<le> k \<longleftrightarrow>
     severity_rank w \<le> k \<and> list_all (\<lambda>c. severity_rank (effective_status cfg now c) \<le> k) cs"
  by (induction cs arbitrary: w) (simp_all add: worse_of_rank conj_assoc)

lemma permitted_iff:
  "health_trading_permitted cfg now cs \<longleftrightarrow> (\<exists>c\<in>snd ` set cs. ch_critical c)
     \<and> (\<forall>c\<in>snd ` set cs. ch_critical c \<longrightarrow> severity_rank (effective_status cfg now c) \<le> 1)"
proof -
  have good: "st = HsHealthy \<or> st = HsDegraded \<longleftrightarrow> severity_rank st \<le> 1" for st by (cases st) auto
  show ?thesis
    by (auto simp: health_trading_permitted_def critical_status_def Let_def good worst_of_def worst_rank
        om_values_def filter_empty_conv list_all_iff)
qed

text \<open>
  C32: Trading follows the reports. After any run of registrations and reports, trading is permitted exactly when some
  critical component is registered and every critical component can be vouched for by its own history: it has
  reported within the timeout, its last report is not a failure outright, and its bad reports in a row are fewer
  than the limit. What the other components say does not matter.
\<close>

theorem trading_follows_the_reports:
  "health_trading_permitted cfg now (fold (health_step cfg) ops []) \<longleftrightarrow>
     (\<exists>n rs. health_record_of n ops = Some (True, rs))
   \<and> (\<forall>n. case health_record_of n ops of
        None \<Rightarrow> True | Some (critical, rs) \<Rightarrow> if critical then vouched cfg now rs else True)"
proof -
  define cs where "cs = fold (health_step cfg) ops []"
  have inv: "om_inv cs" using health.run_inv [of "[]" cfg ops] by (simp add: cs_def health.run_def)
  have rel: "rel_option (stands_for cfg) (om_find cs n) (health_record_of n ops)" for n
    unfolding cs_def health_record_of_def by (rule health_run_stands) simp
  have vals: "c \<in> snd ` set cs \<longleftrightarrow> (\<exists>n. om_find cs n = Some c)" for c
    using om_find_in [of cs _ c] om_in_find [OF inv, of _ c] by force
  have one: "(case health_record_of n ops of None \<Rightarrow> True | Some (critical, rs) \<Rightarrow> if critical then vouched cfg now rs else True)
      \<longleftrightarrow> (case om_find cs n of None \<Rightarrow> True | Some c \<Rightarrow> ch_critical c \<longrightarrow> severity_rank (effective_status cfg now c) \<le> 1)" for n
    using rel [of n] vouched_iff [of cfg _ _ _ now]
    by (cases "om_find cs n"; cases "health_record_of n ops") (auto simp: stands_for_def)
  have crit: "(\<exists>rs. health_record_of n ops = Some (True, rs)) \<longleftrightarrow> (case om_find cs n of None \<Rightarrow> False | Some c \<Rightarrow> ch_critical c)" for n
    using rel [of n] by (cases "om_find cs n"; cases "health_record_of n ops") (auto simp: stands_for_def)
  show ?thesis unfolding cs_def [symmetric] permitted_iff one crit
    by (auto simp: vals Bex_def Ball_def split: option.splits)
qed

section \<open>The breaker while it is open\<close>

datatype breaker_op = AllowOp Timestamp | SuccessOp | FailureOp Timestamp | ResetOp

fun breaker_step :: "CircuitBreakerConfig \<Rightarrow> breaker_op \<Rightarrow> CircuitBreaker \<Rightarrow> CircuitBreaker" where
  "breaker_step cfg (AllowOp now) b = snd (breaker_allow cfg now b)"
| "breaker_step cfg SuccessOp b = breaker_success cfg b"
| "breaker_step cfg (FailureOp now) b = breaker_failure cfg now b"
| "breaker_step cfg ResetOp b = breaker_reset b"

text \<open>What a sequence of calls to \<open>allow\<close>, between the other operations, answers.\<close>

fun breaker_answers :: "CircuitBreakerConfig \<Rightarrow> breaker_op list \<Rightarrow> CircuitBreaker \<Rightarrow> bool list" where
  "breaker_answers cfg [] b = []"
| "breaker_answers cfg (x # ops) b =
     (case x of AllowOp now \<Rightarrow> [fst (breaker_allow cfg now b)] | _ \<Rightarrow> [])
     @ breaker_answers cfg ops (breaker_step cfg x b)"

definition breaker_ok :: "CircuitBreakerConfig \<Rightarrow> CircuitBreaker \<Rightarrow> bool" where
  "breaker_ok cfg b \<longleftrightarrow> length (cb_window b) \<le> cbc_window cfg
     \<and> (case cb_state b of
          BrClosed \<Rightarrow> cb_consecutive_failures b = 0 \<or> cb_consecutive_failures b < cbc_failure_threshold cfg
        | BrOpen \<Rightarrow> 0 < cb_trips b
        | BrHalfOpen \<Rightarrow> 0 < cb_trips b
            \<and> (cb_probe_successes b = 0 \<or> cb_probe_successes b < cbc_probes_to_close cfg))"

lemma push_sample_length: "length w \<le> cbc_window cfg \<Longrightarrow> length (push_sample cfg x w) \<le> cbc_window cfg"
  by (simp add: push_sample_def Let_def)

interpretation breaker: stepped "breaker_step cfg" "breaker_ok cfg" for cfg
proof unfold_locales
  show "breaker_ok cfg (breaker_step cfg x b)" if "breaker_ok cfg b" for x b
    using that push_sample_length [of "cb_window b" cfg]
    by (cases x; cases "cb_state b")
      (auto simp: breaker_ok_def breaker_allow_def breaker_success_def breaker_failure_def breaker_trip_def
        breaker_reset_def Let_def)
qed

lemma breaker_name_step: "cb_name (breaker_step cfg x b) = cb_name b"
  by (cases x) (auto simp: breaker_allow_def breaker_success_def breaker_failure_def breaker_trip_def
      breaker_reset_def Let_def)

lemma open_step:
  assumes "cb_state b = BrOpen"
    and "case x of AllowOp t \<Rightarrow> t < cb_opened_at b + cbc_open_duration cfg | ResetOp \<Rightarrow> False | _ \<Rightarrow> True"
  shows "cb_state (breaker_step cfg x b) = BrOpen" "cb_opened_at (breaker_step cfg x b) = cb_opened_at b"
    "cb_trips (breaker_step cfg x b) = cb_trips b"
    "case x of AllowOp t \<Rightarrow> \<not> fst (breaker_allow cfg t b) | _ \<Rightarrow> True"
  using assms
  by (cases x; simp add: breaker_allow_def breaker_success_def breaker_failure_def Let_def)+

text \<open>
  An open breaker lets nothing through. Until its open duration has passed, and unless it is reset by hand, every
  call to \<open>allow\<close> is refused whatever successes and failures are recorded in between, and the breaker stays open
  since the same instant with the same number of trips.
\<close>

theorem an_open_breaker_lets_nothing_through:
  assumes "cb_state b = BrOpen"
    and "list_all (\<lambda>x. case x of AllowOp t \<Rightarrow> t < cb_opened_at b + cbc_open_duration cfg
       | ResetOp \<Rightarrow> False | _ \<Rightarrow> True) ops"
  shows "list_all Not (breaker_answers cfg ops b)
    \<and> cb_state (fold (breaker_step cfg) ops b) = BrOpen
    \<and> cb_opened_at (fold (breaker_step cfg) ops b) = cb_opened_at b
    \<and> cb_trips (fold (breaker_step cfg) ops b) = cb_trips b"
  using assms
proof (induction ops arbitrary: b)
  case (Cons x ops)
  then have x: "case x of AllowOp t \<Rightarrow> t < cb_opened_at b + cbc_open_duration cfg | ResetOp \<Rightarrow> False | _ \<Rightarrow> True"
    by simp
  note st = open_step [OF Cons.prems(1) x]
  from Cons.IH [of "breaker_step cfg x b"] st Cons.prems(2) show ?case by (cases x) simp_all
qed simp

definition tripped_breaker :: CircuitBreaker where
  "tripped_breaker = fold (breaker_step default_breaker) (replicate 5 (FailureOp 1000)) (new_breaker ''venue'')"

lemma of_int64_small: "\<bar>n\<bar> \<le> 2 ^ 53 \<Longrightarrow> fin (of_int64 n) \<and> val (of_int64 n) = of_int n"
  using lit_int_exact [of "of_int n"] by (simp add: of_int64_def)

theorem an_open_breaker_lets_nothing_through_witness:
  "breaker_answers default_breaker [AllowOp 2000, SuccessOp, AllowOp 3000] tripped_breaker = [False, False]
    \<and> list_all Not (breaker_answers default_breaker [AllowOp 2000, SuccessOp, AllowOp 3000] tripped_breaker)"
proof -
  have b: "cb_state tripped_breaker = BrOpen" "cb_opened_at tripped_breaker = 1000"
    by (simp_all add: tripped_breaker_def eval_nat_numeral breaker_failure_def new_breaker_def default_breaker_def
        push_sample_def breaker_trip_def Let_def)
  have "list_all Not (breaker_answers default_breaker [AllowOp 2000, SuccessOp, AllowOp 3000] tripped_breaker)"
    using an_open_breaker_lets_nothing_through [of tripped_breaker default_breaker
        "[AllowOp 2000, SuccessOp, AllowOp 3000]"] b by (simp add: default_breaker_def)
  then show ?thesis by simp
qed

section \<open>Alerts keep their books\<close>

datatype alert_op = RaiseOp Timestamp string AlertSeverity string string | ResolveOp Timestamp string

fun alert_step :: "AlertConfig \<Rightarrow> alert_op \<Rightarrow> AlertManager \<Rightarrow> AlertManager" where
  "alert_step cfg (RaiseOp now key severity summary detail) m = alert_raise cfg now key severity summary detail m"
| "alert_step cfg (ResolveOp now key) m = alert_resolve cfg now key m"

definition alerts_ok :: "AlertConfig \<Rightarrow> AlertManager \<Rightarrow> bool" where
  "alerts_ok cfg m \<longleftrightarrow> om_inv (alm_active m)
     \<and> length (alm_active m) \<le> alc_max_active cfg \<and> length (alm_history m) \<le> alc_max_history cfg
     \<and> alm_suppressed m \<le> alm_raised_total m
     \<and> list_all (\<lambda>(k, a). alt_key a = k \<and> k \<noteq> [] \<and> 1 \<le> alt_occurrences a \<and> \<not> alt_resolved a) (alm_active m)
     \<and> list_all alt_resolved (alm_history m)"

lemma drop_front_props:
  "length (drop_front n xs) \<le> n" "set (drop_front n xs) \<subseteq> set xs" "length xs \<le> n \<Longrightarrow> drop_front n xs = xs"
  by (auto simp: drop_front_def dest: in_set_dropD)

lemma om_inv_drop_front: "om_inv m \<Longrightarrow> om_inv (drop_front n m)"
  by (simp add: om_inv_def drop_front_def drop_map [symmetric] sorted_wrt_drop)

lemma om_put_length:
  "om_inv m \<Longrightarrow> length (om_put k v m) = (if om_contains m k then length m else Suc (length m))"
proof (induction k v m rule: om_put.induct)
  case (2 k v j w m)
  have "k < j \<Longrightarrow> om_find m k = None"
    using 2(2) om_find_in [of m k] by (cases "om_find m k") force+
  then show ?case using 2 by (auto simp: om_contains_def om_find_Cons)
qed (simp add: om_contains_def)

lemma list_all_put:
  assumes "om_inv m" "list_all (\<lambda>(k, a). P k a) m" "P k a"
  shows "list_all (\<lambda>(k, a). P k a) (om_put k a m)"
  using assms by (auto simp: list_all_iff om_in_put split: if_splits)

lemma list_all_drop_front: "list_all P xs \<Longrightarrow> list_all P (drop_front n xs)"
  using drop_front_props(2) [of n xs] by (auto simp: list_all_iff)

definition alert_entry_ok :: "string \<Rightarrow> Alert \<Rightarrow> bool" where
  "alert_entry_ok k a \<longleftrightarrow> alt_key a = k \<and> k \<noteq> [] \<and> 1 \<le> alt_occurrences a \<and> \<not> alt_resolved a"

lemma alerts_ok_alt:
  "alerts_ok cfg m \<longleftrightarrow> om_inv (alm_active m)
     \<and> length (alm_active m) \<le> alc_max_active cfg \<and> length (alm_history m) \<le> alc_max_history cfg
     \<and> alm_suppressed m \<le> alm_raised_total m
     \<and> list_all (\<lambda>(k, a). alert_entry_ok k a) (alm_active m) \<and> list_all alt_resolved (alm_history m)"
  by (simp add: alerts_ok_def alert_entry_ok_def)

lemma alert_raise_ok:
  assumes ok: "alerts_ok cfg m"
  shows "alerts_ok cfg (alert_raise cfg now key severity summary detail m)"
proof (cases "om_find (alm_active m) key")
  case (Some a0)
  then have "alert_entry_ok key a0" using ok om_find_in [OF Some] by (auto simp: alerts_ok_alt list_all_iff)
  moreover from Some have "om_contains (alm_active m) key" by (simp add: om_contains_def)
  ultimately show ?thesis using ok Some
    by (simp add: alert_raise_def Let_def alerts_ok_alt om_put_length om_inv_put list_all_put alert_entry_ok_def)
next
  case None
  then show ?thesis using ok
    by (simp add: alert_raise_def Let_def alerts_ok_alt alert_entry_ok_def drop_front_props om_inv_drop_front
        om_inv_put list_all_drop_front list_all_put)
qed

lemma alert_resolve_ok:
  assumes ok: "alerts_ok cfg m"
  shows "alerts_ok cfg (alert_resolve cfg now key m)"
proof -
  have "length (om_erase key (alm_active m)) \<le> length (alm_active m)"
    "list_all (\<lambda>(k, a). alert_entry_ok k a) (om_erase key (alm_active m))"
    using ok by (auto simp: om_erase_def alerts_ok_alt list_all_iff)
  then show ?thesis using ok
    by (auto simp: alert_resolve_def alerts_ok_alt drop_front_props list_all_drop_front om_inv_erase
        split: option.split)
qed

interpretation alerts: stepped "alert_step cfg" "alerts_ok cfg" for cfg
proof unfold_locales
  show "alerts_ok cfg (alert_step cfg x m)" if "alerts_ok cfg m" for x m
    using that by (cases x) (simp_all add: alert_raise_ok alert_resolve_ok)
qed

lemma alert_step_count:
  "alm_raised_total (alert_step cfg x m) = alm_raised_total m
     + (case x of RaiseOp _ key _ _ _ \<Rightarrow> if key = [] then 0 else 1 | ResolveOp _ _ \<Rightarrow> 0)"
  by (cases x) (auto simp: alert_raise_def alert_resolve_def Let_def split: option.split)

text \<open>
  Alerts keep their books and their bounds. After any run the active alerts stand in key order under their own
  keys, unresolved, at most the configured number; the history holds only resolved ones, at most the configured
  number; and every raise with a key is counted, the suppressed repeats among them.
\<close>

theorem alerts_keep_their_books:
  "alerts_ok cfg (fold (alert_step cfg) ops new_alerts)
   \<and> alm_raised_total (fold (alert_step cfg) ops new_alerts)
      = length (filter (\<lambda>x. case x of RaiseOp _ key _ _ _ \<Rightarrow> key \<noteq> [] | ResolveOp _ _ \<Rightarrow> False) ops)"
proof -
  have "alerts_ok cfg new_alerts" by (simp add: alerts_ok_def new_alerts_def)
  moreover have "alm_raised_total (fold (alert_step cfg) ops m) = alm_raised_total m
      + length (filter (\<lambda>x. case x of RaiseOp _ key _ _ _ \<Rightarrow> key \<noteq> [] | ResolveOp _ _ \<Rightarrow> False) ops)" for m
    by (induction ops arbitrary: m) (auto simp: alert_step_count split: alert_op.split)
  ultimately show ?thesis using alerts.run_inv [of cfg new_alerts ops] by (simp add: alerts.run_def new_alerts_def)
qed

text \<open>
  A full manager may drop the alert just raised. The entry erased is the one with the least key, not the oldest:
  with the bound reached, an alert whose key comes first is not there after it is raised, however severe.
\<close>

theorem new_alert_may_vanish:
  "let m' = alert_raise cfg now key severity summary detail m in
   if length (alm_active m) = alc_max_active cfg \<and> list_all (\<lambda>(k, a). key < k) (alm_active m)
   then alm_active m' = alm_active m else True"
proof -
  have "om_find (alm_active m) key = None" if "list_all (\<lambda>(k, a). key < k) (alm_active m)"
    using that om_find_in [of "alm_active m" key] by (cases "om_find (alm_active m) key") (auto simp: list_all_iff)
  moreover have "om_put key a xs = (key, a) # xs" if "list_all (\<lambda>(k, a). key < k) xs" for xs :: "(string, Alert) omap" and a
    using that by (cases xs) auto
  ultimately show ?thesis by (auto simp: alert_raise_def drop_front_def Let_def)
qed

end
