(* ===== verification/Monitoring.thy ===== *)
theory Monitoring
  imports Health Engine AlgoSchedule
begin

text \<open>
  Metrics and diagnostics (\<open>ops/metrics.cpp\<close>, \<open>ops/diagnostics.cpp\<close>): the latency histogram and the metric
  registry, the resource monitor behind its reader, the validation of risk limits and credentials, the snapshot of
  the running system, and the service supervisor. Reading \<open>/proc\<close> and the JSON and describe texts are left out; an
  issue keeps its severity and its field.
\<close>

section \<open>Latency histograms\<close>

datatype MetricKind = MetricCounter | MetricGauge | MetricHistogram

fun to_string_MetricKind :: "MetricKind \<Rightarrow> string" where
  "to_string_MetricKind MetricCounter = ''counter''"
| "to_string_MetricKind MetricGauge = ''gauge''"
| "to_string_MetricKind MetricHistogram = ''histogram''"

definition kBuckets :: nat where
  "kBuckets = 12"

fun bounds_from :: "nat \<Rightarrow> f64 \<Rightarrow> f64 list" where
  "bounds_from 0 bound = []"
| "bounds_from (Suc n) bound = bound # bounds_from n (fmul bound (lit (31622776601683795 / 10 ^ 16)))"

definition bucket_bounds :: "f64 list" where
  "bucket_bounds = bounds_from kBuckets (lit 1)"

record LatencyHistogram =
  lh_counts :: "64 word list"
  lh_count :: nat
  lh_sum :: f64
  lh_max :: f64
  lh_min :: f64

definition new_histogram :: LatencyHistogram where
  "new_histogram = \<lparr>lh_counts = replicate kBuckets 0, lh_count = 0, lh_sum = fzero, lh_max = fzero, lh_min = PInf\<rparr>"

fun first_bucket :: "f64 \<Rightarrow> f64 list \<Rightarrow> nat \<Rightarrow> nat option" where
  "first_bucket micros [] i = None"
| "first_bucket micros (b # bs) i = (if fle micros b then Some i else first_bucket micros bs (i + 1))"

definition bucket_of :: "f64 \<Rightarrow> nat" where
  "bucket_of micros = (case first_bucket micros bucket_bounds 0 of None \<Rightarrow> kBuckets - 1 | Some i \<Rightarrow> i)"

definition record_micros :: "f64 \<Rightarrow> LatencyHistogram \<Rightarrow> LatencyHistogram" where
  "record_micros micros h =
     (if \<not> is_finite micros \<or> flt micros fzero then h
      else
        (let i = bucket_of micros in
         h\<lparr>lh_count := lh_count h + 1, lh_sum := fadd (lh_sum h) micros, lh_max := fmax (lh_max h) micros,
           lh_min := fmin (lh_min h) micros, lh_counts := (lh_counts h)[i := lh_counts h ! i + 1]\<rparr>))"

definition record_latency :: "Duration \<Rightarrow> LatencyHistogram \<Rightarrow> LatencyHistogram" where
  "record_latency d h = record_micros (fdiv (of_int64 d) (lit 1000)) h"

definition mean_micros :: "LatencyHistogram \<Rightarrow> f64" where
  "mean_micros h = (if lh_count h = 0 then fzero else fdiv (lh_sum h) (of_int64 (int (lh_count h))))"

definition min_micros :: "LatencyHistogram \<Rightarrow> f64" where
  "min_micros h = (if lh_count h = 0 then fzero else lh_min h)"

fun quantile_loop :: "f64 \<Rightarrow> 64 word \<Rightarrow> f64 \<Rightarrow> (f64 \<times> 64 word) list \<Rightarrow> f64 \<Rightarrow> f64" where
  "quantile_loop target cumulative lower [] largest = largest"
| "quantile_loop target cumulative lower ((upper, k) # bs) largest =
     (let cumulative1 = cumulative + k;
          total_so_far = of_int64 (uint cumulative1);
          in_bucket = of_int64 (uint k) in
      if fle target total_so_far then
        (if fle in_bucket fzero then upper
         else (let before = fsub total_so_far in_bucket; fraction = fdiv (fsub target before) in_bucket in
               fadd lower (fmul (fsub upper lower) (fclamp fraction fzero (lit 1)))))
      else quantile_loop target cumulative1 upper bs largest)"

definition quantile_micros :: "f64 \<Rightarrow> LatencyHistogram \<Rightarrow> f64" where
  "quantile_micros q h =
     (if lh_count h = 0 \<or> \<not> is_finite q then fzero
      else quantile_loop (fmul (fclamp q fzero (lit 1)) (of_int64 (int (lh_count h)))) 0 fzero
             (zip bucket_bounds (lh_counts h)) (lh_max h))"

definition histogram_reset :: "LatencyHistogram \<Rightarrow> LatencyHistogram" where
  "histogram_reset h = new_histogram"

section \<open>The metric registry\<close>

record MetricsRegistry =
  mr_counters :: "(string, 64 word) omap"
  mr_gauges :: "(string, f64) omap"
  mr_histograms :: "(string, LatencyHistogram) omap"

definition new_metrics :: MetricsRegistry where
  "new_metrics = \<lparr>mr_counters = [], mr_gauges = [], mr_histograms = []\<rparr>"

definition metric_counter :: "string \<Rightarrow> MetricsRegistry \<Rightarrow> 64 word" where
  "metric_counter name m = (case om_find (mr_counters m) name of None \<Rightarrow> 0 | Some n \<Rightarrow> n)"

definition metric_increment :: "string \<Rightarrow> 64 word \<Rightarrow> MetricsRegistry \<Rightarrow> MetricsRegistry" where
  "metric_increment name k m =
     (case om_find (mr_counters m) name of
        None \<Rightarrow> m\<lparr>mr_counters := om_put name k (mr_counters m)\<rparr>
      | Some n \<Rightarrow> m\<lparr>mr_counters := om_put name (n + k) (mr_counters m)\<rparr>)"

definition set_gauge :: "string \<Rightarrow> f64 \<Rightarrow> MetricsRegistry \<Rightarrow> MetricsRegistry" where
  "set_gauge name v m = (if \<not> is_finite v then m else m\<lparr>mr_gauges := om_put name v (mr_gauges m)\<rparr>)"

definition metric_gauge :: "string \<Rightarrow> MetricsRegistry \<Rightarrow> f64" where
  "metric_gauge name m = (case om_find (mr_gauges m) name of None \<Rightarrow> fzero | Some v \<Rightarrow> v)"

definition observe_micros :: "string \<Rightarrow> f64 \<Rightarrow> MetricsRegistry \<Rightarrow> MetricsRegistry" where
  "observe_micros name micros m =
     (case om_find (mr_histograms m) name of
        None \<Rightarrow> m\<lparr>mr_histograms := om_put name (record_micros micros new_histogram) (mr_histograms m)\<rparr>
      | Some h \<Rightarrow> m\<lparr>mr_histograms := om_put name (record_micros micros h) (mr_histograms m)\<rparr>)"

definition observe_latency :: "string \<Rightarrow> Duration \<Rightarrow> MetricsRegistry \<Rightarrow> MetricsRegistry" where
  "observe_latency name d m = observe_micros name (fdiv (of_int64 d) (lit 1000)) m"

definition metric_histogram :: "string \<Rightarrow> MetricsRegistry \<Rightarrow> LatencyHistogram option" where
  "metric_histogram name m = om_find (mr_histograms m) name"

definition metric_ratio :: "string \<Rightarrow> string \<Rightarrow> MetricsRegistry \<Rightarrow> f64" where
  "metric_ratio numerator denominator m =
     (if metric_counter denominator m = 0 then fzero
      else fdiv (of_int64 (uint (metric_counter numerator m))) (of_int64 (uint (metric_counter denominator m))))"

definition metrics_size :: "MetricsRegistry \<Rightarrow> nat" where
  "metrics_size m = length (mr_counters m) + length (mr_gauges m) + length (mr_histograms m)"

definition metrics_reset :: "MetricsRegistry \<Rightarrow> MetricsRegistry" where
  "metrics_reset m = new_metrics"

record MetricSnapshot =
  mts_name :: string
  mts_kind :: MetricKind
  mts_value :: f64
  mts_p50 :: "f64 option"
  mts_p95 :: "f64 option"
  mts_p99 :: "f64 option"
  mts_samples :: nat

text \<open>
  All metrics ordered by name. Where a counter, a gauge and a histogram share a name \<open>std::sort\<close> leaves their order
  open; here they stay in the order they were collected.
\<close>

definition metrics_snapshot :: "MetricsRegistry \<Rightarrow> MetricSnapshot list" where
  "metrics_snapshot m =
     (let plain = \<lparr>mts_name = [], mts_kind = MetricCounter, mts_value = fzero, mts_p50 = None, mts_p95 = None,
                   mts_p99 = None, mts_samples = 0\<rparr> in
      sort_key mts_name
       (map (\<lambda>(name, v). plain\<lparr>mts_name := name, mts_value := of_int64 (uint v)\<rparr>) (mr_counters m)
        @ map (\<lambda>(name, v). plain\<lparr>mts_name := name, mts_kind := MetricGauge, mts_value := v\<rparr>) (mr_gauges m)
        @ map (\<lambda>(name, h). plain\<lparr>mts_name := name, mts_kind := MetricHistogram, mts_value := mean_micros h,
                 mts_p50 := Some (quantile_micros (lit (1 / 2)) h), mts_p95 := Some (quantile_micros (lit (95 / 100)) h),
                 mts_p99 := Some (quantile_micros (lit (99 / 100)) h), mts_samples := lh_count h\<rparr>) (mr_histograms m)))"

section \<open>Resources\<close>

record ResourceSample =
  rsm_ts :: Timestamp
  rsm_resident_bytes :: "64 word"
  rsm_virtual_bytes :: "64 word"
  rsm_cpu_seconds :: f64
  rsm_cpu_fraction :: f64
  rsm_open_fds :: nat
  rsm_available :: bool

record ResourceMonitor =
  rmn_last :: ResourceSample
  rmn_have_previous :: bool

definition new_resource_monitor :: ResourceMonitor where
  "new_resource_monitor = \<lparr>rmn_last = \<lparr>rsm_ts = kNoTimestamp, rsm_resident_bytes = 0, rsm_virtual_bytes = 0,
     rsm_cpu_seconds = fzero, rsm_cpu_fraction = fzero, rsm_open_fds = 0, rsm_available = False\<rparr>,
     rmn_have_previous = False\<rparr>"

text \<open>The reader is borrowed behind its interface; its answer is an argument.\<close>

definition resource_sample ::
    "(Error, ResourceSample) result \<Rightarrow> Timestamp \<Rightarrow> ResourceMonitor \<Rightarrow> (Error, ResourceSample) result \<times> ResourceMonitor" where
  "resource_sample reading now m =
     (case reading of
        Inl e \<Rightarrow> (Err e, m)
      | Inr r0 \<Rightarrow>
          (let r1 = r0\<lparr>rsm_ts := now\<rparr>; previous = rmn_last m;
               elapsed = rsm_ts r1 - rsm_ts previous;
               seconds = fdiv (of_int64 elapsed) (lit (10 ^ 9));
               fraction = fdiv (fsub (rsm_cpu_seconds r1) (rsm_cpu_seconds previous)) seconds;
               r2 = (if rmn_have_previous m \<and> rsm_available r1 \<and> rsm_available previous \<and> 0 < elapsed
                     then r1\<lparr>rsm_cpu_fraction := if is_finite fraction then fmax fzero fraction else fzero\<rparr> else r1) in
           (Ok r2, \<lparr>rmn_last = r2, rmn_have_previous = True\<rparr>)))"

definition resource_publish :: "ResourceMonitor \<Rightarrow> MetricsRegistry \<Rightarrow> MetricsRegistry" where
  "resource_publish m reg =
     (let s = rmn_last m in
      if \<not> rsm_available s then reg
      else set_gauge ''resource.open_fds'' (of_int64 (int (rsm_open_fds s)))
        (set_gauge ''resource.resident_bytes'' (of_int64 (uint (rsm_resident_bytes s)))
          (set_gauge ''resource.cpu_fraction'' (rsm_cpu_fraction s) reg)))"

section \<open>Validating limits and credentials\<close>

datatype IssueSeverity = IssueWarning | IssueFatal

fun to_string_IssueSeverity :: "IssueSeverity \<Rightarrow> string" where
  "to_string_IssueSeverity IssueWarning = ''warning''"
| "to_string_IssueSeverity IssueFatal = ''fatal''"

record ConfigIssue =
  cis_severity :: IssueSeverity
  cis_field :: string

definition issue_when :: "bool \<Rightarrow> IssueSeverity \<Rightarrow> string \<Rightarrow> ConfigIssue list" where
  "issue_when bad severity field = (if bad then [\<lparr>cis_severity = severity, cis_field = field\<rparr>] else [])"

definition config_fatal_count :: "ConfigIssue list \<Rightarrow> nat" where
  "config_fatal_count issues = length (filter (\<lambda>i. cis_severity i = IssueFatal) issues)"

definition config_warning_count :: "ConfigIssue list \<Rightarrow> nat" where
  "config_warning_count issues = length issues - config_fatal_count issues"

definition config_ok :: "ConfigIssue list \<Rightarrow> bool" where
  "config_ok issues \<longleftrightarrow> config_fatal_count issues = 0"

record ValidatorOptions =
  vop_require_credentials :: bool
  vop_require_risk_limits :: bool
  vop_expected_symbols :: "string list"

definition default_options :: ValidatorOptions where
  "default_options = \<lparr>vop_require_credentials = False, vop_require_risk_limits = False, vop_expected_symbols = []\<rparr>"

text \<open>The check of an expected symbol: empty, or with a space, a tab or a lower-case letter.\<close>

definition check_symbol :: "string \<Rightarrow> ConfigIssue list" where
  "check_symbol symbol =
     (if symbol = [] then issue_when True IssueFatal ''symbols''
      else issue_when
        (list_ex (\<lambda>c. c = CHR '' '' \<or> of_char c = (9 :: int) \<or> (97 :: int) \<le> of_char c \<and> of_char c \<le> (122 :: int)) symbol)
        IssueWarning ''symbols'')"

text \<open>The three values \<open>validate\<close> reads of a configuration: the seed, the results directory, the spend cap.\<close>

definition validate_config :: "ValidatorOptions \<Rightarrow> 64 word \<Rightarrow> string \<Rightarrow> f64 \<Rightarrow> ConfigIssue list" where
  "validate_config opts seed results_dir max_spend_usd =
     issue_when (seed = 0) IssueFatal ''run.seed''
     @ issue_when (results_dir = []) IssueFatal ''run.results_dir''
     @ issue_when (fle max_spend_usd fzero) IssueWarning ''databento.max_spend_usd''
     @ issue_when (\<not> is_finite max_spend_usd) IssueFatal ''data.databento.max_spend_usd''
     @ issue_when (vop_require_credentials opts \<and> fle max_spend_usd fzero) IssueFatal ''databento.max_spend_usd''
     @ concat (map check_symbol (vop_expected_symbols opts))"

definition validate_risk :: "ValidatorOptions \<Rightarrow> RiskLimits \<Rightarrow> ConfigIssue list" where
  "validate_risk opts lims =
     issue_when (fle (max_order_notional lims) fzero) IssueFatal ''risk.max_order_notional''
     @ issue_when (fle (max_gross_leverage lims) fzero) IssueFatal ''risk.max_gross_leverage''
     @ issue_when (fle (max_position_notional lims) fzero) IssueFatal ''risk.max_position_notional''
     @ issue_when (fle (max_concentration lims) fzero \<or> flt (lit 1) (max_concentration lims)) IssueFatal
         ''risk.max_concentration''
     @ issue_when (fle (max_drawdown_pct lims) fzero \<or> fle (lit 1) (max_drawdown_pct lims)) IssueFatal
         ''risk.max_drawdown_pct''
     @ issue_when (vop_require_risk_limits opts \<and> fle (max_daily_turnover lims) fzero) IssueFatal
         ''risk.max_daily_turnover''
     @ issue_when (flt (lit 1000) (max_gross_leverage lims)) IssueWarning ''risk.max_gross_leverage''"

definition validate_credentials :: "ValidatorOptions \<Rightarrow> (string, string) omap \<Rightarrow> ConfigIssue list" where
  "validate_credentials opts environment =
     (if \<not> vop_require_credentials opts then []
      else concat (map (\<lambda>name. issue_when
             (case om_find environment name of None \<Rightarrow> True | Some v \<Rightarrow> v = []) IssueFatal name)
             [''PTL_BROKER_KEY'', ''PTL_BROKER_SECRET'']))"

section \<open>Diagnostics\<close>

record DiagnosticsSnapshot =
  dg_ts :: Timestamp
  dg_session_id :: string
  dg_session_phase :: string
  dg_health :: HealthStatus
  dg_trading_permitted :: bool
  dg_active_strategies :: nat
  dg_open_orders :: nat
  dg_open_positions :: nat
  dg_equity :: Notional
  dg_cash :: Notional
  dg_realized_pnl :: Notional
  dg_unrealized_pnl :: Notional
  dg_gross_exposure :: Notional
  dg_net_exposure :: Notional
  dg_drawdown :: f64
  dg_risk_rejections :: "64 word"
  dg_active_alerts :: nat
  dg_worst_alert :: "AlertSeverity option"

text \<open>The subsystems the diagnostics borrow, and what they keep of their own.\<close>

record Diagnosed =
  dgs_portfolio :: Portfolio
  dgs_oms :: OrderManager
  dgs_risk :: RiskManager
  dgs_health_config :: HealthConfig
  dgs_health :: Components
  dgs_alerts :: AlertManager
  dgs_metrics :: MetricsRegistry

record RuntimeDiagnostics =
  rdg_session_id :: string
  rdg_session_phase :: string
  rdg_strategies :: nat

definition set_session :: "string \<Rightarrow> string \<Rightarrow> RuntimeDiagnostics \<Rightarrow> RuntimeDiagnostics" where
  "set_session i phase d = d\<lparr>rdg_session_id := i, rdg_session_phase := phase\<rparr>"

definition set_active_strategies :: "nat \<Rightarrow> RuntimeDiagnostics \<Rightarrow> RuntimeDiagnostics" where
  "set_active_strategies n d = d\<lparr>rdg_strategies := n\<rparr>"

definition diagnostics_snapshot :: "Diagnosed \<Rightarrow> Timestamp \<Rightarrow> RuntimeDiagnostics \<Rightarrow> DiagnosticsSnapshot" where
  "diagnostics_snapshot sys now d =
     \<lparr>dg_ts = now, dg_session_id = rdg_session_id d, dg_session_phase = rdg_session_phase d,
      dg_health = overall (dgs_health_config sys) now (dgs_health sys),
      dg_trading_permitted = health_trading_permitted (dgs_health_config sys) now (dgs_health sys),
      dg_active_strategies = rdg_strategies d,
      dg_open_orders = length (working (dgs_oms sys)),
      dg_open_positions = length (filter (\<lambda>(key, p). \<not> is_flat p) (pf_positions (dgs_portfolio sys))),
      dg_equity = equity (dgs_portfolio sys), dg_cash = pf_cash (dgs_portfolio sys),
      dg_realized_pnl = pf_realized (dgs_portfolio sys), dg_unrealized_pnl = unrealized_pnl (dgs_portfolio sys),
      dg_gross_exposure = gross_exposure (dgs_portfolio sys), dg_net_exposure = net_exposure (dgs_portfolio sys),
      dg_drawdown = metric_gauge ''portfolio.drawdown'' (dgs_metrics sys),
      dg_risk_rejections = rejection_count (dgs_risk sys), dg_active_alerts = length (alm_active (dgs_alerts sys)),
      dg_worst_alert = worst_active (dgs_alerts sys)\<rparr>"

definition publish_metrics :: "Diagnosed \<Rightarrow> MetricsRegistry \<Rightarrow> MetricsRegistry" where
  "publish_metrics sys reg =
     (let pf = dgs_portfolio sys in
      fold (\<lambda>(name, v). set_gauge name v)
        [(''portfolio.equity'', equity pf), (''portfolio.gross_exposure'', gross_exposure pf),
         (''portfolio.net_exposure'', net_exposure pf), (''portfolio.realized_pnl'', pf_realized pf),
         (''portfolio.unrealized_pnl'', unrealized_pnl pf),
         (''queue.depth'', of_int64 (int (length (working (dgs_oms sys)))))] reg)"

section \<open>The supervisor\<close>

datatype ServiceState = SvcStopped | SvcStarting | SvcRunning | SvcDraining | SvcStopping | SvcFailed

fun to_string_ServiceState :: "ServiceState \<Rightarrow> string" where
  "to_string_ServiceState SvcStopped = ''stopped''"
| "to_string_ServiceState SvcStarting = ''starting''"
| "to_string_ServiceState SvcRunning = ''running''"
| "to_string_ServiceState SvcDraining = ''draining''"
| "to_string_ServiceState SvcStopping = ''stopping''"
| "to_string_ServiceState SvcFailed = ''failed''"

record ServiceConfig =
  suc_drain_timeout :: Duration
  suc_auto_restart :: bool
  suc_max_restarts :: nat
  suc_restart_window :: Duration

definition default_service :: ServiceConfig where
  "default_service = \<lparr>suc_drain_timeout = 30 * 10 ^ 9, suc_auto_restart = True, suc_max_restarts = 3,
     suc_restart_window = 10 * 60 * 10 ^ 9\<rparr>"

record ServiceSupervisor =
  sup_state :: ServiceState
  sup_reason :: string
  sup_restarts :: "Timestamp list"
  sup_drain_began :: Timestamp

definition new_service :: ServiceSupervisor where
  "new_service = \<lparr>sup_state = SvcStopped, sup_reason = [], sup_restarts = [], sup_drain_began = kNoTimestamp\<rparr>"

definition supervisor_start :: "ServiceSupervisor \<Rightarrow> (ops_error, bool) result \<times> ServiceSupervisor" where
  "supervisor_start v =
     (if sup_state v = SvcRunning then (Ok True, v)
      else if sup_state v = SvcDraining \<or> sup_state v = SvcStopping then (Err ShuttingDown, v)
      else (Ok True, v\<lparr>sup_reason := [], sup_state := SvcRunning\<rparr>))"

definition begin_drain :: "Timestamp \<Rightarrow> string \<Rightarrow> ServiceSupervisor \<Rightarrow> (ops_error, bool) result \<times> ServiceSupervisor" where
  "begin_drain now reason v =
     (if sup_state v \<noteq> SvcRunning then (Err NotRunning, v)
      else (Ok True, v\<lparr>sup_state := SvcDraining, sup_reason := reason, sup_drain_began := now\<rparr>))"

definition drain_complete :: "ServiceConfig \<Rightarrow> Timestamp \<Rightarrow> nat \<Rightarrow> ServiceSupervisor \<Rightarrow> bool" where
  "drain_complete cfg now in_flight v =
     (if sup_state v \<noteq> SvcDraining then True
      else if in_flight = 0 then True
      else if \<not> is_set (sup_drain_began v) \<or> \<not> is_set now then False
      else suc_drain_timeout cfg \<le> now - sup_drain_began v)"

definition supervisor_stop :: "ServiceSupervisor \<Rightarrow> (ops_error, bool) result \<times> ServiceSupervisor" where
  "supervisor_stop v =
     (if sup_state v = SvcStopped then (Ok True, v) else (Ok True, v\<lparr>sup_state := SvcStopped\<rparr>))"

definition prune_restarts :: "ServiceConfig \<Rightarrow> Timestamp \<Rightarrow> ServiceSupervisor \<Rightarrow> ServiceSupervisor" where
  "prune_restarts cfg now v =
     (if \<not> is_set now then v
      else v\<lparr>sup_restarts := filter (\<lambda>t. \<not> t < now - suc_restart_window cfg) (sup_restarts v)\<rparr>)"

definition supervisor_failure ::
    "ServiceConfig \<Rightarrow> Timestamp \<Rightarrow> string \<Rightarrow> ServiceSupervisor \<Rightarrow> (ops_error, bool) result \<times> ServiceSupervisor" where
  "supervisor_failure cfg now reason v =
     (Ok True, prune_restarts cfg now
        (v\<lparr>sup_state := SvcFailed, sup_reason := reason, sup_restarts := sup_restarts v @ [now]\<rparr>))"

definition should_restart :: "ServiceConfig \<Rightarrow> ServiceSupervisor \<Rightarrow> bool" where
  "should_restart cfg v =
     (if \<not> suc_auto_restart cfg then False
      else if sup_state v \<noteq> SvcFailed then False
      else length (sup_restarts v) \<le> suc_max_restarts cfg)"

section \<open>The histogram counts every sample\<close>

definition usable_sample :: "f64 \<Rightarrow> bool" where
  "usable_sample micros \<longleftrightarrow> fin micros \<and> \<not> flt micros fzero"

lemma bounds_from_length [simp]: "length (bounds_from n b) = n"
  by (induction n arbitrary: b) simp_all

lemma first_bucket_range: "first_bucket m bs i = Some j \<Longrightarrow> i \<le> j \<and> j < i + length bs"
  by (induction m bs i rule: first_bucket.induct) (force split: if_splits)+

lemma bucket_of_range: "bucket_of m < kBuckets"
  using first_bucket_range [of m bucket_bounds 0]
  by (auto simp: bucket_of_def bucket_bounds_def kBuckets_def split: option.split)

definition histogram_of :: "LatencyHistogram \<Rightarrow> f64 list \<Rightarrow> bool" where
  "histogram_of h samples \<longleftrightarrow> length (lh_counts h) = kBuckets \<and> lh_count h = length (filter usable_sample samples)
     \<and> (\<forall>i<kBuckets. lh_counts h ! i = of_nat (length (filter (\<lambda>m. usable_sample m \<and> bucket_of m = i) samples)))"

lemma record_histogram_of: "histogram_of h samples \<Longrightarrow> histogram_of (record_micros m h) (samples @ [m])"
  using bucket_of_range [of m]
  by (auto simp: histogram_of_def record_micros_def usable_sample_def Let_def nth_list_update)

lemma histogram_run:
  "histogram_of h before \<Longrightarrow> histogram_of (fold record_micros samples h) (before @ samples)"
proof (induction samples arbitrary: h before)
  case (Cons m samples)
  from Cons.IH [OF record_histogram_of [OF Cons.prems]] show ?case by simp
qed simp

text \<open>
  The histogram counts every sample. After any latencies, the count is the number of those that are finite and not
  negative, and each bucket holds, modulo its 64 bits, the number of them that fall into it: the first bucket whose
  bound is not below the sample, and the last one for everything above.
\<close>

theorem histogram_counts_every_sample:
  "lh_count (fold record_micros samples new_histogram) = length (filter usable_sample samples)
   \<and> lh_counts (fold record_micros samples new_histogram)
      = map (\<lambda>i. of_nat (length (filter (\<lambda>m. usable_sample m \<and> bucket_of m = i) samples))) [0..<kBuckets]"
proof -
  have "histogram_of new_histogram []" by (simp add: histogram_of_def new_histogram_def)
  from histogram_run [OF this, of samples] show ?thesis
    by (auto simp: histogram_of_def intro!: nth_equalityI)
qed

section \<open>Limits that validate\<close>

text \<open>
  A limit that is not a number passes validation. Every comparison with a NaN is false, so limits that are all NaN
  raise no issue, and the gate compares against them the same way.
\<close>

theorem nan_limits_pass_validation:
  "validate_risk opts (lims\<lparr>max_order_notional := NaN, max_position_notional := NaN, max_gross_leverage := NaN,
     max_concentration := NaN, max_drawdown_pct := NaN, max_daily_turnover := NaN\<rparr>) = []"
  by (simp add: validate_risk_def issue_when_def fle_def flt_def feq_def)

section \<open>The reported drawdown\<close>

lemma metric_gauge_set:
  "metric_gauge n (set_gauge k v m) = (if n = k \<and> is_finite v then v else metric_gauge n m)"
  by (simp add: metric_gauge_def set_gauge_def omap_simps)

text \<open>
  The drawdown of a snapshot is read from the gauge \<open>portfolio.drawdown\<close>, and nothing that publishes metrics writes
  that gauge: publishing the portfolio and the resources leaves the reported drawdown where it was, which is zero
  for a registry that started empty, whatever the portfolio has lost.
\<close>

theorem published_drawdown_never_moves:
  "dg_drawdown (diagnostics_snapshot (sys\<lparr>dgs_metrics := resource_publish mon (publish_metrics sys reg)\<rparr>) now d)
     = metric_gauge ''portfolio.drawdown'' reg
   \<and> metric_gauge ''portfolio.drawdown'' new_metrics = fzero"
proof -
  have "metric_gauge ''portfolio.drawdown'' (resource_publish mon (publish_metrics sys reg))
        = metric_gauge ''portfolio.drawdown'' reg"
    by (simp add: resource_publish_def publish_metrics_def Let_def metric_gauge_set)
  moreover have "metric_gauge ''portfolio.drawdown'' new_metrics = fzero"
    by (simp add: metric_gauge_def new_metrics_def om_find_empty)
  ultimately show ?thesis by (simp add: diagnostics_snapshot_def)
qed

end
