(* ===== verification/Pipeline.thy ===== *)
theory Pipeline
  imports Construction
begin

text \<open>
  The trading pipeline (\<open>pipeline/trading_pipeline.cpp\<close>), the strategy the program is built around: a bar becomes a
  prediction, the prediction a signal, the signal passes the filters, is sized into a target, and the book is
  rebalanced towards the targets through the order sink. It is an \<open>IStrategy\<close> of the engine: its callbacks are
  programs over the sink. The natural logarithm is a parameter, for the standard leaves its last bit open. The
  generator and the prediction source are borrowed behind their interfaces and are functions here.
\<close>

section \<open>Stored predictions\<close>

record StoredPredictionSource =
  sps_by_instrument :: "(InstrumentId, (Timestamp, f64) omap) omap"
  sps_count :: nat

definition no_predictions :: StoredPredictionSource where
  "no_predictions = \<lparr>sps_by_instrument = [], sps_count = 0\<rparr>"

datatype prediction_error = PredictionNoInstrument | PredictionNoTimestamp | PredictionNotNumber

definition series_of :: "InstrumentId \<Rightarrow> StoredPredictionSource \<Rightarrow> (Timestamp, f64) omap" where
  "series_of i src = (case om_find (sps_by_instrument src) i of None \<Rightarrow> [] | Some m \<Rightarrow> m)"

definition prediction_add ::
    "InstrumentId \<Rightarrow> Timestamp \<Rightarrow> f64 \<Rightarrow> StoredPredictionSource \<Rightarrow> (prediction_error, bool) result \<times> StoredPredictionSource" where
  "prediction_add i produced_at v src =
     (if i = kInvalidInstrument then (Err PredictionNoInstrument, src)
      else if \<not> is_set produced_at then (Err PredictionNoTimestamp, src)
      else if \<not> is_finite v then (Err PredictionNotNumber, src)
      else (Ok True, src\<lparr>sps_by_instrument := om_put i (om_put produced_at v (series_of i src)) (sps_by_instrument src),
                         sps_count := sps_count src + 1\<rparr>))"

text \<open>The entry before \<open>upper_bound\<close>: the last one not after the instant.\<close>

fun latest_before :: "(Timestamp, f64) omap \<Rightarrow> Timestamp \<Rightarrow> (f64 \<times> Timestamp) option \<Rightarrow> (f64 \<times> Timestamp) option" where
  "latest_before [] as_of best = best"
| "latest_before ((t, v) # m) as_of best = (if as_of < t then best else latest_before m as_of (Some (v, t)))"

definition predict_at :: "StoredPredictionSource \<Rightarrow> InstrumentId \<Rightarrow> Timestamp \<Rightarrow> (f64 \<times> Timestamp) option" where
  "predict_at src i as_of =
     (case om_find (sps_by_instrument src) i of None \<Rightarrow> None | Some m \<Rightarrow> latest_before m as_of None)"

section \<open>State and statistics\<close>

record PipelineStats =
  pls_bars_seen :: nat
  pls_predictions_consumed :: nat
  pls_signals_generated :: nat
  pls_signals_actionable :: nat
  pls_signals_filtered :: nat
  pls_rebalances :: nat
  pls_orders_submitted :: nat
  pls_orders_rejected :: nat
  pls_fills_received :: nat
  pls_gross_turnover :: Notional
  pls_realized_costs :: Notional
  pls_signal_hits :: nat
  pls_signals_resolved :: nat
  pls_total_holding_period :: Duration
  pls_closed_positions :: nat
  pls_peak_gross_leverage :: f64
  pls_peak_net_leverage :: f64

definition no_pipeline_stats :: PipelineStats where
  "no_pipeline_stats = \<lparr>pls_bars_seen = 0, pls_predictions_consumed = 0, pls_signals_generated = 0,
     pls_signals_actionable = 0, pls_signals_filtered = 0, pls_rebalances = 0, pls_orders_submitted = 0,
     pls_orders_rejected = 0, pls_fills_received = 0, pls_gross_turnover = fzero, pls_realized_costs = fzero,
     pls_signal_hits = 0, pls_signals_resolved = 0, pls_total_holding_period = 0, pls_closed_positions = 0,
     pls_peak_gross_leverage = fzero, pls_peak_net_leverage = fzero\<rparr>"

definition hit_rate :: "PipelineStats \<Rightarrow> f64" where
  "hit_rate s =
     (if pls_signals_resolved s = 0 then fzero
      else fdiv (of_int64 (int (pls_signal_hits s))) (of_int64 (int (pls_signals_resolved s))))"

text \<open>The integer division of C++ rounds towards zero.\<close>

definition average_holding_period :: "PipelineStats \<Rightarrow> Duration" where
  "average_holding_period s =
     (if pls_closed_positions s = 0 then 0
      else sgn (pls_total_holding_period s) * (\<bar>pls_total_holding_period s\<bar> div int (pls_closed_positions s)))"

record PipelineConfig =
  plc_rebalance_interval_bars :: nat
  plc_flatten_at_session_close :: bool
  plc_filters :: FilterConfig
  plc_sizing :: SizingConfig
  plc_rebalance :: RebalanceConfig
  plc_sectors :: "(InstrumentId, int) omap"

definition default_pipeline :: PipelineConfig where
  "default_pipeline = \<lparr>plc_rebalance_interval_bars = 5, plc_flatten_at_session_close = True,
     plc_filters = default_filters, plc_sizing = default_sizing, plc_rebalance = default_rebalance, plc_sectors = []\<rparr>"

record InstrumentState =
  ist_last_close :: Price
  ist_last_bar_time :: Timestamp
  ist_volatility :: f64
  ist_interval_volume :: f64
  ist_average_volume :: f64
  ist_spread_bps :: Bps
  ist_return_mean :: f64
  ist_return_m2 :: f64
  ist_return_count :: nat
  ist_previous_close :: f64
  ist_position_opened :: Timestamp

definition new_instrument_state :: InstrumentState where
  "new_instrument_state = \<lparr>ist_last_close = fzero, ist_last_bar_time = kNoTimestamp, ist_volatility = fzero,
     ist_interval_volume = fzero, ist_average_volume = fzero, ist_spread_bps = fzero, ist_return_mean = fzero,
     ist_return_m2 = fzero, ist_return_count = 0, ist_previous_close = fzero, ist_position_opened = kNoTimestamp\<rparr>"

text \<open>What the pipeline borrows or is configured with, and what it keeps.\<close>

record PipelineParts =
  plp_generate :: generate_fn
  plp_predictions :: "(InstrumentId \<Rightarrow> Timestamp \<Rightarrow> (f64 \<times> Timestamp) option) option"
  plp_calendar :: "Calendar option"
  plp_cfg :: PipelineConfig
  plp_log :: "f64 \<Rightarrow> f64"

record TradingPipeline =
  tpl_filters :: SignalFilterChain
  tpl_state :: "(InstrumentId, InstrumentState) omap"
  tpl_latest :: "(InstrumentId, Signal) omap"
  tpl_emitted :: "Signal list"
  tpl_stats :: PipelineStats
  tpl_bars_since_rebalance :: nat
  tpl_last_bar_time :: Timestamp

definition new_pipeline :: "PipelineConfig \<Rightarrow> TradingPipeline" where
  "new_pipeline cfg = \<lparr>tpl_filters = new_filters (plc_filters cfg), tpl_state = [], tpl_latest = [], tpl_emitted = [],
     tpl_stats = no_pipeline_stats, tpl_bars_since_rebalance = 0, tpl_last_bar_time = kNoTimestamp\<rparr>"

definition state_for :: "InstrumentId \<Rightarrow> TradingPipeline \<Rightarrow> InstrumentState" where
  "state_for i p = (case om_find (tpl_state p) i of None \<Rightarrow> new_instrument_state | Some st \<Rightarrow> st)"

definition pipeline_start :: "StrategyContext \<Rightarrow> TradingPipeline \<Rightarrow> (string, bool) result \<times> TradingPipeline" where
  "pipeline_start ctx p = (Ok True, p\<lparr>tpl_stats := no_pipeline_stats, tpl_state := [], tpl_latest := [],
     tpl_emitted := [], tpl_bars_since_rebalance := 0\<rparr>)"

section \<open>Market state\<close>

definition note_return :: "f64 \<Rightarrow> InstrumentState \<Rightarrow> InstrumentState" where
  "note_return r st =
     (let n = ist_return_count st + 1;
          delta = fsub r (ist_return_mean st);
          mean = fadd (ist_return_mean st) (fdiv delta (of_int64 (int n)));
          m2 = fadd (ist_return_m2 st) (fmul delta (fsub r mean));
          st1 = st\<lparr>ist_return_count := n, ist_return_mean := mean, ist_return_m2 := m2\<rparr> in
      if 1 < n then st1\<lparr>ist_volatility := fsqrt (fdiv m2 (of_int64 (int (n - 1))))\<rparr> else st1)"

definition update_instrument :: "(f64 \<Rightarrow> f64) \<Rightarrow> Bar \<Rightarrow> InstrumentState \<Rightarrow> InstrumentState" where
  "update_instrument log_fn b st =
     (let close = bar_close b;
          st1 = (if flt fzero (ist_previous_close st) \<and> flt fzero close
                 then (let r = log_fn (fdiv close (ist_previous_close st)) in
                       if is_finite r then note_return r st else st)
                 else st);
          st2 = st1\<lparr>ist_previous_close := close, ist_last_close := close, ist_last_bar_time := bar_close_time b,
                    ist_interval_volume := bar_volume b\<rparr>;
          n = of_int64 (int (max 1 (ist_return_count st2)));
          st3 = st2\<lparr>ist_average_volume := fadd (ist_average_volume st2)
                      (fdiv (fsub (ist_interval_volume st2) (ist_average_volume st2)) n)\<rparr>;
          range = fsub (bar_high b) (bar_low b) in
      st3\<lparr>ist_spread_bps := (if flt fzero close
            then fmul (fmul (fdiv range close) (lit (10 ^ 4))) (lit (1 / 10)) else fzero)\<rparr>)"

definition update_state :: "(f64 \<Rightarrow> f64) \<Rightarrow> Bar \<Rightarrow> TradingPipeline \<Rightarrow> TradingPipeline" where
  "update_state log_fn b p =
     p\<lparr>tpl_state := om_put (bar_instrument b) (update_instrument log_fn b (state_for (bar_instrument b) p)) (tpl_state p)\<rparr>"

definition estimate_costs :: "InstrumentState \<Rightarrow> f64 \<Rightarrow> CostEstimate" where
  "estimate_costs st turnover_fraction =
     \<lparr>ce_half_spread = fmul (fmul (ist_spread_bps st) (lit (1 / 10 ^ 4))) (lit (1 / 2)),
      ce_commission = (if flt fzero (ist_last_close st) then fdiv (lit (35 / 10 ^ 4)) (ist_last_close st) else fzero),
      ce_slippage = fmul (ist_volatility st) (lit (1 / 10)), ce_borrow = fzero,
      ce_turnover_penalty = fmul (fabs turnover_fraction) (lit (1 / 10 ^ 4))\<rparr>"

section \<open>Rebalancing\<close>

text \<open>Targets so far, the running gross and net exposure, and the exposure of each sector.\<close>

type_synonym build = "TargetPortfolio \<times> Notional \<times> Notional \<times> (int, Notional) omap"

definition sector_used :: "(int, Notional) omap \<Rightarrow> int \<Rightarrow> Notional" where
  "sector_used m sector = (case om_find m sector of None \<Rightarrow> fzero | Some n \<Rightarrow> n)"

definition sizing_context ::
    "PipelineConfig \<Rightarrow> Timestamp \<Rightarrow> StrategyContext \<Rightarrow> InstrumentId \<Rightarrow> InstrumentState \<Rightarrow> build \<Rightarrow> SizingContext" where
  "sizing_context cfg now ctx key st = (\<lambda>(tp, gross, net, sectors).
     (let sector = (case om_find (plc_sectors cfg) key of None \<Rightarrow> -1 | Some s \<Rightarrow> s) in
      \<lparr>sx_now = now, sx_equity = equity (sc_portfolio ctx), sx_reference_price = ist_last_close st,
       sx_volatility = ist_volatility st, sx_current_position = ctx_position_of ctx key, sx_sector = sector,
       sx_existing_gross = gross, sx_existing_net = net,
       sx_sector_exposure = (if 0 \<le> sector then sector_used sectors sector else fzero)\<rparr>))"

definition add_target ::
    "PipelineConfig \<Rightarrow> (InstrumentId, InstrumentState) omap \<Rightarrow> Timestamp \<Rightarrow> StrategyContext \<Rightarrow> bool
      \<Rightarrow> InstrumentId \<times> Signal \<Rightarrow> build \<Rightarrow> build" where
  "add_target cfg states now ctx flatten = (\<lambda>(key, s) acc.
     (case om_find states key of
        None \<Rightarrow> acc
      | Some st \<Rightarrow>
          if fle (ist_last_close st) fzero then acc
          else if is_set (expires_at s) \<and> expires_at s < now then acc
          else
            (let (tp, gross, net, sectors) = acc;
                 x = sizing_context cfg now ctx key st acc;
                 sized = (if flatten then no_sizing
                          else (case size_position (plc_sizing cfg) s x of Inl _ \<Rightarrow> no_sizing | Inr d \<Rightarrow> d));
                 target = \<lparr>tg_instrument = key, tg_quantity = szd_target_position sized,
                           tg_reference_price = ist_last_close st, tg_weight = szd_final_weight sized,
                           tg_net_edge = sig_net_edge s\<rparr>;
                 n = fabs (szd_target_notional sized) in
             (case target_set target tp of
                (Inl _, _) \<Rightarrow> acc
              | (Inr _, tp') \<Rightarrow>
                  (tp', fadd gross n, fadd net (szd_target_notional sized),
                   if 0 \<le> sx_sector x then om_put (sx_sector x) (fadd (sector_used sectors (sx_sector x)) n) sectors
                   else sectors)))))"

definition build_targets ::
    "PipelineConfig \<Rightarrow> (InstrumentId, InstrumentState) omap \<Rightarrow> (InstrumentId, Signal) omap \<Rightarrow> Timestamp
      \<Rightarrow> StrategyContext \<Rightarrow> bool \<Rightarrow> TargetPortfolio" where
  "build_targets cfg states signals now ctx flatten =
     fst (fold (add_target cfg states now ctx flatten) signals (new_targets now, fzero, fzero, []))"

definition count_submit :: "(engine_error, OrderId) result \<Rightarrow> TradingPipeline \<Rightarrow> TradingPipeline" where
  "count_submit r p =
     (let s = tpl_stats p in
      p\<lparr>tpl_stats := (case r of
          Inr _ \<Rightarrow> s\<lparr>pls_orders_submitted := pls_orders_submitted s + 1\<rparr>
        | Inl _ \<Rightarrow> s\<lparr>pls_orders_rejected := pls_orders_rejected s + 1\<rparr>)\<rparr>)"

fun submit_all :: "Order list \<Rightarrow> TradingPipeline \<Rightarrow> (TradingPipeline \<Rightarrow> TradingPipeline program) \<Rightarrow> TradingPipeline program" where
  "submit_all [] p k = k p"
| "submit_all (o1 # os) p k = SubmitOrder o1 (\<lambda>r. submit_all os (count_submit r p) k)"

definition note_leverage :: "StrategyContext \<Rightarrow> f64 \<Rightarrow> TradingPipeline \<Rightarrow> TradingPipeline" where
  "note_leverage ctx eq p =
     (let gross = fdiv (gross_exposure (sc_portfolio ctx)) eq;
          net = fdiv (fabs (net_exposure (sc_portfolio ctx))) eq; s = tpl_stats p in
      p\<lparr>tpl_stats := s\<lparr>pls_peak_gross_leverage := fmax (pls_peak_gross_leverage s) gross,
                        pls_peak_net_leverage := fmax (pls_peak_net_leverage s) net\<rparr>\<rparr>)"

definition note_plan :: "RebalancePlan \<Rightarrow> TradingPipeline \<Rightarrow> TradingPipeline" where
  "note_plan plan p =
     (let s = tpl_stats p in
      p\<lparr>tpl_stats := s\<lparr>pls_rebalances := pls_rebalances s + 1,
                        pls_gross_turnover := fadd (pls_gross_turnover s) (rbp_gross_turnover plan)\<rparr>\<rparr>)"

definition pipeline_rebalance ::
    "PipelineConfig \<Rightarrow> Timestamp \<Rightarrow> bool \<Rightarrow> TradingPipeline \<Rightarrow> (TradingPipeline \<Rightarrow> TradingPipeline program)
      \<Rightarrow> TradingPipeline program" where
  "pipeline_rebalance cfg now flatten p k =
     Look (\<lambda>ctx.
       (let eq = equity (sc_portfolio ctx) in
        if \<not> is_finite eq \<or> fle eq fzero then k p
        else
          (case plan_rebalance (plc_rebalance cfg)
                  (build_targets cfg (tpl_state p) (tpl_latest p) now ctx flatten) (sc_portfolio ctx) of
             Inl _ \<Rightarrow> k p
           | Inr plan \<Rightarrow>
               if actionable_trades plan = 0 then k p
               else
                 (let p1 = note_plan plan p in
                  to_orders (plc_rebalance cfg) plan now (\<lambda>orders.
                    case orders of
                      Inl _ \<Rightarrow> k p1
                    | Inr os \<Rightarrow> submit_all os p1 (\<lambda>p2. Look (\<lambda>ctx2. k (note_leverage ctx2 eq p2))))))))"

section \<open>The callbacks\<close>

definition bar_input :: "PipelineParts \<Rightarrow> Bar \<Rightarrow> InstrumentState \<Rightarrow> GeneratorInput option" where
  "bar_input q b st =
     (let base = \<lparr>gi_as_of = bar_close_time b, gi_instrument = bar_instrument b, gi_prediction = fzero,
                  gi_prediction_time = kNoTimestamp, gi_volatility = ist_volatility st,
                  gi_reference_price = bar_close b, gi_costs = estimate_costs st fzero\<rparr> in
      case plp_predictions q of
        None \<Rightarrow> Some (base\<lparr>gi_prediction := ist_return_mean st, gi_prediction_time := bar_close_time b\<rparr>)
      | Some predict \<Rightarrow>
          (case predict (bar_instrument b) (bar_close_time b) of
             None \<Rightarrow> None
           | Some (v, produced) \<Rightarrow> Some (base\<lparr>gi_prediction := v, gi_prediction_time := produced\<rparr>)))"

definition filter_context :: "Bar \<Rightarrow> InstrumentState \<Rightarrow> GeneratorInput \<Rightarrow> FilterContext" where
  "filter_context b st gin =
     \<lparr>fx_now = bar_close_time b, fx_realized_volatility = ist_volatility st,
      fx_interval_volume = ist_interval_volume st, fx_average_volume = ist_average_volume st,
      fx_spread_bps = ist_spread_bps st, fx_feature_age = bar_close_time b - ist_last_bar_time st,
      fx_prediction_age = (if is_set (gi_prediction_time gin) then bar_close_time b - gi_prediction_time gin else 0),
      fx_has_market_data = True\<rparr>"

definition note_signal :: "PipelineParts \<Rightarrow> Signal \<Rightarrow> TradingPipeline \<Rightarrow> TradingPipeline" where
  "note_signal q s p =
     (let st = tpl_stats p;
          st1 = st\<lparr>pls_signals_generated := pls_signals_generated st + 1\<rparr> in
      p\<lparr>tpl_stats := st1, tpl_emitted := tpl_emitted p @ [s]\<rparr>)"

definition accept_signal :: "PipelineParts \<Rightarrow> Bar \<Rightarrow> Signal \<Rightarrow> TradingPipeline \<Rightarrow> TradingPipeline program" where
  "accept_signal q b s p =
     (let st = tpl_stats p;
          p1 = (if is_actionable s then p\<lparr>tpl_stats := st\<lparr>pls_signals_actionable := pls_signals_actionable st + 1\<rparr>\<rparr>
                else p);
          n = tpl_bars_since_rebalance p1 + 1;
          p2 = p1\<lparr>tpl_latest := om_put (sig_instrument s) s (tpl_latest p1), tpl_bars_since_rebalance := n\<rparr> in
      if plc_rebalance_interval_bars (plp_cfg q) \<le> n
      then pipeline_rebalance (plp_cfg q) (bar_close_time b) False p2
             (\<lambda>p3. Return (p3\<lparr>tpl_bars_since_rebalance := 0\<rparr>))
      else Return p2)"

definition filter_signal :: "PipelineParts \<Rightarrow> Bar \<Rightarrow> GeneratorInput \<Rightarrow> Signal \<Rightarrow> TradingPipeline \<Rightarrow> TradingPipeline program" where
  "filter_signal q b gin s p =
     (let x = filter_context b (state_for (bar_instrument b) p) gin;
          decision = filter_evaluate (tpl_filters p) s x (plp_calendar q);
          p1 = p\<lparr>tpl_filters := filter_record (sig_instrument s) decision (fx_now x) (tpl_filters p)\<rparr>;
          st = tpl_stats p1 in
      if decision \<noteq> FrPassed
      then Return (p1\<lparr>tpl_stats := st\<lparr>pls_signals_filtered := pls_signals_filtered st + 1\<rparr>\<rparr>)
      else accept_signal q b s p1)"

definition pipeline_on_bar :: "PipelineParts \<Rightarrow> Bar \<Rightarrow> TradingPipeline \<Rightarrow> TradingPipeline program" where
  "pipeline_on_bar q b p0 =
     (let s0' = tpl_stats p0;
          p1 = update_state (plp_log q) b
                 (p0\<lparr>tpl_stats := s0'\<lparr>pls_bars_seen := pls_bars_seen s0' + 1\<rparr>, tpl_last_bar_time := bar_close_time b\<rparr>) in
      case bar_input q b (state_for (bar_instrument b) p1) of
        None \<Rightarrow> Return p1
      | Some gin \<Rightarrow>
          (let s1' = tpl_stats p1;
               p2 = (if plp_predictions q = None then p1
                     else p1\<lparr>tpl_stats := s1'\<lparr>pls_predictions_consumed := pls_predictions_consumed s1' + 1\<rparr>\<rparr>) in
           case plp_generate q gin of
             Inl _ \<Rightarrow> Return p2
           | Inr s \<Rightarrow> filter_signal q b gin s (note_signal q s p2)))"

definition pipeline_on_fill :: "Fill \<Rightarrow> StrategyContext \<Rightarrow> TradingPipeline \<Rightarrow> TradingPipeline" where
  "pipeline_on_fill f ctx p =
     (let i = f_instrument f; st = state_for i p; s = tpl_stats p;
          s1' = s\<lparr>pls_fills_received := pls_fills_received s + 1,
                  pls_realized_costs := fadd (pls_realized_costs s) (fill_total_cost f)\<rparr>;
          position = ctx_position_of ctx i;
          (st2, s2') =
            (if feq position fzero then
               (if is_set (ist_position_opened st)
                then (st\<lparr>ist_position_opened := kNoTimestamp\<rparr>,
                      s1'\<lparr>pls_total_holding_period := pls_total_holding_period s1' + (fill_time (f_times f) - ist_position_opened st),
                          pls_closed_positions := pls_closed_positions s1' + 1\<rparr>)
                else (st, s1'))
             else if \<not> is_set (ist_position_opened st) then (st\<lparr>ist_position_opened := fill_time (f_times f)\<rparr>, s1')
             else (st, s1'));
          s3' =
            (case om_find (tpl_latest p) i of
               None \<Rightarrow> s2'
             | Some sg \<Rightarrow>
                 if flt fzero (ist_last_close st2) \<and> flt fzero (f_arrival_price f) \<and> direction_sign (sig_direction sg) \<noteq> 0
                 then (let move = fsub (ist_last_close st2) (f_arrival_price f);
                           d = direction_sign (sig_direction sg);
                           s4 = s2'\<lparr>pls_signals_resolved := pls_signals_resolved s2' + 1\<rparr> in
                       if flt fzero move \<and> 0 < d \<or> flt move fzero \<and> d < 0
                       then s4\<lparr>pls_signal_hits := pls_signal_hits s4 + 1\<rparr> else s4)
                 else s2') in
      p\<lparr>tpl_state := om_put i st2 (tpl_state p), tpl_stats := s3'\<rparr>)"

definition pipeline_session_open :: "TradingPipeline \<Rightarrow> TradingPipeline program" where
  "pipeline_session_open p = Return (p\<lparr>tpl_latest := [], tpl_bars_since_rebalance := 0\<rparr>)"

definition pipeline_session_close :: "PipelineParts \<Rightarrow> Timestamp \<Rightarrow> TradingPipeline \<Rightarrow> TradingPipeline program" where
  "pipeline_session_close q now p =
     (if \<not> plc_flatten_at_session_close (plp_cfg q) then Return p
      else pipeline_rebalance (plp_cfg q) now True p (\<lambda>p1. Return (p1\<lparr>tpl_latest := []\<rparr>)))"

definition trading_pipeline :: "PipelineParts \<Rightarrow> TradingPipeline IStrategy" where
  "trading_pipeline q =
     \<lparr>on_start = pipeline_start,
      on_bar = pipeline_on_bar q,
      on_quote = \<lambda>_ p. Return p, on_trade = \<lambda>_ p. Return p,
      on_fill = pipeline_on_fill,
      on_session_open = \<lambda>_ p. pipeline_session_open p,
      on_session_close = pipeline_session_close q,
      on_stop = \<lambda>_ p. p\<rparr>"

definition hash_signal :: "Signal \<Rightarrow> 64 word \<Rightarrow> 64 word" where
  "hash_signal s h0 =
     (let h1 = hash_bytes (bytes_le 8 (sig_as_of s)) h0;
          h2 = hash_bytes (bytes_le 4 (uint (sig_instrument s))) h1;
          h3 = hash_bytes (bytes_le 4 (direction_sign (sig_direction s))) h2;
          h4 = hash_bytes (bytes_le 8 (f64_bits (sig_net_edge s))) h3 in
      hash_bytes (bytes_le 8 (f64_bits (sig_confidence s))) h4)"

definition pipeline_content_hash :: "TradingPipeline \<Rightarrow> 64 word" where
  "pipeline_content_hash p = fold hash_signal (tpl_emitted p) 0xcbf29ce484222325"

section \<open>A stored prediction is never from the future\<close>

lemma latest_before_cases:
  assumes "om_inv m"
  shows "case latest_before m as_of best of
     None \<Rightarrow> best = None \<and> (\<forall>t v. (t, v) \<in> set m \<longrightarrow> as_of < t)
   | Some (v, t) \<Rightarrow> ((t, v) \<in> set m \<and> t \<le> as_of \<and> (\<forall>u w. (u, w) \<in> set m \<longrightarrow> u \<le> as_of \<longrightarrow> u \<le> t))
       \<or> (best = Some (v, t) \<and> (\<forall>u w. (u, w) \<in> set m \<longrightarrow> as_of < u))"
  using assms
proof (induction m as_of best rule: latest_before.induct)
  case (2 t v m as_of best)
  show ?case
  proof (cases "as_of < t")
    case True
    with 2(2) show ?thesis by (cases best) force+
  next
    case False
    with 2 show ?thesis by (auto split: option.splits)
  qed
qed (auto split: option.split)

lemma latest_before_answers:
  assumes "om_inv m"
  shows "case latest_before m as_of None of
     None \<Rightarrow> \<forall>t v. om_find m t = Some v \<longrightarrow> as_of < t
   | Some (v, t) \<Rightarrow> om_find m t = Some v \<and> t \<le> as_of \<and> (\<forall>u w. om_find m u = Some w \<longrightarrow> u \<le> as_of \<longrightarrow> u \<le> t)"
proof -
  have "(t, v) \<in> set m \<longleftrightarrow> om_find m t = Some v" for t v
    using om_in_find [OF assms] om_find_in [of m t] by blast
  then show ?thesis
    using latest_before_cases [OF assms, where as_of = as_of and best = None] by (simp split: option.splits prod.splits)
qed

datatype prediction_op = AddPrediction InstrumentId Timestamp f64

fun prediction_step :: "prediction_op \<Rightarrow> StoredPredictionSource \<Rightarrow> StoredPredictionSource" where
  "prediction_step (AddPrediction i t v) src = snd (prediction_add i t v src)"

text \<open>The value the source was last given for an instrument at an instant.\<close>

fun given :: "InstrumentId \<Rightarrow> Timestamp \<Rightarrow> prediction_op \<Rightarrow> f64 option \<Rightarrow> f64 option" where
  "given i t (AddPrediction j u v) old =
     (if j = i \<and> u = t \<and> i \<noteq> kInvalidInstrument \<and> is_set t \<and> fin v then Some v else old)"

definition given_by :: "prediction_op list \<Rightarrow> InstrumentId \<Rightarrow> Timestamp \<Rightarrow> f64 option" where
  "given_by ops i t = fold (given i t) ops None"

definition predictions_ok :: "StoredPredictionSource \<Rightarrow> bool" where
  "predictions_ok src \<longleftrightarrow> (\<forall>i. om_inv (series_of i src))"

interpretation predictions: stepped prediction_step predictions_ok
proof unfold_locales
  show "predictions_ok (prediction_step x src)" if "predictions_ok src" for x src
    using that by (cases x) (auto simp: predictions_ok_def prediction_add_def series_of_def omap_simps)
qed

lemma series_step:
  "om_find (series_of i (prediction_step x src)) t = given i t x (om_find (series_of i src) t)"
  by (cases x) (auto simp: prediction_add_def series_of_def omap_simps)

lemma series_run:
  "om_find (series_of i (fold prediction_step ops src)) t = fold (given i t) ops (om_find (series_of i src) t)"
  by (induction ops arbitrary: src) (simp_all add: series_step)

text \<open>
  A stored prediction is the latest one made by the time it is asked for, never one from the future: whatever was
  added, the answer is the value last given for an instant not after the query, no later such instant was given,
  and there is no answer only when none was given.
\<close>

theorem stored_prediction_is_from_the_past:
  "case predict_at (fold prediction_step ops no_predictions) i as_of of
     None \<Rightarrow> (\<forall>t. given_by ops i t = None \<or> as_of < t)
   | Some (v, t) \<Rightarrow> t \<le> as_of \<and> given_by ops i t = Some v
       \<and> (\<forall>u. given_by ops i u = None \<or> as_of < u \<or> u \<le> t)"
proof -
  define src where "src = fold prediction_step ops no_predictions"
  have g: "om_find (series_of i src) t = given_by ops i t" for t
    unfolding src_def given_by_def series_run by (simp add: series_of_def no_predictions_def)
  have "predictions_ok src"
    using predictions.run_inv [of no_predictions ops]
    by (simp add: src_def predictions.run_def predictions_ok_def series_of_def no_predictions_def)
  then have inv: "om_inv (series_of i src)" by (simp add: predictions_ok_def)
  have p: "predict_at src i as_of = latest_before (series_of i src) as_of None"
    by (simp add: predict_at_def series_of_def split: option.split)
  show ?thesis
    unfolding src_def [symmetric] p using latest_before_answers [OF inv, of as_of]
    by (auto simp: g not_less split: option.splits)
qed

section \<open>What the pipeline sends\<close>












section \<open>What the flattening leaves\<close>

text \<open>Six shares at 128 and 256 in cash: three quarters of the equity is invested.\<close>

definition held_book :: Portfolio where
  "held_book = (new_portfolio default_portfolio_config)\<lparr>pf_cash := Fin 256,
     pf_positions := [(1, (new_position 1)\<lparr>pos_quantity := Fin 6, pos_average_cost := Fin 128\<rparr>)],
     pf_marks := [(1, \<lparr>mark_bid = Fin 128, mark_ask = Fin 128\<rparr>)]\<rparr>"

lemma exact_small:
  "fmul (Fin 6) (Fin 128) = Fin 768" "fadd (Fin 0) (Fin 768) = Fin 768" "fadd (Fin 256) (Fin 768) = Fin 1024"
  "fsub (Fin 0) (Fin 6) = Fin (- 6)"
  by (simp_all add: fmul_def fadd_def fsub_def lit_int_exact)

lemma held_equity: "equity held_book = Fin 1024"
  by (simp add: equity_def position_value_def sum_open_def held_book_def is_flat_def market_value_def new_position_def
      mark_for_def mark_of_mode_def new_portfolio_def default_portfolio_config_def om_find_Cons f64_sem
      is_long_def is_short_def exact_small fzero_def split: MarkMode.split)

lemma three_quarters: "fdiv (Fin 768) (Fin 1024) = Fin (3 / 4)" "lit (1 / 2) = Fin (1 / 2)" "lit (5 / 1000) = lit (1 / 200)"
  by (simp_all add: fdiv_def f64_eval)

lemma held_plan: "plan_rebalance default_rebalance (new_targets now) held_book = Inl (TooMuchTurnover (Fin (3 / 4)))"
proof -
  have uni: "universe (new_targets now) held_book = [1]"
    by (simp add: universe_def new_targets_def held_book_def is_flat_def new_position_def f64_sem)
  have max_turnover: "rbc_max_turnover default_rebalance = Fin (1 / 2)"
    by (simp add: default_rebalance_def three_quarters)
  have lot: "fmul (ftrunc (fdiv (Fin (- 6)) (Fin 1))) (Fin 1) = Fin (- 6)"
    by (simp add: fdiv_def fmul_def lit_int_exact)
  have drift: "\<not> flt (Fin (3 / 4)) (lit (1 / 200))"
  proof -
    have "fle (lit (1 / 200)) (lit (1 / 2))" by (rule lit_mono) simp
    then have "fle (lit (1 / 200)) (Fin (1 / 2))" by (simp add: three_quarters)
    then have "flt (lit (1 / 200)) (Fin (3 / 4))" by (rule fle_flt_trans) (simp add: f64_sem)
    then show ?thesis by (rule flt_asym)
  qed
  have trade: "plan_trade default_rebalance (Fin 1024) (new_targets now) held_book 1 =
      \<lparr>rbt_instrument = 1, rbt_current = Fin 6, rbt_target = fzero, rbt_delta = Fin (- 6), rbt_side = Sell,
       rbt_reference_price = Fin 128, rbt_notional = Fin 768, rbt_drift = Fin (3 / 4), rbt_skipped = False,
       rbt_skip_reason = NotSkipped\<rparr>"
    by (simp add: plan_trade_def Let_def target_find_def new_targets_def mark_price_def position_of_def held_book_def
        om_find_Cons mark_for_def mark_of_mode_def new_portfolio_def default_portfolio_config_def is_short_def
        new_position_def default_rebalance_def exact_small three_quarters drift lot lit_int_exact fzero_def f64_sem)
  show ?thesis
    by (simp add: plan_rebalance_def held_equity uni trade Let_def max_turnover three_quarters exact_small
        fzero_def f64_sem)
qed

text \<open>The orders a program submits when the context never changes and every submission is accepted.\<close>

primrec orders_sent :: "StrategyContext \<Rightarrow> 's program \<Rightarrow> Order list" where
  "orders_sent ctx (Return s) = []"
| "orders_sent ctx (Look f) = orders_sent ctx (f ctx)"
| "orders_sent ctx (FreshId f) = orders_sent ctx (f 1)"
| "orders_sent ctx (SubmitOrder o1 f) = o1 # orders_sent ctx (f (Inr (ord_id o1)))"
| "orders_sent ctx (CancelOrder i f) = orders_sent ctx (f (Inr True))"

text \<open>
  Flattening at the close can do nothing. With the default configuration a book of which more than half the equity
  is invested is not flattened at all: the plan that closes it turns over more than the limit of one rebalance and
  is refused, so the session close sends no order and the position is held overnight.
\<close>

theorem flattening_may_be_refused:
  "orders_sent (ctx\<lparr>sc_portfolio := held_book\<rparr>)
      (on_session_close (trading_pipeline (q\<lparr>plp_cfg := default_pipeline\<rparr>)) now (p\<lparr>tpl_latest := []\<rparr>)) = []
   \<and> pf_positions held_book = [(1, (new_position 1)\<lparr>pos_quantity := Fin 6, pos_average_cost := Fin 128\<rparr>)]
   \<and> plc_flatten_at_session_close default_pipeline"
proof -
  have targets: "build_targets default_pipeline st [] now c True = new_targets now" for st c
    by (simp add: build_targets_def)
  have cfg: "plc_flatten_at_session_close default_pipeline" "plc_rebalance default_pipeline = default_rebalance"
    by (simp_all add: default_pipeline_def)
  show ?thesis
    by (simp add: trading_pipeline_def pipeline_session_close_def pipeline_rebalance_def Let_def held_equity
        targets cfg held_plan f64_sem) (simp add: held_book_def)
qed

text \<open>The age of the features is always zero: the state read by the filter was stamped by the same bar.\<close>

theorem features_are_never_stale:
  "fx_feature_age (filter_context b (state_for (bar_instrument b) (update_state log_fn b p)) gin) = 0"
proof -
  have "ist_last_bar_time (update_instrument log_fn b st) = bar_close_time b" for st
    by (simp add: update_instrument_def Let_def)
  then show ?thesis by (simp add: filter_context_def state_for_def update_state_def omap_simps)
qed

end
