(* ===== verification/Spec2Isabelle.thy ===== *)
theory Spec2Isabelle
  imports LiveSession PaperSession Validator InstrumentTable Databento Labels Attribution Trials StrategyCatalogue Monitoring Pipeline
begin

text \<open>
  A model of the Predictive Trading Lab: the C++ engine that runs one strategy against replayed,
  simulated or live markets. The theories translate the sources under \<open>src/src\<close> and
  \<open>src/include/ptl\<close>, function by function and under the same names where the logic allows it, and prove
  what makes each part correct.

  How the program works. A market data source delivers events in time order and moves the simulated
  clock. The engine (\<open>engine.cpp\<close>) updates the market state of the instrument, lets the venue simulator
  fill what has arrived (\<open>broker.cpp\<close>), books each fill in the order manager, the portfolio and the
  journal, and then runs the strategy's callback, which may submit orders. Every submission passes the
  risk gate, gets a latency and waits at the venue until its arrival.

  Theories, in the order of their dependence:
    \<^item> \<open>Prelude\<close>: results, ordered maps (\<open>std::map\<close>), and the interfaces \<open>keyed_store\<close> and \<open>stepped\<close>.
    \<^item> \<open>Float64\<close>: IEEE binary64 values, with round to nearest even defined on the reals; every price,
      quantity and amount of the program is such a value, so rounding, infinities and NaN are modelled.
    \<^item> \<open>Core\<close> (\<open>core/types, time, result, clock\<close>): scalars, the timestamp chain, the simulated clock.
    \<^item> \<open>InstrumentTable\<close>, \<open>Rng\<close> (\<open>core/instrument_table, rng\<close>).
    \<^item> \<open>MarketData\<close> (\<open>market/events, source\<close>): events, the replay source, the merge.
    \<^item> \<open>CivilTime\<close> (\<open>core/types\<close>): civil dates, the timestamp parser and its printer.
    \<^item> \<open>Calendar\<close> (\<open>market/calendar, session, source\<close>): the exchange calendar and session markers.
    \<^item> \<open>Validator\<close> (\<open>market/validator\<close>): the validation pass over a stream.
    \<^item> \<open>Symbology\<close>, \<open>Vendor\<close>, \<open>Databento\<close> (\<open>market/symbol_mapper, http, capability, provider, alpaca\<close>, \<open>databento\<close>): from
      vendor payloads to validated events, with the entitlement gate and the spend guard.
    \<^item> \<open>Oms\<close>, \<open>OrderManager\<close> (\<open>oms/order, fill, order_manager\<close>).
    \<^item> \<open>Portfolio\<close>, \<open>Accounting\<close>, \<open>Risk\<close> (\<open>portfolio\<close>, \<open>accounting\<close>, \<open>risk\<close>).
    \<^item> \<open>ExecutionModels\<close>, \<open>QuoteBook\<close>, \<open>Broker\<close> (\<open>execution\<close>).
    \<^item> \<open>Engine\<close> (\<open>engine/engine, context, strategy\<close>).
    \<^item> \<open>AlgoSchedule\<close>, \<open>Algorithms\<close>, \<open>Executor\<close> (\<open>algo\<close>): execution schedules, the six execution
      algorithms behind their interface, and the executor that routes their children into the engine's
      order sink.
    \<^item> \<open>LiveConnection\<close>, \<open>WireText\<close>, \<open>LiveTranslator\<close>, \<open>LiveBroker\<close>, \<open>LiveSession\<close> (\<open>live\<close>): the
      connection to a venue, the text of numbers on the wire, the translation of orders and replies, the
      broker adapter with its reconciliation, and the session that drives the engine from it.
    \<^item> \<open>PaperBroker\<close>, \<open>PaperSession\<close> (\<open>paper\<close>): the paper account, its broker adapter, and the session
      around the engine with its persistence, recovery and daily reset.
    \<^item> \<open>Signals\<close>, \<open>Construction\<close>, \<open>Pipeline\<close> (\<open>signal\<close>, \<open>sizing\<close>, \<open>construction\<close>, \<open>pipeline\<close>): the strategy
      the program is built around, from a prediction over signal, filters and sizing to the orders of a
      rebalance; it is an \<open>IStrategy\<close> of \<open>Engine\<close>.
    \<^item> \<open>WalkForward\<close> (\<open>validation\<close>): the walk-forward splitter and the holdout guard.
    \<^item> \<open>Labels\<close> (\<open>labels\<close>): the forward-looking labels the splitter runs over.
    \<^item> \<open>Trials\<close> (\<open>experiments/registry, research/trial\<close>): the experiment registry, trial identifiers and the
      validation of research.
    \<^item> \<open>StrategyCatalogue\<close> (\<open>strategy/registry\<close>, \<open>engine/strategy\<close>): the versioned registry of strategies and
      the engine's factories.
    \<^item> \<open>Health\<close> (\<open>ops/health\<close>): the health monitor, the circuit breaker, the watchdog and the alerts.
    \<^item> \<open>Performance\<close>, \<open>Attribution\<close> (\<open>analytics\<close>, \<open>attribution\<close>): drawdowns, statistics, exposure and the
      metrics of a curve, the decomposition of profit and loss and the quality of execution.
    \<^item> \<open>Monitoring\<close> (\<open>ops/metrics, diagnostics\<close>): latency histograms, the metric registry, the validation of
      limits, the snapshot of the running system and the service supervisor.

  Conventions. A class is a record of its data members, an operation takes the state and returns it
  updated, \<open>Result<T>\<close> is a sum with the error on the left, and an exception is a value of its own type.
  Timestamps and durations are integers of nanoseconds; the midnights of dates, which leave the 64 bits after 2262,
  are wrapped as the stored values are (\<open>CivilTime\<close>, \<open>Calendar\<close>), and the theorems about them name the range that
  fits. Ids and counters of fixed width are words; the sums of configured sizes wrap as \<open>std::size_t\<close> does
  (\<open>WalkForward\<close>, \<open>Labels\<close>), with the bound that excludes it as a hypothesis and what a wrap does as a theorem. A
  strategy is a parameter: a record of callbacks over a state of its own, each returning a program of
  calls on the order sink. Library functions whose last bit the C++ standard leaves open (\<open>pow\<close>, \<open>log\<close>)
  are parameters as well. In the live theories the clock and the transport are functions of an outside world that the
  operations thread.

  Loops. All loops are structural or over a finite list, except the two rejection loops of the random
  number generator, which are partial functions with \<open>None\<close> for a draw that never ends, and
  \<open>Engine::run\<close>, whose loop over chunks of 1024 events is proved terminating by the number of events
  left in the source. The loop of a live session, which may run for ever, and the loop of the walk-forward
  splitter, whose sums may wrap, are partial functions; the splitter ends for every configuration whose sums fit.

  What the lemmas show. Interfaces: \<open>keyed_store\<close> (a lookup after an update) is interpreted by the
  ordered maps; \<open>stepped\<close> (an invariant kept by every step holds after any run) by the interning table,
  the portfolio, the journal, the quote book, the symbol mapper, the strategy catalogue, the health monitor, the circuit
  breaker, the alerts, the stored predictions and the experiment registry; \<open>cost_model\<close> (a cost model that
  only ever moves a price against the trader) by the standard cost model; \<open>execution_algorithm\<close> (what a
  child may be) by all six algorithms; \<open>guarded_sink\<close> (what an order sink
  keeps) and \<open>recorded_sink\<close> (which orders it accepted) by the engine; \<open>order_translator\<close> (what a venue's requests must say) by the Alpaca translator; and
  \<open>signal_source\<close> (a signal is made now, from the past) by the three generators.

  Safety over runs: no order bypasses the risk gate, no fill precedes its order's arrival, no overfill,
  terminal orders are frozen, an order of the strategy pipeline is one its plan asked for. Accounting:
  positions refine an exact account, trades add up to the realised profit bit for bit, the decomposition of
  profit and loss charges every fill once, and the computations of a drawdown agree, window by window. Control: the
  stepped and the batch runs are the same run, and a paper session is a backtest. Live: nothing is sent to a
  venue that is not synchronised, no sequence number is delivered twice, a request says exactly which order it is, and
  the two books are compared without a gap. Research: for sizes that fit, folds are disjoint and no training target reads a
  price of the evaluation, and the text of a trial identifies it. Operations: trading follows the health reports
  and an open breaker lets nothing through. Vendors: no record is lost silently, no quote is downloaded above
  the spend guard, and a live source never goes back in time.

  Not modelled: the network clients and the JSON parser behind their interfaces, features, statistical models and
  optimisers, the experiment runner and its storage, text reports, logging, the JSON of a persisted session,
  and the Python bindings; \<open>reserve\<close> and other capacity hints.
\<close>

end
